(* ===== verification/Prelude.thy ===== *)
theory Prelude
  imports Complex_Main "HOL-Library.AList" "HOL-Library.Multiset"
begin

text \<open>
  Shared vocabulary of the development: Python exceptions as values, the result monad the
  modelled operations run in, and generic facts about lists that several components use.

  The \<^emph>\<open>class\<close> of a Python exception is modelled, its message is not: a caller of the modelled
  code can branch on the class only.
\<close>

named_theorems res_simps \<open>equations of the result monad\<close>

datatype exc =
    AttributeError
  | TypeError
  | ValueError
  | KeyError
  | IndexError
  | ExprError     \<comment> \<open>the parser's own subclass of \<open>ValueError\<close>\<close>
  | OutOfFuel     \<comment> \<open>never raised by the code: the model's recursion bound was too small\<close>

type_synonym 'a res = "exc + 'a"

definition rbind :: "'e + 'a \<Rightarrow> ('a \<Rightarrow> 'e + 'b) \<Rightarrow> 'e + 'b" where
  "rbind m f = (case m of Inl e \<Rightarrow> Inl e | Inr x \<Rightarrow> f x)"

lemma rbind_Inl [simp, res_simps]: "rbind (Inl e) f = Inl e"
  by (simp add: rbind_def)

lemma rbind_Inr [simp, res_simps]: "rbind (Inr x) f = f x"
  by (simp add: rbind_def)

lemma rbind_eq_Inr [res_simps]: "rbind m f = Inr y \<longleftrightarrow> (\<exists>x. m = Inr x \<and> f x = Inr y)"
  by (cases m) simp_all

lemma rbind_eq_Inl [res_simps]:
  "rbind m f = Inl e \<longleftrightarrow> m = Inl e \<or> (\<exists>x. m = Inr x \<and> f x = Inl e)"
  by (cases m) simp_all

lemma rbind_cong [fundef_cong]:
  "m = m' \<Longrightarrow> (\<And>x. m' = Inr x \<Longrightarrow> f x = f' x) \<Longrightarrow> rbind m f = rbind m' f'"
  by (cases m') simp_all

text \<open>A loop that collects one result per item and stops at the first exception.\<close>

fun collect :: "('a \<Rightarrow> 'e + 'b) \<Rightarrow> 'a list \<Rightarrow> 'e + 'b list" where
  "collect f [] = Inr []"
| "collect f (x # xs) = rbind (f x) (\<lambda>y. rbind (collect f xs) (\<lambda>ys. Inr (y # ys)))"

lemma collect_Inr: "(\<And>x. x \<in> set xs \<Longrightarrow> f x = Inr (g x)) \<Longrightarrow> collect f xs = Inr (map g xs)"
  by (induction xs) simp_all

lemma collect_eq_Inr:
  "collect f xs = Inr ys \<longleftrightarrow> list_all2 (\<lambda>x y. f x = Inr y) xs ys"
  by (induction xs arbitrary: ys) (auto simp: res_simps list_all2_Cons1)

lemma collect_length: "collect f xs = Inr ys \<Longrightarrow> length ys = length xs"
  by (auto simp: collect_eq_Inr list_all2_lengthD)

text \<open>\<open>next((i for i, x in enumerate(xs) if P(x)), None)\<close>: the index of the first match.\<close>

fun find_index :: "('a \<Rightarrow> bool) \<Rightarrow> 'a list \<Rightarrow> nat option" where
  "find_index P [] = None"
| "find_index P (x # xs) = (if P x then Some 0 else map_option Suc (find_index P xs))"

lemma find_index_None: "find_index P xs = None \<longleftrightarrow> (\<forall>x \<in> set xs. \<not> P x)"
  by (induction xs) auto

lemma find_index_Some:
  "find_index P xs = Some i \<longleftrightarrow>
     i < length xs \<and> P (xs ! i) \<and> (\<forall>j < i. \<not> P (xs ! j))"
proof (induction xs arbitrary: i)
  case Nil
  then show ?case by simp
next
  case (Cons x xs)
  show ?case
  proof (cases i)
    case 0
    then show ?thesis by auto
  next
    case (Suc k)
    then show ?thesis
      using Cons.IH [of k] by (auto simp: less_Suc_eq_0_disj)
  qed
qed

lemma find_index_SomeD:
  assumes "find_index P xs = Some i"
  shows "i < length xs" and "P (xs ! i)" and "xs ! i \<in> set xs"
  using assms by (auto simp: find_index_Some)

lemma find_index_update:
  "find_index P xs = Some i \<Longrightarrow> P y \<Longrightarrow> find_index P (xs[i := y]) = Some i"
  by (auto simp: find_index_Some)

lemma find_index_append:
  "find_index P (xs @ ys) =
     (case find_index P xs of Some i \<Rightarrow> Some i
      | None \<Rightarrow> map_option (\<lambda>i. i + length xs) (find_index P ys))"
  by (induction xs) (auto simp: option.map_comp comp_def option.map_ident split: option.split)

lemma find_index_iff_ex: "(\<exists>i. find_index P xs = Some i) \<longleftrightarrow> (\<exists>x \<in> set xs. P x)"
  by (metis find_index_None not_None_eq)

lemma find_index_cong: "(\<And>x. x \<in> set xs \<Longrightarrow> P x = Q x) \<Longrightarrow> find_index P xs = find_index Q xs"
  by (induction xs) auto

lemma find_via_index:
  "find P xs = (case find_index P xs of None \<Rightarrow> None | Some i \<Rightarrow> Some (xs ! i))"
  by (induction xs) (auto split: option.splits)

lemma find_index_map: "find_index P (map f xs) = find_index (P \<circ> f) xs"
  by (induction xs) auto

text \<open>\<open>xs.pop(i)\<close> and \<open>xs.insert(i, x)\<close> for an index inside the list.\<close>

definition remove_nth :: "nat \<Rightarrow> 'a list \<Rightarrow> 'a list" where
  "remove_nth i xs = take i xs @ drop (Suc i) xs"

definition insert_nth :: "nat \<Rightarrow> 'a \<Rightarrow> 'a list \<Rightarrow> 'a list" where
  "insert_nth i x xs = take i xs @ x # drop i xs"

lemma remove_nth_Cons_0 [simp]: "remove_nth 0 (x # xs) = xs"
  by (simp add: remove_nth_def)

lemma remove_nth_Cons_Suc [simp]: "remove_nth (Suc i) (x # xs) = x # remove_nth i xs"
  by (simp add: remove_nth_def)

lemma set_remove_nth: "set (remove_nth i xs) \<subseteq> set xs"
  by (auto simp: remove_nth_def dest: in_set_takeD in_set_dropD)

lemma remove_nth_append_length [simp]: "remove_nth (length xs) (xs @ y # ys) = xs @ ys"
  by (simp add: remove_nth_def)

lemma nth_split: "i < length xs \<Longrightarrow> xs = take i xs @ xs ! i # drop (Suc i) xs"
  by (rule id_take_nth_drop)

lemma filter_map_nth:
  "map (\<lambda>i. xs ! i) (filter (\<lambda>i. P (xs ! i)) [0..<length xs]) = filter P xs"
proof -
  have "filter P (map ((!) xs) [0..<length xs]) =
      map ((!) xs) (filter (P \<circ> (!) xs) [0..<length xs])"
    by (rule filter_map)
  then show ?thesis
    by (simp add: map_nth comp_def)
qed

lemma list_update_mid [simp]: "(xs @ y # ys)[length xs := z] = xs @ z # ys"
  by simp

text \<open>Facts on association lists used as Python dicts (insertion order is kept).\<close>

lemma map_of_update [simp]: "map_of (AList.update k v d) = (map_of d)(k \<mapsto> v)"
  by (rule ext) (simp add: update_conv)

lemma map_of_delete [simp]: "map_of (AList.delete k d) = (map_of d)(k := None)"
  by (rule ext) (simp add: delete_conv)

lemma update_same [simp]: "map_of d k = Some v \<Longrightarrow> AList.update k v d = d"
  by (induction d) (auto split: if_splits)

lemma update_update [simp]: "AList.update k v (AList.update k w d) = AList.update k v d"
  by (induction d) auto

lemma update_new: "map_of d k = None \<Longrightarrow> AList.update k v d = d @ [(k, v)]"
  by (induction d) (auto split: if_splits)

lemma delete_new: "map_of d k = None \<Longrightarrow> AList.delete k d = d"
  by (induction d) (auto simp: AList.delete_eq split: if_splits)

lemma delete_update_new [simp]:
  "map_of d k = None \<Longrightarrow> AList.delete k (AList.update k v d) = d"
  by (induction d) (auto split: if_splits)

lemma delete_snoc_same: "AList.delete k (d @ [(k, v)]) = AList.delete k d"
  by (simp add: AList.delete_eq)

lemma update_keys_present: "map_of d k = Some w \<Longrightarrow> map fst (AList.update k v d) = map fst d"
  by (induction d) (auto split: if_splits)

lemma update_commute:
  "k \<noteq> l \<Longrightarrow> map_of d k = Some w \<Longrightarrow>
     AList.update k v (AList.update l u d) = AList.update l u (AList.update k v d)"
  by (induction d) (auto split: if_splits)

lemma length_filter_mono: "(\<And>x. x \<in> set xs \<Longrightarrow> P x \<Longrightarrow> Q x) \<Longrightarrow> length (filter P xs) \<le> length (filter Q xs)"
  by (induction xs) auto

lemma filter_and_cong:
  "(\<And>x. x \<in> set xs \<Longrightarrow> P x \<Longrightarrow> Q x) \<Longrightarrow> length (filter P (filter Q xs)) = length (filter P xs)"
  by (induction xs) auto

section \<open>Stable sorting\<close>

text \<open>\<open>sorted(xs, key=...)\<close>: an insertion sort that keeps the order of items that compare equal.\<close>

fun insert_by :: "('a \<Rightarrow> 'a \<Rightarrow> bool) \<Rightarrow> 'a \<Rightarrow> 'a list \<Rightarrow> 'a list" where
  "insert_by le x [] = [x]"
| "insert_by le x (y # ys) = (if le x y then x # y # ys else y # insert_by le x ys)"

definition sort_by :: "('a \<Rightarrow> 'a \<Rightarrow> bool) \<Rightarrow> 'a list \<Rightarrow> 'a list" where
  "sort_by le xs = foldr (insert_by le) xs []"

lemma mset_insert_by [simp]: "mset (insert_by le x xs) = {#x#} + mset xs"
  by (induction xs) auto

lemma mset_sort_by [simp]: "mset (sort_by le xs) = mset xs"
  by (induction xs) (simp_all add: sort_by_def)

lemma set_insert_by [simp]: "set (insert_by le x xs) = insert x (set xs)"
  by (induction xs) auto

lemma set_sort_by [simp]: "set (sort_by le xs) = set xs"
  by (metis mset_sort_by set_mset_mset)

lemma length_sort_by [simp]: "length (sort_by le xs) = length xs"
  by (metis mset_sort_by size_mset)

text \<open>The order a sort key gives: any two items compare.\<close>

locale sort_order =
  fixes le :: "'a \<Rightarrow> 'a \<Rightarrow> bool"
  assumes total: "le x y \<or> le y x"
    and trans: "le x y \<Longrightarrow> le y z \<Longrightarrow> le x z"
begin

lemma sorted_insert_by: "sorted_wrt le xs \<Longrightarrow> sorted_wrt le (insert_by le x xs)"
  by (induction xs) (use total trans in auto)

lemma sorted_sort_by: "sorted_wrt le (sort_by le xs)"
  by (induction xs) (simp_all add: sort_by_def sorted_insert_by)

lemma filter_insert_by:
  "(\<And>y. y \<in> set ys \<Longrightarrow> P y \<Longrightarrow> P x \<Longrightarrow> le x y) \<Longrightarrow> filter P (insert_by le x ys) = filter P (x # ys)"
  by (induction ys) auto

lemma filter_sort_by:
  "(\<And>x y. P x \<Longrightarrow> P y \<Longrightarrow> le x y) \<Longrightarrow> filter P (sort_by le xs) = filter P xs"
proof (induction xs)
  case (Cons x xs)
  have "filter P (insert_by le x (sort_by le xs)) = filter P (x # sort_by le xs)"
    by (rule filter_insert_by) (use Cons.prems in blast)
  then show ?case using Cons by (simp add: sort_by_def)
qed (simp add: sort_by_def)

end

section \<open>Sequences of operations\<close>

text \<open>Applying operations one after the other; the first exception ends the run.\<close>

fun run_ops :: "('op \<Rightarrow> 's \<Rightarrow> ('s \<times> 'o) res) \<Rightarrow> 'op list \<Rightarrow> 's \<Rightarrow> ('s \<times> 'o list) res" where
  "run_ops step1 [] s = Inr (s, [])"
| "run_ops step1 (x # xs) s =
     rbind (step1 x s) (\<lambda>(s', out). rbind (run_ops step1 xs s') (\<lambda>(s'', outs). Inr (s'', out # outs)))"

text \<open>An editor: its operations, the arguments they accept, and the invariant they keep.\<close>

locale editor =
  fixes step1 :: "'op \<Rightarrow> 's \<Rightarrow> ('s \<times> 'o) res"
    and accepts :: "'op \<Rightarrow> bool"
    and inv :: "'s \<Rightarrow> bool"
  assumes keeps: "inv s \<Longrightarrow> accepts x \<Longrightarrow> step1 x s = Inr (s', out) \<Longrightarrow> inv s'"
begin

lemma run_keeps: "run_ops step1 xs s = Inr (s', outs) \<Longrightarrow> inv s \<Longrightarrow> list_all accepts xs \<Longrightarrow> inv s'"
proof (induction xs arbitrary: s outs)
  case Nil
  then show ?case by simp
next
  case (Cons x xs)
  then obtain t out os where 1: "step1 x s = Inr (t, out)" and 2: "run_ops step1 xs t = Inr (s', os)"
    by (auto simp: res_simps)
  show ?case
    by (rule Cons.IH [OF 2 keeps [OF Cons.prems(2) _ 1]]) (use Cons.prems(3) in simp_all)
qed

end

end
