(* ===== verification/Json.thy ===== *)
theory Json
  imports Prelude
begin

text \<open>
  Python's view of a parsed JSON document: the value type, truthiness, \<open>==\<close>, the dict and list
  operations the program uses, and references into a document as paths.

  A Python \<open>str\<close> is its UTF-8 byte string (\<open>string\<close> is a list of 8-bit \<open>char\<close>s), so equality,
  concatenation and \<open>.encode()\<close> need no conversion. A dict is an association list in insertion
  order: assignment to an existing key keeps its position, a new key goes to the end
  (\<open>AList.update\<close>), \<open>del\<close> and \<open>pop\<close> drop the key (\<open>AList.delete\<close>). A JSON float is the rational
  number it denotes; NaN and the infinities, which JSON does not have, are left out.

  The code mutates the document it deep-copied through references to the dicts inside it. A
  parsed document is a tree, so a reference is a path from the root, reading it is \<open>json_at\<close> and
  a mutation through it is \<open>json_put\<close>.
\<close>

section \<open>Values\<close>

datatype json =
    JNull
  | JBool bool
  | JInt int
  | JFloat rat
  | JStr string
  | JList "json list"
  | JObj "(string \<times> json) list"

type_synonym pydict = "(string \<times> json) list"

fun is_dict :: "json \<Rightarrow> bool" where
  "is_dict (JObj d) = True"
| "is_dict v = False"

fun is_list :: "json \<Rightarrow> bool" where
  "is_list (JList xs) = True"
| "is_list v = False"

fun is_str :: "json \<Rightarrow> bool" where
  "is_str (JStr s) = True"
| "is_str v = False"

lemma is_dict_iff: "is_dict v \<longleftrightarrow> (\<exists>d. v = JObj d)"
  by (cases v) auto

lemma is_list_iff: "is_list v \<longleftrightarrow> (\<exists>xs. v = JList xs)"
  by (cases v) auto

lemma is_str_iff: "is_str v \<longleftrightarrow> (\<exists>s. v = JStr s)"
  by (cases v) auto

text \<open>\<open>bool(v)\<close>, and \<open>v or w\<close>.\<close>

fun truthy :: "json \<Rightarrow> bool" where
  "truthy JNull = False"
| "truthy (JBool b) = b"
| "truthy (JInt i) = (i \<noteq> 0)"
| "truthy (JFloat r) = (r \<noteq> 0)"
| "truthy (JStr s) = (s \<noteq> [])"
| "truthy (JList xs) = (xs \<noteq> [])"
| "truthy (JObj d) = (d \<noteq> [])"

definition py_or :: "json \<Rightarrow> json \<Rightarrow> json" where
  "py_or v w = (if truthy v then v else w)"

section \<open>Equality as Python's \<open>==\<close>\<close>

text \<open>
  \<open>True == 1 == 1.0\<close>; two dicts are equal when they have the same keys with equal values, in any
  order; lists compare item by item.
\<close>

fun py_num :: "json \<Rightarrow> rat option" where
  "py_num (JBool b) = Some (of_bool b)"
| "py_num (JInt i) = Some (of_int i)"
| "py_num (JFloat r) = Some r"
| "py_num v = None"

fun py_eq :: "json \<Rightarrow> json \<Rightarrow> bool"
  and py_eq_list :: "json list \<Rightarrow> json list \<Rightarrow> bool"
  and py_eq_items :: "pydict \<Rightarrow> pydict \<Rightarrow> bool" where
  "py_eq JNull w = (w = JNull)"
| "py_eq (JStr s) w = (w = JStr s)"
| "py_eq (JList xs) w = (case w of JList ys \<Rightarrow> py_eq_list xs ys | _ \<Rightarrow> False)"
| "py_eq (JObj d) w = (case w of JObj e \<Rightarrow> length d = length e \<and> py_eq_items d e | _ \<Rightarrow> False)"
| "py_eq (JBool b) w = (py_num w = Some (of_bool b))"
| "py_eq (JInt i) w = (py_num w = Some (of_int i))"
| "py_eq (JFloat r) w = (py_num w = Some r)"
| "py_eq_list [] ys = (ys = [])"
| "py_eq_list (x # xs) ys = (case ys of [] \<Rightarrow> False | y # ys' \<Rightarrow> py_eq x y \<and> py_eq_list xs ys')"
| "py_eq_items [] e = True"
| "py_eq_items ((k, v) # d) e =
     ((case map_of e k of None \<Rightarrow> False | Some w \<Rightarrow> py_eq v w) \<and> py_eq_items d e)"

text \<open>Every dict of a parsed document has one entry per key.\<close>

fun wf_json :: "json \<Rightarrow> bool" and wf_list :: "json list \<Rightarrow> bool" and wf_items :: "pydict \<Rightarrow> bool" where
  "wf_json (JList xs) = wf_list xs"
| "wf_json (JObj d) = (distinct (map fst d) \<and> wf_items d)"
| "wf_json v = True"
| "wf_list [] = True"
| "wf_list (x # xs) = (wf_json x \<and> wf_list xs)"
| "wf_items [] = True"
| "wf_items ((k, v) # d) = (wf_json v \<and> wf_items d)"

lemma wf_list_iff: "wf_list xs \<longleftrightarrow> (\<forall>x \<in> set xs. wf_json x)"
  by (induction xs) auto

lemma wf_items_iff: "wf_items d \<longleftrightarrow> (\<forall>p \<in> set d. wf_json (snd p))"
  by (induction d) auto

lemma py_eq_list_iff: "py_eq_list xs ys \<longleftrightarrow> list_all2 py_eq xs ys"
  by (induction xs arbitrary: ys) (auto simp: list_all2_Cons1 split: list.splits)

lemma py_eq_items_iff:
  "py_eq_items d e \<longleftrightarrow> (\<forall>(k, v) \<in> set d. \<exists>w. map_of e k = Some w \<and> py_eq v w)"
  by (induction d) (auto split: option.splits)

lemma py_eq_simps [simp]:
  "py_eq v (JStr s) \<longleftrightarrow> v = JStr s"
  "py_eq v JNull \<longleftrightarrow> v = JNull"
  by (cases v; auto)+

lemma py_eq_refl: "wf_json v \<Longrightarrow> py_eq v v"
  and "wf_list xs \<Longrightarrow> py_eq_list xs xs"
  and py_eq_items_refl: "wf_items d \<Longrightarrow> (\<forall>(k, v) \<in> set d. py_eq v v)"
  by (induction v and xs and d rule: wf_json_wf_list_wf_items.induct)
    (auto simp: py_eq_items_iff)

lemma py_eq_JList: "py_eq (JList xs) w \<longleftrightarrow> (\<exists>ys. w = JList ys \<and> list_all2 py_eq xs ys)"
  by (cases w) (auto simp: py_eq_list_iff)

lemma py_eq_JObj:
  "py_eq (JObj d) w \<longleftrightarrow>
     (\<exists>e. w = JObj e \<and> length d = length e \<and>
        (\<forall>k x. (k, x) \<in> set d \<longrightarrow> (\<exists>y. map_of e k = Some y \<and> py_eq x y)))"
  by (cases w) (auto simp: py_eq_items_iff)

lemma py_eq_JObjE:
  assumes "py_eq v w" and "v = JObj d"
  obtains e where "w = JObj e" and "length d = length e"
    and "\<And>k x. (k, x) \<in> set d \<Longrightarrow> \<exists>y. map_of e k = Some y \<and> py_eq x y"
  using assms py_eq_JObj by blast

lemma json_size_in_list: "x \<in> set xs \<Longrightarrow> size x < size (JList xs)"
  by (induction xs) auto

lemma json_size_in_obj: "(k, v) \<in> set d \<Longrightarrow> size v < size (JObj d)"
  by (induction d) auto

lemma obj_keys_eq:
  assumes "distinct (map fst d)" and "length d = length e"
    and sub: "set (map fst d) \<subseteq> set (map fst e)"
  shows "set (map fst e) = set (map fst d)" and "distinct (map fst e)"
proof -
  have c: "card (set (map fst d)) = length e"
    using distinct_card [OF assms(1)] assms(2) by simp
  moreover have "card (set (map fst e)) \<le> length e"
    using card_length [of "map fst e"] by simp
  ultimately show eq: "set (map fst e) = set (map fst d)"
    using sub by (metis card_seteq finite_set)
  show "distinct (map fst e)"
    using c eq by (metis card_distinct length_map)
qed

lemma py_eq_sym: "wf_json v \<Longrightarrow> wf_json w \<Longrightarrow> py_eq v w \<Longrightarrow> py_eq w v"
proof (induction "size v" arbitrary: v w rule: less_induct)
  case less
  show ?case
  proof (cases v)
    case (JList xs)
    with less.prems obtain ys where w: "w = JList ys" and "list_all2 py_eq xs ys"
      by (auto simp: py_eq_list_iff split: json.splits)
    then have "list_all2 py_eq ys xs"
      using less.hyps less.prems(1,2) json_size_in_list
      by (auto simp: JList list_all2_conv_all_nth wf_list_iff)
    then show ?thesis by (simp add: w JList py_eq_list_iff)
  next
    case (JObj d)
    obtain e where w: "w = JObj e" and len: "length d = length e"
      and sub: "\<And>k x. (k, x) \<in> set d \<Longrightarrow> \<exists>y. map_of e k = Some y \<and> py_eq x y"
      using py_eq_JObjE [OF less.prems(3) JObj] by blast
    have dd: "distinct (map fst d)" using less.prems(1) by (simp add: JObj)
    have de: "distinct (map fst e)" using less.prems(2) by (simp add: w)
    have keys: "set (map fst e) = set (map fst d)"
    proof (rule obj_keys_eq [OF dd len])
      show "set (map fst d) \<subseteq> set (map fst e)"
        using sub by (force dest: map_of_SomeD)
    qed
    have "\<exists>x. map_of d k = Some x \<and> py_eq y x" if "(k, y) \<in> set e" for k y
    proof -
      from that keys obtain x where kx: "(k, x) \<in> set d"
        by (metis (no_types, lifting) image_eqI fst_conv imageE list.set_map prod.collapse)
      from sub [OF kx] that de have xy: "py_eq x y"
        by (auto dest: map_of_SomeD simp: map_of_is_SomeI eq_key_imp_eq_value)
      have "wf_json x" "wf_json y"
        using less.prems kx that by (auto simp: JObj w wf_items_iff)
      then have "py_eq y x"
        using less.hyps [of x y] json_size_in_obj [OF kx] xy by (simp add: JObj)
      then show ?thesis using kx dd by (auto simp: map_of_is_SomeI)
    qed
    then show ?thesis
      by (auto simp: w JObj len py_eq_items_iff)
  qed (use less.prems in \<open>auto simp del: py_eq_simps split: json.splits elim!: py_num.elims\<close>)
qed

lemma py_eq_trans:
  "wf_json u \<Longrightarrow> wf_json v \<Longrightarrow> wf_json w \<Longrightarrow> py_eq u v \<Longrightarrow> py_eq v w \<Longrightarrow> py_eq u w"
proof (induction "size u" arbitrary: u v w rule: less_induct)
  case less
  show ?case
  proof (cases u)
    case (JList xs)
    with less.prems obtain ys where v: "v = JList ys" and xy: "list_all2 py_eq xs ys"
      by (auto simp: py_eq_list_iff split: json.splits)
    with less.prems obtain zs where w: "w = JList zs" and yz: "list_all2 py_eq ys zs"
      by (auto simp: py_eq_list_iff split: json.splits)
    have "py_eq (xs ! i) (zs ! i)" if i: "i < length xs" for i
    proof -
      have "wf_json (xs ! i)" "wf_json (ys ! i)" "wf_json (zs ! i)"
        using less.prems i xy yz by (auto simp: JList v w wf_list_iff list_all2_conv_all_nth)
      moreover have "py_eq (xs ! i) (ys ! i)" "py_eq (ys ! i) (zs ! i)"
        using xy yz i by (auto simp: list_all2_conv_all_nth)
      moreover have "size (xs ! i) < size u" using json_size_in_list i by (simp add: JList)
      ultimately show ?thesis using less.hyps by blast
    qed
    then show ?thesis
      using xy yz by (simp add: JList w py_eq_list_iff list_all2_conv_all_nth)
  next
    case (JObj d)
    obtain e where v: "v = JObj e" and l1: "length d = length e"
      and s1: "\<And>k x. (k, x) \<in> set d \<Longrightarrow> \<exists>y. map_of e k = Some y \<and> py_eq x y"
      using py_eq_JObjE [OF less.prems(4) JObj] by blast
    obtain f where w: "w = JObj f" and l2: "length e = length f"
      and s2: "\<And>k x. (k, x) \<in> set e \<Longrightarrow> \<exists>y. map_of f k = Some y \<and> py_eq x y"
      using py_eq_JObjE [OF less.prems(5) v] by blast
    have "\<exists>z. map_of f k = Some z \<and> py_eq x z" if kx: "(k, x) \<in> set d" for k x
    proof -
      from s1 [OF kx] obtain y where y: "map_of e k = Some y" "py_eq x y" by blast
      from s2 [OF map_of_SomeD [OF y(1)]] obtain z where z: "map_of f k = Some z" "py_eq y z" by blast
      have "wf_json x" "wf_json y" "wf_json z"
        using less.prems kx y(1) z(1) by (auto simp: JObj v w wf_items_iff dest!: map_of_SomeD)
      moreover have "size x < size u" using json_size_in_obj [OF kx] by (simp add: JObj)
      ultimately have "py_eq x z" using less.hyps y(2) z(2) by blast
      with z(1) show ?thesis by blast
    qed
    then show ?thesis by (auto simp: JObj w l1 l2 py_eq_items_iff)
  qed (use less.prems in \<open>auto simp del: py_eq_simps split: json.splits elim!: py_num.elims\<close>)
qed

section \<open>Dict operations\<close>

text \<open>\<open>v.get(k)\<close> where the code has checked that \<open>v\<close> is a dict; absent and null are both \<open>None\<close>.\<close>

definition jget :: "json \<Rightarrow> string \<Rightarrow> json" where
  "jget v k = (case v of JObj d \<Rightarrow> (case map_of d k of None \<Rightarrow> JNull | Some w \<Rightarrow> w) | _ \<Rightarrow> JNull)"

text \<open>\<open>v.get(k)\<close> on a value that may be anything: only a dict has the method.\<close>

definition py_get :: "json \<Rightarrow> string \<Rightarrow> json res" where
  "py_get v k = (if is_dict v then Inr (jget v k) else Inl AttributeError)"

lemma py_get_Inr: "py_get v k = Inr x \<longleftrightarrow> is_dict v \<and> x = jget v k"
  by (auto simp: py_get_def)

text \<open>\<open>k in v\<close>, \<open>v[k] = x\<close>, \<open>v.pop(k, None)\<close> and \<open>v.get(k, x)\<close> for a dict \<open>v\<close>.\<close>

definition jhas :: "json \<Rightarrow> string \<Rightarrow> bool" where
  "jhas v k = (case v of JObj d \<Rightarrow> map_of d k \<noteq> None | _ \<Rightarrow> False)"

fun jset :: "string \<Rightarrow> json \<Rightarrow> json \<Rightarrow> json" where
  "jset k x (JObj d) = JObj (AList.update k x d)"
| "jset k x v = v"

fun jdel :: "string \<Rightarrow> json \<Rightarrow> json" where
  "jdel k (JObj d) = JObj (AList.delete k d)"
| "jdel k v = v"

definition jget_default :: "json \<Rightarrow> string \<Rightarrow> json \<Rightarrow> json" where
  "jget_default v k x = (if jhas v k then jget v k else x)"

text \<open>\<open>v.setdefault(k, x)\<close>, as the changed dict; the value is then \<open>jget\<close> of it.\<close>

definition jsetdefault :: "string \<Rightarrow> json \<Rightarrow> json \<Rightarrow> json" where
  "jsetdefault k x v = (if jhas v k then v else jset k x v)"

text \<open>\<open>for x in v\<close>: a list yields its items, a dict its keys, a string its characters.\<close>

fun py_iter :: "json \<Rightarrow> json list res" where
  "py_iter (JList xs) = Inr xs"
| "py_iter (JObj d) = Inr (map (\<lambda>p. JStr (fst p)) d)"
| "py_iter (JStr s) = Inr (map (\<lambda>c. JStr [c]) s)"
| "py_iter v = Inl TypeError"

text \<open>
  \<open>[x for x in (v or []) if isinstance(x, dict)]\<close>, the loop head the code uses on a list it has
  not checked: an unset value reads as the empty list.
\<close>

definition iter_or_empty :: "json \<Rightarrow> json list res" where
  "iter_or_empty v = py_iter (py_or v (JList []))"

lemma jget_jset [simp]: "is_dict v \<Longrightarrow> jget (jset k x v) l = (if k = l then x else jget v l)"
  by (cases v) (auto simp: jget_def)

lemma jget_jdel [simp]: "jget (jdel k v) l = (if k = l then JNull else jget v l)"
  by (cases v) (auto simp: jget_def)

lemma jhas_jset [simp]: "is_dict v \<Longrightarrow> jhas (jset k x v) l \<longleftrightarrow> k = l \<or> jhas v l"
  by (cases v) (auto simp: jhas_def)

lemma jhas_jdel [simp]: "jhas (jdel k v) l \<longleftrightarrow> k \<noteq> l \<and> jhas v l"
  by (cases v) (auto simp: jhas_def)

lemma jget_not_has: "\<not> jhas v k \<Longrightarrow> jget v k = JNull"
  by (cases v) (auto simp: jget_def jhas_def split: option.splits)

lemma jget_notNull_has: "jget v k \<noteq> JNull \<Longrightarrow> jhas v k"
  by (cases v) (auto simp: jget_def jhas_def split: option.splits)

lemma jget_notNull_dict: "jget v k \<noteq> JNull \<Longrightarrow> is_dict v"
  by (cases v) (auto simp: jget_def)

lemma jget_non_dict: "\<not> is_dict v \<Longrightarrow> jget v k = JNull"
  by (cases v) (auto simp: jget_def)

lemma jhas_dict: "jhas v k \<Longrightarrow> is_dict v"
  by (cases v) (auto simp: jhas_def)

lemma is_dict_jset [simp]: "is_dict (jset k x v) = is_dict v"
  by (cases v) auto

lemma is_dict_jdel [simp]: "is_dict (jdel k v) = is_dict v"
  by (cases v) auto

lemma is_dict_jsetdefault [simp]: "is_dict (jsetdefault k x v) = is_dict v"
  by (simp add: jsetdefault_def)

lemma jset_same [simp]: "jhas v k \<Longrightarrow> jset k (jget v k) v = v"
  by (cases v) (auto simp: jget_def jhas_def)

lemma jset_eq_self: "jhas v k \<Longrightarrow> jget v k = x \<Longrightarrow> jset k x v = v"
  using jset_same by metis

lemma jset_jset [simp]: "jset k x (jset k y v) = jset k x v"
  by (cases v) auto

lemma jdel_jset_new [simp]: "\<not> jhas v k \<Longrightarrow> jdel k (jset k x v) = v"
  by (cases v) (auto simp: jhas_def)

lemma jdel_not_has: "\<not> jhas v k \<Longrightarrow> jdel k v = v"
  by (cases v) (auto simp: jhas_def delete_new)

lemma jget_jsetdefault:
  "is_dict v \<Longrightarrow> jget (jsetdefault k x v) l = (if k = l \<and> \<not> jhas v k then x else jget v l)"
  by (auto simp: jsetdefault_def)

lemma jhas_jsetdefault [simp]:
  "is_dict v \<Longrightarrow> jhas (jsetdefault k x v) l \<longleftrightarrow> k = l \<or> jhas v l"
  by (auto simp: jsetdefault_def)

lemma jset_jsetdefault [simp]: "jset k x (jsetdefault k y v) = jset k x v"
  by (simp add: jsetdefault_def)

lemma jget_default_simps [simp]:
  "jhas v k \<Longrightarrow> jget_default v k x = jget v k"
  "\<not> jhas v k \<Longrightarrow> jget_default v k x = x"
  by (simp_all add: jget_default_def)

lemma truthy_iff_not:
  "\<not> truthy v \<longleftrightarrow> v = JNull \<or> v = JBool False \<or> v = JInt 0 \<or> v = JFloat 0 \<or> v = JStr [] \<or>
     v = JList [] \<or> v = JObj []"
  by (cases v) auto

lemma iter_or_empty_JList [simp]: "iter_or_empty (JList xs) = Inr xs"
  by (simp add: iter_or_empty_def py_or_def)

lemma iter_or_empty_JNull [simp]: "iter_or_empty JNull = Inr []"
  by (simp add: iter_or_empty_def py_or_def)

lemma jget_JObj [simp]:
  "jget (JObj d) k = (case map_of d k of None \<Rightarrow> JNull | Some w \<Rightarrow> w)"
  by (simp add: jget_def)

lemma jhas_JObj [simp]: "jhas (JObj d) k \<longleftrightarrow> map_of d k \<noteq> None"
  by (simp add: jhas_def)

declare jget_JObj [simp del] jhas_JObj [simp del]

lemma wf_jget: "wf_json v \<Longrightarrow> wf_json (jget v k)"
  by (cases v) (auto simp: jget_def wf_items_iff split: option.splits dest!: map_of_SomeD)

section \<open>References\<close>

datatype step = Key string | Idx nat

type_synonym path = "step list"

fun json_at :: "path \<Rightarrow> json \<Rightarrow> json option" where
  "json_at [] v = Some v"
| "json_at (Key k # p) v =
     (case v of JObj d \<Rightarrow> (case map_of d k of None \<Rightarrow> None | Some w \<Rightarrow> json_at p w) | _ \<Rightarrow> None)"
| "json_at (Idx i # p) v =
     (case v of JList xs \<Rightarrow> (if i < length xs then json_at p (xs ! i) else None) | _ \<Rightarrow> None)"

fun json_put :: "path \<Rightarrow> json \<Rightarrow> json \<Rightarrow> json" where
  "json_put [] x v = x"
| "json_put (Key k # p) x v =
     (case v of JObj d \<Rightarrow>
        (case map_of d k of None \<Rightarrow> v | Some w \<Rightarrow> JObj (AList.update k (json_put p x w) d))
      | _ \<Rightarrow> v)"
| "json_put (Idx i # p) x v =
     (case v of JList xs \<Rightarrow> (if i < length xs then JList (xs[i := json_put p x (xs ! i)]) else v)
      | _ \<Rightarrow> v)"

text \<open>Two references reach disjoint parts of the document when they part at some step.\<close>

fun disjoint_paths :: "path \<Rightarrow> path \<Rightarrow> bool" where
  "disjoint_paths (a # p) (b # q) = (if a = b then disjoint_paths p q else True)"
| "disjoint_paths p q = False"

text \<open>
  The interface every editing operation uses: what a client may rely on when it reads and writes
  through a reference.
\<close>

locale store =
  fixes get :: "'p \<Rightarrow> 's \<Rightarrow> 'v option"
    and put :: "'p \<Rightarrow> 'v \<Rightarrow> 's \<Rightarrow> 's"
    and disj :: "'p \<Rightarrow> 'p \<Rightarrow> bool"
  assumes get_put: "get p s \<noteq> None \<Longrightarrow> get p (put p x s) = Some x"
    and put_get: "get p s = Some x \<Longrightarrow> put p x s = s"
    and put_put: "put p x (put p y s) = put p x s"
    and put_absent: "get p s = None \<Longrightarrow> put p x s = s"
    and get_put_disj: "disj p q \<Longrightarrow> get q (put p x s) = get q s"
begin

definition modify :: "'p \<Rightarrow> ('v \<Rightarrow> 'v) \<Rightarrow> 's \<Rightarrow> 's" where
  "modify p f s = (case get p s of None \<Rightarrow> s | Some x \<Rightarrow> put p (f x) s)"

lemma get_modify: "get p s = Some x \<Longrightarrow> get p (modify p f s) = Some (f x)"
  by (simp add: modify_def get_put)

lemma modify_frame: "disj p q \<Longrightarrow> get q (modify p f s) = get q s"
  by (simp add: modify_def get_put_disj split: option.split)

lemma modify_id: "get p s = Some x \<Longrightarrow> f x = x \<Longrightarrow> modify p f s = s"
  by (simp add: modify_def put_get)

lemma modify_modify: "modify p f (modify p g s) = modify p (f \<circ> g) s"
  by (cases "get p s") (simp_all add: modify_def get_put put_put)

lemma modify_undo: "get p s = Some x \<Longrightarrow> f (g x) = x \<Longrightarrow> modify p f (modify p g s) = s"
  by (simp add: modify_modify modify_id)

end

lemma json_get_put: "json_at p v \<noteq> None \<Longrightarrow> json_at p (json_put p x v) = Some x"
  by (induction p v rule: json_at.induct) (auto split: json.splits option.splits if_splits)

lemma json_put_get: "json_at p v = Some x \<Longrightarrow> json_put p x v = v"
  by (induction p v rule: json_at.induct) (auto split: json.splits option.splits if_splits)

lemma json_put_put: "json_put p x (json_put p y v) = json_put p x v"
  by (induction p v rule: json_at.induct) (auto split: json.splits option.splits if_splits)

lemma json_put_absent: "json_at p v = None \<Longrightarrow> json_put p x v = v"
  by (induction p v rule: json_at.induct) (auto split: json.splits option.splits if_splits)

lemma json_get_put_disj: "disjoint_paths p q \<Longrightarrow> json_at q (json_put p x v) = json_at q v"
proof (induction p q arbitrary: v rule: disjoint_paths.induct)
  case (1 a p b q)
  then show ?case
    by (cases a; cases b) (auto split: json.splits option.splits if_splits simp: nth_list_update)
qed auto

interpretation doc: store json_at json_put disjoint_paths
  by unfold_locales (simp_all add: json_get_put json_put_get json_put_put json_put_absent json_get_put_disj)

definition json_modify :: "path \<Rightarrow> (json \<Rightarrow> json) \<Rightarrow> json \<Rightarrow> json" where
  "json_modify p f v = (case json_at p v of None \<Rightarrow> v | Some x \<Rightarrow> json_put p (f x) v)"

lemma json_modify_eq: "json_modify = doc.modify"
  by (intro ext) (simp add: json_modify_def doc.modify_def)

lemmas json_modify_laws =
  doc.get_modify [folded json_modify_eq]
  doc.modify_frame [folded json_modify_eq]
  doc.modify_id [folded json_modify_eq]
  doc.modify_undo [folded json_modify_eq]

lemma json_at_append:
  "json_at (p @ q) v = (case json_at p v of None \<Rightarrow> None | Some w \<Rightarrow> json_at q w)"
  by (induction p v rule: json_at.induct) (auto split: json.splits option.splits)

lemma json_at_Key: "json_at [Key k] v = (if jhas v k then Some (jget v k) else None)"
  by (cases v) (auto simp: jget_def jhas_def split: option.splits)

lemma json_put_append:
  "json_at p v = Some w \<Longrightarrow> json_put (p @ q) x v = json_put p (json_put q x w) v"
  by (induction p v rule: json_at.induct) (auto split: json.splits option.splits if_splits)

lemma is_dict_json_put: "p \<noteq> [] \<Longrightarrow> is_dict (json_put p x v) = is_dict v"
  by (cases p; cases "hd p"; cases v) (auto split: option.splits)

lemma json_at_Key_Cons:
  "json_at (Key k # p) v = (if jhas v k then json_at p (jget v k) else None)"
  by (cases v) (auto simp: jget_def jhas_def split: option.splits)

lemma json_at_Idx_Cons:
  "json_at (Idx i # p) (JList xs) = (if i < length xs then json_at p (xs ! i) else None)"
  by simp

lemma json_put_Key_Cons:
  "json_put (Key k # p) x v = (if jhas v k then jset k (json_put p x (jget v k)) v else v)"
  by (cases v) (auto simp: jget_def jhas_def split: option.splits)

lemma json_put_Idx_Cons:
  "json_put (Idx i # p) x (JList xs) =
     (if i < length xs then JList (xs[i := json_put p x (xs ! i)]) else JList xs)"
  by simp

lemmas json_ref_simps = json_at_Key_Cons json_at_Idx_Cons json_put_Key_Cons json_put_Idx_Cons

declare json_at.simps(2,3) [simp del] json_put.simps(2,3) [simp del]

lemma disjoint_paths_append [simp]: "disjoint_paths (p @ q) (p @ r) = disjoint_paths q r"
  by (induction p) auto

section \<open>Edits keep a document well-formed\<close>

lemma wf_items_update: "wf_items d \<Longrightarrow> wf_json x \<Longrightarrow> wf_items (AList.update k x d)"
  by (induction d) auto

lemma wf_items_delete: "wf_items d \<Longrightarrow> wf_items (AList.delete k d)"
  by (induction d) auto

lemma wf_jset: "wf_json v \<Longrightarrow> wf_json x \<Longrightarrow> wf_json (jset k x v)"
  by (cases v) (simp_all add: wf_items_update AList.distinct_update)

lemma wf_jdel: "wf_json v \<Longrightarrow> wf_json (jdel k v)"
  by (cases v) (simp_all add: wf_items_delete AList.delete_keys distinct_removeAll)

lemma wf_jsetdefault: "wf_json v \<Longrightarrow> wf_json x \<Longrightarrow> wf_json (jsetdefault k x v)"
  by (simp add: jsetdefault_def wf_jset)

lemma wf_jget_default: "wf_json v \<Longrightarrow> wf_json x \<Longrightarrow> wf_json (jget_default v k x)"
  by (simp add: jget_default_def wf_jget)

lemma wf_jget_list: "wf_json v \<Longrightarrow> jget v k = JList xs \<Longrightarrow> x \<in> set xs \<Longrightarrow> wf_json x"
  using wf_jget [of v k] by (simp add: wf_list_iff)

lemma wf_list_update: "wf_list xs \<Longrightarrow> wf_json x \<Longrightarrow> wf_list (xs[i := x])"
  by (auto simp: wf_list_iff dest!: set_mp [OF set_update_subset_insert])

lemma wf_json_put: "wf_json v \<Longrightarrow> wf_json x \<Longrightarrow> wf_json (json_put p x v)"
proof (induction p arbitrary: v)
  case Nil
  then show ?case by (simp add: json_put.simps)
next
  case (Cons s p)
  show ?case
  proof (cases s)
    case (Key k)
    then show ?thesis using Cons by (simp add: json_put_Key_Cons wf_jset wf_jget)
  next
    case (Idx i)
    show ?thesis
    proof (cases v)
      case (JList xs)
      then show ?thesis
        using wf_list_update [OF _ Cons.IH [OF _ Cons.prems(2)], of xs "xs ! i" i] Cons.prems(1) Idx
        by (simp add: json_put_Idx_Cons) (simp add: wf_list_iff)
    qed (use Cons.prems Idx in \<open>simp_all add: json_put.simps\<close>)
  qed
qed

lemma wf_json_at: "json_at p v = Some w \<Longrightarrow> wf_json v \<Longrightarrow> wf_json w"
proof (induction p arbitrary: v)
  case Nil
  then show ?case by (simp add: json_at.simps)
next
  case (Cons s p)
  show ?case
  proof (cases s)
    case (Key k)
    then show ?thesis using Cons by (auto simp: json_at_Key_Cons wf_jget split: if_splits)
  next
    case (Idx i)
    then show ?thesis
      using Cons by (cases v) (auto simp: json_at.simps wf_list_iff split: if_splits)
  qed
qed

end
