(* ===== verification/ConfigView.thy ===== *)
theory ConfigView
  imports Json
begin

text \<open>
  \<open>jen/services/kea_config_view.py\<close>: the one place that knows a Kea configuration nests subnets
  inside shared networks. \<open>d4\<close> is the inner \<open>Dhcp4\<close> (or \<open>Dhcp6\<close>) map. Every function here
  tolerates a missing or misshapen value and returns the empty result.

  The second half gives the same subnets as references: \<open>subnet_refs\<close> lists the path of every
  subnet in iteration order, so that an edit of "the dict the iterator yielded" is a write through
  its path. The two views agree (\<open>iter_subnets_refs\<close>), and writing a dict through a subnet's path
  replaces exactly that entry (\<open>iter_subnets_put\<close>).
\<close>

section \<open>The view\<close>

definition subnets_of :: "json \<Rightarrow> string \<Rightarrow> json list" where
  "subnets_of container key =
     (case jget container key of JList subs \<Rightarrow> filter is_dict subs | _ \<Rightarrow> [])"

definition shared_networks :: "json \<Rightarrow> json list" where
  "shared_networks dhcp_cfg =
     (case jget dhcp_cfg ''shared-networks'' of JList nets \<Rightarrow> filter is_dict nets | _ \<Rightarrow> [])"

text \<open>
  \<open>iter_subnet4\<close> and its v6 twin differ in the key only; each entry is the subnet and the name of
  its shared network (\<open>JNull\<close> for a top-level subnet, and for a network without a name).
\<close>

definition iter_subnets :: "string \<Rightarrow> json \<Rightarrow> (json \<times> json) list" where
  "iter_subnets key cfg =
     map (\<lambda>s. (s, JNull)) (subnets_of cfg key) @
     concat (map (\<lambda>sn. map (\<lambda>s. (s, jget sn ''name'')) (subnets_of sn key)) (shared_networks cfg))"

definition iter_subnet4 :: "json \<Rightarrow> (json \<times> json) list" where
  "iter_subnet4 dhcp4_cfg = iter_subnets ''subnet4'' dhcp4_cfg"

definition iter_subnet6 :: "json \<Rightarrow> (json \<times> json) list" where
  "iter_subnet6 dhcp6_cfg = iter_subnets ''subnet6'' dhcp6_cfg"

definition subnet4_by_id :: "json \<Rightarrow> json \<Rightarrow> (json \<times> json) option" where
  "subnet4_by_id dhcp4_cfg subnet_id =
     find (\<lambda>(s, sn_name). py_eq (jget s ''id'') subnet_id) (iter_subnet4 dhcp4_cfg)"

definition subnet6_by_id :: "json \<Rightarrow> json \<Rightarrow> (json \<times> json) option" where
  "subnet6_by_id dhcp6_cfg subnet_id =
     find (\<lambda>(s, sn_name). py_eq (jget s ''id'') subnet_id) (iter_subnet6 dhcp6_cfg)"

record network_summary =
  ns_name :: json
  ns_interface :: json
  ns_subnet_ids :: "json list"
  ns_option_data_count :: nat

definition shared_networks_summary :: "json \<Rightarrow> string \<Rightarrow> network_summary list" where
  "shared_networks_summary dhcp_cfg subnet_key =
     map (\<lambda>sn. \<lparr>ns_name = jget sn ''name'',
                 ns_interface = jget sn ''interface'',
                 ns_subnet_ids = map (\<lambda>s. jget s ''id'') (subnets_of sn subnet_key),
                 ns_option_data_count =
                   (case jget sn ''option-data'' of JList os \<Rightarrow> length os | _ \<Rightarrow> 0)\<rparr>)
         (shared_networks dhcp_cfg)"

definition shared_networks4 :: "json \<Rightarrow> network_summary list" where
  "shared_networks4 dhcp4_cfg = shared_networks_summary dhcp4_cfg ''subnet4''"

definition shared_networks6 :: "json \<Rightarrow> network_summary list" where
  "shared_networks6 dhcp6_cfg = shared_networks_summary dhcp6_cfg ''subnet6''"

definition shared_networks4_raw :: "json \<Rightarrow> json list" where
  "shared_networks4_raw dhcp4_cfg = shared_networks dhcp4_cfg"

lemma subnets_of_dicts: "s \<in> set (subnets_of c key) \<Longrightarrow> is_dict s"
  by (auto simp: subnets_of_def split: json.splits)

lemma shared_networks_dicts: "n \<in> set (shared_networks c) \<Longrightarrow> is_dict n"
  by (auto simp: shared_networks_def split: json.splits)

lemma iter_subnets_dicts: "(s, n) \<in> set (iter_subnets key cfg) \<Longrightarrow> is_dict s"
  by (auto simp: iter_subnets_def dest: subnets_of_dicts)

lemma subnets_of_cong: "jget c key = jget c' key \<Longrightarrow> subnets_of c key = subnets_of c' key"
  by (simp add: subnets_of_def)

lemma iter_subnets_cong:
  "jget c key = jget c' key \<Longrightarrow> jget c ''shared-networks'' = jget c' ''shared-networks'' \<Longrightarrow>
     iter_subnets key c = iter_subnets key c'"
  by (simp add: iter_subnets_def subnets_of_def shared_networks_def)

lemma iter_subnets_non_dict [simp]: "\<not> is_dict c \<Longrightarrow> iter_subnets key c = []"
  by (simp add: iter_subnets_def subnets_of_def shared_networks_def jget_non_dict)

section \<open>Subnets as references\<close>

definition list_refs :: "string \<Rightarrow> json \<Rightarrow> path list" where
  "list_refs key c =
     (case jget c key of
        JList xs \<Rightarrow> map (\<lambda>i. [Key key, Idx i]) (filter (\<lambda>i. is_dict (xs ! i)) [0..<length xs])
      | _ \<Rightarrow> [])"

definition value_at :: "json \<Rightarrow> path \<Rightarrow> json" where
  "value_at v p = (case json_at p v of Some w \<Rightarrow> w | None \<Rightarrow> JNull)"

text \<open>The references of the subnets, and the reference of each one's shared network, if any.\<close>

definition subnet_refs :: "string \<Rightarrow> json \<Rightarrow> (path \<times> path option) list" where
  "subnet_refs key cfg =
     map (\<lambda>p. (p, None)) (list_refs key cfg) @
     concat (map (\<lambda>n. map (\<lambda>q. (n @ q, Some n)) (list_refs key (value_at cfg n)))
              (list_refs ''shared-networks'' cfg))"

definition ref_entry :: "json \<Rightarrow> path \<times> path option \<Rightarrow> json \<times> json" where
  "ref_entry cfg r =
     (value_at cfg (fst r),
      case snd r of None \<Rightarrow> JNull | Some n \<Rightarrow> jget (value_at cfg n) ''name'')"

lemma value_at_list_ref:
  "jget c key = JList xs \<Longrightarrow> i < length xs \<Longrightarrow> value_at c [Key key, Idx i] = xs ! i"
  by (simp add: value_at_def json_ref_simps jget_notNull_has)

lemma list_refs_values:
  "map (value_at c) (list_refs key c) = (case jget c key of JList xs \<Rightarrow> filter is_dict xs | _ \<Rightarrow> [])"
proof (cases "jget c key")
  case (JList xs)
  have "map (value_at c) (list_refs key c) =
      map (\<lambda>i. xs ! i) (filter (\<lambda>i. is_dict (xs ! i)) [0..<length xs])"
    using JList by (auto simp: list_refs_def value_at_list_ref comp_def)
  then show ?thesis using JList by (simp add: filter_map_nth)
qed (simp_all add: list_refs_def)

lemma list_refs_subnets: "map (value_at c) (list_refs key c) = subnets_of c key"
  by (simp add: list_refs_values subnets_of_def)

lemma list_refs_networks: "map (value_at c) (list_refs ''shared-networks'' c) = shared_networks c"
  by (simp add: list_refs_values shared_networks_def)

lemma list_refs_member:
  assumes "p \<in> set (list_refs key c)"
  obtains xs i where "p = [Key key, Idx i]" and "jget c key = JList xs" and "i < length xs"
    and "is_dict (xs ! i)" and "json_at p c = Some (xs ! i)"
proof -
  obtain xs where xs: "jget c key = JList xs"
    using assms by (cases "jget c key") (auto simp: list_refs_def)
  obtain i where i: "p = [Key key, Idx i]" "i < length xs" "is_dict (xs ! i)"
    using assms xs by (auto simp: list_refs_def)
  have "json_at p c = Some (xs ! i)"
    using xs i by (simp add: json_ref_simps jget_notNull_has)
  with that xs i show ?thesis by blast
qed

lemma value_at_append:
  "json_at n v = Some w \<Longrightarrow> value_at v (n @ q) = value_at w q"
  by (simp add: value_at_def json_at_append)

lemma value_at_Some: "json_at p v = Some w \<Longrightarrow> value_at v p = w"
  by (simp add: value_at_def)

text \<open>The two views of the subnets agree.\<close>

lemma iter_subnets_refs: "iter_subnets key cfg = map (ref_entry cfg) (subnet_refs key cfg)"
proof -
  have top: "map (ref_entry cfg) (map (\<lambda>p. (p, None)) (list_refs key cfg)) =
      map (\<lambda>s. (s, JNull)) (subnets_of cfg key)"
    by (simp add: ref_entry_def comp_def list_refs_subnets [symmetric])
  have nested: "map (ref_entry cfg) (map (\<lambda>q. (n @ q, Some n)) (list_refs key (value_at cfg n))) =
      map (\<lambda>s. (s, jget (value_at cfg n) ''name'')) (subnets_of (value_at cfg n) key)"
    if "n \<in> set (list_refs ''shared-networks'' cfg)" for n
  proof -
    from that obtain w where "json_at n cfg = Some w" by (rule list_refs_member)
    then show ?thesis
      by (simp add: ref_entry_def comp_def value_at_append value_at_Some
          list_refs_subnets [symmetric])
  qed
  have "concat (map (\<lambda>sn. map (\<lambda>s. (s, jget sn ''name'')) (subnets_of sn key)) (shared_networks cfg)) =
      map (ref_entry cfg) (concat (map (\<lambda>n. map (\<lambda>q. (n @ q, Some n)) (list_refs key (value_at cfg n)))
        (list_refs ''shared-networks'' cfg)))"
    using nested by (simp add: list_refs_networks [symmetric] map_concat comp_def cong: map_cong)
  then show ?thesis
    using top by (simp add: iter_subnets_def subnet_refs_def del: map_map)
qed

lemma subnet_refs_at:
  assumes "(p, n) \<in> set (subnet_refs key cfg)"
  obtains w where "json_at p cfg = Some w" and "is_dict w" and "p \<noteq> []"
proof -
  consider (top) "p \<in> set (list_refs key cfg)"
    | (nested) m q where "m \<in> set (list_refs ''shared-networks'' cfg)"
        "p = m @ q" "q \<in> set (list_refs key (value_at cfg m))"
    using assms by (auto simp: subnet_refs_def)
  then show ?thesis
  proof cases
    case top
    then show ?thesis by (rule list_refs_member) (use that in auto)
  next
    case nested
    from nested(1) obtain w where m: "json_at m cfg = Some w" by (rule list_refs_member)
    from nested(3) m obtain v where "json_at q w = Some v" "is_dict v" "q \<noteq> []"
      by (auto simp: value_at_Some elim: list_refs_member)
    with m nested(2) that show ?thesis by (simp add: json_at_append)
  qed
qed

section \<open>Writing through a subnet's reference\<close>

lemma jget_put_Key: "jget (json_put (Key k # p) x c) l =
    (if k = l \<and> jhas c k then json_put p x (jget c k) else jget c l)"
  using jhas_dict [of c k] by (simp add: json_put_Key_Cons)

lemma jhas_put_Key [simp]: "jhas (json_put (Key k # p) x c) l = jhas c l"
  using jhas_dict [of c k] by (auto simp: json_put_Key_Cons)

lemma jget_put_elem:
  "jget c key = JList xs \<Longrightarrow> i < length xs \<Longrightarrow>
     jget (json_put [Key key, Idx i] x c) l = (if key = l then JList (xs[i := x]) else jget c l)"
  by (auto simp: jget_put_Key jget_notNull_has json_put_Idx_Cons)

lemma list_refs_put_other [simp]:
  "k \<noteq> key \<Longrightarrow> list_refs key (json_put (Key k # p) x c) = list_refs key c"
  by (simp add: list_refs_def jget_put_Key)

lemma list_refs_put_elem:
  assumes p: "p \<in> set (list_refs key c)" and x: "is_dict x"
  shows "list_refs key (json_put p x c) = list_refs key c"
proof -
  from p obtain xs i where p: "p = [Key key, Idx i]" and xs: "jget c key = JList xs"
    and i: "i < length xs" "is_dict (xs ! i)" by (rule list_refs_member)
  have "is_dict (xs[i := x] ! j) = is_dict (xs ! j)" if "j < length xs" for j
    using i x that by (cases "j = i") auto
  then show ?thesis
    using xs i by (auto simp: p list_refs_def jget_put_elem intro!: arg_cong [where f = "map _"] filter_cong)
qed

lemma list_refs_distinct: "distinct (list_refs key c)"
  by (cases "jget c key") (auto simp: list_refs_def distinct_map inj_on_def)

lemma list_refs_disjoint:
  assumes "p \<in> set (list_refs key c)" and "q \<in> set (list_refs key c)" and "p \<noteq> q"
  shows "disjoint_paths (p @ p') (q @ q')"
  using assms by (auto elim!: list_refs_member split: if_splits)

lemma list_refs_other_disjoint:
  assumes "p \<in> set (list_refs key c)" and "q \<in> set (list_refs key' c')" and "key \<noteq> key'"
  shows "disjoint_paths (p @ p') (q @ q')"
  using assms by (auto elim!: list_refs_member)

lemma value_at_put_disjoint: "disjoint_paths p q \<Longrightarrow> value_at (json_put p x v) q = value_at v q"
  by (simp add: value_at_def json_get_put_disj)

lemma value_at_put_same: "json_at p v \<noteq> None \<Longrightarrow> value_at (json_put p x v) p = x"
  by (simp add: value_at_def json_get_put)

text \<open>A reference of a subnet is a top-level one, or one of a network followed by one inside it.\<close>

lemma subnet_refs_cases:
  assumes "(p, n) \<in> set (subnet_refs key cfg)"
  obtains (top) "n = None" and "p \<in> set (list_refs key cfg)"
    | (nested) m q w where "n = Some m" and "p = m @ q"
        and "m \<in> set (list_refs ''shared-networks'' cfg)" and "json_at m cfg = Some w"
        and "is_dict w" and "q \<in> set (list_refs key w)"
proof -
  from assms consider "n = None" "p \<in> set (list_refs key cfg)"
    | m q where "n = Some m" "p = m @ q" "m \<in> set (list_refs ''shared-networks'' cfg)"
        "q \<in> set (list_refs key (value_at cfg m))"
    by (auto simp: subnet_refs_def)
  then show ?thesis
  proof cases
    case 1
    then show ?thesis by (rule top)
  next
    case 2
    from 2(3) obtain w where "json_at m cfg = Some w" "is_dict w" by (auto elim: list_refs_member)
    with 2 show ?thesis by (auto simp: value_at_Some intro: nested)
  qed
qed

lemma subnet_refs_distinct:
  assumes key: "key \<noteq> ''shared-networks''"
  shows "distinct (map fst (subnet_refs key cfg))"
proof -
  let ?N = "list_refs ''shared-networks'' cfg"
  let ?f = "\<lambda>n. map (\<lambda>q. n @ q) (list_refs key (value_at cfg n))"
  have eq: "map fst (subnet_refs key cfg) = list_refs key cfg @ concat (map ?f ?N)"
    by (simp add: subnet_refs_def map_concat comp_def)
  have len: "length n = 2" if "n \<in> set ?N" for n
    using that by (auto elim: list_refs_member)
  have "distinct (concat (map ?f xs))" if "distinct xs" "set xs \<subseteq> set ?N" for xs
    using that
  proof (induction xs)
    case Nil
    then show ?case by simp
  next
    case (Cons n xs)
    have "n @ q \<noteq> m @ r" if "m \<in> set xs" for m q r
    proof -
      have "length n = length m" "n \<noteq> m" using that Cons.prems len by (simp_all, blast+)
      then show ?thesis by simp
    qed
    then have "set (?f n) \<inter> set (concat (map ?f xs)) = {}" by auto
    then show ?case
      using Cons by (simp add: distinct_map list_refs_distinct inj_on_def)
  qed
  then have "distinct (concat (map ?f ?N))" by (simp add: list_refs_distinct)
  moreover have "set (list_refs key cfg) \<inter> set (concat (map ?f ?N)) = {}"
    using key by (auto elim!: list_refs_member)
  ultimately show ?thesis by (simp add: eq list_refs_distinct)
qed

lemma subnet_refs_disjoint:
  assumes key: "key \<noteq> ''shared-networks''"
    and p: "(p, n) \<in> set (subnet_refs key cfg)" and q: "(q, m) \<in> set (subnet_refs key cfg)"
    and "p \<noteq> q"
  shows "disjoint_paths p q"
  using p
proof (cases rule: subnet_refs_cases)
  case top
  note pt = top
  from q show ?thesis
  proof (cases rule: subnet_refs_cases)
    case top
    then show ?thesis
      using list_refs_disjoint [OF pt(2) _ \<open>p \<noteq> q\<close>, of "[]" "[]"] by simp
  next
    case (nested m q' w)
    then show ?thesis
      using list_refs_other_disjoint [OF pt(2) nested(3) key, of "[]" q'] by simp
  qed
next
  case (nested m p' w)
  note pn = nested
  from q show ?thesis
  proof (cases rule: subnet_refs_cases)
    case top
    then show ?thesis
      using list_refs_other_disjoint [OF pn(3) top(2) key [symmetric], of p' "[]"] pn(2) by simp
  next
    case (nested m' q' w')
    show ?thesis
    proof (cases "m = m'")
      case True
      with pn nested \<open>p \<noteq> q\<close> have "p' \<noteq> q'" "q' \<in> set (list_refs key w)" by auto
      then show ?thesis
        using list_refs_disjoint [OF pn(6), of q' "[]" "[]"] True pn(2) nested(2) by simp
    next
      case False
      then show ?thesis
        using list_refs_disjoint [OF pn(3) nested(3)] pn(2) nested(2) by simp
    qed
  qed
qed

lemma subnet_refs_put:
  assumes key: "key \<noteq> ''shared-networks''"
    and p: "(p, n) \<in> set (subnet_refs key cfg)" and x: "is_dict x"
  shows "subnet_refs key (json_put p x cfg) = subnet_refs key cfg"
  using p
proof (cases rule: subnet_refs_cases)
  case top
  then obtain i where pi: "p = [Key key, Idx i]" by (auto elim: list_refs_member)
  have nets: "list_refs ''shared-networks'' (json_put p x cfg) = list_refs ''shared-networks'' cfg"
    using key by (simp add: pi)
  have "value_at (json_put p x cfg) m = value_at cfg m"
    if "m \<in> set (list_refs ''shared-networks'' cfg)" for m
    using list_refs_other_disjoint [OF top(2) that key, of "[]" "[]"] by (simp add: value_at_put_disjoint)
  then show ?thesis
    using list_refs_put_elem [OF top(2) x] nets by (simp add: subnet_refs_def cong: map_cong)
next
  case (nested m q w)
  from nested(3) obtain j where mj: "m = [Key ''shared-networks'', Idx j]" by (auto elim: list_refs_member)
  from nested(6) obtain i where qi: "q = [Key key, Idx i]" by (auto elim: list_refs_member)
  have put: "json_put p x cfg = json_put m (json_put q x w) cfg"
    using nested by (simp add: json_put_append)
  have d: "is_dict (json_put q x w)" using nested(5) by (simp add: qi is_dict_json_put)
  have top: "list_refs key (json_put p x cfg) = list_refs key cfg"
    using key by (simp add: put mj)
  have nets: "list_refs ''shared-networks'' (json_put p x cfg) = list_refs ''shared-networks'' cfg"
    using list_refs_put_elem [OF nested(3) d] by (simp add: put)
  have "list_refs key (value_at (json_put p x cfg) m') = list_refs key (value_at cfg m')"
    if "m' \<in> set (list_refs ''shared-networks'' cfg)" for m'
  proof (cases "m' = m")
    case True
    then show ?thesis
      using nested(4) list_refs_put_elem [OF nested(6) x] by (simp add: put value_at_put_same value_at_Some)
  next
    case False
    then show ?thesis
      using list_refs_disjoint [OF nested(3) that, of "[]" "[]"] by (simp add: put value_at_put_disjoint)
  qed
  then show ?thesis
    using top nets by (simp add: subnet_refs_def cong: map_cong)
qed

text \<open>The name of a subnet's network is not changed by a write into the subnet.\<close>

lemma ref_entry_put:
  assumes key: "key \<noteq> ''shared-networks''" and name: "key \<noteq> ''name''"
    and p: "(p, n) \<in> set (subnet_refs key cfg)" and r: "r \<in> set (subnet_refs key cfg)"
    and x: "is_dict x"
  shows "ref_entry (json_put p x cfg) r =
    (if fst r = p then (x, snd (ref_entry cfg r)) else ref_entry cfg r)"
proof -
  obtain q m where rq: "r = (q, m)" by (cases r)
  have val: "value_at (json_put p x cfg) q = (if q = p then x else value_at cfg q)"
  proof (cases "q = p")
    case True
    from p obtain w where "json_at p cfg = Some w" by (rule subnet_refs_at)
    then show ?thesis using True by (simp add: value_at_put_same)
  next
    case False
    then show ?thesis
      using subnet_refs_disjoint [OF key p r [unfolded rq]] by (simp add: value_at_put_disjoint)
  qed
  have nam: "jget (value_at (json_put p x cfg) k) ''name'' = jget (value_at cfg k) ''name''"
    if k: "k \<in> set (list_refs ''shared-networks'' cfg)" for k
    using p
  proof (cases rule: subnet_refs_cases)
    case top
    then show ?thesis
      using list_refs_other_disjoint [OF top(2) k key, of "[]" "[]"] by (simp add: value_at_put_disjoint)
  next
    case (nested k' q' w)
    from nested(6) obtain i where qi: "q' = [Key key, Idx i]" by (auto elim: list_refs_member)
    have put: "json_put p x cfg = json_put k' (json_put q' x w) cfg"
      using nested by (simp add: json_put_append)
    show ?thesis
    proof (cases "k = k'")
      case True
      then show ?thesis
        using nested(4) name by (simp add: put value_at_put_same value_at_Some qi jget_put_Key)
    next
      case False
      then show ?thesis
        using list_refs_disjoint [OF nested(3) k, of "[]" "[]"] by (simp add: put value_at_put_disjoint)
    qed
  qed
  have "snd (ref_entry (json_put p x cfg) r) = snd (ref_entry cfg r)"
    using r unfolding rq by (cases rule: subnet_refs_cases) (simp_all add: ref_entry_def nam)
  moreover have "fst (ref_entry (json_put p x cfg) r) = (if q = p then x else fst (ref_entry cfg r))"
    by (simp add: ref_entry_def rq val)
  ultimately show ?thesis by (simp add: rq prod_eq_iff)
qed

lemma iter_subnets_put:
  assumes key: "key \<noteq> ''shared-networks''" "key \<noteq> ''name''"
    and i: "i < length (subnet_refs key cfg)" and x: "is_dict x"
  shows "iter_subnets key (json_put (fst (subnet_refs key cfg ! i)) x cfg) =
    (iter_subnets key cfg)[i := (x, snd (iter_subnets key cfg ! i))]"
proof -
  let ?R = "subnet_refs key cfg"
  obtain p n where pn: "?R ! i = (p, n)" by (cases "?R ! i")
  with i have mem: "(p, n) \<in> set ?R" by (metis nth_mem)
  have fstp: "fst (?R ! j) = p \<longleftrightarrow> j = i" if "j < length ?R" for j
    using subnet_refs_distinct [OF key(1), of cfg] i that pn
    by (auto simp: distinct_conv_nth) (metis fst_conv length_map nth_map)
  have eq_p: "fst (?R ! i) = p" by (simp add: pn)
  show ?thesis
    unfolding eq_p using i by (intro nth_equalityI)
      (simp_all add: fstp iter_subnets_refs subnet_refs_put [OF key(1) mem x]
        ref_entry_put [OF key mem _ x] nth_list_update)
qed

end
