(* ===== verification/PyStr.thy ===== *)
theory PyStr
  imports Prelude
begin

text \<open>
  The string operations of Python the modelled code calls, on UTF-8 byte strings: \<open>strip\<close>,
  \<open>split\<close>, \<open>lower\<close>, \<open>len\<close>, \<open>int(...)\<close>, \<open>str\<close> of a number, and hexadecimal text. White space
  and letter case are those of ASCII; a non-ASCII blank is an ordinary character here.
\<close>

section \<open>Characters\<close>

abbreviation ord_of :: "char \<Rightarrow> nat" where
  "ord_of c \<equiv> of_char c"

definition is_space :: "char \<Rightarrow> bool" where
  "is_space c = (ord_of c \<in> {9, 10, 11, 12, 13, 28, 29, 30, 31, 32})"

definition is_digit :: "char \<Rightarrow> bool" where
  "is_digit c = (48 \<le> ord_of c \<and> ord_of c \<le> 57)"

definition is_hex :: "char \<Rightarrow> bool" where
  "is_hex c = (is_digit c \<or> (65 \<le> ord_of c \<and> ord_of c \<le> 70) \<or> (97 \<le> ord_of c \<and> ord_of c \<le> 102))"

definition lower_char :: "char \<Rightarrow> char" where
  "lower_char c = (if 65 \<le> ord_of c \<and> ord_of c \<le> 90 then char_of (ord_of c + 32 :: nat) else c)"

definition digit_val :: "char \<Rightarrow> nat" where
  "digit_val c = ord_of c - 48"

definition hex_val :: "char \<Rightarrow> nat" where
  "hex_val c = (if is_digit c then ord_of c - 48
                else if ord_of c \<le> 70 then ord_of c - 55 else ord_of c - 87)"

text \<open>\<open>len(s)\<close> counts code points: the bytes that are not UTF-8 continuation bytes.\<close>

definition py_len :: "string \<Rightarrow> nat" where
  "py_len s = length (filter (\<lambda>c. ord_of c div 64 \<noteq> 2) s)"

definition is_ascii :: "string \<Rightarrow> bool" where
  "is_ascii s = (\<forall>c \<in> set s. ord_of c < 128)"

lemma py_len_le: "py_len s \<le> length s"
  by (simp add: py_len_def)

lemma py_len_ascii:
  assumes "is_ascii s"
  shows "py_len s = length s"
proof -
  have "n div 64 \<noteq> 2" if "n < 128" for n :: nat
    using that by arith
  then have "filter (\<lambda>c. ord_of c div 64 \<noteq> 2) s = s"
    using assms by (simp add: is_ascii_def filter_id_conv)
  then show ?thesis by (simp add: py_len_def)
qed

lemma of_char_lt_256: "(of_char c :: nat) < 256"
  using mod_less_divisor [of 256 "of_char c :: nat"] of_char_mod_256 [of c, where ?'a = nat] by simp

section \<open>Trimming, splitting, joining\<close>

definition lstrip :: "string \<Rightarrow> string" where
  "lstrip s = dropWhile is_space s"

definition rstrip :: "string \<Rightarrow> string" where
  "rstrip s = rev (dropWhile is_space (rev s))"

definition strip :: "string \<Rightarrow> string" where
  "strip s = rstrip (lstrip s)"

definition lower :: "string \<Rightarrow> string" where
  "lower s = map lower_char s"

text \<open>\<open>s.split(c)\<close> for a one-character separator: always at least one piece.\<close>

fun split_on :: "char \<Rightarrow> string \<Rightarrow> string list" where
  "split_on c [] = [[]]"
| "split_on c (x # xs) =
     (if x = c then [] # split_on c xs
      else (case split_on c xs of [] \<Rightarrow> [[x]] | p # ps \<Rightarrow> (x # p) # ps))"

text \<open>\<open>sep.join(ps)\<close>.\<close>

fun join_with :: "string \<Rightarrow> string list \<Rightarrow> string" where
  "join_with sep [] = []"
| "join_with sep [p] = p"
| "join_with sep (p # ps) = p @ sep @ join_with sep ps"

text \<open>\<open>needle in s\<close>, and \<open>s.partition(sep)\<close> as the pieces before and after the first match.\<close>

fun has_prefix :: "string \<Rightarrow> string \<Rightarrow> bool" where
  "has_prefix [] s = True"
| "has_prefix (p # ps) [] = False"
| "has_prefix (p # ps) (c # cs) = (p = c \<and> has_prefix ps cs)"

fun contains :: "string \<Rightarrow> string \<Rightarrow> bool" where
  "contains needle [] = (needle = [])"
| "contains needle (c # cs) = (has_prefix needle (c # cs) \<or> contains needle cs)"

fun partition_on :: "string \<Rightarrow> string \<Rightarrow> string \<times> string" where
  "partition_on sep [] = ([], [])"
| "partition_on sep (c # cs) =
     (if has_prefix sep (c # cs) then ([], drop (length sep) (c # cs))
      else (let (a, b) = partition_on sep cs in (c # a, b)))"

lemma split_on_not_Nil [simp]: "split_on c s \<noteq> []"
  by (induction s) (auto split: list.splits)

lemma split_on_no_sep: "p \<in> set (split_on c s) \<Longrightarrow> c \<notin> set p"
  by (induction s arbitrary: p) (auto split: if_splits list.splits)

lemma split_on_subset: "p \<in> set (split_on c s) \<Longrightarrow> set p \<subseteq> set s"
  by (induction s arbitrary: p) (auto split: if_splits list.splits, blast+)

lemma split_on_id: "c \<notin> set s \<Longrightarrow> split_on c s = [s]"
  by (induction s) auto

lemma split_on_append: "c \<notin> set s \<Longrightarrow> split_on c (s @ c # t) = s # split_on c t"
  by (induction s) auto

lemma join_split: "join_with [c] (split_on c s) = s"
proof (induction s)
  case Nil
  then show ?case by simp
next
  case (Cons x xs)
  obtain p ps where "split_on c xs = p # ps" by (cases "split_on c xs") auto
  then show ?case using Cons by (cases ps) auto
qed

lemma split_join:
  "ps \<noteq> [] \<Longrightarrow> (\<And>p. p \<in> set ps \<Longrightarrow> c \<notin> set p) \<Longrightarrow> split_on c (join_with [c] ps) = ps"
  by (induction ps rule: induct_list012) (auto simp: split_on_id split_on_append)

lemma has_prefix_iff: "has_prefix p s \<longleftrightarrow> (\<exists>t. s = p @ t)"
  by (induction p s rule: has_prefix.induct) auto

lemma contains_iff: "contains p s \<longleftrightarrow> (\<exists>a b. s = a @ p @ b)"
proof (induction s)
  case Nil
  then show ?case by auto
next
  case (Cons c cs)
  have "(\<exists>a b. c # cs = a @ p @ b) \<longleftrightarrow> (\<exists>b. c # cs = p @ b) \<or> (\<exists>a b. cs = a @ p @ b)"
    by (metis append_Cons append_Nil list.exhaust list.inject)
  then show ?case using Cons by (simp add: has_prefix_iff)
qed

lemma lstrip_idem: "(\<And>c cs. s = c # cs \<Longrightarrow> \<not> is_space c) \<Longrightarrow> lstrip s = s"
  by (cases s) (auto simp: lstrip_def)

lemma strip_id:
  assumes "s \<noteq> [] \<Longrightarrow> \<not> is_space (hd s)" and "s \<noteq> [] \<Longrightarrow> \<not> is_space (last s)"
  shows "strip s = s"
proof -
  have "dropWhile is_space s = s" using assms(1) by (cases s) auto
  moreover have "dropWhile is_space (rev s) = rev s"
    using assms(2) by (cases s rule: rev_cases) auto
  ultimately show ?thesis by (simp add: strip_def lstrip_def rstrip_def)
qed

lemma strip_ends:
  assumes "strip s \<noteq> []"
  shows "\<not> is_space (hd (strip s))" and "\<not> is_space (last (strip s))"
proof -
  define t where "t = dropWhile is_space s"
  have e: "strip s = rev (dropWhile is_space (rev t))" by (simp add: strip_def lstrip_def rstrip_def t_def)
  show "\<not> is_space (last (strip s))"
    using assms hd_dropWhile [of is_space "rev t"] by (auto simp: e last_rev dropWhile_eq_Nil_conv)
  obtain w where w: "t = strip s @ w"
    using takeWhile_dropWhile_id [of is_space "rev t"] by (metis e rev_append rev_rev_ident)
  then have "t \<noteq> []" and "hd t = hd (strip s)" using assms by auto
  then show "\<not> is_space (hd (strip s))"
    using hd_dropWhile [of is_space s] by (simp add: t_def)
qed

lemma strip_strip [simp]: "strip (strip s) = strip s"
  by (rule strip_id) (use strip_ends in auto)

lemma set_strip: "set (strip s) \<subseteq> set s"
  by (auto simp: strip_def lstrip_def rstrip_def dest!: set_dropWhileD)

section \<open>Numbers\<close>

text \<open>\<open>int(s)\<close>: blanks around, a sign, decimal digits with single underscores between them.\<close>

fun int_digits :: "nat \<Rightarrow> bool \<Rightarrow> string \<Rightarrow> nat option" where
  "int_digits n prev [] = (if prev then Some n else None)"
| "int_digits n prev (c # cs) =
     (if is_digit c then int_digits (10 * n + digit_val c) True cs
      else if c = CHR ''_'' \<and> prev then int_digits n False cs
      else None)"

definition py_int :: "string \<Rightarrow> int res" where
  "py_int s =
     (let t = strip s;
          (neg, body) = (case t of
             [] \<Rightarrow> (False, [])
           | c # cs \<Rightarrow> (if c = CHR ''-'' then (True, cs) else if c = CHR ''+'' then (False, cs) else (False, t)))
      in case int_digits 0 False body of
           None \<Rightarrow> Inl ValueError
         | Some n \<Rightarrow> Inr (if neg then - int n else int n))"

text \<open>\<open>str(n)\<close> for a natural number, most significant digit first.\<close>

fun show_nat :: "nat \<Rightarrow> string" where
  "show_nat n = (if n < 10 then [char_of (n + 48)] else show_nat (n div 10) @ [char_of (n mod 10 + 48)])"

declare show_nat.simps [simp del]

definition dec_val :: "string \<Rightarrow> nat" where
  "dec_val s = foldl (\<lambda>n c. 10 * n + digit_val c) 0 s"

lemma of_char_of_nat: "n < 256 \<Longrightarrow> ord_of (char_of (n :: nat)) = n"
  by simp

lemma digit_char: "n < 10 \<Longrightarrow> is_digit (char_of (n + 48 :: nat)) \<and> digit_val (char_of (n + 48 :: nat)) = n"
  by (simp add: is_digit_def digit_val_def)

lemma show_nat_digits: "c \<in> set (show_nat n) \<Longrightarrow> is_digit c"
proof (induction n rule: show_nat.induct)
  case (1 n)
  then show ?case
    using digit_char [of n] digit_char [of "n mod 10"]
    by (subst (asm) (2) show_nat.simps) (auto split: if_splits)
qed

lemma show_nat_not_Nil [simp]: "show_nat n \<noteq> []"
  by (subst show_nat.simps) simp

lemma dec_val_show_nat: "dec_val (show_nat n) = n"
proof (induction n rule: show_nat.induct)
  case (1 n)
  then show ?case
    using digit_char [of n] digit_char [of "n mod 10"]
    by (subst show_nat.simps) (auto simp: dec_val_def)
qed

lemma int_digits_dec: "(\<forall>c \<in> set s. is_digit c) \<Longrightarrow>
    int_digits n prev s = (if s = [] \<and> \<not> prev then None else Some (foldl (\<lambda>n c. 10 * n + digit_val c) n s))"
  by (induction s arbitrary: n prev) auto

lemma digit_not_space: "is_digit c \<Longrightarrow> \<not> is_space c"
  by (auto simp: is_digit_def is_space_def)

lemma digit_not_sign: "is_digit c \<Longrightarrow> c \<noteq> CHR ''-'' \<and> c \<noteq> CHR ''+''"
  by (auto simp: is_digit_def)

lemma py_int_show_nat: "py_int (show_nat n) = Inr (int n)"
proof -
  have d: "\<forall>c \<in> set (show_nat n). is_digit c" by (simp add: show_nat_digits)
  then have "strip (show_nat n) = show_nat n"
    by (intro strip_id) (auto simp: digit_not_space)
  moreover obtain c cs where s: "show_nat n = c # cs" by (cases "show_nat n") auto
  moreover have "c \<noteq> CHR ''-''" "c \<noteq> CHR ''+''" using d s digit_not_sign by auto
  moreover have "int_digits 0 False (c # cs) = Some n"
    using int_digits_dec [OF d, of 0 False] dec_val_show_nat [of n] by (simp add: s dec_val_def)
  ultimately show ?thesis by (simp add: py_int_def Let_def)
qed

section \<open>Hexadecimal text\<close>

definition hex_digit :: "nat \<Rightarrow> char" where
  "hex_digit n = (if n < 10 then char_of (n + 48) else char_of (n + 87))"

text \<open>\<open>b.hex()\<close> and \<open>bytes.fromhex(s)\<close> (the callers pass an even number of hex digits).\<close>

fun to_hex :: "string \<Rightarrow> string" where
  "to_hex [] = []"
| "to_hex (c # cs) = hex_digit (ord_of c div 16) # hex_digit (ord_of c mod 16) # to_hex cs"

fun from_hex :: "string \<Rightarrow> string res" where
  "from_hex [] = Inr []"
| "from_hex [c] = Inl ValueError"
| "from_hex (a # b # cs) =
     (if is_hex a \<and> is_hex b
      then rbind (from_hex cs) (\<lambda>r. Inr (char_of (16 * hex_val a + hex_val b) # r))
      else Inl ValueError)"

lemma hex_digit_props: "n < 16 \<Longrightarrow> is_hex (hex_digit n) \<and> hex_val (hex_digit n) = n"
  by (auto simp: hex_digit_def is_hex_def hex_val_def is_digit_def)

lemma from_hex_to_hex [simp]: "from_hex (to_hex s) = Inr s"
proof (induction s)
  case (Cons c cs)
  have "(of_char c :: nat) div 16 < 16" "(of_char c :: nat) mod 16 < 16"
    using of_char_lt_256 [of c] by (simp_all, arith)
  then show ?case using Cons by (simp add: hex_digit_props)
qed simp

lemma to_hex_hex: "c \<in> set (to_hex s) \<Longrightarrow> is_hex c"
proof (induction s)
  case (Cons x xs)
  have "(of_char x :: nat) div 16 < 16" "(of_char x :: nat) mod 16 < 16"
    using of_char_lt_256 [of x] by (simp_all, arith)
  then show ?case using Cons hex_digit_props by auto
qed simp

lemma from_hex_ok: "even (length s) \<Longrightarrow> \<forall>c \<in> set s. is_hex c \<Longrightarrow> \<exists>b. from_hex s = Inr b \<and> length s = 2 * length b"
  by (induction s rule: from_hex.induct) auto

lemma length_to_hex: "length (to_hex s) = 2 * length s"
  by (induction s) auto

text \<open>\<open>s.rsplit(c, 1)[-1]\<close>: what follows the last separator.\<close>

definition last_piece :: "char \<Rightarrow> string \<Rightarrow> string" where
  "last_piece c s = last (split_on c s)"

section \<open>The order of texts\<close>

text \<open>\<open>s <= t\<close> compares code points; on UTF-8 the bytes have the same order.\<close>

fun str_le :: "string \<Rightarrow> string \<Rightarrow> bool" where
  "str_le [] t = True"
| "str_le (c # s) [] = False"
| "str_le (c # s) (d # t) = (ord_of c < ord_of d \<or> (c = d \<and> str_le s t))"

lemma str_le_total: "str_le s t \<or> str_le t s"
  by (induction s t rule: str_le.induct) auto

lemma str_le_trans: "str_le s t \<Longrightarrow> str_le t u \<Longrightarrow> str_le s u"
proof (induction s arbitrary: t u)
  case (Cons c s)
  then show ?case by (cases t; cases u) auto
qed simp

interpretation text_order: sort_order str_le
  by unfold_locales (use str_le_total str_le_trans in blast)+

end
