(* ===== verification/SubnetEdit.thy ===== *)
theory SubnetEdit
  imports ConfigView PyStr
begin

text \<open>
  \<open>jen/services/kea_config_edit.py\<close>, first part: adding, changing, moving and deleting subnets and
  shared networks in a parsed Kea configuration. Every operation takes the whole configuration and
  returns the new one with the code's outcome word (or \<open>changed\<close> flag); the deep copy the code
  starts with is the value semantics of the model. An operation that meets a value of a shape the
  code does not expect ends in the exception Python raises there, and the copy is lost.
\<close>

datatype outcome =
    Ok | IdExists | NoNetwork | NotFound | NoChange | Exists | NotEmpty
  | Managed | Builtin | Referenced | Boundary | Unsupported | Multiple | MarkerInvalid

type_synonym edit = "(json \<times> outcome) res"

section \<open>Helpers of the code\<close>

text \<open>\<open>_iter_subnets(cfg, dhcp_key, subnet_key)\<close> as references into the configuration.\<close>

definition iter_subnet_refs :: "json \<Rightarrow> string \<Rightarrow> string \<Rightarrow> path list res" where
  "iter_subnet_refs cfg dhcp_key subnet_key =
     rbind (py_get cfg dhcp_key) (\<lambda>section.
       Inr (map (\<lambda>r. Key dhcp_key # fst r) (subnet_refs subnet_key section)))"

definition has_id :: "json \<Rightarrow> json \<Rightarrow> bool" where
  "has_id sid s = py_eq (jget s ''id'') sid"

text \<open>A value the code iterates and then appends to: only a list takes both.\<close>

definition appendable :: "json \<Rightarrow> json list res" where
  "appendable v = (case v of JList xs \<Rightarrow> Inr xs
                   | _ \<Rightarrow> rbind (py_iter v) (\<lambda>_. Inl AttributeError))"

definition option_entry :: "string \<Rightarrow> int \<Rightarrow> string \<Rightarrow> string \<Rightarrow> json" where
  "option_entry name code space data =
     JObj [(''name'', JStr name), (''code'', JInt code), (''space'', JStr space),
           (''csv-format'', JBool True), (''data'', JStr data)]"

definition entry_has_code :: "int \<Rightarrow> json \<Rightarrow> bool" where
  "entry_has_code code o' = (is_dict o' \<and> py_eq (jget o' ''code'') (JInt code))"

definition entry_has_name_only :: "string \<Rightarrow> json \<Rightarrow> bool" where
  "entry_has_name_only name o' =
     (is_dict o' \<and> jget o' ''code'' = JNull \<and> py_eq (jget o' ''name'') (JStr name))"

definition set_data :: "nat \<Rightarrow> string \<Rightarrow> json list \<Rightarrow> json list \<times> bool" where
  "set_data i data opts =
     (opts[i := jset ''data'' (JStr data) (opts ! i)], \<not> py_eq (jget (opts ! i) ''data'') (JStr data))"

definition upsert_option :: "json list \<Rightarrow> string \<Rightarrow> int \<Rightarrow> string \<Rightarrow> string \<Rightarrow> json list \<times> bool" where
  "upsert_option opts name code space data =
     (case find_index (entry_has_code code) opts of
        Some i \<Rightarrow> set_data i data opts
      | None \<Rightarrow>
          (case find_index (entry_has_name_only name) opts of
             Some i \<Rightarrow> set_data i data opts
           | None \<Rightarrow> (opts @ [option_entry name code space data], True)))"

definition set_if_different :: "string \<Rightarrow> json \<Rightarrow> json \<Rightarrow> json \<times> bool" where
  "set_if_different key v s = (if py_eq (jget s key) v then (s, False) else (jset key v s, True))"

definition pools_json :: "string \<Rightarrow> string list \<Rightarrow> json" where
  "pools_json new_pool extra_pools =
     JList (JObj [(''pool'', JStr new_pool)] # map (\<lambda>p. JObj [(''pool'', JStr p)]) extra_pools)"

definition set_pools :: "string \<Rightarrow> string list \<Rightarrow> json \<Rightarrow> json \<times> bool" where
  "set_pools new_pool extra_pools s = set_if_different ''pools'' (pools_json new_pool extra_pools) s"

section \<open>Changing a subnet\<close>

text \<open>
  The steps of the edit form, each on the subnet and the \<open>changed\<close> flag so far; an empty form field
  is a step that does nothing.
\<close>

type_synonym form_step = "json \<times> bool \<Rightarrow> (json \<times> bool) res"

definition pool_step :: "string \<Rightarrow> string list \<Rightarrow> form_step" where
  "pool_step new_pool extra_pools = (\<lambda>(s, ch).
     if new_pool = [] then Inr (s, ch)
     else (case set_pools new_pool extra_pools s of (s', c) \<Rightarrow> Inr (s', ch \<or> c)))"

definition int_step :: "string \<Rightarrow> string \<Rightarrow> form_step" where
  "int_step key text = (\<lambda>(s, ch).
     if text = [] then Inr (s, ch)
     else rbind (py_int text) (\<lambda>n.
       case set_if_different key (JInt n) s of (s', c) \<Rightarrow> Inr (s', ch \<or> c)))"

text \<open>One managed option: its name, code and space, and the form's value.\<close>

definition opt_step :: "string \<Rightarrow> int \<Rightarrow> string \<Rightarrow> string \<Rightarrow> json list \<times> bool \<Rightarrow> json list \<times> bool" where
  "opt_step name code space data = (\<lambda>(opts, ch).
     if data = [] then (opts, ch)
     else (case upsert_option opts name code space data of (opts', c) \<Rightarrow> (opts', ch \<or> c)))"

definition options_step :: "bool \<Rightarrow> (json list \<times> bool \<Rightarrow> json list \<times> bool) \<Rightarrow> form_step" where
  "options_step any f = (\<lambda>(s, ch).
     if \<not> any then Inr (s, ch)
     else rbind (appendable (jget_default s ''option-data'' (JList []))) (\<lambda>opts.
       case f (opts, ch) of (opts', ch') \<Rightarrow> Inr (jset ''option-data'' (JList opts') s, ch')))"

definition patch_form4 ::
  "string \<Rightarrow> string list \<Rightarrow> string \<Rightarrow> string \<Rightarrow> string \<Rightarrow> string \<Rightarrow> string \<Rightarrow> json \<Rightarrow> (json \<times> bool) res" where
  "patch_form4 new_pool extra_pools new_lifetime new_renew new_rebind new_routers new_dns s =
     rbind (pool_step new_pool extra_pools (s, False)) (\<lambda>r.
     rbind (int_step ''valid-lifetime'' new_lifetime r) (\<lambda>r.
     rbind (int_step ''renew-timer'' new_renew r) (\<lambda>r.
     rbind (int_step ''rebind-timer'' new_rebind r) (\<lambda>r.
       options_step (new_routers \<noteq> [] \<or> new_dns \<noteq> [])
         (opt_step ''domain-name-servers'' 6 ''dhcp4'' new_dns \<circ> opt_step ''routers'' 3 ''dhcp4'' new_routers) r))))"

definition patch_form6 ::
  "string \<Rightarrow> string list \<Rightarrow> string \<Rightarrow> string \<Rightarrow> string \<Rightarrow> string \<Rightarrow> string \<Rightarrow> json \<Rightarrow> (json \<times> bool) res" where
  "patch_form6 new_pool extra_pools new_preferred new_valid new_renew new_rebind new_dns s =
     rbind (pool_step new_pool extra_pools (s, False)) (\<lambda>r.
     rbind (int_step ''preferred-lifetime'' new_preferred r) (\<lambda>r.
     rbind (int_step ''valid-lifetime'' new_valid r) (\<lambda>r.
     rbind (int_step ''renew-timer'' new_renew r) (\<lambda>r.
     rbind (int_step ''rebind-timer'' new_rebind r) (\<lambda>r.
       options_step (new_dns \<noteq> []) (opt_step ''dns-servers'' 23 ''dhcp6'' new_dns) r)))))"

text \<open>The loop of both: the first subnet with the id is edited in place, then the loop breaks.\<close>

definition patch_subnet :: "string \<Rightarrow> string \<Rightarrow> (json \<Rightarrow> (json \<times> bool) res) \<Rightarrow> json \<Rightarrow> json \<Rightarrow> (json \<times> bool) res" where
  "patch_subnet dhcp_key subnet_key form cfg subnet_id =
     rbind (iter_subnet_refs cfg dhcp_key subnet_key) (\<lambda>refs.
       case find (\<lambda>p. has_id subnet_id (value_at cfg p)) refs of
         None \<Rightarrow> Inr (cfg, False)
       | Some p \<Rightarrow> rbind (form (value_at cfg p)) (\<lambda>(s, ch). Inr (json_put p s cfg, ch)))"

definition patch_subnet4 where
  "patch_subnet4 cfg subnet_id new_pool extra_pools new_lifetime new_renew new_rebind new_routers new_dns =
     patch_subnet ''Dhcp4'' ''subnet4''
       (patch_form4 new_pool extra_pools new_lifetime new_renew new_rebind new_routers new_dns) cfg subnet_id"

definition patch_subnet6 where
  "patch_subnet6 cfg subnet_id new_pool extra_pools new_preferred new_valid new_renew new_rebind new_dns =
     patch_subnet ''Dhcp6'' ''subnet6''
       (patch_form6 new_pool extra_pools new_preferred new_valid new_renew new_rebind new_dns) cfg subnet_id"

section \<open>Adding a subnet\<close>

text \<open>\<open>v.setdefault(key, []).append(x)\<close>.\<close>

definition append_to :: "string \<Rightarrow> json \<Rightarrow> json \<Rightarrow> json res" where
  "append_to key x v =
     (if \<not> is_dict v then Inl AttributeError
      else (case jget_default v key (JList []) of
              JList xs \<Rightarrow> Inr (jset key (JList (xs @ [x])) v)
            | _ \<Rightarrow> Inl AttributeError))"

text \<open>\<open>cfg.setdefault("Dhcp4", {})\<close>.\<close>

definition ensure_dhcp4 :: "json \<Rightarrow> json res" where
  "ensure_dhcp4 cfg = (if is_dict cfg then Inr (jsetdefault ''Dhcp4'' (JObj []) cfg) else Inl AttributeError)"

text \<open>
  \<open>next(sn for sn in d4.get("shared-networks") or [] if isinstance(sn, dict) and sn.get("name") == name)\<close>,
  as the reference of that network inside \<open>d4\<close>.
\<close>

definition find_ref :: "string \<Rightarrow> (json \<Rightarrow> bool) \<Rightarrow> json \<Rightarrow> path option res" where
  "find_ref key P c =
     rbind (py_get c key) (\<lambda>v. rbind (iter_or_empty v) (\<lambda>_.
       Inr (find (\<lambda>p. P (value_at c p)) (list_refs key c))))"

definition network_named :: "json \<Rightarrow> json \<Rightarrow> bool" where
  "network_named name sn = py_eq (jget sn ''name'') name"

definition add_subnet4 :: "json \<Rightarrow> json \<Rightarrow> json \<Rightarrow> edit" where
  "add_subnet4 cfg block shared_network =
     rbind (py_get block ''id'') (\<lambda>new_id.
     rbind (ensure_dhcp4 cfg) (\<lambda>cfg.
       let d4 = jget cfg ''Dhcp4'' in
       if list_ex (\<lambda>(s, n). has_id new_id s) (iter_subnet4 d4) then Inr (cfg, IdExists)
       else if truthy shared_network then
         rbind (find_ref ''shared-networks'' (network_named shared_network) d4) (\<lambda>r.
           case r of
             None \<Rightarrow> Inr (cfg, NoNetwork)
           | Some p \<Rightarrow>
               rbind (append_to ''subnet4'' block (value_at d4 p)) (\<lambda>sn.
                 Inr (json_put (Key ''Dhcp4'' # p) sn cfg, Ok)))
       else
         rbind (append_to ''subnet4'' block d4) (\<lambda>d4'. Inr (jset ''Dhcp4'' d4' cfg, Ok))))"

section \<open>Deleting a subnet\<close>

text \<open>The containers a subnet can live in: \<open>d4\<close> itself (the empty path) and its shared networks.\<close>

definition container_refs :: "json \<Rightarrow> path list res" where
  "container_refs d4 =
     rbind (iter_or_empty (jget d4 ''shared-networks'')) (\<lambda>_.
       Inr ([] # list_refs ''shared-networks'' d4))"

text \<open>\<open>[s for s in subs if s.get("id") != subnet_id]\<close>: an entry that is not a dict has no \<open>get\<close>.\<close>

definition kept_subnets :: "json \<Rightarrow> json list \<Rightarrow> json list res" where
  "kept_subnets subnet_id subs =
     (if list_all is_dict subs then Inr (filter (\<lambda>s. \<not> has_id subnet_id s) subs) else Inl AttributeError)"

fun delete_from :: "json \<Rightarrow> json \<Rightarrow> path list \<Rightarrow> json option res" where
  "delete_from d4 subnet_id [] = Inr None"
| "delete_from d4 subnet_id (p # ps) =
     (case jget (value_at d4 p) ''subnet4'' of
        JList subs \<Rightarrow>
          rbind (kept_subnets subnet_id subs) (\<lambda>kept.
            if length kept \<noteq> length subs
            then Inr (Some (json_put p (jset ''subnet4'' (JList kept) (value_at d4 p)) d4))
            else delete_from d4 subnet_id ps)
      | _ \<Rightarrow> delete_from d4 subnet_id ps)"

definition delete_subnet4 :: "json \<Rightarrow> json \<Rightarrow> edit" where
  "delete_subnet4 cfg subnet_id =
     rbind (py_get cfg ''Dhcp4'') (\<lambda>d4.
       if \<not> is_dict d4 then Inr (cfg, NotFound)
       else rbind (container_refs d4) (\<lambda>refs. rbind (delete_from d4 subnet_id refs) (\<lambda>r.
         case r of
           None \<Rightarrow> Inr (cfg, NotFound)
         | Some d4' \<Rightarrow> Inr (jset ''Dhcp4'' d4' cfg, Ok))))"

section \<open>Shared networks\<close>

definition create_shared_network4 :: "json \<Rightarrow> json \<Rightarrow> json \<Rightarrow> edit" where
  "create_shared_network4 cfg name interface =
     rbind (ensure_dhcp4 cfg) (\<lambda>cfg.
       let d4 = jget cfg ''Dhcp4'' in
       if \<not> is_dict d4 then Inl AttributeError
       else
         let d4 = jsetdefault ''shared-networks'' (JList []) d4;
             nets = jget d4 ''shared-networks'';
             block = JObj ([(''name'', name), (''subnet4'', JList [])] @
                           (if truthy interface then [(''interface'', interface)] else []))
         in rbind (py_iter nets) (\<lambda>xs.
              if list_ex (\<lambda>n. is_dict n \<and> network_named name n) xs
              then Inr (jset ''Dhcp4'' d4 cfg, Exists)
              else rbind (append_to ''shared-networks'' block d4) (\<lambda>d4'.
                Inr (jset ''Dhcp4'' d4' cfg, Ok))))"

definition delete_shared_network4 :: "json \<Rightarrow> json \<Rightarrow> edit" where
  "delete_shared_network4 cfg name =
     rbind (py_get cfg ''Dhcp4'') (\<lambda>d4.
       (case jget d4 ''shared-networks'' of
          JList nets \<Rightarrow>
            (case find_index (\<lambda>n. is_dict n \<and> network_named name n) nets of
               None \<Rightarrow> Inr (cfg, NotFound)
             | Some i \<Rightarrow>
                 if truthy (jget (nets ! i) ''subnet4'') then Inr (cfg, NotEmpty)
                 else Inr (jset ''Dhcp4'' (jset ''shared-networks'' (JList (remove_nth i nets)) d4) cfg, Ok))
        | _ \<Rightarrow> Inr (cfg, NotFound)))"

section \<open>Moving a subnet\<close>

text \<open>Where the subnet is: the container's reference, its index there and the container's name.\<close>

fun find_source :: "json \<Rightarrow> json \<Rightarrow> path list \<Rightarrow> (path \<times> nat) option res" where
  "find_source d4 subnet_id [] = Inr None"
| "find_source d4 subnet_id (p # ps) =
     (case jget (value_at d4 p) ''subnet4'' of
        JList subs \<Rightarrow>
          (case find_index (\<lambda>s. \<not> is_dict s \<or> has_id subnet_id s) subs of
             Some i \<Rightarrow> (if is_dict (subs ! i) then Inr (Some (p, i)) else Inl AttributeError)
           | None \<Rightarrow> find_source d4 subnet_id ps)
      | _ \<Rightarrow> find_source d4 subnet_id ps)"

definition container_name :: "json \<Rightarrow> path \<Rightarrow> json" where
  "container_name d4 p = (if p = [] then JNull else jget (value_at d4 p) ''name'')"

definition pop_subnet :: "json \<Rightarrow> path \<Rightarrow> nat \<Rightarrow> json" where
  "pop_subnet d4 p i =
     (case jget (value_at d4 p) ''subnet4'' of
        JList subs \<Rightarrow> json_put p (jset ''subnet4'' (JList (remove_nth i subs)) (value_at d4 p)) d4
      | _ \<Rightarrow> d4)"

definition subnet_in :: "json \<Rightarrow> path \<Rightarrow> nat \<Rightarrow> json" where
  "subnet_in d4 p i = (case jget (value_at d4 p) ''subnet4'' of JList subs \<Rightarrow> subs ! i | _ \<Rightarrow> JNull)"

definition dest_ref :: "json \<Rightarrow> json \<Rightarrow> path option res" where
  "dest_ref target d4 =
     (if target = JNull then Inr (Some []) else find_ref ''shared-networks'' (network_named target) d4)"

definition move_subnet4 :: "json \<Rightarrow> json \<Rightarrow> json \<Rightarrow> edit" where
  "move_subnet4 cfg subnet_id to_network =
     rbind (py_get cfg ''Dhcp4'') (\<lambda>d4.
       if \<not> is_dict d4 then Inr (cfg, NotFound)
       else
         let target = py_or to_network JNull in
         rbind (container_refs d4) (\<lambda>refs. rbind (find_source d4 subnet_id refs) (\<lambda>src.
           case src of
             None \<Rightarrow> Inr (cfg, NotFound)
           | Some (p, i) \<Rightarrow>
               if py_eq target (container_name d4 p) then Inr (cfg, NoChange)
               else
                 rbind (dest_ref target d4) (\<lambda>dest.
                   case dest of
                     None \<Rightarrow> Inr (cfg, NoNetwork)
                   | Some q \<Rightarrow>
                       let subnet = subnet_in d4 p i; d4' = pop_subnet d4 p i in
                       rbind (append_to ''subnet4'' subnet (value_at d4' q)) (\<lambda>c.
                         Inr (jset ''Dhcp4'' (json_put q c d4') cfg, Ok))))))"

end
