(* ===== verification/SubnetLaws.thy ===== *)
theory SubnetLaws
  imports SubnetEdit "HOL-Library.Multiset"
begin

text \<open>
  What the subnet operations of \<open>SubnetEdit\<close> do.

  The abstract view of a \<open>Dhcp4\<close> block is its \<open>layout\<close>: the list of places a subnet can live in
  (the block itself, then each shared network), each with its name and its subnets. Adding,
  deleting and moving a subnet are list updates of the layout; the operations refine them. A change
  through the edit form replaces one subnet of the iteration and nothing else.
\<close>

section \<open>The edit form\<close>

lemma set_if_different_facts:
  assumes "set_if_different key v s = (s', c)" and "is_dict s" and "py_eq v v"
  shows "is_dict s'" and "\<And>k. k \<noteq> key \<Longrightarrow> jget s' k = jget s k" and "py_eq (jget s' key) v"
    and "\<not> c \<Longrightarrow> s' = s" and "\<And>k. k \<noteq> key \<Longrightarrow> jhas s' k = jhas s k"
  using assms by (auto simp: set_if_different_def split: if_splits)

text \<open>
  A step of the form works on one key of the subnet, reports a change exactly when it made one, and
  leaves the subnet in a state on which it has nothing left to do.
\<close>

definition settled :: "form_step \<Rightarrow> json \<Rightarrow> bool" where
  "settled f s = (\<forall>c. f (s, c) = Inr (s, c))"

definition form_law :: "string \<Rightarrow> form_step \<Rightarrow> bool" where
  "form_law key f =
     ((\<forall>s ch s' ch'. is_dict s \<longrightarrow> f (s, ch) = Inr (s', ch') \<longrightarrow>
         is_dict s' \<and> (\<forall>k. k \<noteq> key \<longrightarrow> jget s' k = jget s k \<and> jhas s' k = jhas s k) \<and>
         (\<not> ch' \<longrightarrow> \<not> ch \<and> s' = s) \<and> settled f s') \<and>
      (\<forall>s t. is_dict s \<longrightarrow> is_dict t \<longrightarrow> jget s key = jget t key \<longrightarrow> jhas s key = jhas t key \<longrightarrow>
         settled f s \<longrightarrow> settled f t))"

lemma form_lawD:
  assumes "form_law key f" and "is_dict s" and "f (s, ch) = Inr (s', ch')"
  shows "is_dict s'" and "k \<noteq> key \<Longrightarrow> jget s' k = jget s k" and "k \<noteq> key \<Longrightarrow> jhas s' k = jhas s k"
    and "\<not> ch' \<Longrightarrow> \<not> ch \<and> s' = s" and "settled f s'"
  using assms unfolding form_law_def by blast+

lemma form_law_settled:
  assumes "form_law key f" and "is_dict s" and "is_dict t"
    and "jget s key = jget t key" and "jhas s key = jhas t key" and "settled f s"
  shows "settled f t"
  using assms unfolding form_law_def by blast

lemma py_eq_pools [simp]: "py_eq (pools_json a b) (pools_json a b)"
  by (rule py_eq_refl(1)) (simp add: pools_json_def wf_list_iff)

lemma py_eq_JInt_unique: "py_eq v (JInt a) \<Longrightarrow> py_eq v (JInt b) \<Longrightarrow> a = b"
  by (cases v) auto

text \<open>The steps that set one key: \<open>w\<close> is the value to set, if the form field is filled in.\<close>

lemma form_law_set:
  assumes run: "\<And>s c. f (s, c) =
      (case target of Inl e \<Rightarrow> Inl e | Inr None \<Rightarrow> Inr (s, c)
       | Inr (Some v) \<Rightarrow> Inr (fst (set_if_different key v s), c \<or> snd (set_if_different key v s)))"
    and refl: "\<And>v. target = Inr (Some v) \<Longrightarrow> py_eq v v"
  shows "form_law key f"
proof (cases target)
  case (Inl e)
  then show ?thesis by (simp add: form_law_def settled_def run)
next
  case (Inr w)
  show ?thesis
  proof (cases w)
    case None
    then show ?thesis by (simp add: form_law_def settled_def run Inr)
  next
    case (Some v)
    have r: "f (s, c) = (if py_eq (jget s key) v then Inr (s, c) else Inr (jset key v s, True))" for s c
      by (simp add: run Inr Some set_if_different_def)
    have v: "py_eq v v" using refl Inr Some by simp
    have "settled f s \<longleftrightarrow> py_eq (jget s key) v" for s
      by (auto simp: settled_def r)
    then show ?thesis using v by (auto simp: form_law_def r split: if_splits)
  qed
qed

lemma form_law_pool: "form_law ''pools'' (pool_step new_pool extra)"
  by (rule form_law_set [where target = "Inr (if new_pool = [] then None else Some (pools_json new_pool extra))"])
    (auto simp: pool_step_def set_pools_def split_beta split: if_splits)

lemma form_law_int: "form_law key (int_step key text)"
proof (rule form_law_set)
  let ?t = "if text = [] then Inr None else rbind (py_int text) (\<lambda>n. Inr (Some (JInt n)))"
  show "int_step key text (s, c) =
      (case ?t of Inl e \<Rightarrow> Inl e | Inr None \<Rightarrow> Inr (s, c)
       | Inr (Some v) \<Rightarrow> Inr (fst (set_if_different key v s), c \<or> snd (set_if_different key v s)))" for s c
    by (cases "py_int text") (auto simp: int_step_def split_beta)
  show "py_eq v v" if "?t = Inr (Some v)" for v
    using that by (auto simp: res_simps split: if_splits)
qed

subsection \<open>The managed options of the form\<close>

text \<open>The entry an upsert writes to: by code, else by name among the entries without a code.\<close>

definition entry_index :: "string \<Rightarrow> int \<Rightarrow> json list \<Rightarrow> nat option" where
  "entry_index name code opts =
     (case find_index (entry_has_code code) opts of
        Some i \<Rightarrow> Some i | None \<Rightarrow> find_index (entry_has_name_only name) opts)"

lemma upsert_option_index:
  "upsert_option opts name code space data =
     (case entry_index name code opts of
        Some i \<Rightarrow> set_data i data opts
      | None \<Rightarrow> (opts @ [option_entry name code space data], True))"
  by (simp add: upsert_option_def entry_index_def split: option.split)

lemma entry_index_Some:
  assumes "entry_index name code opts = Some i"
  shows "i < length opts" and "is_dict (opts ! i)"
    and "entry_has_code code (opts ! i) \<or> entry_has_name_only name (opts ! i)"
  using assms
  by (auto simp: entry_index_def entry_has_code_def entry_has_name_only_def
      dest: find_index_SomeD split: option.splits)

lemma entry_preds_set_data [simp]:
  "is_dict o' \<Longrightarrow> entry_has_code c (jset ''data'' x o') = entry_has_code c o'"
  "is_dict o' \<Longrightarrow> entry_has_name_only n (jset ''data'' x o') = entry_has_name_only n o'"
  by (simp_all add: entry_has_code_def entry_has_name_only_def)

lemma find_index_update_same:
  assumes "i < length xs" and "P y = P (xs ! i)"
  shows "find_index P (xs[i := y]) = find_index P xs"
proof -
  have "P ((xs[i := y]) ! j) = P (xs ! j)" if "j < length xs" for j
    using assms that by (cases "j = i") auto
  then have "find_index P (xs[i := y]) = Some k \<longleftrightarrow> find_index P xs = Some k" for k
    by (auto simp: find_index_Some)
  then show ?thesis by (metis option.exhaust)
qed

lemma entry_index_set_data [simp]:
  "i < length opts \<Longrightarrow> is_dict (opts ! i) \<Longrightarrow>
     entry_index n c (opts[i := jset ''data'' x (opts ! i)]) = entry_index n c opts"
  by (simp add: entry_index_def find_index_update_same split: option.split)

definition opt_settled :: "string \<Rightarrow> int \<Rightarrow> string \<Rightarrow> json list \<Rightarrow> bool" where
  "opt_settled name code data opts =
     (data = [] \<or> (\<exists>i. entry_index name code opts = Some i \<and> jget (opts ! i) ''data'' = JStr data))"

lemma opt_settled_step:
  assumes "opt_settled name code data opts"
  shows "opt_step name code space data (opts, ch) = (opts, ch)"
proof (cases "data = []")
  case False
  with assms obtain i where i: "entry_index name code opts = Some i" "jget (opts ! i) ''data'' = JStr data"
    by (auto simp: opt_settled_def)
  then have "jset ''data'' (JStr data) (opts ! i) = opts ! i"
    using jset_same [of "opts ! i" "''data''"] jget_notNull_has by simp
  then show ?thesis
    using i entry_index_Some(1) [OF i(1)] by (simp add: opt_step_def upsert_option_index set_data_def)
qed (simp add: opt_step_def)

lemma entry_index_snoc:
  assumes "entry_index name code opts = None"
  shows "entry_index name code (opts @ [option_entry name code space data]) = Some (length opts)"
proof -
  have "entry_has_code code (option_entry name code space data)"
    by (simp add: entry_has_code_def option_entry_def jget_def)
  then show ?thesis
    using assms by (auto simp: entry_index_def find_index_append split: option.splits)
qed

lemma opt_step_settles:
  assumes "opt_step name code space data (opts, ch) = (opts', ch')"
  shows "opt_settled name code data opts'"
proof (cases "data = []")
  case False
  show ?thesis
  proof (cases "entry_index name code opts")
    case None
    then have "opts' = opts @ [option_entry name code space data]"
      using assms False by (simp add: opt_step_def upsert_option_index)
    then show ?thesis
      using entry_index_snoc [OF None, of space data]
      by (auto simp: opt_settled_def option_entry_def jget_def)
  next
    case (Some i)
    then have "opts' = opts[i := jset ''data'' (JStr data) (opts ! i)]"
      using assms False by (simp add: opt_step_def upsert_option_index set_data_def)
    then show ?thesis
      using Some entry_index_Some [OF Some] by (simp add: opt_settled_def)
  qed
qed (simp add: opt_settled_def)

lemma opt_step_quiet:
  assumes "opt_step name code space data (opts, ch) = (opts', ch')" and "\<not> ch'"
  shows "\<not> ch \<and> opts' = opts"
proof (cases "data = []")
  case False
  show ?thesis
  proof (cases "entry_index name code opts")
    case (Some i)
    then have e: "opts' = opts[i := jset ''data'' (JStr data) (opts ! i)]"
      and "\<not> ch" "jget (opts ! i) ''data'' = JStr data"
      using assms False by (auto simp: opt_step_def upsert_option_index set_data_def)
    then have "jset ''data'' (JStr data) (opts ! i) = opts ! i"
      using jset_same [of "opts ! i" "''data''"] jget_notNull_has by simp
    then show ?thesis using e \<open>\<not> ch\<close> by simp
  qed (use assms False in \<open>simp add: opt_step_def upsert_option_index\<close>)
qed (use assms in \<open>simp add: opt_step_def\<close>)

lemma opt_settled_other:
  assumes "opt_settled name code data opts"
    and "opt_step name' code' space' data' (opts, ch) = (opts', ch')"
    and "name \<noteq> name'" and "code \<noteq> code'"
  shows "opt_settled name code data opts'"
proof (cases "data = [] \<or> data' = []")
  case True
  then show ?thesis using assms by (auto simp: opt_settled_def opt_step_def)
next
  case False
  with assms(1) obtain i where i: "entry_index name code opts = Some i" "jget (opts ! i) ''data'' = JStr data"
    by (auto simp: opt_settled_def)
  show ?thesis
  proof (cases "entry_index name' code' opts")
    case None
    have "\<not> entry_has_code code (option_entry name' code' space' data')"
      "\<not> entry_has_name_only name (option_entry name' code' space' data')"
      using assms(4) by (simp_all add: entry_has_code_def entry_has_name_only_def option_entry_def jget_def)
    then have "entry_index name code (opts @ [option_entry name' code' space' data']) = Some i"
      using i(1) by (auto simp: entry_index_def find_index_append split: option.splits)
    then show ?thesis
      using None False assms(2) i entry_index_Some(1) [OF i(1)]
      by (auto simp: opt_settled_def opt_step_def upsert_option_index nth_append)
  next
    case (Some j)
    have "i \<noteq> j"
      using entry_index_Some(3) [OF i(1)] entry_index_Some(3) [OF Some] assms(3,4)
      by (auto simp: entry_has_code_def entry_has_name_only_def dest: py_eq_JInt_unique)
    then show ?thesis
      using Some False assms(2) i entry_index_Some [OF Some]
      by (auto simp: opt_settled_def opt_step_def upsert_option_index set_data_def)
  qed
qed

text \<open>A list transformer of the options with the same laws, and its lift to the subnet.\<close>

definition opts_law :: "(json list \<times> bool \<Rightarrow> json list \<times> bool) \<Rightarrow> bool" where
  "opts_law f = (\<forall>opts ch opts' ch'. f (opts, ch) = (opts', ch') \<longrightarrow>
     (\<not> ch' \<longrightarrow> \<not> ch \<and> opts' = opts) \<and> (\<forall>c. f (opts', c) = (opts', c)))"

lemma opts_law_one: "opts_law (opt_step name code space data)"
  unfolding opts_law_def by (auto dest: opt_step_quiet opt_step_settles opt_settled_step)

lemma opts_law_two:
  assumes "name \<noteq> name'" and "code \<noteq> code'"
  shows "opts_law (opt_step name' code' space' data' \<circ> opt_step name code space data)"
  unfolding opts_law_def
proof (intro allI impI)
  fix opts ch opts' ch'
  assume "(opt_step name' code' space' data' \<circ> opt_step name code space data) (opts, ch) = (opts', ch')"
  then obtain o1 c1 where 1: "opt_step name code space data (opts, ch) = (o1, c1)"
    and 2: "opt_step name' code' space' data' (o1, c1) = (opts', ch')"
    by (cases "opt_step name code space data (opts, ch)") auto
  have "opt_settled name code data opts'"
    using opt_settled_other [OF opt_step_settles [OF 1] 2 assms] .
  moreover have "opt_settled name' code' data' opts'" by (rule opt_step_settles [OF 2])
  ultimately show "(\<not> ch' \<longrightarrow> \<not> ch \<and> opts' = opts) \<and>
      (\<forall>c. (opt_step name' code' space' data' \<circ> opt_step name code space data) (opts', c) = (opts', c))"
    using opt_step_quiet [OF 1] opt_step_quiet [OF 2] by (auto simp: opt_settled_step)
qed

lemma appendable_Inr: "appendable v = Inr xs \<longleftrightarrow> v = JList xs"
  by (cases v) (auto simp: appendable_def res_simps)

lemma form_law_options:
  assumes f: "opts_law f" and appends: "\<And>c. any \<Longrightarrow> fst (f ([], c)) \<noteq> []"
  shows "form_law ''option-data'' (options_step any f)"
proof -
  let ?get = "\<lambda>s. jget_default s ''option-data'' (JList [])"
  have step: "options_step any f (s, c) = (if any then rbind (appendable (?get s)) (\<lambda>opts.
      Inr (jset ''option-data'' (JList (fst (f (opts, c)))) s, snd (f (opts, c)))) else Inr (s, c))" for s c
    by (simp add: options_step_def split_beta)
  have run: "options_step any f (s, c) = Inr (s', c') \<longleftrightarrow>
      (if any then \<exists>opts opts'. ?get s = JList opts \<and>
          f (opts, c) = (opts', c') \<and> s' = jset ''option-data'' (JList opts') s
       else s' = s \<and> c' = c)" for s c s' c'
    unfolding step by (auto simp: res_simps appendable_Inr) (metis prod.collapse)+
  have has: "jhas s ''option-data'' \<and> jget s ''option-data'' = JList opts"
    if "any" "jget_default s ''option-data'' (JList []) = JList opts" "f (opts, c) = (opts, c')"
    for s opts c c'
    using that appends [of c] by (auto simp: jget_default_def split: if_splits)
  have settled_iff: "settled (options_step any f) s \<longleftrightarrow>
      \<not> any \<or> (jhas s ''option-data'' \<and>
        (\<exists>opts. jget s ''option-data'' = JList opts \<and> (\<forall>c. f (opts, c) = (opts, c))))"
    if d: "is_dict s" for s
  proof (cases "any")
    case True
    show ?thesis
    proof
      assume "settled (options_step any f) s"
      then have A: "options_step any f (s, c) = Inr (s, c)" for c by (simp add: settled_def)
      have fix_c: "\<exists>opts. ?get s = JList opts \<and> f (opts, c) = (opts, c)" for c
      proof -
        obtain opts opts' where o: "?get s = JList opts" "f (opts, c) = (opts', c)"
          and eq: "s = jset ''option-data'' (JList opts') s"
          using A [of c] True unfolding run by auto
        have "jhas (jset ''option-data'' (JList opts') s) ''option-data''" by (simp add: d)
        then have h: "jhas s ''option-data''" by (simp only: eq [symmetric])
        have "jget (jset ''option-data'' (JList opts') s) ''option-data'' = JList opts'" by (simp add: d)
        then have "jget s ''option-data'' = JList opts'" by (simp only: eq [symmetric])
        with h o show ?thesis by simp
      qed
      then obtain opts where o: "?get s = JList opts" by blast
      with fix_c have all: "f (opts, c) = (opts, c)" for c by auto
      from has [OF True o all [of True]] all
      show "\<not> any \<or> (jhas s ''option-data'' \<and>
          (\<exists>opts. jget s ''option-data'' = JList opts \<and> (\<forall>c. f (opts, c) = (opts, c))))"
        by blast
    next
      assume "\<not> any \<or> (jhas s ''option-data'' \<and>
          (\<exists>opts. jget s ''option-data'' = JList opts \<and> (\<forall>c. f (opts, c) = (opts, c))))"
      then show "settled (options_step any f) s"
        unfolding settled_def run using True by (auto simp: jset_eq_self)
    qed
  qed (simp add: settled_def options_step_def)
  show ?thesis
    unfolding form_law_def
  proof (intro conjI allI impI)
    fix s ch s' ch'
    assume d: "is_dict s" and r: "options_step any f (s, ch) = Inr (s', ch')"
    show d': "is_dict s'" using d r by (auto simp: run split: if_splits)
    show "jget s' k = jget s k" and "jhas s' k = jhas s k" if "k \<noteq> ''option-data''" for k
      using d r that by (auto simp: run split: if_splits)
    show "settled (options_step any f) s'"
      unfolding settled_iff [OF d'] using d r f unfolding run opts_law_def by (auto split: if_splits)
    show "\<not> ch" and "s' = s" if "\<not> ch'"
    proof -
      have "\<not> ch \<and> s' = s"
      proof (cases "any")
        case True
        then obtain opts opts' where o: "jget_default s ''option-data'' (JList []) = JList opts"
          "f (opts, ch) = (opts', ch')" "s' = jset ''option-data'' (JList opts') s"
          using r unfolding run by auto
        then have "\<not> ch" "opts' = opts" using f that by (auto simp: opts_law_def)
        then show ?thesis
          using o has [OF True o(1)] by (auto simp: jset_eq_self)
      qed (use r that in \<open>simp add: options_step_def\<close>)
      then show "\<not> ch" and "s' = s" by simp_all
    qed
  next
    fix s t
    assume "is_dict s" "is_dict t" "jget s ''option-data'' = jget t ''option-data''"
      "jhas s ''option-data'' = jhas t ''option-data''" "settled (options_step any f) s"
    then show "settled (options_step any f) t" by (simp add: settled_iff)
  qed
qed

subsection \<open>The whole form\<close>

fun run_form :: "form_step list \<Rightarrow> form_step" where
  "run_form [] r = Inr r"
| "run_form (f # fs) r = rbind (f r) (run_form fs)"

lemma run_form_laws:
  assumes "list_all2 form_law ks fs" and "distinct ks" and "is_dict s"
    and "run_form fs (s, ch) = Inr (s', ch')"
  shows "is_dict s' \<and> (\<forall>k. k \<notin> set ks \<longrightarrow> jget s' k = jget s k \<and> jhas s' k = jhas s k) \<and>
    (\<not> ch' \<longrightarrow> \<not> ch \<and> s' = s) \<and> (\<forall>f \<in> set fs. settled f s')"
  using assms
proof (induction ks fs arbitrary: s ch rule: list_all2_induct)
  case Nil
  then show ?case by simp
next
  case (Cons k ks f fs)
  from Cons.prems(3) obtain t c where 1: "f (s, ch) = Inr (t, c)" and 2: "run_form fs (t, c) = Inr (s', ch')"
    by (auto simp: res_simps)
  note f = form_lawD [OF Cons.hyps(1) Cons.prems(2) 1]
  have IH: "is_dict s' \<and> (\<forall>k. k \<notin> set ks \<longrightarrow> jget s' k = jget t k \<and> jhas s' k = jhas t k) \<and>
    (\<not> ch' \<longrightarrow> \<not> c \<and> s' = t) \<and> (\<forall>f \<in> set fs. settled f s')"
    using Cons.IH [OF _ f(1) 2] Cons.prems(1) by simp
  have "settled f s'"
  proof (rule form_law_settled [OF Cons.hyps(1) f(1) _ _ _ f(5)])
    show "is_dict s'" using IH by blast
    show "jget t k = jget s' k" "jhas t k = jhas s' k" using IH Cons.prems(1) by auto
  qed
  moreover have "jget s' l = jget s l \<and> jhas s' l = jhas s l" if "l \<notin> set (k # ks)" for l
    using that IH f(2,3) by simp
  moreover have "\<not> ch' \<longrightarrow> \<not> ch \<and> s' = s" using IH f(4) by blast
  ultimately show ?case using IH by simp
qed

lemma run_form_settled: "\<forall>f \<in> set fs. settled f s \<Longrightarrow> run_form fs (s, c) = Inr (s, c)"
  by (induction fs) (auto simp: settled_def)

text \<open>
  The interface of a form, as the loop over the subnets uses it: it keeps the subnet a dict with its
  id, reports a change when it made one, and does nothing the second time.
\<close>

locale subnet_form =
  fixes form :: "json \<Rightarrow> (json \<times> bool) res"
  assumes form_dict: "is_dict s \<Longrightarrow> form s = Inr (s', ch) \<Longrightarrow> is_dict s'"
    and form_id: "is_dict s \<Longrightarrow> form s = Inr (s', ch) \<Longrightarrow> jget s' ''id'' = jget s ''id''"
    and form_quiet: "is_dict s \<Longrightarrow> form s = Inr (s', False) \<Longrightarrow> s' = s"
    and form_again: "is_dict s \<Longrightarrow> form s = Inr (s', ch) \<Longrightarrow> form s' = Inr (s', False)"
begin

lemma section_value:
  assumes "(p, n) \<in> set (subnet_refs sk (jget cfg dk))"
  shows "value_at cfg (Key dk # p) = value_at (jget cfg dk) p" and "jhas cfg dk"
proof -
  from assms obtain w where "json_at p (jget cfg dk) = Some w" "p \<noteq> []" by (auto elim: subnet_refs_at)
  then have "jget cfg dk \<noteq> JNull"
    by (cases p; cases "hd p") (auto simp: json_at_Key_Cons jhas_def json_at.simps)
  then show "value_at cfg (Key dk # p) = value_at (jget cfg dk) p" and "jhas cfg dk"
    by (simp_all add: value_at_def json_at_Key_Cons jget_notNull_has)
qed

lemma section_index:
  "find_index (\<lambda>p. has_id sid (value_at cfg p)) (map (\<lambda>r. Key dk # fst r) (subnet_refs sk (jget cfg dk))) =
    find_index (\<lambda>e. has_id sid (fst e)) (iter_subnets sk (jget cfg dk))"
  unfolding iter_subnets_refs find_index_map
  by (rule find_index_cong) (auto simp: section_value ref_entry_def)

lemma patch_run:
  assumes "find_index (\<lambda>e. has_id sid (fst e)) (iter_subnets sk (jget cfg dk)) = Some i"
    and "form (fst (iter_subnets sk (jget cfg dk) ! i)) = Inr (s', ch)"
  shows "patch_subnet dk sk form cfg sid =
    Inr (json_put (Key dk # fst (subnet_refs sk (jget cfg dk) ! i)) s' cfg, ch)"
proof -
  let ?R = "subnet_refs sk (jget cfg dk)"
  have i: "i < length ?R" using find_index_SomeD(1) [OF assms(1)] by (simp add: iter_subnets_refs)
  obtain p n where pn: "?R ! i = (p, n)" by (cases "?R ! i")
  with i have mem: "(p, n) \<in> set ?R" by (metis nth_mem)
  then show ?thesis
    using assms i section_value [OF mem] jhas_dict [of cfg dk]
    by (simp add: patch_subnet_def iter_subnet_refs_def py_get_def find_via_index section_index pn
        iter_subnets_refs ref_entry_def)
qed

lemma patch_result:
  assumes key: "sk \<noteq> ''shared-networks''" "sk \<noteq> ''name''"
    and run: "patch_subnet dk sk form cfg sid = Inr (cfg', ch)"
  shows "case find_index (\<lambda>e. has_id sid (fst e)) (iter_subnets sk (jget cfg dk)) of
      None \<Rightarrow> cfg' = cfg \<and> \<not> ch
    | Some i \<Rightarrow> \<exists>p s'. cfg' = json_put (Key dk # p) s' cfg \<and> p = fst (subnet_refs sk (jget cfg dk) ! i) \<and>
        form (fst (iter_subnets sk (jget cfg dk) ! i)) = Inr (s', ch) \<and> is_dict s' \<and>
        i < length (subnet_refs sk (jget cfg dk)) \<and> jhas cfg dk"
proof -
  let ?d = "jget cfg dk" and ?R = "subnet_refs sk (jget cfg dk)"
  show ?thesis
  proof (cases "find_index (\<lambda>e. has_id sid (fst e)) (iter_subnets sk ?d)")
    case None
    then show ?thesis
      using run by (auto simp: patch_subnet_def iter_subnet_refs_def res_simps py_get_def
          find_via_index section_index split: if_splits)
  next
    case (Some i)
    then have i: "i < length ?R" using find_index_SomeD(1) [OF Some] by (simp add: iter_subnets_refs)
    obtain p n where pn: "?R ! i = (p, n)" by (cases "?R ! i")
    with i have mem: "(p, n) \<in> set ?R" by (metis nth_mem)
    have e: "fst (iter_subnets sk ?d ! i) = value_at ?d p"
      using i by (simp add: iter_subnets_refs pn ref_entry_def)
    obtain s' where s': "form (value_at ?d p) = Inr (s', ch)" "cfg' = json_put (Key dk # p) s' cfg"
      using run Some i section_value [OF mem]
      by (auto simp: patch_subnet_def iter_subnet_refs_def res_simps py_get_def find_via_index section_index pn
          split: if_splits)
    have "is_dict (value_at ?d p)" using mem by (auto elim: subnet_refs_at simp: value_at_Some)
    then have "is_dict s'" using s'(1) form_dict by blast
    then show ?thesis using Some s' e i pn section_value(2) [OF mem] by auto
  qed
qed

text \<open>Exactly one subnet of the iteration is replaced, by what the form makes of it.\<close>

lemma patch_iter:
  assumes key: "sk \<noteq> ''shared-networks''" "sk \<noteq> ''name''"
    and run: "patch_subnet dk sk form cfg sid = Inr (cfg', ch)"
  shows "case find_index (\<lambda>e. has_id sid (fst e)) (iter_subnets sk (jget cfg dk)) of
      None \<Rightarrow> cfg' = cfg \<and> \<not> ch
    | Some i \<Rightarrow> \<exists>s'. form (fst (iter_subnets sk (jget cfg dk) ! i)) = Inr (s', ch) \<and>
        iter_subnets sk (jget cfg' dk) =
          (iter_subnets sk (jget cfg dk))[i := (s', snd (iter_subnets sk (jget cfg dk) ! i))]"
  using patch_result [OF key run]
  by (auto split: option.splits simp: jget_put_Key iter_subnets_put [OF key])

lemma patch_other_sections:
  assumes "sk \<noteq> ''shared-networks''" "sk \<noteq> ''name''"
    and "patch_subnet dk sk form cfg sid = Inr (cfg', ch)" and "k \<noteq> dk"
  shows "jget cfg' k = jget cfg k"
  using patch_result [OF assms(1-3)] assms(4) by (auto split: option.splits simp: jget_put_Key)

lemma patch_quiet:
  assumes key: "sk \<noteq> ''shared-networks''" "sk \<noteq> ''name''"
    and run: "patch_subnet dk sk form cfg sid = Inr (cfg', False)"
  shows "cfg' = cfg"
proof (cases "find_index (\<lambda>e. has_id sid (fst e)) (iter_subnets sk (jget cfg dk))")
  case None
  then show ?thesis using patch_result [OF key run] by simp
next
  case (Some i)
  let ?d = "jget cfg dk"
  obtain p s' where r: "cfg' = json_put (Key dk # p) s' cfg" "p = fst (subnet_refs sk ?d ! i)"
      "form (fst (iter_subnets sk ?d ! i)) = Inr (s', False)"
      "i < length (subnet_refs sk ?d)" "jhas cfg dk"
    using patch_result [OF key run] Some by auto
  obtain n where "(p, n) \<in> set (subnet_refs sk ?d)" using r(2,4) by (metis nth_mem prod.collapse)
  then obtain w where w: "json_at p ?d = Some w" "is_dict w" by (rule subnet_refs_at)
  have "fst (iter_subnets sk ?d ! i) = w"
    using r(2,4) w(1) by (simp add: iter_subnets_refs ref_entry_def value_at_Some)
  then have "s' = w" using form_quiet [OF w(2)] r(3) by simp
  then show ?thesis using r(1,5) w(1) by (simp add: json_put_Key_Cons json_put_get)
qed

lemma patch_again:
  assumes key: "sk \<noteq> ''shared-networks''" "sk \<noteq> ''name''"
    and run: "patch_subnet dk sk form cfg sid = Inr (cfg', ch)"
  shows "patch_subnet dk sk form cfg' sid = Inr (cfg', False)"
proof (cases "find_index (\<lambda>e. has_id sid (fst e)) (iter_subnets sk (jget cfg dk))")
  case None
  then show ?thesis using patch_result [OF key run] run by simp
next
  case (Some i)
  let ?d = "jget cfg dk" and ?d' = "jget cfg' dk"
  obtain p s' where r: "cfg' = json_put (Key dk # p) s' cfg" "p = fst (subnet_refs sk ?d ! i)"
      "form (fst (iter_subnets sk ?d ! i)) = Inr (s', ch)" "is_dict s'"
      "i < length (subnet_refs sk ?d)" "jhas cfg dk"
    using patch_result [OF key run] Some by auto
  obtain n where mem: "(p, n) \<in> set (subnet_refs sk ?d)" using r(2,5) by (metis nth_mem prod.collapse)
  then obtain w where w: "json_at p ?d = Some w" "is_dict w" by (rule subnet_refs_at)
  have old: "fst (iter_subnets sk ?d ! i) = w"
    using r(2,5) w(1) by (simp add: iter_subnets_refs ref_entry_def value_at_Some)
  have d': "?d' = json_put p s' ?d" using r(1,6) by (simp add: jget_put_Key)
  have refs: "subnet_refs sk ?d' = subnet_refs sk ?d"
    unfolding d' by (rule subnet_refs_put [OF key(1) mem r(4)])
  have at: "value_at ?d' p = s'" unfolding d' using w(1) by (simp add: value_at_put_same)
  have iter: "iter_subnets sk ?d' = (iter_subnets sk ?d)[i := (s', snd (iter_subnets sk ?d ! i))]"
    unfolding d' r(2) by (rule iter_subnets_put [OF key r(5,4)])
  have "has_id sid s'"
    using find_index_SomeD(2) [OF Some] form_id [OF w(2)] r(3) by (simp add: old has_id_def)
  then have "find_index (\<lambda>e. has_id sid (fst e)) (iter_subnets sk ?d') = Some i"
    unfolding iter using Some by (intro find_index_update) simp_all
  moreover have again: "form s' = Inr (s', False)"
    using form_again [OF w(2)] r(3) by (simp add: old)
  ultimately have "patch_subnet dk sk form cfg' sid = Inr (json_put (Key dk # p) s' cfg', False)"
    using patch_run [of sid sk cfg' dk i s' False] r(2,5) iter
    by (simp add: refs) (simp add: iter_subnets_refs)
  moreover have "json_put (Key dk # p) s' cfg' = cfg'" by (simp add: r(1) json_put_put)
  ultimately show ?thesis by simp
qed

end

text \<open>Both forms of the code provide the interface.\<close>

definition form4_steps where
  "form4_steps pool extra lt rn rb routers dns =
     [pool_step pool extra, int_step ''valid-lifetime'' lt, int_step ''renew-timer'' rn,
      int_step ''rebind-timer'' rb,
      options_step (routers \<noteq> [] \<or> dns \<noteq> [])
        (opt_step ''domain-name-servers'' 6 ''dhcp4'' dns \<circ> opt_step ''routers'' 3 ''dhcp4'' routers)]"

definition form6_steps where
  "form6_steps pool extra pf lt rn rb dns =
     [pool_step pool extra, int_step ''preferred-lifetime'' pf, int_step ''valid-lifetime'' lt,
      int_step ''renew-timer'' rn, int_step ''rebind-timer'' rb,
      options_step (dns \<noteq> []) (opt_step ''dns-servers'' 23 ''dhcp6'' dns)]"

definition form4_keys :: "string list" where
  "form4_keys = [''pools'', ''valid-lifetime'', ''renew-timer'', ''rebind-timer'', ''option-data'']"

definition form6_keys :: "string list" where
  "form6_keys = [''pools'', ''preferred-lifetime'', ''valid-lifetime'', ''renew-timer'', ''rebind-timer'', ''option-data'']"

lemma rbind_Inr_right [simp]: "rbind m Inr = m"
  by (cases m) simp_all

lemma run_form_fun: "run_form [] = Inr" "run_form (f # fs) = (\<lambda>r. rbind (f r) (run_form fs))"
  by (rule ext, simp)+

lemma patch_form4_steps:
  "patch_form4 pool extra lt rn rb routers dns s = run_form (form4_steps pool extra lt rn rb routers dns) (s, False)"
  by (simp add: patch_form4_def form4_steps_def run_form_fun)

lemma patch_form6_steps:
  "patch_form6 pool extra pf lt rn rb dns s = run_form (form6_steps pool extra pf lt rn rb dns) (s, False)"
  by (simp add: patch_form6_def form6_steps_def run_form_fun)

lemma opt_step_appends: "data \<noteq> [] \<Longrightarrow> fst (opt_step name code space data (opts, c)) \<noteq> []"
  by (auto simp: opt_step_def upsert_option_index set_data_def split: option.splits dest: entry_index_Some)

lemma opt_step_keeps_entries: "opts \<noteq> [] \<Longrightarrow> fst (opt_step name code space data (opts, c)) \<noteq> []"
  by (auto simp: opt_step_def upsert_option_index set_data_def split: option.splits)

lemma form4_laws: "list_all2 form_law form4_keys (form4_steps pool extra lt rn rb routers dns)"
proof -
  have "form_law ''option-data'' (options_step (routers \<noteq> [] \<or> dns \<noteq> [])
      (opt_step ''domain-name-servers'' 6 ''dhcp4'' dns \<circ> opt_step ''routers'' 3 ''dhcp4'' routers))"
  proof (rule form_law_options)
    show "opts_law (opt_step ''domain-name-servers'' 6 ''dhcp4'' dns \<circ> opt_step ''routers'' 3 ''dhcp4'' routers)"
      by (rule opts_law_two) simp_all
    show "fst ((opt_step ''domain-name-servers'' 6 ''dhcp4'' dns \<circ> opt_step ''routers'' 3 ''dhcp4'' routers) ([], c)) \<noteq> []"
      if "routers \<noteq> [] \<or> dns \<noteq> []" for c
    proof (cases "dns = []")
      case True
      then show ?thesis
        using that opt_step_keeps_entries [OF opt_step_appends] by (metis comp_apply prod.collapse)
    next
      case False
      then show ?thesis using opt_step_appends by (metis comp_apply prod.collapse)
    qed
  qed
  then show ?thesis
    by (simp add: form4_keys_def form4_steps_def form_law_pool form_law_int)
qed

lemma form6_laws: "list_all2 form_law form6_keys (form6_steps pool extra pf lt rn rb dns)"
  by (simp add: form6_keys_def form6_steps_def form_law_pool form_law_int form_law_options
      opts_law_one opt_step_appends)

lemma steps_subnet_form:
  assumes laws: "list_all2 form_law ks fs" "distinct ks" "''id'' \<notin> set ks"
    and form: "\<And>s. form s = run_form fs (s, False)"
  shows "subnet_form form"
proof
  fix s s' ch
  assume s: "is_dict s"
  show "is_dict s'" and "jget s' ''id'' = jget s ''id''" and "form s' = Inr (s', False)"
    if "form s = Inr (s', ch)"
    using run_form_laws [OF laws(1,2) s, of False s' ch] that laws(3)
    by (auto simp: form run_form_settled)
  show "s' = s" if "form s = Inr (s', False)"
    using run_form_laws [OF laws(1,2) s, of False s' False] that by (simp add: form)
qed

interpretation form4: subnet_form "patch_form4 pool extra lt rn rb routers dns"
  for pool extra lt rn rb routers dns
  by (rule steps_subnet_form [OF form4_laws _ _ patch_form4_steps]) (simp_all add: form4_keys_def)

interpretation form6: subnet_form "patch_form6 pool extra pf lt rn rb dns"
  for pool extra pf lt rn rb dns
  by (rule steps_subnet_form [OF form6_laws _ _ patch_form6_steps]) (simp_all add: form6_keys_def)

end
