(* ===== verification/SubnetLayout.thy ===== *)
theory SubnetLayout
  imports SubnetLaws
begin

text \<open>
  The abstract view of a \<open>Dhcp4\<close> block and the refinement of the structural subnet edits to it.

  The \<open>layout\<close> of the block lists the places a subnet can live in, the block itself first and then
  each shared network, each with its name and its subnets. Adding, deleting and moving a subnet are
  updates of one or two rows of the layout.
\<close>

section \<open>The layout\<close>

definition layout :: "json \<Rightarrow> (json \<times> json list) list" where
  "layout d4 = (JNull, subnets_of d4 ''subnet4'') #
     map (\<lambda>sn. (jget sn ''name'', subnets_of sn ''subnet4'')) (shared_networks d4)"

definition all_subnets :: "json \<Rightarrow> json list" where
  "all_subnets d4 = concat (map snd (layout d4))"

lemma iter_subnet4_layout:
  "iter_subnet4 d4 = concat (map (\<lambda>(n, ss). map (\<lambda>s. (s, n)) ss) (layout d4))"
  by (simp add: iter_subnet4_def iter_subnets_def layout_def comp_def)

lemma all_subnets_iter: "all_subnets d4 = map fst (iter_subnet4 d4)"
  by (simp add: all_subnets_def iter_subnet4_layout map_concat comp_def split_beta)

definition place_refs :: "json \<Rightarrow> path list" where
  "place_refs d4 = [] # list_refs ''shared-networks'' d4"

definition place :: "json \<Rightarrow> path \<Rightarrow> json \<times> json list" where
  "place d4 p = (container_name d4 p, subnets_of (value_at d4 p) ''subnet4'')"

lemma value_at_Nil [simp]: "value_at v [] = v"
  by (simp add: value_at_def json_at.simps)

lemma layout_places: "layout d4 = map (place d4) (place_refs d4)"
proof -
  have "map (place d4) (list_refs ''shared-networks'' d4) =
      map (\<lambda>sn. (jget sn ''name'', subnets_of sn ''subnet4'')) (shared_networks d4)"
    by (auto simp: list_refs_networks [symmetric] place_def container_name_def elim: list_refs_member)
  then show ?thesis
    by (simp add: layout_def place_refs_def place_def container_name_def)
qed

lemma layout_nth: "i < length (place_refs d4) \<Longrightarrow> layout d4 ! i = place d4 (place_refs d4 ! i)"
  by (simp add: layout_places)

lemma place_refs_dict:
  assumes "p \<in> set (place_refs d4)" and "is_dict d4"
  shows "is_dict (value_at d4 p)" and "json_at p d4 = Some (value_at d4 p)"
  using assms by (auto simp: place_refs_def value_at_Some json_at.simps elim!: list_refs_member)

lemma place_refs_distinct: "distinct (place_refs d4)"
  by (auto simp: place_refs_def list_refs_distinct elim: list_refs_member)

lemma jget_set_network:
  assumes "p \<in> set (list_refs ''shared-networks'' d4)" and "k \<noteq> ''shared-networks''"
  shows "jget (json_put p c d4) k = jget d4 k"
  using assms by (auto elim!: list_refs_member simp: jget_put_Key)

text \<open>Setting the subnets of one place changes that row of the layout and nothing else.\<close>

definition set_subnets :: "path \<Rightarrow> json list \<Rightarrow> json \<Rightarrow> json" where
  "set_subnets p xs d4 = json_put p (jset ''subnet4'' (JList xs) (value_at d4 p)) d4"

lemma subnets_of_set [simp]:
  "is_dict c \<Longrightarrow> subnets_of (jset ''subnet4'' (JList xs) c) ''subnet4'' = filter is_dict xs"
  by (simp add: subnets_of_def)

lemma place_refs_set_subnets:
  assumes "is_dict d4" and "p \<in> set (place_refs d4)"
  shows "place_refs (set_subnets p xs d4) = place_refs d4"
proof (cases "p = []")
  case True
  then show ?thesis
    using assms by (simp add: set_subnets_def place_refs_def json_put.simps list_refs_def)
next
  case False
  then have p: "p \<in> set (list_refs ''shared-networks'' d4)" using assms(2) by (simp add: place_refs_def)
  then show ?thesis
    using list_refs_put_elem [OF p] place_refs_dict(1) [OF assms(2,1)]
    by (simp add: set_subnets_def place_refs_def)
qed

lemma place_set_subnets:
  assumes d: "is_dict d4" and p: "p \<in> set (place_refs d4)" and q: "q \<in> set (place_refs d4)"
  shows "place (set_subnets p xs d4) q =
    (if q = p then (container_name d4 p, filter is_dict xs) else place d4 q)"
proof (cases "p = []")
  case True
  show ?thesis
  proof (cases "q = []")
    case True
    then show ?thesis
      using \<open>p = []\<close> d by (simp add: set_subnets_def place_def container_name_def json_put.simps)
  next
    case False
    then have "q \<in> set (list_refs ''shared-networks'' d4)" using q by (simp add: place_refs_def)
    then obtain i where q': "q = [Key ''shared-networks'', Idx i]" by (rule list_refs_member)
    have "value_at (jset ''subnet4'' (JList xs) d4) q = value_at d4 q"
      using d by (simp add: q' value_at_def json_ref_simps)
    then show ?thesis
      using True False by (simp add: set_subnets_def place_def container_name_def json_put.simps)
  qed
next
  case False
  then have pr: "p \<in> set (list_refs ''shared-networks'' d4)" using p by (simp add: place_refs_def)
  note pd = place_refs_dict [OF p d]
  show ?thesis
  proof (cases "q = []")
    case True
    then show ?thesis
      using False jget_set_network [OF pr]
      by (simp add: set_subnets_def place_def container_name_def cong: subnets_of_cong)
  next
    case qn: False
    then have qr: "q \<in> set (list_refs ''shared-networks'' d4)" using q by (simp add: place_refs_def)
    show ?thesis
    proof (cases "q = p")
      case True
      then show ?thesis
        using False pd by (simp add: set_subnets_def place_def container_name_def value_at_put_same)
    next
      case qp: False
      then have "disjoint_paths p q" using list_refs_disjoint [OF pr qr, of "[]" "[]"] by simp
      then show ?thesis
        using qp qn by (simp add: set_subnets_def place_def container_name_def value_at_put_disjoint)
    qed
  qed
qed

lemma layout_set_subnets:
  assumes d: "is_dict d4" and i: "i < length (place_refs d4)"
  shows "layout (set_subnets (place_refs d4 ! i) xs d4) =
    (layout d4)[i := (fst (layout d4 ! i), filter is_dict xs)]"
proof -
  let ?p = "place_refs d4 ! i"
  have p: "?p \<in> set (place_refs d4)" using i by simp
  have same: "place_refs d4 ! j = ?p \<longleftrightarrow> j = i" if "j < length (place_refs d4)" for j
    using that i place_refs_distinct by (simp add: nth_eq_iff_index_eq)
  show ?thesis
    unfolding layout_places place_refs_set_subnets [OF d p]
    using i by (intro nth_equalityI)
      (simp_all add: place_set_subnets [OF d p] same nth_list_update, simp add: place_def)
qed

lemma subnets_of_list: "jget c ''subnet4'' = JList xs \<Longrightarrow> subnets_of c ''subnet4'' = filter is_dict xs"
  by (simp add: subnets_of_def)

lemma append_to_set:
  assumes "append_to ''subnet4'' x c = Inr c'" and "is_dict x"
  shows "is_dict c" and "\<exists>xs. c' = jset ''subnet4'' (JList xs) c \<and>
     filter is_dict xs = subnets_of c ''subnet4'' @ [x]"
proof -
  show "is_dict c" using assms(1) by (auto simp: append_to_def split: if_splits)
  obtain ys where "jget_default c ''subnet4'' (JList []) = JList ys" "c' = jset ''subnet4'' (JList (ys @ [x])) c"
    using assms(1) by (auto simp: append_to_def split: if_splits json.splits)
  moreover have "filter is_dict ys = subnets_of c ''subnet4''"
    using calculation(1)
    by (auto simp: jget_default_def subnets_of_def jget_not_has split: if_splits)
  ultimately show "\<exists>xs. c' = jset ''subnet4'' (JList xs) c \<and>
     filter is_dict xs = subnets_of c ''subnet4'' @ [x]"
    using assms(2) by (intro exI [of _ "ys @ [x]"]) simp
qed

lemma layout_append:
  assumes d: "is_dict d4" and i: "i < length (place_refs d4)" and x: "is_dict x"
    and a: "append_to ''subnet4'' x (value_at d4 (place_refs d4 ! i)) = Inr c'"
  shows "layout (json_put (place_refs d4 ! i) c' d4) =
    (layout d4)[i := (fst (layout d4 ! i), snd (layout d4 ! i) @ [x])]"
proof -
  let ?p = "place_refs d4 ! i"
  obtain xs where xs: "c' = jset ''subnet4'' (JList xs) (value_at d4 ?p)"
      "filter is_dict xs = subnets_of (value_at d4 ?p) ''subnet4'' @ [x]"
    using append_to_set [OF a x] by blast
  then show ?thesis
    using layout_set_subnets [OF d i, of xs] i
    by (simp add: set_subnets_def layout_nth place_def)
qed

lemma find_ref_place:
  assumes "find_ref ''shared-networks'' (network_named name) d4 = Inr r"
  shows "case r of
      None \<Rightarrow> \<forall>row \<in> set (tl (layout d4)). \<not> py_eq (fst row) name
    | Some p \<Rightarrow> \<exists>i. 0 < i \<and> i < length (place_refs d4) \<and> place_refs d4 ! i = p \<and>
        py_eq (fst (layout d4 ! i)) name \<and>
        (\<forall>j. 0 < j \<and> j < i \<longrightarrow> \<not> py_eq (fst (layout d4 ! j)) name)"
proof -
  let ?R = "list_refs ''shared-networks'' d4"
  let ?P = "\<lambda>p. network_named name (value_at d4 p)"
  have r: "r = find ?P ?R" using assms by (auto simp: find_ref_def res_simps)
  have nm: "container_name d4 (?R ! i) = jget (value_at d4 (?R ! i)) ''name''" if "i < length ?R" for i
    using nth_mem [OF that] by (auto simp: container_name_def elim!: list_refs_member)
  show ?thesis
  proof (cases "find_index ?P ?R")
    case None
    then have "\<forall>p \<in> set ?R. \<not> ?P p" by (simp add: find_index_None)
    then have "\<forall>row \<in> set (tl (layout d4)). \<not> py_eq (fst row) name"
      by (auto simp: layout_places place_refs_def place_def container_name_def network_named_def
          elim: list_refs_member)
    moreover have "r = None" using None r by (simp add: find_via_index)
    ultimately show ?thesis by simp
  next
    case (Some k)
    then have k: "k < length ?R" "?P (?R ! k)" "\<forall>j < k. \<not> ?P (?R ! j)" by (auto simp: find_index_Some)
    have "r = Some (?R ! k)" using Some r by (simp add: find_via_index)
    moreover have "py_eq (fst (layout d4 ! Suc k)) name"
      using k by (simp add: layout_places place_refs_def place_def nm network_named_def)
    moreover have "\<not> py_eq (fst (layout d4 ! j)) name" if "0 < j" "j < Suc k" for j
      using that k by (cases j) (auto simp: layout_places place_refs_def place_def nm network_named_def)
    ultimately show ?thesis
      using k by (auto simp: place_refs_def intro!: exI [of _ "Suc k"])
  qed
qed

section \<open>The operations on the layout\<close>

text \<open>What the code's outcome words promise of the layout before and after.\<close>

definition layout4 :: "json \<Rightarrow> (json \<times> json list) list" where
  "layout4 cfg = layout (jget cfg ''Dhcp4'')"

lemma layout_JNull: "layout JNull = [(JNull, [])]"
  by (simp add: layout_def subnets_of_def shared_networks_def jget_non_dict)

lemma layout_non_dict: "\<not> is_dict d4 \<Longrightarrow> layout d4 = [(JNull, [])]"
  by (simp add: layout_def subnets_of_def shared_networks_def jget_non_dict)

lemma layout_empty: "layout (JObj []) = [(JNull, [])]"
  by (simp add: layout_def subnets_of_def shared_networks_def jget_def)

lemma ensure_dhcp4_layout:
  assumes "ensure_dhcp4 cfg = Inr cfg'"
  shows "layout4 cfg' = layout4 cfg" and "is_dict cfg" and "is_dict cfg'" and "jhas cfg' ''Dhcp4''"
    and "k \<noteq> ''Dhcp4'' \<Longrightarrow> jget cfg' k = jget cfg k"
  using assms
  by (auto simp: ensure_dhcp4_def layout4_def jget_jsetdefault jget_not_has layout_JNull layout_empty split: if_splits)

lemma add_subnet4_layout:
  assumes run: "add_subnet4 cfg block net = Inr (cfg', out)"
  shows "case out of
      IdExists \<Rightarrow> layout4 cfg' = layout4 cfg \<and> (\<exists>s \<in> set (all_subnets (jget cfg ''Dhcp4'')). has_id (jget block ''id'') s)
    | NoNetwork \<Rightarrow> layout4 cfg' = layout4 cfg \<and> truthy net \<and>
        (\<forall>row \<in> set (tl (layout4 cfg)). \<not> py_eq (fst row) net)
    | Ok \<Rightarrow> is_dict block \<and> (\<forall>s \<in> set (all_subnets (jget cfg ''Dhcp4'')). \<not> has_id (jget block ''id'') s) \<and>
        (\<exists>i < length (layout4 cfg). (if truthy net then 0 < i \<and> py_eq (fst (layout4 cfg ! i)) net \<and>
              (\<forall>j. 0 < j \<and> j < i \<longrightarrow> \<not> py_eq (fst (layout4 cfg ! j)) net) else i = 0) \<and>
           layout4 cfg' = (layout4 cfg)[i := (fst (layout4 cfg ! i), snd (layout4 cfg ! i) @ [block])])
    | _ \<Rightarrow> False"
proof -
  obtain c where c: "ensure_dhcp4 cfg = Inr c" and b: "is_dict block"
    using run by (auto simp: add_subnet4_def res_simps py_get_def split: if_splits)
  note e = ensure_dhcp4_layout [OF c]
  let ?d = "jget c ''Dhcp4''"
  have subs: "set (map fst (iter_subnet4 ?d)) = set (all_subnets (jget cfg ''Dhcp4''))"
    using e(1) by (simp add: all_subnets_iter [symmetric] all_subnets_def layout4_def)
  have ex: "list_ex (\<lambda>(s, n). has_id v s) (iter_subnet4 ?d) \<longleftrightarrow>
      (\<exists>s \<in> set (all_subnets (jget cfg ''Dhcp4'')). has_id v s)" for v
    unfolding subs [symmetric] by (force simp: list_ex_iff)
  show ?thesis
  proof (cases "list_ex (\<lambda>(s, n). has_id (jget block ''id'') s) (iter_subnet4 ?d)")
    case True
    then have "out = IdExists" "cfg' = c"
      using run c b by (simp_all add: add_subnet4_def py_get_def)
    then show ?thesis using True e by (simp add: ex)
  next
    case new: False
    show ?thesis
    proof (cases "truthy net")
      case True
      obtain r where r: "find_ref ''shared-networks'' (network_named net) ?d = Inr r"
        using run c b new True by (auto simp: add_subnet4_def py_get_def res_simps Let_def)
      note fp = find_ref_place [OF r]
      show ?thesis
      proof (cases r)
        case None
        then have "out = NoNetwork" "cfg' = c"
          using run c b new True r by (simp_all add: add_subnet4_def py_get_def Let_def)
        then show ?thesis using fp None e True by (simp add: layout4_def)
      next
        case (Some p)
        then obtain i where i: "0 < i" "i < length (place_refs ?d)" "place_refs ?d ! i = p"
            "py_eq (fst (layout ?d ! i)) net"
            "\<forall>j. 0 < j \<and> j < i \<longrightarrow> \<not> py_eq (fst (layout ?d ! j)) net"
          using fp by auto
        obtain sn where sn: "append_to ''subnet4'' block (value_at ?d p) = Inr sn"
            and o: "out = Ok" "cfg' = json_put (Key ''Dhcp4'' # p) sn c"
          using run c b new True r Some by (auto simp: add_subnet4_def py_get_def Let_def res_simps)
        have d: "is_dict ?d" using r by (auto simp: find_ref_def res_simps py_get_def split: if_splits)
        have "layout4 cfg' = (layout ?d)[i := (fst (layout ?d ! i), snd (layout ?d ! i) @ [block])]"
          using layout_append [OF d i(2) b, of sn] sn i(3) e(4)
          by (simp add: o layout4_def jget_put_Key)
        moreover have L: "layout ?d = layout4 cfg" using e(1) by (simp add: layout4_def)
        moreover have "i < length (layout4 cfg)" using i(2) by (simp add: L [symmetric] layout_places)
        ultimately show ?thesis
          using o i new b True by (simp add: ex) (intro exI [of _ i], simp)
      qed
    next
      case False
      obtain d' where d': "append_to ''subnet4'' block ?d = Inr d'" and o: "out = Ok" "cfg' = jset ''Dhcp4'' d' c"
        using run c b new False by (auto simp: add_subnet4_def py_get_def Let_def res_simps)
      have "layout d' = (layout ?d)[0 := (fst (layout ?d ! 0), snd (layout ?d ! 0) @ [block])]"
        using layout_append [OF append_to_set(1) [OF d' b], of 0 block d'] d' b
        by (simp add: place_refs_def json_put.simps)
      then show ?thesis
        using o new b False e by (auto simp: ex layout4_def layout_def)
    qed
  qed
qed

lemma has_id_subnets:
  "jget c ''subnet4'' = JList xs \<Longrightarrow> list_all is_dict xs \<Longrightarrow> subnets_of c ''subnet4'' = xs"
  by (simp add: subnets_of_def list_all_iff)

lemma kept_subnets_Inr:
  "kept_subnets sid xs = Inr kept \<longleftrightarrow> list_all is_dict xs \<and> kept = filter (\<lambda>s. \<not> has_id sid s) xs"
  by (auto simp: kept_subnets_def)

lemma length_filter_eq_iff: "length (filter P xs) = length xs \<longleftrightarrow> (\<forall>x \<in> set xs. P x)"
  by (metis filter_id_conv length_filter_less nat_less_le)

text \<open>Deleting stops at the first place that has the subnet.\<close>

lemma delete_from_place:
  assumes "delete_from d4 sid ps = Inr r"
  shows "case r of
      None \<Rightarrow> \<forall>p \<in> set ps. \<forall>s \<in> set (snd (place d4 p)). \<not> has_id sid s
    | Some d4' \<Rightarrow> \<exists>i < length ps. (\<exists>s \<in> set (snd (place d4 (ps ! i))). has_id sid s) \<and>
        (\<forall>j < i. \<forall>s \<in> set (snd (place d4 (ps ! j))). \<not> has_id sid s) \<and>
        d4' = set_subnets (ps ! i) (filter (\<lambda>s. \<not> has_id sid s) (snd (place d4 (ps ! i)))) d4"
  using assms
proof (induction ps)
  case Nil
  then show ?case by simp
next
  case (Cons p ps)
  have later: "?case" if rest: "delete_from d4 sid ps = Inr r"
    and none: "\<forall>s \<in> set (snd (place d4 p)). \<not> has_id sid s"
  proof (cases r)
    case None
    then show ?thesis using Cons.IH [OF rest] none by simp
  next
    case (Some d4')
    then obtain i where i: "i < length ps" "\<exists>s \<in> set (snd (place d4 (ps ! i))). has_id sid s"
        "\<forall>j < i. \<forall>s \<in> set (snd (place d4 (ps ! j))). \<not> has_id sid s"
        "d4' = set_subnets (ps ! i) (filter (\<lambda>s. \<not> has_id sid s) (snd (place d4 (ps ! i)))) d4"
      using Cons.IH [OF rest] by auto
    have "\<forall>j < Suc i. \<forall>s \<in> set (snd (place d4 ((p # ps) ! j))). \<not> has_id sid s"
      using i(3) none by (auto simp: less_Suc_eq_0_disj)
    then show ?thesis using i Some by (auto intro!: exI [of _ "Suc i"])
  qed
  show ?case
  proof (cases "is_list (jget (value_at d4 p) ''subnet4'')")
    case True
    then obtain subs where subs: "jget (value_at d4 p) ''subnet4'' = JList subs" by (auto simp: is_list_iff)
    obtain kept where kept: "kept_subnets sid subs = Inr kept"
      using Cons.prems subs by (auto simp: res_simps)
    then have k: "kept = filter (\<lambda>s. \<not> has_id sid s) subs" and pl: "snd (place d4 p) = subs"
      using has_id_subnets [OF subs] by (auto simp: kept_subnets_Inr place_def)
    show ?thesis
    proof (cases "length kept = length subs")
      case True
      then have "\<forall>s \<in> set subs. \<not> has_id sid s" by (simp add: k length_filter_eq_iff)
      then show ?thesis using Cons.prems subs kept True later by (simp add: pl)
    next
      case False
      then have "\<exists>s \<in> set subs. has_id sid s" by (auto simp: k length_filter_eq_iff)
      moreover have "r = Some (set_subnets p (filter (\<lambda>s. \<not> has_id sid s) subs) d4)"
        using Cons.prems subs kept False by (simp add: k set_subnets_def)
      ultimately show ?thesis by (simp add: pl) (rule exI [of _ 0], simp add: pl)
    qed
  next
    case False
    then have "snd (place d4 p) = []"
      by (cases "jget (value_at d4 p) ''subnet4''") (simp_all add: place_def subnets_of_def)
    moreover have "delete_from d4 sid ps = Inr r"
      using Cons.prems False by (cases "jget (value_at d4 p) ''subnet4''") simp_all
    ultimately show ?thesis using later by simp
  qed
qed

lemma place_dicts: "s \<in> set (snd (place d4 p)) \<Longrightarrow> is_dict s"
  by (auto simp: place_def dest: subnets_of_dicts)

lemma filter_dict_place:
  "filter (\<lambda>s. P s \<and> is_dict s) (snd (place d4 p)) = filter P (snd (place d4 p))"
  by (rule filter_cong) (auto simp: place_dicts)

lemma delete_subnet4_layout:
  assumes run: "delete_subnet4 cfg sid = Inr (cfg', out)"
  shows "case out of
      NotFound \<Rightarrow> cfg' = cfg \<and> (\<forall>s \<in> set (all_subnets (jget cfg ''Dhcp4'')). \<not> has_id sid s)
    | Ok \<Rightarrow> \<exists>i < length (layout4 cfg). (\<exists>s \<in> set (snd (layout4 cfg ! i)). has_id sid s) \<and>
        (\<forall>j < i. \<forall>s \<in> set (snd (layout4 cfg ! j)). \<not> has_id sid s) \<and>
        layout4 cfg' = (layout4 cfg)[i := (fst (layout4 cfg ! i), filter (\<lambda>s. \<not> has_id sid s) (snd (layout4 cfg ! i)))]
    | _ \<Rightarrow> False"
proof -
  let ?d = "jget cfg ''Dhcp4''"
  have cfg: "is_dict cfg" using run by (auto simp: delete_subnet4_def res_simps py_get_def split: if_splits)
  show ?thesis
  proof (cases "is_dict ?d")
    case False
    then have "out = NotFound" "cfg' = cfg"
      using run cfg by (simp_all add: delete_subnet4_def py_get_def)
    then show ?thesis using False by (simp add: all_subnets_def layout_non_dict)
  next
    case True
    obtain r where r: "delete_from ?d sid (place_refs ?d) = Inr r"
      using run cfg True by (auto simp: delete_subnet4_def py_get_def res_simps container_refs_def place_refs_def)
    note df = delete_from_place [OF r]
    have res: "(cfg', out) = (case r of None \<Rightarrow> (cfg, NotFound) | Some d' \<Rightarrow> (jset ''Dhcp4'' d' cfg, Ok))"
      using run cfg True r
      by (auto simp: delete_subnet4_def py_get_def res_simps container_refs_def place_refs_def split: option.splits)
    show ?thesis
    proof (cases r)
      case None
      then have "\<forall>s \<in> set (all_subnets ?d). \<not> has_id sid s"
        using df by (auto simp: all_subnets_def layout_places)
      then show ?thesis using res None by simp
    next
      case (Some d')
      then obtain i where i: "i < length (place_refs ?d)"
          "\<exists>s \<in> set (snd (place ?d (place_refs ?d ! i))). has_id sid s"
          "\<forall>j < i. \<forall>s \<in> set (snd (place ?d (place_refs ?d ! j))). \<not> has_id sid s"
          "d' = set_subnets (place_refs ?d ! i)
             (filter (\<lambda>s. \<not> has_id sid s) (snd (place ?d (place_refs ?d ! i)))) ?d"
        using df by auto
      have out: "out = Ok" "cfg' = jset ''Dhcp4'' d' cfg" using res Some by simp_all
      have "layout4 cfg' = (layout4 cfg)[i := (fst (layout4 cfg ! i), filter (\<lambda>s. \<not> has_id sid s) (snd (layout4 cfg ! i)))]"
        using layout_set_subnets [OF True i(1)] cfg i(1)
        by (simp add: out layout4_def i(4) layout_nth filter_dict_place)
      then show ?thesis
        using i(1-3) by (auto simp: out layout4_def layout_places intro!: exI [of _ i])
    qed
  qed
qed

text \<open>Moving takes the first subnet with the id, by place and then by position.\<close>

lemma find_source_place:
  assumes "find_source d4 sid ps = Inr r"
  shows "case r of
      None \<Rightarrow> \<forall>p \<in> set ps. \<forall>s \<in> set (snd (place d4 p)). \<not> has_id sid s
    | Some (p, j) \<Rightarrow> \<exists>i < length ps. ps ! i = p \<and>
        (\<forall>k < i. \<forall>s \<in> set (snd (place d4 (ps ! k))). \<not> has_id sid s) \<and>
        (\<exists>subs. jget (value_at d4 p) ''subnet4'' = JList subs \<and> j < length subs \<and> list_all is_dict (take (Suc j) subs) \<and>
           has_id sid (subs ! j) \<and> (\<forall>k < j. \<not> has_id sid (subs ! k)))"
  using assms
proof (induction ps)
  case Nil
  then show ?case by simp
next
  case (Cons p ps)
  have later: "?case" if rest: "find_source d4 sid ps = Inr r"
    and none: "\<forall>s \<in> set (snd (place d4 p)). \<not> has_id sid s"
  proof (cases r)
    case None
    then show ?thesis using Cons.IH [OF rest] none by simp
  next
    case (Some q)
    obtain p' j where q: "q = (p', j)" by (cases q)
    obtain i where i: "i < length ps" "ps ! i = p'"
        "\<forall>k < i. \<forall>s \<in> set (snd (place d4 (ps ! k))). \<not> has_id sid s"
      and subs: "\<exists>subs. jget (value_at d4 p') ''subnet4'' = JList subs \<and> j < length subs \<and> list_all is_dict (take (Suc j) subs) \<and>
           has_id sid (subs ! j) \<and> (\<forall>k < j. \<not> has_id sid (subs ! k))"
      using Cons.IH [OF rest] Some q by auto
    have "\<forall>k < Suc i. \<forall>s \<in> set (snd (place d4 ((p # ps) ! k))). \<not> has_id sid s"
      using i(3) none by (auto simp: less_Suc_eq_0_disj)
    then show ?thesis unfolding Some q using i(1,2) subs by simp (intro exI [of _ "Suc i"], simp)
  qed
  show ?case
  proof (cases "is_list (jget (value_at d4 p) ''subnet4'')")
    case False
    then have "snd (place d4 p) = []"
      by (cases "jget (value_at d4 p) ''subnet4''") (simp_all add: place_def subnets_of_def)
    moreover have "find_source d4 sid ps = Inr r"
      using Cons.prems False by (cases "jget (value_at d4 p) ''subnet4''") simp_all
    ultimately show ?thesis using later by simp
  next
    case True
    then obtain subs where subs: "jget (value_at d4 p) ''subnet4'' = JList subs" by (auto simp: is_list_iff)
    show ?thesis
    proof (cases "find_index (\<lambda>s. \<not> is_dict s \<or> has_id sid s) subs")
      case None
      then have "\<forall>s \<in> set (snd (place d4 p)). \<not> has_id sid s"
        using subs by (simp add: find_index_None place_def subnets_of_def)
      then show ?thesis using Cons.prems subs None later by simp
    next
      case (Some j)
      then have j: "j < length subs" "\<forall>k < j. is_dict (subs ! k) \<and> \<not> has_id sid (subs ! k)"
          "\<not> is_dict (subs ! j) \<or> has_id sid (subs ! j)" by (auto simp: find_index_Some)
      have d: "is_dict (subs ! j)" and r: "r = Some (p, j)"
        using Cons.prems subs Some by (auto split: if_splits)
      then have "list_all is_dict (take (Suc j) subs)"
        using j by (auto simp: list_all_length less_Suc_eq)
      then show ?thesis unfolding r using subs j d by simp (intro exI [of _ 0], simp)
    qed
  qed
qed

lemma filter_remove_nth:
  assumes "j < length xs" and "list_all P (take (Suc j) xs)"
  shows "j < length (filter P xs)" and "filter P xs ! j = xs ! j"
    and "filter P (remove_nth j xs) = remove_nth j (filter P xs)"
    and "k < j \<Longrightarrow> filter P xs ! k = xs ! k"
proof -
  have split: "xs = take (Suc j) xs @ drop (Suc j) xs" by simp
  have f: "filter P xs = take (Suc j) xs @ filter P (drop (Suc j) xs)"
    by (subst split, subst filter_append) (use assms(2) in \<open>simp add: list_all_iff\<close>)
  have t: "filter P (take j xs) = take j xs"
    using assms by (auto simp: filter_id_conv list_all_length all_set_conv_all_nth)
  show "j < length (filter P xs)" using assms(1) by (simp add: f)
  show "filter P xs ! j = xs ! j" using assms(1) by (simp add: f nth_append)
  show "k < j \<Longrightarrow> filter P xs ! k = xs ! k" using assms(1) by (simp add: f nth_append)
  show "filter P (remove_nth j xs) = remove_nth j (filter P xs)"
    using assms(1) by (simp add: f remove_nth_def t min_def)
qed

definition move_row :: "nat \<Rightarrow> nat \<Rightarrow> nat \<Rightarrow> (json \<times> json list) list \<Rightarrow> (json \<times> json list) list" where
  "move_row i j k L =
     (let L' = L[i := (fst (L ! i), remove_nth j (snd (L ! i)))]
      in L'[k := (fst (L' ! k), snd (L' ! k) @ [snd (L ! i) ! j])])"

lemma pop_subnet_set:
  "jget (value_at d4 p) ''subnet4'' = JList subs \<Longrightarrow> pop_subnet d4 p j = set_subnets p (remove_nth j subs) d4"
  by (simp add: pop_subnet_def set_subnets_def)

lemma is_dict_set_subnets: "is_dict d4 \<Longrightarrow> is_dict (set_subnets p xs d4)"
  by (cases "p = []") (simp_all add: set_subnets_def json_put.simps is_dict_json_put)

lemma move_step_layout:
  assumes d: "is_dict d4" and i: "i < length (place_refs d4)" and k: "k < length (place_refs d4)"
    and subs: "jget (value_at d4 (place_refs d4 ! i)) ''subnet4'' = JList subs" "j < length subs"
      "list_all is_dict (take (Suc j) subs)"
    and a: "append_to ''subnet4'' (subs ! j)
      (value_at (pop_subnet d4 (place_refs d4 ! i) j) (place_refs d4 ! k)) = Inr c"
  shows "layout (json_put (place_refs d4 ! k) c (pop_subnet d4 (place_refs d4 ! i) j)) = move_row i j k (layout d4)"
proof -
  let ?p = "place_refs d4 ! i" and ?d' = "pop_subnet d4 (place_refs d4 ! i) j"
  note fr = filter_remove_nth [OF subs(2,3)]
  have pop: "?d' = set_subnets ?p (remove_nth j subs) d4" by (rule pop_subnet_set [OF subs(1)])
  have d': "is_dict ?d'" unfolding pop by (rule is_dict_set_subnets [OF d])
  have refs: "place_refs ?d' = place_refs d4"
    unfolding pop by (rule place_refs_set_subnets [OF d]) (use i in simp)
  have row: "snd (layout d4 ! i) = filter is_dict subs"
    using i subs(1) by (simp add: layout_nth place_def subnets_of_def)
  have L': "layout ?d' = (layout d4)[i := (fst (layout d4 ! i), remove_nth j (snd (layout d4 ! i)))]"
    unfolding pop using layout_set_subnets [OF d i] by (simp add: fr(3) row)
  have x: "is_dict (subs ! j)" using subs(2,3) by (simp add: list_all_length)
  have "layout (json_put (place_refs ?d' ! k) c ?d') =
      (layout ?d')[k := (fst (layout ?d' ! k), snd (layout ?d' ! k) @ [subs ! j])]"
    by (rule layout_append [OF d' _ x]) (use k a in \<open>simp_all add: refs\<close>)
  then show ?thesis using fr(2) by (simp add: refs L' move_row_def Let_def row)
qed

lemma move_subnet4_layout:
  assumes run: "move_subnet4 cfg sid to_network = Inr (cfg', out)"
  shows "case out of
      NotFound \<Rightarrow> cfg' = cfg \<and> (\<forall>s \<in> set (all_subnets (jget cfg ''Dhcp4'')). \<not> has_id sid s)
    | NoChange \<Rightarrow> cfg' = cfg \<and> (\<exists>row \<in> set (layout4 cfg). py_eq (py_or to_network JNull) (fst row) \<and>
        (\<exists>s \<in> set (snd row). has_id sid s))
    | NoNetwork \<Rightarrow> cfg' = cfg \<and> truthy to_network \<and>
        (\<forall>row \<in> set (tl (layout4 cfg)). \<not> py_eq (fst row) to_network)
    | Ok \<Rightarrow> \<exists>i j k. i < length (layout4 cfg) \<and> j < length (snd (layout4 cfg ! i)) \<and> k < length (layout4 cfg) \<and>
        has_id sid (snd (layout4 cfg ! i) ! j) \<and> \<not> py_eq (py_or to_network JNull) (fst (layout4 cfg ! i)) \<and>
        (if truthy to_network then 0 < k \<and> py_eq (fst (layout4 cfg ! k)) to_network else k = 0) \<and>
        layout4 cfg' = move_row i j k (layout4 cfg)
    | _ \<Rightarrow> False"
proof -
  let ?d = "jget cfg ''Dhcp4''" and ?t = "py_or to_network JNull"
  have cfg: "is_dict cfg" using run by (auto simp: move_subnet4_def res_simps py_get_def split: if_splits)
  show ?thesis
  proof (cases "is_dict ?d")
    case False
    then have "out = NotFound" "cfg' = cfg"
      using run cfg by (simp_all add: move_subnet4_def py_get_def)
    then show ?thesis using False by (simp add: all_subnets_def layout_non_dict)
  next
    case d: True
    obtain src where src: "find_source ?d sid (place_refs ?d) = Inr src"
      using run cfg d by (auto simp: move_subnet4_def py_get_def res_simps container_refs_def place_refs_def Let_def)
    have it: "iter_or_empty (jget ?d ''shared-networks'') = Inr v \<Longrightarrow> True" for v by simp
    note fs = find_source_place [OF src]
    have refs: "container_refs ?d = Inr (place_refs ?d)"
      using run cfg d by (auto simp: move_subnet4_def py_get_def res_simps container_refs_def place_refs_def Let_def)
    show ?thesis
    proof (cases src)
      case None
      then have "out = NotFound" "cfg' = cfg"
        using run cfg d src refs by (simp_all add: move_subnet4_def py_get_def)
      then show ?thesis using fs None by (auto simp: all_subnets_def layout_places)
    next
      case (Some q)
      obtain p j where q: "q = (p, j)" by (cases q)
      obtain i subs where i: "i < length (place_refs ?d)" "place_refs ?d ! i = p"
        and subs: "jget (value_at ?d p) ''subnet4'' = JList subs" "j < length subs"
          "list_all is_dict (take (Suc j) subs)" "has_id sid (subs ! j)"
        using fs Some q by auto
      note fr = filter_remove_nth [OF subs(2,3)]
      have row: "layout4 cfg ! i = (container_name ?d p, filter is_dict subs)" "i < length (layout4 cfg)"
        using i subs(1) by (simp_all add: layout4_def layout_places place_def subnets_of_def)
      show ?thesis
      proof (cases "py_eq ?t (container_name ?d p)")
        case True
        then have "out = NoChange" "cfg' = cfg"
          using run cfg d src refs Some q by (simp_all add: move_subnet4_def py_get_def)
        moreover have "\<exists>s \<in> set (filter is_dict subs). has_id sid s"
          using fr(1,2) subs(4) nth_mem by metis
        ultimately show ?thesis using row True nth_mem [OF row(2)] by (auto intro!: bexI [of _ "layout4 cfg ! i"])
      next
        case differs: False
        obtain dest where dest: "dest_ref ?t ?d = Inr dest"
          using run cfg d src refs Some q differs
          by (auto simp: move_subnet4_def py_get_def Let_def rbind_eq_Inr)
        have tr: "?t = (if truthy to_network then to_network else JNull)" "?t = JNull \<longleftrightarrow> \<not> truthy to_network"
          by (auto simp: py_or_def)
        show ?thesis
        proof (cases dest)
          case None
          then have "?t \<noteq> JNull" using dest by (auto simp: dest_ref_def split: if_splits)
          then have "truthy to_network" "find_ref ''shared-networks'' (network_named to_network) ?d = Inr None"
            using dest None tr by (auto simp: dest_ref_def)
          moreover have "out = NoNetwork" "cfg' = cfg"
            using run cfg d src refs Some q differs dest None by (simp_all add: move_subnet4_def py_get_def)
          ultimately show ?thesis using find_ref_place [of to_network ?d None] by (simp add: layout4_def)
        next
          case dest': (Some r)
          have k: "\<exists>k < length (place_refs ?d). place_refs ?d ! k = r \<and>
              (if truthy to_network then 0 < k \<and> py_eq (fst (layout ?d ! k)) to_network else k = 0)"
          proof (cases "truthy to_network")
            case True
            then have "find_ref ''shared-networks'' (network_named to_network) ?d = Inr (Some r)"
              using dest dest' tr by (auto simp: dest_ref_def)
            then show ?thesis using find_ref_place [of to_network ?d "Some r"] True by auto
          next
            case False
            then have "r = []" using dest dest' tr by (auto simp: dest_ref_def)
            then show ?thesis using False by (simp add: place_refs_def)
          qed
          then obtain k where k: "k < length (place_refs ?d)" "place_refs ?d ! k = r"
              "if truthy to_network then 0 < k \<and> py_eq (fst (layout ?d ! k)) to_network else k = 0" by blast
          obtain c where c: "append_to ''subnet4'' (subs ! j) (value_at (pop_subnet ?d p j) r) = Inr c"
            and o: "out = Ok" "cfg' = jset ''Dhcp4'' (json_put r c (pop_subnet ?d p j)) cfg"
            using run cfg d src refs Some q differs dest dest' subs(1)
            by (auto simp: move_subnet4_def py_get_def res_simps Let_def subnet_in_def simp del: if_split)
          have "layout4 cfg' = move_row i j k (layout4 cfg)"
            using move_step_layout [OF d i(1) k(1), unfolded i(2) k(2), OF subs(1-3) c] cfg
            by (simp add: o layout4_def)
          moreover have "k < length (layout4 cfg)" using k(1) by (simp add: layout4_def layout_places)
          moreover have "has_id sid (filter is_dict subs ! j)" using fr(2) subs(4) by simp
          ultimately show ?thesis
            unfolding o(1) outcome.case using row fr(1) k(3) differs
            by - (rule exI [of _ i], rule exI [of _ j], rule exI [of _ k], simp add: layout4_def)
        qed
      qed
    qed
  qed
qed

end
