(* ===== verification/SubnetOps.thy ===== *)
theory SubnetOps
  imports SubnetLayout
begin

text \<open>
  The subnet edits as one family of operations, and the invariant every sequence of them keeps: the
  document stays well-formed and no two subnets of the \<open>Dhcp4\<close> block, nested or not, share an id.
\<close>

datatype subnet_op =
    PatchSubnet json string "string list" string string string string string
  | AddSubnet json json
  | DeleteSubnet json
  | MoveSubnet json json
  | CreateNetwork json json
  | DeleteNetwork json

fun apply_subnet_op :: "subnet_op \<Rightarrow> json \<Rightarrow> edit" where
  "apply_subnet_op (PatchSubnet sid pool extra lt rn rb routers dns) cfg =
     rbind (patch_subnet4 cfg sid pool extra lt rn rb routers dns)
       (\<lambda>(cfg', changed). Inr (cfg', if changed then Ok else NoChange))"
| "apply_subnet_op (AddSubnet block net) cfg = add_subnet4 cfg block net"
| "apply_subnet_op (DeleteSubnet sid) cfg = delete_subnet4 cfg sid"
| "apply_subnet_op (MoveSubnet sid net) cfg = move_subnet4 cfg sid net"
| "apply_subnet_op (CreateNetwork name iface) cfg = create_shared_network4 cfg name iface"
| "apply_subnet_op (DeleteNetwork name) cfg = delete_shared_network4 cfg name"

fun wf_subnet_op :: "subnet_op \<Rightarrow> bool" where
  "wf_subnet_op (AddSubnet block net) = wf_json block"
| "wf_subnet_op (CreateNetwork name iface) = (wf_json name \<and> wf_json iface)"
| "wf_subnet_op x = True"

section \<open>Ids of the subnets\<close>

definition subnet_ids :: "json \<Rightarrow> json multiset" where
  "subnet_ids d4 = mset (map (\<lambda>s. jget s ''id'') (all_subnets d4))"

definition unique_in :: "json multiset \<Rightarrow> bool" where
  "unique_in M = (\<forall>v \<in># M. size (filter_mset (\<lambda>w. py_eq w v) M) \<le> 1)"

definition unique_subnet_ids :: "json \<Rightarrow> bool" where
  "unique_subnet_ids cfg = unique_in (subnet_ids (jget cfg ''Dhcp4''))"

lemma unique_in_subset:
  assumes "M \<subseteq># N" and "unique_in N"
  shows "unique_in M"
  unfolding unique_in_def
proof
  fix v assume "v \<in># M"
  then have "v \<in># N" using assms(1) by (rule mset_subset_eqD [rotated])
  then have "size (filter_mset (\<lambda>w. py_eq w v) N) \<le> 1" using assms(2) by (simp add: unique_in_def)
  moreover have "filter_mset (\<lambda>w. py_eq w v) M \<subseteq># filter_mset (\<lambda>w. py_eq w v) N"
    by (rule multiset_filter_mono [OF assms(1)])
  ultimately show "size (filter_mset (\<lambda>w. py_eq w v) M) \<le> 1"
    using size_mset_mono by (meson le_trans)
qed

lemma unique_in_add:
  assumes "unique_in M" and "\<forall>w \<in># M. \<not> py_eq w v" and "\<forall>w \<in># M. wf_json w" and "wf_json v"
  shows "unique_in (add_mset v M)"
proof -
  have none: "filter_mset (\<lambda>w. py_eq w v) M = {#}"
    using assms(2) by simp
  have "\<not> py_eq v w" if "w \<in># M" for w
    using that assms(2-4) py_eq_sym by blast
  then show ?thesis
    using assms(1) by (auto simp: unique_in_def none)
qed

lemma concat_update_mset:
  assumes "i < length xss"
  shows "mset (concat (xss[i := ys])) + mset (xss ! i) = mset (concat xss) + mset ys"
  using assms
proof (induction xss arbitrary: i)
  case Nil
  then show ?case by simp
next
  case (Cons xs xss)
  then show ?case by (cases i) (simp_all add: ac_simps)
qed

lemma mset_remove_nth: "j < length xs \<Longrightarrow> add_mset (xs ! j) (mset (remove_nth j xs)) = mset xs"
  by (subst (3) nth_split) (simp_all add: remove_nth_def)

definition row_subnets :: "(json \<times> json list) list \<Rightarrow> json multiset" where
  "row_subnets L = mset (concat (map snd L))"

lemma row_subnets_update:
  "i < length L \<Longrightarrow> row_subnets (L[i := (n, ys)]) + mset (snd (L ! i)) = row_subnets L + mset ys"
  using concat_update_mset [of i "map snd L" ys] by (simp add: row_subnets_def map_update)

lemma row_subnets_append:
  "i < length L \<Longrightarrow> row_subnets (L[i := (n, snd (L ! i) @ [x])]) = add_mset x (row_subnets L)"
  using row_subnets_update [of i L n "snd (L ! i) @ [x]"] by simp

lemma row_subnets_filter:
  assumes "i < length L"
  shows "row_subnets (L[i := (n, filter P (snd (L ! i)))]) \<subseteq># row_subnets L"
proof -
  define R F G S where "R = row_subnets (L[i := (n, filter P (snd (L ! i)))])"
    and "F = filter_mset P (mset (snd (L ! i)))" and "G = filter_mset (\<lambda>x. \<not> P x) (mset (snd (L ! i)))"
    and "S = row_subnets L"
  have "R + mset (snd (L ! i)) = S + F"
    using row_subnets_update [OF assms, of n "filter P (snd (L ! i))"] by (simp add: R_def S_def F_def)
  moreover have "mset (snd (L ! i)) = F + G" unfolding F_def G_def by (rule multiset_partition)
  ultimately have "(R + G) + F = S + F" by (simp add: ac_simps)
  then have "R + G = S" by simp
  then have "R \<subseteq># S" using mset_subset_eq_add_left by metis
  then show ?thesis by (simp add: R_def S_def)
qed

lemma row_subnets_move:
  assumes i: "i < length L" and j: "j < length (snd (L ! i))" and k: "k < length L"
  shows "row_subnets (move_row i j k L) = row_subnets L"
proof -
  let ?L = "L[i := (fst (L ! i), remove_nth j (snd (L ! i)))]"
  have "row_subnets ?L + mset (snd (L ! i)) = row_subnets L + mset (remove_nth j (snd (L ! i)))"
    by (rule row_subnets_update [OF i])
  then have "add_mset (snd (L ! i) ! j) (row_subnets ?L) = row_subnets L"
    by (simp add: mset_remove_nth [OF j, symmetric])
  then show ?thesis
    using row_subnets_append [of k ?L] k by (simp add: move_row_def Let_def)
qed

lemma subnet_ids_rows: "subnet_ids d4 = image_mset (\<lambda>s. jget s ''id'') (row_subnets (layout d4))"
  by (simp add: subnet_ids_def all_subnets_def row_subnets_def)

lemma wf_all_subnets:
  assumes "wf_json d4" and "s \<in> set (all_subnets d4)"
  shows "wf_json s"
proof -
  have sub: "wf_json s" if "wf_json c" "s \<in> set (subnets_of c k)" for c s k
    using that by (auto simp: subnets_of_def intro: wf_jget_list [OF _ sym] split: json.splits)
  have "wf_json sn" if "sn \<in> set (shared_networks d4)" for sn
    using that assms(1) by (auto simp: shared_networks_def intro: wf_jget_list [OF _ sym] split: json.splits)
  then show ?thesis
    using assms sub by (auto simp: all_subnets_def layout_def)
qed

section \<open>Every operation keeps the ids unique\<close>

lemma subnet_ids_wf: "wf_json cfg \<Longrightarrow> v \<in># subnet_ids (jget cfg k) \<Longrightarrow> wf_json v"
  using wf_all_subnets [OF wf_jget] wf_jget by (fastforce simp: subnet_ids_def)

lemma subnet_ids_layout4: "subnet_ids (jget cfg ''Dhcp4'') = image_mset (\<lambda>s. jget s ''id'') (row_subnets (layout4 cfg))"
  by (simp add: subnet_ids_rows layout4_def)

lemma patch_ids:
  assumes "patch_subnet4 cfg sid pool extra lt rn rb routers dns = Inr (cfg', ch)"
  shows "subnet_ids (jget cfg' ''Dhcp4'') = subnet_ids (jget cfg ''Dhcp4'')"
proof -
  let ?d = "jget cfg ''Dhcp4''" and ?d' = "jget cfg' ''Dhcp4''"
  have run: "patch_subnet ''Dhcp4'' ''subnet4'' (patch_form4 pool extra lt rn rb routers dns) cfg sid = Inr (cfg', ch)"
    using assms by (simp add: patch_subnet4_def)
  have ids: "subnet_ids d = mset (map (\<lambda>e. jget (fst e) ''id'') (iter_subnets ''subnet4'' d))" for d
    by (simp add: subnet_ids_def all_subnets_iter iter_subnet4_def comp_def)
  note it = form4.patch_iter [OF _ _ run]
  show ?thesis
  proof (cases "find_index (\<lambda>e. has_id sid (fst e)) (iter_subnets ''subnet4'' ?d)")
    case None
    then show ?thesis using it by simp
  next
    case (Some i)
    let ?e = "iter_subnets ''subnet4'' ?d ! i"
    obtain s' where f: "patch_form4 pool extra lt rn rb routers dns (fst ?e) = Inr (s', ch)"
      and u: "iter_subnets ''subnet4'' ?d' = (iter_subnets ''subnet4'' ?d)[i := (s', snd ?e)]"
      using it Some by auto
    have i: "i < length (iter_subnets ''subnet4'' ?d)" using Some by (auto dest: find_index_SomeD)
    then have "is_dict (fst ?e)" using nth_mem [OF i] iter_subnets_dicts by (metis prod.collapse)
    then have "jget s' ''id'' = jget (fst ?e) ''id''" using form4.form_id f by blast
    then have "map (\<lambda>e. jget (fst e) ''id'') (iter_subnets ''subnet4'' ?d') =
        map (\<lambda>e. jget (fst e) ''id'') (iter_subnets ''subnet4'' ?d)"
      unfolding u map_update fst_conv
      by (metis (no_types, lifting) i list_update_id nth_map)
    then show ?thesis by (simp only: ids)
  qed
qed

lemma add_unique:
  assumes run: "add_subnet4 cfg block net = Inr (cfg', out)"
    and "wf_json cfg" "wf_json block" "unique_subnet_ids cfg"
  shows "unique_subnet_ids cfg'"
proof -
  note l = add_subnet4_layout [OF run]
  consider "layout4 cfg' = layout4 cfg" | "out = Ok" using l by (cases out) auto
  then show ?thesis
  proof cases
    case 1
    then show ?thesis using assms(4) by (simp add: unique_subnet_ids_def subnet_ids_layout4)
  next
    case 2
    obtain i where i: "i < length (layout4 cfg)"
        "layout4 cfg' = (layout4 cfg)[i := (fst (layout4 cfg ! i), snd (layout4 cfg ! i) @ [block])]"
      and new: "\<forall>s \<in> set (all_subnets (jget cfg ''Dhcp4'')). \<not> has_id (jget block ''id'') s"
      using l 2 by auto
    have "subnet_ids (jget cfg' ''Dhcp4'') = add_mset (jget block ''id'') (subnet_ids (jget cfg ''Dhcp4''))"
      using row_subnets_append [OF i(1)] by (simp add: subnet_ids_layout4 i(2))
    moreover have "\<forall>w \<in># subnet_ids (jget cfg ''Dhcp4''). \<not> py_eq w (jget block ''id'')"
      using new by (auto simp: subnet_ids_def has_id_def)
    ultimately show ?thesis
      using unique_in_add assms(2-4) subnet_ids_wf by (simp add: unique_subnet_ids_def wf_jget)
  qed
qed

lemma delete_unique:
  assumes run: "delete_subnet4 cfg sid = Inr (cfg', out)" and "unique_subnet_ids cfg"
  shows "unique_subnet_ids cfg'"
proof -
  note l = delete_subnet4_layout [OF run]
  consider "cfg' = cfg" | "out = Ok" using l by (cases out) auto
  then show ?thesis
  proof cases
    case 2
    then obtain i where i: "i < length (layout4 cfg)"
        "layout4 cfg' = (layout4 cfg)[i := (fst (layout4 cfg ! i), filter (\<lambda>s. \<not> has_id sid s) (snd (layout4 cfg ! i)))]"
      using l by auto
    have "subnet_ids (jget cfg' ''Dhcp4'') \<subseteq># subnet_ids (jget cfg ''Dhcp4'')"
      using row_subnets_filter [OF i(1)] by (simp add: subnet_ids_layout4 i(2) image_mset_subseteq_mono)
    then show ?thesis using unique_in_subset assms(2) by (auto simp: unique_subnet_ids_def)
  qed (use assms(2) in simp)
qed

lemma move_subnets:
  assumes run: "move_subnet4 cfg sid net = Inr (cfg', out)"
  shows "row_subnets (layout4 cfg') = row_subnets (layout4 cfg)"
proof -
  note l = move_subnet4_layout [OF run]
  consider "cfg' = cfg" | "out = Ok" using l by (cases out) auto
  then show ?thesis
  proof cases
    case 2
    then obtain i j k where "i < length (layout4 cfg)" "j < length (snd (layout4 cfg ! i))" "k < length (layout4 cfg)"
        "layout4 cfg' = move_row i j k (layout4 cfg)"
      using l by (auto simp del: if_split)
    then show ?thesis by (simp add: row_subnets_move)
  qed simp
qed

lemma create_network_run:
  assumes run: "create_shared_network4 cfg name iface = Inr (cfg', out)"
  obtains d c nets block where "is_dict d" and "is_dict c" and "jget d ''shared-networks'' = JList nets"
    and "layout d = layout4 cfg" and "is_dict block" and "jget block ''name'' = name"
    and "jget block ''subnet4'' = JList []"
    and "if list_ex (\<lambda>n. is_dict n \<and> network_named name n) nets then cfg' = jset ''Dhcp4'' d c \<and> out = Exists
     else cfg' = jset ''Dhcp4'' (jset ''shared-networks'' (JList (nets @ [block])) d) c \<and> out = Ok"
proof -
  obtain c where c: "ensure_dhcp4 cfg = Inr c"
    using run by (auto simp: create_shared_network4_def res_simps)
  note e = ensure_dhcp4_layout [OF c]
  define d where "d = jsetdefault ''shared-networks'' (JList []) (jget c ''Dhcp4'')"
  define block where "block = JObj ([(''name'', name), (''subnet4'', JList [])] @
    (if truthy iface then [(''interface'', iface)] else []))"
  have b: "is_dict block" "jget block ''name'' = name" "jget block ''subnet4'' = JList []"
    by (simp_all add: block_def jget_def)
  have dd: "is_dict d" "is_dict (jget c ''Dhcp4'')"
    using run c by (auto simp: create_shared_network4_def d_def Let_def split: if_splits)
  have "layout d = layout (jget c ''Dhcp4'')"
    using dd by (simp add: d_def layout_def subnets_of_def shared_networks_def jget_jsetdefault jget_not_has)
  then have L: "layout d = layout4 cfg" using e(1) by (simp add: layout4_def)
  obtain xs where xs: "py_iter (jget d ''shared-networks'') = Inr xs"
    using run c dd(2) by (auto simp: create_shared_network4_def Let_def d_def res_simps)
  let ?ex = "list_ex (\<lambda>n. is_dict n \<and> network_named name n) xs"
  have step: "if ?ex then cfg' = jset ''Dhcp4'' d c \<and> out = Exists
     else (\<exists>d'. append_to ''shared-networks'' block d = Inr d' \<and> cfg' = jset ''Dhcp4'' d' c \<and> out = Ok)"
    using run c dd(2) xs
    by (auto simp: create_shared_network4_def Let_def d_def [symmetric] block_def res_simps split: if_splits)
  have has: "jhas d ''shared-networks''" using dd by (simp add: d_def)
  show ?thesis
  proof (cases "is_list (jget d ''shared-networks'')")
    case True
    then obtain nets where nets: "jget d ''shared-networks'' = JList nets" by (auto simp: is_list_iff)
    then have x: "xs = nets" using xs by simp
    have "append_to ''shared-networks'' block d = Inr (jset ''shared-networks'' (JList (nets @ [block])) d)"
      using dd(1) nets has by (simp add: append_to_def jget_default_def)
    then show ?thesis
      using that [of d c nets block] dd(1) e(3) nets L b step x by (simp split: if_splits)
  next
    case False
    then have "\<not> ?ex" using xs by (cases "jget d ''shared-networks''") (auto simp: list_ex_iff)
    then have False
      using step False dd(1) has by (auto simp: append_to_def jget_default_def split: json.splits)
    then show ?thesis ..
  qed
qed

lemma create_network_raw:
  assumes "create_shared_network4 cfg name iface = Inr (cfg', Ok)"
  shows "\<exists>d c nets block. cfg' = jset ''Dhcp4'' (jset ''shared-networks'' (JList (nets @ [block])) d) c \<and>
    is_dict d \<and> is_dict c \<and> layout (jset ''shared-networks'' (JList nets) d) = layout4 cfg \<and>
    (\<forall>n \<in> set nets. \<not> (is_dict n \<and> network_named name n)) \<and>
    is_dict block \<and> jget block ''name'' = name \<and> jget block ''subnet4'' = JList []"
proof -
  obtain d c nets block where d: "is_dict d" "is_dict c" "jget d ''shared-networks'' = JList nets"
    "layout d = layout4 cfg" "is_dict block" "jget block ''name'' = name" "jget block ''subnet4'' = JList []"
    and r: "if list_ex (\<lambda>n. is_dict n \<and> network_named name n) nets then cfg' = jset ''Dhcp4'' d c \<and> Ok = Exists
     else cfg' = jset ''Dhcp4'' (jset ''shared-networks'' (JList (nets @ [block])) d) c \<and> Ok = Ok"
    by (rule create_network_run [OF assms])
  have "jset ''shared-networks'' (JList nets) d = d"
    using d(3) jget_notNull_has [of d "''shared-networks''"] by (intro jset_eq_self) simp_all
  moreover have "\<forall>n \<in> set nets. \<not> (is_dict n \<and> network_named name n)"
      "cfg' = jset ''Dhcp4'' (jset ''shared-networks'' (JList (nets @ [block])) d) c"
    using r by (auto simp: list_ex_iff split: if_splits)
  ultimately show ?thesis using d by (intro exI [of _ d] exI [of _ c] exI [of _ nets] exI [of _ block]) simp
qed

lemma create_network_layout:
  assumes run: "create_shared_network4 cfg name iface = Inr (cfg', out)"
  shows "case out of
      Exists \<Rightarrow> layout4 cfg' = layout4 cfg \<and> (\<exists>row \<in> set (tl (layout4 cfg)). py_eq (fst row) name)
    | Ok \<Rightarrow> layout4 cfg' = layout4 cfg @ [(name, [])] \<and> (\<forall>row \<in> set (tl (layout4 cfg)). \<not> py_eq (fst row) name)
    | _ \<Rightarrow> False"
proof -
  obtain d c nets block where d: "is_dict d" "is_dict c" "jget d ''shared-networks'' = JList nets"
    "layout d = layout4 cfg" and b: "is_dict block" "jget block ''name'' = name" "jget block ''subnet4'' = JList []"
    and r: "if list_ex (\<lambda>n. is_dict n \<and> network_named name n) nets then cfg' = jset ''Dhcp4'' d c \<and> out = Exists
     else cfg' = jset ''Dhcp4'' (jset ''shared-networks'' (JList (nets @ [block])) d) c \<and> out = Ok"
    by (rule create_network_run [OF run])
  have names: "(\<exists>row \<in> set (tl (layout4 cfg)). py_eq (fst row) name) \<longleftrightarrow>
      list_ex (\<lambda>n. is_dict n \<and> network_named name n) nets"
    unfolding d(4) [symmetric] by (auto simp: layout_def shared_networks_def d(3) list_ex_iff network_named_def)
  have "layout (jset ''shared-networks'' (JList (nets @ [block])) d) = layout d @ [(name, [])]"
    using d(1,3) b by (simp add: layout_def subnets_of_def shared_networks_def)
  then show ?thesis
    using r names d(2,4) by (auto simp: layout4_def split: if_splits)
qed

lemma filter_remove_nth_member:
  assumes "i < length xs" and "P (xs ! i)"
  shows "\<exists>j < length (filter P xs). filter P xs ! j = xs ! i \<and> filter P (remove_nth i xs) = remove_nth j (filter P xs)"
proof -
  have "filter P xs = filter P (take i xs) @ xs ! i # filter P (drop (Suc i) xs)"
    by (subst nth_split [OF assms(1)]) (simp add: assms(2))
  then show ?thesis
    by (intro exI [of _ "length (filter P (take i xs))"]) (simp add: remove_nth_def)
qed

lemma remove_nth_map: "remove_nth i (map f xs) = map f (remove_nth i xs)"
  by (simp add: remove_nth_def take_map drop_map)

lemma delete_network_layout:
  assumes run: "delete_shared_network4 cfg name = Inr (cfg', out)"
  shows "case out of
      NotFound \<Rightarrow> cfg' = cfg \<and> (\<forall>row \<in> set (tl (layout4 cfg)). \<not> py_eq (fst row) name)
    | NotEmpty \<Rightarrow> cfg' = cfg \<and> (\<exists>row \<in> set (tl (layout4 cfg)). py_eq (fst row) name)
    | Ok \<Rightarrow> \<exists>i. 0 < i \<and> i < length (layout4 cfg) \<and> py_eq (fst (layout4 cfg ! i)) name \<and> snd (layout4 cfg ! i) = [] \<and>
        layout4 cfg' = remove_nth i (layout4 cfg)
    | _ \<Rightarrow> False"
proof -
  let ?d = "jget cfg ''Dhcp4''"
  have cfg: "is_dict cfg" using run by (auto simp: delete_shared_network4_def res_simps py_get_def split: if_splits)
  show ?thesis
  proof (cases "is_list (jget ?d ''shared-networks'')")
    case False
    then have "out = NotFound" "cfg' = cfg"
      using run cfg by (cases "jget ?d ''shared-networks''"; simp add: delete_shared_network4_def py_get_def)+
    moreover have "shared_networks ?d = []"
      using False by (cases "jget ?d ''shared-networks''") (simp_all add: shared_networks_def)
    ultimately show ?thesis by (simp add: layout4_def layout_def)
  next
    case True
    then obtain nets where nets: "jget ?d ''shared-networks'' = JList nets" by (auto simp: is_list_iff)
    then have d: "is_dict ?d" using jget_notNull_dict [of ?d "''shared-networks''"] by simp
    have tl: "tl (layout4 cfg) = map (\<lambda>sn. (jget sn ''name'', subnets_of sn ''subnet4'')) (filter is_dict nets)"
      by (simp add: layout4_def layout_def shared_networks_def nets)
    show ?thesis
    proof (cases "find_index (\<lambda>n. is_dict n \<and> network_named name n) nets")
      case None
      then have "out = NotFound" "cfg' = cfg"
        using run cfg nets by (simp_all add: delete_shared_network4_def py_get_def)
      then show ?thesis using None by (auto simp: tl find_index_None network_named_def)
    next
      case (Some i)
      then have i: "i < length nets" "is_dict (nets ! i)" "network_named name (nets ! i)"
        by (auto dest: find_index_SomeD)
      show ?thesis
      proof (cases "truthy (jget (nets ! i) ''subnet4'')")
        case True
        then have "out = NotEmpty" "cfg' = cfg"
          using run cfg nets Some by (simp_all add: delete_shared_network4_def py_get_def)
        moreover have "nets ! i \<in> set (filter is_dict nets)" using i by simp
        ultimately show ?thesis using i(3) by (force simp: tl network_named_def)
      next
        case False
        then have o: "out = Ok" "cfg' = jset ''Dhcp4'' (jset ''shared-networks'' (JList (remove_nth i nets)) ?d) cfg"
          using run cfg nets Some by (simp_all add: delete_shared_network4_def py_get_def)
        obtain j where j: "j < length (filter is_dict nets)" "filter is_dict nets ! j = nets ! i"
            "filter is_dict (remove_nth i nets) = remove_nth j (filter is_dict nets)"
          using filter_remove_nth_member [of i nets is_dict] i by blast
        have emp: "subnets_of (nets ! i) ''subnet4'' = []"
          using False by (cases "jget (nets ! i) ''subnet4''") (simp_all add: subnets_of_def)
        have "layout4 cfg' = remove_nth (Suc j) (layout4 cfg)"
          using cfg d j(3) nets
          by (simp add: o layout4_def layout_def shared_networks_def remove_nth_map [symmetric] subnets_of_def)
        then show ?thesis
          using j i(3) emp nets o
          by (simp add: network_named_def) (rule exI [of _ "Suc j"], simp add: layout4_def layout_def shared_networks_def)
      qed
    qed
  qed
qed

lemma network_ops_subnets:
  shows "create_shared_network4 cfg name iface = Inr (cfg', out) \<Longrightarrow> row_subnets (layout4 cfg') = row_subnets (layout4 cfg)"
    and "delete_shared_network4 cfg name = Inr (cfg', out) \<Longrightarrow> row_subnets (layout4 cfg') = row_subnets (layout4 cfg)"
proof -
  assume run: "create_shared_network4 cfg name iface = Inr (cfg', out)"
  show "row_subnets (layout4 cfg') = row_subnets (layout4 cfg)"
    using create_network_layout [OF run] by (cases out) (auto simp: row_subnets_def)
next
  assume run: "delete_shared_network4 cfg name = Inr (cfg', out)"
  note l = delete_network_layout [OF run]
  consider "cfg' = cfg" | "out = Ok" using l by (cases out) auto
  then show "row_subnets (layout4 cfg') = row_subnets (layout4 cfg)"
  proof cases
    case 2
    then obtain i where i: "i < length (layout4 cfg)" "snd (layout4 cfg ! i) = []" "layout4 cfg' = remove_nth i (layout4 cfg)"
      using l by auto
    have "row_subnets (layout4 cfg) = mset (concat (map snd (take i (layout4 cfg) @ layout4 cfg ! i # drop (Suc i) (layout4 cfg))))"
      using nth_split [OF i(1)] by (simp add: row_subnets_def)
    then show ?thesis by (simp add: i row_subnets_def remove_nth_def)
  qed simp
qed

section \<open>Every operation keeps the document well-formed\<close>

definition keeps_wf :: "form_step \<Rightarrow> bool" where
  "keeps_wf f = (\<forall>s c s' c'. wf_json s \<longrightarrow> f (s, c) = Inr (s', c') \<longrightarrow> wf_json s')"

lemma wf_pools_json: "wf_json (pools_json a b)"
  by (auto simp: pools_json_def wf_list_iff)

lemma keeps_wf_pool: "keeps_wf (pool_step new_pool extra)"
  by (auto simp: keeps_wf_def pool_step_def set_pools_def set_if_different_def wf_jset wf_pools_json split: if_splits)

lemma keeps_wf_int: "keeps_wf (int_step key text)"
  by (auto simp: keeps_wf_def int_step_def set_if_different_def wf_jset res_simps split: if_splits)

lemma wf_opt_step:
  assumes "opt_step name code space data (opts, c) = (opts', c')" and "wf_list opts"
  shows "wf_list opts'"
proof -
  have set: "wf_list (opts[i := jset ''data'' (JStr data) (opts ! i)])" if "i < length opts" for i
    using that assms(2) wf_list_update [of opts "jset ''data'' (JStr data) (opts ! i)" i]
    by (simp add: wf_list_iff wf_jset)
  then show ?thesis
    using assms
    by (auto simp: opt_step_def upsert_option_index set_data_def option_entry_def wf_list_iff
        split: if_splits option.splits dest: entry_index_Some(1))
qed

lemma keeps_wf_options:
  assumes "\<And>opts c opts' c'. f (opts, c) = (opts', c') \<Longrightarrow> wf_list opts \<Longrightarrow> wf_list opts'"
  shows "keeps_wf (options_step any f)"
  unfolding keeps_wf_def
proof (intro allI impI)
  fix s c s' c'
  assume s: "wf_json s" and run: "options_step any f (s, c) = Inr (s', c')"
  show "wf_json s'"
  proof (cases "any")
    case True
    then obtain opts opts' where o: "jget_default s ''option-data'' (JList []) = JList opts"
        "f (opts, c) = (opts', c')" "s' = jset ''option-data'' (JList opts') s"
      using run True by (cases "appendable (jget_default s ''option-data'' (JList []))")
        (simp_all add: options_step_def appendable_Inr split_beta, metis prod.collapse)
    have "wf_list opts" using wf_jget_default [OF s, of "JList []" "''option-data''"] o(1) by simp
    then show ?thesis using assms [OF o(2)] s by (simp add: o(3) wf_jset)
  qed (use run s in \<open>simp add: options_step_def\<close>)
qed

lemma run_form_wf:
  assumes "list_all keeps_wf fs" and "run_form fs (s, c) = Inr (s', c')" and "wf_json s"
  shows "wf_json s'"
  using assms
proof (induction fs arbitrary: s c)
  case Nil
  then show ?case by simp
next
  case (Cons f fs)
  then obtain t d where 1: "f (s, c) = Inr (t, d)" and 2: "run_form fs (t, d) = Inr (s', c')"
    by (auto simp: res_simps)
  have "wf_json t" using Cons.prems(1,3) 1 by (auto simp: keeps_wf_def)
  then show ?case using Cons.IH [OF _ 2] Cons.prems(1) by simp
qed

lemma form4_keeps_wf: "list_all keeps_wf (form4_steps pool extra lt rn rb routers dns)"
proof -
  have "wf_list opts'" if "(opt_step ''domain-name-servers'' 6 ''dhcp4'' dns \<circ> opt_step ''routers'' 3 ''dhcp4'' routers) (opts, c) = (opts', c')"
    "wf_list opts" for opts c opts' c'
  proof (cases "opt_step ''routers'' 3 ''dhcp4'' routers (opts, c)")
    case (Pair o1 c1)
    then have "opt_step ''domain-name-servers'' 6 ''dhcp4'' dns (o1, c1) = (opts', c')" using that(1) by simp
    then show ?thesis using wf_opt_step wf_opt_step [OF Pair that(2)] by blast
  qed
  then have "keeps_wf (options_step any
      (opt_step ''domain-name-servers'' 6 ''dhcp4'' dns \<circ> opt_step ''routers'' 3 ''dhcp4'' routers))" for any
    by (rule keeps_wf_options)
  then show ?thesis by (simp add: form4_steps_def keeps_wf_pool keeps_wf_int)
qed

lemma patch_wf:
  assumes "patch_subnet4 cfg sid pool extra lt rn rb routers dns = Inr (cfg', ch)" and "wf_json cfg"
  shows "wf_json cfg'"
proof -
  let ?d = "jget cfg ''Dhcp4''"
  have run: "patch_subnet ''Dhcp4'' ''subnet4'' (patch_form4 pool extra lt rn rb routers dns) cfg sid = Inr (cfg', ch)"
    using assms by (simp add: patch_subnet4_def)
  note r = form4.patch_result [OF _ _ run]
  show ?thesis
  proof (cases "find_index (\<lambda>e. has_id sid (fst e)) (iter_subnets ''subnet4'' ?d)")
    case None
    then show ?thesis using r assms(2) by simp
  next
    case (Some i)
    let ?e = "iter_subnets ''subnet4'' ?d ! i"
    obtain p s' where f: "patch_form4 pool extra lt rn rb routers dns (fst ?e) = Inr (s', ch)"
      and c: "cfg' = json_put (Key ''Dhcp4'' # p) s' cfg"
      using r Some by auto
    have i: "i < length (iter_subnets ''subnet4'' ?d)" using Some by (auto dest: find_index_SomeD)
    have "fst ?e \<in> set (map fst (iter_subnets ''subnet4'' ?d))" using nth_mem [OF i] by simp
    then have "fst ?e \<in> set (all_subnets ?d)"
      by (simp only: all_subnets_iter iter_subnet4_def)
    then have "wf_json (fst ?e)" using wf_all_subnets [OF wf_jget [OF assms(2)]] by blast
    then have "wf_json s'"
      using run_form_wf [OF form4_keeps_wf] f by (simp add: patch_form4_steps)
    then show ?thesis using assms(2) by (simp add: c wf_json_put)
  qed
qed

lemma wf_append_to: "append_to k x v = Inr v' \<Longrightarrow> wf_json v \<Longrightarrow> wf_json x \<Longrightarrow> wf_json v'"
  using wf_jget_default [of v "JList []" k]
  by (auto simp: append_to_def wf_list_iff split: if_splits json.splits intro!: wf_jset)

lemma wf_ensure_dhcp4: "ensure_dhcp4 cfg = Inr c \<Longrightarrow> wf_json cfg \<Longrightarrow> wf_json c"
  by (auto simp: ensure_dhcp4_def wf_jsetdefault split: if_splits)

lemma wf_value_at: "wf_json v \<Longrightarrow> wf_json (value_at v p)"
  by (auto simp: value_at_def wf_json_at split: option.splits)

lemma add_wf:
  assumes "add_subnet4 cfg block net = Inr (cfg', out)" and "wf_json cfg" and "wf_json block"
  shows "wf_json cfg'"
proof -
  obtain c where c: "ensure_dhcp4 cfg = Inr c" using assms(1) by (auto simp: add_subnet4_def res_simps)
  note wc = wf_ensure_dhcp4 [OF c assms(2)]
  have "wf_json v'" if "append_to k block (value_at (jget c ''Dhcp4'') p) = Inr v'" for p k v'
    using that wf_append_to wf_value_at wf_jget wc assms(3) by blast
  moreover have "wf_json v'" if "append_to k block (jget c ''Dhcp4'') = Inr v'" for k v'
    using that wf_append_to wf_jget wc assms(3) by blast
  ultimately show ?thesis
    using assms(1) c wc
    by (auto simp: add_subnet4_def res_simps Let_def wf_json_put wf_jset split: if_splits option.splits)
qed

lemma wf_set_subnets: "wf_json d4 \<Longrightarrow> wf_list xs \<Longrightarrow> wf_json (set_subnets p xs d4)"
  by (simp add: set_subnets_def wf_json_put wf_jset wf_value_at)

lemma wf_place: "wf_json d4 \<Longrightarrow> wf_list (snd (place d4 p))"
  by (auto simp: place_def subnets_of_def wf_list_iff intro: wf_jget_list [OF wf_value_at sym] split: json.splits)

lemma delete_wf:
  assumes run: "delete_subnet4 cfg sid = Inr (cfg', out)" and w: "wf_json cfg"
  shows "wf_json cfg'"
proof -
  have "wf_json d'" if "delete_from (jget cfg ''Dhcp4'') sid ps = Inr (Some d')" for ps d'
    using delete_from_place [OF that] w
    by (auto intro!: wf_set_subnets wf_jget simp: wf_list_iff dest: wf_place [OF wf_jget, unfolded wf_list_iff, rule_format, rotated])
  then show ?thesis
    using run w by (auto simp: delete_subnet4_def res_simps py_get_Inr wf_jset split: if_splits option.splits)
qed

lemma move_wf:
  assumes run: "move_subnet4 cfg sid net = Inr (cfg', out)" and w: "wf_json cfg"
  shows "wf_json cfg'"
proof -
  let ?d = "jget cfg ''Dhcp4''"
  have d: "wf_json ?d" using w by (rule wf_jget)
  have pop: "wf_json (pop_subnet ?d p i)" for p i
  proof (cases "jget (value_at ?d p) ''subnet4''")
    case (JList subs)
    then have "wf_list subs" using wf_jget [OF wf_value_at [OF d], of p "''subnet4''"] by simp
    then have "wf_list (remove_nth i subs)" using set_remove_nth by (force simp: wf_list_iff)
    then show ?thesis using JList d by (simp add: pop_subnet_set wf_set_subnets)
  qed (simp_all add: pop_subnet_def d)
  have sub: "wf_json (subnet_in ?d p i)" if "find_source ?d sid ps = Inr (Some (p, i))" for ps p i
    using find_source_place [OF that] by (auto simp: subnet_in_def intro: wf_jget_list [OF wf_value_at [OF d]])
  have cfg: "is_dict cfg" using run by (auto simp: move_subnet4_def res_simps py_get_def split: if_splits)
  have "cfg' = cfg \<or> (\<exists>ps p i q c. find_source ?d sid ps = Inr (Some (p, i)) \<and>
      append_to ''subnet4'' (subnet_in ?d p i) (value_at (pop_subnet ?d p i) q) = Inr c \<and>
      cfg' = jset ''Dhcp4'' (json_put q c (pop_subnet ?d p i)) cfg)"
  proof (cases "is_dict ?d")
    case False
    then show ?thesis using run cfg by (simp add: move_subnet4_def py_get_def)
  next
    case True
    obtain ps src where s: "container_refs ?d = Inr ps" "find_source ?d sid ps = Inr src"
      using run cfg True by (auto simp: move_subnet4_def py_get_def rbind_eq_Inr Let_def)
    show ?thesis
    proof (cases src)
      case None
      then show ?thesis using run cfg True s by (simp add: move_subnet4_def py_get_def)
    next
      case (Some e)
      obtain p i where e: "e = (p, i)" by (cases e)
      show ?thesis
      proof (cases "py_eq (py_or net JNull) (container_name ?d p)")
        case True
        then show ?thesis using run cfg \<open>is_dict ?d\<close> s Some e by (simp add: move_subnet4_def py_get_def)
      next
        case False
        then obtain dest where d: "dest_ref (py_or net JNull) ?d = Inr dest"
          using run cfg \<open>is_dict ?d\<close> s Some e by (auto simp: move_subnet4_def py_get_def rbind_eq_Inr Let_def)
        then show ?thesis
          using run cfg \<open>is_dict ?d\<close> s Some e False
          by (cases dest) (simp_all add: move_subnet4_def py_get_def rbind_eq_Inr Let_def, blast)
      qed
    qed
  qed
  then show ?thesis
    using w wf_append_to [OF _ wf_value_at [OF pop] sub] pop by (auto intro!: wf_jset wf_json_put)
qed

lemma network_ops_wf:
  shows "create_shared_network4 cfg name iface = Inr (cfg', out) \<Longrightarrow> wf_json cfg \<Longrightarrow> wf_json name \<Longrightarrow>
      wf_json iface \<Longrightarrow> wf_json cfg'"
    and "delete_shared_network4 cfg name = Inr (cfg', out) \<Longrightarrow> wf_json cfg \<Longrightarrow> wf_json cfg'"
proof -
  assume run: "create_shared_network4 cfg name iface = Inr (cfg', out)" and w: "wf_json cfg" "wf_json name" "wf_json iface"
  obtain c where c: "ensure_dhcp4 cfg = Inr c" using run by (auto simp: create_shared_network4_def res_simps)
  define d where "d = jsetdefault ''shared-networks'' (JList []) (jget c ''Dhcp4'')"
  have wc: "wf_json c" "wf_json d"
    using wf_ensure_dhcp4 [OF c w(1)] by (simp_all add: d_def wf_jsetdefault wf_jget)
  have "wf_json d'" if "append_to k (JObj ([(''name'', name), (''subnet4'', JList [])] @ (if truthy iface then [(''interface'', iface)] else []))) d = Inr d'" for k d'
    using wf_append_to [OF that wc(2)] w by simp
  then show "wf_json cfg'"
    using run c wc
    by (auto simp: create_shared_network4_def res_simps Let_def d_def [symmetric] wf_jset split: if_splits)
next
  assume run: "delete_shared_network4 cfg name = Inr (cfg', out)" and w: "wf_json cfg"
  have "wf_list (remove_nth i nets)" if "jget (jget cfg ''Dhcp4'') ''shared-networks'' = JList nets" for nets i
    using that wf_jget_list [OF wf_jget [OF w]] set_remove_nth by (force simp: wf_list_iff)
  then show "wf_json cfg'"
    using run w
    by (auto simp: delete_shared_network4_def res_simps py_get_Inr wf_jset wf_jget split: if_splits option.splits json.splits)
qed

section \<open>The editor\<close>

definition subnet_inv :: "json \<Rightarrow> bool" where
  "subnet_inv cfg = (wf_json cfg \<and> unique_subnet_ids cfg)"

lemma same_ids_unique: "row_subnets (layout4 cfg') = row_subnets (layout4 cfg) \<Longrightarrow> unique_subnet_ids cfg' = unique_subnet_ids cfg"
  by (simp add: unique_subnet_ids_def subnet_ids_layout4)

interpretation subnets: editor apply_subnet_op wf_subnet_op subnet_inv
proof
  fix cfg cfg' x out
  assume inv: "subnet_inv cfg" and ok: "wf_subnet_op x" and run: "apply_subnet_op x cfg = Inr (cfg', out)"
  then have w: "wf_json cfg" and u: "unique_subnet_ids cfg" by (simp_all add: subnet_inv_def)
  show "subnet_inv cfg'"
  proof (cases x)
    case PatchSubnet
    then show ?thesis
      using run w u patch_wf patch_ids by (auto simp: res_simps subnet_inv_def unique_subnet_ids_def)
  next
    case AddSubnet
    then show ?thesis using run ok w u add_wf add_unique by (auto simp: subnet_inv_def)
  next
    case DeleteSubnet
    then show ?thesis using run w u delete_wf delete_unique by (auto simp: subnet_inv_def)
  next
    case MoveSubnet
    then show ?thesis using run w u move_wf same_ids_unique [OF move_subnets] by (auto simp: subnet_inv_def)
  next
    case CreateNetwork
    then show ?thesis
      using run ok w u network_ops_wf(1) same_ids_unique [OF network_ops_subnets(1)] by (auto simp: subnet_inv_def)
  next
    case DeleteNetwork
    then show ?thesis
      using run w u network_ops_wf(2) same_ids_unique [OF network_ops_subnets(2)] by (auto simp: subnet_inv_def)
  qed
qed

section \<open>Properties\<close>

text \<open>A small document for the witnesses: one subnet at the top, one in a shared network.\<close>

definition demo_subnet :: "int \<Rightarrow> json" where
  "demo_subnet n = JObj [(''id'', JInt n), (''subnet'', JStr ''10.0.0.0/24'')]"

definition demo_doc :: "json list \<Rightarrow> json list \<Rightarrow> json" where
  "demo_doc tops nested = JObj [(''Dhcp4'', JObj [(''subnet4'', JList tops),
     (''shared-networks'', JList [JObj [(''name'', JStr ''lab''), (''subnet4'', JList nested)]])])]"

abbreviation demo_cfg :: json where
  "demo_cfg \<equiv> demo_doc [demo_subnet 1] [demo_subnet 2]"

text \<open>
  C1. Whatever sequence of subnet and shared-network edits is run on a well-formed configuration, no
  two subnets of the resulting \<open>Dhcp4\<close> block, top-level or nested, have the same id if none had
  before.
\<close>

theorem subnet_ids_stay_unique:
  assumes "run_ops apply_subnet_op ops cfg = Inr (cfg', outs)"
    and "wf_json cfg" and "unique_subnet_ids cfg" and "list_all wf_subnet_op ops"
  shows "wf_json cfg' \<and> unique_subnet_ids cfg'"
  using subnets.run_keeps [OF assms(1) _ assms(4)] assms(2,3) by (simp add: subnet_inv_def)

lemma demo_layout: "layout4 (demo_doc [demo_subnet 1] [demo_subnet 2]) = [(JNull, [demo_subnet 1]), (JStr ''lab'', [demo_subnet 2])]"
  by code_simp

lemma subnet_ids_stay_unique_witness:
  "unique_subnet_ids (demo_doc [demo_subnet 3] [demo_subnet 2, demo_subnet 1])"
proof -
  have run: "run_ops apply_subnet_op
      [AddSubnet (demo_subnet 3) JNull, AddSubnet (demo_subnet 2) JNull, MoveSubnet (JInt 1) (JStr ''lab'')] demo_cfg =
    Inr (demo_doc [demo_subnet 3] [demo_subnet 2, demo_subnet 1], [Ok, IdExists, Ok])"
    by code_simp
  have "subnet_ids (jget demo_cfg ''Dhcp4'') = {#JInt 1, JInt 2#}"
    using demo_layout by (simp add: subnet_ids_rows layout4_def row_subnets_def demo_subnet_def jget_def)
  then have "unique_subnet_ids demo_cfg" by (simp add: unique_subnet_ids_def unique_in_def)
  moreover have "wf_json demo_cfg" by code_simp
  ultimately show ?thesis
    using subnet_ids_stay_unique [OF run] by (simp add: demo_subnet_def)
qed

text \<open>
  Adding a subnet: with the outcome \<open>ok\<close> no subnet had the new id, and the block is appended as
  the last subnet of the named shared network (the first network of that name), or of the top level
  when no network is named, everything else in place; the outcomes \<open>idexists\<close> and \<open>nonetwork\<close> leave
  the layout as it was and are given only when the id is taken, or no network has the name.
\<close>

theorem add_subnet4_spec:
  assumes "add_subnet4 cfg block net = Inr (cfg', out)"
  shows "case out of
      IdExists \<Rightarrow> layout4 cfg' = layout4 cfg \<and> (\<exists>s \<in> set (all_subnets (jget cfg ''Dhcp4'')). has_id (jget block ''id'') s)
    | NoNetwork \<Rightarrow> layout4 cfg' = layout4 cfg \<and> truthy net \<and>
        (\<forall>row \<in> set (tl (layout4 cfg)). \<not> py_eq (fst row) net)
    | Ok \<Rightarrow> is_dict block \<and> (\<forall>s \<in> set (all_subnets (jget cfg ''Dhcp4'')). \<not> has_id (jget block ''id'') s) \<and>
        (\<exists>i < length (layout4 cfg). (if truthy net then 0 < i \<and> py_eq (fst (layout4 cfg ! i)) net \<and>
              (\<forall>j. 0 < j \<and> j < i \<longrightarrow> \<not> py_eq (fst (layout4 cfg ! j)) net) else i = 0) \<and>
           layout4 cfg' = (layout4 cfg)[i := (fst (layout4 cfg ! i), snd (layout4 cfg ! i) @ [block])])
    | _ \<Rightarrow> False"
  by (rule add_subnet4_layout [OF assms])

lemma add_subnet4_spec_witness:
  "\<exists>i < length (layout4 demo_cfg). 0 < i \<and>
     layout4 (demo_doc [demo_subnet 1] [demo_subnet 2, demo_subnet 3]) =
       (layout4 demo_cfg)[i := (fst (layout4 demo_cfg ! i), snd (layout4 demo_cfg ! i) @ [demo_subnet 3])]"
proof -
  have "add_subnet4 demo_cfg (demo_subnet 3) (JStr ''lab'') =
      Inr (demo_doc [demo_subnet 1] [demo_subnet 2, demo_subnet 3], Ok)"
    by code_simp
  from add_subnet4_spec [OF this] show ?thesis by auto
qed

text \<open>
  Deleting a subnet: with the outcome \<open>ok\<close> the first place that has a subnet with the id loses
  exactly its subnets with that id, and every other place keeps its subnets in order; \<open>notfound\<close>
  returns the configuration unchanged and means that no subnet anywhere has the id.
\<close>

theorem delete_subnet4_spec:
  assumes "delete_subnet4 cfg sid = Inr (cfg', out)"
  shows "case out of
      NotFound \<Rightarrow> cfg' = cfg \<and> (\<forall>s \<in> set (all_subnets (jget cfg ''Dhcp4'')). \<not> has_id sid s)
    | Ok \<Rightarrow> \<exists>i < length (layout4 cfg). (\<exists>s \<in> set (snd (layout4 cfg ! i)). has_id sid s) \<and>
        (\<forall>j < i. \<forall>s \<in> set (snd (layout4 cfg ! j)). \<not> has_id sid s) \<and>
        layout4 cfg' = (layout4 cfg)[i := (fst (layout4 cfg ! i), filter (\<lambda>s. \<not> has_id sid s) (snd (layout4 cfg ! i)))]
    | _ \<Rightarrow> False"
  by (rule delete_subnet4_layout [OF assms])

lemma delete_subnet4_spec_witness:
  "\<exists>i < length (layout4 demo_cfg). (\<exists>s \<in> set (snd (layout4 demo_cfg ! i)). has_id (JInt 2) s) \<and>
     layout4 (demo_doc [demo_subnet 1] []) =
       (layout4 demo_cfg)[i := (fst (layout4 demo_cfg ! i), filter (\<lambda>s. \<not> has_id (JInt 2) s) (snd (layout4 demo_cfg ! i)))]"
proof -
  have "delete_subnet4 demo_cfg (JInt 2) = Inr (demo_doc [demo_subnet 1] [], Ok)" by code_simp
  from delete_subnet4_spec [OF this] show ?thesis by auto
qed

text \<open>
  Moving a subnet carries the very same value across: the outcome \<open>ok\<close> takes a subnet with the
  id out of a place that is not the target and appends it to the target (the top level, or a network
  of that name), and no subnet is lost, added or changed. The other outcomes return the configuration
  unchanged: \<open>notfound\<close> only if no subnet has the id, \<open>nochange\<close> if a place of the target's name
  has it already, \<open>nonetwork\<close> if the target does not exist.
\<close>

theorem move_subnet4_spec:
  assumes "move_subnet4 cfg sid to_network = Inr (cfg', out)"
  shows "row_subnets (layout4 cfg') = row_subnets (layout4 cfg) \<and>
    (case out of
      NotFound \<Rightarrow> cfg' = cfg \<and> (\<forall>s \<in> set (all_subnets (jget cfg ''Dhcp4'')). \<not> has_id sid s)
    | NoChange \<Rightarrow> cfg' = cfg \<and> (\<exists>row \<in> set (layout4 cfg). py_eq (py_or to_network JNull) (fst row) \<and>
        (\<exists>s \<in> set (snd row). has_id sid s))
    | NoNetwork \<Rightarrow> cfg' = cfg \<and> truthy to_network \<and>
        (\<forall>row \<in> set (tl (layout4 cfg)). \<not> py_eq (fst row) to_network)
    | Ok \<Rightarrow> \<exists>i j k. i < length (layout4 cfg) \<and> j < length (snd (layout4 cfg ! i)) \<and> k < length (layout4 cfg) \<and>
        has_id sid (snd (layout4 cfg ! i) ! j) \<and> \<not> py_eq (py_or to_network JNull) (fst (layout4 cfg ! i)) \<and>
        (if truthy to_network then 0 < k \<and> py_eq (fst (layout4 cfg ! k)) to_network else k = 0) \<and>
        layout4 cfg' = move_row i j k (layout4 cfg)
    | _ \<Rightarrow> False)"
  using move_subnets [OF assms] move_subnet4_layout [OF assms] by blast

lemma move_subnet4_spec_witness:
  "row_subnets (layout4 (demo_doc [demo_subnet 1, demo_subnet 2] [])) = row_subnets (layout4 demo_cfg) \<and>
   (\<exists>i j. layout4 (demo_doc [demo_subnet 1, demo_subnet 2] []) = move_row i j 0 (layout4 demo_cfg))"
proof -
  have "move_subnet4 demo_cfg (JInt 2) (JStr []) = Inr (demo_doc [demo_subnet 1, demo_subnet 2] [], Ok)" by code_simp
  from move_subnet4_spec [OF this] show ?thesis by auto
qed

text \<open>
  A shared network that was created is deleted again without a trace: after \<open>create\<close> answers
  \<open>ok\<close>, the new network is the last row of the layout, with the given name and without subnets;
  \<open>delete\<close> answers \<open>ok\<close> for it, and the layout is the one before.
\<close>

theorem network_create_delete:
  assumes "create_shared_network4 cfg name iface = Inr (cfg', Ok)" and "wf_json name"
  shows "layout4 cfg' = layout4 cfg @ [(name, [])] \<and>
    (\<exists>cfg''. delete_shared_network4 cfg' name = Inr (cfg'', Ok) \<and> layout4 cfg'' = layout4 cfg)"
proof -
  obtain d c nets block where c: "cfg' = jset ''Dhcp4'' (jset ''shared-networks'' (JList (nets @ [block])) d) c"
    and d: "is_dict d" "is_dict c" and L: "layout (jset ''shared-networks'' (JList nets) d) = layout4 cfg"
    and new: "\<forall>n \<in> set nets. \<not> (is_dict n \<and> network_named name n)"
    and b: "is_dict block" "jget block ''name'' = name" "jget block ''subnet4'' = JList []"
    using create_network_raw [OF assms(1)] by blast
  have "find_index (\<lambda>n. is_dict n \<and> network_named name n) (nets @ [block]) = Some (length nets)"
    using new b assms(2) by (simp add: find_index_append find_index_None [THEN iffD2] network_named_def py_eq_refl)
  then have "delete_shared_network4 cfg' name =
      Inr (jset ''Dhcp4'' (jset ''shared-networks'' (JList nets) d) c, Ok)"
    using d b by (simp add: c delete_shared_network4_def py_get_def)
  moreover have "layout4 cfg' = layout4 cfg @ [(name, [])]"
    using create_network_layout [OF assms(1)] by simp
  ultimately show ?thesis using d L by (simp add: layout4_def)
qed

lemma network_create_delete_witness:
  "\<exists>cfg''. delete_shared_network4 (JObj [(''Dhcp4'', JObj [(''shared-networks'',
       JList [JObj [(''name'', JStr ''lab''), (''subnet4'', JList [])]])])]) (JStr ''lab'') = Inr (cfg'', Ok) \<and>
     layout4 cfg'' = layout4 (JObj [])"
proof -
  have "create_shared_network4 (JObj []) (JStr ''lab'') JNull = Inr (JObj [(''Dhcp4'', JObj [(''shared-networks'',
       JList [JObj [(''name'', JStr ''lab''), (''subnet4'', JList [])]])])], Ok)" by code_simp
  from network_create_delete [OF this] show ?thesis by simp
qed

text \<open>
  The edit form of a v4 subnet: either no subnet has the id and nothing changes, or exactly the
  first one with the id is replaced by what the form makes of it; its id, every other subnet and every
  other section of the configuration stay as they are.
\<close>

theorem patch_subnet4_spec:
  assumes "patch_subnet4 cfg sid pool extra lt rn rb routers dns = Inr (cfg', changed)"
  shows "(\<forall>k. k \<noteq> ''Dhcp4'' \<longrightarrow> jget cfg' k = jget cfg k) \<and>
    (case find_index (\<lambda>e. has_id sid (fst e)) (iter_subnet4 (jget cfg ''Dhcp4'')) of
      None \<Rightarrow> cfg' = cfg \<and> \<not> changed
    | Some i \<Rightarrow> \<exists>s'. patch_form4 pool extra lt rn rb routers dns (fst (iter_subnet4 (jget cfg ''Dhcp4'') ! i)) = Inr (s', changed) \<and>
        jget s' ''id'' = jget (fst (iter_subnet4 (jget cfg ''Dhcp4'') ! i)) ''id'' \<and>
        iter_subnet4 (jget cfg' ''Dhcp4'') =
          (iter_subnet4 (jget cfg ''Dhcp4''))[i := (s', snd (iter_subnet4 (jget cfg ''Dhcp4'') ! i))])"
proof -
  have run: "patch_subnet ''Dhcp4'' ''subnet4'' (patch_form4 pool extra lt rn rb routers dns) cfg sid = Inr (cfg', changed)"
    using assms by (simp add: patch_subnet4_def)
  let ?it = "iter_subnets ''subnet4'' (jget cfg ''Dhcp4'')"
  have "is_dict (fst (?it ! i))" if "find_index (\<lambda>e. has_id sid (fst e)) ?it = Some i" for i
    using find_index_SomeD(1) [OF that] nth_mem [of i ?it] iter_subnets_dicts by (metis prod.collapse)
  then show ?thesis
    using form4.patch_other_sections [OF _ _ run] form4.patch_iter [OF _ _ run] form4.form_id
    unfolding iter_subnet4_def by (fastforce split: option.splits)
qed

lemma patch_subnet4_spec_witness:
  "iter_subnet4 (jget (demo_doc [demo_subnet 1] [jset ''valid-lifetime'' (JInt 60) (demo_subnet 2)]) ''Dhcp4'') =
     (iter_subnet4 (jget demo_cfg ''Dhcp4''))[1 := (jset ''valid-lifetime'' (JInt 60) (demo_subnet 2), JStr ''lab'')]"
proof -
  have run: "patch_subnet4 demo_cfg (JInt 2) [] [] ''60'' [] [] [] [] =
      Inr (demo_doc [demo_subnet 1] [jset ''valid-lifetime'' (JInt 60) (demo_subnet 2)], True)" by code_simp
  have i: "find_index (\<lambda>e. has_id (JInt 2) (fst e)) (iter_subnet4 (jget demo_cfg ''Dhcp4'')) = Some 1"
    and f: "patch_form4 [] [] ''60'' [] [] [] [] (fst (iter_subnet4 (jget demo_cfg ''Dhcp4'') ! 1)) =
        Inr (jset ''valid-lifetime'' (JInt 60) (demo_subnet 2), True)"
    and n: "snd (iter_subnet4 (jget demo_cfg ''Dhcp4'') ! 1) = JStr ''lab''" by code_simp+
  show ?thesis using patch_subnet4_spec [OF run] f n by (simp add: i)
qed

text \<open>
  The edit forms report truthfully, so a caller that pushes only on \<open>changed\<close> converges: an edit
  that reports no change returned the configuration as it was, and running the same edit again always
  succeeds, changes nothing and says so. Here for v6, whose form has one field more.
\<close>

theorem patch_subnet6_idempotent:
  assumes "patch_subnet6 cfg sid pool extra pf lt rn rb dns = Inr (cfg', changed)"
  shows "patch_subnet6 cfg' sid pool extra pf lt rn rb dns = Inr (cfg', False) \<and> (\<not> changed \<longrightarrow> cfg' = cfg)"
proof -
  have run: "patch_subnet ''Dhcp6'' ''subnet6'' (patch_form6 pool extra pf lt rn rb dns) cfg sid = Inr (cfg', changed)"
    using assms by (simp add: patch_subnet6_def)
  show ?thesis
    using form6.patch_again [OF _ _ run] form6.patch_quiet [of "''subnet6''"] run
    by (cases changed) (simp_all add: patch_subnet6_def)
qed

lemma patch_subnet6_idempotent_witness:
  "patch_subnet6 (JObj [(''Dhcp6'', JObj [(''subnet6'', JList [jset ''renew-timer'' (JInt 9) (demo_subnet 4)])])])
      (JInt 4) [] [] [] [] ''9'' [] [] =
    Inr (JObj [(''Dhcp6'', JObj [(''subnet6'', JList [jset ''renew-timer'' (JInt 9) (demo_subnet 4)])])], False)"
proof -
  have "patch_subnet6 (JObj [(''Dhcp6'', JObj [(''subnet6'', JList [demo_subnet 4])])]) (JInt 4) [] [] [] [] ''9'' [] [] =
      Inr (JObj [(''Dhcp6'', JObj [(''subnet6'', JList [jset ''renew-timer'' (JInt 9) (demo_subnet 4)])])], True)"
    by code_simp
  from patch_subnet6_idempotent [OF this] show ?thesis by simp
qed

end
