(* ===== verification/PyIp.thy ===== *)
theory PyIp
  imports PyStr Json
begin

text \<open>
  What the code uses of Python's \<open>ipaddress\<close>: dotted-quad IPv4 addresses and networks built with
  \<open>strict=False\<close>. An address is the natural number below \<open>2 ^ 32\<close> it denotes; a network is its
  network address and prefix length.
\<close>

type_synonym ip_net = "nat \<times> nat"

definition ipv4_max :: nat where
  "ipv4_max = 2 ^ 32 - 1"

text \<open>
  One octet: one to three ASCII digits, no leading zero, at most 255 (digits beyond that are an
  error of \<open>IPv4Address\<close>, reported as \<open>None\<close> here).
\<close>

definition parse_octet :: "string \<Rightarrow> nat option" where
  "parse_octet s =
     (if s = [] \<or> \<not> list_all is_digit s \<or> 3 < length s \<or> (s \<noteq> ''0'' \<and> hd s = CHR ''0'')
         \<or> 255 < dec_val s
      then None else Some (dec_val s))"

definition ip_of_string :: "string \<Rightarrow> nat option" where
  "ip_of_string s =
     (case map parse_octet (split_on CHR ''.'' s) of
        [Some a, Some b, Some c, Some d] \<Rightarrow> Some (((a * 256 + b) * 256 + c) * 256 + d)
      | _ \<Rightarrow> None)"

text \<open>A mask written as a number of bits, as a netmask, or as a host mask.\<close>

definition prefix_of_ip :: "nat \<Rightarrow> nat option" where
  "prefix_of_ip n = find (\<lambda>p. n = 2 ^ 32 - 2 ^ (32 - p)) [0..<33]"

definition parse_prefix :: "string \<Rightarrow> nat option" where
  "parse_prefix s =
     (if s \<noteq> [] \<and> list_all is_digit s \<and> dec_val s \<le> 32 then Some (dec_val s)
      else (case ip_of_string s of
              None \<Rightarrow> None
            | Some m \<Rightarrow> (case prefix_of_ip m of Some p \<Rightarrow> Some p | None \<Rightarrow> prefix_of_ip (ipv4_max - m))))"

definition mask_ip :: "nat \<Rightarrow> nat \<Rightarrow> nat" where
  "mask_ip a p = (a div 2 ^ (32 - p)) * 2 ^ (32 - p)"

definition net_of_string :: "string \<Rightarrow> ip_net option" where
  "net_of_string s =
     (case split_on CHR ''/'' s of
        [a] \<Rightarrow> map_option (\<lambda>n. (n, 32)) (ip_of_string a)
      | [a, m] \<Rightarrow> (case (ip_of_string a, parse_prefix m) of
                    (Some n, Some p) \<Rightarrow> Some (mask_ip n p, p)
                  | _ \<Rightarrow> None)
      | _ \<Rightarrow> None)"

definition net_first :: "ip_net \<Rightarrow> nat" where
  "net_first n = fst n"

definition net_last :: "ip_net \<Rightarrow> nat" where
  "net_last n = fst n + (2 ^ (32 - snd n) - 1)"

text \<open>\<open>a.subnet_of(b)\<close> and \<open>ip in net\<close>.\<close>

definition subnet_of :: "ip_net \<Rightarrow> ip_net \<Rightarrow> bool" where
  "subnet_of a b = (net_first b \<le> net_first a \<and> net_last a \<le> net_last b)"

definition ip_in_net :: "nat \<Rightarrow> ip_net \<Rightarrow> bool" where
  "ip_in_net ip n = (net_first n \<le> ip \<and> ip \<le> net_last n)"

text \<open>
  The same of a JSON value: a string is parsed; an integer is the address it numbers (a /32
  network); nothing else is one.
\<close>

fun ip_of_json :: "json \<Rightarrow> nat option" where
  "ip_of_json (JStr s) = ip_of_string s"
| "ip_of_json (JInt i) = (if 0 \<le> i \<and> i \<le> int ipv4_max then Some (nat i) else None)"
| "ip_of_json (JBool b) = Some (of_bool b)"
| "ip_of_json v = None"

fun net_of_json :: "json \<Rightarrow> ip_net option" where
  "net_of_json (JStr s) = net_of_string s"
| "net_of_json (JInt i) = (if 0 \<le> i \<and> i \<le> int ipv4_max then Some (nat i, 32) else None)"
| "net_of_json (JBool b) = Some (of_bool b, 32)"
| "net_of_json v = None"

lemma parse_octet_le: "parse_octet s = Some n \<Longrightarrow> n \<le> 255"
  by (auto simp: parse_octet_def split: if_splits)

lemma ip_of_string_le: "ip_of_string s = Some n \<Longrightarrow> n \<le> ipv4_max"
proof -
  assume "ip_of_string s = Some n"
  then obtain a b c d where "map parse_octet (split_on CHR ''.'' s) = [Some a, Some b, Some c, Some d]"
    and n: "n = ((a * 256 + b) * 256 + c) * 256 + d"
    by (auto simp: ip_of_string_def split: list.splits option.splits)
  then have "a \<le> 255" "b \<le> 255" "c \<le> 255" "d \<le> 255"
    by (auto simp: parse_octet_le)
  then show ?thesis by (simp add: n ipv4_max_def)
qed

lemma mask_ip_le: "mask_ip a p \<le> a"
  by (simp add: mask_ip_def div_times_less_eq_dividend)

lemma net_first_le_last: "net_first n \<le> net_last n"
  unfolding net_first_def net_last_def by (rule le_add1)

lemma mask_ip_bounds: "mask_ip a p \<le> a \<and> a \<le> mask_ip a p + (2 ^ (32 - p) - 1)"
proof -
  have "a = mask_ip a p + a mod 2 ^ (32 - p)"
    unfolding mask_ip_def by (rule div_mult_mod_eq [symmetric])
  moreover have "a mod 2 ^ (32 - p) < 2 ^ (32 - p)" by simp
  ultimately show ?thesis by linarith
qed

text \<open>An address lies in the network it is written with.\<close>

lemma net_of_string_contains:
  assumes "net_of_string s = Some n" and "ip_of_string (hd (split_on CHR ''/'' s)) = Some a"
  shows "ip_in_net a n"
  using assms mask_ip_bounds
  by (auto simp: net_of_string_def ip_in_net_def net_first_def net_last_def
      split: list.splits option.splits)

end
