(* ===== verification/Pools.thy ===== *)
theory Pools
  imports PyIp
begin

text \<open>
  \<open>jen/services/pools.py\<close>: what a pool is, the merged ranges of a subnet's pools, their size and
  the leases that consume them. The lease database is the table \<open>lease4\<close>, a list of rows; the
  SQL the code runs on it is written out as a filter.
\<close>

section \<open>Parsing a pool\<close>

text \<open>\<open>_addr\<close>: the address in a piece of text, blanks around it allowed.\<close>

definition addr :: "string \<Rightarrow> nat option" where
  "addr s = ip_of_string (strip s)"

text \<open>\<open>text.split("-", 1)\<close> in two, when there is a hyphen.\<close>

definition split_hyphen :: "string \<Rightarrow> string \<times> string" where
  "split_hyphen s = partition_on ''-'' s"

definition parse_pool :: "string \<Rightarrow> ip_net option \<Rightarrow> (nat \<times> nat) option" where
  "parse_pool raw network =
     (let text = strip raw in
      if text = [] then None
      else if contains ''-'' text then
        (case split_hyphen text of (l, r) \<Rightarrow>
          (case (addr l, addr r) of
             (Some lo, Some hi) \<Rightarrow> (if hi < lo then None else Some (lo, hi))
           | _ \<Rightarrow> None))
      else
        (case net_of_string text of
           None \<Rightarrow> None
         | Some sub \<Rightarrow>
             (case network of
                Some n \<Rightarrow> (if subnet_of sub n then Some (net_first sub, net_last sub) else None)
              | None \<Rightarrow> Some (net_first sub, net_last sub))))"

text \<open>
  \<open>str(v or "")\<close>: only a string can spell a pool; the text of a number, a list or a dict is never
  one, so a text without digits and dots stands for it.
\<close>

definition text_of :: "json \<Rightarrow> string" where
  "text_of v = (case v of JStr s \<Rightarrow> s | _ \<Rightarrow> (if truthy v then ''?'' else []))"

definition pool_text :: "json \<Rightarrow> string" where
  "pool_text pool = (if is_dict pool then text_of (jget pool ''pool'') else text_of pool)"

section \<open>The merged ranges\<close>

type_synonym ranges = "(nat \<times> nat) list"

text \<open>\<open>sorted\<close> of pairs: by the first component, ties by the second.\<close>

definition sort_ranges :: "ranges \<Rightarrow> ranges" where
  "sort_ranges rs = sort_key fst (sort_key snd rs)"

definition merge_step :: "ranges \<Rightarrow> nat \<times> nat \<Rightarrow> ranges" where
  "merge_step merged r =
     (if merged \<noteq> [] \<and> fst r \<le> snd (last merged) + 1
      then butlast merged @ [(fst (last merged), max (snd (last merged)) (snd r))]
      else merged @ [r])"

definition parsed_pools :: "json list \<Rightarrow> ranges" where
  "parsed_pools pools = List.map_filter (\<lambda>p. parse_pool (pool_text p) None) pools"

definition pool_ranges :: "json list \<Rightarrow> ranges" where
  "pool_ranges pools = foldl merge_step [] (sort_ranges (parsed_pools pools))"

definition total_pool_size :: "json list \<Rightarrow> nat" where
  "total_pool_size pools = sum_list (map (\<lambda>(lo, hi). hi - lo + 1) (pool_ranges pools))"

text \<open>\<open>address_in_pools\<close>, for a number and for a text.\<close>

definition value_in_pools :: "nat \<Rightarrow> json list \<Rightarrow> bool" where
  "value_in_pools value pools = (\<exists>(lo, hi) \<in> set (pool_ranges pools). lo \<le> value \<and> value \<le> hi)"

definition address_in_pools :: "string \<Rightarrow> json list \<Rightarrow> bool" where
  "address_in_pools address pools =
     (case addr address of None \<Rightarrow> False | Some value \<Rightarrow> value_in_pools value pools)"

section \<open>Consumption\<close>

record lease4 =
  l_address :: nat
  l_subnet_id :: int
  l_state :: int
  l_expire :: int

text \<open>
  \<open>ACTIVE_LEASE4\<close> of \<open>leases_sql.py\<close>, the SQL condition \<open>state = 0 AND expire > NOW()\<close>; \<open>now\<close> is
  the database's clock when the query runs.
\<close>

definition active_lease4 :: "int \<Rightarrow> lease4 \<Rightarrow> bool" where
  "active_lease4 now l = (l_state l = 0 \<and> now < l_expire l)"

definition count_leases :: "int \<Rightarrow> lease4 list \<Rightarrow> int \<Rightarrow> nat \<Rightarrow> nat \<Rightarrow> nat" where
  "count_leases now db subnet_id lo hi =
     length (filter (\<lambda>l. (active_lease4 now l \<and> l_subnet_id l = subnet_id) \<and> lo \<le> l_address l \<and> l_address l \<le> hi) db)"

definition consumption :: "int \<Rightarrow> lease4 list \<Rightarrow> int \<Rightarrow> json list \<Rightarrow> nat" where
  "consumption now db subnet_id pools =
     foldl (\<lambda>used (lo, hi). used + count_leases now db subnet_id lo hi) 0 (pool_ranges pools)"

section \<open>Sorted, separated and complete\<close>

definition covers :: "ranges \<Rightarrow> nat set" where
  "covers rs = (\<Union>(a, b) \<in> set rs. {a..b})"

definition nonempty_ranges :: "ranges \<Rightarrow> bool" where
  "nonempty_ranges rs = (\<forall>(a, b) \<in> set rs. a \<le> b)"

text \<open>Ascending, with at least one address between two neighbours.\<close>

definition separated :: "ranges \<Rightarrow> bool" where
  "separated rs = sorted_wrt (\<lambda>r s. snd r + 1 < fst s) rs"

lemma parse_pool_nonempty: "parse_pool t n = Some (a, b) \<Longrightarrow> a \<le> b"
  using net_first_le_last
  by (auto simp: parse_pool_def Let_def split: if_splits option.splits prod.splits)

lemma parsed_nonempty: "nonempty_ranges (parsed_pools pools)"
  by (auto simp: nonempty_ranges_def parsed_pools_def map_filter_def parse_pool_nonempty)

lemma set_sort_ranges [simp]: "set (sort_ranges rs) = set rs"
  by (simp add: sort_ranges_def)

lemma sort_ranges_sorted: "sorted (map fst (sort_ranges rs))"
  by (simp add: sort_ranges_def)

lemma covers_append [simp]: "covers (xs @ ys) = covers xs \<union> covers ys"
  by (auto simp: covers_def)

lemma covers_single [simp]: "covers [r] = {fst r..snd r}"
  by (cases r) (simp add: covers_def)

lemma covers_Nil [simp]: "covers [] = {}"
  by (simp add: covers_def)

lemma merge_step_covers:
  assumes "nonempty_ranges merged" and "fst r \<le> snd r"
    and "merged \<noteq> [] \<Longrightarrow> fst (last merged) \<le> fst r"
  shows "covers (merge_step merged r) = covers merged \<union> {fst r..snd r}"
proof (cases "merged \<noteq> [] \<and> fst r \<le> snd (last merged) + 1")
  case True
  then obtain m a b where m: "merged = m @ [(a, b)]" by (metis append_butlast_last_id surj_pair)
  then have "a \<le> b" "a \<le> fst r" using assms True by (auto simp: nonempty_ranges_def)
  then have "{a..max b (snd r)} = {a..b} \<union> {fst r..snd r}" using True m assms(2) by auto
  then show ?thesis using True m by (simp add: merge_step_def Un_assoc)
next
  case False
  then show ?thesis by (auto simp: merge_step_def)
qed

lemma merge_step_separated:
  assumes "separated merged" and "merged \<noteq> [] \<Longrightarrow> fst (last merged) \<le> fst r"
  shows "separated (merge_step merged r)"
proof (cases "merged = []")
  case True
  then show ?thesis by (simp add: merge_step_def separated_def)
next
  case False
  then obtain m a b where m: "merged = m @ [(a, b)]" by (metis append_butlast_last_id surj_pair)
  then show ?thesis
    using assms by (fastforce simp: merge_step_def separated_def sorted_wrt_append)
qed

lemma merge_step_nonempty:
  "nonempty_ranges merged \<Longrightarrow> fst r \<le> snd r \<Longrightarrow> nonempty_ranges (merge_step merged r)"
  by (cases merged rule: rev_cases) (auto simp: merge_step_def nonempty_ranges_def)

lemma merge_step_last: "merged \<noteq> [] \<Longrightarrow> fst (last merged) \<le> fst r \<Longrightarrow> fst (last (merge_step merged r)) \<le> fst r"
  by (auto simp: merge_step_def)

lemma merge_all:
  assumes "sorted (map fst rs)" and "nonempty_ranges rs" and "nonempty_ranges merged" and "separated merged"
    and "merged \<noteq> [] \<Longrightarrow> \<forall>r \<in> set rs. fst (last merged) \<le> fst r"
  shows "covers (foldl merge_step merged rs) = covers merged \<union> covers rs \<and>
    separated (foldl merge_step merged rs) \<and> nonempty_ranges (foldl merge_step merged rs)"
  using assms
proof (induction rs arbitrary: merged)
  case Nil
  then show ?case by simp
next
  case (Cons r rs)
  let ?m = "merge_step merged r"
  have r: "fst r \<le> snd r" using Cons.prems(2) by (auto simp: nonempty_ranges_def)
  have last: "merged \<noteq> [] \<Longrightarrow> fst (last merged) \<le> fst r" using Cons.prems(5) by simp
  have "fst (last ?m) \<le> fst r"
    using last by (cases "merged = []") (auto simp: merge_step_def)
  then have later: "\<forall>q \<in> set rs. fst (last ?m) \<le> fst q"
    using Cons.prems(1) by fastforce
  have cov: "covers ?m = covers merged \<union> {fst r..snd r}"
    by (rule merge_step_covers) (use Cons.prems r last in auto)
  have "covers (foldl merge_step ?m rs) = covers ?m \<union> covers rs \<and>
      separated (foldl merge_step ?m rs) \<and> nonempty_ranges (foldl merge_step ?m rs)"
    using Cons.prems r last later
    by (intro Cons.IH)
      (simp_all add: merge_step_separated merge_step_nonempty, simp add: nonempty_ranges_def)
  moreover have "covers (r # rs) = {fst r..snd r} \<union> covers rs"
    using covers_append [of "[r]" rs] by simp
  ultimately show ?case by (simp add: cov Un_assoc)
qed

lemma pool_ranges_facts:
  shows "covers (pool_ranges pools) = covers (parsed_pools pools)"
    and "separated (pool_ranges pools)" and "nonempty_ranges (pool_ranges pools)"
proof -
  have "nonempty_ranges (sort_ranges (parsed_pools pools))"
    using parsed_nonempty by (simp add: nonempty_ranges_def)
  then have "covers (pool_ranges pools) = covers [] \<union> covers (sort_ranges (parsed_pools pools)) \<and>
      separated (pool_ranges pools) \<and> nonempty_ranges (pool_ranges pools)"
    unfolding pool_ranges_def
    by (intro merge_all) (simp_all add: sort_ranges_sorted nonempty_ranges_def separated_def)
  then show "covers (pool_ranges pools) = covers (parsed_pools pools)"
    and "separated (pool_ranges pools)" and "nonempty_ranges (pool_ranges pools)"
    by (simp_all add: covers_def)
qed

lemma separated_sum:
  assumes "separated rs" and "nonempty_ranges rs"
  shows "sum_list (map (\<lambda>(a, b). b - a + 1) rs) = card (covers rs) \<and> finite (covers rs)"
  using assms
proof (induction rs)
  case Nil
  then show ?case by simp
next
  case (Cons r rs)
  have c: "covers (r # rs) = {fst r..snd r} \<union> covers rs"
    using covers_append [of "[r]" rs] by simp
  have d: "{fst r..snd r} \<inter> covers rs = {}"
    using Cons.prems(1) by (fastforce simp: separated_def covers_def)
  have r: "card {fst r..snd r} = snd r - fst r + 1"
    using Cons.prems(2) by (auto simp: nonempty_ranges_def)
  have IH: "sum_list (map (\<lambda>(a, b). b - a + 1) rs) = card (covers rs)" "finite (covers rs)"
    using Cons by (simp_all add: separated_def nonempty_ranges_def)
  have "card (covers (r # rs)) = card {fst r..snd r} + card (covers rs)"
    unfolding c by (rule card_Un_disjoint) (use d IH(2) in auto)
  then have "card (covers (r # rs)) = (snd r - fst r + 1) + sum_list (map (\<lambda>(a, b). b - a + 1) rs)"
    by (simp only: r IH(1))
  moreover have "finite (covers (r # rs))" using IH(2) by (simp add: c)
  ultimately show ?case by (cases r) simp
qed

lemma separated_count:
  assumes "separated rs"
  shows "sum_list (map (\<lambda>(a, b). length (filter (\<lambda>x. P x \<and> a \<le> f x \<and> f x \<le> b) xs)) rs)
    = length (filter (\<lambda>x. P x \<and> f x \<in> covers rs) xs)"
  using assms
proof (induction rs)
  case Nil
  then show ?case by simp
next
  case (Cons r rs)
  have c: "covers (r # rs) = {fst r..snd r} \<union> covers rs"
    using covers_append [of "[r]" rs] by simp
  have d: "{fst r..snd r} \<inter> covers rs = {}"
    using Cons.prems by (fastforce simp: separated_def covers_def)
  have "length (filter (\<lambda>x. P x \<and> f x \<in> covers (r # rs)) xs)
      = length (filter (\<lambda>x. P x \<and> fst r \<le> f x \<and> f x \<le> snd r) xs)
        + length (filter (\<lambda>x. P x \<and> f x \<in> covers rs) xs)"
    using d unfolding c by (induction xs) auto
  then show ?case using Cons by (simp add: separated_def split_beta)
qed

lemma consumption_sum:
  "consumption now db sid pools =
     sum_list (map (\<lambda>(a, b). count_leases now db sid a b) (pool_ranges pools))"
proof -
  have "foldl (\<lambda>used (a, b). used + count_leases now db sid a b) n rs =
      n + sum_list (map (\<lambda>(a, b). count_leases now db sid a b) rs)" for n rs
    by (induction rs arbitrary: n) auto
  then show ?thesis by (simp add: consumption_def)
qed

section \<open>Properties\<close>

text \<open>
  The ranges of a subnet's pools are normalised whatever the pools are: each is non-empty, they
  ascend with at least one address between two neighbours, and together they hold exactly the
  addresses of the pools that can be read.
\<close>

theorem pool_ranges_normal:
  "nonempty_ranges (pool_ranges pools) \<and> separated (pool_ranges pools) \<and>
   covers (pool_ranges pools) = covers (parsed_pools pools)"
  by (simp add: pool_ranges_facts)

text \<open>
  The size every capacity number divides by is the number of distinct addresses in the union of
  the pools, so overlapping, touching and duplicate pools are not counted twice.
\<close>

theorem total_pool_size_card: "total_pool_size pools = card (covers (parsed_pools pools))"
  using separated_sum [of "pool_ranges pools"] by (simp add: total_pool_size_def pool_ranges_facts)

text \<open>
  Consumption counts every lease row once: it is the number of active, unexpired leases of the
  subnet whose address lies in some pool; leases outside every pool (reservations) never count, and
  an address is in the pools exactly when it lies between the ends of one of them.
\<close>

theorem consumption_counts_once:
  "consumption now db sid pools =
     length (filter (\<lambda>l. active_lease4 now l \<and> l_subnet_id l = sid \<and> value_in_pools (l_address l) pools) db) \<and>
   (\<forall>a. value_in_pools a pools \<longleftrightarrow> (\<exists>(lo, hi) \<in> set (parsed_pools pools). lo \<le> a \<and> a \<le> hi))"
proof
  have in_pools: "value_in_pools a pools \<longleftrightarrow> a \<in> covers (pool_ranges pools)" for a
    by (simp add: value_in_pools_def covers_def split_beta)
  show "consumption now db sid pools =
      length (filter (\<lambda>l. active_lease4 now l \<and> l_subnet_id l = sid \<and> value_in_pools (l_address l) pools) db)"
    using separated_count [OF pool_ranges_facts(2), of "\<lambda>l. active_lease4 now l \<and> l_subnet_id l = sid" l_address db]
    by (simp add: consumption_sum count_leases_def in_pools conj_assoc)
  show "\<forall>a. value_in_pools a pools \<longleftrightarrow> (\<exists>(lo, hi) \<in> set (parsed_pools pools). lo \<le> a \<and> a \<le> hi)"
    unfolding in_pools pool_ranges_facts(1) by (simp add: covers_def split_beta)
qed

end
