(* ===== verification/OptionCatalog.thy ===== *)
theory OptionCatalog
  imports ConfigView PyIp
begin

text \<open>
  \<open>jen/services/dhcp_options.py\<close>: the DHCPv4 option catalogue, the validation and the canonical
  form of an option's value, and the walk that works out the options in effect for a subnet.
  Validation messages are the constructors of \<open>opt_error\<close>. A catalogue lookup hashes its key, so a
  list or a dict there is a \<open>TypeError\<close>.
\<close>

section \<open>The catalogue\<close>

type_synonym catalog_entry = "int \<times> string \<times> string \<times> bool"

definition v4_options :: "catalog_entry list" where
  "v4_options = [
    (1, ''subnet-mask'', ''ip'', False),
    (2, ''time-offset'', ''int32'', False),
    (3, ''routers'', ''ip-list'', True),
    (4, ''time-servers'', ''ip-list'', True),
    (6, ''domain-name-servers'', ''ip-list'', True),
    (7, ''log-servers'', ''ip-list'', True),
    (12, ''host-name'', ''string'', False),
    (15, ''domain-name'', ''fqdn'', False),
    (19, ''ip-forwarding'', ''boolean'', False),
    (26, ''interface-mtu'', ''uint16'', False),
    (28, ''broadcast-address'', ''ip'', False),
    (33, ''static-routes'', ''ip-pair-list'', True),
    (40, ''nis-domain'', ''string'', False),
    (41, ''nis-servers'', ''ip-list'', True),
    (42, ''ntp-servers'', ''ip-list'', True),
    (43, ''vendor-encapsulated-options'', ''hex'', False),
    (44, ''netbios-name-servers'', ''ip-list'', True),
    (46, ''netbios-node-type'', ''uint8'', False),
    (47, ''netbios-scope'', ''string'', False),
    (60, ''vendor-class-identifier'', ''string'', False),
    (66, ''tftp-server-name'', ''string'', False),
    (67, ''boot-file-name'', ''string'', False),
    (69, ''smtp-server'', ''ip-list'', True),
    (70, ''pop-server'', ''ip-list'', True),
    (72, ''www-server'', ''ip-list'', True),
    (119, ''domain-search'', ''fqdn-list'', True),
    (121, ''classless-static-route'', ''classless-routes'', True),
    (150, ''tftp-servers'', ''ip-list'', True)]"

definition name_to_code :: "string \<Rightarrow> int option" where
  "name_to_code n = map_of (map (\<lambda>(c, nm, t, m). (nm, c)) v4_options) n"

definition code_to_name :: "int \<Rightarrow> string option" where
  "code_to_name c = map_of (map (\<lambda>(c, nm, t, m). (c, nm)) v4_options) c"

definition type_for :: "int \<Rightarrow> string option" where
  "type_for code = map_of (map (\<lambda>(c, nm, t, m). (c, t)) v4_options) code"

definition catalog_choices :: "(int \<times> string \<times> string) list" where
  "catalog_choices = map (\<lambda>(c, nm, t, m). (c, nm, t)) (sort_key fst v4_options)"

definition opt_types :: "string list" where
  "opt_types = [''ip'', ''ip-list'', ''ip-pair-list'', ''string'', ''fqdn'', ''fqdn-list'', ''boolean'',
     ''uint8'', ''uint16'', ''uint32'', ''int32'', ''hex'', ''classless-routes'']"

text \<open>Codes 3 and 6 at subnet level belong to the Edit Subnet form.\<close>

definition managed_at_subnet :: "int list" where
  "managed_at_subnet = [3, 6]"

section \<open>Validation and the canonical form\<close>

datatype opt_error =
    UnknownType | ValueRequired | NotIp | NotIps "string list" | OddIps | NotFqdn
  | NotFqdns "string list" | NotBool | NotWhole | OutOfRange nat | NotInt32 | NotHex
  | RouteForm string | RouteNet string | RouteRouter string

definition split_csv :: "string \<Rightarrow> string list" where
  "split_csv data = filter (\<lambda>p. p \<noteq> []) (map strip (split_on CHR '','' data))"

definition is_ipv4 :: "string \<Rightarrow> bool" where
  "is_ipv4 s = (ip_of_string s \<noteq> None)"

definition is_alnum :: "char \<Rightarrow> bool" where
  "is_alnum c = (is_digit c \<or> (65 \<le> ord_of c \<and> ord_of c \<le> 90) \<or> (97 \<le> ord_of c \<and> ord_of c \<le> 122))"

definition label_ok :: "string \<Rightarrow> bool" where
  "label_ok l = (l \<noteq> [] \<and> length l \<le> 63 \<and> is_alnum (hd l) \<and> is_alnum (last l) \<and>
     list_all (\<lambda>c. is_alnum c \<or> c = CHR ''-'') l)"

text \<open>The regular expression \<open>_FQDN_RE\<close>, on a text without a line break at its end.\<close>

definition fqdn_ok :: "string \<Rightarrow> bool" where
  "fqdn_ok s = (s \<noteq> [] \<and> length s \<le> 253 \<and>
     list_all label_ok (split_on CHR ''.'' (if last s = CHR ''.'' then butlast s else s)))"

text \<open>The regular expression \<open>^(0x)?[0-9a-fA-F]*$\<close>; \<open>$\<close> also matches before a final line break.\<close>

definition hex_text :: "string \<Rightarrow> bool" where
  "hex_text s = (list_all is_hex s \<or> (has_prefix ''0x'' s \<and> list_all is_hex (drop 2 s)))"

definition newline :: char where
  "newline = char_of (10 :: nat)"

definition hex_re :: "string \<Rightarrow> bool" where
  "hex_re s = (hex_text s \<or> (s \<noteq> [] \<and> last s = newline \<and> hex_text (butlast s)))"

definition uint_error :: "string \<Rightarrow> nat \<Rightarrow> opt_error option" where
  "uint_error data bits =
     (case py_int data of
        Inl _ \<Rightarrow> Some NotWhole
      | Inr v \<Rightarrow> (if 0 \<le> v \<and> v < 2 ^ bits then None else Some (OutOfRange bits)))"

definition hex_body :: "string \<Rightarrow> string" where
  "hex_body data =
     filter (\<lambda>c. c \<noteq> CHR '':'' \<and> c \<noteq> CHR '' '')
       (if has_prefix ''0x'' (lower data) then drop 2 data else data)"

definition route_error :: "string \<Rightarrow> opt_error option" where
  "route_error pair =
     (if \<not> contains '' - '' pair then Some (RouteForm pair)
      else (case partition_on '' - '' pair of (net, gw) \<Rightarrow>
        (if net_of_string (strip net) = None then Some (RouteNet (strip net))
         else if \<not> is_ipv4 (strip gw) then Some (RouteRouter (strip gw))
         else None)))"

fun first_error :: "('a \<Rightarrow> 'e option) \<Rightarrow> 'a list \<Rightarrow> 'e option" where
  "first_error f [] = None"
| "first_error f (x # xs) = (case f x of Some e \<Rightarrow> Some e | None \<Rightarrow> first_error f xs)"

definition bad_ips :: "string list \<Rightarrow> opt_error option" where
  "bad_ips parts =
     (let bad = filter (\<lambda>p. \<not> is_ipv4 p) parts in if bad = [] then None else Some (NotIps bad))"

definition validate :: "string \<Rightarrow> string \<Rightarrow> opt_error option" where
  "validate opt_type raw =
     (let data = strip raw in
      if opt_type \<notin> set opt_types then Some UnknownType
      else if data = [] then Some ValueRequired
      else if opt_type = ''ip'' then (if is_ipv4 data then None else Some NotIp)
      else if opt_type = ''ip-list'' then bad_ips (split_csv data)
      else if opt_type = ''ip-pair-list'' then
        (let parts = split_csv data in
         if parts = [] \<or> odd (length parts) then Some OddIps else bad_ips parts)
      else if opt_type = ''string'' then None
      else if opt_type = ''fqdn'' then (if fqdn_ok data then None else Some NotFqdn)
      else if opt_type = ''fqdn-list'' then
        (let bad = filter (\<lambda>p. \<not> fqdn_ok p) (split_csv data) in
         if bad = [] then None else Some (NotFqdns bad))
      else if opt_type = ''boolean'' then
        (if lower data = ''true'' \<or> lower data = ''false'' then None else Some NotBool)
      else if opt_type = ''uint8'' then uint_error data 8
      else if opt_type = ''uint16'' then uint_error data 16
      else if opt_type = ''uint32'' then uint_error data 32
      else if opt_type = ''int32'' then
        (case py_int data of
           Inl _ \<Rightarrow> Some NotWhole
         | Inr v \<Rightarrow> (if - (2 ^ 31) \<le> v \<and> v < 2 ^ 31 then None else Some NotInt32))
      else if opt_type = ''hex'' then
        (let body = hex_body data in
         if body = [] \<or> \<not> hex_re body \<or> odd (py_len body) then Some NotHex else None)
      else if opt_type = ''classless-routes'' then first_error route_error (split_csv data)
      else None)"

definition normalize_route :: "string \<Rightarrow> string" where
  "normalize_route pair =
     (case partition_on '' - '' pair of (net, gw) \<Rightarrow> strip net @ '' - '' @ strip gw)"

definition normalize :: "string \<Rightarrow> string \<Rightarrow> string" where
  "normalize opt_type raw =
     (let data = strip raw in
      if opt_type \<in> {''ip-list'', ''ip-pair-list'', ''fqdn-list''} then join_with '', '' (split_csv data)
      else if opt_type = ''classless-routes'' then join_with '', '' (map normalize_route (split_csv data))
      else if opt_type = ''boolean'' then lower data
      else if opt_type = ''hex'' then lower (hex_body data)
      else data)"

section \<open>Option entries\<close>

definition hashable :: "json \<Rightarrow> bool" where
  "hashable v = (\<not> is_list v \<and> \<not> is_dict v)"

text \<open>\<open>NAME_TO_CODE[name] if name in NAME_TO_CODE\<close>, the key being any JSON value.\<close>

definition lookup_name :: "json \<Rightarrow> json option res" where
  "lookup_name name =
     (if \<not> hashable name then Inl TypeError
      else Inr (case name of JStr n \<Rightarrow> map_option JInt (name_to_code n) | _ \<Rightarrow> None))"

text \<open>\<open>V4_OPTIONS[code]["name"] if code in V4_OPTIONS\<close>: \<open>True\<close> and \<open>1.0\<close> find code 1.\<close>

definition lookup_code :: "json \<Rightarrow> string option res" where
  "lookup_code code =
     (if \<not> hashable code then Inl TypeError
      else Inr (case find (\<lambda>e. py_eq code (JInt (fst e))) v4_options of
                  Some e \<Rightarrow> Some (fst (snd e)) | None \<Rightarrow> None))"

text \<open>The code of an entry: its own, or the catalogue's for an entry that has only a name.\<close>

definition entry_code :: "json \<Rightarrow> json res" where
  "entry_code o' =
     (if jget o' ''code'' \<noteq> JNull then Inr (jget o' ''code'')
      else rbind (lookup_name (jget o' ''name'')) (\<lambda>c. Inr (case c of Some c \<Rightarrow> c | None \<Rightarrow> JNull)))"

definition entry_key :: "json \<Rightarrow> (json \<times> json) res" where
  "entry_key o' =
     (if \<not> is_dict o' then Inr (JStr ''dhcp4'', JNull)
      else rbind (entry_code o') (\<lambda>code.
        Inr (py_or (jget o' ''space'') (JStr ''dhcp4''), if code \<noteq> JNull then code else jget o' ''name'')))"

text \<open>The name shown: the entry's or the catalogue's, else the text "code n", else "?".\<close>

datatype shown_name = Named json | CodeText json | NoName

definition display :: "json \<Rightarrow> (json \<times> shown_name) res" where
  "display o' =
     rbind (entry_code o') (\<lambda>code.
     rbind (if jget o' ''name'' = JNull
            then rbind (lookup_code code) (\<lambda>n. Inr (case n of Some n \<Rightarrow> JStr n | None \<Rightarrow> JNull))
            else Inr (jget o' ''name''))
       (\<lambda>name. Inr (code, if truthy name then Named name
                            else if code \<noteq> JNull then CodeText code else NoName)))"

definition opts_of :: "json \<Rightarrow> json list" where
  "opts_of container =
     (case jget container ''option-data'' of JList os \<Rightarrow> filter is_dict os | _ \<Rightarrow> [])"

lemma opts_of_dicts: "x \<in> set (opts_of c) \<Longrightarrow> is_dict x"
  by (auto simp: opts_of_def split: json.splits)

section \<open>Containers of options\<close>

text \<open>
  The \<open>level\<close> / \<open>key\<close> pair of the code as one value; \<open>LevelOther\<close> is any other level name, for which
  the code answers "notfound".
\<close>

datatype level4 =
    LevelGlobal
  | LevelNetwork json
  | LevelSubnet json
  | LevelPool json json
  | LevelClass json
  | LevelOther string

definition find_dict :: "(json \<Rightarrow> bool) \<Rightarrow> json \<Rightarrow> json option res" where
  "find_dict P v = rbind (iter_or_empty v) (\<lambda>xs. Inr (find (\<lambda>x. is_dict x \<and> P x) xs))"

definition named :: "string \<Rightarrow> json \<Rightarrow> json \<Rightarrow> bool" where
  "named field v x = py_eq (jget x field) v"

definition container_for_level :: "json \<Rightarrow> level4 \<Rightarrow> json option res" where
  "container_for_level d4 level =
     (case level of
        LevelGlobal \<Rightarrow> Inr (Some d4)
      | LevelNetwork name \<Rightarrow>
          rbind (py_get d4 ''shared-networks'') (find_dict (named ''name'' name))
      | LevelSubnet sid \<Rightarrow> Inr (map_option fst (subnet4_by_id d4 sid))
      | LevelPool sid pool \<Rightarrow>
          (case subnet4_by_id d4 sid of
             None \<Rightarrow> Inr None
           | Some (s, n) \<Rightarrow> find_dict (named ''pool'' pool) (jget s ''pools''))
      | LevelClass name \<Rightarrow>
          rbind (py_get d4 ''client-classes'') (find_dict (named ''name'' name))
      | LevelOther l \<Rightarrow> Inr None)"

record option_row =
  row_code :: json
  row_name :: shown_name
  row_data :: json
  row_csv :: bool

definition options_at :: "json \<Rightarrow> level4 \<Rightarrow> option_row list res" where
  "options_at d4 level =
     rbind (container_for_level d4 level) (\<lambda>container.
       (case container of
          None \<Rightarrow> Inr []
        | Some c \<Rightarrow>
            collect (\<lambda>o'. rbind (display o') (\<lambda>(code, name).
              Inr \<lparr>row_code = code, row_name = name,
                   row_data = jget_default o' ''data'' (JStr []),
                   row_csv = truthy (jget_default o' ''csv-format'' (JBool True))\<rparr>))
              (opts_of c)))"

section \<open>The options in effect\<close>

datatype source = SrcGlobal | SrcNetwork json | SrcSubnet | SrcPool | SrcClass json | SrcReservation

definition levels_for :: "json \<Rightarrow> json \<Rightarrow> json \<Rightarrow> (source \<times> json list) list res" where
  "levels_for d4 subnet_id pool =
     (case subnet4_by_id d4 subnet_id of
        None \<Rightarrow> Inr []
      | Some (subnet, sn_name) \<Rightarrow>
          rbind (if sn_name \<noteq> JNull
                 then rbind (find_dict (named ''name'' sn_name) (jget d4 ''shared-networks'')) (\<lambda>sn.
                   Inr [(SrcNetwork sn_name, case sn of Some n \<Rightarrow> opts_of n | None \<Rightarrow> [])])
                 else Inr []) (\<lambda>net.
          rbind (if pool \<noteq> JNull
                 then rbind (find_dict (named ''pool'' pool) (jget subnet ''pools'')) (\<lambda>p.
                   Inr [(SrcPool, case p of Some q \<Rightarrow> opts_of q | None \<Rightarrow> [])])
                 else Inr []) (\<lambda>pl.
          Inr ([(SrcGlobal, opts_of d4)] @ net @ [(SrcSubnet, opts_of subnet)] @ pl))))"

record effective_row =
  eff_code :: json
  eff_name :: shown_name
  eff_data :: json
  eff_source :: source
  eff_overridden :: "source list"

text \<open>The dict \<open>winners\<close>: keys are pairs of values compared as Python compares them.\<close>

type_synonym winners = "((json \<times> json) \<times> effective_row) list"

definition key_eq :: "json \<times> json \<Rightarrow> json \<times> json \<Rightarrow> bool" where
  "key_eq a b = (py_eq (fst a) (fst b) \<and> py_eq (snd a) (snd b))"

fun win_get :: "winners \<Rightarrow> json \<times> json \<Rightarrow> effective_row option" where
  "win_get [] k = None"
| "win_get ((l, r) # w) k = (if key_eq l k then Some r else win_get w k)"

fun win_set :: "json \<times> json \<Rightarrow> effective_row \<Rightarrow> winners \<Rightarrow> winners" where
  "win_set k r [] = [(k, r)]"
| "win_set k r ((l, q) # w) = (if key_eq l k then (l, r) # w else (l, q) # win_set k r w)"

definition win_step :: "source \<Rightarrow> json \<Rightarrow> winners \<Rightarrow> winners res" where
  "win_step src o' winners =
     rbind (entry_key o') (\<lambda>k.
     rbind (display o') (\<lambda>(code, name).
       if \<not> (hashable (fst k) \<and> hashable (snd k)) then Inl TypeError
       else Inr (win_set k
         \<lparr>eff_code = code, eff_name = name, eff_data = jget_default o' ''data'' (JStr []),
          eff_source = src,
          eff_overridden = (case win_get winners k of
                              None \<Rightarrow> []
                            | Some prev \<Rightarrow> eff_overridden prev @ [eff_source prev])\<rparr> winners)))"

fun win_entries :: "(source \<times> json) list \<Rightarrow> winners \<Rightarrow> winners res" where
  "win_entries [] w = Inr w"
| "win_entries ((src, o') # os) w = rbind (win_step src o' w) (win_entries os)"

definition flatten_levels :: "(source \<times> json list) list \<Rightarrow> (source \<times> json) list" where
  "flatten_levels levels = concat (map (\<lambda>(src, os). map (Pair src) os) levels)"

text \<open>
  The order of the rows: numbers first by value, then the other keys by their text. A float's text
  is not modelled (no option code is one): it sorts with the empty text.
\<close>

fun key_text :: "json \<Rightarrow> string" where
  "key_text (JStr s) = s"
| "key_text JNull = ''None''"
| "key_text v = []"

fun key_int :: "json \<Rightarrow> int option" where
  "key_int (JInt i) = Some i"
| "key_int (JBool b) = Some (of_bool b)"
| "key_int v = None"

definition row_le :: "(json \<times> json) \<times> effective_row \<Rightarrow> (json \<times> json) \<times> effective_row \<Rightarrow> bool" where
  "row_le a b =
     (case (key_int (snd (fst a)), key_int (snd (fst b))) of
        (Some i, Some j) \<Rightarrow> i \<le> j
      | (Some i, None) \<Rightarrow> True
      | (None, Some j) \<Rightarrow> False
      | (None, None) \<Rightarrow> str_le (key_text (snd (fst a))) (key_text (snd (fst b))))"

definition merge_levels :: "(source \<times> json list) list \<Rightarrow> effective_row list res" where
  "merge_levels levels =
     rbind (win_entries (flatten_levels levels) []) (\<lambda>w. Inr (map snd (sort_by row_le w)))"

definition effective_options :: "json \<Rightarrow> json \<Rightarrow> json \<Rightarrow> effective_row list res" where
  "effective_options d4 subnet_id pool = rbind (levels_for d4 subnet_id pool) merge_levels"

definition count_here_and_inherited :: "json \<Rightarrow> json \<Rightarrow> (nat \<times> nat) res" where
  "count_here_and_inherited d4 subnet_id =
     rbind (effective_options d4 subnet_id JNull) (\<lambda>rows.
       let here = length (filter (\<lambda>r. eff_source r = SrcSubnet) rows)
       in Inr (here, length rows - here))"

end
