(* ===== verification/OptionEdit.thy ===== *)
theory OptionEdit
  imports OptionCatalog SubnetLaws
begin

text \<open>
  \<open>jen/services/kea_config_edit.py\<close>, the option editor: finding the container of a level, finding the
  entry of a code in it, and setting or removing an option. The container the code mutates in place
  is a reference here; the frame lemma says that nothing outside its \<open>option-data\<close> changes.
\<close>

section \<open>The container of a level\<close>

text \<open>\<open>_container_for_level4(cfg, level, key)\<close> as a reference into the configuration.\<close>

definition container_ref :: "json \<Rightarrow> level4 \<Rightarrow> path option res" where
  "container_ref cfg level =
     rbind (py_get cfg ''Dhcp4'') (\<lambda>d4.
       if \<not> is_dict d4 then Inr None
       else
         let under = (\<lambda>r. rbind r (\<lambda>p. Inr (map_option (\<lambda>q. Key ''Dhcp4'' # q) p)));
             subnet = (\<lambda>sid. find (\<lambda>p. has_id sid (value_at d4 p)) (map fst (subnet_refs ''subnet4'' d4)))
         in case level of
              LevelGlobal \<Rightarrow> Inr (Some [Key ''Dhcp4''])
            | LevelNetwork name \<Rightarrow> under (find_ref ''shared-networks'' (named ''name'' name) d4)
            | LevelSubnet sid \<Rightarrow> under (Inr (subnet sid))
            | LevelPool sid pool \<Rightarrow>
                (case subnet sid of
                   None \<Rightarrow> Inr None
                 | Some p \<Rightarrow> rbind (find_ref ''pools'' (named ''pool'' pool) (value_at d4 p)) (\<lambda>q.
                     Inr (map_option (\<lambda>q. Key ''Dhcp4'' # p @ q) q)))
            | LevelClass name \<Rightarrow> under (find_ref ''client-classes'' (named ''name'' name) d4)
            | LevelOther l \<Rightarrow> Inr None)"

text \<open>The two containers-by-level of the code, the reading and the writing one, find the same dict.\<close>

lemma find_ref_Some:
  assumes "find_ref key P c = Inr (Some p)"
  shows "p \<in> set (list_refs key c)" and "P (value_at c p)" and "is_dict c"
  using assms by (auto simp: find_ref_def res_simps py_get_Inr find_Some_iff)

lemma find_ref_dict:
  "find_ref key P c = Inr r \<Longrightarrow> is_dict c \<Longrightarrow> find_dict P (jget c key) = Inr (map_option (value_at c) r)"
proof -
  assume run: "find_ref key P c = Inr r" and d: "is_dict c"
  then obtain xs where xs: "iter_or_empty (jget c key) = Inr xs" and r: "r = find (\<lambda>p. P (value_at c p)) (list_refs key c)"
    by (auto simp: find_ref_def res_simps py_get_Inr)
  have dicts: "filter is_dict xs = map (value_at c) (list_refs key c)"
  proof (cases "jget c key")
    case (JList ys)
    then show ?thesis using xs by (simp add: list_refs_values)
  next
    case (JObj d)
    then show ?thesis using xs by (auto simp: list_refs_values iter_or_empty_def py_or_def split: if_splits)
  next
    case (JStr s)
    then show ?thesis using xs by (auto simp: list_refs_values iter_or_empty_def py_or_def split: if_splits)
  qed (use xs in \<open>auto simp: list_refs_values iter_or_empty_def py_or_def split: if_splits\<close>)
  have "find (\<lambda>x. is_dict x \<and> P x) ys = find P (filter is_dict ys)" for ys by (induction ys) auto
  moreover have "find P (map f ps) = map_option f (find (\<lambda>p. P (f p)) ps)" for f :: "path \<Rightarrow> json" and ps
    by (induction ps) auto
  ultimately show ?thesis by (simp add: find_dict_def xs r dicts)
qed

lemma find_map: "find P (map f xs) = map_option f (find (\<lambda>x. P (f x)) xs)"
  by (induction xs) auto

lemma subnet_by_id_ref:
  "subnet4_by_id d4 sid = map_option (ref_entry d4) (find (\<lambda>r. has_id sid (value_at d4 (fst r))) (subnet_refs ''subnet4'' d4))"
  by (simp add: subnet4_by_id_def iter_subnet4_def iter_subnets_refs find_map ref_entry_def has_id_def split_beta)

lemma find_subnet_ref:
  "find (\<lambda>p. has_id sid (value_at d4 p)) (map fst (subnet_refs ''subnet4'' d4)) =
     map_option fst (find (\<lambda>r. has_id sid (value_at d4 (fst r))) (subnet_refs ''subnet4'' d4))"
  by (rule find_map)

lemma json_at_under: "is_dict d4 \<Longrightarrow> jget cfg k = d4 \<Longrightarrow> json_at (Key k # p) cfg = json_at p d4"
  using jget_notNull_has [of cfg k] by (cases d4) (auto simp: json_at_Key_Cons)

lemma container_ref_value:
  assumes run: "container_ref cfg level = Inr (Some p)"
  obtains c where "json_at p cfg = Some c" and "is_dict c" and "p \<noteq> []"
    and "container_for_level (jget cfg ''Dhcp4'') level = Inr (Some c)"
proof -
  let ?d = "jget cfg ''Dhcp4''"
  have d: "is_dict ?d" using run by (auto simp: container_ref_def res_simps py_get_Inr split: if_splits)
  have ref: "\<exists>c. json_at q ?d = Some c \<and> is_dict c \<and> find_dict P (jget ?d key) = Inr (Some c)"
    if "find_ref key P ?d = Inr (Some q)" for key P q
    using find_ref_Some(1) [OF that] find_ref_dict [OF that d] by (auto elim!: list_refs_member simp: value_at_Some)
  have sub: "\<exists>c. json_at q ?d = Some c \<and> is_dict c \<and> (\<exists>n. subnet4_by_id ?d sid = Some (c, n))"
    if "find (\<lambda>p. has_id sid (value_at ?d p)) (map fst (subnet_refs ''subnet4'' ?d)) = Some q" for sid q
  proof -
    have "map_option fst (find (\<lambda>r. has_id sid (value_at ?d (fst r))) (subnet_refs ''subnet4'' ?d)) = Some q"
      using that by (simp only: find_subnet_ref)
    then obtain e where e: "find (\<lambda>r. has_id sid (value_at ?d (fst r))) (subnet_refs ''subnet4'' ?d) = Some e" "fst e = q"
      by (auto simp only: map_option_eq_Some)
    then obtain n where f: "find (\<lambda>r. has_id sid (value_at ?d (fst r))) (subnet_refs ''subnet4'' ?d) = Some (q, n)"
      by (cases e) simp
    then have "(q, n) \<in> set (subnet_refs ''subnet4'' ?d)" by (auto simp: find_Some_iff)
    then obtain w where "json_at q ?d = Some w" "is_dict w" by (rule subnet_refs_at)
    then show ?thesis using f by (simp add: subnet_by_id_ref ref_entry_def value_at_Some)
  qed
  have "\<exists>c. json_at p cfg = Some c \<and> is_dict c \<and> p \<noteq> [] \<and> container_for_level ?d level = Inr (Some c)"
  proof (cases level)
    case LevelGlobal
    then show ?thesis
      using run d by (auto simp: container_ref_def res_simps py_get_Inr container_for_level_def json_at_under [OF d refl])
  next
    case (LevelNetwork name)
    then obtain q where "p = Key ''Dhcp4'' # q" "find_ref ''shared-networks'' (named ''name'' name) ?d = Inr (Some q)"
      using run d by (auto simp: container_ref_def res_simps py_get_Inr)
    then show ?thesis
      using ref d LevelNetwork by (fastforce simp: json_at_under [OF d refl] container_for_level_def py_get_def)
  next
    case (LevelSubnet sid)
    then obtain q where "p = Key ''Dhcp4'' # q" "find (\<lambda>p. has_id sid (value_at ?d p)) (map fst (subnet_refs ''subnet4'' ?d)) = Some q"
      using run d by (auto simp: container_ref_def res_simps py_get_Inr)
    then show ?thesis
      using sub LevelSubnet by (fastforce simp: json_at_under [OF d refl] container_for_level_def)
  next
    case (LevelPool sid pool)
    then obtain s q where p: "p = Key ''Dhcp4'' # s @ q"
        and s: "find (\<lambda>p. has_id sid (value_at ?d p)) (map fst (subnet_refs ''subnet4'' ?d)) = Some s"
        and q: "find_ref ''pools'' (named ''pool'' pool) (value_at ?d s) = Inr (Some q)"
      using run d by (auto simp: container_ref_def res_simps py_get_Inr split: option.splits)
    obtain c n where c: "json_at s ?d = Some c" "is_dict c" "subnet4_by_id ?d sid = Some (c, n)" using sub [OF s] by blast
    have q': "find_ref ''pools'' (named ''pool'' pool) c = Inr (Some q)" using q c(1) by (simp add: value_at_Some)
    obtain x where x: "json_at q c = Some x" "is_dict x"
      using find_ref_Some(1) [OF q'] by (auto elim: list_refs_member)
    have "find_dict (named ''pool'' pool) (jget c ''pools'') = Inr (Some x)"
      using find_ref_dict [OF q' c(2)] x by (simp add: value_at_Some)
    then show ?thesis
      using c x by (auto simp: p LevelPool json_at_under [OF d refl] json_at_append container_for_level_def)
  next
    case (LevelClass name)
    then obtain q where "p = Key ''Dhcp4'' # q" "find_ref ''client-classes'' (named ''name'' name) ?d = Inr (Some q)"
      using run d by (auto simp: container_ref_def res_simps py_get_Inr)
    then show ?thesis
      using ref d LevelClass by (fastforce simp: json_at_under [OF d refl] container_for_level_def py_get_def)
  next
    case (LevelOther l)
    then show ?thesis using run d by (auto simp: container_ref_def res_simps py_get_Inr)
  qed
  with that show ?thesis by blast
qed

section \<open>Setting and removing an option\<close>

text \<open>The first loop of \<open>_match_option_index\<close>: the first dict whose code, read through the catalogue, is \<open>code\<close>.\<close>

fun match_code :: "int \<Rightarrow> nat \<Rightarrow> json list \<Rightarrow> nat option res" where
  "match_code code i [] = Inr None"
| "match_code code i (o' # os) =
     (if \<not> is_dict o' then match_code code (Suc i) os
      else rbind (entry_code o') (\<lambda>c.
        if py_eq c (JInt code) then Inr (Some i) else match_code code (Suc i) os))"

definition match_option_index :: "json list \<Rightarrow> int \<Rightarrow> string option \<Rightarrow> nat option res" where
  "match_option_index opts code name =
     rbind (match_code code 0 opts) (\<lambda>r.
       case r of
         Some i \<Rightarrow> Inr (Some i)
       | None \<Rightarrow>
           (case name of
              None \<Rightarrow> Inr None
            | Some n \<Rightarrow> Inr (find_index (\<lambda>o'. is_dict o' \<and> py_eq (jget o' ''name'') (JStr n)) opts)))"

fun at_subnet :: "level4 \<Rightarrow> bool" where
  "at_subnet (LevelSubnet sid) = True"
| "at_subnet l = False"

definition new_entry :: "int \<Rightarrow> string \<Rightarrow> string \<Rightarrow> bool \<Rightarrow> json" where
  "new_entry code name data csv =
     JObj [(''name'', JStr name), (''code'', JInt code), (''space'', JStr ''dhcp4''),
           (''csv-format'', JBool csv), (''data'', JStr data)]"

definition set_option4 :: "json \<Rightarrow> level4 \<Rightarrow> int \<Rightarrow> string \<Rightarrow> string \<Rightarrow> bool \<Rightarrow> edit" where
  "set_option4 cfg level code name data csv =
     (if at_subnet level \<and> code \<in> set managed_at_subnet then Inr (cfg, Managed)
      else rbind (container_ref cfg level) (\<lambda>r.
        case r of
          None \<Rightarrow> Inr (cfg, NotFound)
        | Some p \<Rightarrow>
            let c = value_at cfg p in
            rbind (appendable (jget_default c ''option-data'' (JList []))) (\<lambda>opts.
            rbind (match_option_index opts code (Some name)) (\<lambda>idx.
              let opts' = (case idx of Some i \<Rightarrow> opts[i := new_entry code name data csv]
                                     | None \<Rightarrow> opts @ [new_entry code name data csv])
              in Inr (json_put p (jset ''option-data'' (JList opts') c) cfg, Ok)))))"

definition remove_option4 :: "json \<Rightarrow> level4 \<Rightarrow> int \<Rightarrow> edit" where
  "remove_option4 cfg level code =
     (if at_subnet level \<and> code \<in> set managed_at_subnet then Inr (cfg, Managed)
      else rbind (container_ref cfg level) (\<lambda>r.
        case r of
          None \<Rightarrow> Inr (cfg, NotFound)
        | Some p \<Rightarrow>
            let c = value_at cfg p in
            (case jget c ''option-data'' of
               JList opts \<Rightarrow>
                 rbind (match_option_index opts code None) (\<lambda>idx.
                   case idx of
                     None \<Rightarrow> Inr (cfg, NotFound)
                   | Some i \<Rightarrow> Inr (json_put p (jset ''option-data'' (JList (remove_nth i opts)) c) cfg, Ok))
             | _ \<Rightarrow> Inr (cfg, NotFound))))"

section \<open>What they do\<close>

lemma match_code_shift: "match_code code (Suc i) os = rbind (match_code code i os) (\<lambda>r. Inr (map_option Suc r))"
proof (induction os arbitrary: i)
  case Nil
  then show ?case by simp
next
  case (Cons a os)
  then show ?case by (cases "entry_code a") simp_all
qed

definition has_code :: "int \<Rightarrow> json \<Rightarrow> bool" where
  "has_code code o' = (is_dict o' \<and> (case entry_code o' of Inr c \<Rightarrow> py_eq c (JInt code) | Inl _ \<Rightarrow> False))"

definition code_readable :: "json \<Rightarrow> bool" where
  "code_readable o' = (is_dict o' \<longrightarrow> (\<exists>c. entry_code o' = Inr c))"

text \<open>The loop is the search for the first entry with the code, if the entries before it can be read.\<close>

lemma match_code_Some:
  "match_code code 0 opts = Inr (Some i) \<longleftrightarrow>
     find_index (has_code code) opts = Some i \<and> (\<forall>j < i. code_readable (opts ! j))"
proof (induction opts arbitrary: i)
  case Nil
  then show ?case by simp
next
  case (Cons a opts)
  show ?case
  proof (cases "has_code code a")
    case True
    then show ?thesis by (auto simp: has_code_def split: sum.splits)
  next
    case False
    show ?thesis
    proof (cases "code_readable a")
      case True
      have "match_code code 0 (a # opts) = rbind (match_code code 0 opts) (\<lambda>r. Inr (map_option Suc r))"
        using False True match_code_shift [of code 0 opts]
        by (auto simp: has_code_def code_readable_def simp del: match_code.simps(1) split: sum.splits)
      then show ?thesis
        using False True Cons.IH by (auto simp: res_simps nth_Cons simp del: match_code.simps split: nat.splits)
    next
      case unread: False
      then have "\<not> (\<exists>i. match_code code 0 (a # opts) = Inr (Some i))"
        by (cases "entry_code a") (auto simp: code_readable_def)
      then show ?thesis using unread False by (auto split: option.splits)
    qed
  qed
qed

lemma match_code_None:
  "match_code code 0 opts = Inr None \<longleftrightarrow> list_all code_readable opts \<and> \<not> list_ex (has_code code) opts"
proof (induction opts)
  case Nil
  then show ?case by simp
next
  case (Cons a opts)
  show ?case
    using Cons.IH match_code_shift [of code 0 opts]
    by (cases "entry_code a") (auto simp: res_simps has_code_def code_readable_def)
qed

lemma new_entry_code [simp]:
  "has_code code (new_entry code name data csv)" "code_readable (new_entry code name data csv)"
  by (simp_all add: has_code_def code_readable_def entry_code_def new_entry_def jget_def)

text \<open>Where the new entry goes: at the matched index, or at the end.\<close>

definition place_entry :: "nat option \<Rightarrow> json \<Rightarrow> json list \<Rightarrow> json list" where
  "place_entry idx e opts = (case idx of Some i \<Rightarrow> opts[i := e] | None \<Rightarrow> opts @ [e])"

lemma match_option_index_found:
  assumes "match_option_index opts code name = Inr (Some i)"
  shows "i < length opts" and "is_dict (opts ! i)" and "\<forall>j < i. code_readable (opts ! j)"
    and "\<forall>j < i. \<not> has_code code (opts ! j)"
proof -
  have *: "i < length opts \<and> is_dict (opts ! i) \<and> (\<forall>j < i. code_readable (opts ! j) \<and> \<not> has_code code (opts ! j))"
  proof (cases "match_code code 0 opts")
    case (Inr r)
    show ?thesis
    proof (cases r)
      case None
      then have "list_all code_readable opts" "\<not> list_ex (has_code code) opts"
        using Inr match_code_None by auto
      moreover obtain n where "find_index (\<lambda>o'. is_dict o' \<and> py_eq (jget o' ''name'') (JStr n)) opts = Some i"
        using assms Inr None by (auto simp: match_option_index_def split: option.splits)
      ultimately show ?thesis by (auto simp: find_index_Some list_all_length list_ex_length)
    next
      case (Some k)
      then have "match_code code 0 opts = Inr (Some i)" using assms Inr by (simp add: match_option_index_def)
      then show ?thesis by (auto simp: match_code_Some find_index_Some has_code_def)
    qed
  qed (use assms in \<open>simp add: match_option_index_def\<close>)
  then show "i < length opts" "is_dict (opts ! i)" "\<forall>j < i. code_readable (opts ! j)"
      "\<forall>j < i. \<not> has_code code (opts ! j)" by blast+
qed

lemma match_after_place:
  assumes "match_option_index opts code (Some name) = Inr idx"
  shows "match_option_index (place_entry idx (new_entry code name data csv) opts) code None =
    Inr (Some (case idx of Some i \<Rightarrow> i | None \<Rightarrow> length opts))"
proof (cases idx)
  case None
  then have "list_all code_readable opts" "\<not> list_ex (has_code code) opts"
    using assms by (auto simp: match_option_index_def res_simps match_code_None split: option.splits)
  then have "match_code code 0 (opts @ [new_entry code name data csv]) = Inr (Some (length opts))"
    by (auto simp: match_code_Some find_index_append list_all_length list_ex_iff find_index_None [THEN iffD2] nth_append)
  then show ?thesis using None by (simp add: place_entry_def match_option_index_def)
next
  case (Some i)
  note m = match_option_index_found [OF assms [unfolded Some]]
  then have "match_code code 0 (opts[i := new_entry code name data csv]) = Inr (Some i)"
    by (auto simp: match_code_Some find_index_Some)
  then show ?thesis using Some by (simp add: place_entry_def match_option_index_def)
qed

lemma set_option4_run:
  assumes run: "set_option4 cfg level code name data csv = Inr (cfg', Ok)"
  obtains p c opts idx where "container_ref cfg level = Inr (Some p)" and "json_at p cfg = Some c" and "is_dict c"
    and "jget_default c ''option-data'' (JList []) = JList opts"
    and "match_option_index opts code (Some name) = Inr idx"
    and "cfg' = json_put p (jset ''option-data'' (JList (place_entry idx (new_entry code name data csv) opts)) c) cfg"
proof -
  obtain p where p: "container_ref cfg level = Inr (Some p)"
    using run by (auto simp: set_option4_def res_simps split: if_splits option.splits)
  then obtain c where c: "json_at p cfg = Some c" "is_dict c" by (rule container_ref_value)
  obtain opts idx where "jget_default c ''option-data'' (JList []) = JList opts"
      "match_option_index opts code (Some name) = Inr idx"
      "cfg' = json_put p (jset ''option-data'' (JList (place_entry idx (new_entry code name data csv) opts)) c) cfg"
    using run p c
    by (auto simp: set_option4_def res_simps Let_def value_at_Some appendable_Inr place_entry_def split: if_splits)
  with p c show ?thesis by (rule that)
qed

section \<open>Properties\<close>

text \<open>
  C2. Setting an option writes exactly one entry: with the outcome \<open>ok\<close> the level's container exists and
  its \<open>option-data\<close> is the old list with the new entry put at the index of the entry that has the code
  (or, failing that, the name), or appended; the entry carries the given name, code and value; looking
  the code up again finds that entry; and nothing outside that \<open>option-data\<close> changes.
\<close>

theorem set_option4_effect:
  assumes "set_option4 cfg level code name data csv = Inr (cfg', Ok)"
  shows "\<exists>p c opts idx. container_ref cfg level = Inr (Some p) \<and> json_at p cfg = Some c \<and>
    jget_default c ''option-data'' (JList []) = JList opts \<and>
    match_option_index opts code (Some name) = Inr idx \<and>
    json_at p cfg' = Some (jset ''option-data'' (JList (place_entry idx (new_entry code name data csv) opts)) c) \<and>
    match_option_index (place_entry idx (new_entry code name data csv) opts) code None =
      Inr (Some (case idx of Some i \<Rightarrow> i | None \<Rightarrow> length opts)) \<and>
    (\<forall>q. disjoint_paths p q \<longrightarrow> json_at q cfg' = json_at q cfg) \<and>
    (\<forall>k. k \<noteq> ''option-data'' \<longrightarrow> json_at (p @ [Key k]) cfg' = json_at (p @ [Key k]) cfg)"
  using assms
proof (rule set_option4_run)
  fix p c opts idx
  assume p: "container_ref cfg level = Inr (Some p)" and c: "json_at p cfg = Some c" "is_dict c"
    and o: "jget_default c ''option-data'' (JList []) = JList opts" "match_option_index opts code (Some name) = Inr idx"
    and cfg': "cfg' = json_put p (jset ''option-data'' (JList (place_entry idx (new_entry code name data csv) opts)) c) cfg"
  have at: "json_at p cfg' = Some (jset ''option-data'' (JList (place_entry idx (new_entry code name data csv) opts)) c)"
    using c(1) by (simp add: cfg' json_get_put)
  have "json_at (p @ [Key k]) cfg' = json_at (p @ [Key k]) cfg" if "k \<noteq> ''option-data''" for k
    using that c by (simp add: json_at_append at json_at_Key)
  then show ?thesis
    using p c o at match_after_place [OF o(2)] json_get_put_disj
    by (intro exI [of _ p] exI [of _ c] exI [of _ opts] exI [of _ idx]) (simp add: cfg')
qed

lemma set_option4_effect_witness:
  "json_at [Key ''Dhcp4''] (JObj [(''Dhcp4'', JObj [(''option-data'', JList [new_entry 42 ''ntp-servers'' ''10.0.0.1'' True])])]) =
     Some (jset ''option-data'' (JList [new_entry 42 ''ntp-servers'' ''10.0.0.1'' True]) (JObj []))"
proof -
  have run: "set_option4 (JObj [(''Dhcp4'', JObj [])]) LevelGlobal 42 ''ntp-servers'' ''10.0.0.1'' True =
      Inr (JObj [(''Dhcp4'', JObj [(''option-data'', JList [new_entry 42 ''ntp-servers'' ''10.0.0.1'' True])])], Ok)"
    by code_simp
  have p: "container_ref (JObj [(''Dhcp4'', JObj [])]) LevelGlobal = Inr (Some [Key ''Dhcp4''])"
    and c: "json_at [Key ''Dhcp4''] (JObj [(''Dhcp4'', JObj [])]) = Some (JObj [])"
    and d: "jget_default (JObj []) ''option-data'' (JList []) = JList []"
    and m: "match_option_index [] 42 (Some ''ntp-servers'') = Inr None" by code_simp+
  show ?thesis using set_option4_effect [OF run] by (simp add: p c d m place_entry_def)
qed

text \<open>
  The two owners of an option never collide: the option editor refuses, without a change, to set
  or remove routers (3) or name servers (6) on a subnet, which belong to the subnet form, and a
  removal that answers \<open>ok\<close> took out exactly one entry, the one with the code, and changed nothing else.
\<close>

theorem remove_option4_effect:
  assumes "remove_option4 cfg level code = Inr (cfg', out)"
  shows "case out of
      Managed \<Rightarrow> cfg' = cfg \<and> at_subnet level \<and> code \<in> {3, 6}
    | NotFound \<Rightarrow> cfg' = cfg
    | Ok \<Rightarrow> \<not> (at_subnet level \<and> code \<in> {3, 6}) \<and> (\<exists>p c opts i. container_ref cfg level = Inr (Some p) \<and>
        json_at p cfg = Some c \<and> jget c ''option-data'' = JList opts \<and> find_index (has_code code) opts = Some i \<and>
        json_at p cfg' = Some (jset ''option-data'' (JList (remove_nth i opts)) c) \<and>
        (\<forall>q. disjoint_paths p q \<longrightarrow> json_at q cfg' = json_at q cfg))
    | _ \<Rightarrow> False"
proof (cases "at_subnet level \<and> code \<in> set managed_at_subnet")
  case True
  then show ?thesis using assms by (auto simp: remove_option4_def managed_at_subnet_def)
next
  case False
  then obtain r where r: "container_ref cfg level = Inr r"
    using assms by (auto simp: remove_option4_def res_simps)
  show ?thesis
  proof (cases r)
    case None
    then have "out = NotFound" "cfg' = cfg" using assms False r by (auto simp: remove_option4_def)
    then show ?thesis by simp
  next
    case (Some p)
    then obtain c where c: "json_at p cfg = Some c" "is_dict c" using r by (auto elim: container_ref_value)
    show ?thesis
    proof (cases "jget c ''option-data''")
      case (JList opts)
      obtain idx where idx: "match_option_index opts code None = Inr idx"
        using assms False r Some c JList by (auto simp: remove_option4_def value_at_Some res_simps)
      show ?thesis
      proof (cases idx)
        case None
        then have "out = NotFound" "cfg' = cfg"
          using assms False r Some c JList idx by (auto simp: remove_option4_def value_at_Some)
        then show ?thesis by simp
      next
        case i: (Some i)
        then have "out = Ok" and cfg': "cfg' = json_put p (jset ''option-data'' (JList (remove_nth i opts)) c) cfg"
          using assms False r Some c JList idx by (auto simp: remove_option4_def value_at_Some)
        moreover have "find_index (has_code code) opts = Some i"
          using idx i by (auto simp: match_option_index_def res_simps match_code_Some split: option.splits)
        moreover have "json_at p cfg' = Some (jset ''option-data'' (JList (remove_nth i opts)) c)"
          using c(1) by (simp add: cfg' json_get_put)
        ultimately show ?thesis
          using False r Some c JList json_get_put_disj by (auto simp: managed_at_subnet_def)
      qed
    qed (use assms False r Some c in \<open>auto simp: remove_option4_def value_at_Some\<close>)
  qed
qed

lemma remove_option4_effect_witness:
  "\<exists>c opts i. jget c ''option-data'' = JList opts \<and> find_index (has_code 42) opts = Some i \<and>
     json_at [Key ''Dhcp4''] (JObj [(''Dhcp4'', JObj [(''option-data'', JList [])])]) =
       Some (jset ''option-data'' (JList (remove_nth i opts)) c)"
proof -
  have run: "remove_option4 (JObj [(''Dhcp4'', JObj [(''option-data'', JList [JObj [(''name'', JStr ''ntp-servers'')]])])])
      LevelGlobal 42 = Inr (JObj [(''Dhcp4'', JObj [(''option-data'', JList [])])], Ok)" by code_simp
  have p: "container_ref (JObj [(''Dhcp4'', JObj [(''option-data'', JList [JObj [(''name'', JStr ''ntp-servers'')]])])])
      LevelGlobal = Inr (Some [Key ''Dhcp4''])" by code_simp
  show ?thesis using remove_option4_effect [OF run] by (auto simp: p)
qed

end
