(* ===== verification/KeaClasses.thy ===== *)
theory KeaClasses
  imports ConfigView PyStr
begin

text \<open>
  \<open>jen/services/kea_classes.py\<close>: built-in class names, the two spellings of the attachment keys,
  what refers to a class, the guided rule builder and the assembly of a class from the edit form.
\<close>

section \<open>Built-in classes\<close>

definition is_builtin :: "string \<Rightarrow> bool" where
  "is_builtin name =
     (name \<in> set [''ALL'', ''KNOWN'', ''UNKNOWN'', ''DROP'', ''BOOTP''] \<or>
      list_ex (\<lambda>p. has_prefix p name) [''VENDOR_CLASS_'', ''HA_'', ''AFTER_'', ''SPAWN_''])"

section \<open>The attachment keys\<close>

definition new_guard :: string where "new_guard = ''client-classes''"
definition old_guard :: string where "old_guard = ''client-class''"
definition new_additional :: string where "new_additional = ''evaluate-additional-classes''"
definition old_additional :: string where "old_additional = ''require-client-classes''"
definition new_only :: string where "new_only = ''only-in-additional-list''"
definition old_only :: string where "old_only = ''only-if-required''"

lemmas key_defs = new_guard_def old_guard_def new_additional_def old_additional_def new_only_def old_only_def

definition has_any :: "json list \<Rightarrow> string list \<Rightarrow> bool" where
  "has_any containers keys = list_ex (\<lambda>c. is_dict c \<and> list_ex (jhas c) keys) containers"

text \<open>\<open>[p for p in (s.get("pools") or []) if isinstance(p, dict)]\<close>.\<close>

definition dicts_of :: "json \<Rightarrow> json list res" where
  "dicts_of v = rbind (iter_or_empty v) (\<lambda>xs. Inr (filter is_dict xs))"

definition scope_containers :: "json \<Rightarrow> json list res" where
  "scope_containers d4 =
     rbind (collect (\<lambda>(s, n). rbind (dicts_of (jget s ''pools'')) (\<lambda>ps. Inr (s # ps))) (iter_subnet4 d4)) (\<lambda>xss.
       Inr (concat xss @ shared_networks4_raw d4))"

record attach_keys =
  k_guard :: string
  k_additional :: string
  k_only :: string

definition version_new :: "(nat \<times> nat \<times> nat) option \<Rightarrow> bool" where
  "version_new version =
     (case version of None \<Rightarrow> False
      | Some (x, y, z) \<Rightarrow> 2 < x \<or> (x = 2 \<and> (7 < y \<or> (y = 7 \<and> 4 \<le> z))))"

definition attachment_keys :: "json \<Rightarrow> (nat \<times> nat \<times> nat) option \<Rightarrow> attach_keys res" where
  "attachment_keys d4 version =
     rbind (scope_containers d4) (\<lambda>containers.
     rbind (py_get d4 ''client-classes'') (\<lambda>cc.
     rbind (dicts_of cc) (\<lambda>classes.
       let new_seen = (has_any containers [new_guard, new_additional] \<or> has_any classes [new_only]);
           old_seen = (has_any containers [old_guard, old_additional] \<or> has_any classes [old_only]);
           use_new = (if new_seen \<and> \<not> old_seen then True
                      else if old_seen \<and> \<not> new_seen then False
                      else if old_seen \<and> new_seen then True
                      else version_new version)
       in Inr (if use_new
               then \<lparr>k_guard = new_guard, k_additional = new_additional, k_only = new_only\<rparr>
               else \<lparr>k_guard = old_guard, k_additional = old_additional, k_only = old_only\<rparr>))))"

definition strings_of :: "json list \<Rightarrow> string list" where
  "strings_of xs = List.map_filter (\<lambda>x. case x of JStr s \<Rightarrow> Some s | _ \<Rightarrow> None) xs"

definition guard_classes :: "json \<Rightarrow> string list" where
  "guard_classes c =
     (case jget c new_guard of
        JList xs \<Rightarrow> strings_of xs
      | _ \<Rightarrow> (case jget c old_guard of JStr s \<Rightarrow> [s] | _ \<Rightarrow> []))"

definition additional_classes :: "json \<Rightarrow> string list" where
  "additional_classes c =
     (case jget c new_additional of
        JList xs \<Rightarrow> strings_of xs
      | _ \<Rightarrow> (case jget c old_additional of JList xs \<Rightarrow> strings_of xs | _ \<Rightarrow> []))"

definition attached_as_additional :: "json \<Rightarrow> string \<Rightarrow> bool res" where
  "attached_as_additional d4 name =
     rbind (scope_containers d4) (\<lambda>cs. Inr (list_ex (\<lambda>c. name \<in> set (additional_classes c)) cs))"

section \<open>References to a class\<close>

text \<open>The labels of the code, by what they name; a pool's label carries its subnet's id.\<close>

datatype class_ref = RefSubnet json | RefPool json json | RefNetwork json | RefMember json

definition attached :: "string \<Rightarrow> json \<Rightarrow> bool" where
  "attached name c = (name \<in> set (guard_classes c) \<or> name \<in> set (additional_classes c))"

text \<open>\<open>needle in test\<close>: a substring of a string, an item of a list, a key of a dict.\<close>

definition py_in :: "string \<Rightarrow> json \<Rightarrow> bool res" where
  "py_in needle v =
     (case v of
        JStr s \<Rightarrow> Inr (contains needle s)
      | JList xs \<Rightarrow> Inr (list_ex (\<lambda>x. py_eq x (JStr needle)) xs)
      | JObj d \<Rightarrow> Inr (needle \<in> set (map fst d))
      | _ \<Rightarrow> Inl TypeError)"

definition member_call :: "char \<Rightarrow> string \<Rightarrow> string" where
  "member_call q name = ''member('' @ [q] @ name @ [q] @ '')''"

definition double_quote :: char where
  "double_quote = char_of (34 :: nat)"

definition single_quote :: char where
  "single_quote = char_of (39 :: nat)"

definition refs_of_subnet :: "string \<Rightarrow> json \<Rightarrow> class_ref list res" where
  "refs_of_subnet name s =
     rbind (dicts_of (jget s ''pools'')) (\<lambda>ps.
       Inr ((if attached name s then [RefSubnet (jget s ''id'')] else []) @
            map (\<lambda>p. RefPool (jget p ''pool'') (jget s ''id'')) (filter (attached name) ps)))"

definition member_ref :: "string \<Rightarrow> json \<Rightarrow> class_ref list res" where
  "member_ref name c =
     (if \<not> is_dict c \<or> py_eq (jget c ''name'') (JStr name) then Inr []
      else
        let test = py_or (jget c ''test'') (JStr [])
        in rbind (py_in (member_call single_quote name) test) (\<lambda>a.
           rbind (if a then Inr True else py_in (member_call double_quote name) test) (\<lambda>b.
             Inr (if b then [RefMember (jget c ''name'')] else []))))"

definition references :: "json \<Rightarrow> string \<Rightarrow> class_ref list res" where
  "references d4 name =
     rbind (collect (\<lambda>(s, n). refs_of_subnet name s) (iter_subnet4 d4)) (\<lambda>subs.
     rbind (py_get d4 ''client-classes'') (\<lambda>cc.
     rbind (iter_or_empty cc) (\<lambda>classes.
     rbind (collect (member_ref name) classes) (\<lambda>members.
       Inr (concat subs @
            map (\<lambda>sn. RefNetwork (jget sn ''name'')) (filter (attached name) (shared_networks4_raw d4)) @
            concat members)))))"

section \<open>The rule builder\<close>

datatype kind = KString | KUserClassLp | KMac | KOui | KHex | KMember

text \<open>\<open>FIELDS\<close>: the accessor, the kind and whether \<open>starts_with\<close> is offered besides \<open>equals\<close>.\<close>

definition rule_fields :: "(string \<times> (string \<times> kind \<times> string list)) list" where
  "rule_fields = [
    (''vendor_class'', ''option[60].hex'', KString, [''equals'', ''starts_with'']),
    (''user_class'', ''option[77].hex'', KString, [''equals'', ''starts_with'']),
    (''user_class_lp'', ''option[77].hex'', KUserClassLp, [''equals'', ''starts_with'']),
    (''hostname'', ''option[12].text'', KString, [''equals'', ''starts_with'']),
    (''mac'', ''pkt4.mac'', KMac, [''equals'']),
    (''mac_oui'', ''substring(pkt4.mac,0,3)'', KOui, [''equals'']),
    (''client_id'', ''option[61].hex'', KHex, [''equals'']),
    (''circuit_id'', ''relay4[1].hex'', KString, [''equals'']),
    (''remote_id'', ''relay4[2].hex'', KHex, [''equals'']),
    (''member'', [], KMember, [''equals''])]"

text \<open>\<open>re.sub(r"[:\-\s]", "", value)\<close>.\<close>

definition drop_seps :: "string \<Rightarrow> string" where
  "drop_seps s = filter (\<lambda>c. c \<noteq> CHR '':'' \<and> c \<noteq> CHR ''-'' \<and> \<not> is_space c) s"

definition hexify :: "string \<Rightarrow> nat option \<Rightarrow> string res" where
  "hexify value exact_bytes =
     (let body = drop_seps value in
      if body = [] \<or> \<not> list_all is_hex body \<or> odd (length body) then Inl ValueError
      else if (case exact_bytes of None \<Rightarrow> False | Some n \<Rightarrow> length body \<noteq> n * 2) then Inl ValueError
      else Inr (''0x'' @ lower body))"

definition stringify :: "string \<Rightarrow> (string \<times> string) res" where
  "stringify raw =
     (let value = strip raw in
      if value = [] then Inl ValueError
      else if single_quote \<in> set value then Inl ValueError
      else Inr (value, [single_quote] @ value @ [single_quote]))"

record rule =
  r_field :: string
  r_op :: string
  r_value :: string

definition eq_expr :: "string \<Rightarrow> string \<Rightarrow> string" where
  "eq_expr left lit = left @ '' == '' @ lit"

definition substring_expr :: "string \<Rightarrow> nat \<Rightarrow> nat \<Rightarrow> string" where
  "substring_expr acc start n = ''substring('' @ acc @ '','' @ show_nat start @ '','' @ show_nat n @ '')''"

definition rule_expression :: "rule \<Rightarrow> string res" where
  "rule_expression r =
     (case map_of rule_fields (r_field r) of
        None \<Rightarrow> Inl ValueError
      | Some (kea, kind, ops) \<Rightarrow>
          if r_op r \<notin> set ops then Inl ValueError
          else
            (case kind of
               KMember \<Rightarrow> rbind (stringify (r_value r)) (\<lambda>(v, lit). Inr (member_call single_quote v))
             | KString \<Rightarrow> rbind (stringify (r_value r)) (\<lambda>(v, lit).
                 if r_op r = ''starts_with'' then Inr (eq_expr (substring_expr kea 0 (py_len v)) lit)
                 else Inr (eq_expr kea lit))
             | KUserClassLp \<Rightarrow> rbind (stringify (r_value r)) (\<lambda>(v, lit).
                 if 255 < length v then Inl ValueError
                 else if r_op r = ''starts_with'' then Inr (eq_expr (substring_expr kea 1 (length v)) lit)
                 else Inr (eq_expr kea (''0x'' @ to_hex (char_of (length v) # v))))
             | KMac \<Rightarrow> rbind (hexify (r_value r) (Some 6)) (\<lambda>h. Inr (eq_expr kea h))
             | KOui \<Rightarrow> rbind (hexify (r_value r) (Some 3)) (\<lambda>h. Inr (eq_expr kea h))
             | KHex \<Rightarrow> rbind (hexify (r_value r) None) (\<lambda>h. Inr (eq_expr kea h))))"

definition parens :: "string \<Rightarrow> string" where
  "parens c = ''('' @ c @ '')''"

definition build_expression :: "rule list \<Rightarrow> string \<Rightarrow> bool \<Rightarrow> string res" where
  "build_expression rules combinator negate =
     (if combinator \<noteq> ''all'' \<and> combinator \<noteq> ''any'' then Inl ValueError
      else if rules = [] then Inl ValueError
      else rbind (collect rule_expression rules) (\<lambda>clauses.
        let body = (if length clauses = 1 then hd clauses
                    else join_with (if combinator = ''all'' then '' and '' else '' or '') (map parens clauses))
        in Inr (if negate then ''not '' @ parens body else body)))"

section \<open>Assembling a class\<close>

definition set_or_drop :: "string \<Rightarrow> json \<Rightarrow> json \<Rightarrow> json" where
  "set_or_drop k v c = (if truthy v then jset k v c else jdel k c)"

record class_form =
  f_name :: json
  f_test :: json
  f_context :: json
  f_next_server :: json
  f_server_hostname :: json
  f_boot_file :: json
  f_only_key :: string
  f_only_additional :: bool

definition merge_class_fields :: "json \<Rightarrow> class_form \<Rightarrow> json" where
  "merge_class_fields existing f =
     (let c = (if is_dict existing then existing else JObj []);
          c = jset ''test'' (f_test f) (jset ''name'' (f_name f) c);
          c = (if f_context f \<noteq> JNull then jset ''user-context'' (f_context f) c else jdel ''user-context'' c);
          c = set_or_drop ''next-server'' (f_next_server f) c;
          c = set_or_drop ''server-hostname'' (f_server_hostname f) c;
          c = set_or_drop ''boot-file-name'' (f_boot_file f) c
      in if f_only_key f = [] then c
         else
           let c = jdel old_only (jdel new_only c)
           in if f_only_additional f then jset (f_only_key f) (JBool True) c else c)"

end
