(* ===== verification/ClassEdit.thy ===== *)
theory ClassEdit
  imports OptionEdit KeaClasses
begin

text \<open>
  \<open>jen/services/kea_config_edit.py\<close>, client classes and DDNS naming: inserting, deleting, reordering
  and attaching classes, and writing the DDNS knobs.
\<close>

section \<open>Client classes\<close>

definition class_named :: "json \<Rightarrow> json \<Rightarrow> bool" where
  "class_named name c = (is_dict c \<and> py_eq (jget c ''name'') name)"

text \<open>\<open>_find_class(classes, name)\<close>; a string or a dict in the place of the list has no dict items.\<close>

definition find_class :: "json list \<Rightarrow> json \<Rightarrow> nat option" where
  "find_class classes name = find_index (class_named name) classes"

text \<open>
  \<open>_classes_of(cfg)\<close>: the list, in the configuration that has it; the code then enumerates it, and
  only a list can be changed.
\<close>

definition classes_of :: "json \<Rightarrow> (json \<times> json list) res" where
  "classes_of cfg =
     rbind (ensure_dhcp4 cfg) (\<lambda>cfg.
       let d4 = jget cfg ''Dhcp4'' in
       if \<not> is_dict d4 then Inl AttributeError
       else
         let d4 = jsetdefault ''client-classes'' (JList []) d4
         in rbind (appendable (jget d4 ''client-classes'')) (\<lambda>xs. Inr (jset ''Dhcp4'' d4 cfg, xs)))"

definition put_classes :: "json list \<Rightarrow> json \<Rightarrow> json" where
  "put_classes xs cfg = jset ''Dhcp4'' (jset ''client-classes'' (JList xs) (jget cfg ''Dhcp4'')) cfg"

definition upsert_class4 :: "json \<Rightarrow> json \<Rightarrow> int option \<Rightarrow> edit" where
  "upsert_class4 cfg class_dict position =
     rbind (classes_of cfg) (\<lambda>(cfg, classes).
     rbind (py_get class_dict ''name'') (\<lambda>name.
       let classes' =
         (case find_class classes name of
            Some i \<Rightarrow> classes[i := class_dict]
          | None \<Rightarrow>
              (case position of
                 Some p \<Rightarrow> (if 0 \<le> p \<and> p \<le> int (length classes) then insert_nth (nat p) class_dict classes
                            else classes @ [class_dict])
               | None \<Rightarrow> classes @ [class_dict]))
       in Inr (put_classes classes' cfg, Ok)))"

text \<open>The list of the classes where it is one: \<open>d4.get("client-classes") if isinstance(d4, dict) else None\<close>.\<close>

definition class_list :: "json \<Rightarrow> json list option res" where
  "class_list cfg =
     rbind (py_get cfg ''Dhcp4'') (\<lambda>d4.
       Inr (case jget d4 ''client-classes'' of JList xs \<Rightarrow> Some xs | _ \<Rightarrow> None))"

definition delete_class4 :: "json \<Rightarrow> string \<Rightarrow> edit" where
  "delete_class4 cfg name =
     (if is_builtin name then Inr (cfg, Builtin)
      else rbind (class_list cfg) (\<lambda>r.
        case r of
          None \<Rightarrow> Inr (cfg, NotFound)
        | Some classes \<Rightarrow>
            (case find_class classes (JStr name) of
               None \<Rightarrow> Inr (cfg, NotFound)
             | Some i \<Rightarrow>
                 rbind (references (jget cfg ''Dhcp4'') name) (\<lambda>refs.
                   if refs \<noteq> [] then Inr (cfg, Referenced)
                   else Inr (put_classes (remove_nth i classes) cfg, Ok)))))"

definition swap_nth :: "nat \<Rightarrow> nat \<Rightarrow> 'a list \<Rightarrow> 'a list" where
  "swap_nth i j xs = xs[i := xs ! j, j := xs ! i]"

definition reorder_class4 :: "json \<Rightarrow> string \<Rightarrow> string \<Rightarrow> edit" where
  "reorder_class4 cfg name direction =
     rbind (class_list cfg) (\<lambda>r.
       case r of
         None \<Rightarrow> Inr (cfg, NotFound)
       | Some classes \<Rightarrow>
           (case find_class classes (JStr name) of
              None \<Rightarrow> Inr (cfg, NotFound)
            | Some i \<Rightarrow>
                let new_i = (if direction = ''up'' then int i - 1 else int i + 1)
                in if new_i < 0 \<or> int (length classes) \<le> new_i then Inr (cfg, Boundary)
                   else Inr (put_classes (swap_nth i (nat new_i) classes) cfg, Ok)))"

section \<open>Attaching a class\<close>

text \<open>\<open>[c for c in (container.get(key) or []) if isinstance(c, str)]\<close>.\<close>

definition string_items :: "json \<Rightarrow> string list res" where
  "string_items v = rbind (iter_or_empty v) (\<lambda>xs. Inr (strings_of xs))"

definition attach_list :: "string \<Rightarrow> string \<Rightarrow> bool \<Rightarrow> json \<Rightarrow> json res" where
  "attach_list key name attach c =
     rbind (string_items (jget c key)) (\<lambda>lst.
       let lst' = (if attach then (if name \<in> set lst then lst else lst @ [name])
                   else filter (\<lambda>x. x \<noteq> name) lst)
       in Inr (if lst' \<noteq> [] then jset key (JList (map JStr lst')) c else jdel key c))"

definition attach_single :: "string \<Rightarrow> string \<Rightarrow> bool \<Rightarrow> json \<Rightarrow> json" where
  "attach_single key name attach c =
     (if attach then jset key (JStr name) c
      else if py_eq (jget c key) (JStr name) then jdel key c
      else c)"

definition attach_to :: "attach_keys \<Rightarrow> string \<Rightarrow> string \<Rightarrow> bool \<Rightarrow> json \<Rightarrow> json res" where
  "attach_to keys name mode attach c =
     (if mode = ''guard'' then
        (if k_guard keys = new_guard then attach_list (k_guard keys) name attach c
         else Inr (attach_single (k_guard keys) name attach c))
      else attach_list (k_additional keys) name attach c)"

definition attach_class4 ::
  "json \<Rightarrow> string \<Rightarrow> level4 \<Rightarrow> string \<Rightarrow> bool \<Rightarrow> (nat \<times> nat \<times> nat) option \<Rightarrow> edit" where
  "attach_class4 cfg name level mode attach version =
     rbind (py_get cfg ''Dhcp4'') (\<lambda>d4.
       if \<not> is_dict d4 then Inr (cfg, NotFound)
       else rbind (container_ref cfg level) (\<lambda>r.
         case r of
           None \<Rightarrow> Inr (cfg, NotFound)
         | Some p \<Rightarrow>
             rbind (attachment_keys d4 version) (\<lambda>keys.
             rbind (attach_to keys name mode attach (value_at cfg p)) (\<lambda>c.
               Inr (json_put p c cfg, Ok)))))"

section \<open>DDNS naming\<close>

definition ddns_block_keys :: "string list" where
  "ddns_block_keys = [''enable-updates'', ''server-ip'', ''server-port'', ''ncr-protocol'', ''ncr-format'']"

definition ddns_naming_keys :: "string list" where
  "ddns_naming_keys = [''ddns-send-updates'', ''ddns-override-no-update'', ''ddns-override-client-update'',
     ''ddns-replace-client-name'', ''ddns-generated-prefix'', ''ddns-qualifying-suffix'', ''ddns-update-on-renew'',
     ''ddns-conflict-resolution-mode'', ''hostname-char-set'', ''hostname-char-replacement'']"

text \<open>\<open>d.update(values)\<close> and the loop of assignments, over the items the filter keeps.\<close>

definition set_all :: "pydict \<Rightarrow> json \<Rightarrow> json" where
  "set_all items v = foldl (\<lambda>v (k, x). jset k x v) v items"

text \<open>
  The naming keys are a Python set: the code assigns them in an order the language does not fix, so a
  new key's position in the block is not determined; the model takes the order of the list.
\<close>

definition set_ddns4 :: "json \<Rightarrow> pydict \<Rightarrow> edit" where
  "set_ddns4 cfg values =
     rbind (ensure_dhcp4 cfg) (\<lambda>cfg.
       let d4 = jget cfg ''Dhcp4'';
           block = filter (\<lambda>(k, x). k \<in> set ddns_block_keys) values;
           naming = List.map_filter (\<lambda>k. map_option (\<lambda>x. (k, x)) (map_of values k)) ddns_naming_keys
       in if \<not> is_dict d4 \<and> (block \<noteq> [] \<or> naming \<noteq> [])
          then Inl (if block \<noteq> [] then AttributeError else TypeError)
          else
            let d4 = (if block = [] then d4 else jsetdefault ''dhcp-ddns'' (JObj []) d4)
            in if block \<noteq> [] \<and> \<not> is_dict (jget d4 ''dhcp-ddns'') then Inl AttributeError
               else
                 let d4 = (if block = [] then d4
                           else jset ''dhcp-ddns'' (set_all block (jget d4 ''dhcp-ddns'')) d4)
                 in Inr (jset ''Dhcp4'' (set_all naming d4) cfg, Ok))"

section \<open>What the class operations do\<close>

lemma strings_of_JStr [simp]: "strings_of (map JStr l) = l"
  by (induction l) (simp_all add: strings_of_def map_filter_simps)

lemma class_list_Some:
  "class_list cfg = Inr (Some xs) \<longleftrightarrow> is_dict cfg \<and> jget (jget cfg ''Dhcp4'') ''client-classes'' = JList xs"
  by (auto simp: class_list_def res_simps py_get_Inr split: json.splits)

lemma class_list_dict:
  "jget (jget cfg ''Dhcp4'') ''client-classes'' = JList xs \<Longrightarrow> is_dict cfg \<and> is_dict (jget cfg ''Dhcp4'')"
proof -
  assume xs: "jget (jget cfg ''Dhcp4'') ''client-classes'' = JList xs"
  then have d: "is_dict (jget cfg ''Dhcp4'')" using jget_notNull_dict [of "jget cfg ''Dhcp4''" "''client-classes''"] by simp
  then have "jget cfg ''Dhcp4'' \<noteq> JNull" by auto
  then show ?thesis using d jget_notNull_dict by blast
qed

lemma put_classes_list:
  assumes "jget (jget cfg ''Dhcp4'') ''client-classes'' = JList xs"
  shows "class_list (put_classes ys cfg) = Inr (Some ys)"
    and "put_classes zs (put_classes ys cfg) = put_classes zs cfg"
    and "put_classes xs cfg = cfg"
    and "jget (put_classes ys cfg) ''Dhcp4'' = jset ''client-classes'' (JList ys) (jget cfg ''Dhcp4'')"
proof -
  have d: "is_dict (jget cfg ''Dhcp4'')" "is_dict cfg"
    using class_list_dict [OF assms] by simp_all
  then have "jget cfg ''Dhcp4'' \<noteq> JNull" by auto
  then have h: "jhas cfg ''Dhcp4''" "jhas (jget cfg ''Dhcp4'') ''client-classes''"
    using assms jget_not_has [of cfg "''Dhcp4''"] jget_not_has [of "jget cfg ''Dhcp4''" "''client-classes''"] by auto
  show "class_list (put_classes ys cfg) = Inr (Some ys)"
    and "put_classes zs (put_classes ys cfg) = put_classes zs cfg"
    and "jget (put_classes ys cfg) ''Dhcp4'' = jset ''client-classes'' (JList ys) (jget cfg ''Dhcp4'')"
    using d by (simp_all add: class_list_Some put_classes_def)
  show "put_classes xs cfg = cfg"
    using h assms by (simp add: put_classes_def jset_eq_self)
qed

lemma find_class_SomeD:
  "find_class xs n = Some i \<Longrightarrow> i < length xs \<and> class_named n (xs ! i) \<and> (\<forall>j < i. \<not> class_named n (xs ! j))"
  by (simp add: find_class_def find_index_Some)

lemma swap_nth_back: "i < length xs \<Longrightarrow> j < length xs \<Longrightarrow> swap_nth j i (swap_nth i j xs) = xs"
  by (cases "i = j") (simp_all add: swap_nth_def list_update_swap)

lemma mset_swap_nth: "i < length xs \<Longrightarrow> j < length xs \<Longrightarrow> mset (swap_nth i j xs) = mset xs"
  by (simp add: swap_nth_def mset_swap)

lemma reorder_run:
  assumes "reorder_class4 cfg name direction = Inr (cfg', Ok)"
  obtains xs i j where "jget (jget cfg ''Dhcp4'') ''client-classes'' = JList xs" and "find_class xs (JStr name) = Some i"
    and "i < length xs" and "j < length xs" and "j = (if direction = ''up'' then i - 1 else i + 1)"
    and "direction = ''up'' \<longrightarrow> 0 < i" and "cfg' = put_classes (swap_nth i j xs) cfg"
proof -
  obtain xs i where xs: "class_list cfg = Inr (Some xs)" "find_class xs (JStr name) = Some i"
    using assms by (auto simp: reorder_class4_def res_simps split: option.splits)
  then have i: "i < length xs" using find_class_SomeD by blast
  let ?n = "if direction = ''up'' then int i - 1 else int i + 1"
  have b: "0 \<le> ?n" "?n < int (length xs)" "cfg' = put_classes (swap_nth i (nat ?n) xs) cfg"
    using assms xs by (auto simp: reorder_class4_def Let_def split: if_splits)
  show ?thesis
    by (rule that [of xs i "nat ?n"]) (use xs i b in \<open>auto simp: class_list_Some nat_diff_distrib' split: if_splits\<close>)
qed

section \<open>Deleting keeps the references closed\<close>

lemma iter_subnet4_put_classes:
  "is_dict d4 \<Longrightarrow> iter_subnet4 (jset ''client-classes'' v d4) = iter_subnet4 d4"
  "is_dict d4 \<Longrightarrow> shared_networks4_raw (jset ''client-classes'' v d4) = shared_networks4_raw d4"
  by (simp_all add: iter_subnet4_def shared_networks4_raw_def iter_subnets_def subnets_of_def shared_networks_def)

lemma collect_remove_nth:
  assumes "collect f xs = Inr ys" and "i < length xs"
  shows "collect f (remove_nth i xs) = Inr (remove_nth i ys)"
  using assms
  by (auto simp: collect_eq_Inr remove_nth_def list_all2_appendI list_all2_takeI list_all2_dropI)

definition class_refs_none :: "json \<Rightarrow> string \<Rightarrow> bool" where
  "class_refs_none d4 name = (references d4 name = Inr [])"

lemma references_remove:
  assumes "references d4 name = Inr []" and "jget d4 ''client-classes'' = JList xs" and "i < length xs"
  shows "references (jset ''client-classes'' (JList (remove_nth i xs)) d4) name = Inr []"
proof -
  have d: "is_dict d4" using assms(2) jget_notNull_dict [of d4 "''client-classes''"] by simp
  obtain subs members where s: "collect (\<lambda>(s, n). refs_of_subnet name s) (iter_subnet4 d4) = Inr subs"
      and m: "collect (member_ref name) xs = Inr members"
      and e: "concat subs = []" "filter (attached name) (shared_networks4_raw d4) = []" "concat members = []"
    using assms(1,2) d by (auto simp: references_def res_simps py_get_def)
  have "concat (remove_nth i members) = []" using e(3) set_remove_nth [of i members] by auto
  then show ?thesis
    using d s e collect_remove_nth [OF m assms(3)]
    by (simp add: references_def py_get_def iter_subnet4_put_classes)
qed

section \<open>Properties\<close>

text \<open>
  Moving a class up and then down again gives back the very same configuration; a move never
  adds, loses or changes a class, it swaps the class with its neighbour in the evaluation order.
\<close>

theorem reorder_class4_inverse:
  assumes "reorder_class4 cfg name ''up'' = Inr (cfg', Ok)"
  shows "reorder_class4 cfg' name ''down'' = Inr (cfg, Ok) \<and>
    (\<exists>xs ys. class_list cfg = Inr (Some xs) \<and> class_list cfg' = Inr (Some ys) \<and> mset ys = mset xs)"
  using assms
proof (rule reorder_run)
  fix xs i j
  assume xs: "jget (jget cfg ''Dhcp4'') ''client-classes'' = JList xs" and f: "find_class xs (JStr name) = Some i"
    and i: "i < length xs" "j < length xs" "j = (if ''up'' = ''up'' then i - 1 else i + 1)" "''up'' = ''up'' \<longrightarrow> 0 < i"
    and cfg': "cfg' = put_classes (swap_nth i j xs) cfg"
  have j: "j = i - 1" "0 < i" "i = Suc j" using i by auto
  note p = put_classes_list [OF xs]
  have f': "find_class (swap_nth i j xs) (JStr name) = Some j"
    using find_class_SomeD [OF f] i(1,2) j(3) by (auto simp: find_class_def find_index_Some swap_nth_def nth_list_update)
  have "reorder_class4 cfg' name ''down'' = Inr (put_classes (swap_nth j i (swap_nth i j xs)) cfg', Ok)"
    using f' i(1) j(3) by (simp add: reorder_class4_def cfg' p(1) swap_nth_def nat_add_distrib)
  moreover have "put_classes (swap_nth j i (swap_nth i j xs)) cfg' = cfg"
    using i(1,2) by (simp add: cfg' p(2,3) swap_nth_back)
  moreover have "class_list cfg = Inr (Some xs)"
    using xs class_list_dict [OF xs] by (simp add: class_list_Some)
  ultimately show ?thesis using i(1,2) by (auto simp: cfg' p(1) mset_swap_nth)
qed

definition demo_classes :: "string list \<Rightarrow> json" where
  "demo_classes names = JObj [(''Dhcp4'', JObj [(''client-classes'', JList (map (\<lambda>n. JObj [(''name'', JStr n)]) names))])]"

lemma reorder_class4_inverse_witness:
  "reorder_class4 (demo_classes [''b'', ''a'']) ''b'' ''down'' = Inr (demo_classes [''a'', ''b''], Ok)"
proof -
  have "reorder_class4 (demo_classes [''a'', ''b'']) ''b'' ''up'' = Inr (demo_classes [''b'', ''a''], Ok)" by code_simp
  from reorder_class4_inverse [OF this] show ?thesis by simp
qed

text \<open>
  C3. Deleting a class is safe: with the outcome \<open>ok\<close> the class is not built in and nothing referred
  to it before; exactly one class, the first of that name, is gone; nothing refers to the name
  afterwards either; and every other outcome leaves the configuration unchanged.
\<close>

theorem delete_class4_safe:
  assumes "delete_class4 cfg name = Inr (cfg', out)"
  shows "(out \<noteq> Ok \<longrightarrow> cfg' = cfg) \<and>
    (out = Ok \<longrightarrow> \<not> is_builtin name \<and> references (jget cfg ''Dhcp4'') name = Inr [] \<and>
      references (jget cfg' ''Dhcp4'') name = Inr [] \<and>
      (\<exists>xs i. class_list cfg = Inr (Some xs) \<and> find_class xs (JStr name) = Some i \<and>
         class_list cfg' = Inr (Some (remove_nth i xs))))"
proof (cases "is_builtin name")
  case True
  then show ?thesis using assms by (auto simp: delete_class4_def)
next
  case False
  then obtain r where r: "class_list cfg = Inr r" using assms by (auto simp: delete_class4_def res_simps)
  show ?thesis
  proof (cases r)
    case None
    then show ?thesis using assms False r by (auto simp: delete_class4_def)
  next
    case (Some xs)
    show ?thesis
    proof (cases "find_class xs (JStr name)")
      case None
      then show ?thesis using assms False r Some by (auto simp: delete_class4_def)
    next
      case i: (Some i)
      obtain refs where refs: "references (jget cfg ''Dhcp4'') name = Inr refs"
        using assms False r Some i by (auto simp: delete_class4_def res_simps)
      have xs: "jget (jget cfg ''Dhcp4'') ''client-classes'' = JList xs" using r Some by (simp add: class_list_Some)
      show ?thesis
      proof (cases "refs = []")
        case True
        then have o: "out = Ok" "cfg' = put_classes (remove_nth i xs) cfg"
          using assms False r Some i refs by (auto simp: delete_class4_def)
        have "references (jget cfg' ''Dhcp4'') name = Inr []"
          using references_remove [OF _ xs] refs True find_class_SomeD [OF i]
          by (simp add: o put_classes_list(4) [OF xs])
        then show ?thesis using o refs True False r Some i put_classes_list(1) [OF xs] by auto
      next
        case False
        then show ?thesis using assms \<open>\<not> is_builtin name\<close> r Some i refs by (auto simp: delete_class4_def)
      qed
    qed
  qed
qed

lemma delete_class4_safe_witness:
  "references (jget (demo_classes [''b'']) ''Dhcp4'') ''a'' = Inr []"
proof -
  have "delete_class4 (demo_classes [''a'', ''b'']) ''a'' = Inr (demo_classes [''b''], Ok)" by code_simp
  from delete_class4_safe [OF this] show ?thesis by simp
qed

text \<open>The effect of an attachment on its container.\<close>

definition other_guard :: "attach_keys \<Rightarrow> string" where
  "other_guard keys = (if k_guard keys = new_guard then old_guard else new_guard)"

definition other_additional :: "attach_keys \<Rightarrow> string" where
  "other_additional keys = (if k_additional keys = new_additional then old_additional else new_additional)"

definition one_spelling :: "attach_keys \<Rightarrow> bool" where
  "one_spelling keys =
     ((k_guard keys = new_guard \<and> k_additional keys = new_additional) \<or>
      (k_guard keys = old_guard \<and> k_additional keys = old_additional))"

lemma attachment_keys_spelling: "attachment_keys d4 version = Inr keys \<Longrightarrow> one_spelling keys"
  by (auto simp: attachment_keys_def res_simps Let_def one_spelling_def split: if_splits)

lemma attach_list_effect:
  assumes "attach_list key name attach c = Inr c'" and d: "is_dict c"
  obtains lst where "string_items (jget c key) = Inr lst" and "is_dict c'" and "\<And>k. k \<noteq> key \<Longrightarrow> jget c' k = jget c k"
    and "jget c' key = (let l = (if attach then (if name \<in> set lst then lst else lst @ [name])
           else filter (\<lambda>x. x \<noteq> name) lst) in if l = [] then JNull else JList (map JStr l))"
proof -
  obtain lst where l: "string_items (jget c key) = Inr lst"
    using assms(1) by (auto simp: attach_list_def res_simps)
  show ?thesis
    by (rule that [OF l]) (use assms l in \<open>auto simp: attach_list_def Let_def split: if_splits\<close>)
qed

lemma attach_to_effect:
  assumes run: "attach_to keys name mode attach c = Inr c'" and d: "is_dict c" and sp: "one_spelling keys"
  shows "mode = ''guard'' \<Longrightarrow> \<not> jhas c (other_guard keys) \<Longrightarrow> name \<in> set (guard_classes c') \<longleftrightarrow> attach"
    and "mode \<noteq> ''guard'' \<Longrightarrow> \<not> jhas c (other_additional keys) \<Longrightarrow> name \<in> set (additional_classes c') \<longleftrightarrow> attach"
proof -
  have ne: "new_guard \<noteq> old_guard" "new_additional \<noteq> old_additional" by (simp_all add: key_defs)
  assume m: "mode = ''guard''" and o: "\<not> jhas c (other_guard keys)"
  show "name \<in> set (guard_classes c') \<longleftrightarrow> attach"
  proof (cases "k_guard keys = new_guard")
    case True
    then have "attach_list new_guard name attach c = Inr c'" using run m by (simp add: attach_to_def)
    then show ?thesis using d
    proof (rule attach_list_effect)
      fix lst
      assume "\<And>k. k \<noteq> new_guard \<Longrightarrow> jget c' k = jget c k"
        and v: "jget c' new_guard = (let l = (if attach then (if name \<in> set lst then lst else lst @ [name])
           else filter (\<lambda>x. x \<noteq> name) lst) in if l = [] then JNull else JList (map JStr l))"
      then have "jget c' old_guard = JNull"
        using ne o True jget_not_has [of c old_guard] by (simp add: other_guard_def)
      then show ?thesis using v by (auto simp: guard_classes_def Let_def split: if_splits)
    qed
  next
    case False
    then have k: "k_guard keys = old_guard" "jget c new_guard = JNull"
      using sp o jget_not_has [of c new_guard] by (auto simp: one_spelling_def other_guard_def)
    then have "c' = attach_single old_guard name attach c" using run m False by (simp add: attach_to_def)
    then show ?thesis
      using k(2) d ne by (auto simp: attach_single_def guard_classes_def split: json.splits if_splits)
  qed
next
  have ne: "new_additional \<noteq> old_additional" by (simp add: key_defs)
  assume m: "mode \<noteq> ''guard''" and o: "\<not> jhas c (other_additional keys)"
  have "attach_list (k_additional keys) name attach c = Inr c'" using run m by (simp add: attach_to_def)
  then show "name \<in> set (additional_classes c') \<longleftrightarrow> attach" using d
  proof (rule attach_list_effect)
    fix lst
    assume k: "\<And>k. k \<noteq> k_additional keys \<Longrightarrow> jget c' k = jget c k"
      and v: "jget c' (k_additional keys) = (let l = (if attach then (if name \<in> set lst then lst else lst @ [name])
         else filter (\<lambda>x. x \<noteq> name) lst) in if l = [] then JNull else JList (map JStr l))"
    have "jget c' (other_additional keys) = JNull"
      using k [of "other_additional keys"] o ne jget_not_has [of c "other_additional keys"]
      by (auto simp: other_additional_def split: if_splits)
    then show ?thesis
      using v sp ne by (auto simp: additional_classes_def one_spelling_def other_additional_def Let_def split: if_splits)
  qed
qed

text \<open>
  Attaching and detaching do what they say on a scope that uses one spelling of the keys: with
  the outcome \<open>ok\<close>, the class is among the scope's guards (or additional classes), as any reader of
  the configuration sees them, exactly if it was to be attached; and nothing outside the scope changes.
\<close>

theorem attach_class4_effect:
  assumes "attach_class4 cfg name level mode attach version = Inr (cfg', Ok)"
  shows "\<exists>p c c' keys. container_ref cfg level = Inr (Some p) \<and> json_at p cfg = Some c \<and> json_at p cfg' = Some c' \<and>
    attachment_keys (jget cfg ''Dhcp4'') version = Inr keys \<and>
    (\<forall>q. disjoint_paths p q \<longrightarrow> json_at q cfg' = json_at q cfg) \<and>
    (mode = ''guard'' \<and> \<not> jhas c (other_guard keys) \<longrightarrow> (name \<in> set (guard_classes c') \<longleftrightarrow> attach)) \<and>
    (mode \<noteq> ''guard'' \<and> \<not> jhas c (other_additional keys) \<longrightarrow> (name \<in> set (additional_classes c') \<longleftrightarrow> attach))"
proof -
  obtain p where p: "container_ref cfg level = Inr (Some p)"
    using assms by (auto simp: attach_class4_def res_simps split: if_splits option.splits)
  then obtain c where c: "json_at p cfg = Some c" "is_dict c" by (rule container_ref_value)
  obtain keys c' where k: "attachment_keys (jget cfg ''Dhcp4'') version = Inr keys"
      and c': "attach_to keys name mode attach c = Inr c'" "cfg' = json_put p c' cfg"
    using assms p c by (auto simp: attach_class4_def res_simps py_get_Inr value_at_Some split: if_splits)
  have "json_at p cfg' = Some c'" using c(1) by (simp add: c'(2) json_get_put)
  moreover have "\<forall>q. disjoint_paths p q \<longrightarrow> json_at q cfg' = json_at q cfg" by (simp add: c'(2) json_get_put_disj)
  ultimately show ?thesis
    using p c(1) k attach_to_effect [OF c'(1) c(2) attachment_keys_spelling [OF k]] by blast
qed

definition demo_guarded :: "json list \<Rightarrow> json" where
  "demo_guarded subnets = JObj [(''Dhcp4'', JObj [(''subnet4'', JList subnets)])]"

lemma attach_class4_effect_witness:
  "\<exists>c'. json_at [Key ''Dhcp4'', Key ''subnet4'', Idx 0]
      (demo_guarded [JObj [(''id'', JInt 1), (''client-classes'', JList [JStr ''voip''])]]) = Some c' \<and>
    ''voip'' \<in> set (guard_classes c')"
proof -
  have run: "attach_class4 (demo_guarded [JObj [(''id'', JInt 1)]]) ''voip'' (LevelSubnet (JInt 1)) ''guard'' True (Some (3, 0, 0)) =
      Inr (demo_guarded [JObj [(''id'', JInt 1), (''client-classes'', JList [JStr ''voip''])]], Ok)" by code_simp
  have p: "container_ref (demo_guarded [JObj [(''id'', JInt 1)]]) (LevelSubnet (JInt 1)) =
      Inr (Some [Key ''Dhcp4'', Key ''subnet4'', Idx 0])" by code_simp
  have c: "json_at [Key ''Dhcp4'', Key ''subnet4'', Idx 0] (demo_guarded [JObj [(''id'', JInt 1)]]) = Some (JObj [(''id'', JInt 1)])"
    by code_simp
  have k: "attachment_keys (jget (demo_guarded [JObj [(''id'', JInt 1)]]) ''Dhcp4'') (Some (3, 0, 0)) =
      Inr \<lparr>k_guard = new_guard, k_additional = new_additional, k_only = new_only\<rparr>" by code_simp
  show ?thesis
    using attach_class4_effect [OF run] by (auto simp: p c k other_guard_def key_defs jhas_def)
qed

text \<open>
  On a configuration that mixes both spellings that is not so: detaching a guard from a subnet
  that carries it under the old key answers \<open>ok\<close> and changes nothing when the new key is in use
  anywhere else, so the class stays attached.
\<close>

theorem detach_mixed_spelling_noop:
  "\<exists>cfg. attach_class4 cfg ''voip'' (LevelSubnet (JInt 1)) ''guard'' False None = Inr (cfg, Ok) \<and>
     (\<exists>s n. subnet4_by_id (jget cfg ''Dhcp4'') (JInt 1) = Some (s, n) \<and> ''voip'' \<in> set (guard_classes s))"
proof -
  let ?old = "JObj [(''id'', JInt 1), (''client-class'', JStr ''voip'')]"
  let ?new = "JObj [(''id'', JInt 2), (''client-classes'', JList [JStr ''lab''])]"
  have "attach_class4 (demo_guarded [?old, ?new]) ''voip'' (LevelSubnet (JInt 1)) ''guard'' False None =
      Inr (demo_guarded [?old, ?new], Ok)" by code_simp
  moreover have "subnet4_by_id (jget (demo_guarded [?old, ?new]) ''Dhcp4'') (JInt 1) = Some (?old, JNull)" by code_simp
  moreover have "''voip'' \<in> set (guard_classes ?old)" by code_simp
  ultimately show ?thesis by blast
qed

end
