(* ===== verification/ClassExpr.thy ===== *)
theory ClassExpr
  imports KeaClasses
begin

text \<open>
  \<open>jen/services/dhcp_explain.py\<close>, the expression half: the tokenizer, the recursive-descent parser
  and the three-valued evaluator of the class expressions the rule builder emits.

  A text is its UTF-8 bytes; the regular expression's \<open>\s\<close> and \<open>\d\<close> are modelled on ASCII (a
  non-ASCII blank or digit outside a quoted string is "unrecognized syntax" here). The loops and the
  recursion of the parser run on fuel; \<open>parse_expression\<close> gives the parser more fuel than it can use
  (\<open>parse_fuel_enough\<close>), so \<open>OutOfFuel\<close> is never a result.
\<close>

section \<open>Tokens\<close>

datatype token =
    TLpar | TRpar | TComma | TEq
  | TStr string   \<comment> \<open>without its quotes\<close>
  | THex string   \<comment> \<open>the digits after \<open>0x\<close>\<close>
  | TNum string
  | TAcc string
  | TKw string

text \<open>The accessors of the grammar, in three shapes: \<open>option[n].hex|text\<close>, \<open>pkt4.mac\<close>, \<open>relay4[d].hex\<close>.\<close>

definition digits_of :: "string \<Rightarrow> string" where
  "digits_of s = takeWhile is_digit s"

definition strip_prefix :: "string \<Rightarrow> string \<Rightarrow> string option" where
  "strip_prefix p s = (if has_prefix p s then Some (drop (length p) s) else None)"

definition match_option_acc :: "string \<Rightarrow> (string \<times> string) option" where
  "match_option_acc s =
     (case strip_prefix ''option['' s of
        None \<Rightarrow> None
      | Some r \<Rightarrow>
          let d = digits_of r; r' = drop (length d) r
          in if d = [] then None
             else (case strip_prefix ''].hex'' r' of
                     Some r'' \<Rightarrow> Some (''option['' @ d @ ''].hex'', r'')
                   | None \<Rightarrow> (case strip_prefix ''].text'' r' of
                       Some r'' \<Rightarrow> Some (''option['' @ d @ ''].text'', r'')
                     | None \<Rightarrow> None)))"

definition match_relay_acc :: "string \<Rightarrow> (string \<times> string) option" where
  "match_relay_acc s =
     (case strip_prefix ''relay4['' s of
        Some (d # r) \<Rightarrow>
          (if is_digit d then
             (case strip_prefix ''].hex'' r of
                Some r' \<Rightarrow> Some (''relay4['' @ [d] @ ''].hex'', r')
              | None \<Rightarrow> None)
           else None)
      | _ \<Rightarrow> None)"

definition match_acc :: "string \<Rightarrow> (token \<times> string) option" where
  "match_acc s =
     (case match_option_acc s of
        Some (a, r) \<Rightarrow> Some (TAcc a, r)
      | None \<Rightarrow>
          (case strip_prefix ''pkt4.mac'' s of
             Some r \<Rightarrow> Some (TAcc ''pkt4.mac'', r)
           | None \<Rightarrow> (case match_relay_acc s of
               Some (a, r) \<Rightarrow> Some (TAcc a, r)
             | None \<Rightarrow> None)))"

fun match_kw :: "string list \<Rightarrow> string \<Rightarrow> (token \<times> string) option" where
  "match_kw [] s = None"
| "match_kw (k # ks) s = (case strip_prefix k s of Some r \<Rightarrow> Some (TKw k, r) | None \<Rightarrow> match_kw ks s)"

definition kw_list :: "string list" where
  "kw_list = [''and'', ''or'', ''not'', ''member'', ''substring'']"

definition match_str :: "string \<Rightarrow> (token \<times> string) option" where
  "match_str s =
     (case s of
        [] \<Rightarrow> None
      | c # r \<Rightarrow>
          if c = single_quote \<and> single_quote \<in> set r
          then Some (TStr (takeWhile (\<lambda>c. c \<noteq> single_quote) r), tl (dropWhile (\<lambda>c. c \<noteq> single_quote) r))
          else None)"

definition match_hex :: "string \<Rightarrow> (token \<times> string) option" where
  "match_hex s =
     (case strip_prefix ''0x'' s of
        None \<Rightarrow> None
      | Some r \<Rightarrow> (let h = takeWhile is_hex r in if h = [] then None else Some (THex h, drop (length h) r)))"

definition match_num :: "string \<Rightarrow> (token \<times> string) option" where
  "match_num s = (let d = digits_of s in if d = [] then None else Some (TNum d, drop (length d) s))"

text \<open>One match of \<open>_TOKEN_RE\<close> after its leading blanks: the alternatives in their order.\<close>

definition next_token :: "string \<Rightarrow> (token \<times> string) option" where
  "next_token s =
     (case strip_prefix ''('' s of Some r \<Rightarrow> Some (TLpar, r) | None \<Rightarrow>
     (case strip_prefix '')'' s of Some r \<Rightarrow> Some (TRpar, r) | None \<Rightarrow>
     (case strip_prefix '','' s of Some r \<Rightarrow> Some (TComma, r) | None \<Rightarrow>
     (case strip_prefix ''=='' s of Some r \<Rightarrow> Some (TEq, r) | None \<Rightarrow>
     (case match_str s of Some t \<Rightarrow> Some t | None \<Rightarrow>
     (case match_hex s of Some t \<Rightarrow> Some t | None \<Rightarrow>
     (case match_num s of Some t \<Rightarrow> Some t | None \<Rightarrow>
     (case match_acc s of Some t \<Rightarrow> Some t | None \<Rightarrow>
      match_kw kw_list s))))))))"

lemma strip_prefix_Some: "strip_prefix p s = Some r \<longleftrightarrow> s = p @ r"
  by (auto simp: strip_prefix_def has_prefix_iff)

lemma strip_prefix_append [simp]: "strip_prefix p (p @ r) = Some r"
  by (simp add: strip_prefix_Some)

lemma strip_prefix_length: "strip_prefix p s = Some r \<Longrightarrow> length s = length p + length r"
  by (auto simp: strip_prefix_Some)

lemma match_kw_shorter: "match_kw ks s = Some (t, r) \<Longrightarrow> [] \<notin> set ks \<Longrightarrow> length r < length s"
  by (induction ks) (auto simp: strip_prefix_Some split: option.splits)

lemma digits_split: "s = digits_of s @ drop (length (digits_of s)) s"
  by (simp add: digits_of_def dropWhile_eq_drop [symmetric])

lemma match_option_shorter: "match_option_acc s = Some (a, r) \<Longrightarrow> length r < length s"
proof -
  assume m: "match_option_acc s = Some (a, r)"
  then obtain t where t: "strip_prefix ''option['' s = Some t"
    by (auto simp: match_option_acc_def split: option.splits)
  then have "length t < length s" by (auto simp: strip_prefix_Some)
  moreover have "length r \<le> length (drop (length (digits_of t)) t)"
    using m t by (auto simp: match_option_acc_def Let_def split: option.splits if_splits dest!: strip_prefix_length)
  ultimately show ?thesis by simp
qed

lemma match_acc_shorter: "match_acc s = Some (t, r) \<Longrightarrow> length r < length s"
  by (auto simp: match_acc_def match_relay_acc_def strip_prefix_Some
      split: option.splits list.splits if_splits dest: match_option_shorter)

lemma next_token_shorter:
  assumes "next_token s = Some (t, r)"
  shows "length r < length s"
proof -
  have str: "length r' < length s" if m: "match_str s = Some (t', r')" for t' r'
  proof -
    obtain c u where s: "s = c # u" using m by (cases s) (auto simp: match_str_def)
    then have "r' = tl (dropWhile (\<lambda>c. c \<noteq> single_quote) u)" using m by (auto simp: match_str_def split: if_splits)
    then show ?thesis using s length_dropWhile_le [of "\<lambda>c. c \<noteq> single_quote" u] by (simp add: le_imp_less_Suc le_diff_conv)
  qed
  have hex: "length r' < length s" if "match_hex s = Some (t', r')" for t' r'
    using that by (auto simp: match_hex_def Let_def strip_prefix_Some split: option.splits if_splits)
  have num: "length r' < length s" if "match_num s = Some (t', r')" for t' r'
    using that by (cases s) (auto simp: match_num_def Let_def digits_of_def split: if_splits)
  have kw: "length r' < length s" if "match_kw kw_list s = Some (t', r')" for t' r'
    by (rule match_kw_shorter [OF that]) (simp add: kw_list_def)
  show ?thesis
    using assms str hex num kw match_acc_shorter
    by (auto simp: next_token_def strip_prefix_Some split: option.splits)
qed

lemma length_lstrip: "length (lstrip s) \<le> length s"
  by (simp add: lstrip_def length_dropWhile_le)

text \<open>\<open>tokenize\<close>: the loop over the stripped text.\<close>

function tokens :: "string \<Rightarrow> token list res" where
  "tokens s =
     (if s = [] then Inr []
      else (case next_token (lstrip s) of
              None \<Rightarrow> Inl ExprError
            | Some (t, r) \<Rightarrow> rbind (tokens r) (\<lambda>ts. Inr (t # ts))))"
  by pat_completeness auto
termination
proof (relation "measure length")
  fix s x t r
  assume n: "next_token (lstrip s) = Some x" and x: "(t, r) = x"
  have "length r < length (lstrip s)" using next_token_shorter n x by blast
  then show "(r, s) \<in> measure length" using length_lstrip [of s] by simp
qed simp

declare tokens.simps [simp del]

definition tokenize :: "string \<Rightarrow> token list res" where
  "tokenize text = tokens (strip text)"

section \<open>The parser\<close>

text \<open>\<open>ACCESSORS\<close>: the input an accessor reads, its kind, and the input that carries the bytes as sent.\<close>

datatype acc_kind = AText | AMac | AHex

definition accessors :: "(string \<times> (string \<times> acc_kind \<times> string option)) list" where
  "accessors = [
    (''option[60].hex'', ''vendor_class'', AText, None),
    (''option[77].hex'', ''user_class'', AText, Some ''user_class_bytes''),
    (''option[12].text'', ''hostname'', AText, None),
    (''pkt4.mac'', ''mac'', AMac, None),
    (''option[61].hex'', ''client_id'', AHex, None),
    (''relay4[1].hex'', ''circuit_id'', AText, Some ''circuit_id_hex''),
    (''relay4[2].hex'', ''remote_id'', AHex, None)]"

datatype operand = OAcc string | OSub string nat nat

datatype expr =
    EAnd expr expr
  | EOr expr expr
  | ENot expr
  | EMember string
  | EEq operand string   \<comment> \<open>compared with these bytes\<close>

type_synonym 'a parse = "('a \<times> token list) res"

text \<open>\<open>take(kind, val)\<close> for the tokens that carry no value.\<close>

fun take_tok :: "token \<Rightarrow> token list \<Rightarrow> token list res" where
  "take_tok t [] = Inl ExprError"
| "take_tok t (u # r) = (if u = t then Inr r else Inl ExprError)"

fun take_num :: "token list \<Rightarrow> nat parse" where
  "take_num (TNum d # r) = Inr (dec_val d, r)"
| "take_num ts = Inl ExprError"

fun take_str :: "token list \<Rightarrow> string parse" where
  "take_str (TStr v # r) = Inr (v, r)"
| "take_str ts = Inl ExprError"

fun p_accessor :: "token list \<Rightarrow> string parse" where
  "p_accessor (TAcc a # r) = (if a \<in> set (map fst accessors) then Inr (a, r) else Inl ExprError)"
| "p_accessor ts = Inl ExprError"

definition p_operand :: "token list \<Rightarrow> operand parse" where
  "p_operand ts =
     (case ts of
        TKw k # r \<Rightarrow>
          (if k = ''substring'' then
             rbind (take_tok TLpar r) (\<lambda>r.
             rbind (p_accessor r) (\<lambda>(acc, r).
             rbind (take_tok TComma r) (\<lambda>r.
             rbind (take_num r) (\<lambda>(start, r).
             rbind (take_tok TComma r) (\<lambda>r.
             rbind (take_num r) (\<lambda>(len, r).
             rbind (take_tok TRpar r) (\<lambda>r. Inr (OSub acc start len, r))))))))
           else rbind (p_accessor ts) (\<lambda>(acc, r). Inr (OAcc acc, r)))
      | _ \<Rightarrow> rbind (p_accessor ts) (\<lambda>(acc, r). Inr (OAcc acc, r)))"

definition p_literal :: "token list \<Rightarrow> string parse" where
  "p_literal ts =
     (case ts of
        TStr v # r \<Rightarrow> Inr (v, r)
      | THex h # r \<Rightarrow> rbind (from_hex h) (\<lambda>b. Inr (b, r))
      | _ \<Rightarrow> Inl ExprError)"

definition p_comparison :: "token list \<Rightarrow> expr parse" where
  "p_comparison ts =
     rbind (p_operand ts) (\<lambda>(left, r).
     rbind (take_tok TEq r) (\<lambda>r.
     rbind (p_literal r) (\<lambda>(lit, r). Inr (EEq left lit, r))))"

definition p_member :: "token list \<Rightarrow> expr parse" where
  "p_member r =
     rbind (take_tok TLpar r) (\<lambda>r.
     rbind (take_str r) (\<lambda>(n, r).
     rbind (take_tok TRpar r) (\<lambda>r. Inr (EMember n, r))))"

fun p_expr :: "nat \<Rightarrow> token list \<Rightarrow> expr parse"
  and or_loop :: "nat \<Rightarrow> expr \<Rightarrow> token list \<Rightarrow> expr parse"
  and p_term :: "nat \<Rightarrow> token list \<Rightarrow> expr parse"
  and and_loop :: "nat \<Rightarrow> expr \<Rightarrow> token list \<Rightarrow> expr parse"
  and p_factor :: "nat \<Rightarrow> token list \<Rightarrow> expr parse" where
  "p_expr 0 ts = Inl OutOfFuel"
| "p_expr (Suc n) ts = rbind (p_term n ts) (\<lambda>(left, r). or_loop n left r)"
| "or_loop 0 left ts = Inl OutOfFuel"
| "or_loop (Suc n) left ts =
     (if ts \<noteq> [] \<and> hd ts = TKw ''or''
      then rbind (p_term n (tl ts)) (\<lambda>(right, r). or_loop n (EOr left right) r)
      else Inr (left, ts))"
| "p_term 0 ts = Inl OutOfFuel"
| "p_term (Suc n) ts = rbind (p_factor n ts) (\<lambda>(left, r). and_loop n left r)"
| "and_loop 0 left ts = Inl OutOfFuel"
| "and_loop (Suc n) left ts =
     (if ts \<noteq> [] \<and> hd ts = TKw ''and''
      then rbind (p_factor n (tl ts)) (\<lambda>(right, r). and_loop n (EAnd left right) r)
      else Inr (left, ts))"
| "p_factor 0 ts = Inl OutOfFuel"
| "p_factor (Suc n) ts =
     (if ts \<noteq> [] \<and> hd ts = TKw ''not'' then rbind (p_factor n (tl ts)) (\<lambda>(e, r). Inr (ENot e, r))
      else if ts \<noteq> [] \<and> hd ts = TLpar then
        rbind (p_expr n (tl ts)) (\<lambda>(e, r). rbind (take_tok TRpar r) (\<lambda>r. Inr (e, r)))
      else if ts \<noteq> [] \<and> hd ts = TKw ''member'' then p_member (tl ts)
      else p_comparison ts)"

definition parse_tokens :: "token list \<Rightarrow> expr res" where
  "parse_tokens ts =
     rbind (p_expr (3 * length ts + 3) ts) (\<lambda>(e, r). if r = [] then Inr e else Inl ExprError)"

definition parse_expression :: "string \<Rightarrow> expr res" where
  "parse_expression text = rbind (tokenize text) parse_tokens"

subsection \<open>The fuel is enough\<close>

lemma take_tok_Inr: "take_tok t ts = Inr r \<Longrightarrow> length ts = Suc (length r)"
  by (cases ts) (auto split: if_splits)

lemma take_num_Inr: "take_num ts = Inr (n, r) \<Longrightarrow> length ts = Suc (length r)"
  by (induction ts rule: take_num.induct) auto

lemma take_str_Inr: "take_str ts = Inr (n, r) \<Longrightarrow> length ts = Suc (length r)"
  by (induction ts rule: take_str.induct) auto

lemma p_accessor_Inr: "p_accessor ts = Inr (a, r) \<Longrightarrow> length ts = Suc (length r)"
  by (induction ts rule: p_accessor.induct) (auto split: if_splits)

lemma p_operand_Inr: "p_operand ts = Inr (a, r) \<Longrightarrow> length r < length ts"
  by (auto simp: p_operand_def res_simps split: list.splits token.splits if_splits
      dest!: take_tok_Inr take_num_Inr p_accessor_Inr)

lemma p_literal_Inr: "p_literal ts = Inr (a, r) \<Longrightarrow> length r < length ts"
  by (auto simp: p_literal_def res_simps split: list.splits token.splits)

lemma p_comparison_Inr: "p_comparison ts = Inr (a, r) \<Longrightarrow> length r < length ts"
  by (auto simp: p_comparison_def res_simps dest!: take_tok_Inr p_operand_Inr p_literal_Inr)

lemma p_member_Inr: "p_member ts = Inr (a, r) \<Longrightarrow> length r < length ts"
  by (auto simp: p_member_def res_simps dest!: take_tok_Inr take_str_Inr)

lemma parse_shorter:
  "p_expr n ts = Inr (e, r) \<Longrightarrow> length r < length ts"
  "or_loop n l ts = Inr (e, r) \<Longrightarrow> length r \<le> length ts"
  "p_term n ts = Inr (e, r) \<Longrightarrow> length r < length ts"
  "and_loop n l ts = Inr (e, r) \<Longrightarrow> length r \<le> length ts"
  "p_factor n ts = Inr (e, r) \<Longrightarrow> length r < length ts"
proof (induction n ts and n l ts and n ts and n l ts and n ts arbitrary: e r and e r and e r and e r and e r
    rule: p_expr_or_loop_p_term_and_loop_p_factor.induct)
  case (2 n ts)
  then show ?case by (fastforce simp: res_simps)
next
  case (4 n left ts)
  then show ?case by (cases ts) (fastforce simp: res_simps split: if_splits)+
next
  case (6 n ts)
  then show ?case by (fastforce simp: res_simps)
next
  case (8 n left ts)
  then show ?case by (cases ts) (fastforce simp: res_simps split: if_splits)+
next
  case (10 n ts)
  then show ?case
    by (cases ts) (fastforce simp: res_simps split: if_splits dest!: p_comparison_Inr p_member_Inr take_tok_Inr)+
qed simp_all

lemma take_tok_fuel: "take_tok t ts \<noteq> Inl OutOfFuel"
  by (cases ts) simp_all

lemma take_num_fuel: "take_num ts \<noteq> Inl OutOfFuel"
  by (induction ts rule: take_num.induct) simp_all

lemma take_str_fuel: "take_str ts \<noteq> Inl OutOfFuel"
  by (induction ts rule: take_str.induct) simp_all

lemma p_accessor_fuel: "p_accessor ts \<noteq> Inl OutOfFuel"
  by (induction ts rule: p_accessor.induct) simp_all

lemmas no_fuel_leaves = take_tok_fuel take_num_fuel take_str_fuel p_accessor_fuel

lemma from_hex_fuel: "from_hex h \<noteq> Inl OutOfFuel"
  by (induction h rule: from_hex.induct) (auto simp: res_simps split: if_splits)

lemma no_fuel_parts:
  "p_comparison ts \<noteq> Inl OutOfFuel" "p_member ts \<noteq> Inl OutOfFuel"
  by (auto simp: p_comparison_def p_member_def p_operand_def p_literal_def res_simps no_fuel_leaves from_hex_fuel
      split: list.splits token.splits if_splits)

text \<open>Three units per token left, and a few for the functions that consume none.\<close>

lemma parse_fuel:
  "3 * length ts + 3 \<le> n \<Longrightarrow> p_expr n ts \<noteq> Inl OutOfFuel"
  "3 * length ts + 1 \<le> n \<Longrightarrow> or_loop n l ts \<noteq> Inl OutOfFuel"
  "3 * length ts + 2 \<le> n \<Longrightarrow> p_term n ts \<noteq> Inl OutOfFuel"
  "3 * length ts + 1 \<le> n \<Longrightarrow> and_loop n l ts \<noteq> Inl OutOfFuel"
  "3 * length ts + 1 \<le> n \<Longrightarrow> p_factor n ts \<noteq> Inl OutOfFuel"
proof (induction n ts and n l ts and n ts and n l ts and n ts
    rule: p_expr_or_loop_p_term_and_loop_p_factor.induct)
  case (2 n ts)
  then show ?case using parse_shorter(3) by (fastforce simp: res_simps)
next
  case (4 n left ts)
  then show ?case using parse_shorter(3) by (cases ts) (fastforce simp: res_simps split: if_splits)+
next
  case (6 n ts)
  then show ?case using parse_shorter(5) by (fastforce simp: res_simps)
next
  case (8 n left ts)
  then show ?case using parse_shorter(5) by (cases ts) (fastforce simp: res_simps split: if_splits)+
next
  case (10 n ts)
  then show ?case
    by (cases ts) (auto simp: res_simps no_fuel_parts no_fuel_leaves split: if_splits)
qed simp_all

lemma tokens_Nil: "tokens [] = Inr []"
  by (subst tokens.simps) simp

lemma tokens_step:
  "s \<noteq> [] \<Longrightarrow> next_token (lstrip s) = Some (t, r) \<Longrightarrow> tokens s = rbind (tokens r) (\<lambda>ts. Inr (t # ts))"
  by (subst tokens.simps) simp

lemma tokens_stop: "s \<noteq> [] \<Longrightarrow> next_token (lstrip s) = None \<Longrightarrow> tokens s = Inl ExprError"
  by (subst tokens.simps) simp

lemma tokens_no_fuel: "tokens s \<noteq> Inl OutOfFuel"
proof (induction "length s" arbitrary: s rule: less_induct)
  case less
  show ?case
  proof (cases "s = []")
    case True
    then show ?thesis by (simp add: tokens_Nil)
  next
    case s: False
    show ?thesis
    proof (cases "next_token (lstrip s)")
      case None
      then show ?thesis by (simp add: tokens_stop s)
    next
      case (Some x)
      obtain t r where x: "x = (t, r)" by (cases x)
      have "length r < length s"
        using next_token_shorter [OF Some [unfolded x]] length_lstrip [of s] by simp
      then have "tokens r \<noteq> Inl OutOfFuel" by (rule less)
      then show ?thesis using tokens_step [OF s Some [unfolded x]] by (cases "tokens r") simp_all
    qed
  qed
qed

lemma parse_fuel_enough: "parse_expression text \<noteq> Inl OutOfFuel"
  using parse_fuel(1) by (auto simp: parse_expression_def parse_tokens_def tokenize_def res_simps tokens_no_fuel split: if_splits)

section \<open>Evaluation\<close>

text \<open>
  The client's inputs by name; an input that was not supplied, and an empty one, both read as the
  empty text, as the code's \<open>or ""\<close> and \<open>in (None, "")\<close> make them.
\<close>

type_synonym client = "(string \<times> string) list"

definition cl_get :: "client \<Rightarrow> string \<Rightarrow> string" where
  "cl_get c f = (case map_of c f of Some v \<Rightarrow> v | None \<Rightarrow> [])"

text \<open>The three truth values: \<open>None\<close> is unknown.\<close>

definition and3 :: "bool option \<Rightarrow> bool option \<Rightarrow> bool option" where
  "and3 a b = (if a = Some False \<or> b = Some False then Some False
               else if a = None \<or> b = None then None else Some True)"

definition or3 :: "bool option \<Rightarrow> bool option \<Rightarrow> bool option" where
  "or3 a b = (if a = Some True \<or> b = Some True then Some True
              else if a = None \<or> b = None then None else Some False)"

definition not3 :: "bool option \<Rightarrow> bool option" where
  "not3 a = map_option Not a"

text \<open>\<open>re.fullmatch(r"[0-9A-Fa-f]+", s) and len(s) % 2 == 0\<close>.\<close>

definition hex_pairs :: "string \<Rightarrow> bool" where
  "hex_pairs s = (s \<noteq> [] \<and> list_all is_hex s \<and> even (length s))"

text \<open>\<open>bytes.fromhex\<close> on a text that was checked to be hex pairs.\<close>

definition hex_bytes :: "string \<Rightarrow> string" where
  "hex_bytes s = (case from_hex s of Inr b \<Rightarrow> b | Inl e \<Rightarrow> [])"

definition client_bytes :: "client \<Rightarrow> string \<Rightarrow> string option \<times> string" where
  "client_bytes client accessor =
     (case map_of accessors accessor of
        None \<Rightarrow> (None, [])
      | Some (field, kind, exact) \<Rightarrow>
          let raw = cl_get client field
          in if raw = [] then (None, field)
             else
               let raw = strip raw; body = drop_seps raw
               in (case kind of
                     AText \<Rightarrow> (Some raw, field)
                   | AMac \<Rightarrow> (if length body = 12 \<and> list_all is_hex body then (Some (hex_bytes body), field) else (None, field))
                   | AHex \<Rightarrow> (if hex_pairs body then (Some (hex_bytes body), field) else (Some raw, field))))"

definition candidates :: "client \<Rightarrow> string \<Rightarrow> string list option \<times> string" where
  "candidates client accessor =
     (case map_of accessors accessor of
        Some (field, kind, Some exact_field) \<Rightarrow>
          let exact = drop_seps (cl_get client exact_field)
          in if exact \<noteq> [] then
               (if hex_pairs exact then (Some [hex_bytes exact], exact_field) else (None, exact_field))
             else
               let plain = strip (cl_get client field)
               in if plain = [] then (None, field)
                  else if accessor = ''option[77].hex'' \<and> length plain \<le> 255
                  then (Some [plain, char_of (length plain) # plain], exact_field)
                  else (Some [plain], field)
      | _ \<Rightarrow> (case client_bytes client accessor of (v, name) \<Rightarrow> (map_option (\<lambda>b. [b]) v, name)))"

fun left_accessor :: "operand \<Rightarrow> string" where
  "left_accessor (OAcc a) = a"
| "left_accessor (OSub a start len) = a"

fun apply_operand :: "operand \<Rightarrow> string \<Rightarrow> string" where
  "apply_operand (OAcc a) v = v"
| "apply_operand (OSub a start len) v = take len (drop start v)"

text \<open>The classes evaluated so far: \<open>members.get(name)\<close>, where absent and undecided are both \<open>None\<close>.\<close>

type_synonym members = "(string \<times> bool option) list"

definition member_of :: "members \<Rightarrow> string \<Rightarrow> bool option" where
  "member_of ms name = (case map_of ms name of Some b \<Rightarrow> b | None \<Rightarrow> None)"

text \<open>
  \<open>evaluate(node, client, members, missing)\<close>: the verdict and the inputs added to \<open>missing\<close>. The
  parser has rejected every other accessor, so the code's check of it cannot fail here.
\<close>

fun evaluate :: "expr \<Rightarrow> client \<Rightarrow> members \<Rightarrow> bool option \<times> string list" where
  "evaluate (EAnd a b) c ms =
     (case evaluate a c ms of (u, m) \<Rightarrow> (case evaluate b c ms of (v, n) \<Rightarrow> (and3 u v, m @ n)))"
| "evaluate (EOr a b) c ms =
     (case evaluate a c ms of (u, m) \<Rightarrow> (case evaluate b c ms of (v, n) \<Rightarrow> (or3 u v, m @ n)))"
| "evaluate (ENot a) c ms = (case evaluate a c ms of (u, m) \<Rightarrow> (not3 u, m))"
| "evaluate (EMember n) c ms = (member_of ms n, [])"
| "evaluate (EEq left lit) c ms =
     (case candidates c (left_accessor left) of
        (None, field) \<Rightarrow> (None, [field])
      | (Some vs, field) \<Rightarrow>
          let verdicts = map (\<lambda>v. apply_operand left v = lit) vs
          in if list_all (\<lambda>b. b = hd verdicts) verdicts then (Some (hd verdicts), []) else (None, [field]))"

definition verdict :: "expr \<Rightarrow> client \<Rightarrow> members \<Rightarrow> bool option" where
  "verdict e c ms = fst (evaluate e c ms)"

lemma verdict_simps [simp]:
  "verdict (EAnd a b) c ms = and3 (verdict a c ms) (verdict b c ms)"
  "verdict (EOr a b) c ms = or3 (verdict a c ms) (verdict b c ms)"
  "verdict (ENot a) c ms = not3 (verdict a c ms)"
  "verdict (EMember n) c ms = member_of ms n"
  by (simp_all add: verdict_def split_beta)

lemma candidates_not_Nil: "candidates c a = (Some vs, f) \<Longrightarrow> vs \<noteq> []"
  by (auto simp: candidates_def Let_def split: option.splits prod.splits if_splits)

lemma verdict_EEq:
  "verdict (EEq left lit) c ms =
     (case fst (candidates c (left_accessor left)) of
        None \<Rightarrow> None
      | Some vs \<Rightarrow> (if \<forall>v \<in> set vs. apply_operand left v = lit then Some True
                    else if \<forall>v \<in> set vs. apply_operand left v \<noteq> lit then Some False else None))"
proof (cases "candidates c (left_accessor left)")
  case (Pair o' f)
  show ?thesis
  proof (cases o')
    case None
    then show ?thesis using Pair by (simp add: verdict_def)
  next
    case (Some vs)
    then obtain v ws where "vs = v # ws" using candidates_not_Nil Pair by (cases vs) auto
    then show ?thesis using Pair Some by (auto simp: verdict_def Let_def list_all_iff)
  qed
qed

section \<open>More information never changes a decided verdict\<close>

definition knows_more :: "client \<Rightarrow> client \<Rightarrow> bool" where
  "knows_more c c' = (\<forall>a vs. fst (candidates c a) = Some vs \<longrightarrow>
     (\<exists>vs'. fst (candidates c' a) = Some vs' \<and> vs' \<noteq> [] \<and> set vs' \<subseteq> set vs))"

definition members_more :: "members \<Rightarrow> members \<Rightarrow> bool" where
  "members_more ms ms' = (\<forall>n b. member_of ms n = Some b \<longrightarrow> member_of ms' n = Some b)"

lemma verdict_mono:
  assumes k: "knows_more c c'" and m: "members_more ms ms'"
  shows "verdict e c ms = Some b \<Longrightarrow> verdict e c' ms' = Some b"
proof (induction e arbitrary: b)
  case (EEq left lit)
  then obtain vs where vs: "fst (candidates c (left_accessor left)) = Some vs"
    by (auto simp: verdict_EEq split: option.splits)
  then obtain vs' where vs': "fst (candidates c' (left_accessor left)) = Some vs'" "vs' \<noteq> []" "set vs' \<subseteq> set vs"
    using k vs unfolding knows_more_def by blast
  obtain w where w: "w \<in> set vs'" using vs'(2) by (cases vs') auto
  show ?case
    using EEq vs vs' w by (auto simp: verdict_EEq split: if_splits)
next
  case (EAnd a a')
  then show ?case by (cases "verdict a c ms"; cases "verdict a' c ms") (auto simp: and3_def split: if_splits)
next
  case (EOr a a')
  then show ?case by (cases "verdict a c ms"; cases "verdict a' c ms") (auto simp: or3_def split: if_splits)
next
  case (ENot a)
  then show ?case by (auto simp: not3_def)
next
  case (EMember n)
  then show ?case using m by (simp add: members_more_def)
qed

text \<open>Supplying inputs that were not there is knowing more, the bytes of a text already given apart.\<close>

definition supplies :: "client \<Rightarrow> client \<Rightarrow> bool" where
  "supplies c c' =
     ((\<forall>f. cl_get c f \<noteq> [] \<longrightarrow> cl_get c' f = cl_get c f) \<and>
      (\<forall>(a, f, k, x) \<in> set accessors. \<forall>e. x = Some e \<and> cl_get c f \<noteq> [] \<longrightarrow> cl_get c' e = cl_get c e))"

lemma supplies_knows_more:
  assumes "supplies c c'"
  shows "knows_more c c'"
  unfolding knows_more_def
proof (intro allI impI)
  fix a vs
  assume vs: "fst (candidates c a) = Some vs"
  have s: "cl_get c f \<noteq> [] \<Longrightarrow> cl_get c' f = cl_get c f" for f using assms by (simp add: supplies_def)
  have "fst (candidates c' a) = Some vs"
  proof (cases "map_of accessors a")
    case None
    then show ?thesis using vs by (simp add: candidates_def client_bytes_def)
  next
    case (Some fkx)
    obtain f k x where fkx: "fkx = (f, k, x)" by (cases fkx)
    show ?thesis
    proof (cases x)
      case None
      then have "cl_get c f \<noteq> []" using vs Some fkx by (auto simp: candidates_def client_bytes_def Let_def split: if_splits)
      then show ?thesis using vs Some fkx None s [of f] by (simp add: candidates_def client_bytes_def)
    next
      case e: (Some e)
      have mem: "(a, f, k, Some e) \<in> set accessors" using Some fkx e by (auto dest: map_of_SomeD)
      have se: "cl_get c f \<noteq> [] \<Longrightarrow> cl_get c' e = cl_get c e"
        using assms mem by (fastforce simp: supplies_def)
      show ?thesis
      proof (cases "drop_seps (cl_get c e) = []")
        case False
        then have "cl_get c e \<noteq> []" by (auto simp: drop_seps_def)
        then show ?thesis using vs Some fkx e False s [of e] by (simp add: candidates_def)
      next
        case True
        then have "cl_get c f \<noteq> []"
          using vs Some fkx e by (auto simp: candidates_def Let_def strip_def lstrip_def rstrip_def)
        then show ?thesis using vs Some fkx e True s [of f] se by (simp add: candidates_def)
      qed
    qed
  qed
  moreover have "vs \<noteq> []" using vs candidates_not_Nil by (metis prod.collapse)
  ultimately show "\<exists>vs'. fst (candidates c' a) = Some vs' \<and> vs' \<noteq> [] \<and> set vs' \<subseteq> set vs" by blast
qed

end
