(* ===== verification/ClassRules.thy ===== *)
theory ClassRules
  imports ClassExpr
begin

text \<open>
  The rule builder against the evaluator: every expression \<open>build_expression\<close> produces is inside the
  grammar the Explain page evaluates, and parses to the tree its rules mean.
\<close>

section \<open>What the rules mean\<close>

definition rule_tree :: "rule \<Rightarrow> expr res" where
  "rule_tree r =
     (case map_of rule_fields (r_field r) of
        None \<Rightarrow> Inl ValueError
      | Some (kea, kind, ops) \<Rightarrow>
          if r_op r \<notin> set ops then Inl ValueError
          else
            (case kind of
               KMember \<Rightarrow> rbind (stringify (r_value r)) (\<lambda>(v, lit). Inr (EMember v))
             | KString \<Rightarrow> rbind (stringify (r_value r)) (\<lambda>(v, lit).
                 Inr (EEq (if r_op r = ''starts_with'' then OSub kea 0 (py_len v) else OAcc kea) v))
             | KUserClassLp \<Rightarrow> rbind (stringify (r_value r)) (\<lambda>(v, lit).
                 if 255 < length v then Inl ValueError
                 else Inr (if r_op r = ''starts_with'' then EEq (OSub kea 1 (length v)) v
                           else EEq (OAcc kea) (char_of (length v) # v)))
             | KMac \<Rightarrow> rbind (hexify (r_value r) (Some 6)) (\<lambda>h. Inr (EEq (OAcc kea) (hex_bytes (drop 2 h))))
             | KOui \<Rightarrow> rbind (hexify (r_value r) (Some 3)) (\<lambda>h. Inr (EEq (OSub ''pkt4.mac'' 0 3) (hex_bytes (drop 2 h))))
             | KHex \<Rightarrow> rbind (hexify (r_value r) None) (\<lambda>h. Inr (EEq (OAcc kea) (hex_bytes (drop 2 h))))))"

definition rules_tree :: "rule list \<Rightarrow> string \<Rightarrow> bool \<Rightarrow> expr res" where
  "rules_tree rules combinator negate =
     (if combinator \<noteq> ''all'' \<and> combinator \<noteq> ''any'' then Inl ValueError
      else if rules = [] then Inl ValueError
      else rbind (collect rule_tree rules) (\<lambda>es.
        let e = foldl (if combinator = ''all'' then EAnd else EOr) (hd es) (tl es)
        in Inr (if negate then ENot e else e)))"

section \<open>Tokens of printed text\<close>

text \<open>A text that may follow a literal: the end, a blank or a closing parenthesis.\<close>

definition ends :: "string \<Rightarrow> bool" where
  "ends r = (r = [] \<or> hd r = CHR '')'' \<or> hd r = CHR '' '')"

lemma lstrip_nonspace: "\<not> is_space c \<Longrightarrow> lstrip (c # s) = c # s"
  by (simp add: lstrip_def)

lemma lstrip_blank: "lstrip (CHR '' '' # s) = lstrip s"
  by (simp add: lstrip_def is_space_def)

lemma chars_not_space [simp]:
  "\<not> is_space CHR ''(''" "\<not> is_space CHR '')''" "\<not> is_space CHR '',''" "\<not> is_space CHR ''=''"
  "\<not> is_space CHR ''o''" "\<not> is_space CHR ''p''" "\<not> is_space CHR ''r''" "\<not> is_space CHR ''a''"
  "\<not> is_space CHR ''n''" "\<not> is_space CHR ''m''" "\<not> is_space CHR ''s''" "\<not> is_space CHR ''0''"
  by (simp_all add: is_space_def)

lemma quote_not_space: "\<not> is_space single_quote"
  by (simp add: is_space_def single_quote_def)

definition emits :: "string \<Rightarrow> token list \<Rightarrow> string \<Rightarrow> bool" where
  "emits s ts r = (tokens (s @ r) = rbind (tokens r) (\<lambda>us. Inr (ts @ us)))"

text \<open>One token, whatever follows.\<close>

definition emits1 :: "string \<Rightarrow> token \<Rightarrow> bool" where
  "emits1 s t = (\<forall>r. tokens (s @ r) = rbind (tokens r) (\<lambda>us. Inr (t # us)))"

lemma emits1_intro:
  assumes "s = c # s'" and "\<not> is_space c" and "\<And>r. next_token (s @ r) = Some (t, r)"
  shows "emits1 s t"
  unfolding emits1_def
proof
  fix r
  have "lstrip (s @ r) = s @ r" using assms(1,2) by (simp add: lstrip_nonspace)
  then show "tokens (s @ r) = rbind (tokens r) (\<lambda>us. Inr (t # us))"
    using tokens_step [of "s @ r" t r] assms(1,3) by simp
qed

lemma strip_prefix_simps [simp]:
  "strip_prefix [] s = Some s"
  "strip_prefix (p # ps) [] = None"
  "strip_prefix (p # ps) (c # s) = (if p = c then strip_prefix ps s else None)"
  by (auto simp: strip_prefix_def)

lemma digit_tests [simp]:
  "is_digit CHR ''6''" "is_digit CHR ''0''" "is_digit CHR ''7''" "is_digit CHR ''1''" "is_digit CHR ''2''"
  "\<not> is_digit CHR '']''" "\<not> is_digit CHR ''o''" "\<not> is_digit CHR ''p''" "\<not> is_digit CHR ''r''"
  "\<not> is_digit CHR ''a''" "\<not> is_digit CHR ''n''" "\<not> is_digit CHR ''m''" "\<not> is_digit CHR ''s''"
  by (simp_all add: is_digit_def)

lemma quote_tests [simp]:
  "CHR ''o'' \<noteq> single_quote" "CHR ''p'' \<noteq> single_quote" "CHR ''r'' \<noteq> single_quote" "CHR ''a'' \<noteq> single_quote"
  "CHR ''n'' \<noteq> single_quote" "CHR ''m'' \<noteq> single_quote" "CHR ''s'' \<noteq> single_quote" "CHR ''0'' \<noteq> single_quote"
  "single_quote \<noteq> CHR ''(''" "single_quote \<noteq> CHR '')''" "single_quote \<noteq> CHR '',''" "single_quote \<noteq> CHR ''=''"
  by code_simp+

lemmas token_defs = next_token_def match_str_def match_hex_def match_num_def match_acc_def match_option_acc_def
  match_relay_acc_def digits_of_def kw_list_def Let_def

lemma emits1_simple:
  "emits1 ''('' TLpar" "emits1 '')'' TRpar" "emits1 '','' TComma" "emits1 ''=='' TEq"
  by (rule emits1_intro, rule refl, simp, simp add: next_token_def)+

lemma emits1_kw:
  "emits1 ''and'' (TKw ''and'')" "emits1 ''or'' (TKw ''or'')" "emits1 ''not'' (TKw ''not'')"
  "emits1 ''member'' (TKw ''member'')" "emits1 ''substring'' (TKw ''substring'')"
  by (rule emits1_intro, rule refl, simp, simp add: token_defs)+

lemma emits1_acc:
  "emits1 ''option[60].hex'' (TAcc ''option[60].hex'')" "emits1 ''option[77].hex'' (TAcc ''option[77].hex'')"
  "emits1 ''option[12].text'' (TAcc ''option[12].text'')" "emits1 ''pkt4.mac'' (TAcc ''pkt4.mac'')"
  "emits1 ''option[61].hex'' (TAcc ''option[61].hex'')" "emits1 ''relay4[1].hex'' (TAcc ''relay4[1].hex'')"
  "emits1 ''relay4[2].hex'' (TAcc ''relay4[2].hex'')"
  by (rule emits1_intro, rule refl, simp, simp add: token_defs)+

lemma emits1_str:
  assumes "single_quote \<notin> set v"
  shows "emits1 ([single_quote] @ v @ [single_quote]) (TStr v)"
proof (rule emits1_intro)
  show "[single_quote] @ v @ [single_quote] = single_quote # (v @ [single_quote])" by simp
  show "\<not> is_space single_quote" by (rule quote_not_space)
  have "takeWhile (\<lambda>c. c \<noteq> single_quote) (v @ single_quote # r) = v" for r
    using assms by (subst takeWhile_append2) auto
  moreover have "dropWhile (\<lambda>c. c \<noteq> single_quote) (v @ single_quote # r) = single_quote # r" for r
    using assms by (subst dropWhile_append2) auto
  ultimately show "next_token (([single_quote] @ v @ [single_quote]) @ r) = Some (TStr v, r)" for r
    by (simp add: next_token_def match_str_def quote_tests [THEN not_sym])
qed

lemma emits_emits1: "emits1 s t \<Longrightarrow> emits s [t] r"
  by (simp add: emits1_def emits_def)

lemma emits_append: "emits s ts (s' @ r) \<Longrightarrow> emits s' ts' r \<Longrightarrow> emits (s @ s') (ts @ ts') r"
  by (cases "tokens r") (simp_all add: emits_def)

lemma emits_blank: "r \<noteq> [] \<Longrightarrow> emits '' '' [] r"
proof -
  assume r: "r \<noteq> []"
  have "tokens (CHR '' '' # r) = tokens r"
    using r by (subst (1 2) tokens.simps) (simp add: lstrip_blank)
  then show ?thesis by (cases "tokens r") (simp_all add: emits_def)
qed

lemma takeWhile_stop: "\<forall>c \<in> set s. P c \<Longrightarrow> r = [] \<or> \<not> P (hd r) \<Longrightarrow> takeWhile P (s @ r) = s"
  by (cases r) (auto simp: takeWhile_append2)

lemma emits_token:
  assumes "s \<noteq> []" and "\<not> is_space (hd s)" and "next_token (s @ r) = Some (t, r)"
  shows "emits s [t] r"
proof -
  have "lstrip (s @ r) = s @ r" using assms(1,2) by (cases s) (simp_all add: lstrip_nonspace)
  then show ?thesis using tokens_step [of "s @ r" t r] assms(1,3) by (simp add: emits_def)
qed

lemma no_hex_prefix:
  assumes "\<forall>c \<in> set s. is_digit c" and "s \<noteq> []" and "r = [] \<or> hd r \<noteq> CHR ''x''"
  shows "strip_prefix ''0x'' (s @ r) = None"
proof (cases s)
  case (Cons d ds)
  have "\<not> is_digit CHR ''x''" by (simp add: is_digit_def)
  then show ?thesis using assms Cons by (cases ds; cases r) auto
qed (use assms in simp)

lemma emits_num:
  assumes "r = [] \<or> hd r \<in> {CHR '','', CHR '')''}"
  shows "emits (show_nat n) [TNum (show_nat n)] r"
proof (rule emits_token)
  let ?s = "show_nat n"
  have d: "\<forall>c \<in> set ?s. is_digit c" by (simp add: show_nat_digits)
  show "?s \<noteq> []" by simp
  then have h: "is_digit (hd ?s)" using d by simp
  then show "\<not> is_space (hd ?s)" by (rule digit_not_space)
  have r: "r = [] \<or> \<not> is_digit (hd r)" "r = [] \<or> hd r \<noteq> CHR ''x''" using assms by (auto simp: is_digit_def)
  have num: "match_num (?s @ r) = Some (TNum ?s, r)"
    using takeWhile_stop [OF d r(1)] by (simp add: match_num_def digits_of_def Let_def)
  obtain c cs where s: "?s = c # cs" using \<open>?s \<noteq> []\<close> by (cases ?s) auto
  then have c: "is_digit c" using d by simp
  then have "c \<noteq> CHR ''(''" "c \<noteq> CHR '')''" "c \<noteq> CHR '',''" "c \<noteq> CHR ''=''" "c \<noteq> single_quote"
    by (auto simp: is_digit_def single_quote_def)
  then have "strip_prefix ''('' (?s @ r) = None" "strip_prefix '')'' (?s @ r) = None" "strip_prefix '','' (?s @ r) = None"
      "strip_prefix ''=='' (?s @ r) = None" "match_str (?s @ r) = None"
    by (simp_all add: s match_str_def)
  moreover have "match_hex (?s @ r) = None"
    using no_hex_prefix [OF d \<open>?s \<noteq> []\<close> r(2)] by (simp add: match_hex_def)
  ultimately show "next_token (?s @ r) = Some (TNum ?s, r)" by (simp add: next_token_def num)
qed

lemma ends_not_hex: "ends r \<Longrightarrow> r = [] \<or> \<not> is_hex (hd r)"
  by (auto simp: ends_def is_hex_def is_digit_def)

lemma emits_hex:
  assumes "list_all is_hex h" and "h \<noteq> []" and "ends r"
  shows "emits (''0x'' @ h) [THex h] r"
proof (rule emits_token)
  have "takeWhile is_hex (h @ r) = h"
    using assms(1) ends_not_hex [OF assms(3)] by (intro takeWhile_stop) (auto simp: list_all_iff)
  then show "next_token ((''0x'' @ h) @ r) = Some (THex h, r)"
    using assms(2) by (simp add: next_token_def match_str_def match_hex_def Let_def)
qed simp_all

lemma emits_eq:
  assumes "lit \<noteq> []" and lit: "emits lit ts' r" and l: "emits left ts ('' == '' @ lit @ r)"
  shows "emits (eq_expr left lit) (ts @ TEq # ts') r"
proof -
  have "emits ('' '' @ ''=='' @ '' '' @ lit) ([] @ [TEq] @ [] @ ts') r"
    using assms(1) lit
    by (intro emits_append emits_blank emits_emits1 [OF emits1_simple(4)]) simp_all
  then have "emits ('' == '' @ lit) (TEq # ts') r" by simp
  then show ?thesis
    using emits_append [of left ts "'' == '' @ lit" r "TEq # ts'"] l by (simp add: eq_expr_def)
qed

lemma emits_substring:
  assumes "emits1 acc (TAcc acc)"
  shows "emits (substring_expr acc start n)
    [TKw ''substring'', TLpar, TAcc acc, TComma, TNum (show_nat start), TComma, TNum (show_nat n), TRpar] r"
proof -
  have "emits (''substring'' @ ''('' @ acc @ '','' @ show_nat start @ '','' @ show_nat n @ '')'')
    ([TKw ''substring''] @ [TLpar] @ [TAcc acc] @ [TComma] @ [TNum (show_nat start)] @ [TComma] @ [TNum (show_nat n)] @ [TRpar]) r"
    by (intro emits_append emits_num emits_emits1 [OF emits1_kw(5)] emits_emits1 [OF emits1_simple(1)]
        emits_emits1 [OF emits1_simple(2)] emits_emits1 [OF emits1_simple(3)] emits_emits1 [OF assms]) simp_all
  then show ?thesis by (simp add: substring_expr_def)
qed

text \<open>The print of one clause: its tokens, and that it is a factor of the grammar.\<close>

definition prints :: "string \<Rightarrow> expr \<Rightarrow> bool" where
  "prints s e = (\<exists>ts. (\<forall>r. ends r \<longrightarrow> emits s ts r) \<and> 3 \<le> length ts \<and> s \<noteq> [] \<and>
     \<not> is_space (hd s) \<and> \<not> is_space (last s) \<and> (\<forall>n us. p_factor (Suc n) (ts @ us) = Inr (e, us)))"

lemma stringify_Inr:
  "stringify raw = Inr (v, lit) \<Longrightarrow> single_quote \<notin> set v \<and> v \<noteq> [] \<and> lit = [single_quote] @ v @ [single_quote]"
  by (auto simp: stringify_def Let_def split: if_splits)

lemma is_hex_lower [simp]: "is_hex (lower_char c) = is_hex c"
  by (auto simp: is_hex_def lower_char_def is_digit_def)

lemma hexify_Inr:
  assumes "hexify value n = Inr h"
  obtains d where "h = ''0x'' @ d" and "list_all is_hex d" and "d \<noteq> []" and "from_hex d = Inr (hex_bytes d)"
proof -
  let ?d = "lower (drop_seps value)"
  have h: "h = ''0x'' @ ?d" and b: "drop_seps value \<noteq> []" "list_all is_hex (drop_seps value)" "even (length (drop_seps value))"
    using assms by (auto simp: hexify_def Let_def split: if_splits)
  have hex: "list_all is_hex ?d" using b(2) by (simp add: lower_def list_all_iff)
  then obtain x where "from_hex ?d = Inr x" using from_hex_ok [of ?d] b(3) by (auto simp: lower_def list_all_iff)
  then have "from_hex ?d = Inr (hex_bytes ?d)" by (simp add: hex_bytes_def)
  then show ?thesis using that h hex b(1) by (simp add: lower_def)
qed

definition acc_ok :: "string \<Rightarrow> bool" where
  "acc_ok a = (emits1 a (TAcc a) \<and> a \<in> set (map fst accessors) \<and> a \<noteq> [] \<and> \<not> is_space (hd a))"

lemma acc_ok_all:
  "acc_ok ''option[60].hex''" "acc_ok ''option[77].hex''" "acc_ok ''option[12].text''" "acc_ok ''pkt4.mac''"
  "acc_ok ''option[61].hex''" "acc_ok ''relay4[1].hex''" "acc_ok ''relay4[2].hex''"
  by (simp_all add: acc_ok_def emits1_acc accessors_def)

lemma p_factor_comparison:
  "ts \<noteq> [] \<Longrightarrow> hd ts \<noteq> TLpar \<Longrightarrow> hd ts \<noteq> TKw ''not'' \<Longrightarrow> hd ts \<noteq> TKw ''member'' \<Longrightarrow> p_factor (Suc n) ts = p_comparison ts"
  by simp

definition lit_ok :: "string \<Rightarrow> token \<Rightarrow> string \<Rightarrow> bool" where
  "lit_ok lit t b = (lit \<noteq> [] \<and> \<not> is_space (last lit) \<and> (\<forall>r. ends r \<longrightarrow> emits lit [t] r) \<and>
     (\<forall>us. p_literal (t # us) = Inr (b, us)))"

lemma lit_ok_str: "stringify raw = Inr (v, lit) \<Longrightarrow> lit_ok lit (TStr v) v"
  using emits_emits1 [OF emits1_str] quote_not_space
  by (auto simp: lit_ok_def p_literal_def dest!: stringify_Inr)

lemma hex_not_space: "is_hex c \<Longrightarrow> \<not> is_space c"
  by (auto simp: is_hex_def is_digit_def is_space_def)

lemma lit_ok_hex:
  assumes "list_all is_hex d" and "d \<noteq> []" and "from_hex d = Inr b"
  shows "lit_ok (''0x'' @ d) (THex d) b"
proof -
  have "\<not> is_space (last d)" using assms(1,2) by (simp add: list_all_iff hex_not_space)
  then show ?thesis
    using emits_hex [OF assms(1,2)] assms by (simp add: lit_ok_def p_literal_def)
qed

lemma prints_acc:
  assumes a: "acc_ok a" and l: "lit_ok lit t b"
  shows "prints (eq_expr a lit) (EEq (OAcc a) b)"
  unfolding prints_def
proof (intro exI [of _ "[TAcc a, TEq, t]"] conjI allI impI)
  show "emits (eq_expr a lit) [TAcc a, TEq, t] r" if "ends r" for r
    using emits_eq [of lit "[t]" r a "[TAcc a]"] that l a emits_emits1 by (simp add: lit_ok_def acc_ok_def)
  show "p_factor (Suc n) ([TAcc a, TEq, t] @ us) = Inr (EEq (OAcc a) b, us)" for n us
    using a l by (simp add: p_comparison_def p_operand_def acc_ok_def lit_ok_def)
qed (use a l in \<open>simp_all add: eq_expr_def acc_ok_def lit_ok_def\<close>)

lemma prints_sub:
  assumes a: "acc_ok a" and l: "lit_ok lit t b"
  shows "prints (eq_expr (substring_expr a i n) lit) (EEq (OSub a i n) b)"
proof -
  let ?ts = "[TKw ''substring'', TLpar, TAcc a, TComma, TNum (show_nat i), TComma, TNum (show_nat n), TRpar]"
  show ?thesis
    unfolding prints_def
  proof (intro exI [of _ "?ts @ [TEq, t]"] conjI allI impI)
    show "emits (eq_expr (substring_expr a i n) lit) (?ts @ [TEq, t]) r" if "ends r" for r
      using emits_eq [of lit "[t]" r "substring_expr a i n" ?ts] that l emits_substring a
      by (simp add: lit_ok_def acc_ok_def)
    show "p_factor (Suc m) ((?ts @ [TEq, t]) @ us) = Inr (EEq (OSub a i n) b, us)" for m us
      using a l by (simp add: p_comparison_def p_operand_def acc_ok_def lit_ok_def dec_val_show_nat)
  qed (use l in \<open>simp_all add: eq_expr_def substring_expr_def lit_ok_def\<close>)
qed

lemma prints_member:
  assumes "single_quote \<notin> set v"
  shows "prints (member_call single_quote v) (EMember v)"
  unfolding prints_def
proof (intro exI [of _ "[TKw ''member'', TLpar, TStr v, TRpar]"] conjI allI impI)
  show "emits (member_call single_quote v) [TKw ''member'', TLpar, TStr v, TRpar] r" for r
  proof -
    have "emits (''member'' @ ''('' @ ([single_quote] @ v @ [single_quote]) @ '')'')
        ([TKw ''member''] @ [TLpar] @ [TStr v] @ [TRpar]) r"
      by (intro emits_append emits_emits1 [OF emits1_kw(4)] emits_emits1 [OF emits1_simple(1)]
          emits_emits1 [OF emits1_str [OF assms]] emits_emits1 [OF emits1_simple(2)])
    then show ?thesis by (simp add: member_call_def)
  qed
qed (simp_all add: member_call_def p_member_def)

section \<open>Every rule prints its tree\<close>

lemma oui_accessor: "''substring(pkt4.mac,0,3)'' = substring_expr ''pkt4.mac'' 0 3"
  by code_simp

lemma rule_field_cases:
  assumes "map_of rule_fields f = Some (kea, kind, ops)"
  shows "kind = KMember \<or> (kind = KOui \<and> kea = substring_expr ''pkt4.mac'' 0 3) \<or>
    (kind \<noteq> KMember \<and> kind \<noteq> KOui \<and> acc_ok kea)"
  using assms by (auto simp: rule_fields_def acc_ok_all oui_accessor split: if_splits)

lemma rule_prints:
  "case rule_expression r of Inl x \<Rightarrow> rule_tree r = Inl x | Inr s \<Rightarrow> \<exists>e. rule_tree r = Inr e \<and> prints s e"
proof (cases "map_of rule_fields (r_field r)")
  case None
  then show ?thesis by (simp add: rule_expression_def rule_tree_def)
next
  case (Some m)
  obtain kea kind ops where m: "m = (kea, kind, ops)" by (cases m)
  note f = rule_field_cases [OF Some [unfolded m]]
  show ?thesis
  proof (cases "r_op r \<in> set ops")
    case False
    then show ?thesis using Some m by (simp add: rule_expression_def rule_tree_def)
  next
    case op: True
    have str: "?thesis" if "kind = KString \<or> kind = KUserClassLp \<or> kind = KMember"
    proof (cases "stringify (r_value r)")
      case (Inl x)
      then show ?thesis using that Some m op by (auto simp: rule_expression_def rule_tree_def)
    next
      case (Inr vl)
      obtain v lit where vl: "vl = (v, lit)" by (cases vl)
      note l = lit_ok_str [OF Inr [unfolded vl]] and q = stringify_Inr [OF Inr [unfolded vl]]
      have hx: "lit_ok (''0x'' @ to_hex (char_of (length v) # v)) (THex (to_hex (char_of (length v) # v))) (char_of (length v) # v)"
        by (rule lit_ok_hex) (simp_all add: list_all_iff to_hex_hex del: to_hex.simps(2), simp)
      show ?thesis
        using that f Some m op Inr vl q l prints_member prints_acc prints_sub prints_acc [OF _ hx]
        by (auto simp: rule_expression_def rule_tree_def simp del: to_hex.simps(2))
    qed
    have hex: "?thesis" if k: "kind = KMac \<or> kind = KOui \<or> kind = KHex"
    proof -
      define n :: "nat option" where "n = (case kind of KMac \<Rightarrow> Some 6 | KOui \<Rightarrow> Some 3 | _ \<Rightarrow> None)"
      show ?thesis
      proof (cases "hexify (r_value r) n")
        case (Inl x)
        then show ?thesis using k Some m op by (auto simp: n_def rule_expression_def rule_tree_def)
      next
        case (Inr h)
        then show ?thesis
        proof (rule hexify_Inr)
          fix d
          assume h: "h = ''0x'' @ d" and d: "list_all is_hex d" "d \<noteq> []" "from_hex d = Inr (hex_bytes d)"
          note l = lit_ok_hex [OF d]
          show ?thesis
            using k f Some m op Inr h prints_acc [OF _ l] prints_sub [OF acc_ok_all(4) l]
            by (auto simp: n_def rule_expression_def rule_tree_def)
        qed
      qed
    qed
    show ?thesis by (cases kind) (use str hex in auto)
  qed
qed

lemma rules_print:
  "case collect rule_expression rs of
     Inl x \<Rightarrow> collect rule_tree rs = Inl x
   | Inr ss \<Rightarrow> \<exists>es. collect rule_tree rs = Inr es \<and> list_all2 prints ss es"
proof (induction rs)
  case Nil
  then show ?case by simp
next
  case (Cons r rs)
  show ?case
    using rule_prints [of r] Cons.IH
    by (cases "rule_expression r"; cases "collect rule_expression rs") auto
qed

section \<open>Joining the clauses\<close>

definition factor_tokens :: "token list \<Rightarrow> expr \<Rightarrow> bool" where
  "factor_tokens ts e = (\<forall>n us. p_factor (Suc n) (ts @ us) = Inr (e, us))"

lemma p_term_factor:
  assumes "factor_tokens ts e" and "us = [] \<or> hd us \<noteq> TKw ''and''" and "2 \<le> m"
  shows "p_term m (ts @ us) = Inr (e, us)"
proof -
  obtain n where "m = 2 + n" using le_Suc_ex [OF assms(3)] by blast
  then have "m = Suc (Suc n)" by simp
  then show ?thesis using assms(1,2) by (auto simp: factor_tokens_def)
qed

lemma p_expr_factor:
  assumes "factor_tokens ts e" and "us = [] \<or> hd us = TRpar" and "3 \<le> m"
  shows "p_expr m (ts @ us) = Inr (e, us)"
proof -
  obtain n where "m = 3 + n" using le_Suc_ex [OF assms(3)] by blast
  then have m: "m = Suc (Suc (Suc n))" "2 \<le> Suc (Suc n)" by simp_all
  have "us = [] \<or> hd us \<noteq> TKw ''and''" using assms(2) by auto
  then have "p_term (Suc (Suc n)) (ts @ us) = Inr (e, us)" using p_term_factor [OF assms(1) _ m(2)] by blast
  then show ?thesis using assms(2) by (auto simp: m(1) simp del: p_term.simps)
qed

lemma p_factor_parens:
  assumes "factor_tokens ts e" and "4 \<le> m"
  shows "p_factor m (TLpar # ts @ TRpar # us) = Inr (e, us)"
proof -
  obtain n where m: "m = Suc n" "3 \<le> n" using assms(2) by (cases m) auto
  have "p_expr n (ts @ TRpar # us) = Inr (e, TRpar # us)" by (rule p_expr_factor [OF assms(1) _ m(2)]) simp
  then show ?thesis by (simp add: m(1))
qed

definition more :: "string \<Rightarrow> token list list \<Rightarrow> token list" where
  "more k tss = concat (map (\<lambda>ts. TKw k # TLpar # ts @ [TRpar]) tss)"

lemma more_simps [simp]: "more k [] = []" "more k (ts # tss) = TKw k # TLpar # ts @ TRpar # more k tss"
  by (simp_all add: more_def)

lemma and_loop_clauses:
  assumes "list_all2 factor_tokens tss es" and "us = [] \<or> hd us \<noteq> TKw ''and''" and "length tss + 5 \<le> m"
  shows "and_loop m l (more ''and'' tss @ us) = Inr (foldl EAnd l es, us)"
  using assms
proof (induction tss es arbitrary: l m rule: list_all2_induct)
  case Nil
  then show ?case by (cases m) auto
next
  case (Cons ts tss e es)
  then obtain n where m: "m = Suc n" "length tss + 5 \<le> n" by (cases m) auto
  then have "p_factor n (TLpar # ts @ TRpar # more ''and'' tss @ us) = Inr (e, more ''and'' tss @ us)"
    by (intro p_factor_parens Cons.hyps(1)) simp
  moreover have "and_loop n (EAnd l e) (more ''and'' tss @ us) = Inr (foldl EAnd (EAnd l e) es, us)"
    by (rule Cons.IH [OF Cons.prems(1) m(2)])
  ultimately show ?case by (simp add: m(1))
qed

lemma or_loop_clauses:
  assumes "list_all2 factor_tokens tss es" and "us = [] \<or> hd us = TRpar" and "length tss + 6 \<le> m"
  shows "or_loop m l (more ''or'' tss @ us) = Inr (foldl EOr l es, us)"
  using assms
proof (induction tss es arbitrary: l m rule: list_all2_induct)
  case Nil
  then show ?case by (cases m) auto
next
  case (Cons ts tss e es)
  then obtain n where m: "m = Suc n" "length tss + 6 \<le> n" by (cases m) auto
  then obtain k where k: "n = Suc k" "5 \<le> k" by (cases n) auto
  have rest: "more ''or'' tss @ us = [] \<or> hd (more ''or'' tss @ us) \<noteq> TKw ''and''"
    using Cons.prems(1) by (cases tss) auto
  have f: "p_factor k (TLpar # ts @ TRpar # more ''or'' tss @ us) = Inr (e, more ''or'' tss @ us)"
    using k(2) by (intro p_factor_parens Cons.hyps(1)) simp
  obtain j where "k = Suc j" using k(2) by (cases k) auto
  then have "p_term n (TLpar # ts @ TRpar # more ''or'' tss @ us) = Inr (e, more ''or'' tss @ us)"
    using f rest by (auto simp: k(1) simp del: p_factor.simps)
  moreover have "or_loop n (EOr l e) (more ''or'' tss @ us) = Inr (foldl EOr (EOr l e) es, us)"
    by (rule Cons.IH [OF Cons.prems(1) m(2)])
  ultimately show ?case by (simp add: m(1))
qed

text \<open>The body of an expression: its tokens, and that the grammar reads it with the parser's fuel.\<close>

definition body_prints :: "string \<Rightarrow> expr \<Rightarrow> bool" where
  "body_prints s e = (\<exists>ts. (\<forall>r. ends r \<longrightarrow> emits s ts r) \<and> 3 \<le> length ts \<and> s \<noteq> [] \<and>
     \<not> is_space (hd s) \<and> \<not> is_space (last s) \<and>
     (\<forall>n us. us = [] \<or> hd us = TRpar \<longrightarrow> p_expr (3 * length ts + n) (ts @ us) = Inr (e, us)))"

lemma body_single:
  assumes "prints s e"
  shows "body_prints s e"
proof -
  obtain ts where ts: "\<forall>r. ends r \<longrightarrow> emits s ts r" "3 \<le> length ts" "s \<noteq> []" "\<not> is_space (hd s)" "\<not> is_space (last s)"
      "factor_tokens ts e"
    using assms by (auto simp: prints_def factor_tokens_def)
  have "p_expr (3 * length ts + n) (ts @ us) = Inr (e, us)" if "us = [] \<or> hd us = TRpar" for n us
    by (rule p_expr_factor [OF ts(6) that]) (use ts(2) in simp)
  then show ?thesis using ts unfolding body_prints_def by blast
qed

lemma emits_parens: "emits s ts ('')'' @ r) \<Longrightarrow> emits (parens s) (TLpar # ts @ [TRpar]) r"
proof -
  assume "emits s ts ('')'' @ r)"
  then have "emits (''('' @ s @ '')'') ([TLpar] @ ts @ [TRpar]) r"
    by (intro emits_append emits_emits1 [OF emits1_simple(1)] emits_emits1 [OF emits1_simple(2)]) simp_all
  then show ?thesis by (simp add: parens_def)
qed

lemma emits_join:
  assumes k: "emits1 k (TKw k)" "k \<noteq> []" and sep: "sep = '' '' @ k @ '' ''"
    and "list_all2 (\<lambda>s ts. \<forall>r. ends r \<longrightarrow> emits s ts r) ss tss" and "ss \<noteq> []"
  shows "emits (join_with sep (map parens ss)) (tl (more k tss)) r"
  using assms(4,5)
proof (induction ss tss rule: list_all2_induct)
  case Nil
  then show ?case by simp
next
  case (Cons s ss ts tss)
  have e: "emits (parens s) (TLpar # ts @ [TRpar]) r'" for r'
    using Cons.hyps(1) by (intro emits_parens) (simp add: ends_def)
  show ?case
  proof (cases ss)
    case Nil
    then show ?thesis using Cons.hyps(2) e by simp
  next
    case (Cons s' ss')
    then obtain ts' tss' where tss: "tss = ts' # tss'" using \<open>list_all2 _ ss tss\<close> by (auto simp: list_all2_Cons1)
    let ?j = "join_with sep (map parens ss)"
    have j: "?j \<noteq> []" using Cons by (cases ss') (simp_all add: parens_def)
    have IH: "emits ?j (tl (more k tss)) r" using Cons.IH Cons by simp
    have "emits (parens s @ '' '' @ k @ '' '' @ ?j) ((TLpar # ts @ [TRpar]) @ [] @ [TKw k] @ [] @ tl (more k tss)) r"
      using j IH k(2) by (intro emits_append e emits_blank emits_emits1 [OF k(1)]) simp_all
    moreover have "tl (more k (ts # tss)) = (TLpar # ts @ [TRpar]) @ TKw k # tl (more k tss)"
      by (simp add: tss)
    moreover have "join_with sep (map parens (s # ss)) = parens s @ '' '' @ k @ '' '' @ ?j"
      using Cons by (simp add: sep)
    ultimately show ?thesis by simp
  qed
qed

lemma prints_tokens:
  "prints s e \<Longrightarrow> \<exists>ts. (\<forall>r. ends r \<longrightarrow> emits s ts r) \<and> 3 \<le> length ts \<and> factor_tokens ts e"
  unfolding prints_def factor_tokens_def by blast

lemma list_all2_prints:
  "list_all2 prints ss es \<Longrightarrow>
     \<exists>tss. list_all2 (\<lambda>s ts. \<forall>r. ends r \<longrightarrow> emits s ts r) ss tss \<and> list_all2 factor_tokens tss es \<and>
       3 * length tss \<le> length (concat tss)"
proof (induction ss es rule: list_all2_induct)
  case Nil
  then show ?case by simp
next
  case (Cons s ss e es)
  from Cons.IH obtain tss where t: "list_all2 (\<lambda>s ts. \<forall>r. ends r \<longrightarrow> emits s ts r) ss tss"
      "list_all2 factor_tokens tss es" "3 * length tss \<le> length (concat tss)" by blast
  obtain ts where "\<forall>r. ends r \<longrightarrow> emits s ts r" "3 \<le> length ts" "factor_tokens ts e"
    using prints_tokens [OF Cons.hyps(1)] by blast
  then show ?case using t by (intro exI [of _ "ts # tss"]) simp
qed

lemma length_more: "length (more k tss) = length (concat tss) + 3 * length tss"
  by (induction tss) auto

lemma join_parens_ends:
  "ss \<noteq> [] \<Longrightarrow> join_with sep (map parens ss) \<noteq> [] \<and> hd (join_with sep (map parens ss)) = CHR ''('' \<and>
     last (join_with sep (map parens ss)) = CHR '')''"
  by (induction ss rule: induct_list012) (simp_all add: parens_def)

lemma body_joined:
  assumes p: "list_all2 prints ss es" and len: "1 < length ss" and c: "combinator = ''all'' \<or> combinator = ''any''"
  shows "body_prints (join_with (if combinator = ''all'' then '' and '' else '' or '') (map parens ss))
    (foldl (if combinator = ''all'' then EAnd else EOr) (hd es) (tl es))"
proof -
  define k where "k = (if combinator = ''all'' then ''and'' else ''or'')"
  obtain tss where t: "list_all2 (\<lambda>s ts. \<forall>r. ends r \<longrightarrow> emits s ts r) ss tss" "list_all2 factor_tokens tss es"
      "3 * length tss \<le> length (concat tss)"
    using list_all2_prints [OF p] by blast
  have ne: "ss \<noteq> []" using len by auto
  have sep: "(if combinator = ''all'' then '' and '' else '' or '') = '' '' @ k @ '' ''" by (simp add: k_def)
  have e: "emits (join_with ('' '' @ k @ '' '') (map parens ss)) (tl (more k tss)) r" for r
    by (rule emits_join [OF _ _ refl t(1) ne]) (simp_all add: k_def emits1_kw)
  obtain ts tss' e1 es' where tss: "tss = ts # tss'" and es: "es = e1 # es'"
    using t(1,2) len by (cases tss; cases es) auto
  have f: "factor_tokens ts e1" and fs: "list_all2 factor_tokens tss' es'" using t(2) tss es by simp_all
  have l2: "length tss' \<ge> 1" using len list_all2_lengthD [OF t(1)] by (cases tss') (simp_all add: tss)
  have big: "length (tl (more k tss)) \<ge> 5 + 3 * length tss'"
    using t(3) by (simp add: tss length_more)
  have parse: "p_expr (3 * length (tl (more k tss)) + n) (tl (more k tss) @ us) =
      Inr (foldl (if combinator = ''all'' then EAnd else EOr) (hd es) (tl es), us)"
    if us: "us = [] \<or> hd us = TRpar" for n us
  proof -
    obtain m where m: "3 * length (tl (more k tss)) + n = Suc m" "length tss' + 8 \<le> m"
      using big l2 by (cases "3 * length (tl (more k tss)) + n") auto
    have toks: "tl (more k tss) @ us = TLpar # ts @ TRpar # more k tss' @ us" by (simp add: tss)
    obtain j where j: "m = Suc j" "length tss' + 7 \<le> j" using m(2) by (cases m) auto
    have pf: "p_factor j (TLpar # ts @ TRpar # us') = Inr (e1, us')" for us'
      using j(2) by (intro p_factor_parens [OF f]) simp
    show ?thesis
    proof (cases "combinator = ''all''")
      case True
      then have k: "k = ''and''" by (simp add: k_def)
      have "us = [] \<or> hd us \<noteq> TKw ''and''" using us by auto
      then have "and_loop j e1 (more ''and'' tss' @ us) = Inr (foldl EAnd e1 es', us)"
        using j(2) by (intro and_loop_clauses [OF fs]) auto
      then have "p_term m (TLpar # ts @ TRpar # more ''and'' tss' @ us) = Inr (foldl EAnd e1 es', us)"
        using pf by (simp add: j(1) del: p_factor.simps)
      moreover have "or_loop m (foldl EAnd e1 es') us = Inr (foldl EAnd e1 es', us)"
        using us by (auto simp: j(1))
      ultimately show ?thesis
        unfolding m(1) toks unfolding k using True by (simp add: es del: p_term.simps or_loop.simps)
    next
      case False
      then have k: "k = ''or''" by (simp add: k_def)
      have "more ''or'' tss' @ us = [] \<or> hd (more ''or'' tss' @ us) \<noteq> TKw ''and''"
        using us by (cases tss') auto
      then have "and_loop j e1 (more ''or'' tss' @ us) = Inr (e1, more ''or'' tss' @ us)"
        using j(2) by (cases j) auto
      then have "p_term m (TLpar # ts @ TRpar # more ''or'' tss' @ us) = Inr (e1, more ''or'' tss' @ us)"
        using pf by (simp add: j(1) del: p_factor.simps)
      moreover have "or_loop m e1 (more ''or'' tss' @ us) = Inr (foldl EOr e1 es', us)"
        using m(2) us by (intro or_loop_clauses [OF fs]) auto
      ultimately show ?thesis
        unfolding m(1) toks unfolding k using False by (simp add: es del: p_term.simps or_loop.simps)
    qed
  qed
  let ?j = "join_with ('' '' @ k @ '' '') (map parens ss)"
  show ?thesis
    unfolding body_prints_def sep
  proof (intro exI [of _ "tl (more k tss)"] conjI allI impI)
    show "emits ?j (tl (more k tss)) r" if "ends r" for r by (rule e)
    show "3 \<le> length (tl (more k tss))" using big by simp
    show "?j \<noteq> []" using join_parens_ends [OF ne, of "'' '' @ k @ '' ''"] by blast
    show "\<not> is_space (hd ?j)" using join_parens_ends [OF ne, of "'' '' @ k @ '' ''"] chars_not_space(1) by metis
    show "\<not> is_space (last ?j)" using join_parens_ends [OF ne, of "'' '' @ k @ '' ''"] chars_not_space(2) by metis
    show "p_expr (3 * length (tl (more k tss)) + n) (tl (more k tss) @ us) =
      Inr (foldl (if combinator = ''all'' then EAnd else EOr) (hd es) (tl es), us)"
      if "us = [] \<or> hd us = TRpar" for n us by (rule parse [OF that])
  qed
qed

lemma tokenize_printed:
  assumes "\<forall>r. ends r \<longrightarrow> emits s ts r" and "s \<noteq> []" "\<not> is_space (hd s)" "\<not> is_space (last s)"
  shows "tokenize s = Inr ts"
proof -
  have "strip s = s" using assms by (intro strip_id) simp_all
  moreover have "tokens s = Inr ts" using assms(1) [rule_format, of "[]"] by (simp add: ends_def emits_def tokens_Nil)
  ultimately show ?thesis by (simp add: tokenize_def)
qed

lemma not_factor:
  assumes "p_expr m (ts @ [TRpar]) = Inr (e, [TRpar])"
  shows "p_expr (Suc (Suc (Suc (Suc m)))) (TKw ''not'' # TLpar # ts @ [TRpar]) = Inr (ENot e, [])"
  using assms by simp

lemma parse_body:
  assumes "body_prints s e"
  shows "parse_expression s = Inr e" and "parse_expression (''not '' @ parens s) = Inr (ENot e)"
proof -
  obtain ts where ts: "\<forall>r. ends r \<longrightarrow> emits s ts r" "3 \<le> length ts" "s \<noteq> []" "\<not> is_space (hd s)" "\<not> is_space (last s)"
    and p: "\<And>n us. us = [] \<or> hd us = TRpar \<Longrightarrow> p_expr (3 * length ts + n) (ts @ us) = Inr (e, us)"
    using assms unfolding body_prints_def by blast
  show "parse_expression s = Inr e"
    using tokenize_printed [OF ts(1,3-5)] p [of "[]" 3] by (simp add: parse_expression_def parse_tokens_def)
  let ?n = "''not '' @ parens s"
  have "emits (''not'' @ '' '' @ parens s) ([TKw ''not''] @ [] @ TLpar # ts @ [TRpar]) r" for r
    using ts(1) by (intro emits_append emits_blank emits_parens emits_emits1 [OF emits1_kw(3)])
      (simp_all add: parens_def ends_def)
  then have em: "\<forall>r. ends r \<longrightarrow> emits ?n (TKw ''not'' # TLpar # ts @ [TRpar]) r" by simp
  have "tokenize ?n = Inr (TKw ''not'' # TLpar # ts @ [TRpar])"
    by (rule tokenize_printed [OF em]) (simp_all add: parens_def)
  moreover have "p_expr (3 * length (TKw ''not'' # TLpar # ts @ [TRpar]) + 3) (TKw ''not'' # TLpar # ts @ [TRpar]) = Inr (ENot e, [])"
  proof -
    have F: "3 * length (TKw ''not'' # TLpar # ts @ [TRpar]) + 3 = Suc (Suc (Suc (Suc (3 * length ts + 8))))" by simp
    have "p_expr (3 * length ts + 8) (ts @ [TRpar]) = Inr (e, [TRpar])" by (rule p) simp
    then show ?thesis unfolding F by (rule not_factor)
  qed
  ultimately show "parse_expression ?n = Inr (ENot e)" by (simp add: parse_expression_def parse_tokens_def)
qed

lemma build_parse:
  "case build_expression rules combinator negate of
     Inl x \<Rightarrow> rules_tree rules combinator negate = Inl x
   | Inr text \<Rightarrow> \<exists>e. rules_tree rules combinator negate = Inr e \<and> parse_expression text = Inr e"
proof (cases "(combinator \<noteq> ''all'' \<and> combinator \<noteq> ''any'') \<or> rules = []")
  case True
  then show ?thesis by (auto simp: build_expression_def rules_tree_def)
next
  case False
  then have c: "combinator = ''all'' \<or> combinator = ''any''" and ne: "rules \<noteq> []" by auto
  show ?thesis
  proof (cases "collect rule_expression rules")
    case (Inl x)
    then show ?thesis using rules_print [of rules] c ne by (auto simp: build_expression_def rules_tree_def)
  next
    case (Inr ss)
    then obtain es where es: "collect rule_tree rules = Inr es" "list_all2 prints ss es"
      using rules_print [of rules] by auto
    have len: "length ss = length rules" using Inr by (rule collect_length)
    define body where "body = (if length ss = 1 then hd ss
      else join_with (if combinator = ''all'' then '' and '' else '' or '') (map parens ss))"
    define e where "e = foldl (if combinator = ''all'' then EAnd else EOr) (hd es) (tl es)"
    have "body_prints body e"
    proof (cases "length ss = 1")
      case True
      then obtain t u where "ss = [t]" "es = [u]" using es(2) by (cases ss; cases es) auto
      then show ?thesis using es(2) body_single by (simp add: body_def e_def)
    next
      case False
      then have "1 < length ss" using ne len by (cases rules; cases "tl rules") auto
      then show ?thesis using body_joined [OF es(2) _ c] False by (simp add: body_def e_def)
    qed
    note pb = parse_body [OF this]
    have "build_expression rules combinator negate = Inr (if negate then ''not '' @ parens body else body)"
      using c ne Inr by (auto simp: build_expression_def body_def Let_def)
    moreover have "rules_tree rules combinator negate = Inr (if negate then ENot e else e)"
      using c ne es(1) by (auto simp: rules_tree_def e_def Let_def)
    ultimately show ?thesis using pb by simp
  qed
qed


section \<open>What a built expression decides\<close>

definition all3 :: "bool option list \<Rightarrow> bool option" where
  "all3 vs = (if Some False \<in> set vs then Some False else if None \<in> set vs then None else Some True)"

definition any3 :: "bool option list \<Rightarrow> bool option" where
  "any3 vs = (if Some True \<in> set vs then Some True else if None \<in> set vs then None else Some False)"

lemma all3_Cons: "all3 (v # vs) = and3 v (all3 vs)"
  by (cases v) (auto simp: all3_def and3_def)

lemma any3_Cons: "any3 (v # vs) = or3 v (any3 vs)"
  by (cases v) (auto simp: any3_def or3_def)

lemma and3_assoc: "and3 (and3 a b) c = and3 a (and3 b c)"
  by (auto simp: and3_def)

lemma or3_assoc: "or3 (or3 a b) c = or3 a (or3 b c)"
  by (auto simp: or3_def)

lemma and3_unit: "and3 v (Some True) = v" and or3_unit: "or3 v (Some False) = v"
  by (auto simp: and3_def or3_def split: if_splits)

lemma verdict_foldl_and:
  "verdict (foldl EAnd e es) c ms = all3 (map (\<lambda>x. verdict x c ms) (e # es))"
  by (induction es arbitrary: e) (simp_all add: all3_Cons and3_assoc, simp add: all3_def and3_unit)

lemma verdict_foldl_or:
  "verdict (foldl EOr e es) c ms = any3 (map (\<lambda>x. verdict x c ms) (e # es))"
  by (induction es arbitrary: e) (simp_all add: any3_Cons or3_assoc, simp add: any3_def or3_unit)

lemma rules_tree_verdict:
  assumes "rules_tree rules combinator negate = Inr e"
  shows "\<exists>es. collect rule_tree rules = Inr es \<and>
    verdict e c ms = (let v = (if combinator = ''all'' then all3 else any3) (map (\<lambda>x. verdict x c ms) es)
                      in if negate then not3 v else v)"
proof -
  have ne: "rules \<noteq> []" using assms by (auto simp: rules_tree_def split: if_splits)
  obtain es where es: "collect rule_tree rules = Inr es"
    using assms by (auto simp: rules_tree_def res_simps split: if_splits)
  then have "es \<noteq> []" using ne collect_length [OF es] by auto
  then obtain x xs where x: "es = x # xs" by (cases es) auto
  show ?thesis
    using assms es by (auto simp: rules_tree_def x Let_def verdict_foldl_and verdict_foldl_or split: if_splits)
qed

section \<open>The errors of the parser\<close>

definition odd_hex :: "token list \<Rightarrow> bool" where
  "odd_hex ts = (\<exists>h. THex h \<in> set ts \<and> odd (length h))"

lemma from_hex_err: "from_hex h = Inl x \<Longrightarrow> list_all is_hex h \<Longrightarrow> x = ValueError \<and> odd (length h)"
  by (induction h rule: from_hex.induct) (auto simp: res_simps split: if_splits)


text \<open>What an error of a sub-parser may be, and that the rest is part of the input.\<close>

definition err_in :: "token list \<Rightarrow> exc \<Rightarrow> bool" where
  "err_in ts x = (x = ExprError \<or> x = OutOfFuel \<or> (x = ValueError \<and> (\<exists>h. THex h \<in> set ts \<and> from_hex h = Inl ValueError)))"

definition sound :: "token list \<Rightarrow> 'a parse \<Rightarrow> bool" where
  "sound ts p = (case p of Inl x \<Rightarrow> err_in ts x | Inr (a, r) \<Rightarrow> set r \<subseteq> set ts)"

lemma sound_simps [simp]:
  "sound ts (Inl ExprError)" "sound ts (Inl OutOfFuel)" "sound ts (Inr (a, r)) = (set r \<subseteq> set ts)"
  by (simp_all add: sound_def err_in_def)

lemma err_in_mono: "err_in r x \<Longrightarrow> set r \<subseteq> set ts \<Longrightarrow> err_in ts x"
  unfolding err_in_def by blast

lemma sound_mono: "sound r p \<Longrightarrow> set r \<subseteq> set ts \<Longrightarrow> sound ts p"
  by (auto simp: sound_def split: sum.splits dest: err_in_mono)

lemma sound_rbind:
  assumes "sound ts m" and "\<And>a r. m = Inr (a, r) \<Longrightarrow> sound r (f (a, r))"
  shows "sound ts (rbind m f)"
proof (cases m)
  case (Inr ar)
  obtain a r where "ar = (a, r)" by (cases ar)
  then show ?thesis using assms Inr sound_mono [of r "f (a, r)" ts] by simp
qed (use assms(1) in \<open>simp add: sound_def\<close>)

lemma sound_Cons: "sound r p \<Longrightarrow> sound (t # r) p"
  by (rule sound_mono) auto

lemma sound_take: "(\<And>r. sound r (f r)) \<Longrightarrow> sound ts (rbind (take_tok t ts) f)"
  by (cases ts) (auto intro: sound_Cons)

lemma sound_leaves:
  "sound ts (take_num ts)" "sound ts (take_str ts)" "sound ts (p_accessor ts)"
proof -
  show "sound ts (take_num ts)" by (induction ts rule: take_num.induct) auto
  show "sound ts (take_str ts)" by (induction ts rule: take_str.induct) auto
  show "sound ts (p_accessor ts)" by (induction ts rule: p_accessor.induct) auto
qed

lemma sound_operand: "sound ts (p_operand ts)"
proof -
  have acc: "sound us (rbind (p_accessor us) (\<lambda>(acc, r). Inr (OAcc acc, r)))" for us
    by (rule sound_rbind [OF sound_leaves(3)]) simp
  have sub: "sound us (rbind (take_tok TLpar us) (\<lambda>r. rbind (p_accessor r) (\<lambda>(acc, r).
      rbind (take_tok TComma r) (\<lambda>r. rbind (take_num r) (\<lambda>(start, r). rbind (take_tok TComma r) (\<lambda>r.
      rbind (take_num r) (\<lambda>(len, r). rbind (take_tok TRpar r) (\<lambda>r. Inr (OSub acc start len, r)))))))))" for us
    by (intro sound_take sound_rbind sound_leaves, simp, intro sound_take sound_rbind sound_leaves, simp,
        intro sound_take sound_rbind sound_leaves, simp, intro sound_take, simp)
  show ?thesis
    using acc [of ts] sub by (auto simp: p_operand_def split: list.split token.split intro: sound_Cons)
qed

lemma sound_literal: "sound ts (p_literal ts)"
proof -
  have "sound (THex h # r) (rbind (from_hex h) (\<lambda>b. Inr (b, r)))" for h r
  proof (cases "from_hex h")
    case (Inl x)
    have "x = ValueError" if "from_hex h = Inl x" for h
      using that by (induction h rule: from_hex.induct) (auto simp: res_simps split: if_splits)
    then show ?thesis using Inl by (auto simp: sound_def err_in_def)
  qed auto
  then show ?thesis by (auto simp: p_literal_def split: list.split token.split)
qed

lemma sound_comparison: "sound ts (p_comparison ts)"
  unfolding p_comparison_def
  by (intro sound_rbind [OF sound_operand], simp, intro sound_take sound_rbind [OF sound_literal], simp)

lemma sound_member: "sound ts (p_member ts)"
  unfolding p_member_def by (intro sound_take sound_rbind [OF sound_leaves(2)], simp, intro sound_take, simp)

lemma sound_parser:
  "sound ts (p_expr n ts)" "sound ts (or_loop n l ts)" "sound ts (p_term n ts)" "sound ts (and_loop n l ts)"
  "sound ts (p_factor n ts)"
proof (induction n ts and n l ts and n ts and n l ts and n ts rule: p_expr_or_loop_p_term_and_loop_p_factor.induct)
  case (2 n ts)
  then show ?case by (auto intro!: sound_rbind)
next
  case (4 n left ts)
  show ?case
  proof (cases "ts \<noteq> [] \<and> hd ts = TKw ''or''")
    case True
    then have "sound (tl ts) (rbind (p_term n (tl ts)) (\<lambda>(right, r). or_loop n (EOr left right) r))"
      using 4 by (auto intro!: sound_rbind)
    then show ?thesis using True by (cases ts) (auto intro: sound_Cons)
  qed auto
next
  case (6 n ts)
  then show ?case by (auto intro!: sound_rbind)
next
  case (8 n left ts)
  show ?case
  proof (cases "ts \<noteq> [] \<and> hd ts = TKw ''and''")
    case True
    then have "sound (tl ts) (rbind (p_factor n (tl ts)) (\<lambda>(right, r). and_loop n (EAnd left right) r))"
      using 8 by (auto intro!: sound_rbind)
    then show ?thesis using True by (cases ts) (auto intro: sound_Cons)
  qed auto
next
  case (10 n ts)
  have tl: "sound ts p" if "sound (tl ts) p" "ts \<noteq> []" for p :: "expr parse"
    using that by (cases ts) (auto intro: sound_Cons)
  have n: "sound us (rbind m (\<lambda>(e, r). Inr (ENot e, r)))" if "sound us m" for us m
    using that by (auto intro!: sound_rbind)
  have p: "sound us (rbind m (\<lambda>(e, r). rbind (take_tok TRpar r) (\<lambda>r. Inr (e, r))))" if "sound us m" for us and m :: "expr parse"
    using that by (auto intro!: sound_rbind sound_take)
  show ?case
    using 10 by (auto intro!: tl n p sound_member sound_comparison)
qed simp_all

lemma next_token_hex:
  assumes "next_token s = Some (THex h, r)"
  shows "list_all is_hex h"
proof -
  have kw: "match_kw ks s \<noteq> Some (THex h, r)" for ks by (induction ks) (auto split: option.split)
  have "match_hex s = Some (THex h, r)"
    using assms kw
    by (auto simp: next_token_def match_num_def match_acc_def match_str_def Let_def
        split: option.splits list.splits if_splits)
  then show ?thesis
    by (auto simp: match_hex_def Let_def list_all_iff split: option.splits if_splits dest: set_takeWhileD)
qed

lemma tokens_hex: "tokens s = Inr ts \<Longrightarrow> THex h \<in> set ts \<Longrightarrow> list_all is_hex h"
proof (induction "length s" arbitrary: s ts rule: less_induct)
  case less
  have s: "s \<noteq> []" using less.prems by (auto simp: tokens_Nil)
  then obtain t r where n: "next_token (lstrip s) = Some (t, r)"
    using less.prems(1) by (cases "next_token (lstrip s)") (auto simp: tokens_stop)
  then obtain us where us: "tokens r = Inr us" "ts = t # us"
    using less.prems(1) tokens_step [OF s n] by (auto simp: res_simps)
  have "length r < length s" using next_token_shorter [OF n] length_lstrip [of s] by simp
  then show ?case using less.hyps [OF _ us(1)] less.prems(2) us(2) next_token_hex n by auto
qed

lemma tokens_err: "tokens s = Inl x \<Longrightarrow> x = ExprError"
proof (induction "length s" arbitrary: s rule: less_induct)
  case less
  have s: "s \<noteq> []" using less.prems by (auto simp: tokens_Nil)
  show ?case
  proof (cases "next_token (lstrip s)")
    case None
    then show ?thesis using less.prems tokens_stop [OF s] by simp
  next
    case (Some tr)
    obtain t r where n: "tr = (t, r)" by (cases tr)
    have "length r < length s" using next_token_shorter [OF Some [unfolded n]] length_lstrip [of s] by simp
    then show ?thesis using less tokens_step [OF s Some [unfolded n]] by (auto simp: res_simps)
  qed
qed

end
