(* ===== verification/ClassProps.thy ===== *)
theory ClassProps
  imports ClassRules
begin

text \<open>
  Properties of the rule builder (\<open>jen/services/kea_classes.py\<close>) and of the expression evaluator
  (\<open>jen/services/dhcp_explain.py\<close>).
\<close>

section \<open>The builder and the parser\<close>

text \<open>
  C4. Round trip: whatever the rule builder prints, the Explain page's parser reads back, as exactly
  the tree the rules mean (\<open>rules_tree\<close>: left-nested clauses, length-prefixed and hexadecimal values
  as their bytes); and the builder refuses a rule list exactly when it has no such tree, with the
  same error.
\<close>

theorem build_parse_roundtrip:
  "case build_expression rules combinator negate of
     Inl x \<Rightarrow> rules_tree rules combinator negate = Inl x
   | Inr src \<Rightarrow> rbind (rules_tree rules combinator negate) Inr = parse_expression src \<and>
       isl (parse_expression src) = False"
  using build_parse [of rules combinator negate] by (auto split: sum.split)

text \<open>
  C5. An expression built from rules decides what the form says: with \<open>all\<close> it is false as soon as
  one clause is false, unknown if a clause is unknown and none false, else true; with \<open>any\<close> the dual;
  \<open>negate\<close> flips a decided verdict; the order of the rules does not matter.
\<close>

theorem built_expression_decides:
  "case build_expression rules combinator negate of
     Inl x \<Rightarrow> x = ValueError
   | Inr src \<Rightarrow> \<exists>e es. parse_expression src = Inr e \<and> collect rule_tree rules = Inr es \<and>
       length es = length rules \<and>
       verdict e c ms =
         (let vs = (\<lambda>x. verdict x c ms) ` set es;
              v = (if combinator = ''all''
                   then (if Some False \<in> vs then Some False else if None \<in> vs then None else Some True)
                   else (if Some True \<in> vs then Some True else if None \<in> vs then None else Some False))
          in if negate then not3 v else v)"
proof (cases "build_expression rules combinator negate")
  case (Inl x)
  have "rule_expression r = Inl y \<Longrightarrow> y = ValueError" for r y
    by (auto simp: rule_expression_def stringify_def hexify_def res_simps Let_def split: option.splits prod.splits if_splits kind.splits)
  then have "collect rule_expression rs = Inl y \<Longrightarrow> y = ValueError" for rs y
    by (induction rs) (auto simp: res_simps split: sum.splits)
  then show ?thesis using Inl by (auto simp: build_expression_def Let_def res_simps split: if_splits)
next
  case (Inr src)
  then obtain e where e: "rules_tree rules combinator negate = Inr e" "parse_expression src = Inr e"
    using build_parse [of rules combinator negate] by auto
  obtain es where es: "collect rule_tree rules = Inr es" and
    v: "verdict e c ms = (let v = (if combinator = ''all'' then all3 else any3) (map (\<lambda>x. verdict x c ms) es)
                          in if negate then not3 v else v)"
    using rules_tree_verdict [OF e(1)] by blast
  show ?thesis
    using Inr e(2) es collect_length [OF es] v by (simp add: all3_def any3_def Let_def)
qed


section \<open>The evaluator\<close>

text \<open>
  More information never changes a decided verdict: when a test is decided with the inputs the
  operator typed, supplying further inputs, or deciding further classes, leaves the verdict as it is.
\<close>

theorem verdict_stable:
  assumes "supplies c c'" and "members_more ms ms'" and "verdict e c ms = Some b"
  shows "verdict e c' ms' = Some b"
  using verdict_mono [OF supplies_knows_more [OF assms(1)] assms(2,3)] .

lemma verdict_stable_witness:
  "verdict (EOr (EEq (OAcc ''option[12].text'') ''ap'') (EMember ''KNOWN''))
     [(''hostname'', ''ap''), (''mac'', ''00:11:22:33:44:55'')] [(''KNOWN'', Some False)] = Some True"
proof (rule verdict_stable)
  show "supplies [(''hostname'', ''ap'')] [(''hostname'', ''ap''), (''mac'', ''00:11:22:33:44:55'')]"
    by (auto simp: supplies_def cl_get_def accessors_def split: if_splits)
  show "members_more [] [(''KNOWN'', Some False)]" by (simp add: members_more_def member_of_def)
  show "verdict (EOr (EEq (OAcc ''option[12].text'') ''ap'') (EMember ''KNOWN'')) [(''hostname'', ''ap'')] [] = Some True"
    by code_simp
qed

text \<open>
  A "starts with" rule on a plain-text field (\<open>_rule_expression\<close>, kind \<open>string\<close>): against a
  client whose bytes are known, the built test is true exactly when those bytes start with the value
  and every character of the value is one byte. The length in \<open>substring\<close> counts characters while
  Kea compares bytes, so a value with a character outside ASCII never matches.
\<close>

theorem starts_with_decides:
  assumes "map_of rule_fields (r_field r) = Some (kea, KString, ops)" and "''starts_with'' \<in> set ops"
    and "r_op r = ''starts_with''" and "stringify (r_value r) = Inr (v, lit)"
    and "fst (candidates c kea) = Some [b]"
  shows "\<exists>src e. build_expression [r] ''all'' False = Inr src \<and> parse_expression src = Inr e \<and>
    verdict e c ms = Some (py_len v = length v \<and> take (length v) b = v)"
proof -
  have "rule_tree r = Inr (EEq (OSub kea 0 (py_len v)) v)" using assms by (simp add: rule_tree_def)
  then have t: "rules_tree [r] ''all'' False = Inr (EEq (OSub kea 0 (py_len v)) v)"
    by (simp add: rules_tree_def)
  obtain src where src: "build_expression [r] ''all'' False = Inr src"
      "parse_expression src = Inr (EEq (OSub kea 0 (py_len v)) v)"
    using build_parse [of "[r]" "''all''" False] t by (auto split: sum.splits)
  have "(take (py_len v) b = v) = (py_len v = length v \<and> take (length v) b = v)"
  proof
    assume "take (py_len v) b = v"
    moreover from this have "length v \<le> py_len v" by (metis length_take min.cobounded2)
    ultimately show "py_len v = length v \<and> take (length v) b = v" using py_len_le [of v] by simp
  qed auto
  then have "verdict (EEq (OSub kea 0 (py_len v)) v) c ms = Some (py_len v = length v \<and> take (length v) b = v)"
    using assms(5) by (auto simp: verdict_EEq)
  then show ?thesis using src by blast
qed

text \<open>The value is "Caf" and the two bytes of e-acute; the host name starts with them; the test is false.\<close>

definition demo_accent_rule :: rule where
  "demo_accent_rule = \<lparr>r_field = ''hostname'', r_op = ''starts_with'', r_value = ''Caf'' @ [CHR 0xC3, CHR 0xA9]\<rparr>"

definition demo_accent_client :: client where
  "demo_accent_client = [(''hostname'', ''Caf'' @ [CHR 0xC3, CHR 0xA9] @ ''-ap1'')]"

lemma starts_with_decides_witness:
  "\<exists>src e. build_expression [demo_accent_rule] ''all'' False = Inr src \<and> parse_expression src = Inr e \<and>
    verdict e demo_accent_client [] = Some False"
proof -
  have *: "(py_len (''Caf'' @ [CHR 0xC3, CHR 0xA9]) = length (''Caf'' @ [CHR 0xC3, CHR 0xA9]) \<and>
      take (length (''Caf'' @ [CHR 0xC3, CHR 0xA9])) (''Caf'' @ [CHR 0xC3, CHR 0xA9] @ ''-ap1'') =
        ''Caf'' @ [CHR 0xC3, CHR 0xA9]) = False"
    by code_simp
  have "\<exists>src e. build_expression [demo_accent_rule] ''all'' False = Inr src \<and> parse_expression src = Inr e \<and>
    verdict e demo_accent_client [] = Some (py_len (''Caf'' @ [CHR 0xC3, CHR 0xA9]) = length (''Caf'' @ [CHR 0xC3, CHR 0xA9]) \<and>
      take (length (''Caf'' @ [CHR 0xC3, CHR 0xA9])) (''Caf'' @ [CHR 0xC3, CHR 0xA9] @ ''-ap1'') = ''Caf'' @ [CHR 0xC3, CHR 0xA9])"
  proof (rule starts_with_decides)
    show "map_of rule_fields (r_field demo_accent_rule) = Some (''option[12].text'', KString, [''equals'', ''starts_with''])"
      by code_simp
    show "''starts_with'' \<in> set [''equals'', ''starts_with'']" by simp
    show "r_op demo_accent_rule = ''starts_with''" by code_simp
    show "stringify (r_value demo_accent_rule) =
        Inr (''Caf'' @ [CHR 0xC3, CHR 0xA9], [single_quote] @ (''Caf'' @ [CHR 0xC3, CHR 0xA9]) @ [single_quote])"
      by code_simp
    show "fst (candidates demo_accent_client ''option[12].text'') = Some [''Caf'' @ [CHR 0xC3, CHR 0xA9] @ ''-ap1'']"
      by code_simp
  qed
  then show ?thesis unfolding * .
qed

end
