(* ===== verification/PyConv.thy ===== *)
theory PyConv
  imports Json PyStr
begin

text \<open>
  Conversions of a JSON value that the code applies without checking its type: \<open>int(v)\<close> and
  \<open>str(v)\<close>.
\<close>

definition show_int :: "int \<Rightarrow> string" where
  "show_int i = (if i < 0 then CHR ''-'' # show_nat (nat (- i)) else show_nat (nat i))"

text \<open>\<open>int(v)\<close>: a float is cut towards zero; a string is parsed; \<open>None\<close>, a list and a dict raise \<open>TypeError\<close>.\<close>

fun int_of_json :: "json \<Rightarrow> int res" where
  "int_of_json (JInt i) = Inr i"
| "int_of_json (JBool b) = Inr (of_bool b)"
| "int_of_json (JFloat r) = Inr (if r < 0 then - floor (- r) else floor r)"
| "int_of_json (JStr s) = py_int s"
| "int_of_json v = Inl TypeError"

text \<open>
  \<open>str(v)\<close>. The text of a float, a list or a dict is not modelled: a question mark stands for it,
  which is no name, no number and no address.
\<close>

fun str_of_json :: "json \<Rightarrow> string" where
  "str_of_json (JStr s) = s"
| "str_of_json (JInt i) = show_int i"
| "str_of_json (JBool b) = (if b then ''True'' else ''False'')"
| "str_of_json JNull = ''None''"
| "str_of_json v = ''?''"

text \<open>\<open>str(v or "")\<close>.\<close>

definition str_or_empty :: "json \<Rightarrow> string" where
  "str_or_empty v = (if truthy v then str_of_json v else [])"

lemma str_or_empty_simps [simp]: "str_or_empty (JStr s) = s" "str_or_empty JNull = []"
  by (auto simp: str_or_empty_def)

end
