(* ===== verification/Explain.thy ===== *)
theory Explain
  imports ClassExpr OptionCatalog Pools PyConv
begin

text \<open>
  \<open>jen/services/dhcp_explain.py\<close>, the decision half: what Kea does with one client, as the page
  reconstructs it. The six stages of \<open>explain\<close> are one definition each, composed in the code's
  order by \<open>explain\<close>; every text the page shows is a constructor here (\<open>reason\<close>,
  \<open>relay_verdict\<close>, \<open>pools_verdict\<close>, \<open>answer_text\<close>).

  The lookups the caller may hand in are parameters: \<open>pool_used\<close> (leases in a pool, \<open>None\<close> when
  unknown, not handed in, or raising) and \<open>holder_of\<close> (who holds an address).
\<close>

section \<open>Reservations\<close>

record res_flags =
  fl_global :: bool
  fl_in_subnet :: bool

definition apply_mode :: "json \<Rightarrow> res_flags \<Rightarrow> res_flags" where
  "apply_mode mode f =
     (if mode = JStr ''global'' then \<lparr>fl_global = True, fl_in_subnet = False\<rparr>
      else if mode = JStr ''disabled'' then \<lparr>fl_global = False, fl_in_subnet = False\<rparr>
      else if mode = JStr ''all'' \<or> mode = JStr ''out-of-pool'' then \<lparr>fl_global = False, fl_in_subnet = True\<rparr>
      else f)"

definition apply_scope :: "res_flags \<Rightarrow> json \<Rightarrow> res_flags" where
  "apply_scope flags scope =
     (if \<not> is_dict scope then flags
      else
        let f = apply_mode (jget scope ''reservation-mode'') flags;
            f = (if jhas scope ''reservations-global''
                 then f\<lparr>fl_global := truthy (jget scope ''reservations-global'')\<rparr> else f)
        in (if jhas scope ''reservations-in-subnet''
            then f\<lparr>fl_in_subnet := truthy (jget scope ''reservations-in-subnet'')\<rparr> else f))"

definition reservation_flags :: "json \<Rightarrow> json \<Rightarrow> res_flags" where
  "reservation_flags dhcp4_cfg subnet =
     foldl apply_scope \<lparr>fl_global = False, fl_in_subnet = True\<rparr> [dhcp4_cfg, subnet]"

definition norm_mac :: "json \<Rightarrow> string" where
  "norm_mac mac = lower (drop_seps (str_or_empty mac))"

definition config_reservation :: "json \<Rightarrow> json \<Rightarrow> json list" where
  "config_reservation subnet r =
     (if \<not> is_dict r then []
      else
        let row = (\<lambda>key. JObj [
          (''subnet_id'', jget subnet ''id''), (''identifier_type'', JStr key),
          (''identifier'', JStr (norm_mac (jget r key))), (''ip'', jget r ''ip-address''),
          (''hostname'', jget_default r ''hostname'' (JStr [])),
          (''classes'', py_or (jget r ''client-classes'') (JList [])),
          (''options'', py_or (jget r ''option-data'') (JList [])), (''source'', JStr ''config file'')])
        in if truthy (jget r ''hw-address'') then [row ''hw-address'']
           else if truthy (jget r ''client-id'') then [row ''client-id'']
           else [])"

definition config_reservations :: "json \<Rightarrow> json list res" where
  "config_reservations subnet =
     rbind (iter_or_empty (jget subnet ''reservations'')) (\<lambda>rs. Inr (concat (map (config_reservation subnet) rs)))"

definition is_hw_type :: "json \<Rightarrow> bool" where
  "is_hw_type v = (v = JStr ''hw-address'' \<or> py_eq v (JInt 0) \<or> v = JStr ''0'')"

definition is_cid_type :: "json \<Rightarrow> bool" where
  "is_cid_type v = (v = JStr ''client-id'' \<or> py_eq v (JInt 3) \<or> v = JStr ''3'')"

definition identifier_type_name :: "json \<Rightarrow> string" where
  "identifier_type_name value =
     (if py_eq value (JInt 0) \<or> value = JStr ''0'' then ''hw-address''
      else if py_eq value (JInt 3) \<or> value = JStr ''3'' then ''client-id''
      else str_of_json value)"

definition enabled_identifiers :: "json \<Rightarrow> string list option" where
  "enabled_identifiers dhcp4_cfg =
     (case jget dhcp4_cfg ''host-reservation-identifiers'' of
        JList xs \<Rightarrow> Some (map str_of_json xs)
      | _ \<Rightarrow> None)"

definition hit :: "string \<Rightarrow> string \<Rightarrow> json \<Rightarrow> bool" where
  "hit mac cid r =
     ((is_hw_type (jget r ''identifier_type'') \<and> mac \<noteq> [] \<and> norm_mac (jget r ''identifier'') = mac) \<or>
      (cid \<noteq> [] \<and> is_cid_type (jget r ''identifier_type'') \<and> norm_mac (jget r ''identifier'') = cid))"

text \<open>The first row of a scope that is the client's; an id that is not a number raises.\<close>

fun first_hit :: "(json \<Rightarrow> bool) \<Rightarrow> json \<Rightarrow> json list \<Rightarrow> json option res" where
  "first_hit h sid [] = Inr None"
| "first_hit h sid (r # rs) =
     rbind (int_of_json (py_or (jget r ''subnet_id'') (JInt 0))) (\<lambda>i.
     rbind (int_of_json sid) (\<lambda>j.
       if i = j \<and> h r then Inr (Some r) else first_hit h sid rs))"

definition match_reservation ::
  "client \<Rightarrow> json list \<Rightarrow> json \<Rightarrow> res_flags \<Rightarrow> json list \<Rightarrow> json option res" where
  "match_reservation client cands subnet_id flags db_rows =
     (let mac = norm_mac (JStr (cl_get client ''mac''));
          cid = norm_mac (JStr (cl_get client ''client_id''))
      in rbind (collect config_reservations cands) (\<lambda>cfg_rows.
           let rows = db_rows @ concat cfg_rows
           in rbind (if fl_in_subnet flags then first_hit (hit mac cid) subnet_id rows else Inr None) (\<lambda>sub.
              (case sub of
                 Some r \<Rightarrow> Inr (Some (jset ''scope'' (JStr ''subnet'') r))
               | None \<Rightarrow>
                   if fl_global flags then
                     rbind (first_hit (hit mac cid) (JInt 0) rows) (\<lambda>g.
                       Inr (map_option (jset ''scope'' (JStr ''global'')) g))
                   else Inr None))))"

section \<open>1. Subnet selection\<close>

text \<open>
  The operator's subnet, its shared network (found by name; \<open>None\<close> is looked up too), and the
  candidates: the subnet first, then its siblings in configuration order. The code drops the subnet
  itself from the siblings by identity: it is the first subnet with its id.
\<close>

definition own_network :: "json \<Rightarrow> json \<Rightarrow> json option res" where
  "own_network d4 sn_name = find_dict (named ''name'' sn_name) (jget d4 ''shared-networks'')"

definition candidate_subnets :: "json \<Rightarrow> json \<Rightarrow> json \<Rightarrow> json \<Rightarrow> json list" where
  "candidate_subnets d4 subnet_id subnet sn_name =
     (if truthy sn_name
      then
        let same = map fst (filter (\<lambda>(s, n). py_eq n sn_name) (iter_subnet4 d4))
        in subnet # (case find_index (\<lambda>s. py_eq (jget s ''id'') subnet_id) same of
                       Some i \<Rightarrow> remove_nth i same | None \<Rightarrow> same)
      else [subnet])"

datatype relay_verdict = NoRelay | RelayListed | RelayInside | RelayMismatch | RelayUnreadable

definition relay_addresses :: "json \<Rightarrow> json" where
  "relay_addresses subnet =
     (let r = py_or (jget subnet ''relay'') (JObj [])
      in if is_dict r
         then py_or (jget r ''ip-addresses'')
                (if truthy (jget r ''ip-address'') then JList [jget r ''ip-address''] else JList [])
         else JList [])"

definition relay_verdict_of :: "json \<Rightarrow> string \<Rightarrow> relay_verdict res" where
  "relay_verdict_of subnet giaddr_raw =
     (let giaddr = strip giaddr_raw
      in if giaddr = [] then Inr NoRelay
         else (case ip_of_string giaddr of
                 None \<Rightarrow> Inr RelayUnreadable
               | Some g \<Rightarrow>
                   rbind (py_in giaddr (relay_addresses subnet)) (\<lambda>listed.
                     if listed then Inr RelayListed
                     else (case net_of_json (jget subnet ''subnet'') of
                             None \<Rightarrow> Inr RelayUnreadable
                           | Some net \<Rightarrow> Inr (if ip_in_net g net then RelayInside else RelayMismatch)))))"

section \<open>2. The reservation that counts\<close>

text \<open>The matched row, and whether Kea looks at its identifier type at all.\<close>

definition honoured :: "json \<Rightarrow> json option \<Rightarrow> json option" where
  "honoured d4 row =
     (case (row, enabled_identifiers d4) of
        (Some r, Some enabled) \<Rightarrow>
          (if identifier_type_name (jget r ''identifier_type'') \<in> set enabled then Some r else None)
      | _ \<Rightarrow> row)"


section \<open>3. Classes\<close>

text \<open>Why a class row says what it says; the text of \<open>evaluate\<close>'s missing inputs is kept as their names.\<close>

datatype reason =
    NotListed          \<comment> \<open>only in additional lists, and nothing lists it\<close>
  | NoTest
  | ByReservation
  | NotEvaluable
  | NeedsInputs "string list"
  | NeedsClass
  | TestMatched
  | TestFailed
  | FromKea

record class_row =
  cr_name :: string
  cr_evaluable :: bool
  cr_matched :: "bool option"
  cr_reason :: reason
  cr_only_additional :: bool
  cr_missing :: "string list"
  cr_disagrees :: bool

definition name_list :: "json \<Rightarrow> string list res" where
  "name_list v = rbind (iter_or_empty v) (\<lambda>xs. if list_ex (\<lambda>x. \<not> hashable x) xs then Inl TypeError else Inr (strings_of xs))"

definition additional_lists :: "json \<Rightarrow> json option \<Rightarrow> json option \<Rightarrow> string list res" where
  "additional_lists subnet sn res_row =
     rbind (dicts_of (jget subnet ''pools'')) (\<lambda>ps.
     rbind (case res_row of Some r \<Rightarrow> name_list (jget r ''classes'') | None \<Rightarrow> Inr []) (\<lambda>rc.
       Inr (additional_classes subnet @
            (case sn of Some n \<Rightarrow> additional_classes n | None \<Rightarrow> []) @
            concat (map additional_classes ps) @ rc)))"

definition sorted_names :: "string list \<Rightarrow> string list" where
  "sorted_names xs = sort_by str_le (remdups xs)"

text \<open>The verdict on one class from its test and the classes before it.\<close>

definition judge_class ::
  "client \<Rightarrow> string list \<Rightarrow> json option \<Rightarrow> members \<Rightarrow> json \<Rightarrow> string \<Rightarrow> (bool \<times> bool option \<times> reason \<times> string list) res" where
  "judge_class client listed res_row ms c name =
     (let only = (truthy (jget c new_only) \<or> truthy (jget c old_only)); test = jget c ''test''
      in if only \<and> name \<notin> set listed then Inr (True, Some False, NotListed, [])
         else if \<not> truthy test then
           (case res_row of
              None \<Rightarrow> Inr (True, None, NoTest, [])
            | Some r \<Rightarrow>
                rbind (py_in name (py_or (jget r ''classes'') (JList []))) (\<lambda>assigned.
                  Inr (if assigned then (True, Some True, ByReservation, []) else (True, None, NoTest, []))))
         else
           (case test of
              JStr src \<Rightarrow>
                (case parse_expression src of
                   Inl ExprError \<Rightarrow> Inr (False, None, NotEvaluable, [])
                 | Inl e \<Rightarrow> Inl e
                 | Inr ast \<Rightarrow>
                     (case evaluate ast client ms of
                        (Some b, missing) \<Rightarrow>
                          Inr (True, Some b, if b then TestMatched else TestFailed, sorted_names missing)
                      | (None, missing) \<Rightarrow>
                          Inr (True, None,
                               if missing \<noteq> [] then NeedsInputs (sorted_names missing) else NeedsClass,
                               sorted_names missing)))
            | _ \<Rightarrow> Inl AttributeError))"

text \<open>
  One turn of the class loop: the verdict, whether it disagrees with the list Kea logged
  (\<open>kea_said\<close>, empty when there is none), and the override by that list.
\<close>

definition class_row_of ::
  "client \<Rightarrow> string list \<Rightarrow> json option \<Rightarrow> string list \<Rightarrow> members \<Rightarrow> json \<Rightarrow> string \<Rightarrow> class_row res" where
  "class_row_of client listed res_row kea_said ms c name =
     rbind (judge_class client listed res_row ms c name) (\<lambda>(evaluable, matched, why, missing).
       let only = (truthy (jget c new_only) \<or> truthy (jget c old_only));
           decided = (if evaluable \<and> truthy (jget c ''test'') \<and> \<not> only then matched else None);
           disagrees = (kea_said \<noteq> [] \<and> decided \<noteq> None \<and> decided \<noteq> Some (name \<in> set kea_said));
           from_kea = (name \<in> set kea_said \<and> matched \<noteq> Some True)
       in Inr \<lparr>cr_name = name, cr_evaluable = evaluable,
               cr_matched = (if from_kea then Some True else matched),
               cr_reason = (if from_kea then FromKea else why),
               cr_only_additional = only, cr_missing = missing, cr_disagrees = disagrees\<rparr>)"

text \<open>\<open>members[name] = ...\<close>: a later class of the same name replaces the earlier one.\<close>

fun class_loop ::
  "client \<Rightarrow> string list \<Rightarrow> json option \<Rightarrow> string list \<Rightarrow> members \<Rightarrow> json list \<Rightarrow> (members \<times> class_row list) res" where
  "class_loop client listed res_row kea_said ms [] = Inr (ms, [])"
| "class_loop client listed res_row kea_said ms (c # cs) =
     (if \<not> is_dict c \<or> \<not> truthy (jget c ''name'')
      then class_loop client listed res_row kea_said ms cs
      else
        (case jget c ''name'' of
           JStr name \<Rightarrow>
             rbind (class_row_of client listed res_row kea_said ms c name) (\<lambda>row.
             rbind (class_loop client listed res_row kea_said ((name, cr_matched row) # ms) cs) (\<lambda>(ms', rows).
               Inr (ms', row # rows)))
         | v \<Rightarrow> Inl (if hashable v then AttributeError else TypeError)))"

definition builtin_members :: "json option \<Rightarrow> members" where
  "builtin_members res_row =
     [(''ALL'', Some True), (''KNOWN'', Some (res_row \<noteq> None)), (''UNKNOWN'', Some (res_row = None))]"

definition classes_stage ::
  "json \<Rightarrow> client \<Rightarrow> json \<Rightarrow> json option \<Rightarrow> json option \<Rightarrow> string list \<Rightarrow> (members \<times> class_row list) res" where
  "classes_stage d4 client subnet sn res_row kea_said =
     rbind (additional_lists subnet sn res_row) (\<lambda>listed.
     rbind (iter_or_empty (jget d4 ''client-classes'')) (\<lambda>cs.
       class_loop client listed res_row kea_said (builtin_members res_row) cs))"

definition matched_names :: "class_row list \<Rightarrow> string list" where
  "matched_names rows = map cr_name (filter (\<lambda>r. cr_matched r = Some True) rows)"

section \<open>4. Guards\<close>

definition guard_state :: "members \<Rightarrow> json \<Rightarrow> bool option" where
  "guard_state ms container =
     (let states = map (member_of ms) (guard_classes container)
      in if states = [] then Some True
         else if Some False \<in> set states then Some False
         else if None \<in> set states then None
         else Some True)"

record subnet_state =
  ss_id :: json
  ss_subnet :: json
  ss_eligible :: "bool option"
  ss_guards :: "string list"

definition subnet_states :: "members \<Rightarrow> json option \<Rightarrow> json list \<Rightarrow> subnet_state list" where
  "subnet_states ms sn cands =
     (let sn_state = (case sn of Some n \<Rightarrow> guard_state ms n | None \<Rightarrow> Some True)
      in map (\<lambda>s. \<lparr>ss_id = jget s ''id'', ss_subnet = jget s ''subnet'',
                  ss_eligible = and3 sn_state (guard_state ms s), ss_guards = guard_classes s\<rparr>) cands)"

datatype guard_verdict = Eligible | AnotherSubnet | GuardUndecided | Blocked

definition guards_stage :: "json \<Rightarrow> json list \<Rightarrow> subnet_state list \<Rightarrow> guard_verdict \<times> json" where
  "guards_stage subnet cands states =
     (case find (\<lambda>s. ss_eligible s = Some True) states of
        Some sel \<Rightarrow>
          (if py_eq (ss_id sel) (jget subnet ''id'') then Eligible else AnotherSubnet,
           case find (\<lambda>s. py_eq (jget s ''id'') (ss_id sel)) cands of Some s \<Rightarrow> s | None \<Rightarrow> subnet)
      | None \<Rightarrow>
          (if list_ex (\<lambda>s. ss_eligible s = None) states then GuardUndecided else Blocked, subnet))"

section \<open>5. Pools and the answer\<close>

record pool_row =
  pr_pool :: json
  pr_eligible :: "bool option"
  pr_guards :: "string list"
  pr_size :: "int option"
  pr_used :: "int option"
  pr_free :: "int option"

definition pool_row_of :: "members \<Rightarrow> (json \<Rightarrow> json \<Rightarrow> int option) \<Rightarrow> json \<Rightarrow> json \<Rightarrow> pool_row" where
  "pool_row_of ms pool_used chosen p =
     (let n_addrs = map_option (\<lambda>(lo, hi). int hi - int lo + 1) (parse_pool (text_of (jget p ''pool'')) None);
          used = (if n_addrs = None then None else pool_used (jget chosen ''id'') (jget p ''pool''))
      in \<lparr>pr_pool = jget p ''pool'', pr_eligible = guard_state ms p, pr_guards = guard_classes p,
          pr_size = n_addrs, pr_used = used,
          pr_free = (case (n_addrs, used) of (Some n, Some u) \<Rightarrow> Some (max 0 (n - u)) | _ \<Rightarrow> None)\<rparr>)"

definition eligible_pools :: "pool_row list \<Rightarrow> pool_row list" where
  "eligible_pools rows = filter (\<lambda>p. pr_eligible p = Some True) rows"

definition has_room :: "pool_row \<Rightarrow> bool" where
  "has_room p = (case pr_free p of None \<Rightarrow> True | Some n \<Rightarrow> 0 < n)"

definition first_pool :: "pool_row list \<Rightarrow> pool_row option" where
  "first_pool rows = find has_room (eligible_pools rows)"

definition full_pools :: "pool_row list \<Rightarrow> pool_row list" where
  "full_pools rows = filter (\<lambda>p. pr_free p = Some 0) (eligible_pools rows)"

definition option_pool :: "pool_row list \<Rightarrow> pool_row option" where
  "option_pool rows =
     (case first_pool rows of
        Some p \<Rightarrow> Some p
      | None \<Rightarrow> (case eligible_pools rows of p # ps \<Rightarrow> Some p | [] \<Rightarrow> None))"

datatype pools_verdict = VReserved | VHeld | VLease | VPool | VFull | VUndecided | VNone

datatype address = FixedAt json | FromPool pool_row

record holder =
  h_mac :: string
  h_expire :: string

text \<open>\<open>res and res.get("ip")\<close>.\<close>

definition reserved_ip :: "json option \<Rightarrow> json option" where
  "reserved_ip res_row =
     (case res_row of
        Some r \<Rightarrow> (if truthy (jget r ''ip'') then Some (jget r ''ip'') else None)
      | None \<Rightarrow> None)"

definition lease_here :: "json \<Rightarrow> json \<Rightarrow> bool res" where
  "lease_here chosen lease =
     (if \<not> truthy lease then Inr False
      else rbind (int_of_json (py_or (jget lease ''subnet_id'') (JInt 0))) (\<lambda>i.
        Inr (py_eq (jget chosen ''id'') (JInt i) \<and> truthy (jget lease ''ip''))))"

definition answer_of ::
  "json option \<Rightarrow> holder option \<Rightarrow> json \<Rightarrow> json \<Rightarrow> pool_row list \<Rightarrow> (pools_verdict \<times> address option) res" where
  "answer_of res_ip held chosen lease rows =
     (case (res_ip, held) of
        (Some ip, Some h) \<Rightarrow> Inr (VHeld, None)
      | (Some ip, None) \<Rightarrow> Inr (VReserved, Some (FixedAt ip))
      | _ \<Rightarrow>
          rbind (lease_here chosen lease) (\<lambda>here.
            Inr (if here then (VLease, Some (FixedAt (jget lease ''ip'')))
                 else (case first_pool rows of
                         Some p \<Rightarrow> (VPool, Some (FromPool p))
                       | None \<Rightarrow>
                           if eligible_pools rows \<noteq> [] \<and> length (full_pools rows) = length (eligible_pools rows)
                           then (VFull, None)
                           else if list_ex (\<lambda>p. pr_eligible p = None) rows then (VUndecided, None)
                           else (VNone, None)))))"

text \<open>
  The evidence line on the reserved address: inside the chosen subnet or not (\<open>None\<close>: no line). An
  address that is none raises here.
\<close>

definition reserved_inside :: "json option \<Rightarrow> json \<Rightarrow> bool option res" where
  "reserved_inside res_ip chosen =
     (case res_ip of
        None \<Rightarrow> Inr None
      | Some ip \<Rightarrow>
          (case net_of_json (jget chosen ''subnet'') of
             None \<Rightarrow> Inr None
           | Some net \<Rightarrow>
               (case ip_of_json ip of None \<Rightarrow> Inl ValueError | Some a \<Rightarrow> Inr (Some (ip_in_net a net)))))"

section \<open>6. Options and lifetime\<close>

definition matched_classes :: "json list \<Rightarrow> string list \<Rightarrow> json list" where
  "matched_classes classes names =
     filter (\<lambda>c. is_dict c \<and> (case jget c ''name'' of JStr n \<Rightarrow> n \<in> set names | _ \<Rightarrow> False)) classes"

definition option_levels ::
  "json \<Rightarrow> json list \<Rightarrow> json option \<Rightarrow> json \<Rightarrow> json \<Rightarrow> json list \<Rightarrow> pool_row option \<Rightarrow> json option \<Rightarrow>
     (source \<times> json list) list res" where
  "option_levels d4 classes sn sn_name chosen pools opool res_row =
     rbind (case res_row of
              Some r \<Rightarrow> (if truthy (jget r ''options'')
                         then rbind (py_iter (jget r ''options'')) (\<lambda>os. Inr [(SrcReservation, filter is_dict os)])
                         else Inr [])
            | None \<Rightarrow> Inr []) (\<lambda>res_level.
       Inr ([(SrcGlobal, opts_of d4)] @
            map (\<lambda>c. (SrcClass (jget c ''name''), opts_of c)) classes @
            (case sn of Some n \<Rightarrow> [(SrcNetwork sn_name, opts_of n)] | None \<Rightarrow> []) @
            [(SrcSubnet, opts_of chosen)] @
            (case opool of
               Some p \<Rightarrow> [(SrcPool, case find (\<lambda>q. py_eq (jget q ''pool'') (pr_pool p)) pools of
                                      Some q \<Rightarrow> opts_of q | None \<Rightarrow> [])]
             | None \<Rightarrow> []) @
            res_level))"

datatype lifetime_from = FromSubnet | FromNetwork | FromClass json | FromGlobal | KeaDefault

definition lifetime_of :: "json \<Rightarrow> json option \<Rightarrow> json \<Rightarrow> json list \<Rightarrow> json \<times> lifetime_from" where
  "lifetime_of d4 sn subnet classes =
     (let scopes = [(subnet, FromSubnet)] @ (case sn of Some n \<Rightarrow> [(n, FromNetwork)] | None \<Rightarrow> []) @
                   map (\<lambda>c. (c, FromClass (jget c ''name''))) classes @ [(d4, FromGlobal)]
      in (case find (\<lambda>(v, l). is_dict v \<and> jget v ''valid-lifetime'' \<noteq> JNull) scopes of
            Some (v, l) \<Rightarrow> (jget v ''valid-lifetime'', l)
          | None \<Rightarrow> (JInt 7200, KeaDefault)))"

section \<open>The decision\<close>

record explanation =
  ex_relay :: relay_verdict
  ex_candidates :: "json list"
  ex_matched_row :: "json option"     \<comment> \<open>the row found, whether or not Kea looks at its type\<close>
  ex_reservation :: "json option"
  ex_members :: members
  ex_classes :: "class_row list"
  ex_subnets :: "subnet_state list"
  ex_guards :: guard_verdict
  ex_chosen :: json
  ex_pools :: "pool_row list"
  ex_holder :: "holder option"
  ex_verdict :: pools_verdict
  ex_answer :: "address option"
  ex_reserved_inside :: "bool option"
  ex_options :: "effective_row list"
  ex_lifetime :: "json \<times> lifetime_from"

text \<open>The result of \<open>explain\<close>; \<open>None\<close> is the answer that the subnet is not in the configuration.\<close>

definition explain ::
  "json \<Rightarrow> client \<Rightarrow> json \<Rightarrow> json list \<Rightarrow> json \<Rightarrow> string list \<Rightarrow> (json \<Rightarrow> json \<Rightarrow> int option) \<Rightarrow>
     (json \<Rightarrow> string \<Rightarrow> holder option) \<Rightarrow> explanation option res" where
  "explain d4 client subnet_id reservations lease kea_said pool_used holder_of =
     (case subnet4_by_id d4 subnet_id of
        None \<Rightarrow> Inr None
      | Some (subnet, sn_name) \<Rightarrow>
          rbind (own_network d4 sn_name) (\<lambda>sn.
          rbind (relay_verdict_of subnet (cl_get client ''giaddr'')) (\<lambda>relay.
          let cands = candidate_subnets d4 subnet_id subnet sn_name in
          rbind (match_reservation client cands (jget subnet ''id'') (reservation_flags d4 subnet) reservations) (\<lambda>row.
          let res_row = honoured d4 row in
          rbind (classes_stage d4 client subnet sn res_row kea_said) (\<lambda>(ms, class_rows).
          let states = subnet_states ms sn cands;
              (guards, chosen) = guards_stage subnet cands states in
          rbind (dicts_of (jget chosen ''pools'')) (\<lambda>pools.
          let rows = map (pool_row_of ms pool_used chosen) pools;
              res_ip = reserved_ip res_row;
              held = (case res_ip of Some ip \<Rightarrow> holder_of ip (cl_get client ''mac'') | None \<Rightarrow> None) in
          rbind (answer_of res_ip held chosen lease rows) (\<lambda>(verdict, answer).
          rbind (reserved_inside res_ip chosen) (\<lambda>inside.
          rbind (iter_or_empty (jget d4 ''client-classes'')) (\<lambda>all_classes.
          let classes = matched_classes all_classes (matched_names class_rows) in
          rbind (option_levels d4 classes sn sn_name chosen pools (option_pool rows) res_row) (\<lambda>levels.
          rbind (merge_levels levels) (\<lambda>options.
            Inr (Some \<lparr>ex_relay = relay, ex_candidates = cands, ex_matched_row = row, ex_reservation = res_row,
                       ex_members = ms, ex_classes = class_rows, ex_subnets = states, ex_guards = guards,
                       ex_chosen = chosen, ex_pools = rows, ex_holder = held, ex_verdict = verdict,
                       ex_answer = answer, ex_reserved_inside = inside, ex_options = options,
                       ex_lifetime = lifetime_of d4 sn chosen classes\<rparr>))))))))))))"

section \<open>The one sentence\<close>

datatype answer_text =
    GetsReserved json
  | NotYet
  | KeepsLease json
  | OfferedFrom pool_row
  | AllFull
  | Undecided "string list" "string list"   \<comment> \<open>the classes, and the inputs they need\<close>
  | PoolsBlocked "string list" nat          \<comment> \<open>the guards, and how many pools they block\<close>
  | SubnetsBlocked
  | NoPool

definition undecided_classes :: "class_row list \<Rightarrow> string list" where
  "undecided_classes rows = map cr_name (filter (\<lambda>r. cr_matched r = None \<and> cr_evaluable r) rows)"

definition missing_inputs :: "class_row list \<Rightarrow> string list" where
  "missing_inputs rows = sorted_names (concat (map cr_missing (filter (\<lambda>r. cr_matched r = None) rows)))"

definition no_pool_text :: "explanation \<Rightarrow> answer_text" where
  "no_pool_text x =
     (let blockers = filter (\<lambda>p. pr_eligible p = Some False) (ex_pools x)
      in if blockers \<noteq> [] \<and> length blockers = length (ex_pools x)
         then PoolsBlocked (sorted_names (concat (map pr_guards blockers))) (length blockers)
         else if ex_guards x = Blocked then SubnetsBlocked
         else NoPool)"

text \<open>The sentence, and whether it opens with the warning that the relay does not match.\<close>

definition answer_line :: "explanation \<Rightarrow> bool \<times> answer_text" where
  "answer_line x =
     (ex_relay x = RelayMismatch,
      case (ex_verdict x, ex_answer x) of
        (VReserved, Some (FixedAt ip)) \<Rightarrow> GetsReserved ip
      | (VHeld, _) \<Rightarrow> NotYet
      | (VLease, Some (FixedAt ip)) \<Rightarrow> KeepsLease ip
      | (VPool, Some (FromPool p)) \<Rightarrow> OfferedFrom p
      | (VFull, _) \<Rightarrow> AllFull
      | (VUndecided, _) \<Rightarrow> Undecided (undecided_classes (ex_classes x)) (missing_inputs (ex_classes x))
      | _ \<Rightarrow> no_pool_text x)"

end
