(* ===== verification/ExplainProps.thy ===== *)
theory ExplainProps
  imports Explain
begin

text \<open>
  What the decision of \<open>explain\<close> (\<open>jen/services/dhcp_explain.py\<close>) promises: classes see only the
  classes before them, more information only decides what was undecided, the chosen subnet and pool
  are the first eligible ones, and each verdict on the address means what it says.
\<close>

section \<open>Inversion of the composition\<close>

lemma explain_inv:
  assumes "explain d4 client sid res lease said pu ho = Inr (Some x)"
  shows "\<exists>subnet sn_name sn pools. subnet4_by_id d4 sid = Some (subnet, sn_name) \<and> own_network d4 sn_name = Inr sn \<and>
    ex_candidates x = candidate_subnets d4 sid subnet sn_name \<and>
    classes_stage d4 client subnet sn (ex_reservation x) said = Inr (ex_members x, ex_classes x) \<and>
    ex_subnets x = subnet_states (ex_members x) sn (ex_candidates x) \<and>
    guards_stage subnet (ex_candidates x) (ex_subnets x) = (ex_guards x, ex_chosen x) \<and>
    dicts_of (jget (ex_chosen x) ''pools'') = Inr pools \<and>
    ex_pools x = map (pool_row_of (ex_members x) pu (ex_chosen x)) pools \<and>
    answer_of (reserved_ip (ex_reservation x)) (ex_holder x) (ex_chosen x) lease (ex_pools x) = Inr (ex_verdict x, ex_answer x) \<and>
    ex_holder x = (case reserved_ip (ex_reservation x) of Some ip \<Rightarrow> ho ip (cl_get client ''mac'') | None \<Rightarrow> None)"
proof -
  obtain subnet sn_name where s: "subnet4_by_id d4 sid = Some (subnet, sn_name)"
    using assms by (cases "subnet4_by_id d4 sid") (auto simp: explain_def)
  show ?thesis
    using assms s
    apply (simp add: explain_def Let_def res_simps split_beta)
    apply (elim exE conjE)
    apply (rule exI, rule conjI, assumption)
    apply (drule sym [of _ x])
    apply simp
    done
qed

section \<open>The class loop\<close>

text \<open>
  A class is judged by the classes before it: the rows of a list of classes do not depend on the
  classes that follow, and those see exactly the verdicts of the first ones.
\<close>

theorem class_loop_append:
  "class_loop client listed res_row said ms (xs @ ys) =
     rbind (class_loop client listed res_row said ms xs) (\<lambda>(ms', rows).
     rbind (class_loop client listed res_row said ms' ys) (\<lambda>(ms'', rows').
       Inr (ms'', rows @ rows')))"
proof (induction xs arbitrary: ms)
  case Nil
  show ?case by (cases "class_loop client listed res_row said ms ys") auto
next
  case (Cons c cs)
  show ?case
  proof (cases "\<not> is_dict c \<or> \<not> truthy (jget c ''name'')")
    case True
    then show ?thesis by (simp add: Cons.IH)
  next
    case False
    show ?thesis
    proof (cases "jget c ''name''")
      case (JStr name)
      show ?thesis
      proof (cases "class_row_of client listed res_row said ms c name")
        case (Inr row)
        show ?thesis
          using False JStr Inr Cons.IH [of "(name, cr_matched row) # ms"]
          by (cases "class_loop client listed res_row said ((name, cr_matched row) # ms) cs")
            (auto simp: rbind_def split: sum.split prod.split)
      qed (use False JStr in simp)
    qed (use False in simp_all)
  qed
qed


section \<open>More inputs decide more, and change nothing that was decided\<close>

lemma members_more_Cons:
  assumes "members_more ms ms'" and "\<And>b. u = Some b \<Longrightarrow> v = Some b"
  shows "members_more ((n, u) # ms) ((n, v) # ms')"
  using assms by (auto simp: members_more_def member_of_def)

lemma members_more_refl: "members_more ms ms"
  by (simp add: members_more_def)

text \<open>A judgement with more information: the same where the first one is decided.\<close>

definition refines_row :: "class_row \<Rightarrow> class_row \<Rightarrow> bool" where
  "refines_row r r' = (cr_name r' = cr_name r \<and> cr_evaluable r' = cr_evaluable r \<and>
     (cr_matched r = None \<or> cr_matched r' = cr_matched r))"

lemma judge_class_mono:
  assumes sup: "supplies c c'" and ms: "members_more ms ms'"
    and j: "judge_class c listed res_row ms cls name = Inr (ev, matched, why, missing)"
  shows "\<exists>matched' why' missing'. judge_class c' listed res_row ms' cls name = Inr (ev, matched', why', missing') \<and>
    (matched = None \<or> matched' = matched)"
proof (cases "(truthy (jget cls new_only) \<or> truthy (jget cls old_only)) \<and> name \<notin> set listed \<or> \<not> truthy (jget cls ''test'')")
  case True
  then have "judge_class c' listed res_row ms' cls name = judge_class c listed res_row ms cls name"
    by (auto simp: judge_class_def Let_def)
  then show ?thesis using j by auto
next
  case False
  then obtain src where src: "jget cls ''test'' = JStr src"
    using j by (cases "jget cls ''test''") (auto simp: judge_class_def Let_def)
  show ?thesis
  proof (cases "parse_expression src")
    case (Inl x)
    then show ?thesis using False src j by (cases x) (auto simp: judge_class_def Let_def)
  next
    case (Inr ast)
    obtain v m where v: "evaluate ast c ms = (v, m)" by (cases "evaluate ast c ms")
    obtain v' m' where v': "evaluate ast c' ms' = (v', m')" by (cases "evaluate ast c' ms'")
    have "v = None \<or> v' = v"
      using verdict_mono [OF supplies_knows_more [OF sup] ms, of ast] v v' by (cases v) (auto simp: verdict_def)
    then show ?thesis
      using False src Inr v v' j by (cases v; cases v') (auto simp: judge_class_def Let_def)
  qed
qed

lemma class_row_mono:
  assumes "supplies c c'" and "members_more ms ms'" and r: "class_row_of c listed res_row said ms cls name = Inr row"
  shows "\<exists>row'. class_row_of c' listed res_row said ms' cls name = Inr row' \<and> refines_row row row'"
proof -
  obtain ev matched why missing where j: "judge_class c listed res_row ms cls name = Inr (ev, matched, why, missing)"
    using r by (cases "judge_class c listed res_row ms cls name") (auto simp: class_row_of_def)
  obtain matched' why' missing' where j': "judge_class c' listed res_row ms' cls name = Inr (ev, matched', why', missing')"
      "matched = None \<or> matched' = matched"
    using judge_class_mono [OF assms(1,2) j] by blast
  then show ?thesis using r j by (auto simp: class_row_of_def refines_row_def Let_def)
qed

lemma class_loop_mono:
  assumes "supplies c c'" and "members_more ms ms'" and "class_loop c listed res_row said ms cs = Inr (mz, rows)"
  shows "\<exists>mz' rows'. class_loop c' listed res_row said ms' cs = Inr (mz', rows') \<and>
    list_all2 refines_row rows rows' \<and> members_more mz mz'"
  using assms(2,3)
proof (induction cs arbitrary: ms ms' mz rows)
  case (Cons cls cs)
  show ?case
  proof (cases "\<not> is_dict cls \<or> \<not> truthy (jget cls ''name'')")
    case True
    then show ?thesis using Cons by simp
  next
    case False
    then obtain name where name: "jget cls ''name'' = JStr name"
      using Cons.prems(2) by (cases "jget cls ''name''") auto
    obtain row rows0 where row: "class_row_of c listed res_row said ms cls name = Inr row"
      and rest: "class_loop c listed res_row said ((name, cr_matched row) # ms) cs = Inr (mz, rows0)" "rows = row # rows0"
      using Cons.prems(2) False name by (auto simp: res_simps)
    obtain row' where row': "class_row_of c' listed res_row said ms' cls name = Inr row'" "refines_row row row'"
      using class_row_mono [OF assms(1) Cons.prems(1) row] by blast
    have "members_more ((name, cr_matched row) # ms) ((name, cr_matched row') # ms')"
      using row'(2) by (intro members_more_Cons Cons.prems(1)) (auto simp: refines_row_def)
    from Cons.IH [OF this rest(1)] show ?thesis
      using False name row' rest(2) by auto
  qed
qed simp

lemma guard_state_mono:
  assumes "members_more ms ms'" and "guard_state ms g = Some b"
  shows "guard_state ms' g = Some b"
proof (cases "guard_classes g = []")
  case False
  have T: "member_of ms' n = Some v" if "member_of ms n = Some v" for n v
    using assms(1) that by (simp add: members_more_def)
  show ?thesis
  proof (cases b)
    case True
    then have a: "Some False \<notin> member_of ms ` set (guard_classes g)" "None \<notin> member_of ms ` set (guard_classes g)"
      using assms(2) False by (auto simp: guard_state_def Let_def split: if_splits)
    have "\<forall>n \<in> set (guard_classes g). member_of ms' n = Some True"
    proof
      fix n assume n: "n \<in> set (guard_classes g)"
      then have "member_of ms n \<noteq> Some False" "member_of ms n \<noteq> None" using a by (metis image_eqI)+
      then obtain v where v: "member_of ms n = Some v" "v \<noteq> False" by (cases "member_of ms n") auto
      then show "member_of ms' n = Some True" using T by simp
    qed
    then show ?thesis using True False by (auto simp: guard_state_def Let_def)
  next
    case b: False
    then have "Some False \<in> member_of ms ` set (guard_classes g)"
      using assms(2) False by (auto simp: guard_state_def Let_def split: if_splits)
    then obtain n where "n \<in> set (guard_classes g)" "member_of ms n = Some False" by (auto simp: image_iff)
    then have "Some False \<in> member_of ms' ` set (guard_classes g)" using T by (metis image_eqI)
    then show ?thesis using b False by (simp add: guard_state_def Let_def)
  qed
qed (use assms(2) in \<open>simp add: guard_state_def Let_def\<close>)

text \<open>
  Supplying further inputs, the rest being equal, leaves every class that was decided as it was
  and every guard that was satisfied or failed as it was: only what was undecided can change. So an
  operator who types one more input never sees a decided row of the Explain page turn over.
\<close>

theorem more_inputs_decide_more:
  assumes "supplies c c'" and "classes_stage d4 c subnet sn res_row said = Inr (ms, rows)"
  shows "\<exists>ms' rows'. classes_stage d4 c' subnet sn res_row said = Inr (ms', rows') \<and>
    list_all2 refines_row rows rows' \<and>
    (\<forall>g b. guard_state ms g = Some b \<longrightarrow> guard_state ms' g = Some b)"
proof -
  obtain listed cs where l: "additional_lists subnet sn res_row = Inr listed"
      "iter_or_empty (jget d4 ''client-classes'') = Inr cs"
      "class_loop c listed res_row said (builtin_members res_row) cs = Inr (ms, rows)"
    using assms(2) by (auto simp: classes_stage_def res_simps)
  obtain ms' rows' where "class_loop c' listed res_row said (builtin_members res_row) cs = Inr (ms', rows')"
      "list_all2 refines_row rows rows'" "members_more ms ms'"
    using class_loop_mono [OF assms(1) members_more_refl l(3)] by blast
  then show ?thesis using l guard_state_mono by (auto simp: classes_stage_def)
qed

definition demo_d4 :: json where
  "demo_d4 = JObj [
     (''client-classes'', JList [
        JObj [(''name'', JStr ''ap''), (''test'', JStr (''option[12].text == '' @ [single_quote] @ ''ap'' @ [single_quote]))],
        JObj [(''name'', JStr ''not_ap''), (''test'', JStr (''not (member('' @ [single_quote] @ ''ap'' @ [single_quote] @ ''))''))]]),
     (''subnet4'', JList [JObj [
        (''id'', JInt 1), (''subnet'', JStr ''0.0.0.0/24''), (''client-classes'', JList [JStr ''ap'']),
        (''pools'', JList [JObj [(''pool'', JStr ''0.0.0.10 - 0.0.0.12'')], JObj [(''pool'', JStr ''0.0.0.20 - 0.0.0.29'')]])]])]"

definition demo_subnet :: json where
  "demo_subnet = (case subnet4_by_id demo_d4 (JInt 1) of Some (s, n) \<Rightarrow> s | None \<Rightarrow> JNull)"

lemma more_inputs_decide_more_witness:
  "\<exists>ms' rows'. classes_stage demo_d4 [(''hostname'', ''sw''), (''mac'', ''00:11:22:33:44:55'')] demo_subnet None None [] = Inr (ms', rows') \<and>
    list_all2 refines_row
      [\<lparr>cr_name = ''ap'', cr_evaluable = True, cr_matched = Some False, cr_reason = TestFailed,
        cr_only_additional = False, cr_missing = [], cr_disagrees = False\<rparr>,
       \<lparr>cr_name = ''not_ap'', cr_evaluable = True, cr_matched = Some True, cr_reason = TestMatched,
        cr_only_additional = False, cr_missing = [], cr_disagrees = False\<rparr>] rows' \<and>
    (\<forall>g b. guard_state [(''not_ap'', Some True), (''ap'', Some False), (''ALL'', Some True), (''KNOWN'', Some False), (''UNKNOWN'', Some True)] g
        = Some b \<longrightarrow> guard_state ms' g = Some b)"
proof (rule more_inputs_decide_more)
  show "supplies [(''hostname'', ''sw'')] [(''hostname'', ''sw''), (''mac'', ''00:11:22:33:44:55'')]"
    by (auto simp: supplies_def cl_get_def accessors_def split: if_splits)
qed code_simp


section \<open>The chosen subnet\<close>

lemma find_first: "find P xs = Some x \<Longrightarrow> \<exists>i < length xs. xs ! i = x \<and> P x \<and> (\<forall>j < i. \<not> P (xs ! j))"
  by (auto simp: find_Some_iff)

lemma find_none: "find P xs = None \<Longrightarrow> \<forall>x \<in> set xs. \<not> P x"
  by (simp add: find_None_iff)

lemma wf_subnets_of: "wf_json c \<Longrightarrow> s \<in> set (subnets_of c key) \<Longrightarrow> wf_json s"
  by (cases "jget c key") (auto simp: subnets_of_def dest: wf_jget_list)

lemma wf_networks: "wf_json c \<Longrightarrow> s \<in> set (shared_networks c) \<Longrightarrow> wf_json s"
  by (cases "jget c ''shared-networks''") (auto simp: shared_networks_def dest: wf_jget_list)

lemma wf_iter_subnet4: "wf_json d4 \<Longrightarrow> (s, n) \<in> set (iter_subnet4 d4) \<Longrightarrow> wf_json s"
  by (auto simp: iter_subnet4_def iter_subnets_def dest: wf_networks wf_subnets_of)

lemma wf_candidates:
  assumes "wf_json d4" and "subnet4_by_id d4 sid = Some (subnet, n)" and "s \<in> set (candidate_subnets d4 sid subnet n)"
  shows "wf_json s"
proof -
  have "(subnet, n) \<in> set (iter_subnet4 d4)" using assms(2) by (auto simp: subnet4_by_id_def find_Some_iff in_set_conv_nth)
  then have sub: "wf_json subnet" by (rule wf_iter_subnet4 [OF assms(1)])
  have "s = subnet \<or> s \<in> set (map fst (iter_subnet4 d4))"
    using assms(3) set_remove_nth by (fastforce simp: candidate_subnets_def Let_def split: if_splits option.splits)
  then show ?thesis using sub wf_iter_subnet4 [OF assms(1)] by auto
qed

lemma selected_subnet:
  assumes sel: "find (\<lambda>s. ss_eligible s = Some True) (subnet_states ms sn cands) = Some sel"
    and wf: "\<And>s. s \<in> set cands \<Longrightarrow> wf_json s"
    and g: "guards_stage subnet cands (subnet_states ms sn cands) = (gv, ch)"
  shows "(gv = Eligible \<or> gv = AnotherSubnet) \<and>
    (\<exists>i < length cands. ss_eligible (subnet_states ms sn cands ! i) = Some True \<and>
       (\<forall>j < i. ss_eligible (subnet_states ms sn cands ! j) \<noteq> Some True) \<and> ch \<in> set cands \<and>
       py_eq (jget ch ''id'') (jget (cands ! i) ''id'') \<and>
       (gv = Eligible) = py_eq (jget (cands ! i) ''id'') (jget subnet ''id''))"
proof -
  let ?st = "subnet_states ms sn cands"
  have len: "length ?st = length cands" by (simp add: subnet_states_def Let_def)
  obtain i where i: "i < length ?st" "?st ! i = sel" "ss_eligible sel = Some True"
      "\<forall>j < i. ss_eligible (?st ! j) \<noteq> Some True"
    using find_first [OF sel] by blast
  have id: "ss_id sel = jget (cands ! i) ''id''"
    using i len by (simp add: subnet_states_def Let_def flip: i(2))
  have m: "cands ! i \<in> set cands" using i len by simp
  then have "py_eq (jget (cands ! i) ''id'') (ss_id sel)" using id py_eq_refl wf wf_jget by simp
  then obtain c where found: "find (\<lambda>s. py_eq (jget s ''id'') (ss_id sel)) cands = Some c"
    using find_none m by (metis (mono_tags, lifting) not_None_eq)
  then have "ch = c" "gv = (if py_eq (ss_id sel) (jget subnet ''id'') then Eligible else AnotherSubnet)"
    using g sel by (auto simp: guards_stage_def)
  moreover have "c \<in> set cands" "py_eq (jget c ''id'') (ss_id sel)" using found by (auto simp: find_Some_iff)
  ultimately show ?thesis using i len id by auto
qed

text \<open>
  The subnet the answer is about. When the guards leave a subnet eligible, it has the id of the
  first eligible candidate (the requested subnet first, then its siblings), and "eligible" is said
  exactly when that is the requested one; otherwise the answer stays with the requested subnet, and
  "blocked" means that every candidate's guards, the shared network's included, failed.
\<close>

theorem chosen_subnet:
  assumes "explain d4 client sid res lease said pu ho = Inr (Some x)" and "wf_json d4"
  shows "\<exists>subnet sn_name. subnet4_by_id d4 sid = Some (subnet, sn_name) \<and> hd (ex_candidates x) = subnet \<and>
    map ss_id (ex_subnets x) = map (\<lambda>s. jget s ''id'') (ex_candidates x) \<and>
    (if ex_guards x = Eligible \<or> ex_guards x = AnotherSubnet
     then \<exists>i < length (ex_candidates x). ss_eligible (ex_subnets x ! i) = Some True \<and>
            (\<forall>j < i. ss_eligible (ex_subnets x ! j) \<noteq> Some True) \<and>
            ex_chosen x \<in> set (ex_candidates x) \<and>
            py_eq (jget (ex_chosen x) ''id'') (jget (ex_candidates x ! i) ''id'') \<and>
            (ex_guards x = Eligible) = py_eq (jget (ex_candidates x ! i) ''id'') (jget subnet ''id'')
     else ex_chosen x = subnet \<and> (\<forall>s \<in> set (ex_subnets x). ss_eligible s \<noteq> Some True) \<and>
          (ex_guards x = Blocked) = (\<forall>s \<in> set (ex_subnets x). ss_eligible s = Some False))"
proof -
  obtain subnet sn_name sn where s: "subnet4_by_id d4 sid = Some (subnet, sn_name)"
    and c: "ex_candidates x = candidate_subnets d4 sid subnet sn_name"
    and st: "ex_subnets x = subnet_states (ex_members x) sn (ex_candidates x)"
    and g: "guards_stage subnet (ex_candidates x) (ex_subnets x) = (ex_guards x, ex_chosen x)"
    using explain_inv [OF assms(1)] by blast
  have hd: "hd (ex_candidates x) = subnet" by (simp add: c candidate_subnets_def Let_def)
  have ids: "map ss_id (ex_subnets x) = map (\<lambda>s. jget s ''id'') (ex_candidates x)"
    by (simp add: st subnet_states_def Let_def comp_def)
  have len: "length (ex_subnets x) = length (ex_candidates x)" by (simp add: st subnet_states_def Let_def)
  show ?thesis
  proof (cases "find (\<lambda>s. ss_eligible s = Some True) (ex_subnets x)")
    case None
    have "(\<exists>s \<in> set (ex_subnets x). ss_eligible s = None) \<longleftrightarrow> \<not> (\<forall>s \<in> set (ex_subnets x). ss_eligible s = Some False)"
      using find_none [OF None] by (metis (full_types) not_None_eq option.discI)
    then show ?thesis
      using s hd ids g None find_none [OF None]
      by (auto simp: guards_stage_def list_ex_iff split: if_splits)
  next
    case (Some sel)
    have wf: "\<And>s. s \<in> set (ex_candidates x) \<Longrightarrow> wf_json s"
      using wf_candidates [OF assms(2) s] c by simp
    show ?thesis
      using selected_subnet [OF Some [unfolded st] wf g [unfolded st]] s hd ids by (auto simp: st)
  qed
qed

text \<open>The example: \<open>demo_d4\<close> above, asked for a client whose host name is \<open>ap\<close>, or any other name.\<close>

definition demo_run :: "string \<Rightarrow> explanation option res" where
  "demo_run host = explain demo_d4 [(''hostname'', host)] (JInt 1) [] JNull [] (\<lambda>sid p. None) (\<lambda>ip mac. None)"

definition demo_explanation :: "string \<Rightarrow> explanation" where
  "demo_explanation host = (case demo_run host of Inr (Some x) \<Rightarrow> x | _ \<Rightarrow> undefined)"

definition ran :: "explanation option res \<Rightarrow> bool" where
  "ran r = (case r of Inr (Some x) \<Rightarrow> True | _ \<Rightarrow> False)"

lemma demo_ran:
  "ran (demo_run host) \<Longrightarrow> explain demo_d4 [(''hostname'', host)] (JInt 1) [] JNull [] (\<lambda>sid p. None) (\<lambda>ip mac. None) =
     Inr (Some (demo_explanation host))"
  by (auto simp: ran_def demo_explanation_def simp flip: demo_run_def split: sum.splits option.splits)

lemma wf_demo_d4: "wf_json demo_d4"
  by (simp add: demo_d4_def)

lemma chosen_subnet_witness:
  "hd (ex_candidates (demo_explanation ''ap'')) = demo_subnet \<and> ex_guards (demo_explanation ''ap'') = Eligible"
proof -
  have r: "ran (demo_run ''ap'')" by code_simp
  have "subnet4_by_id demo_d4 (JInt 1) = Some (demo_subnet, JNull)" by code_simp
  moreover have "ex_guards (demo_explanation ''ap'') = Eligible" by code_simp
  ultimately show ?thesis using chosen_subnet [OF demo_ran [OF r] wf_demo_d4] by auto
qed

section \<open>The address\<close>

lemma pool_row_free: "p \<in> set (map (pool_row_of ms pu chosen) pools) \<Longrightarrow> pr_free p = Some n \<Longrightarrow> 0 \<le> n"
  by (auto simp: pool_row_of_def Let_def split: option.splits)

lemma no_room_full:
  assumes "p \<in> set (map (pool_row_of ms pu chosen) pools)"
  shows "\<not> has_room p \<longleftrightarrow> pr_free p = Some 0"
  using pool_row_free [OF assms] by (auto simp: has_room_def split: option.splits)

lemma first_pool_Some:
  assumes "first_pool rows = Some p"
  shows "\<exists>i < length rows. rows ! i = p \<and> pr_eligible p = Some True \<and> has_room p \<and>
    (\<forall>j < i. pr_eligible (rows ! j) \<noteq> Some True \<or> \<not> has_room (rows ! j))"
proof -
  have "find has_room (filter (\<lambda>p. pr_eligible p = Some True) rows) =
      find (\<lambda>p. pr_eligible p = Some True \<and> has_room p) rows"
    by (induction rows) auto
  then show ?thesis using assms find_first by (fastforce simp: first_pool_def eligible_pools_def)
qed

lemma first_pool_None: "first_pool rows = None \<longleftrightarrow> (\<forall>p \<in> set rows. pr_eligible p = Some True \<longrightarrow> \<not> has_room p)"
  by (auto simp: first_pool_def eligible_pools_def find_None_iff)

lemma all_full:
  assumes "\<forall>p \<in> set (eligible_pools rows). pr_free p = Some 0"
  shows "length (full_pools rows) = length (eligible_pools rows)"
  using assms by (simp add: full_pools_def filter_id_conv)

definition answer_from_pools :: "pool_row list \<Rightarrow> pools_verdict \<times> address option" where
  "answer_from_pools rows =
     (case first_pool rows of
        Some p \<Rightarrow> (VPool, Some (FromPool p))
      | None \<Rightarrow>
          if eligible_pools rows \<noteq> [] \<and> length (full_pools rows) = length (eligible_pools rows) then (VFull, None)
          else if list_ex (\<lambda>p. pr_eligible p = None) rows then (VUndecided, None)
          else (VNone, None))"

definition pools_decide :: "pool_row list \<Rightarrow> pools_verdict \<Rightarrow> address option \<Rightarrow> bool" where
  "pools_decide rows v a =
     (case v of
        VPool \<Rightarrow> \<exists>i < length rows. a = Some (FromPool (rows ! i)) \<and>
          pr_eligible (rows ! i) = Some True \<and> pr_free (rows ! i) \<noteq> Some 0 \<and>
          (\<forall>j < i. pr_eligible (rows ! j) = Some True \<longrightarrow> pr_free (rows ! j) = Some 0)
      | VFull \<Rightarrow> a = None \<and> (\<exists>p \<in> set rows. pr_eligible p = Some True) \<and>
          (\<forall>p \<in> set rows. pr_eligible p = Some True \<longrightarrow> pr_free p = Some 0)
      | VUndecided \<Rightarrow> a = None \<and> (\<forall>p \<in> set rows. pr_eligible p \<noteq> Some True) \<and> (\<exists>p \<in> set rows. pr_eligible p = None)
      | VNone \<Rightarrow> a = None \<and> (\<forall>p \<in> set rows. pr_eligible p = Some False)
      | _ \<Rightarrow> False)"

lemma eligible_pools_empty: "eligible_pools rows = [] \<longleftrightarrow> (\<forall>p \<in> set rows. pr_eligible p \<noteq> Some True)"
  by (auto simp: eligible_pools_def filter_empty_conv)

lemma all_ruled_out:
  "\<forall>p \<in> set rows. pr_eligible p \<noteq> Some True \<Longrightarrow> \<not> list_ex (\<lambda>p. pr_eligible p = None) rows \<Longrightarrow>
     \<forall>p \<in> set rows. pr_eligible p = Some False"
  by (auto simp: list_ex_iff) (metis (full_types) option.exhaust)

lemma pool_found_decides:
  assumes "\<And>p. p \<in> set rows \<Longrightarrow> \<not> has_room p \<longleftrightarrow> pr_free p = Some 0" and "first_pool rows = Some p"
  shows "pools_decide rows VPool (Some (FromPool p))"
proof -
  obtain i where i: "i < length rows" "rows ! i = p" "pr_eligible p = Some True" "has_room p"
      "\<forall>j < i. pr_eligible (rows ! j) \<noteq> Some True \<or> \<not> has_room (rows ! j)"
    using first_pool_Some [OF assms(2)] by blast
  have "pr_free (rows ! j) = Some 0" if "j < i" "pr_eligible (rows ! j) = Some True" for j
    using assms(1) [of "rows ! j"] i that by simp
  moreover have "pr_free p \<noteq> Some 0" using assms(1) [of p] i by auto
  ultimately show ?thesis using i by (auto simp: pools_decide_def)
qed

lemma answer_from_pools_decides:
  assumes full: "\<And>p. p \<in> set rows \<Longrightarrow> \<not> has_room p \<longleftrightarrow> pr_free p = Some 0" and v: "answer_from_pools rows = (v, a)"
  shows "pools_decide rows v a"
proof (cases "first_pool rows")
  case (Some p)
  then show ?thesis using v pool_found_decides [OF full Some] by (auto simp: answer_from_pools_def)
next
  case None
  then have all: "\<forall>p \<in> set rows. pr_eligible p = Some True \<longrightarrow> pr_free p = Some 0"
    using full by (auto simp: first_pool_None)
  then have "length (full_pools rows) = length (eligible_pools rows)"
    by (intro all_full) (auto simp: eligible_pools_def)
  then show ?thesis
    using v None all all_ruled_out [of rows] eligible_pools_empty [of rows]
    by (auto simp: answer_from_pools_def pools_decide_def list_ex_iff split: if_splits)
qed

text \<open>
  C7. What the verdict on the address means. "pool": the address comes from the first pool whose
  guards are satisfied and that is not known to be full, every eligible pool before it being full;
  "full": some pool is eligible and every eligible pool has no free address; "undecided": no pool is
  eligible and some guard is undecided; "none": every pool's guards failed; "reserved" and "held":
  a reservation with an address was matched, and the address is free or held by another client.
\<close>

theorem address_verdict:
  assumes "explain d4 client sid res lease said pu ho = Inr (Some x)"
  shows "case ex_verdict x of
      VPool \<Rightarrow> \<exists>i < length (ex_pools x). ex_answer x = Some (FromPool (ex_pools x ! i)) \<and>
        pr_eligible (ex_pools x ! i) = Some True \<and> pr_free (ex_pools x ! i) \<noteq> Some 0 \<and>
        (\<forall>j < i. pr_eligible (ex_pools x ! j) = Some True \<longrightarrow> pr_free (ex_pools x ! j) = Some 0)
    | VFull \<Rightarrow> ex_answer x = None \<and> (\<exists>p \<in> set (ex_pools x). pr_eligible p = Some True) \<and>
        (\<forall>p \<in> set (ex_pools x). pr_eligible p = Some True \<longrightarrow> pr_free p = Some 0)
    | VUndecided \<Rightarrow> ex_answer x = None \<and> (\<forall>p \<in> set (ex_pools x). pr_eligible p \<noteq> Some True) \<and>
        (\<exists>p \<in> set (ex_pools x). pr_eligible p = None)
    | VNone \<Rightarrow> ex_answer x = None \<and> (\<forall>p \<in> set (ex_pools x). pr_eligible p = Some False)
    | VReserved \<Rightarrow> \<exists>r. ex_reservation x = Some r \<and> truthy (jget r ''ip'') \<and>
        ex_answer x = Some (FixedAt (jget r ''ip'')) \<and> ho (jget r ''ip'') (cl_get client ''mac'') = None
    | VHeld \<Rightarrow> \<exists>r h. ex_reservation x = Some r \<and> truthy (jget r ''ip'') \<and>
        ex_answer x = None \<and> ho (jget r ''ip'') (cl_get client ''mac'') = Some h
    | VLease \<Rightarrow> ex_answer x = Some (FixedAt (jget lease ''ip'')) \<and> truthy (jget lease ''ip'')"
proof -
  obtain pools where rows: "ex_pools x = map (pool_row_of (ex_members x) pu (ex_chosen x)) pools"
    and ans: "answer_of (reserved_ip (ex_reservation x)) (ex_holder x) (ex_chosen x) lease (ex_pools x) = Inr (ex_verdict x, ex_answer x)"
    and hold: "ex_holder x = (case reserved_ip (ex_reservation x) of Some ip \<Rightarrow> ho ip (cl_get client ''mac'') | None \<Rightarrow> None)"
    using explain_inv [OF assms] by blast
  have full: "\<And>p. p \<in> set (ex_pools x) \<Longrightarrow> \<not> has_room p \<longleftrightarrow> pr_free p = Some 0"
    using no_room_full unfolding rows by blast
  show ?thesis
  proof (cases "reserved_ip (ex_reservation x)")
    case (Some ip)
    then obtain r where "ex_reservation x = Some r" "truthy (jget r ''ip'')" "ip = jget r ''ip''"
      by (auto simp: reserved_ip_def split: option.splits if_splits)
    then show ?thesis using ans hold Some by (auto simp: answer_of_def split: option.splits)
  next
    case None
    then have h: "ex_holder x = None" using hold by simp
    obtain here where here: "lease_here (ex_chosen x) lease = Inr here"
      using ans None by (cases "lease_here (ex_chosen x) lease") (auto simp: answer_of_def)
    show ?thesis
    proof (cases here)
      case True
      then show ?thesis using ans None h here by (auto simp: answer_of_def lease_here_def res_simps split: if_splits)
    next
      case False
      then have "answer_from_pools (ex_pools x) = (ex_verdict x, ex_answer x)"
        using ans None h here by (simp add: answer_of_def answer_from_pools_def)
      from answer_from_pools_decides [OF full this] show ?thesis
        by (auto simp: pools_decide_def split: pools_verdict.splits)
    qed
  qed
qed

lemma address_verdict_witness:
  "\<exists>i < length (ex_pools (demo_explanation ''ap'')).
     ex_answer (demo_explanation ''ap'') = Some (FromPool (ex_pools (demo_explanation ''ap'') ! i))"
proof -
  have r: "ran (demo_run ''ap'')" by code_simp
  have "ex_verdict (demo_explanation ''ap'') = VPool" by code_simp
  then show ?thesis using address_verdict [OF demo_ran [OF r]] by auto
qed

section \<open>Where the sentence contradicts the guards\<close>

text \<open>
  When no subnet's guards are satisfied ("blocked": Kea gives this client no address here), and
  the client has no reservation or lease, the decision still looks at the pools of the requested
  subnet, and the one sentence promises an address from the first of them that has no guard of its
  own and room. The verdict of the subnet guards is read only when no pool is left.
\<close>

theorem blocked_still_offered:
  assumes "explain d4 client sid res JNull said pu ho = Inr (Some x)"
    and "ex_guards x = Blocked" and "ex_reservation x = None" and "first_pool (ex_pools x) = Some p"
  shows "snd (answer_line x) = OfferedFrom p"
proof -
  have "answer_of None (ex_holder x) (ex_chosen x) JNull (ex_pools x) = Inr (ex_verdict x, ex_answer x)" "ex_holder x = None"
    using explain_inv [OF assms(1)] assms(3) by (auto simp: reserved_ip_def)
  then have "ex_verdict x = VPool" "ex_answer x = Some (FromPool p)"
    using assms(4) by (auto simp: answer_of_def lease_here_def)
  then show ?thesis by (simp add: answer_line_def)
qed

lemma blocked_still_offered_witness:
  "ex_guards (demo_explanation ''sw'') = Blocked \<and>
   snd (answer_line (demo_explanation ''sw'')) = OfferedFrom (hd (ex_pools (demo_explanation ''sw'')))"
proof -
  have r: "ran (demo_run ''sw'')" by code_simp
  have g: "ex_guards (demo_explanation ''sw'') = Blocked" by code_simp
  moreover have "ex_reservation (demo_explanation ''sw'') = None" by code_simp
  moreover have "first_pool (ex_pools (demo_explanation ''sw'')) = Some (hd (ex_pools (demo_explanation ''sw'')))" by code_simp
  ultimately show ?thesis using blocked_still_offered [OF demo_ran [OF r]] by simp
qed

text \<open>
  A container that lists several guard classes is eligible only when all of them matched, and is
  refused as soon as one did not. The edit that writes the list calls its members alternatives (one
  of them must match): with \<open>a\<close> matched and \<open>b\<close> not, the container is refused.
\<close>

theorem guard_needs_every_class:
  "(guard_state ms g = Some True) = (member_of ms ` set (guard_classes g) \<subseteq> {Some True}) \<and>
   (guard_state ms g = Some False) = (Some False \<in> member_of ms ` set (guard_classes g)) \<and>
   guard_state [(''a'', Some True), (''b'', Some False)] (JObj [(''client-classes'', JList [JStr ''a'', JStr ''b''])]) = Some False"
proof (intro conjI)
  show "guard_state [(''a'', Some True), (''b'', Some False)] (JObj [(''client-classes'', JList [JStr ''a'', JStr ''b''])]) = Some False"
    by code_simp
  show "(guard_state ms g = Some False) = (Some False \<in> member_of ms ` set (guard_classes g))"
    by (auto simp: guard_state_def Let_def)
  have "(X \<subseteq> {Some True}) = (Some False \<notin> X \<and> None \<notin> X)" for X :: "bool option set"
    by (auto, metis (full_types) not_None_eq)
  then show "(guard_state ms g = Some True) = (member_of ms ` set (guard_classes g) \<subseteq> {Some True})"
    by (auto simp: guard_state_def Let_def)
qed

end
