(* ===== verification/OptionProps.thy ===== *)
theory OptionProps
  imports OptionCatalog "HOL-Library.Multiset"
begin

text \<open>
  The merge of option levels (\<open>effective_options\<close> in \<open>jen/services/dhcp_options.py\<close> and
  \<open>_merge_options\<close> in \<open>dhcp_explain.py\<close>) against a reference: per option, the last entry wins and the
  earlier ones are what it overrides.
\<close>

section \<open>The reference\<close>

definition key_of :: "json \<Rightarrow> json \<times> json" where
  "key_of o' = (case entry_key o' of Inr k \<Rightarrow> k | Inl e \<Rightarrow> (JNull, JNull))"

definition add_key :: "(json \<times> json) list \<Rightarrow> json \<times> json \<Rightarrow> (json \<times> json) list" where
  "add_key ks k = (if list_ex (\<lambda>l. key_eq l k) ks then ks else ks @ [k])"

text \<open>The different options of the levels, in order of first appearance.\<close>

definition first_keys :: "(source \<times> json) list \<Rightarrow> (json \<times> json) list" where
  "first_keys flat = foldl add_key [] (map (key_of \<circ> snd) flat)"

definition entries_for :: "(source \<times> json) list \<Rightarrow> json \<times> json \<Rightarrow> (source \<times> json) list" where
  "entries_for flat k = filter (\<lambda>x. key_eq k (key_of (snd x))) flat"

definition row_of :: "(source \<times> json) list \<Rightarrow> effective_row" where
  "row_of es =
     (let o' = snd (last es); shown = (case display o' of Inr p \<Rightarrow> p | Inl e \<Rightarrow> (JNull, NoName))
      in \<lparr>eff_code = fst shown, eff_name = snd shown, eff_data = jget_default o' ''data'' (JStr []),
          eff_source = fst (last es), eff_overridden = map fst (butlast es)\<rparr>)"

section \<open>Keys compare as Python compares them\<close>

definition hashable_key :: "json \<times> json \<Rightarrow> bool" where
  "hashable_key k = (hashable (fst k) \<and> hashable (snd k))"

lemma hashable_wf: "hashable v \<Longrightarrow> wf_json v"
  by (cases v) (auto simp: hashable_def)

lemma key_eq_refl: "hashable_key k \<Longrightarrow> key_eq k k"
  by (auto simp: key_eq_def hashable_key_def intro: py_eq_refl hashable_wf)

lemma key_eq_sym: "hashable_key k \<Longrightarrow> hashable_key l \<Longrightarrow> key_eq k l \<Longrightarrow> key_eq l k"
  by (auto simp: key_eq_def hashable_key_def intro: py_eq_sym hashable_wf)

lemma key_eq_trans:
  "hashable_key k \<Longrightarrow> hashable_key l \<Longrightarrow> hashable_key m \<Longrightarrow> key_eq k l \<Longrightarrow> key_eq l m \<Longrightarrow> key_eq k m"
  unfolding key_eq_def hashable_key_def using py_eq_trans hashable_wf by blast

definition apart :: "(json \<times> json) list \<Rightarrow> bool" where
  "apart ks = (\<forall>i j. i < length ks \<and> j < length ks \<and> i \<noteq> j \<longrightarrow> \<not> key_eq (ks ! i) (ks ! j))"

lemma win_get_map:
  "win_get (map (\<lambda>k. (k, f k)) ks) k = map_option f (find (\<lambda>l. key_eq l k) ks)"
  by (induction ks) auto

lemma win_set_new: "\<not> list_ex (\<lambda>l. key_eq l k) ks \<Longrightarrow> win_set k r (map (\<lambda>k. (k, f k)) ks) = map (\<lambda>k. (k, f k)) ks @ [(k, r)]"
  by (induction ks) auto

lemma win_set_found:
  assumes "find (\<lambda>l. key_eq l k) ks = Some l" and "\<And>m. m \<in> set ks \<Longrightarrow> m \<noteq> l \<Longrightarrow> g m = f m" and "g l = r"
    and "distinct ks"
  shows "win_set k r (map (\<lambda>k. (k, f k)) ks) = map (\<lambda>k. (k, g k)) ks"
  using assms
proof (induction ks)
  case (Cons m ks)
  show ?case
  proof (cases "key_eq m k")
    case True
    then have m: "m = l" using Cons.prems(1) by simp
    have "g x = f x" if "x \<in> set ks" for x
    proof -
      have "x \<noteq> l" using that Cons.prems(4) m by auto
      then show ?thesis using Cons.prems(2) that by simp
    qed
    then show ?thesis using True m Cons.prems(3) by simp
  next
    case False
    then have f: "find (\<lambda>l. key_eq l k) ks = Some l" using Cons.prems(1) by simp
    then have "m \<noteq> l" using Cons.prems(4) by (auto simp: find_Some_iff)
    then have "g m = f m" using Cons.prems(2) by simp
    then show ?thesis using False Cons.IH [OF f] Cons.prems by simp
  qed
qed simp

text \<open>The keys kept: hashable, pairwise different, and one for every entry.\<close>

definition keys_ok :: "(source \<times> json) list \<Rightarrow> bool" where
  "keys_ok flat = (\<forall>x \<in> set flat. hashable_key (key_of (snd x)))"

lemma first_keys_snoc: "first_keys (xs @ [x]) = add_key (first_keys xs) (key_of (snd x))"
  by (simp add: first_keys_def)

lemma first_keys_facts:
  assumes "keys_ok flat"
  shows "(\<forall>k \<in> set (first_keys flat). hashable_key k) \<and> distinct (first_keys flat) \<and>
    (\<forall>k \<in> set (first_keys flat). \<forall>l \<in> set (first_keys flat). key_eq k l \<longrightarrow> k = l) \<and>
    (\<forall>x \<in> set flat. \<exists>k \<in> set (first_keys flat). key_eq k (key_of (snd x))) \<and>
    set (first_keys flat) \<subseteq> (key_of \<circ> snd) ` set flat"
  using assms
proof (induction flat rule: rev_induct)
  case Nil
  then show ?case by (simp add: first_keys_def)
next
  case (snoc x flat)
  let ?k = "key_of (snd x)" and ?ks = "first_keys flat"
  have k: "hashable_key ?k" and ok: "keys_ok flat" using snoc.prems by (auto simp: keys_ok_def)
  note IH = snoc.IH [OF ok]
  show ?case
  proof (cases "list_ex (\<lambda>l. key_eq l ?k) ?ks")
    case True
    then have "\<exists>l \<in> set ?ks. key_eq l ?k" by (simp add: list_ex_iff)
    then show ?thesis using IH True by (auto simp: first_keys_snoc add_key_def)
  next
    case False
    then have no: "\<not> key_eq l ?k" if "l \<in> set ?ks" for l using that by (simp add: list_ex_iff)
    have no': "\<not> key_eq ?k l" if "l \<in> set ?ks" for l
      using no [OF that] key_eq_sym [OF k, of l] IH that by blast
    have "?k \<notin> set ?ks" using no key_eq_refl [OF k] by blast
    then show ?thesis
      using IH False k no no' key_eq_refl [OF k] by (auto simp: first_keys_snoc add_key_def)
  qed
qed

lemma win_entries_append:
  "win_entries (xs @ ys) w = rbind (win_entries xs w) (win_entries ys)"
proof (induction xs arbitrary: w)
  case (Cons x xs)
  obtain src o' where x: "x = (src, o')" by (cases x)
  show ?case using Cons.IH by (cases "win_step src o' w") (simp_all add: x)
qed (cases "win_entries ys w"; simp)

lemma win_step_Inr:
  assumes "win_step src o' w = Inr w'"
  obtains code name where "display o' = Inr (code, name)" and "entry_key o' = Inr (key_of o')" and "hashable_key (key_of o')"
    and "w' = win_set (key_of o')
         \<lparr>eff_code = code, eff_name = name, eff_data = jget_default o' ''data'' (JStr []), eff_source = src,
          eff_overridden = (case win_get w (key_of o') of None \<Rightarrow> [] | Some prev \<Rightarrow> eff_overridden prev @ [eff_source prev])\<rparr> w"
  using assms by (auto simp: win_step_def res_simps key_of_def hashable_key_def split: if_splits)

lemma entries_for_snoc:
  "entries_for (xs @ [x]) k = (if key_eq k (key_of (snd x)) then entries_for xs k @ [x] else entries_for xs k)"
  by (simp add: entries_for_def)

lemma win_entries_reference:
  "win_entries flat [] = Inr w \<Longrightarrow> keys_ok flat \<and> w = map (\<lambda>k. (k, row_of (entries_for flat k))) (first_keys flat)"
proof (induction flat arbitrary: w rule: rev_induct)
  case Nil
  then show ?case by (simp add: first_keys_def keys_ok_def)
next
  case (snoc x flat)
  obtain src o' where x: "x = (src, o')" by (cases x)
  obtain w0 where w0: "win_entries flat [] = Inr w0" "win_step src o' w0 = Inr w"
    using snoc.prems by (auto simp: win_entries_append x res_simps)
  have ok: "keys_ok flat" and ref: "w0 = map (\<lambda>k. (k, row_of (entries_for flat k))) (first_keys flat)"
    using snoc.IH [OF w0(1)] by auto
  let ?k = "key_of o'" and ?ks = "first_keys flat" and ?f = "\<lambda>k. row_of (entries_for flat k)"
    and ?g = "\<lambda>k. row_of (entries_for (flat @ [x]) k)"
  from w0(2) obtain code name where d: "display o' = Inr (code, name)" and "entry_key o' = Inr ?k" and k: "hashable_key ?k"
    and w: "w = win_set ?k
         \<lparr>eff_code = code, eff_name = name, eff_data = jget_default o' ''data'' (JStr []), eff_source = src,
          eff_overridden = (case win_get w0 ?k of None \<Rightarrow> [] | Some prev \<Rightarrow> eff_overridden prev @ [eff_source prev])\<rparr> w0"
    by (rule win_step_Inr)
  have ok': "keys_ok (flat @ [x])" using ok k x by (auto simp: keys_ok_def)
  note facts = first_keys_facts [OF ok]
  show ?case
  proof (cases "find (\<lambda>l. key_eq l ?k) ?ks")
    case None
    then have no: "\<not> key_eq l ?k" if "l \<in> set ?ks" for l using None that unfolding find_None_iff by blast
    then have nex: "\<not> list_ex (\<lambda>l. key_eq l ?k) ?ks" by (auto simp: list_ex_iff)
    have "entries_for flat ?k = []"
    proof -
      have "\<not> key_eq ?k (key_of (snd y))" if y: "y \<in> set flat" for y
      proof
        assume e: "key_eq ?k (key_of (snd y))"
        obtain l where l: "l \<in> set ?ks" "key_eq l (key_of (snd y))" using facts y by blast
        have "hashable_key (key_of (snd y))" using ok y by (simp add: keys_ok_def)
        then have "key_eq l ?k" using key_eq_trans key_eq_sym l e k facts by metis
        then show False using no l(1) by blast
      qed
      then show ?thesis by (simp add: entries_for_def filter_empty_conv)
    qed
    then have gk: "?g ?k = \<lparr>eff_code = code, eff_name = name, eff_data = jget_default o' ''data'' (JStr []),
        eff_source = src, eff_overridden = []\<rparr>"
      using d key_eq_refl [OF k] by (simp add: entries_for_snoc x row_of_def)
    have same: "?g l = ?f l" if "l \<in> set ?ks" for l
      using no [OF that] by (simp add: entries_for_snoc x)
    have "w = map (\<lambda>k. (k, ?f k)) ?ks @ [(?k, ?g ?k)]"
      using w win_set_new [OF nex, of _ ?f] None gk by (simp add: ref win_get_map)
    moreover have "map (\<lambda>k. (k, ?f k)) ?ks = map (\<lambda>k. (k, ?g k)) ?ks" using same by simp
    ultimately show ?thesis using ok' nex x by (simp add: first_keys_snoc add_key_def)
  next
    case (Some l)
    then have l: "l \<in> set ?ks" "key_eq l ?k" by (auto simp: find_Some_iff)
    then have ex: "list_ex (\<lambda>l. key_eq l ?k) ?ks" by (auto simp: list_ex_iff)
    have lk: "hashable_key l" using facts l(1) by blast
    let ?es = "entries_for flat l"
    obtain y where y: "y \<in> set flat" "l = key_of (snd y)" using facts l(1) by auto
    then have "y \<in> set ?es" using key_eq_refl [OF lk] by (simp add: entries_for_def)
    then have ne: "?es \<noteq> []" by auto
    have "map fst (butlast ?es) @ [fst (last ?es)] = map fst ?es"
      using ne by (metis append_butlast_last_id list.simps(8,9) map_append)
    then have gl: "?g l = \<lparr>eff_code = code, eff_name = name, eff_data = jget_default o' ''data'' (JStr []),
        eff_source = src, eff_overridden = eff_overridden (?f l) @ [eff_source (?f l)]\<rparr>"
      using d l(2) by (simp add: entries_for_snoc x row_of_def Let_def)
    have same: "?g m = ?f m" if m: "m \<in> set ?ks" "m \<noteq> l" for m
    proof -
      have mk: "hashable_key m" using facts m(1) by blast
      have "\<not> key_eq m ?k"
      proof
        assume "key_eq m ?k"
        then have "key_eq m l" using key_eq_trans [OF mk k lk] key_eq_sym [OF lk k l(2)] by blast
        then show False using facts m l(1) by blast
      qed
      then show ?thesis by (simp add: entries_for_snoc x)
    qed
    have "w = map (\<lambda>k. (k, ?g k)) ?ks"
      unfolding w ref
    proof (rule win_set_found [OF Some same])
      show "?g l = \<lparr>eff_code = code, eff_name = name, eff_data = jget_default o' ''data'' (JStr []), eff_source = src,
          eff_overridden = (case win_get (map (\<lambda>k. (k, ?f k)) ?ks) ?k of None \<Rightarrow> []
                            | Some prev \<Rightarrow> eff_overridden prev @ [eff_source prev])\<rparr>"
        using gl Some by (simp add: win_get_map)
      show "distinct ?ks" using facts by blast
    qed
    then show ?thesis using ok' ex x by (simp add: first_keys_snoc add_key_def)
  qed
qed

section \<open>Properties\<close>

text \<open>
  C8. The options in effect are what the reference says: one row per different option (key: space and
  code, or the name of an entry without a code), showing the data and the source of the last entry in
  order of precedence, with the sources of all the earlier entries, in order, as what it overrides.
\<close>

theorem merge_levels_reference:
  assumes "merge_levels levels = Inr rows"
  shows "mset rows = mset (map (\<lambda>k. row_of (entries_for (flatten_levels levels) k)) (first_keys (flatten_levels levels))) \<and>
    distinct (first_keys (flatten_levels levels))"
proof -
  obtain w where w: "win_entries (flatten_levels levels) [] = Inr w" "rows = map snd (sort_by row_le w)"
    using assms by (auto simp: merge_levels_def res_simps)
  note ref = win_entries_reference [OF w(1)]
  have "mset rows = image_mset snd (mset w)" by (simp add: w(2) mset_sort_by)
  then show ?thesis
    using ref first_keys_facts by (simp add: comp_def flip: mset_map)
qed

definition demo_levels :: "(source \<times> json list) list" where
  "demo_levels =
     [(SrcGlobal, [JObj [(''code'', JInt 6), (''data'', JStr ''1.1.1.1'')], JObj [(''name'', JStr ''routers''), (''data'', JStr ''10.0.0.1'')]]),
      (SrcSubnet, [JObj [(''name'', JStr ''domain-name-servers''), (''data'', JStr ''2.2.2.2'')]])]"

lemma merge_levels_reference_witness:
  "\<exists>rows. merge_levels demo_levels = Inr rows \<and>
    mset rows = mset (map (\<lambda>k. row_of (entries_for (flatten_levels demo_levels) k)) (first_keys (flatten_levels demo_levels))) \<and>
    length rows = 2"
proof -
  have "(case merge_levels demo_levels of Inr rows \<Rightarrow> length rows = 2 | Inl e \<Rightarrow> False)" by code_simp
  then obtain rows where "merge_levels demo_levels = Inr rows" "length rows = 2"
    by (cases "merge_levels demo_levels") auto
  then show ?thesis using merge_levels_reference by blast
qed

end
