(* ===== verification/SocketEdit.thy ===== *)
theory SocketEdit
  imports Json
begin

text \<open>
  \<open>jen/services/kea_config_edit.py\<close>, the direct control sockets of a daemon: reading them as a
  snapshot, adding or replacing the one API socket, removing it, and restoring a snapshot.
\<close>

section \<open>The operations\<close>

datatype socket_outcome = SockOk | SockNoChange | SockMultiple | SockUnsupported

definition daemon_key :: "string \<Rightarrow> string option" where
  "daemon_key service = map_of [(''dhcp4'', ''Dhcp4''), (''dhcp6'', ''Dhcp6''), (''d2'', ''DhcpDdns'')] service"

text \<open>\<open>_replace_key_in_place\<close>: the items are written back one by one.\<close>

definition replace_key :: "string \<Rightarrow> string \<Rightarrow> json \<Rightarrow> json \<Rightarrow> json" where
  "replace_key old new value s =
     (case s of
        JObj d \<Rightarrow> JObj (foldl (\<lambda>acc (k, v). if k = old then AList.update new value acc else AList.update k v acc) [] d)
      | v \<Rightarrow> v)"

text \<open>\<open>_control_sockets\<close>: the daemon block as it is left, and the list; \<open>None\<close> for a shape it does not understand.\<close>

definition socket_list :: "json \<Rightarrow> (json \<times> json list) option" where
  "socket_list s =
     (if jhas s ''control-sockets'' then
        (case jget s ''control-sockets'' of JList xs \<Rightarrow> Some (s, xs) | _ \<Rightarrow> None)
      else if jhas s ''control-socket'' then
        (if is_dict (jget s ''control-socket'')
         then Some (replace_key ''control-socket'' ''control-sockets'' (JList [jget s ''control-socket'']) s,
                    [jget s ''control-socket''])
         else None)
      else Some (jset ''control-sockets'' (JList []) s, []))"

definition is_api_socket :: "json \<Rightarrow> bool" where
  "is_api_socket e = (is_dict e \<and> jget e ''socket-type'' \<in> {JStr ''http'', JStr ''https''})"

definition daemon_section :: "json \<Rightarrow> string \<Rightarrow> (string \<times> json) option" where
  "daemon_section cfg service =
     (case daemon_key service of
        None \<Rightarrow> None
      | Some key \<Rightarrow> (if is_dict (jget cfg key) then Some (key, jget cfg key) else None))"

definition set_control_socket :: "json \<Rightarrow> string \<Rightarrow> json \<Rightarrow> json \<times> socket_outcome" where
  "set_control_socket cfg service socket =
     (case daemon_section cfg service of
        None \<Rightarrow> (cfg, SockUnsupported)
      | Some (key, s) \<Rightarrow>
          (case socket_list s of
             None \<Rightarrow> (cfg, SockUnsupported)
           | Some (s', xs) \<Rightarrow>
               let put = (\<lambda>ys. jset key (jset ''control-sockets'' (JList ys) s') cfg)
               in if 1 < length (filter is_api_socket xs) then (put xs, SockMultiple)
                  else (case find_index is_api_socket xs of
                          Some i \<Rightarrow> (if py_eq (xs ! i) socket then (put xs, SockNoChange)
                                     else (put (xs[i := socket]), SockOk))
                        | None \<Rightarrow> (put (xs @ [socket]), SockOk))))"

definition control_sockets :: "json \<Rightarrow> string \<Rightarrow> json list" where
  "control_sockets cfg service =
     (case daemon_section cfg service of
        None \<Rightarrow> []
      | Some (key, s) \<Rightarrow>
          if jhas s ''control-sockets'' then
            (case jget s ''control-sockets'' of JList xs \<Rightarrow> xs | _ \<Rightarrow> [])
          else if is_dict (jget s ''control-socket'') then [jget s ''control-socket''] else [])"

definition restore_control_sockets :: "json \<Rightarrow> string \<Rightarrow> json \<Rightarrow> json \<times> socket_outcome" where
  "restore_control_sockets cfg service snapshot =
     (case (daemon_section cfg service, snapshot) of
        (Some (key, s), JList wanted) \<Rightarrow>
          let has_list = jhas s ''control-sockets''; has_one = jhas s ''control-socket''
          in if \<not> list_all is_dict wanted then (cfg, SockUnsupported)
             else if has_list \<and> \<not> is_list (jget s ''control-sockets'') then (cfg, SockUnsupported)
             else if has_one \<and> (has_list \<or> \<not> is_dict (jget s ''control-socket'')) then (cfg, SockUnsupported)
             else if py_eq_list (control_sockets cfg service) wanted \<and> \<not> has_one then (cfg, SockNoChange)
             else
               (jset key
                 (if has_one
                  then (if wanted \<noteq> [] then replace_key ''control-socket'' ''control-sockets'' (JList wanted) s
                        else jdel ''control-socket'' s)
                  else if wanted \<noteq> [] then jset ''control-sockets'' (JList wanted) s
                  else jdel ''control-sockets'' s) cfg, SockOk)
      | _ \<Rightarrow> (cfg, SockUnsupported))"

definition uses_singular_socket :: "json \<Rightarrow> string \<Rightarrow> bool" where
  "uses_singular_socket cfg service =
     (case daemon_section cfg service of
        None \<Rightarrow> False
      | Some (key, s) \<Rightarrow> jhas s ''control-socket'' \<and> \<not> jhas s ''control-sockets'')"

text \<open>
  \<open>address\<close> and \<open>port\<close> are \<open>JNull\<close> when they were not given. The code drops the named entries by
  identity: they are exactly the entries that satisfy the test.
\<close>

definition remove_control_socket :: "json \<Rightarrow> string \<Rightarrow> json \<Rightarrow> json \<Rightarrow> json \<times> socket_outcome" where
  "remove_control_socket cfg service address port =
     (case daemon_section cfg service of
        None \<Rightarrow> (cfg, SockUnsupported)
      | Some (key, s) \<Rightarrow>
          if \<not> jhas s ''control-sockets'' \<and> \<not> jhas s ''control-socket'' then (cfg, SockNoChange)
          else (case socket_list s of
             None \<Rightarrow> (cfg, SockUnsupported)
           | Some (s', xs) \<Rightarrow>
               let put = (\<lambda>ys. jset key (jset ''control-sockets'' (JList ys) s') cfg);
                   any = (address = JNull \<and> port = JNull);
                   named = (\<lambda>e. is_api_socket e \<and>
                      (any \<or> (py_eq (jget e ''socket-address'') address \<and> py_eq (jget e ''socket-port'') port)))
               in if any \<and> 1 < length (filter is_api_socket xs) then (put xs, SockMultiple)
                  else if filter named xs = [] then (put xs, SockNoChange)
                  else (put (filter (\<lambda>e. \<not> named e) xs), SockOk)))"

section \<open>Facts about the list\<close>

lemma daemon_section_Some:
  assumes "daemon_section cfg service = Some (key, s)"
  shows "daemon_key service = Some key" and "s = jget cfg key" and "is_dict s" and "is_dict cfg"
proof -
  show k: "daemon_key service = Some key" and s: "s = jget cfg key" and d: "is_dict s"
    using assms by (auto simp: daemon_section_def split: option.splits if_splits)
  then show "is_dict cfg" using jget_non_dict by (metis is_dict.simps(2))
qed

lemma daemon_section_put:
  assumes "daemon_section cfg service = Some (key, s)" and "is_dict s'"
  shows "daemon_section (jset key s' cfg) service = Some (key, s')"
  using daemon_section_Some [OF assms(1)] assms(2) by (simp add: daemon_section_def)

lemma fold_update_append:
  assumes "distinct (map fst (acc @ d))"
  shows "foldl (\<lambda>acc (k, v). AList.update k v acc) acc d = acc @ d"
  using assms
proof (induction d arbitrary: acc)
  case (Cons p d)
  obtain k v where p: "p = (k, v)" by (cases p)
  have "AList.update k v acc = acc @ [(k, v)]" using Cons.prems by (intro update_new) (auto simp: p map_of_eq_None_iff)
  then show ?case using Cons.IH [of "acc @ [(k, v)]"] Cons.prems by (simp add: p)
qed simp

lemma replace_key_map:
  assumes "distinct (map fst d)" and "new \<notin> set (map fst d)"
  shows "replace_key old new x (JObj d) = JObj (map (\<lambda>(k, v). if k = old then (new, x) else (k, v)) d)"
proof -
  let ?g = "\<lambda>(k, v). if k = old then (new, x) else (k, v)"
  have keys: "map fst (map ?g d) = map (\<lambda>k. if k = old then new else k) (map fst d)" by auto
  have "inj_on (\<lambda>k. if k = old then new else k) (set (map fst d))" using assms(2) by (auto simp: inj_on_def)
  then have "distinct (map fst (map ?g d))" unfolding keys using assms(1) by (simp only: distinct_map)
  then have "foldl (\<lambda>acc (k, v). AList.update k v acc) [] (map ?g d) = map ?g d"
    using fold_update_append [of "[]" "map ?g d"] by simp
  moreover have "foldl (\<lambda>acc (k, v). if k = old then AList.update new x acc else AList.update k v acc) acc d =
      foldl (\<lambda>acc (k, v). AList.update k v acc) acc (map ?g d)" for acc
    by (induction d arbitrary: acc) auto
  ultimately show ?thesis by (simp add: replace_key_def)
qed

lemma replace_key_get:
  assumes "wf_json s" and "is_dict s" and "\<not> jhas s new" and "jhas s old"
  shows "jget (replace_key old new x s) new = x" and "\<not> jhas (replace_key old new x s) old"
    and "jhas (replace_key old new x s) new" and "is_dict (replace_key old new x s)"
proof -
  obtain d where d: "s = JObj d" using assms(2) by (cases s) auto
  have n: "new \<notin> set (map fst d)" "old \<in> set (map fst d)" "distinct (map fst d)" "new \<noteq> old"
    using assms d by (auto simp: jhas_JObj map_of_eq_None_iff)
  note r = replace_key_map [OF n(3,1), of old x]
  let ?g = "map (\<lambda>(k, v). if k = old then (new, x) else (k, v)) d"
  have "map_of ?g new = Some x"
    using n(1,2) by (induction d) auto
  moreover have "map_of ?g old = None" using n(4) by (auto simp: map_of_eq_None_iff split: if_splits)
  ultimately show "jget (replace_key old new x s) new = x" "\<not> jhas (replace_key old new x s) old"
    "jhas (replace_key old new x s) new" "is_dict (replace_key old new x s)"
    by (simp_all add: d r jget_JObj jhas_JObj)
qed


text \<open>Reading the list and converting the block agree; the converted block has the list form only.\<close>

lemma socket_list_facts:
  assumes "daemon_section cfg service = Some (key, s)" and "wf_json cfg" and "socket_list s = Some (s', xs)"
  shows "control_sockets cfg service = xs" and "is_dict s'" and "jhas s' ''control-sockets'' \<or> True"
    and "jget s' ''control-sockets'' = JList xs" and "jhas s' ''control-sockets''"
proof -
  have s: "is_dict s" "wf_json s"
    using daemon_section_Some [OF assms(1)] wf_jget [OF assms(2)] by auto
  have "control_sockets cfg service = xs \<and> is_dict s' \<and> jget s' ''control-sockets'' = JList xs \<and> jhas s' ''control-sockets''"
  proof (cases "jhas s ''control-sockets''")
    case True
    then show ?thesis using assms(1,3) s by (auto simp: socket_list_def control_sockets_def split: json.splits)
  next
    case no: False
    show ?thesis
    proof (cases "jhas s ''control-socket''")
      case True
      then show ?thesis
        using no assms(1,3) s replace_key_get [OF s(2,1) no True]
        by (auto simp: socket_list_def control_sockets_def split: if_splits)
    next
      case False
      then show ?thesis
        using no assms(1,3) s jget_not_has [OF False] by (auto simp: socket_list_def control_sockets_def)
    qed
  qed
  then show "control_sockets cfg service = xs" "is_dict s'" "jhas s' ''control-sockets'' \<or> True"
    "jget s' ''control-sockets'' = JList xs" "jhas s' ''control-sockets''" by auto
qed

lemma control_sockets_put:
  assumes "daemon_section cfg service = Some (key, s)" and "is_dict s'"
  shows "control_sockets (jset key (jset ''control-sockets'' (JList ys) s') cfg) service = ys"
  using daemon_section_put [OF assms(1), of "jset ''control-sockets'' (JList ys) s'"] assms(2)
  by (simp add: control_sockets_def)

lemma filter_update_api:
  assumes "find_index P xs = Some i" and "length (filter P xs) \<le> 1" and "P y"
  shows "filter P (xs[i := y]) = [y]" and "filter (\<lambda>x. \<not> P x) (xs[i := y]) = filter (\<lambda>x. \<not> P x) xs"
proof -
  have i: "i < length xs" "P (xs ! i)" using find_index_SomeD [OF assms(1)] by auto
  have xs: "xs = take i xs @ xs ! i # drop (Suc i) xs" using i(1) by (rule id_take_nth_drop)
  have up: "xs[i := y] = take i xs @ y # drop (Suc i) xs" using i(1) by (rule upd_conv_take_nth_drop)
  have "length (filter P xs) = length (filter P (take i xs)) + 1 + length (filter P (drop (Suc i) xs))"
    using i(2) by (subst xs) simp
  then have e: "filter P (take i xs) = []" "filter P (drop (Suc i) xs) = []" using assms(2) by auto
  show "filter P (xs[i := y]) = [y]" using e assms(3) by (simp add: up)
  show "filter (\<lambda>x. \<not> P x) (xs[i := y]) = filter (\<lambda>x. \<not> P x) xs"
    using i(2) assms(3) by (subst (2) xs) (simp add: up)
qed

section \<open>Properties\<close>

text \<open>
  Setting a daemon's API socket: when the edit succeeds the daemon has exactly the given http or
  https entry, every other entry (the unix socket) is left as it was and in its order, and nothing
  outside the daemon's block changes; when the daemon already has more than one, nothing is replaced.
\<close>

theorem set_control_socket_effect:
  assumes "set_control_socket cfg service socket = (cfg', code)" and "is_api_socket socket" and "wf_json cfg"
  shows "(code = SockOk \<longrightarrow> filter is_api_socket (control_sockets cfg' service) = [socket]) \<and>
    filter (\<lambda>e. \<not> is_api_socket e) (control_sockets cfg' service) = filter (\<lambda>e. \<not> is_api_socket e) (control_sockets cfg service) \<and>
    (code \<noteq> SockOk \<longrightarrow> control_sockets cfg' service = control_sockets cfg service) \<and>
    (\<forall>k. daemon_key service \<noteq> Some k \<longrightarrow> jget cfg' k = jget cfg k)"
proof (cases "daemon_section cfg service")
  case None
  then show ?thesis using assms(1) by (auto simp: set_control_socket_def)
next
  case (Some ks)
  obtain key s where ks: "daemon_section cfg service = Some (key, s)" using Some by (cases ks) auto
  note d = daemon_section_Some [OF ks]
  show ?thesis
  proof (cases "socket_list s")
    case None
    then show ?thesis using assms(1) ks by (auto simp: set_control_socket_def)
  next
    case (Some sx)
    obtain s' xs where sl: "socket_list s = Some (s', xs)" using Some by (cases sx) auto
    note f = socket_list_facts [OF ks assms(3) sl]
    note put = control_sockets_put [OF ks f(2)]
    have other: "jget (jset key y cfg) k = jget cfg k" if "daemon_key service \<noteq> Some k" for y k
      using that d by auto
    show ?thesis
    proof (cases "find_index is_api_socket xs")
      case None
      then have "filter is_api_socket xs = []" by (auto simp: find_index_None filter_empty_conv)
      then show ?thesis
        using assms(1,2) ks sl f(1) put other None by (auto simp: set_control_socket_def Let_def)
    next
      case (Some i)
      then show ?thesis
        using assms(1,2) ks sl f(1) put other filter_update_api [OF Some _ assms(2)]
        by (auto simp: set_control_socket_def Let_def not_less split: if_splits)
    qed
  qed
qed

definition demo_sockets :: "json list \<Rightarrow> json" where
  "demo_sockets xs = JObj [(''Dhcp4'', JObj [(''control-sockets'', JList xs), (''interfaces-config'', JObj [])])]"

definition demo_unix :: json where
  "demo_unix = JObj [(''socket-type'', JStr ''unix''), (''socket-name'', JStr ''/run/kea4'')]"

definition demo_http :: "int \<Rightarrow> json" where
  "demo_http port = JObj [(''socket-type'', JStr ''http''), (''socket-address'', JStr ''::1''), (''socket-port'', JInt port)]"

lemma set_control_socket_effect_witness:
  "filter is_api_socket (control_sockets (demo_sockets [demo_unix, demo_http 8001]) ''dhcp4'') = [demo_http 8001]"
proof -
  have "set_control_socket (demo_sockets [demo_unix, demo_http 8000]) ''dhcp4'' (demo_http 8001) =
      (demo_sockets [demo_unix, demo_http 8001], SockOk)" by code_simp
  moreover have "is_api_socket (demo_http 8001)" "wf_json (demo_sockets [demo_unix, demo_http 8000])" by code_simp+
  ultimately show ?thesis using set_control_socket_effect by blast
qed

lemma restore_after_put:
  assumes ks: "daemon_section cfg service = Some (key, s)" and xs: "jget s ''control-sockets'' = JList xs" "xs \<noteq> []"
    and one: "\<not> jhas s ''control-socket''" and dicts: "list_all is_dict xs"
    and ys: "ys = xs \<or> \<not> py_eq_list ys xs"
  shows "fst (restore_control_sockets (jset key (jset ''control-sockets'' (JList ys) s) cfg) service (JList xs)) = cfg"
proof -
  have s: "is_dict s" "s = jget cfg key" "is_dict cfg" using daemon_section_Some [OF ks] by auto
  then have has: "jhas cfg key" "jhas s ''control-sockets''"
    using xs jget_notNull_has by (metis is_dict.simps(2) jget_not_has, metis json.distinct(9) jget_not_has)
  let ?s = "jset ''control-sockets'' (JList ys) s"
  have sec: "daemon_section (jset key ?s cfg) service = Some (key, ?s)"
    by (rule daemon_section_put [OF ks]) (simp add: s(1))
  have cs: "control_sockets (jset key ?s cfg) service = ys" by (rule control_sockets_put [OF ks s(1)])
  have whole: "jset key (jset ''control-sockets'' (JList xs) s) cfg = cfg"
    using has xs s by (metis jset_same)
  show ?thesis
    using ys whole dicts s(1,3) one xs(2)
    by (auto simp: restore_control_sockets_def sec cs Let_def)
qed

definition sockets_put :: "json \<Rightarrow> string \<Rightarrow> json \<Rightarrow> json list \<Rightarrow> json" where
  "sockets_put cfg key s ys = jset key (jset ''control-sockets'' (JList ys) s) cfg"

lemma py_eq_list_length: "py_eq_list ys xs \<Longrightarrow> length ys = length xs"
  by (auto simp: py_eq_list_iff dest: list_all2_lengthD)

lemma set_socket_puts:
  assumes "daemon_section cfg service = Some (key, s)" "wf_json cfg" "wf_json socket"
    and "jget s ''control-sockets'' = JList xs" and sl: "socket_list s = Some (s, xs)"
  shows "\<exists>ys. fst (set_control_socket cfg service socket) = sockets_put cfg key s ys \<and> (ys = xs \<or> \<not> py_eq_list ys xs)"
proof (cases "find_index is_api_socket xs")
  case None
  then have none: "filter is_api_socket xs = []" by (auto simp: find_index_None filter_empty_conv)
  have "\<not> py_eq_list (xs @ [socket]) xs" using py_eq_list_length [of "xs @ [socket]" xs] by auto
  moreover have "fst (set_control_socket cfg service socket) = sockets_put cfg key s (xs @ [socket])"
    using assms(1) sl None none by (simp add: set_control_socket_def sockets_put_def)
  ultimately show ?thesis by blast
next
  case (Some i)
  have i: "i < length xs" using find_index_SomeD [OF Some] by simp
  have w: "wf_json (xs ! i)"
    using wf_jget_list [of s "''control-sockets''" xs] wf_jget [OF assms(2)] daemon_section_Some [OF assms(1)] assms(4) i by simp
  have "py_eq socket (xs ! i)" if "py_eq_list (xs[i := socket]) xs"
    using that i by (auto simp: py_eq_list_iff list_all2_conv_all_nth)
  then have neq: "\<not> py_eq_list (xs[i := socket]) xs" if "\<not> py_eq (xs ! i) socket"
    using that py_eq_sym [OF assms(3) w] by blast
  have "fst (set_control_socket cfg service socket) =
      sockets_put cfg key s (if 1 < length (filter is_api_socket xs) \<or> py_eq (xs ! i) socket then xs else xs[i := socket])"
    using assms(1) sl Some by (simp add: set_control_socket_def sockets_put_def)
  then show ?thesis using neq by (cases "1 < length (filter is_api_socket xs) \<or> py_eq (xs ! i) socket") auto
qed

lemma remove_socket_puts:
  assumes "daemon_section cfg service = Some (key, s)" and sl: "socket_list s = Some (s, xs)" and has: "jhas s ''control-sockets''"
  shows "\<exists>ys. fst (remove_control_socket cfg service address port) = sockets_put cfg key s ys \<and> (ys = xs \<or> \<not> py_eq_list ys xs)"
proof -
  define named where "named = (\<lambda>e. is_api_socket e \<and> ((address = JNull \<and> port = JNull) \<or>
    (py_eq (jget e ''socket-address'') address \<and> py_eq (jget e ''socket-port'') port)))"
  let ?same = "(address = JNull \<and> port = JNull) \<and> 1 < length (filter is_api_socket xs) \<or> filter named xs = []"
  have "fst (remove_control_socket cfg service address port) =
      sockets_put cfg key s (if ?same then xs else filter (\<lambda>e. \<not> named e) xs)"
    using assms(1) sl has by (simp add: remove_control_socket_def sockets_put_def Let_def named_def)
  moreover have "\<not> py_eq_list (filter (\<lambda>e. \<not> named e) xs) xs" if "filter named xs \<noteq> []"
  proof
    assume "py_eq_list (filter (\<lambda>e. \<not> named e) xs) xs"
    then have "length (filter (\<lambda>e. \<not> named e) xs) = length xs" by (rule py_eq_list_length)
    then have "filter named xs = []" using sum_length_filter_compl [of named xs] by simp
    then show False using that by simp
  qed
  ultimately show ?thesis by (cases ?same) auto
qed

text \<open>
  C9. The compensation of a failed multi-step change: for a daemon with a non-empty list of sockets
  and no singular \<open>control-socket\<close>, restoring the snapshot taken before setting or removing a socket
  gives back the very configuration, whatever the edit did to the list.
\<close>

theorem restore_undoes_socket_edit:
  assumes "daemon_section cfg service = Some (key, s)" and "wf_json cfg"
    and "jget s ''control-sockets'' = JList xs" and "xs \<noteq> []" and "list_all is_dict xs" and "\<not> jhas s ''control-socket''"
    and "cfg' = fst (set_control_socket cfg service socket) \<or> cfg' = fst (remove_control_socket cfg service address port)" and "wf_json socket"
  shows "fst (restore_control_sockets cfg' service (JList (control_sockets cfg service))) = cfg"
proof -
  have has: "jhas s ''control-sockets''" using assms(3) jget_not_has by fastforce
  then have sl: "socket_list s = Some (s, xs)" and cs: "control_sockets cfg service = xs"
    using assms(1,3) by (auto simp: socket_list_def control_sockets_def)
  obtain ys where "cfg' = sockets_put cfg key s ys" "ys = xs \<or> \<not> py_eq_list ys xs"
    using assms(7) set_socket_puts [OF assms(1,2,8,3) sl] remove_socket_puts [OF assms(1) sl has] by blast
  then show ?thesis using restore_after_put [OF assms(1,3,4,6,5)] cs by (simp add: sockets_put_def)
qed

lemma restore_undoes_socket_edit_witness:
  "fst (restore_control_sockets (fst (remove_control_socket (demo_sockets [demo_unix, demo_http 8000]) ''dhcp4'' JNull JNull)) ''dhcp4''
      (JList (control_sockets (demo_sockets [demo_unix, demo_http 8000]) ''dhcp4''))) = demo_sockets [demo_unix, demo_http 8000] \<and>
   control_sockets (fst (remove_control_socket (demo_sockets [demo_unix, demo_http 8000]) ''dhcp4'' JNull JNull)) ''dhcp4'' = [demo_unix]"
proof
  let ?c = "demo_sockets [demo_unix, demo_http 8000]"
  show "fst (restore_control_sockets (fst (remove_control_socket ?c ''dhcp4'' JNull JNull)) ''dhcp4''
      (JList (control_sockets ?c ''dhcp4''))) = ?c"
  proof (rule restore_undoes_socket_edit)
    show "daemon_section ?c ''dhcp4'' = Some (''Dhcp4'', jget ?c ''Dhcp4'')" by code_simp
    show "jget (jget ?c ''Dhcp4'') ''control-sockets'' = JList [demo_unix, demo_http 8000]" by code_simp
    show "fst (remove_control_socket ?c ''dhcp4'' JNull JNull) = fst (set_control_socket ?c ''dhcp4'' JNull) \<or>
      fst (remove_control_socket ?c ''dhcp4'' JNull JNull) = fst (remove_control_socket ?c ''dhcp4'' JNull JNull)" by simp
  qed code_simp+
  show "control_sockets (fst (remove_control_socket ?c ''dhcp4'' JNull JNull)) ''dhcp4'' = [demo_unix]" by code_simp
qed

end
