(* ===== verification/InvestigationEdit.thy ===== *)
theory InvestigationEdit
  imports Json PyStr
begin

text \<open>
  \<open>jen/services/kea_config_edit.py\<close>, investigation logging: putting the \<open>kea-dhcp4\<close> logger at DEBUG
  with a marker in the configuration that says how to put it back, and putting it back.

  The marker's deadline is an ISO date; reading it is a parameter (\<open>parse_until\<close>, with \<open>None\<close> for a
  text that is no date), as is the present time.
\<close>

section \<open>The operations\<close>

datatype logging_outcome = LogOk | LogUnsupported | LogNoChange | LogMarkerInvalid

definition inv_key :: string where "inv_key = ''jen-investigation''"
definition inv_logger :: string where "inv_logger = ''kea-dhcp4''"

text \<open>\<open>_dhcp4_loggers(cfg, create=False)\<close>, the list alone, and with \<open>create=True\<close>; \<open>None\<close> for an unexpected shape.\<close>

definition dhcp4_loggers :: "json \<Rightarrow> json list option" where
  "dhcp4_loggers cfg =
     (let s = jget cfg ''Dhcp4''
      in if \<not> is_dict s then None
         else (case jget s ''loggers'' of JNull \<Rightarrow> Some [] | JList xs \<Rightarrow> Some xs | _ \<Rightarrow> None))"

definition put_loggers :: "json list \<Rightarrow> json \<Rightarrow> json" where
  "put_loggers xs cfg = jset ''Dhcp4'' (jset ''loggers'' (JList xs) (jget cfg ''Dhcp4'')) cfg"

definition is_inv_logger :: "json \<Rightarrow> bool" where
  "is_inv_logger x = (is_dict x \<and> jget x ''name'' = JStr inv_logger)"

definition logger_entry :: "json list \<Rightarrow> json option" where
  "logger_entry loggers = find is_inv_logger loggers"

definition investigation_marker :: "json \<Rightarrow> json option res" where
  "investigation_marker cfg =
     (case logger_entry (case dhcp4_loggers cfg of Some xs \<Rightarrow> xs | None \<Rightarrow> []) of
        None \<Rightarrow> Inr None
      | Some e \<Rightarrow>
          rbind (py_get (py_or (jget e ''user-context'') (JObj [])) inv_key) (\<lambda>m.
            Inr (if is_dict m then Some m else None)))"

datatype restore_fault = NoRestore | BadCreated | MissingKey string | BadSeverity | BadDebuglevel

definition restore_key_fault :: "json \<Rightarrow> string \<Rightarrow> restore_fault option" where
  "restore_key_fault restore key =
     (if \<not> jhas restore key then Some (MissingKey key)
      else
        let value = jget restore key
        in if value = JStr ''absent'' then None
           else if key = ''severity'' \<and> (case value of JStr s \<Rightarrow> strip s = [] | _ \<Rightarrow> True) then Some BadSeverity
           else if key = ''debuglevel'' \<and> (case value of JInt i \<Rightarrow> False | _ \<Rightarrow> True) then Some BadDebuglevel
           else None)"

definition restore_problem :: "json \<Rightarrow> restore_fault option" where
  "restore_problem restore =
     (case restore of
        JObj d \<Rightarrow>
          (if jhas restore ''created'' then
             (if jget restore ''created'' = JBool True \<and> length d = 1 then None else Some BadCreated)
           else (case restore_key_fault restore ''severity'' of
                   Some f \<Rightarrow> Some f
                 | None \<Rightarrow> restore_key_fault restore ''debuglevel''))
      | _ \<Rightarrow> Some NoRestore)"

datatype marker_fault = MarkerNotObject | RestoreFault restore_fault

definition validate_investigation_marker :: "json \<Rightarrow> marker_fault option" where
  "validate_investigation_marker cfg =
     (case logger_entry (case dhcp4_loggers cfg of Some xs \<Rightarrow> xs | None \<Rightarrow> []) of
        None \<Rightarrow> None
      | Some e \<Rightarrow>
          let uc = jget e ''user-context''
          in if \<not> is_dict uc \<or> \<not> jhas uc inv_key then None
             else if \<not> is_dict (jget uc inv_key) then Some MarkerNotObject
             else map_option RestoreFault (restore_problem (jget (jget uc inv_key) ''restore'')))"

text \<open>The entry with the DEBUG level and the marker written into it.\<close>

definition marker_value :: "json \<Rightarrow> json \<Rightarrow> json" where
  "marker_value until restore = JObj [(''until'', until), (''restore'', restore)]"

definition mark_entry :: "json \<Rightarrow> json \<Rightarrow> json \<Rightarrow> json \<Rightarrow> json" where
  "mark_entry until restore uc e =
     jset ''user-context'' (jset inv_key (marker_value until restore) uc)
       (jset ''debuglevel'' (JInt 55) (jset ''severity'' (JStr ''DEBUG'') e))"

definition set_investigation_logging :: "json \<Rightarrow> json \<Rightarrow> json \<times> logging_outcome" where
  "set_investigation_logging cfg until =
     (if validate_investigation_marker cfg \<noteq> None then (cfg, LogMarkerInvalid)
      else (case dhcp4_loggers cfg of
              None \<Rightarrow> (cfg, LogUnsupported)
            | Some xs \<Rightarrow>
                (case find_index is_inv_logger xs of
                   None \<Rightarrow>
                     (put_loggers (xs @ [mark_entry until (JObj [(''created'', JBool True)]) (JObj [])
                                          (JObj [(''name'', JStr inv_logger)])]) cfg, LogOk)
                 | Some i \<Rightarrow>
                     let e = xs ! i; uc = jget_default e ''user-context'' (JObj [])
                     in if \<not> is_dict uc then (cfg, LogUnsupported)
                        else
                          let marker = jget uc inv_key;
                              restore = (if is_dict marker then jget marker ''restore''
                                         else JObj [(''severity'', jget_default e ''severity'' (JStr ''absent'')),
                                                    (''debuglevel'', jget_default e ''debuglevel'' (JStr ''absent''))])
                          in if is_dict marker \<and> restore_problem (jget marker ''restore'') \<noteq> None
                             then (cfg, LogMarkerInvalid)
                             else (put_loggers (xs[i := mark_entry until restore uc e]) cfg, LogOk))))"

text \<open>One of the two keys put back, and the whole entry.\<close>

definition put_back :: "json \<Rightarrow> string \<Rightarrow> json \<Rightarrow> json" where
  "put_back restore key e =
     (let old = jget_default restore key (JStr ''absent'')
      in if old = JStr ''absent'' then jdel key e else jset key old e)"

definition clear_entry :: "json \<Rightarrow> json \<Rightarrow> json" where
  "clear_entry restore e =
     (let e1 = put_back restore ''debuglevel'' (put_back restore ''severity'' e);
          uc = jdel inv_key (jget e ''user-context'')
      in if truthy uc then jset ''user-context'' uc e1 else jdel ''user-context'' e1)"

definition clear_investigation_logging :: "(json \<Rightarrow> int option) \<Rightarrow> json \<Rightarrow> int option \<Rightarrow> json \<times> logging_outcome" where
  "clear_investigation_logging parse_until cfg now =
     (if validate_investigation_marker cfg \<noteq> None then (cfg, LogMarkerInvalid)
      else
        let xs = (case dhcp4_loggers cfg of Some xs \<Rightarrow> xs | None \<Rightarrow> [])
        in (case find_index is_inv_logger xs of
              None \<Rightarrow> (cfg, LogNoChange)
            | Some i \<Rightarrow>
                let e = xs ! i; marker = jget (jget e ''user-context'') inv_key
                in if \<not> is_dict marker then (cfg, LogNoChange)
                   else if (case (now, parse_until (jget marker ''until'')) of
                              (Some t, Some due) \<Rightarrow> t < due | _ \<Rightarrow> False)
                   then (cfg, LogNoChange)
                   else
                     let restore = jget marker ''restore''
                     in if truthy (jget restore ''created'')
                        then (put_loggers (remove_nth i xs) cfg, LogOk)
                        else (put_loggers (xs[i := clear_entry restore e]) cfg, LogOk)))"

section \<open>Setting and clearing\<close>

lemma dhcp4_loggers_Some:
  assumes "dhcp4_loggers cfg = Some xs"
  shows "is_dict (jget cfg ''Dhcp4'')" and "is_dict cfg"
proof -
  show d: "is_dict (jget cfg ''Dhcp4'')" using assms by (auto simp: dhcp4_loggers_def Let_def split: if_splits)
  show "is_dict cfg"
  proof (rule ccontr)
    assume "\<not> is_dict cfg"
    then show False using d by (simp add: jget_non_dict)
  qed
qed

lemma dhcp4_loggers_put:
  assumes "dhcp4_loggers cfg = Some ys"
  shows "dhcp4_loggers (put_loggers xs cfg) = Some xs"
  using dhcp4_loggers_Some [OF assms] by (simp add: dhcp4_loggers_def put_loggers_def)

lemma put_loggers_put [simp]: "is_dict cfg \<Longrightarrow> put_loggers xs (put_loggers ys cfg) = put_loggers xs cfg"
  by (simp add: put_loggers_def)

lemma put_loggers_same:
  assumes "jget (jget cfg ''Dhcp4'') ''loggers'' = JList xs"
  shows "put_loggers xs cfg = cfg"
proof -
  have l: "jhas (jget cfg ''Dhcp4'') ''loggers''" by (rule jget_notNull_has) (simp add: assms)
  then have "jget cfg ''Dhcp4'' \<noteq> JNull" using jhas_dict by fastforce
  then have "jhas cfg ''Dhcp4''" by (rule jget_notNull_has)
  then show ?thesis using l by (simp add: put_loggers_def flip: assms)
qed

text \<open>Deleting what was appended: the order of the keys of a dict comes back.\<close>

lemma jdel_jset_other: "k \<noteq> l \<Longrightarrow> jdel k (jset l x v) = jset l x (jdel k v)"
proof (cases v)
  case (JObj d)
  assume "k \<noteq> l"
  then have "AList.delete k (AList.update l x d) = AList.update l x (AList.delete k d)"
    by (induction d) auto
  then show ?thesis using JObj by simp
qed auto

lemma jset_commute: "k \<noteq> l \<Longrightarrow> jhas v k \<Longrightarrow> jset k x (jset l y v) = jset l y (jset k x v)"
proof (cases v)
  case (JObj d)
  assume k: "k \<noteq> l" "jhas v k"
  then obtain w where "map_of d k = Some w" using JObj by (auto simp: jhas_JObj)
  then have "AList.update k x (AList.update l y d) = AList.update l y (AList.update k x d)"
    by (rule update_commute [OF k(1)])
  then show ?thesis using JObj by simp
qed auto

text \<open>The level keys of a logger as Kea documents them, and a \<open>user-context\<close> that is absent or not empty.\<close>

definition plain_entry :: "json \<Rightarrow> bool" where
  "plain_entry e =
     (is_dict e \<and>
      (jhas e ''severity'' \<longrightarrow> (\<exists>s. jget e ''severity'' = JStr s \<and> strip s \<noteq> [] \<and> s \<noteq> ''absent'')) \<and>
      (jhas e ''debuglevel'' \<longrightarrow> (\<exists>i. jget e ''debuglevel'' = JInt i)) \<and>
      (jhas e ''user-context'' \<longrightarrow>
         is_dict (jget e ''user-context'') \<and> truthy (jget e ''user-context'') \<and> \<not> jhas (jget e ''user-context'') inv_key))"

definition recorded :: "json \<Rightarrow> json" where
  "recorded e = JObj [(''severity'', jget_default e ''severity'' (JStr ''absent'')),
                      (''debuglevel'', jget_default e ''debuglevel'' (JStr ''absent''))]"

lemma recorded_get [simp]:
  "jget (recorded e) ''severity'' = jget_default e ''severity'' (JStr ''absent'')"
  "jget (recorded e) ''debuglevel'' = jget_default e ''debuglevel'' (JStr ''absent'')"
  "jhas (recorded e) ''severity''" "jhas (recorded e) ''debuglevel''" "\<not> jhas (recorded e) ''created''"
  "jget (recorded e) ''created'' = JNull" "is_dict (recorded e)"
  by (simp_all add: recorded_def jget_JObj jhas_JObj)

lemma clear_mark:
  assumes p: "plain_entry e"
  shows "clear_entry (recorded e) (mark_entry until (recorded e) (jget_default e ''user-context'' (JObj [])) e) = e"
proof -
  let ?S = "''severity''" and ?D = "''debuglevel''" and ?U = "''user-context''"
  let ?uc = "jget_default e ?U (JObj [])"
  let ?X = "jset inv_key (marker_value until (recorded e)) ?uc"
  have e: "is_dict e" using p by (simp add: plain_entry_def)
  have uc: "is_dict ?uc" "\<not> jhas ?uc inv_key" "truthy ?uc = jhas e ?U"
    using p by (cases "jhas e ?U"; auto simp: plain_entry_def jhas_JObj)+
  have pb: "put_back (recorded e) k (jset k y e') = e'"
    if "k = ?S \<or> k = ?D" "is_dict e'" "jhas e' k = jhas e k" "jget e' k = jget e k" for k y e'
  proof -
    have "jhas e k \<Longrightarrow> jget e k \<noteq> JStr ''absent''" using p that(1) by (auto simp: plain_entry_def)
    then show ?thesis using that by (cases "jhas e k") (auto simp: put_back_def jset_eq_self)
  qed
  have under: "put_back (recorded e) k (jset l x e') = jset l x (put_back (recorded e) k e')"
    if "k = ?S \<or> k = ?D" "k \<noteq> l" "jhas e' k" for k l x e'
    using that by (auto simp: put_back_def Let_def jdel_jset_other jset_commute)
  have "put_back (recorded e) ?S (mark_entry until (recorded e) ?uc e) = jset ?U ?X (jset ?D (JInt 55) e)"
    using e pb [of ?S e] by (simp add: mark_entry_def under)
  moreover have "put_back (recorded e) ?D (jset ?U ?X (jset ?D (JInt 55) e)) = jset ?U ?X e"
    using e pb [of ?D e] by (simp add: under)
  moreover have "jget (mark_entry until (recorded e) ?uc e) ?U = ?X" using e by (simp add: mark_entry_def)
  moreover have "jdel inv_key ?X = ?uc" using uc by simp
  ultimately show ?thesis
    using e uc(3) by (cases "jhas e ?U") (simp_all add: clear_entry_def Let_def)
qed


lemma restore_recorded: "plain_entry e \<Longrightarrow> restore_problem (recorded e) = None"
proof -
  assume p: "plain_entry e"
  have s: "restore_key_fault (recorded e) ''severity'' = None"
    using p by (cases "jhas e ''severity''") (auto simp: plain_entry_def restore_key_fault_def)
  have d: "restore_key_fault (recorded e) ''debuglevel'' = None"
    using p by (cases "jhas e ''debuglevel''") (auto simp: plain_entry_def restore_key_fault_def)
  obtain r where r: "recorded e = JObj r" by (simp add: recorded_def)
  then show ?thesis
    using s d recorded_get(5) [of e] by (simp add: restore_problem_def)
qed

lemma mark_entry_facts:
  assumes "is_dict e" and "is_dict uc" and "is_inv_logger e"
  shows "is_inv_logger (mark_entry until restore uc e)"
    and "jget (mark_entry until restore uc e) ''user-context'' = jset inv_key (marker_value until restore) uc"
    and "is_dict (mark_entry until restore uc e)"
  using assms by (simp_all add: mark_entry_def is_inv_logger_def)

lemma marker_value_get [simp]:
  "jget (marker_value until restore) ''restore'' = restore" "jget (marker_value until restore) ''until'' = until"
  "is_dict (marker_value until restore)"
  by (simp_all add: marker_value_def jget_JObj)

lemma logger_entry_index:
  "logger_entry xs = (case find_index is_inv_logger xs of None \<Rightarrow> None | Some i \<Rightarrow> Some (xs ! i))"
  by (simp add: logger_entry_def find_via_index)

text \<open>A configuration whose logger entry carries a marker with this restore object.\<close>

lemma validate_marked:
  assumes "dhcp4_loggers cfg = Some xs" and "find_index is_inv_logger xs = Some i"
    and "is_dict (jget (xs ! i) ''user-context'')" and "jget (jget (xs ! i) ''user-context'') inv_key = marker_value until restore"
  shows "validate_investigation_marker cfg = map_option RestoreFault (restore_problem restore)"
proof -
  have "jhas (jget (xs ! i) ''user-context'') inv_key"
    by (rule jget_notNull_has) (simp add: assms(4) marker_value_def)
  then show ?thesis using assms by (simp add: validate_investigation_marker_def logger_entry_index Let_def)
qed


lemma clear_run:
  assumes "dhcp4_loggers cfg = Some xs" and "find_index is_inv_logger xs = Some i"
    and "is_dict (jget (xs ! i) ''user-context'')" and "jget (jget (xs ! i) ''user-context'') inv_key = marker_value until restore"
    and "restore_problem restore = None"
  shows "clear_investigation_logging parse_until cfg None =
    (put_loggers (if truthy (jget restore ''created'') then remove_nth i xs else xs[i := clear_entry restore (xs ! i)]) cfg, LogOk)"
  using validate_marked [OF assms(1-4)] assms
  by (simp add: clear_investigation_logging_def)

section \<open>Properties\<close>

definition plain_logging :: "json \<Rightarrow> bool" where
  "plain_logging cfg =
     (case jget (jget cfg ''Dhcp4'') ''loggers'' of
        JList xs \<Rightarrow> list_all (\<lambda>x. is_inv_logger x \<longrightarrow> plain_entry x) xs
      | _ \<Rightarrow> False)"

text \<open>What turning logging on leaves: the list, and the entry the marker is on.\<close>

lemma set_logging_run:
  assumes "plain_logging cfg"
  shows "\<exists>xs. dhcp4_loggers cfg = Some xs \<and> jget (jget cfg ''Dhcp4'') ''loggers'' = JList xs \<and>
    set_investigation_logging cfg until =
      (put_loggers
        (case find_index is_inv_logger xs of
           None \<Rightarrow> xs @ [mark_entry until (JObj [(''created'', JBool True)]) (JObj []) (JObj [(''name'', JStr inv_logger)])]
         | Some i \<Rightarrow> xs[i := mark_entry until (recorded (xs ! i)) (jget_default (xs ! i) ''user-context'' (JObj [])) (xs ! i)]) cfg,
       LogOk)"
proof -
  obtain xs where xs: "jget (jget cfg ''Dhcp4'') ''loggers'' = JList xs" "list_all (\<lambda>x. is_inv_logger x \<longrightarrow> plain_entry x) xs"
    using assms by (auto simp: plain_logging_def split: json.splits)
  have d: "is_dict (jget cfg ''Dhcp4'')" by (rule jget_notNull_dict [of _ "''loggers''"]) (simp add: xs(1))
  then have l: "dhcp4_loggers cfg = Some xs" by (simp add: dhcp4_loggers_def xs(1))
  show ?thesis
  proof (cases "find_index is_inv_logger xs")
    case None
    then show ?thesis
      using l xs(1) by (simp add: set_investigation_logging_def validate_investigation_marker_def logger_entry_index)
  next
    case (Some i)
    have i: "i < length xs" "is_inv_logger (xs ! i)" "xs ! i \<in> set xs" using find_index_SomeD [OF Some] by auto
    then have p: "plain_entry (xs ! i)" using xs(2) by (simp add: list_all_iff)
    have v: "validate_investigation_marker cfg = None"
    proof (cases "jhas (xs ! i) ''user-context''")
      case True
      then show ?thesis using p l Some by (auto simp: plain_entry_def validate_investigation_marker_def logger_entry_index Let_def)
    next
      case False
      then show ?thesis using l Some jget_not_has [OF False] by (simp add: validate_investigation_marker_def logger_entry_index)
    qed
    have uc: "is_dict (jget_default (xs ! i) ''user-context'' (JObj []))"
        "jget (jget_default (xs ! i) ''user-context'' (JObj [])) inv_key = JNull"
      using p by (cases "jhas (xs ! i) ''user-context''"; auto simp: plain_entry_def jget_not_has jget_JObj)+
    then show ?thesis
      using v l xs(1) Some by (auto simp: set_investigation_logging_def Let_def recorded_def)
  qed
qed

text \<open>
  Turning investigation logging on and off again gives back the very configuration, down to the
  order of its keys, whatever the deadline: the entry Jen created is gone, an entry that existed has
  its own severity and debuglevel (or none) and its own \<open>user-context\<close>. This for logger entries with
  the values Kea documents (a severity that is a text, an integer debuglevel).
\<close>

theorem investigation_set_clear:
  assumes "plain_logging cfg"
  shows "clear_investigation_logging parse_until (fst (set_investigation_logging cfg until)) None = (cfg, LogOk)"
proof -
  obtain xs where l: "dhcp4_loggers cfg = Some xs" and raw: "jget (jget cfg ''Dhcp4'') ''loggers'' = JList xs"
    and run: "set_investigation_logging cfg until =
      (put_loggers
        (case find_index is_inv_logger xs of
           None \<Rightarrow> xs @ [mark_entry until (JObj [(''created'', JBool True)]) (JObj []) (JObj [(''name'', JStr inv_logger)])]
         | Some i \<Rightarrow> xs[i := mark_entry until (recorded (xs ! i)) (jget_default (xs ! i) ''user-context'' (JObj [])) (xs ! i)]) cfg,
       LogOk)"
    using set_logging_run [OF assms] by blast
  have cd: "is_dict cfg" by (rule dhcp4_loggers_Some(2) [OF l])
  show ?thesis
  proof (cases "find_index is_inv_logger xs")
    case None
    let ?e = "JObj [(''name'', JStr inv_logger)]" and ?r = "JObj [(''created'', JBool True)]"
    let ?m = "mark_entry until ?r (JObj []) ?e"
    have e: "is_inv_logger ?e" by (simp add: is_inv_logger_def jget_JObj)
    note f = mark_entry_facts [OF _ _ e, of "JObj []" until ?r, unfolded is_dict.simps, OF TrueI TrueI]
    have "find_index is_inv_logger (xs @ [?m]) = Some (length xs)" using None f(1) by (simp add: find_index_append)
    moreover have "restore_problem ?r = None" "truthy (jget ?r ''created'')" by (simp_all add: restore_problem_def jhas_JObj jget_JObj)
    moreover have "jget (jget ((xs @ [?m]) ! length xs) ''user-context'') inv_key = marker_value until ?r"
        "is_dict (jget ((xs @ [?m]) ! length xs) ''user-context'')"
      using f(2) by (simp_all add: jget_JObj)
    ultimately have "clear_investigation_logging parse_until (put_loggers (xs @ [?m]) cfg) None =
        (put_loggers (remove_nth (length xs) (xs @ [?m])) (put_loggers (xs @ [?m]) cfg), LogOk)"
      using clear_run [OF dhcp4_loggers_put [OF l]] by simp
    then show ?thesis
      using run None cd put_loggers_same [OF raw] remove_nth_append_length [of xs ?m "[]"] by simp
  next
    case (Some i)
    have i: "i < length xs" "is_inv_logger (xs ! i)" "xs ! i \<in> set xs" using find_index_SomeD [OF Some] by auto
    define e where "e = xs ! i"
    define m where "m = mark_entry until (recorded e) (jget_default e ''user-context'' (JObj [])) e"
    have p: "plain_entry e" using assms i raw by (simp add: plain_logging_def list_all_iff e_def)
    then have d: "is_dict e" "is_dict (jget_default e ''user-context'' (JObj []))"
      by (cases "jhas e ''user-context''"; auto simp: plain_entry_def)+
    have ie: "is_inv_logger e" using i(2) by (simp add: e_def)
    note f = mark_entry_facts [OF d ie, of until "recorded e", folded m_def]
    have fi: "find_index is_inv_logger (xs[i := m]) = Some i" by (rule find_index_update [OF Some f(1)])
    have "clear_investigation_logging parse_until (put_loggers (xs[i := m]) cfg) None =
        (put_loggers (xs[i := m, i := clear_entry (recorded e) m]) (put_loggers (xs[i := m]) cfg), LogOk)"
      using clear_run [OF dhcp4_loggers_put [OF l] fi, of until "recorded e"] f(2) i(1) d(2) restore_recorded [OF p] by simp
    moreover have "clear_entry (recorded e) m = e" unfolding m_def by (rule clear_mark [OF p])
    moreover have "xs[i := e] = xs" by (simp add: e_def)
    moreover have "fst (set_investigation_logging cfg until) = put_loggers (xs[i := m]) cfg"
      using run Some by (simp add: m_def e_def)
    ultimately show ?thesis using cd put_loggers_same [OF raw] by simp
  qed
qed

definition demo_logging :: "json \<Rightarrow> json" where
  "demo_logging level = JObj [(''Dhcp4'', JObj [(''loggers'', JList [JObj [
     (''name'', JStr ''kea-dhcp4''), (''debuglevel'', level), (''severity'', JStr ''INFO''), (''output-options'', JList [])]])])]"

lemma investigation_set_clear_witness:
  "clear_investigation_logging (\<lambda>v. None) (fst (set_investigation_logging (demo_logging (JInt 0)) (JStr ''2026-01-01''))) None =
     (demo_logging (JInt 0), LogOk) \<and>
   fst (set_investigation_logging (demo_logging (JInt 0)) (JStr ''2026-01-01'')) \<noteq> demo_logging (JInt 0)"
proof
  have "strip ''INFO'' \<noteq> []" by code_simp
  then have "plain_logging (demo_logging (JInt 0))"
    by (simp add: plain_logging_def plain_entry_def demo_logging_def jget_JObj jhas_JObj)
  then show "clear_investigation_logging (\<lambda>v. None) (fst (set_investigation_logging (demo_logging (JInt 0)) (JStr ''2026-01-01''))) None =
     (demo_logging (JInt 0), LogOk)" by (rule investigation_set_clear)
  show "fst (set_investigation_logging (demo_logging (JInt 0)) (JStr ''2026-01-01'')) \<noteq> demo_logging (JInt 0)" by code_simp
qed

text \<open>
  A marker whose way back cannot be trusted is never acted on: turning logging on or off leaves the
  configuration as it is and says so. But turning logging on does not check what it records: over a
  logger whose debuglevel is not an integer (the text "0" here) it succeeds, and the logging it
  turned on can never be turned off again.
\<close>

theorem damaged_marker_kept:
  "(if validate_investigation_marker cfg = None then True
    else set_investigation_logging cfg until = (cfg, LogMarkerInvalid) \<and>
         clear_investigation_logging parse_until cfg now = (cfg, LogMarkerInvalid)) \<and>
   snd (set_investigation_logging (demo_logging (JStr ''0'')) until') = LogOk \<and>
   snd (clear_investigation_logging parse_until (fst (set_investigation_logging (demo_logging (JStr ''0'')) until')) now) = LogMarkerInvalid"
proof (intro conjI)
  show "if validate_investigation_marker cfg = None then True
    else set_investigation_logging cfg until = (cfg, LogMarkerInvalid) \<and>
         clear_investigation_logging parse_until cfg now = (cfg, LogMarkerInvalid)"
    by (simp add: set_investigation_logging_def clear_investigation_logging_def)
  let ?e = "JObj [(''name'', JStr ''kea-dhcp4''), (''debuglevel'', JStr ''0''), (''severity'', JStr ''INFO''), (''output-options'', JList [])]"
  have run: "set_investigation_logging (demo_logging (JStr ''0'')) until' =
      (put_loggers [mark_entry until' (recorded ?e) (JObj []) ?e] (demo_logging (JStr ''0'')), LogOk)"
    by (simp add: set_investigation_logging_def validate_investigation_marker_def demo_logging_def dhcp4_loggers_def jget_JObj
        logger_entry_index is_inv_logger_def inv_logger_def jhas_JObj jget_default_def recorded_def inv_key_def Let_def)
  then show "snd (set_investigation_logging (demo_logging (JStr ''0'')) until') = LogOk" by simp
  let ?cfg = "put_loggers [mark_entry until' (recorded ?e) (JObj []) ?e] (demo_logging (JStr ''0''))"
  have l: "dhcp4_loggers (demo_logging (JStr ''0'')) = Some [?e]"
    by (simp add: demo_logging_def dhcp4_loggers_def jget_JObj)
  have inv: "is_inv_logger ?e" by (simp add: is_inv_logger_def inv_logger_def jget_JObj)
  let ?m = "mark_entry until' (recorded ?e) (JObj []) ?e"
  note f = mark_entry_facts [OF _ _ inv, of "JObj []" until' "recorded ?e", unfolded is_dict.simps, OF TrueI TrueI]
  have fi: "find_index is_inv_logger [?m] = Some 0" using f(1) by simp
  have uc: "is_dict (jget ([?m] ! 0) ''user-context'')"
      "jget (jget ([?m] ! 0) ''user-context'') inv_key = marker_value until' (recorded ?e)"
    using f(2) by (simp_all add: jget_JObj)
  have "recorded ?e = JObj [(''severity'', JStr ''INFO''), (''debuglevel'', JStr ''0'')]"
    by (simp add: recorded_def jget_default_def jhas_JObj jget_JObj)
  moreover have "restore_problem (JObj [(''severity'', JStr ''INFO''), (''debuglevel'', JStr ''0'')]) = Some BadDebuglevel"
    by code_simp
  ultimately have "validate_investigation_marker ?cfg = Some (RestoreFault BadDebuglevel)"
    using validate_marked [OF dhcp4_loggers_put [OF l] fi uc] by simp
  then show "snd (clear_investigation_logging parse_until (fst (set_investigation_logging (demo_logging (JStr ''0'')) until')) now) = LogMarkerInvalid"
    by (simp add: run clear_investigation_logging_def)
qed

end
