(* ===== verification/KeaReadiness.thy ===== *)
theory KeaReadiness
  imports KeaClasses PyConv
begin

text \<open>
  \<open>jen/services/kea_readiness.py\<close>: the configuration keys a newer Kea has removed or renamed, and the
  walk that finds them; with it \<open>jen/services/ddns_writers.py\<close> (who writes DNS names, as far as the
  configuration shows it) and \<open>kea_log_trace.host_log_path\<close> (which log files the host would read).
\<close>

section \<open>The table\<close>

record removed_key =
  rk_key :: string
  rk_container :: "string option"
  rk_since :: string
  rk_replacement :: string
  rk_hint :: string

definition removed :: "string \<Rightarrow> string option \<Rightarrow> string \<Rightarrow> string \<Rightarrow> string \<Rightarrow> removed_key" where
  "removed k c s r h = \<lparr>rk_key = k, rk_container = c, rk_since = s, rk_replacement = r, rk_hint = h\<rparr>"

text \<open>The arrow of the texts, U+2192 in UTF-8.\<close>

definition arrow :: string where
  "arrow = map char_of [226, 134, 146 :: nat]"

definition removed_keys :: "removed_key list" where
  "removed_keys =
    [removed ''require-client-classes'' None ''2.7.4'' ''evaluate-additional-classes''
       (''Kea 3.0 reads the old name with a deprecation warning; Jen writes the new one on save (Client Classes '' @ arrow @ '' Edit)''),
     removed ''only-if-required'' None ''2.7.4'' ''only-in-additional-list''
       ''on a client class; Jen writes the new spelling on save'',
     removed ''client-class'' None ''2.7.4'' ''client-classes (a list)''
       ''the singular guard spelling; Jen writes the list form on save'',
     removed ''reservation-mode'' None ''1.9.1'' ''reservations-global / reservations-in-subnet / reservations-out-of-pool''
       (''removed in Kea 2.x; edit kea-dhcp4.conf by hand (Servers '' @ arrow @ '' Config history shows what Jen has pushed)''),
     removed ''qualifying-suffix'' (Some ''dhcp-ddns'') ''1.7.7'' ''ddns-qualifying-suffix (global / subnet)''
       ''moved out of the dhcp-ddns block; set it on the DDNS page'',
     removed ''override-no-update'' (Some ''dhcp-ddns'') ''1.7.7'' ''ddns-override-no-update''
       ''moved out of the dhcp-ddns block; set it on the DDNS page'',
     removed ''override-client-update'' (Some ''dhcp-ddns'') ''1.7.7'' ''ddns-override-client-update''
       ''moved out of the dhcp-ddns block; set it on the DDNS page'',
     removed ''replace-client-name'' (Some ''dhcp-ddns'') ''1.7.7'' ''ddns-replace-client-name''
       ''moved out of the dhcp-ddns block; set it on the DDNS page'',
     removed ''generated-prefix'' (Some ''dhcp-ddns'') ''1.7.7'' ''ddns-generated-prefix''
       ''moved out of the dhcp-ddns block; set it on the DDNS page'',
     removed ''hostname-char-set'' (Some ''dhcp-ddns'') ''1.7.7'' ''hostname-char-set (global / subnet)''
       ''moved out of the dhcp-ddns block'',
     removed ''hostname-char-replacement'' (Some ''dhcp-ddns'') ''1.7.7'' ''hostname-char-replacement (global / subnet)''
       ''moved out of the dhcp-ddns block'']"

definition by_key :: "string \<Rightarrow> removed_key option" where
  "by_key k = map_of (map (\<lambda>e. (rk_key e, e)) removed_keys) k"

section \<open>The walk\<close>

text \<open>
  A path is its segments; the code's text joins them with dots. \<open>path.rsplit(".", 1)\<close> is \<open>path_split\<close>:
  a key may itself contain a dot, and is then split. The last segment of a list's path is the key that
  holds the list, or the index of a list inside a list; it is never a labelled one.
\<close>

datatype seg =
    SegKey string
  | SegId json            \<comment> \<open>\<open>subnet4[id n]\<close>\<close>
  | SegName string json   \<comment> \<open>\<open>client-classes['pxe']\<close>\<close>
  | SegIndex string nat   \<comment> \<open>\<open>pools[0]\<close>\<close>
  | SegItem nat           \<comment> \<open>\<open>[0]\<close>: an item that is not a dict\<close>

definition rsplit_dot :: "string \<Rightarrow> (string \<times> string) option" where
  "rsplit_dot s =
     (if CHR ''.'' \<in> set s
      then Some (rev (tl (dropWhile (\<lambda>c. c \<noteq> CHR ''.'') (rev s))), rev (takeWhile (\<lambda>c. c \<noteq> CHR ''.'') (rev s)))
      else None)"

definition path_split :: "seg list \<Rightarrow> seg list \<times> string" where
  "path_split p =
     (case rev p of
        SegKey k # r \<Rightarrow>
          (case rsplit_dot k of Some (a, b) \<Rightarrow> (rev r @ [SegKey a], b) | None \<Rightarrow> (rev r, k))
      | SegItem i # r \<Rightarrow> (rev r, ''['' @ show_nat i @ '']'')
      | _ # r \<Rightarrow> (rev r, [])
      | [] \<Rightarrow> ([], []))"

definition label :: "json \<Rightarrow> string \<Rightarrow> nat \<Rightarrow> seg" where
  "label node key index =
     (if key = ''subnet4'' \<and> jget node ''id'' \<noteq> JNull then SegId (jget node ''id'')
      else if key \<in> set [''client-classes'', ''shared-networks'', ''peers''] \<and> truthy (jget node ''name'')
           then SegName key (jget node ''name'')
      else SegIndex key index)"

type_synonym hit_row = "seg list \<times> removed_key"

definition key_hits :: "seg list \<Rightarrow> string option \<Rightarrow> string \<Rightarrow> hit_row list" where
  "key_hits path container k =
     (case by_key k of
        Some e \<Rightarrow>
          (if rk_container e = (case rk_container e of Some c \<Rightarrow> container | None \<Rightarrow> None)
           then [(path @ [SegKey k], e)] else [])
      | None \<Rightarrow> [])"

fun walk :: "seg list \<Rightarrow> string option \<Rightarrow> json \<Rightarrow> hit_row list"
  and walk_items :: "seg list \<Rightarrow> string option \<Rightarrow> pydict \<Rightarrow> hit_row list"
  and walk_list :: "seg list \<Rightarrow> string option \<Rightarrow> nat \<Rightarrow> json list \<Rightarrow> hit_row list" where
  "walk path container (JObj d) = walk_items path container d"
| "walk path container (JList xs) = walk_list path container 0 xs"
| "walk path container v = []"
| "walk_items path container [] = []"
| "walk_items path container ((k, v) # d) =
     key_hits path container k @ walk (path @ [SegKey k]) (Some k) v @ walk_items path container d"
| "walk_list path container i [] = []"
| "walk_list path container i (x # xs) =
     walk (fst (path_split path) @ [if is_dict x then label x (snd (path_split path)) i else SegItem i]) container x @
     walk_list path container (Suc i) xs"

definition scan_removed_keys :: "json \<Rightarrow> hit_row list" where
  "scan_removed_keys d4 = walk [SegKey ''Dhcp4''] None (py_or d4 (JObj []))"

section \<open>Versions and the summary\<close>

definition minor_of :: "nat list option \<Rightarrow> string option" where
  "minor_of version =
     (case version of
        Some (a # b # rest) \<Rightarrow> Some (show_nat a @ ''.'' @ show_nat b)
      | _ \<Rightarrow> None)"

datatype check_status = ChkOk | ChkWarn | ChkFail | ChkSkip

record readiness =
  rd_ready :: bool
  rd_actions :: nat
  rd_checked :: nat

definition summarize :: "check_status list \<Rightarrow> readiness" where
  "summarize checks =
     (let actions = length (filter (\<lambda>c. c = ChkWarn \<or> c = ChkFail) checks);
          checked = length (filter (\<lambda>c. c \<noteq> ChkSkip) checks)
      in \<lparr>rd_ready = (actions = 0 \<and> 0 < checked), rd_actions = actions, rd_checked = checked\<rparr>)"

section \<open>Who writes DNS names\<close>

definition run_script_library :: string where
  "run_script_library = ''libdhcp_run_script.so''"

definition is_run_script :: "json \<Rightarrow> bool" where
  "is_run_script entry =
     (is_dict entry \<and>
      (case jget entry ''library'' of
         JStr s \<Rightarrow> last_piece (CHR ''/'') (strip s) = run_script_library | _ \<Rightarrow> False))"

definition hook_loaded :: "json \<Rightarrow> bool" where
  "hook_loaded d4 = (case jget d4 ''hooks-libraries'' of JList xs \<Rightarrow> list_ex is_run_script xs | _ \<Rightarrow> False)"

definition updates_enabled :: "json \<Rightarrow> bool" where
  "updates_enabled d4 = truthy (jget (jget d4 ''dhcp-ddns'') ''enable-updates'')"

text \<open>The \<open>[ddns]\<close> section of Jen's configuration file, as the texts of its keys.\<close>

definition effective_provider :: "(string \<Rightarrow> string option) \<Rightarrow> string" where
  "effective_provider cfg =
     (let get = (\<lambda>k. strip (case cfg k of Some v \<Rightarrow> v | None \<Rightarrow> []));
          provider = get ''dns_provider''
      in if provider \<noteq> [] then provider
         else if get ''api_url'' \<noteq> [] \<or> get ''api_token'' \<noteq> [] then ''technitium''
         else ''none'')"

section \<open>Which log files the host would read\<close>

text \<open>\<open>posixpath.normpath\<close>.\<close>

definition norm_comp :: "nat \<Rightarrow> string \<Rightarrow> string list \<Rightarrow> string list" where
  "norm_comp slashes piece acc =
     (if piece = [] \<or> piece = ''.'' then acc
      else if piece \<noteq> ''..'' \<or> (slashes = 0 \<and> acc = []) \<or> (acc \<noteq> [] \<and> last acc = ''..'') then acc @ [piece]
      else butlast acc)"

definition normpath :: "string \<Rightarrow> string" where
  "normpath path =
     (if path = [] then ''.''
      else
        let slashes = (if has_prefix ''//'' path \<and> \<not> has_prefix ''///'' path then 2
                       else if has_prefix ''/'' path then 1 else 0);
            comps = foldl (\<lambda>acc piece. norm_comp slashes piece acc) [] (split_on (CHR ''/'') path);
            out = replicate slashes (CHR ''/'') @ join_with ''/'' comps
        in if out = [] then ''.'' else out)"

definition has_suffix :: "string \<Rightarrow> string \<Rightarrow> bool" where
  "has_suffix p s = has_prefix (rev p) (rev s)"

definition host_log_path :: "json \<Rightarrow> string" where
  "host_log_path path =
     (case path of
        JStr s \<Rightarrow>
          (if has_prefix ''/var/log/'' s \<and> has_suffix ''.log'' s \<and> normpath s = s \<and>
              ''..'' \<notin> set (split_on (CHR ''/'') s)
           then s else [])
      | _ \<Rightarrow> [])"

section \<open>The walk finds every removed key\<close>

text \<open>A value inside the configuration, with the key of the dict it was reached through.\<close>

inductive reached :: "json \<Rightarrow> string option \<Rightarrow> json \<Rightarrow> bool" for cfg where
  here: "reached cfg None cfg"
| dict: "reached cfg c (JObj d) \<Longrightarrow> (k, v) \<in> set d \<Longrightarrow> reached cfg (Some k) v"
| item: "reached cfg c (JList xs) \<Longrightarrow> x \<in> set xs \<Longrightarrow> reached cfg c x"

text \<open>The same seen from the top: what lies below a value reached with container \<open>c\<close>.\<close>

inductive below :: "string option \<Rightarrow> json \<Rightarrow> string option \<Rightarrow> json \<Rightarrow> bool" where
  here: "below c v c v"
| dict: "(k, v) \<in> set d \<Longrightarrow> below (Some k) v c' w \<Longrightarrow> below c (JObj d) c' w"
| item: "x \<in> set xs \<Longrightarrow> below c x c' w \<Longrightarrow> below c (JList xs) c' w"

inductive_cases below_dictE: "below c (JObj d) c' w"
inductive_cases below_listE: "below c (JList xs) c' w"
inductive_simps below_leaf [simp]:
  "below c JNull c' w" "below c (JBool b) c' w" "below c (JInt i) c' w" "below c (JFloat r) c' w" "below c (JStr s) c' w"

lemma below_dict_step: "below c v c' (JObj d) \<Longrightarrow> (k, w) \<in> set d \<Longrightarrow> below c v (Some k) w"
  by (induction c v c' "JObj d" rule: below.induct) (auto intro: below.intros)

lemma below_list_step: "below c v c' (JList xs) \<Longrightarrow> x \<in> set xs \<Longrightarrow> below c v c' x"
  by (induction c v c' "JList xs" rule: below.induct) (auto intro: below.intros)

lemma reached_below: "reached cfg c v \<longleftrightarrow> below None cfg c v"
proof
  show "reached cfg c v \<Longrightarrow> below None cfg c v"
    by (induction rule: reached.induct) (auto intro: below.here below_dict_step below_list_step)
next
  have "below a u c v \<Longrightarrow> reached cfg a u \<Longrightarrow> reached cfg c v" for a u
    by (induction rule: below.induct) (auto intro: reached.dict reached.item)
  from this [OF _ reached.here] show "below None cfg c v \<Longrightarrow> reached cfg c v" .
qed

definition applies :: "removed_key \<Rightarrow> string option \<Rightarrow> json \<Rightarrow> bool" where
  "applies e c v = (is_dict v \<and> jhas v (rk_key e) \<and> (rk_container e = None \<or> rk_container e = c))"

lemma by_key_iff: "by_key k = Some e \<longleftrightarrow> e \<in> set removed_keys \<and> rk_key e = k"
proof -
  have "distinct (map rk_key removed_keys)"
    by (simp add: removed_keys_def removed_def)
  then have "distinct (map fst (map (\<lambda>e. (rk_key e, e)) removed_keys))"
    by (simp add: comp_def)
  from map_of_eq_Some_iff [OF this] show ?thesis
    unfolding by_key_def by auto
qed

lemma key_hits_iff:
  "(\<exists>p. (p, e) \<in> set (key_hits path c k)) \<longleftrightarrow>
     e \<in> set removed_keys \<and> rk_key e = k \<and> (rk_container e = None \<or> rk_container e = c)"
proof (cases "by_key k")
  case None
  have "e \<in> set removed_keys \<Longrightarrow> rk_key e \<noteq> k"
    using None by (metis by_key_iff option.distinct(1))
  with None show ?thesis by (auto simp: key_hits_def)
next
  case (Some f)
  then have f: "f \<in> set removed_keys" "rk_key f = k" by (auto simp: by_key_iff)
  have uniq: "e \<in> set removed_keys \<and> rk_key e = k \<longleftrightarrow> e = f"
    using Some f by (metis by_key_iff option.inject)
  have c: "rk_container f = (case rk_container f of Some c' \<Rightarrow> c | None \<Rightarrow> None) \<longleftrightarrow>
      rk_container f = None \<or> rk_container f = c"
    by (cases "rk_container f") auto
  show ?thesis
    using Some f c uniq by (auto simp: key_hits_def)
qed

lemma below_dict_iff:
  "below c (JObj d) c' w \<longleftrightarrow> (c' = c \<and> w = JObj d) \<or> (\<exists>(k, v) \<in> set d. below (Some k) v c' w)"
  by (auto intro: below.intros elim: below_dictE)

lemma below_list_iff:
  "below c (JList xs) c' w \<longleftrightarrow> (c' = c \<and> w = JList xs) \<or> (\<exists>x \<in> set xs. below c x c' w)"
  by (auto intro: below.intros elim: below_listE)

lemma applies_dict:
  "applies e c (JObj d) \<longleftrightarrow> (\<exists>(k, v) \<in> set d. rk_key e = k \<and> (rk_container e = None \<or> rk_container e = c))"
  by (force simp: applies_def jhas_def map_of_eq_None_iff image_iff)

lemma applies_list [simp]: "\<not> applies e c (JList xs)"
  by (simp add: applies_def)

definition found_below :: "removed_key \<Rightarrow> string option \<Rightarrow> json \<Rightarrow> bool" where
  "found_below e c v \<longleftrightarrow> (\<exists>c' w. below c v c' w \<and> applies e c' w)"

lemma found_below_dict:
  "found_below e c (JObj d) \<longleftrightarrow>
     (\<exists>(k, v) \<in> set d. (rk_key e = k \<and> (rk_container e = None \<or> rk_container e = c)) \<or> found_below e (Some k) v)"
proof -
  have "found_below e c (JObj d) \<longleftrightarrow> applies e c (JObj d) \<or> (\<exists>(k, v) \<in> set d. found_below e (Some k) v)"
    unfolding found_below_def below_dict_iff by blast
  then show ?thesis
    unfolding applies_dict by blast
qed

lemma found_below_list: "found_below e c (JList xs) \<longleftrightarrow> (\<exists>x \<in> set xs. found_below e c x)"
  unfolding found_below_def below_list_iff using applies_list by blast

lemma found_below_leaf [simp]:
  "\<not> found_below e c JNull" "\<not> found_below e c (JBool b)" "\<not> found_below e c (JInt i)"
  "\<not> found_below e c (JFloat r)" "\<not> found_below e c (JStr s)"
  by (auto simp: found_below_def applies_def)

lemma walk_iff:
  "(\<exists>p. (p, e) \<in> set (walk path c v)) \<longleftrightarrow> e \<in> set removed_keys \<and> found_below e c v"
  "(\<exists>p. (p, e) \<in> set (walk_items path c d)) \<longleftrightarrow>
     e \<in> set removed_keys \<and>
     (\<exists>(k, v) \<in> set d. (rk_key e = k \<and> (rk_container e = None \<or> rk_container e = c)) \<or> found_below e (Some k) v)"
  "(\<exists>p. (p, e) \<in> set (walk_list path c i xs)) \<longleftrightarrow>
     e \<in> set removed_keys \<and> (\<exists>x \<in> set xs. found_below e c x)"
proof (induction path c v and path c d and path c i xs rule: walk_walk_items_walk_list.induct)
  case (1 path c d)
  then show ?case by (simp add: found_below_dict)
next
  case (2 path c xs)
  then show ?case by (simp add: found_below_list)
next
  case (5 path c k v d)
  have "(\<exists>p. (p, e) \<in> set (walk_items path c ((k, v) # d))) \<longleftrightarrow>
      (\<exists>p. (p, e) \<in> set (key_hits path c k)) \<or> (\<exists>p. (p, e) \<in> set (walk (path @ [SegKey k]) (Some k) v)) \<or>
      (\<exists>p. (p, e) \<in> set (walk_items path c d))"
    by auto
  then show ?case
    unfolding 5 key_hits_iff by (simp del: walk_items.simps) blast
next
  case (7 path c i x xs)
  then show ?case by auto
qed simp_all

text \<open>
  The removed-key scan misses nothing and reports nothing else: a table entry is reported exactly when
  the configuration contains, at any depth of dicts and lists, a dict with that key, and that dict sits under
  the entry's container key when the entry names one.
\<close>
theorem scan_removed_keys_exact:
  "(\<exists>p. (p, e) \<in> set (scan_removed_keys d4)) \<longleftrightarrow>
     e \<in> set removed_keys \<and> (\<exists>c w. reached d4 c w \<and> applies e c w)"
proof (cases "truthy d4")
  case True
  then show ?thesis
    by (simp add: scan_removed_keys_def py_or_def walk_iff found_below_def reached_below)
next
  case False
  then have "\<not> found_below e None d4"
    by (cases d4) (auto simp: found_below_dict found_below_list)
  then have "\<not> (\<exists>c w. reached d4 c w \<and> applies e c w)"
    by (simp add: found_below_def reached_below)
  with False show ?thesis
    by (simp add: scan_removed_keys_def py_or_def)
qed

end
