(* ===== verification/ConfigDoctor.thy ===== *)
theory ConfigDoctor
  imports Explain KeaReadiness
begin

text \<open>
  \<open>jen/services/config_doctor.py\<close>: the semantic checks of a Kea configuration. One definition per
  check, each giving the findings in the code's order; a finding keeps its check id, its severity and
  what it is about (\<open>subject\<close>), the texts of the page are left out. \<open>diagnose\<close> runs the checks and
  sorts, \<open>group_findings\<close> collapses them for the page.

  The two checks that read Jen's own configuration file and the comparison of two HA configurations
  are not modelled: \<open>diagnose\<close> takes their findings as an argument.
\<close>

section \<open>Findings\<close>

datatype severity = SevFail | SevWarn | SevInfo

datatype subject =
    SubjTwoPools json json json json       \<comment> \<open>subnet id and pool, twice\<close>
  | SubjPool json json
  | SubjGuards json json string string     \<comment> \<open>subnet id, pool, pool guard, subnet guard\<close>
  | SubjSubnet json
  | SubjReservation json json              \<comment> \<open>subnet id, address\<close>
  | SubjIdentifier json string nat
  | SubjAddress json json nat
  | SubjMember json string                 \<comment> \<open>class, undefined class\<close>
  | SubjClass json
  | SubjTimers "json option" json json json \<comment> \<open>no subnet: global\<close>
  | SubjLifetime "json option" json
  | SubjOption shown_name
  | SubjNetworkLifetimes json
  | SubjNetworkRouters json
  | SubjLoggerOutputs "json list"
  | SubjLoggerPattern json
  | SubjPath "seg list" string             \<comment> \<open>where the removed key is, and what replaces it\<close>
  | SubjHooks
  | SubjOther string                       \<comment> \<open>of a check that is not modelled\<close>

record finding =
  fd_id :: string
  fd_severity :: severity
  fd_subject :: subject

definition fd :: "string \<Rightarrow> severity \<Rightarrow> subject \<Rightarrow> finding" where
  "fd i s x = \<lparr>fd_id = i, fd_severity = s, fd_subject = x\<rparr>"

text \<open>\<open>any\<close> and \<open>all\<close> over a test that may raise: the rest is not evaluated once it is decided.\<close>

fun any_res :: "('a \<Rightarrow> bool res) \<Rightarrow> 'a list \<Rightarrow> bool res" where
  "any_res f [] = Inr False"
| "any_res f (x # xs) = rbind (f x) (\<lambda>b. if b then Inr True else any_res f xs)"

fun all_res :: "('a \<Rightarrow> bool res) \<Rightarrow> 'a list \<Rightarrow> bool res" where
  "all_res f [] = Inr True"
| "all_res f (x # xs) = rbind (f x) (\<lambda>b. if b then all_res f xs else Inr False)"

definition collect_all :: "('a \<Rightarrow> 'b list res) \<Rightarrow> 'a list \<Rightarrow> 'b list res" where
  "collect_all f xs = rbind (collect f xs) (\<lambda>yss. Inr (concat yss))"

text \<open>\<open>d.setdefault(key, []).append(x)\<close> in a loop: the groups in order of first appearance.\<close>

fun put_group :: "('k \<Rightarrow> 'k \<Rightarrow> bool) \<Rightarrow> 'k \<Rightarrow> 'a \<Rightarrow> ('k \<times> 'a list) list \<Rightarrow> ('k \<times> 'a list) list" where
  "put_group eq k x [] = [(k, [x])]"
| "put_group eq k x ((l, xs) # gs) = (if eq l k then (l, xs @ [x]) # gs else (l, xs) # put_group eq k x gs)"

definition group_by :: "('k \<Rightarrow> 'k \<Rightarrow> bool) \<Rightarrow> ('k \<times> 'a) list \<Rightarrow> ('k \<times> 'a list) list" where
  "group_by eq xs = foldl (\<lambda>gs (k, x). put_group eq k x gs) [] xs"

section \<open>Pools\<close>

text \<open>\<open>(text or "").strip()\<close>: a value that is neither empty nor a text has no such method.\<close>

definition stripped :: "json \<Rightarrow> string res" where
  "stripped v = (case v of JStr s \<Rightarrow> Inr (strip s) | _ \<Rightarrow> (if truthy v then Inl AttributeError else Inr []))"

definition subnet_range :: "json \<Rightarrow> (nat \<times> nat) option res" where
  "subnet_range cidr =
     rbind (stripped cidr) (\<lambda>s. Inr (map_option (\<lambda>n. (net_first n, net_last n)) (net_of_string s)))"

definition ip_to_int :: "json \<Rightarrow> nat option res" where
  "ip_to_int ip = rbind (stripped ip) (\<lambda>s. Inr (ip_of_string s))"

definition pool_bounds :: "json \<Rightarrow> (nat \<times> nat) option" where
  "pool_bounds p = parse_pool (text_of (jget p ''pool'')) None"

type_synonym pool_range = "(nat \<times> nat) \<times> json \<times> json"

definition range_le :: "pool_range \<Rightarrow> pool_range \<Rightarrow> bool" where
  "range_le a b = (fst (fst a) < fst (fst b) \<or> (fst (fst a) = fst (fst b) \<and> snd (fst a) \<le> snd (fst b)))"

definition group_ranges :: "json list \<Rightarrow> pool_range list res" where
  "group_ranges subnets =
     collect_all (\<lambda>s. rbind (dicts_of (jget s ''pools'')) (\<lambda>ps.
       Inr (List.map_filter (\<lambda>p. map_option (\<lambda>r. (r, jget s ''id'', jget p ''pool'')) (pool_bounds p)) ps))) subnets"

definition overlap_finding :: "pool_range \<times> pool_range \<Rightarrow> finding list" where
  "overlap_finding ab =
     (case ab of (((lo1, hi1), sid1, pool1), ((lo2, hi2), sid2, pool2)) \<Rightarrow>
        if lo2 \<le> hi1 then [fd ''pools_overlap'' SevFail (SubjTwoPools sid1 pool1 sid2 pool2)] else [])"

definition overlaps_in :: "pool_range list \<Rightarrow> finding list" where
  "overlaps_in ranges = (let rs = sort_by range_le ranges in concat (map overlap_finding (zip rs (tl rs))))"

text \<open>The scopes in which pools collide: each top-level subnet, and the subnets of each shared network.\<close>

definition overlap_groups :: "json \<Rightarrow> json list list" where
  "overlap_groups d4 =
     map (\<lambda>(s, n). [s]) (filter (\<lambda>(s, n). n = JNull) (iter_subnet4 d4)) @
     map snd (group_by py_eq (map (\<lambda>(s, n). (n, s)) (filter (\<lambda>(s, n). n \<noteq> JNull) (iter_subnet4 d4))))"

definition check_pools_overlap :: "json \<Rightarrow> finding list res" where
  "check_pools_overlap d4 =
     (if list_ex (\<lambda>(s, n). \<not> hashable n) (iter_subnet4 d4) then Inl TypeError
      else collect_all (\<lambda>g. rbind (group_ranges g) (\<lambda>rs. Inr (overlaps_in rs))) (overlap_groups d4))"

definition outside_in :: "json \<Rightarrow> nat \<times> nat \<Rightarrow> json \<Rightarrow> finding list" where
  "outside_in s r p =
     (case pool_bounds p of
        None \<Rightarrow> []
      | Some (lo, hi) \<Rightarrow>
          if lo < fst r \<or> snd r < hi
          then [fd ''pool_outside_subnet'' SevFail (SubjPool (jget s ''id'') (jget p ''pool''))] else [])"

definition check_pool_outside_subnet :: "json \<Rightarrow> finding list res" where
  "check_pool_outside_subnet d4 =
     collect_all (\<lambda>(s, n). rbind (subnet_range (jget s ''subnet'')) (\<lambda>range.
       (case range of
          None \<Rightarrow> Inr []
        | Some r \<Rightarrow> rbind (dicts_of (jget s ''pools'')) (\<lambda>ps. Inr (concat (map (outside_in s r) ps))))))
     (iter_subnet4 d4)"

text \<open>The tests by class name (a later class of the same name replaces the earlier), and the tree of one.\<close>

definition class_dicts :: "json \<Rightarrow> json list res" where
  "class_dicts d4 = dicts_of (jget d4 ''client-classes'')"

definition test_of :: "json list \<Rightarrow> string \<Rightarrow> json" where
  "test_of classes name =
     (case find (\<lambda>c. py_eq (jget c ''name'') (JStr name)) (rev classes) of
        Some c \<Rightarrow> jget c ''test'' | None \<Rightarrow> JNull)"

text \<open>\<open>parse_expression(test)\<close> with \<open>ExprError\<close> caught; any other error is raised.\<close>

definition tree_of :: "json \<Rightarrow> expr option res" where
  "tree_of test =
     (if \<not> truthy test then Inr None
      else (case test of
              JStr src \<Rightarrow>
                (case parse_expression src of
                   Inr e \<Rightarrow> Inr (Some e) | Inl ExprError \<Rightarrow> Inr None | Inl x \<Rightarrow> Inl x)
            | _ \<Rightarrow> Inl AttributeError))"

definition negates :: "expr option \<Rightarrow> expr option \<Rightarrow> bool" where
  "negates p s =
     (case (p, s) of (Some a, Some b) \<Rightarrow> a = ENot b \<or> b = ENot a | _ \<Rightarrow> False)"

definition guard_pair :: "json list \<Rightarrow> json \<Rightarrow> json \<Rightarrow> string \<Rightarrow> string \<Rightarrow> finding list res" where
  "guard_pair classes s p pg sg =
     rbind (tree_of (test_of classes pg)) (\<lambda>a.
     rbind (tree_of (test_of classes sg)) (\<lambda>b.
       Inr (if negates a b
            then [fd ''contradictory_pool_guards'' SevFail (SubjGuards (jget s ''id'') (jget p ''pool'') pg sg)] else [])))"

definition check_contradictory_pool_guards :: "json \<Rightarrow> finding list res" where
  "check_contradictory_pool_guards d4 =
     rbind (class_dicts d4) (\<lambda>cs.
       if list_ex (\<lambda>c. truthy (jget c ''name'') \<and> \<not> hashable (jget c ''name'')) cs then Inl TypeError
       else
         let classes = filter (\<lambda>c. truthy (jget c ''name'')) cs
         in collect_all (\<lambda>(s, n). rbind (dicts_of (jget s ''pools'')) (\<lambda>ps.
              collect_all (\<lambda>p. collect_all (\<lambda>pg.
                rbind (tree_of (test_of classes pg)) (\<lambda>a.
                  collect_all (guard_pair classes s p pg) (guard_classes s))) (guard_classes p)) ps))
            (iter_subnet4 d4))"

definition check_subnet_without_pools_or_reservations :: "json \<Rightarrow> json list \<Rightarrow> finding list res" where
  "check_subnet_without_pools_or_reservations d4 hosts =
     (if list_ex (\<lambda>h. \<not> hashable (jget h ''subnet_id'')) hosts then Inl TypeError
      else collect_all (\<lambda>(s, n). rbind (dicts_of (jget s ''pools'')) (\<lambda>ps.
        if ps \<noteq> [] then Inr []
        else if \<not> hashable (jget s ''id'') then Inl TypeError
        else Inr (if list_ex (\<lambda>h. py_eq (jget h ''subnet_id'') (jget s ''id'')) hosts then []
                  else [fd ''subnet_without_pools_or_reservations'' SevWarn (SubjSubnet (jget s ''id''))])))
      (iter_subnet4 d4))"

section \<open>Reservations\<close>

text \<open>The loop head of the two address checks: the row's subnet, when it names one, and its address.\<close>

definition host_subnet :: "json \<Rightarrow> json \<Rightarrow> json option" where
  "host_subnet d4 h =
     (if \<not> truthy (jget h ''subnet_id'') \<or> \<not> truthy (jget h ''ip'') then None
      else map_option fst (subnet4_by_id d4 (jget h ''subnet_id'')))"

definition check_reservation_outside_subnet :: "json \<Rightarrow> json list \<Rightarrow> finding list res" where
  "check_reservation_outside_subnet d4 hosts =
     collect_all (\<lambda>h.
       (case host_subnet d4 h of
          None \<Rightarrow> Inr []
        | Some s \<Rightarrow>
            rbind (subnet_range (jget s ''subnet'')) (\<lambda>range.
            rbind (ip_to_int (jget h ''ip'')) (\<lambda>ip.
              Inr (case (range, ip) of
                     (Some r, Some a) \<Rightarrow>
                       (if fst r \<le> a \<and> a \<le> snd r then []
                        else [fd ''reservation_outside_subnet'' SevFail (SubjReservation (jget h ''subnet_id'') (jget h ''ip''))])
                   | _ \<Rightarrow> []))))) hosts"

definition in_bounds :: "nat \<Rightarrow> json \<Rightarrow> bool" where
  "in_bounds a p = (case pool_bounds p of Some (lo, hi) \<Rightarrow> lo \<le> a \<and> a \<le> hi | None \<Rightarrow> False)"

definition check_reservation_inside_pool :: "json \<Rightarrow> json list \<Rightarrow> finding list res" where
  "check_reservation_inside_pool d4 hosts =
     collect_all (\<lambda>h.
       (case host_subnet d4 h of
          None \<Rightarrow> Inr []
        | Some s \<Rightarrow>
            rbind (ip_to_int (jget h ''ip'')) (\<lambda>ip.
              (case ip of
                 None \<Rightarrow> Inr []
               | Some a \<Rightarrow>
                   rbind (dicts_of (jget s ''pools'')) (\<lambda>ps.
                     let out_of_pool = truthy (jget_default s ''reservations-out-of-pool''
                           (jget_default d4 ''reservations-out-of-pool'' (JBool False)))
                     in Inr (if list_ex (in_bounds a) ps
                             then [fd ''reservation_inside_pool'' (if out_of_pool then SevWarn else SevInfo)
                                     (SubjReservation (jget h ''subnet_id'') (jget h ''ip''))] else [])))))) hosts"

text \<open>\<open>(h.get("identifier") or "").lower()\<close>.\<close>

definition lower_text :: "json \<Rightarrow> string res" where
  "lower_text v = (case v of JStr s \<Rightarrow> Inr (lower s) | _ \<Rightarrow> (if truthy v then Inl AttributeError else Inr []))"

definition same_identifier :: "json \<times> json \<times> string \<Rightarrow> json \<times> json \<times> string \<Rightarrow> bool" where
  "same_identifier a b =
     (py_eq (fst a) (fst b) \<and> py_eq (fst (snd a)) (fst (snd b)) \<and> snd (snd a) = snd (snd b))"

definition same_address :: "json \<times> json \<Rightarrow> json \<times> json \<Rightarrow> bool" where
  "same_address a b = (py_eq (fst a) (fst b) \<and> py_eq (snd a) (snd b))"

definition check_duplicate_reservations :: "json list \<Rightarrow> finding list res" where
  "check_duplicate_reservations hosts =
     rbind (collect (\<lambda>h. rbind (lower_text (jget h ''identifier'')) (\<lambda>i.
       if \<not> hashable (jget h ''subnet_id'') \<or> \<not> hashable (jget h ''identifier_type'') \<or>
          (truthy (jget h ''ip'') \<and> \<not> hashable (jget h ''ip''))
       then Inl TypeError
       else Inr ((jget h ''subnet_id'', jget h ''identifier_type'', i), h))) hosts) (\<lambda>keyed.
       let by_ident = group_by same_identifier keyed;
           by_addr = group_by same_address
             (map (\<lambda>h. ((jget h ''subnet_id'', jget h ''ip''), h)) (filter (\<lambda>h. truthy (jget h ''ip'')) hosts))
       in Inr (concat (map (\<lambda>((sid, t, i), rows).
                 if 1 < length rows \<and> i \<noteq> [] then [fd ''duplicate_reservation_identifier'' SevFail (SubjIdentifier sid i (length rows))]
                 else []) by_ident) @
               concat (map (\<lambda>((sid, ip), rows).
                 if 1 < length rows then [fd ''duplicate_reservation_address'' SevFail (SubjAddress sid ip (length rows))]
                 else []) by_addr)))"

section \<open>Client classes\<close>

fun collect_members :: "expr \<Rightarrow> string list" where
  "collect_members (EMember m) = [m]"
| "collect_members (EAnd a b) = collect_members a @ collect_members b"
| "collect_members (EOr a b) = collect_members a @ collect_members b"
| "collect_members (ENot a) = collect_members a"
| "collect_members (EEq l r) = []"

text \<open>\<open>sorted(members - names)\<close>.\<close>

definition unknown_members :: "json list \<Rightarrow> expr \<Rightarrow> string list" where
  "unknown_members classes e =
     sort_by str_le (filter (\<lambda>m. \<not> list_ex (\<lambda>c. py_eq (jget c ''name'') (JStr m)) classes)
       (remdups (collect_members e)))"

definition check_class_unknown_member :: "json \<Rightarrow> finding list res" where
  "check_class_unknown_member d4 =
     rbind (class_dicts d4) (\<lambda>cs.
       if list_ex (\<lambda>c. \<not> hashable (jget c ''name'')) cs then Inl TypeError
       else collect_all (\<lambda>c. rbind (tree_of (jget c ''test'')) (\<lambda>t.
         Inr (case t of
                None \<Rightarrow> []
              | Some e \<Rightarrow> map (\<lambda>m. fd ''class_unknown_member'' SevFail (SubjMember (jget c ''name'') m))
                            (unknown_members cs e)))) cs)"

text \<open>A name that is no text: \<open>name in frozenset\<close> hashes it, then it has no \<open>startswith\<close>.\<close>

definition check_class_unreferenced :: "json \<Rightarrow> finding list res" where
  "check_class_unreferenced d4 =
     rbind (class_dicts d4) (\<lambda>cs.
       collect_all (\<lambda>c.
         if \<not> truthy (jget c ''name'') then Inr []
         else (case jget c ''name'' of
                 JStr name \<Rightarrow>
                   (if is_builtin name then Inr []
                    else rbind (references d4 name) (\<lambda>refs.
                      Inr (if refs \<noteq> [] then [] else [fd ''class_unreferenced'' SevInfo (SubjClass (JStr name))])))
               | v \<Rightarrow> Inl (if hashable v then AttributeError else TypeError))) cs)"

text \<open>The comparisons of a test that is one flat \<open>and\<close>, in the order the stack pops them.\<close>

fun flat_leaves :: "expr \<Rightarrow> (operand \<times> string) list option" where
  "flat_leaves (EAnd a b) =
     (case flat_leaves b of
        None \<Rightarrow> None
      | Some ys \<Rightarrow> (case flat_leaves a of None \<Rightarrow> None | Some xs \<Rightarrow> Some (ys @ xs)))"
| "flat_leaves (EEq l r) = Some [(l, r)]"
| "flat_leaves e = None"

fun clash :: "(operand \<times> string) list \<Rightarrow> (operand \<times> string) list \<Rightarrow> bool" where
  "clash seen [] = False"
| "clash seen ((l, r) # xs) =
     (case map_of seen l of
        Some r' \<Rightarrow> (if r' \<noteq> r then True else clash ((l, r) # seen) xs)
      | None \<Rightarrow> clash ((l, r) # seen) xs)"

definition never_true :: "expr \<Rightarrow> bool" where
  "never_true e =
     (case flat_leaves e of None \<Rightarrow> False | Some xs \<Rightarrow> 2 \<le> length xs \<and> clash [] xs)"

definition check_class_unreachable :: "json \<Rightarrow> finding list res" where
  "check_class_unreachable d4 =
     rbind (class_dicts d4) (\<lambda>cs.
       collect_all (\<lambda>c.
         if \<not> truthy (jget c ''test'') \<or> \<not> truthy (jget c ''name'') then Inr []
         else rbind (tree_of (jget c ''test'')) (\<lambda>t.
           Inr (case t of
                  None \<Rightarrow> []
                | Some e \<Rightarrow> (if never_true e then [fd ''class_unreachable'' SevInfo (SubjClass (jget c ''name''))] else []))))
       cs)"

section \<open>Lease timers\<close>

definition effective_value :: "json \<Rightarrow> string \<Rightarrow> json \<Rightarrow> json" where
  "effective_value scope key d4 = (if jget scope key \<noteq> JNull then jget scope key else jget d4 key)"

text \<open>\<open>v >= w\<close>: two numbers, two texts or two lists; anything else raises \<open>TypeError\<close>.\<close>

fun py_ge :: "json \<Rightarrow> json \<Rightarrow> bool res" and py_ge_list :: "json list \<Rightarrow> json list \<Rightarrow> bool res" where
  "py_ge (JStr s) w = (case w of JStr t \<Rightarrow> Inr (str_le t s) | _ \<Rightarrow> Inl TypeError)"
| "py_ge (JList xs) w = (case w of JList ys \<Rightarrow> py_ge_list xs ys | _ \<Rightarrow> Inl TypeError)"
| "py_ge v w = (case (py_num v, py_num w) of (Some a, Some b) \<Rightarrow> Inr (b \<le> a) | _ \<Rightarrow> Inl TypeError)"
| "py_ge_list [] ys = Inr (ys = [])"
| "py_ge_list (x # xs) ys =
     (case ys of
        [] \<Rightarrow> Inr True
      | y # ys' \<Rightarrow> (if py_eq x y then py_ge_list xs ys' else py_ge x y))"

definition timers_out_of_order :: "json \<Rightarrow> json \<Rightarrow> json \<Rightarrow> bool res" where
  "timers_out_of_order valid renew rebind =
     (if valid = JNull \<or> renew = JNull \<or> rebind = JNull then Inr False
      else rbind (py_ge renew rebind) (\<lambda>b. if b then Inr True else py_ge rebind valid))"

definition lifetime_findings :: "json option \<Rightarrow> json \<Rightarrow> finding list res" where
  "lifetime_findings sid valid =
     (if valid = JNull then Inr []
      else (case py_num valid of
              None \<Rightarrow> Inl TypeError
            | Some v \<Rightarrow>
                Inr (if v < 60 then [fd ''lease_timers'' SevWarn (SubjLifetime sid valid)]
                     else if 30 * 86400 < v then [fd ''lease_timers'' SevInfo (SubjLifetime sid valid)] else [])))"

definition timers_of_scope :: "json \<Rightarrow> json \<times> json option \<Rightarrow> finding list res" where
  "timers_of_scope d4 = (\<lambda>(scope, sid).
     let valid = effective_value scope ''valid-lifetime'' d4;
         renew = effective_value scope ''renew-timer'' d4;
         rebind = effective_value scope ''rebind-timer'' d4
     in rbind (timers_out_of_order valid renew rebind) (\<lambda>bad.
        rbind (lifetime_findings sid valid) (\<lambda>life.
          Inr ((if bad then [fd ''lease_timers'' SevWarn (SubjTimers sid renew rebind valid)] else []) @ life))))"

definition check_lease_timers :: "json \<Rightarrow> finding list res" where
  "check_lease_timers d4 =
     collect_all (timers_of_scope d4) ((d4, None) # map (\<lambda>(s, n). (s, Some (jget s ''id''))) (iter_subnet4 d4))"

section \<open>Options and shared networks\<close>

definition overrides :: "json \<times> json \<Rightarrow> json \<Rightarrow> bool res" where
  "overrides key s = any_res (\<lambda>so. rbind (entry_key so) (\<lambda>k. Inr (key_eq k key))) (opts_of s)"

definition check_global_option_shadowed :: "json \<Rightarrow> finding list res" where
  "check_global_option_shadowed d4 =
     (let subnets = map fst (iter_subnet4 d4)
      in if subnets = [] then Inr []
         else collect_all (\<lambda>opt.
           rbind (entry_key opt) (\<lambda>key.
           rbind (all_res (overrides key) subnets) (\<lambda>every.
             if every
             then rbind (display opt) (\<lambda>(code, name).
               Inr [fd ''global_option_shadowed_everywhere'' SevInfo (SubjOption name)])
             else Inr []))) (opts_of d4))"

text \<open>\<open>{...}; discard(None)\<close>: the distinct values, an unhashable one raises.\<close>

fun distinct_values :: "json list \<Rightarrow> json list" where
  "distinct_values [] = []"
| "distinct_values (v # vs) = v # filter (\<lambda>w. \<not> py_eq v w) (distinct_values vs)"

definition value_set :: "json list \<Rightarrow> json list res" where
  "value_set vs =
     (if list_ex (\<lambda>v. \<not> hashable v) vs then Inl TypeError
      else Inr (distinct_values (filter (\<lambda>v. v \<noteq> JNull) vs)))"

text \<open>\<open>sorted\<close> over numbers and texts together raises.\<close>

definition sortable :: "json list \<Rightarrow> bool" where
  "sortable vs = (list_all is_str vs \<or> list_all (\<lambda>v. \<not> is_str v) vs)"

definition routers_value :: "json \<Rightarrow> json" where
  "routers_value s =
     (case find (\<lambda>opt. py_eq (jget opt ''name'') (JStr ''routers'') \<or> py_eq (jget opt ''code'') (JInt 3)) (opts_of s) of
        Some opt \<Rightarrow> jget opt ''data'' | None \<Rightarrow> JNull)"

definition network_findings :: "json \<Rightarrow> json \<Rightarrow> finding list res" where
  "network_findings d4 sn =
     (let name = jget sn ''name'';
          members = map fst (filter (\<lambda>(s, n). py_eq n name) (iter_subnet4 d4))
      in if length members < 2 then Inr []
         else rbind (value_set (map (\<lambda>s. effective_value s ''valid-lifetime'' d4) members)) (\<lambda>lifetimes.
              rbind (value_set (map routers_value members)) (\<lambda>routers.
                if 1 < length lifetimes \<and> \<not> sortable lifetimes then Inl TypeError
                else Inr ((if 1 < length lifetimes then [fd ''shared_network_asymmetry'' SevInfo (SubjNetworkLifetimes name)] else []) @
                          (if 1 < length routers then [fd ''shared_network_asymmetry'' SevInfo (SubjNetworkRouters name)] else [])))))"

definition check_shared_network_asymmetry :: "json \<Rightarrow> finding list res" where
  "check_shared_network_asymmetry d4 = collect_all (network_findings d4) (shared_networks4_raw d4)"

section \<open>Removed keys, DNS writers, the logger\<close>

definition check_removed_keys :: "json \<Rightarrow> finding list" where
  "check_removed_keys d4 =
     map (\<lambda>(path, e). fd ''removed_keys'' SevWarn (SubjPath path (rk_replacement e))) (scan_removed_keys d4)"

definition check_ddns_writers :: "json \<Rightarrow> finding list" where
  "check_ddns_writers d4 =
     (if hook_loaded d4 \<and> updates_enabled d4 then [fd ''ddns-two-writers'' SevWarn SubjHooks]
      else if hook_loaded d4 then [fd ''ddns-hook-present'' SevInfo SubjHooks]
      else [])"

definition dhcp4_logger :: "json \<Rightarrow> json option" where
  "dhcp4_logger d4 =
     (case jget d4 ''loggers'' of
        JList xs \<Rightarrow> find (\<lambda>e. is_dict e \<and> py_eq (jget e ''name'') (JStr ''kea-dhcp4'')) xs
      | _ \<Rightarrow> None)"

definition no_timestamp :: "json \<Rightarrow> bool" where
  "no_timestamp v = (case v of JStr s \<Rightarrow> \<not> contains ''%D'' s \<and> \<not> contains ''%d'' s | _ \<Rightarrow> False)"

definition check_logger_output :: "json \<Rightarrow> finding list res" where
  "check_logger_output d4 =
     (case dhcp4_logger d4 of
        None \<Rightarrow> Inr []
      | Some e \<Rightarrow>
          rbind (dicts_of (jget e ''output-options'')) (\<lambda>options.
            let files = filter (\<lambda>opt. host_log_path (jget opt ''output'') \<noteq> []) options
            in Inr (if files = []
                    then [fd ''logger-no-file'' SevWarn
                            (SubjLoggerOutputs (filter truthy (map (\<lambda>opt. jget opt ''output'') options)))]
                    else map (\<lambda>opt. fd ''logger-pattern-no-timestamp'' SevWarn (SubjLoggerPattern (jget opt ''output'')))
                           (filter (\<lambda>opt. no_timestamp (jget opt ''pattern'')) files))))"

section \<open>The whole diagnosis\<close>

fun severity_order :: "severity \<Rightarrow> nat" where
  "severity_order SevFail = 0"
| "severity_order SevWarn = 1"
| "severity_order SevInfo = 2"

definition by_severity :: "finding list \<Rightarrow> finding list" where
  "by_severity = sort_by (\<lambda>a b. severity_order (fd_severity a) \<le> severity_order (fd_severity b))"

text \<open>
  Each check in the order the code runs them; \<open>others\<close> are the findings of the checks that read Jen's own
  configuration and the HA peers.
\<close>

definition all_checks :: "json \<Rightarrow> json list \<Rightarrow> finding list res list" where
  "all_checks d4 hosts =
    [check_pools_overlap d4,
     check_pool_outside_subnet d4,
     check_contradictory_pool_guards d4,
     check_subnet_without_pools_or_reservations d4 hosts,
     check_reservation_outside_subnet d4 hosts,
     check_reservation_inside_pool d4 hosts,
     check_duplicate_reservations hosts,
     check_class_unknown_member d4,
     check_class_unreferenced d4,
     check_class_unreachable d4,
     check_lease_timers d4,
     check_global_option_shadowed d4,
     check_shared_network_asymmetry d4,
     Inr (check_removed_keys d4),
     check_logger_output d4,
     Inr (check_ddns_writers d4)]"

definition diagnose :: "finding list \<Rightarrow> json \<Rightarrow> json list \<Rightarrow> finding list res" where
  "diagnose others d4 hosts =
     (if \<not> truthy d4 then Inr (by_severity others)
      else rbind (collect_all (\<lambda>r. r) (all_checks d4 hosts)) (\<lambda>found. Inr (by_severity (others @ found))))"

record finding_group =
  fg_id :: string
  fg_severity :: severity
  fg_entries :: "subject list"

text \<open>The count of a group is the length of its entries.\<close>

definition group_findings :: "finding list \<Rightarrow> finding_group list" where
  "group_findings fs =
     map (\<lambda>((i, s), xs). \<lparr>fg_id = i, fg_severity = s, fg_entries = xs\<rparr>)
       (group_by (=) (map (\<lambda>f. ((fd_id f, fd_severity f), fd_subject f)) fs))"

end
