(* ===== verification/DoctorProps.thy ===== *)
theory DoctorProps
  imports ConfigDoctor
begin

text \<open>
  What the findings of \<open>jen/services/config_doctor.py\<close> mean: the overlap check is exact, a class called
  unreachable is never matched by the evaluator of class expressions, which \<open>member()\<close> tests are called
  undefined, and what the sorted and the grouped list of findings contain.
\<close>

section \<open>Loops\<close>

lemma collect_all_Inr:
  "collect_all f xs = Inr ys \<longleftrightarrow> (\<exists>yss. list_all2 (\<lambda>x y. f x = Inr y) xs yss \<and> ys = concat yss)"
  by (auto simp: collect_all_def res_simps collect_eq_Inr)

lemma collect_all_Nil [simp]: "collect_all f [] = Inr []"
  by (simp add: collect_all_def)

lemma collect_all_Cons [simp]:
  "collect_all f (x # xs) = rbind (f x) (\<lambda>y. rbind (collect_all f xs) (\<lambda>ys. Inr (y @ ys)))"
  by (cases "f x"; cases "collect f xs") (simp_all add: collect_all_def)

lemma collect_all_set:
  "collect_all f xs = Inr ys \<Longrightarrow> z \<in> set ys \<longleftrightarrow> (\<exists>x \<in> set xs. \<exists>zs. f x = Inr zs \<and> z \<in> set zs)"
  by (induction xs arbitrary: ys) (auto simp: res_simps)

lemma collect_all_empty:
  "collect_all f xs = Inr ys \<Longrightarrow> ys = [] \<longleftrightarrow> (\<forall>x \<in> set xs. f x = Inr [])"
  by (induction xs arbitrary: ys) (auto simp: res_simps)

lemma collect_all_each: "collect_all f xs = Inr ys \<Longrightarrow> x \<in> set xs \<Longrightarrow> \<exists>zs. f x = Inr zs"
  by (induction xs arbitrary: ys) (auto simp: res_simps)

section \<open>Overlapping pools\<close>

interpretation range_order: sort_order range_le
  by unfold_locales (auto simp: range_le_def)

definition addresses :: "pool_range \<Rightarrow> nat set" where
  "addresses r = {fst (fst r) .. snd (fst r)}"

definition disjoint_ranges :: "pool_range list \<Rightarrow> bool" where
  "disjoint_ranges rs = sorted_wrt (\<lambda>a b. addresses a \<inter> addresses b = {}) rs"

lemma disjoint_insert_by:
  "disjoint_ranges (insert_by le x rs) \<longleftrightarrow> disjoint_ranges (x # rs)"
  by (induction rs) (auto simp: disjoint_ranges_def)

lemma disjoint_sort_by [simp]: "disjoint_ranges (sort_by le rs) \<longleftrightarrow> disjoint_ranges rs"
proof (induction rs)
  case (Cons x rs)
  have "disjoint_ranges (insert_by le x (sort_by le rs)) \<longleftrightarrow> disjoint_ranges (x # sort_by le rs)"
    by (rule disjoint_insert_by)
  also have "\<dots> \<longleftrightarrow> disjoint_ranges (x # rs)"
    using Cons by (auto simp: disjoint_ranges_def)
  finally show ?case by (simp add: sort_by_def)
qed (simp add: sort_by_def)

lemma overlap_finding_iff:
  "overlap_finding (a, b) = [] \<longleftrightarrow> snd (fst a) < fst (fst b)"
  by (auto simp: overlap_finding_def split: prod.splits)

lemma no_adjacent_overlap:
  "sorted_wrt range_le rs \<Longrightarrow> \<forall>r \<in> set rs. fst (fst r) \<le> snd (fst r) \<Longrightarrow>
     concat (map overlap_finding (zip rs (tl rs))) = [] \<longleftrightarrow> disjoint_ranges rs"
proof (induction rs)
  case Nil
  then show ?case by (simp add: disjoint_ranges_def)
next
  case (Cons a rs)
  show ?case
  proof (cases rs)
    case Nil
    then show ?thesis by (simp add: disjoint_ranges_def)
  next
    case (Cons b rest)
    have step: "concat (map overlap_finding (zip (a # rs) (tl (a # rs)))) =
        overlap_finding (a, b) @ concat (map overlap_finding (zip rs (tl rs)))"
      using Cons by simp
    have disj: "disjoint_ranges (a # rs) \<longleftrightarrow> (\<forall>r \<in> set rs. addresses a \<inter> addresses r = {}) \<and> disjoint_ranges rs"
      by (simp add: disjoint_ranges_def)
    have below: "snd (fst a) < fst (fst r)" if "snd (fst a) < fst (fst b)" "r \<in> set rs" for r
      using Cons.prems(1) that Cons by (fastforce simp: range_le_def)
    have "(snd (fst a) < fst (fst b)) \<longleftrightarrow> (\<forall>r \<in> set rs. addresses a \<inter> addresses r = {})"
    proof
      assume "snd (fst a) < fst (fst b)"
      then show "\<forall>r \<in> set rs. addresses a \<inter> addresses r = {}"
        using below by (fastforce simp: addresses_def)
    next
      assume "\<forall>r \<in> set rs. addresses a \<inter> addresses r = {}"
      then have "addresses a \<inter> addresses b = {}" using Cons by simp
      moreover have "fst (fst a) \<le> fst (fst b)" "fst (fst b) \<le> snd (fst b)"
        using Cons.prems Cons by (auto simp: range_le_def)
      moreover have "fst (fst b) \<in> addresses b"
        using \<open>fst (fst b) \<le> snd (fst b)\<close> by (simp add: addresses_def)
      ultimately have "fst (fst b) \<notin> addresses a" by blast
      then show "snd (fst a) < fst (fst b)"
        using \<open>fst (fst a) \<le> fst (fst b)\<close> by (simp add: addresses_def)
    qed
    then show ?thesis
      using step disj Cons.IH Cons.prems by (simp add: overlap_finding_iff)
  qed
qed

lemma group_ranges_nonempty:
  "group_ranges g = Inr rs \<Longrightarrow> r \<in> set rs \<Longrightarrow> fst (fst r) \<le> snd (fst r)"
  unfolding group_ranges_def
  by (auto simp: collect_all_set res_simps map_filter_def pool_bounds_def parse_pool_nonempty)

lemma overlaps_in_exact:
  "group_ranges g = Inr rs \<Longrightarrow> overlaps_in rs = [] \<longleftrightarrow> disjoint_ranges rs"
  using no_adjacent_overlap [of "sort_by range_le rs"] range_order.sorted_sort_by [of rs] group_ranges_nonempty [of g rs]
  by (simp add: overlaps_in_def Let_def)

lemma zip_tl_pairs: "(a, b) \<in> set (zip rs (tl rs)) \<Longrightarrow> sorted_wrt R rs \<Longrightarrow> a \<in> set rs \<and> b \<in> set rs \<and> R a b"
  by (induction rs) (auto simp: zip_Cons1 split: list.splits dest: set_zip_rightD set_zip_leftD)

lemma overlaps_in_real:
  assumes "group_ranges g = Inr rs" "f \<in> set (overlaps_in rs)"
  shows "\<exists>a \<in> set rs. \<exists>b \<in> set rs. addresses a \<inter> addresses b \<noteq> {} \<and>
    fd_subject f = SubjTwoPools (fst (snd a)) (snd (snd a)) (fst (snd b)) (snd (snd b))"
proof -
  obtain a b where ab: "(a, b) \<in> set (zip (sort_by range_le rs) (tl (sort_by range_le rs)))" "f \<in> set (overlap_finding (a, b))"
    using assms(2) by (auto simp: overlaps_in_def Let_def)
  then have "a \<in> set rs" "b \<in> set rs" and le: "range_le a b"
    using zip_tl_pairs [OF ab(1) range_order.sorted_sort_by] by auto
  moreover have "fst (fst b) \<in> addresses a \<inter> addresses b"
    using ab(2) le group_ranges_nonempty [OF assms(1) \<open>b \<in> set rs\<close>]
    by (auto simp: overlap_finding_def addresses_def range_le_def split: prod.splits if_splits)
  moreover have "fd_subject f = SubjTwoPools (fst (snd a)) (snd (snd a)) (fst (snd b)) (snd (snd b))"
    using ab(2) by (auto simp: overlap_finding_def fd_def split: prod.splits if_splits)
  ultimately show ?thesis by blast
qed

text \<open>
  C10. The pool overlap check is exact within each scope (a top-level subnet; all subnets of a shared
  network): it reports nothing if and only if no two of the scope's pools share an address, and each
  finding names two pools that do share one. Comparing neighbours after the sort is enough for both.
\<close>
theorem pools_overlap_exact:
  assumes "check_pools_overlap d4 = Inr fs"
  shows "(fs = [] \<longleftrightarrow> (\<forall>g \<in> set (overlap_groups d4). \<exists>rs. group_ranges g = Inr rs \<and> disjoint_ranges rs)) \<and>
    (\<forall>f \<in> set fs. \<exists>g \<in> set (overlap_groups d4). \<exists>rs. group_ranges g = Inr rs \<and>
       (\<exists>a \<in> set rs. \<exists>b \<in> set rs. addresses a \<inter> addresses b \<noteq> {} \<and>
          fd_subject f = SubjTwoPools (fst (snd a)) (snd (snd a)) (fst (snd b)) (snd (snd b))))"
proof -
  have run: "collect_all (\<lambda>g. rbind (group_ranges g) (\<lambda>rs. Inr (overlaps_in rs))) (overlap_groups d4) = Inr fs"
    using assms by (simp add: check_pools_overlap_def split: if_splits)
  have "fs = [] \<longleftrightarrow> (\<forall>g \<in> set (overlap_groups d4). \<exists>rs. group_ranges g = Inr rs \<and> disjoint_ranges rs)"
    unfolding collect_all_empty [OF run] using overlaps_in_exact by (auto simp: res_simps)
  moreover have "\<exists>g \<in> set (overlap_groups d4). \<exists>rs. group_ranges g = Inr rs \<and> f \<in> set (overlaps_in rs)" if "f \<in> set fs" for f
    using that unfolding collect_all_set [OF run] by (auto simp: res_simps)
  ultimately show ?thesis
    using overlaps_in_real by blast
qed

section \<open>Classes that can never match\<close>

lemma and3_true: "and3 a b = Some True \<longleftrightarrow> a = Some True \<and> b = Some True"
  by (auto simp: and3_def)

lemma flat_leaves_true:
  "flat_leaves e = Some xs \<Longrightarrow> verdict e c ms = Some True \<Longrightarrow> (l, r) \<in> set xs \<Longrightarrow> verdict (EEq l r) c ms = Some True"
  by (induction e arbitrary: xs) (auto simp: and3_true split: option.splits)

lemma clash_pair:
  "clash seen xs \<Longrightarrow> \<exists>l r r'. (l, r) \<in> set xs \<and> (l, r') \<in> set xs \<union> set seen \<and> r \<noteq> r'"
proof (induction seen xs rule: clash.induct)
  case (2 seen l r xs)
  show ?case
  proof (cases "\<exists>r'. map_of seen l = Some r' \<and> r' \<noteq> r")
    case True
    then obtain r' where "(l, r') \<in> set seen" "r \<noteq> r'" by (auto dest: map_of_SomeD)
    then show ?thesis by (metis UnI2 list.set_intros(1))
  next
    case False
    then have "\<exists>l' r1 r2. (l', r1) \<in> set xs \<and> (l', r2) \<in> set xs \<union> set ((l, r) # seen) \<and> r1 \<noteq> r2"
      using 2 by (auto split: option.splits if_splits)
    then obtain l' r1 r2 where "(l', r1) \<in> set xs" "(l', r2) \<in> set xs \<union> set ((l, r) # seen)" "r1 \<noteq> r2"
      by blast
    then show ?thesis by (intro exI [of _ l'] exI [of _ r1] exI [of _ r2]) auto
  qed
qed simp

lemma verdict_EEq_value:
  "verdict (EEq l r) c ms = Some True \<Longrightarrow>
     \<exists>vs f. candidates c (left_accessor l) = (Some vs, f) \<and> apply_operand l (hd vs) = r"
  using candidates_not_Nil [of c "left_accessor l"]
  by (auto simp: verdict_def Let_def hd_map split: option.splits prod.splits if_splits)

lemma verdict_EEq_unique:
  "verdict (EEq l r) c ms = Some True \<Longrightarrow> verdict (EEq l r') c ms = Some True \<Longrightarrow> r = r'"
  by (auto dest!: verdict_EEq_value)

lemma never_true_sound: "never_true e \<Longrightarrow> verdict e c ms \<noteq> Some True"
  using clash_pair [of "[]"] flat_leaves_true verdict_EEq_unique
  by (fastforce simp: never_true_def split: option.splits)


section \<open>Undefined classes in member()\<close>

lemma unknown_members_set:
  "m \<in> set (unknown_members cs e) \<longleftrightarrow>
     m \<in> set (collect_members e) \<and> (\<forall>c \<in> set cs. \<not> py_eq (jget c ''name'') (JStr m))"
  by (auto simp: unknown_members_def list_ex_iff)

text \<open>
  The \<open>member()\<close> check reports exactly the names that no class of the configuration carries, each
  as a failure. The built-in classes of Kea are not exempt: a test with \<open>member('KNOWN')\<close>, which Kea
  evaluates for every packet, is reported as a test that can never pass.
\<close>
theorem unknown_member_exact:
  assumes "check_class_unknown_member d4 = Inr fs" and "class_dicts d4 = Inr cs"
  shows "(fd ''class_unknown_member'' SevFail (SubjMember name m) \<in> set fs \<longleftrightarrow>
      (\<exists>c \<in> set cs. \<exists>src e. jget c ''name'' = name \<and> jget c ''test'' = JStr src \<and> parse_expression src = Inr e \<and>
         m \<in> set (collect_members e)) \<and> (\<forall>c \<in> set cs. jget c ''name'' \<noteq> JStr m)) \<and>
    (\<forall>f \<in> set fs. fd_severity f = SevFail)"
proof -
  have body: "collect_all (\<lambda>c. rbind (tree_of (jget c ''test'')) (\<lambda>t.
         Inr (case t of
                None \<Rightarrow> []
              | Some e \<Rightarrow> map (\<lambda>m. fd ''class_unknown_member'' SevFail (SubjMember (jget c ''name'') m))
                            (unknown_members cs e)))) cs = Inr fs"
    using assms by (auto simp: check_class_unknown_member_def res_simps split: if_splits)
  have tree: "tree_of v = Inr (Some e) \<longleftrightarrow> (\<exists>src. v = JStr src \<and> src \<noteq> [] \<and> parse_expression src = Inr e)" for v e
    by (auto simp: tree_of_def split: json.splits sum.splits exc.splits)
  have empty: "parse_expression [] \<noteq> Inr e" for e
    by code_simp
  have mem: "f \<in> set fs \<longleftrightarrow> (\<exists>c \<in> set cs. \<exists>e m. tree_of (jget c ''test'') = Inr (Some e) \<and>
      m \<in> set (unknown_members cs e) \<and> f = fd ''class_unknown_member'' SevFail (SubjMember (jget c ''name'') m))" for f
  proof
    assume "f \<in> set fs"
    then show "\<exists>c \<in> set cs. \<exists>e m. tree_of (jget c ''test'') = Inr (Some e) \<and>
        m \<in> set (unknown_members cs e) \<and> f = fd ''class_unknown_member'' SevFail (SubjMember (jget c ''name'') m)"
      unfolding collect_all_set [OF body] by (fastforce simp: res_simps split: option.splits)
  qed (unfold collect_all_set [OF body], force simp: res_simps)
  have "fd ''class_unknown_member'' SevFail (SubjMember name m) \<in> set fs \<longleftrightarrow>
      (\<exists>c \<in> set cs. \<exists>src e. jget c ''name'' = name \<and> jget c ''test'' = JStr src \<and> parse_expression src = Inr e \<and>
         m \<in> set (collect_members e)) \<and> (\<forall>c \<in> set cs. jget c ''name'' \<noteq> JStr m)"
    unfolding mem tree unknown_members_set by (simp add: fd_def) (metis empty)
  moreover have "\<forall>f \<in> set fs. fd_severity f = SevFail"
    by (auto simp: mem fd_def)
  ultimately show ?thesis by blast
qed

section \<open>The order and the groups\<close>

interpretation severity: sort_order "\<lambda>a b. severity_order (fd_severity a) \<le> severity_order (fd_severity b)"
  by unfold_locales auto

text \<open>
  The diagnosis shows the most severe findings first and loses none: it returns the findings of every
  check, sorted by severity, and among the findings of one severity the order is that of the checks.
\<close>
theorem diagnose_sorted:
  assumes "diagnose others d4 hosts = Inr fs" and "truthy d4"
  shows "\<exists>found. collect (\<lambda>r. r) (all_checks d4 hosts) = Inr found \<and>
    sorted_wrt (\<lambda>a b. severity_order (fd_severity a) \<le> severity_order (fd_severity b)) fs \<and>
    (\<forall>sev. filter (\<lambda>f. fd_severity f = sev) fs = filter (\<lambda>f. fd_severity f = sev) (others @ concat found))"
proof -
  obtain found where run: "collect (\<lambda>r. r) (all_checks d4 hosts) = Inr found" and fs: "fs = by_severity (others @ concat found)"
    using assms by (auto simp: diagnose_def collect_all_def res_simps)
  have "filter (\<lambda>f. fd_severity f = sev) fs = filter (\<lambda>f. fd_severity f = sev) (others @ concat found)" for sev
    unfolding fs by_severity_def by (rule severity.filter_sort_by) simp
  then show ?thesis
    using run severity.sorted_sort_by by (auto simp: fs by_severity_def)
qed

definition keys_in_order :: "('k \<times> 'a) list \<Rightarrow> 'k list" where
  "keys_in_order xs = rev (remdups (rev (map fst xs)))"

lemma keys_in_order_snoc:
  "keys_in_order (xs @ [(k, x)]) = (if k \<in> fst ` set xs then keys_in_order xs else keys_in_order xs @ [k])"
  by (auto simp: keys_in_order_def)

lemma set_keys_in_order [simp]: "set (keys_in_order xs) = fst ` set xs"
  by (simp add: keys_in_order_def)

lemma distinct_keys_in_order: "distinct (keys_in_order xs)"
  by (simp add: keys_in_order_def)

lemma put_group_new: "k \<notin> fst ` set gs \<Longrightarrow> put_group (=) k x gs = gs @ [(k, [x])]"
  by (induction gs) auto

lemma put_group_map:
  "distinct ks \<Longrightarrow> k \<in> set ks \<Longrightarrow>
     put_group (=) k x (map (\<lambda>l. (l, f l)) ks) = map (\<lambda>l. (l, if l = k then f l @ [x] else f l)) ks"
  by (induction ks) auto

definition group_of :: "('k \<times> 'a) list \<Rightarrow> 'k \<Rightarrow> 'a list" where
  "group_of xs k = map snd (filter (\<lambda>p. fst p = k) xs)"

lemma group_by_reference: "group_by (=) xs = map (\<lambda>k. (k, group_of xs k)) (keys_in_order xs)"
proof (induction xs rule: rev_induct)
  case Nil
  then show ?case by (simp add: group_by_def keys_in_order_def)
next
  case (snoc p xs)
  obtain k x where p: "p = (k, x)" by fastforce
  have step: "group_by (=) (xs @ [p]) = put_group (=) k x (map (\<lambda>l. (l, group_of xs l)) (keys_in_order xs))"
    using snoc by (simp add: group_by_def p)
  show ?case
  proof (cases "k \<in> fst ` set xs")
    case True
    then have "put_group (=) k x (map (\<lambda>l. (l, group_of xs l)) (keys_in_order xs)) =
        map (\<lambda>l. (l, if l = k then group_of xs l @ [x] else group_of xs l)) (keys_in_order xs)"
      by (intro put_group_map) (simp_all add: distinct_keys_in_order)
    then show ?thesis
      unfolding step using True by (auto simp: p keys_in_order_snoc group_of_def)
  next
    case False
    then have "put_group (=) k x (map (\<lambda>l. (l, group_of xs l)) (keys_in_order xs)) =
        map (\<lambda>l. (l, group_of xs l)) (keys_in_order xs) @ [(k, [x])]"
      by (intro put_group_new) (simp add: image_image)
    moreover have "group_of xs k = []"
      using False by (force simp: group_of_def filter_empty_conv)
    ultimately show ?thesis
      unfolding step using False by (auto simp: p keys_in_order_snoc group_of_def)
  qed
qed

text \<open>
  Grouping loses and repeats nothing: the groups are the different pairs of check and severity, each
  once and in the order they first appear, and a group's entries are the findings of its pair, in order.
\<close>
theorem group_findings_partition:
  "map (\<lambda>g. (fg_id g, fg_severity g)) (group_findings fs) = rev (remdups (rev (map (\<lambda>f. (fd_id f, fd_severity f)) fs))) \<and>
   (\<forall>g \<in> set (group_findings fs).
      fg_entries g = map fd_subject (filter (\<lambda>f. (fd_id f, fd_severity f) = (fg_id g, fg_severity g)) fs))"
  unfolding group_findings_def group_by_reference
  by (auto simp: keys_in_order_def comp_def split_beta group_of_def filter_map)

section \<open>Witnesses\<close>

definition demo_doctor :: json where
  "demo_doctor =
    JObj [(''subnet4'', JList
            [JObj [(''id'', JInt 1), (''subnet'', JStr ''0.0.0.0/24''),
                   (''pools'', JList [JObj [(''pool'', JStr ''0.0.0.1-0.0.0.9'')], JObj [(''pool'', JStr ''0.0.0.5-0.0.0.20'')]])]]),
          (''client-classes'', JList
            [JObj [(''name'', JStr ''a''), (''test'', JStr ''member('KNOWN')'')],
             JObj [(''name'', JStr ''b''), (''test'', JStr ''option[60].hex == 0x01 and option[60].hex == 0x02'')]])]"

definition result_of :: "'a list res \<Rightarrow> 'a list" where
  "result_of r = (case r of Inr xs \<Rightarrow> xs | Inl e \<Rightarrow> [])"

lemma result_of_ok: "isl r = False \<Longrightarrow> r = Inr (result_of r)"
  by (cases r) (auto simp: result_of_def)

lemma pools_overlap_exact_witness:
  "result_of (check_pools_overlap demo_doctor) \<noteq> [] \<and>
   (\<exists>g rs a b. g \<in> set (overlap_groups demo_doctor) \<and> group_ranges g = Inr rs \<and> a \<in> set rs \<and> b \<in> set rs \<and>
      addresses a \<inter> addresses b \<noteq> {} \<and>
      fd_subject (hd (result_of (check_pools_overlap demo_doctor))) =
        SubjTwoPools (fst (snd a)) (snd (snd a)) (fst (snd b)) (snd (snd b)))"
proof -
  have run: "isl (check_pools_overlap demo_doctor) = False" by code_simp
  have "map fd_id (result_of (check_pools_overlap demo_doctor)) = [''pools_overlap'']" by code_simp
  then have ne: "result_of (check_pools_overlap demo_doctor) \<noteq> []" by auto
  then have "hd (result_of (check_pools_overlap demo_doctor)) \<in> set (result_of (check_pools_overlap demo_doctor))"
    by (rule hd_in_set)
  from bspec [OF conjunct2 [OF pools_overlap_exact [OF result_of_ok [OF run]]] this]
  show ?thesis using ne by blast
qed


lemma unknown_member_exact_witness:
  "fd ''class_unknown_member'' SevFail (SubjMember (JStr ''a'') ''KNOWN'')
     \<in> set (result_of (check_class_unknown_member demo_doctor)) \<and>
   is_builtin ''KNOWN'' \<and>
   list_all (\<lambda>f. fd_severity f = SevFail) (result_of (check_class_unknown_member demo_doctor))"
proof -
  have run: "isl (check_class_unknown_member demo_doctor) = False" by code_simp
  have cs: "isl (class_dicts demo_doctor) = False" by code_simp
  have cs': "class_dicts demo_doctor = Inr
      [JObj [(''name'', JStr ''a''), (''test'', JStr ''member('KNOWN')'')],
       JObj [(''name'', JStr ''b''), (''test'', JStr ''option[60].hex == 0x01 and option[60].hex == 0x02'')]]"
    by code_simp
  have e: "parse_expression ''member('KNOWN')'' = Inr (EMember ''KNOWN'')" by code_simp
  have "is_builtin ''KNOWN''" by code_simp
  then show ?thesis
    using unknown_member_exact [OF result_of_ok [OF run] cs', of "JStr ''a''" "''KNOWN''"] e
    by (auto simp: jget_def list_all_iff)
qed

lemma diagnose_sorted_witness:
  "map fd_severity (result_of (diagnose [fd ''other'' SevInfo SubjHooks] demo_doctor [])) \<noteq> [] \<and>
   sorted_wrt (\<lambda>a b. severity_order (fd_severity a) \<le> severity_order (fd_severity b))
     (result_of (diagnose [fd ''other'' SevInfo SubjHooks] demo_doctor []))"
proof -
  have "isl (diagnose [fd ''other'' SevInfo SubjHooks] demo_doctor []) = False" by code_simp
  note run = result_of_ok [OF this]
  have "map fd_severity (result_of (diagnose [fd ''other'' SevInfo SubjHooks] demo_doctor [])) \<noteq> []" by code_simp
  then show ?thesis
    using diagnose_sorted [OF run] by (auto simp: demo_doctor_def)
qed

end
