(* ===== verification/Identifiers.thy ===== *)
theory Identifiers
  imports PyStr
begin

text \<open>
  \<open>jen/services/kea_identifiers.py\<close>: reservations whose identifier was written as the text of its own
  hex, how they are recognised, judged by the leases, and repaired.

  The tables \<open>hosts\<close>, \<open>lease4\<close> and \<open>dhcp4_options\<close> are lists of records, a missing table is \<open>None\<close>; a
  query is a filter over the rows and an \<open>UPDATE\<close> a map over them. Two things are the database's own
  and are parameters: \<open>pick\<close> chooses the rows of a \<open>LIMIT 5\<close> without an \<open>ORDER BY\<close>, and \<open>fails\<close> says
  whether the server refuses an update (a unique-key collision). A column of bytes that holds something
  else is \<open>None\<close>.
\<close>

section \<open>Recognising the damage\<close>

definition ascii_hex :: "string \<Rightarrow> bool" where
  "ascii_hex s = (s \<noteq> [] \<and> even (length s) \<and> list_all is_hex s)"

text \<open>The name of a type and the plausible lengths, \<open>None\<close> for any even length from twelve.\<close>

definition type_rules :: "(nat \<times> string \<times> nat list option) list" where
  "type_rules = [(0, ''hw-address'', Some [12, 16, 40]), (1, ''duid'', None), (3, ''client-id'', None)]"

definition min_any :: nat where "min_any = 12"

definition type_name :: "nat \<Rightarrow> string" where
  "type_name t =
     (case map_of [(0, ''hw-address''), (1, ''duid''), (2, ''circuit-id''), (3, ''client-id''), (4, ''flex-id'')] t of
        Some n \<Rightarrow> n | None \<Rightarrow> ''type '' @ show_nat t)"

definition duid_types :: "nat list" where "duid_types = [1, 2, 3, 4]"

text \<open>\<open>bytes.fromhex\<close> where it cannot fail, and \<open>int.from_bytes(b, "big")\<close>.\<close>

definition unhex :: "string \<Rightarrow> string" where
  "unhex s = (case from_hex s of Inr b \<Rightarrow> b | Inl e \<Rightarrow> s)"

definition be_int :: "string \<Rightarrow> nat" where
  "be_int b = foldl (\<lambda>n c. 256 * n + ord_of c) 0 b"

definition looks_like_hex_of_itself :: "string option \<Rightarrow> nat \<Rightarrow> bool" where
  "looks_like_hex_of_itself ident ident_type =
     (case ident of
        None \<Rightarrow> False
      | Some b \<Rightarrow>
          (case map_of type_rules ident_type of
             None \<Rightarrow> False
           | Some (name, lengths) \<Rightarrow>
               if odd (length b) \<or> length b < min_any \<or> \<not> ascii_hex b then False
               else if (case lengths of Some ls \<Rightarrow> length b \<notin> set ls | None \<Rightarrow> False) then False
               else if ident_type = 1 then be_int (take 2 (unhex b)) \<in> set duid_types
               else True))"

section \<open>What the leases say of a client-id\<close>

datatype lease_match = MDecoded | MText | MHwaddr

datatype confidence = Damaged | Ambiguous | Legitimate

definition classify_client_id :: "lease_match list list \<Rightarrow> confidence" where
  "classify_client_id evidence =
     (let kinds = set (concat evidence);
          by_text = MText \<in> kinds;
          decoded = (MDecoded \<in> kinds \<or> MHwaddr \<in> kinds)
      in if by_text \<and> \<not> decoded then Legitimate
         else if decoded \<and> \<not> by_text then Damaged
         else Ambiguous)"

text \<open>\<open>str(ipaddress.IPv4Address(n))\<close>; zero, NULL and a number out of range give the empty text.\<close>

definition show_ip :: "nat option \<Rightarrow> string" where
  "show_ip n =
     (case n of
        None \<Rightarrow> []
      | Some a \<Rightarrow>
          if a = 0 \<or> 2 ^ 32 \<le> a then []
          else join_with ''.'' (map show_nat [a div 2 ^ 24, a div 2 ^ 16 mod 256, a div 256 mod 256, a mod 256]))"

fun colon :: "string \<Rightarrow> string" where
  "colon (a # b # c # cs) = a # b # CHR '':'' # colon (c # cs)"
| "colon s = s"

record lease_row =
  ls_address :: "nat option"
  ls_client_id :: "string option"
  ls_hwaddr :: "string option"

record evidence =
  ev_address :: string
  ev_client_id :: string
  ev_hwaddr :: string
  ev_matches :: "lease_match list"

definition bears_on :: "string \<Rightarrow> lease_row \<Rightarrow> bool" where
  "bears_on stored r =
     (ls_client_id r = Some (unhex stored) \<or> ls_client_id r = Some stored \<or>
      (length (unhex stored) = 6 \<and> ls_hwaddr r = Some (unhex stored)))"

definition matches_of :: "string \<Rightarrow> lease_row \<Rightarrow> lease_match list" where
  "matches_of stored r =
     (if ls_client_id r = Some (unhex stored) then [MDecoded] else []) @
     (if ls_client_id r = Some stored then [MText] else []) @
     (if length (unhex stored) = 6 \<and> ls_hwaddr r = Some (unhex stored) then [MHwaddr] else [])"

definition hex_or_empty :: "string option \<Rightarrow> string" where
  "hex_or_empty b = (case b of Some s \<Rightarrow> to_hex s | None \<Rightarrow> [])"

definition lease_evidence :: "(lease_row list \<Rightarrow> lease_row list) \<Rightarrow> lease_row list \<Rightarrow> string \<Rightarrow> evidence list" where
  "lease_evidence pick leases stored =
     map (\<lambda>r. \<lparr>ev_address = show_ip (ls_address r), ev_client_id = hex_or_empty (ls_client_id r),
               ev_hwaddr = hex_or_empty (ls_hwaddr r), ev_matches = matches_of stored r\<rparr>)
       (pick (filter (bears_on stored) leases))"

section \<open>The candidates\<close>

record host_row =
  ht_id :: nat
  ht_ident :: "string option"
  ht_type :: nat
  ht_ipv4 :: "nat option"
  ht_hostname :: "string option"
  ht_subnet :: "nat option"

record option_value =
  ov_id :: nat
  ov_host :: "nat option"
  ov_scope :: nat
  ov_code :: nat
  ov_value :: "string option"

record kea_db =
  db_hosts :: "host_row list option"
  db_leases :: "lease_row list option"
  db_options :: "option_value list option"

record damaged_row =
  dm_host_id :: nat
  dm_type :: nat
  dm_type_name :: string
  dm_stored :: string
  dm_repaired :: string
  dm_bytes :: nat
  dm_ipv4 :: string
  dm_hostname :: string
  dm_subnet :: "nat option"
  dm_confidence :: confidence
  dm_evidence :: "evidence list"

definition long_enough :: "host_row \<Rightarrow> bool" where
  "long_enough h =
     (case ht_ident h of Some b \<Rightarrow> min_any \<le> length b \<and> even (length b) | None \<Rightarrow> False)"

definition text_or_empty :: "string option \<Rightarrow> string" where
  "text_or_empty s = (case s of Some t \<Rightarrow> t | None \<Rightarrow> [])"

definition judge :: "(lease_row list \<Rightarrow> lease_row list) \<Rightarrow> lease_row list option \<Rightarrow> host_row \<Rightarrow> damaged_row" where
  "judge pick leases h =
     (let stored = text_or_empty (ht_ident h);
          ev = (case leases of Some ls \<Rightarrow> lease_evidence pick ls stored | None \<Rightarrow> [])
      in \<lparr>dm_host_id = ht_id h, dm_type = ht_type h, dm_type_name = type_name (ht_type h), dm_stored = stored,
          dm_repaired = colon (lower stored), dm_bytes = length stored div 2, dm_ipv4 = show_ip (ht_ipv4 h),
          dm_hostname = text_or_empty (ht_hostname h), dm_subnet = ht_subnet h,
          dm_confidence = (if ht_type h = 3 then classify_client_id (map ev_matches ev) else Damaged),
          dm_evidence = (if ht_type h = 3 then ev else [])\<rparr>)"

definition find_damaged :: "(lease_row list \<Rightarrow> lease_row list) \<Rightarrow> kea_db \<Rightarrow> damaged_row list" where
  "find_damaged pick db =
     (case db_hosts db of
        None \<Rightarrow> []
      | Some hosts \<Rightarrow>
          map (judge pick (db_leases db))
            (filter (\<lambda>h. looks_like_hex_of_itself (ht_ident h) (ht_type h))
              (sort_by (\<lambda>a b. ht_id a \<le> ht_id b) (filter long_enough hosts))))"

definition count_checked :: "kea_db \<Rightarrow> nat" where
  "count_checked db = (case db_hosts db of None \<Rightarrow> 0 | Some hosts \<Rightarrow> length hosts)"

section \<open>Repairing identifiers\<close>

datatype skip_reason = LeaseShowsText | UpdateRefused | ChangedSince

datatype repair_result = Repaired nat string string | Skipped nat skip_reason

text \<open>The \<open>UPDATE\<close>: the rows with this id, this type and exactly these bytes, and how many they are.\<close>

definition hit_by :: "damaged_row \<Rightarrow> host_row \<Rightarrow> bool" where
  "hit_by d h = (ht_id h = dm_host_id d \<and> ht_type h = dm_type d \<and> ht_ident h = Some (dm_stored d))"

definition update_hosts :: "damaged_row \<Rightarrow> host_row list \<Rightarrow> host_row list" where
  "update_hosts d hosts = map (\<lambda>h. if hit_by d h then h\<lparr>ht_ident := Some (unhex (dm_stored d))\<rparr> else h) hosts"

definition repair_one ::
  "(host_row list \<Rightarrow> damaged_row \<Rightarrow> bool) \<Rightarrow> nat list option \<Rightarrow> damaged_row \<Rightarrow>
     host_row list \<times> repair_result list \<Rightarrow> host_row list \<times> repair_result list" where
  "repair_one fails wanted d = (\<lambda>(hosts, out).
     if (case wanted of Some ids \<Rightarrow> dm_host_id d \<notin> set ids | None \<Rightarrow> dm_confidence d \<noteq> Damaged) then (hosts, out)
     else if dm_confidence d = Legitimate then (hosts, out @ [Skipped (dm_host_id d) LeaseShowsText])
     else if fails hosts d then (hosts, out @ [Skipped (dm_host_id d) UpdateRefused])
     else if list_ex (hit_by d) hosts
          then (update_hosts d hosts, out @ [Repaired (dm_host_id d) (dm_stored d) (dm_repaired d)])
          else (hosts, out @ [Skipped (dm_host_id d) ChangedSince]))"

definition repair ::
  "(host_row list \<Rightarrow> damaged_row \<Rightarrow> bool) \<Rightarrow> (lease_row list \<Rightarrow> lease_row list) \<Rightarrow> nat list option \<Rightarrow> kea_db \<Rightarrow>
     kea_db \<times> repair_result list" where
  "repair fails pick wanted db =
     (case db_hosts db of
        None \<Rightarrow> (db, [])
      | Some hosts \<Rightarrow>
          (case foldl (\<lambda>s d. repair_one fails wanted d s) (hosts, []) (find_damaged pick db) of
             (hosts', out) \<Rightarrow> (db\<lparr>db_hosts := Some hosts'\<rparr>, out)))"

section \<open>Option values\<close>

datatype option_kind = KMask | KInt32 | KIpv4 | KMtu | KLease

definition fixed_options :: "(nat \<times> string \<times> nat \<times> nat list \<times> option_kind) list" where
  "fixed_options =
    [(1, ''subnet-mask'', 4, [1], KMask),
     (2, ''time-offset'', 4, [1], KInt32),
     (3, ''routers'', 4, [1, 2, 3, 4], KIpv4),
     (4, ''time-servers'', 4, [1, 2, 3, 4], KIpv4),
     (5, ''name-servers'', 4, [1, 2, 3, 4], KIpv4),
     (6, ''domain-name-servers'', 4, [1, 2, 3, 4], KIpv4),
     (7, ''log-servers'', 4, [1, 2, 3, 4], KIpv4),
     (26, ''interface-mtu'', 2, [1], KMtu),
     (28, ''broadcast-address'', 4, [1], KIpv4),
     (42, ''ntp-servers'', 4, [1, 2, 3, 4], KIpv4),
     (44, ''netbios-name-servers'', 4, [1, 2, 3, 4], KIpv4),
     (51, ''dhcp-lease-time'', 4, [1], KLease),
     (54, ''dhcp-server-identifier'', 4, [1], KIpv4),
     (58, ''dhcp-renewal-time'', 4, [1], KLease),
     (59, ''dhcp-rebinding-time'', 4, [1], KLease)]"

definition ten_years :: nat where "ten_years = 10 * 365 * 86400"

fun chunks4 :: "string \<Rightarrow> string list" where
  "chunks4 (a # b # c # d # cs) = [a, b, c, d] # chunks4 cs"
| "chunks4 [] = []"
| "chunks4 s = [s]"

definition dotted :: "string \<Rightarrow> string" where
  "dotted p = join_with ''.'' (map (\<lambda>c. show_nat (ord_of c)) p)"

text \<open>\<open>re.fullmatch(r"1+0*", bits)\<close> over the 32 bits of the number.\<close>

definition mask_bits :: "nat \<Rightarrow> bool list" where
  "mask_bits n = map (\<lambda>i. odd (n div 2 ^ (31 - i))) [0..<32]"

definition is_mask :: "nat \<Rightarrow> bool" where
  "is_mask n = (let bits = mask_bits n in hd bits \<and> list_all Not (dropWhile (\<lambda>b. b) bits))"

definition signed32 :: "nat \<Rightarrow> int" where
  "signed32 n = (if 2 ^ 31 \<le> n then int n - 2 ^ 32 else int n)"

definition show_signed :: "int \<Rightarrow> string" where
  "show_signed i = (if i < 0 then CHR ''-'' # show_nat (nat (- i)) else show_nat (nat i))"

definition plausible_option :: "option_kind \<Rightarrow> string \<Rightarrow> string option" where
  "plausible_option k raw =
     (case k of
        KIpv4 \<Rightarrow>
          (if list_ex (\<lambda>p. p = replicate 4 (char_of (0 :: nat)) \<or> p = replicate 4 (char_of (255 :: nat))) (chunks4 raw) then None
           else Some (join_with '', '' (map dotted (chunks4 raw))))
      | KMask \<Rightarrow> (if is_mask (be_int raw) then Some (dotted raw) else None)
      | KMtu \<Rightarrow> (if 68 \<le> be_int raw \<and> be_int raw \<le> 65535 then Some (show_nat (be_int raw)) else None)
      | KLease \<Rightarrow> (if 1 \<le> be_int raw \<and> be_int raw \<le> ten_years then Some (show_nat (be_int raw) @ '' seconds'') else None)
      | KInt32 \<Rightarrow>
          (if \<bar>signed32 (be_int raw)\<bar> \<le> 86400 then Some (show_signed (signed32 (be_int raw)) @ '' seconds'') else None))"

record option_candidate =
  oc_option_id :: nat
  oc_host_id :: "nat option"
  oc_code :: nat
  oc_name :: string
  oc_stored :: string
  oc_repaired :: string
  oc_hostname :: string
  oc_ipv4 :: string

text \<open>The text of the decoded value when the stored one is the hex of a plausible value.\<close>

definition decoded_option :: "nat \<Rightarrow> string \<Rightarrow> (string \<times> string) option" where
  "decoded_option code v =
     (case map_of fixed_options code of
        None \<Rightarrow> None
      | Some (name, width, counts, k) \<Rightarrow>
          if length v \<notin> set (map (\<lambda>c. 2 * width * c) counts) \<or> \<not> ascii_hex v then None
          else map_option (\<lambda>shown. (name, shown)) (plausible_option k (unhex v)))"

definition in_scope :: "option_value \<Rightarrow> bool" where
  "in_scope r = (ov_host r \<noteq> None \<and> ov_scope r = 3)"

definition option_candidate_of :: "host_row list \<Rightarrow> option_value \<Rightarrow> option_candidate option" where
  "option_candidate_of hosts r =
     (case ov_value r of
        None \<Rightarrow> None
      | Some v \<Rightarrow>
          map_option (\<lambda>(name, shown).
            let host = find (\<lambda>h. Some (ht_id h) = ov_host r) hosts
            in \<lparr>oc_option_id = ov_id r, oc_host_id = ov_host r, oc_code = ov_code r, oc_name = name, oc_stored = v,
                oc_repaired = shown,
                oc_hostname = (case host of Some h \<Rightarrow> text_or_empty (ht_hostname h) | None \<Rightarrow> []),
                oc_ipv4 = (case host of Some h \<Rightarrow> show_ip (ht_ipv4 h) | None \<Rightarrow> [])\<rparr>)
          (decoded_option (ov_code r) v))"

definition find_option_candidates :: "kea_db \<Rightarrow> option_candidate list" where
  "find_option_candidates db =
     (case db_options db of
        None \<Rightarrow> []
      | Some rows \<Rightarrow>
          List.map_filter (option_candidate_of (case db_hosts db of Some hs \<Rightarrow> hs | None \<Rightarrow> []))
            (sort_by (\<lambda>a b. ov_id a \<le> ov_id b)
              (filter (\<lambda>r. in_scope r \<and> ov_code r \<in> set (map fst fixed_options)) rows)))"

datatype option_result = OptRepaired nat nat string string string | OptChangedSince nat

definition option_hit :: "option_candidate \<Rightarrow> option_value \<Rightarrow> bool" where
  "option_hit c r = (ov_id r = oc_option_id c \<and> in_scope r \<and> ov_value r = Some (oc_stored c))"

definition repair_option ::
  "nat list \<Rightarrow> option_candidate \<Rightarrow> option_value list \<times> option_result list \<Rightarrow> option_value list \<times> option_result list" where
  "repair_option wanted c = (\<lambda>(rows, out).
     if oc_option_id c \<notin> set wanted then (rows, out)
     else if list_ex (option_hit c) rows
          then (map (\<lambda>r. if option_hit c r then r\<lparr>ov_value := Some (unhex (oc_stored c))\<rparr> else r) rows,
                out @ [OptRepaired (oc_option_id c) (oc_code c) (oc_name c) (oc_stored c) (oc_repaired c)])
          else (rows, out @ [OptChangedSince (oc_option_id c)]))"

definition repair_options :: "nat list \<Rightarrow> kea_db \<Rightarrow> kea_db \<times> option_result list" where
  "repair_options wanted db =
     (case db_options db of
        None \<Rightarrow> (db, [])
      | Some rows \<Rightarrow>
          (case foldl (\<lambda>s c. repair_option wanted c s) (rows, []) (find_option_candidates db) of
             (rows', out) \<Rightarrow> (db\<lparr>db_options := Some rows'\<rparr>, out)))"

end
