(* ===== verification/IdentifierProps.thy ===== *)
theory IdentifierProps
  imports Identifiers
begin

text \<open>
  What a repair of identifiers may change (\<open>jen/services/kea_identifiers.py\<close>), that it undoes the
  damage, and what it does with a client whose lease shows the stored text.
\<close>

section \<open>The repair, row by row\<close>

interpretation id_order: sort_order "\<lambda>a b. ht_id a \<le> ht_id b"
  by unfold_locales auto

text \<open>What the repair of one row may be.\<close>

definition may_repair ::
  "(lease_row list \<Rightarrow> lease_row list) \<Rightarrow> lease_row list option \<Rightarrow> nat list option \<Rightarrow> host_row \<Rightarrow> bool" where
  "may_repair pick leases wanted h =
     (looks_like_hex_of_itself (ht_ident h) (ht_type h) \<and>
      dm_confidence (judge pick leases h) \<noteq> Legitimate \<and>
      (case wanted of Some ids \<Rightarrow> ht_id h \<in> set ids | None \<Rightarrow> dm_confidence (judge pick leases h) = Damaged))"

definition repaired :: "host_row \<Rightarrow> host_row" where
  "repaired h = h\<lparr>ht_ident := map_option unhex (ht_ident h)\<rparr>"

lemma looks_like_text: "looks_like_hex_of_itself (ht_ident h) t \<Longrightarrow> ht_ident h = Some (text_or_empty (ht_ident h))"
  by (auto simp: looks_like_hex_of_itself_def text_or_empty_def split: option.splits)

lemma judge_simps [simp]:
  "dm_host_id (judge pick leases h) = ht_id h" "dm_type (judge pick leases h) = ht_type h"
  "dm_stored (judge pick leases h) = text_or_empty (ht_ident h)"
  by (simp_all add: judge_def Let_def)

lemma ht_id_repaired [simp]: "ht_id (repaired h) = ht_id h"
  by (simp add: repaired_def)

text \<open>The rows the loop runs over, as host rows.\<close>

definition suspects :: "host_row list \<Rightarrow> host_row list" where
  "suspects hosts =
     filter (\<lambda>h. looks_like_hex_of_itself (ht_ident h) (ht_type h))
       (sort_by (\<lambda>a b. ht_id a \<le> ht_id b) (filter long_enough hosts))"

lemma looks_long: "looks_like_hex_of_itself (ht_ident h) (ht_type h) \<Longrightarrow> long_enough h"
  by (auto simp: looks_like_hex_of_itself_def long_enough_def split: option.splits if_splits prod.splits)

lemma set_suspects: "set (suspects hosts) = {h \<in> set hosts. looks_like_hex_of_itself (ht_ident h) (ht_type h)}"
  using looks_long by (auto simp: suspects_def)

lemma distinct_suspects:
  assumes "distinct (map ht_id hosts)"
  shows "distinct (map ht_id (suspects hosts))"
proof -
  have "mset (map ht_id (sort_by (\<lambda>a b. ht_id a \<le> ht_id b) (filter long_enough hosts))) =
      mset (map ht_id (filter long_enough hosts))"
    by simp
  moreover have "distinct (map ht_id (filter long_enough hosts))"
    using assms by (rule distinct_map_filter)
  ultimately have "distinct (map ht_id (sort_by (\<lambda>a b. ht_id a \<le> ht_id b) (filter long_enough hosts)))"
    by (metis mset_eq_imp_distinct_iff)
  then show ?thesis
    unfolding suspects_def by (rule distinct_map_filter)
qed

text \<open>
  One step on a table whose suspect row is still the original: the row is repaired, or nothing changes;
  rows of other ids never change.
\<close>

lemma same_id: "distinct (map ht_id hosts) \<Longrightarrow> h \<in> set hosts \<Longrightarrow> g \<in> set hosts \<Longrightarrow> ht_id g = ht_id h \<Longrightarrow> g = h"
  by (meson distinct_map inj_onD)

lemma repair_one_step:
  assumes "h \<in> set hosts" "distinct (map ht_id hosts)" "looks_like_hex_of_itself (ht_ident h) (ht_type h)"
  shows "fst (repair_one fails wanted (judge pick leases h) (hosts, out)) =
    (if may_repair pick leases wanted h \<and> \<not> fails hosts (judge pick leases h)
     then map (\<lambda>g. if ht_id g = ht_id h then repaired g else g) hosts else hosts)"
proof -
  let ?d = "judge pick leases h"
  have id: "g = h" if "g \<in> set hosts" "ht_id g = ht_id h" for g
    by (rule same_id [OF assms(2,1) that])
  have hit: "hit_by ?d g \<longleftrightarrow> ht_id g = ht_id h" if "g \<in> set hosts" for g
    using looks_like_text [OF assms(3)] id [OF that] by (auto simp: hit_by_def)
  have "list_ex (hit_by ?d) hosts"
    using assms(1) hit by (auto simp: list_ex_iff)
  moreover have "update_hosts ?d hosts = map (\<lambda>g. if ht_id g = ht_id h then repaired g else g) hosts"
    unfolding update_hosts_def
  proof (rule map_cong [OF refl])
    fix g assume g: "g \<in> set hosts"
    obtain b where b: "ht_ident h = Some b"
      using looks_like_text [OF assms(3)] by blast
    then show "(if hit_by ?d g then g\<lparr>ht_ident := Some (unhex (dm_stored ?d))\<rparr> else g) =
        (if ht_id g = ht_id h then repaired g else g)"
      using hit [OF g] id [OF g] by (auto simp: repaired_def text_or_empty_def)
  qed
  ultimately show ?thesis
    by (auto simp: repair_one_def may_repair_def assms(3) split: option.splits)
qed

text \<open>The whole loop, over any list of suspects with different ids.\<close>

definition after_repair :: "(host_row \<Rightarrow> bool) \<Rightarrow> host_row \<Rightarrow> host_row \<Rightarrow> bool" where
  "after_repair ok h h' = (h' = h \<or> (ok h \<and> h' = repaired h))"

lemma repair_loop:
  assumes "distinct (map ht_id hosts)" "set hs \<subseteq> set hosts" "distinct (map ht_id hs)"
    and "\<forall>h \<in> set hs. looks_like_hex_of_itself (ht_ident h) (ht_type h)"
  shows "\<exists>done. set done \<subseteq> set hs \<and> (\<forall>h \<in> set done. may_repair pick leases wanted h) \<and>
    ((\<forall>hs' d. \<not> fails hs' d) \<longrightarrow> (\<forall>h \<in> set hs. may_repair pick leases wanted h \<longrightarrow> h \<in> set done)) \<and>
    fst (foldl (\<lambda>s d. repair_one fails wanted d s) (hosts, out) (map (judge pick leases) hs)) =
      map (\<lambda>g. if g \<in> set done then repaired g else g) hosts"
  using assms(2-)
proof (induction hs rule: rev_induct)
  case Nil
  show ?case by (rule exI [of _ "[]"]) simp
next
  case (snoc h hs)
  obtain fin out' where state: "foldl (\<lambda>s d. repair_one fails wanted d s) (hosts, out) (map (judge pick leases) hs) = (fin, out')"
    by fastforce
  have "\<exists>done. set done \<subseteq> set hs \<and> (\<forall>h \<in> set done. may_repair pick leases wanted h) \<and>
      ((\<forall>hs' d. \<not> fails hs' d) \<longrightarrow> (\<forall>h \<in> set hs. may_repair pick leases wanted h \<longrightarrow> h \<in> set done)) \<and>
      fst (foldl (\<lambda>s d. repair_one fails wanted d s) (hosts, out) (map (judge pick leases) hs)) =
        map (\<lambda>g. if g \<in> set done then repaired g else g) hosts"
    by (rule snoc.IH) (use snoc.prems in auto)
  then obtain dn where dn: "set dn \<subseteq> set hs" "\<forall>h \<in> set dn. may_repair pick leases wanted h"
      "(\<forall>hs' d. \<not> fails hs' d) \<longrightarrow> (\<forall>h \<in> set hs. may_repair pick leases wanted h \<longrightarrow> h \<in> set dn)"
      "fin = map (\<lambda>g. if g \<in> set dn then repaired g else g) hosts"
    unfolding state by auto
  have same: "g = h" if "g \<in> set hosts" "ht_id g = ht_id h" for g
    by (rule same_id [OF assms(1) _ that]) (use snoc.prems(1) in simp)
  have new: "h \<notin> set dn" using dn(1) snoc.prems(2) by auto
  then have mem: "h \<in> set fin" using snoc.prems(1) by (force simp: dn(4))
  have ids: "distinct (map ht_id fin)"
    using assms(1) by (simp add: dn(4) comp_def if_distrib cong: if_cong)
  have step: "fst (repair_one fails wanted (judge pick leases h) (fin, out')) =
    (if may_repair pick leases wanted h \<and> \<not> fails fin (judge pick leases h)
     then map (\<lambda>g. if ht_id g = ht_id h then repaired g else g) fin else fin)"
    using snoc.prems(3) by (intro repair_one_step [OF mem ids]) simp
  show ?case
  proof (cases "may_repair pick leases wanted h \<and> \<not> fails fin (judge pick leases h)")
    case True
    have "map (\<lambda>g. if ht_id g = ht_id h then repaired g else g) fin =
        map (\<lambda>g. if g \<in> set (h # dn) then repaired g else g) hosts"
      using same new by (auto simp: dn(4))
    then show ?thesis
      using True step state dn(1-3) by (intro exI [of _ "h # dn"]) auto
  next
    case False
    then show ?thesis
      using step state dn by (intro exI [of _ dn]) auto
  qed
qed

lemma repair_result:
  assumes "db_hosts db = Some hosts" "distinct (map ht_id hosts)"
  obtains dn where "set dn \<subseteq> set (suspects hosts)" "\<forall>h \<in> set dn. may_repair pick (db_leases db) wanted h"
    "(\<forall>hs' d. \<not> fails hs' d) \<Longrightarrow> (\<forall>h \<in> set (suspects hosts). may_repair pick (db_leases db) wanted h \<longrightarrow> h \<in> set dn)"
    "fst (repair fails pick wanted db) = db\<lparr>db_hosts := Some (map (\<lambda>g. if g \<in> set dn then repaired g else g) hosts)\<rparr>"
proof -
  have fd: "find_damaged pick db = map (judge pick (db_leases db)) (suspects hosts)"
    by (simp add: find_damaged_def suspects_def assms(1))
  have subset: "set (suspects hosts) \<subseteq> set hosts"
    and looks: "\<forall>h \<in> set (suspects hosts). looks_like_hex_of_itself (ht_ident h) (ht_type h)"
    by (auto simp: set_suspects)
  from repair_loop [OF assms(2) subset distinct_suspects [OF assms(2)] looks, of pick "db_leases db" wanted fails "[]"]
  obtain dn where dn: "set dn \<subseteq> set (suspects hosts)" "\<forall>h \<in> set dn. may_repair pick (db_leases db) wanted h"
    "(\<forall>hs' d. \<not> fails hs' d) \<longrightarrow> (\<forall>h \<in> set (suspects hosts). may_repair pick (db_leases db) wanted h \<longrightarrow> h \<in> set dn)"
    "fst (foldl (\<lambda>s d. repair_one fails wanted d s) (hosts, []) (find_damaged pick db)) =
      map (\<lambda>g. if g \<in> set dn then repaired g else g) hosts"
    unfolding fd by blast
  obtain fin out where run: "foldl (\<lambda>s d. repair_one fails wanted d s) (hosts, []) (find_damaged pick db) = (fin, out)"
    by fastforce
  then have "fst (repair fails pick wanted db) = db\<lparr>db_hosts := Some fin\<rparr>"
    by (simp add: repair_def assms(1))
  then show ?thesis
    using that [OF dn(1,2)] dn(3,4) run by simp
qed

section \<open>Properties\<close>

text \<open>
  C12. A repair changes nothing but the identifier of rows it may change: those that hold the text of their
  own hex, that no lease shows to be legitimate, and that the operator named (or, with no list, that
  count as damaged). Such a row gets the decoded bytes or stays as it is; leases, options, the other
  columns, the number and the order of the rows never change, whatever updates the server refuses.
\<close>
theorem repair_changes_only_confirmed:
  assumes "db_hosts db = Some hosts" and "distinct (map ht_id hosts)"
  shows "\<exists>hosts'. fst (repair fails pick wanted db) = db\<lparr>db_hosts := Some hosts'\<rparr> \<and>
    list_all2 (\<lambda>h h'. h' = h \<or>
      (looks_like_hex_of_itself (ht_ident h) (ht_type h) \<and>
       dm_confidence (judge pick (db_leases db) h) \<noteq> Legitimate \<and>
       (case wanted of Some ids \<Rightarrow> ht_id h \<in> set ids
        | None \<Rightarrow> dm_confidence (judge pick (db_leases db) h) = Damaged) \<and>
       h' = h\<lparr>ht_ident := map_option unhex (ht_ident h)\<rparr>)) hosts hosts'"
proof -
  obtain dn where dn: "\<forall>h \<in> set dn. may_repair pick (db_leases db) wanted h"
    "fst (repair fails pick wanted db) = db\<lparr>db_hosts := Some (map (\<lambda>g. if g \<in> set dn then repaired g else g) hosts)\<rparr>"
    by (rule repair_result [OF assms, of pick wanted fails])
  show ?thesis
    unfolding dn(2) using dn(1)
    by (intro exI [of _ "map (\<lambda>g. if g \<in> set dn then repaired g else g) hosts"] conjI refl)
      (simp add: list_all2_map2 list_all2_same may_repair_def repaired_def)
qed

section \<open>Undoing the damage\<close>

text \<open>The damage: the identifier written as the text of its hex; and the rows the repair knows without a lease.\<close>

definition written_as_text :: "host_row \<Rightarrow> host_row" where
  "written_as_text h = h\<lparr>ht_ident := map_option to_hex (ht_ident h)\<rparr>"

definition recognisable :: "host_row \<Rightarrow> bool" where
  "recognisable h =
     (case ht_ident h of
        None \<Rightarrow> False
      | Some b \<Rightarrow> (ht_type h = 0 \<and> length b \<in> {6, 8, 20}) \<or>
                  (ht_type h = 1 \<and> 6 \<le> length b \<and> be_int (take 2 b) \<in> set duid_types))"

lemma unhex_to_hex [simp]: "unhex (to_hex b) = b"
  by (simp add: unhex_def)

lemma ascii_hex_to_hex: "b \<noteq> [] \<Longrightarrow> ascii_hex (to_hex b)"
  by (cases b) (simp_all add: ascii_hex_def list_all_iff to_hex_hex length_to_hex del: to_hex.simps, simp)

lemma damaged_looks:
  "recognisable h \<Longrightarrow> looks_like_hex_of_itself (ht_ident (written_as_text h)) (ht_type (written_as_text h))"
proof -
  assume r: "recognisable h"
  then obtain b where b: "ht_ident h = Some b"
      "(ht_type h = 0 \<and> length b \<in> {6, 8, 20}) \<or> (ht_type h = 1 \<and> 6 \<le> length b \<and> be_int (take 2 b) \<in> set duid_types)"
    by (auto simp: recognisable_def split: option.splits)
  moreover have "ascii_hex (to_hex b)"
    by (rule ascii_hex_to_hex) (use b(2) in auto)
  ultimately show ?thesis
    by (auto simp: written_as_text_def looks_like_hex_of_itself_def type_rules_def min_any_def length_to_hex)
qed

lemma damaged_confidence: "recognisable h \<Longrightarrow> dm_confidence (judge pick leases (written_as_text h)) = Damaged"
  by (auto simp: recognisable_def judge_def written_as_text_def Let_def split: option.splits)

lemma repaired_written: "repaired (written_as_text h) = h"
  by (cases h) (simp add: repaired_def written_as_text_def option.map_comp comp_def option.map_ident)

text \<open>
  C13. A repair without a list undoes the damage: take a table of hosts in which no identifier looks like
  hex, write any of its hardware addresses (6, 8 or 20 bytes) and DUIDs as the text of their hex, as the old
  export did, and let the server accept every update; the repair gives back the original table.
\<close>
theorem repair_undoes_damage:
  assumes "distinct (map ht_id hosts)"
    and "\<forall>h \<in> set hosts. bad h \<longrightarrow> recognisable h"
    and "\<forall>h \<in> set hosts. \<not> bad h \<longrightarrow> \<not> looks_like_hex_of_itself (ht_ident h) (ht_type h)"
  shows "fst (repair (\<lambda>hs d. False) pick None
      \<lparr>db_hosts = Some (map (\<lambda>h. if bad h then written_as_text h else h) hosts), db_leases = leases, db_options = opts\<rparr>) =
    \<lparr>db_hosts = Some hosts, db_leases = leases, db_options = opts\<rparr>"
proof -
  let ?after = "map (\<lambda>h. if bad h then written_as_text h else h) hosts"
  let ?db = "\<lparr>db_hosts = Some ?after, db_leases = leases, db_options = opts\<rparr>"
  have id: "ht_id (written_as_text h) = ht_id h" for h
    by (simp add: written_as_text_def)
  have ids: "distinct (map ht_id ?after)"
    using assms(1) by (simp add: comp_def if_distrib id cong: if_cong)
  have here: "db_hosts ?db = Some ?after" by simp
  obtain dn where dn: "set dn \<subseteq> set (suspects ?after)"
      "\<forall>h \<in> set (suspects ?after). may_repair pick leases None h \<longrightarrow> h \<in> set dn"
      "fst (repair (\<lambda>hs d. False) pick None ?db) = ?db\<lparr>db_hosts := Some (map (\<lambda>g. if g \<in> set dn then repaired g else g) ?after)\<rparr>"
    by (rule repair_result [OF here ids, of pick None "\<lambda>hs d. False"]) simp
  have "(if g \<in> set dn then repaired g else g) = h"
    if h: "h \<in> set hosts" and g: "g = (if bad h then written_as_text h else h)" for g h
  proof (cases "bad h")
    case True
    then have "g = written_as_text h" "recognisable h" "g \<in> set ?after" using assms(2) h g by auto
    then have "g \<in> set (suspects ?after)" "may_repair pick leases None g"
      using damaged_looks damaged_confidence by (auto simp: set_suspects may_repair_def)
    then show ?thesis using dn(2) \<open>g = written_as_text h\<close> repaired_written by auto
  next
    case False
    then have "g \<notin> set dn" using dn(1) assms(3) h g by (auto simp: set_suspects)
    then show ?thesis using False g by simp
  qed
  then have "map (\<lambda>g. if g \<in> set dn then repaired g else g) ?after = hosts"
    by (simp add: comp_def) (rule map_idI, simp)
  then show ?thesis using dn(3) by simp
qed

text \<open>
  The lease that proves a client sends its hardware address as text does not protect its reservation:
  such a lease also carries the hardware address itself, which counts as evidence of the damage, so the
  row is ambiguous, not legitimate, and a repair that names it rewrites the correct identifier.
\<close>
theorem text_client_rewritten:
  assumes "ht_type h = 3" and "ht_ident h = Some s" and "length s = 12" and "list_all is_hex s"
    and "ls_client_id l = Some s" and "ls_hwaddr l = Some (unhex s)" and "pick [l] = [l]"
  shows "dm_confidence (judge pick (Some [l]) h) = Ambiguous \<and>
    fst (repair (\<lambda>hs d. False) pick (Some [ht_id h]) \<lparr>db_hosts = Some [h], db_leases = Some [l], db_options = opts\<rparr>) =
      \<lparr>db_hosts = Some [h\<lparr>ht_ident := Some (unhex s)\<rparr>], db_leases = Some [l], db_options = opts\<rparr>"
proof -
  have len: "length (unhex s) = 6"
    using from_hex_ok [of s] assms(3,4) by (auto simp: unhex_def list_all_iff)
  have looks: "looks_like_hex_of_itself (Some s) 3"
    using assms(3,4) by (auto simp: looks_like_hex_of_itself_def type_rules_def min_any_def ascii_hex_def)
  have amb: "dm_confidence (judge pick (Some [l]) h) = Ambiguous"
    using assms len by (simp add: judge_def text_or_empty_def lease_evidence_def bears_on_def matches_of_def classify_client_id_def Let_def)
  let ?db = "\<lparr>db_hosts = Some [h], db_leases = Some [l], db_options = opts\<rparr>"
  have hosts: "db_hosts ?db = Some [h]" "distinct (map ht_id [h])" by simp_all
  have sus: "set (suspects [h]) = {h}" using looks assms(1,2) by (auto simp: set_suspects)
  have may: "may_repair pick (Some [l]) (Some [ht_id h]) h"
    using looks amb assms(1,2) by (simp add: may_repair_def)
  obtain dn where dn: "h \<in> set dn"
    "fst (repair (\<lambda>hs d. False) pick (Some [ht_id h]) ?db) = ?db\<lparr>db_hosts := Some (map (\<lambda>g. if g \<in> set dn then repaired g else g) [h])\<rparr>"
    by (rule repair_result [OF hosts, of pick "Some [ht_id h]" "\<lambda>hs d. False"]) (use sus may in simp)
  then show ?thesis using amb assms(2) by (simp add: repaired_def)
qed

section \<open>Witnesses\<close>

definition demo_host :: "nat \<Rightarrow> nat \<Rightarrow> string \<Rightarrow> host_row" where
  "demo_host i t b = \<lparr>ht_id = i, ht_ident = Some b, ht_type = t, ht_ipv4 = None, ht_hostname = None, ht_subnet = Some 1\<rparr>"

definition demo_mac :: string where
  "demo_mac = map char_of [52, 19, 67, 230, 14, 42 :: nat]"

lemma repair_changes_only_confirmed_witness:
  "\<exists>hosts'. fst (repair (\<lambda>hs d. False) (\<lambda>ls. ls) None
      \<lparr>db_hosts = Some [demo_host 1 0 (to_hex demo_mac)], db_leases = None, db_options = None\<rparr>) =
    \<lparr>db_hosts = Some hosts', db_leases = None, db_options = None\<rparr> \<and> length hosts' = 1"
  using repair_changes_only_confirmed [of "\<lparr>db_hosts = Some [demo_host 1 0 (to_hex demo_mac)], db_leases = None, db_options = None\<rparr>"
      "[demo_host 1 0 (to_hex demo_mac)]" "\<lambda>hs d. False" "\<lambda>ls. ls" None]
  by (auto simp: list_all2_Cons1)

lemma repair_undoes_damage_witness:
  "fst (repair (\<lambda>hs d. False) (\<lambda>ls. ls) None
      \<lparr>db_hosts = Some [written_as_text (demo_host 1 0 demo_mac), demo_host 2 4 ''aabbccddeeff''], db_leases = None, db_options = None\<rparr>) =
    \<lparr>db_hosts = Some [demo_host 1 0 demo_mac, demo_host 2 4 ''aabbccddeeff''], db_leases = None, db_options = None\<rparr>"
  using repair_undoes_damage [of "[demo_host 1 0 demo_mac, demo_host 2 4 ''aabbccddeeff'']" "\<lambda>h. ht_id h = 1" "\<lambda>ls. ls" None None]
  by (simp add: demo_host_def recognisable_def demo_mac_def looks_like_hex_of_itself_def type_rules_def)

lemma text_client_rewritten_witness:
  "fst (repair (\<lambda>hs d. False) (\<lambda>ls. ls) (Some [7])
      \<lparr>db_hosts = Some [demo_host 7 3 (to_hex demo_mac)],
       db_leases = Some [\<lparr>ls_address = Some 1, ls_client_id = Some (to_hex demo_mac), ls_hwaddr = Some demo_mac\<rparr>], db_options = None\<rparr>) =
    \<lparr>db_hosts = Some [demo_host 7 3 demo_mac],
     db_leases = Some [\<lparr>ls_address = Some 1, ls_client_id = Some (to_hex demo_mac), ls_hwaddr = Some demo_mac\<rparr>], db_options = None\<rparr>"
  using text_client_rewritten [of "demo_host 7 3 (to_hex demo_mac)" "to_hex demo_mac"
      "\<lparr>ls_address = Some 1, ls_client_id = Some (to_hex demo_mac), ls_hwaddr = Some demo_mac\<rparr>" "\<lambda>ls. ls" None]
  by (simp add: demo_host_def length_to_hex list_all_iff to_hex_hex) (simp add: demo_mac_def)

end
