(* ===== verification/ChangeSet.thy ===== *)
theory ChangeSet
  imports PyConv
begin

text \<open>
  \<open>jen/services/kea_changeset.py\<close>: pushing one change of a Kea configuration to every server - plan,
  preflight, commit, restart, finalize - and putting everything back when a later step fails.

  What the module calls on the hosts (\<open>kea_host\<close>, \<open>kea_api_config\<close>, \<open>investigation_logging\<close>) is a record
  of functions over a state \<open>'w\<close> of the outside world: reads only look at it, writes return it changed
  together with their answer. An answer is what \<open>_safe\<close> makes of the call, so a call that raises is an
  answer that is not ok. The lines shown to the operator keep their kind and what they are about. The
  flag \<open>helper_only\<close> and the summary are passed through to the calls and are not part of the model.
\<close>

section \<open>Servers and transports\<close>

datatype transport = TrApi | TrFile | TrOff

datatype service = Dhcp4 | Dhcp6 | D2

text \<open>What identifies a target in the bookkeeping: the id, or the name of a server without one.\<close>

datatype key = KeyId int | KeyName string | KeyNone

record server =
  sv_id :: "int option"
  sv_name :: string
  sv_ssh_host :: string
  sv_config_transport :: "string option"

definition show_id :: "int option \<Rightarrow> string" where
  "show_id i = (case i of Some n \<Rightarrow> show_int n | None \<Rightarrow> ''None'')"

definition server_name :: "server \<Rightarrow> string" where
  "server_name s =
     (if sv_name s \<noteq> [] then sv_name s else if sv_ssh_host s \<noteq> [] then sv_ssh_host s
      else ''Server '' @ show_id (sv_id s))"

definition declared_transport :: "server \<Rightarrow> transport" where
  "declared_transport s =
     (case sv_config_transport s of
        None \<Rightarrow> (if sv_ssh_host s \<noteq> [] then TrFile else TrOff)
      | Some raw \<Rightarrow>
          if strip raw = [] then (if sv_ssh_host s \<noteq> [] then TrFile else TrOff)
          else if strip raw = ''api'' then TrApi
          else if strip raw = ''file'' then TrFile
          else TrOff)"

definition transport_of :: "server \<Rightarrow> service \<Rightarrow> transport" where
  "transport_of s service =
     (if declared_transport s = TrOff then TrOff
      else if service \<noteq> Dhcp4 then (if sv_ssh_host s \<noteq> [] then TrFile else TrOff)
      else if declared_transport s = TrFile then (if sv_ssh_host s \<noteq> [] then TrFile else TrOff)
      else TrApi)"

definition first_write_target :: "server list \<Rightarrow> service \<Rightarrow> server option" where
  "first_write_target servers service = find (\<lambda>s. transport_of s service \<noteq> TrOff) servers"

text \<open>\<open>transport="file"\<close> of a caller forces the file path.\<close>

definition transport_for_run :: "server \<Rightarrow> service \<Rightarrow> bool \<Rightarrow> transport" where
  "transport_for_run s service force_file =
     (if force_file
      then (if declared_transport s \<noteq> TrOff \<and> sv_ssh_host s \<noteq> [] then TrFile else TrOff)
      else transport_of s service)"

section \<open>Targets, answers, results\<close>

text \<open>\<open>tg_no\<close> is the identity of the \<open>Target\<close> object: its place among the planned servers.\<close>

record target =
  tg_no :: nat
  tg_server :: server
  tg_before :: "json option"
  tg_before_sha :: "string option"
  tg_after :: json
  tg_applied_sha :: "string option"
  tg_allow_overwrite :: bool
  tg_tls :: "string list"
  tg_transport :: transport
  tg_planned_sha :: "string option"

definition server_key :: "server \<Rightarrow> key" where
  "server_key s = (case sv_id s of Some i \<Rightarrow> KeyId i | None \<Rightarrow> KeyName (server_name s))"

definition tg_key :: "target \<Rightarrow> key" where
  "tg_key t = server_key (tg_server t)"

definition tg_name :: "target \<Rightarrow> string" where
  "tg_name t = server_name (tg_server t)"

definition id_key :: "server \<Rightarrow> key" where
  "id_key s = (case sv_id s of Some i \<Rightarrow> KeyId i | None \<Rightarrow> KeyNone)"

record answer =
  an_ok :: bool
  an_code :: string
  an_sha :: "string option"
  an_needs_hands :: bool

datatype status = StOk | StNothing | StNoServers | StAborted | StRolledBack | StRollbackFailed

datatype line =
    LnReadOnly string
  | LnWaited
  | LnBusy
  | LnRefused string string             \<comment> \<open>server, why it was refused at the plan\<close>
  | LnNote string string
  | LnSkipped string string
  | LnConflict string
  | LnFailure string string
  | LnNothingChanged
  | LnRestartStuck string
  | LnRollbackFailed "string list" "string list" string bool
  | LnByHand "string list"
  | LnReverted "string list"
  | LnNoRestart string
  | LnNotPutBack string
  | LnRolledBack "string list"
  | LnFinalizeFailed
  | LnDone string bool

record result =
  rs_status :: status
  rs_code :: string
  rs_lines :: "line list"
  rs_restart_failures :: "string list"
  rs_needs :: "string list"
  rs_covered :: "string list"
  rs_needs_ids :: "key list"
  rs_covered_ids :: "key list"
  rs_still_new :: "key list"

definition outcome :: "status \<Rightarrow> string \<Rightarrow> line list \<Rightarrow> result" where
  "outcome st code lines =
     \<lparr>rs_status = st, rs_code = code, rs_lines = lines, rs_restart_failures = [], rs_needs = [], rs_covered = [],
      rs_needs_ids = [], rs_covered_ids = [], rs_still_new = []\<rparr>"

definition not_applied :: "status list" where
  "not_applied = [StAborted, StRolledBack, StRollbackFailed]"

section \<open>What is called on the hosts\<close>

text \<open>
  \<open>read_file\<close> and \<open>read_api\<close> give the configuration, its sha and the errors (or notes) they appended. The
  gates of an api target answer with the sentence of a refusal; \<open>probe_gate\<close> also whether the refusal is a
  remembered one.
\<close>

record 'w calls =
  read_file :: "'w \<Rightarrow> server \<Rightarrow> json option \<times> string option \<times> string list"
  read_api :: "'w \<Rightarrow> server \<Rightarrow> json option \<times> string option \<times> string list \<times> string list"
  probe_gate :: "'w \<Rightarrow> server \<Rightarrow> (string \<times> bool) option"
  restore_window :: "'w \<Rightarrow> server \<Rightarrow> string option"
  record_unreadable :: "'w \<Rightarrow> server \<Rightarrow> string option"
  pending_block :: "'w \<Rightarrow> server \<Rightarrow> string option"
  file_proof :: "'w \<Rightarrow> server \<Rightarrow> string option \<times> string option"
  api_test :: "'w \<Rightarrow> server \<Rightarrow> json \<Rightarrow> answer"
  file_test :: "'w \<Rightarrow> server \<Rightarrow> json \<Rightarrow> string list \<Rightarrow> answer"
  api_apply :: "target \<Rightarrow> 'w \<Rightarrow> 'w \<times> answer"
  file_apply :: "server \<Rightarrow> json \<Rightarrow> string list \<Rightarrow> bool \<Rightarrow> string option \<Rightarrow> 'w \<Rightarrow> 'w \<times> answer"
  api_revert :: "target \<Rightarrow> 'w \<Rightarrow> 'w \<times> answer"
  remove_file :: "server \<Rightarrow> string option \<Rightarrow> 'w \<Rightarrow> 'w \<times> answer"
  restart_daemon :: "server \<Rightarrow> 'w \<Rightarrow> 'w \<times> answer"
  record_daemon :: "server \<Rightarrow> 'w \<Rightarrow> 'w"

text \<open>The arguments of a change. \<open>mutate\<close> may raise, and so may \<open>finalize\<close> (its flag).\<close>

record 'w change =
  ch_service :: service
  ch_mutate :: "json option \<Rightarrow> (json \<times> string) res"
  ch_candidate_for :: "(server \<Rightarrow> json option \<Rightarrow> (json \<times> string) res) option"
  ch_expected_sha_for :: "(server \<Rightarrow> string option) option"
  ch_restart :: bool
  ch_skip_codes :: "string list"
  ch_tls_for :: "server \<Rightarrow> string list"
  ch_absent_is_expected :: bool
  ch_finalize :: "('w \<Rightarrow> 'w \<times> bool) option"
  ch_force_file :: bool

section \<open>Phase 1: plan\<close>

definition unloaded_edit :: "'w calls \<Rightarrow> 'w change \<Rightarrow> 'w \<Rightarrow> server \<Rightarrow> string option \<times> string option" where
  "unloaded_edit cs ch w s =
     (if sv_ssh_host s = [] \<or> ch_service ch \<noteq> Dhcp4 then (None, None)
      else (case file_proof cs w s of
              (Some why, sha) \<Rightarrow> (Some why, None)
            | (None, sha) \<Rightarrow> (None, sha)))"

text \<open>Reading an api target: its configuration, sha, the proved file's sha and the new lines, or the abort.\<close>

definition plan_api ::
  "'w calls \<Rightarrow> 'w change \<Rightarrow> 'w \<Rightarrow> server \<Rightarrow> line list \<Rightarrow>
     result + (json \<times> string option \<times> string option \<times> line list)" where
  "plan_api cs ch w s lines =
     (let name = server_name s in
      case probe_gate cs w s of
        Some (why, refused) \<Rightarrow>
          Inl (if refused
               then (outcome StAborted ''needs-hands'' (lines @ [LnRefused name why]))
                      \<lparr>rs_needs := [name], rs_needs_ids := [id_key s]\<rparr>
               else outcome StAborted ''needs-probe'' (lines @ [LnRefused name why]))
      | None \<Rightarrow>
      case (if ch_service ch = Dhcp4 then restore_window cs w s else None) of
        Some why \<Rightarrow> Inl (outcome StAborted ''investigation-on'' (lines @ [LnRefused name why]))
      | None \<Rightarrow>
      case read_api cs w s of (cfg, sha, notes, errors) \<Rightarrow>
      let lines = lines @ map (LnNote name) notes in
      case cfg of
        None \<Rightarrow>
          Inl (outcome StAborted ''error''
                 (lines @ [LnRefused name (if errors \<noteq> [] then hd errors else ''the daemon did not answer'')]))
      | Some c \<Rightarrow>
      case record_unreadable cs w s of
        Some why \<Rightarrow> Inl (outcome StAborted ''unreadable'' (lines @ [LnRefused name why]))
      | None \<Rightarrow>
      case pending_block cs w s of
        Some why \<Rightarrow>
          Inl ((outcome StAborted ''needs-hands'' (lines @ [LnRefused name why]))
                 \<lparr>rs_needs := [name], rs_needs_ids := [id_key s]\<rparr>)
      | None \<Rightarrow>
      case unloaded_edit cs ch w s of
        (Some why, p) \<Rightarrow> Inl (outcome StAborted ''error'' (lines @ [LnRefused name why]))
      | (None, p) \<Rightarrow> Inr (c, sha, p, lines))"

text \<open>Reading a file target: an absent file is a target only when the caller expects it.\<close>

definition plan_file ::
  "'w calls \<Rightarrow> 'w change \<Rightarrow> 'w \<Rightarrow> server \<Rightarrow> line list \<Rightarrow> result + (json option \<times> string option)" where
  "plan_file cs ch w s lines =
     (case read_file cs w s of (cfg, sha, errors) \<Rightarrow>
       case cfg of
         Some c \<Rightarrow> Inr (Some c, sha)
       | None \<Rightarrow>
           if ch_absent_is_expected ch \<and> errors = [] then Inr (None, Some [])
           else if ch_absent_is_expected ch
                then Inl (outcome StAborted ''error'' (lines @ [LnRefused (server_name s) (hd errors)]))
                else Inl (outcome StAborted ''notfound-conf'' (lines @ [LnRefused (server_name s) ''not found'']))
     )"

definition read_target ::
  "'w calls \<Rightarrow> 'w change \<Rightarrow> 'w \<Rightarrow> server \<Rightarrow> transport \<Rightarrow> line list \<Rightarrow>
     result + (json option \<times> string option \<times> string option \<times> line list)" where
  "read_target cs ch w s kind lines =
     (if kind = TrApi
      then (case plan_api cs ch w s lines of
              Inl r \<Rightarrow> Inl r
            | Inr (c, sha, p, ls) \<Rightarrow> Inr (Some c, sha, p, ls))
      else (case plan_file cs ch w s lines of
              Inl r \<Rightarrow> Inl r
            | Inr (c, sha) \<Rightarrow> Inr (c, sha, None, lines)))"

text \<open>The sha a write is guarded with: the caller's, or what was just read (always, for a blank api one).\<close>

definition expected_sha :: "'w change \<Rightarrow> server \<Rightarrow> transport \<Rightarrow> string option \<Rightarrow> string option" where
  "expected_sha ch s kind sha =
     (let e = (case ch_expected_sha_for ch of Some f \<Rightarrow> f s | None \<Rightarrow> sha)
      in if kind = TrApi \<and> (e = None \<or> e = Some []) then sha else e)"

definition mutate_for :: "'w change \<Rightarrow> server \<Rightarrow> json option \<Rightarrow> (json \<times> string) res" where
  "mutate_for ch s cfg = (case ch_candidate_for ch of Some f \<Rightarrow> f s cfg | None \<Rightarrow> ch_mutate ch cfg)"

definition new_target ::
  "'w change \<Rightarrow> nat \<Rightarrow> server \<Rightarrow> transport \<Rightarrow> json option \<Rightarrow> string option \<Rightarrow> string option \<Rightarrow> json \<Rightarrow> target" where
  "new_target ch no s kind cfg sha planned after =
     \<lparr>tg_no = no, tg_server = s, tg_before = cfg, tg_before_sha = expected_sha ch s kind sha, tg_after = after,
      tg_applied_sha = None, tg_allow_overwrite = (cfg \<noteq> None),
      tg_tls = (if kind = TrApi then [] else ch_tls_for ch s), tg_transport = kind,
      tg_planned_sha = (if kind = TrApi then planned else None)\<rparr>"

fun plan ::
  "'w calls \<Rightarrow> 'w change \<Rightarrow> 'w \<Rightarrow> nat \<Rightarrow> (server \<times> transport) list \<Rightarrow> line list \<Rightarrow> string \<Rightarrow>
     result + (target list \<times> line list \<times> string)" where
  "plan cs ch w no [] lines code = Inr ([], lines, code)"
| "plan cs ch w no ((s, kind) # rest) lines code =
     (case read_target cs ch w s kind lines of
        Inl r \<Rightarrow> Inl r
      | Inr (cfg, sha, planned, ls) \<Rightarrow>
      case mutate_for ch s cfg of
        Inl e \<Rightarrow> Inl (outcome StAborted ''error'' (ls @ [LnRefused (server_name s) ''raised'']))
      | Inr (after, c) \<Rightarrow>
          if c = ''ok'' then
            (case plan cs ch w (Suc no) rest ls c of
               Inl r \<Rightarrow> Inl r
             | Inr (ts, ls', code') \<Rightarrow> Inr (new_target ch no s kind cfg sha planned after # ts, ls', code'))
          else if c \<in> set (ch_skip_codes ch) then plan cs ch w (Suc no) rest (ls @ [LnSkipped (server_name s) c]) c
          else Inl (outcome StAborted c (ls @ [LnRefused (server_name s) c])))"

section \<open>Phase 2: preflight\<close>

definition preflight_line :: "target \<Rightarrow> answer \<Rightarrow> line" where
  "preflight_line t a = (if an_code a = ''conflict'' then LnConflict (tg_name t) else LnFailure (tg_name t) (an_code a))"

definition test_target :: "'w calls \<Rightarrow> 'w \<Rightarrow> target \<Rightarrow> answer" where
  "test_target cs w t =
     (if tg_transport t = TrApi then api_test cs w (tg_server t) (tg_after t)
      else file_test cs w (tg_server t) (tg_after t) (tg_tls t))"

definition preflight_lines :: "'w calls \<Rightarrow> 'w \<Rightarrow> target list \<Rightarrow> line list" where
  "preflight_lines cs w ts =
     map (\<lambda>t. preflight_line t (test_target cs w t)) (filter (\<lambda>t. \<not> an_ok (test_target cs w t)) ts)"

section \<open>Phase 3: commit\<close>

definition commit_order :: "target list \<Rightarrow> target list" where
  "commit_order ts = filter (\<lambda>t. tg_transport t \<noteq> TrApi) ts @ filter (\<lambda>t. tg_transport t = TrApi) ts"

definition apply_target :: "'w calls \<Rightarrow> target \<Rightarrow> 'w \<Rightarrow> 'w \<times> answer" where
  "apply_target cs t w =
     (if tg_transport t = TrApi then api_apply cs t w
      else file_apply cs (tg_server t) (tg_after t) (tg_tls t) (tg_allow_overwrite t) (tg_before_sha t) w)"

text \<open>Commits until the first failure: the world, what was committed, and the failed target with its answer.\<close>

fun commit ::
  "'w calls \<Rightarrow> target list \<Rightarrow> target list \<Rightarrow> 'w \<Rightarrow> 'w \<times> target list \<times> (target \<times> answer) option" where
  "commit cs [] committed w = (w, committed, None)"
| "commit cs (t # ts) committed w =
     (case apply_target cs t w of (w', a) \<Rightarrow>
        if an_ok a then commit cs ts (committed @ [t\<lparr>tg_applied_sha := an_sha a\<rparr>]) w'
        else (w', committed, Some (t, a)))"

text \<open>\<open>_restore_target\<close>.\<close>

definition restore_target :: "'w calls \<Rightarrow> target \<Rightarrow> 'w \<Rightarrow> 'w \<times> answer" where
  "restore_target cs t w =
     (if tg_transport t = TrApi then api_revert cs t w
      else (case tg_before t of
              None \<Rightarrow> remove_file cs (tg_server t) (tg_applied_sha t) w
            | Some c \<Rightarrow> file_apply cs (tg_server t) c [] True (tg_applied_sha t) w))"

text \<open>
  Reverting the committed targets: which reverts failed, and which daemons did not restart on the previous
  configuration. Both loops of the module that put targets back do this.
\<close>

fun revert_all ::
  "'w calls \<Rightarrow> bool \<Rightarrow> target list \<Rightarrow> 'w \<Rightarrow> 'w \<times> target list \<times> target list" where
  "revert_all cs restart [] w = (w, [], [])"
| "revert_all cs restart (t # ts) w =
     (case restore_target cs t w of (w1, a) \<Rightarrow>
        if \<not> an_ok a then
          (case revert_all cs restart ts w1 of (w2, failed, stuck) \<Rightarrow> (w2, t # failed, stuck))
        else if restart \<and> tg_transport t = TrFile then
          (case restart_daemon cs (tg_server t) w1 of (w2, b) \<Rightarrow>
           case revert_all cs restart ts w2 of (w3, failed, stuck) \<Rightarrow>
             (w3, failed, if an_ok b then stuck else t # stuck))
        else revert_all cs restart ts w1)"

definition commit_failed ::
  "'w calls \<Rightarrow> 'w change \<Rightarrow> target list \<Rightarrow> target \<Rightarrow> answer \<Rightarrow> line list \<Rightarrow> 'w \<Rightarrow> 'w \<times> result" where
  "commit_failed cs ch committed t a lines w =
     (let lines = lines @ [preflight_line t a]
      in case revert_all cs (ch_restart ch) (rev committed) w of (w', revert_failed, restart_stuck) \<Rightarrow>
         let lines = lines @ map (\<lambda>d. LnRestartStuck (tg_name d)) restart_stuck;
             unproved = (if an_needs_hands a then [t] else []);
             needs = revert_failed @ restart_stuck @ unproved
         in if needs \<noteq> [] then
              (w', (outcome StRollbackFailed (an_code a)
                     (lines @
                      (if revert_failed \<noteq> []
                       then [LnRollbackFailed (map tg_name revert_failed)
                              (map tg_name (filter (\<lambda>d. tg_key d \<notin> set (map tg_key revert_failed)) committed))
                              (tg_name t) (unproved \<noteq> [])] else []) @
                      (if restart_stuck \<noteq> [] then [LnByHand (map tg_name restart_stuck)] else []) @
                      (if unproved \<noteq> [] then [LnByHand (map tg_name unproved)] else [])))
                    \<lparr>rs_needs := map tg_name needs, rs_needs_ids := map tg_key needs,
                     rs_still_new := map tg_key revert_failed\<rparr>)
            else
              (w', outcome StAborted (an_code a)
                     (lines @ (if committed \<noteq> [] then [LnReverted (map tg_name committed)] else []))))"

section \<open>Phases 4 and 5: restart and finalize\<close>

fun restart_all :: "'w calls \<Rightarrow> target list \<Rightarrow> 'w \<Rightarrow> 'w \<times> (key \<times> bool) list" where
  "restart_all cs [] w = (w, [])"
| "restart_all cs (t # ts) w =
     (case restart_daemon cs (tg_server t) w of (w1, a) \<Rightarrow>
      case restart_all cs ts w1 of (w2, oks) \<Rightarrow> (w2, (tg_key t, an_ok a) # oks))"

text \<open>The dict of the answers by key: the last answer of a key stands.\<close>

definition restarted :: "(key \<times> bool) list \<Rightarrow> target \<Rightarrow> bool" where
  "restarted oks t = (map_of (rev oks) (tg_key t) = Some True)"

text \<open>The answer when every target was put back after a failed restart or finalize.\<close>

definition put_back ::
  "'w calls \<Rightarrow> bool \<Rightarrow> target list \<Rightarrow> string \<Rightarrow> line list \<Rightarrow> string list \<Rightarrow> string list \<Rightarrow> 'w \<Rightarrow> 'w \<times> result" where
  "put_back cs restart targets code lines failed_names done_names w =
     (case revert_all cs restart (rev targets) w of (w', revert_failed, restart_stuck) \<Rightarrow>
        let stuck = filter (\<lambda>t. t \<in> set revert_failed \<or> t \<in> set restart_stuck) (rev targets);
            lines = lines @ map (\<lambda>t. if t \<in> set revert_failed then LnNotPutBack (tg_name t) else LnRestartStuck (tg_name t)) stuck
        in if stuck \<noteq> [] then
             (w', (outcome StRollbackFailed code (lines @ [LnByHand (map tg_name stuck)]))
                    \<lparr>rs_restart_failures := failed_names, rs_needs := map tg_name stuck, rs_needs_ids := map tg_key stuck,
                     rs_still_new := map tg_key (filter (\<lambda>t. t \<in> set revert_failed) stuck)\<rparr>)
           else
             (w', (outcome StRolledBack code (lines @ [LnRolledBack (map tg_name targets)]))
                    \<lparr>rs_restart_failures := done_names\<rparr>))"

fun record_daemons :: "'w calls \<Rightarrow> bool \<Rightarrow> target list \<Rightarrow> 'w \<Rightarrow> 'w" where
  "record_daemons cs restart [] w = w"
| "record_daemons cs restart (t # ts) w =
     record_daemons cs restart ts
       (if tg_transport t \<noteq> TrApi \<and> declared_transport (tg_server t) = TrApi \<and> restart
        then record_daemon cs (tg_server t) w else w)"

definition change_stands :: "'w calls \<Rightarrow> 'w change \<Rightarrow> target list \<Rightarrow> line list \<Rightarrow> 'w \<Rightarrow> 'w \<times> result" where
  "change_stands cs ch targets lines w =
     (record_daemons cs (ch_restart ch) targets w,
      (outcome StOk ''ok'' (lines @ map (\<lambda>t. LnDone (tg_name t) (tg_transport t \<noteq> TrApi \<and> ch_restart ch)) targets))
        \<lparr>rs_covered := map tg_name targets, rs_covered_ids := map tg_key targets\<rparr>)"

definition finalize_change :: "'w calls \<Rightarrow> 'w change \<Rightarrow> target list \<Rightarrow> line list \<Rightarrow> 'w \<Rightarrow> 'w \<times> result" where
  "finalize_change cs ch targets lines w =
     (case ch_finalize ch of
        None \<Rightarrow> change_stands cs ch targets lines w
      | Some f \<Rightarrow>
          (case f w of (w', raised) \<Rightarrow>
             if raised
             then put_back cs (ch_restart ch) targets ''finalize-failed'' (lines @ [LnFinalizeFailed]) [] (map tg_name targets) w'
             else change_stands cs ch targets lines w'))"

definition restart_change :: "'w calls \<Rightarrow> 'w change \<Rightarrow> target list \<Rightarrow> line list \<Rightarrow> 'w \<Rightarrow> 'w \<times> result" where
  "restart_change cs ch targets lines w =
     (let restartable = filter (\<lambda>t. tg_transport t = TrFile) targets
      in if ch_restart ch \<and> restartable \<noteq> [] then
           (case restart_all cs restartable w of (w', oks) \<Rightarrow>
              let failed = filter (\<lambda>t. \<not> restarted oks t) restartable
              in if failed \<noteq> []
                 then put_back cs True targets ''restart-failed'' (lines @ map (\<lambda>t. LnNoRestart (tg_name t)) failed)
                        (map tg_name failed) (map tg_name failed) w'
                 else finalize_change cs ch targets lines w')
         else finalize_change cs ch targets lines w)"

section \<open>The whole change\<close>

text \<open>The targets in planned order, with the sha their write reported.\<close>

definition with_applied :: "target list \<Rightarrow> target list \<Rightarrow> target list" where
  "with_applied committed ts =
     map (\<lambda>t. case find (\<lambda>c. tg_no c = tg_no t) committed of Some c \<Rightarrow> c | None \<Rightarrow> t) ts"

definition planned_servers :: "'w change \<Rightarrow> server list \<Rightarrow> (server \<times> transport) list" where
  "planned_servers ch servers =
     filter (\<lambda>(s, k). k \<noteq> TrOff) (map (\<lambda>s. (s, transport_for_run s (ch_service ch) (ch_force_file ch))) servers)"

definition read_only_lines :: "'w change \<Rightarrow> server list \<Rightarrow> line list" where
  "read_only_lines ch servers =
     map (\<lambda>s. LnReadOnly (if sv_name s \<noteq> [] then sv_name s else if sv_ssh_host s \<noteq> [] then sv_ssh_host s else ''?''))
       (filter (\<lambda>s. transport_for_run s (ch_service ch) (ch_force_file ch) = TrOff \<and>
                    map_option strip (sv_config_transport s) = Some ''off'') servers)"

definition run_change :: "'w calls \<Rightarrow> 'w change \<Rightarrow> server list \<Rightarrow> bool \<Rightarrow> 'w \<Rightarrow> 'w \<times> result" where
  "run_change cs ch servers waited w =
     (let planned = planned_servers ch servers;
          lines = read_only_lines ch servers
      in if planned = [] then (w, outcome StNoServers ''noservers'' lines)
         else
           (case plan cs ch w 0 planned ((if waited then [LnWaited] else []) @ lines) ''ok'' of
              Inl r \<Rightarrow> (w, r)
            | Inr (targets, lines, code) \<Rightarrow>
                if targets = [] then (w, outcome StNothing code lines)
                else if preflight_lines cs w targets \<noteq> []
                     then (w, outcome StAborted ''testerror'' (lines @ preflight_lines cs w targets @ [LnNothingChanged]))
                else
                  (case commit cs (commit_order targets) [] w of
                     (w', committed, Some (t, a)) \<Rightarrow> commit_failed cs ch committed t a lines w'
                   | (w', committed, None) \<Rightarrow> restart_change cs ch (with_applied committed targets) lines w')))"

end
