(* ===== verification/ChangeSetProps.thy ===== *)
theory ChangeSetProps
  imports ChangeSet
begin

text \<open>
  A change of several servers is all or nothing (\<open>jen/services/kea_changeset.py\<close>): what the calls on the
  hosts have to promise (\<open>change_hosts\<close>), and what a run then leaves on every server, by its status.
\<close>

lemma distinct_mapD: "distinct (map f xs) \<Longrightarrow> x \<in> set xs \<Longrightarrow> y \<in> set xs \<Longrightarrow> f x = f y \<Longrightarrow> x = y"
  by (meson distinct_map inj_onD)

section \<open>What the calls promise\<close>

text \<open>
  \<open>conf w k\<close> is the configuration of server \<open>k\<close>: \<open>None\<close> when it cannot be read, \<open>Some None\<close> when there is
  no file, else the configuration. A write that answers ok has written, one that does not has written
  nothing, except that an api write with \<open>needs_hands\<close> and a failed revert leave that one server open.
\<close>

locale change_hosts =
  fixes cs :: "'w calls" and conf :: "'w \<Rightarrow> key \<Rightarrow> json option option"
  assumes file_read: "read_file cs w s = (found, sha, errors) \<Longrightarrow> found \<noteq> None \<or> errors = [] \<Longrightarrow> conf w (server_key s) = Some found"
    and api_read: "read_api cs w s = (Some c, sha, notes, errors) \<Longrightarrow> conf w (server_key s) = Some (Some c)"
    and file_written: "file_apply cs s c tls over expect w = (w', a) \<Longrightarrow> an_ok a \<Longrightarrow>
      conf w' = (conf w)(server_key s := Some (Some c))"
    and file_refused: "file_apply cs s c tls over expect w = (w', a) \<Longrightarrow> \<not> an_ok a \<Longrightarrow> conf w' = conf w \<and> \<not> an_needs_hands a"
    and file_removed: "remove_file cs s expect w = (w', a) \<Longrightarrow> an_ok a \<Longrightarrow> conf w' = (conf w)(server_key s := Some None)"
    and remove_refused: "remove_file cs s expect w = (w', a) \<Longrightarrow> \<not> an_ok a \<Longrightarrow> k \<noteq> server_key s \<Longrightarrow> conf w' k = conf w k"
    and api_set: "api_apply cs t w = (w', a) \<Longrightarrow> an_ok a \<Longrightarrow> conf w' = (conf w)(tg_key t := Some (Some (tg_after t)))"
    and api_refused: "api_apply cs t w = (w', a) \<Longrightarrow> \<not> an_ok a \<Longrightarrow> k \<noteq> tg_key t \<or> \<not> an_needs_hands a \<Longrightarrow> conf w' k = conf w k"
    and api_reverted: "api_revert cs t w = (w', a) \<Longrightarrow> an_ok a \<Longrightarrow> conf w' = (conf w)(tg_key t := Some (tg_before t))"
    and revert_refused: "api_revert cs t w = (w', a) \<Longrightarrow> \<not> an_ok a \<Longrightarrow> k \<noteq> tg_key t \<Longrightarrow> conf w' k = conf w k"
    and restart_reads: "conf (fst (restart_daemon cs s w)) = conf w"
    and record_reads: "conf (record_daemon cs s w) = conf w"
begin

lemma apply_ok: "apply_target cs t w = (w', a) \<Longrightarrow> an_ok a \<Longrightarrow> conf w' = (conf w)(tg_key t := Some (Some (tg_after t)))"
  by (auto simp: apply_target_def tg_key_def dest: file_written api_set split: if_splits)

lemma apply_not_ok:
  "apply_target cs t w = (w', a) \<Longrightarrow> \<not> an_ok a \<Longrightarrow> k \<noteq> tg_key t \<or> \<not> an_needs_hands a \<Longrightarrow> conf w' k = conf w k"
  by (auto simp: apply_target_def dest: file_refused api_refused split: if_splits)

lemma restore_ok: "restore_target cs t w = (w', a) \<Longrightarrow> an_ok a \<Longrightarrow> conf w' = (conf w)(tg_key t := Some (tg_before t))"
  by (auto simp: restore_target_def tg_key_def dest: file_written file_removed api_reverted split: if_splits option.splits)

lemma restore_not_ok: "restore_target cs t w = (w', a) \<Longrightarrow> \<not> an_ok a \<Longrightarrow> k \<noteq> tg_key t \<Longrightarrow> conf w' k = conf w k"
  by (auto simp: restore_target_def tg_key_def dest: file_refused remove_refused revert_refused split: if_splits option.splits)

lemma restart_conf: "restart_daemon cs s w = (w', a) \<Longrightarrow> conf w' = conf w"
  using restart_reads [of s w] by simp

lemma restart_all_conf: "restart_all cs ts w = (w', oks) \<Longrightarrow> conf w' = conf w"
  by (induction ts arbitrary: w w' oks) (auto dest: restart_conf split: prod.splits)

lemma record_daemons_conf: "conf (record_daemons cs r ts w) = conf w"
  by (induction ts arbitrary: w) (auto simp: record_reads)

text \<open>Putting targets back: whoever is not among the failed reverts has its previous configuration.\<close>

lemma revert_all_conf:
  assumes "revert_all cs r ts w = (w', failed, stuck)" "distinct (map tg_key ts)"
  shows "set failed \<subseteq> set ts \<and> set stuck \<subseteq> set ts \<and> (\<forall>k. k \<notin> tg_key ` set ts \<longrightarrow> conf w' k = conf w k) \<and>
    (\<forall>t \<in> set ts. t \<notin> set failed \<longrightarrow> conf w' (tg_key t) = Some (tg_before t))"
  using assms
proof (induction ts arbitrary: w w' failed stuck)
  case Nil
  then show ?case by simp
next
  case (Cons t ts)
  obtain w1 a where res: "restore_target cs t w = (w1, a)" by fastforce
  have step: "\<exists>w2 f s. revert_all cs r ts w2 = (w', f, s) \<and> conf w2 = conf w1 \<and>
      ((an_ok a \<and> failed = f \<and> set stuck \<subseteq> insert t (set s)) \<or> (\<not> an_ok a \<and> failed = t # f \<and> stuck = s))"
  proof (cases "an_ok a \<and> r \<and> tg_transport t = TrFile")
    case True
    obtain w2 b where again: "restart_daemon cs (tg_server t) w1 = (w2, b)" by fastforce
    obtain w3 f s where rest: "revert_all cs r ts w2 = (w3, f, s)" by (metis prod_cases3)
    show ?thesis
      using Cons.prems(1) res True again rest restart_conf [OF again] by (intro exI [of _ w2]) (auto split: if_splits)
  next
    case False
    obtain w3 f s where rest: "revert_all cs r ts w1 = (w3, f, s)" by (metis prod_cases3)
    show ?thesis
      using Cons.prems(1) res False rest by (intro exI [of _ w1]) (auto split: if_splits)
  qed
  then obtain w2 f s where rest: "revert_all cs r ts w2 = (w', f, s)" and c2: "conf w2 = conf w1"
    and out: "(an_ok a \<and> failed = f \<and> set stuck \<subseteq> insert t (set s)) \<or> (\<not> an_ok a \<and> failed = t # f \<and> stuck = s)"
    by blast
  note IH = Cons.IH [OF rest]
  have keep: "conf w2 k = conf w k" if "k \<noteq> tg_key t" for k
    using restore_ok [OF res] restore_not_ok [OF res, of k] that c2 by (cases "an_ok a") auto
  have own: "an_ok a \<Longrightarrow> conf w' (tg_key t) = Some (tg_before t)"
    using restore_ok [OF res] c2 IH Cons.prems(2) by auto
  show ?case
    using IH Cons.prems(2) out keep own by auto
qed

text \<open>Committing: the committed targets have the new configuration, the others are as they were.\<close>

lemma commit_conf:
  assumes "commit cs ts done w = (w', committed, f)" "distinct (map tg_key ts)"
  shows "\<exists>us. committed = done @ us \<and> (\<forall>u \<in> set us. \<exists>t \<in> set ts. \<exists>x. u = t\<lparr>tg_applied_sha := x\<rparr>) \<and>
    distinct (map tg_key us) \<and> (f = None \<longrightarrow> map tg_no us = map tg_no ts) \<and>
    (\<forall>u \<in> set us. conf w' (tg_key u) = Some (Some (tg_after u))) \<and>
    (\<forall>k. k \<notin> tg_key ` set us \<longrightarrow> (\<forall>t a. f = Some (t, a) \<longrightarrow> k \<noteq> tg_key t \<or> \<not> an_needs_hands a) \<longrightarrow> conf w' k = conf w k) \<and>
    (\<forall>t a. f = Some (t, a) \<longrightarrow> t \<in> set ts \<and> tg_key t \<notin> tg_key ` set us)"
  using assms
proof (induction ts arbitrary: "done" w)
  case Nil
  then show ?case by simp
next
  case (Cons t ts)
  obtain w1 a where app: "apply_target cs t w = (w1, a)" by fastforce
  show ?case
  proof (cases "an_ok a")
    case False
    then have "w' = w1" "committed = done" "f = Some (t, a)"
      using Cons.prems(1) app by auto
    then show ?thesis
      using apply_not_ok [OF app False] by (intro exI [of _ "[]"]) auto
  next
    case True
    let ?u = "t\<lparr>tg_applied_sha := an_sha a\<rparr>"
    have u: "tg_key ?u = tg_key t" by (simp add: tg_key_def)
    have rest: "commit cs ts (done @ [?u]) w1 = (w', committed, f)"
      using Cons.prems(1) app True by simp
    from Cons.IH [OF rest] Cons.prems(2)
    obtain us where us: "committed = (done @ [?u]) @ us"
        "\<forall>u \<in> set us. \<exists>t \<in> set ts. \<exists>x. u = t\<lparr>tg_applied_sha := x\<rparr>"
        "distinct (map tg_key us)" "f = None \<longrightarrow> map tg_no us = map tg_no ts"
        "\<forall>u \<in> set us. conf w' (tg_key u) = Some (Some (tg_after u))"
        "\<forall>k. k \<notin> tg_key ` set us \<longrightarrow> (\<forall>t a. f = Some (t, a) \<longrightarrow> k \<noteq> tg_key t \<or> \<not> an_needs_hands a) \<longrightarrow> conf w' k = conf w1 k"
        "\<forall>t a. f = Some (t, a) \<longrightarrow> t \<in> set ts \<and> tg_key t \<notin> tg_key ` set us"
      by auto
    have keys: "tg_key ` set us \<subseteq> tg_key ` set ts"
    proof
      fix k assume "k \<in> tg_key ` set us"
      then obtain u t' x where "k = tg_key u" "t' \<in> set ts" "u = t'\<lparr>tg_applied_sha := x\<rparr>"
        using us(2) by blast
      then have "k = tg_key t'" by (simp add: tg_key_def)
      then show "k \<in> tg_key ` set ts" using \<open>t' \<in> set ts\<close> by blast
    qed
    have fresh: "tg_key t \<notin> tg_key ` set us"
      using keys Cons.prems(2) by auto
    have other: "\<forall>t' a'. f = Some (t', a') \<longrightarrow> tg_key t' \<noteq> tg_key t"
    proof (intro allI impI)
      fix t' a' assume "f = Some (t', a')"
      then have "tg_key t' \<in> tg_key ` set ts" using us(7) by blast
      then show "tg_key t' \<noteq> tg_key t" using Cons.prems(2) by auto
    qed
    have c1: "conf w1 = (conf w)(tg_key t := Some (Some (tg_after t)))"
      by (rule apply_ok [OF app True])
    show ?thesis
      by (rule exI [of _ "?u # us"]) (use us fresh other c1 u in auto)
  qed
qed

text \<open>Planned targets: read from their server, changed by the caller's function, one per planned server.\<close>

lemma read_target_conf:
  "read_target cs ch w s kind lines = Inr (c0, sha, planned, ls) \<Longrightarrow> conf w (server_key s) = Some c0"
  by (auto simp: read_target_def plan_file_def plan_api_def Let_def dest!: file_read api_read
      split: if_splits sum.splits option.splits prod.splits)

lemma plan_targets:
  assumes "plan cs ch w no sks lines code = Inr (ts, ls, code')" "distinct (map (server_key \<circ> fst) sks)"
  shows "distinct (map tg_key ts) \<and> distinct (map tg_no ts) \<and> tg_key ` set ts \<subseteq> (server_key \<circ> fst) ` set sks \<and>
    (\<forall>t \<in> set ts. no \<le> tg_no t \<and> tg_server t \<in> fst ` set sks \<and> conf w (tg_key t) = Some (tg_before t) \<and>
       mutate_for ch (tg_server t) (tg_before t) = Inr (tg_after t, ''ok''))"
  using assms
proof (induction sks arbitrary: no lines code ts)
  case Nil
  then show ?case by simp
next
  case (Cons sk sks)
  obtain s kind where sk: "sk = (s, kind)" by fastforce
  obtain c0 sha planned ls0 where rd: "read_target cs ch w s kind lines = Inr (c0, sha, planned, ls0)"
    using Cons.prems(1) by (auto simp: sk split: sum.splits)
  obtain after c where mu: "mutate_for ch s c0 = Inr (after, c)"
    using Cons.prems(1) by (auto simp: sk rd split: sum.splits)
  have dist: "distinct (map (server_key \<circ> fst) sks)" "server_key s \<notin> (server_key \<circ> fst) ` set sks"
    using Cons.prems(2) by (auto simp: sk comp_def)
  show ?case
  proof (cases "c = ''ok''")
    case True
    then obtain ts' where rest: "plan cs ch w (Suc no) sks ls0 c = Inr (ts', ls, code')"
      and ts: "ts = new_target ch no s kind c0 sha planned after # ts'"
      using Cons.prems(1) by (auto simp: sk rd mu split: sum.splits)
    have t: "tg_key (new_target ch no s kind c0 sha planned after) = server_key s"
      "tg_no (new_target ch no s kind c0 sha planned after) = no"
      "tg_server (new_target ch no s kind c0 sha planned after) = s"
      "tg_before (new_target ch no s kind c0 sha planned after) = c0"
      "tg_after (new_target ch no s kind c0 sha planned after) = after"
      by (simp_all add: new_target_def tg_key_def)
    show ?thesis
      using Cons.IH [OF rest dist(1)] dist(2) read_target_conf [OF rd] mu True by (fastforce simp: ts t sk)
  next
    case False
    then obtain ls1 where rest: "plan cs ch w (Suc no) sks ls1 c = Inr (ts, ls, code')"
      using Cons.prems(1) by (auto simp: sk rd mu split: if_splits)
    show ?thesis
      using Cons.IH [OF rest dist(1)] by (fastforce simp: sk)
  qed
qed

end

section \<open>The abstract change\<close>

text \<open>
  What a change may leave behind, with \<open>before\<close> and \<open>after\<close> the configurations of all servers: every covered
  server has its new configuration, or nothing differs, or every difference is on a server the result names.
\<close>

definition all_or_nothing ::
  "'w change \<Rightarrow> server list \<Rightarrow> (key \<Rightarrow> json option option) \<Rightarrow> (key \<Rightarrow> json option option) \<Rightarrow> result \<Rightarrow> bool" where
  "all_or_nothing ch servers before after r =
     (case rs_status r of
        StOk \<Rightarrow>
          (\<forall>k. k \<notin> set (rs_covered_ids r) \<longrightarrow> after k = before k) \<and>
          (\<forall>k \<in> set (rs_covered_ids r). \<exists>s \<in> set servers. \<exists>c0 c.
             server_key s = k \<and> before k = Some c0 \<and> mutate_for ch s c0 = Inr (c, ''ok'') \<and> after k = Some (Some c))
      | StRollbackFailed \<Rightarrow> (\<forall>k. after k \<noteq> before k \<longrightarrow> k \<in> set (rs_needs_ids r))
      | _ \<Rightarrow> after = before)"

lemma planned_keys:
  "distinct (map server_key servers) \<Longrightarrow> distinct (map (server_key \<circ> fst) (planned_servers ch servers))"
  by (simp add: planned_servers_def filter_map comp_def split_beta) (rule distinct_map_filter)

lemma planned_subset: "fst ` set (planned_servers ch servers) \<subseteq> set servers"
  by (auto simp: planned_servers_def)

context change_hosts
begin

lemma stands_conf:
  assumes "change_stands cs ch ts lines w = (w', r)"
  shows "conf w' = conf w \<and> rs_status r = StOk \<and> rs_covered_ids r = map tg_key ts"
  using assms by (auto simp: change_stands_def outcome_def record_daemons_conf)

lemma put_back_conf:
  assumes "put_back cs restart ts code lines f d w = (w', r)" "distinct (map tg_key ts)"
    and "\<forall>k. k \<notin> tg_key ` set ts \<longrightarrow> conf w k = conf w0 k"
    and "\<forall>t \<in> set ts. conf w0 (tg_key t) = Some (tg_before t)"
  shows "(rs_status r = StRolledBack \<and> conf w' = conf w0) \<or>
    (rs_status r = StRollbackFailed \<and> (\<forall>k. conf w' k \<noteq> conf w0 k \<longrightarrow> k \<in> set (rs_needs_ids r)))"
proof -
  obtain w1 failed stuck where rev: "revert_all cs restart (rev ts) w = (w1, failed, stuck)" by (metis prod_cases3)
  have d: "distinct (map tg_key (rev ts))" using assms(2) by (simp add: rev_map [symmetric])
  have undone: "conf w1 k = conf w0 k" if "k \<notin> tg_key ` set failed" for k
    using revert_all_conf [OF rev d] assms(3,4) that by (cases "k \<in> tg_key ` set ts") auto
  have sub: "set failed \<subseteq> set ts" using revert_all_conf [OF rev d] by simp
  let ?stuck = "filter (\<lambda>t. t \<in> set failed \<or> t \<in> set stuck) (rev ts)"
  show ?thesis
  proof (cases "?stuck = []")
    case True
    then have "failed = []" using sub by (cases failed) (auto simp: filter_empty_conv)
    then show ?thesis
      using assms(1) rev True undone by (auto simp: put_back_def Let_def outcome_def)
  next
    case False
    then have r: "w' = w1" "rs_status r = StRollbackFailed" "rs_needs_ids r = map tg_key ?stuck"
      using assms(1) rev by (auto simp: put_back_def Let_def outcome_def)
    have "k \<in> set (rs_needs_ids r)" if "conf w' k \<noteq> conf w0 k" for k
      using undone [of k] that sub r by auto
    then show ?thesis using r(2) by blast
  qed
qed

lemma commit_failed_conf:
  assumes "commit_failed cs ch committed t a lines w = (w', r)" "distinct (map tg_key committed)"
    and "\<forall>u \<in> set committed. conf w0 (tg_key u) = Some (tg_before u)"
    and "\<forall>k. k \<notin> tg_key ` set committed \<longrightarrow> k \<noteq> tg_key t \<or> \<not> an_needs_hands a \<longrightarrow> conf w k = conf w0 k"
  shows "(rs_status r = StAborted \<and> conf w' = conf w0) \<or>
    (rs_status r = StRollbackFailed \<and> (\<forall>k. conf w' k \<noteq> conf w0 k \<longrightarrow> k \<in> set (rs_needs_ids r)))"
proof -
  obtain w1 failed stuck where rev: "revert_all cs (ch_restart ch) (rev committed) w = (w1, failed, stuck)"
    by (metis prod_cases3)
  have d: "distinct (map tg_key (rev committed))" using assms(2) by (simp add: rev_map [symmetric])
  let ?needs = "failed @ stuck @ (if an_needs_hands a then [t] else [])"
  have undone: "conf w1 k = conf w0 k" if "k \<notin> tg_key ` set ?needs" for k
    using revert_all_conf [OF rev d] assms(3,4) that by (cases "k \<in> tg_key ` set committed") (auto split: if_splits)
  show ?thesis
  proof (cases "?needs = []")
    case True
    then have "w' = w1" "rs_status r = StAborted" using assms(1) rev by (auto simp: commit_failed_def Let_def outcome_def)
    moreover have "conf w1 = conf w0" using undone True by (intro ext) auto
    ultimately show ?thesis by simp
  next
    case False
    then have r: "w' = w1" "rs_status r = StRollbackFailed" "rs_needs_ids r = map tg_key ?needs"
      using assms(1) rev by (auto simp: commit_failed_def Let_def outcome_def)
    have "k \<in> set (rs_needs_ids r)" if "conf w' k \<noteq> conf w0 k" for k
      using undone [of k] that r(1) unfolding r(3) by auto
    then show ?thesis using r(2) by blast
  qed
qed

lemma with_applied_facts:
  assumes "\<forall>u \<in> set us. \<exists>t \<in> set ts. \<exists>x. u = t\<lparr>tg_applied_sha := x\<rparr>" "distinct (map tg_no ts)"
  shows "map tg_key (with_applied us ts) = map tg_key ts \<and> map tg_before (with_applied us ts) = map tg_before ts \<and>
    map tg_after (with_applied us ts) = map tg_after ts \<and> map tg_server (with_applied us ts) = map tg_server ts"
proof -
  define pick where "pick = (\<lambda>t. case find (\<lambda>c. tg_no c = tg_no t) us of Some c \<Rightarrow> c | None \<Rightarrow> t)"
  have pick: "tg_key (pick t) = tg_key t \<and> tg_before (pick t) = tg_before t \<and> tg_after (pick t) = tg_after t \<and>
      tg_server (pick t) = tg_server t" if t: "t \<in> set ts" for t
  proof (cases "find (\<lambda>c. tg_no c = tg_no t) us")
    case None
    then show ?thesis by (simp add: pick_def)
  next
    case (Some c)
    then have c: "c \<in> set us" "tg_no c = tg_no t" by (auto simp: find_Some_iff)
    then obtain t' x where t': "t' \<in> set ts" "c = t'\<lparr>tg_applied_sha := x\<rparr>" using assms(1) by blast
    then have "tg_no t' = tg_no t" using c(2) by simp
    then have "t' = t" using t t'(1) assms(2) by (meson distinct_map inj_onD)
    moreover have "pick t = c" using Some by (simp add: pick_def)
    ultimately show ?thesis using t'(2) by (simp add: tg_key_def)
  qed
  have "with_applied us ts = map pick ts" by (simp add: with_applied_def pick_def)
  with pick show ?thesis by simp
qed

text \<open>Everything after the commit of every target.\<close>

lemma committed_conf:
  assumes run: "restart_change cs ch ts lines w = (w', r)" and dist: "distinct (map tg_key ts)"
    and befores: "\<forall>t \<in> set ts. conf w0 (tg_key t) = Some (tg_before t)"
    and afters: "\<forall>t \<in> set ts. conf w (tg_key t) = Some (Some (tg_after t))"
    and others: "\<forall>k. k \<notin> tg_key ` set ts \<longrightarrow> conf w k = conf w0 k"
    and fin: "\<forall>f v. ch_finalize ch = Some f \<longrightarrow> conf (fst (f v)) = conf v"
  shows "(rs_status r = StOk \<and> conf w' = conf w \<and> rs_covered_ids r = map tg_key ts) \<or>
    (rs_status r = StRolledBack \<and> conf w' = conf w0) \<or>
    (rs_status r = StRollbackFailed \<and> (\<forall>k. conf w' k \<noteq> conf w0 k \<longrightarrow> k \<in> set (rs_needs_ids r)))"
proof -
  have finalize: "(rs_status r = StOk \<and> conf w' = conf w \<and> rs_covered_ids r = map tg_key ts) \<or>
      (rs_status r = StRolledBack \<and> conf w' = conf w0) \<or>
      (rs_status r = StRollbackFailed \<and> (\<forall>k. conf w' k \<noteq> conf w0 k \<longrightarrow> k \<in> set (rs_needs_ids r)))"
    if f: "finalize_change cs ch ts lines v = (w', r)" and v: "conf v = conf w" for v
  proof (cases "ch_finalize ch")
    case None
    then show ?thesis using f v stands_conf by (auto simp: finalize_change_def)
  next
    case (Some g)
    obtain v' raised where g: "g v = (v', raised)" by fastforce
    then have v': "conf v' = conf w" using fin Some v by (metis fst_conv)
    show ?thesis
    proof (cases raised)
      case False
      then show ?thesis using f Some g v' stands_conf by (auto simp: finalize_change_def)
    next
      case True
      then have "put_back cs (ch_restart ch) ts ''finalize-failed'' (lines @ [LnFinalizeFailed]) [] (map tg_name ts) v' = (w', r)"
        using f Some g by (simp add: finalize_change_def)
      from put_back_conf [OF this dist, of w0] show ?thesis using befores others v' by auto
    qed
  qed
  let ?rs = "filter (\<lambda>t. tg_transport t = TrFile) ts"
  show ?thesis
  proof (cases "ch_restart ch \<and> ?rs \<noteq> []")
    case False
    then have "finalize_change cs ch ts lines w = (w', r)"
      using run by (auto simp: restart_change_def Let_def)
    then show ?thesis by (rule finalize) simp
  next
    case True
    obtain v oks where re: "restart_all cs ?rs w = (v, oks)" by fastforce
    have v: "conf v = conf w" by (rule restart_all_conf [OF re])
    let ?failed = "filter (\<lambda>t. \<not> restarted oks t) ?rs"
    show ?thesis
    proof (cases "?failed = []")
      case True
      then have "finalize_change cs ch ts lines v = (w', r)"
        using run re \<open>ch_restart ch \<and> ?rs \<noteq> []\<close> by (auto simp: restart_change_def Let_def)
      then show ?thesis using finalize v by blast
    next
      case False
      then have "put_back cs True ts ''restart-failed'' (lines @ map (\<lambda>t. LnNoRestart (tg_name t)) ?failed)
          (map tg_name ?failed) (map tg_name ?failed) v = (w', r)"
        using run re \<open>ch_restart ch \<and> ?rs \<noteq> []\<close> by (auto simp: restart_change_def Let_def)
      from put_back_conf [OF this dist, of w0] show ?thesis using befores others v by auto
    qed
  qed
qed

text \<open>The commit phase, from the planned targets on.\<close>

lemma run_targets:
  assumes ts: "distinct (map tg_key ts)" "distinct (map tg_no ts)"
    and befores: "\<forall>t \<in> set ts. conf w (tg_key t) = Some (tg_before t)"
    and fin: "\<forall>f v. ch_finalize ch = Some f \<longrightarrow> conf (fst (f v)) = conf v"
    and run: "(case commit cs (commit_order ts) [] w of
        (w', committed, Some (t, a)) \<Rightarrow> commit_failed cs ch committed t a lines w'
      | (w', committed, None) \<Rightarrow> restart_change cs ch (with_applied committed ts) lines w') = (w', r)"
  shows "(rs_status r = StOk \<and> rs_covered_ids r = map tg_key ts \<and>
      (\<forall>t \<in> set ts. conf w' (tg_key t) = Some (Some (tg_after t))) \<and> (\<forall>k. k \<notin> tg_key ` set ts \<longrightarrow> conf w' k = conf w k)) \<or>
    (rs_status r \<in> {StAborted, StRolledBack} \<and> conf w' = conf w) \<or>
    (rs_status r = StRollbackFailed \<and> (\<forall>k. conf w' k \<noteq> conf w k \<longrightarrow> k \<in> set (rs_needs_ids r)))"
proof -
  have perm: "set (commit_order ts) = set ts" "distinct (map tg_key (commit_order ts))"
    using ts(1) by (auto simp: commit_order_def distinct_map inj_on_def)
  obtain w1 us f where co: "commit cs (commit_order ts) [] w = (w1, us, f)" by (metis prod_cases3)
  have us: "\<forall>u \<in> set us. \<exists>t \<in> set ts. \<exists>x. u = t\<lparr>tg_applied_sha := x\<rparr>" "distinct (map tg_key us)"
      "f = None \<longrightarrow> map tg_no us = map tg_no (commit_order ts)"
      "\<forall>u \<in> set us. conf w1 (tg_key u) = Some (Some (tg_after u))"
      "\<forall>k. k \<notin> tg_key ` set us \<longrightarrow> (\<forall>t a. f = Some (t, a) \<longrightarrow> k \<noteq> tg_key t \<or> \<not> an_needs_hands a) \<longrightarrow> conf w1 k = conf w k"
    using commit_conf [OF co perm(2)] perm(1) by auto
  show ?thesis
  proof (cases f)
    case (Some ta)
    obtain t a where ta: "ta = (t, a)" by fastforce
    have "conf w (tg_key u) = Some (tg_before u)" if um: "u \<in> set us" for u
    proof -
      obtain t' x where "t' \<in> set ts" "u = t'\<lparr>tg_applied_sha := x\<rparr>" using bspec [OF us(1) um] by blast
      then show ?thesis using befores by (simp add: tg_key_def)
    qed
    moreover have "commit_failed cs ch us t a lines w1 = (w', r)" using run co Some ta by simp
    ultimately show ?thesis
      using commit_failed_conf [of ch us t a lines w1 w' r w] us(2,5) Some ta by auto
  next
    case None
    have mem: "tg_key ` set us = tg_key ` set ts"
    proof -
      have nos: "tg_no ` set us = tg_no ` set ts" using us(3) None perm(1) by (metis image_set)
      have h1: "\<exists>u \<in> set us. tg_key u = tg_key t" if tm: "t \<in> set ts" for t
      proof -
        obtain u where u: "u \<in> set us" "tg_no u = tg_no t" using tm nos by (metis imageE imageI)
        obtain t' x where t': "t' \<in> set ts" "u = t'\<lparr>tg_applied_sha := x\<rparr>" using bspec [OF us(1) u(1)] by blast
        then have "t' = t" using distinct_mapD [OF ts(2) _ tm] u(2) by simp
        then show ?thesis using u(1) t'(2) by (intro bexI [of _ u]) (simp_all add: tg_key_def)
      qed
      have h2: "\<exists>t \<in> set ts. tg_key t = tg_key u" if um: "u \<in> set us" for u
      proof -
        obtain t' x where "t' \<in> set ts" "u = t'\<lparr>tg_applied_sha := x\<rparr>" using bspec [OF us(1) um] by blast
        then show ?thesis by (intro bexI [of _ t']) (simp_all add: tg_key_def)
      qed
      show ?thesis
      proof (intro equalityI subsetI)
        fix k assume "k \<in> tg_key ` set us"
        then obtain u where "u \<in> set us" "k = tg_key u" by blast
        then show "k \<in> tg_key ` set ts" using h2 [of u] by (metis imageI)
      next
        fix k assume "k \<in> tg_key ` set ts"
        then obtain t where "t \<in> set ts" "k = tg_key t" by blast
        then show "k \<in> tg_key ` set us" using h1 [of t] by (metis imageI)
      qed
    qed
    have afters: "conf w1 (tg_key t) = Some (Some (tg_after t))" if t: "t \<in> set ts" for t
    proof -
      obtain u where u: "u \<in> set us" "tg_key u = tg_key t" using mem t by (metis imageE imageI)
      obtain t' x where t': "t' \<in> set ts" "u = t'\<lparr>tg_applied_sha := x\<rparr>" using bspec [OF us(1) u(1)] by blast
      then have "t' = t" using distinct_mapD [OF ts(1) _ t] u(2) by (simp add: tg_key_def)
      then show ?thesis using us(4) u t'(2) by auto
    qed
    have others: "conf w1 k = conf w k" if "k \<notin> tg_key ` set ts" for k
      using us(5) None mem that by auto
    let ?ts = "with_applied us ts"
    note same = with_applied_facts [OF us(1) ts(2)]
    have keys: "tg_key ` set ?ts = tg_key ` set ts" using same by (metis image_set)
    have run': "restart_change cs ch ?ts lines w1 = (w', r)" using run co None by simp
    have "\<forall>t \<in> set ?ts. conf w (tg_key t) = Some (tg_before t)" "\<forall>t \<in> set ?ts. conf w1 (tg_key t) = Some (Some (tg_after t))"
      using same befores afters by (auto simp: in_set_conv_nth) (metis length_map nth_map nth_mem)+
    from committed_conf [OF run' _ this _ fin] show ?thesis
      using same ts(1) keys others afters by auto
  qed
qed

theorem run_all_or_nothing:
  assumes run: "run_change cs ch servers waited w = (w', r)" and keys: "distinct (map server_key servers)"
    and fin: "\<forall>f v. ch_finalize ch = Some f \<longrightarrow> conf (fst (f v)) = conf v"
  shows "all_or_nothing ch servers (conf w) (conf w') r"
proof -
  let ?sks = "planned_servers ch servers"
  let ?lines = "(if waited then [LnWaited] else []) @ read_only_lines ch servers"
  have quiet: "rs_status (outcome st c ls) = st" for st c ls by (simp add: outcome_def)
  have aborted: "rs_status q = StAborted" if "plan cs ch w no sks ls c = Inl q" for no sks ls c q
    using that
    by (induction sks arbitrary: no ls c)
      (auto simp: read_target_def plan_api_def plan_file_def outcome_def Let_def split: if_splits sum.splits option.splits prod.splits)
  consider "?sks = []" | (abort) q where "?sks \<noteq> []" "plan cs ch w 0 ?sks ?lines ''ok'' = Inl q"
    | (planned) ts ls c where "?sks \<noteq> []" "plan cs ch w 0 ?sks ?lines ''ok'' = Inr (ts, ls, c)"
    by (metis old.sum.exhaust prod_cases3)
  then show ?thesis
  proof cases
    case 1
    then show ?thesis using run by (auto simp: run_change_def Let_def all_or_nothing_def quiet)
  next
    case abort
    then show ?thesis using run aborted [OF abort(2)] by (auto simp: run_change_def Let_def all_or_nothing_def)
  next
    case planned
    have facts: "distinct (map tg_key ts)" "distinct (map tg_no ts)"
        "\<forall>t \<in> set ts. tg_server t \<in> set servers \<and> conf w (tg_key t) = Some (tg_before t) \<and>
           mutate_for ch (tg_server t) (tg_before t) = Inr (tg_after t, ''ok'')"
      using plan_targets [OF planned(2) planned_keys [OF keys]] planned_subset by blast+
    show ?thesis
    proof (cases "ts = [] \<or> preflight_lines cs w ts \<noteq> []")
      case True
      then show ?thesis
        using run planned by (auto simp: run_change_def Let_def all_or_nothing_def quiet split: if_splits)
    next
      case False
      then have go: "(case commit cs (commit_order ts) [] w of
          (w', committed, Some (t, a)) \<Rightarrow> commit_failed cs ch committed t a ls w'
        | (w', committed, None) \<Rightarrow> restart_change cs ch (with_applied committed ts) ls w') = (w', r)"
        using run planned by (auto simp: run_change_def Let_def)
      have bef: "\<forall>t \<in> set ts. conf w (tg_key t) = Some (tg_before t)" using facts(3) by blast
      show ?thesis
        using run_targets [OF facts(1,2) bef fin go] facts(3)
        by (auto simp: all_or_nothing_def tg_key_def image_iff) (metis tg_key_def)+
    qed
  qed
qed

end

end
