(* ===== verification/HelperHost.thy ===== *)
theory HelperHost
  imports ChangeSetProps
begin

text \<open>
  The Kea host a change set writes to, when it is changed through its configuration file: the operations
  \<open>read-config\<close>, \<open>apply-config\<close>, \<open>remove-config\<close> and \<open>service restart\<close> of \<open>jen-kea-helper\<close> on the file, and
  the functions of \<open>jen/services/kea_host.py\<close> that call them. Together they keep the promises of
  \<open>change_hosts\<close>.

  A file is what a person wrote, or a configuration in the helper's own rendering, which parses to that
  configuration. Outside the model, and so parameters: the parser on hand-written text, the hash, the
  daemon's own test of a configuration, systemd, whether the host answers, and the investigation guard. The
  legacy script for a host without the helper and helpers that report no hash are not modelled.
\<close>

section \<open>The helper\<close>

datatype conf_file = Missing | Link | ByHand string | Rendered json

type_synonym fleet = "key \<Rightarrow> conf_file"

record host_env =
  hv_loads :: "string \<Rightarrow> json option"
  hv_sha :: "conf_file \<Rightarrow> string"
  hv_test :: "server \<Rightarrow> json \<Rightarrow> string list \<Rightarrow> string option"
  hv_account_refused :: "server \<Rightarrow> bool"
  hv_restarts :: "server \<Rightarrow> bool"
  hv_reachable :: "server \<Rightarrow> bool"
  hv_refused :: "server \<Rightarrow> json \<Rightarrow> bool"

definition parsed :: "host_env \<Rightarrow> conf_file \<Rightarrow> json option" where
  "parsed env f = (case f of ByHand raw \<Rightarrow> hv_loads env raw | Rendered c \<Rightarrow> Some c | _ \<Rightarrow> None)"

text \<open>The helper's answers: an error code, or the configuration or the hash it reports.\<close>

datatype 'a helper = HpError string | HpOk 'a

definition op_read_config :: "host_env \<Rightarrow> conf_file \<Rightarrow> (json \<times> string) helper" where
  "op_read_config env f =
     (case f of
        Missing \<Rightarrow> HpError ''missing''
      | Link \<Rightarrow> HpError ''symlink''
      | _ \<Rightarrow> (case parsed env f of
                Some c \<Rightarrow> HpOk (c, hv_sha env f)
              | None \<Rightarrow> HpError ''invalid-json''))"

definition guard_conflict :: "host_env \<Rightarrow> string option \<Rightarrow> conf_file \<Rightarrow> bool" where
  "guard_conflict env expect f =
     (case expect of
        None \<Rightarrow> False
      | Some e \<Rightarrow> (if e = [] then f \<noteq> Missing else f = Missing \<or> hv_sha env f \<noteq> e))"

definition op_apply_config ::
  "host_env \<Rightarrow> server \<Rightarrow> json \<Rightarrow> string list \<Rightarrow> bool \<Rightarrow> string option \<Rightarrow> conf_file \<Rightarrow> conf_file \<times> string helper" where
  "op_apply_config env s c tls over expect f =
     (if \<not> is_dict c then (f, HpError ''not-allowed'')
      else if f = Link then (f, HpError ''symlink'')
      else if guard_conflict env expect f then (f, HpError ''conflict'')
      else (case hv_test env s c tls of
              Some err \<Rightarrow> (f, HpError err)
            | None \<Rightarrow>
                if f \<noteq> Missing \<and> \<not> over then (f, HpError ''exists'')
                else if hv_account_refused env s then (f, HpError ''unit-account'')
                else (Rendered c, HpOk (hv_sha env (Rendered c)))))"

definition op_remove_config :: "host_env \<Rightarrow> string \<Rightarrow> conf_file \<Rightarrow> conf_file \<times> bool helper" where
  "op_remove_config env expect f =
     (if f = Missing then (f, HpOk False)
      else if f = Link then (f, HpError ''symlink'')
      else if hv_sha env f \<noteq> expect then (f, HpError ''conflict'')
      else (Missing, HpOk True))"

section \<open>The callers in \<open>kea_host\<close>\<close>

definition refusal :: "string \<Rightarrow> answer" where
  "refusal code = \<lparr>an_ok = False, an_code = code, an_sha = None, an_needs_hands = False\<rparr>"

definition success :: "string option \<Rightarrow> answer" where
  "success sha = \<lparr>an_ok = True, an_code = ''ok'', an_sha = sha, an_needs_hands = False\<rparr>"

text \<open>\<open>_from_helper_test\<close>: the codes a caller may see.\<close>

definition helper_code :: "string \<Rightarrow> string" where
  "helper_code err =
     (if err \<in> set [''testerror'', ''missingbinary'', ''tlsmissing'', ''exists'', ''conflict''] then err else ''error'')"

definition read_config_versioned :: "host_env \<Rightarrow> fleet \<Rightarrow> server \<Rightarrow> json option \<times> string option \<times> string list" where
  "read_config_versioned env w s =
     (if \<not> hv_reachable env s then (None, None, [''unreachable''])
      else (case op_read_config env (w (server_key s)) of
              HpError err \<Rightarrow> (None, None, if err = ''missing'' then [] else [err])
            | HpOk (c, sha) \<Rightarrow> (if c = JNull then (None, None, []) else (Some c, Some sha, []))))"

definition test_config :: "host_env \<Rightarrow> fleet \<Rightarrow> server \<Rightarrow> json \<Rightarrow> string list \<Rightarrow> answer" where
  "test_config env w s c tls =
     (if \<not> hv_reachable env s then refusal ''error''
      else if \<not> is_dict c then refusal ''error''
      else (case hv_test env s c tls of Some err \<Rightarrow> refusal (helper_code err) | None \<Rightarrow> success None))"

definition apply_config ::
  "host_env \<Rightarrow> server \<Rightarrow> json \<Rightarrow> string list \<Rightarrow> bool \<Rightarrow> string option \<Rightarrow> fleet \<Rightarrow> fleet \<times> answer" where
  "apply_config env s c tls over expect w =
     (if hv_refused env s c then (w, refusal ''investigation-on'')
      else if \<not> hv_reachable env s then (w, refusal ''error'')
      else (case op_apply_config env s c tls over expect (w (server_key s)) of
              (f, HpError err) \<Rightarrow> (w, refusal (helper_code err))
            | (f, HpOk sha) \<Rightarrow> (w(server_key s := f), success (Some sha))))"

definition remove_config :: "host_env \<Rightarrow> server \<Rightarrow> string option \<Rightarrow> fleet \<Rightarrow> fleet \<times> answer" where
  "remove_config env s expect w =
     (case expect of
        None \<Rightarrow> (w, refusal ''error'')
      | Some e \<Rightarrow>
          if e = [] then (w, refusal ''error'')
          else if \<not> hv_reachable env s then (w, refusal ''error'')
          else (case op_remove_config env e (w (server_key s)) of
                  (f, HpError err) \<Rightarrow> (w, refusal (if err = ''conflict'' then err else ''error''))
                | (f, HpOk b) \<Rightarrow> (w(server_key s := f), success None)))"

definition restart_service :: "host_env \<Rightarrow> server \<Rightarrow> fleet \<Rightarrow> fleet \<times> answer" where
  "restart_service env s w =
     (w, if hv_reachable env s \<and> hv_restarts env s then success None else refusal ''error'')"

text \<open>
  The calls of a fleet that is changed through its files. A target on the live API is refused at the plan:
  its daemon does not answer.
\<close>

definition fleet_calls :: "host_env \<Rightarrow> fleet calls" where
  "fleet_calls env =
     \<lparr>read_file = read_config_versioned env,
      read_api = (\<lambda>w s. (None, None, [], [])),
      probe_gate = (\<lambda>w s. None), restore_window = (\<lambda>w s. None), record_unreadable = (\<lambda>w s. None),
      pending_block = (\<lambda>w s. None), file_proof = (\<lambda>w s. (None, None)),
      api_test = (\<lambda>w s c. refusal ''error''),
      file_test = test_config env,
      api_apply = (\<lambda>t w. (w, refusal ''error'')),
      file_apply = apply_config env,
      api_revert = (\<lambda>t w. (w, refusal ''error'')),
      remove_file = remove_config env,
      restart_daemon = restart_service env,
      record_daemon = (\<lambda>s w. w)\<rparr>"

section \<open>The promises kept\<close>

text \<open>The configuration a file holds; a file that holds JSON's \<open>null\<close> holds none.\<close>

definition config_on :: "host_env \<Rightarrow> fleet \<Rightarrow> key \<Rightarrow> json option option" where
  "config_on env w k =
     (case w k of
        Missing \<Rightarrow> Some None
      | f \<Rightarrow> (case parsed env f of Some c \<Rightarrow> Some (if c = JNull then None else Some c) | None \<Rightarrow> None))"

lemma config_on_update [simp]:
  "k \<noteq> l \<Longrightarrow> config_on env (w(l := f)) k = config_on env w k"
  by (simp add: config_on_def)

lemma config_on_rendered: "is_dict c \<Longrightarrow> config_on env (w(k := Rendered c)) = (config_on env w)(k := Some (Some c))"
  by (rule ext) (auto simp: config_on_def parsed_def)

lemma config_on_missing: "config_on env (w(k := Missing)) = (config_on env w)(k := Some None)"
  by (rule ext) (auto simp: config_on_def)

lemma answers [simp]:
  "\<not> an_ok (refusal c)" "an_ok (success s)" "\<not> an_needs_hands (refusal c)" "an_sha (success s) = s" "an_code (refusal c) = c"
  by (simp_all add: refusal_def success_def)

lemma read_found:
  "read_config_versioned env w s = (found, sha, errors) \<Longrightarrow> found \<noteq> None \<or> errors = [] \<Longrightarrow>
     config_on env w (server_key s) = Some found"
  by (auto simp: read_config_versioned_def op_read_config_def config_on_def
      split: if_splits conf_file.splits option.splits helper.splits prod.splits)

lemma applied:
  "apply_config env s c tls over expect w = (w', a) \<Longrightarrow> an_ok a \<Longrightarrow> is_dict c \<and> w' = w(server_key s := Rendered c)"
  by (auto simp: apply_config_def op_apply_config_def split: if_splits option.splits helper.splits prod.splits)

lemma not_applied_same:
  "apply_config env s c tls over expect w = (w', a) \<Longrightarrow> \<not> an_ok a \<Longrightarrow> w' = w \<and> \<not> an_needs_hands a"
  by (auto simp: apply_config_def split: if_splits helper.splits prod.splits)

lemma removed_file:
  "remove_config env s expect w = (w', a) \<Longrightarrow> an_ok a \<Longrightarrow> w' = w(server_key s := Missing)"
  by (auto simp: remove_config_def op_remove_config_def split: if_splits option.splits helper.splits prod.splits)

lemma not_removed_same: "remove_config env s expect w = (w', a) \<Longrightarrow> \<not> an_ok a \<Longrightarrow> w' = w"
  by (auto simp: remove_config_def split: if_splits option.splits helper.splits prod.splits)

interpretation helper: change_hosts "fleet_calls env" "config_on env" for env
proof (unfold_locales, goal_cases)
  case (1 w s found sha errors)
  then show ?case by (simp add: fleet_calls_def read_found)
next
  case (3 s c tls over expect w w' a)
  then show ?case using applied config_on_rendered by (fastforce simp: fleet_calls_def)
next
  case (4 s c tls over expect w w' a)
  then show ?case using not_applied_same by (fastforce simp: fleet_calls_def)
next
  case (5 s expect w w' a)
  then show ?case using removed_file config_on_missing by (fastforce simp: fleet_calls_def)
next
  case (6 s expect w w' a k)
  then show ?case using not_removed_same by (fastforce simp: fleet_calls_def)
qed (auto simp: fleet_calls_def restart_service_def)

end
