(* ===== verification/ChangeProps.thy ===== *)
theory ChangeProps
  imports HelperHost
begin

text \<open>
  The properties of a change set: all or nothing on every server, a change that nothing stands in the way
  of goes through, and what a lost answer does.
\<close>

section \<open>All or nothing\<close>


section \<open>Going through\<close>

text \<open>A planned server on which nothing fails: its host works and takes the changed configuration.\<close>

definition smooth :: "host_env \<Rightarrow> fleet change \<Rightarrow> fleet \<Rightarrow> server \<times> transport \<Rightarrow> bool" where
  "smooth env ch w sk =
     (snd sk = TrFile \<and> hv_reachable env (fst sk) \<and> hv_restarts env (fst sk) \<and> \<not> hv_account_refused env (fst sk) \<and>
      (\<exists>c c'. config_on env w (server_key (fst sk)) = Some (Some c) \<and> mutate_for ch (fst sk) (Some c) = Inr (c', ''ok'') \<and>
         is_dict c' \<and> hv_test env (fst sk) c' (ch_tls_for ch (fst sk)) = None \<and> \<not> hv_refused env (fst sk) c'))"

text \<open>What the plan makes of it: a target whose guard is the hash of the file that is there.\<close>

definition ready :: "host_env \<Rightarrow> fleet \<Rightarrow> target \<Rightarrow> bool" where
  "ready env w t =
     (tg_transport t = TrFile \<and> hv_reachable env (tg_server t) \<and> hv_restarts env (tg_server t) \<and>
      \<not> hv_account_refused env (tg_server t) \<and> is_dict (tg_after t) \<and>
      hv_test env (tg_server t) (tg_after t) (tg_tls t) = None \<and> \<not> hv_refused env (tg_server t) (tg_after t) \<and>
      tg_allow_overwrite t \<and> w (tg_key t) \<noteq> Missing \<and> w (tg_key t) \<noteq> Link \<and>
      tg_before_sha t = Some (hv_sha env (w (tg_key t))))"

lemma smooth_read:
  assumes "config_on env w (server_key s) = Some (Some c)" "hv_reachable env s"
  shows "read_config_versioned env w s = (Some c, Some (hv_sha env (w (server_key s))), []) \<and>
    w (server_key s) \<noteq> Missing \<and> w (server_key s) \<noteq> Link"
  using assms
  by (auto simp: config_on_def read_config_versioned_def op_read_config_def parsed_def
      split: conf_file.splits option.splits if_splits)

lemma smooth_plan:
  assumes "\<forall>sk \<in> set sks. smooth env ch w sk" "ch_expected_sha_for ch = None"
  shows "\<exists>ts. plan (fleet_calls env) ch w no sks lines code = Inr (ts, lines, if sks = [] then code else ''ok'') \<and>
    map tg_server ts = map fst sks \<and> (\<forall>t \<in> set ts. ready env w t)"
  using assms(1)
proof (induction sks arbitrary: no code)
  case Nil
  then show ?case by simp
next
  case (Cons sk sks)
  obtain s k where sk: "sk = (s, k)" by fastforce
  have sm: "k = TrFile" "hv_reachable env s" "hv_restarts env s" "\<not> hv_account_refused env s"
    using Cons.prems by (auto simp: smooth_def sk)
  obtain c c' where c: "config_on env w (server_key s) = Some (Some c)" "mutate_for ch s (Some c) = Inr (c', ''ok'')"
      "is_dict c'" "hv_test env s c' (ch_tls_for ch s) = None" "\<not> hv_refused env s c'"
    using Cons.prems by (auto simp: smooth_def sk)
  let ?sha = "Some (hv_sha env (w (server_key s)))"
  note rd = smooth_read [OF c(1) sm(2)]
  obtain ts where ts: "plan (fleet_calls env) ch w (Suc no) sks lines ''ok'' = Inr (ts, lines, ''ok'')"
      "map tg_server ts = map fst sks" "\<forall>t \<in> set ts. ready env w t"
    using Cons.IH [of "Suc no" "''ok''"] Cons.prems by auto
  have read: "read_target (fleet_calls env) ch w s k lines = Inr (Some c, ?sha, None, lines)"
    using sm(1) rd by (simp add: read_target_def plan_file_def fleet_calls_def)
  have "ready env w (new_target ch no s TrFile (Some c) ?sha None c')"
    using sm c rd assms(2) by (simp add: ready_def new_target_def tg_key_def expected_sha_def)
  then show ?case
    using c(2) ts read sm(1) by (simp add: sk) (simp add: new_target_def)
qed

lemma ready_test: "ready env w t \<Longrightarrow> an_ok (test_target (fleet_calls env) w t)"
  by (simp add: ready_def test_target_def fleet_calls_def test_config_def)

lemma ready_apply:
  "ready env w t \<Longrightarrow> v (tg_key t) = w (tg_key t) \<Longrightarrow> hv_sha env (w (tg_key t)) \<noteq> [] \<Longrightarrow>
     \<exists>sha. apply_target (fleet_calls env) t v = (v(tg_key t := Rendered (tg_after t)), success sha)"
  by (auto simp: ready_def apply_target_def fleet_calls_def apply_config_def op_apply_config_def guard_conflict_def tg_key_def)

lemma plan_numbers:
  "plan cs ch w no sks lines code = Inr (ts, ls, c) \<Longrightarrow> sorted_wrt (<) (map tg_no ts) \<and> (\<forall>t \<in> set ts. no \<le> tg_no t)"
proof (induction sks arbitrary: no lines code ts)
  case Nil
  then show ?case by simp
next
  case (Cons sk sks)
  obtain s k where sk: "sk = (s, k)" by fastforce
  show ?case
    using Cons.prems Cons.IH [of "Suc no"]
    by (auto simp: sk new_target_def split: sum.splits prod.splits if_splits) (fastforce dest: Suc_le_lessD Suc_leD)+
qed

lemma smooth_commit:
  "\<forall>t \<in> set ts. ready env w t \<and> v (tg_key t) = w (tg_key t) \<and> hv_sha env (w (tg_key t)) \<noteq> [] \<Longrightarrow> distinct (map tg_key ts) \<Longrightarrow>
     \<exists>w' us. commit (fleet_calls env) ts done v = (w', done @ us, None) \<and> list_all2 (\<lambda>t u. \<exists>x. u = t\<lparr>tg_applied_sha := x\<rparr>) ts us"
proof (induction ts arbitrary: "done" v)
  case Nil
  then show ?case by simp
next
  case (Cons t ts)
  obtain sha where app: "apply_target (fleet_calls env) t v = (v(tg_key t := Rendered (tg_after t)), success sha)"
    using ready_apply [of env w t v] Cons.prems(1) by auto
  let ?v = "v(tg_key t := Rendered (tg_after t))"
  have rest: "\<forall>u \<in> set ts. ready env w u \<and> ?v (tg_key u) = w (tg_key u) \<and> hv_sha env (w (tg_key u)) \<noteq> []"
  proof
    fix u assume u: "u \<in> set ts"
    then have "tg_key u \<noteq> tg_key t" using imageI [OF u, of tg_key] Cons.prems(2) by (metis distinct.simps(2) list.simps(9) set_map)
    then show "ready env w u \<and> ?v (tg_key u) = w (tg_key u) \<and> hv_sha env (w (tg_key u)) \<noteq> []"
      using Cons.prems(1) u by simp
  qed
  have "distinct (map tg_key ts)" using Cons.prems(2) by simp
  from Cons.IH [OF rest this, of "done @ [t\<lparr>tg_applied_sha := sha\<rparr>]"]
  obtain w' us where "commit (fleet_calls env) ts (done @ [t\<lparr>tg_applied_sha := sha\<rparr>]) (v(tg_key t := Rendered (tg_after t))) =
        (w', (done @ [t\<lparr>tg_applied_sha := sha\<rparr>]) @ us, None)"
      "list_all2 (\<lambda>t u. \<exists>x. u = t\<lparr>tg_applied_sha := x\<rparr>) ts us"
    by blast
  then show ?case
    using app by (intro exI [of _ w'] exI [of _ "t\<lparr>tg_applied_sha := sha\<rparr> # us"]) auto
qed

lemma with_applied_keeps:
  assumes "list_all2 (\<lambda>t u. \<exists>x. u = t\<lparr>tg_applied_sha := x\<rparr>) ts0 us" "set ts0 = set ts" "distinct (map tg_no ts)"
  shows "map tg_server (with_applied us ts) = map tg_server ts \<and> map tg_transport (with_applied us ts) = map tg_transport ts"
proof -
  have orig: "\<forall>u \<in> set us. \<exists>t \<in> set ts0. \<exists>x. u = t\<lparr>tg_applied_sha := x\<rparr>"
    using assms(1) by (induction rule: list_all2_induct) auto
  define pick where "pick = (\<lambda>t. case find (\<lambda>c. tg_no c = tg_no t) us of Some c \<Rightarrow> c | None \<Rightarrow> t)"
  have "tg_server (pick t) = tg_server t \<and> tg_transport (pick t) = tg_transport t" if t: "t \<in> set ts" for t
  proof (cases "find (\<lambda>c. tg_no c = tg_no t) us")
    case (Some c)
    then have c: "c \<in> set us" "tg_no c = tg_no t" by (auto simp: find_Some_iff)
    then obtain t' x where t': "t' \<in> set ts" "c = t'\<lparr>tg_applied_sha := x\<rparr>"
      using bspec [OF orig c(1)] assms(2) by blast
    then have "t' = t" using distinct_mapD [OF assms(3) _ t] c(2) by simp
    then show ?thesis using t'(2) Some by (simp add: pick_def)
  qed (simp add: pick_def)
  moreover have "with_applied us ts = map pick ts" by (simp add: with_applied_def pick_def)
  ultimately show ?thesis by simp
qed

lemma smooth_restart:
  "\<forall>t \<in> set ts. \<forall>v. an_ok (snd (restart_daemon cs (tg_server t) v)) \<Longrightarrow>
     \<forall>p \<in> set (snd (restart_all cs ts w)). snd p"
proof (induction ts arbitrary: w)
  case (Cons t ts)
  obtain w1 a where r: "restart_daemon cs (tg_server t) w = (w1, a)" by fastforce
  then have "an_ok a" using Cons.prems by (metis list.set_intros(1) snd_conv)
  then show ?case using Cons.IH [of w1] Cons.prems r by (auto split: prod.splits)
qed simp

lemma restart_all_keys: "map fst (snd (restart_all cs ts w)) = map tg_key ts"
  by (induction ts arbitrary: w) (simp_all add: split_beta)

lemma all_restarted:
  assumes "\<forall>p \<in> set oks. snd p" "tg_key t \<in> fst ` set oks"
  shows "restarted oks t"
proof -
  obtain b where b: "map_of (rev oks) (tg_key t) = Some b"
    using assms(2) by (metis image_set map_of_eq_None_iff not_None_eq rev_map set_rev)
  then have "(tg_key t, b) \<in> set oks" by (metis map_of_SomeD set_rev)
  then show ?thesis using assms(1) b by (auto simp: restarted_def)
qed

lemma restart_up:
  "hv_reachable env s \<and> hv_restarts env s \<Longrightarrow> an_ok (snd (restart_daemon (fleet_calls env) s v))"
  by (simp add: fleet_calls_def restart_service_def)

lemma smooth_tail:
  assumes up: "\<And>t. t \<in> set ts \<Longrightarrow> hv_reachable env (tg_server t) \<and> hv_restarts env (tg_server t)"
    and fin: "\<forall>f v. ch_finalize ch = Some f \<longrightarrow> \<not> snd (f v)"
  shows "rs_status (snd (restart_change (fleet_calls env) ch ts ls w)) = StOk \<and>
    rs_covered_ids (snd (restart_change (fleet_calls env) ch ts ls w)) = map tg_key ts"
proof -
  let ?cs = "fleet_calls env"
  have stands: "rs_status (snd (finalize_change ?cs ch ts ls v)) = StOk \<and>
      rs_covered_ids (snd (finalize_change ?cs ch ts ls v)) = map tg_key ts" for v
  proof (cases "ch_finalize ch")
    case None
    then show ?thesis by (simp add: finalize_change_def change_stands_def outcome_def)
  next
    case (Some f)
    obtain v' raised where f: "f v = (v', raised)" by fastforce
    then have "\<not> raised" using fin Some by (metis snd_conv)
    then show ?thesis using Some f by (simp add: finalize_change_def change_stands_def outcome_def)
  qed
  let ?rs = "filter (\<lambda>t. tg_transport t = TrFile) ts"
  obtain v oks where re: "restart_all ?cs ?rs w = (v, oks)" by fastforce
  have "restarted oks t" if t: "t \<in> set ?rs" for t
  proof (rule all_restarted)
    show "\<forall>p \<in> set oks. snd p" using smooth_restart [of ?rs ?cs w] up restart_up re by auto
    have m: "map fst oks = map tg_key ?rs" using restart_all_keys [of ?cs ?rs w] re by simp
    have "tg_key t \<in> set (map tg_key ?rs)" unfolding set_map using t by (rule imageI)
    then show "tg_key t \<in> fst ` set oks" unfolding m [symmetric] set_map .
  qed
  then have "filter (\<lambda>t. \<not> restarted oks t) ?rs = []" by (simp add: filter_empty_conv)
  then show ?thesis using stands re by (simp add: restart_change_def Let_def)
qed


section \<open>A lost answer\<close>

text \<open>The fleet, but the channel to server \<open>s0\<close> breaks after the helper has written and before it answers.\<close>

definition lossy :: "host_env \<Rightarrow> server \<Rightarrow> fleet calls" where
  "lossy env s0 =
     (fleet_calls env)\<lparr>file_apply := (\<lambda>s c tls over expect w.
        (case apply_config env s c tls over expect w of
           (w', a) \<Rightarrow> (w', if s = s0 then refusal ''error'' else a)))\<rparr>"

text \<open>
  A file write whose answer is lost is reported as if nothing had happened: the helper has put the new
  configuration on the host, the run ends "aborted" with no server named for a person to look at, and the
  host keeps the configuration the run says was not applied (it is live at the next restart). Only a write
  over the API can answer that its outcome is unknown.
\<close>
theorem lost_answer_aborts:
  assumes "planned_servers ch [s] = [(s, TrFile)]" and "smooth env ch w (s, TrFile)"
    and "ch_expected_sha_for ch = None" and "\<forall>f. hv_sha env f \<noteq> []"
    and "config_on env w (server_key s) = Some (Some c)" and "mutate_for ch s (Some c) = Inr (c', ''ok'')"
  shows "let (w', r) = run_change (lossy env s) ch [s] waited w
    in rs_status r = StAborted \<and> rs_needs r = [] \<and> rs_needs_ids r = [] \<and> config_on env w' (server_key s) = Some (Some c')"
proof -
  have sm: "hv_reachable env s" "is_dict c'"
    using assms(2,5,6) by (auto simp: smooth_def)
  note rd = smooth_read [OF assms(5) sm(1)]
  let ?sha = "Some (hv_sha env (w (server_key s)))"
  let ?t = "new_target ch 0 s TrFile (Some c) ?sha None c'"
  have read: "read_target (lossy env s) ch w s TrFile ls = Inr (Some c, ?sha, None, ls)" for ls
    using rd by (simp add: read_target_def plan_file_def lossy_def fleet_calls_def)
  have pl: "plan (lossy env s) ch w 0 [(s, TrFile)] ls ''ok'' = Inr ([?t], ls, ''ok'')" for ls
    using read assms(6) by simp
  have rdy: "ready env w ?t"
    using assms(2,3,5,6) rd by (auto simp: smooth_def ready_def new_target_def tg_key_def expected_sha_def)
  have tested: "preflight_lines (lossy env s) w [?t] = []"
  proof -
    have "test_target (lossy env s) w ?t = test_target (fleet_calls env) w ?t"
      by (simp add: test_target_def lossy_def fleet_calls_def)
    then show ?thesis using ready_test [OF rdy] by (simp add: preflight_lines_def)
  qed
  obtain sha where ap: "apply_target (fleet_calls env) ?t w = (w(server_key s := Rendered c'), success sha)"
    using ready_apply [OF rdy, of w] assms(4) by (auto simp: new_target_def tg_key_def)
  have lost: "apply_target (lossy env s) ?t w = (w(server_key s := Rendered c'), refusal ''error'')"
    using ap by (auto simp: apply_target_def lossy_def fleet_calls_def new_target_def split: prod.splits)
  have "run_change (lossy env s) ch [s] waited w =
      commit_failed (lossy env s) ch [] ?t (refusal ''error'')
        ((if waited then [LnWaited] else []) @ read_only_lines ch [s]) (w(server_key s := Rendered c'))"
    using lost tested
    by (simp add: run_change_def Let_def assms(1) pl commit_order_def new_target_def del: plan.simps)
  then show ?thesis
    using sm(2) by (simp add: commit_failed_def Let_def outcome_def config_on_rendered)
qed

section \<open>Witnesses\<close>

definition demo_env :: host_env where
  "demo_env = \<lparr>hv_loads = (\<lambda>s. None), hv_sha = (\<lambda>f. ''sha''), hv_test = (\<lambda>s c tls. None), hv_account_refused = (\<lambda>s. False),
     hv_restarts = (\<lambda>s. True), hv_reachable = (\<lambda>s. True), hv_refused = (\<lambda>s c. False)\<rparr>"

definition demo_server :: "int \<Rightarrow> server" where
  "demo_server i = \<lparr>sv_id = Some i, sv_name = ''kea'', sv_ssh_host = ''host'', sv_config_transport = None\<rparr>"

definition demo_fleet :: fleet where
  "demo_fleet = (\<lambda>k. Missing)(KeyId 1 := Rendered (JObj []), KeyId 2 := Rendered (JObj []))"

definition demo_change :: "fleet change" where
  "demo_change = \<lparr>ch_service = Dhcp4, ch_mutate = (\<lambda>c. Inr (JObj [(''Dhcp4'', JNull)], ''ok'')), ch_candidate_for = None,
     ch_expected_sha_for = None, ch_restart = True, ch_skip_codes = [], ch_tls_for = (\<lambda>s. []), ch_absent_is_expected = False,
     ch_finalize = None, ch_force_file = False\<rparr>"

lemma demo_planned: "planned_servers demo_change [demo_server 1, demo_server 2] = [(demo_server 1, TrFile), (demo_server 2, TrFile)]"
    "planned_servers demo_change [demo_server 1] = [(demo_server 1, TrFile)]"
  by (simp_all add: planned_servers_def transport_for_run_def transport_of_def declared_transport_def demo_change_def demo_server_def)

lemma demo_smooth: "i = 1 \<or> i = 2 \<Longrightarrow> smooth demo_env demo_change demo_fleet (demo_server i, TrFile)"
  by (auto simp: smooth_def demo_env_def demo_change_def demo_fleet_def demo_server_def config_on_def parsed_def mutate_for_def server_key_def)



lemma lost_answer_aborts_witness:
  "let (w', r) = run_change (lossy demo_env (demo_server 1)) demo_change [demo_server 1] False demo_fleet
    in rs_status r = StAborted \<and> rs_needs r = [] \<and> rs_needs_ids r = [] \<and> config_on demo_env w' (KeyId 1) = Some (Some (JObj [(''Dhcp4'', JNull)]))"
  using lost_answer_aborts [OF demo_planned(2) demo_smooth, of "JObj []" "JObj [(''Dhcp4'', JNull)]" False]
  by (simp add: demo_env_def demo_change_def demo_fleet_def demo_server_def config_on_def parsed_def mutate_for_def server_key_def Let_def)

end
