(* ===== verification/Maintenance.thy ===== *)
theory Maintenance
  imports Json PyStr "HOL-Library.Sublist"
begin

text \<open>
  The planned maintenance of one server of a high-availability pair:
  \<open>src/jen/services/kea_ha.py\<close> (what Kea's answers say), \<open>src/jen/services/ha_maintenance.py\<close> (the
  partner and the stepper) and the maintenance requests of \<open>src/jen/routes/servers.py\<close>.

  The flow lives in the session. A request is handled against what Kea and the settings say at that
  moment (a \<open>kea_world\<close>); its outcome is the new session, the effects in their order (a command sent to
  a server, a line in the audit log) and the reply. Times are whole microseconds. The texts of the page
  are constructors.
\<close>

section \<open>Kea's answers\<close>

definition obj_or_empty :: "json \<Rightarrow> json" where
  "obj_or_empty v = (if truthy v then v else JObj [])"

text \<open>\<open>v[0]\<close>.\<close>

fun item0 :: "json \<Rightarrow> json res" where
  "item0 (JList []) = Inl IndexError"
| "item0 (JList (x # xs)) = Inr x"
| "item0 (JStr []) = Inl IndexError"
| "item0 (JStr (c # cs)) = Inr (JStr [c])"
| "item0 (JObj d) = Inl KeyError"
| "item0 v = Inl TypeError"

definition answered_ok :: "json \<Rightarrow> bool" where
  "answered_ok resp = py_eq (jget resp ''result'') (JInt 0)"

text \<open>\<open>x.get(k, default)\<close> of a value that need not be a dict.\<close>

definition py_get_default :: "json \<Rightarrow> string \<Rightarrow> json \<Rightarrow> json res" where
  "py_get_default v k x = (if is_dict v then Inr (jget_default v k x) else Inl AttributeError)"

definition status_of :: "json \<Rightarrow> json \<Rightarrow> json" where
  "status_of local remote = JObj
     [(''local'', JObj [(''role'', jget local ''role''), (''scopes'', jget_default local ''scopes'' (JList [])),
                        (''state'', jget local ''state'')]),
      (''remote'', JObj [(''role'', jget remote ''role''), (''state'', jget remote ''last-state''),
                         (''scopes'', jget_default remote ''last-scopes'' (JList [])), (''age'', jget remote ''age''),
                         (''in_touch'', jget remote ''in-touch''),
                         (''connecting_clients'', jget remote ''connecting-clients''),
                         (''unacked_clients'', jget remote ''unacked-clients''),
                         (''unacked_clients_left'', jget remote ''unacked-clients-left''),
                         (''analyzed_packets'', jget remote ''analyzed-packets'')])]"

definition ha_status :: "json \<Rightarrow> json option res" where
  "ha_status resp =
     (if \<not> answered_ok resp then Inr None
      else rbind (py_get (obj_or_empty (jget resp ''arguments'')) ''high-availability'') (\<lambda>ha_list.
        if \<not> truthy ha_list then Inr None
        else rbind (item0 ha_list) (\<lambda>ha.
             rbind (py_get_default ha ''ha-servers'' (JObj [])) (\<lambda>servers.
             rbind (py_get_default servers ''local'' (JObj [])) (\<lambda>l.
             rbind (py_get_default servers ''remote'' (JObj [])) (\<lambda>r.
               let local = obj_or_empty l; remote = obj_or_empty r
               in if is_dict local \<and> is_dict remote then Inr (Some (status_of local remote))
                  else Inl AttributeError))))))"

definition ha_block :: "json \<Rightarrow> json" where
  "ha_block ha = JObj
     [(''this_server_name'', jget ha ''this-server-name''), (''mode'', jget ha ''mode''),
      (''heartbeat_delay'', jget ha ''heartbeat-delay''), (''max_response_delay'', jget ha ''max-response-delay''),
      (''max_ack_delay'', jget ha ''max-ack-delay''), (''max_unacked_clients'', jget ha ''max-unacked-clients''),
      (''peers'', py_or (jget_default ha ''peers'' (JList [])) (JList [])),
      (''send_lease_updates'', jget_default ha ''send-lease-updates'' (JBool True)),
      (''sync_leases'', jget_default ha ''sync-leases'' (JBool True))]"

definition is_ha_hook :: "json \<Rightarrow> bool res" where
  "is_ha_hook lib =
     (case jget_default lib ''library'' (JStr []) of
        JStr s \<Rightarrow> Inr (last_piece (CHR ''/'') s = ''libdhcp_ha.so'')
      | _ \<Rightarrow> Inl AttributeError)"

definition ha_of_hook :: "json \<Rightarrow> json option res" where
  "ha_of_hook lib =
     rbind (py_get (obj_or_empty (jget lib ''parameters'')) ''high-availability'') (\<lambda>l.
       if \<not> truthy l then Inr None
       else rbind (item0 l) (\<lambda>ha. if is_dict ha then Inr (Some (ha_block ha)) else Inl AttributeError))"

fun ha_in_libs :: "json list \<Rightarrow> json option res" where
  "ha_in_libs [] = Inr None"
| "ha_in_libs (lib # libs) =
     (if \<not> is_dict lib then ha_in_libs libs
      else rbind (is_ha_hook lib) (\<lambda>b. if b then ha_of_hook lib else ha_in_libs libs))"

definition ha_config :: "json \<Rightarrow> json option res" where
  "ha_config dhcp4_cfg =
     (if \<not> truthy dhcp4_cfg then Inr None
      else rbind (py_get_default dhcp4_cfg ''hooks-libraries'' (JList [])) (\<lambda>l.
           rbind (py_iter (py_or l (JList []))) ha_in_libs))"

definition peer_other :: "json \<Rightarrow> json \<Rightarrow> json list res" where
  "peer_other this_name p =
     rbind (py_get p ''name'') (\<lambda>n. Inr (if truthy n \<and> \<not> py_eq n this_name then [n] else []))"

definition partner_name :: "json \<Rightarrow> json option res" where
  "partner_name cfg =
     (let this_name = jget cfg ''this_server_name'' in
      if \<not> truthy this_name then Inr None
      else rbind (py_iter (jget_default cfg ''peers'' (JList []))) (\<lambda>peers.
           rbind (collect (peer_other this_name) peers) (\<lambda>os.
             case concat os of [n] \<Rightarrow> Inr (Some n) | _ \<Rightarrow> Inr None)))"

section \<open>The stepper\<close>

definition maint_steps :: "string list" where
  "maint_steps = [''preflight'', ''handover'', ''work'', ''back'', ''done'']"

definition preflight_check_ids :: "string list" where
  "preflight_check_ids =
     [''kea_reachable'', ''kea_ha_state'', ''kea_time_sync'', ''kea_config_drift'', ''lease_snapshot_fresh'']"

definition handover_timeout :: int where
  "handover_timeout = 60 * 1000000"

definition normal_state :: "json \<Rightarrow> bool" where
  "normal_state v = (v = JStr ''hot-standby'' \<or> v = JStr ''load-balancing'')"

record kea_server =
  ks_id :: int
  ks_name :: string

datatype no_partner = NoHook | NoSinglePartner | PartnerUnknown json

fun partner_among :: "int \<Rightarrow> json \<Rightarrow> (int \<Rightarrow> json option) \<Rightarrow> kea_server list \<Rightarrow> kea_server option" where
  "partner_among down_id want ha_configs [] = None"
| "partner_among down_id want ha_configs (s # ss) =
     (if ks_id s = down_id then partner_among down_id want ha_configs ss
      else case ha_configs (ks_id s) of
             Some cfg \<Rightarrow> (if py_eq (jget cfg ''this_server_name'') want then Some s
                          else partner_among down_id want ha_configs ss)
           | None \<Rightarrow> partner_among down_id want ha_configs ss)"

definition resolve_partner :: "kea_server \<Rightarrow> kea_server list \<Rightarrow> (int \<Rightarrow> json option) \<Rightarrow> (no_partner + kea_server) res" where
  "resolve_partner down servers ha_configs =
     (case ha_configs (ks_id down) of
        None \<Rightarrow> Inr (Inl NoHook)
      | Some a_cfg \<Rightarrow>
          rbind (partner_name a_cfg) (\<lambda>want.
            case want of
              None \<Rightarrow> Inr (Inl NoSinglePartner)
            | Some w \<Rightarrow>
                (case partner_among (ks_id down) w ha_configs servers of
                   Some s \<Rightarrow> Inr (Inr s)
                 | None \<Rightarrow> Inr (Inl (PartnerUnknown w)))))"

definition leases_shared :: "json option \<Rightarrow> bool" where
  "leases_shared a_cfg =
     (case a_cfg of
        None \<Rightarrow> False
      | Some c \<Rightarrow> jget c ''send_lease_updates'' = JBool False \<or> jget c ''sync_leases'' = JBool False)"

definition local_state :: "json option \<Rightarrow> json" where
  "local_state status = (case status of None \<Rightarrow> JNull | Some s \<Rightarrow> jget (obj_or_empty (jget s ''local'')) ''state'')"

text \<open>The flow as the session holds it.\<close>

record flow =
  fl_down :: int
  fl_up :: int
  fl_down_name :: string
  fl_up_name :: string
  fl_step :: string
  fl_step_at :: "int option"
  fl_shared :: bool
  fl_preflight :: "(string \<times> string) list"
  fl_preflight_ok :: bool

datatype tone = ToneOk | ToneWait | ToneWarn | ToneFail

datatype maint_message =
    MsgPreflight
  | MsgMayShutDown       \<comment> \<open>the partner serves everything, this server can be shut down\<close>
  | MsgNoHandover bool bool bool
  | MsgWaitHandover
  | MsgServesAlone | MsgOutOfService | MsgUnexpected
  | MsgBothNormal | MsgWaitAnswer | MsgSyncing bool
  | MsgFinished

record view =
  vw_step :: string
  vw_advance :: "string option"
  vw_down_state :: json
  vw_up_state :: json
  vw_can_cancel :: bool
  vw_timed_out :: bool
  vw_tone :: tone
  vw_message :: maint_message

definition step_age :: "int option \<Rightarrow> int \<Rightarrow> int" where
  "step_age step_at now = (case step_at of None \<Rightarrow> 0 | Some t \<Rightarrow> now - t)"

definition handed_over :: "json \<Rightarrow> json \<Rightarrow> bool" where
  "handed_over sa sb \<longleftrightarrow> sb = JStr ''partner-in-maintenance'' \<and> sa = JStr ''in-maintenance''"

definition next_step :: "flow \<Rightarrow> json option \<Rightarrow> json option \<Rightarrow> int \<Rightarrow> view" where
  "next_step st status_down status_up now =
     (let step = fl_step st; sa = local_state status_down; sb = local_state status_up;
          can = (sb = JStr ''partner-in-maintenance'');
          out = \<lparr>vw_step = step, vw_advance = None, vw_down_state = sa, vw_up_state = sb, vw_can_cancel = can,
                 vw_timed_out = False, vw_tone = ToneWait, vw_message = MsgFinished\<rparr>
      in if step = ''preflight'' then
           out\<lparr>vw_tone := (if normal_state sa \<and> normal_state sb then ToneOk else ToneWarn), vw_message := MsgPreflight\<rparr>
         else if step = ''handover'' then
           (if handed_over sa sb then
              out\<lparr>vw_advance := Some ''work'', vw_tone := ToneOk, vw_message := MsgMayShutDown\<rparr>
            else if step_age (fl_step_at st) now > handover_timeout then
              out\<lparr>vw_timed_out := True, vw_tone := ToneFail,
                  vw_message := MsgNoHandover (\<not> can) (sa \<noteq> JStr ''in-maintenance'') can\<rparr>
            else out\<lparr>vw_message := MsgWaitHandover\<rparr>)
         else if step = ''work'' then
           (if sb = JStr ''partner-down'' \<or> sa = JNull then
              out\<lparr>vw_tone := ToneOk, vw_message := MsgServesAlone\<rparr>
            else if can then out\<lparr>vw_tone := ToneOk, vw_message := MsgOutOfService\<rparr>
            else out\<lparr>vw_tone := ToneWarn, vw_message := MsgUnexpected\<rparr>)
         else if step = ''back'' then
           (if normal_state sa \<and> normal_state sb then
              out\<lparr>vw_advance := Some ''done'', vw_tone := ToneOk, vw_message := MsgBothNormal\<rparr>
            else if sa = JNull then out\<lparr>vw_message := MsgWaitAnswer\<rparr>
            else out\<lparr>vw_message := MsgSyncing (fl_shared st)\<rparr>)
         else out\<lparr>vw_tone := ToneOk\<rparr>)"

section \<open>The requests\<close>

text \<open>What the settings and Kea say while a request is handled: the servers, the time, the answer of each
  server to \<open>status-get\<close> (\<open>None\<close>: the call raised) and to \<open>config-get\<close>, whether a command is carried out,
  and the health checks as pairs of an id and a status.\<close>

record kea_world =
  kw_servers :: "kea_server list"
  kw_now :: int
  kw_status :: "int \<Rightarrow> json option"
  kw_config :: "int \<Rightarrow> json"
  kw_carries_out :: "int \<Rightarrow> string \<Rightarrow> bool"
  kw_checks :: "(string \<times> string) list"

datatype request =
    GetPage | PostBegin "int option" | GetStatus | PostHandover | PostCancel | PostBack | PostFinish

datatype effect = Sent int string | Audited string

datatype reply =
    ShowStart | ShowView view nat | NotActive
  | ServerGone | PickServer | NoServer | NoPartner no_partner | Started
  | NotStarted | PreflightFailed | Refused | TakingOver | NotRunning | Canceled
  | NothingToBringBack | BroughtBack | Ended
  | Raised exc

definition find_server :: "kea_world \<Rightarrow> int \<Rightarrow> kea_server option" where
  "find_server w i = find (\<lambda>s. ks_id s = i) (kw_servers w)"

definition maint_status :: "kea_world \<Rightarrow> kea_server \<Rightarrow> json option" where
  "maint_status w s =
     (case kw_status w (ks_id s) of
        None \<Rightarrow> None
      | Some resp \<Rightarrow> (case ha_status resp of Inl e \<Rightarrow> None | Inr st \<Rightarrow> st))"

definition config_of_server :: "kea_world \<Rightarrow> kea_server \<Rightarrow> (int \<times> json option) res" where
  "config_of_server w s =
     (let r = kw_config w (ks_id s) in
      if answered_ok r then
        rbind (py_get_default (obj_or_empty (jget r ''arguments'')) ''Dhcp4'' (JObj [])) (\<lambda>dhcp4.
        rbind (ha_config dhcp4) (\<lambda>c. Inr (ks_id s, c)))
      else Inr (ks_id s, None))"

definition ha_configs_for_all :: "kea_world \<Rightarrow> (int \<Rightarrow> json option) res" where
  "ha_configs_for_all w =
     rbind (collect (config_of_server w) (kw_servers w)) (\<lambda>rows.
       Inr (\<lambda>i. case map_of (rev rows) i of Some c \<Rightarrow> c | None \<Rightarrow> None))"

definition preflight_rows :: "(string \<times> string) list \<Rightarrow> (string \<times> string) list" where
  "preflight_rows checks =
     concat (map (\<lambda>cid. case map_of (rev checks) cid of Some s \<Rightarrow> [(cid, s)] | None \<Rightarrow> []) preflight_check_ids)"

definition maint_view :: "kea_world \<Rightarrow> flow \<Rightarrow> flow \<times> effect list \<times> reply option" where
  "maint_view w st =
     (case (find_server w (fl_down st), find_server w (fl_up st)) of
        (Some down, Some up) \<Rightarrow>
          let v = next_step st (maint_status w down) (maint_status w up) (kw_now w);
              st' = (case vw_advance v of
                       None \<Rightarrow> st | Some s \<Rightarrow> st\<lparr>fl_step := s, fl_step_at := Some (kw_now w)\<rparr>);
              effs = (case vw_advance v of None \<Rightarrow> [] | Some s \<Rightarrow> [Audited s]);
              v' = (case vw_advance v of None \<Rightarrow> v | Some s \<Rightarrow> v\<lparr>vw_step := s\<rparr>)
          in (st', effs,
              Some (case find_index (\<lambda>s. s = fl_step st') maint_steps of
                      Some i \<Rightarrow> ShowView v' i | None \<Rightarrow> Raised ValueError))
      | _ \<Rightarrow> (st, [], None))"

definition handle_page :: "kea_world \<Rightarrow> flow option \<Rightarrow> flow option \<times> effect list \<times> reply" where
  "handle_page w session =
     (case session of
        None \<Rightarrow> (None, [], ShowStart)
      | Some st \<Rightarrow>
          (case maint_view w st of
             (st', effs, None) \<Rightarrow> (None, effs, ServerGone)
           | (st', effs, Some r) \<Rightarrow> (Some st', effs, r)))"

definition handle_status :: "kea_world \<Rightarrow> flow option \<Rightarrow> flow option \<times> effect list \<times> reply" where
  "handle_status w session =
     (case session of
        None \<Rightarrow> (None, [], NotActive)
      | Some st \<Rightarrow>
          (case maint_view w st of
             (st', effs, None) \<Rightarrow> (Some st', effs, NotActive)
           | (st', effs, Some r) \<Rightarrow> (Some st', effs, r)))"

definition new_flow :: "kea_world \<Rightarrow> (int \<Rightarrow> json option) \<Rightarrow> kea_server \<Rightarrow> kea_server \<Rightarrow> flow" where
  "new_flow w configs down up =
     (let rows = preflight_rows (kw_checks w) in
      \<lparr>fl_down = ks_id down, fl_up = ks_id up, fl_down_name = ks_name down, fl_up_name = ks_name up,
       fl_step = ''preflight'', fl_step_at = Some (kw_now w), fl_shared = leases_shared (configs (ks_id down)),
       fl_preflight = rows, fl_preflight_ok = (\<not> list_ex (\<lambda>r. snd r = ''fail'') rows)\<rparr>)"

definition handle_begin :: "kea_world \<Rightarrow> int option \<Rightarrow> flow option \<Rightarrow> flow option \<times> effect list \<times> reply" where
  "handle_begin w form session =
     (case form of
        None \<Rightarrow> (session, [], PickServer)
      | Some down_id \<Rightarrow>
          (case find_server w down_id of
             None \<Rightarrow> (session, [], NoServer)
           | Some down \<Rightarrow>
               (case ha_configs_for_all w of
                  Inl e \<Rightarrow> (session, [], Raised e)
                | Inr configs \<Rightarrow>
                    (case resolve_partner down (kw_servers w) configs of
                       Inl e \<Rightarrow> (session, [], Raised e)
                     | Inr (Inl reason) \<Rightarrow> (session, [], NoPartner reason)
                     | Inr (Inr up) \<Rightarrow> (Some (new_flow w configs down up), [Audited ''preflight''], Started)))))"

definition handle_handover :: "kea_world \<Rightarrow> flow option \<Rightarrow> flow option \<times> effect list \<times> reply" where
  "handle_handover w session =
     (case session of
        None \<Rightarrow> (session, [], NotStarted)
      | Some st \<Rightarrow>
          (case find_server w (fl_up st) of
             None \<Rightarrow> (session, [], NotStarted)
           | Some up \<Rightarrow>
               if fl_step st \<noteq> ''preflight'' then (session, [], NotStarted)
               else if \<not> fl_preflight_ok st then (session, [], PreflightFailed)
               else
                 let effs = [Sent (ks_id up) ''ha-maintenance-start'', Audited ''handover''] in
                 if \<not> kw_carries_out w (ks_id up) ''ha-maintenance-start'' then (session, effs, Refused)
                 else (Some (st\<lparr>fl_step := ''handover'', fl_step_at := Some (kw_now w)\<rparr>), effs,
                       (if find_server w (fl_down st) = None then Raised TypeError else TakingOver))))"

definition handle_cancel :: "kea_world \<Rightarrow> flow option \<Rightarrow> flow option \<times> effect list \<times> reply" where
  "handle_cancel w session =
     (case session of
        None \<Rightarrow> (session, [], NotRunning)
      | Some st \<Rightarrow>
          (case find_server w (fl_up st) of
             None \<Rightarrow> (session, [], NotRunning)
           | Some up \<Rightarrow>
               let effs = [Sent (ks_id up) ''ha-maintenance-cancel'', Audited ''cancel''] in
               if \<not> kw_carries_out w (ks_id up) ''ha-maintenance-cancel'' then (session, effs, Refused)
               else (None, effs, (if find_server w (fl_down st) = None then Raised TypeError else Canceled))))"

definition handle_back :: "kea_world \<Rightarrow> flow option \<Rightarrow> flow option \<times> effect list \<times> reply" where
  "handle_back w session =
     (case session of
        None \<Rightarrow> (session, [], NothingToBringBack)
      | Some st \<Rightarrow>
          if fl_step st \<noteq> ''work'' then (session, [], NothingToBringBack)
          else (Some (st\<lparr>fl_step := ''back'', fl_step_at := Some (kw_now w)\<rparr>), [Audited ''back''], BroughtBack))"

definition handle_finish :: "flow option \<Rightarrow> flow option \<times> effect list \<times> reply" where
  "handle_finish session = (None, (case session of None \<Rightarrow> [] | Some st \<Rightarrow> [Audited ''finish'']), Ended)"

fun handle :: "kea_world \<Rightarrow> request \<Rightarrow> flow option \<Rightarrow> flow option \<times> effect list \<times> reply" where
  "handle w GetPage = handle_page w"
| "handle w (PostBegin form) = handle_begin w form"
| "handle w GetStatus = handle_status w"
| "handle w PostHandover = handle_handover w"
| "handle w PostCancel = handle_cancel w"
| "handle w PostBack = handle_back w"
| "handle w PostFinish = handle_finish"

definition session_after :: "kea_world \<times> request \<Rightarrow> flow option \<Rightarrow> flow option" where
  "session_after e session = fst (handle (fst e) (snd e) session)"

definition effects_of :: "kea_world \<times> request \<Rightarrow> flow option \<Rightarrow> effect list" where
  "effects_of e session = fst (snd (handle (fst e) (snd e) session))"

definition reply_of :: "kea_world \<times> request \<Rightarrow> flow option \<Rightarrow> reply" where
  "reply_of e session = snd (snd (handle (fst e) (snd e) session))"

text \<open>The sessions of a run: every request is handled in the session the one before it left.\<close>

inductive reaches :: "(kea_world \<times> request) list \<Rightarrow> flow option \<Rightarrow> bool" where
  Signed_in: "reaches [] None"
| Request: "reaches es s \<Longrightarrow> reaches (es @ [e]) (session_after e s)"

end
