(* ===== verification/MaintenanceProps.thy ===== *)
theory MaintenanceProps
  imports Maintenance
begin

text \<open>
  What holds of every maintenance flow: the sessions a run of requests can leave, the commands it can send
  to Kea, and how far it goes.

  \<open>moves\<close> is the state machine the requests implement; \<open>session_after_cases\<close> shows that a request leaves
  the session as it was, ends the flow, starts a new one or takes one of its moves.
\<close>

section \<open>The state machine\<close>

definition down_says :: "kea_world \<Rightarrow> flow \<Rightarrow> json" where
  "down_says w st = local_state (case find_server w (fl_down st) of Some s \<Rightarrow> maint_status w s | None \<Rightarrow> None)"

definition up_says :: "kea_world \<Rightarrow> flow \<Rightarrow> json" where
  "up_says w st = local_state (case find_server w (fl_up st) of Some s \<Rightarrow> maint_status w s | None \<Rightarrow> None)"

definition looks :: "request \<Rightarrow> bool" where
  "looks r \<longleftrightarrow> r = GetPage \<or> r = GetStatus"

inductive moves :: "kea_world \<Rightarrow> request \<Rightarrow> flow \<Rightarrow> string \<Rightarrow> bool" where
  Handover: "fl_step st = ''preflight'' \<Longrightarrow> fl_preflight_ok st \<Longrightarrow>
      kw_carries_out w (fl_up st) ''ha-maintenance-start'' \<Longrightarrow> moves w PostHandover st ''handover''"
| Quiet: "looks r \<Longrightarrow> fl_step st = ''handover'' \<Longrightarrow> handed_over (down_says w st) (up_says w st) \<Longrightarrow>
      moves w r st ''work''"
| Back: "fl_step st = ''work'' \<Longrightarrow> moves w PostBack st ''back''"
| Normal: "looks r \<Longrightarrow> fl_step st = ''back'' \<Longrightarrow> normal_state (down_says w st) \<Longrightarrow> normal_state (up_says w st) \<Longrightarrow>
      moves w r st ''done''"

inductive_cases moves_lookE: "moves w GetStatus st step"

lemma find_server_id: "find_server w i = Some s \<Longrightarrow> ks_id s = i"
  by (auto simp: find_server_def find_Some_iff)

lemma find_server_in: "find_server w i = Some s \<Longrightarrow> s \<in> set (kw_servers w)"
  by (auto simp: find_server_def find_Some_iff)

lemma advance_moves:
  assumes "find_server w (fl_down st) = Some down" and "find_server w (fl_up st) = Some up"
    and "vw_advance (next_step st (maint_status w down) (maint_status w up) (kw_now w)) = Some step" and "looks r"
  shows "moves w r st step"
  using assms
  by (auto simp: next_step_def Let_def down_says_def up_says_def split: if_splits intro!: moves.Quiet moves.Normal)

lemma maint_view_cases:
  assumes "maint_view w st = (st', effs, r)"
  shows "(st' = st \<and> effs = []) \<or>
    (\<exists>step. (\<forall>q. looks q \<longrightarrow> moves w q st step) \<and> effs = [Audited step] \<and>
      st' = st\<lparr>fl_step := step, fl_step_at := Some (kw_now w)\<rparr>)"
proof (cases "find_server w (fl_down st)")
  case None
  then show ?thesis using assms by (simp add: maint_view_def)
next
  case (Some down)
  show ?thesis
  proof (cases "find_server w (fl_up st)")
    case None
    then show ?thesis using assms Some by (simp add: maint_view_def)
  next
    case (Some up)
    note d = \<open>find_server w (fl_down st) = Some down\<close>
    let ?a = "vw_advance (next_step st (maint_status w down) (maint_status w up) (kw_now w))"
    show ?thesis
    proof (cases ?a)
      case None
      then show ?thesis using assms d Some by (simp add: maint_view_def Let_def)
    next
      case (Some step)
      then show ?thesis
        using assms d \<open>find_server w (fl_up st) = Some up\<close> advance_moves [OF d \<open>find_server w (fl_up st) = Some up\<close> Some]
        by (auto simp: maint_view_def Let_def)
    qed
  qed
qed

definition begins :: "kea_world \<Rightarrow> request \<Rightarrow> flow \<Rightarrow> bool" where
  "begins w r st \<longleftrightarrow> (\<exists>down up configs. r = PostBegin (Some (ks_id down)) \<and> find_server w (ks_id down) = Some down \<and>
     ha_configs_for_all w = Inr configs \<and> resolve_partner down (kw_servers w) configs = Inr (Inr up) \<and>
     st = new_flow w configs down up)"

lemma looked_cases:
  assumes "s = Some st" and "maint_view w st = (st'', effs, x)" and "Some st'' = Some st'" and "looks r"
  shows "s = Some st' \<or> (\<exists>step. moves w r st step \<and> st' = st\<lparr>fl_step := step, fl_step_at := Some (kw_now w)\<rparr>)"
  using maint_view_cases [OF assms(2)] assms by auto

lemma begin_cases:
  "session_after (w, PostBegin form) s = s \<or> (\<exists>st. session_after (w, PostBegin form) s = Some st \<and> begins w (PostBegin form) st)"
  by (auto simp: session_after_def handle_begin_def begins_def find_server_id split: option.split sum.split
      dest: find_server_id)

lemma handover_cases:
  "session_after (w, PostHandover) s = s \<or> (\<exists>st. s = Some st \<and> moves w PostHandover st ''handover'' \<and>
     session_after (w, PostHandover) s = Some (st\<lparr>fl_step := ''handover'', fl_step_at := Some (kw_now w)\<rparr>))"
  by (auto simp: session_after_def handle_handover_def Let_def moves.simps split: option.split dest: find_server_id)

lemma session_after_cases:
  assumes "session_after (w, r) s = Some st'"
  obtains (same) "s = Some st'"
  | (begun) "begins w r st'"
  | (moved) st step where "s = Some st" "moves w r st step" "st' = st\<lparr>fl_step := step, fl_step_at := Some (kw_now w)\<rparr>"
proof (cases r)
  case GetPage
  then obtain st st'' effs x where "s = Some st" "maint_view w st = (st'', effs, x)" "Some st'' = Some st'" "looks r"
    using assms by (auto simp: session_after_def handle_page_def looks_def split: option.splits prod.splits)
  from looked_cases [OF this] \<open>s = Some st\<close> show ?thesis using that by auto
next
  case GetStatus
  then obtain st st'' effs x where "s = Some st" "maint_view w st = (st'', effs, x)" "Some st'' = Some st'" "looks r"
    using assms by (auto simp: session_after_def handle_status_def looks_def split: option.splits prod.splits)
  from looked_cases [OF this] \<open>s = Some st\<close> show ?thesis using that by auto
next
  case (PostBegin form)
  then show ?thesis using assms that(1,2) begin_cases [of w form s] by auto
next
  case PostHandover
  then show ?thesis using assms that(1,3) handover_cases [of w s] by auto
next
  case PostCancel
  then show ?thesis
    using assms that(1) by (auto simp: session_after_def handle_cancel_def Let_def split: option.splits if_splits)
next
  case PostBack
  then show ?thesis
    using assms that(1,3) by (auto simp: session_after_def handle_back_def moves.simps split: option.splits if_splits)
next
  case PostFinish
  then show ?thesis using assms by (simp add: session_after_def handle_finish_def)
qed

section \<open>A pair of servers\<close>

text \<open>Server 1 is taken down, server 2 keeps serving; both know each other.\<close>

definition pair_config :: "string \<Rightarrow> json" where
  "pair_config name = JObj [(''result'', JInt 0), (''arguments'', JObj [(''Dhcp4'', JObj [(''hooks-libraries'',
     JList [JObj [(''library'', JStr ''/usr/lib/libdhcp_ha.so''), (''parameters'', JObj [(''high-availability'',
       JList [JObj [(''this-server-name'', JStr name),
         (''peers'', JList [JObj [(''name'', JStr ''a'')], JObj [(''name'', JStr ''b'')]])]])])]])])])]"

definition pair_status :: "string \<Rightarrow> json" where
  "pair_status state = JObj [(''result'', JInt 0), (''arguments'', JObj [(''high-availability'',
     JList [JObj [(''ha-servers'', JObj [(''local'', JObj [(''state'', JStr state)])])]])])]"

definition pair_world :: "string \<Rightarrow> string \<Rightarrow> kea_world" where
  "pair_world sa sb = \<lparr>kw_servers = [\<lparr>ks_id = 1, ks_name = ''alpha''\<rparr>, \<lparr>ks_id = 2, ks_name = ''beta''\<rparr>], kw_now = 0,
     kw_status = (\<lambda>i. Some (pair_status (if i = 1 then sa else sb))),
     kw_config = (\<lambda>i. pair_config (if i = 1 then ''a'' else ''b'')),
     kw_carries_out = (\<lambda>i c. True), kw_checks = [(''kea_reachable'', ''ok'')]\<rparr>"

definition pair_run :: "(kea_world \<times> request) list" where
  "pair_run =
     [(pair_world ''hot-standby'' ''hot-standby'', PostBegin (Some 1)),
      (pair_world ''hot-standby'' ''hot-standby'', PostHandover),
      (pair_world ''in-maintenance'' ''partner-in-maintenance'', GetStatus)]"

definition pair_flow :: "string \<Rightarrow> flow" where
  "pair_flow step = \<lparr>fl_down = 1, fl_up = 2, fl_down_name = ''alpha'', fl_up_name = ''beta'', fl_step = step,
     fl_step_at = Some 0, fl_shared = False, fl_preflight = [(''kea_reachable'', ''ok'')], fl_preflight_ok = True\<rparr>"

lemma reaches_run: "reaches es (foldl (\<lambda>s e. session_after e s) None es)"
  by (induction es rule: rev_induct) (auto intro: reaches.intros)

lemma pair_begun: "foldl (\<lambda>s e. session_after e s) None (take 1 pair_run) = Some (pair_flow ''preflight'')"
  by code_simp

lemma pair_quiet: "foldl (\<lambda>s e. session_after e s) None pair_run = Some (pair_flow ''work'')"
  by code_simp

lemma pair_reaches: "reaches (take 1 pair_run) (Some (pair_flow ''preflight''))" "reaches pair_run (Some (pair_flow ''work''))"
  using reaches_run [of "take 1 pair_run"] reaches_run [of pair_run] by (simp_all only: pair_begun pair_quiet)

section \<open>Every session is well formed\<close>

definition wf_flow :: "flow \<Rightarrow> bool" where
  "wf_flow st \<longleftrightarrow> fl_step st \<in> set maint_steps \<and> fl_down st \<noteq> fl_up st \<and> fl_step_at st \<noteq> None \<and>
     (fl_preflight_ok st \<longleftrightarrow> \<not> list_ex (\<lambda>r. snd r = ''fail'') (fl_preflight st)) \<and>
     (fl_step st \<noteq> ''preflight'' \<longrightarrow> fl_preflight_ok st)"

lemma partner_among_other: "partner_among d want cfgs ss = Some s \<Longrightarrow> ks_id s \<noteq> d \<and> s \<in> set ss"
  by (induction ss) (auto split: if_splits option.splits)

lemma resolved_other: "resolve_partner down ss cfgs = Inr (Inr up) \<Longrightarrow> ks_id up \<noteq> ks_id down \<and> up \<in> set ss"
  by (auto simp: resolve_partner_def res_simps split: option.splits dest: partner_among_other)

lemma begins_wf: "begins w r st \<Longrightarrow> wf_flow st \<and> fl_step st = ''preflight''"
  by (auto simp: begins_def wf_flow_def new_flow_def Let_def maint_steps_def dest: resolved_other)

lemma moves_wf: "moves w r st step \<Longrightarrow> wf_flow st \<Longrightarrow> wf_flow (st\<lparr>fl_step := step, fl_step_at := Some t\<rparr>)"
  by (auto simp: wf_flow_def maint_steps_def elim!: moves.cases)

lemma session_wf: "session_after e s = Some st' \<Longrightarrow> (\<forall>st. s = Some st \<longrightarrow> wf_flow st) \<Longrightarrow> wf_flow st'"
  by (cases e) (auto elim!: session_after_cases dest: begins_wf moves_wf)

lemma reaches_wf: "reaches es s \<Longrightarrow> s = Some st \<Longrightarrow> wf_flow st"
  by (induction arbitrary: st rule: reaches.induct) (auto dest: session_wf)

lemma wf_index: "wf_flow st \<Longrightarrow> \<exists>i. find_index (\<lambda>s. s = fl_step st) maint_steps = Some i"
  by (auto simp: wf_flow_def find_index_iff_ex)

lemma next_step_keeps: "vw_step (next_step st sd su now) = fl_step st"
  by (simp add: next_step_def Let_def)

lemma maint_view_reply:
  assumes "maint_view w st = (st', effs, Some r)" and "find_index (\<lambda>s. s = fl_step st') maint_steps = Some i"
  shows "\<exists>v. r = ShowView v i \<and> vw_step v = fl_step st'"
  using assms by (auto simp: maint_view_def Let_def next_step_keeps split: option.splits)

lemma view_replies:
  assumes "wf_flow st" and "maint_view w st = (st', effs, Some r)"
  shows "\<exists>v i. r = ShowView v i \<and> find_index (\<lambda>s. s = fl_step st') maint_steps = Some i \<and> vw_step v = fl_step st'"
proof -
  from maint_view_cases [OF assms(2)] have "wf_flow st'"
    using assms(1) moves_wf by (auto simp: looks_def)
  from wf_index [OF this] obtain i where "find_index (\<lambda>s. s = fl_step st') maint_steps = Some i" ..
  with maint_view_reply [OF assms(2)] show ?thesis by blast
qed

text \<open>
  C16. In every session a run of requests can leave, the step of a maintenance flow is one of the five steps,
  the two servers differ and a flow past the preflight has no failed check; so the page and its status
  never fail on an unknown step: a shown view carries the step of the session after the request and its index.
\<close>
theorem maint_session_typed:
  assumes "reaches es s" and "r = GetPage \<or> r = GetStatus"
  shows "(case s of None \<Rightarrow> True | Some st \<Rightarrow> wf_flow st) \<and>
    (case reply_of (w, r) s of
       Raised x \<Rightarrow> False
     | ShowView v i \<Rightarrow> \<exists>st'. session_after (w, r) s = Some st' \<and> i < length maint_steps \<and> maint_steps ! i = fl_step st' \<and>
         vw_step v = fl_step st'
     | _ \<Rightarrow> True)"
proof (cases s)
  case None
  then show ?thesis using assms(2) by (auto simp: reply_of_def handle_page_def handle_status_def)
next
  case (Some st)
  with assms(1) have wf: "wf_flow st" by (simp add: reaches_wf)
  obtain st' effs x where v: "maint_view w st = (st', effs, x)" by (metis prod_cases3)
  show ?thesis
  proof (cases x)
    case None
    then show ?thesis using assms(2) Some wf v by (auto simp: reply_of_def handle_page_def handle_status_def)
  next
    case (Some y)
    with view_replies [OF wf] v obtain u i
      where "y = ShowView u i" "find_index (\<lambda>s. s = fl_step st') maint_steps = Some i" "vw_step u = fl_step st'" by blast
    then show ?thesis
      using assms(2) \<open>s = Some st\<close> Some wf v
      by (auto simp: reply_of_def session_after_def handle_page_def handle_status_def dest: find_index_SomeD)
  qed
qed

lemma maint_session_typed_witness:
  "wf_flow (pair_flow ''work'') \<and>
   (\<exists>v i st'. reply_of (pair_world ''in-maintenance'' ''partner-in-maintenance'', GetStatus) (Some (pair_flow ''work'')) = ShowView v i \<and>
     session_after (pair_world ''in-maintenance'' ''partner-in-maintenance'', GetStatus) (Some (pair_flow ''work'')) = Some st' \<and>
     maint_steps ! i = fl_step st')"
proof -
  have "\<exists>v i. reply_of (pair_world ''in-maintenance'' ''partner-in-maintenance'', GetStatus) (Some (pair_flow ''work'')) = ShowView v i"
    by (intro exI) code_simp
  then show ?thesis
    using maint_session_typed [OF pair_reaches(2), of GetStatus "pair_world ''in-maintenance'' ''partner-in-maintenance''"]
    by auto
qed

section \<open>What is sent to Kea\<close>

lemma maint_view_sends: "maint_view w st = (st', effs, x) \<Longrightarrow> Sent i c \<notin> set effs"
  using maint_view_cases by fastforce

lemma effects_sent:
  assumes "Sent i c \<in> set (effects_of (w, r) s)"
  shows "\<exists>st. s = Some st \<and> i = fl_up st \<and>
    (r = PostHandover \<and> c = ''ha-maintenance-start'' \<and> fl_step st = ''preflight'' \<and> fl_preflight_ok st \<or>
     r = PostCancel \<and> c = ''ha-maintenance-cancel'')"
  using assms
  by (cases r) (auto simp: effects_of_def handle_page_def handle_status_def handle_begin_def handle_handover_def
      handle_cancel_def handle_back_def handle_finish_def Let_def find_server_id
      dest: maint_view_sends split: option.splits sum.splits if_splits prod.splits)

text \<open>
  C17. The only commands a maintenance flow sends to Kea are ha-maintenance-start and ha-maintenance-cancel,
  and both go to the server that keeps serving, never to the one being taken down. The start is sent by a
  handover from the preflight step whose checks did not fail.
\<close>
theorem maint_commands_to_partner:
  assumes "reaches es s" and "Sent i c \<in> set (effects_of (w, r) s)"
  shows "\<exists>st. s = Some st \<and> i = fl_up st \<and> i \<noteq> fl_down st \<and>
    (r = PostHandover \<and> c = ''ha-maintenance-start'' \<and> fl_step st = ''preflight'' \<and>
       \<not> list_ex (\<lambda>row. snd row = ''fail'') (fl_preflight st) \<or>
     r = PostCancel \<and> c = ''ha-maintenance-cancel'')"
  using effects_sent [OF assms(2)] reaches_wf [OF assms(1)] by (auto simp: wf_flow_def)

lemma maint_commands_to_partner_witness:
  "\<exists>st. Some (pair_flow ''preflight'') = Some st \<and> (2::int) = fl_up st \<and> 2 \<noteq> fl_down st"
proof -
  have "Sent 2 ''ha-maintenance-start'' \<in> set (effects_of (pair_world [] [], PostHandover) (Some (pair_flow ''preflight'')))"
    by code_simp
  from maint_commands_to_partner [OF pair_reaches(1) this] show ?thesis by auto
qed

section \<open>When a server may be shut down\<close>

definition begun_in :: "flow \<Rightarrow> kea_world \<times> request \<Rightarrow> bool" where
  "begun_in st e \<longleftrightarrow> snd e = PostBegin (Some (fl_down st)) \<and> preflight_rows (kw_checks (fst e)) = fl_preflight st"

definition handed_in :: "flow \<Rightarrow> kea_world \<times> request \<Rightarrow> bool" where
  "handed_in st e \<longleftrightarrow> snd e = PostHandover \<and> kw_carries_out (fst e) (fl_up st) ''ha-maintenance-start''"

definition quiet_in :: "flow \<Rightarrow> kea_world \<times> request \<Rightarrow> bool" where
  "quiet_in st e \<longleftrightarrow> looks (snd e) \<and> handed_over (down_says (fst e) st) (up_says (fst e) st)"

lemmas milestone_defs = begun_in_def handed_in_def quiet_in_def

text \<open>The milestones behind a flow, in their order in the run.\<close>

fun trail :: "flow \<Rightarrow> (kea_world \<times> request) list \<Rightarrow> bool" where
  "trail st [b] \<longleftrightarrow> fl_step st = ''preflight'' \<and> begun_in st b"
| "trail st [b, h] \<longleftrightarrow> fl_step st = ''handover'' \<and> begun_in st b \<and> handed_in st h"
| "trail st [b, h, q] \<longleftrightarrow> fl_step st \<in> {''work'', ''back'', ''done''} \<and> begun_in st b \<and> handed_in st h \<and> quiet_in st q"
| "trail st _ \<longleftrightarrow> False"

lemma trail_cases:
  assumes "trail st ts"
  obtains b where "ts = [b]" "fl_step st = ''preflight''" "begun_in st b"
  | b h where "ts = [b, h]" "fl_step st = ''handover''" "begun_in st b" "handed_in st h"
  | b h q where "ts = [b, h, q]" "fl_step st \<in> {''work'', ''back'', ''done''}" "begun_in st b" "handed_in st h" "quiet_in st q"
  using assms by (cases "(st, ts)" rule: trail.cases) auto

lemma milestones_keep [simp]:
  "begun_in (st\<lparr>fl_step := x, fl_step_at := t\<rparr>) = begun_in st"
  "handed_in (st\<lparr>fl_step := x, fl_step_at := t\<rparr>) = handed_in st"
  "quiet_in (st\<lparr>fl_step := x, fl_step_at := t\<rparr>) = quiet_in st"
  by (auto simp: milestone_defs down_says_def up_says_def fun_eq_iff)

lemma begins_trail: "begins w r st \<Longrightarrow> trail st [(w, r)]"
  by (auto simp: begins_def begun_in_def new_flow_def Let_def)

lemma moves_table:
  assumes "moves w r st step"
  obtains "fl_step st = ''preflight''" "step = ''handover''" | "fl_step st = ''handover''" "step = ''work''"
  | "fl_step st = ''work''" "step = ''back''" | "fl_step st = ''back''" "step = ''done''"
  using assms by (cases rule: moves.cases) simp_all

lemma moves_handover: "moves w r st step \<Longrightarrow> fl_step st = ''preflight'' \<Longrightarrow> handed_in st (w, r)"
  by (erule moves.cases) (simp_all add: handed_in_def)

lemma moves_quiet: "moves w r st step \<Longrightarrow> fl_step st = ''handover'' \<Longrightarrow> quiet_in st (w, r)"
  by (erule moves.cases) (simp_all add: quiet_in_def)

lemma moves_trail:
  assumes "moves w r st step" and "trail st ts" and "st' = st\<lparr>fl_step := step, fl_step_at := t\<rparr>"
  shows "trail st' ts \<or> trail st' (ts @ [(w, r)])"
  using assms(2)
proof (cases rule: trail_cases)
  case 1
  with assms(1) show ?thesis using moves_handover [OF assms(1)] by (cases rule: moves_table) (simp_all add: assms(3))
next
  case 2
  with assms(1) show ?thesis using moves_quiet [OF assms(1)] by (cases rule: moves_table) (simp_all add: assms(3))
next
  case 3
  with assms(1) show ?thesis by (cases rule: moves_table) (simp_all add: assms(3))
qed

lemma session_trail:
  assumes "session_after (w, r) s = Some st'" and "\<And>st. s = Some st \<Longrightarrow> \<exists>ts. subseq ts es \<and> trail st ts"
  shows "\<exists>ts. subseq ts (es @ [(w, r)]) \<and> trail st' ts"
  using assms(1)
proof (cases rule: session_after_cases)
  case same
  then show ?thesis using assms(2) list_emb_prefix by blast
next
  case begun
  from begins_trail [OF this] have "subseq [(w, r)] (es @ [(w, r)]) \<and> trail st' [(w, r)]" by auto
  then show ?thesis ..
next
  case (moved st step)
  with assms(2) obtain ts where "subseq ts es" "trail st ts" by blast
  moreover from this have "subseq ts (es @ [(w, r)])" "subseq (ts @ [(w, r)]) (es @ [(w, r)])"
    by (auto intro: list_emb_prefix)
  ultimately show ?thesis using moves_trail [OF moved(2) _ moved(3)] by blast
qed

lemma reaches_trail: "reaches es s \<Longrightarrow> s = Some st \<Longrightarrow> \<exists>ts. subseq ts es \<and> trail st ts"
  by (induction arbitrary: st rule: reaches.induct) (auto dest: session_trail)

text \<open>
  The flow says that a server may be shut down (the step work, or one after it) only after, in this
  order: a begin for that server, a handover that the partner carried out, and a look at which the server
  itself said in-maintenance and its partner said partner-in-maintenance. No check of that begin had failed.
\<close>
theorem maint_work_after_quiet:
  assumes "reaches es (Some st)" and "fl_step st \<in> {''work'', ''back'', ''done''}"
  shows "\<exists>wb wh wq rq. subseq [(wb, PostBegin (Some (fl_down st))), (wh, PostHandover), (wq, rq)] es \<and>
    \<not> list_ex (\<lambda>row. snd row = ''fail'') (preflight_rows (kw_checks wb)) \<and>
    kw_carries_out wh (fl_up st) ''ha-maintenance-start'' \<and> looks rq \<and>
    handed_over (down_says wq st) (up_says wq st)"
proof -
  from reaches_trail [OF assms(1)] obtain ts where "subseq ts es" "trail st ts" by blast
  from this(2,1) show ?thesis
  proof (cases rule: trail_cases)
    case (3 b h q)
    have ok: "\<not> list_ex (\<lambda>row. snd row = ''fail'') (fl_preflight st)"
      using reaches_wf [OF assms(1)] assms(2) by (auto simp: wf_flow_def)
    have bhq: "b = (fst b, PostBegin (Some (fl_down st)))" "h = (fst h, PostHandover)" "q = (fst q, snd q)"
      using 3 by (auto simp: milestone_defs prod_eq_iff)
    have "subseq [(fst b, PostBegin (Some (fl_down st))), (fst h, PostHandover), (fst q, snd q)] es"
      using \<open>subseq ts es\<close> bhq 3(1) by metis
    then show ?thesis using 3 ok unfolding milestone_defs by metis
  qed (use assms(2) in auto)
qed

lemma maint_work_after_quiet_witness:
  "\<exists>wb wh wq rq. subseq [(wb, PostBegin (Some 1)), (wh, PostHandover), (wq, rq)] pair_run \<and>
    kw_carries_out wh 2 ''ha-maintenance-start'' \<and> handed_over (down_says wq (pair_flow ''work'')) (up_says wq (pair_flow ''work''))"
  using maint_work_after_quiet [OF pair_reaches(2)] by (fastforce simp: pair_flow_def)

section \<open>How far a flow goes\<close>

definition moves_left :: "flow option \<Rightarrow> nat" where
  "moves_left s =
     (case s of
        None \<Rightarrow> 0
      | Some st \<Rightarrow> (case find_index (\<lambda>x. x = fl_step st) maint_steps of Some i \<Rightarrow> 5 - i | None \<Rightarrow> 0))"

fun changes :: "(kea_world \<times> request) list \<Rightarrow> flow option \<Rightarrow> nat" where
  "changes [] s = 0"
| "changes (e # es) s = (if session_after e s = s then 0 else 1) + changes es (session_after e s)"

fun is_begin :: "request \<Rightarrow> bool" where
  "is_begin (PostBegin form) \<longleftrightarrow> True"
| "is_begin _ \<longleftrightarrow> False"

lemma moves_left_le: "moves_left s \<le> 5"
  by (auto simp: moves_left_def split: option.split)

lemma moves_left_pos: "wf_flow st \<Longrightarrow> 0 < moves_left (Some st)"
  by (auto simp: moves_left_def wf_flow_def maint_steps_def)

lemma moves_less: "moves w r st step \<Longrightarrow> moves_left (Some (st\<lparr>fl_step := step, fl_step_at := t\<rparr>)) < moves_left (Some st)"
  by (erule moves_table) (simp_all add: moves_left_def maint_steps_def)

lemma session_change_less:
  assumes "session_after e s \<noteq> s" and "\<not> is_begin (snd e)" and "\<And>st. s = Some st \<Longrightarrow> wf_flow st"
  shows "moves_left (session_after e s) < moves_left s"
proof (cases "session_after e s")
  case None
  with assms obtain st where "s = Some st" "wf_flow st" by (cases s) auto
  then show ?thesis using None moves_left_pos [of st] by (simp add: moves_left_def)
next
  case (Some st')
  obtain w r where e: "e = (w, r)" by (cases e)
  from Some [unfolded e] show ?thesis
  proof (cases rule: session_after_cases)
    case same
    then show ?thesis using assms(1) Some by simp
  next
    case begun
    then show ?thesis using assms(2) e by (auto simp: begins_def)
  next
    case (moved st step)
    then show ?thesis using Some moves_less by simp
  qed
qed

lemma session_after_wf: "(\<And>st. s = Some st \<Longrightarrow> wf_flow st) \<Longrightarrow> session_after e s = Some st' \<Longrightarrow> wf_flow st'"
  using session_wf by blast

lemma changes_bound:
  "(\<And>st. s = Some st \<Longrightarrow> wf_flow st) \<Longrightarrow> list_all (\<lambda>e. \<not> is_begin (snd e)) es \<Longrightarrow> changes es s \<le> moves_left s"
proof (induction es arbitrary: s)
  case (Cons e es)
  have "changes es (session_after e s) \<le> moves_left (session_after e s)"
  proof (rule Cons.IH)
    show "wf_flow st" if "session_after e s = Some st" for st
      using session_after_wf Cons.prems(1) that by blast
  qed (use Cons.prems(2) in simp)
  then show ?case
    using session_change_less [of e s] Cons.prems by (cases "session_after e s = s") auto
qed simp

text \<open>
  C18. A maintenance flow ends: once it has begun, no run of requests without another begin changes its
  session more than five times (four moves and the end), and one that has come further has fewer left.
\<close>
theorem maint_flow_ends:
  assumes "reaches es s" and "list_all (\<lambda>e. \<not> is_begin (snd e)) fs"
  shows "changes fs s \<le> moves_left s \<and> moves_left s \<le> 5"
  using changes_bound [OF _ assms(2)] reaches_wf [OF assms(1)] moves_left_le by blast

lemma maint_flow_ends_witness:
  "changes [(pair_world [] [], PostHandover), (pair_world ''in-maintenance'' ''partner-in-maintenance'', GetPage), (pair_world [] [], PostFinish)]
     (Some (pair_flow ''preflight'')) \<le> 5"
  using maint_flow_ends [OF pair_reaches(1), of "[(pair_world [] [], PostHandover),
      (pair_world ''in-maintenance'' ''partner-in-maintenance'', GetPage), (pair_world [] [], PostFinish)]"]
  by simp

text \<open>
  A server that is shut down before anybody looked at the finished handover leaves its flow at the
  handover step for good: as long as its partner does not say partner-in-maintenance again (it says
  partner-down, and later a normal state), no look and no handover or back request changes the session.
\<close>
theorem maint_early_shutdown_stuck:
  assumes "fl_step st = ''handover''"
    and "list_all (\<lambda>e. snd e \<in> {GetPage, GetStatus, PostHandover, PostBack} \<and>
      find_server (fst e) (fl_down st) \<noteq> None \<and> find_server (fst e) (fl_up st) \<noteq> None \<and>
      up_says (fst e) st \<noteq> JStr ''partner-in-maintenance'') es"
  shows "foldl (\<lambda>s e. session_after e s) (Some st) es = Some st"
  using assms(2)
proof (induction es)
  case (Cons e es)
  obtain w r where e: "e = (w, r)" by (cases e)
  have r: "r = GetPage \<or> r = GetStatus \<or> r = PostHandover \<or> r = PostBack"
    and up: "up_says w st \<noteq> JStr ''partner-in-maintenance''" using Cons.prems e by auto
  obtain d u where du: "find_server w (fl_down st) = Some d" "find_server w (fl_up st) = Some u"
    using Cons.prems e by auto
  have "vw_advance (next_step st (maint_status w d) (maint_status w u) (kw_now w)) = None"
    using up du assms(1) by (auto simp: next_step_def Let_def handed_over_def up_says_def)
  then have "session_after e (Some st) = Some st"
    using r e du assms(1)
    by (auto simp: session_after_def handle_page_def handle_status_def handle_handover_def handle_back_def
        maint_view_def Let_def)
  then show ?case using Cons by simp
qed simp

lemma maint_early_shutdown_stuck_witness:
  "foldl (\<lambda>s e. session_after e s) (Some (pair_flow ''handover''))
     [(pair_world [] ''partner-down'', GetPage), (pair_world ''hot-standby'' ''hot-standby'', PostBack)] = Some (pair_flow ''handover'')"
proof (rule maint_early_shutdown_stuck)
  show "fl_step (pair_flow ''handover'') = ''handover''" by code_simp
  have "find_server w (fl_down (pair_flow ''handover'')) \<noteq> None \<and> find_server w (fl_up (pair_flow ''handover'')) \<noteq> None"
    if "kw_servers w = kw_servers (pair_world [] [])" for w
    using that by (simp add: find_server_def pair_world_def pair_flow_def)
  moreover have "up_says (pair_world [] ''partner-down'') (pair_flow ''handover'') \<noteq> JStr ''partner-in-maintenance''" by code_simp
  moreover have "up_says (pair_world ''hot-standby'' ''hot-standby'') (pair_flow ''handover'') \<noteq> JStr ''partner-in-maintenance''" by code_simp
  ultimately show "list_all (\<lambda>e. snd e \<in> {GetPage, GetStatus, PostHandover, PostBack} \<and>
      find_server (fst e) (fl_down (pair_flow ''handover'')) \<noteq> None \<and> find_server (fst e) (fl_up (pair_flow ''handover'')) \<noteq> None \<and>
      up_says (fst e) (pair_flow ''handover'') \<noteq> JStr ''partner-in-maintenance'')
    [(pair_world [] ''partner-down'', GetPage), (pair_world ''hot-standby'' ''hot-standby'', PostBack)]"
    by (simp add: pair_world_def)
qed

end
