(* ===== verification/Incidents.thy ===== *)
theory Incidents
  imports ChangeSet OptionCatalog
begin

text \<open>
  The note of unresolved incidents of \<open>jen/services/kea_changeset.py\<close>: what a change that ended badly and
  a recovery that could not be proved leave behind for a person, and what clears it.

  The note is one row of the settings table, a JSON text. Only what the text parses to matters to the
  code, so the stored value is its parse; a text that is no JSON is kept as it is. A read-modify-write of the row is one
  transaction (\<open>update_global_setting\<close>): a flag says whether it goes through. The parser of time stamps
  (\<open>datetime.fromisoformat\<close>) and the wording of the error lines are parameters.
\<close>

section \<open>Reading the note\<close>

datatype stored = Blank | Note json | NoJson string

datatype note_error = Malformed | NoteRaises exc

definition raising :: "'a res \<Rightarrow> note_error + 'a" where
  "raising r = (case r of Inl e \<Rightarrow> Inl (NoteRaises e) | Inr x \<Rightarrow> Inr x)"

definition attention_kind :: json where
  "attention_kind = JStr ''attention''"

definition attention_categories :: "string list" where
  "attention_categories =
     [''remote-unknown'', ''restored-restart-unverified'', ''restart-failed'', ''tls-not-restored'', ''tls-local-stale'',
      ''restored-endpoint-unreachable'', ''probe-pending'', ''aborted'', ''tls-superseded'', ''record-forgotten'',
      ''config-api-unverified'', ''config-restart-failed'', ''rotation-pending'']"

definition outcome_statuses :: "json list" where
  "outcome_statuses = [JStr ''rolled_back'', JStr ''rollback_failed'']"

definition outcome_optional_lists :: "string list" where
  "outcome_optional_lists = [''needs_hands'', ''needs_hands_ids'', ''lines'', ''failed_restart'']"

definition max_incidents :: nat where "max_incidents = 20"

definition incidents_hard_ceiling :: nat where "incidents_hard_ceiling = 200"

fun is_server_id :: "json \<Rightarrow> bool" where
  "is_server_id (JInt i) = True"
| "is_server_id (JStr s) = (strip s \<noteq> [])"
| "is_server_id v = False"

fun is_timestamp :: "(string \<Rightarrow> bool) \<Rightarrow> json \<Rightarrow> bool" where
  "is_timestamp is_time (JStr s) = is_time (strip s)"
| "is_timestamp is_time v = False"

definition in_categories :: "json \<Rightarrow> bool res" where
  "in_categories v = (if hashable v then Inr (v \<in> set (map JStr attention_categories)) else Inl TypeError)"

definition recognized_attention :: "(string \<Rightarrow> bool) \<Rightarrow> json \<Rightarrow> bool res" where
  "recognized_attention is_time entry =
     rbind (in_categories (jget entry ''category'')) (\<lambda>b.
       Inr (b \<and> jget entry ''service'' \<in> {JStr ''dhcp4'', JStr ''dhcp6'', JStr ''d2''} \<and>
            is_server_id (jget entry ''server_id'') \<and> is_str (jget entry ''summary'') \<and>
            is_timestamp is_time (jget entry ''at'')))"

definition recognized_outcome :: "(string \<Rightarrow> bool) \<Rightarrow> json \<Rightarrow> bool" where
  "recognized_outcome is_time entry =
     (jget entry ''status'' \<in> set outcome_statuses \<and> is_str (jget entry ''service'') \<and>
      is_timestamp is_time (jget entry ''at'') \<and>
      list_all (\<lambda>k. jhas entry k \<longrightarrow> is_list (jget entry k)) outcome_optional_lists)"

definition recognized_incident :: "(string \<Rightarrow> bool) \<Rightarrow> json \<Rightarrow> bool res" where
  "recognized_incident is_time entry =
     (if \<not> is_dict entry then Inr False
      else if jget entry ''kind'' = attention_kind then recognized_attention is_time entry
      else Inr (recognized_outcome is_time entry))"

fun strict_entries :: "(string \<Rightarrow> bool) \<Rightarrow> json list \<Rightarrow> note_error + json list" where
  "strict_entries is_time [] = Inr []"
| "strict_entries is_time (e # es) =
     rbind (raising (recognized_incident is_time e)) (\<lambda>b.
       if \<not> b then Inl Malformed else rbind (strict_entries is_time es) (\<lambda>rest. Inr (e # rest)))"

definition strict_single :: "(string \<Rightarrow> bool) \<Rightarrow> json \<Rightarrow> note_error + json list" where
  "strict_single is_time data =
     (if truthy (jget data ''status'')
      then rbind (raising (recognized_incident is_time data)) (\<lambda>b. if b then Inr [data] else Inl Malformed)
      else Inl Malformed)"

definition incidents_strict :: "(string \<Rightarrow> bool) \<Rightarrow> stored \<Rightarrow> note_error + json list" where
  "incidents_strict is_time raw =
     (case raw of
        Blank \<Rightarrow> Inr []
      | NoJson t \<Rightarrow> Inl Malformed
      | Note data \<Rightarrow>
          if \<not> is_dict data then Inl Malformed
          else if jhas data ''incidents'' then
            (case jget data ''incidents'' of JList es \<Rightarrow> strict_entries is_time es | _ \<Rightarrow> Inl Malformed)
          else strict_single is_time data)"

definition incidents_lenient :: "stored \<Rightarrow> json list" where
  "incidents_lenient raw =
     (case raw of
        Note data \<Rightarrow>
          (if \<not> is_dict data then []
           else case jget data ''incidents'' of
                  JList es \<Rightarrow> filter is_dict es
                | _ \<Rightarrow> if truthy (jget data ''status'') then [data] else [])
      | _ \<Rightarrow> [])"

definition listed_count :: "stored \<Rightarrow> nat" where
  "listed_count raw =
     (case raw of
        Note data \<Rightarrow> (case jget data ''incidents'' of JList es \<Rightarrow> length es | _ \<Rightarrow> 0)
      | _ \<Rightarrow> 0)"

text \<open>The banner: the recognized incidents and how many entries are not recognized.\<close>

definition attention :: "(string \<Rightarrow> bool) \<Rightarrow> stored \<Rightarrow> (json list \<times> int) option" where
  "attention is_time raw =
     (let entries = incidents_lenient raw in
      case collect (recognized_incident is_time) entries of
        Inl e \<Rightarrow> None
      | Inr oks \<Rightarrow>
          let incidents = map fst (filter snd (zip entries oks));
              unrecognized = int (max (length entries) (listed_count raw)) - int (length incidents)
          in if entries \<noteq> [] \<or> unrecognized \<noteq> 0 then Some (incidents, unrecognized) else None)"

definition is_attention :: "json \<Rightarrow> bool" where
  "is_attention i = (jget i ''kind'' = attention_kind)"

definition recovery_strict :: "(string \<Rightarrow> bool) \<Rightarrow> stored \<Rightarrow> note_error + json list" where
  "recovery_strict is_time raw = rbind (incidents_strict is_time raw) (\<lambda>es. Inr (filter is_attention es))"

text \<open>\<open>note_state()\<close>; the flag says whether the settings table can be read.\<close>

definition note_state :: "(string \<Rightarrow> bool) \<Rightarrow> bool \<Rightarrow> stored \<Rightarrow> string res" where
  "note_state is_time readable raw =
     (if \<not> readable then Inr ''unavailable''
      else case recovery_strict is_time raw of
             Inr es \<Rightarrow> Inr ''ok''
           | Inl Malformed \<Rightarrow> Inr ''malformed''
           | Inl (NoteRaises e) \<Rightarrow> if e = ValueError then Inr ''unavailable'' else Inl e)"

section \<open>Writing the note\<close>

definition store_of :: "json list \<Rightarrow> stored" where
  "store_of incs = (if incs = [] then Blank else Note (JObj [(''incidents'', JList incs)]))"

text \<open>\<open>_with_attention(fn)\<close>: the note afterwards and whether it is as \<open>fn\<close> wants it.\<close>

definition with_attention ::
  "(string \<Rightarrow> bool) \<Rightarrow> bool \<Rightarrow> (json list \<Rightarrow> json list option res) \<Rightarrow> stored \<Rightarrow> stored \<times> bool" where
  "with_attention is_time goes_through fn note =
     (if \<not> goes_through then (note, False)
      else case incidents_strict is_time note of
             Inl e \<Rightarrow> (note, False)
           | Inr incs \<Rightarrow>
               (case fn incs of
                  Inl e \<Rightarrow> (note, False)
                | Inr None \<Rightarrow> (note, True)
                | Inr (Some new) \<Rightarrow> (store_of new, True)))"

definition key_json :: "key \<Rightarrow> json" where
  "key_json k = (case k of KeyId i \<Rightarrow> JInt i | KeyName s \<Rightarrow> JStr s | KeyNone \<Rightarrow> JNull)"

definition service_name :: "service \<Rightarrow> string" where
  "service_name s = (case s of Dhcp4 \<Rightarrow> ''dhcp4'' | Dhcp6 \<Rightarrow> ''dhcp6'' | D2 \<Rightarrow> ''d2'')"

text \<open>\<open>sorted(str(x) for x in ids or names or [])\<close>.\<close>

definition incident_servers :: "json \<Rightarrow> string list res" where
  "incident_servers incident =
     rbind (py_iter (py_or (jget incident ''needs_hands_ids'') (py_or (jget incident ''needs_hands'') (JList [])))) (\<lambda>xs.
       Inr (sort_by str_le (map str_of_json xs)))"

text \<open>\<open>set(xs) <= set(ys)\<close>, the items of \<open>xs\<close> being any JSON values.\<close>

definition set_le :: "json list \<Rightarrow> json list \<Rightarrow> bool res" where
  "set_le xs ys =
     (if list_all hashable xs then Inr (list_all (\<lambda>x. list_ex (py_eq x) ys) xs) else Inl TypeError)"

definition incident_cleared :: "(string \<Rightarrow> bool) \<Rightarrow> result \<Rightarrow> string \<Rightarrow> json \<Rightarrow> bool res" where
  "incident_cleared is_time r service incident =
     rbind (recognized_incident is_time incident) (\<lambda>known.
       if \<not> known then Inr False
       else if is_attention incident then Inr False
       else if jget incident ''status'' \<noteq> JStr ''rollback_failed'' then Inr True
       else if jget incident ''service'' \<noteq> JStr service then Inr False
       else if truthy (jget incident ''needs_hands_ids'') \<and> rs_covered_ids r \<noteq> [] then
         rbind (py_iter (jget incident ''needs_hands_ids'')) (\<lambda>ids. set_le ids (map key_json (rs_covered_ids r)))
       else rbind (py_iter (py_or (jget incident ''needs_hands'') (JList []))) (\<lambda>names. set_le names (map JStr (rs_covered r))))"

definition droppable :: "json \<Rightarrow> bool" where
  "droppable i = (jget i ''status'' \<noteq> JStr ''rollback_failed'' \<and> \<not> is_attention i)"

text \<open>The loop that keeps the note under its soft cap. The item \<open>remove\<close> takes out is the first one equal to
  the one found, which is that one itself: an equal item is droppable too.\<close>

function evict :: "json list \<Rightarrow> json list" where
  "evict xs =
     (if max_incidents < length xs
      then case find_index droppable xs of None \<Rightarrow> xs | Some i \<Rightarrow> evict (remove_nth i xs)
      else xs)"
  by pat_completeness auto

text \<open>The same kind, service and servers.\<close>

definition same_trouble :: "json \<Rightarrow> json \<Rightarrow> bool res" where
  "same_trouble new i =
     rbind (incident_servers new) (\<lambda>mine. rbind (incident_servers i) (\<lambda>theirs.
       Inr (py_eq (jget i ''status'') (jget new ''status'') \<and> py_eq (jget i ''service'') (jget new ''service'') \<and>
            theirs = mine)))"

text \<open>\<open>[x for x in xs if P(x)]\<close> where \<open>P\<close> may raise.\<close>

fun filter_res :: "('a \<Rightarrow> bool res) \<Rightarrow> 'a list \<Rightarrow> 'a list res" where
  "filter_res P [] = Inr []"
| "filter_res P (x # xs) = rbind (P x) (\<lambda>b. rbind (filter_res P xs) (\<lambda>ys. Inr (if b then x # ys else ys)))"

definition add_outcome :: "json \<Rightarrow> json list \<Rightarrow> json list option res" where
  "add_outcome incident incs =
     rbind (filter_res (\<lambda>i. rbind (same_trouble incident i) (\<lambda>b. Inr (\<not> b))) incs) (\<lambda>kept.
       let kept = evict (kept @ [incident])
       in Inr (Some (drop (length kept - incidents_hard_ceiling) kept)))"

definition last_n :: "nat \<Rightarrow> 'a list \<Rightarrow> 'a list" where
  "last_n n xs = drop (length xs - n) xs"

definition status_text :: "status \<Rightarrow> string" where
  "status_text st =
     (case st of StOk \<Rightarrow> ''ok'' | StNothing \<Rightarrow> ''nothing'' | StNoServers \<Rightarrow> ''noservers'' | StAborted \<Rightarrow> ''aborted''
      | StRolledBack \<Rightarrow> ''rolled_back'' | StRollbackFailed \<Rightarrow> ''rollback_failed'')"

definition outcome_incident :: "(line \<Rightarrow> string option) \<Rightarrow> string \<Rightarrow> result \<Rightarrow> string \<Rightarrow> string \<Rightarrow> json" where
  "outcome_incident error_text stamp r service summary = JObj
     [(''status'', JStr (status_text (rs_status r))), (''service'', JStr service), (''summary'', JStr summary),
      (''at'', JStr stamp), (''failed_restart'', JList (map JStr (rs_restart_failures r))),
      (''needs_hands'', JList (map JStr (rs_needs r))), (''needs_hands_ids'', JList (map key_json (rs_needs_ids r))),
      (''lines'', JList (map JStr (last_n 6 (List.map_filter error_text (rs_lines r)))))]"

definition clear_outcome :: "(string \<Rightarrow> bool) \<Rightarrow> result \<Rightarrow> string \<Rightarrow> json list \<Rightarrow> json list option res" where
  "clear_outcome is_time r service incs =
     rbind (filter_res (\<lambda>i. rbind (incident_cleared is_time r service i) (\<lambda>b. Inr (\<not> b))) incs) (\<lambda>left.
       Inr (if length left \<noteq> length incs then Some left else None))"

definition record_outcome ::
  "(string \<Rightarrow> bool) \<Rightarrow> (line \<Rightarrow> string option) \<Rightarrow> bool \<Rightarrow> string \<Rightarrow> result \<Rightarrow> string \<Rightarrow> string \<Rightarrow> stored \<Rightarrow> stored \<times> bool" where
  "record_outcome is_time error_text goes_through stamp r service summary note =
     (if rs_status r = StRolledBack \<or> rs_status r = StRollbackFailed then
        with_attention is_time goes_through (add_outcome (outcome_incident error_text stamp r service summary)) note
      else if rs_status r = StOk then with_attention is_time goes_through (clear_outcome is_time r service) note
      else (note, True))"

text \<open>\<open>str(a) == str(b)\<close>: a stored 1 and a posted ''1'' are one server.\<close>

definition same_server :: "json \<Rightarrow> json \<Rightarrow> bool" where
  "same_server incident server_id = (str_of_json (jget incident ''server_id'') = str_of_json server_id)"

record recovery =
  rc_server :: json
  rc_service :: string
  rc_operation :: string
  rc_category :: string
  rc_at :: string
  rc_server_name :: string
  rc_detail :: string
  rc_fingerprint :: string

definition attention_incident :: "recovery \<Rightarrow> json" where
  "attention_incident rc = JObj
     ([(''kind'', attention_kind), (''status'', JStr (rc_category rc)), (''category'', JStr (rc_category rc)),
       (''service'', JStr (rc_service rc)), (''server_id'', rc_server rc), (''server_name'', JStr (rc_server_name rc)),
       (''summary'', JStr (rc_operation rc)), (''detail'', JStr (rc_detail rc)), (''at'', JStr (rc_at rc)),
       (''needs_hands'', JList []), (''needs_hands_ids'', JList []), (''lines'', JList [])] @
      (if rc_fingerprint rc \<noteq> [] then [(''ca_fingerprint'', JStr (rc_fingerprint rc))] else []))"

definition same_recovery :: "recovery \<Rightarrow> json \<Rightarrow> bool" where
  "same_recovery rc i =
     (is_attention i \<and> jget i ''category'' = JStr (rc_category rc) \<and> jget i ''service'' = JStr (rc_service rc) \<and>
      same_server i (rc_server rc))"

definition other_generation :: "recovery \<Rightarrow> json \<Rightarrow> bool" where
  "other_generation rc i =
     (same_recovery rc i \<and> rc_category rc = ''rotation-pending'' \<and>
      py_or (jget i ''ca_fingerprint'') (JStr []) \<notin> {JStr [], JStr (rc_fingerprint rc)})"

definition add_recovery :: "recovery \<Rightarrow> json list \<Rightarrow> json list option res" where
  "add_recovery rc incs =
     (if list_ex (other_generation rc) incs then Inr None
      else Inr (Some (filter (\<lambda>i. \<not> same_recovery rc i) incs @ [attention_incident rc])))"

definition record_attention :: "(string \<Rightarrow> bool) \<Rightarrow> bool \<Rightarrow> recovery \<Rightarrow> stored \<Rightarrow> (stored \<times> bool) res" where
  "record_attention is_time goes_through rc note =
     (if rc_category rc \<notin> set attention_categories then Inl ValueError
      else case recognized_incident is_time (attention_incident rc) of
             Inr True \<Rightarrow>
               (case with_attention is_time goes_through (add_recovery rc) note of
                  (note', stored) \<Rightarrow>
                    Inr (note', stored \<and>
                      \<not> (case incidents_strict is_time note of Inr incs \<Rightarrow> list_ex (other_generation rc) incs | Inl e \<Rightarrow> False)))
           | _ \<Rightarrow> Inr (note, False))"

text \<open>Taking incidents out: the list without them, or no change, and how many there were.\<close>

definition take_out :: "(json \<Rightarrow> bool) \<Rightarrow> json list \<Rightarrow> json list option res" where
  "take_out P incs =
     (let left = filter (\<lambda>i. \<not> P i) incs in Inr (if length left \<noteq> length incs then Some left else None))"

definition taken :: "(string \<Rightarrow> bool) \<Rightarrow> (json \<Rightarrow> bool) \<Rightarrow> stored \<Rightarrow> nat" where
  "taken is_time P note =
     (case incidents_strict is_time note of Inr incs \<Rightarrow> length (filter P incs) | Inl e \<Rightarrow> 0)"

definition of_recovery :: "json \<Rightarrow> string \<Rightarrow> string list option \<Rightarrow> json \<Rightarrow> bool" where
  "of_recovery server_id service categories i =
     (is_attention i \<and> jget i ''service'' = JStr service \<and> same_server i server_id \<and>
      (case categories of None \<Rightarrow> True | Some cs \<Rightarrow> jget i ''category'' \<in> set (map JStr cs)))"

definition resolve_attention ::
  "(string \<Rightarrow> bool) \<Rightarrow> bool \<Rightarrow> json \<Rightarrow> string \<Rightarrow> string list option \<Rightarrow> stored \<Rightarrow> stored \<times> nat" where
  "resolve_attention is_time goes_through server_id service categories note =
     (case with_attention is_time goes_through (take_out (of_recovery server_id service categories)) note of
        (note', stored) \<Rightarrow> (note', if stored then taken is_time (of_recovery server_id service categories) note else 0))"

definition acknowledgeable :: "json option \<Rightarrow> string option \<Rightarrow> string option \<Rightarrow> json \<Rightarrow> bool" where
  "acknowledgeable server_id service category i =
     (is_attention i \<and> jget i ''category'' \<noteq> JStr ''rotation-pending'' \<and>
      (case server_id of None \<Rightarrow> True | Some s \<Rightarrow> same_server i s) \<and>
      (case service of None \<Rightarrow> True | Some s \<Rightarrow> jget i ''service'' = JStr s) \<and>
      (case category of None \<Rightarrow> True | Some c \<Rightarrow> jget i ''category'' = JStr c))"

definition acknowledge_recovery ::
  "(string \<Rightarrow> bool) \<Rightarrow> bool \<Rightarrow> json option \<Rightarrow> string option \<Rightarrow> string option \<Rightarrow> stored \<Rightarrow> stored \<times> nat option" where
  "acknowledge_recovery is_time goes_through server_id service category note =
     (case with_attention is_time goes_through (take_out (acknowledgeable server_id service category)) note of
        (note', stored) \<Rightarrow> (note', if stored then Some (taken is_time (acknowledgeable server_id service category) note) else None))"

definition dismiss_rollback_notes :: "(string \<Rightarrow> bool) \<Rightarrow> bool \<Rightarrow> stored \<Rightarrow> stored \<times> bool" where
  "dismiss_rollback_notes is_time goes_through note =
     with_attention is_time goes_through (\<lambda>incs. Inr (Some (filter is_attention incs))) note"

definition clear_attention :: "(string \<Rightarrow> bool) \<Rightarrow> bool \<Rightarrow> stored \<Rightarrow> stored \<times> bool" where
  "clear_attention is_time goes_through note = with_attention is_time goes_through (\<lambda>incs. Inr (Some [])) note"

text \<open>
  Setting an unreadable note aside: \<open>raw\<close> is the value the request read, \<open>note\<close> the one the transaction that
  clears it finds. The outcome is the note, the copy that was made and the answer.
\<close>

definition set_aside_unreadable_note ::
  "(string \<Rightarrow> bool) \<Rightarrow> bool \<Rightarrow> bool \<Rightarrow> bool \<Rightarrow> stored \<Rightarrow> stored \<Rightarrow> (stored \<times> stored option \<times> string) res" where
  "set_aside_unreadable_note is_time readable copies clears raw note =
     (if \<not> readable then Inr (note, None, ''failed'')
      else case incidents_strict is_time raw of
             Inr es \<Rightarrow> Inr (note, None, ''not-needed'')
           | Inl (NoteRaises e) \<Rightarrow> Inl e
           | Inl Malformed \<Rightarrow>
               if \<not> copies then Inr (note, None, ''failed'')
               else if \<not> clears then Inr (note, Some raw, ''failed'')
               else if note = raw then Inr (Blank, Some raw, ''done'')
               else Inr (note, Some raw, ''changed''))"

section \<open>A change and its note\<close>

text \<open>\<open>_run_change\<close>: one change at a time. A request that does not get the lock in time changes nothing.\<close>

definition run_change_locked :: "'w calls \<Rightarrow> 'w change \<Rightarrow> server list \<Rightarrow> bool option \<Rightarrow> 'w \<Rightarrow> 'w \<times> result" where
  "run_change_locked cs ch servers lock w =
     (case lock of
        None \<Rightarrow> (w, outcome StAborted ''busy'' [LnBusy])
      | Some waited \<Rightarrow> run_change cs ch servers waited w)"

definition apply_change ::
  "(string \<Rightarrow> bool) \<Rightarrow> (line \<Rightarrow> string option) \<Rightarrow> bool \<Rightarrow> string \<Rightarrow> 'w calls \<Rightarrow> 'w change \<Rightarrow> server list \<Rightarrow> bool option \<Rightarrow>
     string \<Rightarrow> 'w \<Rightarrow> stored \<Rightarrow> 'w \<times> stored \<times> result" where
  "apply_change is_time error_text goes_through stamp cs ch servers lock summary w note =
     (case run_change_locked cs ch servers lock w of
        (w', r) \<Rightarrow>
          (w', fst (record_outcome is_time error_text goes_through stamp r (service_name (ch_service ch)) summary note), r))"

termination evict
proof (relation "measure length")
  fix xs :: "json list" and i
  assume "find_index droppable xs = Some i"
  then show "(remove_nth i xs, xs) \<in> measure length"
    using find_index_SomeD(1) by (fastforce simp: remove_nth_def)
qed simp

end
