(* ===== verification/IncidentProps.thy ===== *)
theory IncidentProps
  imports Incidents
begin

text \<open>
  What the note of unresolved incidents guarantees: it stays readable, an unreadable one is never written
  over, an incident that says a daemon may be stopped is not lost, and the note stays bounded.
\<close>

section \<open>The list of incidents\<close>

declare evict.simps [simp del]

lemma filter_without_nth: "i < length xs \<Longrightarrow> \<not> P (xs ! i) \<Longrightarrow> filter P (remove_nth i xs) = filter P xs"
proof -
  assume "i < length xs" "\<not> P (xs ! i)"
  then have "filter P xs = filter P (take i xs @ xs ! i # drop (Suc i) xs)"
    by (simp add: id_take_nth_drop [symmetric])
  then show ?thesis using \<open>\<not> P (xs ! i)\<close> by (simp add: remove_nth_def)
qed

lemma evict_keeps: "filter (\<lambda>i. \<not> droppable i) (evict xs) = filter (\<lambda>i. \<not> droppable i) xs"
proof (induction xs rule: evict.induct)
  case (1 xs)
  then show ?case
    by (subst evict.simps) (auto split: option.split simp: filter_without_nth find_index_SomeD)
qed

lemma evict_subset: "set (evict xs) \<subseteq> set xs"
proof (induction xs rule: evict.induct)
  case (1 xs)
  show ?case
  proof (cases "max_incidents < length xs \<and> find_index droppable xs \<noteq> None")
    case True
    then obtain i where i: "find_index droppable xs = Some i" by blast
    then have "evict xs = evict (remove_nth i xs)" using True by (subst evict.simps) simp
    then show ?thesis using 1 True i set_remove_nth by fastforce
  next
    case False
    then have "evict xs = xs" by (subst evict.simps) (auto split: option.split)
    then show ?thesis by simp
  qed
qed

lemma evict_bound: "length (evict xs) \<le> max_incidents \<or> (\<forall>i \<in> set (evict xs). \<not> droppable i)"
proof (induction xs rule: evict.induct)
  case (1 xs)
  then show ?case
    by (subst (1 2) evict.simps) (auto split: option.split simp: find_index_None)
qed

lemma evict_few: "length xs \<le> max_incidents \<Longrightarrow> evict xs = xs"
  by (subst evict.simps) simp

lemma evict_length: "length (evict xs) \<le> max max_incidents (length (filter (\<lambda>i. \<not> droppable i) xs))"
proof -
  have "length (evict xs) = length (filter (\<lambda>i. \<not> droppable i) xs)" if "\<forall>i \<in> set (evict xs). \<not> droppable i"
    using that evict_keeps [of xs] by (simp add: filter_True)
  then show ?thesis using evict_bound [of xs] by (auto simp: le_max_iff_disj)
qed

lemma filter_res_Inr:
  "filter_res P xs = Inr ys \<longleftrightarrow> (\<forall>x \<in> set xs. \<exists>b. P x = Inr b) \<and> ys = filter (\<lambda>x. P x = Inr True) xs"
proof (induction xs arbitrary: ys)
  case (Cons x xs)
  then show ?case by (cases "P x") (auto simp: res_simps)
qed auto

section \<open>Reading what was written\<close>

definition recognized :: "(string \<Rightarrow> bool) \<Rightarrow> json \<Rightarrow> bool" where
  "recognized is_time i \<longleftrightarrow> recognized_incident is_time i = Inr True"

lemma strict_entries_Inr:
  "strict_entries is_time es = Inr fs \<longleftrightarrow> fs = es \<and> (\<forall>e \<in> set es. recognized is_time e)"
  by (induction es arbitrary: fs)
    (auto simp: res_simps raising_def recognized_def split: sum.splits)

lemma recognized_dict: "recognized is_time i \<Longrightarrow> is_dict i"
  by (auto simp: recognized_def recognized_incident_def split: if_splits)

lemma strict_recognized:
  assumes "incidents_strict is_time note = Inr incs" and "i \<in> set incs"
  shows "recognized is_time i"
  using assms
  by (auto simp: incidents_strict_def strict_single_def strict_entries_Inr res_simps raising_def recognized_def
      split: stored.splits if_splits json.splits sum.splits)

lemma strict_store: "(\<And>i. i \<in> set incs \<Longrightarrow> recognized is_time i) \<Longrightarrow> incidents_strict is_time (store_of incs) = Inr incs"
  by (auto simp: incidents_strict_def store_of_def strict_entries_Inr jget_JObj jhas_JObj)

lemma with_attention_cases:
  assumes "with_attention is_time goes_through fn note = (note', b)"
  obtains (kept) "note' = note" | (written) incs new where "goes_through" "b" "incidents_strict is_time note = Inr incs"
    "fn incs = Inr (Some new)" "note' = store_of new"
  using assms by (auto simp: with_attention_def split: if_splits sum.splits option.splits)

lemma with_attention_readable:
  assumes "incidents_strict is_time note = Inr incs"
    and "\<And>new i. fn incs = Inr (Some new) \<Longrightarrow> i \<in> set new \<Longrightarrow> recognized is_time i"
  shows "\<exists>incs'. incidents_strict is_time (fst (with_attention is_time goes_through fn note)) = Inr incs'"
proof -
  obtain note' b where w: "with_attention is_time goes_through fn note = (note', b)" by fastforce
  from w show ?thesis
  proof (cases rule: with_attention_cases)
    case kept
    then show ?thesis using w assms(1) by simp
  next
    case (written incs' new)
    then show ?thesis using w assms strict_store [of new] by auto
  qed
qed

lemma with_attention_unreadable:
  "incidents_strict is_time note = Inl e \<Longrightarrow> with_attention is_time goes_through fn note = (note, False)"
  by (simp add: with_attention_def)

section \<open>The writers\<close>

datatype writer =
    WOutcome string result string string
  | WRecovery recovery
  | WResolve json string "string list option"
  | WAcknowledge "json option" "string option" "string option"
  | WDismiss
  | WClear

text \<open>The note after a writer whose transaction goes through or not.\<close>

fun write_note :: "(string \<Rightarrow> bool) \<Rightarrow> (line \<Rightarrow> string option) \<Rightarrow> bool \<times> writer \<Rightarrow> stored \<Rightarrow> stored" where
  "write_note is_time error_text (ok, WOutcome stamp r service summary) note =
     fst (record_outcome is_time error_text ok stamp r service summary note)"
| "write_note is_time error_text (ok, WRecovery rc) note =
     (case record_attention is_time ok rc note of Inl e \<Rightarrow> note | Inr (note', b) \<Rightarrow> note')"
| "write_note is_time error_text (ok, WResolve sid service categories) note =
     fst (resolve_attention is_time ok sid service categories note)"
| "write_note is_time error_text (ok, WAcknowledge sid service category) note =
     fst (acknowledge_recovery is_time ok sid service category note)"
| "write_note is_time error_text (ok, WDismiss) note = fst (dismiss_rollback_notes is_time ok note)"
| "write_note is_time error_text (ok, WClear) note = fst (clear_attention is_time ok note)"

lemma outcome_recognized:
  assumes "is_time (strip stamp)" and "rs_status r = StRolledBack \<or> rs_status r = StRollbackFailed"
  shows "recognized is_time (outcome_incident error_text stamp r service summary)"
  using assms
  by (auto simp: recognized_def recognized_incident_def recognized_outcome_def outcome_incident_def status_text_def
      attention_kind_def outcome_statuses_def outcome_optional_lists_def jget_JObj jhas_JObj)

lemma filter_res_subset: "filter_res P xs = Inr ys \<Longrightarrow> set ys \<subseteq> set xs"
  by (auto simp: filter_res_Inr)

lemma add_outcome_set: "add_outcome new incs = Inr (Some ys) \<Longrightarrow> set ys \<subseteq> insert new (set incs)"
  using evict_subset filter_res_subset
  by (fastforce simp: add_outcome_def res_simps Let_def dest: in_set_dropD)

lemma clear_outcome_set: "clear_outcome is_time r service incs = Inr (Some ys) \<Longrightarrow> set ys \<subseteq> set incs"
  using filter_res_subset by (fastforce simp: clear_outcome_def res_simps split: if_splits)

lemma outcome_readable:
  assumes "incidents_strict is_time note = Inr incs" and "is_time (strip stamp)"
  shows "\<exists>incs'. incidents_strict is_time (fst (record_outcome is_time error_text ok stamp r service summary note)) = Inr incs'"
proof -
  let ?new = "outcome_incident error_text stamp r service summary"
  have "\<exists>incs'. incidents_strict is_time (fst (with_attention is_time ok (add_outcome ?new) note)) = Inr incs'"
    if "rs_status r = StRolledBack \<or> rs_status r = StRollbackFailed"
  proof (rule with_attention_readable [OF assms(1)])
    fix new i
    assume "add_outcome ?new incs = Inr (Some new)" "i \<in> set new"
    then show "recognized is_time i"
      using add_outcome_set outcome_recognized [where is_time = is_time and stamp = stamp, OF assms(2) that] strict_recognized [OF assms(1)] by blast
  qed
  moreover have "\<exists>incs'. incidents_strict is_time (fst (with_attention is_time ok (clear_outcome is_time r service) note)) = Inr incs'"
    by (rule with_attention_readable [OF assms(1)]) (use clear_outcome_set strict_recognized [OF assms(1)] in blast)
  ultimately show ?thesis using assms(1) by (auto simp: record_outcome_def)
qed

lemma recovery_readable:
  assumes "incidents_strict is_time note = Inr incs" and "record_attention is_time ok rc note = Inr (note', b)"
  shows "\<exists>incs'. incidents_strict is_time note' = Inr incs'"
proof (cases "recognized is_time (attention_incident rc)")
  case True
  have "\<exists>incs'. incidents_strict is_time (fst (with_attention is_time ok (add_recovery rc) note)) = Inr incs'"
    by (rule with_attention_readable [OF assms(1)])
      (use True strict_recognized [OF assms(1)] in \<open>auto simp: add_recovery_def split: if_splits\<close>)
  then show ?thesis
    using assms(2) True by (auto simp: record_attention_def recognized_def split: if_splits prod.splits)
next
  case False
  then show ?thesis
    using assms by (auto simp: record_attention_def recognized_def split: if_splits sum.splits bool.splits)
qed

lemma taken_out_readable:
  assumes "incidents_strict is_time note = Inr incs"
  shows "\<exists>incs'. incidents_strict is_time (fst (with_attention is_time ok (take_out P) note)) = Inr incs'"
  by (rule with_attention_readable [OF assms])
    (use strict_recognized [OF assms] in \<open>auto simp: take_out_def Let_def split: if_splits\<close>)

lemma write_readable:
  assumes "incidents_strict is_time note = Inr incs"
    and "case w of WOutcome stamp r service summary \<Rightarrow> is_time (strip stamp) | _ \<Rightarrow> True"
  shows "\<exists>incs'. incidents_strict is_time (write_note is_time error_text (ok, w) note) = Inr incs'"
proof (cases w)
  case (WOutcome stamp r service summary)
  then show ?thesis using outcome_readable [OF assms(1)] assms(2) by simp
next
  case (WRecovery rc)
  then show ?thesis using recovery_readable [OF assms(1)] assms(1) by (auto split: sum.split)
next
  case (WResolve sid service categories)
  then show ?thesis
    using taken_out_readable [OF assms(1)] by (simp add: resolve_attention_def case_prod_unfold)
next
  case (WAcknowledge sid service category)
  then show ?thesis
    using taken_out_readable [OF assms(1)] by (simp add: acknowledge_recovery_def case_prod_unfold)
next
  case WDismiss
  have "\<exists>incs'. incidents_strict is_time (fst (dismiss_rollback_notes is_time ok note)) = Inr incs'"
    unfolding dismiss_rollback_notes_def
    by (rule with_attention_readable [OF assms(1)]) (use strict_recognized [OF assms(1)] in auto)
  then show ?thesis using WDismiss by simp
next
  case WClear
  have "\<exists>incs'. incidents_strict is_time (fst (clear_attention is_time ok note)) = Inr incs'"
    unfolding clear_attention_def by (rule with_attention_readable [OF assms(1)]) simp
  then show ?thesis using WClear by simp
qed

section \<open>Examples\<close>

definition failed_result :: result where
  "failed_result = (outcome StRollbackFailed ''restart-failed'' [])\<lparr>rs_needs := [''kea''], rs_needs_ids := [KeyId 1]\<rparr>"

definition rolled_back_result :: result where
  "rolled_back_result = outcome StRolledBack ''restart-failed'' []"

definition failed_incident :: json where
  "failed_incident = outcome_incident (\<lambda>l. None) ''2025-01-01'' failed_result ''dhcp4'' ''edit''"

text \<open>A daemon whose write is not proved: the change ends with a server nobody could put back.\<close>

definition stuck_calls :: "unit calls" where
  "stuck_calls = \<lparr>read_file = (\<lambda>w s. (Some (JObj []), Some ''sha'', [])), read_api = (\<lambda>w s. (None, None, [], [])),
     probe_gate = (\<lambda>w s. None), restore_window = (\<lambda>w s. None), record_unreadable = (\<lambda>w s. None),
     pending_block = (\<lambda>w s. None), file_proof = (\<lambda>w s. (None, None)),
     api_test = (\<lambda>w s c. \<lparr>an_ok = True, an_code = [], an_sha = None, an_needs_hands = False\<rparr>),
     file_test = (\<lambda>w s c tls. \<lparr>an_ok = True, an_code = [], an_sha = None, an_needs_hands = False\<rparr>),
     api_apply = (\<lambda>t w. (w, \<lparr>an_ok = False, an_code = [], an_sha = None, an_needs_hands = True\<rparr>)),
     file_apply = (\<lambda>s c tls ow e w. (w, \<lparr>an_ok = False, an_code = [], an_sha = None, an_needs_hands = True\<rparr>)),
     api_revert = (\<lambda>t w. (w, \<lparr>an_ok = False, an_code = [], an_sha = None, an_needs_hands = False\<rparr>)),
     remove_file = (\<lambda>s e w. (w, \<lparr>an_ok = False, an_code = [], an_sha = None, an_needs_hands = False\<rparr>)),
     restart_daemon = (\<lambda>s w. (w, \<lparr>an_ok = False, an_code = [], an_sha = None, an_needs_hands = False\<rparr>)),
     record_daemon = (\<lambda>s w. w)\<rparr>"

definition stuck_change :: "unit change" where
  "stuck_change = \<lparr>ch_service = Dhcp4, ch_mutate = (\<lambda>c. Inr (JObj [], ''ok'')), ch_candidate_for = None,
     ch_expected_sha_for = None, ch_restart = True, ch_skip_codes = [], ch_tls_for = (\<lambda>s. []), ch_absent_is_expected = False,
     ch_finalize = None, ch_force_file = False\<rparr>"

definition stuck_server :: server where
  "stuck_server = \<lparr>sv_id = Some 1, sv_name = ''kea'', sv_ssh_host = ''host'', sv_config_transport = None\<rparr>"

lemma failed_incident_read:
  "n > 0 \<Longrightarrow> incidents_strict (\<lambda>s. True) (store_of (replicate n failed_incident)) = Inr (replicate n failed_incident)"
  by (rule strict_store) (auto simp: failed_incident_def intro!: outcome_recognized simp: failed_result_def outcome_def)

lemma failed_incident_status: "jget failed_incident ''status'' = JStr ''rollback_failed''"
  by code_simp

lemma failed_incident_heavy: "\<not> is_attention failed_incident" "\<not> droppable failed_incident"
  by code_simp+

lemma failed_incident_servers: "incident_servers failed_incident = Inr [''1'']"
  by code_simp

text \<open>
  C19. The note stays readable: after any sequence of recorded outcomes, recorded, resolved and acknowledged
  recoveries and dismissals, whether their transactions go through or not, a note that could be read strictly
  can still be read strictly.
\<close>
theorem note_stays_readable:
  assumes "incidents_strict is_time nt = Inr incs"
    and "list_all (\<lambda>w. case snd w of WOutcome stamp r service summary \<Rightarrow> is_time (strip stamp) | _ \<Rightarrow> True) ws"
  shows "\<exists>incs'. incidents_strict is_time (foldl (\<lambda>n w. write_note is_time error_text w n) nt ws) = Inr incs'"
  using assms
proof (induction ws arbitrary: nt incs)
  case (Cons w ws)
  obtain ok v where w: "w = (ok, v)" by (cases w)
  with Cons.prems obtain incs' where "incidents_strict is_time (write_note is_time error_text w nt) = Inr incs'"
    using write_readable [OF Cons.prems(1), of v error_text ok] by auto
  then show ?case using Cons by simp
qed simp

lemma note_stays_readable_witness:
  "\<exists>incs. incidents_strict (\<lambda>s. True) (foldl (\<lambda>n w. write_note (\<lambda>s. True) (\<lambda>l. None) w n) Blank
     [(True, WOutcome ''2025-01-01'' failed_result ''dhcp4'' ''edit''), (False, WDismiss)]) = Inr incs"
  by (rule note_stays_readable [where nt = Blank and incs = "[]"]) (simp_all add: incidents_strict_def)

lemma unreadable_write: "incidents_strict is_time note = Inl e \<Longrightarrow> write_note is_time error_text w note = note"
  by (cases w; cases "snd w")
    (auto simp: record_outcome_def record_attention_def resolve_attention_def acknowledge_recovery_def
      dismiss_rollback_notes_def clear_attention_def with_attention_unreadable split: sum.split bool.split)

text \<open>
  A note Jen cannot read is never written over: no sequence of writers changes it and none reports
  success. The one way out is the set-aside, which copies a malformed note before it clears it, and clears
  it only if it is still the note that was copied.
\<close>
theorem unreadable_note_kept:
  assumes "incidents_strict is_time note = Inl e"
  shows "foldl (\<lambda>n w. write_note is_time error_text w n) note ws = note \<and>
    \<not> snd (dismiss_rollback_notes is_time ok note) \<and> \<not> snd (clear_attention is_time ok note) \<and>
    snd (acknowledge_recovery is_time ok sid service category note) = None \<and>
    snd (resolve_attention is_time ok server name categories note) = 0 \<and>
    record_attention is_time ok rc note \<noteq> Inr (note, True) \<and>
    (rs_status r \<in> {StOk, StRolledBack, StRollbackFailed} \<longrightarrow>
       \<not> snd (record_outcome is_time error_text ok stamp r svc summary note)) \<and>
    (e = Malformed \<longrightarrow>
       set_aside_unreadable_note is_time True True True note note' =
         Inr (if note' = note then Blank else note', Some note, if note' = note then ''done'' else ''changed''))"
proof -
  have "foldl (\<lambda>n w. write_note is_time error_text w n) note ws = note"
    by (induction ws) (simp_all add: unreadable_write [OF assms])
  then show ?thesis
    using assms
    by (auto simp: record_outcome_def record_attention_def resolve_attention_def acknowledge_recovery_def
        dismiss_rollback_notes_def clear_attention_def with_attention_unreadable set_aside_unreadable_note_def
        split: sum.split bool.split)
qed

lemma unreadable_note_kept_witness:
  "foldl (\<lambda>n w. write_note (\<lambda>s. True) (\<lambda>l. None) w n) (NoJson ''{'') [(True, WClear)] = NoJson ''{'' \<and>
    set_aside_unreadable_note (\<lambda>s. True) True True True (NoJson ''{'') (NoJson ''{'') = Inr (Blank, Some (NoJson ''{''), ''done'')"
  using unreadable_note_kept [of "\<lambda>s. True" "NoJson ''{''" Malformed "\<lambda>l. None" "[(True, WClear)]" True None None None
      JNull "[]" None undefined failed_result "[]" "[]" "[]" "NoJson ''{''"]
  by (simp add: incidents_strict_def)

section \<open>What is not lost\<close>

lemma written_incs:
  assumes "incidents_strict is_time note = Inr incs" and "with_attention is_time ok fn note = (note', b)"
    and "\<And>new i. fn incs = Inr (Some new) \<Longrightarrow> i \<in> set new \<Longrightarrow> recognized is_time i"
    and "incidents_strict is_time note' = Inr incs'"
  shows "note' = note \<or> fn incs = Inr (Some incs')"
  using assms(2)
proof (cases rule: with_attention_cases)
  case (written xs new)
  with assms strict_store [of new is_time] show ?thesis by auto
qed simp

lemma note_written:
  assumes "incidents_strict is_time note = Inr incs" and "is_time (strip stamp)"
    and "incidents_strict is_time (fst (record_outcome is_time error_text ok stamp r service summary note)) = Inr incs'"
  shows "fst (record_outcome is_time error_text ok stamp r service summary note) = note \<or>
    (rs_status r = StRolledBack \<or> rs_status r = StRollbackFailed) \<and>
      add_outcome (outcome_incident error_text stamp r service summary) incs = Inr (Some incs') \<or>
    rs_status r = StOk \<and> clear_outcome is_time r service incs = Inr (Some incs')"
proof (cases "rs_status r = StRolledBack \<or> rs_status r = StRollbackFailed")
  case True
  let ?new = "outcome_incident error_text stamp r service summary"
  obtain note' b where w: "with_attention is_time ok (add_outcome ?new) note = (note', b)" by fastforce
  have "note' = note \<or> add_outcome ?new incs = Inr (Some incs')"
  proof (rule written_incs [OF assms(1) w])
    show "recognized is_time i" if "add_outcome ?new incs = Inr (Some news)" "i \<in> set news" for news i
      using that add_outcome_set outcome_recognized [where is_time = is_time and stamp = stamp, OF assms(2) True]
        strict_recognized [OF assms(1)] by blast
    show "incidents_strict is_time note' = Inr incs'" using assms(3) True w by (simp add: record_outcome_def)
  qed
  then show ?thesis using True w by (auto simp: record_outcome_def)
next
  case False
  obtain note' b where w: "with_attention is_time ok (clear_outcome is_time r service) note = (note', b)" by fastforce
  show ?thesis
  proof (cases "rs_status r = StOk")
    case True
    have "note' = note \<or> clear_outcome is_time r service incs = Inr (Some incs')"
    proof (rule written_incs [OF assms(1) w])
      show "recognized is_time i" if "clear_outcome is_time r service incs = Inr (Some news)" "i \<in> set news" for news i
        using that clear_outcome_set strict_recognized [OF assms(1)] by blast
      show "incidents_strict is_time note' = Inr incs'" using assms(3) True w by (simp add: record_outcome_def)
    qed
    then show ?thesis using True w by (auto simp: record_outcome_def)
  qed (use False in \<open>simp add: record_outcome_def\<close>)
qed

lemma outcome_servers: "\<exists>xs. incident_servers (outcome_incident error_text stamp r service summary) = Inr xs"
  by (simp add: incident_servers_def outcome_incident_def jget_JObj py_or_def)

lemma drop_none: "length xs \<le> n \<Longrightarrow> drop (length xs - n) xs = xs"
  by simp

lemma add_outcome_bound:
  assumes "add_outcome new incs = Inr (Some ys)"
  shows "length ys \<le> incidents_hard_ceiling \<and> (length ys \<le> max_incidents \<or> (\<forall>i \<in> set ys. \<not> droppable i))"
proof -
  from assms obtain kept where ys: "ys = drop (length (evict kept) - incidents_hard_ceiling) (evict kept)"
    by (auto simp: add_outcome_def res_simps Let_def)
  with evict_bound [of kept] show ?thesis by (auto dest: in_set_dropD)
qed

lemma add_outcome_keeps:
  assumes "add_outcome new incs = Inr (Some ys)" and "length (filter (\<lambda>i. \<not> droppable i) incs) < incidents_hard_ceiling"
    and "\<not> droppable i" and "i = new \<or> i \<in> set incs \<and> same_trouble new i \<noteq> Inr True"
  shows "i \<in> set ys"
proof -
  let ?P = "\<lambda>i. \<not> droppable i"
  from assms(1) obtain kept where k: "filter_res (\<lambda>i. rbind (same_trouble new i) (\<lambda>b. Inr (\<not> b))) incs = Inr kept"
    and ys: "ys = drop (length (evict (kept @ [new])) - incidents_hard_ceiling) (evict (kept @ [new]))"
    by (auto simp: add_outcome_def res_simps Let_def)
  from k have kept: "kept = filter (\<lambda>i. same_trouble new i = Inr False) incs"
    and total: "\<forall>j \<in> set incs. \<exists>b. same_trouble new j = Inr b"
    by (auto simp: filter_res_Inr res_simps intro: filter_cong)
  have "length (filter ?P kept) \<le> length (filter ?P incs)"
    unfolding kept by (induction incs) auto
  then have "length (filter ?P (kept @ [new])) \<le> incidents_hard_ceiling" using assms(2) by simp
  then have "length (evict (kept @ [new])) \<le> incidents_hard_ceiling"
    using evict_length [of "kept @ [new]"] by (simp add: max_incidents_def incidents_hard_ceiling_def)
  then have "ys = evict (kept @ [new])" unfolding ys by (rule drop_none)
  moreover have "i \<in> set (filter ?P (kept @ [new]))"
    using assms(3,4) total by (auto simp: kept)
  then have "i \<in> set (filter ?P (evict (kept @ [new])))" by (simp only: evict_keeps)
  then have "i \<in> set (evict (kept @ [new]))" by simp
  ultimately show ?thesis by simp
qed

text \<open>The run changed and restarted every server the incident names, by id where both sides have ids.\<close>

definition covers_servers :: "result \<Rightarrow> json \<Rightarrow> bool" where
  "covers_servers r i \<longleftrightarrow>
     (if truthy (jget i ''needs_hands_ids'') \<and> rs_covered_ids r \<noteq> []
      then \<exists>ids. py_iter (jget i ''needs_hands_ids'') = Inr ids \<and>
             (\<forall>x \<in> set ids. \<exists>k \<in> set (rs_covered_ids r). py_eq x (key_json k))
      else \<exists>names. py_iter (py_or (jget i ''needs_hands'') (JList [])) = Inr names \<and>
             (\<forall>x \<in> set names. \<exists>n \<in> set (rs_covered r). py_eq x (JStr n)))"

lemma cleared_covered:
  assumes "incident_cleared is_time r service i = Inr True" and "jget i ''status'' = JStr ''rollback_failed''"
  shows "jget i ''service'' = JStr service \<and> covers_servers r i"
  using assms
  by (auto simp: incident_cleared_def covers_servers_def set_le_def res_simps list_all_iff list_ex_iff split: if_splits)

text \<open>
  C20. A failed rollback is not lost: an incident on record that says a daemon may be stopped is still on
  record after the outcome of any later change, unless that outcome is the same trouble again, which takes
  its place, or a clean run of the same service changed and restarted every server the incident names. The
  note must hold fewer than 200 unresolved incidents of that weight.
\<close>
theorem failed_rollback_kept:
  assumes "incidents_strict is_time note = Inr incs" and "i \<in> set incs"
    and "jget i ''status'' = JStr ''rollback_failed''" and "\<not> is_attention i"
    and "length (filter (\<lambda>j. \<not> droppable j) incs) < incidents_hard_ceiling" and "is_time (strip stamp)"
  shows "\<exists>incs'. incidents_strict is_time (fst (record_outcome is_time error_text ok stamp r service summary note)) = Inr incs' \<and>
    (i \<in> set incs' \<or>
     rs_status r = StRollbackFailed \<and> same_trouble (outcome_incident error_text stamp r service summary) i = Inr True \<and>
       outcome_incident error_text stamp r service summary \<in> set incs' \<or>
     rs_status r = StOk \<and> jget i ''service'' = JStr service \<and> covers_servers r i)"
proof -
  let ?new = "outcome_incident error_text stamp r service summary"
  have heavy: "\<not> droppable i" using assms(3) by (simp add: droppable_def)
  obtain incs' where incs': "incidents_strict is_time (fst (record_outcome is_time error_text ok stamp r service summary note)) = Inr incs'"
    using outcome_readable [OF assms(1,6)] by blast
  consider (same) "fst (record_outcome is_time error_text ok stamp r service summary note) = note"
    | (added) "rs_status r = StRolledBack \<or> rs_status r = StRollbackFailed" "add_outcome ?new incs = Inr (Some incs')"
    | (cleared) "rs_status r = StOk" "clear_outcome is_time r service incs = Inr (Some incs')"
    using note_written [OF assms(1,6) incs'] by blast
  then have "i \<in> set incs' \<or> rs_status r = StRollbackFailed \<and> same_trouble ?new i = Inr True \<and> ?new \<in> set incs' \<or>
     rs_status r = StOk \<and> jget i ''service'' = JStr service \<and> covers_servers r i"
  proof cases
    case same
    then show ?thesis using incs' assms(1,2) by simp
  next
    case added
    show ?thesis
    proof (cases "same_trouble ?new i = Inr True")
      case True
      then have "rs_status r = StRollbackFailed"
        using assms(3) added(1) by (auto simp: same_trouble_def res_simps outcome_incident_def status_text_def jget_JObj)
      moreover from this have "\<not> droppable ?new"
        by (simp add: droppable_def outcome_incident_def status_text_def jget_JObj)
      ultimately show ?thesis using True add_outcome_keeps [OF added(2) assms(5), of ?new] by blast
    next
      case False
      then show ?thesis using add_outcome_keeps [OF added(2) assms(5) heavy] assms(2) by blast
    qed
  next
    case cleared
    then show ?thesis
      using cleared_covered [OF _ assms(3)] assms(2)
      by (auto simp: clear_outcome_def res_simps filter_res_Inr split: if_splits)
  qed
  with incs' show ?thesis by blast
qed

lemma failed_rollback_kept_witness:
  "\<exists>incs'. incidents_strict (\<lambda>s. True) (fst (record_outcome (\<lambda>s. True) (\<lambda>l. None) True ''2025-01-02'' rolled_back_result ''dhcp6'' ''edit''
      (store_of (replicate 1 failed_incident)))) = Inr incs' \<and> failed_incident \<in> set incs'"
  using failed_rollback_kept [where stamp = "''2025-01-02''" and error_text = "\<lambda>l. None" and ok = True and r = rolled_back_result
      and service = "''dhcp6''" and summary = "''edit''", OF failed_incident_read [of 1] _ failed_incident_status failed_incident_heavy(1)]
  by (simp add: incidents_hard_ceiling_def rolled_back_result_def outcome_def)

text \<open>
  The note stays bounded: after an outcome of a failed change has been recorded, the note holds at most 200
  incidents, and at most 20 unless every one of them says that a daemon may be stopped.
\<close>
theorem outcome_note_bounded:
  assumes "incidents_strict is_time note = Inr incs" and "is_time (strip stamp)"
    and "rs_status r = StRolledBack \<or> rs_status r = StRollbackFailed"
    and "record_outcome is_time error_text ok stamp r service summary note = (note', True)"
  shows "\<exists>incs'. incidents_strict is_time note' = Inr incs' \<and> length incs' \<le> incidents_hard_ceiling \<and>
    (length incs' \<le> max_incidents \<or> (\<forall>i \<in> set incs'. \<not> droppable i))"
proof -
  let ?new = "outcome_incident error_text stamp r service summary"
  from assms(1,3,4) obtain incs' where add: "add_outcome ?new incs = Inr (Some incs')" and note': "note' = store_of incs'"
    by (auto simp: record_outcome_def with_attention_def add_outcome_def res_simps Let_def split: if_splits sum.splits option.splits)
  from add have "\<forall>i \<in> set incs'. recognized is_time i"
    using add_outcome_set outcome_recognized [where is_time = is_time and stamp = stamp, OF assms(2,3)]
      strict_recognized [OF assms(1)] by blast
  then have "incidents_strict is_time note' = Inr incs'" unfolding note' by (simp add: strict_store)
  then show ?thesis using add_outcome_bound [OF add] by blast
qed

lemma outcome_note_bounded_witness:
  "\<exists>incs'. incidents_strict (\<lambda>s. True) (fst (record_outcome (\<lambda>s. True) (\<lambda>l. None) True ''2025-01-02'' rolled_back_result ''dhcp6'' ''edit''
      (store_of (replicate 1 failed_incident)))) = Inr incs' \<and> length incs' \<le> 200"
proof -
  obtain nt b where "record_outcome (\<lambda>s. True) (\<lambda>l. None) True ''2025-01-02'' rolled_back_result ''dhcp6'' ''edit''
      (store_of (replicate 1 failed_incident)) = (nt, b)" by fastforce
  moreover have "snd (record_outcome (\<lambda>s. True) (\<lambda>l. None) True ''2025-01-02'' rolled_back_result ''dhcp6'' ''edit''
      (store_of (replicate 1 failed_incident)))" by code_simp
  ultimately show ?thesis
    using outcome_note_bounded [where stamp = "''2025-01-02''" and error_text = "\<lambda>l. None" and ok = True and r = rolled_back_result
      and service = "''dhcp6''" and summary = "''edit''", OF failed_incident_read [of 1]]
    by (auto simp: incidents_hard_ceiling_def rolled_back_result_def outcome_def)
qed

text \<open>
  A note that already holds 20 incidents that say a daemon may be stopped takes no clean rollback: the
  rollback is recorded, dropped again in the same transaction, and the record answers that it is stored.
\<close>
theorem crowded_note_drops_rollback:
  assumes "incidents_strict is_time note = Inr incs" and "\<forall>i \<in> set incs. jget i ''status'' = JStr ''rollback_failed''"
    and "max_incidents \<le> length incs" and "length incs \<le> incidents_hard_ceiling"
    and "\<forall>i \<in> set incs. \<exists>xs. incident_servers i = Inr xs" and "rs_status r = StRolledBack"
  shows "record_outcome is_time error_text True stamp r service summary note = (store_of incs, True)"
proof -
  let ?new = "outcome_incident error_text stamp r service summary"
  have drops: "droppable ?new"
    using assms(6) by (simp add: droppable_def is_attention_def outcome_incident_def status_text_def attention_kind_def jget_JObj)
  obtain mine where mine: "incident_servers ?new = Inr mine" using outcome_servers by blast
  have heavy: "\<forall>i \<in> set incs. \<not> droppable i" using assms(2) by (simp add: droppable_def)
  have "same_trouble ?new i = Inr False" if "i \<in> set incs" for i
    using assms(2,5) that mine by (auto simp: same_trouble_def outcome_incident_def status_text_def assms(6) jget_JObj)
  then have "filter_res (\<lambda>i. rbind (same_trouble ?new i) (\<lambda>b. Inr (\<not> b))) incs = Inr incs"
    by (auto simp: filter_res_Inr filter_True intro: exI [of _ True])
  moreover have "find_index droppable (incs @ [?new]) = Some (length incs)"
    using heavy drops by (simp add: find_index_append find_index_None [THEN iffD2])
  then have "evict (incs @ [?new]) = evict incs"
    using assms(3) by (subst evict.simps) simp
  moreover have "evict incs = incs"
    using heavy by (subst evict.simps) (simp add: find_index_None [THEN iffD2])
  ultimately have "add_outcome ?new incs = Inr (Some incs)"
    using assms(4) by (simp add: add_outcome_def)
  then show ?thesis using assms(1,6) by (simp add: record_outcome_def with_attention_def)
qed

lemma crowded_note_drops_rollback_witness:
  "record_outcome (\<lambda>s. True) (\<lambda>l. None) True ''2025-01-02'' rolled_back_result ''dhcp6'' ''edit'' (store_of (replicate 20 failed_incident)) =
    (store_of (replicate 20 failed_incident), True)"
  using crowded_note_drops_rollback [OF failed_incident_read [of 20]] failed_incident_status failed_incident_servers
  by (auto simp: max_incidents_def incidents_hard_ceiling_def rolled_back_result_def outcome_def)

section \<open>An entry that makes the readers fail\<close>

lemma raising_Inl [simp]: "raising (Inl e) = Inl (NoteRaises e)" "raising (Inr x) = Inr x"
  by (simp_all add: raising_def)

lemma collect_raises: "x \<in> set xs \<Longrightarrow> f x = Inl e \<Longrightarrow> \<exists>e'. collect f xs = Inl e'"
proof (induction xs)
  case (Cons y ys)
  then show ?case by (cases "f y") auto
qed simp

lemma strict_entries_raises:
  "\<forall>g \<in> set good. recognized is_time g \<Longrightarrow> recognized_incident is_time e = Inl x \<Longrightarrow>
     strict_entries is_time (good @ e # others) = Inl (NoteRaises x)"
  by (induction good) (auto simp: recognized_def)

text \<open>
  An attention entry whose category is a list or an object makes every strict reader raise a TypeError
  instead of calling the note malformed, if the entries before it are good: the banner shows nothing, the
  state of the note cannot be asked for, and the set-aside, the one way out of an unreadable note, raises too.
\<close>
theorem unhashable_category_locks_note:
  assumes "jget data ''incidents'' = JList (good @ entry # others)" and "\<forall>g \<in> set good. recognized is_time g"
    and "is_dict entry" and "jget entry ''kind'' = attention_kind" and "\<not> hashable (jget entry ''category'')"
  shows "attention is_time (Note data) = None \<and> note_state is_time True (Note data) = Inl TypeError \<and>
    set_aside_unreadable_note is_time True copies clears (Note data) (Note data) = Inl TypeError"
proof -
  have raises: "recognized_incident is_time entry = Inl TypeError"
    using assms(3-5) by (simp add: recognized_incident_def recognized_attention_def in_categories_def)
  have "is_dict data" using assms(1) jget_notNull_dict [of data "''incidents''"] by simp
  have "jhas data ''incidents''" using assms(1) jget_notNull_has [of data "''incidents''"] by simp
  with \<open>is_dict data\<close> have strict: "incidents_strict is_time (Note data) = Inl (NoteRaises TypeError)"
    using assms(1,2) raises by (simp add: incidents_strict_def strict_entries_raises)
  have "entry \<in> set (incidents_lenient (Note data))"
    using assms(1,3) \<open>is_dict data\<close> by (simp add: incidents_lenient_def)
  then have "\<exists>x. collect (recognized_incident is_time) (incidents_lenient (Note data)) = Inl x"
    using raises by (rule collect_raises)
  then show ?thesis
    using strict by (auto simp: attention_def note_state_def recovery_strict_def set_aside_unreadable_note_def Let_def)
qed

lemma unhashable_category_locks_note_witness:
  "note_state (\<lambda>s. True) True
     (Note (JObj [(''incidents'', JList [JObj [(''kind'', JStr ''attention''), (''category'', JList [])]])])) = Inl TypeError"
  using unhashable_category_locks_note
    [of "JObj [(''incidents'', JList [JObj [(''kind'', JStr ''attention''), (''category'', JList [])]])]" "[]"
       "JObj [(''kind'', JStr ''attention''), (''category'', JList [])]" "[]" "\<lambda>s. True" True True]
  by (simp add: jget_JObj attention_kind_def hashable_def)

section \<open>A change and its note\<close>

text \<open>
  A change that ends with servers nobody could put back leaves them on record: when its result is a failed
  rollback and the transaction of a readable note goes through, the note afterwards holds an incident with
  the status rollback_failed that names exactly those servers, by name and by id.
\<close>
theorem failed_change_on_record:
  assumes "apply_change is_time error_text True stamp cs ch servers lock summary w note = (w', note', r)"
    and "rs_status r = StRollbackFailed" and "is_time (strip stamp)"
    and "incidents_strict is_time note = Inr incs" and "\<forall>i \<in> set incs. \<exists>xs. incident_servers i = Inr xs"
    and "length (filter (\<lambda>j. \<not> droppable j) incs) < incidents_hard_ceiling"
  shows "\<exists>incs'. incidents_strict is_time note' = Inr incs' \<and>
    (\<exists>i \<in> set incs'. jget i ''status'' = JStr ''rollback_failed'' \<and> jget i ''service'' = JStr (service_name (ch_service ch)) \<and>
       jget i ''needs_hands'' = JList (map JStr (rs_needs r)) \<and> jget i ''needs_hands_ids'' = JList (map key_json (rs_needs_ids r)))"
proof -
  let ?svc = "service_name (ch_service ch)"
  let ?new = "outcome_incident error_text stamp r ?svc summary"
  have note': "note' = fst (record_outcome is_time error_text True stamp r ?svc summary note)"
    using assms(1) by (auto simp: apply_change_def split: prod.splits)
  have "\<exists>b. same_trouble ?new i = Inr b" if "i \<in> set incs" for i
    using assms(5) that outcome_servers [of error_text stamp r ?svc summary] by (force simp: same_trouble_def)
  then obtain incs' where add: "add_outcome ?new incs = Inr (Some incs')"
    by (fastforce simp: add_outcome_def res_simps filter_res_Inr Let_def)
  have "\<not> droppable ?new" using assms(2) by (simp add: droppable_def outcome_incident_def status_text_def jget_JObj)
  then have "?new \<in> set incs'" using add_outcome_keeps [OF add assms(6)] by blast
  moreover have "note' = store_of incs'"
    using assms(2,4) add by (simp add: note' record_outcome_def with_attention_def)
  moreover have "recognized is_time i" if "i \<in> set incs'" for i
    using that add_outcome_set [OF add] outcome_recognized [where is_time = is_time and stamp = stamp, OF assms(3)]
      strict_recognized [OF assms(4)] assms(2) by blast
  ultimately have "incidents_strict is_time note' = Inr incs'" by (simp add: strict_store)
  moreover have "jget ?new ''status'' = JStr ''rollback_failed''" "jget ?new ''service'' = JStr ?svc"
    "jget ?new ''needs_hands'' = JList (map JStr (rs_needs r))" "jget ?new ''needs_hands_ids'' = JList (map key_json (rs_needs_ids r))"
    using assms(2) by (simp_all add: outcome_incident_def status_text_def jget_JObj)
  ultimately show ?thesis using \<open>?new \<in> set incs'\<close> by blast
qed

lemma failed_change_on_record_witness:
  "\<exists>incs'. incidents_strict (\<lambda>s. True)
      (fst (snd (apply_change (\<lambda>s. True) (\<lambda>l. None) True ''2025-01-02'' stuck_calls stuck_change [stuck_server] (Some False) ''edit'' () Blank))) = Inr incs' \<and>
    (\<exists>i \<in> set incs'. jget i ''needs_hands'' = JList [JStr ''kea''])"
proof -
  obtain nt r where a: "apply_change (\<lambda>s. True) (\<lambda>l. None) True ''2025-01-02'' stuck_calls stuck_change [stuck_server] (Some False) ''edit'' () Blank
      = ((), nt, r)" by (metis old.unit.exhaust prod_cases3)
  have "rs_status (snd (snd (apply_change (\<lambda>s. True) (\<lambda>l. None) True ''2025-01-02'' stuck_calls stuck_change [stuck_server] (Some False) ''edit'' () Blank)))
      = StRollbackFailed"
    "rs_needs (snd (snd (apply_change (\<lambda>s. True) (\<lambda>l. None) True ''2025-01-02'' stuck_calls stuck_change [stuck_server] (Some False) ''edit'' () Blank)))
      = [''kea'']" by code_simp+
  then show ?thesis
    using failed_change_on_record [OF a, of "[]"] by (auto simp: a incidents_strict_def incidents_hard_ceiling_def)
qed

end
