(* ===== verification/Login.thy ===== *)
theory Login
  imports Json PyStr
begin

text \<open>
  The brakes on guessing: the failed sign-ins and failed second-factor codes Jen keeps
  (\<open>src/jen/services/auth.py\<close>) and the sign-in request that asks them (\<open>src/jen/routes/auth.py\<close>).

  The two tables are lists of rows. The database compares the text of two columns by its collation, a
  parameter \<open>same\<close>; time is in whole seconds, one clock for Jen and its database. A flag says whether the
  database answers; verifying a password is an input.
\<close>

section \<open>Failed sign-ins\<close>

record attempt =
  at_ip :: string
  at_user :: string
  at_time :: int

text \<open>The table and \<open>_last_prune\<close>.\<close>

record login_db =
  ld_rows :: "attempt list"
  ld_last_prune :: int

record rate_limit =
  rl_max :: int
  rl_minutes :: int
  rl_mode :: string

definition get_rate_limit_settings :: "(string \<Rightarrow> string option) \<Rightarrow> rate_limit res" where
  "get_rate_limit_settings setting =
     (let get = (\<lambda>k d. case setting k of Some v \<Rightarrow> v | None \<Rightarrow> d) in
      rbind (py_int (get ''rl_max_attempts'' ''10'')) (\<lambda>m.
      rbind (py_int (get ''rl_lockout_minutes'' ''15'')) (\<lambda>l.
        Inr \<lparr>rl_max = m, rl_minutes = l, rl_mode = get ''rl_mode'' ''both''\<rparr>)))"

definition day :: int where "day = 86400"

definition maybe_prune_login_attempts :: "int \<Rightarrow> login_db \<Rightarrow> login_db" where
  "maybe_prune_login_attempts now db =
     (if now - ld_last_prune db < 3600 then db
      else \<lparr>ld_rows = filter (\<lambda>a. \<not> at_time a < now - day) (ld_rows db), ld_last_prune = now\<rparr>)"

definition record_login_attempt :: "bool \<Rightarrow> int \<Rightarrow> string \<Rightarrow> string \<Rightarrow> login_db \<Rightarrow> login_db" where
  "record_login_attempt ok now ip user db =
     (if ok then maybe_prune_login_attempts now (db\<lparr>ld_rows := ld_rows db @ [\<lparr>at_ip = ip, at_user = user, at_time = now\<rparr>]\<rparr>)
      else db)"

definition clear_login_attempts ::
  "(string \<Rightarrow> string \<Rightarrow> bool) \<Rightarrow> bool \<Rightarrow> string \<Rightarrow> string \<Rightarrow> login_db \<Rightarrow> login_db" where
  "clear_login_attempts same ok ip user db =
     (if ok then db\<lparr>ld_rows := filter (\<lambda>a. \<not> (same (at_ip a) ip \<and> same (at_user a) user)) (ld_rows db)\<rparr> else db)"

definition window_minutes :: "rate_limit \<Rightarrow> int" where
  "window_minutes rl = (if rl_minutes rl > 0 then rl_minutes rl else 1440)"

definition in_window :: "rate_limit \<Rightarrow> int \<Rightarrow> attempt \<Rightarrow> bool" where
  "in_window rl now a = (at_time a \<ge> now - window_minutes rl * 60)"

definition by_ip :: "rate_limit \<Rightarrow> bool" where
  "by_ip rl = (rl_mode rl = ''ip'' \<or> rl_mode rl = ''both'')"

definition by_user :: "rate_limit \<Rightarrow> bool" where
  "by_user rl = (rl_mode rl = ''username'' \<or> rl_mode rl = ''both'')"

definition counted ::
  "(string \<Rightarrow> string \<Rightarrow> bool) \<Rightarrow> rate_limit \<Rightarrow> int \<Rightarrow> string \<Rightarrow> string \<Rightarrow> attempt list \<Rightarrow> nat" where
  "counted same rl now ip user rows =
     max (if by_ip rl then length (filter (\<lambda>a. same (at_ip a) ip \<and> in_window rl now a) rows) else 0)
         (if by_user rl then length (filter (\<lambda>a. same (at_user a) user \<and> in_window rl now a) rows) else 0)"

text \<open>Seconds left in the window of the oldest of these attempts; \<open>MIN\<close> of no rows is null, read as 0.\<close>

definition seconds_left :: "int \<Rightarrow> int \<Rightarrow> attempt list \<Rightarrow> int" where
  "seconds_left minutes now rows =
     max 0 (if rows = [] then 0 else minutes * 60 - (now - Min (at_time ` set rows)))"

definition minutes_left :: "int \<Rightarrow> int" where
  "minutes_left secs = max 1 ((secs + 59) div 60)"

text \<open>The failures whose oldest one the remaining time is counted from: of the address where it counts, else of the name.\<close>

definition lock_rows ::
  "(string \<Rightarrow> string \<Rightarrow> bool) \<Rightarrow> rate_limit \<Rightarrow> int \<Rightarrow> string \<Rightarrow> string \<Rightarrow> attempt list \<Rightarrow> attempt list" where
  "lock_rows same rl now ip user rows =
     filter (\<lambda>a. (if by_ip rl then same (at_ip a) ip else same (at_user a) user) \<and> in_window rl now a) rows"

definition is_locked_out ::
  "(string \<Rightarrow> string \<Rightarrow> bool) \<Rightarrow> rate_limit \<Rightarrow> bool \<Rightarrow> int \<Rightarrow> string \<Rightarrow> string \<Rightarrow> login_db \<Rightarrow> bool \<times> int" where
  "is_locked_out same rl ok now ip user db =
     (if rl_mode rl = ''off'' \<or> rl_max rl = 0 then (False, 0)
      else if \<not> ok then (False, 0)
      else if int (counted same rl now ip user (ld_rows db)) \<ge> rl_max rl then
        (True,
         if rl_minutes rl > 0 then
           minutes_left (seconds_left (rl_minutes rl) now (lock_rows same rl now ip user (ld_rows db)))
         else 999)
      else (False, 0))"

section \<open>The sign-in request\<close>

record account =
  ac_role :: string
  ac_provider :: string
  ac_mfa_enrolled :: bool

text \<open>
  What a sign-in brings - the stripped name, cut at 100 characters, and whether a password was typed - and
  what it finds: the account of the name, if any, whether the password is its own, and whether the device is
  trusted.
\<close>

record sign_in =
  si_time :: int
  si_ip :: string
  si_user :: string
  si_password_given :: bool
  si_account :: "account option"
  si_password_ok :: bool
  si_trusted :: bool
  si_mfa_mode :: string
  si_db_ok :: bool

datatype sign_in_reply = FieldsRequired | DatabaseError | TryAgainIn int | AccountLocked | InvalidLogin | AskSecondFactor | AskEnroll | SignedIn

definition needs_mfa :: "string \<Rightarrow> account \<Rightarrow> bool" where
  "needs_mfa mode ac =
     (mode = ''required_all'' \<or> (mode = ''required_admins'' \<and> (ac_role ac = ''admin'' \<or> ac_role ac = ''superadmin'')))"

definition password_accepted :: "sign_in \<Rightarrow> bool" where
  "password_accepted si =
     (case si_account si of None \<Rightarrow> False | Some ac \<Rightarrow> ac_provider ac \<noteq> ''oidc'' \<and> si_password_ok si)"

definition after_password :: "sign_in \<Rightarrow> account \<Rightarrow> sign_in_reply" where
  "after_password si ac =
     (let needs = needs_mfa (si_mfa_mode si) ac in
      if (ac_mfa_enrolled ac \<or> needs) \<and> ac_mfa_enrolled ac \<and> \<not> si_trusted si then AskSecondFactor
      else if needs \<and> \<not> ac_mfa_enrolled ac then AskEnroll
      else SignedIn)"

definition login ::
  "(string \<Rightarrow> string \<Rightarrow> bool) \<Rightarrow> rate_limit \<Rightarrow> sign_in \<Rightarrow> login_db \<Rightarrow> login_db \<times> sign_in_reply" where
  "login same rl si db =
     (if si_user si = [] \<or> \<not> si_password_given si then (db, FieldsRequired)
      else if \<not> si_db_ok si then (db, DatabaseError)
      else case is_locked_out same rl True (si_time si) (si_ip si) (si_user si) db of
             (True, remaining) \<Rightarrow> (db, if remaining \<ge> 999 then AccountLocked else TryAgainIn remaining)
           | (False, _) \<Rightarrow>
               (case si_account si of
                  Some ac \<Rightarrow>
                    (if ac_provider ac = ''oidc''
                     then (record_login_attempt True (si_time si) (si_ip si) (si_user si) db, InvalidLogin)
                     else if si_password_ok si
                     then (clear_login_attempts same True (si_ip si) (si_user si) db, after_password si ac)
                     else (record_login_attempt True (si_time si) (si_ip si) (si_user si) db, InvalidLogin))
                | None \<Rightarrow> (record_login_attempt True (si_time si) (si_ip si) (si_user si) db, InvalidLogin)))"

fun logins ::
  "(string \<Rightarrow> string \<Rightarrow> bool) \<Rightarrow> rate_limit \<Rightarrow> sign_in list \<Rightarrow> login_db \<Rightarrow> login_db \<times> sign_in_reply list" where
  "logins same rl [] db = (db, [])"
| "logins same rl (si # sis) db =
     (case login same rl si db of (db1, r) \<Rightarrow> (case logins same rl sis db1 of (db2, rs) \<Rightarrow> (db2, r # rs)))"

section \<open>Failed second factors\<close>

definition mfa_max_attempts :: nat where "mfa_max_attempts = 10"

definition mfa_lockout_minutes :: int where "mfa_lockout_minutes = 15"

text \<open>The rows of \<open>mfa_attempts\<close>: the id of the user and the time.\<close>

type_synonym mfa_rows = "(int \<times> int) list"

definition record_mfa_attempt :: "bool \<Rightarrow> int \<Rightarrow> int \<Rightarrow> mfa_rows \<Rightarrow> mfa_rows" where
  "record_mfa_attempt ok now uid rows =
     (if ok then filter (\<lambda>r. \<not> snd r < now - day) (rows @ [(uid, now)]) else rows)"

definition clear_mfa_attempts :: "bool \<Rightarrow> int \<Rightarrow> mfa_rows \<Rightarrow> mfa_rows" where
  "clear_mfa_attempts ok uid rows = (if ok then filter (\<lambda>r. fst r \<noteq> uid) rows else rows)"

definition mfa_window :: "int \<Rightarrow> int \<Rightarrow> mfa_rows \<Rightarrow> mfa_rows" where
  "mfa_window now uid rows = filter (\<lambda>r. fst r = uid \<and> snd r \<ge> now - mfa_lockout_minutes * 60) rows"

definition is_mfa_locked_out :: "bool \<Rightarrow> int \<Rightarrow> int \<Rightarrow> mfa_rows \<Rightarrow> bool \<times> int" where
  "is_mfa_locked_out ok now uid rows =
     (if ok \<and> length (mfa_window now uid rows) \<ge> mfa_max_attempts
      then (True, minutes_left (max 0 (mfa_lockout_minutes * 60 - (now - Min (snd ` set (mfa_window now uid rows))))))
      else (False, 0))"

text \<open>
  A posted code at \<open>/mfa/verify\<close>: whether it is a valid backup code or a valid one-time code, and whether
  the pending user still exists.
\<close>

datatype mfa_reply = TooManyCodes int | CodeAccepted | CodeRefused

record mfa_code =
  mc_time :: int
  mc_length :: nat
  mc_backup_ok :: bool
  mc_totp_ok :: bool
  mc_user_exists :: bool

definition code_accepted :: "mfa_code \<Rightarrow> bool" where
  "code_accepted mc = (mc_user_exists mc \<and> ((mc_length mc \<ge> 16 \<and> mc_backup_ok mc) \<or> mc_totp_ok mc))"

definition mfa_verify :: "int \<Rightarrow> mfa_code \<Rightarrow> mfa_rows \<Rightarrow> mfa_rows \<times> mfa_reply" where
  "mfa_verify uid mc rows =
     (case is_mfa_locked_out True (mc_time mc) uid rows of
        (True, remaining) \<Rightarrow> (rows, TooManyCodes remaining)
      | (False, _) \<Rightarrow>
          if code_accepted mc then (clear_mfa_attempts True uid rows, CodeAccepted)
          else (record_mfa_attempt True (mc_time mc) uid rows, CodeRefused))"

fun mfa_codes :: "int \<Rightarrow> mfa_code list \<Rightarrow> mfa_rows \<Rightarrow> mfa_rows \<times> mfa_reply list" where
  "mfa_codes uid [] rows = (rows, [])"
| "mfa_codes uid (mc # mcs) rows =
     (case mfa_verify uid mc rows of (rows1, r) \<Rightarrow> (case mfa_codes uid mcs rows1 of (rows2, rs) \<Rightarrow> (rows2, r # rs)))"

end
