(* ===== verification/RateLimit.thy ===== *)
theory RateLimit
  imports Prelude
begin

text \<open>
  The one argument behind every limit per window of time in Jen - failed passwords, failed second factors,
  write requests of an API key: a request is let through, and logged, only while the log shows fewer than the
  limit within the window before it. The locale states this as an interface; its users are the models of the
  three requests.
\<close>

section \<open>A limit on what is logged\<close>

text \<open>The requests of a run that the state logs, in order.\<close>

fun logged :: "('e \<Rightarrow> 's \<Rightarrow> 's \<times> bool) \<Rightarrow> 'e list \<Rightarrow> 's \<Rightarrow> 'e list" where
  "logged step [] s = []"
| "logged step (e # es) s =
     (case step e s of (s', taken) \<Rightarrow> (if taken then [e] else []) @ logged step es s')"

definition in_span :: "('e \<Rightarrow> int) \<Rightarrow> int \<Rightarrow> int \<Rightarrow> 'e \<Rightarrow> bool" where
  "in_span time c d e \<longleftrightarrow> c \<le> time e \<and> time e \<le> d"

text \<open>
  \<open>seen s c\<close> is how many watched requests logged since the time \<open>c\<close> the state shows. A watched request is
  logged only while they are fewer than the limit, and the state goes on showing them for the whole window.
\<close>

locale window_limit =
  fixes step :: "'e \<Rightarrow> 's \<Rightarrow> 's \<times> bool"
    and time :: "'e \<Rightarrow> int"
    and regular :: "'e \<Rightarrow> bool"
    and watched :: "'e \<Rightarrow> bool"
    and seen :: "'s \<Rightarrow> int \<Rightarrow> nat"
    and window :: int
    and limit :: nat
  assumes logged_below: "regular e \<Longrightarrow> watched e \<Longrightarrow> snd (step e s) \<Longrightarrow> seen s (time e - window) < limit"
    and shown: "regular e \<Longrightarrow> time e - window \<le> c \<Longrightarrow>
      seen s c + (if snd (step e s) \<and> watched e \<and> c \<le> time e then 1 else 0) \<le> seen (fst (step e s)) c"
    and seen_mono: "c \<le> d \<Longrightarrow> seen s d \<le> seen s c"
begin

text \<open>The bound for a run after a log of earlier logged that the state still shows.\<close>

lemma bounded_after:
  assumes "sorted (map time es)" and "list_all regular es" and "\<forall>e \<in> set es. now \<le> time e"
    and "\<And>c. now - window \<le> c \<Longrightarrow> length (filter (\<lambda>e. watched e \<and> c \<le> time e) before) \<le> seen s c"
    and "\<And>c. length (filter (\<lambda>e. watched e \<and> in_span time c (c + window) e) before) \<le> limit"
  shows "length (filter (\<lambda>e. watched e \<and> in_span time c (c + window) e) (before @ logged step es s)) \<le> limit"
  using assms
proof (induction es arbitrary: s before now)
  case (Cons e es)
  obtain s' taken where st: "step e s = (s', taken)" by (cases "step e s")
  have reg: "regular e" and le: "now \<le> time e" using Cons.prems by auto
  let ?l = "before @ (if taken then [e] else [])"
  have "length (filter (\<lambda>x. watched x \<and> d \<le> time x) ?l) \<le> seen s' d" if "time e - window \<le> d" for d
    using Cons.prems(4) [of d] shown [OF reg that, of s] le that st by auto
  moreover have "length (filter (\<lambda>x. watched x \<and> in_span time d (d + window) x) ?l) \<le> limit" for d
  proof (cases "taken \<and> watched e \<and> in_span time d (d + window) e")
    case True
    then have d: "time e - window \<le> d" by (simp add: in_span_def)
    have "length (filter (\<lambda>x. watched x \<and> in_span time d (d + window) x) before) \<le>
        length (filter (\<lambda>x. watched x \<and> d \<le> time x) before)"
      by (induction before) (auto simp: in_span_def)
    also have "\<dots> \<le> seen s d" using Cons.prems(4) le d by simp
    also have "\<dots> \<le> seen s (time e - window)" using d by (rule seen_mono)
    also have "\<dots> < limit" using logged_below [OF reg, of s] True st by simp
    finally show ?thesis using True by simp
  next
    case False
    then show ?thesis using Cons.prems(5) [of d] by auto
  qed
  ultimately have "length (filter (\<lambda>x. watched x \<and> in_span time c (c + window) x) (?l @ logged step es s')) \<le> limit"
    using Cons.prems(1,2) by (intro Cons.IH [of "time e"]) auto
  then show ?case using st by simp
qed simp

lemma bounded:
  assumes "sorted (map time es)" and "list_all regular es"
  shows "length (filter (\<lambda>e. watched e \<and> in_span time c (c + window) e) (logged step es s)) \<le> limit"
proof (cases es)
  case (Cons e rest)
  then show ?thesis
    using bounded_after [of es "time e" "[]" s c] assms by auto
qed simp

end

end
