(* ===== verification/LoginProps.thy ===== *)
theory LoginProps
  imports Login RateLimit
begin

text \<open>
  What the brakes on guessing guarantee. The argument is the same for passwords and for second factors: a
  guess is refused only while the table holds fewer failures than the limit, and every refusal enters the
  table. Both requests are interpretations of the interface of \<open>RateLimit\<close>, which derives the bound on the
  guesses in any window.
\<close>

section \<open>Passwords\<close>

definition login_step :: "(string \<Rightarrow> string \<Rightarrow> bool) \<Rightarrow> rate_limit \<Rightarrow> sign_in \<Rightarrow> login_db \<Rightarrow> login_db \<times> bool" where
  "login_step same rl si db = (case login same rl si db of (db', r) \<Rightarrow> (db', r = InvalidLogin))"

definition against :: "(string \<Rightarrow> string \<Rightarrow> bool) \<Rightarrow> string \<Rightarrow> string \<Rightarrow> sign_in \<Rightarrow> bool" where
  "against same ip user si \<longleftrightarrow> same (si_ip si) ip \<and> same (si_user si) user"

text \<open>The limit is on and its window is not longer than the table is kept.\<close>

definition brake_on :: "rate_limit \<Rightarrow> bool" where
  "brake_on rl \<longleftrightarrow> rl_max rl > 0 \<and> (by_ip rl \<or> by_user rl) \<and> window_minutes rl \<le> 1440"

definition regular_sign_in :: "(string \<Rightarrow> string \<Rightarrow> bool) \<Rightarrow> rate_limit \<Rightarrow> string \<Rightarrow> string \<Rightarrow> sign_in \<Rightarrow> bool" where
  "regular_sign_in same rl ip user si \<longleftrightarrow>
     equivp same \<and> brake_on rl \<and> \<not> (against same ip user si \<and> password_accepted si)"

definition failures_since :: "(string \<Rightarrow> string \<Rightarrow> bool) \<Rightarrow> string \<Rightarrow> string \<Rightarrow> login_db \<Rightarrow> int \<Rightarrow> nat" where
  "failures_since same ip user db c =
     length (filter (\<lambda>a. same (at_ip a) ip \<and> same (at_user a) user \<and> c \<le> at_time a) (ld_rows db))"

lemma failures_counted:
  assumes "equivp same" and "by_ip rl \<or> by_user rl" and "same ip ip'" and "same user user'"
  shows "failures_since same ip' user' db (now - window_minutes rl * 60) \<le> counted same rl now ip user (ld_rows db)"
proof -
  have t: "same x ip" if "same x ip'" for x
    using equivp_transp [OF assms(1) that] equivp_symp [OF assms(1,3)] by blast
  have u: "same x user" if "same x user'" for x
    using equivp_transp [OF assms(1) that] equivp_symp [OF assms(1,4)] by blast
  have "failures_since same ip' user' db (now - window_minutes rl * 60) \<le>
      length (filter (\<lambda>a. same (at_ip a) ip \<and> in_window rl now a) (ld_rows db))"
    "failures_since same ip' user' db (now - window_minutes rl * 60) \<le>
      length (filter (\<lambda>a. same (at_user a) user \<and> in_window rl now a) (ld_rows db))"
    unfolding failures_since_def by (rule length_filter_mono; use t u in \<open>auto simp: in_window_def\<close>)+
  then show ?thesis using assms(2) by (auto simp: counted_def)
qed

lemma not_locked_below:
  assumes "is_locked_out same rl True now ip user db = (False, x)" and "brake_on rl"
  shows "counted same rl now ip user (ld_rows db) < nat (rl_max rl)"
  using assms by (auto simp: is_locked_out_def brake_on_def by_ip_def by_user_def split: if_splits)

lemma login_refused:
  assumes "snd (login_step same rl si db)"
  shows "fst (is_locked_out same rl True (si_time si) (si_ip si) (si_user si) db) = False \<and>
    fst (login_step same rl si db) = record_login_attempt True (si_time si) (si_ip si) (si_user si) db"
  using assms
  by (auto simp: login_step_def login_def after_password_def Let_def split: if_splits prod.splits bool.splits option.splits)

lemma login_not_refused:
  assumes "\<not> snd (login_step same rl si db)"
  shows "fst (login_step same rl si db) = db \<or>
    password_accepted si \<and> fst (login_step same rl si db) = clear_login_attempts same True (si_ip si) (si_user si) db"
  using assms
  by (auto simp: login_step_def login_def password_accepted_def split: if_splits prod.splits bool.splits option.splits)

lemma record_shows:
  assumes "now - window * 60 \<le> c" and "window \<le> 1440"
  shows "failures_since same ip user (record_login_attempt True now i u db) c =
    failures_since same ip user db c + (if same i ip \<and> same u user \<and> c \<le> now then 1 else 0)"
proof -
  let ?db = "db\<lparr>ld_rows := ld_rows db @ [\<lparr>at_ip = i, at_user = u, at_time = now\<rparr>]\<rparr>"
  have "failures_since same ip user (maybe_prune_login_attempts now ?db) c = failures_since same ip user ?db c"
  proof (cases "now - ld_last_prune db < 3600")
    case False
    have "length (filter (\<lambda>a. same (at_ip a) ip \<and> same (at_user a) user \<and> c \<le> at_time a)
        (filter (\<lambda>a. \<not> at_time a < now - day) (ld_rows ?db))) =
      length (filter (\<lambda>a. same (at_ip a) ip \<and> same (at_user a) user \<and> c \<le> at_time a) (ld_rows ?db))"
      by (rule filter_and_cong) (use assms in \<open>auto simp: day_def\<close>)
    then show ?thesis using False by (simp add: failures_since_def maybe_prune_login_attempts_def del: filter_append filter_filter)
  qed (simp add: maybe_prune_login_attempts_def)
  then show ?thesis by (simp add: record_login_attempt_def failures_since_def)
qed

lemma clear_shows:
  assumes "equivp same" and "\<not> (same i ip \<and> same u user)"
  shows "failures_since same ip user (clear_login_attempts same True i u db) c = failures_since same ip user db c"
proof -
  have "\<not> (same x i \<and> same y u)" if "same x ip" "same y user" for x y
    using assms that equivp_symp [OF assms(1)] equivp_transp [OF assms(1)] by metis
  then have "length (filter (\<lambda>a. same (at_ip a) ip \<and> same (at_user a) user \<and> c \<le> at_time a)
      (filter (\<lambda>a. \<not> (same (at_ip a) i \<and> same (at_user a) u)) (ld_rows db))) =
    length (filter (\<lambda>a. same (at_ip a) ip \<and> same (at_user a) user \<and> c \<le> at_time a) (ld_rows db))"
    by (intro filter_and_cong) blast
  then show ?thesis by (simp add: failures_since_def clear_login_attempts_def del: filter_filter)
qed

interpretation passwords: window_limit "login_step same rl" si_time "regular_sign_in same rl ip user" "against same ip user"
    "failures_since same ip user" "window_minutes rl * 60" "nat (rl_max rl)" for same rl ip user
proof
  fix si db
  assume reg: "regular_sign_in same rl ip user si" and ag: "against same ip user si" and ref: "snd (login_step same rl si db)"
  then have "equivp same" "brake_on rl" by (auto simp: regular_sign_in_def)
  obtain x where "is_locked_out same rl True (si_time si) (si_ip si) (si_user si) db = (False, x)"
    using login_refused [OF ref] by (metis prod.collapse)
  from not_locked_below [OF this \<open>brake_on rl\<close>] show "failures_since same ip user db (si_time si - window_minutes rl * 60) < nat (rl_max rl)"
    using failures_counted [OF \<open>equivp same\<close>, of rl "si_ip si" ip "si_user si" user db "si_time si"] ag \<open>brake_on rl\<close>
    by (auto simp: against_def brake_on_def)
next
  fix si db c
  assume reg: "regular_sign_in same rl ip user si" and c: "si_time si - window_minutes rl * 60 \<le> c"
  then have eq: "equivp same" "window_minutes rl \<le> 1440" by (auto simp: regular_sign_in_def brake_on_def)
  show "failures_since same ip user db c + (if snd (login_step same rl si db) \<and> against same ip user si \<and> c \<le> si_time si then 1 else 0)
      \<le> failures_since same ip user (fst (login_step same rl si db)) c"
  proof (cases "snd (login_step same rl si db)")
    case True
    then show ?thesis using login_refused [OF True] record_shows [OF c eq(2)] by (auto simp: against_def)
  next
    case False
    then show ?thesis
      using login_not_refused [OF False] reg clear_shows [OF eq(1), of "si_ip si" ip "si_user si" user]
      by (auto simp: regular_sign_in_def against_def)
  qed
next
  fix c d :: int and db
  show "c \<le> d \<Longrightarrow> failures_since same ip user db d \<le> failures_since same ip user db c"
    unfolding failures_since_def by (rule length_filter_mono) auto
qed



section \<open>How long a lock lasts\<close>

lemma counted_none:
  "(\<forall>a \<in> set rows. same (at_ip a) ip \<or> same (at_user a) user \<longrightarrow> \<not> in_window rl now a) \<Longrightarrow> counted same rl now ip user rows = 0"
  by (auto simp: counted_def filter_empty_conv)

text \<open>
  The answer to a locked sign-in says a number of minutes between one and the lockout time, and a lock
  ends: once the failures of that address and that name are older than the window, the sign-in is no longer
  refused. This holds for the lockout time 0 as well, which the settings page calls permanent: it ends
  after a day.
\<close>
theorem lockout_times:
  assumes "rl_max rl > 0"
  shows "(is_locked_out same rl ok now ip user db = (True, m) \<and> rl_minutes rl > 0 \<and> (\<forall>a \<in> set (ld_rows db). at_time a \<le> now)
      \<longrightarrow> 1 \<le> m \<and> m \<le> rl_minutes rl) \<and>
    ((\<forall>a \<in> set (ld_rows db). same (at_ip a) ip \<or> same (at_user a) user \<longrightarrow>
        at_time a < now - (if rl_minutes rl = 0 then day else window_minutes rl * 60))
      \<longrightarrow> is_locked_out same rl ok now ip user db = (False, 0))"
proof (intro conjI impI; (elim conjE)?)
  assume l: "is_locked_out same rl ok now ip user db = (True, m)" "rl_minutes rl > 0" "\<forall>a \<in> set (ld_rows db). at_time a \<le> now"
  let ?rows = "lock_rows same rl now ip user (ld_rows db)"
  have m: "m = minutes_left (seconds_left (rl_minutes rl) now ?rows)"
    using l(1,2) by (auto simp: is_locked_out_def split: if_splits)
  have "Min (at_time ` set ?rows) \<le> now" if "?rows \<noteq> []"
  proof -
    have "Min (at_time ` set ?rows) \<in> at_time ` set ?rows" using that by (intro Min_in) auto
    then obtain a where "a \<in> set ?rows" "Min (at_time ` set ?rows) = at_time a" by auto
    moreover from this(1) have "a \<in> set (ld_rows db)" by (simp add: lock_rows_def)
    ultimately show ?thesis using l(3) by simp
  qed
  then have "seconds_left (rl_minutes rl) now ?rows \<le> rl_minutes rl * 60"
    using l(2) by (simp add: seconds_left_def)
  then show "1 \<le> m" "m \<le> rl_minutes rl"
    using l(2) unfolding m by (auto simp: minutes_left_def)
next
  assume "\<forall>a \<in> set (ld_rows db). same (at_ip a) ip \<or> same (at_user a) user \<longrightarrow>
        at_time a < now - (if rl_minutes rl = 0 then day else window_minutes rl * 60)"
  then have "counted same rl now ip user (ld_rows db) = 0"
    by (intro counted_none) (auto simp: in_window_def window_minutes_def day_def split: if_splits)
  then show "is_locked_out same rl ok now ip user db = (False, 0)"
    using assms by (simp add: is_locked_out_def)
qed

lemma lockout_times_witness:
  "is_locked_out (=) \<lparr>rl_max = 1, rl_minutes = 0, rl_mode = ''both''\<rparr> True 100000 ''a'' ''b''
     \<lparr>ld_rows = [\<lparr>at_ip = ''a'', at_user = ''b'', at_time = 0\<rparr>], ld_last_prune = 0\<rparr> = (False, 0)"
  using lockout_times [of "\<lparr>rl_max = 1, rl_minutes = 0, rl_mode = ''both''\<rparr>" "(=)" True 100000 "''a''" "''b''"
      "\<lparr>ld_rows = [\<lparr>at_ip = ''a'', at_user = ''b'', at_time = 0\<rparr>], ld_last_prune = 0\<rparr>"]
  by (simp add: day_def)

text \<open>
  A lockout time of more than a day is not kept: the hourly clean-up that rides on any recorded failure
  removes failures older than a day, and the lock with them.
\<close>

lemma long_lockout_ends_early:
  assumes "is_locked_out same rl True now ip user db = (True, m)" and "rl_max rl > 0"
    and "\<forall>a \<in> set (ld_rows db). at_time a < now - day" and "3600 \<le> now - ld_last_prune db"
    and "\<not> same ip' ip" and "\<not> same user' user"
  shows "is_locked_out same rl True now ip user (record_login_attempt True now ip' user' db) = (False, 0)"
proof -
  have "filter (\<lambda>a. \<not> at_time a < now - day) (ld_rows db) = []"
    using assms(3) by (auto simp: filter_empty_conv)
  then have rows: "ld_rows (record_login_attempt True now ip' user' db) = [\<lparr>at_ip = ip', at_user = user', at_time = now\<rparr>]"
    using assms(4) by (simp add: record_login_attempt_def maybe_prune_login_attempts_def day_def)
  have "counted same rl now ip user (ld_rows (record_login_attempt True now ip' user' db)) = 0"
    unfolding rows by (intro counted_none) (use assms(5,6) in auto)
  then show ?thesis using assms(2) by (simp add: is_locked_out_def)
qed

section \<open>Second factors\<close>

definition mfa_step :: "int \<Rightarrow> mfa_code \<Rightarrow> mfa_rows \<Rightarrow> mfa_rows \<times> bool" where
  "mfa_step uid mc rows = (case mfa_verify uid mc rows of (rows', r) \<Rightarrow> (rows', r = CodeRefused))"

definition mfa_since :: "int \<Rightarrow> mfa_rows \<Rightarrow> int \<Rightarrow> nat" where
  "mfa_since uid rows c = length (filter (\<lambda>r. fst r = uid \<and> c \<le> snd r) rows)"

lemma mfa_step_refused:
  "snd (mfa_step uid mc rows) \<longleftrightarrow> length (mfa_window (mc_time mc) uid rows) < mfa_max_attempts \<and> \<not> code_accepted mc"
  by (auto simp: mfa_step_def mfa_verify_def is_mfa_locked_out_def split: prod.splits bool.splits)

lemma mfa_step_state:
  "\<not> code_accepted mc \<Longrightarrow> fst (mfa_step uid mc rows) =
     (if snd (mfa_step uid mc rows) then record_mfa_attempt True (mc_time mc) uid rows else rows)"
  by (auto simp: mfa_step_def mfa_verify_def is_mfa_locked_out_def split: prod.splits bool.splits)

lemma mfa_record_shows:
  assumes "t - mfa_lockout_minutes * 60 \<le> c"
  shows "mfa_since uid (record_mfa_attempt True t uid rows) c = mfa_since uid rows c + (if c \<le> t then 1 else 0)"
proof -
  have "length (filter (\<lambda>r. fst r = uid \<and> c \<le> snd r) (filter (\<lambda>r. \<not> snd r < t - day) (rows @ [(uid, t)]))) =
      length (filter (\<lambda>r. fst r = uid \<and> c \<le> snd r) (rows @ [(uid, t)]))"
    by (rule filter_and_cong) (use assms in \<open>auto simp: day_def mfa_lockout_minutes_def\<close>)
  then have "mfa_since uid (record_mfa_attempt True t uid rows) c = mfa_since uid (rows @ [(uid, t)]) c"
    unfolding mfa_since_def record_mfa_attempt_def by (simp only: if_True)
  then show ?thesis by (simp add: mfa_since_def)
qed

interpretation codes: window_limit "mfa_step uid" mc_time "\<lambda>mc. \<not> code_accepted mc" "\<lambda>mc. True" "mfa_since uid"
    "mfa_lockout_minutes * 60" mfa_max_attempts for uid
proof
  fix mc rows
  assume "snd (mfa_step uid mc rows)"
  then show "mfa_since uid rows (mc_time mc - mfa_lockout_minutes * 60) < mfa_max_attempts"
    by (simp add: mfa_step_refused mfa_since_def mfa_window_def)
next
  fix mc rows and c :: int
  assume ok: "\<not> code_accepted mc" and c: "mc_time mc - mfa_lockout_minutes * 60 \<le> c"
  show "mfa_since uid rows c + (if snd (mfa_step uid mc rows) \<and> True \<and> c \<le> mc_time mc then 1 else 0)
      \<le> mfa_since uid (fst (mfa_step uid mc rows)) c"
    using mfa_record_shows [OF c] by (simp add: mfa_step_state [OF ok])
next
  fix c d :: int and rows
  show "c \<le> d \<Longrightarrow> mfa_since uid rows d \<le> mfa_since uid rows c"
    unfolding mfa_since_def by (rule length_filter_mono) auto
qed

text \<open>
  Second-factor codes cannot be tried at will: of the wrong codes posted for one pending user, at most
  ten are looked at and refused in any fifteen minutes, whatever came before.
\<close>
theorem codes_bounded:
  assumes "sorted (map mc_time mcs)" and "list_all (\<lambda>mc. \<not> code_accepted mc) mcs"
  shows "length (filter (in_span mc_time c (c + 900)) (logged (mfa_step uid) mcs rows)) \<le> 10"
  using codes.bounded [OF assms, of c uid rows] by (simp add: mfa_lockout_minutes_def mfa_max_attempts_def)

lemma codes_bounded_witness:
  "length (filter (in_span mc_time 0 900) (logged (mfa_step 7) (map (\<lambda>t. \<lparr>mc_time = t, mc_length = 6, mc_backup_ok = False,
      mc_totp_ok = False, mc_user_exists = True\<rparr>) [1, 2, 3]) [])) \<le> 10"
  using codes_bounded [of "map (\<lambda>t. \<lparr>mc_time = t, mc_length = 6, mc_backup_ok = False, mc_totp_ok = False, mc_user_exists = True\<rparr>) [1, 2, 3]" 0 7 "[]"]
  by (simp add: code_accepted_def)

end
