(* ===== verification/Access.thy ===== *)
theory Access
  imports PyConv
begin

text \<open>
  Who may see what: the roles and the subnet scope of an account (\<open>src/jen/models/user.py\<close>) and the
  decisions of \<open>src/jen/services/access.py\<close> - the IPv4 and IPv6 scope, the one rule for showing a client
  to a caller with a scope, the restriction of a query, and the step-up to a recent password.

  A subnet map of Jen is a list of ids with what it knows of each. \<open>json.loads\<close> is a parameter; a stored
  time is what the parser made of it, in whole microseconds of UTC.
\<close>

section \<open>Accounts\<close>

record account_user =
  us_role :: string
  us_access :: "json option"

text \<open>The constructor reads the column \<open>subnet_access\<close>: nothing, or a text.\<close>

definition subnet_access_of :: "(string \<Rightarrow> json option) \<Rightarrow> string option \<Rightarrow> json option" where
  "subnet_access_of loads raw =
     (case raw of
        None \<Rightarrow> None
      | Some s \<Rightarrow> (case loads s of None \<Rightarrow> None | Some v \<Rightarrow> if v = JNull then None else Some v))"

definition new_user :: "(string \<Rightarrow> json option) \<Rightarrow> string \<Rightarrow> string option \<Rightarrow> account_user" where
  "new_user loads role raw = \<lparr>us_role = role, us_access = subnet_access_of loads raw\<rparr>"

definition is_superadmin :: "account_user \<Rightarrow> bool" where
  "is_superadmin u = (us_role u = ''superadmin'')"

definition is_admin_or_above :: "account_user \<Rightarrow> bool" where
  "is_admin_or_above u = (us_role u = ''superadmin'' \<or> us_role u = ''admin'')"

definition all_subnets :: "account_user \<Rightarrow> bool" where
  "all_subnets u = (is_superadmin u \<or> us_access u = None)"

text \<open>\<open>[int(s) for s in (access or [])]\<close>.\<close>

definition access_ids :: "account_user \<Rightarrow> int list res" where
  "access_ids u =
     rbind (py_iter (case us_access u of None \<Rightarrow> JList [] | Some v \<Rightarrow> py_or v (JList []))) (\<lambda>xs. collect int_of_json xs)"

definition can_access_subnet :: "account_user \<Rightarrow> int \<Rightarrow> bool res" where
  "can_access_subnet u sid =
     (if all_subnets u then Inr True else rbind (access_ids u) (\<lambda>ids. Inr (sid \<in> set ids)))"

definition filter_subnet_map :: "account_user \<Rightarrow> (int \<times> 'v) list \<Rightarrow> (int \<times> 'v) list res" where
  "filter_subnet_map u m =
     (if all_subnets u then Inr m
      else rbind (collect (\<lambda>kv. can_access_subnet u (fst kv)) m) (\<lambda>bs. Inr (map fst (filter snd (zip m bs)))))"

definition accessible_subnet_ids :: "account_user \<Rightarrow> (int \<times> 'v) list \<Rightarrow> int list res" where
  "accessible_subnet_ids u m = rbind (filter_subnet_map u m) (\<lambda>kept. Inr (map fst kept))"

section \<open>The gates of the routes\<close>

datatype gate = ToLogin | Denied | Passed

definition superadmin_required :: "account_user option \<Rightarrow> gate" where
  "superadmin_required u =
     (case u of None \<Rightarrow> ToLogin | Some x \<Rightarrow> if us_role x \<noteq> ''superadmin'' then Denied else Passed)"

definition admin_required :: "account_user option \<Rightarrow> gate" where
  "admin_required u =
     (case u of None \<Rightarrow> ToLogin | Some x \<Rightarrow> if us_role x \<notin> {''superadmin'', ''admin''} then Denied else Passed)"

definition viewer_or_above :: "account_user option \<Rightarrow> gate" where
  "viewer_or_above u = (case u of None \<Rightarrow> ToLogin | Some x \<Rightarrow> Passed)"

text \<open>\<open>session["auth_at"]\<close>: missing, not a time, or a time (a naive one is taken as UTC).\<close>

datatype moment = NoMoment | NotAMoment | Moment int

definition auth_is_recent :: "moment \<Rightarrow> int \<Rightarrow> int \<Rightarrow> bool" where
  "auth_is_recent auth_at now minutes =
     (case auth_at of Moment t \<Rightarrow> now - t \<le> minutes * 60 * 1000000 | _ \<Rightarrow> False)"

text \<open>
  A request: who is signed in (no one, or outside any request), when the password was confirmed, and the
  step-up it has already passed (\<open>g.reauth_ok_minutes\<close>).
\<close>

record req =
  rq_in_request :: bool
  rq_user :: "account_user option"
  rq_auth_at :: moment
  rq_reauth_ok :: "int option"

datatype identity_refusal = NotSuperadmin | ConfirmPassword

definition identity_change_needs_superadmin :: "int \<Rightarrow> req \<Rightarrow> identity_refusal option" where
  "identity_change_needs_superadmin now rq =
     (case rq_user rq of
        None \<Rightarrow> None
      | Some u \<Rightarrow>
          if \<not> rq_in_request rq then None
          else if us_role u \<noteq> ''superadmin'' then Some NotSuperadmin
          else if (case rq_reauth_ok rq of Some m \<Rightarrow> m \<le> 10 | None \<Rightarrow> False) then None
          else if \<not> auth_is_recent (rq_auth_at rq) now 10 then Some ConfirmPassword
          else None)"

text \<open>The request after the check, and whether it may go on.\<close>

definition step_up :: "int \<Rightarrow> int \<Rightarrow> req \<Rightarrow> req \<times> bool" where
  "step_up minutes now rq =
     (if rq_user rq = None then (rq, True)
      else if auth_is_recent (rq_auth_at rq) now minutes then
        (rq\<lparr>rq_reauth_ok := Some (case rq_reauth_ok rq of Some m \<Rightarrow> min m minutes | None \<Rightarrow> minutes)\<rparr>, True)
      else (rq, False))"

section \<open>IPv6 subnets\<close>

definition as_int :: "json \<Rightarrow> int option" where
  "as_int v = (case int_of_json v of Inr i \<Rightarrow> Some i | Inl e \<Rightarrow> None)"

text \<open>Jen's IPv6 map: the entry of a subnet with its \<open>paired_subnet4_id\<close>.\<close>

type_synonym map6 = "(int \<times> json) list"

definition paired_v4_id :: "map6 \<Rightarrow> json \<Rightarrow> int option" where
  "paired_v4_id m6 sid =
     (case as_int sid of
        None \<Rightarrow> None
      | Some i \<Rightarrow> (case map_of m6 i of
                     None \<Rightarrow> None
                   | Some info \<Rightarrow> if truthy info then as_int (jget info ''paired_subnet4_id'') else None))"

definition subnet6_visible :: "map6 \<Rightarrow> json \<Rightarrow> json list \<Rightarrow> bool \<Rightarrow> bool" where
  "subnet6_visible m6 sid accessible everything =
     (case as_int sid of
        None \<Rightarrow> False
      | Some i \<Rightarrow>
          (case map_of m6 i of
             None \<Rightarrow> False
           | Some info \<Rightarrow>
               if everything then True
               else case as_int (jget info ''paired_subnet4_id'') of
                      None \<Rightarrow> False
                    | Some p \<Rightarrow> p \<in> set (List.map_filter as_int accessible)))"

definition can_access_subnet6 :: "map6 \<Rightarrow> (int \<times> 'v) list \<Rightarrow> account_user option \<Rightarrow> json \<Rightarrow> bool res" where
  "can_access_subnet6 m6 m4 user sid =
     (case user of
        None \<Rightarrow> Inr False
      | Some u \<Rightarrow>
          if all_subnets u then Inr (subnet6_visible m6 sid [] True)
          else rbind (accessible_subnet_ids u m4) (\<lambda>ids. Inr (subnet6_visible m6 sid (map JInt ids) False)))"

definition accessible_subnet6_map :: "map6 \<Rightarrow> (int \<times> 'v) list \<Rightarrow> account_user option \<Rightarrow> map6 res" where
  "accessible_subnet6_map m6 m4 user =
     (case user of
        None \<Rightarrow> Inr []
      | Some u \<Rightarrow>
          if all_subnets u then Inr m6
          else rbind (accessible_subnet_ids u m4) (\<lambda>ids.
            Inr (filter (\<lambda>kv. subnet6_visible m6 (JInt (fst kv)) (map JInt ids) False) m6)))"

section \<open>One client, shown to a caller with a scope\<close>

definition device_placement_fields :: "string list" where
  "device_placement_fields = [''last_ip'', ''last_hostname'', ''last_subnet_id'', ''device_name'', ''owner'', ''notes'']"

definition scope_ok :: "int set \<Rightarrow> json \<Rightarrow> bool" where
  "scope_ok ids sid = (sid \<noteq> JNull \<and> (case as_int sid of Some i \<Rightarrow> i \<in> ids | None \<Rightarrow> False))"

definition kept_object :: "int set \<Rightarrow> json \<Rightarrow> json" where
  "kept_object ids v = (if truthy v \<and> scope_ok ids (jget v ''subnet_id'') then v else JNull)"

definition blank_fields :: "string list \<Rightarrow> json \<Rightarrow> json" where
  "blank_fields fs v = foldl (\<lambda>d f. jset f JNull d) v fs"

definition kept_device :: "int set \<Rightarrow> json \<Rightarrow> json" where
  "kept_device ids d =
     (if truthy d \<and> \<not> scope_ok ids (jget d ''last_subnet_id'') then blank_fields device_placement_fields d else d)"

definition subject_subnet :: "int set \<Rightarrow> json \<Rightarrow> json \<Rightarrow> json \<Rightarrow> json" where
  "subject_subnet ids device lease res =
     (if truthy device \<and> scope_ok ids (jget device ''last_subnet_id'') then jget device ''last_subnet_id''
      else if truthy lease then jget lease ''subnet_id''
      else if truthy res then jget res ''subnet_id''
      else JNull)"

definition filter_client_view :: "json \<Rightarrow> int set option \<Rightarrow> json" where
  "filter_client_view view accessible =
     (case accessible of
        None \<Rightarrow> view
      | Some ids \<Rightarrow>
          let lease = kept_object ids (jget view ''lease'');
              res = kept_object ids (jget view ''reservation'');
              device = kept_device ids (jget view ''device'')
          in jset ''subnet_id'' (subject_subnet ids device lease res)
               (jset ''device'' device (jset ''reservation'' res (jset ''lease'' lease view))))"

section \<open>The restriction of a query\<close>

datatype where_clause = NoClause | NoRows | SubnetIn "int list"

definition add_subnet_restriction :: "account_user \<Rightarrow> (int \<times> 'v) list \<Rightarrow> where_clause res" where
  "add_subnet_restriction u m =
     (if all_subnets u then Inr NoClause
      else rbind (accessible_subnet_ids u m) (\<lambda>ids. Inr (if ids = [] then NoRows else SubnetIn ids)))"

text \<open>The rows the database answers with: a null subnet is in no list.\<close>

definition selects :: "where_clause \<Rightarrow> int option \<Rightarrow> bool" where
  "selects c sid =
     (case c of NoClause \<Rightarrow> True | NoRows \<Rightarrow> False
      | SubnetIn ids \<Rightarrow> (case sid of Some i \<Rightarrow> i \<in> set ids | None \<Rightarrow> False))"

end
