(* ===== verification/AccessProps.thy ===== *)
theory AccessProps
  imports Access
begin

text \<open>
  What a scoped caller learns and what it does not: the shown client is a function of what is in scope, the
  IPv6 decisions and the restricted query agree with the one check of an IPv4 id, and a step-up that was passed
  is not asked again.
\<close>

section \<open>The scope as a set of ids\<close>

definition access_set :: "account_user \<Rightarrow> int set" where
  "access_set u = (case access_ids u of Inr ids \<Rightarrow> set ids | Inl e \<Rightarrow> {})"

lemma can_access_eq:
  "can_access_subnet u sid = Inr b \<longleftrightarrow>
     (all_subnets u \<and> b) \<or> (\<not> all_subnets u \<and> (\<exists>ids. access_ids u = Inr ids) \<and> b = (sid \<in> access_set u))"
  by (cases "access_ids u") (auto simp: can_access_subnet_def access_set_def)

lemma kept_pairs:
  "list_all2 (\<lambda>x y. h x = y) m bs \<Longrightarrow> map fst (filter snd (zip m bs)) = filter h m"
  by (induction rule: list_all2_induct) auto

lemma filter_subnet_map_eq:
  assumes "filter_subnet_map u m = Inr kept"
  shows "kept = filter (\<lambda>kv. can_access_subnet u (fst kv) = Inr True) m"
proof (cases "all_subnets u")
  case True
  then show ?thesis using assms by (simp add: filter_subnet_map_def can_access_subnet_def)
next
  case False
  then obtain bs where bs: "collect (\<lambda>kv. can_access_subnet u (fst kv)) m = Inr bs"
    and kept: "kept = map fst (filter snd (zip m bs))"
    using assms by (auto simp: filter_subnet_map_def res_simps)
  have "list_all2 (\<lambda>x y. (can_access_subnet u (fst x) = Inr True) = y) m bs"
    using bs by (auto simp: collect_eq_Inr elim!: list_all2_mono)
  then show ?thesis using kept kept_pairs by fastforce
qed

lemma accessible_ids_set:
  "accessible_subnet_ids u m = Inr ids \<Longrightarrow>
     set ids = {i \<in> fst ` set m. can_access_subnet u i = Inr True}"
  by (force simp: accessible_subnet_ids_def res_simps dest!: filter_subnet_map_eq)

lemma accessible_ids_scoped:
  "accessible_subnet_ids u m = Inr ids \<Longrightarrow> \<not> all_subnets u \<Longrightarrow> i \<in> set ids \<Longrightarrow> i \<in> fst ` set m \<and> i \<in> access_set u"
  by (auto simp: accessible_ids_set can_access_eq)

section \<open>Query and IPv6\<close>

text \<open>
  A restricted query returns exactly the rows of the subnets the account may see: every row for an account
  without a scope, else a row of a subnet that Jen knows and that the check of one subnet lets through; never a
  row without a subnet, and no row at all for an account whose list is empty.
\<close>

theorem restricted_query_exact:
  assumes "add_subnet_restriction u m = Inr c"
  shows "selects c sid \<longleftrightarrow>
           all_subnets u \<or> (\<exists>i. sid = Some i \<and> i \<in> fst ` set m \<and> can_access_subnet u i = Inr True)"
proof (cases "all_subnets u")
  case True
  then show ?thesis using assms by (auto simp: add_subnet_restriction_def selects_def)
next
  case False
  then obtain ids where ids: "accessible_subnet_ids u m = Inr ids"
    and c: "c = (if ids = [] then NoRows else SubnetIn ids)"
    using assms by (auto simp: add_subnet_restriction_def res_simps)
  have "selects c sid \<longleftrightarrow> (\<exists>i. sid = Some i \<and> i \<in> set ids)"
    using c by (auto simp: selects_def split: option.split)
  then show ?thesis using accessible_ids_set [OF ids] False by auto
qed

definition scoped_user :: account_user where
  "scoped_user = \<lparr>us_role = ''viewer'', us_access = Some (JList [JInt 1, JStr ''3'', JInt 9])\<rparr>"

definition three_subnets :: "(int \<times> string) list" where
  "three_subnets = [(1, ''lan''), (2, ''lab''), (3, ''guests'')]"

lemma restricted_query_exact_witness:
  "add_subnet_restriction scoped_user three_subnets = Inr (SubnetIn [1, 3]) \<and>
   selects (SubnetIn [1, 3]) (Some 3) \<and> \<not> selects (SubnetIn [1, 3]) (Some 9)"
proof -
  have c: "add_subnet_restriction scoped_user three_subnets = Inr (SubnetIn [1, 3])" by code_simp
  have a: "\<not> all_subnets scoped_user" "can_access_subnet scoped_user 3 = Inr True" by code_simp+
  show ?thesis
    using restricted_query_exact [OF c, of "Some 3"] restricted_query_exact [OF c, of "Some 9"] c a
    by (auto simp: three_subnets_def)
qed

lemma as_int_JInt [simp]: "as_int (JInt i) = Some i"
  by (simp add: as_int_def)

lemma map_filter_JInt: "List.map_filter as_int (map JInt ids) = ids"
  by (induction ids) (simp_all add: map_filter_simps)

lemma visible_unknown: "map_of m6 i = None \<Longrightarrow> \<not> subnet6_visible m6 (JInt i) acc everything"
  by (simp add: subnet6_visible_def)

lemma visible_everything: "map_of m6 i = Some info \<Longrightarrow> subnet6_visible m6 (JInt i) acc True"
  by (simp add: subnet6_visible_def)

lemma visible_in_ids:
  "map_of m6 i = Some info \<Longrightarrow>
     subnet6_visible m6 (JInt i) (map JInt ids) False \<longleftrightarrow>
       (\<exists>p. as_int (jget info ''paired_subnet4_id'') = Some p \<and> p \<in> set ids)"
  by (simp add: subnet6_visible_def map_filter_JInt split: option.split)

text \<open>
  An IPv6 subnet is judged through its pairing only. For a signed-in account the answer about one IPv6
  subnet is yes exactly when Jen knows the subnet and either the account has no scope or the subnet is paired
  with an IPv4 subnet that Jen knows and the account may see; so an unpaired subnet is seen by unrestricted
  accounts only, whatever its own number is; and the map every page is given holds exactly the subnets that
  check lets through.
\<close>

theorem subnet6_through_its_pair:
  assumes "distinct (map fst m6)" "can_access_subnet6 m6 m4 (Some u) (JInt i) = Inr b"
    "accessible_subnet6_map m6 m4 (Some u) = Inr shown"
  shows "b = (\<exists>info. map_of m6 i = Some info \<and>
               (all_subnets u \<or>
                (\<exists>p. as_int (jget info ''paired_subnet4_id'') = Some p \<and> p \<in> fst ` set m4 \<and>
                     can_access_subnet u p = Inr True))) \<and>
         (i \<in> fst ` set shown) = b"
proof (cases "all_subnets u")
  case True
  then have b: "b = subnet6_visible m6 (JInt i) [] True" and shown: "shown = m6"
    using assms by (simp_all add: can_access_subnet6_def accessible_subnet6_map_def)
  show ?thesis
  proof (cases "map_of m6 i")
    case None
    then show ?thesis using b shown visible_unknown by (metis map_of_eq_None_iff option.distinct(1))
  next
    case (Some info)
    then have "i \<in> fst ` set m6" by (metis map_of_eq_None_iff option.distinct(1))
    then show ?thesis using b shown True Some visible_everything by simp
  qed
next
  case False
  then obtain ids where ids: "accessible_subnet_ids u m4 = Inr ids"
    and b: "b = subnet6_visible m6 (JInt i) (map JInt ids) False"
    and shown: "shown = filter (\<lambda>kv. subnet6_visible m6 (JInt (fst kv)) (map JInt ids) False) m6"
    using assms by (auto simp: can_access_subnet6_def accessible_subnet6_map_def res_simps)
  have unknown: "map_of m6 i = None \<Longrightarrow> \<not> b" using b visible_unknown by simp
  have known: "b = (\<exists>p. as_int (jget info ''paired_subnet4_id'') = Some p \<and> p \<in> set ids)"
    if "map_of m6 i = Some info" for info
    using b visible_in_ids [OF that] by simp
  have here: "b \<Longrightarrow> i \<in> fst ` set m6" using unknown by (metis map_of_eq_None_iff)
  have "(i \<in> fst ` set shown) = b" using b shown here by force
  then show ?thesis
    using unknown known False accessible_ids_set [OF ids] by (cases "map_of m6 i") auto
qed

definition two_subnets6 :: map6 where
  "two_subnets6 =
     [(1, JObj [(''name'', JStr ''lab6''), (''paired_subnet4_id'', JInt 2)]),
      (7, JObj [(''name'', JStr ''guests6''), (''paired_subnet4_id'', JInt 3)])]"

lemma subnet6_through_its_pair_witness:
  "can_access_subnet6 two_subnets6 three_subnets (Some scoped_user) (JInt 1) = Inr False \<and>
   (1 \<in> fst ` set [two_subnets6 ! 1]) = False"
proof -
  have a: "can_access_subnet6 two_subnets6 three_subnets (Some scoped_user) (JInt 1) = Inr False"
    "accessible_subnet6_map two_subnets6 three_subnets (Some scoped_user) = Inr [two_subnets6 ! 1]"
    "distinct (map fst two_subnets6)"
    by code_simp+
  show ?thesis using subnet6_through_its_pair [OF a(3) a(1) a(2)] a(1) by blast
qed

section \<open>One client\<close>

lemma kept_object_hidden: "\<not> scope_ok ids (jget v ''subnet_id'') \<Longrightarrow> kept_object ids v = JNull"
  by (simp add: kept_object_def)

lemma kept_object_in_scope:
  "truthy (kept_object ids v) \<Longrightarrow> scope_ok ids (jget (kept_object ids v) ''subnet_id'')"
  by (auto simp: kept_object_def split: if_splits)

lemma subject_in_scope:
  "subject_subnet ids d (kept_object ids l) (kept_object ids r) = JNull \<or>
   scope_ok ids (subject_subnet ids d (kept_object ids l) (kept_object ids r))"
  by (auto simp: subject_subnet_def dest: kept_object_in_scope)

lemma blank_fields_get:
  "is_dict d \<Longrightarrow> jget (blank_fields fs d) k = (if k \<in> set fs then JNull else jget d k)"
  by (induction fs arbitrary: d) (auto simp: blank_fields_def)

lemma blank_fields_dict [simp]: "is_dict (blank_fields fs d) = is_dict d"
  by (induction fs arbitrary: d) (auto simp: blank_fields_def)

lemma kept_device_hidden:
  assumes "is_dict d" "truthy d" "\<not> scope_ok ids (jget d ''last_subnet_id'')" "k \<in> set device_placement_fields"
  shows "jget (kept_device ids d) k = JNull"
  using assms by (simp add: kept_device_def blank_fields_get)

lemma filter_client_view_get:
  "is_dict v \<Longrightarrow> jget (filter_client_view v (Some ids)) k =
     (if k = ''subnet_id'' then subject_subnet ids (kept_device ids (jget v ''device''))
                                  (kept_object ids (jget v ''lease'')) (kept_object ids (jget v ''reservation''))
      else if k = ''device'' then kept_device ids (jget v ''device'')
      else if k = ''reservation'' then kept_object ids (jget v ''reservation'')
      else if k = ''lease'' then kept_object ids (jget v ''lease'')
      else jget v k)"
  by (simp add: filter_client_view_def Let_def)

text \<open>
  C22. A caller with a scope learns nothing about a client outside it. Two lists of facts that differ only in a
  lease of a subnet out of scope - or only in a reservation out of scope - are shown identically, whatever the
  lease or the reservation holds; a device last seen out of scope (or nowhere) shows none of its placement
  fields; and the subnet the view is about is either none or one in the caller's scope.
\<close>

theorem hidden_client_data_never_shown:
  assumes "is_dict v" "\<not> scope_ok ids (jget l1 ''subnet_id'')" "\<not> scope_ok ids (jget l2 ''subnet_id'')"
    "\<not> scope_ok ids (jget d ''last_subnet_id'')" "is_dict d" "f \<in> set device_placement_fields"
  shows "jget (filter_client_view (jset ''lease'' l1 v) (Some ids)) k =
           jget (filter_client_view (jset ''lease'' l2 v) (Some ids)) k \<and>
         jget (filter_client_view (jset ''reservation'' l1 v) (Some ids)) k =
           jget (filter_client_view (jset ''reservation'' l2 v) (Some ids)) k \<and>
         jget (jget (filter_client_view (jset ''device'' d v) (Some ids)) ''device'') f = JNull \<and>
         (let s = jget (filter_client_view v (Some ids)) ''subnet_id'' in s = JNull \<or> scope_ok ids s)"
proof -
  have "jget (kept_device ids d) f = JNull"
  proof (cases "truthy d")
    case True
    then show ?thesis using assms kept_device_hidden by blast
  next
    case False
    then show ?thesis using assms by (auto simp: kept_device_def is_dict_iff jget_def)
  qed
  then show ?thesis
    using assms by (simp add: filter_client_view_get kept_object_hidden subject_in_scope Let_def)
qed

definition moved_client :: json where
  "moved_client = JObj
     [(''lease'', JObj [(''subnet_id'', JInt 2), (''ip'', JStr ''10.0.2.7'')]),
      (''reservation'', JObj [(''subnet_id'', JInt 3), (''hostname'', JStr ''tv'')]),
      (''device'', JObj [(''mac'', JStr ''aa''), (''last_subnet_id'', JInt 2), (''owner'', JStr ''bob'')])]"

lemma hidden_client_data_never_shown_witness:
  "jget (filter_client_view (jset ''lease'' (jget moved_client ''lease'') moved_client) (Some {1, 3})) ''lease'' = JNull \<and>
   jget (filter_client_view moved_client (Some {1, 3})) ''subnet_id'' = JInt 3 \<and>
   jget (jget (filter_client_view (jset ''device'' (jget moved_client ''device'') moved_client) (Some {1, 3})) ''device'') ''owner'' = JNull"
proof -
  have a: "is_dict moved_client" "\<not> scope_ok {1, 3} (jget (jget moved_client ''lease'') ''subnet_id'')"
    "\<not> scope_ok {1, 3} (jget JNull ''subnet_id'')"
    "\<not> scope_ok {1, 3} (jget (jget moved_client ''device'') ''last_subnet_id'')" "is_dict (jget moved_client ''device'')"
    "''owner'' \<in> set device_placement_fields"
    by code_simp+
  have b: "jget (filter_client_view (jset ''lease'' JNull moved_client) (Some {1, 3})) ''lease'' = JNull"
    "jget (filter_client_view moved_client (Some {1, 3})) ''subnet_id'' = JInt 3"
    by code_simp+
  show ?thesis using hidden_client_data_never_shown [OF a, of "''lease''"] b by simp
qed

section \<open>Changing where Jen connects\<close>

text \<open>
  Where Jen reaches a Kea server is changed, in a request of a signed-in account, only by a superadmin who
  confirmed the password within the last ten minutes or whose request already passed a step-up of at most ten;
  and a request of a superadmin that passed the ten-minute step-up at its start is let through at every later
  write, however late: it is never refused half way.
\<close>

theorem identity_change_guarded:
  assumes "rq_in_request rq" "rq_user rq = Some u"
  shows "(identity_change_needs_superadmin now rq = None \<longleftrightarrow>
            is_superadmin u \<and>
            ((\<exists>m \<le> 10. rq_reauth_ok rq = Some m) \<or> (\<exists>t. rq_auth_at rq = Moment t \<and> now - t \<le> 600000000))) \<and>
         (step_up 10 now rq = (rq', True) \<longrightarrow> is_superadmin u \<longrightarrow>
            identity_change_needs_superadmin later rq' = None)"
  using assms
  by (auto simp: identity_change_needs_superadmin_def is_superadmin_def auth_is_recent_def step_up_def
      split: option.splits moment.splits if_splits)

lemma identity_change_guarded_witness:
  "identity_change_needs_superadmin (10 ^ 12)
     (fst (step_up 10 500000000 \<lparr>rq_in_request = True, rq_user = Some \<lparr>us_role = ''superadmin'', us_access = None\<rparr>,
                                 rq_auth_at = Moment 0, rq_reauth_ok = None\<rparr>)) = None"
proof -
  let ?u = "\<lparr>us_role = ''superadmin'', us_access = None\<rparr>"
  let ?rq = "\<lparr>rq_in_request = True, rq_user = Some ?u, rq_auth_at = Moment 0, rq_reauth_ok = None\<rparr>"
  have "step_up 10 500000000 ?rq = (fst (step_up 10 500000000 ?rq), True)" by (simp add: step_up_def auth_is_recent_def)
  moreover have "rq_in_request ?rq" "rq_user ?rq = Some ?u" "is_superadmin ?u" by (simp_all add: is_superadmin_def)
  ultimately show ?thesis using identity_change_guarded [where rq = ?rq and later = "10 ^ 12"] by blast
qed

section \<open>A stored list that does not parse\<close>

text \<open>
  The column holds text; a text that is not JSON is read as no list at all, which means every subnet.
\<close>

lemma unreadable_scope_sees_everything:
  "loads s = None \<Longrightarrow> can_access_subnet (new_user loads role (Some s)) sid = Inr True"
  by (simp add: can_access_subnet_def all_subnets_def new_user_def subnet_access_of_def)

lemma empty_list_sees_nothing:
  "loads s = Some (JList []) \<Longrightarrow> role \<noteq> ''superadmin'' \<Longrightarrow> can_access_subnet (new_user loads role (Some s)) sid = Inr False"
  by (simp add: can_access_subnet_def all_subnets_def new_user_def subnet_access_of_def is_superadmin_def access_ids_def py_or_def)

end
