(* ===== verification/Session.thy ===== *)
theory Session
  imports PyConv
begin

text \<open>
  The idle deadline of a session: \<open>src/jen/services/session_timeout.py\<close>, the middleware
  \<open>check_session_timeout\<close> of \<open>src/jen/__init__.py\<close>, and the two places of \<open>src/jen/routes/auth.py\<close> that take
  part - \<open>session_touch\<close> and \<open>_safe_next\<close>, the parser of the page to come back to.

  Time is in whole microseconds of UTC since 1970. A setting is what the settings table returns; the
  rounding of a Python float inside \<open>timestamp()\<close> is not modelled.
\<close>

section \<open>The timeout\<close>

definition max_minutes :: int where "max_minutes = 1440"

definition default_minutes :: int where "default_minutes = 60"

text \<open>A full match of \<open>[0-9]{1,6}\<close> and its value; the value of a number, unless it is a bool.\<close>

definition parse_minutes :: "json \<Rightarrow> int option" where
  "parse_minutes raw =
     (case raw of
        JInt i \<Rightarrow> if 0 \<le> i \<and> i \<le> max_minutes then Some i else None
      | JStr s \<Rightarrow>
          if s \<noteq> [] \<and> length s \<le> 6 \<and> list_all is_digit s then
            (if int (dec_val s) \<le> max_minutes then Some (int (dec_val s)) else None)
          else None
      | _ \<Rightarrow> None)"

type_synonym settings = "string \<Rightarrow> string option"

definition setting_or :: "settings \<Rightarrow> string \<Rightarrow> string \<Rightarrow> string" where
  "setting_or st k d = (case st k of Some v \<Rightarrow> v | None \<Rightarrow> d)"

definition global_minutes :: "settings \<Rightarrow> int" where
  "global_minutes st =
     (case parse_minutes (JStr (setting_or st ''session_timeout_minutes'' ''60'')) of
        Some m \<Rightarrow> m | None \<Rightarrow> default_minutes)"

text \<open>The account's own timeout is used when it is there and not 0.\<close>

definition timeout_minutes :: "settings \<Rightarrow> json \<Rightarrow> int option" where
  "timeout_minutes st own =
     (if setting_or st ''session_timeout_enabled'' ''true'' = ''false'' then None
      else let timeout = (case parse_minutes own of Some m \<Rightarrow> if m \<noteq> 0 then m else global_minutes st
                                                  | None \<Rightarrow> global_minutes st)
           in if timeout = 0 then None else Some timeout)"

section \<open>The deadline\<close>

text \<open>\<open>session["last_active"]\<close>: missing or empty, no date, a date without a zone, or a moment.\<close>

datatype last_seen = NeverSeen | SeenUnreadable | SeenNaive int | SeenAt int

record session_data =
  se_last :: last_seen
  se_login_id :: string

text \<open>The last microsecond of the year 9999.\<close>

definition latest_moment :: int where "latest_moment = 253402300799999999"

definition minute :: int where "minute = 60000000"

definition deadline :: "int option \<Rightarrow> session_data \<Rightarrow> int option" where
  "deadline minutes se =
     (case minutes of
        None \<Rightarrow> None
      | Some m \<Rightarrow> (case se_last se of
                     SeenAt t \<Rightarrow> if t + m * minute \<le> latest_moment then Some (t + m * minute) else None
                   | _ \<Rightarrow> None))"

text \<open>\<open>int(moment.timestamp())\<close> cuts towards zero.\<close>

definition epoch_seconds :: "int \<Rightarrow> int" where
  "epoch_seconds t = (if t < 0 then - (- t div 1000000) else t div 1000000)"

definition active_epoch :: "session_data \<Rightarrow> int option" where
  "active_epoch se = (case se_last se of SeenAt t \<Rightarrow> Some (epoch_seconds t) | _ \<Rightarrow> None)"

definition expires_at :: "int option \<Rightarrow> session_data \<Rightarrow> int option" where
  "expires_at minutes se = map_option epoch_seconds (deadline minutes se)"

datatype announced = SaysOff | SaysAt int | SaysNothing

definition announcement :: "int option \<Rightarrow> session_data \<Rightarrow> announced" where
  "announcement minutes se =
     (if minutes = None then SaysOff
      else case expires_at minutes se of Some e \<Rightarrow> SaysAt e | None \<Rightarrow> SaysNothing)"

section \<open>Requests\<close>

text \<open>
  A request of a signed-in person: the header \<open>X-Jen-Poll\<close>, the arguments of the query, the path as
  \<open>request.full_path\<close> has it (with its query), and whether the check of the form token let it pass.
\<close>

record http =
  rq_time :: int
  rq_method :: string
  rq_path :: string
  rq_full_path :: string
  rq_poll :: "string option"
  rq_args :: "(string \<times> string) list"
  rq_csrf_ok :: bool

definition is_poll :: "http \<Rightarrow> bool" where
  "is_poll rq = (rq_poll rq = Some ''1'' \<or> map_of (rq_args rq) ''_poll'' = Some ''1'')"

definition no_touch_paths :: "string list" where
  "no_touch_paths = [''/session/touch'']"

definition extends :: "http \<Rightarrow> bool" where
  "extends rq =
     (\<not> (has_prefix ''/api/'' (rq_path rq) \<or> rq_path rq = ''/metrics'' \<or> rq_path rq \<in> set no_touch_paths \<or> is_poll rq))"

section \<open>Coming back\<close>

definition no_return_prefixes :: "string list" where
  "no_return_prefixes =
     [''/login'', ''/logout'', ''/auth/'', ''/session/'', ''/api/'', ''/metrics'', ''/static/'', ''/force-password-change'']"

definition max_next :: nat where "max_next = 1500"

definition safe_next :: "string \<Rightarrow> string" where
  "safe_next raw =
     (if raw \<noteq> [] \<and>
         (has_prefix ''//'' raw \<or> contains ''://'' raw \<or> contains [char_of (92 :: nat)] raw \<or> \<not> has_prefix ''/'' raw \<or>
          list_ex (\<lambda>c. ord_of c < 32 \<or> ord_of c = 127) raw)
      then [] else raw)"

text \<open>\<open>urllib.parse.quote(s, safe="")\<close>: letters, digits and \<open>_.-~\<close> stay, any other byte becomes \<open>%XX\<close>.\<close>

definition unreserved :: "char \<Rightarrow> bool" where
  "unreserved c =
     (is_digit c \<or> (65 \<le> ord_of c \<and> ord_of c \<le> 90) \<or> (97 \<le> ord_of c \<and> ord_of c \<le> 122) \<or>
      ord_of c \<in> {95, 46, 45, 126})"

definition upper_hex :: "nat \<Rightarrow> char" where
  "upper_hex n = (if n < 10 then char_of (n + 48) else char_of (n + 55))"

fun quote :: "string \<Rightarrow> string" where
  "quote [] = []"
| "quote (c # cs) =
     (if unreserved c then c # quote cs
      else CHR ''%'' # upper_hex (ord_of c div 16) # upper_hex (ord_of c mod 16) # quote cs)"

definition without_mark :: "string \<Rightarrow> string" where
  "without_mark s = (if s \<noteq> [] \<and> last s = CHR ''?'' then butlast s else s)"

definition login_redirect_location :: "string \<Rightarrow> string \<Rightarrow> string \<Rightarrow> string \<Rightarrow> string" where
  "login_redirect_location login_url method full_path next_arg =
     (let path = without_mark full_path in
      if method = ''GET'' \<and> (path = ''/login'' \<or> has_prefix ''/login?'' path) \<and> next_arg \<noteq> [] then
        (let kept = safe_next next_arg; encoded = (if kept \<noteq> [] then quote kept else []) in
         if encoded \<noteq> [] \<and> length encoded \<le> max_next then login_url @ ''?next='' @ encoded else login_url)
      else if method \<noteq> ''GET'' \<or> list_ex (\<lambda>p. has_prefix p path) no_return_prefixes \<or>
              \<not> has_prefix ''/'' path \<or> has_prefix ''//'' path then login_url
      else if length (quote path) > max_next then login_url
      else login_url @ ''?next='' @ quote path)"

section \<open>One request\<close>

datatype served = Through | Expired string

definition touch_now :: "http \<Rightarrow> session_data \<Rightarrow> session_data" where
  "touch_now rq se = (if extends rq then se\<lparr>se_last := SeenAt (rq_time rq)\<rparr> else se)"

definition labelled :: "string \<Rightarrow> session_data \<Rightarrow> session_data" where
  "labelled fresh se = (if se_login_id se = [] then se\<lparr>se_login_id := fresh\<rparr> else se)"

text \<open>The middleware, before the view; \<open>fresh\<close> is the label a new sign-in would get.\<close>

definition check_session_timeout ::
  "int option \<Rightarrow> string \<Rightarrow> http \<Rightarrow> session_data \<Rightarrow> session_data \<times> served" where
  "check_session_timeout minutes fresh rq se =
     (if has_prefix ''/static/'' (rq_path rq) then (se, Through)
      else let se = labelled fresh se in
        if minutes = None then (touch_now rq se, Through)
        else if se_last se = NeverSeen then (touch_now rq se, Through)
        else case deadline minutes se of
               Some d \<Rightarrow>
                 if rq_time rq > d then
                   (se, Expired (login_redirect_location ''/login'' (rq_method rq) (rq_full_path rq)
                                   (case map_of (rq_args rq) ''next'' of Some n \<Rightarrow> n | None \<Rightarrow> [])))
                 else (touch_now rq se, Through)
             | None \<Rightarrow> (touch_now rq se, Through))"

text \<open>The view of \<open>/session/touch\<close>, reached by a POST whose token is good.\<close>

definition touches :: "http \<Rightarrow> bool" where
  "touches rq = (rq_path rq = ''/session/touch'' \<and> rq_method rq = ''POST'' \<and> rq_csrf_ok rq)"

definition session_touch :: "http \<Rightarrow> session_data \<Rightarrow> session_data" where
  "session_touch rq se = se\<lparr>se_last := SeenAt (rq_time rq)\<rparr>"

definition serve :: "int option \<Rightarrow> string \<Rightarrow> http \<Rightarrow> session_data \<Rightarrow> session_data \<times> served" where
  "serve minutes fresh rq se =
     (case check_session_timeout minutes fresh rq se of
        (se', Through) \<Rightarrow> (if touches rq then session_touch rq se' else se', Through)
      | (se', Expired to) \<Rightarrow> (se', Expired to))"

text \<open>A run of requests ends with the one that finds the session expired: the person is signed out then.\<close>

fun serve_all :: "int option \<Rightarrow> string \<Rightarrow> http list \<Rightarrow> session_data \<Rightarrow> session_data \<times> served list" where
  "serve_all minutes fresh [] se = (se, [])"
| "serve_all minutes fresh (rq # rqs) se =
     (case serve minutes fresh rq se of
        (se', Expired to) \<Rightarrow> (se', [Expired to])
      | (se', Through) \<Rightarrow> (case serve_all minutes fresh rqs se' of (se'', out) \<Rightarrow> (se'', Through # out)))"

end
