(* ===== verification/SessionProps.thy ===== *)
theory SessionProps
  imports Session
begin

text \<open>
  What the idle timeout guarantees: a session ends exactly when nothing has extended it for the timeout, the
  page is told the number the server enforces, and signing in again leads back to the page that was asked for
  and to no other host.
\<close>

section \<open>The timeout is a number of minutes\<close>

lemma parse_minutes_range: "parse_minutes raw = Some m \<Longrightarrow> 0 \<le> m \<and> m \<le> 1440"
  by (auto simp: parse_minutes_def max_minutes_def split: json.splits if_splits)

lemma global_minutes_range: "0 \<le> global_minutes st \<and> global_minutes st \<le> 1440"
proof (cases "parse_minutes (JStr (setting_or st ''session_timeout_minutes'' ''60''))")
  case None
  then show ?thesis by (simp add: global_minutes_def default_minutes_def)
next
  case (Some m)
  then show ?thesis using parse_minutes_range [OF Some] by (simp add: global_minutes_def)
qed

lemma timeout_minutes_range: "timeout_minutes st own = Some m \<Longrightarrow> 1 \<le> m \<and> m \<le> 1440"
  using global_minutes_range [of st] parse_minutes_range [of own]
  by (auto simp: timeout_minutes_def Let_def split: if_splits option.splits)

section \<open>When a session ends\<close>

text \<open>The moment of the last request of a run that counts as activity.\<close>

definition counts :: "http \<Rightarrow> bool" where
  "counts rq = (\<not> has_prefix ''/static/'' (rq_path rq) \<and> (extends rq \<or> touches rq))"

definition activity :: "int \<Rightarrow> http list \<Rightarrow> int" where
  "activity t rqs = foldl (\<lambda>a rq. if counts rq then rq_time rq else a) t rqs"

definition in_time :: "int \<Rightarrow> int \<Rightarrow> http \<Rightarrow> bool" where
  "in_time m t rq = (has_prefix ''/static/'' (rq_path rq) \<or> rq_time rq \<le> t + m * minute)"

fun all_in_time :: "int \<Rightarrow> int \<Rightarrow> http list \<Rightarrow> bool" where
  "all_in_time m t [] = True"
| "all_in_time m t (rq # rqs) = (in_time m t rq \<and> all_in_time m (if counts rq then rq_time rq else t) rqs)"

lemma touches_not_static: "touches rq \<Longrightarrow> \<not> has_prefix ''/static/'' (rq_path rq)"
  by (auto simp: touches_def)

lemma last_labelled [simp]: "se_last (labelled fresh se) = se_last se"
  by (simp add: labelled_def)

lemma deadline_labelled [simp]: "deadline m (labelled fresh se) = deadline m se"
  unfolding deadline_def last_labelled ..

lemma serve_in_time:
  assumes "se_last se = SeenAt t" "t + m * minute \<le> latest_moment" "in_time m t rq"
  shows "\<exists>se'. serve (Some m) fresh rq se = (se', Through) \<and>
           se_last se' = SeenAt (if counts rq then rq_time rq else t)"
  using assms touches_not_static [of rq]
  by (auto simp: serve_def check_session_timeout_def deadline_def in_time_def counts_def touch_now_def
      session_touch_def Let_def)

lemma serve_late:
  assumes "se_last se = SeenAt t" "t + m * minute \<le> latest_moment" "\<not> in_time m t rq"
  shows "\<exists>to. serve (Some m) fresh rq se = (labelled fresh se, Expired to)"
  using assms by (auto simp: serve_def check_session_timeout_def deadline_def in_time_def Let_def)

lemma serve_all_spec:
  assumes "se_last se = SeenAt t" "t + m * minute \<le> latest_moment"
    "list_all (\<lambda>rq. rq_time rq + m * minute \<le> latest_moment) rqs"
  shows "(snd (serve_all (Some m) fresh rqs se) = replicate (length rqs) Through \<longleftrightarrow> all_in_time m t rqs) \<and>
         (all_in_time m t rqs \<longrightarrow> se_last (fst (serve_all (Some m) fresh rqs se)) = SeenAt (activity t rqs))"
  using assms
proof (induction rqs arbitrary: se t)
  case (Cons rq rqs)
  show ?case
  proof (cases "in_time m t rq")
    case True
    then obtain se' where s: "serve (Some m) fresh rq se = (se', Through)"
      and l: "se_last se' = SeenAt (if counts rq then rq_time rq else t)"
      using serve_in_time Cons.prems(1,2) by blast
    have "(if counts rq then rq_time rq else t) + m * minute \<le> latest_moment" using Cons.prems(2,3) by simp
    from Cons.IH [OF l this] Cons.prems(3) s True show ?thesis
      by (auto simp: activity_def split: prod.splits)
  next
    case False
    then obtain to where "serve (Some m) fresh rq se = (labelled fresh se, Expired to)"
      using serve_late Cons.prems(1,2) by blast
    then show ?thesis using False by auto
  qed
qed (simp add: activity_def)

lemma all_in_time_iff:
  "all_in_time m t rqs \<longleftrightarrow> (\<forall>i < length rqs. in_time m (activity t (take i rqs)) (rqs ! i))"
proof (induction rqs arbitrary: t)
  case (Cons rq rqs)
  have "(\<forall>i < length (rq # rqs). in_time m (activity t (take i (rq # rqs))) ((rq # rqs) ! i)) \<longleftrightarrow>
      in_time m t rq \<and>
      (\<forall>i < length rqs. in_time m (activity (if counts rq then rq_time rq else t) (take i rqs)) (rqs ! i))"
    by (simp add: All_less_Suc2 activity_def)
  then show ?case using Cons.IH by simp
qed simp

text \<open>
  C23. An idle session ends, and only an idle one. In a run of requests of one session every request is let
  through exactly when each of them that is not for a static file arrives within the timeout of the latest
  activity before it; activity is a request that extends the session or an accepted \<open>Stay signed in\<close>, never
  a page that refreshes itself, the dashboard's poll or the metrics scrape, however many of them arrive. The
  time the session then carries is that of the latest activity.
\<close>

theorem session_ends_exactly:
  assumes "se_last se = SeenAt t" "t + m * minute \<le> latest_moment"
    "list_all (\<lambda>rq. rq_time rq + m * minute \<le> latest_moment) rqs"
  shows "(snd (serve_all (Some m) fresh rqs se) = replicate (length rqs) Through \<longleftrightarrow>
            (\<forall>i < length rqs. in_time m (activity t (take i rqs)) (rqs ! i))) \<and>
         (snd (serve_all (Some m) fresh rqs se) = replicate (length rqs) Through \<longrightarrow>
            se_last (fst (serve_all (Some m) fresh rqs se)) = SeenAt (activity t rqs))"
  using serve_all_spec [OF assms] all_in_time_iff by blast

definition polls :: "int \<Rightarrow> http" where
  "polls t = \<lparr>rq_time = t, rq_method = ''GET'', rq_path = ''/clients'', rq_full_path = ''/clients?'',
              rq_poll = Some ''1'', rq_args = [], rq_csrf_ok = True\<rparr>"

lemma session_ends_exactly_witness:
  "snd (serve_all (Some 1) ''a1'' [polls 30000000, polls 59000000, polls 61000000] \<lparr>se_last = SeenAt 0, se_login_id = []\<rparr>)
     \<noteq> replicate (length [polls 30000000, polls 59000000, polls 61000000]) Through"
proof -
  let ?rqs = "[polls 30000000, polls 59000000, polls 61000000]"
  have late: "\<not> in_time 1 (activity 0 (take 2 ?rqs)) (?rqs ! 2)"
    by (simp add: in_time_def activity_def counts_def extends_def is_poll_def touches_def polls_def minute_def)
  have "se_last \<lparr>se_last = SeenAt 0, se_login_id = []\<rparr> = SeenAt 0" "0 + 1 * minute \<le> latest_moment"
    "list_all (\<lambda>rq. rq_time rq + 1 * minute \<le> latest_moment) ?rqs"
    by (simp_all add: minute_def latest_moment_def polls_def)
  from session_ends_exactly [OF this] late show ?thesis by (metis length_Cons list.size(3) lessI numeral_2_eq_2)
qed

section \<open>The number the page is told\<close>

text \<open>
  The number announced to the browser is the one the server enforces: while a session of a person with a
  timeout has a time Jen can read, a request is refused exactly when it comes after the deadline, and the
  announced second is the one the deadline falls in - a request before it is let through and a request a full
  second after it is refused; and the timeout itself is between one minute and one day.
\<close>

theorem announced_deadline_enforced:
  assumes "timeout_minutes st own = Some m" "se_last se = SeenAt t" "0 \<le> t" "t + m * minute \<le> latest_moment"
    "\<not> has_prefix ''/static/'' (rq_path rq)"
  shows "\<exists>e. announcement (Some m) se = SaysAt e \<and> 1 \<le> m \<and> m \<le> 1440 \<and>
           (rq_time rq < e * 1000000 \<longrightarrow> snd (check_session_timeout (Some m) fresh rq se) = Through) \<and>
           (rq_time rq \<ge> (e + 1) * 1000000 \<longrightarrow> snd (check_session_timeout (Some m) fresh rq se) \<noteq> Through)"
proof -
  let ?d = "t + m * minute"
  have m: "1 \<le> m" "m \<le> 1440" using timeout_minutes_range [OF assms(1)] by auto
  have d: "deadline (Some m) se = Some ?d" using assms(2,4) by (simp add: deadline_def)
  have pos: "0 \<le> ?d" using m assms(3) by (simp add: minute_def)
  have e: "announcement (Some m) se = SaysAt (?d div 1000000)"
    using d pos by (simp add: announcement_def expires_at_def epoch_seconds_def)
  have "?d div 1000000 * 1000000 \<le> ?d" "?d < (?d div 1000000 + 1) * 1000000" by simp_all
  moreover have "snd (check_session_timeout (Some m) fresh rq se) = Through \<longleftrightarrow> rq_time rq \<le> ?d"
    using d assms(2,5) by (simp add: check_session_timeout_def Let_def)
  ultimately have "rq_time rq < ?d div 1000000 * 1000000 \<longrightarrow> snd (check_session_timeout (Some m) fresh rq se) = Through"
    "rq_time rq \<ge> (?d div 1000000 + 1) * 1000000 \<longrightarrow> snd (check_session_timeout (Some m) fresh rq se) \<noteq> Through"
    by linarith+
  then show ?thesis using e m by blast
qed

lemma announced_deadline_enforced_witness:
  "\<exists>e. announcement (Some 5) \<lparr>se_last = SeenAt 1500000, se_login_id = []\<rparr> = SaysAt e"
  using announced_deadline_enforced [where st = "\<lambda>k. None" and own = "JInt 5" and m = 5 and t = 1500000
      and se = "\<lparr>se_last = SeenAt 1500000, se_login_id = []\<rparr>" and rq = "polls 0"]
  by (auto simp: timeout_minutes_def setting_or_def parse_minutes_def max_minutes_def minute_def latest_moment_def polls_def)

section \<open>Coming back\<close>

text \<open>The reading of an argument by the web framework: \<open>%XX\<close> is a byte.\<close>

fun unquote :: "string \<Rightarrow> string" where
  "unquote (c # a # b # cs) =
     (if c = CHR ''%'' \<and> is_hex a \<and> is_hex b then char_of (16 * hex_val a + hex_val b) # unquote cs
      else c # unquote (a # b # cs))"
| "unquote cs = cs"

lemma upper_hex_props: "n < 16 \<Longrightarrow> is_hex (upper_hex n) \<and> hex_val (upper_hex n) = n"
  by (auto simp: upper_hex_def is_hex_def hex_val_def is_digit_def)

lemma unreserved_not_percent: "unreserved c \<Longrightarrow> c \<noteq> CHR ''%''"
  by (auto simp: unreserved_def is_digit_def)

lemma unquote_plain: "c \<noteq> CHR ''%'' \<Longrightarrow> unquote (c # cs) = c # unquote cs"
  by (cases cs rule: unquote.cases) simp_all

lemma unquote_quote [simp]: "unquote (quote s) = s"
proof (induction s)
  case (Cons c cs)
  have "(of_char c :: nat) div 16 < 16" "(of_char c :: nat) mod 16 < 16"
    using of_char_lt_256 [of c] by (simp_all, arith)
  then show ?case using Cons by (simp add: upper_hex_props unquote_plain unreserved_not_percent)
qed simp

lemma quote_eq_Nil [simp]: "quote s = [] \<longleftrightarrow> s = []"
  by (cases s) simp_all

lemma quoted_next: "drop (length u) (u @ ''?next='' @ quote p) = ''?next='' @ quote p"
  by simp

text \<open>What the sign-in page finds as \<open>next\<close>, and where it leads.\<close>

definition next_of :: "string \<Rightarrow> string \<Rightarrow> string" where
  "next_of login_url location =
     (if has_prefix (login_url @ ''?next='') location then unquote (drop (length login_url + 6) location) else [])"

definition lands_on :: "string \<Rightarrow> string \<Rightarrow> string" where
  "lands_on home next = (if safe_next next = [] then home else safe_next next)"

definition local_path :: "string \<Rightarrow> bool" where
  "local_path p = (\<exists>rest. p = CHR ''/'' # rest \<and> (rest = [] \<or> hd rest \<noteq> CHR ''/'' \<and> hd rest \<noteq> char_of (92 :: nat)) \<and>
     (\<forall>c \<in> set p. 32 \<le> ord_of c))"

lemma has_prefix_append [simp]: "has_prefix p (p @ q)"
  by (induction p) simp_all

lemma has_prefix_weaken: "has_prefix (p @ q) s \<Longrightarrow> has_prefix p s"
  by (induction p s rule: has_prefix.induct) simp_all

lemma has_prefix_longer: "has_prefix p u \<Longrightarrow> length p \<le> length u"
  by (induction p u rule: has_prefix.induct) simp_all

lemma contains_hd: "contains [c] (c # s)"
  by simp

lemma contains_Cons: "contains p s \<Longrightarrow> p \<noteq> [] \<Longrightarrow> contains p (c # s)"
  by simp

lemma safe_next_local:
  assumes "safe_next raw \<noteq> []"
  shows "safe_next raw = raw \<and> local_path raw"
proof -
  from assms have ok: "\<not> has_prefix ''//'' raw" "has_prefix ''/'' raw" "\<not> contains [char_of (92 :: nat)] raw"
      "\<not> list_ex (\<lambda>c. ord_of c < 32 \<or> ord_of c = 127) raw" and raw: "raw \<noteq> []"
    by (auto simp: safe_next_def split: if_splits)
  from ok(2) obtain rest where r: "raw = CHR ''/'' # rest" by (cases raw) auto
  have "hd rest \<noteq> CHR ''/''" if "rest \<noteq> []" using ok(1) r that by (cases rest) auto
  moreover have "hd rest \<noteq> char_of (92 :: nat)" if "rest \<noteq> []"
  proof
    assume h: "hd rest = char_of (92 :: nat)"
    have "rest = hd rest # tl rest" using that by simp
    then show False using ok(3) r h by (metis contains_Cons contains_hd not_Cons_self2)
  qed
  moreover have "\<forall>c \<in> set raw. 32 \<le> ord_of c" using ok(4) by (auto simp: list_ex_iff not_less)
  ultimately show ?thesis using assms r by (auto simp: local_path_def safe_next_def split: if_splits)
qed

lemma next_of_quoted: "next_of u (u @ ''?next='' @ quote p) = p"
  using has_prefix_append [of "u @ ''?next=''" "quote p"] by (simp add: next_of_def)

lemma next_of_bare [simp]: "next_of u u = []"
  using has_prefix_longer [of "u @ ''?next=''" u] by (auto simp: next_of_def)

text \<open>
  Signing in again leads back. For a GET of an ordinary page whose quoted address is not too long, an
  expired session is sent to a sign-in page from which the person lands on exactly the page asked for, if that
  address is safe, and on the start page otherwise; a POST lands on the start page; and from no expired request
  does one land outside this host, whatever address or \<open>next\<close> the request carried.
\<close>

theorem expired_session_comes_back:
  assumes "local_path home"
  shows "local_path (lands_on home (next_of u (login_redirect_location u method full_path next_arg))) \<and>
     (method \<noteq> ''GET'' \<longrightarrow> lands_on home (next_of u (login_redirect_location u method full_path next_arg)) = home) \<and>
     (method = ''GET'' \<and> safe_next (without_mark full_path) \<noteq> [] \<and> length (quote (without_mark full_path)) \<le> max_next \<and>
        \<not> list_ex (\<lambda>p. has_prefix p (without_mark full_path)) no_return_prefixes \<longrightarrow>
      lands_on home (next_of u (login_redirect_location u method full_path next_arg)) = without_mark full_path)"
proof -
  let ?l = "login_redirect_location u method full_path next_arg" and ?p = "without_mark full_path"
  have local: "local_path (lands_on home q)" for q
    using assms safe_next_local [of q] by (auto simp: lands_on_def)
  have post: "lands_on home (next_of u ?l) = home" if "method \<noteq> ''GET''"
    using that by (simp add: login_redirect_location_def Let_def lands_on_def safe_next_def)
  have get: "lands_on home (next_of u ?l) = ?p"
    if "method = ''GET''" "safe_next ?p \<noteq> []" "length (quote ?p) \<le> max_next"
      "\<not> list_ex (\<lambda>p. has_prefix p ?p) no_return_prefixes"
  proof -
    have "\<not> has_prefix ''//'' ?p" "has_prefix ''/'' ?p" using that(2) by (auto simp: safe_next_def split: if_splits)
    moreover have "\<not> (?p = ''/login'' \<or> has_prefix ''/login?'' ?p)"
    proof
      assume "?p = ''/login'' \<or> has_prefix ''/login?'' ?p"
      then have "has_prefix ''/login'' ?p" using has_prefix_weaken [of "''/login''" "''?''" ?p] by auto
      then show False using that(4) by (simp add: no_return_prefixes_def)
    qed
    ultimately have "?l = u @ ''?next='' @ quote ?p"
      using that by (simp add: login_redirect_location_def Let_def)
    then have "next_of u ?l = ?p" by (simp only: next_of_quoted)
    then show ?thesis using safe_next_local [OF that(2)] that(2) by (simp add: lands_on_def)
  qed
  show ?thesis using local post get by blast
qed

lemma expired_session_comes_back_witness:
  "lands_on ''/'' (next_of ''/login'' (login_redirect_location ''/login'' ''GET'' ''/clients?q=tv'' [])) = ''/clients?q=tv'' \<and>
   lands_on ''/'' (next_of ''/login'' (login_redirect_location ''/login'' ''POST'' ''/clients?'' [])) = ''/''"
proof -
  have home: "local_path ''/''" by (simp add: local_path_def)
  have get: "safe_next (without_mark ''/clients?q=tv'') \<noteq> []" "length (quote (without_mark ''/clients?q=tv'')) \<le> max_next"
    "\<not> list_ex (\<lambda>p. has_prefix p (without_mark ''/clients?q=tv'')) no_return_prefixes"
    "without_mark ''/clients?q=tv'' = ''/clients?q=tv''"
    by code_simp+
  show ?thesis
    using expired_session_comes_back [OF home, of "''/login''" "''GET''" "''/clients?q=tv''" "[]"]
      expired_session_comes_back [OF home, of "''/login''" "''POST''" "''/clients?''" "[]"] get
    by simp
qed

end
