(* ===== verification/ApiKeys.thy ===== *)
theory ApiKeys
  imports PyConv RateLimit
begin

text \<open>
  Requests with an API key (\<open>src/jen/services/api_auth.py\<close>): finding the key, its scope of subnets, and the
  limit on write requests. The hash and \<open>json.loads\<close> are parameters; the monotonic clock of the limiter counts
  in microseconds, the clock of the database in seconds.
\<close>

section \<open>Keys\<close>

record key_row =
  kr_id :: int
  kr_hash :: string
  kr_access :: json
  kr_can_write :: bool
  kr_active :: bool
  kr_last_used :: "int option"

definition of_hash :: "string \<Rightarrow> key_row \<Rightarrow> bool" where
  "of_hash h r = (kr_hash r = h \<and> kr_active r)"

definition mark_used :: "int \<Rightarrow> int \<Rightarrow> key_row \<Rightarrow> key_row" where
  "mark_used now i r =
     (if kr_id r = i \<and> (case kr_last_used r of None \<Rightarrow> True | Some t \<Rightarrow> t < now - 300)
      then r\<lparr>kr_last_used := Some now\<rparr> else r)"

text \<open>The header \<open>Authorization\<close> (empty when missing); the table after it, and the key.\<close>

definition api_auth ::
  "(string \<Rightarrow> string) \<Rightarrow> bool \<Rightarrow> int \<Rightarrow> string \<Rightarrow> key_row list \<Rightarrow> key_row list \<times> key_row option" where
  "api_auth sha ok now header rows =
     (if \<not> has_prefix ''Bearer '' header then (rows, None)
      else if \<not> ok then (rows, None)
      else case find (of_hash (sha (strip (drop 7 header)))) rows of
             None \<Rightarrow> (rows, None)
           | Some r \<Rightarrow> (map (mark_used now (kr_id r)) rows, Some r))"

section \<open>Scope\<close>

text \<open>\<open>None\<close> is every subnet.\<close>

definition key_subnet_ids :: "(string \<Rightarrow> json option) \<Rightarrow> key_row option \<Rightarrow> int set option" where
  "key_subnet_ids loads key =
     (case key of
        None \<Rightarrow> None
      | Some r \<Rightarrow>
          if kr_access r = JNull then None
          else let ids = (case kr_access r of JStr s \<Rightarrow> loads s | v \<Rightarrow> Some v)
               in case ids of
                    None \<Rightarrow> Some {}
                  | Some v \<Rightarrow> (case rbind (py_iter v) (collect int_of_json) of Inr js \<Rightarrow> Some (set js) | Inl e \<Rightarrow> Some {}))"

definition filter_subnet_ids :: "(string \<Rightarrow> json option) \<Rightarrow> key_row option \<Rightarrow> int list \<Rightarrow> int list" where
  "filter_subnet_ids loads key ids =
     (case key_subnet_ids loads key of None \<Rightarrow> ids | Some allowed \<Rightarrow> filter (\<lambda>i. i \<in> allowed) ids)"

section \<open>The limit on writes\<close>

definition write_rate_per_minute :: nat where "write_rate_per_minute = 60"

type_synonym write_hits = "int \<Rightarrow> int list"

definition recent_hits :: "int \<Rightarrow> int list \<Rightarrow> int list" where
  "recent_hits now hits = filter (\<lambda>t. now - t < 60000000) hits"

definition write_rate_limited :: "int \<Rightarrow> int \<Rightarrow> write_hits \<Rightarrow> write_hits \<times> bool" where
  "write_rate_limited now key hits =
     (let kept = recent_hits now (hits key) in
      if length kept \<ge> write_rate_per_minute then (hits(key := kept), True)
      else (hits(key := kept @ [now]), False))"

section \<open>The gate of a route\<close>

datatype key_reply = NoKey | ReadOnlyKey | RateLimited | Runs key_row

record api_state =
  as_keys :: "key_row list"
  as_hits :: write_hits

record api_call =
  ca_header :: string
  ca_wall :: int
  ca_mono :: int
  ca_db_ok :: bool
  ca_writes :: bool

definition api_key_required :: "(string \<Rightarrow> string) \<Rightarrow> api_call \<Rightarrow> api_state \<Rightarrow> api_state \<times> key_reply" where
  "api_key_required sha ca st =
     (case api_auth sha (ca_db_ok ca) (ca_wall ca) (ca_header ca) (as_keys st) of
        (rows, None) \<Rightarrow> (st\<lparr>as_keys := rows\<rparr>, NoKey)
      | (rows, Some r) \<Rightarrow>
          if ca_writes ca \<and> \<not> kr_can_write r then (st\<lparr>as_keys := rows\<rparr>, ReadOnlyKey)
          else if ca_writes ca then
            (case write_rate_limited (ca_mono ca) (kr_id r) (as_hits st) of
               (hits, True) \<Rightarrow> (st\<lparr>as_keys := rows, as_hits := hits\<rparr>, RateLimited)
             | (hits, False) \<Rightarrow> (st\<lparr>as_keys := rows, as_hits := hits\<rparr>, Runs r))
          else (st\<lparr>as_keys := rows\<rparr>, Runs r))"

section \<open>What the limit bounds\<close>

text \<open>A write of the key \<open>k\<close> that the gate lets run.\<close>

definition ran_write :: "int \<Rightarrow> api_call \<Rightarrow> key_reply \<Rightarrow> bool" where
  "ran_write k ca reply = (ca_writes ca \<and> (case reply of Runs r \<Rightarrow> kr_id r = k | _ \<Rightarrow> False))"

definition write_step :: "(string \<Rightarrow> string) \<Rightarrow> int \<Rightarrow> api_call \<Rightarrow> api_state \<Rightarrow> api_state \<times> bool" where
  "write_step sha k ca st = (case api_key_required sha ca st of (st', r) \<Rightarrow> (st', ran_write k ca r))"

definition hits_since :: "int \<Rightarrow> api_state \<Rightarrow> int \<Rightarrow> nat" where
  "hits_since k st c = length (filter (\<lambda>t. c \<le> t) (as_hits st k))"

lemma recent_hits_since:
  "now - 59999999 \<le> c \<Longrightarrow> length (filter (\<lambda>t. c \<le> t) (recent_hits now ts)) = length (filter (\<lambda>t. c \<le> t) ts)"
  unfolding recent_hits_def by (rule filter_and_cong) simp

lemma write_step_ran:
  assumes "snd (write_step sha k ca st)"
  shows "length (recent_hits (ca_mono ca) (as_hits st k)) < 60 \<and>
         as_hits (fst (write_step sha k ca st)) k = recent_hits (ca_mono ca) (as_hits st k) @ [ca_mono ca]"
  using assms
  by (auto simp: write_step_def api_key_required_def ran_write_def write_rate_limited_def write_rate_per_minute_def Let_def
      split: prod.splits option.splits if_splits bool.splits key_reply.splits)

lemma write_step_hits:
  "\<not> snd (write_step sha k ca st) \<Longrightarrow>
     as_hits (fst (write_step sha k ca st)) k = as_hits st k \<or>
     as_hits (fst (write_step sha k ca st)) k = recent_hits (ca_mono ca) (as_hits st k)"
  by (auto simp: write_step_def api_key_required_def ran_write_def write_rate_limited_def Let_def
      split: prod.splits option.splits if_splits bool.splits key_reply.splits)

interpretation writes: window_limit "write_step sha k" ca_mono "\<lambda>ca. True" "\<lambda>ca. True" "hits_since k" 59999999 60 for sha k
proof
  fix ca :: api_call and st
  assume "snd (write_step sha k ca st)"
  then have "length (recent_hits (ca_mono ca) (as_hits st k)) < 60" using write_step_ran by blast
  moreover have "filter (\<lambda>t. ca_mono ca - 59999999 \<le> t) (as_hits st k) = recent_hits (ca_mono ca) (as_hits st k)"
    unfolding recent_hits_def by (rule filter_cong) auto
  ultimately show "hits_since k st (ca_mono ca - 59999999) < 60" by (simp add: hits_since_def)
next
  fix ca :: api_call and st and c :: int
  assume c: "ca_mono ca - 59999999 \<le> c"
  show "hits_since k st c + (if snd (write_step sha k ca st) \<and> True \<and> c \<le> ca_mono ca then 1 else 0)
      \<le> hits_since k (fst (write_step sha k ca st)) c"
  proof (cases "snd (write_step sha k ca st)")
    case True
    then show ?thesis using write_step_ran [OF True] recent_hits_since [OF c] by (simp add: hits_since_def)
  next
    case False
    then show ?thesis using write_step_hits [OF False] recent_hits_since [OF c] by (auto simp: hits_since_def)
  qed
next
  fix c d :: int and st
  show "c \<le> d \<Longrightarrow> hits_since k st d \<le> hits_since k st c"
    unfolding hits_since_def by (rule length_filter_mono) auto
qed

text \<open>
  C24. No API key writes more than sixty times in any stretch shorter than a minute, whatever requests of that
  key and of others are made, good or refused, and whatever the limiter had counted before.
\<close>

theorem writes_bounded:
  assumes "sorted (map ca_mono cas)"
  shows "length (filter (in_span ca_mono c (c + 59999999)) (logged (write_step sha k) cas st)) \<le> 60"
  using writes.bounded [OF assms, of c sha k st] by (simp add: list_all_iff)

lemma writes_bounded_witness:
  "length (filter (in_span ca_mono 0 59999999)
      (logged (write_step (\<lambda>s. s) 1)
         (map (\<lambda>t. \<lparr>ca_header = ''Bearer k'', ca_wall = 0, ca_mono = t, ca_db_ok = True, ca_writes = True\<rparr>) [1, 2, 3])
         \<lparr>as_keys = [\<lparr>kr_id = 1, kr_hash = ''k'', kr_access = JNull, kr_can_write = True, kr_active = True, kr_last_used = None\<rparr>],
          as_hits = (\<lambda>k. [])\<rparr>)) \<le> 60"
  using writes_bounded [where cas = "map (\<lambda>t. \<lparr>ca_header = ''Bearer k'', ca_wall = 0, ca_mono = t, ca_db_ok = True, ca_writes = True\<rparr>) [1, 2, 3]"
      and c = 0 and sha = "\<lambda>s. s" and k = 1]
  by simp

section \<open>What a key reaches\<close>

lemma api_auth_found:
  "api_auth sha ok now header rows = (rows', Some r) \<Longrightarrow>
     r \<in> set rows \<and> of_hash (sha (strip (drop 7 header))) r \<and> has_prefix ''Bearer '' header"
  by (auto simp: api_auth_def find_Some_iff split: if_splits option.splits)

text \<open>
  A route behind the gate runs only for an active key whose stored hash is that of the key sent, a write
  only for a key that may write; and what the key then sees of any list of subnets is a part of it in the same
  order: all of it only when the key has no scope, nothing when its stored scope cannot be read as a list of
  numbers.
\<close>

theorem key_runs_in_scope:
  assumes "api_key_required sha ca st = (st', Runs r)"
  shows "r \<in> set (as_keys st) \<and> kr_active r \<and> kr_hash r = sha (strip (drop 7 (ca_header ca))) \<and>
         (ca_writes ca \<longrightarrow> kr_can_write r) \<and>
         (kr_access r = JNull \<longrightarrow> filter_subnet_ids loads (Some r) ids = ids) \<and>
         (\<forall>s. kr_access r = JStr s \<longrightarrow>
            (loads s = None \<or> loads s = Some JNull \<longrightarrow> filter_subnet_ids loads (Some r) ids = []) \<and>
            (\<forall>xs. loads s = Some (JList xs) \<longrightarrow>
               filter_subnet_ids loads (Some r) ids =
                 (if list_all (\<lambda>x. \<exists>i. int_of_json x = Inr i) xs
                  then filter (\<lambda>i. \<exists>x \<in> set xs. int_of_json x = Inr i) ids else [])))"
proof -
  have "\<exists>rows. api_auth sha (ca_db_ok ca) (ca_wall ca) (ca_header ca) (as_keys st) = (rows, Some r) \<and>
      (ca_writes ca \<longrightarrow> kr_can_write r)"
    using assms
    by (auto simp: api_key_required_def split: prod.splits option.splits if_splits bool.splits)
  then have key: "r \<in> set (as_keys st) \<and> kr_active r \<and> kr_hash r = sha (strip (drop 7 (ca_header ca))) \<and>
      (ca_writes ca \<longrightarrow> kr_can_write r)"
    using api_auth_found by (fastforce simp: of_hash_def)
  have list: "collect int_of_json xs = Inr js \<Longrightarrow>
      list_all (\<lambda>x. \<exists>i. int_of_json x = Inr i) xs \<and> (\<forall>i. i \<in> set js \<longleftrightarrow> (\<exists>x \<in> set xs. int_of_json x = Inr i))" for xs js
    by (induction xs arbitrary: js) (auto simp: res_simps)
  have bad: "collect int_of_json xs = Inl e \<Longrightarrow> \<not> list_all (\<lambda>x. \<exists>i. int_of_json x = Inr i) xs" for xs e
    by (induction xs arbitrary: e) (auto simp: res_simps)
  have "filter_subnet_ids loads (Some r) ids =
      (if list_all (\<lambda>x. \<exists>i. int_of_json x = Inr i) xs
       then filter (\<lambda>i. \<exists>x \<in> set xs. int_of_json x = Inr i) ids else [])"
    if "kr_access r = JStr s" "loads s = Some (JList xs)" for s xs
    using that list [of xs] bad [of xs]
    by (cases "collect int_of_json xs") (simp_all add: filter_subnet_ids_def key_subnet_ids_def)
  then show ?thesis
    using key by (auto simp: filter_subnet_ids_def key_subnet_ids_def)
qed

lemma key_runs_in_scope_witness:
  "filter_subnet_ids (\<lambda>s. None)
     (Some \<lparr>kr_id = 1, kr_hash = ''k'', kr_access = JStr ''[1'', kr_can_write = False, kr_active = True, kr_last_used = None\<rparr>)
     [1, 2] = []"
proof -
  let ?r = "\<lparr>kr_id = 1, kr_hash = ''k'', kr_access = JStr ''[1'', kr_can_write = False, kr_active = True, kr_last_used = None\<rparr>"
  let ?ca = "\<lparr>ca_header = ''Bearer k'', ca_wall = 0, ca_mono = 0, ca_db_ok = True, ca_writes = False\<rparr>"
  have "api_key_required (\<lambda>s. s) ?ca \<lparr>as_keys = [?r], as_hits = (\<lambda>k. [])\<rparr> =
      (fst (api_key_required (\<lambda>s. s) ?ca \<lparr>as_keys = [?r], as_hits = (\<lambda>k. [])\<rparr>), Runs ?r)"
    by (simp add: api_key_required_def api_auth_def of_hash_def strip_def lstrip_def rstrip_def is_space_def)
  from key_runs_in_scope [OF this, of "\<lambda>s. None" "[1, 2]"] show ?thesis by simp
qed

end
