(* ===== verification/Alerts.thy ===== *)
theory Alerts
  imports PyConv
begin

text \<open>
  Alerts about conditions (\<open>src/jen/services/alerts.py\<close>): which channels an alert goes to, the state machine
  \<open>notify_condition\<close> that warns, retries and recovers, where its state is kept, and two of the conditions
  judged with it - the exhaustion of a pool and the expiry of the certificate.

  Time is in whole microseconds. A transport either takes a message or not; that is an input. \<open>json.loads\<close> is
  a parameter; the JSON text of a state is represented by the state.
\<close>

section \<open>Channels\<close>

record channel =
  ch_type :: string
  ch_alert_types :: json
  ch_scope :: json

text \<open>\<open>x in v\<close> for a text \<open>x\<close>.\<close>

fun str_in :: "string \<Rightarrow> json \<Rightarrow> bool res" where
  "str_in x (JList vs) = Inr (list_ex (py_eq (JStr x)) vs)"
| "str_in x (JObj d) = Inr (map_of d x \<noteq> None)"
| "str_in x (JStr s) = Inr (contains x s)"
| "str_in x v = Inl TypeError"

definition read_column :: "(string \<Rightarrow> json option) \<Rightarrow> json \<Rightarrow> json res" where
  "read_column loads v =
     (case v of JStr s \<Rightarrow> (case loads s of Some w \<Rightarrow> Inr w | None \<Rightarrow> Inl ValueError) | w \<Rightarrow> Inr w)"

definition channel_handles_alert :: "(string \<Rightarrow> json option) \<Rightarrow> channel \<Rightarrow> string \<Rightarrow> bool" where
  "channel_handles_alert loads ch alert_type =
     (truthy (ch_alert_types ch) \<and>
      (case rbind (read_column loads (ch_alert_types ch)) (str_in alert_type) of Inr b \<Rightarrow> b | Inl e \<Rightarrow> False))"

definition scoped_alert_types :: "string list" where
  "scoped_alert_types = [''client_problems'']"

definition channel_allows_subnet :: "(string \<Rightarrow> json option) \<Rightarrow> channel \<Rightarrow> int option \<Rightarrow> bool \<Rightarrow> bool" where
  "channel_allows_subnet loads ch subnet scoped =
     (if subnet = None \<and> \<not> scoped then True
      else if \<not> truthy (ch_scope ch) then True
      else case rbind (read_column loads (ch_scope ch)) (\<lambda>allowed.
             if \<not> truthy allowed then Inr True
             else case subnet of
                    None \<Rightarrow> Inr False
                  | Some i \<Rightarrow> rbind (rbind (py_iter allowed) (collect int_of_json)) (\<lambda>is'. Inr (i \<in> set is'))) of
             Inr b \<Rightarrow> b
           | Inl e \<Rightarrow> True)"

text \<open>\<open>takes ch\<close>: the transport of the channel returned true and did not raise.\<close>

definition send_alert ::
  "(string \<Rightarrow> json option) \<Rightarrow> channel list \<Rightarrow> (channel \<Rightarrow> bool) \<Rightarrow> string \<Rightarrow> int option \<Rightarrow> bool \<Rightarrow> (channel \<times> bool) list" where
  "send_alert loads channels takes alert_type subnet scoped =
     map (\<lambda>ch. (ch, takes ch))
       (filter (\<lambda>ch. channel_handles_alert loads ch alert_type \<and>
                     channel_allows_subnet loads ch subnet (scoped \<or> alert_type \<in> set scoped_alert_types)) channels)"

definition delivered :: "(channel \<times> bool) list \<Rightarrow> bool" where
  "delivered results = list_ex snd results"

section \<open>The state of a condition\<close>

text \<open>A stored time: none, a time, or a text that is no time.\<close>

datatype stamp = NoStamp | Stamp int | BadStamp

record alert_rec =
  al_active :: bool
  al_notified :: bool
  al_t :: stamp
  al_c :: nat
  al_d :: stamp
  al_r :: bool

definition inactive :: alert_rec where
  "inactive = \<lparr>al_active = False, al_notified = False, al_t = NoStamp, al_c = 0, al_d = NoStamp, al_r = False\<rparr>"

text \<open>
  The settings row of a condition - a flag of an older release, something unreadable, a state - and the memory
  of states a write could not store.
\<close>

datatype stored = OldFlag bool | NotReadable | Saved alert_rec

record alert_store =
  ss_rows :: "string \<Rightarrow> stored option"
  ss_unsaved :: "string \<Rightarrow> alert_rec option"

definition load_state :: "alert_store \<Rightarrow> string \<Rightarrow> alert_rec" where
  "load_state ss key =
     (case ss_unsaved ss key of
        Some s \<Rightarrow> s
      | None \<Rightarrow> (case ss_rows ss key of
                   Some (OldFlag b) \<Rightarrow> inactive\<lparr>al_active := b\<rparr>
                 | Some (Saved s) \<Rightarrow> s
                 | _ \<Rightarrow> inactive))"

definition save_state :: "bool \<Rightarrow> string \<Rightarrow> alert_rec \<Rightarrow> alert_store \<Rightarrow> alert_store" where
  "save_state ok key s ss =
     (if ok then ss\<lparr>ss_rows := (ss_rows ss)(key \<mapsto> Saved s), ss_unsaved := (ss_unsaved ss)(key := None)\<rparr>
      else ss\<lparr>ss_unsaved := (ss_unsaved ss)(key \<mapsto> s)\<rparr>)"

section \<open>Warning, retrying, recovering\<close>

definition backoff_minutes :: "nat list" where
  "backoff_minutes = [1, 2, 4, 8, 16, 32, 60]"

definition backoff :: "nat \<Rightarrow> int" where
  "backoff c = int (backoff_minutes ! min (c - 1) 6) * 60000000"

definition backing_off :: "int \<Rightarrow> alert_rec \<Rightarrow> bool" where
  "backing_off now s = (case al_t s of Stamp t \<Rightarrow> al_c s > 0 \<and> now < t + backoff (al_c s) | _ \<Rightarrow> False)"

datatype send = Warning | Recovery

datatype answer = Sent | Pending | Waiting | Quiet | Recovered | RecoveryPending | Cleared

text \<open>
  One pass over one condition: the time, whether the condition holds, whether a message sent now would be
  taken, whether the type has a recovery message, and the interval of its reminder.
\<close>

record pass =
  pa_now :: int
  pa_active :: bool
  pa_takes :: bool
  pa_has_ok :: bool
  pa_repeat :: "int option"

text \<open>The condition has just ended, or a recovery is still owed.\<close>

definition pass_inactive :: "pass \<Rightarrow> alert_rec \<Rightarrow> alert_rec \<times> send option \<times> answer" where
  "pass_inactive pa s =
     (if al_active s then
        (if al_notified s \<and> pa_has_ok pa then
           (if pa_takes pa then (inactive, Some Recovery, Recovered)
            else (s\<lparr>al_active := False, al_notified := False, al_t := Stamp (pa_now pa), al_c := 1, al_r := True\<rparr>,
                  Some Recovery, RecoveryPending))
         else (inactive, None, Cleared))
      else if al_r s then
        (if \<not> pa_has_ok pa then (inactive, None, Cleared)
         else if backing_off (pa_now pa) s then (s, None, Waiting)
         else if pa_takes pa then (inactive, Some Recovery, Recovered)
         else (s\<lparr>al_t := Stamp (pa_now pa), al_c := al_c s + 1\<rparr>, Some Recovery, RecoveryPending))
      else (s, None, Quiet))"

text \<open>The state a condition that holds is judged in.\<close>

definition reopened :: "pass \<Rightarrow> alert_rec \<Rightarrow> alert_rec" where
  "reopened pa s =
     (if al_r s \<and> \<not> al_active s then
        s\<lparr>al_active := True, al_notified := True, al_t := NoStamp, al_c := 0, al_r := False\<rparr>
      else if \<not> al_active s then inactive\<lparr>al_active := True\<rparr>
      else if al_notified s then
        (case (pa_repeat pa, al_d s) of
           (Some rep, Stamp told) \<Rightarrow>
             if pa_now pa - told \<ge> rep then s\<lparr>al_notified := False, al_t := NoStamp, al_c := 0, al_d := NoStamp\<rparr> else s
         | _ \<Rightarrow> s)
      else s)"

definition pass_active :: "pass \<Rightarrow> alert_rec \<Rightarrow> alert_rec \<times> send option \<times> answer" where
  "pass_active pa s0 =
     (let s = reopened pa s0 in
      if al_notified s then (s, None, Quiet)
      else if backing_off (pa_now pa) s then (s, None, Waiting)
      else if pa_takes pa then
        (s\<lparr>al_t := Stamp (pa_now pa), al_notified := True, al_c := 0, al_d := Stamp (pa_now pa)\<rparr>, Some Warning, Sent)
      else (s\<lparr>al_t := Stamp (pa_now pa), al_c := al_c s + 1\<rparr>, Some Warning, Pending))"

definition judge_pass :: "pass \<Rightarrow> alert_rec \<Rightarrow> alert_rec \<times> send option \<times> answer" where
  "judge_pass pa s = (if pa_active pa then pass_active pa s else pass_inactive pa s)"

text \<open>The state is written only when it changed.\<close>

definition notify_condition ::
  "bool \<Rightarrow> string \<Rightarrow> pass \<Rightarrow> alert_store \<Rightarrow> alert_store \<times> send option \<times> answer" where
  "notify_condition ok key pa ss =
     (case judge_pass pa (load_state ss key) of
        (s, sent, a) \<Rightarrow> (if s \<noteq> load_state ss key then save_state ok key s ss else ss, sent, a))"

definition mark_notified :: "bool \<Rightarrow> string \<Rightarrow> int \<Rightarrow> alert_store \<Rightarrow> alert_store" where
  "mark_notified ok key now ss =
     (let s = load_state ss key in
      if al_active s \<and> al_notified s then ss
      else save_state ok key
             \<lparr>al_active = True, al_notified = True, al_t = Stamp now, al_c = 0, al_d = Stamp now, al_r = False\<rparr> ss)"

text \<open>A run of passes over one condition, and what was sent: when, what, and whether it was taken.\<close>

fun alert_run :: "pass list \<Rightarrow> alert_rec \<Rightarrow> alert_rec \<times> (int \<times> send \<times> bool) list" where
  "alert_run [] s = (s, [])"
| "alert_run (pa # pas) s =
     (case judge_pass pa s of
        (s1, sent, a) \<Rightarrow>
          (case alert_run pas s1 of
             (s2, rest) \<Rightarrow> (s2, (case sent of None \<Rightarrow> [] | Some m \<Rightarrow> [(pa_now pa, m, pa_takes pa)]) @ rest)))"

section \<open>A pool that runs out\<close>

text \<open>\<open>free <= N\<close>, or it was exhausted and has not climbed back to \<open>N + max(2, N // 5)\<close>.\<close>

definition recover_at :: "int \<Rightarrow> int" where
  "recover_at n = n + max 2 (n div 5)"

definition exhausted :: "int \<Rightarrow> int \<Rightarrow> alert_rec \<Rightarrow> bool" where
  "exhausted n free s = (free \<le> n \<or> (al_active s \<and> free < recover_at n))"

definition exhaustion_pass :: "int \<Rightarrow> int \<times> int \<times> bool \<Rightarrow> alert_rec \<Rightarrow> alert_rec \<times> send option \<times> answer" where
  "exhaustion_pass n look s =
     (case look of (now, free, takes) \<Rightarrow>
        judge_pass \<lparr>pa_now = now, pa_active = exhausted n free s, pa_takes = takes, pa_has_ok = True, pa_repeat = None\<rparr> s)"

section \<open>The certificate\<close>

text \<open>The tightest bucket of 1, 7 and 30 days that has been reached.\<close>

definition cert_bucket :: "int \<Rightarrow> int option" where
  "cert_bucket days = find (\<lambda>b. days \<le> b) [1, 7, 30]"

definition cert_key :: "int \<Rightarrow> string" where
  "cert_key b = ''cert_expiring:'' @ show_int b"

text \<open>One bucket of a look; \<open>legacy\<close> is the bucket an older release had alerted last, 0 for none.\<close>

definition cert_step ::
  "bool \<Rightarrow> bool \<Rightarrow> int \<Rightarrow> int option \<Rightarrow> int \<Rightarrow> int \<Rightarrow> alert_store \<Rightarrow> alert_store \<times> (int \<times> send) list" where
  "cert_step ok takes legacy bucket now b ss0 =
     (let ss = (if legacy \<noteq> 0 \<and> b \<ge> legacy \<and> \<not> al_active (load_state ss0 (cert_key b))
                then mark_notified ok (cert_key b) now ss0 else ss0);
          look = (\<lambda>on. case notify_condition ok (cert_key b)
                         \<lparr>pa_now = now, pa_active = on, pa_takes = takes, pa_has_ok = False, pa_repeat = None\<rparr> ss of
                       (ss', sent, a) \<Rightarrow> (ss', case sent of Some m \<Rightarrow> [(b, m)] | None \<Rightarrow> []))
      in case bucket of
           None \<Rightarrow> look False
         | Some bk \<Rightarrow> if b < bk then look False
                      else if b > bk then (mark_notified ok (cert_key b) now ss, [])
                      else look True)"

definition check_cert_expiry_alert ::
  "bool \<Rightarrow> bool \<Rightarrow> int \<Rightarrow> int option \<Rightarrow> int \<Rightarrow> alert_store \<Rightarrow> alert_store \<times> (int \<times> send) list" where
  "check_cert_expiry_alert ok takes legacy days now ss =
     (case days of
        None \<Rightarrow> (ss, [])
      | Some d \<Rightarrow>
          foldl (\<lambda>(ss1, sends) b. case cert_step ok takes legacy (cert_bucket d) now b ss1 of (ss2, l) \<Rightarrow> (ss2, sends @ l))
            (ss, []) [30, 7, 1])"

end
