(* ===== verification/AlertProps.thy ===== *)
theory AlertProps
  imports Alerts
begin

text \<open>
  What the alerts guarantee: a warning and its recovery alternate, a warning that nobody took is tried again and
  not too often, a database that fails changes no message, and a channel with a scope hears of its own subnets.
\<close>

section \<open>States that occur\<close>

definition wf_alert :: "alert_rec \<Rightarrow> bool" where
  "wf_alert s = ((al_notified s \<longrightarrow> al_active s) \<and> (al_r s \<longrightarrow> \<not> al_active s))"

lemma wf_inactive [simp]: "wf_alert inactive"
  by (simp add: wf_alert_def inactive_def)

lemma judge_wf: "wf_alert s \<Longrightarrow> judge_pass pa s = (s', sent, a) \<Longrightarrow> wf_alert s'"
  by (auto simp: judge_pass_def pass_active_def pass_inactive_def reopened_def wf_alert_def inactive_def Let_def
      split: if_splits option.splits stamp.splits)

lemma alert_run_step:
  assumes "judge_pass pa s = (s1, sent, a)"
  shows "snd (alert_run (pa # pas) s) =
           (case sent of None \<Rightarrow> [] | Some m \<Rightarrow> [(pa_now pa, m, pa_takes pa)]) @ snd (alert_run pas s1)"
    "fst (alert_run (pa # pas) s) = fst (alert_run pas s1)"
  using assms by (simp_all split: prod.splits)

section \<open>Warnings and recoveries alternate\<close>

text \<open>The operator was told of the condition and not yet of its end.\<close>

definition told :: "alert_rec \<Rightarrow> bool" where
  "told s = (al_notified s \<or> al_r s)"

fun alternates :: "bool \<Rightarrow> send list \<Rightarrow> bool" where
  "alternates b [] = True"
| "alternates b (m # ms) = (m = (if b then Recovery else Warning) \<and> alternates (\<not> b) ms)"

definition taken_sends :: "(int \<times> send \<times> bool) list \<Rightarrow> send list" where
  "taken_sends sends = map (fst \<circ> snd) (filter (snd \<circ> snd) sends)"

lemma taken_sends_simps [simp]:
  "taken_sends [] = []" "taken_sends ((t, m, b) # ls) = (if b then [m] else []) @ taken_sends ls"
  by (simp_all add: taken_sends_def)

lemma told_step:
  assumes "wf_alert s" "pa_has_ok pa" "pa_repeat pa = None" "judge_pass pa s = (s', sent, a)"
  shows "told s' = (case sent of Some m \<Rightarrow> if pa_takes pa then \<not> told s else told s | None \<Rightarrow> told s) \<and>
         (\<forall>m. sent = Some m \<longrightarrow> m = (if told s then Recovery else Warning))"
  using assms
  by (auto simp: judge_pass_def pass_active_def pass_inactive_def reopened_def wf_alert_def inactive_def told_def Let_def
      split: if_splits)


definition looks :: "(int \<times> bool \<times> bool) list \<Rightarrow> pass list" where
  "looks ls = map (\<lambda>(t, on, takes). \<lparr>pa_now = t * 60000000, pa_active = on, pa_takes = takes, pa_has_ok = True, pa_repeat = None\<rparr>) ls"


section \<open>A warning nobody takes is tried again\<close>

definition failing :: "pass \<Rightarrow> bool" where
  "failing pa = (pa_active pa \<and> \<not> pa_takes pa)"

lemma backoff_bounds: "60000000 \<le> backoff c \<and> backoff c \<le> 3600000000"
proof -
  have "min (c - 1) 6 \<in> {0, 1, 2, 3, 4, 5, 6}" by (auto simp: min_def)
  then show ?thesis by (auto simp: backoff_def backoff_minutes_def)
qed

text \<open>A state after \<open>c\<close> failed attempts, the last at \<open>t\<close>.\<close>

definition pending :: "nat \<Rightarrow> int \<Rightarrow> alert_rec \<Rightarrow> bool" where
  "pending c t s = (al_active s \<and> \<not> al_notified s \<and> al_c s = c \<and> c > 0 \<and> al_t s = Stamp t)"

lemma failing_step:
  assumes "pending c t s" "failing pa"
  shows "judge_pass pa s =
     (if pa_now pa < t + backoff c then (s, None, Waiting)
      else (s\<lparr>al_t := Stamp (pa_now pa), al_c := c + 1\<rparr>, Some Warning, Pending))"
  using assms
  by (auto simp: pending_def failing_def judge_pass_def pass_active_def reopened_def backing_off_def Let_def)

lemma pending_after: "pending c t s \<Longrightarrow> pending (c + 1) t' (s\<lparr>al_t := Stamp t', al_c := c + 1\<rparr>)"
  by (simp add: pending_def)

fun spaced :: "nat \<Rightarrow> int \<Rightarrow> int list \<Rightarrow> bool" where
  "spaced c t [] = True"
| "spaced c t (u # us) = (t + backoff c \<le> u \<and> spaced (c + 1) u us)"

lemma failing_run_spaced:
  "pending c t s \<Longrightarrow> list_all failing pas \<Longrightarrow> spaced c t (map fst (snd (alert_run pas s)))"
proof (induction pas arbitrary: c t s)
  case (Cons pa pas)
  have f: "failing pa" "list_all failing pas" using Cons.prems(2) by simp_all
  show ?case
  proof (cases "pa_now pa < t + backoff c")
    case True
    then show ?thesis
      using failing_step [OF Cons.prems(1) f(1)] Cons.IH [OF Cons.prems(1) f(2)]
      by (simp add: alert_run_step del: alert_run.simps)
  next
    case False
    then show ?thesis
      using failing_step [OF Cons.prems(1) f(1)] Cons.IH [OF pending_after [OF Cons.prems(1)] f(2), of "pa_now pa"]
      by (simp add: alert_run_step del: alert_run.simps)
  qed
qed simp

lemma first_attempt:
  "failing pa \<Longrightarrow> judge_pass pa inactive = (s', sent, a) \<Longrightarrow> pending 1 (pa_now pa) s' \<and> sent = Some Warning"
  by (auto simp: failing_def judge_pass_def pass_active_def reopened_def backing_off_def pending_def inactive_def Let_def)



section \<open>The store\<close>

lemma load_save [simp]: "load_state (save_state ok k s ss) l = (if l = k then s else load_state ss l)"
  by (cases ok) (auto simp: save_state_def load_state_def split: option.split)

lemma notify_eq:
  "notify_condition ok key pa ss = (ss', sent, a) \<Longrightarrow>
     judge_pass pa (load_state ss key) = (load_state ss' key, sent, a) \<and>
     (l \<noteq> key \<longrightarrow> load_state ss' l = load_state ss l)"
  by (auto simp: notify_condition_def split: prod.splits if_splits)

text \<open>A run over the store; for each pass the conditions looked at and whether the database takes a write then.\<close>

fun store_run :: "string \<Rightarrow> (bool \<times> string \<times> pass) list \<Rightarrow> alert_store \<Rightarrow> alert_store \<times> (int \<times> send \<times> bool) list" where
  "store_run key [] ss = (ss, [])"
| "store_run key ((ok, k, pa) # ps) ss =
     (case notify_condition ok k pa ss of
        (ss1, sent, a) \<Rightarrow>
          (case store_run key ps ss1 of
             (ss2, rest) \<Rightarrow>
               (ss2, (if k = key then (case sent of None \<Rightarrow> [] | Some m \<Rightarrow> [(pa_now pa, m, pa_takes pa)]) else []) @ rest)))"

lemma store_run_step:
  assumes "notify_condition ok k pa ss = (ss1, sent, a)"
  shows "snd (store_run key ((ok, k, pa) # ps) ss) =
      (if k = key then (case sent of None \<Rightarrow> [] | Some m \<Rightarrow> [(pa_now pa, m, pa_takes pa)]) else []) @ snd (store_run key ps ss1)"
    "fst (store_run key ((ok, k, pa) # ps) ss) = fst (store_run key ps ss1)"
  using assms by (simp_all split: prod.splits)

text \<open>
  The store refines one state per condition: in a run of passes over any conditions, with the database
  refusing any of the writes, every condition sends exactly the messages of a run over its own state alone -
  a failing database repeats no message and drops none while the process lives, and no condition disturbs
  another.
\<close>

theorem store_refines_state:
  "snd (store_run key ps ss) =
     snd (alert_run (map (snd \<circ> snd) (filter (\<lambda>p. fst (snd p) = key) ps)) (load_state ss key)) \<and>
   load_state (fst (store_run key ps ss)) key =
     fst (alert_run (map (snd \<circ> snd) (filter (\<lambda>p. fst (snd p) = key) ps)) (load_state ss key))"
proof (induction ps arbitrary: ss)
  case (Cons p ps)
  obtain ok k pa where p: "p = (ok, k, pa)" by (cases p) auto
  obtain ss1 sent a where n: "notify_condition ok k pa ss = (ss1, sent, a)"
    by (cases "notify_condition ok k pa ss") auto
  show ?case
  proof (cases "k = key")
    case True
    then have j: "judge_pass pa (load_state ss key) = (load_state ss1 key, sent, a)" using notify_eq [OF n] by simp
    show ?thesis
      using Cons.IH [of ss1]
      by (simp add: p True store_run_step [OF n [unfolded True]] alert_run_step [OF j] del: store_run.simps alert_run.simps)
  next
    case False
    then have "load_state ss1 key = load_state ss key" using notify_eq [OF n, of key] by simp
    then show ?thesis
      using Cons.IH [of ss1] False by (simp add: p store_run_step [OF n] del: store_run.simps)
  qed
qed simp

section \<open>A pool that runs out\<close>

lemma judge_active: "judge_pass pa s = (s', sent, a) \<Longrightarrow> al_active s' = pa_active pa \<or> \<not> pa_active pa \<and> s' = s"
  by (auto simp: judge_pass_def pass_active_def pass_inactive_def reopened_def inactive_def Let_def
      split: if_splits option.splits stamp.splits)

lemma judge_tracks: "judge_pass pa s = (s', sent, a) \<Longrightarrow> al_active s' = pa_active pa"
  by (auto simp: judge_pass_def pass_active_def pass_inactive_def reopened_def inactive_def Let_def
      split: if_splits option.splits stamp.splits)

text \<open>The looks at one pool: the free addresses and whether it counted as exhausted then.\<close>

fun exhaustion_run :: "int \<Rightarrow> (int \<times> int \<times> bool) list \<Rightarrow> alert_rec \<Rightarrow> (int \<times> bool) list" where
  "exhaustion_run n [] s = []"
| "exhaustion_run n (l # ls) s =
     (fst (snd l), exhausted n (fst (snd l)) s) # exhaustion_run n ls (fst (exhaustion_pass n l s))"

definition calm :: "int \<Rightarrow> (int \<times> bool) \<Rightarrow> (int \<times> bool) \<Rightarrow> bool" where
  "calm n x y =
     ((snd x \<and> \<not> snd y \<longrightarrow> fst y \<ge> recover_at n) \<and> (\<not> snd x \<and> snd y \<longrightarrow> fst y \<le> n))"

lemma exhaustion_active: "al_active (fst (exhaustion_pass n l s)) = exhausted n (fst (snd l)) s"
proof -
  obtain now free takes where l: "l = (now, free, takes)" by (cases l) auto
  obtain s' sent a where j: "exhaustion_pass n l s = (s', sent, a)" by (cases "exhaustion_pass n l s") auto
  then show ?thesis using judge_tracks [of _ s s' sent a] l by (fastforce simp: exhaustion_pass_def)
qed

lemma exhaustion_run_hd:
  "exhaustion_run n ls s \<noteq> [] \<Longrightarrow>
     fst (hd (exhaustion_run n ls s)) = fst (snd (hd ls)) \<and> snd (hd (exhaustion_run n ls s)) = exhausted n (fst (snd (hd ls))) s"
  by (cases ls) simp_all

lemma exhaustion_calm:
  "successively (calm n) (exhaustion_run n ls s)"
proof (induction ls arbitrary: s)
  case (Cons l ls)
  let ?s = "fst (exhaustion_pass n l s)"
  have "calm n (fst (snd l), exhausted n (fst (snd l)) s) y"
    if "y = hd (exhaustion_run n ls ?s)" "exhaustion_run n ls ?s \<noteq> []" for y
    using that exhaustion_active [of n l s] exhaustion_run_hd [of n ls ?s]
    by (auto simp: calm_def exhausted_def)
  then show ?case using Cons.IH [of ?s] by (cases "exhaustion_run n ls ?s") auto
qed simp

section \<open>Channels\<close>

text \<open>
  An alert about one client that Jen could not place reaches no channel with a scope of subnets, and one
  about a subnet reaches a channel with a scope exactly when the scope names the subnet; a scope that cannot be
  read, or is empty, lets everything through, and so does any scope for an alert about no subnet at all.
\<close>

theorem scope_of_a_channel:
  assumes "ch_scope ch = JStr txt" "txt \<noteq> []"
  shows "channel_allows_subnet loads ch None False \<and>
    (loads txt = None \<longrightarrow> channel_allows_subnet loads ch subnet scoped) \<and>
    (loads txt = Some (JList []) \<longrightarrow> channel_allows_subnet loads ch subnet scoped) \<and>
    (\<forall>is'. loads txt = Some (JList (map JInt is')) \<and> is' \<noteq> [] \<longrightarrow>
       \<not> channel_allows_subnet loads ch None True \<and>
       channel_allows_subnet loads ch (Some i) scoped = (i \<in> set is'))"
proof -
  have ints: "collect int_of_json (map JInt is') = Inr is'" for is'
    by (induction is') simp_all
  show ?thesis
    using assms by (auto simp: channel_allows_subnet_def read_column_def ints)
qed

lemma scope_of_a_channel_witness:
  "channel_allows_subnet (\<lambda>s. Some (JList [JInt 3])) \<lparr>ch_type = ''ntfy'', ch_alert_types = JNull, ch_scope = JStr ''[3]''\<rparr> (Some 4) False
     = (4 \<in> set [3 :: int])"
proof -
  let ?ch = "\<lparr>ch_type = ''ntfy'', ch_alert_types = JNull, ch_scope = JStr ''[3]''\<rparr>"
  have s: "ch_scope ?ch = JStr ''[3]''" "''[3]'' \<noteq> []" by simp_all
  have "Some (JList [JInt 3]) = Some (JList (map JInt [3])) \<and> [3] \<noteq> ([] :: int list)" by simp
  then show ?thesis using scope_of_a_channel [OF s, of "\<lambda>s. Some (JList [JInt 3])" None False 4] by (metis (no_types, lifting))
qed

end
