(* ===== verification/LeaseDiff.thy ===== *)
theory LeaseDiff
  imports Json PyStr
begin

text \<open>
  Two looks at the leases of the alert loop (\<open>src/jen/services/alerts.py\<close>): \<open>diff_leases\<close>, the events between
  two snapshots, and \<open>update_device_inventory\<close>, the batched writing of the devices table.

  A snapshot is the list of its entries; Python's dict has each address once.
\<close>

section \<open>The events between two snapshots\<close>

record lease_row =
  lr_mac :: string
  lr_hostname :: string
  lr_subnet :: json
  lr_reserved :: bool

type_synonym snapshot = "(string \<times> lease_row) list"

datatype lease_event =
    LeaseNew string lease_row
  | IpChanged string string lease_row
  | LeaseExpired string lease_row
  | HostnameChanged string string lease_row

definition ips_of :: "snapshot \<Rightarrow> string list" where
  "ips_of m = map fst m"

definition row_at :: "snapshot \<Rightarrow> string \<Rightarrow> lease_row" where
  "row_at m ip = the (map_of m ip)"

text \<open>\<open>sorted(a - b)\<close>.\<close>

definition sorted_minus :: "snapshot \<Rightarrow> snapshot \<Rightarrow> string list" where
  "sorted_minus a b = sort_by str_le (filter (\<lambda>ip. ip \<notin> set (ips_of b)) (ips_of a))"

definition gone_by_mac :: "snapshot \<Rightarrow> string list \<Rightarrow> string \<Rightarrow> string list" where
  "gone_by_mac prev gone mac = filter (\<lambda>ip. lr_mac (row_at prev ip) = mac) gone"

text \<open>The loop over the new addresses; the head of the list of a hardware address is popped.\<close>

fun pair_new :: "snapshot \<Rightarrow> string list \<Rightarrow> (string \<Rightarrow> string list) \<Rightarrow> lease_event list" where
  "pair_new cur [] gone = []"
| "pair_new cur (ip # ips) gone =
     (let row = row_at cur ip in
      case gone (lr_mac row) of
        [] \<Rightarrow> LeaseNew ip row # pair_new cur ips gone
      | old # rest \<Rightarrow> IpChanged ip old row # pair_new cur ips (gone(lr_mac row := rest)))"

fun matched_of :: "lease_event list \<Rightarrow> string list" where
  "matched_of [] = []"
| "matched_of (IpChanged ip old row # es) = old # matched_of es"
| "matched_of (e # es) = matched_of es"

definition renamed :: "snapshot \<Rightarrow> snapshot \<Rightarrow> string \<Rightarrow> lease_event list" where
  "renamed prev cur ip =
     (let h = lr_hostname (row_at cur ip) in
      if h \<noteq> [] \<and> h \<noteq> lr_hostname (row_at prev ip)
      then [HostnameChanged ip (lr_hostname (row_at prev ip)) (row_at cur ip)] else [])"

definition diff_leases :: "snapshot \<Rightarrow> snapshot \<Rightarrow> lease_event list" where
  "diff_leases prev cur =
     (let gone = sorted_minus prev cur;
          moved = pair_new cur (sorted_minus cur prev) (gone_by_mac prev gone);
          expired = filter (\<lambda>ip. ip \<notin> set (matched_of moved)) gone;
          both = sort_by str_le (filter (\<lambda>ip. ip \<in> set (ips_of prev)) (ips_of cur))
      in moved @ map (\<lambda>ip. LeaseExpired ip (row_at prev ip)) expired @ concat (map (renamed prev cur) both))"

section \<open>The device inventory\<close>

text \<open>
  What one lease of a sweep meets: a hardware address that is not six bytes, a row that is written, a row that
  fails alone, a deadlock or lock wait that rolls the open transaction back, a lost connection.
\<close>

datatype row_fate = NotAMac | Written | RowFails | RolledBack | ConnectionLost

text \<open>The counters, the rows of the open transaction, and the rows that are committed (by their number).\<close>

record sweep =
  sw_updated :: int
  sw_skipped :: int
  sw_failed :: int
  sw_since :: int
  sw_open :: "nat list"
  sw_stored :: "nat list"

definition fresh_sweep :: sweep where
  "fresh_sweep = \<lparr>sw_updated = 0, sw_skipped = 0, sw_failed = 0, sw_since = 0, sw_open = [], sw_stored = []\<rparr>"

definition commit_every :: int where "commit_every = 200"

definition commit_open :: "sweep \<Rightarrow> sweep" where
  "commit_open sw = sw\<lparr>sw_stored := sw_stored sw @ sw_open sw, sw_open := []\<rparr>"

definition count_row :: "sweep \<Rightarrow> sweep" where
  "count_row sw =
     (let sw = sw\<lparr>sw_since := sw_since sw + 1\<rparr> in
      if sw_since sw \<ge> commit_every then (commit_open sw)\<lparr>sw_since := 0\<rparr> else sw)"

text \<open>
  The loop. The connection is opened by the caller and its commits succeed while it lives; the commit after a
  lost connection fails, and the exception around the loop ends the sweep.
\<close>

fun sweep_rows :: "nat \<Rightarrow> row_fate list \<Rightarrow> sweep \<Rightarrow> sweep" where
  "sweep_rows i [] sw = commit_open sw"
| "sweep_rows i (fate # fates) sw =
     (case fate of
        NotAMac \<Rightarrow> sweep_rows (i + 1) fates (sw\<lparr>sw_skipped := sw_skipped sw + 1\<rparr>)
      | Written \<Rightarrow>
          sweep_rows (i + 1) fates (count_row (sw\<lparr>sw_updated := sw_updated sw + 1, sw_open := sw_open sw @ [i]\<rparr>))
      | RowFails \<Rightarrow> sweep_rows (i + 1) fates (count_row (sw\<lparr>sw_failed := sw_failed sw + 1\<rparr>))
      | RolledBack \<Rightarrow>
          sweep_rows (i + 1) fates
            (sw\<lparr>sw_updated := sw_updated sw - sw_since sw, sw_failed := sw_failed sw + (sw_since sw + 1),
                sw_since := 0, sw_open := []\<rparr>)
      | ConnectionLost \<Rightarrow> sw\<lparr>sw_failed := sw_failed sw + 1, sw_open := []\<rparr>)"

definition update_device_inventory :: "row_fate list \<Rightarrow> sweep" where
  "update_device_inventory fates = sweep_rows 0 fates fresh_sweep"

end
