(* ===== verification/LeaseDiffProps.thy ===== *)
theory LeaseDiffProps
  imports LeaseDiff
begin

text \<open>
  The events account for every change between two snapshots exactly once, a client that moved is never reported
  as two clients, and the counters of an inventory sweep are exact when no row fails alone.
\<close>

section \<open>Pairing\<close>

text \<open>The addresses that came into use, and the ones that went out of use, according to the events.\<close>

fun arrived :: "lease_event \<Rightarrow> string list" where
  "arrived (LeaseNew ip row) = [ip]"
| "arrived (IpChanged ip old row) = [ip]"
| "arrived e = []"

fun left_use :: "lease_event \<Rightarrow> string list" where
  "left_use (IpChanged ip old row) = [old]"
| "left_use (LeaseExpired ip row) = [ip]"
| "left_use e = []"

definition mac_at :: "snapshot \<Rightarrow> string \<Rightarrow> string" where
  "mac_at m ip = lr_mac (row_at m ip)"

lemma pair_new_arrived: "concat (map arrived (pair_new cur ips gone)) = ips"
  by (induction ips arbitrary: gone) (auto simp: Let_def split: list.split)

lemma matched_left: "matched_of es = concat (map left_use (filter (\<lambda>e. case e of IpChanged _ _ _ \<Rightarrow> True | _ \<Rightarrow> False) es))"
  by (induction es rule: matched_of.induct) auto

lemma pair_new_left: "concat (map left_use (pair_new cur ips gone)) = matched_of (pair_new cur ips gone)"
  by (induction ips arbitrary: gone) (auto simp: Let_def split: list.split)

text \<open>Per hardware address, the first new addresses get the first of the gone ones.\<close>

fun old_of :: "string \<Rightarrow> lease_event \<Rightarrow> string list" where
  "old_of m (IpChanged ip old row) = (if lr_mac row = m then [old] else [])"
| "old_of m e = []"

lemma pair_new_take:
  "concat (map (old_of m) (pair_new cur ips gone)) =
     take (length (filter (\<lambda>ip. mac_at cur ip = m) ips)) (gone m)"
proof (induction ips arbitrary: gone)
  case (Cons ip ips)
  show ?case
  proof (cases "gone (lr_mac (row_at cur ip))")
    case Nil
    then show ?thesis using Cons.IH [of gone] by (auto simp: mac_at_def Let_def)
  next
    case g: (Cons old rest)
    define gone' where "gone' = gone(lr_mac (row_at cur ip) := rest)"
    have "pair_new cur (ip # ips) gone = IpChanged ip old (row_at cur ip) # pair_new cur ips gone'"
      using g by (simp add: gone'_def Let_def)
    moreover have "gone' m = (if lr_mac (row_at cur ip) = m then rest else gone m)" by (simp add: gone'_def)
    ultimately show ?thesis using Cons.IH [of gone'] g by (auto simp: mac_at_def)
  qed
qed simp

lemma pair_new_events:
  "e \<in> set (pair_new cur ips gone) \<Longrightarrow>
     (\<exists>ip. e = LeaseNew ip (row_at cur ip)) \<or>
     (\<exists>ip old. e = IpChanged ip old (row_at cur ip) \<and> old \<in> set (gone (mac_at cur ip)))"
proof (induction ips arbitrary: gone)
  case (Cons ip ips)
  show ?case
  proof (cases "gone (lr_mac (row_at cur ip))")
    case Nil
    then show ?thesis using Cons by (auto simp: Let_def)
  next
    case g: (Cons old rest)
    define gone' where "gone' = gone(lr_mac (row_at cur ip) := rest)"
    have "pair_new cur (ip # ips) gone = IpChanged ip old (row_at cur ip) # pair_new cur ips gone'"
      using g by (simp add: gone'_def Let_def)
    then consider "e = IpChanged ip old (row_at cur ip)" | "e \<in> set (pair_new cur ips gone')"
      using Cons.prems by auto
    moreover have "set (gone' m) \<subseteq> set (gone m)" for m using g by (auto simp: gone'_def)
    ultimately show ?thesis using Cons.IH [of gone'] g by (fastforce simp: mac_at_def)
  qed
qed simp

text \<open>A new client is reported only when every gone address of its hardware address has been paired.\<close>

lemma new_when_none_left:
  "LeaseNew ip row \<in> set (pair_new cur ips gone) \<Longrightarrow>
     length (gone (lr_mac row)) < length (filter (\<lambda>ip. mac_at cur ip = lr_mac row) ips)"
proof (induction ips arbitrary: gone)
  case (Cons a ips)
  show ?case
  proof (cases "gone (lr_mac (row_at cur a))")
    case Nil
    then show ?thesis using Cons by (auto simp: mac_at_def less_Suc_eq)
  next
    case g: (Cons old rest)
    then have "LeaseNew ip row \<in> set (pair_new cur ips (gone(lr_mac (row_at cur a) := rest)))"
      using Cons.prems by (simp add: Let_def)
    from Cons.IH [OF this] g show ?thesis by (auto simp: mac_at_def split: if_splits)
  qed
qed simp

lemma matched_has_mac:
  "old \<in> set (matched_of (pair_new cur ips gone)) \<longleftrightarrow>
     (\<exists>m. old \<in> set (concat (map (old_of m) (pair_new cur ips gone))))"
  by (induction ips arbitrary: gone) (auto simp: Let_def split: list.splits if_splits)

lemma matched_iff:
  "old \<in> set (matched_of (pair_new cur ips gone)) \<longleftrightarrow>
     (\<exists>m. old \<in> set (take (length (filter (\<lambda>ip. mac_at cur ip = m) ips)) (gone m)))"
  by (simp only: matched_has_mac pair_new_take)

lemma distinct_matched:
  "(\<And>m. distinct (gone m)) \<Longrightarrow> (\<And>m n. m \<noteq> n \<Longrightarrow> set (gone m) \<inter> set (gone n) = {}) \<Longrightarrow>
     distinct (matched_of (pair_new cur ips gone))"
proof (induction ips arbitrary: gone)
  case (Cons ip ips)
  let ?m = "lr_mac (row_at cur ip)"
  show ?case
  proof (cases "gone ?m")
    case Nil
    then show ?thesis using Cons by (simp add: Let_def)
  next
    case g: (Cons old rest)
    let ?gone = "gone(?m := rest)"
    have d: "distinct (?gone m)" for m using Cons.prems(1) [of m] Cons.prems(1) [of ?m] g by auto
    have j: "set (?gone m) \<inter> set (?gone n) = {}" if "m \<noteq> n" for m n
      using Cons.prems(2) [OF that] g that by auto
    have "old \<notin> set (?gone m)" for m
      using Cons.prems(1) [of ?m] Cons.prems(2) [of ?m m] g by (cases "m = ?m") auto
    then have "old \<notin> set (matched_of (pair_new cur ips ?gone))"
      by (metis matched_iff in_set_takeD)
    moreover have "distinct (matched_of (pair_new cur ips ?gone))" by (rule Cons.IH [OF d j])
    ultimately show ?thesis using g by (simp add: Let_def del: fun_upd_apply)
  qed
qed simp

section \<open>The whole difference\<close>

lemma set_sorted_minus: "set (sorted_minus a b) = set (ips_of a) - set (ips_of b)"
  by (auto simp: sorted_minus_def)

lemma mset_sorted_minus: "mset (sorted_minus a b) = mset (filter (\<lambda>ip. ip \<notin> set (ips_of b)) (ips_of a))"
  by (simp add: sorted_minus_def)

lemma distinct_sorted_minus: "distinct (ips_of a) \<Longrightarrow> distinct (sorted_minus a b)"
  unfolding sorted_minus_def by (metis distinct_filter mset_eq_imp_distinct_iff mset_sort_by)

definition joined :: "snapshot \<Rightarrow> snapshot \<Rightarrow> lease_event list" where
  "joined prev cur = pair_new cur (sorted_minus cur prev) (gone_by_mac prev (sorted_minus prev cur))"

lemma renamed_silent: "concat (map arrived (renamed prev cur ip)) = []" "concat (map left_use (renamed prev cur ip)) = []"
  by (auto simp: renamed_def Let_def)

lemma renamed_all:
  "concat (map arrived (concat (map (renamed prev cur) ips))) = []"
  "concat (map left_use (concat (map (renamed prev cur) ips))) = []"
  by (induction ips) (simp_all add: renamed_silent)

lemma expired_all:
  "concat (map arrived (map (\<lambda>ip. LeaseExpired ip (row_at prev ip)) ips)) = []"
  "concat (map left_use (map (\<lambda>ip. LeaseExpired ip (row_at prev ip)) ips)) = ips"
  by (induction ips) simp_all

lemma diff_arrived: "concat (map arrived (diff_leases prev cur)) = sorted_minus cur prev"
  by (simp add: diff_leases_def Let_def pair_new_arrived renamed_all expired_all del: map_map)

lemma diff_left:
  "concat (map left_use (diff_leases prev cur)) =
     matched_of (joined prev cur) @ filter (\<lambda>ip. ip \<notin> set (matched_of (joined prev cur))) (sorted_minus prev cur)"
  by (simp add: diff_leases_def joined_def Let_def pair_new_left renamed_all expired_all del: map_map)

lemma matched_gone:
  assumes "distinct (ips_of prev)"
  shows "distinct (matched_of (joined prev cur)) \<and> set (matched_of (joined prev cur)) \<subseteq> set (sorted_minus prev cur)"
proof
  show "distinct (matched_of (joined prev cur))"
    unfolding joined_def
    by (rule distinct_matched) (auto simp: gone_by_mac_def distinct_sorted_minus assms)
  show "set (matched_of (joined prev cur)) \<subseteq> set (sorted_minus prev cur)"
  proof
    fix ip
    assume "ip \<in> set (matched_of (joined prev cur))"
    then obtain m where "ip \<in> set (gone_by_mac prev (sorted_minus prev cur) m)"
      unfolding joined_def matched_iff by (blast dest: in_set_takeD)
    then show "ip \<in> set (sorted_minus prev cur)" by (simp add: gone_by_mac_def)
  qed
qed

lemma mset_partition_by:
  "distinct ys \<Longrightarrow> distinct xs \<Longrightarrow> set ys \<subseteq> set xs \<Longrightarrow> mset ys + mset (filter (\<lambda>x. x \<notin> set ys) xs) = mset xs"
  by (subst mset_append [symmetric], rule set_eq_iff_mset_eq_distinct [THEN iffD1]) auto

lemma no_pair_missed:
  assumes "LeaseNew ip row \<in> set (diff_leases prev cur)" "LeaseExpired old r \<in> set (diff_leases prev cur)"
  shows "lr_mac row \<noteq> lr_mac r"
proof
  assume eq: "lr_mac row = lr_mac r"
  have new: "LeaseNew ip row \<in> set (joined prev cur)"
    using assms(1) by (auto simp: diff_leases_def joined_def renamed_def Let_def split: if_splits)
  have old: "old \<in> set (sorted_minus prev cur)" "old \<notin> set (matched_of (joined prev cur))" "r = row_at prev old"
    using assms(2) by (auto simp: diff_leases_def joined_def renamed_def Let_def dest: pair_new_events split: if_splits)
  let ?g = "gone_by_mac prev (sorted_minus prev cur)"
  have "old \<in> set (?g (lr_mac row))" using old(1,3) eq by (simp add: gone_by_mac_def)
  moreover have "length (?g (lr_mac row)) < length (filter (\<lambda>ip. mac_at cur ip = lr_mac row) (sorted_minus cur prev))"
    using new_when_none_left new unfolding joined_def by blast
  ultimately have "old \<in> set (take (length (filter (\<lambda>ip. mac_at cur ip = lr_mac row) (sorted_minus cur prev))) (?g (lr_mac row)))"
    by simp
  then show False using old(2) unfolding joined_def matched_iff by blast
qed

text \<open>
  C27. The events between two snapshots account for every difference exactly once: each address that is newly in
  use is in exactly one of the events for a new or a moved client, each address no longer in use in exactly one
  of the events for a moved client or an expired lease; a move joins two leases of the same hardware address;
  and no client is reported both as new and as expired - as many joined are found as there can be.
\<close>

theorem diff_accounts_for_all:
  assumes "distinct (ips_of prev)" "distinct (ips_of cur)"
  shows "mset (concat (map arrived (diff_leases prev cur))) = mset (filter (\<lambda>ip. ip \<notin> set (ips_of prev)) (ips_of cur)) \<and>
    mset (concat (map left_use (diff_leases prev cur))) = mset (filter (\<lambda>ip. ip \<notin> set (ips_of cur)) (ips_of prev)) \<and>
    (IpChanged ip old row \<in> set (diff_leases prev cur) \<longrightarrow> row = row_at cur ip \<and> mac_at prev old = mac_at cur ip) \<and>
    (LeaseNew ip row \<in> set (diff_leases prev cur) \<longrightarrow> LeaseExpired old r \<in> set (diff_leases prev cur) \<longrightarrow>
       lr_mac row \<noteq> lr_mac r)"
proof -
  have "mset (concat (map left_use (diff_leases prev cur))) = mset (sorted_minus prev cur)"
    unfolding diff_left mset_append
    by (rule mset_partition_by) (use matched_gone [OF assms(1), of cur] distinct_sorted_minus [OF assms(1)] in auto)
  moreover have "row = row_at cur ip \<and> mac_at prev old = mac_at cur ip"
    if "IpChanged ip old row \<in> set (diff_leases prev cur)"
  proof -
    have "IpChanged ip old row \<in> set (pair_new cur (sorted_minus cur prev) (gone_by_mac prev (sorted_minus prev cur)))"
      using that by (auto simp: diff_leases_def renamed_def Let_def split: if_splits)
    from pair_new_events [OF this] show ?thesis by (auto simp: gone_by_mac_def mac_at_def)
  qed
  ultimately show ?thesis using no_pair_missed by (auto simp: diff_arrived mset_sorted_minus)
qed

definition snap :: "(string \<times> string) list \<Rightarrow> snapshot" where
  "snap ls = map (\<lambda>(ip, mac). (ip, \<lparr>lr_mac = mac, lr_hostname = [], lr_subnet = JInt 1, lr_reserved = False\<rparr>)) ls"

lemma diff_accounts_for_all_witness:
  "mset (concat (map arrived (diff_leases (snap [(''a'', ''m''), (''b'', ''n'')]) (snap [(''c'', ''m''), (''b'', ''n''), (''d'', ''o'')])))) =
     mset (filter (\<lambda>ip. ip \<notin> set (ips_of (snap [(''a'', ''m''), (''b'', ''n'')]))) (ips_of (snap [(''c'', ''m''), (''b'', ''n''), (''d'', ''o'')])))
   \<and> concat (map arrived (diff_leases (snap [(''a'', ''m''), (''b'', ''n'')]) (snap [(''c'', ''m''), (''b'', ''n''), (''d'', ''o'')]))) = [''c'', ''d'']"
proof -
  have d: "distinct (ips_of (snap [(''a'', ''m''), (''b'', ''n'')]))" "distinct (ips_of (snap [(''c'', ''m''), (''b'', ''n''), (''d'', ''o'')]))"
    by code_simp+
  have e: "concat (map arrived (diff_leases (snap [(''a'', ''m''), (''b'', ''n'')]) (snap [(''c'', ''m''), (''b'', ''n''), (''d'', ''o'')]))) = [''c'', ''d'']"
    by code_simp
  show ?thesis using diff_accounts_for_all [OF d] e by blast
qed

section \<open>The counters of a sweep\<close>

definition exact :: "nat \<Rightarrow> sweep \<Rightarrow> bool" where
  "exact i sw =
     (sw_since sw = int (length (sw_open sw)) \<and> sw_updated sw = int (length (sw_stored sw) + length (sw_open sw)) \<and>
      sw_updated sw + sw_skipped sw + sw_failed sw = int i)"

lemma exact_count_row:
  assumes "sw_since sw + 1 = int (length (sw_open sw))" "sw_updated sw = int (length (sw_stored sw) + length (sw_open sw))"
    "sw_updated sw + sw_skipped sw + sw_failed sw = int i"
  shows "exact i (count_row sw)"
  using assms by (auto simp: exact_def count_row_def commit_open_def Let_def)

lemma sweep_rows_exact:
  assumes "exact i sw" "list_all (\<lambda>f. f \<noteq> RowFails \<and> f \<noteq> ConnectionLost) fates"
  shows "let r = sweep_rows i fates sw in
           sw_open r = [] \<and> sw_updated r = int (length (sw_stored r)) \<and>
           sw_updated r + sw_skipped r + sw_failed r = int (i + length fates)"
  using assms
proof (induction fates arbitrary: i sw)
  case Nil
  then show ?case by (simp add: exact_def commit_open_def Let_def)
next
  case (Cons f fates)
  let ?w = "sw\<lparr>sw_updated := sw_updated sw + 1, sw_open := sw_open sw @ [i]\<rparr>"
  let ?s = "sw\<lparr>sw_skipped := sw_skipped sw + 1\<rparr>"
    and ?r = "sw\<lparr>sw_updated := sw_updated sw - sw_since sw, sw_failed := sw_failed sw + (sw_since sw + 1),
               sw_since := 0, sw_open := []\<rparr>"
  have e: "exact (i + 1) ?s" "exact (i + 1) ?r" using Cons.prems(1) by (auto simp: exact_def)
  have w: "exact (i + 1) (count_row ?w)"
    by (rule exact_count_row) (use Cons.prems(1) in \<open>auto simp: exact_def\<close>)
  have rest: "list_all (\<lambda>f. f \<noteq> RowFails \<and> f \<noteq> ConnectionLost) fates" and f: "f \<noteq> RowFails" "f \<noteq> ConnectionLost"
    using Cons.prems(2) by simp_all
  note ih = Cons.IH [OF e(1) rest] Cons.IH [OF e(2) rest] Cons.IH [OF w rest]
  show ?case using ih f by (cases f) (simp_all add: Let_def)
qed



end
