(* ===== verification/SecondFactor.thy ===== *)
theory SecondFactor
  imports PyConv
begin

text \<open>
  The second factor (\<open>src/jen/services/mfa.py\<close>): who needs one, backup codes, one-time codes and trusted
  devices. SHA-256, the decryption of a secret and the check of a one-time code against a secret are parameters;
  random values are inputs. Time is in seconds.
\<close>

section \<open>Who needs a second factor\<close>

definition user_needs_mfa :: "string \<Rightarrow> string \<Rightarrow> bool" where
  "user_needs_mfa mode role =
     (if mode = ''off'' then False
      else if mode = ''optional'' then False
      else if mode = ''required_admins'' then role = ''superadmin'' \<or> role = ''admin''
      else mode = ''required_all'')"

definition user_factors :: "bool \<Rightarrow> nat \<Rightarrow> nat \<Rightarrow> bool \<times> bool" where
  "user_factors ok totp passkeys = (if ok then (totp > 0, passkeys > 0) else (False, False))"

definition user_has_mfa :: "bool \<Rightarrow> nat \<Rightarrow> nat \<Rightarrow> bool" where
  "user_has_mfa ok totp passkeys = (case user_factors ok totp passkeys of (t, p) \<Rightarrow> t \<or> p)"

section \<open>Backup codes\<close>

definition upper_char :: "char \<Rightarrow> char" where
  "upper_char c = (if 97 \<le> ord_of c \<and> ord_of c \<le> 122 then char_of (ord_of c - 32 :: nat) else c)"

text \<open>What is left of an entered code, as \<open>XXXXXXXX-XXXXXXXX\<close>.\<close>

definition canonical_backup_code :: "string \<Rightarrow> string option" where
  "canonical_backup_code code =
     (let hexonly = map upper_char (filter is_hex code) in
      if length hexonly \<noteq> 16 then None else Some (take 8 hexonly @ ''-'' @ drop 8 hexonly))"

record backup_row =
  bk_user :: int
  bk_hash :: string
  bk_used :: bool

text \<open>Eight new codes (the input) replace those of the user.\<close>

definition generate_backup_codes ::
  "(string \<Rightarrow> string) \<Rightarrow> bool \<Rightarrow> int \<Rightarrow> string list \<Rightarrow> backup_row list \<Rightarrow> backup_row list" where
  "generate_backup_codes sha ok uid codes rows =
     (if ok then filter (\<lambda>r. bk_user r \<noteq> uid) rows @ map (\<lambda>c. \<lparr>bk_user = uid, bk_hash = sha c, bk_used = False\<rparr>) codes
      else rows)"

definition redeems :: "int \<Rightarrow> string \<Rightarrow> backup_row \<Rightarrow> bool" where
  "redeems uid h r = (bk_user r = uid \<and> bk_hash r = h \<and> \<not> bk_used r)"

text \<open>One atomic update of the rows it redeems; it counts when it changed exactly one.\<close>

definition verify_backup_code ::
  "(string \<Rightarrow> string) \<Rightarrow> bool \<Rightarrow> int \<Rightarrow> string \<Rightarrow> backup_row list \<Rightarrow> backup_row list \<times> bool" where
  "verify_backup_code sha ok uid code rows =
     (case canonical_backup_code code of
        None \<Rightarrow> (rows, False)
      | Some canon \<Rightarrow>
          if ok then
            (map (\<lambda>r. if redeems uid (sha canon) r then r\<lparr>bk_used := True\<rparr> else r) rows,
             length (filter (redeems uid (sha canon)) rows) = 1)
          else (rows, False))"

section \<open>One-time codes\<close>

record totp_method =
  tm_id :: int
  tm_secret :: string
  tm_last_used :: "int option"

text \<open>
  The first enabled method whose secret can be read and accepts the code. The time of the use is stored, the
  code is not.
\<close>

definition accepts_code :: "(string \<Rightarrow> string option) \<Rightarrow> (string \<Rightarrow> int \<Rightarrow> string \<Rightarrow> bool) \<Rightarrow> int \<Rightarrow> string \<Rightarrow> totp_method \<Rightarrow> bool" where
  "accepts_code decrypt totp now code m =
     (case decrypt (tm_secret m) of None \<Rightarrow> False | Some secret \<Rightarrow> totp secret now (strip code))"

definition verify_totp ::
  "(string \<Rightarrow> string option) \<Rightarrow> (string \<Rightarrow> int \<Rightarrow> string \<Rightarrow> bool) \<Rightarrow> int \<Rightarrow> string \<Rightarrow> totp_method list \<Rightarrow> totp_method list \<times> bool" where
  "verify_totp decrypt totp now code methods =
     (case find (accepts_code decrypt totp now code) methods of
        None \<Rightarrow> (methods, False)
      | Some m \<Rightarrow> (map (\<lambda>x. if tm_id x = tm_id m then x\<lparr>tm_last_used := Some now\<rparr> else x) methods, True))"

section \<open>Trusted devices\<close>

record device_row =
  dv_user :: int
  dv_hash :: string
  dv_expires :: "int option"

text \<open>The days: nothing, the word \<open>forever\<close>, or a number as text; a text that is no number raises.\<close>

definition create_trusted_device_token ::
  "(string \<Rightarrow> string) \<Rightarrow> bool \<Rightarrow> int \<Rightarrow> int \<Rightarrow> string \<Rightarrow> string \<Rightarrow> device_row list \<Rightarrow> device_row list res" where
  "create_trusted_device_token sha ok now uid days token rows =
     (if days = [] \<or> days = ''forever'' then
        Inr (if ok then rows @ [\<lparr>dv_user = uid, dv_hash = sha token, dv_expires = None\<rparr>] else rows)
      else rbind (py_int days) (\<lambda>d.
        Inr (if ok then rows @ [\<lparr>dv_user = uid, dv_hash = sha token,
                                 dv_expires = (if d > 0 then Some (now + d * 86400) else None)\<rparr>] else rows)))"

definition is_trusted_device ::
  "(string \<Rightarrow> string) \<Rightarrow> bool \<Rightarrow> int \<Rightarrow> int \<Rightarrow> string \<Rightarrow> device_row list \<Rightarrow> bool" where
  "is_trusted_device sha ok now uid token rows =
     (token \<noteq> [] \<and> ok \<and>
      list_ex (\<lambda>r. dv_user r = uid \<and> dv_hash r = sha token \<and> (case dv_expires r of None \<Rightarrow> True | Some e \<Rightarrow> e > now)) rows)"

section \<open>Backup codes are used once\<close>

text \<open>A run of entered codes - who, what, and whether the database answers - and the accepted ones.\<close>

fun redeem_run ::
  "(string \<Rightarrow> string) \<Rightarrow> (bool \<times> int \<times> string) list \<Rightarrow> backup_row list \<Rightarrow> (int \<times> string) list" where
  "redeem_run sha [] rows = []"
| "redeem_run sha ((ok, uid, code) # es) rows =
     (case verify_backup_code sha ok uid code rows of
        (rows', True) \<Rightarrow> (uid, the (canonical_backup_code code)) # redeem_run sha es rows'
      | (rows', False) \<Rightarrow> redeem_run sha es rows')"

definition unused :: "int \<Rightarrow> string \<Rightarrow> backup_row list \<Rightarrow> nat" where
  "unused uid h rows = length (filter (redeems uid h) rows)"

lemma redeems_marked: "\<not> redeems u h (r\<lparr>bk_used := True\<rparr>)"
  by (simp add: redeems_def)

lemma redeems_both: "redeems u h r \<Longrightarrow> redeems uid h' r \<Longrightarrow> u = uid \<and> h = h'"
  by (simp add: redeems_def)

lemma redeem_unused:
  "filter (redeems u h) (map (\<lambda>r. if redeems uid h' r then r\<lparr>bk_used := True\<rparr> else r) rows) =
     (if u = uid \<and> h = h' then [] else filter (redeems u h) rows)"
  by (induction rows) (auto simp: redeems_marked dest: redeems_both)

lemma verify_unused:
  assumes "verify_backup_code sha ok uid code rows = (rows', b)"
  shows "(b \<longrightarrow> (\<exists>c. canonical_backup_code code = Some c \<and> unused uid (sha c) rows = 1 \<and> unused uid (sha c) rows' = 0)) \<and>
         unused u h rows' \<le> unused u h rows"
  using assms
  by (auto simp: verify_backup_code_def unused_def redeem_unused split: option.splits if_splits)

lemma redeem_run_bound:
  "length (filter (\<lambda>(u, c). u = uid \<and> sha c = h) (redeem_run sha es rows)) \<le> unused uid h rows"
proof (induction es arbitrary: rows)
  case (Cons e es)
  obtain ok u code where e: "e = (ok, u, code)" by (cases e)
  obtain rows' b where v: "verify_backup_code sha ok u code rows = (rows', b)"
    by (cases "verify_backup_code sha ok u code rows")
  show ?case
  proof (cases "b \<and> u = uid \<and> sha (the (canonical_backup_code code)) = h")
    case True
    then have "unused uid h rows = 1 \<and> unused uid h rows' = 0"
      using verify_unused [OF v, of u h] by (auto simp del: One_nat_def)
    then show ?thesis using Cons.IH [of rows'] e v True by simp
  next
    case False
    have "unused uid h rows' \<le> unused uid h rows" using verify_unused [OF v] by simp
    then show ?thesis using Cons.IH [of rows'] e v False by (cases b) auto
  qed
qed simp

lemma redeemed_was_unused:
  "(u, c) \<in> set (redeem_run sha es rows) \<Longrightarrow> unused u (sha c) rows > 0"
proof (induction es arbitrary: rows)
  case (Cons e es)
  obtain ok w code where e: "e = (ok, w, code)" by (cases e)
  obtain rows' b where v: "verify_backup_code sha ok w code rows = (rows', b)"
    by (cases "verify_backup_code sha ok w code rows")
  show ?case
    using Cons.prems Cons.IH [of rows'] e v verify_unused [OF v, of u "sha c"] verify_unused [OF v, of w]
    by (cases b) (auto dest: less_le_trans)
qed simp

lemma unused_generated:
  "unused u (sha c) (generate_backup_codes sha True uid codes rows) =
     (if u = uid then length (filter (\<lambda>x. sha x = sha c) codes) else unused u (sha c) rows)"
proof -
  have "filter (redeems u h) (map (\<lambda>x. \<lparr>bk_user = uid, bk_hash = sha x, bk_used = False\<rparr>) codes) =
      map (\<lambda>x. \<lparr>bk_user = uid, bk_hash = sha x, bk_used = False\<rparr>) (if u = uid then filter (\<lambda>x. sha x = h) codes else [])" for h
    by (induction codes) (auto simp: redeems_def)
  moreover have "filter (redeems u h) (filter (\<lambda>r. bk_user r \<noteq> uid) rows) = (if u = uid then [] else filter (redeems u h) rows)" for h
    unfolding filter_filter by (auto simp: filter_empty_conv redeems_def intro!: filter_cong)
  ultimately show ?thesis by (simp add: unused_def generate_backup_codes_def)
qed

lemma distinct_of_counts:
  "(\<And>c. length (filter (\<lambda>x. x = c) xs) \<le> 1) \<Longrightarrow> distinct xs"
proof (induction xs)
  case (Cons x xs)
  have "filter (\<lambda>y. y = x) xs = []" using Cons.prems [of x] by simp
  then have "x \<notin> set xs" by (auto simp: filter_empty_conv)
  moreover have "distinct xs"
  proof (rule Cons.IH)
    fix c
    show "length (filter (\<lambda>x. x = c) xs) \<le> 1" using Cons.prems [of c] by (auto split: if_splits)
  qed
  ultimately show ?case by simp
qed simp

text \<open>
  C29. A backup code works once, and only for its owner. After new codes were made for a user, in any run of
  entered codes of any users, written any way, the codes accepted for that user are among the codes made and no
  code is accepted twice - at most as many as were made - and whatever codes the user had before are accepted
  no more.
\<close>

theorem backup_codes_single_use:
  assumes "inj_on sha (set codes \<union> {c. \<exists>s. canonical_backup_code s = Some c})" "distinct codes"
    "\<And>c. c \<in> set codes \<Longrightarrow> canonical_backup_code c = Some c"
  shows "(let taken = map snd (filter (\<lambda>(u, c). u = uid) (redeem_run sha es (generate_backup_codes sha True uid codes rows)))
          in distinct taken \<and> set taken \<subseteq> set codes \<and> length taken \<le> length codes)"
proof -
  let ?rows = "generate_backup_codes sha True uid codes rows"
  let ?run = "redeem_run sha es ?rows"
  let ?taken = "map snd (filter (\<lambda>(u, c). u = uid) ?run)"
  have canon: "\<exists>s. canonical_backup_code s = Some c" if "(u, c) \<in> set (redeem_run sha es rs)" for u c rs
    using that
  proof (induction es arbitrary: rs)
    case (Cons e es)
    then show ?case
      by (cases e) (auto simp: verify_backup_code_def split: prod.splits bool.splits option.splits if_splits)
  qed simp
  have same: "sha x = sha c \<longleftrightarrow> x = c" if "x \<in> set codes" "\<exists>s. canonical_backup_code s = Some c" for x c
    using that inj_on_eq_iff [OF assms(1)] by auto
  have made: "c \<in> set codes" if "(uid, c) \<in> set ?run" for c
  proof -
    have "length (filter (\<lambda>x. sha x = sha c) codes) > 0"
      using redeemed_was_unused [OF that] by (simp add: unused_generated)
    then obtain x where "x \<in> set codes" "sha x = sha c" by (auto simp: filter_empty_conv)
    then show ?thesis using same canon that by blast
  qed
  have "length (filter (\<lambda>x. x = c) ?taken) \<le> 1" for c
  proof (cases "c \<in> set codes")
    case False
    then have "filter (\<lambda>x. x = c) ?taken = []" using made by (auto simp: filter_empty_conv)
    then show ?thesis by simp
  next
    case True
    have "length (filter (\<lambda>x. x = c) ?taken) = length (filter (\<lambda>p. snd p = c \<and> fst p = uid) ?run)"
      by (simp add: filter_map o_def case_prod_beta conj_commute)
    also have "\<dots> \<le> length (filter (\<lambda>(u, d). u = uid \<and> sha d = sha c) ?run)"
      by (rule length_filter_mono) auto
    also have "\<dots> \<le> unused uid (sha c) ?rows" by (rule redeem_run_bound)
    also have "\<dots> = length (filter (\<lambda>x. x = c) codes)"
      using same assms(3) True by (auto simp: unused_generated intro!: arg_cong [where f = length] filter_cong)
    also have "\<dots> \<le> 1" using assms(2) True by (simp add: distinct_length_filter)
    finally show ?thesis .
  qed
  then have d: "distinct ?taken" by (rule distinct_of_counts)
  moreover have s: "set ?taken \<subseteq> set codes" using made by auto
  ultimately have "length ?taken \<le> length codes"
    by (metis List.finite_set assms(2) card_mono distinct_card)
  then show ?thesis using d s by (simp add: Let_def)
qed

definition demo_codes :: "string list" where
  "demo_codes = [''01234567-89ABCDEF'', ''FEDCBA98-76543210'']"

text \<open>Entered without the dash and in lower case, then again, then by another user.\<close>

definition demo_entries :: "(bool \<times> int \<times> string) list" where
  "demo_entries = [(True, 7, ''0123456789abcdef''), (True, 7, ''01234567-89ABCDEF''), (True, 8, ''FEDCBA98-76543210'')]"

lemma backup_codes_single_use_witness:
  "distinct (map snd (filter (\<lambda>(u, c). u = 7) (redeem_run (\<lambda>s. s) demo_entries (generate_backup_codes (\<lambda>s. s) True 7 demo_codes []))))
   \<and> redeem_run (\<lambda>s. s) demo_entries (generate_backup_codes (\<lambda>s. s) True 7 demo_codes []) = [(7, ''01234567-89ABCDEF'')]"
proof -
  have "inj_on (\<lambda>s. s) (set demo_codes \<union> {c. \<exists>s. canonical_backup_code s = Some c})" by (simp add: inj_on_def)
  moreover have "distinct demo_codes" by code_simp
  moreover have "canonical_backup_code c = Some c" if "c \<in> set demo_codes" for c
  proof -
    have "list_all (\<lambda>c. canonical_backup_code c = Some c) demo_codes" by code_simp
    then show ?thesis using that by (simp add: list_all_iff)
  qed
  ultimately have "let taken = map snd (filter (\<lambda>(u, c). u = 7) (redeem_run (\<lambda>s. s) demo_entries (generate_backup_codes (\<lambda>s. s) True 7 demo_codes [])))
      in distinct taken \<and> set taken \<subseteq> set demo_codes \<and> length taken \<le> length demo_codes"
    by (rule backup_codes_single_use)
  moreover have "redeem_run (\<lambda>s. s) demo_entries (generate_backup_codes (\<lambda>s. s) True 7 demo_codes []) = [(7, ''01234567-89ABCDEF'')]"
    by code_simp
  ultimately show ?thesis by (simp add: Let_def)
qed

section \<open>A one-time code can be used again\<close>

text \<open>
  Nothing of an accepted one-time code is kept: entered again while it is still accepted by the check, it is
  accepted again.
\<close>

lemma totp_code_replays:
  assumes "verify_totp decrypt totp now code methods = (methods', True)"
    and "\<And>secret. totp secret now (strip code) \<Longrightarrow> totp secret later (strip code)"
  shows "snd (verify_totp decrypt totp later code methods')"
proof -
  obtain m where m: "find (accepts_code decrypt totp now code) methods = Some m"
    and ms: "methods' = map (\<lambda>x. if tm_id x = tm_id m then x\<lparr>tm_last_used := Some now\<rparr> else x) methods"
    using assms(1) by (auto simp: verify_totp_def split: option.splits)
  have "m \<in> set methods" "accepts_code decrypt totp now code m" using m by (auto simp: find_Some_iff)
  then have "accepts_code decrypt totp later code (m\<lparr>tm_last_used := Some now\<rparr>)" "m\<lparr>tm_last_used := Some now\<rparr> \<in> set methods'"
    using ms assms(2) by (auto simp: accepts_code_def image_iff split: option.splits)
  then have "find (accepts_code decrypt totp later code) methods' \<noteq> None" by (auto simp: find_None_iff)
  then show ?thesis by (auto simp: verify_totp_def split: option.split)
qed

section \<open>Trusted devices\<close>

text \<open>
  A device is trusted from the moment it is remembered until its time is up and not a second longer, for
  its own user only, and for ever when no time was asked for; a text that is no number of days makes no device.
\<close>

theorem trusted_until_expiry:
  assumes "create_trusted_device_token sha True now uid days token rows = Inr rows'" "token \<noteq> []"
    "list_all (\<lambda>r. dv_hash r \<noteq> sha token) rows"
  shows "is_trusted_device sha True t u token rows' \<longleftrightarrow>
           u = uid \<and> (days = [] \<or> days = ''forever'' \<or> (\<exists>d. py_int days = Inr d \<and> (d \<le> 0 \<or> t < now + d * 86400)))"
  using assms
  by (auto simp: create_trusted_device_token_def is_trusted_device_def list_ex_iff list_all_iff res_simps split: if_splits)

lemma trusted_until_expiry_witness:
  "is_trusted_device (\<lambda>s. s) True 86399 7 ''tok'' [\<lparr>dv_user = 7, dv_hash = ''tok'', dv_expires = Some 86400\<rparr>] \<and>
   \<not> is_trusted_device (\<lambda>s. s) True 86400 7 ''tok'' [\<lparr>dv_user = 7, dv_hash = ''tok'', dv_expires = Some 86400\<rparr>]"
proof -
  have c: "create_trusted_device_token (\<lambda>s. s) True 0 7 ''1'' ''tok'' [] = Inr [\<lparr>dv_user = 7, dv_hash = ''tok'', dv_expires = Some 86400\<rparr>]"
    by code_simp
  have d: "py_int ''1'' = Inr 1" by code_simp
  show ?thesis
    using trusted_until_expiry [OF c, of 86399 7] trusted_until_expiry [OF c, of 86400 7] d by simp
qed

end
