(* ===== verification/ImportPlan.thy ===== *)
theory ImportPlan
  imports KeaClasses OptionCatalog PyConv
begin

text \<open>
  The plan an import is reviewed as, and its mapping onto Kea: \<open>src/jen/services/win_dhcp_import.py\<close> from
  the parsed scope onwards (the dhcpd.conf importer produces the same plan). Options become option-data, a
  policy becomes a client class, a scope becomes a subnet whose pools are its range without the exclusions,
  with the ranges of the policies carved out.

  A warning is its kind; the wording and the place it names are not modelled. A dict from option codes is the
  list of its entries. An address is a number below \<open>2 ^ 32\<close>.
\<close>

section \<open>The plan\<close>

type_synonym options = "(int \<times> string) list"

record condition =
  cn_type :: string
  cn_operator :: string
  cn_value :: string

record policy =
  po_name :: string
  po_enabled :: bool
  po_order :: int
  po_any :: bool
  po_conditions :: "condition list"
  po_ranges :: "(string \<times> string) list"
  po_options :: options
  po_rules :: "rule list"
  po_negate :: bool

record reservation =
  rv_mac :: string
  rv_ip :: string
  rv_hostname :: string
  rv_options :: options

record scope =
  sc_id :: string
  sc_mask :: string
  sc_name :: string
  sc_state :: string
  sc_start :: string
  sc_end :: string
  sc_lease :: int
  sc_exclusions :: "(string \<times> string) list"
  sc_options :: options
  sc_reservations :: "reservation list"
  sc_policies :: "policy list"
  sc_network :: "string option"
  sc_next_server :: string
  sc_boot_file :: string

datatype import_warning =
    Both249And121 | Converted249 | DuplicateOption int | Option81 | NotInCatalog int | InvalidOption int
  | RouteHexOdd | RouteMask nat | RouteTruncated
  | PolicyDisabled string | NoConditions string | NotEqualsMany string | MixedOperators string
  | ConditionUnsupported string | ExpressionRefused string | NameSanitized string
  | NoPoolsLeft | RangeNotInPool string | LeaseDiffers int | TimerNotANumber int

section \<open>Addresses\<close>

definition ip2int :: "string \<Rightarrow> nat res" where
  "ip2int s = (case ip_of_string s of Some n \<Rightarrow> Inr n | None \<Rightarrow> Inl ValueError)"

definition int2ip :: "nat \<Rightarrow> string" where
  "int2ip n = join_with ''.'' (map show_nat [n div 2 ^ 24, n div 2 ^ 16 mod 256, n div 2 ^ 8 mod 256, n mod 256])"

section \<open>Option values\<close>

text \<open>
  RFC 3442 routes as bytes: the length of the mask, the significant bytes of the destination, the router.
\<close>

definition octets_text :: "nat list \<Rightarrow> string" where
  "octets_text bs = join_with ''.'' (map show_nat bs)"

function decode_routes :: "nat list \<Rightarrow> string list \<times> import_warning list" where
  "decode_routes [] = ([], [])"
| "decode_routes (m # raw) =
     (if m > 32 then ([], [RouteMask m])
      else let needed = (m + 7) div 8 in
        if needed + 4 > length raw then ([], [RouteTruncated])
        else (case decode_routes (drop (needed + 4) raw) of
                (routes, ws) \<Rightarrow>
                  ((octets_text (take needed raw @ replicate (4 - needed) 0) @ ''/'' @ show_nat m @ '' - '' @
                    octets_text (take 4 (drop needed raw))) # routes, ws)))"
  by pat_completeness auto
termination by (relation "measure length") auto

text \<open>\<open>bytes.fromhex\<close> cannot fail on what is left.\<close>

definition decode_classless_routes_hex :: "string \<Rightarrow> string \<times> import_warning list" where
  "decode_classless_routes_hex digits =
     (let body = filter is_hex digits;
          ws = (if odd (length body) then [RouteHexOdd] else []);
          body = (if odd (length body) then butlast body else body)
      in case from_hex body of
           Inl e \<Rightarrow> ([], ws)
         | Inr raw \<Rightarrow> (case decode_routes (map ord_of raw) of (routes, ws2) \<Rightarrow> (join_with '', '' routes, ws @ ws2)))"

fun merge_options :: "options \<Rightarrow> options \<Rightarrow> options \<Rightarrow> options \<times> import_warning list" where
  "merge_options given [] merged = (merged, [])"
| "merge_options given ((code, raw) # rest) merged =
     (if code = 249 \<and> 121 \<in> fst ` set given then
        (case merge_options given rest merged of (m, ws) \<Rightarrow> (m, Both249And121 # ws))
      else
        let real_code = (if code = 249 then 121 else code);
            ws0 = (if code = 249 then [Converted249] else [])
        in if real_code \<in> fst ` set merged then
             (case merge_options given rest merged of (m, ws) \<Rightarrow> (m, ws0 @ DuplicateOption real_code # ws))
           else (case merge_options given rest (merged @ [(real_code, raw)]) of (m, ws) \<Rightarrow> (m, ws0 @ ws)))"

definition timer_codes :: "(int \<times> string) list" where
  "timer_codes = [(51, ''valid-lifetime''), (58, ''renew-timer''), (59, ''rebind-timer'')]"

definition name_of_code :: "int \<Rightarrow> string" where
  "name_of_code code = (case find (\<lambda>e. fst e = code) v4_options of Some (c, nm, t, m) \<Rightarrow> nm | None \<Rightarrow> [])"

definition imported_entry :: "int \<Rightarrow> string \<Rightarrow> string \<Rightarrow> json" where
  "imported_entry code opt_type data =
     JObj [(''name'', JStr (name_of_code code)), (''code'', JInt code), (''space'', JStr ''dhcp4''),
           (''csv-format'', JBool True), (''data'', JStr (normalize opt_type data))]"

text \<open>One option: an entry, a timer, or only warnings.\<close>

definition option_to_kea :: "int \<Rightarrow> string \<Rightarrow> json list \<times> (string \<times> string) list \<times> import_warning list" where
  "option_to_kea code raw =
     (if code = 81 then ([], [], [Option81])
      else case map_of timer_codes code of
        Some t \<Rightarrow> ([], [(t, raw)], [])
      | None \<Rightarrow>
        (case type_for code of
           None \<Rightarrow> ([], [], [NotInCatalog code])
         | Some opt_type \<Rightarrow>
             (case (if opt_type = ''classless-routes'' then decode_classless_routes_hex raw else (raw, [])) of
                (data, ws) \<Rightarrow>
                  if opt_type = ''classless-routes'' \<and> data = [] then ([], [], ws)
                  else if validate opt_type data \<noteq> None then ([], [], ws @ [InvalidOption code])
                  else ([imported_entry code opt_type data], [], ws))))"

definition options_to_kea :: "options \<Rightarrow> json list \<times> (string \<times> string) list \<times> import_warning list" where
  "options_to_kea given =
     (case merge_options given given [] of
        (merged, ws0) \<Rightarrow>
          let parts = map (\<lambda>(c, raw). option_to_kea c raw) merged
          in (concat (map fst parts), concat (map (fst \<circ> snd) parts), ws0 @ concat (map (snd \<circ> snd) parts)))"

section \<open>Pools\<close>

type_synonym segments = "(nat \<times> nat) list"

text \<open>A segment without the exclusion \<open>es - ee\<close>.\<close>

definition cut_segment :: "nat \<Rightarrow> nat \<Rightarrow> nat \<times> nat \<Rightarrow> segments" where
  "cut_segment es ee seg =
     (case seg of (s, e) \<Rightarrow>
        if ee < s \<or> es > e then [(s, e)]
        else (if es > s then [(s, es - 1)] else []) @ (if ee < e then [(ee + 1, e)] else []))"

fun cut_all :: "(string \<times> string) list \<Rightarrow> segments \<Rightarrow> segments res" where
  "cut_all [] segs = Inr segs"
| "cut_all ((a, b) # excs) segs =
     (if a = [] \<or> b = [] then cut_all excs segs
      else rbind (ip2int a) (\<lambda>es. rbind (ip2int b) (\<lambda>ee.
        cut_all excs (concat (map (cut_segment es ee) segs)))))"

definition split_pool_by_exclusions :: "string \<Rightarrow> string \<Rightarrow> (string \<times> string) list \<Rightarrow> segments res" where
  "split_pool_by_exclusions a b excs =
     rbind (ip2int a) (\<lambda>s. rbind (ip2int b) (\<lambda>e.
     rbind (cut_all excs [(s, e)]) (\<lambda>segs. Inr (filter (\<lambda>(s, e). s \<le> e) segs))))"

definition carve_pool :: "segments \<Rightarrow> nat \<Rightarrow> nat \<Rightarrow> segments \<times> bool" where
  "carve_pool segs want_start want_end =
     (case find_index (\<lambda>(s, e). s \<le> want_start \<and> want_end \<le> e) segs of
        None \<Rightarrow> (segs, False)
      | Some i \<Rightarrow>
          (case segs ! i of (s, e) \<Rightarrow>
             (remove_nth i segs @ (if s < want_start then [(s, want_start - 1)] else []) @
              (if want_end < e then [(want_end + 1, e)] else []), True)))"

section \<open>Policies\<close>

definition condition_fields :: "(string \<times> string) list" where
  "condition_fields = [(''vendorclass'', ''vendor_class''), (''userclass'', ''user_class''),
     (''clientid'', ''client_id''), (''relayagentinformation'', ''circuit_id'')]"

definition rstrip_star :: "string \<Rightarrow> string" where
  "rstrip_star s = rev (dropWhile (\<lambda>c. c = CHR ''*'') (rev s))"

definition condition_to_rule :: "condition \<Rightarrow> (rule, import_warning) sum" where
  "condition_to_rule c =
     (let ctype = lower (strip (cn_type c)); value = cn_value c in
      if ctype = ''macaddress'' then
        (let stripped = rstrip_star value;
             hex_only = filter (\<lambda>x. x \<noteq> CHR '':'' \<and> x \<noteq> CHR ''-'') stripped;
             fld = (if value \<noteq> [] \<and> last value = CHR ''*'' \<and> py_len hex_only = 6 then ''mac_oui'' else ''mac'')
         in Inl \<lparr>r_field = fld, r_op = ''equals'', r_value = stripped\<rparr>)
      else case map_of condition_fields ctype of
             None \<Rightarrow> Inr (ConditionUnsupported (cn_type c))
           | Some fld \<Rightarrow> Inl \<lparr>r_field = fld, r_op = ''equals'', r_value = value\<rparr>)"

fun conditions_to_rules :: "condition list \<Rightarrow> (rule list, import_warning) sum" where
  "conditions_to_rules [] = Inl []"
| "conditions_to_rules (c # cs) =
     (case condition_to_rule c of
        Inr w \<Rightarrow> Inr w
      | Inl r \<Rightarrow> (case conditions_to_rules cs of Inr w \<Rightarrow> Inr w | Inl rs \<Rightarrow> Inl (r # rs)))"

definition is_letter :: "char \<Rightarrow> bool" where
  "is_letter c = ((65 \<le> ord_of c \<and> ord_of c \<le> 90) \<or> (97 \<le> ord_of c \<and> ord_of c \<le> 122))"

definition class_char :: "char \<Rightarrow> bool" where
  "class_char c = (is_letter c \<or> is_digit c \<or> c = CHR ''_'' \<or> c = CHR ''-'')"

definition valid_class_name :: "string \<Rightarrow> bool" where
  "valid_class_name value =
     (let s = strip value in s \<noteq> [] \<and> is_letter (hd s) \<and> list_all class_char s \<and> length s \<le> 64)"

text \<open>A character that is not allowed, whatever its number of bytes, becomes one underscore.\<close>

definition sanitize_class_name :: "string \<Rightarrow> string" where
  "sanitize_class_name name =
     (let s = map (\<lambda>c. if class_char c then c else CHR ''_'') (filter (\<lambda>c. ord_of c div 64 \<noteq> 2) name);
          s = (if s = [] \<or> \<not> is_letter (hd s) then ''policy_'' @ s else s)
      in take 64 s)"

definition policy_rules :: "policy \<Rightarrow> (rule list \<times> bool, import_warning) sum" where
  "policy_rules po =
     (if po_rules po \<noteq> [] then Inl (po_rules po, po_negate po)
      else if po_conditions po = [] then Inr (NoConditions (po_name po))
      else
        let op = (\<lambda>c. lower (strip (if cn_operator c = [] then ''Equals'' else cn_operator c)));
            negates = list_all (\<lambda>c. op c = ''notequals'') (po_conditions po)
        in if negates \<and> length (po_conditions po) > 1 then Inr (NotEqualsMany (po_name po))
           else if \<not> negates \<and> list_ex (\<lambda>c. op c = ''notequals'') (po_conditions po) then Inr (MixedOperators (po_name po))
           else (case conditions_to_rules (po_conditions po) of Inr w \<Rightarrow> Inr w | Inl rs \<Rightarrow> Inl (rs, negates)))"

definition policy_to_class :: "policy \<Rightarrow> json option \<times> import_warning list" where
  "policy_to_class po =
     (if \<not> po_enabled po then (None, [PolicyDisabled (po_name po)])
      else case policy_rules po of
        Inr w \<Rightarrow> (None, [w])
      | Inl (rules, negate) \<Rightarrow>
          (case build_expression rules (if po_any po then ''any'' else ''all'') negate of
             Inl e \<Rightarrow> (None, [ExpressionRefused (po_name po)])
           | Inr expr \<Rightarrow>
               let name = (if valid_class_name (po_name po) then po_name po else sanitize_class_name (po_name po));
                   ws1 = (if valid_class_name (po_name po) then [] else [NameSanitized name])
               in case (if po_options po = [] then ([], [], []) else options_to_kea (po_options po)) of
                    (entries, timers, ws2) \<Rightarrow>
                      (Some (JObj ([(''name'', JStr name), (''test'', JStr expr)] @
                                   (if entries \<noteq> [] then [(''option-data'', JList entries)] else []))),
                       ws1 @ ws2)))"

section \<open>A scope becomes a subnet\<close>

text \<open>The ones of \<open>f"{o:08b}"\<close>.\<close>

fun bits_set :: "nat \<Rightarrow> nat" where
  "bits_set n = (if n = 0 then 0 else n mod 2 + bits_set (n div 2))"

declare bits_set.simps [simp del]

definition prefix_len :: "string \<Rightarrow> nat" where
  "prefix_len m =
     (case collect py_int (split_on CHR ''.'' m) of
        Inr octets \<Rightarrow> sum_list (map (\<lambda>i. bits_set (nat (abs i))) octets)
      | Inl e \<Rightarrow> 24)"

text \<open>What the loop over the policies has built: the segments left, the carved pools, the classes and guards.\<close>

record mapping_state =
  mp_segments :: segments
  mp_carved :: "(nat \<times> nat) list"
  mp_classes :: "json list"
  mp_pool_guards :: "(string \<times> string) list"
  mp_subnet_guards :: "string list"
  mp_warnings :: "import_warning list"

definition pool_string :: "nat \<times> nat \<Rightarrow> string" where
  "pool_string p = int2ip (fst p) @ '' - '' @ int2ip (snd p)"

text \<open>The loop over the ranges of a policy stops at the first one that is carved.\<close>

fun carve_ranges :: "string \<Rightarrow> (string \<times> string) list \<Rightarrow> segments \<Rightarrow> (segments \<times> (nat \<times> nat) option \<times> import_warning list) res" where
  "carve_ranges name [] segs = Inr (segs, None, [])"
| "carve_ranges name ((a, b) # rs) segs =
     (if a = [] \<or> b = [] then carve_ranges name rs segs
      else rbind (ip2int a) (\<lambda>s. rbind (ip2int b) (\<lambda>e.
        case carve_pool segs s e of
          (segs', True) \<Rightarrow> Inr (segs', Some (s, e), [])
        | (segs', False) \<Rightarrow>
            rbind (carve_ranges name rs segs') (\<lambda>(sg, c, ws). Inr (sg, c, RangeNotInPool name # ws)))))"

definition map_policy :: "policy \<Rightarrow> mapping_state \<Rightarrow> mapping_state res" where
  "map_policy po mp =
     (case policy_to_class po of
        (None, ws) \<Rightarrow> Inr (mp\<lparr>mp_warnings := mp_warnings mp @ ws\<rparr>)
      | (Some cls, ws) \<Rightarrow>
          rbind (carve_ranges (po_name po) (po_ranges po) (mp_segments mp)) (\<lambda>(segs, carved, ws2).
            let mp = mp\<lparr>mp_segments := segs, mp_classes := mp_classes mp @ [cls], mp_warnings := mp_warnings mp @ ws @ ws2\<rparr>;
                name = (case jget cls ''name'' of JStr s \<Rightarrow> s | _ \<Rightarrow> [])
            in Inr (case carved of
                      Some c \<Rightarrow> mp\<lparr>mp_carved := mp_carved mp @ [c],
                                   mp_pool_guards := mp_pool_guards mp @ [(pool_string c, name)]\<rparr>
                    | None \<Rightarrow> mp\<lparr>mp_subnet_guards := mp_subnet_guards mp @ [name]\<rparr>)))"

fun map_policies :: "policy list \<Rightarrow> mapping_state \<Rightarrow> mapping_state res" where
  "map_policies [] mp = Inr mp"
| "map_policies (po # pos) mp = rbind (map_policy po mp) (map_policies pos)"

definition policy_le :: "policy \<Rightarrow> policy \<Rightarrow> bool" where
  "policy_le a b = (po_order a \<le> po_order b)"

definition timer_field :: "(string \<times> string) list \<Rightarrow> string \<Rightarrow> int \<Rightarrow> (string \<times> json) list \<times> import_warning list" where
  "timer_field timers key code =
     (case map_of (rev timers) key of
        None \<Rightarrow> ([], [])
      | Some raw \<Rightarrow> (case py_int raw of Inr i \<Rightarrow> ([(key, JInt i)], []) | Inl e \<Rightarrow> ([], [TimerNotANumber code])))"

record mapped_scope =
  ms_subnet :: json
  ms_pools :: "(nat \<times> nat) list"
  ms_classes :: "json list"
  ms_pool_guards :: "(string \<times> string) list"
  ms_subnet_guards :: "string list"
  ms_warnings :: "import_warning list"

definition lease_of :: "int \<Rightarrow> (string \<times> string) list \<Rightarrow> int \<times> import_warning list" where
  "lease_of lease timers =
     (case map_of (rev timers) ''valid-lifetime'' of
        None \<Rightarrow> (lease, [])
      | Some raw \<Rightarrow> (case py_int raw of
                      Inr i \<Rightarrow> if i \<noteq> lease then (i, [LeaseDiffers i]) else (lease, [])
                    | Inl e \<Rightarrow> (lease, [])))"

definition assemble_subnet :: "scope \<Rightarrow> int \<Rightarrow> mapping_state \<Rightarrow> mapped_scope" where
  "assemble_subnet sc jen_id mp =
     (case options_to_kea (sc_options sc) of
        (entries, timers, ws) \<Rightarrow>
          let lease = lease_of (sc_lease sc) timers;
              renew = timer_field timers ''renew-timer'' 58;
              rebind = timer_field timers ''rebind-timer'' 59;
              pools = mp_segments mp @ mp_carved mp
          in \<lparr>ms_subnet = JObj
                ([(''id'', JInt jen_id), (''subnet'', JStr (sc_id sc @ ''/'' @ show_nat (prefix_len (sc_mask sc)))),
                  (''pools'', JList (map (\<lambda>p. JObj [(''pool'', JStr (pool_string p))]) pools)),
                  (''valid-lifetime'', JInt (fst lease)), (''option-data'', JList entries)] @ fst renew @ fst rebind @
                 (if sc_next_server sc \<noteq> [] then [(''next-server'', JStr (sc_next_server sc))] else []) @
                 (if sc_boot_file sc \<noteq> [] then [(''boot-file-name'', JStr (sc_boot_file sc))] else [])),
              ms_pools = pools, ms_classes = mp_classes mp, ms_pool_guards = mp_pool_guards mp,
              ms_subnet_guards = mp_subnet_guards mp,
              ms_warnings = mp_warnings mp @ ws @ snd lease @ snd renew @ snd rebind\<rparr>)"

definition start_mapping :: "scope \<Rightarrow> segments \<Rightarrow> mapping_state" where
  "start_mapping sc segs =
     \<lparr>mp_segments = segs, mp_carved = [], mp_classes = [], mp_pool_guards = [], mp_subnet_guards = [],
      mp_warnings = (if segs = [] \<and> sc_exclusions sc \<noteq> [] then [NoPoolsLeft] else [])\<rparr>"

definition scope_to_subnet :: "scope \<Rightarrow> int \<Rightarrow> mapped_scope res" where
  "scope_to_subnet sc jen_id =
     rbind (split_pool_by_exclusions (sc_start sc) (sc_end sc) (sc_exclusions sc)) (\<lambda>segs.
     rbind (map_policies (sort_by policy_le (sc_policies sc)) (start_mapping sc segs)) (\<lambda>mp.
     Inr (assemble_subnet sc jen_id mp)))"

end
