(* ===== verification/ImportProps.thy ===== *)
theory ImportProps
  imports ImportPlan Pools
begin

text \<open>
  The pools of an imported subnet are exactly the range of the scope without its exclusions, whatever is carved
  out for its policies, in pieces that do not overlap, and Jen's own reader of pools finds the same ranges in
  the text written for Kea.
\<close>

section \<open>Addresses and their text\<close>

lemma show_nat_short: "n < 10 \<Longrightarrow> length (show_nat n) = 1" "n < 100 \<Longrightarrow> length (show_nat n) \<le> 2"
  "n < 1000 \<Longrightarrow> length (show_nat n) \<le> 3"
proof -
  show one: "n < 10 \<Longrightarrow> length (show_nat n) = 1" for n
    by (subst show_nat.simps) simp
  show two: "n < 100 \<Longrightarrow> length (show_nat n) \<le> 2" for n
    by (subst show_nat.simps) (use one [of "n div 10"] in auto)
  show "n < 1000 \<Longrightarrow> length (show_nat n) \<le> 3" for n
    by (subst show_nat.simps) (use two [of "n div 10"] in auto)
qed

lemma show_nat_0: "show_nat 0 = ''0''"
  by code_simp

lemma show_nat_head: "0 < n \<Longrightarrow> hd (show_nat n) \<noteq> CHR ''0''"
proof (induction n rule: show_nat.induct)
  case (1 n)
  show ?case
  proof (cases "n < 10")
    case True
    then have "digit_val (char_of (n + 48)) = n" using digit_char by blast
    moreover have "digit_val CHR ''0'' = 0" by code_simp
    ultimately have "char_of (n + 48) \<noteq> CHR ''0''" using 1(2) by force
    then show ?thesis using True by (subst show_nat.simps) simp
  next
    case False
    then have "hd (show_nat (n div 10)) \<noteq> CHR ''0''" using 1 by simp
    then show ?thesis using False by (subst show_nat.simps) simp
  qed
qed

lemma parse_octet_show:
  assumes "n < 256"
  shows "parse_octet (show_nat n) = Some n"
proof -
  have "list_all is_digit (show_nat n)" by (simp add: list_all_iff show_nat_digits)
  moreover have "show_nat n = ''0'' \<or> hd (show_nat n) \<noteq> CHR ''0''"
    using show_nat_head [of n] show_nat_0 by (cases "n = 0") auto
  moreover have "length (show_nat n) \<le> 3" using assms show_nat_short(3) [of n] by simp
  ultimately show ?thesis using assms by (auto simp: parse_octet_def dec_val_show_nat)
qed

lemma digit_not_dot: "is_digit c \<Longrightarrow> c \<noteq> CHR ''.'' \<and> c \<noteq> CHR ''-''"
  by (auto simp: is_digit_def)

lemma four_bytes:
  fixes n :: nat
  shows "((n div 2 ^ 24 * 256 + n div 2 ^ 16 mod 256) * 256 + n div 2 ^ 8 mod 256) * 256 + n mod 256 = n"
proof -
  have d: "n div 2 ^ 24 = n div 256 div 256 div 256" "n div 2 ^ 16 = n div 256 div 256" "n div 2 ^ 8 = n div 256"
    by (simp_all add: div_mult2_eq [symmetric])
  show ?thesis unfolding d by (simp only: div_mult_mod_eq)
qed

lemma ip_of_int2ip:
  assumes "n \<le> ipv4_max"
  shows "ip_of_string (int2ip n) = Some n"
proof -
  let ?os = "[n div 2 ^ 24, n div 2 ^ 16 mod 256, n div 2 ^ 8 mod 256, n mod 256]"
  have "split_on CHR ''.'' (int2ip n) = map show_nat ?os"
    unfolding int2ip_def by (rule split_join) (auto dest: show_nat_digits digit_not_dot)
  moreover have "n div 2 ^ 24 < 256" using assms by (simp add: ipv4_max_def)
  then have "map parse_octet (map show_nat ?os) = map Some ?os"
    by (simp add: parse_octet_show)
  ultimately have "ip_of_string (int2ip n) =
      Some (((n div 2 ^ 24 * 256 + n div 2 ^ 16 mod 256) * 256 + n div 2 ^ 8 mod 256) * 256 + n mod 256)"
    by (simp add: ip_of_string_def del: power_numeral)
  then show ?thesis by (simp only: four_bytes)
qed

text \<open>The characters of an address are digits and dots, so a hyphen separates two of them.\<close>

lemma int2ip_chars: "c \<in> set (int2ip n) \<Longrightarrow> is_digit c \<or> c = CHR ''.''"
  by (auto simp: int2ip_def dest: show_nat_digits)

lemma dot_not_space: "\<not> is_space CHR ''.''"
  by code_simp

lemma int2ip_no_space: "c \<in> set (int2ip n) \<Longrightarrow> \<not> is_space c"
  using int2ip_chars digit_not_space dot_not_space by blast

lemma int2ip_no_hyphen: "CHR ''-'' \<notin> set (int2ip n)"
  using int2ip_chars [of "CHR ''-''" n] by (auto simp: is_digit_def)

lemma int2ip_not_Nil: "int2ip n \<noteq> []"
  by (simp add: int2ip_def)

lemma partition_hyphen: "CHR ''-'' \<notin> set a \<Longrightarrow> partition_on ''-'' (a @ CHR ''-'' # b) = (a, b)"
  by (induction a) auto

lemma strip_blanks:
  assumes "\<And>c. c \<in> set s \<Longrightarrow> \<not> is_space c"
  shows "strip (s @ '' '') = s" and "strip (CHR '' '' # s) = s"
proof -
  have sp: "is_space CHR '' ''" by code_simp
  have d: "dropWhile is_space s = s" "dropWhile is_space (rev s) = rev s"
    using assms hd_in_set [of s] last_in_set [of s] by (auto simp: dropWhile_eq_self_iff hd_rev)
  show "strip (CHR '' '' # s) = s"
    using sp d by (simp add: strip_def lstrip_def rstrip_def)
  show "strip (s @ '' '') = s"
    using sp d assms by (cases s) (auto simp: strip_def lstrip_def rstrip_def)
qed

text \<open>What is written for a pool is read as the same range.\<close>

lemma parse_pool_string:
  assumes "lo \<le> hi" and "hi \<le> ipv4_max"
  shows "parse_pool (pool_string (lo, hi)) net = Some (lo, hi)"
proof -
  let ?t = "int2ip lo @ '' - '' @ int2ip hi"
  have "\<not> is_space (hd ?t)" "\<not> is_space (last ?t)"
    using int2ip_not_Nil [of lo] int2ip_not_Nil [of hi] int2ip_no_space [OF hd_in_set] int2ip_no_space [OF last_in_set]
    by (simp_all add: hd_append last_append)
  then have "strip ?t = ?t" by (simp add: strip_id)
  moreover have "contains ''-'' ?t"
    by (metis append.assoc append_Cons append_Nil contains_iff)
  moreover have "partition_on ''-'' ?t = (int2ip lo @ '' '', CHR '' '' # int2ip hi)"
    using partition_hyphen [of "int2ip lo @ '' ''" "CHR '' '' # int2ip hi"] int2ip_no_hyphen [of lo] by simp
  moreover have "addr (int2ip lo @ '' '') = Some lo" "addr (CHR '' '' # int2ip hi) = Some hi"
    using assms strip_blanks [of "int2ip lo"] strip_blanks [of "int2ip hi"] int2ip_no_space ip_of_int2ip
    by (auto simp: addr_def)
  ultimately show ?thesis
    using assms by (simp add: parse_pool_def pool_string_def split_hyphen_def Let_def)
qed

section \<open>Cutting exclusions out of a range\<close>

text \<open>Segments that hold an address each and share none.\<close>

definition apart :: "segments \<Rightarrow> bool" where
  "apart segs = (nonempty_ranges segs \<and> sorted_wrt (\<lambda>p q. {fst p..snd p} \<inter> {fst q..snd q} = {}) segs)"

lemma apart_Nil [simp]: "apart []"
  by (simp add: apart_def nonempty_ranges_def)

lemma covers_alt: "covers segs = (\<Union>p \<in> set segs. {fst p..snd p})"
  by (simp add: covers_def case_prod_beta)

lemma apart_Cons: "apart (p # segs) \<longleftrightarrow> fst p \<le> snd p \<and> {fst p..snd p} \<inter> covers segs = {} \<and> apart segs"
proof -
  have "(\<forall>q \<in> set segs. {fst p..snd p} \<inter> {fst q..snd q} = {}) \<longleftrightarrow> {fst p..snd p} \<inter> covers segs = {}"
    unfolding covers_alt Int_UN_distrib UNION_empty_conv by simp
  then show ?thesis by (auto simp only: apart_def nonempty_ranges_def sorted_wrt.simps list.set case_prod_beta ball_simps insert_iff fst_conv snd_conv prod.case)
qed

lemma covers_Cons [simp]: "covers (p # segs) = {fst p..snd p} \<union> covers segs"
  by (cases p) (auto simp: covers_def)

lemma apart_append: "apart (xs @ ys) \<longleftrightarrow> apart xs \<and> apart ys \<and> covers xs \<inter> covers ys = {}"
  by (induction xs) (auto simp: apart_Cons)

text \<open>The addresses an exclusion list takes away.\<close>

definition excluded :: "(string \<times> string) list \<Rightarrow> nat set" where
  "excluded excs =
     (\<Union>(a, b) \<in> set excs. if a = [] \<or> b = [] then {}
        else case (ip_of_string a, ip_of_string b) of (Some s, Some e) \<Rightarrow> {s..e} | _ \<Rightarrow> {})"

text \<open>No pair of the list is written backwards.\<close>

definition forwards :: "(string \<times> string) list \<Rightarrow> bool" where
  "forwards prs =
     list_all (\<lambda>(a, b). case (ip_of_string a, ip_of_string b) of (Some s, Some e) \<Rightarrow> s \<le> e | _ \<Rightarrow> True) prs"

lemma cut_segment_covers:
  assumes "es \<le> ee" and "s \<le> e"
  shows "covers (cut_segment es ee (s, e)) = {s..e} - {es..ee}" and "apart (cut_segment es ee (s, e))"
  using assms by (auto simp: cut_segment_def apart_Cons)

lemma cut_segments_covers:
  assumes "es \<le> ee" and "apart segs"
  shows "covers (concat (map (cut_segment es ee) segs)) = covers segs - {es..ee} \<and>
    apart (concat (map (cut_segment es ee) segs))"
  using assms(2)
proof (induction segs)
  case (Cons p segs)
  obtain s e where p: "p = (s, e)" by (cases p)
  have c: "covers (cut_segment es ee p) = {s..e} - {es..ee}" "apart (cut_segment es ee p)"
    using cut_segment_covers [of es ee s e] assms(1) Cons.prems by (auto simp: p apart_Cons)
  show ?case using Cons c by (auto simp: p apart_Cons apart_append)
qed simp

lemma cut_all_covers:
  assumes "cut_all excs segs = Inr segs'" and "apart segs" and "forwards excs"
  shows "covers segs' = covers segs - excluded excs \<and> apart segs'"
  using assms
proof (induction excs arbitrary: segs)
  case (Cons x excs)
  obtain a b where x: "x = (a, b)" by (cases x)
  show ?case
  proof (cases "a = [] \<or> b = []")
    case False
    then obtain es ee where ip: "ip_of_string a = Some es" "ip_of_string b = Some ee"
      and rest: "cut_all excs (concat (map (cut_segment es ee) segs)) = Inr segs'"
      using Cons.prems(1) by (auto simp: x ip2int_def split: option.splits)
    have "es \<le> ee" using Cons.prems(3) by (simp add: x ip forwards_def)
    then show ?thesis
      using Cons.IH [OF rest] cut_segments_covers [of es ee segs] Cons.prems(2,3) False
      by (auto simp: x ip forwards_def excluded_def)
  qed (use Cons in \<open>auto simp: x excluded_def forwards_def\<close>)
qed (simp add: excluded_def)

lemma apart_filter: "apart segs \<Longrightarrow> filter (\<lambda>(s, e). s \<le> e) segs = segs"
  by (auto simp: apart_def nonempty_ranges_def filter_id_conv)

lemma split_pool_covers:
  assumes "split_pool_by_exclusions a b excs = Inr segs" and "ip2int a = Inr s" and "ip2int b = Inr e"
    and "s \<le> e" and "forwards excs"
  shows "covers segs = {s..e} - excluded excs" and "apart segs"
proof -
  obtain cut where c: "cut_all excs [(s, e)] = Inr cut" and segs: "segs = filter (\<lambda>(s, e). s \<le> e) cut"
    using assms(1) by (auto simp: split_pool_by_exclusions_def assms(2,3) rbind_eq_Inr)
  have "covers cut = {s..e} - excluded excs \<and> apart cut"
    using cut_all_covers [OF c] assms(4,5) by (simp add: apart_Cons)
  then show "covers segs = {s..e} - excluded excs" and "apart segs"
    using apart_filter [of cut] by (simp_all add: segs)
qed

section \<open>Carving ranges for policies\<close>

lemma carve_pool_covers:
  assumes "carve_pool segs s e = (segs', True)" and "apart segs" and "s \<le> e"
  shows "apart (segs' @ [(s, e)])" and "covers (segs' @ [(s, e)]) = covers segs"
proof -
  obtain i where i: "find_index (\<lambda>(a, b). a \<le> s \<and> e \<le> b) segs = Some i"
    using assms(1) by (auto simp: carve_pool_def split: option.splits)
  obtain a b where ab: "segs ! i = (a, b)" by (cases "segs ! i")
  have len: "i < length segs" and in_ab: "a \<le> s" "e \<le> b"
    using find_index_SomeD [OF i] by (auto simp: ab)
  define xs where "xs = take i segs"
  define ys where "ys = drop (Suc i) segs"
  have segs: "segs = xs @ (a, b) # ys" using id_take_nth_drop [OF len] by (simp add: xs_def ys_def ab)
  have segs': "segs' = xs @ ys @ (if a < s then [(a, s - 1)] else []) @ (if e < b then [(e + 1, b)] else [])"
    using assms(1) by (simp add: carve_pool_def i ab remove_nth_def xs_def ys_def)
  have parts: "apart xs" "apart ys" "covers xs \<inter> covers ys = {}" "{a..b} \<inter> (covers xs \<union> covers ys) = {}"
    using assms(2) by (auto simp: segs apart_append apart_Cons)
  define zs where "zs = (if a < s then [(a, s - 1)] else []) @ (if e < b then [(e + 1, b)] else []) @ [(s, e)]"
  have zs: "apart zs" "covers zs = {a..b}"
    using in_ab assms(3) by (auto simp: zs_def apart_Cons)
  have all: "segs' @ [(s, e)] = (xs @ ys) @ zs" by (simp add: segs' zs_def)
  show "apart (segs' @ [(s, e)])"
    unfolding all apart_append using parts zs by auto
  show "covers (segs' @ [(s, e)]) = covers segs"
    unfolding all using zs by (simp add: segs Un_ac)
qed

lemma carve_pool_False: "carve_pool segs s e = (segs', False) \<Longrightarrow> segs' = segs"
  by (auto simp: carve_pool_def split: option.splits prod.splits)

lemma carve_ranges_covers:
  assumes "carve_ranges name rs segs = Inr (segs', c, ws)" and "apart segs" and "forwards rs"
  shows "(case c of None \<Rightarrow> segs' = segs
    | Some p \<Rightarrow> apart (segs' @ [p]) \<and> covers (segs' @ [p]) = covers segs)"
  using assms
proof (induction rs arbitrary: ws)
  case (Cons r rs)
  obtain a b where r: "r = (a, b)" by (cases r)
  show ?case
  proof (cases "a = [] \<or> b = []")
    case False
    then obtain s e where ip: "ip_of_string a = Some s" "ip_of_string b = Some e"
      using Cons.prems(1) by (auto simp: r ip2int_def split: option.splits)
    have le: "s \<le> e" using Cons.prems(3) by (simp add: r ip forwards_def)
    obtain sg ok where k: "carve_pool segs s e = (sg, ok)" by (cases "carve_pool segs s e")
    show ?thesis
    proof (cases ok)
      case True
      then have "segs' = sg" "c = Some (s, e)"
        using Cons.prems(1) False k by (auto simp: r ip ip2int_def)
      then show ?thesis using carve_pool_covers [of segs s e sg] k True Cons.prems(2) le by simp
    next
      case no: False
      then have "sg = segs" using k carve_pool_False [of segs s e sg] by simp
      then obtain ws' where "carve_ranges name rs segs = Inr (segs', c, ws')"
        using Cons.prems(1) False k no by (auto simp: r ip ip2int_def rbind_eq_Inr)
      then show ?thesis using Cons.IH Cons.prems(2,3) by (auto simp: forwards_def)
    qed
  qed (use Cons in \<open>auto simp: r forwards_def\<close>)
qed simp

text \<open>
  What holds of the loop over the policies: the pools so far are apart and cover the same addresses as before,
  a guard names a class that was made and a pool that was carved.
\<close>

definition pools_of :: "mapping_state \<Rightarrow> segments" where
  "pools_of mp = mp_segments mp @ mp_carved mp"

definition class_name_of :: "json \<Rightarrow> string" where
  "class_name_of cls = (case jget cls ''name'' of JStr s \<Rightarrow> s | _ \<Rightarrow> [])"

definition mapping_ok :: "nat set \<Rightarrow> mapping_state \<Rightarrow> bool" where
  "mapping_ok addrs mp \<longleftrightarrow>
     apart (pools_of mp) \<and> covers (pools_of mp) = addrs \<and>
     fst ` set (mp_pool_guards mp) \<subseteq> pool_string ` set (mp_carved mp) \<and>
     snd ` set (mp_pool_guards mp) \<union> set (mp_subnet_guards mp) \<subseteq> class_name_of ` set (mp_classes mp)"

lemma map_policy_ok:
  assumes "map_policy po mp = Inr mp'" and "mapping_ok addrs mp" and "forwards (po_ranges po)"
  shows "mapping_ok addrs mp'"
proof (cases "policy_to_class po")
  case (Pair cls ws)
  show ?thesis
  proof (cases cls)
    case None
    then have "mp' = mp\<lparr>mp_warnings := mp_warnings mp @ ws\<rparr>" using assms(1) by (simp add: map_policy_def Pair)
    then show ?thesis using assms(2) by (simp add: mapping_ok_def pools_of_def)
  next
    case (Some c)
    then obtain segs carved ws2 where k: "carve_ranges (po_name po) (po_ranges po) (mp_segments mp) = Inr (segs, carved, ws2)"
      and mp': "mp' = (let mp = mp\<lparr>mp_segments := segs, mp_classes := mp_classes mp @ [c], mp_warnings := mp_warnings mp @ ws @ ws2\<rparr>
        in case carved of Some r \<Rightarrow> mp\<lparr>mp_carved := mp_carved mp @ [r], mp_pool_guards := mp_pool_guards mp @ [(pool_string r, class_name_of c)]\<rparr>
           | None \<Rightarrow> mp\<lparr>mp_subnet_guards := mp_subnet_guards mp @ [class_name_of c]\<rparr>)"
      using assms(1) by (auto simp: map_policy_def Pair rbind_eq_Inr class_name_of_def Let_def split: option.splits)
    have ok: "apart (mp_segments mp)" "apart (mp_carved mp)" "covers (mp_segments mp) \<inter> covers (mp_carved mp) = {}"
      "covers (mp_segments mp) \<union> covers (mp_carved mp) = addrs"
      using assms(2) by (auto simp: mapping_ok_def pools_of_def apart_append)
    note c = carve_ranges_covers [OF k ok(1) assms(3)]
    show ?thesis
    proof (cases carved)
      case None
      then show ?thesis using c assms(2) by (auto simp: mp' mapping_ok_def pools_of_def)
    next
      case (Some r)
      have a: "apart (segs @ [r])" "covers (segs @ [r]) = covers (mp_segments mp)" using c by (auto simp: Some)
      have "apart ((segs @ [r]) @ mp_carved mp)" using a ok by (simp add: apart_append [of "segs @ [r]"] del: append_assoc)
      moreover have "covers ((segs @ [r]) @ mp_carved mp) = addrs"
        unfolding covers_append [of "segs @ [r]"] a(2) by (rule ok(4))
      ultimately have "apart (segs @ mp_carved mp @ [r]) \<and> covers (segs @ mp_carved mp @ [r]) = addrs"
        by (auto simp: apart_append apart_Cons)
      then show ?thesis using assms(2) by (auto simp: Some mp' mapping_ok_def pools_of_def)
    qed
  qed
qed

lemma map_policies_ok:
  assumes "map_policies pos mp = Inr mp'" and "mapping_ok addrs mp" and "\<And>po. po \<in> set pos \<Longrightarrow> forwards (po_ranges po)"
  shows "mapping_ok addrs mp'"
  using assms
proof (induction pos arbitrary: mp)
  case (Cons po pos)
  then show ?case using map_policy_ok by (auto simp: rbind_eq_Inr)
qed simp

section \<open>The pools of an imported subnet\<close>

definition json_items :: "json \<Rightarrow> json list" where
  "json_items v = (case v of JList xs \<Rightarrow> xs | _ \<Rightarrow> [])"

lemma assemble_simps [simp]:
  "ms_pools (assemble_subnet sc i mp) = pools_of mp"
  "ms_classes (assemble_subnet sc i mp) = mp_classes mp"
  "ms_pool_guards (assemble_subnet sc i mp) = mp_pool_guards mp"
  "ms_subnet_guards (assemble_subnet sc i mp) = mp_subnet_guards mp"
  "json_items (jget (ms_subnet (assemble_subnet sc i mp)) ''pools'') =
     map (\<lambda>p. JObj [(''pool'', JStr (pool_string p))]) (pools_of mp)"
  by (simp_all add: assemble_subnet_def Let_def pools_of_def json_items_def jget_JObj split: prod.split)

lemma ip2int_bound: "ip2int a = Inr n \<Longrightarrow> n \<le> ipv4_max"
  using ip_of_string_le by (auto simp: ip2int_def split: option.splits)

lemma parsed_pool_strings:
  assumes "apart segs" and "covers segs \<subseteq> {..ipv4_max}"
  shows "parsed_pools (map (\<lambda>p. JObj [(''pool'', JStr (pool_string p))]) segs) = segs"
  using assms
proof (induction segs)
  case (Cons p segs)
  obtain lo hi where p: "p = (lo, hi)" by (cases p)
  have "lo \<le> hi" "hi \<le> ipv4_max" using Cons.prems by (auto simp: p apart_Cons)
  then have "parse_pool (pool_text (JObj [(''pool'', JStr (pool_string p))])) None = Some p"
    using parse_pool_string [of lo hi None] by (simp add: p pool_text_def text_of_def jget_JObj)
  then show ?case using Cons by (simp add: parsed_pools_def apart_Cons map_filter_simps)
qed (simp add: parsed_pools_def map_filter_simps)

lemma scope_mapping_ok:
  assumes "scope_to_subnet sc i = Inr ms" and "ip2int (sc_start sc) = Inr s" and "ip2int (sc_end sc) = Inr e"
    and "s \<le> e" and "forwards (sc_exclusions sc)" and "\<And>po. po \<in> set (sc_policies sc) \<Longrightarrow> forwards (po_ranges po)"
  shows "apart (ms_pools ms)" and "covers (ms_pools ms) = {s..e} - excluded (sc_exclusions sc)"
    and "fst ` set (ms_pool_guards ms) \<subseteq> pool_string ` set (ms_pools ms)"
    and "snd ` set (ms_pool_guards ms) \<union> set (ms_subnet_guards ms) \<subseteq> class_name_of ` set (ms_classes ms)"
    and "parsed_pools (json_items (jget (ms_subnet ms) ''pools'')) = ms_pools ms"
proof -
  obtain segs mp where split: "split_pool_by_exclusions (sc_start sc) (sc_end sc) (sc_exclusions sc) = Inr segs"
    and run: "map_policies (sort_by policy_le (sc_policies sc)) (start_mapping sc segs) = Inr mp"
    and ms: "ms = assemble_subnet sc i mp"
    using assms(1) by (auto simp: scope_to_subnet_def rbind_eq_Inr)
  note sp = split_pool_covers [OF split assms(2,3,4,5)]
  have ok: "mapping_ok ({s..e} - excluded (sc_exclusions sc)) mp"
    by (rule map_policies_ok [OF run]) (use sp assms(6) in \<open>simp_all add: mapping_ok_def pools_of_def start_mapping_def\<close>)
  then show pools: "apart (ms_pools ms)" "covers (ms_pools ms) = {s..e} - excluded (sc_exclusions sc)"
    and "snd ` set (ms_pool_guards ms) \<union> set (ms_subnet_guards ms) \<subseteq> class_name_of ` set (ms_classes ms)"
    by (simp_all add: mapping_ok_def ms)
  show "fst ` set (ms_pool_guards ms) \<subseteq> pool_string ` set (ms_pools ms)"
    using ok by (auto simp: mapping_ok_def ms pools_of_def)
  have "covers (ms_pools ms) \<subseteq> {..ipv4_max}" using pools(2) ip2int_bound [OF assms(3)] by auto
  then show "parsed_pools (json_items (jget (ms_subnet ms) ''pools'')) = ms_pools ms"
    using parsed_pool_strings pools(1) by (simp add: ms)
qed


definition w_policy :: policy where
  "w_policy = \<lparr>po_name = ''phones'', po_enabled = True, po_order = 1, po_any = False,
     po_conditions = [\<lparr>cn_type = ''VendorClass'', cn_operator = ''Equals'', cn_value = ''phone''\<rparr>],
     po_ranges = [(''0.0.0.60'', ''0.0.0.69'')], po_options = [], po_rules = [], po_negate = False\<rparr>"

definition w_scope :: scope where
  "w_scope = \<lparr>sc_id = ''0.0.0.0'', sc_mask = ''255.255.255.0'', sc_name = ''lab'', sc_state = ''Active'',
     sc_start = ''0.0.0.10'', sc_end = ''0.0.0.99'', sc_lease = 3600, sc_exclusions = [(''0.0.0.50'', ''0.0.0.59'')],
     sc_options = [], sc_reservations = [], sc_policies = [w_policy], sc_network = None, sc_next_server = [],
     sc_boot_file = []\<rparr>"

lemma w_addresses:
  "ip_of_string ''0.0.0.10'' = Some 10" "ip_of_string ''0.0.0.99'' = Some 99" "ip_of_string ''0.0.0.50'' = Some 50"
  "ip_of_string ''0.0.0.59'' = Some 59" "ip_of_string ''0.0.0.60'' = Some 60" "ip_of_string ''0.0.0.69'' = Some 69"
  by code_simp+

lemma w_scope_maps: "\<exists>ms. scope_to_subnet w_scope 7 = Inr ms"
proof -
  have "fst (policy_to_class w_policy) \<noteq> None" by code_simp
  then obtain c ws where c: "policy_to_class w_policy = (Some c, ws)" by (cases "policy_to_class w_policy") auto
  show ?thesis
    by (simp add: scope_to_subnet_def w_scope_def split_pool_by_exclusions_def ip2int_def w_addresses cut_segment_def
      start_mapping_def sort_by_def map_policy_def c carve_pool_def Let_def) (simp add: w_policy_def ip2int_def w_addresses carve_pool_def)
qed


end
