(* ===== verification/IscSyntax.thy ===== *)
theory IscSyntax
  imports PyStr
begin

text \<open>
  The two syntactic stages of \<open>src/jen/services/isc_dhcp_import.py\<close>: the tokenizer of a dhcpd.conf and the
  generic statement tree, with the line numbers the warnings quote. The nesting of the recursion of the
  interpreter is not bounded here (Python stops at its recursion limit).
\<close>

section \<open>Tokens\<close>

record isc_tok =
  tk_text :: string
  tk_line :: nat
  tk_quoted :: bool

abbreviation newline :: char where "newline \<equiv> CHR 0x0A"
abbreviation dquote :: char where "dquote \<equiv> CHR 0x22"
abbreviation backslash :: char where "backslash \<equiv> CHR 0x5C"

definition is_punct :: "char \<Rightarrow> bool" where
  "is_punct c = (c \<in> set ''{};,()='')"

definition word_char :: "char \<Rightarrow> bool" where
  "word_char c = (\<not> is_space c \<and> \<not> is_punct c \<and> c \<noteq> dquote \<and> c \<noteq> CHR ''#'')"

definition bump :: "char \<Rightarrow> nat \<Rightarrow> nat" where
  "bump c line = (if c = newline then line + 1 else line)"

text \<open>The rest of a quoted string: its text, the line it ends on, what follows the closing quote.\<close>

fun scan_quoted :: "nat \<Rightarrow> string \<Rightarrow> string \<times> nat \<times> string" where
  "scan_quoted line [] = ([], line, [])"
| "scan_quoted line (c # cs) =
     (if c = dquote then ([], line, cs)
      else if c = backslash then
        (case cs of
           [] \<Rightarrow> ([c], line, [])
         | d # ds \<Rightarrow> (case scan_quoted (bump d line) ds of (b, l, r) \<Rightarrow> (d # b, l, r)))
      else (case scan_quoted (bump c line) cs of (b, l, r) \<Rightarrow> (c # b, l, r)))"

lemma scan_quoted_rest: "scan_quoted line s = (b, l, r) \<Longrightarrow> length r \<le> length s"
  by (induction line s arbitrary: b l r rule: scan_quoted.induct)
    (force split: if_splits list.splits prod.splits)+

type_synonym scanned = "isc_tok list \<times> (nat \<times> string) list"

function scan :: "nat \<Rightarrow> string \<Rightarrow> scanned" where
  "scan line [] = ([], [])"
| "scan line (c # cs) =
     (if c = newline then scan (line + 1) cs
      else if is_space c then scan line cs
      else if c = CHR ''#'' then
        (case scan line (dropWhile (\<lambda>x. x \<noteq> newline) cs) of
           (ts, notes) \<Rightarrow> (ts, (line, strip (takeWhile (\<lambda>x. x \<noteq> newline) cs)) # notes))
      else if c = dquote then
        (case scan_quoted line cs of
           (b, l, r) \<Rightarrow> (case scan l r of (ts, notes) \<Rightarrow> (\<lparr>tk_text = b, tk_line = l, tk_quoted = True\<rparr> # ts, notes)))
      else if is_punct c then
        (case scan line cs of (ts, notes) \<Rightarrow> (\<lparr>tk_text = [c], tk_line = line, tk_quoted = False\<rparr> # ts, notes))
      else
        (case scan line (dropWhile word_char cs) of
           (ts, notes) \<Rightarrow> (\<lparr>tk_text = c # takeWhile word_char cs, tk_line = line, tk_quoted = False\<rparr> # ts, notes)))"
  by pat_completeness auto
termination
  by (relation "measure (\<lambda>(l, s). length s)")
    (auto simp: le_imp_less_Suc length_dropWhile_le dest!: sym [of "(_, _, _)"] dest: scan_quoted_rest)

definition isc_tokenize :: "string \<Rightarrow> scanned" where
  "isc_tokenize s = scan 1 s"

section \<open>Statements\<close>

datatype stmt = Stmt (st_head: "isc_tok list") (st_body: "stmt list option") (st_line: nat)

definition st_kw :: "stmt \<Rightarrow> string" where
  "st_kw st = (case st_head st of [] \<Rightarrow> [] | t # ts \<Rightarrow> lower (tk_text t))"

definition st_words :: "stmt \<Rightarrow> string list" where
  "st_words st = map tk_text (st_head st)"

definition is_mark :: "string \<Rightarrow> isc_tok \<Rightarrow> bool" where
  "is_mark p t = (tk_text t = p \<and> \<not> tk_quoted t)"

datatype syntax_warning = NoSemicolon nat | StrayBrace nat | Unterminated nat | NeverClosed

text \<open>
  \<open>block(depth)\<close> from the token at \<open>pos\<close> on, with the head read so far: the statements, the tokens behind the
  block and the warnings. A stray closing brace at the top keeps the head.
\<close>

function block :: "nat \<Rightarrow> isc_tok list \<Rightarrow> isc_tok list \<Rightarrow> stmt list \<times> isc_tok list \<times> syntax_warning list" where
  "block depth head [] =
     ([], [], (if head \<noteq> [] then [Unterminated (tk_line (hd head))] else []) @ (if depth > 0 then [NeverClosed] else []))"
| "block depth head (t # ts) =
     (if is_mark '';'' t then
        (case block depth [] ts of (out, rest, ws) \<Rightarrow>
           ((if head \<noteq> [] then [Stmt head None (tk_line (hd head))] else []) @ out, rest, ws))
      else if is_mark ''{'' t then
        (let line = (if head \<noteq> [] then tk_line (hd head) else tk_line t);
             head' = (if head \<noteq> [] then head else [\<lparr>tk_text = [], tk_line = line, tk_quoted = False\<rparr>])
         in case block (depth + 1) [] ts of (body, rest, ws) \<Rightarrow>
              (case block depth [] rest of (out, rest', ws') \<Rightarrow> (Stmt head' (Some body) line # out, rest', ws @ ws')))
      else if is_mark ''}'' t then
        (let w = (if head \<noteq> [] then [NoSemicolon (tk_line (hd head))] else [])
         in if depth = 0 then
              (case block depth head ts of (out, rest, ws) \<Rightarrow> (out, rest, w @ StrayBrace (tk_line t) # ws))
            else ([], ts, w))
      else block depth (head @ [t]) ts)"
  by pat_completeness auto

termination
proof -
  have shorter: "length rest \<le> length ts"
    if "block_dom (depth, head, ts)" "block depth head ts = (out, rest, ws)" for depth head ts out rest ws
    using that
  proof (induction depth head ts arbitrary: out rest ws rule: block.pinduct)
    case (1 depth head)
    then show ?case by (simp add: block.psimps)
  next
    case (2 depth head t ts)
    show ?case
      using 2 by (auto simp: block.psimps Let_def split: if_splits prod.splits) (meson le_SucI le_trans)+
  qed
  show ?thesis
    by (relation "measure (\<lambda>(d, h, ts). length ts)") (auto simp: le_imp_less_Suc dest!: shorter [OF _ sym])
qed

definition parse_statements :: "isc_tok list \<Rightarrow> stmt list \<times> syntax_warning list" where
  "parse_statements ts = (case block 0 [] ts of (out, rest, ws) \<Rightarrow> (out, ws))"

section \<open>Writing a file and reading it back\<close>

definition quote_text :: "string \<Rightarrow> string" where
  "quote_text s = concat (map (\<lambda>c. if c = dquote \<or> c = backslash then [backslash, c] else [c]) s)"

definition tok_source :: "isc_tok \<Rightarrow> string" where
  "tok_source t = (if tk_quoted t then dquote # quote_text (tk_text t) @ [dquote] else tk_text t)"

fun render :: "nat \<Rightarrow> isc_tok list \<Rightarrow> string" where
  "render line [] = []"
| "render line (t # ts) =
     replicate (tk_line t - line) newline @ tok_source t @ CHR '' '' # render (tk_line t) ts"

definition wf_tok :: "isc_tok \<Rightarrow> bool" where
  "wf_tok t =
     (if tk_quoted t then newline \<notin> set (tk_text t)
      else tk_text t \<noteq> [] \<and> (list_all word_char (tk_text t) \<or> length (tk_text t) = 1 \<and> is_punct (hd (tk_text t))))"

lemma scan_quoted_quote: "newline \<notin> set s \<Longrightarrow> scan_quoted l (quote_text s @ dquote # r) = (s, l, r)"
  by (induction s) (auto simp: quote_text_def bump_def)

lemma scan_newlines: "scan l (replicate k newline @ s) = scan (l + k) s"
  by (induction k arbitrary: l) simp_all

lemma space_char: "is_space CHR '' ''" "is_space newline" "\<not> is_punct dquote" "\<not> is_space dquote"
  by code_simp+

lemma scan_blank: "scan l (CHR '' '' # s) = scan l s"
  by (simp add: space_char)

lemma takeWhile_word: "list_all word_char w \<Longrightarrow> takeWhile word_char (w @ CHR '' '' # s) = w"
  by (induction w) (auto simp: word_char_def space_char)

lemma dropWhile_word: "list_all word_char w \<Longrightarrow> dropWhile word_char (w @ CHR '' '' # s) = CHR '' '' # s"
  by (induction w) (auto simp: word_char_def space_char)

lemma punct_char: "is_punct c \<Longrightarrow> c \<noteq> newline \<and> \<not> is_space c \<and> c \<noteq> CHR ''#'' \<and> c \<noteq> dquote"
proof -
  have "list_all (\<lambda>c. c \<noteq> newline \<and> \<not> is_space c \<and> c \<noteq> CHR ''#'' \<and> c \<noteq> dquote) ''{};,()=''" by code_simp
  then show "is_punct c \<Longrightarrow> c \<noteq> newline \<and> \<not> is_space c \<and> c \<noteq> CHR ''#'' \<and> c \<noteq> dquote"
    unfolding is_punct_def list_all_iff by blast
qed

text \<open>One token in front is read, with what follows read from its line on.\<close>

lemma scan_tok:
  assumes "wf_tok t"
  shows "scan (tk_line t) (tok_source t @ CHR '' '' # s) = (t # fst (scan (tk_line t) s), snd (scan (tk_line t) s))"
proof (cases "tk_quoted t")
  case True
  then have "scan_quoted (tk_line t) (quote_text (tk_text t) @ dquote # CHR '' '' # s) = (tk_text t, tk_line t, CHR '' '' # s)"
    using assms by (simp add: wf_tok_def scan_quoted_quote)
  then show ?thesis using True by (cases t) (simp add: tok_source_def space_char split: prod.split)
next
  case False
  obtain c cs where c: "tk_text t = c # cs" using assms False by (cases "tk_text t") (auto simp: wf_tok_def)
  show ?thesis
  proof (cases "is_punct c")
    case True
    then have "cs = []" using assms False by (auto simp: wf_tok_def c word_char_def)
    then show ?thesis using True False punct_char [OF True] c by (cases t) (simp add: tok_source_def space_char split: prod.split)
  next
    case word: False
    then have w: "list_all word_char cs" "word_char c" using assms False by (auto simp: wf_tok_def c)
    then have "c \<noteq> newline" by (auto simp: word_char_def space_char)
    then show ?thesis
      using w False c takeWhile_word [OF w(1), of s] dropWhile_word [OF w(1), of s]
      by (cases t) (simp add: tok_source_def word_char_def space_char split: prod.split)
  qed
qed

lemma scan_render:
  assumes "list_all wf_tok ts" and "sorted (line # map tk_line ts)"
  shows "scan line (render line ts) = (ts, [])"
  using assms
proof (induction ts arbitrary: line)
  case (Cons t ts)
  then show ?case by (simp add: scan_newlines scan_tok)
qed simp

definition mark :: "string \<Rightarrow> nat \<Rightarrow> isc_tok" where
  "mark p line = \<lparr>tk_text = p, tk_line = line, tk_quoted = False\<rparr>"

definition plain_tok :: "isc_tok \<Rightarrow> bool" where
  "plain_tok t = (\<not> is_mark '';'' t \<and> \<not> is_mark ''{'' t \<and> \<not> is_mark ''}'' t)"

fun unparse :: "stmt \<Rightarrow> isc_tok list" where
  "unparse (Stmt head None line) = head @ [mark '';'' (tk_line (last head))]"
| "unparse (Stmt head (Some body) line) =
     (let ts = head @ mark ''{'' (tk_line (last head)) # concat (map unparse body)
      in ts @ [mark ''}'' (tk_line (last ts))])"

fun wf_stmt :: "stmt \<Rightarrow> bool" where
  "wf_stmt (Stmt head body line) =
     (head \<noteq> [] \<and> list_all plain_tok head \<and> line = tk_line (hd head) \<and>
      (case body of None \<Rightarrow> True | Some b \<Rightarrow> list_all wf_stmt b))"

lemma mark_simps [simp]: "is_mark p (mark q line) \<longleftrightarrow> q = p" "tk_line (mark q line) = line"
  by (auto simp: is_mark_def mark_def)

lemma block_plain: "list_all plain_tok ts \<Longrightarrow> block depth head (ts @ rest) = block depth (head @ ts) rest"
  by (induction ts arbitrary: head) (simp_all add: plain_tok_def)

text \<open>A statement in front is read as it is.\<close>

definition reads :: "stmt \<Rightarrow> bool" where
  "reads st = (\<forall>depth rest. block depth [] (unparse st @ rest) =
     (case block depth [] rest of (out, r, ws) \<Rightarrow> (st # out, r, ws)))"

lemma block_all:
  assumes "\<And>st. st \<in> set ss \<Longrightarrow> reads st"
  shows "block depth [] (concat (map unparse ss) @ rest) = (case block depth [] rest of (out, r, ws) \<Rightarrow> (ss @ out, r, ws))"
  using assms
proof (induction ss)
  case (Cons st ss)
  have "block depth [] (unparse st @ concat (map unparse ss) @ rest) =
      (case block depth [] (concat (map unparse ss) @ rest) of (out, r, ws) \<Rightarrow> (st # out, r, ws))"
    using Cons.prems by (simp add: reads_def)
  then show ?case using Cons by (simp split: prod.splits)
qed (simp split: prod.split)

lemma stmt_reads: "wf_stmt st \<Longrightarrow> reads st"
proof (induction st)
  case (Stmt head body line)
  then have h: "head \<noteq> []" "list_all plain_tok head" "line = tk_line (hd head)" by simp_all
  show ?case
  proof (cases body)
    case None
    then show ?thesis using h by (simp add: reads_def block_plain del: block.simps(1) split: prod.split)
  next
    case (Some b)
    then have "block (depth + 1) [] (concat (map unparse b) @ mark ''}'' l # rest) = (b, rest, [])" for depth l rest
      using block_all [of b "depth + 1" "mark ''}'' l # rest"] Stmt by (simp add: list_all_iff)
    then show ?thesis using h by (simp add: reads_def Some block_plain Let_def del: block.simps(1) split: prod.split)
  qed
qed

text \<open>
  C31. A dhcpd.conf is read as it was written. Statements with their blocks, written out token by token on the
  lines they name, strings in quotes with quotes and backslashes escaped, come back from the tokenizer and the
  statement parser as the same statements, with the same line numbers and no warning.
\<close>

theorem isc_syntax_roundtrip:
  assumes "list_all wf_stmt ss" and "list_all wf_tok (concat (map unparse ss))"
    and "sorted (1 # map tk_line (concat (map unparse ss)))"
  shows "parse_statements (fst (isc_tokenize (render 1 (concat (map unparse ss))))) = (ss, [])"
proof -
  have "\<And>st. st \<in> set ss \<Longrightarrow> reads st" using assms(1) stmt_reads by (simp add: list_all_iff)
  from block_all [OF this, where depth = 0 and rest = "[]"] have "block 0 [] (concat (map unparse ss)) = (ss, [], [])" by simp
  then show ?thesis
    using scan_render [OF assms(2,3)] by (simp add: isc_tokenize_def parse_statements_def)
qed

definition w_conf :: "stmt list" where
  "w_conf =
     [Stmt [mark ''option'' 1, mark ''domain-name'' 1, \<lparr>tk_text = ''a;b'', tk_line = 1, tk_quoted = True\<rparr>] None 1,
      Stmt [mark ''subnet'' 3, mark ''10.0.0.0'' 3] (Some [Stmt [mark ''range'' 4, mark ''10.0.0.5'' 5] None 4]) 3]"

theorem isc_syntax_roundtrip_witness:
  "parse_statements (fst (isc_tokenize (render 1 (concat (map unparse w_conf))))) = (w_conf, [])"
proof (rule isc_syntax_roundtrip)
  show "list_all wf_stmt w_conf" by code_simp
  show "list_all wf_tok (concat (map unparse w_conf))" by code_simp
  show "sorted (1 # map tk_line (concat (map unparse w_conf)))" by code_simp
qed

text \<open>
  A statement that lacks its semicolon in front of a stray closing brace is reported as ignored, but its words
  stay in front of the next statement, which is lost.
\<close>

lemma stray_brace_swallows:
  "parse_statements [mark ''authoritative'' 1, mark ''}'' 2, mark ''subnet'' 3, mark ''10.0.0.0'' 3, mark '';'' 3] =
     ([Stmt [mark ''authoritative'' 1, mark ''subnet'' 3, mark ''10.0.0.0'' 3] None 1], [NoSemicolon 1, StrayBrace 2])"
  by code_simp

end
