(* ===== verification/IscMatch.thy ===== *)
theory IscMatch
  imports IscSyntax ImportPlan
begin

text \<open>
  The leaves of \<open>src/jen/services/isc_dhcp_import.py\<close>: an \<open>option\<close> statement as a code and a value, and the
  expression of a \<open>match if\<close> as rule rows of the rule builder. A warning is its kind with the piece of the file
  it quotes; a reason is its kind.
\<close>

section \<open>Option statements\<close>

definition isc_aliases :: "(string \<times> int) list" where
  "isc_aliases =
     [(''bootfile-name'', 67), (''rfc3442-classless-static-routes'', 121), (''ms-classless-static-routes'', 121),
      (''classless-static-routes'', 121), (''dhcp-lease-time'', 51), (''dhcp-renewal-time'', 58),
      (''dhcp-rebinding-time'', 59), (''dhcp-client-identifier'', 61), (''nis-domain'', 40), (''nis-servers'', 41),
      (''netbios-name-servers'', 44), (''netbios-node-type'', 46), (''netbios-scope'', 47)]"

text \<open>A trailing \<open>$\<close> of a pattern lets one final line feed pass.\<close>

definition before_dollar :: "string \<Rightarrow> string" where
  "before_dollar s = (if s \<noteq> [] \<and> last s = newline then butlast s else s)"

definition short_number :: "string \<Rightarrow> bool" where
  "short_number s = (s \<noteq> [] \<and> length s \<le> 3 \<and> list_all is_digit s)"

text \<open>\<open>option-N\<close>.\<close>

definition numbered_option :: "string \<Rightarrow> int option" where
  "numbered_option name =
     (let s = before_dollar name
      in if has_prefix ''option-'' s \<and> short_number (drop 7 s) then Some (int (dec_val (drop 7 s))) else None)"

text \<open>A list of decimal numbers, blanks around the commas.\<close>

definition decimal_items :: "string \<Rightarrow> nat list option" where
  "decimal_items raw =
     (let s = before_dollar raw; items = map strip (split_on CHR '','' s)
      in if strip s = s \<and> list_all short_number items then Some (map dec_val items) else None)"

fun value_items :: "isc_tok list \<Rightarrow> string list \<Rightarrow> string list" where
  "value_items [] cur = [join_with '' '' cur]"
| "value_items (t # ts) cur =
     (if is_mark '','' t then join_with '' '' cur # value_items ts [] else value_items ts (cur @ [tk_text t]))"

definition option_value_text :: "isc_tok list \<Rightarrow> string" where
  "option_value_text ts = join_with '', '' (filter (\<lambda>i. i \<noteq> []) (value_items ts []))"

datatype option_problem =
    EmptyOption | OptionSpaceDefinition | OptionDefinition string | OptionInSpace string | OptionUnknown string
  | OptionSubnetMask | RoutesUndecoded

text \<open>\<open>name.replace(".", "").isdigit()\<close>.\<close>

definition dotted_number :: "string \<Rightarrow> bool" where
  "dotted_number s = (let d = filter (\<lambda>c. c \<noteq> CHR ''.'') s in d \<noteq> [] \<and> list_all is_digit d)"

definition option_code :: "string \<Rightarrow> int option" where
  "option_code name =
     (case numbered_option name of Some c \<Rightarrow> Some c
      | None \<Rightarrow> (case map_of isc_aliases name of Some c \<Rightarrow> Some c | None \<Rightarrow> name_to_code name))"

definition bytes_hex :: "nat list \<Rightarrow> string" where
  "bytes_hex ns = to_hex (map (\<lambda>n. char_of (n mod 256)) ns)"

text \<open>Routes in decimal bytes are kept as hexadecimal when they decode to something.\<close>

definition routes_value :: "string \<Rightarrow> (option_problem, string) sum" where
  "routes_value raw =
     (case decimal_items raw of
        None \<Rightarrow> Inr raw
      | Some ns \<Rightarrow> (if fst (decode_classless_routes_hex (bytes_hex ns)) = [] then Inl RoutesUndecoded else Inr (bytes_hex ns)))"

definition boolean_words :: "(string \<times> string) list" where
  "boolean_words = [(''on'', ''true''), (''off'', ''false''), (''1'', ''true''), (''0'', ''false'')]"

definition boolean_value :: "string \<Rightarrow> string" where
  "boolean_value raw = (case map_of boolean_words (lower raw) of Some v \<Rightarrow> v | None \<Rightarrow> raw)"

definition option_statement :: "isc_tok list \<Rightarrow> (option_problem, int \<times> string) sum" where
  "option_statement toks =
     (case toks of
        [] \<Rightarrow> Inl EmptyOption
      | t # ts \<Rightarrow>
          let name = lower (tk_text t); texts = map (\<lambda>x. lower (tk_text x)) toks
          in if name = ''space'' then Inl OptionSpaceDefinition
             else if ''code'' \<in> set texts \<and> ''='' \<in> set texts then Inl (OptionDefinition name)
             else if CHR ''.'' \<in> set name \<and> \<not> dotted_number name then Inl (OptionInSpace (hd (split_on CHR ''.'' name)))
             else (case option_code name of
                     None \<Rightarrow> Inl (OptionUnknown name)
                   | Some code \<Rightarrow>
                       if code = 1 then Inl OptionSubnetMask
                       else
                         let raw = option_value_text ts
                         in rbind (if code = 121 then routes_value raw else Inr raw) (\<lambda>raw.
                              Inr (code, if type_for code = Some ''boolean'' then boolean_value raw else raw))))"

section \<open>Match expressions\<close>

definition isc_option_fields :: "(string \<times> string \<times> string) list" where
  "isc_option_fields =
     [(''vendor-class-identifier'', ''vendor_class'', ''string''), (''user-class'', ''user_class'', ''string''),
      (''host-name'', ''hostname'', ''string''), (''dhcp-client-identifier'', ''client_id'', ''hex''),
      (''agent.circuit-id'', ''circuit_id'', ''string''), (''agent.remote-id'', ''remote_id'', ''hex'')]"

definition hex_pair :: "string \<Rightarrow> bool" where
  "hex_pair s = (s \<noteq> [] \<and> length s \<le> 2 \<and> list_all is_hex s)"

definition hex_word :: "string \<Rightarrow> bool" where
  "hex_word s = (let ps = split_on CHR '':'' (before_dollar s) in length ps \<ge> 2 \<and> list_all hex_pair ps)"

text \<open>The octets of a word of colon-separated hexadecimal, two digits each: \<open>_hex_colon\<close>.\<close>

definition two_digits :: "string \<Rightarrow> string" where
  "two_digits p = map lower_char (replicate (2 - length p) CHR ''0'' @ p)"

definition hex_octets :: "string \<Rightarrow> string list" where
  "hex_octets w = map two_digits (split_on CHR '':'' (before_dollar w))"

definition hex_colon :: "string \<Rightarrow> string" where
  "hex_colon w = join_with '':'' (hex_octets w)"

definition paren_depth :: "int \<Rightarrow> isc_tok \<Rightarrow> int" where
  "paren_depth d t = (if is_mark ''('' t then d + 1 else if is_mark '')'' t then d - 1 else d)"

fun split_loop :: "string list \<Rightarrow> int \<Rightarrow> isc_tok list \<Rightarrow> isc_tok list \<Rightarrow> isc_tok list list" where
  "split_loop seps d cur [] = [cur]"
| "split_loop seps d cur (t # ts) =
     (let d' = paren_depth d t
      in if d' = 0 \<and> \<not> tk_quoted t \<and> lower (tk_text t) \<in> set seps then cur # split_loop seps d' [] ts
         else split_loop seps d' (cur @ [t]) ts)"

definition split_top :: "string list \<Rightarrow> isc_tok list \<Rightarrow> isc_tok list list" where
  "split_top seps ts = split_loop seps 0 [] ts"

text \<open>Whether a closing parenthesis before the last token closes the first one.\<close>

fun closes_early :: "int \<Rightarrow> isc_tok list \<Rightarrow> bool" where
  "closes_early d [] = False"
| "closes_early d (t # ts) =
     (if is_mark '')'' t \<and> paren_depth d t = 0 \<and> ts \<noteq> [] then True else closes_early (paren_depth d t) ts)"

function strip_parens :: "isc_tok list \<Rightarrow> isc_tok list" where
  "strip_parens ts =
     (if length ts \<ge> 2 \<and> tk_text (hd ts) = ''('' \<and> tk_text (last ts) = '')'' \<and> \<not> tk_quoted (hd ts) \<and> \<not> closes_early 0 ts
      then strip_parens (butlast (tl ts)) else ts)"
  by pat_completeness auto
termination by (relation "measure length") auto

declare strip_parens.simps [simp del]

datatype match_problem =
    NotAComparison | RightSide | SubstringArgs | SubstringNumbers | HardwareValue | HardwareType | HardwareOffset
  | HardwareLength | OptionUnmatched | OptionValue | SubstringOnHex | NotPrintable | SubstringOffset | NeverMatches
  | Subject | EmptyMatch | MixedKinds | NestedMatch

text \<open>The subject of a comparison, the offset and, of a \<open>substring\<close>, the length.\<close>

definition match_subject :: "isc_tok list \<Rightarrow> (match_problem, isc_tok list \<times> int \<times> int option) sum" where
  "match_subject lhs =
     (if lower (tk_text (hd lhs)) = ''substring'' \<and> length lhs \<ge> 4 \<and> tk_text (lhs ! 1) = ''('' \<and> tk_text (last lhs) = '')'' then
        (case split_top ['',''] (butlast (drop 2 lhs)) of
           [what, [o1], [l1]] \<Rightarrow>
             (case (py_int (tk_text o1), py_int (tk_text l1)) of
                (Inr offset, Inr len) \<Rightarrow> Inr (what, offset, Some len)
              | _ \<Rightarrow> Inl SubstringNumbers)
         | _ \<Rightarrow> Inl SubstringArgs)
      else Inr (lhs, 0, None))"

definition hardware_rule :: "isc_tok \<Rightarrow> int \<Rightarrow> int option \<Rightarrow> (match_problem, rule) sum" where
  "hardware_rule v offset prefix =
     (if tk_quoted v \<or> \<not> hex_word (tk_text v) then Inl HardwareValue
      else
        let octets = hex_octets (tk_text v)
        in (case prefix of
              None \<Rightarrow>
                if length octets \<noteq> 7 \<or> hd octets \<noteq> ''01'' then Inl HardwareType
                else Inr \<lparr>r_field = ''mac'', r_op = ''equals'', r_value = join_with '':'' (tl octets)\<rparr>
            | Some n \<Rightarrow>
                if offset \<noteq> 1 then Inl HardwareOffset
                else if n = 6 \<and> length octets = 6 then Inr \<lparr>r_field = ''mac'', r_op = ''equals'', r_value = join_with '':'' octets\<rparr>
                else if n = 3 \<and> length octets = 3 then Inr \<lparr>r_field = ''mac_oui'', r_op = ''equals'', r_value = join_with '':'' octets\<rparr>
                else Inl HardwareLength))"

definition hex_option_rule :: "string \<Rightarrow> isc_tok \<Rightarrow> int option \<Rightarrow> (match_problem, rule) sum" where
  "hex_option_rule fld v prefix =
     (if \<not> tk_quoted v \<and> \<not> hex_word (tk_text v) then Inl OptionValue
      else if prefix \<noteq> None then Inl SubstringOnHex
      else Inr \<lparr>r_field = fld, r_op = ''equals'',
                r_value = (if tk_quoted v then to_hex (tk_text v) else hex_colon (tk_text v))\<rparr>)"

text \<open>The text a string option is compared to; a colon-hex word stands for the ASCII text of its bytes.\<close>

definition string_value :: "isc_tok \<Rightarrow> (match_problem, string) sum" where
  "string_value v =
     (if tk_quoted v then Inr (tk_text v)
      else if hex_word (tk_text v) then
        (case from_hex (concat (hex_octets (tk_text v))) of
           Inr b \<Rightarrow> (if is_ascii b then Inr b else Inl NotPrintable)
         | Inl e \<Rightarrow> Inl NotPrintable)
      else Inr (tk_text v))"

definition string_option_rule :: "string \<Rightarrow> isc_tok \<Rightarrow> int \<Rightarrow> int option \<Rightarrow> (match_problem, rule) sum" where
  "string_option_rule fld v offset prefix =
     rbind (string_value v) (\<lambda>value.
       case prefix of
         None \<Rightarrow> Inr \<lparr>r_field = fld, r_op = ''equals'', r_value = value\<rparr>
       | Some n \<Rightarrow>
           if offset \<noteq> 0 then Inl SubstringOffset
           else if int (py_len value) \<noteq> n then Inl NeverMatches
           else Inr \<lparr>r_field = fld, r_op = ''starts_with'', r_value = value\<rparr>)"

definition comparison_to_rule :: "isc_tok list \<Rightarrow> (match_problem, rule) sum" where
  "comparison_to_rule toks =
     (case split_top [''=''] toks of
        [lhs, rhs] \<Rightarrow>
          if lhs = [] \<or> rhs = [] then Inl NotAComparison
          else if length rhs \<noteq> 1 then Inl RightSide
          else rbind (match_subject lhs) (\<lambda>(subject, offset, prefix).
            case map (\<lambda>t. lower (tk_text t)) subject of
              [w] \<Rightarrow> if w = ''hardware'' then hardware_rule (hd rhs) offset prefix else Inl Subject
            | [w, name] \<Rightarrow>
                if w \<noteq> ''option'' then Inl Subject
                else (case map_of isc_option_fields name of
                        None \<Rightarrow> Inl OptionUnmatched
                      | Some (fld, kind) \<Rightarrow>
                          if kind = ''hex'' then hex_option_rule fld (hd rhs) prefix
                          else string_option_rule fld (hd rhs) offset prefix)
            | _ \<Rightarrow> Inl Subject)
      | _ \<Rightarrow> Inl NotAComparison)"

definition boolean_word :: "isc_tok \<Rightarrow> bool" where
  "boolean_word t = (lower (tk_text t) \<in> {''and'', ''or'', ''not''} \<and> \<not> tk_quoted t)"

fun parts_to_rules :: "isc_tok list list \<Rightarrow> (match_problem, rule list) sum" where
  "parts_to_rules [] = Inr []"
| "parts_to_rules (p # ps) =
     (let part = strip_parens p
      in if list_ex boolean_word part then Inl NestedMatch
         else rbind (comparison_to_rule part) (\<lambda>r. rbind (parts_to_rules ps) (\<lambda>rs. Inr (r # rs))))"

text \<open>The rules, whether any of them is enough, and whether the whole is negated.\<close>

definition match_to_rules :: "isc_tok list \<Rightarrow> (match_problem, rule list \<times> bool \<times> bool) sum" where
  "match_to_rules toks =
     (let t1 = strip_parens toks;
          negate = (t1 \<noteq> [] \<and> lower (tk_text (hd t1)) = ''not'' \<and> \<not> tk_quoted (hd t1));
          t2 = (if negate then strip_parens (tl t1) else t1)
      in if t2 = [] then Inl EmptyMatch
         else
           let ands = split_top [''and''] t2; ors = split_top [''or''] t2
           in if length ands > 1 \<and> length ors > 1 then Inl MixedKinds
              else
                let (parts, any) = (if length ands > 1 then (ands, False) else if length ors > 1 then (ors, True) else ([t2], False))
                in rbind (parts_to_rules parts) (\<lambda>rs. Inr (rs, any, negate)))"

end
