(* ===== verification/IscImport.thy ===== *)
theory IscImport
  imports IscMatch Pools
begin

text \<open>
  The interpretation of a parsed dhcpd.conf: \<open>src/jen/services/isc_dhcp_import.py\<close> from \<open>_Interp\<close> on. The
  interpreter's object and the context a block inherits are records, threaded through; a method that can raise
  returns a result. A warning is its kind and its line; the wording is not modelled. Numbers as text and quoted
  values are those of Python, an IPv6 address in the file is recognised as one because \<open>valid_ip\<close> lets it pass.
\<close>

section \<open>Addresses of both families\<close>

text \<open>What \<open>ipaddress\<close> reads as an IPv6 address.\<close>

definition hextet :: "string \<Rightarrow> bool" where
  "hextet p = (p \<noteq> [] \<and> length p \<le> 4 \<and> list_all is_hex p)"

definition hextets_ok :: "string list \<Rightarrow> bool" where
  "hextets_ok parts =
     (let n = length parts; empties = filter (\<lambda>i. parts ! i = []) [1..<n - 1]
      in n \<le> 9 \<and>
         (case empties of
            [] \<Rightarrow> n = 8 \<and> list_all hextet parts
          | [i] \<Rightarrow>
              (hd parts = [] \<longrightarrow> i = 1) \<and> (last parts = [] \<longrightarrow> i = n - 2) \<and>
              (let high = (if hd parts = [] then 0 else i); low = (if last parts = [] then 0 else n - i - 1)
               in high + low < 8 \<and> list_all hextet (take high parts) \<and> list_all hextet (drop (n - low) parts))
          | _ \<Rightarrow> False))"

definition ipv6_body :: "string \<Rightarrow> bool" where
  "ipv6_body s =
     (let parts = split_on CHR '':'' s
      in CHR ''/'' \<notin> set s \<and> length parts \<ge> 3 \<and>
         (if CHR ''.'' \<in> set (last parts) then ip_of_string (last parts) \<noteq> None \<and> hextets_ok (butlast parts @ [''0'', ''0''])
          else hextets_ok parts))"

definition is_ipv6 :: "string \<Rightarrow> bool" where
  "is_ipv6 s =
     (case split_on CHR ''%'' s of
        [a] \<Rightarrow> ipv6_body a
      | [a, zone] \<Rightarrow> zone \<noteq> [] \<and> ipv6_body a
      | _ \<Rightarrow> False)"

definition valid_ip :: "string \<Rightarrow> bool" where
  "valid_ip s = (ip_of_string (strip s) \<noteq> None \<or> is_ipv6 (strip s))"

section \<open>State\<close>

record isc_class =
  ic_name :: string
  ic_line :: nat
  ic_rules :: "rule list"
  ic_any :: bool
  ic_negate :: bool
  ic_options :: options
  ic_reason :: "string option"
  ic_referenced :: bool

record ctx =
  cx_options :: options
  cx_lease :: "int option"
  cx_next_server :: string
  cx_boot_file :: string
  cx_host_names :: bool
  cx_group_options :: options
  cx_in_group :: bool

definition empty_ctx :: ctx where
  "empty_ctx = \<lparr>cx_options = [], cx_lease = None, cx_next_server = [], cx_boot_file = [], cx_host_names = False,
     cx_group_options = [], cx_in_group = False\<rparr>"

type_synonym isc_warning = "string \<times> nat"

text \<open>The plan under construction and the interpreter's own bookkeeping.\<close>

record interp =
  in_warnings :: "isc_warning list"
  in_server_options :: options
  in_scopes :: "scope list"
  in_supers :: "(string \<times> string list) list"
  in_global :: "policy list"
  in_classes :: "(string \<times> isc_class) list"
  in_pending :: "(reservation \<times> nat) list"
  in_quiet :: "(string \<times> nat) list"
  in_noted :: "string list"

definition empty_interp :: interp where
  "empty_interp = \<lparr>in_warnings = [], in_server_options = [], in_scopes = [], in_supers = [], in_global = [],
     in_classes = [], in_pending = [], in_quiet = [], in_noted = []\<rparr>"

definition warn :: "string \<Rightarrow> nat \<Rightarrow> interp \<Rightarrow> interp" where
  "warn kind line s = s\<lparr>in_warnings := in_warnings s @ [(kind, line)]\<rparr>"

definition note_once :: "string \<Rightarrow> nat \<Rightarrow> interp \<Rightarrow> interp" where
  "note_once key line s = (if key \<in> set (in_noted s) then s else warn key line (s\<lparr>in_noted := in_noted s @ [key]\<rparr>))"

definition be_quiet :: "stmt \<Rightarrow> interp \<Rightarrow> interp" where
  "be_quiet st s = s\<lparr>in_quiet := in_quiet s @ [(st_kw st, st_line st)]\<rparr>"

definition quiet_directives :: "string list" where
  "quiet_directives =
     [''log-facility'', ''pid-file-name'', ''lease-file-name'', ''db-time-format'', ''local-port'', ''local-address'',
      ''ping-check'', ''ping-timeout'', ''one-lease-per-client'', ''get-lease-hostnames'', ''dynamic-bootp-lease-length'',
      ''min-lease-time'', ''always-broadcast'', ''always-reply-rfc1048'', ''boot-unknown-clients'', ''ignore-client-uids'',
      ''server-identifier'', ''server-name'', ''stash-agent-options'', ''update-conflict-detection'',
      ''update-optimization'', ''do-forward-updates'', ''adaptive-lease-time-threshold'', ''min-secs'', ''lease-limit'',
      ''infinite-is-reserved'', ''limit-addrs-per-ia'']"

definition ddns_directives :: "string list" where
  "ddns_directives =
     [''ddns-update-style'', ''ddns-updates'', ''ddns-domainname'', ''ddns-rev-domainname'', ''ddns-hostname'',
      ''ddns-ttl'', ''update-static-leases'', ''key'', ''zone'', ''do-reverse-updates'', ''client-updates'',
      ''ddns-other-guard-updates'']"

section \<open>Small handlers\<close>

definition word_at :: "stmt \<Rightarrow> nat \<Rightarrow> string option" where
  "word_at st i = (if i < length (st_head st) then Some (tk_text (st_head st ! i)) else None)"

definition word_or_empty :: "stmt \<Rightarrow> nat \<Rightarrow> string" where
  "word_or_empty st i = (case word_at st i of Some w \<Rightarrow> w | None \<Rightarrow> [])"

definition int_of_stmt :: "stmt \<Rightarrow> interp \<Rightarrow> int option \<times> interp" where
  "int_of_stmt st s =
     (case word_at st 1 of
        None \<Rightarrow> (None, warn ''not a number'' (st_line st) s)
      | Some w \<Rightarrow> (case py_int w of Inr i \<Rightarrow> (Some i, s) | Inl e \<Rightarrow> (None, warn ''not a number'' (st_line st) s)))"

definition handle_option :: "stmt \<Rightarrow> bool \<Rightarrow> ctx \<Rightarrow> interp \<Rightarrow> ctx \<times> interp" where
  "handle_option st at_global cx s =
     (case option_statement (tl (st_head st)) of
        Inl p \<Rightarrow> (cx, warn ''option'' (st_line st) s)
      | Inr (code, raw) \<Rightarrow>
          if at_global then (cx, s\<lparr>in_server_options := AList.update code raw (in_server_options s)\<rparr>)
          else
            (let cx = cx\<lparr>cx_options := AList.update code raw (cx_options cx)\<rparr>
             in if cx_in_group cx then cx\<lparr>cx_group_options := AList.update code raw (cx_group_options cx)\<rparr> else cx, s))"

text \<open>The allow and deny lines a pool collects.\<close>

record isc_pool =
  ip_ranges :: "(nat \<times> nat \<times> nat) list"
  ip_allow :: "(string \<times> nat) list"
  ip_deny :: "(string \<times> nat) list"
  ip_line :: nat

definition allow_deny :: "stmt \<Rightarrow> isc_pool option \<Rightarrow> interp \<Rightarrow> isc_pool option \<times> interp" where
  "allow_deny st pool s =
     (let words = map lower (st_words st); line = st_line st; target = join_with '' '' (tl words)
      in if hd words \<in> {''allow'', ''deny''} \<and> length words \<ge> 4 \<and> words ! 1 = ''members'' \<and> words ! 2 = ''of'' then
           (let name = tk_text (st_head st ! 3)
            in case pool of
                 None \<Rightarrow> (None, warn ''members outside a pool'' line s)
               | Some p \<Rightarrow>
                   (Some (if hd words = ''allow'' then p\<lparr>ip_allow := ip_allow p @ [(name, line)]\<rparr>
                          else p\<lparr>ip_deny := ip_deny p @ [(name, line)]\<rparr>), s))
         else if target = ''unknown-clients'' \<or> target = ''unknown clients'' then
           (pool, if hd words = ''deny'' then note_once ''deny-unknown'' line s else s)
         else if contains ''bootp'' target \<or> target = ''booting'' then (pool, note_once ''bootp'' line s)
         else if target \<in> {''client-updates'', ''duplicates'', ''declines'', ''leasequery''} then (pool, note_once target line s)
         else (pool, warn ''allow or deny not recognized'' line s))"

section \<open>Hosts\<close>

definition mac_word :: "string \<Rightarrow> bool" where
  "mac_word w = (let ps = split_on CHR '':'' (before_dollar w) in length ps = 6 \<and> list_all hex_pair ps)"

definition isc_mac :: "string \<Rightarrow> string option" where
  "isc_mac w = (if mac_word w then Some (hex_colon w) else None)"

text \<open>Runs of other characters become one hyphen, runs of hyphens too, and the ends lose hyphens and dots.\<close>

definition host_char :: "char \<Rightarrow> bool" where
  "host_char c = (is_letter c \<or> is_digit c \<or> c = CHR ''.'' \<or> c = CHR ''-'')"

fun squeeze :: "string \<Rightarrow> string" where
  "squeeze [] = []"
| "squeeze [c] = [c]"
| "squeeze (c # d # cs) = (if c = CHR ''-'' \<and> d = CHR ''-'' then squeeze (d # cs) else c # squeeze (d # cs))"

definition end_mark :: "char \<Rightarrow> bool" where
  "end_mark c = (c = CHR ''-'' \<or> c = CHR ''.'')"

definition sanitize_hostname :: "string \<Rightarrow> string" where
  "sanitize_hostname name =
     (let s = squeeze (map (\<lambda>c. if host_char c then c else CHR ''-'') name)
      in rev (dropWhile end_mark (rev (dropWhile end_mark s))))"

definition host_label :: "string \<Rightarrow> bool" where
  "host_label l =
     (l \<noteq> [] \<and> length l \<le> 63 \<and> list_all (\<lambda>c. is_letter c \<or> is_digit c \<or> c = CHR ''-'') l \<and>
      hd l \<noteq> CHR ''-'' \<and> last l \<noteq> CHR ''-'')"

definition valid_hostname :: "string \<Rightarrow> bool" where
  "valid_hostname h = (h = [] \<or> py_len h \<le> 253 \<and> list_all host_label (split_on CHR ''.'' (before_dollar h)))"

text \<open>What the loop over a host's block has found; \<open>None\<close> instead of it when the host is skipped on the way.\<close>

record host_build =
  hb_mac :: "string option"
  hb_ip :: "string option"
  hb_hostname :: string
  hb_options :: options
  hb_blocked :: bool
  hb_client_id :: bool

definition problem_text :: "option_problem \<Rightarrow> string" where
  "problem_text p =
     (case p of OptionDefinition n \<Rightarrow> n | OptionInSpace n \<Rightarrow> n | OptionUnknown n \<Rightarrow> n | _ \<Rightarrow> [])"

definition host_option :: "string \<Rightarrow> stmt \<Rightarrow> host_build \<Rightarrow> interp \<Rightarrow> host_build \<times> interp" where
  "host_option decl_name h hb s =
     (case option_statement (tl (st_head h)) of
        Inl p \<Rightarrow>
          (if contains ''dhcp-client-identifier'' decl_name \<or> contains ''dhcp-client-identifier'' (problem_text p)
           then hb\<lparr>hb_client_id := True\<rparr> else hb, warn ''option'' (st_line h) s)
      | Inr (code, raw) \<Rightarrow>
          (if code = 12 then hb\<lparr>hb_hostname := raw\<rparr>
           else if code = 61 then hb\<lparr>hb_client_id := True\<rparr>
           else hb\<lparr>hb_options := AList.update code raw (hb_options hb)\<rparr>, s))"

definition fixed_address :: "stmt \<Rightarrow> nat \<Rightarrow> host_build \<Rightarrow> interp \<Rightarrow> host_build \<times> interp" where
  "fixed_address h line hb s =
     (case filter (\<lambda>w. w \<noteq> '','') (tl (st_words h)) of
        [] \<Rightarrow> (hb\<lparr>hb_ip := None\<rparr>, s)
      | [a] \<Rightarrow> (hb\<lparr>hb_ip := Some a\<rparr>, s)
      | a # b # rest \<Rightarrow> (hb\<lparr>hb_ip := Some a\<rparr>, warn ''several addresses'' line s))"

fun host_block :: "string \<Rightarrow> nat \<Rightarrow> stmt list \<Rightarrow> host_build \<Rightarrow> interp \<Rightarrow> host_build option \<times> interp" where
  "host_block decl_name line [] hb s = (Some hb, s)"
| "host_block decl_name line (h # hs) hb s =
     (let kw = st_kw h
      in if kw = ''hardware'' then
           (if length (st_head h) \<ge> 3 \<and> lower (st_words h ! 1) = ''ethernet'' then
              (case isc_mac (st_words h ! 2) of
                 None \<Rightarrow> (None, warn ''not a MAC'' line s)
               | Some m \<Rightarrow> host_block decl_name line hs (hb\<lparr>hb_mac := Some m\<rparr>) s)
            else (None, warn ''not ethernet'' line s))
         else if kw = ''fixed-address'' then
           (case fixed_address h line hb s of (hb', s') \<Rightarrow> host_block decl_name line hs hb' s')
         else if kw = ''option'' then
           (case host_option decl_name h hb s of (hb', s') \<Rightarrow> host_block decl_name line hs hb' s')
         else if (kw = ''deny'' \<or> kw = ''ignore'') \<and> length (st_head h) > 1 \<and> lower (st_words h ! 1) = ''booting'' then
           host_block decl_name line hs (hb\<lparr>hb_blocked := True\<rparr>) s
         else if kw = ''filename'' \<or> kw = ''next-server'' then host_block decl_name line hs hb (warn ''per-host'' line s)
         else if kw \<in> set ddns_directives then host_block decl_name line hs hb (note_once ''ddns'' (st_line h) s)
         else if kw = ''default-lease-time'' \<or> kw = ''max-lease-time'' then
           host_block decl_name line hs hb (warn ''per-host lease'' line s)
         else if kw \<in> set quiet_directives then host_block decl_name line hs hb (be_quiet h s)
         else host_block decl_name line hs hb (warn ''not supported'' line s))"

text \<open>The reservation of a host, once its block is read.\<close>

definition finish_host :: "string \<Rightarrow> nat \<Rightarrow> host_build \<Rightarrow> interp \<Rightarrow> reservation option \<times> interp" where
  "finish_host decl_name line hb s =
     (if hb_blocked hb then (None, warn ''deny booting'' line s)
      else case hb_mac hb of
        None \<Rightarrow> (None, warn (if hb_client_id hb then ''client id only'' else ''no hardware'') line s)
      | Some mac \<Rightarrow>
          (case hb_ip hb of
             None \<Rightarrow> (None, warn ''no address'' line s)
           | Some ip \<Rightarrow>
               if ip = [] then (None, warn ''no address'' line s)
               else if \<not> valid_ip ip then (None, warn ''not an address'' line s)
               else
                 let name = (if hb_hostname hb = [] then decl_name else hb_hostname hb);
                     clean = sanitize_hostname name;
                     ok = (name = [] \<or> valid_hostname clean \<and> clean \<noteq> [])
                 in (Some \<lparr>rv_mac = mac, rv_ip = ip, rv_hostname = (if ok \<and> name \<noteq> [] then clean else []),
                           rv_options = hb_options hb\<rparr>,
                     if ok then s else warn ''hostname'' line s)))"

definition handle_host :: "stmt \<Rightarrow> ctx \<Rightarrow> interp \<Rightarrow> reservation option \<times> interp" where
  "handle_host st cx s =
     (case st_body st of
        None \<Rightarrow> (None, warn ''host without a block'' (st_line st) s)
      | Some body \<Rightarrow>
          (case host_block (word_or_empty st 1) (st_line st) body
                  \<lparr>hb_mac = None, hb_ip = None, hb_hostname = [], hb_options = cx_group_options cx, hb_blocked = False,
                   hb_client_id = False\<rparr> s of
             (None, s') \<Rightarrow> (None, s')
           | (Some hb, s') \<Rightarrow> finish_host (word_or_empty st 1) (st_line st) hb s'))"

text \<open>A host outside a subnet waits until the end of the file.\<close>

definition pending_host :: "stmt \<Rightarrow> ctx \<Rightarrow> interp \<Rightarrow> interp" where
  "pending_host st cx s =
     (case handle_host st cx s of
        (None, s') \<Rightarrow> s'
      | (Some r, s') \<Rightarrow> s'\<lparr>in_pending := in_pending s' @ [(r, st_line st)]\<rparr>)"

end
