(* ===== verification/IscScopes.thy ===== *)
theory IscScopes
  imports IscImport
begin

text \<open>
  Classes, pools, subnets and the walk over the statements: the rest of the interpreter of
  \<open>src/jen/services/isc_dhcp_import.py\<close>, up to the finished plan, and the reading of a leases file.
\<close>

section \<open>Classes\<close>

definition class_match :: "stmt \<Rightarrow> isc_class \<Rightarrow> isc_class" where
  "class_match c cd =
     (if length (st_head c) > 1 \<and> lower (st_words c ! 1) = ''if'' then
        (case match_to_rules (drop 2 (st_head c)) of
           Inl p \<Rightarrow> cd\<lparr>ic_reason := Some ''match''\<rparr>
         | Inr (rules, any, negate) \<Rightarrow> cd\<lparr>ic_rules := rules, ic_any := any, ic_negate := negate\<rparr>)
      else cd\<lparr>ic_reason := Some ''subclass model''\<rparr>)"

fun class_block :: "stmt list \<Rightarrow> bool \<Rightarrow> isc_class \<Rightarrow> interp \<Rightarrow> bool \<times> isc_class \<times> interp" where
  "class_block [] matched cd s = (matched, cd, s)"
| "class_block (c # cs) matched cd s =
     (let kw = st_kw c
      in if kw = ''match'' then class_block cs True (class_match c cd) s
         else if kw = ''spawn'' then class_block cs matched (cd\<lparr>ic_reason := Some ''spawn''\<rparr>) s
         else if kw = ''option'' then
           (case option_statement (tl (st_head c)) of
              Inl p \<Rightarrow> class_block cs matched cd (warn ''option'' (st_line c) s)
            | Inr (code, raw) \<Rightarrow> class_block cs matched (cd\<lparr>ic_options := AList.update code raw (ic_options cd)\<rparr>) s)
         else if kw = ''filename'' then
           class_block cs matched
             (case word_at c 1 of None \<Rightarrow> cd | Some w \<Rightarrow> cd\<lparr>ic_options := AList.update 67 w (ic_options cd)\<rparr>) s
         else class_block cs matched cd (warn ''inside a class'' (st_line c) s))"

definition handle_class :: "stmt \<Rightarrow> interp \<Rightarrow> interp" where
  "handle_class st s =
     (case (word_at st 1, st_body st) of
        (Some source, Some body) \<Rightarrow>
          let ok = valid_class_name source;
              name = (if ok then source else sanitize_class_name source);
              s = (if ok then s else warn ''class renamed'' (st_line st) s)
          in if map_of (in_classes s) source \<noteq> None then warn ''class declared twice'' (st_line st) s
             else
               (case class_block body False
                       \<lparr>ic_name = name, ic_line = st_line st, ic_rules = [], ic_any = False, ic_negate = False,
                        ic_options = [], ic_reason = None, ic_referenced = False\<rparr> s of
                  (matched, cd, s) \<Rightarrow>
                    let cd = (if \<not> matched \<and> ic_reason cd = None then cd\<lparr>ic_reason := Some ''no match''\<rparr> else cd);
                        s = (if ic_reason cd \<noteq> None then warn ''class not imported'' (st_line st) s else s)
                    in s\<lparr>in_classes := AList.update source cd (in_classes s)\<rparr>)
      | _ \<Rightarrow> warn ''class without a block'' (st_line st) s)"

definition class_policy :: "isc_class \<Rightarrow> policy" where
  "class_policy cd =
     \<lparr>po_name = ic_name cd, po_enabled = True, po_order = 0, po_any = ic_any cd, po_conditions = [], po_ranges = [],
      po_options = ic_options cd, po_rules = ic_rules cd, po_negate = ic_negate cd\<rparr>"

definition ensure_global :: "isc_class \<Rightarrow> interp \<Rightarrow> interp" where
  "ensure_global cd s =
     (if \<exists>p \<in> set (in_global s). po_name p = ic_name cd then s
      else s\<lparr>in_global := in_global s @ [class_policy cd]\<rparr>)"

section \<open>Guards of pools\<close>

record guard =
  gd_name :: string
  gd_rules :: "rule list"
  gd_any :: bool
  gd_negate :: bool
  gd_options :: options

text \<open>The classes a guard names, each marked as referenced; the first one that cannot be used ends it.\<close>

fun guard_classes_of :: "(string \<times> nat) list \<Rightarrow> interp \<Rightarrow> isc_class list option \<times> interp" where
  "guard_classes_of [] s = (Some [], s)"
| "guard_classes_of ((source, line) # rest) s =
     (case map_of (in_classes s) source of
        None \<Rightarrow> (None, warn ''class not declared'' line s)
      | Some cd \<Rightarrow>
          if ic_reason cd \<noteq> None then (None, warn ''class not usable'' line s)
          else (case guard_classes_of rest (s\<lparr>in_classes := AList.update source (cd\<lparr>ic_referenced := True\<rparr>) (in_classes s)\<rparr>) of
                  (None, s') \<Rightarrow> (None, s')
                | (Some cds, s') \<Rightarrow> (Some (cd # cds), s')))"

definition member_rules :: "isc_class list \<Rightarrow> rule list" where
  "member_rules cds = map (\<lambda>c. \<lparr>r_field = ''member'', r_op = ''equals'', r_value = ic_name c\<rparr>) cds"

definition pool_guard :: "isc_pool \<Rightarrow> interp \<Rightarrow> guard option \<times> interp" where
  "pool_guard pool s =
     (if ip_allow pool = [] \<and> ip_deny pool = [] then (None, s)
      else
        let both = ip_allow pool \<noteq> [] \<and> ip_deny pool \<noteq> [];
            s = (if both then warn ''allow and deny'' (ip_line pool) s else s);
            denies = (if both then [] else ip_deny pool)
        in (case guard_classes_of (if ip_allow pool \<noteq> [] then ip_allow pool else denies) s of
              (None, s) \<Rightarrow> (None, s)
            | (Some cds, s) \<Rightarrow>
                let joined = join_with ''_or_'' (map ic_name cds)
                in if denies \<noteq> [] then
                     (Some \<lparr>gd_name = sanitize_class_name (''not_'' @ joined), gd_rules = member_rules cds, gd_any = True,
                            gd_negate = True, gd_options = []\<rparr>, fold ensure_global cds s)
                   else if length cds = 1 then
                     (let c = hd cds
                      in (Some \<lparr>gd_name = ic_name c, gd_rules = ic_rules c, gd_any = ic_any c, gd_negate = ic_negate c,
                                gd_options = ic_options c\<rparr>, s))
                   else
                     (Some \<lparr>gd_name = sanitize_class_name joined, gd_rules = member_rules cds, gd_any = True,
                            gd_negate = False, gd_options = []\<rparr>, fold ensure_global cds s)))"

definition guard_policy :: "guard \<Rightarrow> int \<Rightarrow> nat \<times> nat \<times> nat \<Rightarrow> policy" where
  "guard_policy g order r =
     \<lparr>po_name = gd_name g, po_enabled = True, po_order = order, po_any = gd_any g, po_conditions = [],
      po_ranges = [(int2ip (fst r), int2ip (fst (snd r)))], po_options = gd_options g, po_rules = gd_rules g,
      po_negate = gd_negate g\<rparr>"

text \<open>One policy per range of a guarded pool, numbered through.\<close>

fun guard_policies :: "isc_pool list \<Rightarrow> int \<Rightarrow> interp \<Rightarrow> policy list \<times> interp" where
  "guard_policies [] order s = ([], s)"
| "guard_policies (p # ps) order s =
     (case pool_guard p s of
        (None, s') \<Rightarrow> guard_policies ps order s'
      | (Some g, s') \<Rightarrow>
          (case guard_policies ps (order + int (length (ip_ranges p))) s' of
             (pols, s'') \<Rightarrow> (map (\<lambda>(i, r). guard_policy g (order + int i + 1) r) (enumerate 0 (ip_ranges p)) @ pols, s'')))"

section \<open>Ranges\<close>

text \<open>A range inside the network, turned round when it is written backwards; the addresses may be too odd to convert.\<close>

definition add_range :: "ip_net \<Rightarrow> stmt \<Rightarrow> interp \<Rightarrow> ((nat \<times> nat \<times> nat) list \<times> interp) res" where
  "add_range net st s =
     (let rw = filter (\<lambda>w. lower w \<noteq> ''dynamic-bootp'') (tl (st_words st)); line = st_line st
      in if rw = [] \<or> \<not> list_all valid_ip rw then Inr ([], warn ''range needs addresses'' line s)
         else rbind (ip2int (hd rw)) (\<lambda>a. rbind (ip2int (last rw)) (\<lambda>b.
           let lo = min a b; hi = max a b
           in if \<not> ip_in_net lo net \<or> \<not> ip_in_net hi net then Inr ([], warn ''range outside'' line s)
              else Inr ([(lo, hi, line)], s))))"

definition isc_range_le :: "nat \<times> nat \<times> nat \<Rightarrow> nat \<times> nat \<times> nat \<Rightarrow> bool" where
  "isc_range_le r q \<longleftrightarrow>
     fst r < fst q \<or> fst r = fst q \<and> (fst (snd r) < fst (snd q) \<or> fst (snd r) = fst (snd q) \<and> snd (snd r) \<le> snd (snd q))"

text \<open>Ascending ranges, merged where they touch or overlap; overlaps are noted.\<close>

fun merge_ranges :: "(nat \<times> nat \<times> nat) list \<Rightarrow> segments \<Rightarrow> interp \<Rightarrow> segments \<times> interp" where
  "merge_ranges [] merged s = (merged, s)"
| "merge_ranges ((lo, hi, line) # rs) merged s =
     (if merged \<noteq> [] \<and> lo \<le> snd (last merged) + 1 then
        merge_ranges rs (butlast merged @ [(fst (last merged), max (snd (last merged)) hi)])
          (if lo \<le> snd (last merged) then warn ''range overlaps'' line s else s)
      else merge_ranges rs (merged @ [(lo, hi)]) s)"

text \<open>The gaps between neighbours.\<close>

fun gaps :: "segments \<Rightarrow> (string \<times> string) list" where
  "gaps (p # q # rest) = (int2ip (snd p + 1), int2ip (fst q - 1)) # gaps (q # rest)"
| "gaps segs = []"

section \<open>Subnets\<close>

record subnet_build =
  sb_ctx :: ctx
  sb_ranges :: "(nat \<times> nat \<times> nat) list"
  sb_pools :: "isc_pool list"
  sb_hosts :: "reservation list"

fun pool_block :: "ip_net \<Rightarrow> stmt list \<Rightarrow> isc_pool \<Rightarrow> interp \<Rightarrow> (isc_pool \<times> interp) res" where
  "pool_block net [] pool s = Inr (pool, s)"
| "pool_block net (p # ps) pool s =
     (if st_kw p = ''range'' then
        rbind (add_range net p s) (\<lambda>(rs, s'). pool_block net ps (pool\<lparr>ip_ranges := ip_ranges pool @ rs\<rparr>) s')
      else if st_kw p \<in> {''allow'', ''deny'', ''ignore''} then
        (case allow_deny p (Some pool) s of
           (Some pool', s') \<Rightarrow> pool_block net ps pool' s'
         | (None, s') \<Rightarrow> pool_block net ps pool s')
      else pool_block net ps pool (warn ''inside a pool'' (st_line p) s))"

definition subnet_pool :: "ip_net \<Rightarrow> stmt \<Rightarrow> subnet_build \<Rightarrow> interp \<Rightarrow> (subnet_build \<times> interp) res" where
  "subnet_pool net sub sb s =
     (case st_body sub of
        None \<Rightarrow> Inr (sb, s)
      | Some body \<Rightarrow>
          rbind (pool_block net body \<lparr>ip_ranges = [], ip_allow = [], ip_deny = [], ip_line = st_line sub\<rparr> s) (\<lambda>(pool, s').
            if ip_ranges pool = [] then Inr (sb, warn ''pool has no range'' (st_line sub) s')
            else Inr (sb\<lparr>sb_pools := sb_pools sb @ [pool], sb_ranges := sb_ranges sb @ ip_ranges pool\<rparr>, s')))"

definition add_host :: "stmt \<Rightarrow> ctx \<Rightarrow> reservation list \<Rightarrow> interp \<Rightarrow> reservation list \<times> interp" where
  "add_host st cx hosts s =
     (case handle_host st cx s of (None, s') \<Rightarrow> (hosts, s') | (Some r, s') \<Rightarrow> (hosts @ [r], s'))"

text \<open>A group inside a subnet: hosts and options.\<close>

fun subnet_group :: "stmt list \<Rightarrow> ctx \<Rightarrow> reservation list \<Rightarrow> interp \<Rightarrow> reservation list \<times> interp" where
  "subnet_group [] cx hosts s = (hosts, s)"
| "subnet_group (g # gs) cx hosts s =
     (if st_kw g = ''host'' then (case add_host g cx hosts s of (hosts', s') \<Rightarrow> subnet_group gs cx hosts' s')
      else if st_kw g = ''option'' then (case handle_option g False cx s of (cx', s') \<Rightarrow> subnet_group gs cx' hosts s')
      else subnet_group gs cx hosts (warn ''inside a group'' (st_line g) s))"

text \<open>The statements of a subnet that cannot raise.\<close>

definition subnet_plain :: "stmt \<Rightarrow> subnet_build \<Rightarrow> interp \<Rightarrow> subnet_build \<times> interp" where
  "subnet_plain sub sb s =
     (let kw = st_kw sub; line = st_line sub; cx = sb_ctx sb
      in if kw = ''host'' then (case add_host sub cx (sb_hosts sb) s of (hosts, s') \<Rightarrow> (sb\<lparr>sb_hosts := hosts\<rparr>, s'))
         else if kw = ''option'' then (case handle_option sub False cx s of (cx', s') \<Rightarrow> (sb\<lparr>sb_ctx := cx'\<rparr>, s'))
         else if kw = ''default-lease-time'' then
           (case int_of_stmt sub s of (l, s') \<Rightarrow> (sb\<lparr>sb_ctx := cx\<lparr>cx_lease := l\<rparr>\<rparr>, s'))
         else if kw = ''max-lease-time'' then (sb, note_once ''max-lease-time'' line s)
         else if kw = ''next-server'' then
           (case word_at sub 1 of
              Some w \<Rightarrow> (if valid_ip w then (sb\<lparr>sb_ctx := cx\<lparr>cx_next_server := w\<rparr>\<rparr>, s) else (sb, warn ''next-server'' line s))
            | None \<Rightarrow> (sb, warn ''next-server'' line s))
         else if kw = ''filename'' then (sb\<lparr>sb_ctx := cx\<lparr>cx_boot_file := word_or_empty sub 1\<rparr>\<rparr>, s)
         else if kw \<in> {''allow'', ''deny'', ''ignore''} then (sb, snd (allow_deny sub None s))
         else if kw = ''group'' then
           (case st_body sub of
              Some (g # gs) \<Rightarrow>
                (case subnet_group (g # gs) (cx\<lparr>cx_in_group := True\<rparr>) (sb_hosts sb) (note_once ''group'' line s) of
                   (hosts, s') \<Rightarrow> (sb\<lparr>sb_hosts := hosts\<rparr>, s'))
            | _ \<Rightarrow> (sb, s))
         else if kw \<in> set ddns_directives then (sb, note_once ''ddns'' line s)
         else if kw \<in> set quiet_directives then (sb, be_quiet sub s)
         else if kw = ''authoritative'' then (sb, s)
         else if kw \<in> {''if'', ''elsif'', ''else''} then (sb, note_once ''if'' line s)
         else if kw = ''class'' then (sb, handle_class sub (warn ''class in a subnet'' line s))
         else (sb, warn ''inside a subnet'' line s))"

fun subnet_block :: "ip_net \<Rightarrow> stmt list \<Rightarrow> subnet_build \<Rightarrow> interp \<Rightarrow> (subnet_build \<times> interp) res" where
  "subnet_block net [] sb s = Inr (sb, s)"
| "subnet_block net (sub # subs) sb s =
     (if st_kw sub = ''range'' then
        rbind (add_range net sub s) (\<lambda>(rs, s'). subnet_block net subs (sb\<lparr>sb_ranges := sb_ranges sb @ rs\<rparr>) s')
      else if st_kw sub = ''pool'' then rbind (subnet_pool net sub sb s) (\<lambda>(sb', s'). subnet_block net subs sb' s')
      else (case subnet_plain sub sb s of (sb', s') \<Rightarrow> subnet_block net subs sb' s'))"

text \<open>The comment above a subnet names it, without the dashes around: blanks, hyphens, em dashes and colons.\<close>

definition em_dash :: string where
  "em_dash = [CHR 0xE2, CHR 0x80, CHR 0x94]"

fun drop_dashes :: "string \<Rightarrow> string \<Rightarrow> string" where
  "drop_dashes dash [] = []"
| "drop_dashes dash (c # cs) =
     (if c \<in> set '' -:'' then drop_dashes dash cs
      else if length dash = 3 \<and> has_prefix dash (c # cs) then drop_dashes dash (drop 2 cs)
      else c # cs)"

definition trim_comment :: "string \<Rightarrow> string" where
  "trim_comment s = rev (drop_dashes (rev em_dash) (rev (drop_dashes em_dash s)))"

definition name_for_subnet :: "(nat \<times> string) list \<Rightarrow> nat \<Rightarrow> string \<Rightarrow> string option \<Rightarrow> string" where
  "name_for_subnet comments line cidr network =
     (let c = trim_comment (case map_of comments (line - 1) of Some t \<Rightarrow> t | None \<Rightarrow> [])
      in if c \<noteq> [] \<and> py_len c \<le> 64 \<and> \<not> has_prefix ''subnet'' (lower c) \<and> \<not> has_prefix ''range'' (lower c) \<and>
            \<not> has_prefix ''option'' (lower c)
         then c
         else (case network of Some n \<Rightarrow> if n \<noteq> [] then n @ '' '' @ cidr else cidr | None \<Rightarrow> cidr))"

definition default_lease_seconds :: int where
  "default_lease_seconds = 43200"

text \<open>The span of the merged ranges and the gaps in it, or the network's own address, excluded.\<close>

definition span_of :: "ip_net \<Rightarrow> segments \<Rightarrow> string \<times> string \<times> (string \<times> string) list" where
  "span_of net merged =
     (if merged \<noteq> [] then (int2ip (fst (hd merged)), int2ip (snd (last merged)), gaps merged)
      else (let a = int2ip (net_first net) in (a, a, [(a, a)])))"

definition add_scope :: "scope \<Rightarrow> string option \<Rightarrow> interp \<Rightarrow> interp" where
  "add_scope sc network s =
     (let s = s\<lparr>in_scopes := in_scopes s @ [sc]\<rparr>
      in case network of
           None \<Rightarrow> s
         | Some n \<Rightarrow> s\<lparr>in_supers := AList.update n ((case map_of (in_supers s) n of Some ids \<Rightarrow> ids | None \<Rightarrow> []) @ [sc_id sc]) (in_supers s)\<rparr>)"

definition finish_subnet ::
  "(nat \<times> string) list \<Rightarrow> nat \<Rightarrow> ip_net \<Rightarrow> ctx \<Rightarrow> string option \<Rightarrow> subnet_build \<Rightarrow> interp \<Rightarrow> interp" where
  "finish_subnet comments line net cx network sb s =
     (case merge_ranges (sort_by isc_range_le (sb_ranges sb)) [] s of
        (merged, s) \<Rightarrow>
          (case span_of net merged of
             (start, stop, exclusions) \<Rightarrow>
               (case guard_policies (sb_pools sb) 0 (if merged = [] then warn ''no range'' line s else s) of
                  (policies, s) \<Rightarrow>
                    let scope_ip = int2ip (net_first net); cidr = scope_ip @ ''/'' @ show_nat (snd net); sx = sb_ctx sb
                    in add_scope
                         \<lparr>sc_id = scope_ip, sc_mask = int2ip (2 ^ 32 - 2 ^ (32 - snd net)),
                          sc_name = name_for_subnet comments line cidr network, sc_state = ''Active'',
                          sc_start = start, sc_end = stop,
                          sc_lease = (case cx_lease sx of Some l \<Rightarrow> l | None \<Rightarrow>
                                       (case cx_lease cx of Some l \<Rightarrow> l | None \<Rightarrow> default_lease_seconds)),
                          sc_exclusions = exclusions, sc_options = cx_options sx, sc_reservations = sb_hosts sb,
                          sc_policies = policies, sc_network = network, sc_next_server = cx_next_server sx,
                          sc_boot_file = cx_boot_file sx\<rparr> network s)))"

definition handle_subnet ::
  "(nat \<times> string) list \<Rightarrow> stmt \<Rightarrow> ctx \<Rightarrow> string option \<Rightarrow> interp \<Rightarrow> interp res" where
  "handle_subnet comments st cx network s =
     (let words = st_words st; line = st_line st
      in case st_body st of
           None \<Rightarrow> Inr (warn ''subnet syntax'' line s)
         | Some body \<Rightarrow>
             if length words < 4 \<or> lower (words ! 2) \<noteq> ''netmask'' then Inr (warn ''subnet syntax'' line s)
             else if \<not> valid_ip (words ! 1) \<or> \<not> valid_ip (words ! 3) then Inr (warn ''not addresses'' line s)
             else (case net_of_string (words ! 1 @ ''/'' @ show_nat (prefix_len (words ! 3))) of
                     None \<Rightarrow> Inr (warn ''not a network'' line s)
                   | Some net \<Rightarrow>
                       let scope_ip = int2ip (net_first net);
                           s = (if scope_ip \<noteq> words ! 1 then warn ''not the network address'' line s else s)
                       in if \<exists>sc \<in> set (in_scopes s). sc_id sc = scope_ip then Inr (warn ''subnet declared twice'' line s)
                          else rbind (subnet_block net body
                                  \<lparr>sb_ctx = cx\<lparr>cx_in_group := False\<rparr>, sb_ranges = [], sb_pools = [], sb_hosts = []\<rparr> s) (\<lambda>(sb, s).
                                Inr (finish_subnet comments line net cx network sb s))))"

section \<open>The walk\<close>

text \<open>The statements that neither recurse nor raise.\<close>

definition plain_statement :: "stmt \<Rightarrow> bool \<Rightarrow> ctx \<Rightarrow> interp \<Rightarrow> ctx \<times> interp" where
  "plain_statement st at_global cx s =
     (let kw = st_kw st; line = st_line st
      in if kw = ''option'' then handle_option st at_global cx s
         else if kw = ''default-lease-time'' then (case int_of_stmt st s of (l, s') \<Rightarrow> (cx\<lparr>cx_lease := l\<rparr>, s'))
         else if kw = ''max-lease-time'' then (cx, note_once ''max-lease-time'' line s)
         else if kw = ''authoritative'' then (cx, s)
         else if kw = ''not'' \<and> lower (word_or_empty st 1) = ''authoritative'' then (cx, note_once ''not-authoritative'' line s)
         else if kw \<in> set ddns_directives then (cx, note_once ''ddns'' line s)
         else if kw = ''host'' then (cx, pending_host st cx s)
         else if kw = ''class'' then (cx, handle_class st s)
         else if kw = ''subclass'' then (cx, warn ''subclass'' line s)
         else if kw = ''include'' then (cx, warn ''include'' line s)
         else if kw \<in> {''if'', ''elsif'', ''else''} then (cx, note_once ''if'' line s)
         else if kw = ''failover'' then (cx, warn ''failover'' line s)
         else if kw \<in> {''omapi-port'', ''omapi-key''} then (cx, note_once ''omapi'' line s)
         else if kw = ''next-server'' then
           (case word_at st 1 of
              Some w \<Rightarrow> (if valid_ip w then (cx\<lparr>cx_next_server := w\<rparr>, s) else (cx, warn ''next-server'' line s))
            | None \<Rightarrow> (cx, s))
         else if kw = ''filename'' then (cx\<lparr>cx_boot_file := word_or_empty st 1\<rparr>, s)
         else if kw = ''use-host-decl-names'' then
           (cx\<lparr>cx_host_names := lower (word_or_empty st 1) \<in> {''on'', ''true''}\<rparr>, s)
         else if kw \<in> {''range'', ''pool''} then (cx, warn ''outside a subnet'' line s)
         else if kw \<in> {''allow'', ''deny'', ''ignore''} then (cx, snd (allow_deny st None s))
         else if kw \<in> set quiet_directives then (cx, be_quiet st s)
         else (cx, warn ''not recognized'' line s))"

lemma st_body_size: "st_body st = Some b \<Longrightarrow> size_list size b < size st"
  by (cases st) auto

function isc_walk ::
  "(nat \<times> string) list \<Rightarrow> stmt list \<Rightarrow> ctx \<Rightarrow> string option \<Rightarrow> bool \<Rightarrow> interp \<Rightarrow> (ctx \<times> interp) res" where
  "isc_walk comments [] cx network at_global s = Inr (cx, s)"
| "isc_walk comments (st # sts) cx network at_global s =
     (if st_kw st = ''subnet'' then
        rbind (handle_subnet comments st cx network s) (\<lambda>s'. isc_walk comments sts cx network at_global s')
      else if st_kw st = ''shared-network'' then
        (case st_body st of
           None \<Rightarrow> isc_walk comments sts cx network at_global (warn ''shared-network without a block'' (st_line st) s)
         | Some body \<Rightarrow>
             (let name = (case word_at st 1 of Some w \<Rightarrow> w | None \<Rightarrow> ''shared-'' @ show_nat (st_line st));
                  s1 = (if map_of (in_supers s) name = None then s\<lparr>in_supers := in_supers s @ [(name, [])]\<rparr> else s)
              in rbind (isc_walk comments body cx (Some name) False s1) (\<lambda>(cx', s'). isc_walk comments sts cx network at_global s')))
      else if st_kw st = ''group'' then
        (case st_body st of
           None \<Rightarrow> isc_walk comments sts cx network at_global s
         | Some body \<Rightarrow>
             rbind (isc_walk comments body (cx\<lparr>cx_in_group := True\<rparr>) network False (note_once ''group'' (st_line st) s))
               (\<lambda>(cx', s'). isc_walk comments sts cx network at_global s'))
      else (case plain_statement st at_global cx s of (cx', s') \<Rightarrow> isc_walk comments sts cx' network at_global s'))"
  by pat_completeness auto
termination
  by (relation "measure (\<lambda>(c, ss, rest). size_list size ss)") (auto dest: st_body_size)

section \<open>The finished plan\<close>

record isc_plan =
  pn_server_options :: options
  pn_scopes :: "scope list"
  pn_supers :: "(string \<times> string list) list"
  pn_global :: "policy list"
  pn_warnings :: "isc_warning list"

text \<open>A waiting host goes to the first subnet that holds its address.\<close>

definition scope_holds :: "nat \<Rightarrow> scope \<Rightarrow> bool" where
  "scope_holds a sc =
     (case net_of_string (sc_id sc @ ''/'' @ show_nat (prefix_len (sc_mask sc))) of
        Some net \<Rightarrow> ip_in_net a net
      | None \<Rightarrow> False)"

fun place_pending_hosts :: "(reservation \<times> nat) list \<Rightarrow> interp \<Rightarrow> interp res" where
  "place_pending_hosts [] s = Inr s"
| "place_pending_hosts ((r, line) # rest) s =
     rbind (ip2int (rv_ip r)) (\<lambda>a.
       (case find_index (scope_holds a) (in_scopes s) of
          None \<Rightarrow> place_pending_hosts rest (warn ''host in no subnet'' line s)
        | Some i \<Rightarrow>
            (let sc = in_scopes s ! i
             in place_pending_hosts rest
                  (s\<lparr>in_scopes := (in_scopes s)[i := sc\<lparr>sc_reservations := sc_reservations sc @ [r]\<rparr>]\<rparr>))))"

definition finish_plan :: "interp \<Rightarrow> isc_plan res" where
  "finish_plan s =
     rbind (place_pending_hosts (in_pending s) s) (\<lambda>s.
       let left = filter (\<lambda>c. ic_reason c = None \<and> \<not> ic_referenced c) (map snd (in_classes s));
           s = fold ensure_global left s;
           s = (if in_quiet s \<noteq> [] then warn ''ignored directives'' 0 s else s);
           s = (if in_scopes s = [] then warn ''nothing to import'' 0 s else s)
       in Inr \<lparr>pn_server_options = in_server_options s, pn_scopes = in_scopes s, pn_supers = in_supers s,
               pn_global = in_global s, pn_warnings = in_warnings s\<rparr>)"

definition parse_config :: "string \<Rightarrow> isc_plan res" where
  "parse_config src =
     (case isc_tokenize src of
        (toks, comments) \<Rightarrow>
          (case parse_statements toks of
             (stmts, ws) \<Rightarrow>
               rbind (isc_walk comments stmts empty_ctx None True
                  (empty_interp\<lparr>in_warnings := map (\<lambda>w. (''syntax'', case w of NoSemicolon l \<Rightarrow> l | StrayBrace l \<Rightarrow> l | Unterminated l \<Rightarrow> l | NeverClosed \<Rightarrow> 0)) ws\<rparr>))
                 (\<lambda>(cx, s). finish_plan s)))"

section \<open>The leases file\<close>

record isc_lease =
  il_state :: string
  il_mac :: string

definition lease_line :: "stmt \<Rightarrow> isc_lease \<Rightarrow> isc_lease" where
  "lease_line b e =
     (if st_kw b = ''binding'' \<and> length (st_head b) \<ge> 3 \<and> lower (st_words b ! 1) = ''state'' then
        e\<lparr>il_state := lower (st_words b ! 2)\<rparr>
      else if st_kw b = ''hardware'' \<and> length (st_head b) \<ge> 3 \<and> lower (st_words b ! 1) = ''ethernet'' then
        e\<lparr>il_mac := (case isc_mac (st_words b ! 2) of Some m \<Rightarrow> m | None \<Rightarrow> st_words b ! 2)\<rparr>
      else e)"

definition lease_step :: "stmt \<Rightarrow> (string \<times> isc_lease) list \<Rightarrow> (string \<times> isc_lease) list" where
  "lease_step st out =
     (case st_body st of
        None \<Rightarrow> out
      | Some body \<Rightarrow>
          if st_kw st \<noteq> ''lease'' \<or> length (st_head st) < 2 \<or> \<not> valid_ip (st_words st ! 1) then out
          else AList.update (st_words st ! 1) (fold lease_line body \<lparr>il_state = [], il_mac = []\<rparr>) out)"

definition parse_leases :: "string \<Rightarrow> (string \<times> isc_lease) list" where
  "parse_leases src = fold lease_step (fst (parse_statements (fst (isc_tokenize src)))) []"

fun scope_ranges :: "scope list \<Rightarrow> segments res" where
  "scope_ranges [] = Inr []"
| "scope_ranges (sc # scs) =
     rbind (split_pool_by_exclusions (sc_start sc) (sc_end sc) (sc_exclusions sc)) (\<lambda>segs.
     rbind (scope_ranges scs) (\<lambda>rest. Inr (segs @ rest)))"

fun count_active :: "segments \<Rightarrow> string set \<Rightarrow> (string \<times> isc_lease) list \<Rightarrow> (nat \<times> nat \<times> nat) res" where
  "count_active ranges reserved [] = Inr (0, 0, 0)"
| "count_active ranges reserved ((ip, e) # ls) =
     (if il_state e \<noteq> ''active'' then count_active ranges reserved ls
      else rbind (ip2int ip) (\<lambda>n. rbind (count_active ranges reserved ls) (\<lambda>(a, i, r).
        Inr (a + 1, i + of_bool (list_ex (\<lambda>p. fst p \<le> n \<and> n \<le> snd p) ranges), r + of_bool (ip \<in> reserved)))))"

definition active_leases_in_ranges :: "(string \<times> isc_lease) list \<Rightarrow> isc_plan \<Rightarrow> (nat \<times> nat \<times> nat) res" where
  "active_leases_in_ranges leases pn =
     rbind (scope_ranges (pn_scopes pn)) (\<lambda>ranges.
       count_active ranges (\<Union>sc \<in> set (pn_scopes pn). rv_ip ` set (sc_reservations sc)) leases)"

end
