(* ===== verification/IscProps.thy ===== *)
theory IscProps
  imports IscScopes ImportProps
begin

text \<open>
  From a dhcpd.conf to the pools of Kea: the ranges a subnet declares, on their own or in its pools, are the
  pools it gets, whatever order they are written in and whatever overlaps, touches or is guarded.
\<close>

section \<open>The declared ranges\<close>

definition strip_line :: "nat \<times> nat \<times> nat \<Rightarrow> nat \<times> nat" where
  "strip_line r = (fst r, fst (snd r))"

text \<open>
  The addresses a \<open>range\<close> statement declares inside a network: from the first to the last word that is not
  \<open>dynamic-bootp\<close>, in either direction, nothing when one of them is not an address of the network.
\<close>

definition range_line_addresses :: "ip_net \<Rightarrow> stmt \<Rightarrow> nat set" where
  "range_line_addresses net st =
     (let rw = filter (\<lambda>w. lower w \<noteq> ''dynamic-bootp'') (tl (st_words st))
      in if rw = [] \<or> \<not> list_all valid_ip rw then {}
         else case (ip_of_string (hd rw), ip_of_string (last rw)) of
                (Some a, Some b) \<Rightarrow> (if ip_in_net a net \<and> ip_in_net b net then {min a b..max a b} else {})
              | _ \<Rightarrow> {})"

definition pool_addresses :: "ip_net \<Rightarrow> stmt \<Rightarrow> nat set" where
  "pool_addresses net sub =
     (case st_body sub of None \<Rightarrow> {} | Some body \<Rightarrow> (\<Union>p \<in> set (filter (\<lambda>p. st_kw p = ''range'') body). range_line_addresses net p))"

definition declared :: "ip_net \<Rightarrow> stmt list \<Rightarrow> nat set" where
  "declared net body =
     (\<Union>sub \<in> set body. if st_kw sub = ''range'' then range_line_addresses net sub
        else if st_kw sub = ''pool'' then pool_addresses net sub else {})"

definition range_ok :: "nat \<times> nat \<times> nat \<Rightarrow> bool" where
  "range_ok r \<longleftrightarrow> fst r \<le> fst (snd r) \<and> fst (snd r) \<le> ipv4_max"

definition addresses_of :: "(nat \<times> nat \<times> nat) list \<Rightarrow> nat set" where
  "addresses_of rs = covers (map strip_line rs)"

lemma addresses_of_append [simp]: "addresses_of (xs @ ys) = addresses_of xs \<union> addresses_of ys"
  by (simp add: addresses_of_def)

lemma addresses_of_Nil [simp]: "addresses_of [] = {}"
  by (simp add: addresses_of_def)

lemma add_range_declares:
  fixes st :: stmt
  defines "rw \<equiv> filter (\<lambda>w. lower w \<noteq> ''dynamic-bootp'') (tl (st_words st))"
  assumes "add_range net st s = Inr (rs, s')"
  shows "addresses_of rs = range_line_addresses net st \<and> list_all range_ok rs"
proof (cases "rw = [] \<or> \<not> list_all valid_ip rw")
  case True
  then show ?thesis using assms(2) by (auto simp: rw_def [symmetric] add_range_def range_line_addresses_def Let_def)
next
  case False
  then obtain a b where ab: "ip_of_string (hd rw) = Some a" "ip_of_string (last rw) = Some b"
    using assms(2) by (auto simp: rw_def [symmetric] add_range_def ip2int_def Let_def rbind_eq_Inr split: option.splits if_splits)
  have mm: "ip_in_net (min a b) net \<and> ip_in_net (max a b) net \<longleftrightarrow> ip_in_net a net \<and> ip_in_net b net"
    by (simp add: min_def max_def) blast
  have "a \<le> ipv4_max" "b \<le> ipv4_max" using ab ip_of_string_le by blast+
  then show ?thesis
    using assms(2) False ab mm
    by (auto simp: rw_def [symmetric] add_range_def range_line_addresses_def ip2int_def Let_def addresses_of_def strip_line_def range_ok_def split: if_splits)
qed

lemma pool_block_declares:
  assumes "pool_block net body pool s = Inr (pool', s')" and "list_all range_ok (ip_ranges pool)"
  shows "addresses_of (ip_ranges pool') =
      addresses_of (ip_ranges pool) \<union> (\<Union>p \<in> set (filter (\<lambda>p. st_kw p = ''range'') body). range_line_addresses net p) \<and>
    list_all range_ok (ip_ranges pool')"
  using assms
proof (induction body arbitrary: pool s)
  case (Cons p ps)
  show ?case
  proof (cases "st_kw p = ''range''")
    case True
    then obtain rs s1 where a: "add_range net p s = Inr (rs, s1)"
      and rest: "pool_block net ps (pool\<lparr>ip_ranges := ip_ranges pool @ rs\<rparr>) s1 = Inr (pool', s')"
      using Cons.prems(1) by (auto simp: rbind_eq_Inr)
    show ?thesis using Cons.IH [OF rest] add_range_declares [OF a] Cons.prems(2) True by auto
  next
    case False
    have keep: "fst (allow_deny p (Some pool) s) = Some q \<Longrightarrow> ip_ranges q = ip_ranges pool" for q
      by (auto simp: allow_deny_def Let_def split: if_splits)
    obtain pool1 s1 where rest: "pool_block net ps pool1 s1 = Inr (pool', s')" and same: "ip_ranges pool1 = ip_ranges pool"
      using Cons.prems(1) False keep by (cases "allow_deny p (Some pool) s") (auto split: if_splits option.splits)
    show ?thesis using Cons.IH [OF rest] Cons.prems(2) False same by simp
  qed
qed simp

lemma subnet_plain_ranges: "subnet_plain sub sb s = (sb', s') \<Longrightarrow> sb_ranges sb' = sb_ranges sb \<and> sb_pools sb' = sb_pools sb"
  by (auto simp: subnet_plain_def Let_def split: if_splits prod.splits option.splits list.splits)

text \<open>What the block of a subnet leaves: the declared ranges, those of the pools among them.\<close>

definition build_ok :: "nat set \<Rightarrow> subnet_build \<Rightarrow> bool" where
  "build_ok addrs sb \<longleftrightarrow>
     addresses_of (sb_ranges sb) = addrs \<and> list_all range_ok (sb_ranges sb) \<and>
     list_all (\<lambda>p. list_all range_ok (ip_ranges p)) (sb_pools sb)"

lemma subnet_pool_ok:
  assumes "subnet_pool net sub sb s = Inr (sb', s')" and "build_ok addrs sb"
  shows "build_ok (addrs \<union> pool_addresses net sub) sb'"
proof (cases "st_body sub")
  case None
  then show ?thesis using assms by (simp add: subnet_pool_def pool_addresses_def)
next
  case (Some body)
  then obtain pool s1 where p: "pool_block net body \<lparr>ip_ranges = [], ip_allow = [], ip_deny = [], ip_line = st_line sub\<rparr> s = Inr (pool, s1)"
    and sb': "sb' = (if ip_ranges pool = [] then sb
      else sb\<lparr>sb_pools := sb_pools sb @ [pool], sb_ranges := sb_ranges sb @ ip_ranges pool\<rparr>)"
    using assms(1) by (auto simp: subnet_pool_def rbind_eq_Inr split: if_splits)
  have "addresses_of (ip_ranges pool) = pool_addresses net sub" "list_all range_ok (ip_ranges pool)"
    using pool_block_declares [OF p] by (simp_all add: pool_addresses_def Some)
  then show ?thesis using assms(2) by (auto simp: sb' build_ok_def)
qed

lemma declared_Cons:
  "declared net (sub # subs) =
     (if st_kw sub = ''range'' then range_line_addresses net sub
      else if st_kw sub = ''pool'' then pool_addresses net sub else {}) \<union> declared net subs"
  unfolding declared_def list.set UN_insert by (rule refl)

lemma subnet_block_ok:
  assumes "subnet_block net body sb s = Inr (sb', s')" and "build_ok addrs sb"
  shows "build_ok (addrs \<union> declared net body) sb'"
  using assms
proof (induction body arbitrary: addrs sb s)
  case Nil
  then show ?case by (simp add: declared_def)
next
  case (Cons sub subs)
  consider (range) "st_kw sub = ''range''" | (pool) "st_kw sub = ''pool''" | (other) "st_kw sub \<noteq> ''range''" "st_kw sub \<noteq> ''pool''"
    by blast
  then show ?case
  proof cases
    case range
    then obtain rs s1 where a: "add_range net sub s = Inr (rs, s1)"
      and rest: "subnet_block net subs (sb\<lparr>sb_ranges := sb_ranges sb @ rs\<rparr>) s1 = Inr (sb', s')"
      using Cons.prems(1) by (auto simp: rbind_eq_Inr)
    have "build_ok (addrs \<union> range_line_addresses net sub) (sb\<lparr>sb_ranges := sb_ranges sb @ rs\<rparr>)"
      using add_range_declares [OF a] Cons.prems(2) by (simp add: build_ok_def)
    then show ?thesis using Cons.IH [OF rest] range by (simp add: declared_Cons Un_assoc [symmetric])
  next
    case pool
    then obtain sb1 s1 where p: "subnet_pool net sub sb s = Inr (sb1, s1)"
      and rest: "subnet_block net subs sb1 s1 = Inr (sb', s')"
      using Cons.prems(1) by (auto simp: rbind_eq_Inr)
    show ?thesis using Cons.IH [OF rest subnet_pool_ok [OF p Cons.prems(2)]] pool by (simp add: declared_Cons Un_assoc [symmetric])
  next
    case other
    then obtain sb1 s1 where p: "subnet_plain sub sb s = (sb1, s1)"
      and rest: "subnet_block net subs sb1 s1 = Inr (sb', s')"
      using Cons.prems(1) by (cases "subnet_plain sub sb s") auto
    have "build_ok addrs sb1" using subnet_plain_ranges [OF p] Cons.prems(2) by (simp add: build_ok_def)
    then show ?thesis using Cons.IH [OF rest] other by (simp add: declared_Cons)
  qed
qed

section \<open>The span and its gaps\<close>

lemma merge_ranges_merge: "fst (merge_ranges rs merged s) = foldl merge_step merged (map strip_line rs)"
  by (induction rs merged s rule: merge_ranges.induct) (auto simp: merge_step_def strip_line_def)

interpretation line_order: sort_order isc_range_le
  by unfold_locales (auto simp: isc_range_le_def)

lemma merged_facts:
  assumes "list_all range_ok rs" and "merged = fst (merge_ranges (sort_by isc_range_le rs) [] s)"
  shows "covers merged = addresses_of rs" and "separated merged" and "nonempty_ranges merged"
proof -
  let ?sorted = "map strip_line (sort_by isc_range_le rs)"
  have "sorted_wrt isc_range_le (sort_by isc_range_le rs)" by (rule line_order.sorted_sort_by)
  then have "sorted (map fst (sort_by isc_range_le rs))"
    unfolding sorted_map by (rule sorted_wrt_mono_rel [rotated]) (auto simp: isc_range_le_def)
  then have order: "sorted (map fst ?sorted)" by (simp add: strip_line_def comp_def)
  have ne: "nonempty_ranges ?sorted"
    using assms(1) by (auto simp: nonempty_ranges_def list_all_iff range_ok_def strip_line_def)
  have same: "covers ?sorted = addresses_of rs" by (auto simp: addresses_of_def covers_def)
  have "covers merged = covers [] \<union> covers ?sorted \<and> separated merged \<and> nonempty_ranges merged"
    unfolding assms(2) merge_ranges_merge
    by (rule merge_all [OF order ne]) (simp_all add: nonempty_ranges_def separated_def)
  then show "covers merged = addresses_of rs" "separated merged" "nonempty_ranges merged" by (simp_all add: same)
qed

lemma separated_Cons: "separated (p # q # rest) \<Longrightarrow> nonempty_ranges (q # rest) \<Longrightarrow>
    snd p + 1 < fst q \<and> separated (q # rest)"
  by (simp add: separated_def)

lemma excluded_Cons:
  "a \<noteq> [] \<Longrightarrow> b \<noteq> [] \<Longrightarrow> ip_of_string a = Some s \<Longrightarrow> ip_of_string b = Some e \<Longrightarrow> excluded ((a, b) # excs) = {s..e} \<union> excluded excs"
  by (simp add: excluded_def)

lemma gaps_exclude:
  assumes "separated segs" and "nonempty_ranges segs" and "segs \<noteq> []" and "covers segs \<subseteq> {..ipv4_max}"
  shows "{fst (hd segs)..snd (last segs)} - excluded (gaps segs) = covers segs \<and> forwards (gaps segs) \<and>
    fst (hd segs) \<le> snd (last segs) \<and> excluded (gaps segs) \<subseteq> {snd (hd segs) + 1..}"
  using assms
proof (induction segs rule: gaps.induct)
  case (1 p q rest)
  let ?later = "q # rest"
  have ne: "nonempty_ranges ?later" "fst p \<le> snd p" "fst q \<le> snd q"
    using 1(3) by (auto simp: nonempty_ranges_def case_prod_beta)
  have sep: "snd p + 1 < fst q" "separated ?later" using separated_Cons 1(2) ne by blast+
  have "covers ?later \<subseteq> {..ipv4_max}" using 1(5) by auto
  then have IH: "{fst q..snd (last ?later)} - excluded (gaps ?later) = covers ?later" "forwards (gaps ?later)"
    "fst q \<le> snd (last ?later)" "excluded (gaps ?later) \<subseteq> {snd q + 1..}"
    using 1(1) sep ne by simp_all
  have "snd p + 1 \<le> ipv4_max" "fst q - 1 \<le> ipv4_max" using 1(5) ne sep by auto
  then have ips: "ip_of_string (int2ip (snd p + 1)) = Some (snd p + 1)" "ip_of_string (int2ip (fst q - 1)) = Some (fst q - 1)"
    by (simp_all add: ip_of_int2ip)
  have exc: "excluded (gaps (p # ?later)) = {snd p + 1..fst q - 1} \<union> excluded (gaps ?later)"
    using excluded_Cons [OF int2ip_not_Nil int2ip_not_Nil ips] by simp
  have fw: "forwards (gaps (p # ?later))"
    using IH(2) ips sep by (simp add: forwards_def)
  have "{fst p..snd (last ?later)} - excluded (gaps (p # ?later)) = {fst p..snd p} \<union> ({fst q..snd (last ?later)} - excluded (gaps ?later))"
    using IH(3,4) ne sep unfolding exc by auto
  then show ?case using IH fw exc ne sep by auto
qed (auto simp: nonempty_ranges_def excluded_def forwards_def)

section \<open>Only a subnet adds a scope\<close>

named_theorems kept \<open>operations that leave the scopes as they are\<close>

lemma scopes_simps [simp]:
  "in_scopes (warn k l s) = in_scopes s" "in_scopes (note_once k l s) = in_scopes s" "in_scopes (be_quiet st s) = in_scopes s"
  "in_scopes (ensure_global cd s) = in_scopes s"
  by (simp_all add: warn_def note_once_def be_quiet_def ensure_global_def)

lemma fold_global_scopes [simp]: "in_scopes (fold ensure_global cds s) = in_scopes s"
  by (induction cds arbitrary: s) simp_all

lemma int_of_stmt_scopes [kept]: "int_of_stmt st s = (x, s') \<Longrightarrow> in_scopes s' = in_scopes s"
  by (auto simp: int_of_stmt_def split: option.splits sum.splits)

lemma handle_option_scopes [kept]: "handle_option st g cx s = (x, s') \<Longrightarrow> in_scopes s' = in_scopes s"
  by (auto simp: handle_option_def split: sum.splits if_splits)

lemma allow_deny_scopes [kept]: "allow_deny st p s = (x, s') \<Longrightarrow> in_scopes s' = in_scopes s"
  by (auto simp: allow_deny_def Let_def split: if_splits option.splits)

lemma host_option_scopes [kept]: "host_option d h hb s = (x, s') \<Longrightarrow> in_scopes s' = in_scopes s"
  by (auto simp: host_option_def split: sum.splits if_splits)

lemma fixed_address_scopes [kept]: "fixed_address h l hb s = (x, s') \<Longrightarrow> in_scopes s' = in_scopes s"
  by (auto simp: fixed_address_def split: list.splits)

lemma host_block_scopes [kept]: "host_block d l hs hb s = (x, s') \<Longrightarrow> in_scopes s' = in_scopes s"
  by (induction hs arbitrary: hb s)
    (auto simp: Let_def dest!: host_option_scopes fixed_address_scopes split: if_splits option.splits prod.splits)

lemma finish_host_scopes [kept]: "finish_host d l hb s = (x, s') \<Longrightarrow> in_scopes s' = in_scopes s"
  by (auto simp: finish_host_def Let_def split: if_splits option.splits)

lemma handle_host_scopes [kept]: "handle_host st cx s = (x, s') \<Longrightarrow> in_scopes s' = in_scopes s"
  by (auto simp: handle_host_def dest!: kept split: option.splits prod.splits)

lemma pending_host_scopes [simp]: "in_scopes (pending_host st cx s) = in_scopes s"
  by (auto simp: pending_host_def dest!: kept split: option.splits prod.splits)

lemma class_block_scopes [kept]: "class_block cs m cd s = (x, y, s') \<Longrightarrow> in_scopes s' = in_scopes s"
  by (induction cs arbitrary: m cd s) (auto simp: Let_def split: if_splits sum.splits prod.splits)

lemma handle_class_scopes [simp]: "in_scopes (handle_class st s) = in_scopes s"
  by (auto simp: handle_class_def Let_def dest!: kept split: option.splits prod.splits)

lemma guard_classes_scopes [kept]: "guard_classes_of rs s = (x, s') \<Longrightarrow> in_scopes s' = in_scopes s"
  by (induction rs s arbitrary: x s' rule: guard_classes_of.induct) (auto split: if_splits option.splits prod.splits)

lemma pool_guard_scopes [kept]: "pool_guard p s = (x, s') \<Longrightarrow> in_scopes s' = in_scopes s"
  by (auto simp: pool_guard_def Let_def dest!: kept split: if_splits option.splits prod.splits)

lemma guard_policies_scopes [kept]: "guard_policies ps k s = (x, s') \<Longrightarrow> in_scopes s' = in_scopes s"
  by (induction ps arbitrary: k s x) (fastforce dest: pool_guard_scopes split: option.splits prod.splits)+

lemma merge_ranges_scopes [kept]: "merge_ranges rs m s = (x, s') \<Longrightarrow> in_scopes s' = in_scopes s"
  by (induction rs m s rule: merge_ranges.induct) (auto split: if_splits)

lemma add_range_scopes [kept]: "add_range net st s = Inr (x, s') \<Longrightarrow> in_scopes s' = in_scopes s"
  by (auto simp: add_range_def Let_def rbind_eq_Inr split: if_splits)

lemma pool_block_scopes [kept]: "pool_block net ps pool s = Inr (x, s') \<Longrightarrow> in_scopes s' = in_scopes s"
  by (induction ps arbitrary: pool s)
    (fastforce simp: rbind_eq_Inr dest: add_range_scopes allow_deny_scopes split: if_splits option.splits prod.splits)+

lemma subnet_pool_scopes [kept]: "subnet_pool net sub sb s = Inr (x, s') \<Longrightarrow> in_scopes s' = in_scopes s"
  by (auto simp: subnet_pool_def rbind_eq_Inr dest!: pool_block_scopes split: if_splits option.splits)

lemma add_host_scopes [kept]: "add_host st cx hs s = (x, s') \<Longrightarrow> in_scopes s' = in_scopes s"
  by (auto simp: add_host_def dest!: kept split: option.splits prod.splits)

lemma subnet_group_scopes [kept]: "subnet_group gs cx hs s = (x, s') \<Longrightarrow> in_scopes s' = in_scopes s"
  by (induction gs arbitrary: cx hs s)
    (fastforce dest: add_host_scopes handle_option_scopes split: if_splits prod.splits)+

lemma subnet_plain_scopes [kept]: "subnet_plain sub sb s = (x, s') \<Longrightarrow> in_scopes s' = in_scopes s"
  by (auto simp: subnet_plain_def Let_def dest!: add_host_scopes handle_option_scopes int_of_stmt_scopes subnet_group_scopes
      split: if_splits option.splits prod.splits list.splits) (metis allow_deny_scopes prod.collapse)+

lemma subnet_block_scopes [kept]: "subnet_block net subs sb s = Inr (x, s') \<Longrightarrow> in_scopes s' = in_scopes s"
  by (induction subs arbitrary: sb s)
    (fastforce simp: rbind_eq_Inr dest: add_range_scopes subnet_pool_scopes subnet_plain_scopes split: if_splits prod.splits)+

lemma plain_statement_scopes [kept]: "plain_statement st g cx s = (x, s') \<Longrightarrow> in_scopes s' = in_scopes s"
  by (auto simp: plain_statement_def Let_def dest!: handle_option_scopes int_of_stmt_scopes
      split: if_splits option.splits prod.splits) (metis allow_deny_scopes prod.collapse)+

section \<open>The scope of a subnet statement\<close>

text \<open>The range of the scope without its exclusions is a given set of addresses, and nothing is written backwards.\<close>

definition scope_exact :: "nat set \<Rightarrow> scope \<Rightarrow> bool" where
  "scope_exact addrs sc \<longleftrightarrow>
     (\<exists>a b. ip2int (sc_start sc) = Inr a \<and> ip2int (sc_end sc) = Inr b \<and> a \<le> b \<and>
        {a..b} - excluded (sc_exclusions sc) = addrs) \<and>
     forwards (sc_exclusions sc) \<and> (\<forall>po \<in> set (sc_policies sc). forwards (po_ranges po))"

definition net_of_stmt :: "stmt \<Rightarrow> ip_net option" where
  "net_of_stmt st = net_of_string (st_words st ! 1 @ ''/'' @ show_nat (prefix_len (st_words st ! 3)))"

definition declares :: "stmt \<Rightarrow> scope \<Rightarrow> bool" where
  "declares st sc \<longleftrightarrow>
     (\<exists>body net. st_body st = Some body \<and> net_of_stmt st = Some net \<and> sc_id sc = int2ip (net_first net) \<and>
        scope_exact (declared net body) sc)"

lemma declares_reservations [simp]: "declares st (sc\<lparr>sc_reservations := rs\<rparr>) = declares st sc"
  by (simp add: declares_def scope_exact_def)

lemma guard_policy_forwards: "range_ok r \<Longrightarrow> forwards (po_ranges (guard_policy g i r))"
  by (cases r) (auto simp: guard_policy_def forwards_def range_ok_def ip_of_int2ip split: option.split)

lemma guard_policies_forwards:
  assumes "guard_policies ps k s = (pols, s')" and "list_all (\<lambda>p. list_all range_ok (ip_ranges p)) ps"
  shows "\<forall>po \<in> set pols. forwards (po_ranges po)"
  using assms
proof (induction ps arbitrary: k s pols s')
  case (Cons p ps)
  obtain g s1 where g: "pool_guard p s = (g, s1)" by (cases "pool_guard p s")
  show ?case
  proof (cases g)
    case None
    then show ?thesis using Cons g by simp
  next
    case (Some gd)
    obtain pols2 s2 where r: "guard_policies ps (k + int (length (ip_ranges p))) s1 = (pols2, s2)"
      by (cases "guard_policies ps (k + int (length (ip_ranges p))) s1")
    have "\<forall>(i, q) \<in> set (enumerate 0 (ip_ranges p)). forwards (po_ranges (guard_policy gd (k + int i + 1) q))"
      using Cons.prems(2) by (auto simp: enumerate_eq_zip list_all_iff dest!: set_zip_rightD intro!: guard_policy_forwards)
    then show ?thesis using Cons.IH [OF r] Cons.prems g r by (auto simp: Some)
  qed
qed simp

lemma add_scope_scopes [simp]: "in_scopes (add_scope sc network s) = in_scopes s @ [sc]"
  by (simp add: add_scope_def Let_def split: option.split)

lemma net_first_max:
  assumes "net_of_string t = Some net"
  shows "net_first net \<le> ipv4_max"
proof -
  consider a n where "ip_of_string a = Some n" "net = (n, 32)" | a n p where "ip_of_string a = Some n" "net = (mask_ip n p, p)"
    using assms by (auto simp: net_of_string_def split: list.splits option.splits)
  then show ?thesis
    using ip_of_string_le le_trans [OF mask_ip_le] by cases (auto simp: net_first_def)
qed

lemma span_exact:
  assumes "separated merged" and "nonempty_ranges merged" and "covers merged \<subseteq> {..ipv4_max}" and "net_first net \<le> ipv4_max"
    and "span_of net merged = (start, stop, exclusions)"
  shows "\<exists>a b. ip2int start = Inr a \<and> ip2int stop = Inr b \<and> a \<le> b \<and> {a..b} - excluded exclusions = covers merged"
    and "forwards exclusions"
proof -
  have empty: "merged = [] \<Longrightarrow> ip_of_string start = Some (net_first net) \<and> stop = start \<and> exclusions = [(start, start)] \<and> start \<noteq> []"
    using assms(4,5) int2ip_not_Nil by (auto simp: span_of_def Let_def ip_of_int2ip)
  have each: "fst p \<le> snd p \<and> snd p \<le> ipv4_max" if p: "p \<in> set merged" for p
  proof -
    have "fst p \<le> snd p" using assms(2) p by (auto simp: nonempty_ranges_def)
    then have "snd p \<in> covers merged" using p by (auto simp: covers_alt)
    then show ?thesis using \<open>fst p \<le> snd p\<close> assms(3) by auto
  qed
  have ends: "merged \<noteq> [] \<Longrightarrow> fst (hd merged) \<le> ipv4_max \<and> snd (last merged) \<le> ipv4_max"
    using each [OF hd_in_set] each [OF last_in_set] by (simp add: le_trans)
  have full: "merged \<noteq> [] \<Longrightarrow> ip2int start = Inr (fst (hd merged)) \<and> ip2int stop = Inr (snd (last merged)) \<and> exclusions = gaps merged"
    using assms(5) ends by (auto simp: span_of_def ip2int_def ip_of_int2ip)
  show "\<exists>a b. ip2int start = Inr a \<and> ip2int stop = Inr b \<and> a \<le> b \<and> {a..b} - excluded exclusions = covers merged"
    using empty full gaps_exclude [OF assms(1,2) _ assms(3)]
    by (cases "merged = []") (auto simp: ip2int_def excluded_def)
  show "forwards exclusions"
    using empty full gaps_exclude [OF assms(1,2) _ assms(3)] by (cases "merged = []") (auto simp: forwards_def)
qed

lemma finish_subnet_exact:
  assumes "build_ok addrs sb" and "net_first net \<le> ipv4_max"
  shows "\<exists>sc. in_scopes (finish_subnet comments line net cx network sb s) = in_scopes s @ [sc] \<and>
    sc_id sc = int2ip (net_first net) \<and> scope_exact addrs sc"
proof -
  obtain merged s1 where m: "merge_ranges (sort_by isc_range_le (sb_ranges sb)) [] s = (merged, s1)"
    by (cases "merge_ranges (sort_by isc_range_le (sb_ranges sb)) [] s")
  obtain start stop exclusions where sp: "span_of net merged = (start, stop, exclusions)" by (cases "span_of net merged")
  obtain pols s2 where g: "guard_policies (sb_pools sb) 0 (if merged = [] then warn ''no range'' line s1 else s1) = (pols, s2)"
    by (cases "guard_policies (sb_pools sb) 0 (if merged = [] then warn ''no range'' line s1 else s1)")
  have ok: "addresses_of (sb_ranges sb) = addrs" "list_all range_ok (sb_ranges sb)"
    "list_all (\<lambda>p. list_all range_ok (ip_ranges p)) (sb_pools sb)"
    using assms(1) by (simp_all add: build_ok_def)
  have mf: "covers merged = addrs" "separated merged" "nonempty_ranges merged"
    using merged_facts [OF ok(2), of merged s] ok(1) m by simp_all
  have "addrs \<subseteq> {..ipv4_max}"
    using ok(2) by (auto simp: ok(1) [symmetric] addresses_of_def covers_alt list_all_iff range_ok_def strip_line_def)
  then have span: "\<exists>a b. ip2int start = Inr a \<and> ip2int stop = Inr b \<and> a \<le> b \<and> {a..b} - excluded exclusions = addrs"
    "forwards exclusions"
    using span_exact [OF mf(2,3) _ assms(2) sp] mf(1) by simp_all
  have same: "in_scopes s2 = in_scopes s"
    using guard_policies_scopes [OF g] merge_ranges_scopes [OF m] by (simp split: if_splits)
  show ?thesis
    using span guard_policies_forwards [OF g ok(3)] same
    by (simp add: finish_subnet_def m sp g Let_def scope_exact_def)
qed

lemma handle_subnet_declares:
  assumes "handle_subnet comments st cx network s = Inr s'"
  shows "in_scopes s' = in_scopes s \<or> (\<exists>sc. in_scopes s' = in_scopes s @ [sc] \<and> declares st sc)"
proof (cases "in_scopes s' = in_scopes s")
  case False
  obtain body net where b: "st_body st = Some body" and n: "net_of_stmt st = Some net"
    using assms False by (auto simp: handle_subnet_def net_of_stmt_def Let_def split: option.splits if_splits)
  obtain sb0 s0 sb s1 where run: "subnet_block net body sb0 s0 = Inr (sb, s1)" and s0: "in_scopes s0 = in_scopes s"
    and sb0: "sb_ranges sb0 = []" "sb_pools sb0 = []"
    and s': "s' = finish_subnet comments (st_line st) net cx network sb s1"
    using assms False b n unfolding handle_subnet_def Let_def net_of_stmt_def
    by (fastforce simp: rbind_eq_Inr split: if_splits)
  have "build_ok {} sb0" by (simp add: build_ok_def sb0)
  from subnet_block_ok [OF run this] have "build_ok (declared net body) sb" by simp
  from finish_subnet_exact [OF this net_first_max [OF n [unfolded net_of_stmt_def]]]
  obtain sc where sc: "in_scopes s' = in_scopes s1 @ [sc]" "sc_id sc = int2ip (net_first net)" "scope_exact (declared net body) sc"
    unfolding s' by blast
  then show ?thesis using subnet_block_scopes [OF run] s0 b n by (auto simp: declares_def)
qed simp

section \<open>The whole file\<close>

text \<open>The subnet statements of a file, in shared networks and groups too.\<close>

function subnet_statements :: "stmt list \<Rightarrow> stmt list" where
  "subnet_statements [] = []"
| "subnet_statements (st # sts) =
     (if st_kw st = ''subnet'' then [st]
      else if st_kw st = ''shared-network'' \<or> st_kw st = ''group'' then
        (case st_body st of None \<Rightarrow> [] | Some body \<Rightarrow> subnet_statements body)
      else []) @ subnet_statements sts"
  by pat_completeness auto
termination
  by (relation "measure (size_list size)") (auto dest: st_body_size)

lemma walk_declares:
  "isc_walk comments sts cx network g s = Inr (cx', s') \<Longrightarrow> sc \<in> set (in_scopes s') \<Longrightarrow>
   sc \<in> set (in_scopes s) \<or> (\<exists>st \<in> set (subnet_statements sts). declares st sc)"
proof (induction comments sts cx network g s arbitrary: cx' s' rule: isc_walk.induct)
  case (1 comments cx network g s)
  then show ?case by simp
next
  case (2 comments st sts cx network g s)
  consider (subnet) "st_kw st = ''subnet''" | (shared) "st_kw st = ''shared-network''" | (group) "st_kw st = ''group''"
    | (plain) "st_kw st \<noteq> ''subnet''" "st_kw st \<noteq> ''shared-network''" "st_kw st \<noteq> ''group''" by blast
  then show ?case
  proof cases
    case subnet
    then obtain s1 where h: "handle_subnet comments st cx network s = Inr s1"
      and w: "isc_walk comments sts cx network g s1 = Inr (cx', s')"
      using "2.prems"(1) by (auto simp: rbind_eq_Inr)
    show ?thesis using "2.IH"(1) [OF subnet h w "2.prems"(2)] handle_subnet_declares [OF h] subnet by auto
  next
    case shared
    then show ?thesis using "2.IH"(2-8) "2.prems" by (auto simp: rbind_eq_Inr Let_def split: option.splits if_splits)
  next
    case group
    then show ?thesis using "2.IH"(2-8) "2.prems" by (auto simp: rbind_eq_Inr Let_def split: option.splits if_splits)
  next
    case plain
    obtain cx1 s1 where p: "plain_statement st g cx s = (cx1, s1)" by (cases "plain_statement st g cx s")
    show ?thesis using "2.IH"(8) "2.prems" plain p plain_statement_scopes [OF p] by auto
  qed
qed

lemma place_pending_declares:
  assumes "place_pending_hosts hosts s = Inr s'" and "\<And>sc. sc \<in> set (in_scopes s) \<Longrightarrow> \<exists>st \<in> S. declares st sc"
  shows "\<forall>sc \<in> set (in_scopes s'). \<exists>st \<in> S. declares st sc"
  using assms
proof (induction hosts arbitrary: s)
  case (Cons h hs)
  obtain r line where h: "h = (r, line)" by (cases h)
  obtain a where a: "ip2int (rv_ip r) = Inr a" using Cons.prems(1) by (auto simp: h rbind_eq_Inr)
  obtain s1 where rest: "place_pending_hosts hs s1 = Inr s'"
    and s1: "\<And>sc. sc \<in> set (in_scopes s1) \<Longrightarrow> \<exists>st \<in> S. declares st sc"
  proof (cases "find_index (scope_holds a) (in_scopes s)")
    case None
    then show thesis using Cons.prems by (intro that [of "warn ''host in no subnet'' line s"]) (simp_all add: h a)
  next
    case (Some i)
    let ?sc = "in_scopes s ! i"
    let ?s1 = "s\<lparr>in_scopes := (in_scopes s)[i := ?sc\<lparr>sc_reservations := sc_reservations ?sc @ [r]\<rparr>]\<rparr>"
    have "?sc \<in> set (in_scopes s)" using find_index_SomeD [OF Some] by simp
    then have here: "\<exists>st \<in> S. declares st (?sc\<lparr>sc_reservations := sc_reservations ?sc @ [r]\<rparr>)"
      unfolding declares_reservations by (rule Cons.prems(2))
    have "\<exists>st \<in> S. declares st sc" if "sc \<in> set (in_scopes ?s1)" for sc
      using that here Cons.prems(2) set_update_subset_insert by fastforce
    then show thesis using Cons.prems(1) by (intro that [of ?s1]) (simp_all add: h a Some Let_def)
  qed
  show ?case using Cons.IH [OF rest s1] by blast
qed simp

definition file_statements :: "string \<Rightarrow> stmt list" where
  "file_statements src = fst (parse_statements (fst (isc_tokenize src)))"

lemma parse_config_declares:
  assumes "parse_config src = Inr pn" and "sc \<in> set (pn_scopes pn)"
  shows "\<exists>st \<in> set (subnet_statements (file_statements src)). declares st sc"
proof -
  obtain toks comments where t: "isc_tokenize src = (toks, comments)" by (cases "isc_tokenize src")
  obtain stmts ws where st: "parse_statements toks = (stmts, ws)" by (cases "parse_statements toks")
  obtain cx s0 s where w: "isc_walk comments stmts empty_ctx None True s0 = Inr (cx, s)" and s0: "in_scopes s0 = []"
    and f: "finish_plan s = Inr pn"
    using assms(1) by (fastforce simp: parse_config_def t st rbind_eq_Inr empty_interp_def)
  have "sc' \<in> set (in_scopes s) \<Longrightarrow> \<exists>st \<in> set (subnet_statements stmts). declares st sc'" for sc'
    using walk_declares [OF w] s0 by simp
  moreover obtain s2 where "place_pending_hosts (in_pending s) s = Inr s2" and "in_scopes s2 = pn_scopes pn"
    using f by (auto simp: finish_plan_def rbind_eq_Inr Let_def)
  ultimately show ?thesis
    using place_pending_declares assms(2) by (fastforce simp: file_statements_def t st)
qed

text \<open>
  C32. The pools of an imported dhcpd.conf are the ranges it declares. Every scope of the plan comes from a subnet
  statement of the file (at the top, in a shared network or in a group), and when the scope is mapped onto
  Kea, Jen's own reader finds in the pools written for it exactly the addresses of that statement's ranges, on
  their own or in pools, with one, two or reversed bounds, overlapping, touching or guarded by a class; and no
  two pools share an address.
\<close>

theorem isc_pools_exact:
  assumes "parse_config src = Inr pn" and "sc \<in> set (pn_scopes pn)" and "scope_to_subnet sc i = Inr ms"
  shows "\<exists>st \<in> set (subnet_statements (file_statements src)). \<exists>body net.
    st_body st = Some body \<and> net_of_stmt st = Some net \<and> sc_id sc = int2ip (net_first net) \<and>
    apart (parsed_pools (json_items (jget (ms_subnet ms) ''pools''))) \<and>
    covers (pool_ranges (json_items (jget (ms_subnet ms) ''pools''))) = declared net body"
proof -
  obtain st where st: "st \<in> set (subnet_statements (file_statements src))" "declares st sc"
    using parse_config_declares [OF assms(1,2)] by blast
  then obtain body net a b where b: "st_body st = Some body" "net_of_stmt st = Some net" "sc_id sc = int2ip (net_first net)"
    and ab: "ip2int (sc_start sc) = Inr a" "ip2int (sc_end sc) = Inr b" "a \<le> b"
      "{a..b} - excluded (sc_exclusions sc) = declared net body"
    and fw: "forwards (sc_exclusions sc)" "\<And>po. po \<in> set (sc_policies sc) \<Longrightarrow> forwards (po_ranges po)"
    unfolding declares_def scope_exact_def by blast
  note ok = scope_mapping_ok [OF assms(3) ab(1,2,3) fw]
  have "apart (parsed_pools (json_items (jget (ms_subnet ms) ''pools'')))"
    "covers (pool_ranges (json_items (jget (ms_subnet ms) ''pools''))) = declared net body"
    using ok(1,2,5) ab(4) by (simp_all add: pool_ranges_facts)
  then show ?thesis using st(1) b by blast
qed

definition w_source :: string where
  "w_source = newline # ''subnet 0.0.0.0 netmask 255.255.255.0 { range 0.0.0.12 0.0.0.9; pool { range 0.0.0.20 0.0.0.22; } }''"

definition wt :: "string \<Rightarrow> isc_tok" where
  "wt = (\<lambda>t. mark t 2)"

definition w_body :: "stmt list" where
  "w_body = [Stmt [wt ''range'', wt ''0.0.0.12'', wt ''0.0.0.9''] None 2,
     Stmt [wt ''pool''] (Some [Stmt [wt ''range'', wt ''0.0.0.20'', wt ''0.0.0.22''] None 2]) 2]"

definition w_subnet :: stmt where
  "w_subnet = Stmt [wt ''subnet'', wt ''0.0.0.0'', wt ''netmask'', wt ''255.255.255.0''] (Some w_body) 2"

lemma w_parsed: "isc_tokenize w_source = (unparse w_subnet, [])"
  "parse_statements (unparse w_subnet) = ([w_subnet], [])"
  by code_simp+

lemma w_words: "st_kw w_subnet = ''subnet''" "st_words w_subnet = [''subnet'', ''0.0.0.0'', ''netmask'', ''255.255.255.0'']"
  "st_body w_subnet = Some w_body" "lower ''netmask'' = ''netmask''" "st_line w_subnet = 2"
  by code_simp+

lemma w_ips: "ip_of_string ''0.0.0.0'' = Some 0" "ip_of_string ''0.0.0.9'' = Some 9" "ip_of_string ''0.0.0.12'' = Some 12"
  "ip_of_string ''0.0.0.20'' = Some 20" "ip_of_string ''0.0.0.22'' = Some 22"
  by code_simp+

lemma w_mask: "valid_ip ''0.0.0.0''" "valid_ip ''255.255.255.0''" "prefix_len ''255.255.255.0'' = 24"
proof -
  have "map parse_octet (split_on CHR ''.'' ''255.255.255.0'') = [Some 255, Some 255, Some 255, Some 0]" "strip ''255.255.255.0'' = ''255.255.255.0''"
    by code_simp+
  then show "valid_ip ''255.255.255.0''" by (simp add: valid_ip_def ip_of_string_def)
  show "valid_ip ''0.0.0.0''" "prefix_len ''255.255.255.0'' = 24" by code_simp+
qed

lemma w_net: "net_of_string (''0.0.0.0/'' @ show_nat 24) = Some (0, 24)" "show_nat 24 = ''24''"
  by code_simp+

lemma w_range_words:
  "filter (\<lambda>w. lower w \<noteq> ''dynamic-bootp'') [''0.0.0.12'', ''0.0.0.9''] = [''0.0.0.12'', ''0.0.0.9'']"
  "filter (\<lambda>w. lower w \<noteq> ''dynamic-bootp'') [''0.0.0.20'', ''0.0.0.22''] = [''0.0.0.20'', ''0.0.0.22'']"
  "list_all valid_ip [''0.0.0.12'', ''0.0.0.9'']" "list_all valid_ip [''0.0.0.20'', ''0.0.0.22'']"
  by code_simp+

lemma w_kws: "st_kw (w_body ! 0) = ''range''" "st_kw (w_body ! 1) = ''pool''" "st_kw (hd (the (st_body (w_body ! 1)))) = ''range''"
  by code_simp+

lemma w_ranges:
  "add_range (0, 24) (Stmt [wt ''range'', wt ''0.0.0.12'', wt ''0.0.0.9''] None 2) s = Inr ([(9, 12, 2)], s)"
  "add_range (0, 24) (Stmt [wt ''range'', wt ''0.0.0.20'', wt ''0.0.0.22''] None 2) s = Inr ([(20, 22, 2)], s)"
  using w_range_words
  by (simp_all add: add_range_def st_words_def wt_def mark_def Let_def w_ips ip2int_def ip_in_net_def net_first_def net_last_def
      del: filter.simps list.pred_inject)

lemma w_block:
  "subnet_block (0, 24) w_body \<lparr>sb_ctx = cx, sb_ranges = [], sb_pools = [], sb_hosts = []\<rparr> s =
     Inr (\<lparr>sb_ctx = cx, sb_ranges = [(9, 12, 2), (20, 22, 2)],
           sb_pools = [\<lparr>ip_ranges = [(20, 22, 2)], ip_allow = [], ip_deny = [], ip_line = 2\<rparr>], sb_hosts = []\<rparr>, s)"
  using w_kws by (simp add: w_body_def w_ranges subnet_pool_def)

lemma w_declared: "declared (0, 24) w_body = {9..12} \<union> {20..22}"
proof -
  have "addresses_of [(9, 12, 2), (20, 22, 2)] = declared (0, 24) w_body"
    using subnet_block_ok [OF w_block [of empty_ctx empty_interp], of "{}"] by (simp add: build_ok_def)
  then show ?thesis by (simp add: addresses_of_def strip_line_def)
qed

lemma w_handled:
  "handle_subnet [] w_subnet empty_ctx None s =
     (if \<exists>sc \<in> set (in_scopes s). sc_id sc = int2ip 0 then Inr (warn ''subnet declared twice'' 2 s)
      else Inr (finish_subnet [] 2 (0, 24) empty_ctx None
        \<lparr>sb_ctx = empty_ctx, sb_ranges = [(9, 12, 2), (20, 22, 2)],
          sb_pools = [\<lparr>ip_ranges = [(20, 22, 2)], ip_allow = [], ip_deny = [], ip_line = 2\<rparr>], sb_hosts = []\<rparr> s))"
proof -
  have ip: "int2ip 0 = ''0.0.0.0''" by (simp add: int2ip_def show_nat_0)
  have net: "net_of_string (''0.0.0.0'' @ ''/'' @ show_nat 24) = Some (0, 24)" by code_simp
  have cx: "empty_ctx\<lparr>cx_in_group := False\<rparr> = empty_ctx" by (simp add: empty_ctx_def)
  have words: "length (st_words w_subnet) = 4" "st_words w_subnet ! 1 = ''0.0.0.0''" "lower (st_words w_subnet ! 2) = ''netmask''"
    "st_words w_subnet ! 3 = ''255.255.255.0''" by code_simp+
  show ?thesis
    unfolding handle_subnet_def Let_def w_words(3,5) words w_mask(3) net net_first_def cx
    using w_mask(1,2) w_block ip by (simp only: option.case prod.sel words cx rbind_Inr prod.case if_False if_True not_True_eq_False disj_not1 less_irrefl HOL.simp_thms)
qed

lemma w_plan: "\<exists>pn sc ms. parse_config w_source = Inr pn \<and> sc \<in> set (pn_scopes pn) \<and> scope_to_subnet sc 7 = Inr ms"
proof -
  define s1 where "s1 = finish_subnet [] 2 (0, 24) empty_ctx None
    \<lparr>sb_ctx = empty_ctx, sb_ranges = [(9, 12, 2), (20, 22, 2)],
      sb_pools = [\<lparr>ip_ranges = [(20, 22, 2)], ip_allow = [], ip_deny = [], ip_line = 2\<rparr>], sb_hosts = []\<rparr> empty_interp"
  have facts: "\<exists>sc. in_scopes s1 = [sc] \<and> sc_start sc = int2ip 9 \<and> sc_end sc = int2ip 22 \<and>
      sc_exclusions sc = [(int2ip 13, int2ip 19)] \<and> sc_policies sc = []" "in_pending s1 = []" "in_classes s1 = []"
    by (simp_all add: s1_def finish_subnet_def sort_by_def isc_range_le_def span_of_def pool_guard_def add_scope_def empty_interp_def Let_def)
  then obtain sc where sc: "in_scopes s1 = [sc]" "sc_start sc = int2ip 9" "sc_end sc = int2ip 22"
      "sc_exclusions sc = [(int2ip 13, int2ip 19)]" "sc_policies sc = []" by blast
  have "handle_subnet [] w_subnet empty_ctx None empty_interp = Inr s1"
    by (simp only: w_handled s1_def) (simp add: empty_interp_def)
  then have "isc_walk [] [w_subnet] empty_ctx None True empty_interp = Inr (empty_ctx, s1)"
    by (simp add: w_words)
  moreover have "empty_interp\<lparr>in_warnings := []\<rparr> = empty_interp" by (simp add: empty_interp_def)
  ultimately have "parse_config w_source = finish_plan s1"
    by (simp add: parse_config_def w_parsed del: isc_walk.simps)
  moreover obtain pn where "finish_plan s1 = Inr pn" "pn_scopes pn = [sc]"
    using facts(2,3) sc(1) by (simp add: finish_plan_def Let_def warn_def)
  moreover have "\<exists>ms. scope_to_subnet sc 7 = Inr ms"
    using int2ip_not_Nil
    by (simp add: scope_to_subnet_def split_pool_by_exclusions_def sc ip2int_def ip_of_int2ip ipv4_max_def start_mapping_def sort_by_def)
  ultimately show ?thesis by auto
qed

lemma w_declarations: "st \<in> set (subnet_statements (file_statements w_source)) \<Longrightarrow> st = w_subnet"
  by (simp add: file_statements_def w_parsed w_words)

theorem isc_pools_exact_witness:
  "\<exists>pn sc ms. parse_config w_source = Inr pn \<and> sc \<in> set (pn_scopes pn) \<and> scope_to_subnet sc 7 = Inr ms \<and>
     covers (pool_ranges (json_items (jget (ms_subnet ms) ''pools''))) = {9..12} \<union> {20..22}"
proof -
  obtain pn sc ms where p: "parse_config w_source = Inr pn" "sc \<in> set (pn_scopes pn)" "scope_to_subnet sc 7 = Inr ms"
    using w_plan by blast
  obtain st body net where "st \<in> set (subnet_statements (file_statements w_source))" "st_body st = Some body" "net_of_stmt st = Some net"
    and c: "covers (pool_ranges (json_items (jget (ms_subnet ms) ''pools''))) = declared net body"
    using isc_pools_exact [OF p] by blast
  then have "body = w_body" "net = (0, 24)"
    using w_declarations [of st] w_words w_net(1) w_mask(3) by (auto simp: net_of_stmt_def)
  then show ?thesis using p c w_declared by auto
qed

section \<open>Where the importer stops or forgets\<close>

text \<open>An IPv6 address in a \<open>range\<close> is let through by \<open>valid_ip\<close> and then cannot be converted.\<close>

lemma range_ipv6_raises: "add_range net (Stmt [mark ''range'' 2, mark ''2001:db8::1'' 2] None 2) s = Inl ValueError"
proof -
  have "filter (\<lambda>w. lower w \<noteq> ''dynamic-bootp'') [''2001:db8::1''] = [''2001:db8::1'']"
    "list_all valid_ip [''2001:db8::1'']" "ip2int ''2001:db8::1'' = Inl ValueError" by code_simp+
  then show ?thesis by (simp add: add_range_def st_words_def mark_def Let_def del: filter.simps list.pred_inject)
qed

text \<open>
  A pool that names a usable class and one that is missing is imported unguarded; the usable class counts as
  referenced, so that the end of the file does not import it either.
\<close>

lemma half_guard_loses_class:
  assumes "map_of (in_classes s) a = Some cd" and "ic_reason cd = None" and "map_of (in_classes s) b = None"
  shows "guard_classes_of [(a, l), (b, m)] s =
    (None, warn ''class not declared'' m (s\<lparr>in_classes := AList.update a (cd\<lparr>ic_referenced := True\<rparr>) (in_classes s)\<rparr>))"
  using assms by auto

end
