(* ===== verification/ImportRun.thy ===== *)
theory ImportRun
  imports ImportPlan ClassEdit
begin

text \<open>
  \<open>to_kea\<close> of \<open>src/jen/services/win_dhcp_import.py\<close>: the plan, filtered by the choices of the review page, onto
  a Kea configuration, through the same operations the editing pages use. The report is the list of its lines,
  each with its kind and the scope or network it is about.
\<close>

section \<open>Names\<close>

definition forbidden_chars :: string where
  "forbidden_chars = '',=[]''"

text \<open>The first \<open>n\<close> characters.\<close>

fun take_points :: "nat \<Rightarrow> string \<Rightarrow> string" where
  "take_points n [] = []"
| "take_points n (c # cs) =
     (if ord_of c div 64 = 2 then c # take_points n cs
      else (case n of 0 \<Rightarrow> [] | Suc m \<Rightarrow> c # take_points m cs))"

function blank_words :: "string \<Rightarrow> string list" where
  "blank_words s =
     (let t = dropWhile is_space s
      in if t = [] then [] else takeWhile (\<lambda>c. \<not> is_space c) t # blank_words (dropWhile (\<lambda>c. \<not> is_space c) t))"
  by pat_completeness auto
termination
proof (relation "measure length", goal_cases)
  case (2 s t)
  then obtain c cs where t: "t = c # cs" "\<not> is_space c" by (metis hd_dropWhile list.collapse list.sel(1))
  have "length t \<le> length s" using 2 by (simp add: length_dropWhile_le)
  moreover have "length (dropWhile (\<lambda>c. \<not> is_space c) cs) \<le> length cs" by (rule length_dropWhile_le)
  ultimately show ?case using t by simp
qed simp

declare blank_words.simps [simp del]

definition printable :: "char \<Rightarrow> bool" where
  "printable c = (32 \<le> ord_of c \<and> ord_of c \<noteq> 127)"

definition sanitize_subnet_name :: "string \<Rightarrow> int \<Rightarrow> string" where
  "sanitize_subnet_name name fallback_id =
     (let s = map (\<lambda>c. if c \<in> set forbidden_chars \<or> \<not> printable c then CHR '' '' else c) name;
          s = strip (take_points 64 (join_with '' '' (blank_words s)))
      in if s = [] then ''Subnet'' @ show_int fallback_id else s)"

section \<open>State\<close>

record chosen =
  ch_id :: "int option"
  ch_name :: string

record selections =
  se_scopes :: "(string \<times> bool) list"
  se_server_options :: bool
  se_classes :: bool

record import_plan =
  ip_server_options :: options
  ip_scopes :: "scope list"
  ip_supers :: "(string \<times> string list) list"
  ip_global :: "policy list"

record reserved_row =
  rr_subnet :: int
  rr_mac :: string
  rr_ip :: string
  rr_hostname :: string
  rr_options :: "json list"

type_synonym report = "(string \<times> string) list"

record import_state =
  im_cfg :: json
  im_cidrs :: "string list"
  im_reservations :: "reserved_row list"
  im_declared :: "(int \<times> string \<times> string) list"
  im_report :: report

section \<open>The preparation\<close>

text \<open>The networks that are taken: a value that is not hashable cannot be put into the set.\<close>

fun cidr_values :: "json list \<Rightarrow> string list res" where
  "cidr_values [] = Inr []"
| "cidr_values (v # vs) =
     (case v of
        JStr s \<Rightarrow> rbind (cidr_values vs) (\<lambda>r. Inr (s # r))
      | JList xs \<Rightarrow> Inl TypeError
      | JObj d \<Rightarrow> Inl TypeError
      | _ \<Rightarrow> cidr_values vs)"

definition included :: "selections \<Rightarrow> scope \<Rightarrow> bool" where
  "included sel sc =
     (case map_of (se_scopes sel) (sc_id sc) of Some b \<Rightarrow> b | None \<Rightarrow> lower (sc_state sc) = ''active'')"

fun new_entries :: "json list \<Rightarrow> json list \<Rightarrow> json list \<times> report" where
  "new_entries present [] = ([], [])"
| "new_entries present (e # es) =
     (case new_entries present es of
        (add, rep) \<Rightarrow>
          if list_ex (\<lambda>o'. is_dict o' \<and> py_eq (jget o' ''code'') (jget e ''code'')) present
          then (add, (''option kept'', []) # rep) else (e # add, rep))"

definition add_server_options :: "options \<Rightarrow> json \<Rightarrow> (json \<times> report) res" where
  "add_server_options given cfg =
     (let d4 = jget cfg ''Dhcp4''
      in if \<not> is_dict d4 then Inl AttributeError
         else
           let d4 = jsetdefault ''option-data'' (JList []) d4
           in rbind (appendable (jget d4 ''option-data'')) (\<lambda>present.
                case new_entries present (fst (options_to_kea given)) of
                  (add, rep) \<Rightarrow> Inr (jset ''Dhcp4'' (jset ''option-data'' (JList (present @ add)) d4) cfg, rep)))"

fun upsert_classes :: "json list \<Rightarrow> json \<Rightarrow> json res" where
  "upsert_classes [] cfg = Inr cfg"
| "upsert_classes (c # cs) cfg = rbind (upsert_class4 cfg c None) (\<lambda>(cfg', code). upsert_classes cs cfg')"

definition global_classes :: "policy list \<Rightarrow> json list" where
  "global_classes pos = List.map_filter (\<lambda>po. fst (policy_to_class po)) pos"

text \<open>The scopes that share a network with another included one.\<close>

fun shared_of :: "string list \<Rightarrow> (string \<times> string list) list \<Rightarrow> (string \<times> string) list \<Rightarrow> (string \<times> string) list" where
  "shared_of ids [] acc = acc"
| "shared_of ids ((net, members) # rest) acc =
     (let inside = filter (\<lambda>sid. sid \<in> set ids) members
      in shared_of ids rest (if length inside \<ge> 2 then fold (\<lambda>sid. AList.update sid net) inside acc else acc))"

fun create_networks :: "string list \<Rightarrow> json \<Rightarrow> (json \<times> report) res" where
  "create_networks [] cfg = Inr (cfg, [])"
| "create_networks (n # ns) cfg =
     rbind (create_shared_network4 cfg (JStr n) JNull) (\<lambda>(cfg', code).
     rbind (create_networks ns cfg') (\<lambda>(cfg'', rep).
       Inr (cfg'', (if code = Exists then [(''network reused'', n)] else []) @ rep)))"

section \<open>One scope\<close>

fun attach_subnet_guards :: "int \<Rightarrow> string list \<Rightarrow> json \<Rightarrow> (json \<times> report) res" where
  "attach_subnet_guards i [] cfg = Inr (cfg, [])"
| "attach_subnet_guards i (c # cs) cfg =
     rbind (attach_class4 cfg c (LevelSubnet (JInt i)) ''guard'' True None) (\<lambda>(cfg', code).
     rbind (attach_subnet_guards i cs cfg') (\<lambda>(cfg'', rep).
       Inr (cfg'', (if code \<noteq> Ok then [(''guard not attached'', c)] else []) @ rep)))"

fun attach_pool_guards :: "int \<Rightarrow> (string \<times> string) list \<Rightarrow> json \<Rightarrow> (json \<times> report) res" where
  "attach_pool_guards i [] cfg = Inr (cfg, [])"
| "attach_pool_guards i ((p, c) # cs) cfg =
     rbind (attach_class4 cfg c (LevelPool (JInt i) (JStr p)) ''guard'' True None) (\<lambda>(cfg', code).
     rbind (attach_pool_guards i cs cfg') (\<lambda>(cfg'', rep).
       Inr (cfg'', (if code \<noteq> Ok then [(''guard not attached'', c)] else []) @ rep)))"

definition reserved_rows :: "int \<Rightarrow> reservation list \<Rightarrow> reserved_row list" where
  "reserved_rows i rs =
     map (\<lambda>r. \<lparr>rr_subnet = i, rr_mac = rv_mac r, rr_ip = rv_ip r, rr_hostname = rv_hostname r,
               rr_options = fst (options_to_kea (rv_options r))\<rparr>) rs"

definition cidr_of :: "json \<Rightarrow> string" where
  "cidr_of subnet = (case jget subnet ''subnet'' of JStr s \<Rightarrow> s | _ \<Rightarrow> [])"

definition noted :: "string \<Rightarrow> scope \<Rightarrow> import_state \<Rightarrow> import_state" where
  "noted kind sc im = im\<lparr>im_report := im_report im @ [(kind, sc_name sc)]\<rparr>"

text \<open>The subnet is added first; its classes, its guards, its declaration and its reservations only if that worked.\<close>

definition place_scope :: "scope \<Rightarrow> int \<Rightarrow> string \<Rightarrow> json \<Rightarrow> mapped_scope \<Rightarrow> import_state \<Rightarrow> import_state res" where
  "place_scope sc jen_id name net ms im =
     (let cidr = cidr_of (ms_subnet ms)
      in if cidr \<in> set (im_cidrs im) then Inr (noted ''network exists'' sc im)
         else
           let im = im\<lparr>im_cidrs := im_cidrs im @ [cidr]\<rparr>
           in rbind (add_subnet4 (im_cfg im) (ms_subnet ms) net) (\<lambda>(cfg, code).
                if code \<noteq> Ok then Inr (noted ''not added'' sc (im\<lparr>im_cfg := cfg\<rparr>))
                else
                  rbind (upsert_classes (ms_classes ms) cfg) (\<lambda>cfg.
                  rbind (attach_subnet_guards jen_id (ms_subnet_guards ms) cfg) (\<lambda>(cfg, rep1).
                  rbind (attach_pool_guards jen_id (ms_pool_guards ms) cfg) (\<lambda>(cfg, rep2).
                    Inr (noted ''mapped'' sc
                      (im\<lparr>im_cfg := cfg,
                         im_declared := AList.update jen_id (name, cidr) (im_declared im),
                         im_reservations := im_reservations im @ reserved_rows jen_id (sc_reservations sc),
                         im_report := im_report im @ rep1 @ rep2\<rparr>)))))))"

definition import_scope ::
  "(string \<times> string) list \<Rightarrow> (string \<times> chosen) list \<Rightarrow> scope \<Rightarrow> import_state \<Rightarrow> import_state res" where
  "import_scope network_for names sc im =
     (let ch = (case map_of names (sc_id sc) of Some c \<Rightarrow> c | None \<Rightarrow> \<lparr>ch_id = None, ch_name = []\<rparr>)
      in case ch_id ch of
           None \<Rightarrow> Inr (noted ''no id'' sc im)
         | Some jen_id \<Rightarrow>
             let friendly = (if ch_name ch \<noteq> [] then ch_name ch else sc_name sc);
                 name = sanitize_subnet_name friendly jen_id;
                 im = (if name \<noteq> friendly then noted ''name adjusted'' sc im else im)
             in rbind (scope_to_subnet sc jen_id) (\<lambda>ms.
                  place_scope sc jen_id name
                    (case map_of network_for (sc_id sc) of Some n \<Rightarrow> JStr n | None \<Rightarrow> JNull) ms im))"

fun import_scopes ::
  "(string \<times> string) list \<Rightarrow> (string \<times> chosen) list \<Rightarrow> scope list \<Rightarrow> import_state \<Rightarrow> import_state res" where
  "import_scopes network_for names [] im = Inr im"
| "import_scopes network_for names (sc # scs) im =
     rbind (import_scope network_for names sc im) (import_scopes network_for names scs)"

section \<open>The whole\<close>

definition start_cfg :: "json \<Rightarrow> json res" where
  "start_cfg existing = ensure_dhcp4 (if truthy existing then existing else JObj [])"

definition import_networks :: "import_plan \<Rightarrow> selections \<Rightarrow> (string \<times> string) list" where
  "import_networks pn sel = shared_of (map sc_id (filter (included sel) (ip_scopes pn))) (ip_supers pn) []"

definition to_kea :: "import_plan \<Rightarrow> json \<Rightarrow> (string \<times> chosen) list \<Rightarrow> selections \<Rightarrow> import_state res" where
  "to_kea pn existing names sel =
     rbind (start_cfg existing) (\<lambda>cfg.
     rbind (cidr_values (map (\<lambda>(s, n). jget s ''subnet'') (iter_subnet4 (jget cfg ''Dhcp4'')))) (\<lambda>cidrs.
     rbind (if se_server_options sel \<and> ip_server_options pn \<noteq> [] then add_server_options (ip_server_options pn) cfg
            else Inr (cfg, [])) (\<lambda>(cfg, rep0).
     rbind (if se_classes sel then upsert_classes (global_classes (ip_global pn)) cfg else Inr cfg) (\<lambda>cfg.
     rbind (create_networks (sort_by str_le (remdups (map snd (import_networks pn sel)))) cfg) (\<lambda>(cfg, rep1).
       import_scopes (import_networks pn sel) names (filter (included sel) (ip_scopes pn))
         \<lparr>im_cfg = cfg, im_cidrs = cidrs, im_reservations = [], im_declared = [], im_report = rep0 @ rep1\<rparr>)))))"

end
