(* ===== verification/ImportRunProps.thy ===== *)
theory ImportRunProps
  imports ImportRun SubnetOps ImportProps
begin

text \<open>
  What an import does to the subnets of a configuration: the declared ones are added, each once, under an id and
  a network nobody has, and every subnet that was there stays with its id and network.
\<close>

section \<open>The id and the network of every subnet\<close>

definition subnet_key :: "json \<Rightarrow> json \<times> json" where
  "subnet_key s = (jget s ''id'', jget s ''subnet'')"

definition subnet_keys :: "json \<Rightarrow> (json \<times> json) multiset" where
  "subnet_keys cfg = image_mset subnet_key (row_subnets (layout4 cfg))"

lemma subnet_keys_layout: "layout4 cfg' = layout4 cfg \<Longrightarrow> subnet_keys cfg' = subnet_keys cfg"
  by (simp add: subnet_keys_def)

lemma subnet_keys_iter:
  "subnet_keys cfg = mset (map (\<lambda>e. subnet_key (fst e)) (iter_subnets ''subnet4'' (jget cfg ''Dhcp4'')))"
proof -
  have "row_subnets (layout4 cfg) = mset (map fst (iter_subnet4 (jget cfg ''Dhcp4'')))"
    unfolding all_subnets_iter [symmetric] by (simp add: row_subnets_def layout4_def all_subnets_def)
  then show ?thesis by (simp add: subnet_keys_def iter_subnet4_def multiset.map_comp comp_def)
qed

lemma subnet_ids_keys: "subnet_ids (jget cfg ''Dhcp4'') = image_mset fst (subnet_keys cfg)"
  by (simp add: subnet_ids_layout4 subnet_keys_def subnet_key_def multiset.map_comp comp_def)

lemma keys_unique: "subnet_keys cfg' = subnet_keys cfg \<Longrightarrow> unique_subnet_ids cfg' = unique_subnet_ids cfg"
  by (simp add: unique_subnet_ids_def subnet_ids_keys)

lemma subnet_keys_same_iter:
  "iter_subnets ''subnet4'' (jget cfg' ''Dhcp4'') = iter_subnets ''subnet4'' (jget cfg ''Dhcp4'') \<Longrightarrow> subnet_keys cfg' = subnet_keys cfg"
  by (simp add: subnet_keys_iter)

text \<open>Writing a subnet back with the same id and network.\<close>

lemma subnet_keys_put:
  assumes ref: "(p, n) \<in> set (subnet_refs ''subnet4'' (jget cfg ''Dhcp4''))" and x: "is_dict x"
    and same: "subnet_key x = subnet_key (value_at (jget cfg ''Dhcp4'') p)"
  shows "subnet_keys (json_put (Key ''Dhcp4'' # p) x cfg) = subnet_keys cfg"
proof -
  let ?d = "jget cfg ''Dhcp4''" and ?R = "subnet_refs ''subnet4'' (jget cfg ''Dhcp4'')"
  obtain i where i: "i < length ?R" "?R ! i = (p, n)" using ref by (metis in_set_conv_nth)
  have "jhas cfg ''Dhcp4''"
    using form4.section_value(2) [OF ref] .
  then have d: "jget (json_put (Key ''Dhcp4'' # p) x cfg) ''Dhcp4'' = json_put p x ?d" by (simp add: jget_put_Key)
  have it: "iter_subnets ''subnet4'' (json_put p x ?d) =
      (iter_subnets ''subnet4'' ?d)[i := (x, snd (iter_subnets ''subnet4'' ?d ! i))]"
    using iter_subnets_put [of "''subnet4''" i ?d x] i x by simp
  have "fst (iter_subnets ''subnet4'' ?d ! i) = value_at ?d p"
    using i by (simp add: iter_subnets_refs ref_entry_def)
  then have "map (\<lambda>e. subnet_key (fst e)) (iter_subnets ''subnet4'' (json_put p x ?d)) =
      map (\<lambda>e. subnet_key (fst e)) (iter_subnets ''subnet4'' ?d)"
    using i same unfolding it map_update by (simp add: iter_subnets_refs list_update_same_conv)
  then show ?thesis by (simp add: subnet_keys_iter d)
qed

section \<open>Guards\<close>

definition attach_key_names :: "string set" where
  "attach_key_names = {new_guard, old_guard, new_additional, old_additional}"

lemma attach_list_keys:
  assumes "attach_list key name attach c = Inr c'" and "is_dict c"
  shows "is_dict c'" and "k \<noteq> key \<Longrightarrow> jget c' k = jget c k"
proof -
  obtain l where c': "c' = (if l \<noteq> [] then jset key (JList (map JStr l)) c else jdel key c)"
    using assms(1) unfolding attach_list_def Let_def rbind_eq_Inr sum.inject by blast
  show "is_dict c'" "k \<noteq> key \<Longrightarrow> jget c' k = jget c k" using assms(2) by (simp_all add: c')
qed

lemma attach_to_keys:
  assumes run: "attach_to keys name mode attach c = Inr c'" and sp: "one_spelling keys" and d: "is_dict c"
  shows "is_dict c'" and "k \<notin> attach_key_names \<Longrightarrow> jget c' k = jget c k"
proof -
  have kn: "k_guard keys \<in> attach_key_names" "k_additional keys \<in> attach_key_names"
    using sp by (auto simp: one_spelling_def attach_key_names_def)
  have "is_dict c' \<and> (k \<notin> attach_key_names \<longrightarrow> jget c' k = jget c k)"
  proof (cases "mode = ''guard'' \<and> k_guard keys \<noteq> new_guard")
    case True
    then have "c' = attach_single (k_guard keys) name attach c" using run by (simp add: attach_to_def)
    moreover have "k \<notin> attach_key_names \<longrightarrow> k \<noteq> k_guard keys" using kn(1) by blast
    ultimately show ?thesis using d by (cases "k \<in> attach_key_names") (auto simp: attach_single_def)
  next
    case False
    define key where "key = (if mode = ''guard'' then k_guard keys else k_additional keys)"
    have "attach_list key name attach c = Inr c'"
      using run False by (simp add: attach_to_def key_def split: if_splits)
    moreover have "key \<in> attach_key_names" using kn by (simp add: key_def)
    ultimately show ?thesis
      using attach_list_keys(1) [of key name attach c c'] attach_list_keys(2) [of key name attach c c' k] d
      by (cases "k = key") simp_all
  qed
  then show "is_dict c'" "k \<notin> attach_key_names \<Longrightarrow> jget c' k = jget c k" by simp_all
qed

lemma subnet_key_attach:
  assumes "\<And>k. k \<notin> attach_key_names \<Longrightarrow> jget c' k = jget c k"
  shows "subnet_key c' = subnet_key c"
proof -
  have "''id'' \<notin> attach_key_names" "''subnet'' \<notin> attach_key_names" by (simp_all add: attach_key_names_def key_defs)
  then show ?thesis using assms by (simp add: subnet_key_def)
qed

definition in_subnet :: "level4 \<Rightarrow> bool" where
  "in_subnet level = (case level of LevelSubnet i \<Rightarrow> True | LevelPool i p \<Rightarrow> True | _ \<Rightarrow> False)"

text \<open>The reference of a subnet, or of a pool, is that of the subnet with something of its pools behind.\<close>

lemma container_in_subnet:
  assumes "container_ref cfg level = Inr (Some p)" and "in_subnet level"
  obtains s n q where "p = Key ''Dhcp4'' # s @ q" and "(s, n) \<in> set (subnet_refs ''subnet4'' (jget cfg ''Dhcp4''))"
    and "q = [] \<or> (\<exists>r. q = Key ''pools'' # r)"
proof -
  let ?d = "jget cfg ''Dhcp4''"
  have sub: "\<exists>n. (s, n) \<in> set (subnet_refs ''subnet4'' ?d)"
    if "find (\<lambda>p. has_id sid (value_at ?d p)) (map fst (subnet_refs ''subnet4'' ?d)) = Some s" for sid s
  proof -
    have "s \<in> set (map fst (subnet_refs ''subnet4'' ?d))" using that unfolding find_Some_iff by (metis nth_mem)
    then show ?thesis by auto
  qed
  show ?thesis
  proof (cases level)
    case (LevelSubnet sid)
    then obtain s where "p = Key ''Dhcp4'' # s @ []" "find (\<lambda>p. has_id sid (value_at ?d p)) (map fst (subnet_refs ''subnet4'' ?d)) = Some s"
      using assms(1) by (auto simp: container_ref_def res_simps py_get_Inr Let_def split: if_splits)
    then show thesis using sub that by blast
  next
    case (LevelPool sid pool)
    then obtain s q where p: "p = Key ''Dhcp4'' # s @ q"
      and s: "find (\<lambda>p. has_id sid (value_at ?d p)) (map fst (subnet_refs ''subnet4'' ?d)) = Some s"
      and q: "find_ref ''pools'' (named ''pool'' pool) (value_at ?d s) = Inr (Some q)"
      using assms(1) by (auto simp: container_ref_def res_simps py_get_Inr Let_def split: if_splits option.splits)
    have "\<exists>r. q = Key ''pools'' # r" using find_ref_Some(1) [OF q] by (auto elim: list_refs_member)
    then show thesis using sub [OF s] p that by blast
  qed (use assms(2) in \<open>simp_all add: in_subnet_def\<close>)
qed

lemma attach_class4_keys:
  assumes run: "attach_class4 cfg name level mode attach version = Inr (cfg', out)" and lv: "in_subnet level"
  shows "subnet_keys cfg' = subnet_keys cfg"
proof -
  consider (same) "cfg' = cfg"
    | (put) p keys c where "container_ref cfg level = Inr (Some p)" "attachment_keys (jget cfg ''Dhcp4'') version = Inr keys"
      "attach_to keys name mode attach (value_at cfg p) = Inr c" "cfg' = json_put p c cfg"
  proof (cases "py_get cfg ''Dhcp4''")
    case (Inr d4)
    show thesis
    proof (cases "is_dict d4")
      case True
      then obtain r where r: "container_ref cfg level = Inr r" using run Inr by (auto simp: attach_class4_def rbind_eq_Inr)
      have d4: "d4 = jget cfg ''Dhcp4''" using Inr by (simp add: py_get_Inr)
      show thesis
      proof (cases r)
        case None
        then show thesis using run Inr True r by (intro that(1)) (simp add: attach_class4_def)
      next
        case (Some p)
        then have "rbind (attachment_keys d4 version) (\<lambda>keys. rbind (attach_to keys name mode attach (value_at cfg p))
            (\<lambda>c. Inr (json_put p c cfg, Ok))) = Inr (cfg', out)"
          using run Inr True r by (simp add: attach_class4_def)
        then obtain keys c where "attachment_keys d4 version = Inr keys" "attach_to keys name mode attach (value_at cfg p) = Inr c"
          "cfg' = json_put p c cfg"
          unfolding rbind_eq_Inr by auto
        then show thesis using r Some d4 by (intro that(2)) simp_all
      qed
    qed (use run Inr that(1) in \<open>simp add: attach_class4_def\<close>)
  qed (use run in \<open>simp add: attach_class4_def\<close>)
  then show ?thesis
  proof cases
    case put
    let ?d = "jget cfg ''Dhcp4''"
    obtain w where w: "json_at p cfg = Some w" "is_dict w" by (rule container_ref_value [OF put(1)])
    have at: "value_at cfg p = w" by (simp add: value_at_Some w)
    note eff = attach_to_keys [OF put(3) attachment_keys_spelling [OF put(2)], unfolded at, OF w(2)]
    obtain s n q where p: "p = Key ''Dhcp4'' # s @ q" and ref: "(s, n) \<in> set (subnet_refs ''subnet4'' ?d)"
      and q: "q = [] \<or> (\<exists>r. q = Key ''pools'' # r)"
      by (rule container_in_subnet [OF put(1) lv])
    obtain v where v: "json_at s ?d = Some v" "is_dict v" by (rule subnet_refs_at [OF ref])
    have sv: "json_at (Key ''Dhcp4'' # s) cfg = Some v"
      using v form4.section_value(2) [OF ref] by (simp add: json_at_Key_Cons)
    let ?x = "json_put q c v"
    have put_s: "json_put p c cfg = json_put (Key ''Dhcp4'' # s) ?x cfg"
      using sv json_put_append [of "Key ''Dhcp4'' # s" cfg v q c] by (simp add: p)
    have x: "is_dict ?x \<and> subnet_key ?x = subnet_key v"
    proof (cases "q = []")
      case True
      have "w = v" using w(1) sv by (simp add: p True)
      then show ?thesis using eff(1) subnet_key_attach [OF eff(2)] True by simp
    next
      case False
      then obtain r where "q = Key ''pools'' # r" using q by blast
      then show ?thesis using v(2) by (simp add: is_dict_json_put subnet_key_def jget_put_Key)
    qed
    show ?thesis using subnet_keys_put [OF ref, of ?x] x v(1) by (simp add: put(4) put_s value_at_Some)
  qed simp
qed

section \<open>Classes, networks, options\<close>

lemma iter_subnets_other:
  "is_dict d \<Longrightarrow> k \<noteq> ''subnet4'' \<Longrightarrow> k \<noteq> ''shared-networks'' \<Longrightarrow> iter_subnets ''subnet4'' (jset k v d) = iter_subnets ''subnet4'' d"
  by (simp add: iter_subnets_def subnets_of_def shared_networks_def)

lemma layout_other:
  "is_dict d \<Longrightarrow> k \<noteq> ''subnet4'' \<Longrightarrow> k \<noteq> ''shared-networks'' \<Longrightarrow> layout (jset k v d) = layout d"
  by (simp add: layout_def subnets_of_def shared_networks_def)

lemma jsetdefault_other:
  "is_dict d \<Longrightarrow> k \<noteq> ''subnet4'' \<Longrightarrow> k \<noteq> ''shared-networks'' \<Longrightarrow> layout (jsetdefault k v d) = layout d"
  by (simp add: jsetdefault_def layout_other)

lemma layout4_put: "is_dict cfg \<Longrightarrow> layout4 (jset ''Dhcp4'' d cfg) = layout d"
  by (simp add: layout4_def)

lemma upsert_class4_keys:
  assumes "upsert_class4 cfg c None = Inr (cfg', out)"
  shows "subnet_keys cfg' = subnet_keys cfg"
proof -
  obtain e xs ys where e: "ensure_dhcp4 cfg = Inr e" and d: "is_dict (jget e ''Dhcp4'')"
    and cfg': "cfg' = put_classes ys (jset ''Dhcp4'' (jsetdefault ''client-classes'' (JList []) (jget e ''Dhcp4'')) e)"
    using assms unfolding upsert_class4_def classes_of_def Let_def by (auto simp: rbind_eq_Inr split: if_splits)
  have "layout4 cfg' = layout (jget e ''Dhcp4'')"
    using d ensure_dhcp4_layout(3) [OF e] by (simp add: cfg' put_classes_def layout4_put layout_other jsetdefault_other)
  also have "\<dots> = layout4 cfg" using ensure_dhcp4_layout(1) [OF e] by (simp add: layout4_def)
  finally show ?thesis by (rule subnet_keys_layout)
qed

lemma upsert_classes_keys: "upsert_classes cs cfg = Inr cfg' \<Longrightarrow> subnet_keys cfg' = subnet_keys cfg"
  by (induction cs arbitrary: cfg) (auto simp: rbind_eq_Inr dest!: upsert_class4_keys)

lemma create_networks_keys: "create_networks ns cfg = Inr (cfg', rep) \<Longrightarrow> subnet_keys cfg' = subnet_keys cfg"
  by (induction ns arbitrary: cfg rep) (auto simp: rbind_eq_Inr subnet_keys_def dest!: network_ops_subnets(1))

lemma subnet_guards_keys: "attach_subnet_guards i cs cfg = Inr (cfg', rep) \<Longrightarrow> subnet_keys cfg' = subnet_keys cfg"
  by (induction cs arbitrary: cfg cfg' rep)
    (auto simp: rbind_eq_Inr in_subnet_def dest!: attach_class4_keys)

lemma pool_guards_keys: "attach_pool_guards i cs cfg = Inr (cfg', rep) \<Longrightarrow> subnet_keys cfg' = subnet_keys cfg"
  by (induction cs arbitrary: cfg cfg' rep)
    (auto simp: rbind_eq_Inr in_subnet_def dest!: attach_class4_keys)

lemma add_server_options_keys:
  assumes "add_server_options given cfg = Inr (cfg', rep)" and "is_dict cfg"
  shows "subnet_keys cfg' = subnet_keys cfg"
proof -
  obtain ys where "is_dict (jget cfg ''Dhcp4'')"
    "cfg' = jset ''Dhcp4'' (jset ''option-data'' (JList ys) (jsetdefault ''option-data'' (JList []) (jget cfg ''Dhcp4''))) cfg"
    using assms(1) unfolding add_server_options_def Let_def
    by (cases "is_dict (jget cfg ''Dhcp4'')") (simp_all add: rbind_eq_Inr split_beta, metis)
  then have "layout4 cfg' = layout4 cfg"
    using assms(2) by (simp add: layout4_put layout_other jsetdefault_other) (simp add: layout4_def)
  then show ?thesis by (rule subnet_keys_layout)
qed

section \<open>One scope and all of them\<close>

lemma add_subnet4_keys:
  assumes run: "add_subnet4 cfg block net = Inr (cfg', out)"
  shows "out \<noteq> Ok \<Longrightarrow> subnet_keys cfg' = subnet_keys cfg"
    and "out = Ok \<Longrightarrow> subnet_keys cfg' = add_mset (subnet_key block) (subnet_keys cfg)"
    and "out = Ok \<Longrightarrow> v \<in># subnet_keys cfg \<Longrightarrow> \<not> py_eq (fst v) (fst (subnet_key block))"
proof -
  note l = add_subnet4_layout [OF run]
  have "layout4 cfg' = layout4 cfg \<or> out = Ok" using l by (cases out) auto
  then show "out \<noteq> Ok \<Longrightarrow> subnet_keys cfg' = subnet_keys cfg" using subnet_keys_layout by blast
  show "subnet_keys cfg' = add_mset (subnet_key block) (subnet_keys cfg)" if "out = Ok"
  proof -
    obtain i where "i < length (layout4 cfg)" "layout4 cfg' = (layout4 cfg)[i := (fst (layout4 cfg ! i), snd (layout4 cfg ! i) @ [block])]"
      using l \<open>out = Ok\<close> by auto
    then show ?thesis by (simp add: subnet_keys_def row_subnets_append)
  qed
  assume "out = Ok" and v: "v \<in># subnet_keys cfg"
  then have "\<forall>s \<in> set (all_subnets (jget cfg ''Dhcp4'')). \<not> has_id (jget block ''id'') s" using l by auto
  moreover have "set_mset (row_subnets (layout4 cfg)) = set (all_subnets (jget cfg ''Dhcp4''))"
    by (simp add: row_subnets_def layout4_def all_subnets_def)
  ultimately show "\<not> py_eq (fst v) (fst (subnet_key block))"
    using v by (auto simp: subnet_keys_def subnet_key_def has_id_def)
qed

lemma mapped_subnet_key:
  assumes "scope_to_subnet sc i = Inr ms"
  shows "subnet_key (ms_subnet ms) = (JInt i, JStr (cidr_of (ms_subnet ms)))"
  using assms
  by (auto simp: scope_to_subnet_def rbind_eq_Inr assemble_subnet_def split_beta Let_def subnet_key_def cidr_of_def jget_JObj)

text \<open>What one scope does: nothing, an attempt that is refused, or one more subnet.\<close>

definition added_one :: "import_state \<Rightarrow> import_state \<Rightarrow> bool" where
  "added_one im im' =
     (\<exists>i name c. c \<notin> set (im_cidrs im) \<and> im_cidrs im' = im_cidrs im @ [c] \<and>
        im_declared im' = AList.update i (name, c) (im_declared im) \<and>
        subnet_keys (im_cfg im') = add_mset (JInt i, JStr c) (subnet_keys (im_cfg im)) \<and>
        (\<forall>v \<in># subnet_keys (im_cfg im). \<not> py_eq (fst v) (JInt i)))"

definition nothing_added :: "import_state \<Rightarrow> import_state \<Rightarrow> bool" where
  "nothing_added im im' =
     (im_declared im' = im_declared im \<and> subnet_keys (im_cfg im') = subnet_keys (im_cfg im) \<and>
      set (im_cidrs im) \<subseteq> set (im_cidrs im'))"

lemma noted_simps [simp]:
  "im_cfg (noted k sc im) = im_cfg im" "im_declared (noted k sc im) = im_declared im"
  "im_cidrs (noted k sc im) = im_cidrs im"
  by (simp_all add: noted_def)

lemma place_scope_result:
  assumes run: "place_scope sc i name net ms im = Inr im'" and ms: "scope_to_subnet sc i = Inr ms"
  shows "nothing_added im im' \<or> added_one im im'"
proof (cases "cidr_of (ms_subnet ms) \<in> set (im_cidrs im)")
  case True
  then have "im' = noted ''network exists'' sc im" using run by (simp add: place_scope_def)
  then show ?thesis by (simp add: nothing_added_def)
next
  case False
  define c where "c = cidr_of (ms_subnet ms)"
  have new: "c \<notin> set (im_cidrs im)" using False by (simp add: c_def)
  obtain cfg code where add: "add_subnet4 (im_cfg im) (ms_subnet ms) net = Inr (cfg, code)"
    using run False by (cases "add_subnet4 (im_cfg im) (ms_subnet ms) net") (auto simp: place_scope_def Let_def)
  have key: "subnet_key (ms_subnet ms) = (JInt i, JStr c)" using mapped_subnet_key [OF ms] by (simp add: c_def)
  note keys = add_subnet4_keys [OF add, unfolded key fst_conv]
  show ?thesis
  proof (cases "code = Ok")
    case False
    then have "im' = noted ''not added'' sc (im\<lparr>im_cidrs := im_cidrs im @ [c], im_cfg := cfg\<rparr>)"
      using run add new by (simp add: place_scope_def Let_def c_def)
    then show ?thesis using keys(1) [OF False] by (auto simp: nothing_added_def)
  next
    case True
    have "\<exists>cfg1 cfg2 cfg3 rep1 rep2. upsert_classes (ms_classes ms) cfg = Inr cfg1 \<and>
        attach_subnet_guards i (ms_subnet_guards ms) cfg1 = Inr (cfg2, rep1) \<and>
        attach_pool_guards i (ms_pool_guards ms) cfg2 = Inr (cfg3, rep2) \<and>
        im_cfg im' = cfg3 \<and> im_cidrs im' = im_cidrs im @ [c] \<and> im_declared im' = AList.update i (name, c) (im_declared im)"
      using run add new True by (auto simp: place_scope_def Let_def c_def [symmetric] rbind_eq_Inr)
    then obtain cfg1 cfg2 cfg3 rep1 rep2 where parts: "upsert_classes (ms_classes ms) cfg = Inr cfg1"
        "attach_subnet_guards i (ms_subnet_guards ms) cfg1 = Inr (cfg2, rep1)"
        "attach_pool_guards i (ms_pool_guards ms) cfg2 = Inr (cfg3, rep2)"
      and im': "im_cfg im' = cfg3" "im_cidrs im' = im_cidrs im @ [c]" "im_declared im' = AList.update i (name, c) (im_declared im)"
      by blast
    have "subnet_keys (im_cfg im') = add_mset (JInt i, JStr c) (subnet_keys (im_cfg im))"
      using upsert_classes_keys [OF parts(1)] subnet_guards_keys [OF parts(2)] pool_guards_keys [OF parts(3)] keys(2) [OF True]
      by (simp add: im'(1))
    then have "added_one im im'" unfolding added_one_def using im' new keys(3) [OF True] by blast
    then show ?thesis by blast
  qed
qed

lemma import_scope_result:
  assumes run: "import_scope network_for names sc im = Inr im'"
  shows "nothing_added im im' \<or> added_one im im'"
proof -
  define ch where "ch = (case map_of names (sc_id sc) of Some c \<Rightarrow> c | None \<Rightarrow> \<lparr>ch_id = None, ch_name = []\<rparr>)"
  show ?thesis
  proof (cases "ch_id ch")
    case None
    then have "im' = noted ''no id'' sc im" using run by (simp add: import_scope_def ch_def [symmetric] Let_def)
    then show ?thesis by (simp add: nothing_added_def)
  next
    case (Some i)
    define friendly where "friendly = (if ch_name ch \<noteq> [] then ch_name ch else sc_name sc)"
    define im1 where "im1 = (if sanitize_subnet_name friendly i \<noteq> friendly then noted ''name adjusted'' sc im else im)"
    obtain ms name net where ms: "scope_to_subnet sc i = Inr ms" and place: "place_scope sc i name net ms im1 = Inr im'"
      using run Some
      by (auto simp: import_scope_def ch_def [symmetric] Let_def friendly_def [symmetric] im1_def [symmetric] rbind_eq_Inr)
    have "im_cfg im1 = im_cfg im" "im_declared im1 = im_declared im" "im_cidrs im1 = im_cidrs im" by (simp_all add: im1_def)
    then show ?thesis using place_scope_result [OF place ms] by (simp add: nothing_added_def added_one_def)
  qed
qed

section \<open>The whole import\<close>

lemma unique_in_add_int:
  assumes "unique_in M" and "\<forall>w \<in># M. \<not> py_eq w (JInt i)"
  shows "unique_in (add_mset (JInt i) M)"
proof -
  have "filter_mset (\<lambda>w. py_eq w (JInt i)) M = {#}" using assms(2) by simp
  moreover have "\<not> py_eq (JInt i) w" if "w \<in># M" for w using assms(2) that by (cases w) auto
  ultimately show ?thesis using assms(1) by (auto simp: unique_in_def)
qed

definition declared_keys :: "(int \<times> string \<times> string) list \<Rightarrow> (json \<times> json) list" where
  "declared_keys ds = map (\<lambda>(i, n, c). (JInt i, JStr c)) ds"

definition declared_networks :: "(int \<times> string \<times> string) list \<Rightarrow> string list" where
  "declared_networks ds = map (\<lambda>(i, n, c). c) ds"

definition import_ok :: "json \<Rightarrow> string list \<Rightarrow> import_state \<Rightarrow> bool" where
  "import_ok cfg0 taken im =
     (subnet_keys (im_cfg im) = subnet_keys cfg0 + mset (declared_keys (im_declared im)) \<and>
      (unique_subnet_ids cfg0 \<longrightarrow> unique_subnet_ids (im_cfg im)) \<and>
      set taken \<subseteq> set (im_cidrs im) \<and> distinct (declared_networks (im_declared im)) \<and>
      set (declared_networks (im_declared im)) \<subseteq> set (im_cidrs im) - set taken)"

lemma import_ok_step:
  assumes ok: "import_ok cfg0 taken im" and step: "nothing_added im im' \<or> added_one im im'"
  shows "import_ok cfg0 taken im'"
  using step
proof
  assume "nothing_added im im'"
  then show ?thesis using ok keys_unique [of "im_cfg im'" "im_cfg im"] by (auto simp: nothing_added_def import_ok_def)
next
  assume "added_one im im'"
  then obtain i name c where c: "c \<notin> set (im_cidrs im)" "im_cidrs im' = im_cidrs im @ [c]"
    and decl: "im_declared im' = AList.update i (name, c) (im_declared im)"
    and keys: "subnet_keys (im_cfg im') = add_mset (JInt i, JStr c) (subnet_keys (im_cfg im))"
    and fresh: "\<forall>v \<in># subnet_keys (im_cfg im). \<not> py_eq (fst v) (JInt i)"
    by (auto simp: added_one_def)
  have "i \<notin> fst ` set (im_declared im)"
  proof
    assume "i \<in> fst ` set (im_declared im)"
    then obtain n d where "(i, n, d) \<in> set (im_declared im)" by auto
    then have "(JInt i, JStr d) \<in> set (declared_keys (im_declared im))" by (force simp: declared_keys_def)
    then have "(JInt i, JStr d) \<in># subnet_keys (im_cfg im)" using ok by (simp add: import_ok_def)
    then show False using fresh by fastforce
  qed
  then have decl': "im_declared im' = im_declared im @ [(i, name, c)]" using decl update_new [of "im_declared im" i] by (simp add: map_of_eq_None_iff)
  have "unique_subnet_ids (im_cfg im')" if "unique_subnet_ids (im_cfg im)"
    using that fresh unique_in_add_int [of "image_mset fst (subnet_keys (im_cfg im))" i]
    by (auto simp: unique_subnet_ids_def subnet_ids_keys keys)
  then show ?thesis
    using ok c by (auto simp: import_ok_def keys decl' declared_keys_def declared_networks_def)
qed

lemma import_scopes_ok:
  "import_scopes network_for names scs im = Inr im' \<Longrightarrow> import_ok cfg0 taken im \<Longrightarrow> import_ok cfg0 taken im'"
  by (induction scs arbitrary: im) (auto simp: rbind_eq_Inr intro: import_ok_step dest!: import_scope_result)

lemma cidr_values_all: "cidr_values vs = Inr r \<Longrightarrow> JStr c \<in> set vs \<longleftrightarrow> c \<in> set r"
  by (induction vs arbitrary: r) (auto simp: rbind_eq_Inr split: json.splits)

lemma subnet_keys_networks:
  "set_mset (image_mset snd (subnet_keys cfg)) = set (map (\<lambda>(s, n). jget s ''subnet'') (iter_subnet4 (jget cfg ''Dhcp4'')))"
  by (force simp: subnet_keys_iter iter_subnet4_def subnet_key_def)

text \<open>
  C33. An import only adds. The subnets of the configuration it writes are, by id and network, the subnets that
  were there, each as often as before, and the subnets it declares, each once, whatever the classes, options,
  guards and shared networks it also writes. It declares no network twice and none that was there, and if no
  two subnets had the same id, no two have afterwards.
\<close>

theorem import_only_adds:
  assumes run: "to_kea pn existing names sel = Inr im" and start: "start_cfg existing = Inr cfg0"
  shows "subnet_keys (im_cfg im) = subnet_keys cfg0 + mset (declared_keys (im_declared im)) \<and>
    distinct (declared_networks (im_declared im)) \<and>
    (\<forall>c \<in> set (declared_networks (im_declared im)). JStr c \<notin># image_mset snd (subnet_keys cfg0)) \<and>
    (unique_subnet_ids cfg0 \<longrightarrow> unique_subnet_ids (im_cfg im))"
proof -
  obtain taken cfg1 rep0 cfg2 cfg3 rep1 where
      taken: "cidr_values (map (\<lambda>(s, n). jget s ''subnet'') (iter_subnet4 (jget cfg0 ''Dhcp4''))) = Inr taken"
    and opts: "(if se_server_options sel \<and> ip_server_options pn \<noteq> [] then add_server_options (ip_server_options pn) cfg0
        else Inr (cfg0, [])) = Inr (cfg1, rep0)"
    and classes: "(if se_classes sel then upsert_classes (global_classes (ip_global pn)) cfg1 else Inr cfg1) = Inr cfg2"
    and nets: "create_networks (sort_by str_le (remdups (map snd (import_networks pn sel)))) cfg2 = Inr (cfg3, rep1)"
    and scopes: "import_scopes (import_networks pn sel) names (filter (included sel) (ip_scopes pn))
         \<lparr>im_cfg = cfg3, im_cidrs = taken, im_reservations = [], im_declared = [], im_report = rep0 @ rep1\<rparr> = Inr im"
    using run by (simp only: to_kea_def start rbind_Inr rbind_eq_Inr split_paired_Ex prod.case) blast
  have "is_dict cfg0" using start ensure_dhcp4_layout(3) by (simp add: start_cfg_def)
  then have "subnet_keys cfg1 = subnet_keys cfg0" using opts add_server_options_keys by (auto split: if_splits)
  moreover have "subnet_keys cfg2 = subnet_keys cfg1" using classes upsert_classes_keys by (auto split: if_splits)
  ultimately have same: "subnet_keys cfg3 = subnet_keys cfg0" using create_networks_keys [OF nets] by simp
  have "import_ok cfg0 taken im"
    by (rule import_scopes_ok [OF scopes])
      (use same keys_unique [OF same] in \<open>simp add: import_ok_def declared_keys_def declared_networks_def\<close>)
  moreover have "JStr c \<in># image_mset snd (subnet_keys cfg0) \<longleftrightarrow> c \<in> set taken" for c
    using cidr_values_all [OF taken] unfolding subnet_keys_networks by blast
  ultimately show ?thesis by (auto simp: import_ok_def)
qed

definition run_lab :: scope where
  "run_lab = \<lparr>sc_id = ''0.0.0.0'', sc_mask = ''0.0.0.0'', sc_name = ''lab'', sc_state = ''Active'',
     sc_start = ''0.0.0.10'', sc_end = ''0.0.0.99'', sc_lease = 3600, sc_exclusions = [(''0.0.0.10'', ''0.0.0.99'')],
     sc_options = [], sc_reservations = [], sc_policies = [], sc_network = None, sc_next_server = [],
     sc_boot_file = []\<rparr>"

definition run_import :: import_plan where
  "run_import = \<lparr>ip_server_options = [], ip_scopes = [run_lab], ip_supers = [], ip_global = []\<rparr>"

definition run_existing :: json where
  "run_existing = JObj [(''Dhcp4'', JObj [(''subnet4'', JList [JObj [(''id'', JInt 3), (''subnet'', JStr ''0.0.4.0/24'')]])])]"

lemma run_existing_values: "cidr_values (map (\<lambda>(s, n). jget s ''subnet'') (iter_subnet4 (jget run_existing ''Dhcp4''))) = Inr [''0.0.4.0/24'']"
  by code_simp
lemma run_existing_start: "start_cfg run_existing = Inr run_existing" by code_simp

lemma run_ips: "ip_of_string ''0.0.0.10'' = Some 10" "ip_of_string ''0.0.0.99'' = Some 99" by code_simp+

lemma run_split: "split_pool_by_exclusions ''0.0.0.10'' ''0.0.0.99'' [(''0.0.0.10'', ''0.0.0.99'')] = Inr []"
  by (simp add: split_pool_by_exclusions_def ip2int_def run_ips cut_segment_def)

lemma run_prefix: "prefix_len ''0.0.0.0'' = 0" by code_simp

definition run_ms :: mapped_scope where
 "run_ms = assemble_subnet run_lab 7 (start_mapping run_lab [])"

lemma run_scope: "scope_to_subnet run_lab 7 = Inr run_ms"
  by (simp add: scope_to_subnet_def run_ms_def) (simp add: run_lab_def run_split sort_by_def)


lemma run_merge: "merge_options [] [] [] = ([], [])" by code_simp
lemma run_zero: "show_nat 0 = ''0''" by code_simp

lemma run_parts:
  "ms_subnet run_ms = JObj [(''id'', JInt 7), (''subnet'', JStr ''0.0.0.0/0''), (''pools'', JList []),
     (''valid-lifetime'', JInt 3600), (''option-data'', JList [])]"
  "ms_classes run_ms = []" "ms_subnet_guards run_ms = []" "ms_pool_guards run_ms = []"
  by (simp_all add: run_ms_def assemble_subnet_def options_to_kea_def run_lab_def run_prefix timer_field_def lease_of_def start_mapping_def
    run_merge run_zero)

definition run_start :: import_state where
  "run_start = \<lparr>im_cfg = run_existing, im_cidrs = [''0.0.4.0/24''], im_reservations = [], im_declared = [], im_report = []\<rparr>"

lemma run_add: "\<exists>cfg. add_subnet4 run_existing (ms_subnet run_ms) JNull = Inr (cfg, Ok)"
  unfolding run_parts by (rule exI, code_simp)

lemma run_place: "\<exists>im. place_scope run_lab 7 ''lab'' JNull run_ms run_start = Inr im \<and> im_declared im = [(7, ''lab'', ''0.0.0.0/0'')]"
proof -
  obtain cfg where "add_subnet4 run_existing (ms_subnet run_ms) JNull = Inr (cfg, Ok)" using run_add by blast
  then show ?thesis
    by (simp add: place_scope_def run_start_def Let_def run_parts noted_def cidr_of_def jget_JObj reserved_rows_def run_lab_def)
qed

lemma run_run:
  "\<exists>im. to_kea run_import run_existing [(''0.0.0.0'', \<lparr>ch_id = Some 7, ch_name = []\<rparr>)]
     \<lparr>se_scopes = [], se_server_options = True, se_classes = True\<rparr> = Inr im \<and> im_declared im = [(7, ''lab'', ''0.0.0.0/0'')]"
proof -
  have "start_cfg run_existing = Inr run_existing"
    "cidr_values (map (\<lambda>(s, n). jget s ''subnet'') (iter_subnet4 (jget run_existing ''Dhcp4''))) = Inr [''0.0.4.0/24'']"
    "sanitize_subnet_name ''lab'' 7 = ''lab''" "lower ''Active'' = ''active''"
    by code_simp+
  moreover have "sc_id run_lab = ''0.0.0.0''" "sc_name run_lab = ''lab''" "sc_state run_lab = ''Active''" by (simp_all add: run_lab_def)
  ultimately show ?thesis
    using run_place run_scope
    by (simp add: to_kea_def run_import_def included_def import_networks_def global_classes_def map_filter_simps sort_by_def
        import_scope_def run_start_def [symmetric] rbind_eq_Inr)
qed

lemma run_existing_keys: "subnet_keys run_existing = {#(JInt 3, JStr ''0.0.4.0/24'')#}" "unique_subnet_ids run_existing"
proof -
  have "map (\<lambda>e. subnet_key (fst e)) (iter_subnets ''subnet4'' (jget run_existing ''Dhcp4'')) = [(JInt 3, JStr ''0.0.4.0/24'')]"
    by code_simp
  then show k: "subnet_keys run_existing = {#(JInt 3, JStr ''0.0.4.0/24'')#}" by (simp add: subnet_keys_iter)
  show "unique_subnet_ids run_existing" by (simp add: unique_subnet_ids_def subnet_ids_keys k unique_in_def)
qed

theorem import_only_adds_witness:
  "\<exists>im. to_kea run_import run_existing [(''0.0.0.0'', \<lparr>ch_id = Some 7, ch_name = []\<rparr>)]
     \<lparr>se_scopes = [], se_server_options = True, se_classes = True\<rparr> = Inr im \<and>
     subnet_keys (im_cfg im) = {#(JInt 3, JStr ''0.0.4.0/24''), (JInt 7, JStr ''0.0.0.0/0'')#} \<and> unique_subnet_ids (im_cfg im)"
proof -
  have "start_cfg run_existing = Inr run_existing" by code_simp
  then show ?thesis
    using import_only_adds run_run run_existing_keys by (fastforce simp: declared_keys_def)
qed
end
