(* ===== verification/Ipam.thy ===== *)
theory Ipam
  imports ImportRun Access
begin

text \<open>
  The address book of the IPAM plugin, \<open>src/plugins/ipam/plugin.py\<close>: what one address of a subnet is, the page
  of a subnet with its collapsed runs, the counts, the next free address and the conflicts. A dictionary is an
  association list; the rows of the two databases are what a request reads. Percentages are not modelled.
\<close>

section \<open>What a request reads\<close>

record static_row =
  ir_label :: string
  ir_owner :: string
  ir_notes :: string
  ir_hostname :: string
  ir_mac :: string
  ir_is_static :: bool
  ir_status :: string

record held_row =
  hd_hostname :: string
  hd_mac :: string
  hd_host_id :: "int option"

record ipam_ctx =
  ix_pools :: "(nat \<times> nat) list"
  ix_infra :: "(string \<times> string) list"

record ipam_data =
  dt_leases :: "(string \<times> held_row) list"
  dt_reservations :: "(string \<times> held_row) list"
  dt_entries :: "(string \<times> static_row) list"

definition designated :: "string list" where
  "designated = [''static'', ''planned'']"

definition designated_status :: "static_row \<Rightarrow> string" where
  "designated_status row =
     (let s = (if ir_status row \<noteq> [] then ir_status row else if ir_is_static row then ''static'' else ''available'')
      in if s \<in> set designated then s else ''available'')"

definition keys_of :: "(string \<times> 'a) list \<Rightarrow> string list" where
  "keys_of d = map fst d"

text \<open>The context of a subnet Jen holds no configuration for: its two outer addresses and a gateway inside it.\<close>

definition bare_ctx :: "string \<Rightarrow> string \<Rightarrow> ipam_ctx" where
  "bare_ctx cidr gateway =
     (case net_of_string cidr of
        None \<Rightarrow> \<lparr>ix_pools = [], ix_infra = []\<rparr>
      | Some net \<Rightarrow>
          (let infra = (if snd net < 31
                        then AList.update (int2ip (net_last net)) ''broadcast'' [(int2ip (net_first net), ''network'')]
                        else []);
               inside = (case ip_of_string gateway of Some g \<Rightarrow> ip_in_net g net | None \<Rightarrow> False)
           in \<lparr>ix_pools = [],
               ix_infra = (if inside \<and> map_of infra gateway = None then infra @ [(gateway, ''gateway'')] else infra)\<rparr>))"

definition in_pool :: "ipam_ctx \<Rightarrow> string \<Rightarrow> bool" where
  "in_pool cx ip =
     (case ip_of_string ip of
        None \<Rightarrow> False
      | Some n \<Rightarrow> list_ex (\<lambda>(lo, hi). lo \<le> n \<and> n \<le> hi) (ix_pools cx))"

section \<open>What Kea holds\<close>

record kea_sets =
  ks_leases :: "(string \<times> held_row) list"
  ks_reservations :: "(string \<times> held_row) list"

definition byte_pairs :: "string \<Rightarrow> string" where
  "byte_pairs h = join_with '':'' (map (\<lambda>i. take 2 (drop (2 * i) h)) [0, 1, 2, 3, 4, 5])"

definition format_identifier :: "string \<Rightarrow> int \<Rightarrow> string" where
  "format_identifier h kind =
     (if h = [] then []
      else if kind = 0 \<and> length h = 12 then lower (byte_pairs h)
      else ''id:'' @ lower h)"

text \<open>The rows of the two queries: the active leases of the subnet, the reservations of it and the global ones.\<close>

record lease_hex =
  lx_ip :: string
  lx_hostname :: string
  lx_mac :: string

record host_hex =
  hx_ip :: string
  hx_hostname :: string
  hx_ident :: string
  hx_type :: int
  hx_id :: int
  hx_subnet :: "int option"

definition lease_sets :: "lease_hex list \<Rightarrow> (string \<times> held_row) list" where
  "lease_sets rows =
     fold (\<lambda>r d. if lx_ip r = [] then d
                  else AList.update (lx_ip r)
                    \<lparr>hd_hostname = lx_hostname r, hd_mac = format_identifier (lx_mac r) 0, hd_host_id = None\<rparr> d) rows []"

definition host_applies :: "ip_net option \<Rightarrow> host_hex \<Rightarrow> bool" where
  "host_applies net r =
     (hx_ip r \<noteq> [] \<and>
      (hx_subnet r \<notin> {None, Some 0} \<or>
       (case (net, ip_of_string (hx_ip r)) of (Some n, Some a) \<Rightarrow> ip_in_net a n | _ \<Rightarrow> False)))"

definition host_sets :: "ip_net option \<Rightarrow> host_hex list \<Rightarrow> (string \<times> held_row) list" where
  "host_sets net rows =
     fold (\<lambda>r d. if host_applies net r
                  then AList.update (hx_ip r)
                    \<lparr>hd_hostname = hx_hostname r, hd_mac = format_identifier (hx_ident r) (hx_type r), hd_host_id = Some (hx_id r)\<rparr> d
                  else d) rows []"

text \<open>A query that fails ends the reading: what was read so far stands, and the caller is not told.\<close>

definition load_kea_sets :: "string option \<Rightarrow> lease_hex list option \<Rightarrow> host_hex list option \<Rightarrow> kea_sets" where
  "load_kea_sets cidr leases hosts =
     (let net = (case cidr of None \<Rightarrow> None | Some c \<Rightarrow> net_of_string c)
      in case leases of
           None \<Rightarrow> \<lparr>ks_leases = [], ks_reservations = []\<rparr>
         | Some ls \<Rightarrow>
             \<lparr>ks_leases = lease_sets ls,
              ks_reservations = (case hosts of None \<Rightarrow> [] | Some hs \<Rightarrow> host_sets net hs)\<rparr>)"

section \<open>One address\<close>

record 'd address_entry =
  ae_ip :: string
  ae_hostname :: string
  ae_mac :: string
  ae_label :: string
  ae_owner :: string
  ae_notes :: string
  ae_host_id :: "int option"
  ae_status :: string
  ae_designated :: string
  ae_infra :: string
  ae_in_pool :: bool
  ae_device :: "'d option"

definition or_else :: "string \<Rightarrow> string \<Rightarrow> string" where
  "or_else a b = (if a \<noteq> [] then a else b)"

definition infra_labels :: "(string \<times> string) list" where
  "infra_labels =
     [(''gateway'', ''Gateway''), (''dns'', ''DNS server''), (''kea-server'', ''Kea server''), (''jen-host'', ''Jen host''),
      (''network'', ''Network''), (''broadcast'', ''Broadcast'')]"

text \<open>The entry as the plugin's own table leaves it.\<close>

definition noted_entry :: "string \<Rightarrow> static_row option \<Rightarrow> bool \<Rightarrow> 'd address_entry" where
  "noted_entry ip row pool =
     (case row of
        None \<Rightarrow> \<lparr>ae_ip = ip, ae_hostname = [], ae_mac = [], ae_label = [], ae_owner = [], ae_notes = [], ae_host_id = None,
                 ae_status = ''available'', ae_designated = [], ae_infra = [], ae_in_pool = pool, ae_device = None\<rparr>
      | Some s \<Rightarrow> \<lparr>ae_ip = ip, ae_hostname = ir_hostname s, ae_mac = ir_mac s, ae_label = ir_label s, ae_owner = ir_owner s,
                   ae_notes = ir_notes s, ae_host_id = None, ae_status = ''available'',
                   ae_designated = designated_status s, ae_infra = [], ae_in_pool = pool, ae_device = None\<rparr>)"

text \<open>A reservation before a lease, a lease before an infrastructure address, that before a designation.\<close>

definition owned_entry :: "ipam_data \<Rightarrow> ipam_ctx \<Rightarrow> 'd address_entry \<Rightarrow> 'd address_entry" where
  "owned_entry d cx e =
     (case (map_of (dt_reservations d) (ae_ip e), map_of (dt_leases d) (ae_ip e)) of
        (Some r, lease) \<Rightarrow>
          (let e = e\<lparr>ae_status := ''reserved'', ae_host_id := hd_host_id r,
                     ae_hostname := or_else (hd_hostname r) (ae_hostname e), ae_mac := or_else (hd_mac r) (ae_mac e)\<rparr>
           in case lease of
                None \<Rightarrow> e
              | Some l \<Rightarrow> e\<lparr>ae_hostname := or_else (ae_hostname e) (hd_hostname l), ae_mac := or_else (ae_mac e) (hd_mac l)\<rparr>)
      | (None, Some l) \<Rightarrow>
          e\<lparr>ae_status := (if ae_designated e \<in> set designated then ''conflict'' else ''dynamic''),
            ae_hostname := or_else (hd_hostname l) (ae_hostname e), ae_mac := or_else (hd_mac l) (ae_mac e)\<rparr>
      | (None, None) \<Rightarrow>
          (case map_of (ix_infra cx) (ae_ip e) of
             Some kind \<Rightarrow>
               e\<lparr>ae_status := ''infrastructure'', ae_infra := kind,
                 ae_label := (if ae_label e \<noteq> [] then ae_label e
                              else case map_of infra_labels kind of Some t \<Rightarrow> t | None \<Rightarrow> kind)\<rparr>
           | None \<Rightarrow> (if ae_designated e \<in> set designated then e\<lparr>ae_status := ae_designated e\<rparr> else e)))"

definition compose_entry ::
  "ipam_data \<Rightarrow> ipam_ctx \<Rightarrow> (string \<times> 'd) list \<Rightarrow> string \<Rightarrow> 'd address_entry" where
  "compose_entry d cx devices ip =
     (let e = owned_entry d cx (noted_entry ip (map_of (dt_entries d) ip) (in_pool cx ip))
      in if ae_mac e \<noteq> [] then (case map_of devices (ae_mac e) of Some x \<Rightarrow> e\<lparr>ae_device := Some x\<rparr> | None \<Rightarrow> e) else e)"

definition compose_space ::
  "string list \<Rightarrow> ipam_data \<Rightarrow> ipam_ctx \<Rightarrow> (string \<times> 'd) list \<Rightarrow> 'd address_entry list" where
  "compose_space ips d cx devices = map (compose_entry d cx devices) ips"

text \<open>\<open>network.hosts()\<close>: without the two outer addresses, except in a /31 and a /32.\<close>

definition host_lo :: "ip_net \<Rightarrow> nat" where
  "host_lo net = net_first net + (if snd net < 31 then 1 else 0)"

definition host_end :: "ip_net \<Rightarrow> nat" where
  "host_end net = Suc (net_last net) - (if snd net < 31 then 1 else 0)"

definition hosts :: "ip_net \<Rightarrow> string list" where
  "hosts net = map int2ip [host_lo net..<host_end net]"

definition build_address_space ::
  "string \<Rightarrow> ipam_data \<Rightarrow> ipam_ctx \<Rightarrow> (string \<times> 'd) list \<Rightarrow> 'd address_entry list" where
  "build_address_space cidr d cx devices =
     (case net_of_string cidr of None \<Rightarrow> [] | Some net \<Rightarrow> compose_space (hosts net) d cx devices)"

section \<open>The counts\<close>

definition all_statuses :: "string list" where
  "all_statuses = [''available'', ''dynamic'', ''reserved'', ''static'', ''planned'', ''infrastructure'', ''conflict'']"

definition count_space :: "'d address_entry list \<Rightarrow> string \<Rightarrow> nat" where
  "count_space space status =
     (let of_status = (\<lambda>s. length (filter (\<lambda>e. ae_status e = s) space))
      in if status = ''total'' then length space
         else if status = ''used'' then length space - of_status ''available''
         else of_status status)"

text \<open>The overview's arithmetic: sets of addresses, no address space.\<close>

definition host_in_network :: "ip_net \<Rightarrow> string \<Rightarrow> bool" where
  "host_in_network net ip =
     (case ip_of_string ip of
        None \<Rightarrow> False
      | Some a \<Rightarrow> ip_in_net a net \<and> a \<noteq> net_first net \<and> a \<noteq> net_last net)"

record space_sets =
  ss_reserved :: "string set"
  ss_dynamic :: "string set"
  ss_conflict :: "string set"
  ss_infra :: "string set"
  ss_static :: "string set"
  ss_planned :: "string set"

definition designated_in :: "ipam_data \<Rightarrow> string set" where
  "designated_in d =
     set (filter (\<lambda>ip. case map_of (dt_entries d) ip of Some r \<Rightarrow> designated_status r \<in> set designated | None \<Rightarrow> False)
       (keys_of (dt_entries d)))"

definition marked_as :: "ipam_data \<Rightarrow> string \<Rightarrow> string \<Rightarrow> bool" where
  "marked_as d status ip = (case map_of (dt_entries d) ip of Some r \<Rightarrow> designated_status r = status | None \<Rightarrow> False)"

definition space_sets_of :: "(string \<Rightarrow> bool) \<Rightarrow> ipam_data \<Rightarrow> ipam_ctx \<Rightarrow> space_sets" where
  "space_sets_of host_in d cx =
     (let res = Set.filter host_in (set (keys_of (dt_reservations d)));
          leases = set (keys_of (dt_leases d));
          marked = designated_in d;
          conflict = (leases - res) \<inter> marked;
          infra = Set.filter host_in (set (keys_of (ix_infra cx))) - (res \<union> leases);
          free = marked - res - leases - infra
      in \<lparr>ss_reserved = res, ss_dynamic = (leases - res) - conflict, ss_conflict = conflict, ss_infra = infra,
          ss_static = Set.filter (marked_as d ''static'') free, ss_planned = Set.filter (marked_as d ''planned'') free\<rparr>)"

definition count_sets :: "nat \<Rightarrow> (string \<Rightarrow> bool) \<Rightarrow> ipam_data \<Rightarrow> ipam_ctx \<Rightarrow> string \<Rightarrow> nat" where
  "count_sets all_hosts host_in d cx status =
     (let ss = space_sets_of host_in d cx;
          used = card (ss_reserved ss) + card (ss_dynamic ss) + card (ss_conflict ss) + card (ss_infra ss) +
                 card (ss_static ss) + card (ss_planned ss)
      in if status = ''reserved'' then card (ss_reserved ss)
         else if status = ''dynamic'' then card (ss_dynamic ss)
         else if status = ''conflict'' then card (ss_conflict ss)
         else if status = ''infrastructure'' then card (ss_infra ss)
         else if status = ''static'' then card (ss_static ss)
         else if status = ''planned'' then card (ss_planned ss)
         else if status = ''total'' then all_hosts
         else if status = ''used'' then used
         else all_hosts - used)"

definition host_total :: "ip_net \<Rightarrow> nat" where
  "host_total net = (Suc (net_last net) - net_first net) - (if snd net < 31 then 2 else 0)"

definition ipam_summary :: "ip_net \<Rightarrow> ipam_data \<Rightarrow> ipam_ctx \<Rightarrow> string \<Rightarrow> nat" where
  "ipam_summary net d cx = count_sets (host_total net) (host_in_network net) d cx"

section \<open>The page of a subnet\<close>

datatype 'd table_row = EntryRow "'d address_entry" | RunRow string string nat bool

definition run_key :: "string \<Rightarrow> string \<Rightarrow> string" where
  "run_key a b = a @ ''-'' @ b"

definition free_like :: "bool \<Rightarrow> 'd address_entry \<Rightarrow> bool" where
  "free_like pool e = (ae_status e = ''available'' \<and> ae_in_pool e = pool)"

text \<open>One run of available addresses, as one row or, when it is short or the one asked for, address by address.\<close>

definition run_rows :: "string option \<Rightarrow> nat \<Rightarrow> 'd address_entry list \<Rightarrow> 'd table_row list" where
  "run_rows expand min_run run =
     (let key = run_key (ae_ip (hd run)) (ae_ip (last run))
      in if min_run \<le> length run \<and> expand \<noteq> Some key
         then [RunRow (ae_ip (hd run)) (ae_ip (last run)) (length run) (ae_in_pool (hd run))]
         else map EntryRow run)"

function collapse_loop :: "string option \<Rightarrow> nat \<Rightarrow> 'd address_entry list \<Rightarrow> 'd table_row list" where
  "collapse_loop expand min_run [] = []"
| "collapse_loop expand min_run (e # es) =
     (if ae_status e \<noteq> ''available'' then EntryRow e # collapse_loop expand min_run es
      else run_rows expand min_run (e # takeWhile (free_like (ae_in_pool e)) es) @
           collapse_loop expand min_run (dropWhile (free_like (ae_in_pool e)) es))"
  by pat_completeness auto
termination
  by (relation "measure (\<lambda>(x, m, es). length es)") (auto simp: le_imp_less_Suc length_dropWhile_le)

definition collapse_runs :: "bool \<Rightarrow> string option \<Rightarrow> nat \<Rightarrow> 'd address_entry list \<Rightarrow> 'd table_row list" where
  "collapse_runs collapse expand min_run space =
     (if collapse then collapse_loop expand min_run space else map EntryRow space)"

definition next_free :: "'d address_entry list \<Rightarrow> string option" where
  "next_free space = map_option ae_ip (find (\<lambda>e. ae_status e = ''available'' \<and> \<not> ae_in_pool e) space)"

text \<open>The same page from the occupied addresses and the ends of the pools alone.\<close>

definition occupied_addresses :: "ipam_data \<Rightarrow> ipam_ctx \<Rightarrow> string list" where
  "occupied_addresses d cx =
     keys_of (dt_leases d) @ keys_of (dt_reservations d) @ keys_of (ix_infra cx) @ keys_of (dt_entries d)"

definition address_points :: "nat \<Rightarrow> nat \<Rightarrow> string list \<Rightarrow> nat list" where
  "address_points lo hi occupied =
     concat (map (\<lambda>ip. case ip_of_string ip of
         None \<Rightarrow> [] | Some v \<Rightarrow> (if lo \<le> v \<and> v \<le> hi then [v, v + 1] else [])) occupied)"

definition pool_points :: "nat \<Rightarrow> nat \<Rightarrow> (nat \<times> nat) list \<Rightarrow> nat list" where
  "pool_points lo hi pools =
     concat (map (\<lambda>(a, b). if b < lo \<or> hi < a then [] else [max a lo, min b hi + 1]) pools)"

definition run_boundaries :: "ip_net \<Rightarrow> ipam_ctx \<Rightarrow> string list \<Rightarrow> nat list" where
  "run_boundaries net cx occupied =
     (let lo = host_lo net; hi = host_end net - 1
      in sort (remdups (filter (\<lambda>p. lo \<le> p \<and> p \<le> hi + 1)
           ([lo, hi + 1] @ address_points lo hi occupied @ pool_points lo hi (ix_pools cx)))))"

definition interval_rows ::
  "string list \<Rightarrow> ipam_data \<Rightarrow> ipam_ctx \<Rightarrow> (string \<times> 'd) list \<Rightarrow> string option \<Rightarrow> nat \<Rightarrow> nat \<Rightarrow> nat \<Rightarrow>
     'd table_row list" where
  "interval_rows occupied d cx devices expand min_run a b =
     (let each = map (\<lambda>v. EntryRow (compose_entry d cx devices (int2ip v))) [a..<b]
      in if b - a = 1 \<and> int2ip a \<in> set occupied then [EntryRow (compose_entry d cx devices (int2ip a))]
         else if b - a < min_run then each
         else if expand = Some (run_key (int2ip a) (int2ip (b - 1))) then each
         else [RunRow (int2ip a) (int2ip (b - 1)) (b - a) (in_pool cx (int2ip a))])"

fun over_pairs :: "('b \<Rightarrow> 'b \<Rightarrow> 'c list) \<Rightarrow> 'b list \<Rightarrow> 'c list" where
  "over_pairs f (a # b # r) = f a b @ over_pairs f (b # r)"
| "over_pairs f r = []"

definition build_rows_lazy ::
  "ip_net \<Rightarrow> ipam_data \<Rightarrow> ipam_ctx \<Rightarrow> (string \<times> 'd) list \<Rightarrow> string option \<Rightarrow> nat \<Rightarrow> 'd table_row list" where
  "build_rows_lazy net d cx devices expand min_run =
     (let occupied = occupied_addresses d cx
      in over_pairs (interval_rows occupied d cx devices expand min_run) (run_boundaries net cx occupied))"

definition skip_address :: "ipam_data \<Rightarrow> ipam_ctx \<Rightarrow> string \<Rightarrow> bool" where
  "skip_address d cx ip =
     (map_of (dt_reservations d) ip \<noteq> None \<or> map_of (dt_leases d) ip \<noteq> None \<or> map_of (ix_infra cx) ip \<noteq> None \<or>
      (case map_of (dt_entries d) ip of None \<Rightarrow> False | Some r \<Rightarrow> designated_status r \<in> set designated) \<or>
      in_pool cx ip)"

definition next_free_lazy :: "ip_net \<Rightarrow> ipam_data \<Rightarrow> ipam_ctx \<Rightarrow> string option" where
  "next_free_lazy net d cx = find (\<lambda>ip. \<not> skip_address d cx ip) (hosts net)"

text \<open>The run to open: only one whose ends lie inside the subnet.\<close>

definition parse_expand :: "string \<Rightarrow> ip_net \<Rightarrow> string option" where
  "parse_expand raw net =
     (case partition_on ''-'' (strip raw) of
        (a, b) \<Rightarrow>
          if CHR ''-'' \<notin> set (strip raw) then None
          else case (ip_of_string (strip a), ip_of_string (strip b)) of
                 (Some x, Some y) \<Rightarrow>
                   (if ip_in_net x net \<and> ip_in_net y net \<and> x \<le> y then Some (run_key (int2ip x) (int2ip y)) else None)
               | _ \<Rightarrow> None)"

section \<open>Conflicts\<close>

record conflict_row =
  cf_ip :: string
  cf_designated :: string
  cf_hostname :: string
  cf_mac :: string

text \<open>\<open>tuple(int(x) for x in a.split("."))\<close> orders addresses by their number.\<close>

definition address_le :: "string \<Rightarrow> string \<Rightarrow> bool" where
  "address_le a b =
     (case (ip_of_string a, ip_of_string b) of (Some x, Some y) \<Rightarrow> x \<le> y | (None, _) \<Rightarrow> True | (Some x, None) \<Rightarrow> False)"

definition conflict_of :: "ipam_data \<Rightarrow> (string \<Rightarrow> bool) \<Rightarrow> string \<Rightarrow> conflict_row option" where
  "conflict_of d inside ip =
     (case (map_of (dt_entries d) ip, map_of (dt_leases d) ip) of
        (Some e, Some l) \<Rightarrow>
          (if designated_status e \<notin> set designated \<or> \<not> inside ip then None
           else Some \<lparr>cf_ip = ip, cf_designated = designated_status e, cf_hostname = or_else (hd_hostname l) (ir_hostname e),
                      cf_mac = or_else (hd_mac l) (ir_mac e)\<rparr>)
      | _ \<Rightarrow> None)"

definition conflicts_in :: "ipam_data \<Rightarrow> (string \<Rightarrow> bool) \<Rightarrow> conflict_row list" where
  "conflicts_in d inside =
     List.map_filter (conflict_of d inside)
       (sort_by address_le (filter (\<lambda>ip. ip \<notin> set (keys_of (dt_reservations d))) (remdups (keys_of (dt_leases d)))))"

end
