(* ===== verification/IpamEdit.thy ===== *)
theory IpamEdit
  imports Ipam ApiKeys
begin

text \<open>
  The requests that change the plugin's tables: one entry, its removal, a range, an import, the JSON API, an
  unmanaged subnet and the periodic conflict check (\<open>src/plugins/ipam/plugin.py\<close>). A transaction goes through or
  is taken back as a whole, by the flag \<open>goes_through\<close>; the texts of the messages are constructors.
\<close>

section \<open>The tables\<close>

record history_row =
  hy_ip :: string
  hy_kind :: string
  hy_subnet :: int
  hy_action :: string
  hy_label :: string
  hy_owner :: string
  hy_actor :: string

record unmanaged =
  un_name :: string
  un_cidr :: string
  un_description :: string
  un_gateway :: string

type_synonym ipam_key = "string \<times> string \<times> int"

record ipam_store =
  st_entries :: "(ipam_key \<times> static_row) list"
  st_history :: "history_row list"
  st_subnets :: "(int \<times> unmanaged) list"
  st_conflicts :: "ipam_key list"

definition kind_db :: "(string \<times> string) list" where
  "kind_db = [(''kea'', ''kea''), (''u'', ''ipam'')]"

definition load_entries :: "ipam_store \<Rightarrow> string \<Rightarrow> int \<Rightarrow> (string \<times> static_row) list" where
  "load_entries s k sid = List.map_filter (\<lambda>((ip, k', sid'), r). if k' = k \<and> sid' = sid then Some (ip, r) else None) (st_entries s)"

definition record_history ::
  "string \<Rightarrow> string \<Rightarrow> int \<Rightarrow> string \<Rightarrow> string \<Rightarrow> string \<Rightarrow> string \<Rightarrow> ipam_store \<Rightarrow> ipam_store" where
  "record_history ip k sid action label owner actor s =
     s\<lparr>st_history := st_history s @
        [\<lparr>hy_ip = ip, hy_kind = k, hy_subnet = sid, hy_action = action, hy_label = label, hy_owner = owner, hy_actor = actor\<rparr>]\<rparr>"

definition upsert_entry ::
  "string \<Rightarrow> string \<Rightarrow> int \<Rightarrow> string \<Rightarrow> string \<Rightarrow> string \<Rightarrow> string \<Rightarrow> string \<Rightarrow> string \<Rightarrow> ipam_store \<Rightarrow> ipam_store" where
  "upsert_entry ip k sid label owner notes hostname mac status s =
     s\<lparr>st_entries := AList.update (ip, k, sid)
        \<lparr>ir_label = label, ir_owner = owner, ir_notes = notes, ir_hostname = hostname, ir_mac = mac,
         ir_is_static = (status = ''static''), ir_status = status\<rparr> (st_entries s)\<rparr>"

definition delete_row :: "string \<Rightarrow> string \<Rightarrow> int \<Rightarrow> ipam_store \<Rightarrow> ipam_store" where
  "delete_row ip k sid s = s\<lparr>st_entries := AList.delete (ip, k, sid) (st_entries s)\<rparr>"

section \<open>Who asks\<close>

type_synonym kea_subnets = "(int \<times> string \<times> string) list"

record caller =
  cr_user :: account_user
  cr_name :: string

datatype ipam_reply =
  ViewersOnlyLook | NoSuchSubnet | NotAnAddress | BadCidr | NotInside | BadMac | Refused string
  | EntryCleared | EntrySaved | EntryRemoved | UnknownAction | BadRange string | RangeDone nat nat
  | PayloadCorrupted | ImportDone nat nat | NothingImported | Failed
  | AdminsOnly | NameRequired | TooLarge | BadGateway | OverlapsKea string | OverlapsUnmanaged string | SubnetAdded | SubnetDeleted

text \<open>The subnet of a request, by its text: one of Kea inside the caller's scope, or an unmanaged one.\<close>

definition check_access :: "string \<Rightarrow> int \<Rightarrow> caller \<Rightarrow> kea_subnets \<Rightarrow> ipam_store \<Rightarrow> string option res" where
  "check_access kind sid c kea s =
     (if map_of kind_db kind = None then Inr None
      else if kind = ''kea''
      then rbind (can_access_subnet (cr_user c) sid) (\<lambda>ok.
             if \<not> ok then Inr None
             else rbind (filter_subnet_map (cr_user c) kea) (\<lambda>m. Inr (map_option snd (map_of m sid))))
      else if \<not> all_subnets (cr_user c) then Inr None
      else Inr (map_option un_cidr (map_of (st_subnets s) sid)))"

definition normalize_mac :: "string \<Rightarrow> string option" where
  "normalize_mac raw =
     (if strip raw = [] then None
      else let cleaned = lower (filter is_hex raw)
           in if length cleaned \<noteq> 12 then None
              else Some (join_with '':'' (map (\<lambda>i. take 2 (drop (2 * i) cleaned)) [0, 1, 2, 3, 4, 5])))"

text \<open>The wrapper: an empty text is no MAC, not a bad one.\<close>

definition mac_or_empty :: "string \<Rightarrow> string option" where
  "mac_or_empty raw = (if raw = [] then Some [] else normalize_mac raw)"

datatype blocker = IsReservation | HeldByLease

definition designation_blocker ::
  "string \<Rightarrow> string \<Rightarrow> (string \<times> held_row) list \<Rightarrow> (string \<times> held_row) list \<Rightarrow> static_row option \<Rightarrow> blocker option" where
  "designation_blocker ip status leases reservations existing =
     (if status \<notin> set designated then None
      else if (case existing of Some r \<Rightarrow> designated_status r \<in> set designated | None \<Rightarrow> False) then None
      else if map_of reservations ip \<noteq> None then Some IsReservation
      else if map_of leases ip \<noteq> None then Some HeldByLease
      else None)"

definition blocker_text :: "blocker \<Rightarrow> string" where
  "blocker_text b = (case b of IsReservation \<Rightarrow> ''reservation'' | HeldByLease \<Rightarrow> ''lease'')"

text \<open>What every request that writes asks first: the role, then the subnet.\<close>

definition for_writer ::
  "string \<Rightarrow> int \<Rightarrow> caller \<Rightarrow> kea_subnets \<Rightarrow> ipam_store \<Rightarrow> (string \<Rightarrow> string \<Rightarrow> (ipam_reply \<times> ipam_store) res) \<Rightarrow>
     (ipam_reply \<times> ipam_store) res" where
  "for_writer kind sid c kea s body =
     (if \<not> is_admin_or_above (cr_user c) then Inr (ViewersOnlyLook, s)
      else rbind (check_access kind sid c kea s) (\<lambda>r.
        case (r, map_of kind_db kind) of
          (Some cidr, Some k) \<Rightarrow> body cidr k
        | _ \<Rightarrow> Inr (NoSuchSubnet, s)))"

section \<open>One entry\<close>

record entry_form =
  fo_ip :: string
  fo_label :: string
  fo_owner :: string
  fo_notes :: string
  fo_hostname :: string
  fo_mac :: string
  fo_status :: string

definition committed :: "bool \<Rightarrow> ipam_reply \<Rightarrow> ipam_store \<Rightarrow> ipam_store \<Rightarrow> ipam_reply \<times> ipam_store" where
  "committed goes_through reply s' s = (if goes_through then (reply, s') else (Failed, s))"

definition write_entry ::
  "bool \<Rightarrow> string \<Rightarrow> int \<Rightarrow> caller \<Rightarrow> entry_form \<Rightarrow> string \<Rightarrow> ipam_store \<Rightarrow> ipam_reply \<times> ipam_store" where
  "write_entry goes_through k sid c f mac s =
     (let ip = strip (fo_ip f); label = take_points 100 (strip (fo_label f)); owner = take_points 100 (strip (fo_owner f));
          notes = strip (fo_notes f); hostname = take_points 255 (strip (fo_hostname f));
          status = (if strip (fo_status f) \<in> set designated then strip (fo_status f) else ''available'')
      in if status = ''available'' \<and> label = [] \<and> owner = [] \<and> notes = [] \<and> hostname = [] \<and> mac = []
         then committed goes_through EntryCleared (record_history ip k sid ''cleared'' [] [] (cr_name c) (delete_row ip k sid s)) s
         else committed goes_through EntrySaved
                (record_history ip k sid (if status \<noteq> ''available'' then status else ''note'') label owner (cr_name c)
                   (upsert_entry ip k sid label owner notes hostname mac status s)) s)"

definition save_entry ::
  "bool \<Rightarrow> string \<Rightarrow> int \<Rightarrow> caller \<Rightarrow> entry_form \<Rightarrow> kea_sets \<Rightarrow> kea_subnets \<Rightarrow> ipam_store \<Rightarrow> (ipam_reply \<times> ipam_store) res" where
  "save_entry goes_through kind sid c f held kea s =
     for_writer kind sid c kea s (\<lambda>cidr k.
            (let ip = strip (fo_ip f);
                 status = (if strip (fo_status f) \<in> set designated then strip (fo_status f) else ''available'')
             in case ip_of_string ip of
                  None \<Rightarrow> Inr (NotAnAddress, s)
                | Some a \<Rightarrow>
                    (case net_of_string cidr of
                       None \<Rightarrow> Inr (BadCidr, s)
                     | Some net \<Rightarrow>
                         if \<not> ip_in_net a net then Inr (NotInside, s)
                         else
                           (case mac_or_empty (strip (fo_mac f)) of
                              None \<Rightarrow> Inr (BadMac, s)
                            | Some mac \<Rightarrow>
                                (case (if kind = ''kea'' \<and> status \<in> set designated
                                       then designation_blocker ip status (ks_leases held) (ks_reservations held)
                                              (map_of (load_entries s k sid) ip)
                                       else None) of
                                   Some b \<Rightarrow> Inr (Refused (blocker_text b), s)
                                 | None \<Rightarrow> Inr (write_entry goes_through k sid c f mac s))))))"

definition delete_entry ::
  "bool \<Rightarrow> string \<Rightarrow> int \<Rightarrow> caller \<Rightarrow> string \<Rightarrow> kea_subnets \<Rightarrow> ipam_store \<Rightarrow> (ipam_reply \<times> ipam_store) res" where
  "delete_entry goes_through kind sid c raw kea s =
     for_writer kind sid c kea s (\<lambda>cidr k.
            (let ip = strip raw
             in if ip_of_string ip = None then Inr (NotAnAddress, s)
                else Inr (committed goes_through EntryRemoved
                            (record_history ip k sid ''removed'' [] [] (cr_name c) (delete_row ip k sid s)) s)))"

section \<open>A range\<close>

definition range_max :: nat where
  "range_max = 1024"

definition range_addresses :: "ip_net \<Rightarrow> string \<Rightarrow> string \<Rightarrow> string + string list" where
  "range_addresses net first_raw last_raw =
     (case (ip_of_string (strip first_raw), ip_of_string (strip last_raw)) of
        (Some a, Some b) \<Rightarrow>
          (if \<not> ip_in_net a net \<or> \<not> ip_in_net b net then Inl ''outside''
           else if b < a then Inl ''backwards''
           else if b - a + 1 > range_max then Inl ''too many''
           else Inr (map int2ip (filter (\<lambda>n. \<not> (snd net < 31 \<and> (n = net_first net \<or> n = net_last net))) [a..<Suc b])))
      | _ \<Rightarrow> Inl ''not addresses'')"

fun range_loop :: "string \<Rightarrow> string \<Rightarrow> int \<Rightarrow> string \<Rightarrow> string \<Rightarrow> string \<Rightarrow> string list \<Rightarrow> ipam_store \<Rightarrow> ipam_store" where
  "range_loop action k sid label owner actor [] s = s"
| "range_loop action k sid label owner actor (ip # ips) s =
     range_loop action k sid label owner actor ips
       (if action = ''clear'' then record_history ip k sid ''cleared'' [] [] actor (delete_row ip k sid s)
        else record_history ip k sid action label owner actor (upsert_entry ip k sid label owner [] [] [] action s))"

definition range_action ::
  "bool \<Rightarrow> string \<Rightarrow> int \<Rightarrow> caller \<Rightarrow> string \<Rightarrow> string \<Rightarrow> string \<Rightarrow> string \<Rightarrow> string \<Rightarrow> kea_sets \<Rightarrow> kea_subnets \<Rightarrow>
     ipam_store \<Rightarrow> (ipam_reply \<times> ipam_store) res" where
  "range_action goes_through kind sid c action_raw first_raw last_raw label_raw owner_raw held kea s =
     for_writer kind sid c kea s (\<lambda>cidr k.
            (let action = strip action_raw
             in if action \<notin> {''static'', ''planned'', ''clear''} then Inr (UnknownAction, s)
                else
                  (case net_of_string cidr of
                     None \<Rightarrow> Inl ValueError
                   | Some net \<Rightarrow>
                       (case range_addresses net first_raw last_raw of
                          Inl e \<Rightarrow> Inr (BadRange e, s)
                        | Inr ips \<Rightarrow>
                            (let taken = (\<lambda>ip. kind = ''kea'' \<and> action \<noteq> ''clear'' \<and>
                                   (map_of (ks_leases held) ip \<noteq> None \<or> map_of (ks_reservations held) ip \<noteq> None));
                                 left = filter (\<lambda>ip. \<not> taken ip) ips
                             in Inr (committed goes_through (RangeDone (length left) (length ips - length left))
                                  (range_loop action k sid (take_points 100 (strip label_raw)) (take_points 100 (strip owner_raw))
                                     (cr_name c) left s) s))))))"

section \<open>The import of a table\<close>

type_synonym csv_row = "(string \<times> string option) list"

definition norm_header :: "string \<Rightarrow> string" where
  "norm_header h = lower (strip h)"

definition find_header :: "string list \<Rightarrow> string list \<Rightarrow> string option" where
  "find_header fieldnames aliases =
     (case filter (\<lambda>a. a \<in> set (map norm_header fieldnames)) aliases of
        [] \<Rightarrow> None
      | a # _ \<Rightarrow> map_of (rev (map (\<lambda>f. (norm_header f, f)) fieldnames)) a)"

definition extract_ip :: "string \<Rightarrow> string option" where
  "extract_ip raw =
     (let t = strip (hd (split_on CHR ''/'' (strip raw)))
      in if ip_of_string t \<noteq> None then Some t else None)"

definition cell :: "csv_row \<Rightarrow> string option \<Rightarrow> string" where
  "cell row col =
     (case col of None \<Rightarrow> [] | Some c \<Rightarrow> (case map_of row c of Some (Some v) \<Rightarrow> v | _ \<Rightarrow> []))"

definition netbox_status :: "(string \<times> string option) list" where
  "netbox_status =
     [(''active'', Some ''static''), (''reserved'', Some ''planned''), (''deprecated'', Some ''static''),
      (''dhcp'', None), (''slaac'', None)]"

definition header_aliases :: "string \<Rightarrow> string list" where
  "header_aliases name =
     (if name = ''ip'' then [''ip'', ''ip address'', ''ipaddress'', ''address'', ''ipaddr'']
      else if name = ''label'' then [''label'', ''name'', ''device'', ''device name'']
      else if name = ''hostname'' then [''hostname'', ''dns_name'', ''dns name'', ''fqdn'']
      else if name = ''mac'' then [''mac'', ''mac address'', ''hwaddr'', ''hardware address'']
      else if name = ''owner'' then [''owner'', ''tenant'', ''assigned to'', ''contact'']
      else if name = ''notes'' then [''notes'', ''description'', ''comments'', ''comment'']
      else [''status'', ''state''])"

datatype status_rule = Skip | Take string

text \<open>What a status column means, per format.\<close>

definition jen_status :: "string \<Rightarrow> status_rule" where
  "jen_status t =
     (if t \<in> {''dynamic'', ''reserved'', ''infrastructure'', ''conflict''} then Skip
      else if t \<in> set designated then Take t else Take ''available'')"

definition netbox_rule :: "string \<Rightarrow> status_rule" where
  "netbox_rule t =
     (case map_of netbox_status t of None \<Rightarrow> Take ''static'' | Some None \<Rightarrow> Skip | Some (Some u) \<Rightarrow> Take u)"

definition generic_status :: "string \<Rightarrow> status_rule" where
  "generic_status t = Take (if t \<in> {''static'', ''planned'', ''available''} then t else ''static'')"

text \<open>The rows whose address cell holds an address and whose status is not skipped.\<close>

definition parsed_rows ::
  "string option \<Rightarrow> string option \<Rightarrow> (string \<Rightarrow> status_rule) \<Rightarrow> (csv_row \<Rightarrow> entry_form) \<Rightarrow> csv_row list \<Rightarrow> entry_form list" where
  "parsed_rows ip_col status_col rule form rows =
     List.map_filter (\<lambda>r. case extract_ip (cell r ip_col) of
         None \<Rightarrow> None
       | Some ip \<Rightarrow> (case rule (norm_header (cell r status_col)) of
                       Skip \<Rightarrow> None
                     | Take st \<Rightarrow> Some ((form r)\<lparr>fo_ip := ip, fo_status := st\<rparr>))) rows"

definition plain_form :: "csv_row \<Rightarrow> (string \<Rightarrow> string option) \<Rightarrow> entry_form" where
  "plain_form r col =
     \<lparr>fo_ip = [], fo_label = strip (cell r (col ''label'')), fo_owner = strip (cell r (col ''owner'')),
      fo_notes = strip (cell r (col ''notes'')), fo_hostname = strip (cell r (col ''hostname'')),
      fo_mac = strip (cell r (col ''mac'')), fo_status = []\<rparr>"

text \<open>The notes of Netbox are joined by a long dash between blanks, in UTF-8.\<close>

definition netbox_form :: "csv_row \<Rightarrow> string list \<Rightarrow> entry_form" where
  "netbox_form r fieldnames =
     (let dns = strip (cell r (find_header fieldnames [''dns_name'', ''dns name'']))
      in \<lparr>fo_ip = [], fo_label = dns, fo_owner = strip (cell r (find_header fieldnames [''tenant''])),
          fo_notes = join_with ('' '' @ [char_of (226::nat), char_of (128::nat), char_of (148::nat)] @ '' '')
            (filter (\<lambda>p. p \<noteq> []) [strip (cell r (find_header fieldnames [''description''])),
                                   strip (cell r (find_header fieldnames [''comments'']))]),
          fo_hostname = dns, fo_mac = [], fo_status = []\<rparr>)"

definition has_content :: "entry_form \<Rightarrow> bool" where
  "has_content f = (fo_label f \<noteq> [] \<or> fo_owner f \<noteq> [] \<or> fo_notes f \<noteq> [] \<or> fo_hostname f \<noteq> [] \<or> fo_mac f \<noteq> [])"

definition import_parser :: "string list \<Rightarrow> string \<Rightarrow> (csv_row list \<Rightarrow> entry_form list) option" where
  "import_parser fieldnames fmt =
     (if fmt = ''jen'' then
        (let col = (\<lambda>n. find_header fieldnames [n]); ip_col = find_header fieldnames (header_aliases ''ip'')
         in if ip_col = None then None
            else Some (parsed_rows ip_col (col ''status'') jen_status (\<lambda>r. plain_form r col)))
      else if fmt = ''netbox'' then
        (let ip_col = find_header fieldnames [''address'', ''ip'', ''ip address'']
         in if ip_col = None then None
            else Some (parsed_rows ip_col (find_header fieldnames [''status'']) netbox_rule (\<lambda>r. netbox_form r fieldnames)))
      else if fmt = ''generic'' then
        (let col = (\<lambda>n. find_header fieldnames (header_aliases n)); ip_col = col ''ip''
         in if ip_col = None then None
            else Some (parsed_rows ip_col (col ''status'') generic_status (\<lambda>r. plain_form r col)))
      else None)"

text \<open>Fatal, or the rows: an \<open>available\<close> row with nothing on it is dropped.\<close>

definition parse_import_rows :: "csv_row list \<Rightarrow> string list \<Rightarrow> string \<Rightarrow> entry_form list option" where
  "parse_import_rows rows fieldnames fmt =
     map_option (\<lambda>f. filter (\<lambda>r. fo_status r \<noteq> ''available'' \<or> has_content r) (f rows)) (import_parser fieldnames fmt)"

definition import_max_rows :: nat where
  "import_max_rows = 2000"

text \<open>One row of the posted payload: written, or refused.\<close>

definition payload_text :: "json \<Rightarrow> string \<Rightarrow> string" where
  "payload_text row key = str_or_empty (jget_default row key (JStr []))"

definition payload_mac :: "json \<Rightarrow> string" where
  "payload_mac row =
     (case jget_default row ''mac'' (JStr []) of
        JStr m \<Rightarrow> (case mac_or_empty m of Some x \<Rightarrow> x | None \<Rightarrow> [])
      | _ \<Rightarrow> [])"

definition payload_status :: "json \<Rightarrow> string" where
  "payload_status row =
     (case jget row ''status'' of JStr t \<Rightarrow> (if t \<in> set designated then t else ''available'') | _ \<Rightarrow> ''available'')"

definition import_row ::
  "string \<Rightarrow> int \<Rightarrow> string \<Rightarrow> ip_net \<Rightarrow> kea_sets \<Rightarrow> (string \<times> static_row) list \<Rightarrow> json \<Rightarrow> ipam_store \<Rightarrow> ipam_store option" where
  "import_row k sid actor net held existing row s =
     (if \<not> is_dict row then None
      else
        let ip = strip (str_of_json (jget_default row ''ip'' (JStr []))); status = payload_status row;
            label = take_points 100 (payload_text row ''label''); owner = take_points 100 (payload_text row ''owner'')
        in case ip_of_string ip of
             None \<Rightarrow> None
           | Some a \<Rightarrow>
               (if \<not> ip_in_net a net then None
                else if designation_blocker ip status (ks_leases held) (ks_reservations held) (map_of existing ip) \<noteq> None
                then None
                else Some (record_history ip k sid ''import'' label owner actor
                       (upsert_entry ip k sid label owner (payload_text row ''notes'')
                          (take_points 255 (payload_text row ''hostname'')) (payload_mac row) status s))))"

fun import_loop ::
  "string \<Rightarrow> int \<Rightarrow> string \<Rightarrow> ip_net \<Rightarrow> kea_sets \<Rightarrow> (string \<times> static_row) list \<Rightarrow> json list \<Rightarrow> nat \<Rightarrow> nat \<Rightarrow> ipam_store \<Rightarrow>
     nat \<times> nat \<times> ipam_store" where
  "import_loop k sid actor net held existing [] saved rejected s = (saved, rejected, s)"
| "import_loop k sid actor net held existing (row # rows) saved rejected s =
     (case import_row k sid actor net held existing row s of
        None \<Rightarrow> import_loop k sid actor net held existing rows saved (rejected + 1) s
      | Some s' \<Rightarrow> import_loop k sid actor net held existing rows (saved + 1) rejected s')"

definition import_commit ::
  "bool \<Rightarrow> string \<Rightarrow> int \<Rightarrow> caller \<Rightarrow> json option \<Rightarrow> kea_sets \<Rightarrow> kea_subnets \<Rightarrow> ipam_store \<Rightarrow> (ipam_reply \<times> ipam_store) res" where
  "import_commit goes_through kind sid c payload held kea s =
     for_writer kind sid c kea s (\<lambda>cidr k.
            (case payload of
               Some (JList rows) \<Rightarrow>
                 (case net_of_string cidr of
                    None \<Rightarrow> Inr (BadCidr, s)
                  | Some net \<Rightarrow>
                      (let held = (if kind = ''kea'' then held else \<lparr>ks_leases = [], ks_reservations = []\<rparr>)
                       in case import_loop k sid (cr_name c) net held (load_entries s k sid) (take import_max_rows rows) 0 0 s of
                            (saved, rejected, s') \<Rightarrow>
                              Inr (committed goes_through (if saved > 0 then ImportDone saved rejected else NothingImported) s' s)))
             | _ \<Rightarrow> Inr (PayloadCorrupted, s)))"

section \<open>The JSON API\<close>

definition api_key_can_access_subnet :: "(string \<Rightarrow> json option) \<Rightarrow> key_row option \<Rightarrow> int \<Rightarrow> bool" where
  "api_key_can_access_subnet loads key sid =
     (if key = None then False
      else case key_subnet_ids loads key of None \<Rightarrow> True | Some scope \<Rightarrow> sid \<in> scope)"

definition str_field :: "json \<Rightarrow> string \<Rightarrow> nat option \<Rightarrow> string" where
  "str_field body name max_len =
     (case jget body name of
        JStr v \<Rightarrow> (case max_len of None \<Rightarrow> strip v | Some n \<Rightarrow> take_points n (strip v))
      | _ \<Rightarrow> [])"

datatype api_reply =
  NeedsSubnet | NotForThisKey | UnknownSubnet | InvalidIp | IpOutside | BadStatus | Conflict409 blocker | MacNotText | InvalidMac
  | SaveFailed | ApiSaved string string

definition api_subnet :: "(string \<Rightarrow> json option) \<Rightarrow> key_row option \<Rightarrow> int \<Rightarrow> kea_subnets \<Rightarrow> api_reply + string" where
  "api_subnet loads key sid kea =
     (if \<not> api_key_can_access_subnet loads key sid then Inl NotForThisKey
      else case map_of kea sid of None \<Rightarrow> Inl UnknownSubnet | Some (name, cidr) \<Rightarrow> Inr cidr)"

text \<open>\<open>key_name\<close> is the name of the key; \<open>held\<close> what Kea holds of the subnet asked for.\<close>

definition api_save_entry ::
  "bool \<Rightarrow> (string \<Rightarrow> json option) \<Rightarrow> key_row option \<Rightarrow> string \<Rightarrow> json \<Rightarrow> (int \<Rightarrow> kea_sets) \<Rightarrow> kea_subnets \<Rightarrow> ipam_store \<Rightarrow>
     api_reply \<times> ipam_store" where
  "api_save_entry goes_through loads key key_name body held kea s =
     (case int_of_json (jget body ''subnet_id'') of
        Inl e \<Rightarrow> (NeedsSubnet, s)
      | Inr sid \<Rightarrow>
          (case api_subnet loads key sid kea of
             Inl e \<Rightarrow> (e, s)
           | Inr cidr \<Rightarrow>
               (let ip = str_field body ''ip'' None
                in case (ip_of_string ip, net_of_string cidr) of
                     (Some a, Some net) \<Rightarrow>
                       (if \<not> ip_in_net a net then (IpOutside, s)
                        else
                          (case jget_default body ''status'' (JStr ''static'') of
                             JStr status \<Rightarrow>
                               (if status \<notin> set designated then (BadStatus, s)
                                else
                                  (case designation_blocker ip status (ks_leases (held sid)) (ks_reservations (held sid))
                                          (map_of (load_entries s ''kea'' sid) ip) of
                                     Some b \<Rightarrow> (Conflict409 b, s)
                                   | None \<Rightarrow>
                                       (let label = str_field body ''label'' (Some 100); owner = str_field body ''owner'' (Some 100);
                                            notes = str_field body ''notes'' None; hostname = str_field body ''hostname'' (Some 255);
                                            raw = jget_default body ''mac'' (JStr [])
                                        in if truthy raw \<and> \<not> is_str raw then (MacNotText, s)
                                           else
                                             let given = (case raw of JStr m \<Rightarrow> m | _ \<Rightarrow> []);
                                                 mac = (case mac_or_empty given of Some x \<Rightarrow> x | None \<Rightarrow> [])
                                             in if given \<noteq> [] \<and> mac = [] then (InvalidMac, s)
                                                else if goes_through
                                                then (ApiSaved ip status,
                                                      record_history ip ''kea'' sid status label owner (''api:'' @ key_name)
                                                        (upsert_entry ip ''kea'' sid label owner notes hostname mac status s))
                                                else (SaveFailed, s))))
                           | _ \<Rightarrow> (BadStatus, s)))
                   | _ \<Rightarrow> (InvalidIp, s))))"

definition max_prefix :: nat where
  "max_prefix = 16"

datatype next_reply = NextRefused api_reply | BadNet | TooBig | NextIp "string option"

definition api_next_free ::
  "(string \<Rightarrow> json option) \<Rightarrow> key_row option \<Rightarrow> int \<Rightarrow> kea_sets \<Rightarrow> ipam_ctx \<Rightarrow> kea_subnets \<Rightarrow> ipam_store \<Rightarrow> next_reply" where
  "api_next_free loads key sid held cx kea s =
     (case api_subnet loads key sid kea of
        Inl e \<Rightarrow> NextRefused e
      | Inr cidr \<Rightarrow>
          (case net_of_string cidr of
             None \<Rightarrow> BadNet
           | Some net \<Rightarrow>
               (if snd net < max_prefix then TooBig
                else NextIp (next_free_lazy net
                       \<lparr>dt_leases = ks_leases held, dt_reservations = ks_reservations held,
                        dt_entries = load_entries s ''kea'' sid\<rparr> cx))))"

section \<open>Unmanaged subnets\<close>

definition can_manage_unmanaged :: "account_user \<Rightarrow> bool" where
  "can_manage_unmanaged u = (is_admin_or_above u \<and> all_subnets u)"

definition nets_overlap :: "ip_net \<Rightarrow> ip_net \<Rightarrow> bool" where
  "nets_overlap a b = (net_first a \<le> net_last b \<and> net_first b \<le> net_last a)"

text \<open>The first network of a list that overlaps; one that is not a network is passed over.\<close>

definition first_overlap :: "ip_net \<Rightarrow> string list \<Rightarrow> string option" where
  "first_overlap net cidrs =
     find (\<lambda>c. case net_of_string c of None \<Rightarrow> False | Some other \<Rightarrow> nets_overlap net other) cidrs"

definition net_text :: "ip_net \<Rightarrow> string" where
  "net_text net = int2ip (net_first net) @ ''/'' @ show_nat (snd net)"

text \<open>\<open>new_id\<close> is the id the database gives the row.\<close>

definition add_subnet ::
  "bool \<Rightarrow> int \<Rightarrow> caller \<Rightarrow> unmanaged \<Rightarrow> kea_subnets \<Rightarrow> ipam_store \<Rightarrow> ipam_reply \<times> ipam_store" where
  "add_subnet goes_through new_id c f kea s =
     (if \<not> can_manage_unmanaged (cr_user c) then (AdminsOnly, s)
      else
        let name = take_points 100 (strip (un_name f)); gateway = strip (un_gateway f)
        in if name = [] then (NameRequired, s)
           else case net_of_string (strip (un_cidr f)) of
                  None \<Rightarrow> (BadCidr, s)
                | Some net \<Rightarrow>
                    (if snd net < max_prefix then (TooLarge, s)
                     else if gateway \<noteq> [] \<and> (case ip_of_string gateway of None \<Rightarrow> True | Some g \<Rightarrow> \<not> ip_in_net g net)
                     then (BadGateway, s)
                     else case first_overlap net (map (\<lambda>(i, n, c). c) kea) of
                            Some o1 \<Rightarrow> (OverlapsKea o1, s)
                          | None \<Rightarrow>
                              (case first_overlap net (map (\<lambda>(i, u). un_cidr u) (st_subnets s)) of
                                 Some o2 \<Rightarrow> (OverlapsUnmanaged o2, s)
                               | None \<Rightarrow>
                                   committed goes_through SubnetAdded
                                     (s\<lparr>st_subnets := st_subnets s @
                                        [(new_id, \<lparr>un_name = name, un_cidr = net_text net, un_description = strip (un_description f),
                                                   un_gateway = gateway\<rparr>)]\<rparr>) s)))"

definition delete_subnet :: "bool \<Rightarrow> int \<Rightarrow> caller \<Rightarrow> ipam_store \<Rightarrow> ipam_reply \<times> ipam_store" where
  "delete_subnet goes_through sid c s =
     (if \<not> can_manage_unmanaged (cr_user c) then (AdminsOnly, s)
      else if map_of (st_subnets s) sid = None then (NoSuchSubnet, s)
      else committed goes_through SubnetDeleted
             (s\<lparr>st_entries := filter (\<lambda>((ip, k, i), r). \<not> (k = ''ipam'' \<and> i = sid)) (st_entries s),
                st_history := filter (\<lambda>h. \<not> (hy_kind h = ''ipam'' \<and> hy_subnet h = sid)) (st_history s),
                st_subnets := AList.delete sid (st_subnets s)\<rparr>) s)"

section \<open>The periodic conflict check\<close>

text \<open>A subnet whose text is no network is passed over.\<close>

definition subnet_conflicts :: "ipam_store \<Rightarrow> int \<Rightarrow> string \<Rightarrow> kea_sets \<Rightarrow> conflict_row list" where
  "subnet_conflicts s sid cidr held =
     (case net_of_string cidr of
        None \<Rightarrow> []
      | Some net \<Rightarrow>
          conflicts_in \<lparr>dt_leases = ks_leases held, dt_reservations = ks_reservations held,
                        dt_entries = load_entries s ''kea'' sid\<rparr> (host_in_network net))"

definition kea_conflicts :: "ipam_store \<Rightarrow> kea_subnets \<Rightarrow> (int \<Rightarrow> kea_sets) \<Rightarrow> (int \<times> string \<times> conflict_row) list" where
  "kea_conflicts s kea held =
     concat (map (\<lambda>(sid, name, cidr). map (\<lambda>e. (sid, name, e)) (subnet_conflicts s sid cidr (held sid))) kea)"

definition conflict_key :: "int \<times> string \<times> conflict_row \<Rightarrow> ipam_key" where
  "conflict_key c = (case c of (sid, name, e) \<Rightarrow> (cf_ip e, ''kea'', sid))"

fun alert_new :: "(int \<times> string \<times> conflict_row) list \<Rightarrow> ipam_key list \<Rightarrow> (int \<times> string \<times> conflict_row) list \<times> ipam_key list" where
  "alert_new [] known = ([], known)"
| "alert_new (c # cs) known =
     (if conflict_key c \<in> set known then alert_new cs known
      else case alert_new cs (known @ [conflict_key c]) of (alerts, known') \<Rightarrow> (c # alerts, known'))"

definition check_conflicts ::
  "bool \<Rightarrow> kea_subnets \<Rightarrow> (int \<Rightarrow> kea_sets) \<Rightarrow> ipam_store \<Rightarrow> (int \<times> string \<times> conflict_row) list \<times> ipam_store" where
  "check_conflicts goes_through kea held s =
     (let conflicts = kea_conflicts s kea held
      in case alert_new conflicts (st_conflicts s) of
           (alerts, known) \<Rightarrow>
             (alerts, if goes_through then s\<lparr>st_conflicts := filter (\<lambda>k. k \<in> set (map conflict_key conflicts)) known\<rparr> else s))"

end
