(* ===== verification/IpamProps.thy ===== *)
theory IpamProps
  imports Ipam ImportProps
begin

text \<open>
  The lazy page of a subnet against the address space it stands for, the next free address, the counts of the
  overview and the conflicts.
\<close>

section \<open>Addresses and their texts\<close>

lemma show_nat_dec_val:
  assumes "s \<noteq> []" and "list_all is_digit s" and "s = ''0'' \<or> hd s \<noteq> CHR ''0''"
  shows "show_nat (dec_val s) = s"
  using assms
proof (induction s rule: rev_induct)
  case (snoc c s)
  have c: "is_digit c" using snoc.prems by simp
  have d: "dec_val (s @ [c]) = 10 * dec_val s + digit_val c" by (simp add: dec_val_def)
  have dc: "digit_val c < 10" "char_of (digit_val c + 48) = c"
    using c by (auto simp: is_digit_def digit_val_def)
  show ?case
  proof (cases "s = []")
    case True
    then show ?thesis using dc by (simp add: dec_val_def show_nat.simps [of "digit_val c"])
  next
    case False
    have hd0: "hd s \<noteq> CHR ''0''" using snoc.prems False by (cases s) auto
    then have ih: "show_nat (dec_val s) = s" using snoc False by simp
    have "0 < dec_val s"
    proof (rule ccontr)
      assume "\<not> 0 < dec_val s"
      then have "s = show_nat 0" using ih by simp
      then show False using hd0 by (simp add: show_nat_0)
    qed
    then show ?thesis using ih dc d by (simp add: show_nat.simps [of "10 * dec_val s + digit_val c"])
  qed
qed simp

lemma parse_octet_canonical: "parse_octet s = Some n \<Longrightarrow> s = show_nat n"
  using show_nat_dec_val [of s] by (auto simp: parse_octet_def split: if_splits)

lemma int2ip_of_string:
  assumes "ip_of_string s = Some n"
  shows "int2ip n = s"
proof -
  obtain a b c d where parts: "map parse_octet (split_on CHR ''.'' s) = [Some a, Some b, Some c, Some d]"
    and n: "n = ((a * 256 + b) * 256 + c) * 256 + d"
    using assms by (auto simp: ip_of_string_def split: list.splits option.splits)
  then obtain p q r t where split: "split_on CHR ''.'' s = [p, q, r, t]"
    and o: "parse_octet p = Some a" "parse_octet q = Some b" "parse_octet r = Some c" "parse_octet t = Some d"
    by (auto simp: map_eq_Cons_conv)
  have dv: "n div 2 ^ 24 = n div 256 div 256 div 256" "n div 2 ^ 16 = n div 256 div 256" "n div 2 ^ 8 = n div 256"
    by (simp_all add: div_mult2_eq [symmetric])
  have step: "(x * 256 + y) div 256 = x" "(x * 256 + y) mod 256 = y" if "y \<le> 255" for x y :: nat
    using that by simp_all
  note le = parse_octet_le [OF o(1)] parse_octet_le [OF o(2)] parse_octet_le [OF o(3)] parse_octet_le [OF o(4)]
  have "n div 2 ^ 24 = a" "n div 2 ^ 16 mod 256 = b" "n div 2 ^ 8 mod 256 = c" "n mod 256 = d"
    unfolding dv by (simp_all only: n step [OF le(2)] step [OF le(3)] step [OF le(4)])
  then have "int2ip n = join_with ''.'' (split_on CHR ''.'' s)"
    using o [THEN parse_octet_canonical] by (simp add: int2ip_def split)
  then show ?thesis by (simp add: join_split)
qed

lemma ip_of_string_iff: "ip_of_string s = Some n \<longleftrightarrow> n \<le> ipv4_max \<and> s = int2ip n"
  using ip_of_string_le int2ip_of_string ip_of_int2ip by blast

lemma int2ip_inj: "inj_on int2ip {..ipv4_max}"
  by (rule inj_onI) (metis atMost_iff ip_of_int2ip option.inject)

section \<open>One address\<close>

lemma compose_entry_ip [simp]: "ae_ip (compose_entry d cx devs ip) = ip"
  by (simp add: compose_entry_def owned_entry_def noted_entry_def Let_def split: option.split)

lemma compose_entry_pool [simp]: "ae_in_pool (compose_entry d cx devs ip) = in_pool cx ip"
  by (simp add: compose_entry_def owned_entry_def noted_entry_def Let_def split: option.split)

definition is_marked :: "ipam_data \<Rightarrow> string \<Rightarrow> bool" where
  "is_marked d ip = (case map_of (dt_entries d) ip of None \<Rightarrow> False | Some r \<Rightarrow> designated_status r \<in> set designated)"

lemma designated_cases: "designated_status r \<in> {''static'', ''planned'', ''available''}"
  by (simp add: designated_status_def designated_def Let_def)

text \<open>The status of an address, by what holds it.\<close>

definition ipam_status :: "ipam_data \<Rightarrow> ipam_ctx \<Rightarrow> string \<Rightarrow> string" where
  "ipam_status d cx ip =
     (if map_of (dt_reservations d) ip \<noteq> None then ''reserved''
      else if map_of (dt_leases d) ip \<noteq> None then (if is_marked d ip then ''conflict'' else ''dynamic'')
      else if map_of (ix_infra cx) ip \<noteq> None then ''infrastructure''
      else if is_marked d ip then designated_status (the (map_of (dt_entries d) ip))
      else ''available'')"

lemma compose_entry_status: "ae_status (compose_entry d cx devs ip) = ipam_status d cx ip"
proof -
  have "ae_status (compose_entry d cx devs ip) = ae_status (owned_entry d cx (noted_entry ip (map_of (dt_entries d) ip) (in_pool cx ip)) :: 'a address_entry)"
    by (simp add: compose_entry_def Let_def split: option.split)
  also have "\<dots> = ipam_status d cx ip"
    by (simp add: owned_entry_def noted_entry_def ipam_status_def is_marked_def designated_def Let_def split: option.split)
  finally show ?thesis .
qed

lemma status_available:
  "ipam_status d cx ip = ''available'' \<longleftrightarrow> map_of (dt_reservations d) ip = None \<and> map_of (dt_leases d) ip = None \<and>
     map_of (ix_infra cx) ip = None \<and> \<not> is_marked d ip"
  by (auto simp: ipam_status_def is_marked_def designated_def split: option.splits)

lemma not_occupied_available: "ip \<notin> set (occupied_addresses d cx) \<Longrightarrow> ipam_status d cx ip = ''available''"
  by (auto simp: status_available occupied_addresses_def keys_of_def map_of_eq_None_iff is_marked_def split: option.splits)
    (metis image_eqI fst_conv map_of_SomeD)

section \<open>The next free address\<close>

lemma find_map_entries: "find P (map f xs) = map_option f (find (P \<circ> f) xs)"
  by (induction xs) auto

text \<open>
  The next free address. Walking the hosts one by one and stopping at the first miss finds exactly what
  building the whole address space and looking for the first available address outside every pool finds, for
  every subnet and whatever Kea and the plugin hold.
\<close>

theorem next_free_lazy_exact:
  "next_free_lazy net d cx = next_free (compose_space (hosts net) d cx devices)"
proof -
  have "skip_address d cx ip \<longleftrightarrow> \<not> (ipam_status d cx ip = ''available'' \<and> \<not> in_pool cx ip)" for ip
    by (auto simp: skip_address_def status_available is_marked_def split: option.splits)
  then show ?thesis
    by (simp add: next_free_lazy_def next_free_def compose_space_def find_map_entries comp_def compose_entry_status option.map_comp
        option.map_ident)
qed

section \<open>The lazy page\<close>

text \<open>The addresses a row of the page stands for.\<close>

definition unfold_row ::
  "ipam_data \<Rightarrow> ipam_ctx \<Rightarrow> (string \<times> 'd) list \<Rightarrow> 'd table_row \<Rightarrow> 'd address_entry list" where
  "unfold_row d cx devices row =
     (case row of
        EntryRow e \<Rightarrow> [e]
      | RunRow a b n pool \<Rightarrow>
          map (\<lambda>v. compose_entry d cx devices (int2ip v)) [the (ip_of_string a)..<Suc (the (ip_of_string b))])"

definition summarises ::
  "ipam_data \<Rightarrow> ipam_ctx \<Rightarrow> (string \<times> 'd) list \<Rightarrow> 'd table_row \<Rightarrow> bool" where
  "summarises d cx devices row =
     (case row of
        EntryRow e \<Rightarrow> True
      | RunRow a b n pool \<Rightarrow>
          n = length (unfold_row d cx devices row) \<and>
          list_all (\<lambda>e. ae_status e = ''available'' \<and> ae_in_pool e = pool) (unfold_row d cx devices row))"

lemma upt_split: "i \<le> j \<Longrightarrow> j \<le> k \<Longrightarrow> [i..<k] = [i..<j] @ [j..<k]"
  using upt_add_eq_append [of i j "k - j"] by simp

text \<open>Neighbours in an ascending list.\<close>

definition neighbours :: "nat list \<Rightarrow> nat \<Rightarrow> nat \<Rightarrow> bool" where
  "neighbours l a b = (a \<in> set l \<and> b \<in> set l \<and> a < b \<and> (\<forall>p \<in> set l. p \<le> a \<or> b \<le> p))"

lemma neighbours_Cons:
  assumes "sorted_wrt (<) (a # l)" and "neighbours l x y"
  shows "neighbours (a # l) x y"
proof -
  have "a < x" using assms by (simp add: neighbours_def)
  then show ?thesis using assms(2) by (simp add: neighbours_def)
qed

lemma neighbours_hd: "sorted_wrt (<) (a # b # r) \<Longrightarrow> neighbours (a # b # r) a b"
  by (simp add: neighbours_def less_imp_le)

lemma over_pairs_neighbours:
  assumes "sorted_wrt (<) l" and "row \<in> set (over_pairs f l)"
  shows "\<exists>a b. neighbours l a b \<and> row \<in> set (f a b)"
  using assms
proof (induction f l rule: over_pairs.induct)
  case (1 f a b r)
  show ?case
  proof (cases "row \<in> set (f a b)")
    case True
    then show ?thesis using neighbours_hd [OF "1.prems"(1)] by blast
  next
    case False
    have "sorted_wrt (<) (b # r)" using "1.prems"(1) by simp
    moreover have "row \<in> set (over_pairs f (b # r))" using False "1.prems"(2) by simp
    ultimately obtain x y where "neighbours (b # r) x y" "row \<in> set (f x y)" using "1.IH" by blast
    then show ?thesis using neighbours_Cons [OF "1.prems"(1)] by blast
  qed
qed auto

lemma over_pairs_flat:
  assumes "sorted_wrt (<) l" and "l \<noteq> []"
    and "\<And>a b. neighbours l a b \<Longrightarrow> concat (map u (f a b)) = map g [a..<b]"
  shows "concat (map u (over_pairs f l)) = map g [hd l..<last l]"
  using assms
proof (induction f l rule: over_pairs.induct)
  case (1 f a b r)
  note ab = neighbours_hd [OF "1.prems"(1)]
  have "concat (map u (over_pairs f (b # r))) = map g [hd (b # r)..<last (b # r)]"
    by (rule "1.IH") (use "1.prems" neighbours_Cons [OF "1.prems"(1)] in simp_all)
  moreover have ab': "a < b" using "1.prems"(1) by simp
  have "\<forall>x \<in> set r. b < x" using "1.prems"(1) by simp
  then have le: "b \<le> last (b # r)" by (cases "r = []") (simp_all add: less_imp_le)
  have "[a..<last (b # r)] = [a..<b] @ [b..<last (b # r)]" by (rule upt_split) (use ab' le in simp_all)
  ultimately show ?case using "1.prems"(3) [OF ab] by simp
qed simp_all

lemma run_boundaries_facts:
  fixes net :: ip_net
  defines "lo \<equiv> host_lo net" and "hi \<equiv> host_end net - 1"
  shows "sorted_wrt (<) (run_boundaries net cx occ)"
    and "set (run_boundaries net cx occ) =
      {p \<in> {lo, hi + 1} \<union> set (address_points lo hi occ) \<union> set (pool_points lo hi (ix_pools cx)). lo \<le> p \<and> p \<le> hi + 1}"
  by (auto simp: run_boundaries_def Let_def lo_def hi_def strict_sorted_iff)

lemma host_bounds:
  shows "host_lo net < host_end net" and "host_end net \<le> Suc (net_last net)"
proof -
  have "(4 :: nat) \<le> 2 ^ (32 - snd net)" if "snd net < 31"
  proof -
    have "(2 :: nat) ^ 2 \<le> 2 ^ (32 - snd net)" using that by (intro power_increasing) auto
    then show ?thesis by simp
  qed
  then show "host_lo net < host_end net" by (auto simp: host_lo_def host_end_def net_last_def net_first_def)
  show "host_end net \<le> Suc (net_last net)" by (simp add: host_end_def)
qed

lemma strict_sorted_ends:
  fixes l :: "nat list"
  assumes "sorted_wrt (<) l" and "set l \<subseteq> {lo..hi}" and "lo \<in> set l" and "hi \<in> set l"
  shows "hd l = lo" and "last l = hi" and "l \<noteq> []"
proof -
  show ne: "l \<noteq> []" using assms(3) by auto
  have s: "sorted l" using assms(1) by (rule strict_sorted_imp_sorted)
  have "hd l \<le> lo" using s assms(3) by (cases l) auto
  then show "hd l = lo" using assms(2) hd_in_set [OF ne] by fastforce
  have "hi \<le> last l" using s assms(4) by (induction l) (auto split: if_splits)
  then show "last l = hi" using assms(2) last_in_set [OF ne] by fastforce
qed

lemma pool_points_mem:
  assumes "(a, b) \<in> set pools" and "\<not> (b < lo \<or> hi < a)"
  shows "max a lo \<in> set (pool_points lo hi pools) \<and> min b hi + 1 \<in> set (pool_points lo hi pools)"
proof -
  obtain xs ys where "pools = xs @ (a, b) # ys" using assms(1) by (meson split_list)
  then show ?thesis using assms(2) by (simp add: pool_points_def)
qed

text \<open>Between two neighbouring boundaries nothing changes.\<close>

lemma between_boundaries:
  assumes n: "neighbours (run_boundaries net cx (occupied_addresses d cx)) a b" and v: "a \<le> v" "v < b"
    and last: "net_last net \<le> ipv4_max"
  shows "b \<le> host_end net" and "host_lo net \<le> a"
    and "in_pool cx (int2ip v) = in_pool cx (int2ip a)"
    and "int2ip v \<in> set (occupied_addresses d cx) \<Longrightarrow> v = a \<and> b = a + 1"
proof -
  let ?occ = "occupied_addresses d cx" and ?lo = "host_lo net" and ?hi = "host_end net - 1"
  note B = run_boundaries_facts(2) [of net cx ?occ]
  have ends: "?hi + 1 = host_end net" using host_bounds(1) [of net] by simp
  show lo: "?lo \<le> a" and hi: "b \<le> host_end net" using n ends by (auto simp: neighbours_def B)
  have vhi: "v \<le> ?hi" "?lo \<le> v" "a \<le> ?hi" using v lo hi ends by auto
  have no: "p \<le> a \<or> b \<le> p"
    if "p \<in> {?lo, ?hi + 1} \<union> set (address_points ?lo ?hi ?occ) \<union> set (pool_points ?lo ?hi (ix_pools cx))"
      "?lo \<le> p" "p \<le> ?hi + 1" for p
    using n that by (simp add: neighbours_def B)
  have max: "w \<le> ipv4_max" if "w \<le> ?hi" for w using that host_bounds(2) [of net] last by simp
  have point: "lo' \<le> v \<and> v \<le> hi' \<longleftrightarrow> lo' \<le> a \<and> a \<le> hi'" if "(lo', hi') \<in> set (ix_pools cx)" for lo' hi'
  proof -
    have P: "max lo' ?lo \<in> set (pool_points ?lo ?hi (ix_pools cx)) \<and> min hi' ?hi + 1 \<in> set (pool_points ?lo ?hi (ix_pools cx))"
      if "\<not> (hi' < ?lo \<or> ?hi < lo')"
      using that \<open>(lo', hi') \<in> set (ix_pools cx)\<close> by (rule pool_points_mem [rotated])
    show ?thesis
    proof (rule iffI)
      assume p: "lo' \<le> v \<and> v \<le> hi'"
      then have "max lo' ?lo \<in> set (pool_points ?lo ?hi (ix_pools cx))" using P vhi by fastforce
      then have "max lo' ?lo \<le> a \<or> b \<le> max lo' ?lo" using no [of "max lo' ?lo"] p vhi by simp
      moreover have "max lo' ?lo \<le> v" using p vhi by simp
      ultimately have "max lo' ?lo \<le> a" using v by linarith
      then show "lo' \<le> a \<and> a \<le> hi'" using p v by simp
    next
      assume p: "lo' \<le> a \<and> a \<le> hi'"
      then have "min hi' ?hi + 1 \<in> set (pool_points ?lo ?hi (ix_pools cx))" using P vhi lo by fastforce
      moreover have m: "a \<le> min hi' ?hi" using p vhi by simp
      moreover have "min hi' ?hi + 1 \<le> ?hi + 1" "?lo \<le> min hi' ?hi + 1" using lo m by linarith+
      ultimately have "min hi' ?hi + 1 \<le> a \<or> b \<le> min hi' ?hi + 1" using no [of "min hi' ?hi + 1"] by blast
      then have "b \<le> min hi' ?hi + 1" using m by linarith
      then show "lo' \<le> v \<and> v \<le> hi'" using p v by simp
    qed
  qed
  have ips: "ip_of_string (int2ip v) = Some v" "ip_of_string (int2ip a) = Some a"
    using max vhi ip_of_int2ip by blast+
  show "in_pool cx (int2ip v) = in_pool cx (int2ip a)"
    using point by (auto simp: in_pool_def ips list_ex_iff)
  assume "int2ip v \<in> set ?occ"
  then have "v \<in> set (address_points ?lo ?hi ?occ)" "v + 1 \<in> set (address_points ?lo ?hi ?occ)"
    using vhi ips by (force simp: address_points_def)+
  then have "v \<le> a \<or> b \<le> v" "v + 1 \<le> a \<or> b \<le> v + 1" using no vhi by simp_all
  then show "v = a \<and> b = a + 1" using v by auto
qed

lemma interval_rows_exact:
  fixes devices :: "(string \<times> 'd) list" and expand :: "string option" and min_run :: nat
  assumes n: "neighbours (run_boundaries net cx (occupied_addresses d cx)) a b" and last: "net_last net \<le> ipv4_max"
  defines "rows \<equiv> interval_rows (occupied_addresses d cx) d cx devices expand min_run a b"
  shows "concat (map (unfold_row d cx devices) rows) = map (\<lambda>v. compose_entry d cx devices (int2ip v)) [a..<b]"
    and "row \<in> set rows \<Longrightarrow> summarises d cx devices row"
proof -
  let ?g = "\<lambda>v. compose_entry d cx devices (int2ip v)"
  have ab: "a < b" using n by (simp add: neighbours_def)
  note bt = between_boundaries [OF n _ _ last]
  have hi: "b \<le> Suc ipv4_max" using bt(1) [of a] ab host_bounds(2) [of net] last by simp
  have each: "concat (map (unfold_row d cx devices) (map (\<lambda>v. EntryRow (?g v)) xs)) = map ?g xs" for xs
    by (induction xs) (simp_all add: unfold_row_def)
  have ips: "ip_of_string (int2ip a) = Some a" "ip_of_string (int2ip (b - 1)) = Some (b - 1)"
    using hi ab by (auto intro: ip_of_int2ip)
  have run: "unfold_row d cx devices (RunRow (int2ip a) (int2ip (b - 1)) k p) = map ?g [a..<b]" for k p
  proof -
    have "Suc (b - 1) = b" using ab by simp
    then show ?thesis unfolding unfold_row_def table_row.case ips option.sel by simp
  qed
  consider (one) "rows = [EntryRow (?g a)]" "b - a = 1" | (each) "rows = map (\<lambda>v. EntryRow (?g v)) [a..<b]"
    | (run) "rows = [RunRow (int2ip a) (int2ip (b - 1)) (b - a) (in_pool cx (int2ip a))]"
        "\<not> (b - a = 1 \<and> int2ip a \<in> set (occupied_addresses d cx))"
    by (cases "b - a = 1 \<and> int2ip a \<in> set (occupied_addresses d cx)"; cases "b - a < min_run";
        cases "expand = Some (run_key (int2ip a) (int2ip (b - 1)))")
      (simp_all add: rows_def interval_rows_def Let_def del: One_nat_def)
  then show "concat (map (unfold_row d cx devices) rows) = map ?g [a..<b]"
  proof cases
    case one
    then have "[a..<b] = [a]" using ab by (simp add: upt_rec)
    then show ?thesis by (simp add: one unfold_row_def)
  next
    case each
    then show ?thesis using \<open>\<And>xs. concat (map (unfold_row d cx devices) (map (\<lambda>v. EntryRow (?g v)) xs)) = map ?g xs\<close> by simp
  next
    case run
    then show ?thesis using \<open>\<And>k p. unfold_row d cx devices (RunRow (int2ip a) (int2ip (b - 1)) k p) = map ?g [a..<b]\<close> by simp
  qed
  assume row: "row \<in> set rows"
  show "summarises d cx devices row"
  proof (cases row)
    case (RunRow x y k p)
    then have r: "row = RunRow (int2ip a) (int2ip (b - 1)) (b - a) (in_pool cx (int2ip a))"
      and no: "\<not> (b - a = 1 \<and> int2ip a \<in> set (occupied_addresses d cx))"
      using row unfolding rows_def interval_rows_def Let_def RunRow
      by (cases "b - a = 1 \<and> int2ip a \<in> set (occupied_addresses d cx)"; cases "b - a < min_run";
        cases "expand = Some (run_key (int2ip a) (int2ip (b - 1)))"; auto simp del: One_nat_def)+
    have "ae_status (?g v) = ''available'' \<and> ae_in_pool (?g v) = in_pool cx (int2ip a)" if "v \<in> set [a..<b]" for v
    proof -
      have v: "a \<le> v" "v < b" using that by simp_all
      have "int2ip v \<notin> set (occupied_addresses d cx)" using bt(4) [OF v] no by auto
      then show ?thesis using bt(3) [OF v] not_occupied_available [of "int2ip v" d cx] by (simp add: compose_entry_status)
    qed
    then have all: "list_all (\<lambda>e. ae_status e = ''available'' \<and> ae_in_pool e = in_pool cx (int2ip a)) (map ?g [a..<b])"
      unfolding list_all_iff set_map by blast
    have u: "unfold_row d cx devices row = map ?g [a..<b]" unfolding r by (rule run)
    have "summarises d cx devices row \<longleftrightarrow> b - a = length (unfold_row d cx devices row) \<and>
        list_all (\<lambda>e. ae_status e = ''available'' \<and> ae_in_pool e = in_pool cx (int2ip a)) (unfold_row d cx devices row)"
      unfolding r summarises_def table_row.case by (rule refl)
    then show ?thesis using all unfolding u by simp
  qed (simp add: summarises_def)
qed

lemma parse_prefix_le: "parse_prefix s = Some p \<Longrightarrow> p \<le> 32"
proof -
  have "q < 33" if "prefix_of_ip m = Some q" for m q
    using that by (auto simp: prefix_of_ip_def find_Some_iff)
  then show "parse_prefix s = Some p \<Longrightarrow> p \<le> 32"
    by (fastforce simp: parse_prefix_def less_Suc_eq_le split: if_splits option.splits)
qed

lemma net_last_max:
  assumes "net_of_string t = Some net"
  shows "net_last net \<le> ipv4_max"
proof -
  obtain a p where net: "net = (mask_ip a p, p)" and a: "a \<le> ipv4_max" and p: "p \<le> 32"
  proof -
    consider a where "ip_of_string (hd (split_on CHR ''/'' t)) = Some a" "net = (a, 32)"
      | a p where "ip_of_string (hd (split_on CHR ''/'' t)) = Some a" "net = (mask_ip a p, p)" "p \<le> 32"
      using assms parse_prefix_le by (auto simp: net_of_string_def split: list.splits option.splits)
    then show thesis
    proof cases
      case 1
      then show thesis using that [of a 32] ip_of_string_le by (simp add: mask_ip_def)
    next
      case 2
      then show thesis using that [of a p] ip_of_string_le by simp
    qed
  qed
  let ?K = "2 ^ (32 - p) :: nat"
  have K: "2 ^ p * ?K = 2 ^ 32" using p by (simp flip: power_add)
  have "a < 2 ^ p * ?K" using a unfolding K by (simp add: ipv4_max_def)
  then have "a div ?K < 2 ^ p" by (simp add: less_mult_imp_div_less)
  then have "(a div ?K + 1) * ?K \<le> 2 ^ p * ?K" by (intro mult_right_mono) simp_all
  then have "mask_ip a p + ?K \<le> 2 ^ 32" unfolding K by (simp add: mask_ip_def)
  moreover have "0 < ?K" by simp
  ultimately show ?thesis by (simp add: net_last_def net ipv4_max_def)
qed

text \<open>
  C34. The page built from the occupied addresses and the ends of the pools alone shows the subnet as it is.
  Unfolded, its rows are the address space of the subnet, every host once and in order, and a collapsed run
  stands for exactly the number of addresses it names, every one of them available and on the side of the pools
  the row says, whatever run is expanded and however long a run must be to be collapsed.
\<close>

theorem lazy_page_exact:
  assumes "net_of_string cidr = Some net"
  shows "concat (map (unfold_row d cx devices) (build_rows_lazy net d cx devices expand min_run)) =
      build_address_space cidr d cx devices \<and>
    list_all (summarises d cx devices) (build_rows_lazy net d cx devices expand min_run)"
proof -
  let ?B = "run_boundaries net cx (occupied_addresses d cx)"
  note last = net_last_max [OF assms] and B = run_boundaries_facts [of net cx "occupied_addresses d cx"]
  have ends: "Suc (host_end net - 1) = host_end net" using host_bounds(1) [of net] by simp
  have set: "set ?B \<subseteq> {host_lo net..host_end net}" "host_lo net \<in> set ?B" "host_end net \<in> set ?B"
    using host_bounds(1) [of net] ends by (auto simp: B(2))
  then have e: "hd ?B = host_lo net" "last ?B = host_end net" "?B \<noteq> []"
    using strict_sorted_ends [OF B(1)] by auto
  let ?f = "interval_rows (occupied_addresses d cx) d cx devices expand min_run"
  have "concat (map (unfold_row d cx devices) (over_pairs ?f ?B)) =
      map (\<lambda>v. compose_entry d cx devices (int2ip v)) [host_lo net..<host_end net]"
    using over_pairs_flat [OF B(1) e(3) interval_rows_exact(1) [OF _ last]] unfolding e .
  moreover have "summarises d cx devices row" if "row \<in> set (over_pairs ?f ?B)" for row
    using over_pairs_neighbours [OF B(1) that] interval_rows_exact(2) [OF _ last] by blast
  ultimately show ?thesis
    by (simp add: build_rows_lazy_def Let_def build_address_space_def assms compose_space_def hosts_def list_all_iff comp_def)
qed

section \<open>The counts of the overview\<close>

lemma host_in_hosts:
  assumes "net_last net \<le> ipv4_max" and "snd net < 31"
  shows "host_in_network net ip \<longleftrightarrow> ip \<in> set (hosts net)"
proof -
  have le: "x < host_end net \<Longrightarrow> x \<le> ipv4_max" for x using assms(1) host_bounds(2) [of net] by simp
  have "host_in_network net ip \<longleftrightarrow> (\<exists>v. ip_of_string ip = Some v \<and> host_lo net \<le> v \<and> v < host_end net)"
    using assms(2) by (auto simp: host_in_network_def ip_in_net_def host_lo_def host_end_def split: option.splits)
  also have "\<dots> \<longleftrightarrow> ip \<in> set (hosts net)"
    using le by (fastforce simp: hosts_def ip_of_string_iff)
  finally show ?thesis .
qed

lemma distinct_hosts: "net_last net \<le> ipv4_max \<Longrightarrow> distinct (hosts net)"
  using host_bounds(2) [of net] by (auto simp: hosts_def distinct_map intro: inj_on_subset [OF int2ip_inj])

definition with_status :: "ip_net \<Rightarrow> ipam_data \<Rightarrow> ipam_ctx \<Rightarrow> string \<Rightarrow> string set" where
  "with_status net d cx status = {ip \<in> set (hosts net). ipam_status d cx ip = status}"

lemma ipam_status_all: "ipam_status d cx ip \<in> set all_statuses"
  using designated_cases [of "the (map_of (dt_entries d) ip)"] by (auto simp: ipam_status_def all_statuses_def)

lemma count_space_card:
  assumes "net_last net \<le> ipv4_max" and "status \<notin> {''total'', ''used''}"
  shows "count_space (compose_space (hosts net) d cx devices) status = card (with_status net d cx status)"
proof -
  have "filter (\<lambda>e. ae_status e = status) (compose_space (hosts net) d cx devices) =
      map (compose_entry d cx devices) (filter (\<lambda>ip. ipam_status d cx ip = status) (hosts net))"
    by (simp add: compose_space_def filter_map comp_def compose_entry_status)
  moreover have "card (with_status net d cx status) = length (filter (\<lambda>ip. ipam_status d cx ip = status) (hosts net))"
    using distinct_hosts [OF assms(1)] by (simp add: with_status_def flip: distinct_card)
  ultimately show ?thesis using assms(2) by (simp add: count_space_def)
qed

lemma card_by_status:
  "length (remdups (hosts net)) = (\<Sum>s \<in> set all_statuses. card (with_status net d cx s))"
proof -
  have "set (hosts net) = (\<Union>s \<in> set all_statuses. with_status net d cx s)"
    using ipam_status_all [of d cx] by (auto simp: with_status_def)
  then have "card (set (hosts net)) = (\<Sum>s \<in> set all_statuses. card (with_status net d cx s))"
    by (simp only:) (rule card_UN_disjoint, auto simp: with_status_def)
  then show ?thesis by (simp add: length_remdups_card_conv)
qed

text \<open>The sets of the overview are the addresses of each status.\<close>

lemma keys_of_iff: "ip \<in> set (keys_of m) \<longleftrightarrow> map_of m ip \<noteq> None"
  by (simp add: keys_of_def map_of_eq_None_iff)

lemma status_iff:
  "ipam_status d cx ip = ''reserved'' \<longleftrightarrow> map_of (dt_reservations d) ip \<noteq> None"
  "ipam_status d cx ip = ''dynamic'' \<longleftrightarrow> map_of (dt_reservations d) ip = None \<and> map_of (dt_leases d) ip \<noteq> None \<and> \<not> is_marked d ip"
  "ipam_status d cx ip = ''conflict'' \<longleftrightarrow> map_of (dt_reservations d) ip = None \<and> map_of (dt_leases d) ip \<noteq> None \<and> is_marked d ip"
  "ipam_status d cx ip = ''infrastructure'' \<longleftrightarrow> map_of (dt_reservations d) ip = None \<and> map_of (dt_leases d) ip = None \<and>
     map_of (ix_infra cx) ip \<noteq> None"
  "ipam_status d cx ip = ''static'' \<longleftrightarrow> map_of (dt_reservations d) ip = None \<and> map_of (dt_leases d) ip = None \<and>
     map_of (ix_infra cx) ip = None \<and> marked_as d ''static'' ip"
  "ipam_status d cx ip = ''planned'' \<longleftrightarrow> map_of (dt_reservations d) ip = None \<and> map_of (dt_leases d) ip = None \<and>
     map_of (ix_infra cx) ip = None \<and> marked_as d ''planned'' ip"
  by (auto simp: ipam_status_def marked_as_def is_marked_def designated_def split: option.splits)

lemma marked_as_marked: "marked_as d s ip \<Longrightarrow> s \<in> set designated \<Longrightarrow> is_marked d ip"
  by (auto simp: marked_as_def is_marked_def split: option.splits)

lemma space_sets_status:
  fixes cx :: ipam_ctx
  assumes last: "net_last net \<le> ipv4_max" and p: "snd net < 31"
    and leases: "set (keys_of (dt_leases d)) \<subseteq> set (hosts net)" and marked: "designated_in d \<subseteq> set (hosts net)"
  defines "ss \<equiv> space_sets_of (host_in_network net) d cx"
  shows "ss_reserved ss = with_status net d cx ''reserved''" and "ss_dynamic ss = with_status net d cx ''dynamic''"
    and "ss_conflict ss = with_status net d cx ''conflict''" and "ss_infra ss = with_status net d cx ''infrastructure''"
    and "ss_static ss = with_status net d cx ''static''" and "ss_planned ss = with_status net d cx ''planned''"
proof -
  have mark: "ip \<in> designated_in d \<longleftrightarrow> is_marked d ip" for ip
    by (auto simp: designated_in_def is_marked_def keys_of_def split: option.splits) (metis fst_conv image_eqI map_of_SomeD)
  have lin: "map_of (dt_leases d) ip \<noteq> None \<Longrightarrow> ip \<in> set (hosts net)" and min: "is_marked d ip \<Longrightarrow> ip \<in> set (hosts net)" for ip
    using leases marked mark by (auto simp: keys_of_iff)
  have sm: "marked_as d ''static'' ip \<Longrightarrow> is_marked d ip" "marked_as d ''planned'' ip \<Longrightarrow> is_marked d ip" for ip
    by (auto simp: designated_def intro: marked_as_marked)
  note mem = ss_def space_sets_of_def Let_def with_status_def host_in_hosts [OF last p] status_iff keys_of_iff mark
  show "ss_reserved ss = with_status net d cx ''reserved''" by (rule set_eqI) (simp add: mem, blast)
  show "ss_dynamic ss = with_status net d cx ''dynamic''" by (rule set_eqI) (auto simp: mem intro: lin)
  show "ss_conflict ss = with_status net d cx ''conflict''" by (rule set_eqI) (auto simp: mem intro: lin)
  show "ss_infra ss = with_status net d cx ''infrastructure''" by (rule set_eqI) (auto simp: mem intro: lin)
  show "ss_static ss = with_status net d cx ''static''" by (rule set_eqI) (auto simp: mem intro: min sm dest: sm)
  show "ss_planned ss = with_status net d cx ''planned''" by (rule set_eqI) (auto simp: mem intro: min sm dest: sm)
qed

text \<open>
  C35. The overview counts what the page shows. For a subnet of more than two addresses whose leases and
  designations lie on its hosts, the numbers the overview computes with sets alone, total, used, available and
  each status, are the numbers of addresses of the whole address space that have the status.
\<close>

theorem overview_counts_exact:
  assumes net: "net_of_string cidr = Some net" and p: "snd net < 31"
    and leases: "set (keys_of (dt_leases d)) \<subseteq> set (hosts net)" and marked: "designated_in d \<subseteq> set (hosts net)"
    and status: "status \<in> set ([''total'', ''used''] @ all_statuses)"
  shows "ipam_summary net d cx status = count_space (build_address_space cidr d cx devices) status"
proof -
  note last = net_last_max [OF net]
  let ?space = "compose_space (hosts net) d cx devices"
  note ss = space_sets_status [OF last p leases marked, of cx] and cs = count_space_card [OF last, of _ d cx devices]
  have total: "host_total net = length (hosts net)" using p by (simp add: host_total_def hosts_def host_end_def host_lo_def)
  have len: "length ?space = length (hosts net)" by (simp add: compose_space_def)
  have "length (hosts net) = (\<Sum>s \<in> set all_statuses. card (with_status net d cx s))"
    using card_by_status [of net d cx] distinct_hosts [OF last] by (simp add: distinct_remdups_id)
  then have sum: "length (hosts net) = card (with_status net d cx ''available'') +
      (card (with_status net d cx ''reserved'') + card (with_status net d cx ''dynamic'') + card (with_status net d cx ''conflict'') +
       card (with_status net d cx ''infrastructure'') + card (with_status net d cx ''static'') + card (with_status net d cx ''planned''))"
    by (simp add: all_statuses_def)
  have cases: "ipam_summary net d cx s = card (with_status net d cx s)" if "s \<in> set all_statuses" for s
    using that sum by (auto simp: ipam_summary_def count_sets_def Let_def ss total all_statuses_def)
  have used: "ipam_summary net d cx ''used'' = length (hosts net) - card (with_status net d cx ''available'')"
    using sum by (simp add: ipam_summary_def count_sets_def Let_def ss total)
  have "count_space ?space ''used'' = length (hosts net) - count_space ?space ''available''"
    by (simp add: count_space_def Let_def len)
  then have "count_space ?space ''used'' = length (hosts net) - card (with_status net d cx ''available'')"
    using cs [of "''available''"] by simp
  moreover have "ipam_summary net d cx ''total'' = count_space ?space ''total''"
    by (simp add: ipam_summary_def count_sets_def count_space_def Let_def total len)
  moreover have "ipam_summary net d cx s = count_space ?space s" if "s \<in> set all_statuses" for s
    using cases [OF that] cs [of s] that by (auto simp: all_statuses_def)
  ultimately have "ipam_summary net d cx status = count_space ?space status" using status used by auto
  then show ?thesis by (simp add: build_address_space_def net)
qed

section \<open>Conflicts\<close>

lemma conflict_of_Some:
  "conflict_of d inside ip = Some row \<longleftrightarrow>
     (\<exists>e l. map_of (dt_entries d) ip = Some e \<and> map_of (dt_leases d) ip = Some l \<and> designated_status e \<in> set designated \<and> inside ip \<and>
        row = \<lparr>cf_ip = ip, cf_designated = designated_status e, cf_hostname = or_else (hd_hostname l) (ir_hostname e),
               cf_mac = or_else (hd_mac l) (ir_mac e)\<rparr>)"
  by (auto simp: conflict_of_def split: option.splits)

lemma map_filter_names:
  assumes "\<And>x y. f x = Some y \<Longrightarrow> g y = x"
  shows "map g (List.map_filter f xs) = filter (\<lambda>x. f x \<noteq> None) xs"
  using assms by (induction xs) (auto simp: map_filter_simps split: option.splits)

text \<open>
  The periodic check finds the conflicts of the page. For a subnet of more than two addresses, the
  addresses of the rows it reports are, each once, the hosts whose status in the address space is conflict: an
  active lease, no reservation, and an entry marked static or planned.
\<close>

theorem conflicts_exact:
  assumes net: "net_of_string cidr = Some net" and p: "snd net < 31"
  shows "set (map cf_ip (conflicts_in d (host_in_network net))) =
      {ip \<in> set (hosts net). ae_status (compose_entry d cx devices ip) = ''conflict''} \<and>
    distinct (map cf_ip (conflicts_in d (host_in_network net)))"
proof -
  let ?k = "sort_by address_le (filter (\<lambda>ip. ip \<notin> set (keys_of (dt_reservations d))) (remdups (keys_of (dt_leases d))))"
  have m: "map cf_ip (conflicts_in d (host_in_network net)) = filter (\<lambda>ip. conflict_of d (host_in_network net) ip \<noteq> None) ?k"
    unfolding conflicts_in_def by (rule map_filter_names) (auto simp: conflict_of_Some)
  have "conflict_of d (host_in_network net) ip \<noteq> None \<longleftrightarrow>
      map_of (dt_leases d) ip \<noteq> None \<and> is_marked d ip \<and> ip \<in> set (hosts net)" for ip
    using host_in_hosts [OF net_last_max [OF net] p, of ip]
    by (auto simp: conflict_of_def is_marked_def split: option.splits)
  moreover have "distinct ?k"
    by (simp add: distinct_filter mset_eq_imp_distinct_iff [OF mset_sort_by])
  ultimately show ?thesis
    unfolding m by (auto simp: compose_entry_status status_iff(3) keys_of_iff set_sort_by)
qed

section \<open>Small subnets and odd entries\<close>

text \<open>In a /31 both addresses are hosts of the page, and neither is one for the overview.\<close>

lemma point_to_point_uncounted:
  assumes "map_of (dt_reservations d) (int2ip 10) = Some r" and "dt_leases d = []" and "dt_entries d = []"
  shows "count_space (compose_space (hosts (10, 31)) d cx devices) ''reserved'' \<noteq> 0 \<and> ipam_summary (10, 31) d cx ''reserved'' = 0"
proof -
  have h: "hosts (10, 31) = [int2ip 10, int2ip 11]"
    by (simp add: hosts_def host_lo_def host_end_def net_first_def net_last_def upt_rec)
  have "ipam_status d cx (int2ip 10) = ''reserved''" using assms(1) by (simp add: ipam_status_def)
  then have "count_space (compose_space (hosts (10, 31)) d cx devices) ''reserved'' \<noteq> 0"
    by (simp add: count_space_def compose_space_def h compose_entry_status)
  moreover have "\<not> host_in_network (10, 31) ip" for ip
    by (auto simp: host_in_network_def ip_in_net_def net_first_def net_last_def split: option.splits)
  then have "Set.filter (host_in_network (10, 31)) S = {}" for S by auto
  then have "ipam_summary (10, 31) d cx ''reserved'' = 0"
    by (simp add: ipam_summary_def count_sets_def space_sets_of_def Let_def)
  ultimately show ?thesis by simp
qed

section \<open>A subnet with a lease, a reservation and two entries\<close>

definition wa_row :: "string \<Rightarrow> static_row" where
  "wa_row status = \<lparr>ir_label = ''rack'', ir_owner = [], ir_notes = [], ir_hostname = [], ir_mac = [], ir_is_static = False,
     ir_status = status\<rparr>"

definition wa_held :: held_row where
  "wa_held = \<lparr>hd_hostname = ''pc'', hd_mac = [], hd_host_id = None\<rparr>"

definition wa_data :: ipam_data where
  "wa_data = \<lparr>dt_leases = [(''0.0.0.10'', wa_held)], dt_reservations = [(''0.0.0.14'', wa_held)],
     dt_entries = [(''0.0.0.10'', wa_row ''static''), (''0.0.0.12'', wa_row ''planned'')]\<rparr>"

definition wa_ctx :: ipam_ctx where
  "wa_ctx = \<lparr>ix_pools = [(9, 11)], ix_infra = [(''0.0.0.9'', ''gateway'')]\<rparr>"

lemma wa_net: "net_of_string ''0.0.0.8/29'' = Some (8, 29)"
  by code_simp

lemma wa_hosts: "''0.0.0.10'' \<in> set (hosts (8, 29))" "''0.0.0.12'' \<in> set (hosts (8, 29))"
proof -
  have "ip_of_string ''0.0.0.10'' = Some 10" "ip_of_string ''0.0.0.12'' = Some 12" by code_simp+
  then have "int2ip 10 = ''0.0.0.10''" "int2ip 12 = ''0.0.0.12''" using int2ip_of_string by blast+
  then show "''0.0.0.10'' \<in> set (hosts (8, 29))" "''0.0.0.12'' \<in> set (hosts (8, 29))"
    by (force simp: hosts_def host_lo_def host_end_def net_first_def net_last_def)+
qed

lemma wa_marked: "designated_in wa_data = {''0.0.0.10'', ''0.0.0.12''}"
  by (auto simp: designated_in_def wa_data_def keys_of_def wa_row_def designated_status_def designated_def)

theorem lazy_page_exact_witness:
  "concat (map (unfold_row wa_data wa_ctx []) (build_rows_lazy (8, 29) wa_data wa_ctx [] None 4)) =
     build_address_space ''0.0.0.8/29'' wa_data wa_ctx ([] :: (string \<times> string) list)"
  using lazy_page_exact [OF wa_net, of wa_data wa_ctx "[]" None 4] by blast

theorem overview_counts_exact_witness:
  "ipam_summary (8, 29) wa_data wa_ctx ''conflict'' =
     count_space (build_address_space ''0.0.0.8/29'' wa_data wa_ctx ([] :: (string \<times> string) list)) ''conflict''"
proof (rule overview_counts_exact [OF wa_net])
  show "set (keys_of (dt_leases wa_data)) \<subseteq> set (hosts (8, 29))" using wa_hosts by (simp add: wa_data_def keys_of_def)
  show "designated_in wa_data \<subseteq> set (hosts (8, 29))" unfolding wa_marked using wa_hosts by simp
qed (simp_all add: all_statuses_def)

theorem conflicts_exact_witness:
  "set (map cf_ip (conflicts_in wa_data (host_in_network (8, 29)))) = {''0.0.0.10''}"
proof -
  have "{ip \<in> set (hosts (8, 29)). ae_status (compose_entry wa_data wa_ctx ([] :: (string \<times> string) list) ip) = ''conflict''} = {''0.0.0.10''}"
    using wa_hosts(1)
    by (auto simp: compose_entry_status status_iff wa_data_def is_marked_def wa_row_def designated_status_def designated_def
        split: if_splits)
  then show ?thesis using conflicts_exact [OF wa_net, of wa_data wa_ctx "[] :: (string \<times> string) list"] by simp
qed

end
