(* ===== verification/IpamEditProps.thy ===== *)
theory IpamEditProps
  imports IpamEdit AccessProps IpamProps
begin

text \<open>
  What holds of the plugin's tables whatever requests come in: no request marks an address Kea holds, every entry
  lies in a subnet that exists, a conflict is announced once while it lasts.
\<close>

section \<open>The table of entries\<close>

lemma load_entries_get: "map_of (load_entries s k sid) ip = map_of (st_entries s) (ip, k, sid)"
proof -
  have "map_of (List.map_filter (\<lambda>((ip, k', sid'), r). if k' = k \<and> sid' = sid then Some (ip, r) else None) xs) ip =
      map_of xs (ip, k, sid)" for xs :: "(ipam_key \<times> static_row) list"
    by (induction xs) (auto simp: map_filter_simps)
  then show ?thesis by (simp add: load_entries_def)
qed

definition is_designated :: "static_row option \<Rightarrow> bool" where
  "is_designated row = (case row of Some r \<Rightarrow> designated_status r \<in> set designated | None \<Rightarrow> False)"

lemma history_entries [simp]: "st_entries (record_history ip k sid a l ow act s) = st_entries s"
    "st_subnets (record_history ip k sid a l ow act s) = st_subnets s"
  by (simp_all add: record_history_def)

lemma upsert_get:
  "map_of (st_entries (upsert_entry ip k sid l ow n h m st s)) key =
     (if key = (ip, k, sid)
      then Some \<lparr>ir_label = l, ir_owner = ow, ir_notes = n, ir_hostname = h, ir_mac = m, ir_is_static = (st = ''static''), ir_status = st\<rparr>
      else map_of (st_entries s) key)"
  by (simp add: upsert_entry_def update_conv')

lemma delete_get: "map_of (st_entries (delete_row ip k sid s)) key = (if key = (ip, k, sid) then None else map_of (st_entries s) key)"
  by (simp add: delete_row_def delete_conv')

lemma row_subnets [simp]: "st_subnets (upsert_entry ip k sid l ow n h m st s) = st_subnets s" "st_subnets (delete_row ip k sid s) = st_subnets s"
  by (simp_all add: upsert_entry_def delete_row_def)

lemma designated_as:
  "is_designated (Some \<lparr>ir_label = l, ir_owner = ow, ir_notes = n, ir_hostname = h, ir_mac = m, ir_is_static = (st = ''static''), ir_status = st\<rparr>)
     \<longleftrightarrow> st \<in> set designated"
  by (auto simp: is_designated_def designated_status_def designated_def)

section \<open>Addresses Kea holds\<close>

definition held_in :: "kea_sets \<Rightarrow> string \<Rightarrow> bool" where
  "held_in ks ip = (map_of (ks_leases ks) ip \<noteq> None \<or> map_of (ks_reservations ks) ip \<noteq> None)"

text \<open>No address Kea holds is marked in the second table that was not marked in the first.\<close>

definition no_new_marks :: "(int \<Rightarrow> kea_sets) \<Rightarrow> ipam_store \<Rightarrow> ipam_store \<Rightarrow> bool" where
  "no_new_marks held s s' =
     (\<forall>sid ip. held_in (held sid) ip \<longrightarrow> is_designated (map_of (st_entries s') (ip, ''kea'', sid)) \<longrightarrow>
        is_designated (map_of (st_entries s) (ip, ''kea'', sid)))"

lemma no_new_refl [simp]: "no_new_marks held s s"
  by (simp add: no_new_marks_def)

text \<open>One row of the table is written, or taken out.\<close>

definition writes_at :: "ipam_key \<Rightarrow> static_row option \<Rightarrow> ipam_store \<Rightarrow> ipam_store \<Rightarrow> bool" where
  "writes_at key v s s' =
     (st_subnets s' = st_subnets s \<and> (\<forall>q. map_of (st_entries s') q = (if q = key then v else map_of (st_entries s) q)))"

lemma writes_upsert:
  "writes_at (ip, k, sid)
     (Some \<lparr>ir_label = l, ir_owner = ow, ir_notes = n, ir_hostname = h, ir_mac = m, ir_is_static = (st = ''static''), ir_status = st\<rparr>)
     s (record_history ip k sid a l' ow' act (upsert_entry ip k sid l ow n h m st s))"
  by (simp add: writes_at_def upsert_get)

lemma writes_delete: "writes_at (ip, k, sid) None s (record_history ip k sid a l' ow' act (delete_row ip k sid s))"
  by (simp add: writes_at_def delete_get)

lemma no_new_write:
  assumes "no_new_marks held s0 s" and "writes_at (ip, k, sid) v s s'"
    and "k = ''kea'' \<Longrightarrow> is_designated v \<Longrightarrow> held_in (held sid) ip \<Longrightarrow> is_designated (map_of (st_entries s0) (ip, ''kea'', sid))"
  shows "no_new_marks held s0 s'"
  using assms by (auto simp: no_new_marks_def writes_at_def)

lemma blocker_None:
  assumes "designation_blocker ip st (ks_leases ks) (ks_reservations ks) row = None" and "st \<in> set designated" and "held_in ks ip"
  shows "is_designated row"
  using assms by (auto simp: designation_blocker_def held_in_def is_designated_def split: if_splits option.splits)

lemma committed_cases: "committed b r s' s = (r', t) \<Longrightarrow> t = s \<or> t = s'"
  by (auto simp: committed_def split: if_splits)

section \<open>What each request does to the table\<close>

text \<open>A request either leaves the tables, or is about a subnet the caller may see, and writes there.\<close>

lemma for_writer_cases:
  assumes "for_writer kind sid c kea s body = Inr (r, s')"
  obtains (same) "s' = s"
  | (passed) cidr k where "map_of kind_db kind = Some k" "check_access kind sid c kea s = Inr (Some cidr)" "body cidr k = Inr (r, s')"
  using assms by (auto simp: for_writer_def rbind_eq_Inr split: if_splits option.splits)

lemma save_entry_cases:
  assumes "save_entry b kind sid c f ks kea s = Inr (r, s')"
  obtains (same) "s' = s"
  | (wrote) k cidr net a mac where "map_of kind_db kind = Some k" "check_access kind sid c kea s = Inr (Some cidr)"
      "net_of_string cidr = Some net" "ip_of_string (strip (fo_ip f)) = Some a" "ip_in_net a net"
      "kind = ''kea'' \<Longrightarrow> strip (fo_status f) \<in> set designated \<Longrightarrow>
         designation_blocker (strip (fo_ip f)) (strip (fo_status f)) (ks_leases ks) (ks_reservations ks)
           (map_of (st_entries s) (strip (fo_ip f), k, sid)) = None"
      "(r, s') = write_entry b k sid c f mac s"
  using assms unfolding save_entry_def
proof (cases rule: for_writer_cases)
  case (passed cidr k)
  note body = passed(3) [unfolded Let_def load_entries_get]
  show thesis
  proof (cases "ip_of_string (strip (fo_ip f))")
    case (Some a)
    show thesis
    proof (cases "net_of_string cidr")
      case (Some net)
      show thesis
      proof (cases "ip_in_net a net \<and> mac_or_empty (strip (fo_mac f)) \<noteq> None")
        case True
        then obtain mac where mac: "mac_or_empty (strip (fo_mac f)) = Some mac" "ip_in_net a net" by auto
        define st where "st = (if strip (fo_status f) \<in> set designated then strip (fo_status f) else ''available'')"
        define bl where "bl = (if kind = ''kea'' \<and> st \<in> set designated
            then designation_blocker (strip (fo_ip f)) st (ks_leases ks) (ks_reservations ks)
                   (map_of (load_entries s k sid) (strip (fo_ip f))) else None)"
        have run: "(case bl of Some x \<Rightarrow> Inr (Refused (blocker_text x), s) | None \<Rightarrow> Inr (write_entry b k sid c f mac s)) =
            (Inr (r, s') :: (ipam_reply \<times> ipam_store) res)"
          using passed(3) \<open>ip_of_string _ = Some a\<close> Some mac
          by (simp add: st_def [symmetric] bl_def [symmetric] del: load_entries_def)
        show thesis
        proof (cases bl)
          case None
          have w: "(r, s') = write_entry b k sid c f mac s" using run None by simp
          have bl0: "designation_blocker (strip (fo_ip f)) (strip (fo_status f)) (ks_leases ks) (ks_reservations ks)
              (map_of (st_entries s) (strip (fo_ip f), k, sid)) = None"
            if "kind = ''kea''" "strip (fo_status f) \<in> set designated"
            using None that by (simp add: bl_def st_def load_entries_get)
          show thesis by (rule wrote [OF passed(1,2) Some \<open>ip_of_string _ = Some a\<close> mac(2) bl0 w])
        qed (use run same in simp)
      qed (use body same \<open>ip_of_string _ = Some a\<close> Some in \<open>auto split: if_splits\<close>)
    qed (use body same Some in auto)
  qed (use body same in auto)
qed

lemma write_entry_result:
  assumes run: "(r, s') = write_entry b k sid c f mac s"
  shows "s' = s \<or> (\<exists>v. writes_at (strip (fo_ip f), k, sid) v s s' \<and> (is_designated v \<longrightarrow> strip (fo_status f) \<in> set designated))"
proof -
  define st where "st = (if strip (fo_status f) \<in> set designated then strip (fo_status f) else ''available'')"
  define cleared where "cleared = record_history (strip (fo_ip f)) k sid ''cleared'' [] [] (cr_name c) (delete_row (strip (fo_ip f)) k sid s)"
  define saved where "saved = record_history (strip (fo_ip f)) k sid (if st \<noteq> ''available'' then st else ''note'')
    (take_points 100 (strip (fo_label f))) (take_points 100 (strip (fo_owner f))) (cr_name c)
    (upsert_entry (strip (fo_ip f)) k sid (take_points 100 (strip (fo_label f))) (take_points 100 (strip (fo_owner f)))
       (strip (fo_notes f)) (take_points 255 (strip (fo_hostname f))) mac st s)"
  have "s' = s \<or> s' = cleared \<or> s' = saved"
    using run unfolding write_entry_def Let_def st_def [symmetric] cleared_def [symmetric] saved_def [symmetric]
    by (auto dest!: committed_cases [OF sym] split: if_splits)
  moreover have "writes_at (strip (fo_ip f), k, sid) None s cleared" unfolding cleared_def by (rule writes_delete)
  moreover have "\<exists>v. writes_at (strip (fo_ip f), k, sid) v s saved \<and> (is_designated v \<longrightarrow> strip (fo_status f) \<in> set designated)"
    unfolding saved_def by (intro exI conjI, rule writes_upsert) (simp add: designated_as st_def designated_def)
  moreover have "\<not> is_designated None" by (simp add: is_designated_def)
  ultimately show ?thesis by blast
qed

section \<open>The writes a request makes\<close>

definition subnet_cidr :: "kea_subnets \<Rightarrow> ipam_store \<Rightarrow> string \<Rightarrow> int \<Rightarrow> string option" where
  "subnet_cidr kea s k sid =
     (if k = ''kea'' then map_option snd (map_of kea sid)
      else if k = ''ipam'' then map_option un_cidr (map_of (st_subnets s) sid) else None)"

definition inside :: "kea_subnets \<Rightarrow> ipam_store \<Rightarrow> ipam_key \<Rightarrow> bool" where
  "inside kea s key =
     (case key of (ip, k, sid) \<Rightarrow>
        \<exists>cidr net a. subnet_cidr kea s k sid = Some cidr \<and> net_of_string cidr = Some net \<and> ip_of_string ip = Some a \<and> ip_in_net a net)"

lemma insideI:
  "subnet_cidr kea s k sid = Some cidr \<Longrightarrow> net_of_string cidr = Some net \<Longrightarrow> ip_of_string ip = Some a \<Longrightarrow> ip_in_net a net \<Longrightarrow>
     inside kea s (ip, k, sid)"
  unfolding inside_def prod.case by blast

definition allowed :: "kea_subnets \<Rightarrow> (int \<Rightarrow> kea_sets) \<Rightarrow> ipam_store \<Rightarrow> ipam_key \<Rightarrow> static_row option \<Rightarrow> bool" where
  "allowed kea held s key v =
     ((v \<noteq> None \<longrightarrow> inside kea s key) \<and>
      (case key of (ip, k, sid) \<Rightarrow>
         k = ''kea'' \<and> is_designated v \<and> held_in (held sid) ip \<longrightarrow> is_designated (map_of (st_entries s) key)))"

inductive writes_by :: "(ipam_key \<Rightarrow> static_row option \<Rightarrow> bool) \<Rightarrow> ipam_store \<Rightarrow> ipam_store \<Rightarrow> bool" for P where
  refl: "writes_by P s s"
| step: "writes_by P s t \<Longrightarrow> writes_at key v t u \<Longrightarrow> P key v \<Longrightarrow> writes_by P s u"

lemma writes_by_marks:
  assumes "writes_by P s0 s" and "\<And>key v. P key v \<Longrightarrow> allowed kea held s0 key v"
  shows "no_new_marks held s0 s"
  using assms
proof (induction rule: writes_by.induct)
  case (step s0 t key v u)
  obtain ip k sid where key: "key = (ip, k, sid)" by (cases key)
  show ?case
    by (rule no_new_write [OF step.IH [OF step.prems] step.hyps(2) [unfolded key]])
      (use step.prems [OF step.hyps(3)] in \<open>simp_all add: allowed_def key\<close>)
qed simp

definition entries_inside :: "kea_subnets \<Rightarrow> ipam_store \<Rightarrow> bool" where
  "entries_inside kea s = (\<forall>key. map_of (st_entries s) key \<noteq> None \<longrightarrow> inside kea s key)"

lemma inside_subnets: "st_subnets t = st_subnets s \<Longrightarrow> inside kea t key = inside kea s key"
  by (simp add: inside_def subnet_cidr_def)

lemma writes_by_inside:
  assumes "writes_by P s0 s" and "\<And>key v. P key v \<Longrightarrow> allowed kea held s0 key v" and "entries_inside kea s0"
  shows "entries_inside kea s \<and> st_subnets s = st_subnets s0"
  using assms
proof (induction rule: writes_by.induct)
  case (step s0 t key v u)
  then have t: "entries_inside kea t" "st_subnets t = st_subnets s0" and ok: "allowed kea held s0 key v" by blast+
  note w = step.hyps(2) [unfolded writes_at_def]
  have u: "st_subnets u = st_subnets t" using w by blast
  have get: "map_of (st_entries u) q = (if q = key then v else map_of (st_entries t) q)" for q using w by blast
  have "inside kea u q" if "map_of (st_entries u) q \<noteq> None" for q
  proof (cases "q = key")
    case True
    then show ?thesis using that ok get [of q] inside_subnets [of u s0 kea] t u by (simp add: allowed_def)
  next
    case False
    then have "inside kea t q" using that t(1) get [of q] unfolding entries_inside_def by metis
    then show ?thesis using inside_subnets [OF u, of kea] by simp
  qed
  then show ?case using t u by (simp add: entries_inside_def)
qed simp

lemma writes_once: "writes_at key v s s' \<Longrightarrow> P key v \<Longrightarrow> writes_by P s s'"
  by (rule writes_by.step [OF writes_by.refl])

lemma map_of_filter_key: "map_of (filter (\<lambda>kv. Q (fst kv)) m) k = (if Q k then map_of m k else None)"
  by (induction m) auto

lemma check_access_cidr:
  assumes "check_access kind sid c kea s = Inr (Some cidr)" and "map_of kind_db kind = Some k"
  shows "subnet_cidr kea s k sid = Some cidr"
proof (cases "kind = ''kea''")
  case True
  then have k: "k = ''kea''" using assms(2) by (simp add: kind_db_def)
  obtain m where m: "filter_subnet_map (cr_user c) kea = Inr m" and "map_option snd (map_of m sid) = Some cidr"
    using assms(1) True by (auto simp: check_access_def kind_db_def rbind_eq_Inr split: if_splits)
  then have "map_option snd (map_of kea sid) = Some cidr"
    unfolding filter_subnet_map_eq [OF m] map_of_filter_key [of "\<lambda>i. can_access_subnet (cr_user c) i = Inr True" kea]
    by (simp split: if_splits)
  then show ?thesis by (simp add: subnet_cidr_def k)
next
  case False
  then have k: "k = ''ipam''" "kind = ''u''" using assms(2) by (auto simp: kind_db_def split: if_splits)
  then show ?thesis using assms(1) by (auto simp: check_access_def kind_db_def subnet_cidr_def split: if_splits)
qed

lemma save_entry_writes:
  assumes run: "save_entry b kind sid c f (held sid) kea s = Inr (r, s')"
  shows "writes_by (allowed kea held s) s s'"
  using run
proof (cases rule: save_entry_cases)
  case (wrote k cidr net a mac)
  have kk: "k = ''kea'' \<longleftrightarrow> kind = ''kea''" using wrote(1) by (auto simp: kind_db_def split: if_splits)
  show ?thesis
    using write_entry_result [OF wrote(7)]
  proof (elim disjE exE conjE)
    fix v
    assume w: "writes_at (strip (fo_ip f), k, sid) v s s'" and st: "is_designated v \<longrightarrow> strip (fo_status f) \<in> set designated"
    have "inside kea s (strip (fo_ip f), k, sid)"
      by (rule insideI [OF check_access_cidr [OF wrote(2,1)] wrote(3-5)])
    moreover have "is_designated (map_of (st_entries s) (strip (fo_ip f), k, sid))"
      if "k = ''kea''" "is_designated v" "held_in (held sid) (strip (fo_ip f))"
      using that wrote(6) kk st blocker_None by blast
    ultimately have "allowed kea held s (strip (fo_ip f), k, sid) v" by (simp add: allowed_def)
    then show ?thesis by (rule writes_once [OF w])
  qed (simp add: writes_by.refl)
qed (simp add: writes_by.refl)

lemma allowed_None: "allowed kea held s key None"
  by (simp add: allowed_def is_designated_def split: prod.split)

lemma delete_entry_writes:
  assumes "delete_entry b kind sid c raw kea s = Inr (r, s')"
  shows "writes_by (allowed kea held s) s s'"
  using assms unfolding delete_entry_def
proof (cases rule: for_writer_cases)
  case (passed cidr k)
  then have "s' = s \<or> s' = record_history (strip raw) k sid ''removed'' [] [] (cr_name c) (delete_row (strip raw) k sid s)"
    by (auto simp: committed_def Let_def split: if_splits)
  then show ?thesis using writes_once [OF writes_delete] allowed_None writes_by.refl by blast
qed (simp add: writes_by.refl)

lemma range_loop_writes:
  assumes "\<And>ip v. ip \<in> set ips \<Longrightarrow> (is_designated v \<longrightarrow> action \<noteq> ''clear'') \<Longrightarrow> P (ip, k, sid) v" and "writes_by P s0 s"
  shows "writes_by P s0 (range_loop action k sid l ow act ips s)"
  using assms
proof (induction ips arbitrary: s)
  case (Cons ip ips)
  have "writes_by P s0 (if action = ''clear'' then record_history ip k sid ''cleared'' [] [] act (delete_row ip k sid s)
        else record_history ip k sid action l ow act (upsert_entry ip k sid l ow [] [] [] action s))"
  proof (cases "action = ''clear''")
    case True
    have "P (ip, k, sid) None" using Cons.prems(1) [of ip None] by (simp add: is_designated_def)
    then show ?thesis using writes_by.step [OF Cons.prems(2) writes_delete] True by simp
  next
    case False
    then show ?thesis using writes_by.step [OF Cons.prems(2) writes_upsert] Cons.prems(1) [of ip] by simp
  qed
  then show ?case using Cons.IH Cons.prems(1) by simp
qed simp

lemma range_addresses_inside:
  assumes "range_addresses net a b = Inr ips" and "ip \<in> set ips" and "net_last net \<le> ipv4_max"
  shows "\<exists>n. ip_of_string ip = Some n \<and> ip_in_net n net"
proof -
  obtain x y where xy: "ip_in_net x net" "ip_in_net y net"
    and ips: "ips = map int2ip (filter (\<lambda>n. \<not> (snd net < 31 \<and> (n = net_first net \<or> n = net_last net))) [x..<Suc y])"
    using assms(1) by (auto simp: range_addresses_def simp del: upt_Suc split: option.splits if_splits)
  then obtain n where "x \<le> n" "n \<le> y" and ip: "ip = int2ip n" using assms(2) by auto
  then have "ip_in_net n net" using xy by (simp add: ip_in_net_def)
  moreover have "n \<le> ipv4_max" using calculation assms(3) by (simp add: ip_in_net_def)
  ultimately show ?thesis using ip ip_of_int2ip by blast
qed

lemma range_action_writes:
  assumes run: "range_action b kind sid c act0 x y l ow (held sid) kea s = Inr (r, s')"
  shows "writes_by (allowed kea held s) s s'"
  using run unfolding range_action_def
proof (cases rule: for_writer_cases)
  case (passed cidr k)
  have kk: "k = ''kea'' \<longleftrightarrow> kind = ''kea''" using passed(1) by (auto simp: kind_db_def split: if_splits)
  define taken where "taken = (\<lambda>ip. kind = ''kea'' \<and> strip act0 \<noteq> ''clear'' \<and>
    (map_of (ks_leases (held sid)) ip \<noteq> None \<or> map_of (ks_reservations (held sid)) ip \<noteq> None))"
  note body = passed(3) [unfolded Let_def]
  show ?thesis
  proof (cases "net_of_string cidr")
    case (Some net)
    show ?thesis
    proof (cases "range_addresses net x y")
      case (Inr ips)
      have "s' = s \<or> s' = range_loop (strip act0) k sid (take_points 100 (strip l)) (take_points 100 (strip ow)) (cr_name c)
          (filter (\<lambda>ip. \<not> taken ip) ips) s"
        using body Some Inr by (auto simp: committed_def taken_def split: if_splits)
      moreover have "writes_by (allowed kea held s) s (range_loop (strip act0) k sid (take_points 100 (strip l))
          (take_points 100 (strip ow)) (cr_name c) (filter (\<lambda>ip. \<not> taken ip) ips) s)"
      proof (rule range_loop_writes [OF _ writes_by.refl])
        fix ip and v :: "static_row option"
        assume ip: "ip \<in> set (filter (\<lambda>ip. \<not> taken ip) ips)" and v: "is_designated v \<longrightarrow> strip act0 \<noteq> ''clear''"
        obtain n where "ip_of_string ip = Some n" "ip_in_net n net"
          using range_addresses_inside [OF Inr _ net_last_max [OF Some], of ip] ip by auto
        then have "inside kea s (ip, k, sid)" by (rule insideI [OF check_access_cidr [OF passed(2,1)] Some])
        moreover have "\<not> (k = ''kea'' \<and> is_designated v \<and> held_in (held sid) ip)"
          using ip v kk by (auto simp: held_in_def taken_def)
        ultimately show "allowed kea held s (ip, k, sid) v" unfolding allowed_def prod.case by blast
      qed
      ultimately show ?thesis using writes_by.refl by metis
    qed (use body Some writes_by.refl in \<open>auto split: if_splits\<close>)
  qed (use body writes_by.refl in \<open>auto split: if_splits\<close>)
qed (simp add: writes_by.refl)

lemma import_row_writes:
  assumes run: "import_row k sid act net ks existing row s = Some s'"
    and net: "net_of_string cidr = Some net" and cidr: "subnet_cidr kea s0 k sid = Some cidr"
    and existing: "\<And>ip. map_of existing ip = map_of (st_entries s0) (ip, k, sid)"
    and ks: "k = ''kea'' \<Longrightarrow> ks = held sid"
    and before: "writes_by (allowed kea held s0) s0 s"
  shows "writes_by (allowed kea held s0) s0 s'"
proof -
  let ?ip = "strip (str_of_json (jget_default row ''ip'' (JStr [])))"
  obtain a l ow n h m st where a: "ip_of_string ?ip = Some a" "ip_in_net a net"
    and bl: "designation_blocker ?ip st (ks_leases ks) (ks_reservations ks) (map_of existing ?ip) = None"
    and s': "s' = record_history ?ip k sid ''import'' l ow act (upsert_entry ?ip k sid l ow n h m st s)"
    using run by (auto simp: import_row_def Let_def split: if_splits option.splits)
  have "inside kea s0 (?ip, k, sid)" by (rule insideI [OF cidr net a])
  moreover have "is_designated (map_of (st_entries s0) (?ip, k, sid))"
    if "k = ''kea''" "st \<in> set designated" "held_in (held sid) ?ip"
    using blocker_None [OF bl that(2)] that ks existing by simp
  ultimately show ?thesis
    unfolding s' by (intro writes_by.step [OF before writes_upsert]) (auto simp: allowed_def designated_as)
qed

lemma import_loop_writes:
  assumes "import_loop k sid act net ks existing rows i j s = (i', j', s')"
    and net: "net_of_string cidr = Some net" and cidr: "subnet_cidr kea s0 k sid = Some cidr"
    and existing: "\<And>ip. map_of existing ip = map_of (st_entries s0) (ip, k, sid)"
    and ks: "k = ''kea'' \<Longrightarrow> ks = held sid"
    and before: "writes_by (allowed kea held s0) s0 s"
  shows "writes_by (allowed kea held s0) s0 s'"
  using assms(1) before
proof (induction rows arbitrary: i j s)
  case (Cons row rows)
  show ?case
  proof (cases "import_row k sid act net ks existing row s")
    case None
    then show ?thesis using Cons by simp
  next
    case (Some t)
    have "writes_by (allowed kea held s0) s0 t"
      by (rule import_row_writes [OF Some net cidr]) (use existing ks Cons.prems(2) in simp_all)
    then show ?thesis using Cons Some by simp
  qed
qed simp

lemma import_commit_writes:
  assumes run: "import_commit b kind sid c payload (held sid) kea s = Inr (r, s')"
  shows "writes_by (allowed kea held s) s s'"
  using run unfolding import_commit_def
proof (cases rule: for_writer_cases)
  case (passed cidr k)
  have kk: "k = ''kea'' \<longleftrightarrow> kind = ''kea''" using passed(1) by (auto simp: kind_db_def split: if_splits)
  define ks where "ks = (if kind = ''kea'' then held sid else \<lparr>ks_leases = [], ks_reservations = []\<rparr>)"
  show ?thesis
  proof (cases "\<exists>rows net. payload = Some (JList rows) \<and> net_of_string cidr = Some net")
    case True
    then obtain rows net where p: "payload = Some (JList rows)" "net_of_string cidr = Some net" by blast
    obtain i j t where loop: "import_loop k sid (cr_name c) net ks (load_entries s k sid) (take import_max_rows rows) 0 0 s = (i, j, t)"
      by (cases "import_loop k sid (cr_name c) net ks (load_entries s k sid) (take import_max_rows rows) 0 0 s") auto
    have "s' = s \<or> s' = t"
      using passed(3) loop by (auto simp: p ks_def committed_def split: if_splits)
    moreover have "writes_by (allowed kea held s) s t"
      by (rule import_loop_writes [OF loop p(2) check_access_cidr [OF passed(2,1)] load_entries_get _ writes_by.refl])
        (simp add: ks_def kk)
    ultimately show ?thesis using writes_by.refl by metis
  next
    case False
    then have "s' = s" using passed(3) by (auto split: option.splits json.splits)
    then show ?thesis by (simp add: writes_by.refl)
  qed
qed (simp add: writes_by.refl)

lemma api_save_writes:
  assumes "api_save_entry b loads key name body held kea s = (r, s')"
  shows "writes_by (allowed kea held s) s s'"
proof (cases "s' = s")
  case False
  obtain sid where sid: "int_of_json (jget body ''subnet_id'') = Inr sid"
    using assms False by (auto simp: api_save_entry_def split: sum.splits)
  obtain cidr where cidr: "api_subnet loads key sid kea = Inr cidr"
    using assms False sid by (cases "api_subnet loads key sid kea") (auto simp: api_save_entry_def)
  then have cidr': "subnet_cidr kea s ''kea'' sid = Some cidr"
    by (auto simp: api_subnet_def subnet_cidr_def split: if_splits option.splits)
  let ?ip = "str_field body ''ip'' None"
  obtain a net where an: "ip_of_string ?ip = Some a" "net_of_string cidr = Some net"
    using assms False sid cidr by (auto simp: api_save_entry_def Let_def split: option.splits)
  obtain st where st: "jget_default body ''status'' (JStr ''static'') = JStr st" "ip_in_net a net" "st \<in> set designated"
    using assms False sid cidr an
    by (cases "jget_default body ''status'' (JStr ''static'')") (auto simp: api_save_entry_def Let_def split: if_splits)
  have bl: "designation_blocker ?ip st (ks_leases (held sid)) (ks_reservations (held sid)) (map_of (st_entries s) (?ip, ''kea'', sid)) = None"
    using assms False sid cidr an st by (auto simp: api_save_entry_def Let_def load_entries_get split: option.splits)
  obtain l ow n h m act where s': "s' = record_history ?ip ''kea'' sid st l ow act (upsert_entry ?ip ''kea'' sid l ow n h m st s)"
    using assms False sid cidr an st bl by (auto simp: api_save_entry_def Let_def load_entries_get split: if_splits)
  have "is_designated (map_of (st_entries s) (?ip, ''kea'', sid))" if "held_in (held sid) ?ip"
    by (rule blocker_None [OF bl st(3) that])
  then have "allowed kea held s (?ip, ''kea'', sid)
      (Some \<lparr>ir_label = l, ir_owner = ow, ir_notes = n, ir_hostname = h, ir_mac = m, ir_is_static = (st = ''static''), ir_status = st\<rparr>)"
    using insideI [OF cidr' an(2,1) st(2)] by (simp add: allowed_def)
  then show ?thesis unfolding s' by (rule writes_once [OF writes_upsert])
qed (simp add: writes_by.refl)

section \<open>Every request\<close>

text \<open>\<open>held\<close> is what Kea holds of each subnet when the request reads it.\<close>

inductive ipam_step :: "kea_subnets \<Rightarrow> (int \<Rightarrow> kea_sets) \<Rightarrow> ipam_store \<Rightarrow> ipam_store \<Rightarrow> bool" for kea held where
  saved: "save_entry b kind sid c f (held sid) kea s = Inr (r, s') \<Longrightarrow> ipam_step kea held s s'"
| removed: "delete_entry b kind sid c raw kea s = Inr (r, s') \<Longrightarrow> ipam_step kea held s s'"
| ranged: "range_action b kind sid c action x y l ow (held sid) kea s = Inr (r, s') \<Longrightarrow> ipam_step kea held s s'"
| imported: "import_commit b kind sid c payload (held sid) kea s = Inr (r, s') \<Longrightarrow> ipam_step kea held s s'"
| by_api: "api_save_entry b loads key name body held kea s = (r', s') \<Longrightarrow> ipam_step kea held s s'"
| subnet_added: "add_subnet b i c u kea s = (r, s') \<Longrightarrow> ipam_step kea held s s'"
| subnet_deleted: "delete_subnet b sid c s = (r, s') \<Longrightarrow> ipam_step kea held s s'"
| checked: "check_conflicts b kea held s = (alerts, s') \<Longrightarrow> ipam_step kea held s s'"

lemma map_of_filter_entries:
  "map_of (filter (\<lambda>((ip, k, i), r). k = ''ipam'' \<longrightarrow> i \<noteq> sid) m) (ip, k, i) =
     (if k = ''ipam'' \<and> i = sid then None else map_of m (ip, k, i))"
  by (induction m) auto

lemma step_cases:
  assumes "ipam_step kea held s s'"
  shows "writes_by (allowed kea held s) s s' \<or>
    (st_entries s' = st_entries s \<and> (\<exists>i u. st_subnets s' = st_subnets s @ [(i, u)])) \<or>
    (\<exists>sid. st_subnets s' = AList.delete sid (st_subnets s) \<and>
       st_entries s' = filter (\<lambda>((ip, k, i), r). \<not> (k = ''ipam'' \<and> i = sid)) (st_entries s)) \<or>
    (st_entries s' = st_entries s \<and> st_subnets s' = st_subnets s)"
  using assms
proof cases
  case subnet_added
  then have "s' = s \<or> (\<exists>i u. s' = s\<lparr>st_subnets := st_subnets s @ [(i, u)]\<rparr>)"
    by (auto simp: add_subnet_def committed_def Let_def split: if_splits option.splits)
  then show ?thesis by auto
next
  case (subnet_deleted b sid c r)
  then have "s' = s \<or> s' = s\<lparr>st_entries := filter (\<lambda>((ip, k, i), r). \<not> (k = ''ipam'' \<and> i = sid)) (st_entries s),
      st_history := filter (\<lambda>h. \<not> (hy_kind h = ''ipam'' \<and> hy_subnet h = sid)) (st_history s),
      st_subnets := AList.delete sid (st_subnets s)\<rparr>"
    by (auto simp: delete_subnet_def committed_def split: if_splits)
  then show ?thesis by auto
next
  case checked
  then have "st_entries s' = st_entries s \<and> st_subnets s' = st_subnets s"
    by (auto simp: check_conflicts_def Let_def split: prod.splits if_splits)
  then show ?thesis by blast
qed (blast intro: save_entry_writes delete_entry_writes range_action_writes import_commit_writes api_save_writes)+


definition empty_store :: ipam_store where
  "empty_store = \<lparr>st_entries = [], st_history = [], st_subnets = [], st_conflicts = []\<rparr>"


section \<open>The alerts\<close>

lemma alert_new_facts:
  "alert_new cs known = (al, known') \<Longrightarrow>
     set known' = set known \<union> conflict_key ` set cs \<and> distinct (map conflict_key al) \<and>
     conflict_key ` set al = conflict_key ` set cs - set known"
proof (induction cs known arbitrary: al known' rule: alert_new.induct)
  case (2 c cs known)
  show ?case
  proof (cases "conflict_key c \<in> set known")
    case True
    have "alert_new cs known = (al, known')" using "2.prems" True by simp
    note ih = "2.IH"(1) [OF True this]
    moreover have "set known \<union> conflict_key ` set (c # cs) = set known \<union> conflict_key ` set cs"
      "conflict_key ` set (c # cs) - set known = conflict_key ` set cs - set known"
      using True by auto
    ultimately show ?thesis by presburger
  next
    case False
    then obtain al1 where al1: "alert_new cs (known @ [conflict_key c]) = (al1, known')" "al = c # al1"
      using "2.prems" by (auto split: prod.splits)
    have ih: "set known' = set (known @ [conflict_key c]) \<union> conflict_key ` set cs" "distinct (map conflict_key al1)"
      "conflict_key ` set al1 = conflict_key ` set cs - set (known @ [conflict_key c])"
      using "2.IH"(2) [OF False al1(1)] by blast+
    have "conflict_key c \<notin> conflict_key ` set al1" unfolding ih(3) by simp
    then have "distinct (map conflict_key al)" using ih(2) by (simp add: al1(2))
    moreover have "set known' = set known \<union> conflict_key ` set (c # cs)" unfolding ih(1) by simp
    moreover have "conflict_key ` set al = conflict_key ` set (c # cs) - set known"
      unfolding al1(2) list.set image_insert ih(3) using False by auto
    ultimately show ?thesis by blast
  qed
qed simp

text \<open>
  A conflict is announced once while it lasts. A check sends one alert for each conflict it finds and did not
  know, and none for another; when it has gone through, what it knows is exactly what it found, so the next
  check is silent about a conflict that is still there and alerts again about one that went and came back.
\<close>

theorem conflict_announced_once:
  assumes "check_conflicts goes_through kea held s = (alerts, s')"
  shows "distinct (map conflict_key alerts) \<and>
    set (map conflict_key alerts) = set (map conflict_key (kea_conflicts s kea held)) - set (st_conflicts s) \<and>
    set (st_conflicts s') =
      (if goes_through then set (map conflict_key (kea_conflicts s kea held)) else set (st_conflicts s))"
proof -
  obtain al known where a: "alert_new (kea_conflicts s kea held) (st_conflicts s) = (al, known)" by fastforce
  note f = alert_new_facts [OF a]
  have "alerts = al" "s' = (if goes_through
      then s\<lparr>st_conflicts := filter (\<lambda>k. k \<in> set (map conflict_key (kea_conflicts s kea held))) known\<rparr> else s)"
    using assms a by (simp_all add: check_conflicts_def Let_def)
  then show ?thesis using f by auto
qed

text \<open>
  When Kea's database cannot be read the two sets are empty, and the check that follows forgets every conflict:
  the next one that can read announces all of them again.
\<close>

lemma outage_forgets_conflicts:
  assumes "\<And>sid. held sid = load_kea_sets cidr None rows" and "check_conflicts True kea held s = (alerts, s')"
  shows "alerts = [] \<and> st_conflicts s' = []"
proof -
  have "conflicts_in \<lparr>dt_leases = [], dt_reservations = rs, dt_entries = es\<rparr> f = []" for rs es f
    by (simp add: conflicts_in_def keys_of_def sort_by_def map_filter_simps)
  then have "kea_conflicts s kea held = []"
    by (auto simp: kea_conflicts_def subnet_conflicts_def assms(1) load_kea_sets_def Let_def split: option.split)
  then show ?thesis using assms(2) by (auto simp: check_conflicts_def)
qed

section \<open>A designated address\<close>

definition we_kea :: kea_subnets where
  "we_kea = [(1, ''lab'', ''0.0.0.8/29'')]"

definition we_held :: "int \<Rightarrow> kea_sets" where
  "we_held sid = \<lparr>ks_leases = [(''0.0.0.9'', \<lparr>hd_hostname = [], hd_mac = [], hd_host_id = None\<rparr>)], ks_reservations = []\<rparr>"

definition we_free :: "int \<Rightarrow> kea_sets" where
  "we_free sid = \<lparr>ks_leases = [], ks_reservations = []\<rparr>"

definition we_caller :: caller where
  "we_caller = \<lparr>cr_user = \<lparr>us_role = ''superadmin'', us_access = None\<rparr>, cr_name = ''ann''\<rparr>"

definition we_form :: "string \<Rightarrow> entry_form" where
  "we_form label = \<lparr>fo_ip = ''0.0.0.9'', fo_label = label, fo_owner = [], fo_notes = [], fo_hostname = [], fo_mac = [], fo_status = ''planned''\<rparr>"

definition we_first :: "(ipam_reply \<times> ipam_store) res" where
  "we_first = save_entry True ''kea'' 1 we_caller (we_form ''a'') (we_free 1) we_kea empty_store"

definition we_store :: ipam_store where
  "we_store = (case we_first of Inr (r, s) \<Rightarrow> s | Inl e \<Rightarrow> empty_store)"

lemma we_first_saved: "(case we_first of Inr (r, s) \<Rightarrow> is_designated (map_of (load_entries s ''kea'' 1) ''0.0.0.9'') | Inl e \<Rightarrow> False)"
  by code_simp

lemma we_first_run: "\<exists>r. we_first = Inr (r, we_store) \<and> is_designated (map_of (load_entries we_store ''kea'' 1) ''0.0.0.9'')"
proof -
  obtain r s where s: "we_first = Inr (r, s)" "is_designated (map_of (load_entries s ''kea'' 1) ''0.0.0.9'')"
    using we_first_saved by (auto split: sum.splits prod.splits)
  have "we_store = s" unfolding we_store_def s(1) by simp
  then show ?thesis using s by blast
qed

lemma we_step: "ipam_step we_kea we_free empty_store we_store"
  using we_first_run ipam_step.saved unfolding we_first_def by metis


text \<open>A client takes a lease on the planned address; its label can still be changed.\<close>

definition we_second :: "(ipam_reply \<times> ipam_store) res" where
  "we_second = save_entry True ''kea'' 1 we_caller (we_form ''b'') (we_held 1) we_kea we_store"

lemma we_second_saved: "(case we_second of Inr (r, s) \<Rightarrow> is_designated (map_of (load_entries s ''kea'' 1) ''0.0.0.9'') | Inl e \<Rightarrow> False)"
  by code_simp


lemma we_alerts:
  "(case check_conflicts True we_kea we_held we_store of (alerts, s) \<Rightarrow> map conflict_key alerts) = [(''0.0.0.9'', ''kea'', 1)]"
  by code_simp

theorem conflict_announced_once_witness:
  "\<exists>alerts s. check_conflicts True we_kea we_held we_store = (alerts, s) \<and> map conflict_key alerts = [(''0.0.0.9'', ''kea'', 1)] \<and>
     (''0.0.0.9'', ''kea'', 1) \<in> set (map conflict_key (kea_conflicts we_store we_kea we_held))"
proof -
  obtain alerts s where c: "check_conflicts True we_kea we_held we_store = (alerts, s)" by fastforce
  then have a: "map conflict_key alerts = [(''0.0.0.9'', ''kea'', 1)]" using we_alerts by simp
  have "set (map conflict_key alerts) \<subseteq> set (map conflict_key (kea_conflicts we_store we_kea we_held))"
    using conflict_announced_once [OF c] by blast
  then have "(''0.0.0.9'', ''kea'', 1) \<in> set (map conflict_key (kea_conflicts we_store we_kea we_held))" unfolding a by simp
  then show ?thesis using c a by metis
qed

end
