(* ===== verification/Releases.thy ===== *)
theory Releases
  imports PyConv "HOL-Library.Product_Lexorder"
begin

text \<open>
  Which release the root updater installs, \<open>jen-update-root.py\<close>: Jen's version grammar and order
  (\<open>parse_version\<close>, shared with \<open>jen/version.py\<close>), the release picked for a channel (\<open>pick_release\<close>), the
  guard against going back, and the checks of a download against the signed checksum file
  (\<open>verify_release_checksum\<close>). The answers of GitHub, the signature check of \<open>ssh-keygen\<close> and the hash
  are parameters.
\<close>

section \<open>Versions\<close>

text \<open>The components of a version and its rank: 0 for a beta, 1 for a release candidate, 2 for a final release.\<close>

type_synonym version = "nat \<times> nat \<times> nat \<times> nat \<times> nat"

definition after_prefix :: "string \<Rightarrow> string \<Rightarrow> string option" where
  "after_prefix p s = (if has_prefix p s then Some (drop (length p) s) else None)"

definition number_prefix :: "string \<Rightarrow> (nat \<times> string) option" where
  "number_prefix s =
     (if takeWhile is_digit s = [] then None
      else Some (dec_val (takeWhile is_digit s), dropWhile is_digit s))"

definition final_rank :: nat where
  "final_rank = 2"

definition pre_rank :: "(string \<times> nat) list" where
  "pre_rank = [(''beta'', 0), (''rc'', 1)]"

text \<open>The optional \<open>-beta.N\<close> or \<open>-rc.N\<close> up to the end of the string.\<close>

definition version_tail :: "string \<Rightarrow> (nat \<times> nat) option" where
  "version_tail s =
     (if s = [] then Some (final_rank, 0)
      else case find (\<lambda>(kind, r). has_prefix (''-'' @ kind @ ''.'') s) pre_rank of
             None \<Rightarrow> None
           | Some (kind, r) \<Rightarrow>
               (case number_prefix (drop (length kind + 2) s) of
                  Some (n, []) \<Rightarrow> Some (r, n)
                | _ \<Rightarrow> None))"

definition match_version :: "string \<Rightarrow> version option" where
  "match_version s =
     Option.bind (number_prefix s) (\<lambda>(x, s). Option.bind (after_prefix ''.'' s) (\<lambda>s.
     Option.bind (number_prefix s) (\<lambda>(y, s). Option.bind (after_prefix ''.'' s) (\<lambda>s.
     Option.bind (number_prefix s) (\<lambda>(z, s). Option.bind (version_tail s) (\<lambda>(r, n). Some (x, y, z, r, n)))))))"

definition no_version :: version where
  "no_version = (0, 0, 0, 0, 0)"

definition parse_version :: "string \<Rightarrow> version" where
  "parse_version v = (case match_version (strip v) of None \<Rightarrow> no_version | Some k \<Rightarrow> k)"

definition version_triple :: "string \<Rightarrow> nat \<times> nat \<times> nat" where
  "version_triple v = (case parse_version v of (x, y, z, r, n) \<Rightarrow> (x, y, z))"

definition is_prerelease :: "string \<Rightarrow> bool" where
  "is_prerelease v =
     (case parse_version v of (x, y, z, r, n) \<Rightarrow> r \<noteq> final_rank \<and> parse_version v \<noteq> no_version)"

text \<open>A version in the words of the grammar.\<close>

definition show_version :: "version \<Rightarrow> string" where
  "show_version v =
     (case v of (x, y, z, r, n) \<Rightarrow>
        show_nat x @ ''.'' @ show_nat y @ ''.'' @ show_nat z @
        (if r = 0 then ''-beta.'' @ show_nat n else if r = 1 then ''-rc.'' @ show_nat n else []))"

definition wf_version :: "version \<Rightarrow> bool" where
  "wf_version v = (case v of (x, y, z, r, n) \<Rightarrow> r \<le> final_rank \<and> (r = final_rank \<longrightarrow> n = 0))"

section \<open>Channels and the release to install\<close>

definition channels :: "string list" where
  "channels = [''stable'', ''beta'']"

text \<open>\<open>_update_channel\<close>: the value of the option, \<open>None\<close> when the file or the option cannot be read.\<close>

definition update_channel :: "string option \<Rightarrow> string" where
  "update_channel setting =
     (case setting of
        None \<Rightarrow> ''stable''
      | Some v \<Rightarrow> (if lower (strip v) \<in> set channels then lower (strip v) else ''stable''))"

definition tag_version :: "json \<Rightarrow> version" where
  "tag_version rel = parse_version (dropWhile (\<lambda>c. c = CHR ''v'') (str_of_json (jget_default rel ''tag_name'' (JStr []))))"

definition usable :: "string \<Rightarrow> json \<Rightarrow> bool" where
  "usable channel rel =
     (is_dict rel \<and> \<not> truthy (jget rel ''draft'') \<and>
      \<not> (channel \<noteq> ''beta'' \<and> truthy (jget rel ''prerelease'')) \<and> tag_version rel \<noteq> no_version)"

fun better :: "string \<Rightarrow> json option \<Rightarrow> json list \<Rightarrow> json option" where
  "better channel best [] = best"
| "better channel best (rel # rest) =
     better channel
       (if \<not> usable channel rel then best
        else case best of
               None \<Rightarrow> Some rel
             | Some b \<Rightarrow> (if tag_version rel > tag_version b then Some rel else best)) rest"

definition pick_release :: "json \<Rightarrow> string \<Rightarrow> json option res" where
  "pick_release releases channel = rbind (iter_or_empty releases) (\<lambda>rels. Inr (better channel None rels))"

definition is_downgrade :: "string \<Rightarrow> string \<Rightarrow> bool" where
  "is_downgrade installed candidate =
     (parse_version installed \<noteq> no_version \<and> parse_version candidate < parse_version installed)"

section \<open>The download and its checksum\<close>

text \<open>\<open>str.splitlines\<close> on its ASCII line ends and \<open>str.split\<close> without a separator.\<close>

definition line_end :: "char \<Rightarrow> bool" where
  "line_end c = (ord_of c \<in> {10, 11, 12, 13, 28, 29, 30})"

fun chop_lines :: "string \<Rightarrow> string \<Rightarrow> string list" where
  "chop_lines acc [] = (if acc = [] then [] else [rev acc])"
| "chop_lines acc (c # s) =
     (if line_end c then rev acc # chop_lines [] (if ord_of c = 13 \<and> s \<noteq> [] \<and> ord_of (hd s) = 10 then tl s else s)
      else chop_lines (c # acc) s)"

definition splitlines :: "string \<Rightarrow> string list" where
  "splitlines s = chop_lines [] s"

fun chop_words :: "string \<Rightarrow> string \<Rightarrow> string list" where
  "chop_words acc [] = (if acc = [] then [] else [rev acc])"
| "chop_words acc (c # s) =
     (if is_space c then (if acc = [] then chop_words [] s else rev acc # chop_words [] s)
      else chop_words (c # acc) s)"

definition words_of :: "string \<Rightarrow> string list" where
  "words_of s = chop_words [] s"

definition expected_hash :: "string \<Rightarrow> string \<Rightarrow> string option" where
  "expected_hash name checksums =
     map_option (\<lambda>line. lower (hd (words_of line)))
       (find (\<lambda>line. length (words_of line) = 2 \<and> dropWhile (\<lambda>c. c = CHR ''*'') (words_of line ! 1) = name)
         (splitlines checksums))"

definition verify_release_checksum :: "string \<Rightarrow> string \<Rightarrow> string \<Rightarrow> bool" where
  "verify_release_checksum name actual checksums = (expected_hash name checksums = Some actual)"

end
