(* ===== verification/FileTree.thy ===== *)
theory FileTree
  imports Prelude
begin

text \<open>
  The file system as the root updater sees it: a path names a file, a directory or a symbolic link, and the
  functions of \<open>os\<close> and \<open>shutil\<close> the updater calls. A link is followed once. A call can fail: an operation
  that is not atomic leaves part of its work behind, and what it leaves is a parameter of the caller.
\<close>

type_synonym fpath = "string list"

datatype node = File string | Folder | Symlink fpath

type_synonym disk = "(fpath \<times> node) list"

definition under :: "fpath \<Rightarrow> fpath \<Rightarrow> bool" where
  "under p q = (take (length p) q = p)"

definition dget :: "disk \<Rightarrow> fpath \<Rightarrow> node option" where
  "dget d p = map_of d p"

definition followed :: "disk \<Rightarrow> fpath \<Rightarrow> node option" where
  "followed d p = (case dget d p of Some (Symlink t) \<Rightarrow> dget d t | n \<Rightarrow> n)"

definition path_exists :: "disk \<Rightarrow> fpath \<Rightarrow> bool" where
  "path_exists d p = (followed d p \<noteq> None)"

definition is_folder :: "disk \<Rightarrow> fpath \<Rightarrow> bool" where
  "is_folder d p = (followed d p = Some Folder)"

definition is_file :: "disk \<Rightarrow> fpath \<Rightarrow> bool" where
  "is_file d p = (case followed d p of Some (File c) \<Rightarrow> True | _ \<Rightarrow> False)"

definition is_symlink :: "disk \<Rightarrow> fpath \<Rightarrow> bool" where
  "is_symlink d p = (case dget d p of Some (Symlink t) \<Rightarrow> True | _ \<Rightarrow> False)"

definition file_content :: "disk \<Rightarrow> fpath \<Rightarrow> string" where
  "file_content d p = (case followed d p of Some (File c) \<Rightarrow> c | _ \<Rightarrow> [])"

definition put_node :: "fpath \<Rightarrow> node \<Rightarrow> disk \<Rightarrow> disk" where
  "put_node p n d = AList.update p n d"

definition drop_node :: "fpath \<Rightarrow> disk \<Rightarrow> disk" where
  "drop_node p d = filter (\<lambda>(q, n). q \<noteq> p) d"

text \<open>Removing a tree, as far as it can be removed; moving one; copying one, links as links.\<close>

definition remove_tree :: "(fpath \<Rightarrow> bool) \<Rightarrow> fpath \<Rightarrow> disk \<Rightarrow> disk" where
  "remove_tree stays p d = (if is_symlink d p then d else filter (\<lambda>(q, n). \<not> under p q \<or> stays q) d)"

definition tree_left :: "(fpath \<Rightarrow> bool) \<Rightarrow> fpath \<Rightarrow> disk \<Rightarrow> bool" where
  "tree_left stays p d = (is_symlink d p \<or> list_ex (\<lambda>(q, n). under p q \<and> stays q) d)"

definition move_tree :: "fpath \<Rightarrow> fpath \<Rightarrow> disk \<Rightarrow> disk" where
  "move_tree p p' d =
     map (\<lambda>(q, n). (p' @ drop (length p) q, n)) (filter (\<lambda>(q, n). under p q) d) @
     filter (\<lambda>(q, n). \<not> under p q \<and> \<not> under p' q) d"

definition copy_tree :: "(fpath \<Rightarrow> bool) \<Rightarrow> fpath \<Rightarrow> fpath \<Rightarrow> disk \<Rightarrow> disk" where
  "copy_tree done_of p p' d =
     (let base = (case dget d p of Some (Symlink t) \<Rightarrow> t | _ \<Rightarrow> p)
      in map (\<lambda>(q, n). (p' @ drop (length base) q, n)) (filter (\<lambda>(q, n). under base q \<and> done_of q) d) @
         filter (\<lambda>(q, n). \<not> under p' q) d)"

definition list_dir :: "disk \<Rightarrow> fpath \<Rightarrow> string list" where
  "list_dir d p = remdups (map (\<lambda>(q, n). last q) (filter (\<lambda>(q, n). under p q \<and> length q = length p + 1) d))"

definition make_dirs :: "fpath \<Rightarrow> disk \<Rightarrow> disk" where
  "make_dirs p d =
     foldl (\<lambda>d i. if dget d (take i p) = None then put_node (take i p) Folder d else d) d [1..<Suc (length p)]"

section \<open>What an operation leaves alone\<close>

text \<open>Two disks agree on every path that satisfies \<open>P\<close>.\<close>

definition agree :: "(fpath \<Rightarrow> bool) \<Rightarrow> disk \<Rightarrow> disk \<Rightarrow> bool" where
  "agree P d d' = (\<forall>q. P q \<longrightarrow> dget d' q = dget d q)"

named_theorems untouched \<open>paths an operation of the file system leaves alone\<close>

lemma agree_refl [intro!, simp]: "agree P d d"
  by (simp add: agree_def)

lemma agree_trans: "agree P d e \<Longrightarrow> agree P e f \<Longrightarrow> agree P d f"
  by (simp add: agree_def)

lemma agree_mono: "agree P d e \<Longrightarrow> (\<And>q. Q q \<Longrightarrow> P q) \<Longrightarrow> agree Q d e"
  by (auto simp: agree_def)

lemma agreeD: "agree P d e \<Longrightarrow> P q \<Longrightarrow> dget e q = dget d q"
  by (simp add: agree_def)

lemma under_refl [simp]: "under p p"
  by (simp add: under_def)

lemma under_append [simp]: "under p (p @ q)"
  by (simp add: under_def)

lemma under_iff: "under p q \<longleftrightarrow> (\<exists>r. q = p @ r)"
  by (metis append_take_drop_id under_append under_def)

lemma under_trans: "under p q \<Longrightarrow> under q r \<Longrightarrow> under p r"
  by (auto simp: under_iff)

lemma map_of_filter_fst: "map_of (filter (\<lambda>(q, n). P q) d) p = (if P p then map_of d p else None)"
  by (induction d) auto

lemma dget_put [simp]: "dget (put_node p n d) q = (if q = p then Some n else dget d q)"
  by (simp add: dget_def put_node_def update_conv')

lemma dget_drop [simp]: "dget (drop_node p d) q = (if q = p then None else dget d q)"
  by (simp add: dget_def drop_node_def map_of_filter_fst)

lemma dget_remove_tree:
  "dget (remove_tree stays p d) q = (if is_symlink d p \<or> \<not> under p q \<or> stays q then dget d q else None)"
  by (simp add: dget_def remove_tree_def map_of_filter_fst)

lemma map_of_moved_out: "\<not> under p' q \<Longrightarrow> map_of (map (\<lambda>(q, n). (p' @ f q, n)) d) q = None"
  by (induction d) (auto simp: under_iff)

lemma map_of_moved_in:
  "\<forall>(q, n) \<in> set d. under p q \<Longrightarrow>
   map_of (map (\<lambda>(q, n). (p' @ drop (length p) q, n)) d) (p' @ r) = map_of d (p @ r)"
  by (induction d) (auto simp: under_iff)

lemma dget_move_tree:
  "dget (move_tree p p' d) q =
     (if under p' q then dget d (p @ drop (length p') q) else if under p q then None else dget d q)"
proof (cases "under p' q")
  case True
  then obtain r where r: "q = p' @ r" by (auto simp: under_iff)
  have "map_of (map (\<lambda>(q, n). (p' @ drop (length p) q, n)) (filter (\<lambda>(q, n). under p q) d)) (p' @ r) =
      map_of (filter (\<lambda>(q, n). under p q) d) (p @ r)"
    by (rule map_of_moved_in) auto
  then show ?thesis
    using True by (simp add: dget_def move_tree_def map_add_def r map_of_filter_fst split: option.split)
next
  case False
  then show ?thesis
    by (simp add: dget_def move_tree_def map_add_def map_of_moved_out map_of_filter_fst)
qed

lemma dget_copy_tree:
  assumes "\<not> is_symlink d p"
  shows "dget (copy_tree done_of p p' d) q =
    (if under p' q then (if done_of (p @ drop (length p') q) then dget d (p @ drop (length p') q) else None) else dget d q)"
proof -
  have base: "(case dget d p of Some (Symlink t) \<Rightarrow> t | _ \<Rightarrow> p) = p"
    using assms by (auto simp: is_symlink_def split: option.splits node.splits)
  show ?thesis
  proof (cases "under p' q")
    case True
    then obtain r where r: "q = p' @ r" by (auto simp: under_iff)
    have "map_of (map (\<lambda>(q, n). (p' @ drop (length p) q, n)) (filter (\<lambda>(q, n). under p q \<and> done_of q) d)) (p' @ r) =
        map_of (filter (\<lambda>(q, n). under p q \<and> done_of q) d) (p @ r)"
      by (rule map_of_moved_in) auto
    then show ?thesis
      using True unfolding copy_tree_def base
      by (simp add: dget_def map_add_def r map_of_filter_fst Let_def split: option.split)
  next
    case False
    then show ?thesis
      unfolding copy_tree_def base
      by (simp add: dget_def map_add_def map_of_moved_out map_of_filter_fst Let_def)
  qed
qed

lemma make_dirs_gets: "dget d q \<noteq> None \<Longrightarrow> dget (make_dirs p d) q = dget d q"
proof -
  have "dget d q \<noteq> None \<longrightarrow>
      dget (foldl (\<lambda>d i. if dget d (take i p) = None then put_node (take i p) Folder d else d) d is) q = dget d q" for "is"
    by (induction "is" arbitrary: d) auto
  then show "dget d q \<noteq> None \<Longrightarrow> ?thesis" by (simp add: make_dirs_def)
qed

lemma agree_put [untouched]: "\<not> P p \<Longrightarrow> agree P d (put_node p n d)"
  by (auto simp: agree_def)

lemma agree_drop [untouched]: "\<not> P p \<Longrightarrow> agree P d (drop_node p d)"
  by (auto simp: agree_def)

lemma agree_remove [untouched]: "(\<And>q. under p q \<Longrightarrow> \<not> P q) \<Longrightarrow> agree P d (remove_tree stays p d)"
  by (auto simp: agree_def dget_remove_tree)

lemma agree_move [untouched]:
  "(\<And>q. under p q \<Longrightarrow> \<not> P q) \<Longrightarrow> (\<And>q. under p' q \<Longrightarrow> \<not> P q) \<Longrightarrow> agree P d (move_tree p p' d)"
  by (auto simp: agree_def dget_move_tree)

lemma agree_copy [untouched]: "(\<And>q. under p' q \<Longrightarrow> \<not> P q) \<Longrightarrow> agree P d (copy_tree done_of p p' d)"
proof -
  assume a: "\<And>q. under p' q \<Longrightarrow> \<not> P q"
  have "dget (copy_tree done_of p p' d) q = dget d q" if "P q" for q
  proof -
    have "\<not> under p' q" using a that by blast
    then show ?thesis
      by (simp add: dget_def copy_tree_def Let_def map_add_def map_of_moved_out map_of_filter_fst)
  qed
  then show ?thesis by (simp add: agree_def)
qed

lemma agree_make_dirs [untouched]: "(\<And>i. \<not> P (take i p)) \<Longrightarrow> agree P d (make_dirs p d)"
proof -
  assume a: "\<And>i. \<not> P (take i p)"
  have "agree P d (foldl (\<lambda>d i. if dget d (take i p) = None then put_node (take i p) Folder d else d) d is)" for "is"
  proof (induction "is" arbitrary: d)
    case (Cons i rest)
    have "agree P d (put_node (take i p) Folder d)" using a by (intro agree_put) simp
    then show ?case using Cons agree_trans by auto
  qed simp
  then show ?thesis by (simp add: make_dirs_def)
qed

end
