(* ===== verification/Updater.thy ===== *)
theory Updater
  imports Releases FileTree
begin

text \<open>
  The root updater \<open>jen-update-root.py\<close> from the answer of GitHub to the restarted service: the pruning of old
  releases, the choice and the verification of the release, the staging directory, the snapshot, the switch of
  the link \<open>current\<close> and the way back when anything fails after it.

  A path is a list of names, a link is written with the path it resolves to. Parameters (\<open>upd_env\<close>) are what
  the script asks of others: the network, the hash, \<open>ssh-keygen\<close>, \<open>tarfile\<close>, \<open>venv\<close> and \<open>pip\<close>, \<open>visudo\<close>,
  \<open>systemctl\<close>, the health probe, the clock and the times of directories, which calls of the file system fail
  and what a failing call leaves behind.
\<close>

section \<open>The environment and the machine\<close>

datatype upd_exc = OSError | RuntimeError | CalledProcessError | TarError | Uncaught exc

datatype member_kind = Regular | Directory | Special

type_synonym member = "string \<times> member_kind \<times> string"

record upd_env =
  ue_app :: fpath
  ue_config :: fpath
  ue_data :: fpath
  ue_channel :: "string option"
  ue_json :: "string \<Rightarrow> json option"
  ue_text :: "string \<Rightarrow> string option"
  ue_bytes :: "string \<Rightarrow> string option"
  ue_sha :: "string \<Rightarrow> string"
  ue_signed :: "string \<Rightarrow> string \<Rightarrow> string \<Rightarrow> bool"
  ue_tar :: "string \<Rightarrow> member list option"
  ue_venv :: "disk option"
  ue_pip :: bool
  ue_staged :: bool
  ue_probe :: bool
  ue_healthy :: "string \<Rightarrow> bool"
  ue_answers :: "nat \<Rightarrow> string option"
  ue_visudo :: "string \<Rightarrow> bool"
  ue_time :: "string \<Rightarrow> nat"
  ue_mtime :: "string \<Rightarrow> fpath \<Rightarrow> nat"
  ue_fails :: "string \<Rightarrow> fpath \<Rightarrow> bool"
  ue_partial :: "fpath \<Rightarrow> string"
  ue_copied :: "fpath \<Rightarrow> bool"
  ue_stays :: "fpath \<Rightarrow> bool"

text \<open>The disk, and the directory the running service was started from.\<close>

record machine =
  mc_disk :: disk
  mc_served :: fpath

type_synonym 'a upd = "(upd_exc + 'a) \<times> machine"

definition sbind :: "('e + 'a) \<times> 's \<Rightarrow> ('a \<Rightarrow> 's \<Rightarrow> ('e + 'b) \<times> 's) \<Rightarrow> ('e + 'b) \<times> 's" where
  "sbind m k = (case m of (Inl e, s) \<Rightarrow> (Inl e, s) | (Inr x, s) \<Rightarrow> k x s)"

lemma sbind_cong [fundef_cong]:
  "m = m' \<Longrightarrow> (\<And>x s. m' = (Inr x, s) \<Longrightarrow> k x s = k' x s) \<Longrightarrow> sbind m k = sbind m' k'"
  by (auto simp: sbind_def split: sum.splits prod.splits)

fun each :: "('a \<Rightarrow> 's \<Rightarrow> ('e + unit) \<times> 's) \<Rightarrow> 'a list \<Rightarrow> 's \<Rightarrow> ('e + unit) \<times> 's" where
  "each f [] s = (Inr (), s)"
| "each f (x # xs) s = sbind (f x s) (\<lambda>u. each f xs)"

definition on_disk :: "(disk \<Rightarrow> disk) \<Rightarrow> machine \<Rightarrow> machine" where
  "on_disk f m = m\<lparr>mc_disk := f (mc_disk m)\<rparr>"

text \<open>An atomic call, a write that truncates its file first, and the removal of a tree that must succeed.\<close>

definition call_os :: "upd_env \<Rightarrow> string \<Rightarrow> fpath \<Rightarrow> (disk \<Rightarrow> disk) \<Rightarrow> machine \<Rightarrow> unit upd" where
  "call_os env call p f m = (if ue_fails env call p then (Inl OSError, m) else (Inr (), on_disk f m))"

definition write_file :: "upd_env \<Rightarrow> string \<Rightarrow> fpath \<Rightarrow> string \<Rightarrow> machine \<Rightarrow> unit upd" where
  "write_file env call p content m =
     (if ue_fails env call p then (Inl OSError, on_disk (put_node p (File (ue_partial env p))) m)
      else (Inr (), on_disk (put_node p (File content)) m))"

definition copy_file :: "upd_env \<Rightarrow> string \<Rightarrow> fpath \<Rightarrow> fpath \<Rightarrow> machine \<Rightarrow> unit upd" where
  "copy_file env call p p' m =
     (if is_file (mc_disk m) p then write_file env call p' (file_content (mc_disk m) p) m else (Inl OSError, m))"

definition rmtree :: "upd_env \<Rightarrow> fpath \<Rightarrow> machine \<Rightarrow> unit upd" where
  "rmtree env p m =
     (if tree_left (ue_stays env) p (mc_disk m) then Inl OSError else Inr (),
      on_disk (remove_tree (ue_stays env) p) m)"

definition rmtree_quiet :: "upd_env \<Rightarrow> fpath \<Rightarrow> machine \<Rightarrow> machine" where
  "rmtree_quiet env p m = on_disk (remove_tree (ue_stays env) p) m"

text \<open>\<open>contextlib.suppress(OSError)\<close> around a call.\<close>

definition suppressed :: "'a upd \<Rightarrow> machine" where
  "suppressed r = snd r"

section \<open>Places\<close>

definition releases_dir :: "upd_env \<Rightarrow> fpath" where
  "releases_dir env = ue_app env @ [''releases'']"

definition current_link :: "upd_env \<Rightarrow> fpath" where
  "current_link env = ue_app env @ [''current'']"

definition ext_items :: "(fpath \<times> string) list" where
  "ext_items =
     [([''etc'', ''systemd'', ''system'', ''jen.service''], ''jen.service''),
      ([''etc'', ''sudoers.d'', ''jen''], ''sudoers-jen''),
      ([''usr'', ''local'', ''sbin'', ''jen-update-root.py''], ''jen-update-root.py''),
      ([''etc'', ''systemd'', ''system'', ''jen-update.service''], ''jen-update.service''),
      ([''etc'', ''systemd'', ''system'', ''jen-plugin-install.service''], ''jen-plugin-install.service'')]"

definition rollback_items :: "string list" where
  "rollback_items =
     [''jen'', ''run.py'', ''templates'', ''static'', ''plugins'', ''requirements.txt'', ''CHANGELOG.md'', ''jen-kea-helper'']"

definition flat_leftovers :: "string list" where
  "flat_leftovers = rollback_items @ [''venv'']"

definition link_name :: "disk \<Rightarrow> fpath \<Rightarrow> string option" where
  "link_name d p = (case dget d p of Some (Symlink t) \<Rightarrow> Some (last t) | _ \<Rightarrow> None)"

text \<open>Where a path leads that goes through the link \<open>current\<close>.\<close>

definition through_current :: "upd_env \<Rightarrow> disk \<Rightarrow> fpath \<Rightarrow> fpath option" where
  "through_current env d rest = (case dget d (current_link env) of Some (Symlink t) \<Rightarrow> Some (t @ rest) | _ \<Rightarrow> None)"

section \<open>The installed version\<close>

definition strip_quotes :: "string \<Rightarrow> string" where
  "strip_quotes s =
     (let drop_them = dropWhile (\<lambda>c. c \<in> {CHR 0x22, CHR 0x27}) in rev (drop_them (rev (drop_them s))))"

definition version_line :: "string \<Rightarrow> string res option" where
  "version_line content =
     map_option (\<lambda>line. if CHR ''='' \<in> set line then Inr (strip_quotes (strip (snd (partition_on ''='' line)))) else Inl IndexError)
       (find (\<lambda>line. has_prefix ''JEN_VERSION'' line) (split_on (CHR 0x0A) content))"

fun first_version :: "disk \<Rightarrow> fpath list \<Rightarrow> string res" where
  "first_version d [] = Inr ''?''"
| "first_version d (p # ps) =
     (if is_file d p
      then (case version_line (file_content d p) of Some r \<Rightarrow> r | None \<Rightarrow> first_version d ps)
      else first_version d ps)"

definition installed_version :: "upd_env \<Rightarrow> disk \<Rightarrow> string res" where
  "installed_version env d =
     first_version d
       ((case through_current env d [''app'', ''jen'', ''__init__.py''] of None \<Rightarrow> [] | Some p \<Rightarrow> [p]) @
        [ue_app env @ [''jen'', ''__init__.py'']])"

section \<open>Pruning\<close>

definition keep_marker :: string where
  "keep_marker = ''.keep''"

definition prune_staging :: "upd_env \<Rightarrow> string \<Rightarrow> string \<Rightarrow> machine \<Rightarrow> machine" where
  "prune_staging env phase name m =
     (let path = releases_dir env @ [name]
      in if ue_time env phase - ue_mtime env phase path > 86400 then rmtree_quiet env path m else m)"

text \<open>The loop over the release directories, newest first, with \<open>kept_one_other\<close>.\<close>

fun prune_loop :: "upd_env \<Rightarrow> string option \<Rightarrow> bool \<Rightarrow> string list \<Rightarrow> machine \<Rightarrow> machine" where
  "prune_loop env live kept [] m = m"
| "prune_loop env live kept (name # names) m =
     (let path = releases_dir env @ [name]; d = mc_disk m
      in if Some name = live then prune_loop env live kept names m
         else if path_exists d (path @ [keep_marker]) then prune_loop env live kept names m
         else if \<not> path_exists d (path @ [''.failed'']) \<and> \<not> kept then prune_loop env live True names m
         else prune_loop env live kept names (rmtree_quiet env path m))"

definition prune_snapshot :: "upd_env \<Rightarrow> string \<Rightarrow> machine \<Rightarrow> machine" where
  "prune_snapshot env name m =
     (if path_exists (mc_disk m) (ue_app env @ [name, keep_marker]) then m
      else rmtree_quiet env (ue_app env @ [name]) m)"

definition newer_first :: "(fpath \<Rightarrow> nat) \<Rightarrow> fpath \<Rightarrow> string list \<Rightarrow> string list" where
  "newer_first mtime dir names = sort_by (\<lambda>a b. mtime (dir @ [b]) \<le> mtime (dir @ [a])) names"

definition prune_old_releases :: "upd_env \<Rightarrow> string \<Rightarrow> machine \<Rightarrow> machine" where
  "prune_old_releases env phase m =
     (let live = link_name (mc_disk m) (current_link env);
          names = list_dir (mc_disk m) (releases_dir env);
          m1 = fold (prune_staging env phase) (filter (contains ''.staging-'') names) m;
          dirs = filter (\<lambda>n. \<not> contains ''.staging-'' n \<and> is_folder (mc_disk m) (releases_dir env @ [n]) \<and>
                             \<not> is_symlink (mc_disk m) (releases_dir env @ [n])) names;
          m2 = prune_loop env live False (newer_first (ue_mtime env phase) (releases_dir env) dirs) m1;
          snaps = sort_by str_le (filter (has_prefix ''.rollback-'') (list_dir (mc_disk m2) (ue_app env)))
      in fold (prune_snapshot env) (butlast snaps) m2)"

section \<open>The verified download\<close>

text \<open>What a step decides: an exception nobody catches, an exit code, or a value to go on with.\<close>

type_synonym 'a decision = "(upd_exc + nat) + 'a"

definition raised :: "'a res \<Rightarrow> 'a decision" where
  "raised r = (case r of Inl e \<Rightarrow> Inl (Inl (Uncaught e)) | Inr x \<Rightarrow> Inr x)"

definition exit_with :: "nat \<Rightarrow> 'a decision" where
  "exit_with code = Inl (Inr code)"

definition github_releases_api :: string where
  "github_releases_api = ''https://api.github.com/repos/ltkojak/jen-kea/releases?per_page=30''"

definition github_asset_prefix :: string where
  "github_asset_prefix = ''https://github.com/ltkojak/jen-kea/releases/download/''"

definition tag_text :: "json \<Rightarrow> string res" where
  "tag_text rel = (case jget_default rel ''tag_name'' (JStr []) of JStr t \<Rightarrow> Inr t | _ \<Rightarrow> Inl AttributeError)"

definition chosen_release :: "upd_env \<Rightarrow> string res \<Rightarrow> (string \<times> json) decision" where
  "chosen_release env installed =
     (case ue_json env github_releases_api of
        None \<Rightarrow> Inl (Inl RuntimeError)
      | Some data \<Rightarrow>
          rbind (raised (pick_release data (update_channel (ue_channel env)))) (\<lambda>rel.
          case rel of
            None \<Rightarrow> exit_with 1
          | Some rel \<Rightarrow>
              rbind (raised (tag_text rel)) (\<lambda>tag.
              let version = dropWhile (\<lambda>c. c = CHR ''v'') tag
              in if version = [] then exit_with 1
                 else rbind (raised installed) (\<lambda>have_now.
                      if have_now = version then exit_with 0
                      else if is_downgrade have_now version then exit_with 0
                      else Inr (version, rel)))))"

definition subscript :: "json \<Rightarrow> string \<Rightarrow> json res" where
  "subscript v k =
     (case v of JObj d \<Rightarrow> (case map_of d k of Some x \<Rightarrow> Inr x | None \<Rightarrow> Inl KeyError) | _ \<Rightarrow> Inl TypeError)"

definition text_value :: "json \<Rightarrow> string res" where
  "text_value v = (case v of JStr s \<Rightarrow> Inr s | _ \<Rightarrow> Inl AttributeError)"

fun find_asset :: "(string \<Rightarrow> bool) \<Rightarrow> json list \<Rightarrow> json res" where
  "find_asset wanted [] = Inr (JStr [])"
| "find_asset wanted (a # rest) =
     rbind (subscript a ''name'') (\<lambda>n. rbind (text_value n) (\<lambda>name.
     if wanted name then subscript a ''browser_download_url'' else find_asset wanted rest))"

definition ends_with :: "string \<Rightarrow> string \<Rightarrow> bool" where
  "ends_with suffix s = (drop (length s - length suffix) s = suffix \<and> length suffix \<le> length s)"

definition is_tarball_name :: "string \<Rightarrow> bool" where
  "is_tarball_name name = (ends_with ''.tar.gz'' name \<and> contains ''jen-v'' name)"

definition is_checksum_name :: "string \<Rightarrow> bool" where
  "is_checksum_name name = (lower name \<in> {''sha256sums'', ''sha256sums.txt'', ''checksums.txt''})"

definition is_signature_name :: "string \<Rightarrow> bool" where
  "is_signature_name name = (lower name \<in> {''sha256sums.sig'', ''sha256sums.txt.sig'', ''checksums.txt.sig''})"

text \<open>An address is followed only when it is a download link of the repository.\<close>

definition asset_link :: "json \<Rightarrow> string decision" where
  "asset_link url =
     (if \<not> truthy url then exit_with 1
      else rbind (raised (text_value url)) (\<lambda>u. if has_prefix github_asset_prefix u then Inr u else exit_with 1))"

definition fetched :: "string option \<Rightarrow> string decision" where
  "fetched answer = (case answer of None \<Rightarrow> exit_with 1 | Some t \<Rightarrow> Inr t)"

definition release_namespace :: string where
  "release_namespace = ''jen-release''"

definition helper_namespace :: string where
  "helper_namespace = ''jen-kea-helper''"

definition verified_tarball :: "upd_env \<Rightarrow> json list \<Rightarrow> string decision" where
  "verified_tarball env assets =
     rbind (raised (find_asset is_tarball_name assets)) (\<lambda>v. rbind (asset_link v) (\<lambda>asset_url.
     rbind (raised (find_asset is_checksum_name assets)) (\<lambda>v. rbind (asset_link v) (\<lambda>checksum_url.
     rbind (raised (find_asset is_signature_name assets)) (\<lambda>v. rbind (asset_link v) (\<lambda>sig_url.
     rbind (fetched (ue_text env checksum_url)) (\<lambda>checksums.
     rbind (fetched (ue_text env sig_url)) (\<lambda>signature.
     if \<not> ue_signed env release_namespace checksums signature then exit_with 1
     else case ue_bytes env asset_url of
            None \<Rightarrow> Inl (Inl RuntimeError)
          | Some tarball \<Rightarrow>
              (if verify_release_checksum (last_piece (CHR ''/'') asset_url) (ue_sha env tarball) checksums
               then Inr tarball else exit_with 1)))))))))"

section \<open>The staging directory\<close>

text \<open>\<open>os.path.join\<close> of a member's name to a directory: an absolute name wins.\<close>

definition name_parts :: "string \<Rightarrow> fpath" where
  "name_parts name = filter (\<lambda>p. p \<noteq> [] \<and> p \<noteq> ''.'') (split_on (CHR ''/'') name)"

definition member_path :: "fpath \<Rightarrow> string \<Rightarrow> fpath" where
  "member_path dest name = (if has_prefix ''/'' name then name_parts name else dest @ name_parts name)"

definition accepted_member :: "member \<Rightarrow> bool" where
  "accepted_member mem =
     (case mem of (name, kind, content) \<Rightarrow>
        has_prefix ''jen/'' name \<and> \<not> contains ''..'' name \<and> \<not> has_prefix ''/'' name \<and> kind \<noteq> Special \<and>
        drop 4 name \<noteq> [])"

definition extract_member :: "upd_env \<Rightarrow> fpath \<Rightarrow> member \<Rightarrow> machine \<Rightarrow> unit upd" where
  "extract_member env dest mem m =
     (case mem of (name, kind, content) \<Rightarrow>
        let p = member_path dest (drop 4 name)
        in if kind = Directory then call_os env ''mkdir'' p (make_dirs p) m
           else sbind (call_os env ''mkdir'' (butlast p) (make_dirs (butlast p)) m) (\<lambda>u. write_file env ''extract'' p content))"

definition extract_release :: "upd_env \<Rightarrow> string \<Rightarrow> fpath \<Rightarrow> machine \<Rightarrow> unit upd" where
  "extract_release env tarball dest m =
     sbind (call_os env ''mkdir'' dest (make_dirs dest) m) (\<lambda>u m.
     case ue_tar env tarball of
       None \<Rightarrow> (Inl TarError, m)
     | Some members \<Rightarrow> each (extract_member env dest) (filter accepted_member members) m)"

definition helper_sig_max :: nat where
  "helper_sig_max = 8 * 1024"

text \<open>\<open>fetch_bytes_bounded\<close>: \<open>None\<close> when it raises.\<close>

definition fetch_bytes_bounded :: "upd_env \<Rightarrow> string \<Rightarrow> nat \<Rightarrow> string option" where
  "fetch_bytes_bounded env url max_bytes =
     (case ue_bytes env url of None \<Rightarrow> None | Some b \<Rightarrow> (if length b > max_bytes then None else Some b))"

fun helper_sig_url :: "json list \<Rightarrow> json res" where
  "helper_sig_url [] = Inr (JStr [])"
| "helper_sig_url (a # rest) =
     rbind (py_get a ''name'') (\<lambda>n.
     if py_eq n (JStr ''jen-kea-helper.sig'') then Inr (jget_default a ''browser_download_url'' (JStr [])) else helper_sig_url rest)"

definition install_kea_helper_signature :: "upd_env \<Rightarrow> fpath \<Rightarrow> json list \<Rightarrow> machine \<Rightarrow> unit upd" where
  "install_kea_helper_signature env app_dir assets m =
     (let helper = app_dir @ [''jen-kea-helper'']
      in if \<not> is_file (mc_disk m) helper then (Inr (), m)
         else case rbind (helper_sig_url assets) (\<lambda>v. if truthy v then rbind (text_value v) (\<lambda>u. Inr (Some u)) else Inr None) of
                Inl e \<Rightarrow> (Inl (Uncaught e), m)
              | Inr None \<Rightarrow> (Inr (), m)
              | Inr (Some url) \<Rightarrow>
                  (if \<not> has_prefix github_asset_prefix url then (Inr (), m)
                   else case fetch_bytes_bounded env url helper_sig_max of
                          None \<Rightarrow> (Inr (), m)
                        | Some sig \<Rightarrow>
                            (if \<not> ue_signed env helper_namespace (file_content (mc_disk m) helper) sig then (Inr (), m)
                             else write_file env ''helper-sig'' (app_dir @ [''jen-kea-helper.sig'']) sig m)))"

definition install_python_dependencies :: "upd_env \<Rightarrow> fpath \<Rightarrow> machine \<Rightarrow> bool" where
  "install_python_dependencies env requirements m = (is_file (mc_disk m) requirements \<longrightarrow> ue_pip env)"

definition place_venv :: "fpath \<Rightarrow> disk \<Rightarrow> disk \<Rightarrow> disk" where
  "place_venv venv_dir files d = fold (\<lambda>(p, n). put_node (venv_dir @ p) n) files (put_node venv_dir Folder d)"

text \<open>Everything that happens under the staging directory: \<open>Some\<close> exit code, or \<open>None\<close> to go on.\<close>

definition stage_release :: "upd_env \<Rightarrow> string \<Rightarrow> json list \<Rightarrow> fpath \<Rightarrow> machine \<Rightarrow> nat option upd" where
  "stage_release env tarball assets staging m =
     sbind (extract_release env tarball (staging @ [''app'']) m) (\<lambda>u m.
     if \<not> is_folder (mc_disk m) (staging @ [''app'', ''jen'']) then (Inr (Some 1), m)
     else sbind (install_kea_helper_signature env (staging @ [''app'']) assets m) (\<lambda>u m.
     case ue_venv env of
       None \<Rightarrow> (Inr (Some 1), m)
     | Some files \<Rightarrow>
         let m = on_disk (place_venv (staging @ [''venv'']) files) m
         in if \<not> install_python_dependencies env (staging @ [''app'', ''requirements.txt'']) m then (Inr (Some 1), m)
            else if \<not> ue_staged env then (Inr (Some 1), m)
            else if \<not> ue_probe env then (Inr (Some 1), m)
            else (Inr None, m)))"

section \<open>The snapshot\<close>

text \<open>\<open>_copy_any\<close>: what stood at the target goes first, a directory is copied with its links as links.\<close>

definition copy_any :: "upd_env \<Rightarrow> string \<Rightarrow> fpath \<Rightarrow> fpath \<Rightarrow> machine \<Rightarrow> unit upd" where
  "copy_any env call p p' m =
     (if is_folder (mc_disk m) p
      then sbind (if is_folder (mc_disk m) p' then rmtree env p' m
                  else if path_exists (mc_disk m) p' \<or> is_symlink (mc_disk m) p' then call_os env call p' (drop_node p') m
                  else (Inr (), m)) (\<lambda>u m.
           if ue_fails env call p' then (Inl OSError, on_disk (copy_tree (ue_copied env) p p') m)
           else (Inr (), on_disk (copy_tree (\<lambda>q. True) p p') m))
      else sbind (if is_folder (mc_disk m) p' then rmtree env p' m else (Inr (), m)) (\<lambda>u m.
           sbind (call_os env ''mkdir'' (butlast p') (make_dirs (butlast p')) m) (\<lambda>u.
           copy_file env call p p')))"

definition snapshot_item :: "upd_env \<Rightarrow> fpath \<Rightarrow> string \<Rightarrow> machine \<Rightarrow> unit upd" where
  "snapshot_item env snap item m =
     (if path_exists (mc_disk m) (ue_app env @ [item])
      then copy_any env ''snapshot'' (ue_app env @ [item]) (snap @ [item]) m else (Inr (), m))"

definition snapshot_ext :: "upd_env \<Rightarrow> fpath \<Rightarrow> fpath \<times> string \<Rightarrow> machine \<Rightarrow> unit upd" where
  "snapshot_ext env snap item m =
     (case item of (live, name) \<Rightarrow>
        if path_exists (mc_disk m) live then copy_file env ''snapshot'' live (snap @ [''_ext'', name]) m else (Inr (), m))"

definition snapshot_install :: "upd_env \<Rightarrow> fpath \<Rightarrow> machine \<Rightarrow> unit upd" where
  "snapshot_install env snap m =
     sbind (call_os env ''mkdir'' (snap @ [''_ext'']) (make_dirs (snap @ [''_ext''])) m) (\<lambda>u m.
     sbind (each (snapshot_item env snap) rollback_items m) (\<lambda>u.
     each (snapshot_ext env snap) ext_items))"

section \<open>The switch\<close>

text \<open>\<open>migrate_user_content\<close>: a move that never overwrites.\<close>

definition move_new :: "upd_env \<Rightarrow> fpath \<times> fpath \<Rightarrow> machine \<Rightarrow> unit upd" where
  "move_new env pair m =
     (case pair of (p, p') \<Rightarrow>
        if path_exists (mc_disk m) p \<and> \<not> path_exists (mc_disk m) p'
        then sbind (call_os env ''mkdir'' (butlast p') (make_dirs (butlast p')) m) (\<lambda>u. call_os env ''move'' p (move_tree p p'))
        else (Inr (), m))"

definition children_of :: "machine \<Rightarrow> fpath \<Rightarrow> string list" where
  "children_of m p = (if is_folder (mc_disk m) p then list_dir (mc_disk m) p else [])"

definition move_favicon :: "upd_env \<Rightarrow> fpath \<Rightarrow> machine \<Rightarrow> unit upd" where
  "move_favicon env staged_app m =
     (let old = ue_app env @ [''static'', ''favicon.ico'']; new = ue_data env @ [''branding'', ''favicon.ico''];
          shipped = staged_app @ [''static'', ''favicon.ico''];
          differs = \<not> is_file (mc_disk m) shipped \<or>
            ue_sha env (file_content (mc_disk m) old) \<noteq> ue_sha env (file_content (mc_disk m) shipped)
      in if is_file (mc_disk m) old \<and> \<not> path_exists (mc_disk m) new \<and> differs
         then call_os env ''move'' old (move_tree old new) m else (Inr (), m))"

definition shipped_plugin_ids :: "string list" where
  "shipped_plugin_ids = [''ipam'', ''network-discovery'']"

definition move_plugin :: "upd_env \<Rightarrow> string \<Rightarrow> machine \<Rightarrow> unit upd" where
  "move_plugin env pid m =
     (let old = ue_app env @ [''plugins'', pid]; new = ue_data env @ [''plugins'', pid]
      in if \<not> is_folder (mc_disk m) old then (Inr (), m)
         else sbind (if pid \<in> set shipped_plugin_ids then (Inr (), m) else move_new env (old, new) m) (\<lambda>u m.
              let marker = (if pid \<in> set shipped_plugin_ids then old else new) @ [''.enabled''];
                  new_marker = ue_data env @ [''plugins-enabled'', pid]
              in if is_file (mc_disk m) marker \<and> \<not> path_exists (mc_disk m) new_marker
                 then call_os env ''move'' marker (move_tree marker new_marker) m else (Inr (), m)))"

definition content_dirs :: "string list" where
  "content_dirs = [''icons'', ''branding'', ''backups'', ''plugins'', ''plugins-enabled'', ''keys'']"

definition migrate_user_content :: "upd_env \<Rightarrow> fpath \<Rightarrow> machine \<Rightarrow> unit upd" where
  "migrate_user_content env staged_app m =
     (let a = ue_app env; c = ue_data env
      in sbind (each (\<lambda>n. call_os env ''mkdir'' (c @ [n]) (make_dirs (c @ [n]))) content_dirs m) (\<lambda>u m.
         sbind (each (\<lambda>n. move_new env (a @ [''static'', ''icons'', ''custom'', n], c @ [''icons'', n]))
                 (children_of m (a @ [''static'', ''icons'', ''custom''])) m) (\<lambda>u m.
         sbind (each (\<lambda>x. move_new env (a @ [''static'', ''nav_logo.'' @ x], c @ [''branding'', ''nav_logo.'' @ x]))
                 [''png'', ''svg'', ''jpg'', ''jpeg'', ''webp''] m) (\<lambda>u m.
         sbind (move_favicon env staged_app m) (\<lambda>u m.
         sbind (each (\<lambda>n. move_new env (a @ [''backups'', n], c @ [''backups'', n])) (children_of m (a @ [''backups''])) m) (\<lambda>u m.
         sbind (each (move_plugin env) (children_of m (a @ [''plugins''])) m) (\<lambda>u.
         each (\<lambda>n. move_new env (a @ [n], c @ [''keys'', n])) [''.secret_key'', ''.mfa_key''])))))))"

function replace_all :: "string \<Rightarrow> string \<Rightarrow> string \<Rightarrow> string" where
  "replace_all old new s =
     (if old = [] \<or> s = [] then s
      else if has_prefix old s then new @ replace_all old new (drop (length old) s)
      else hd s # replace_all old new (tl s))"
  by pat_completeness auto
termination by (relation "measure (\<lambda>(old, new, s). length s)") (auto simp: neq_Nil_conv)

declare replace_all.simps [simp del]

definition show_path :: "fpath \<Rightarrow> string" where
  "show_path p = concat (map (\<lambda>n. CHR ''/'' # n) p)"

definition render_jen_service :: "upd_env \<Rightarrow> fpath \<Rightarrow> fpath \<Rightarrow> machine \<Rightarrow> unit upd" where
  "render_jen_service env template out m =
     write_file env ''install'' out
       (replace_all ''@@DATA_DIR@@'' (show_path (ue_data env))
         (replace_all ''@@CONFIG_DIR@@'' (show_path (ue_config env))
           (replace_all ''@@APP_DIR@@'' (show_path (ue_app env)) (file_content (mc_disk m) template)))) m"

text \<open>\<open>systemctl daemon-reload\<close> with \<open>check=True\<close>.\<close>

definition daemon_reload :: "upd_env \<Rightarrow> fpath \<Rightarrow> machine \<Rightarrow> unit upd" where
  "daemon_reload env p m = (if ue_fails env ''daemon-reload'' p then (Inl CalledProcessError, m) else (Inr (), m))"

definition install_external_files :: "upd_env \<Rightarrow> fpath \<Rightarrow> machine \<Rightarrow> unit upd" where
  "install_external_files env app_dir m =
     sbind (if is_file (mc_disk m) (app_dir @ [''jen.service.template''])
            then sbind (render_jen_service env (app_dir @ [''jen.service.template'']) [''etc'', ''systemd'', ''system'', ''jen.service''] m)
                   (\<lambda>u. daemon_reload env [''jen.service''])
            else (Inr (), m)) (\<lambda>u m.
     let sudoers = app_dir @ [''jen-sudoers'']
     in if is_file (mc_disk m) sudoers \<and> ue_visudo env (file_content (mc_disk m) sudoers)
        then copy_file env ''install'' sudoers [''etc'', ''sudoers.d'', ''jen''] m else (Inr (), m))"

text \<open>A file written beside its target and renamed over it.\<close>

definition replace_file :: "upd_env \<Rightarrow> fpath \<Rightarrow> fpath \<Rightarrow> machine \<Rightarrow> unit upd" where
  "replace_file env p p' m =
     (if is_file (mc_disk m) p
      then sbind (call_os env ''install'' p' (put_node p' (File (file_content (mc_disk m) p))) m) (\<lambda>u m.
           if ends_with ''.service'' (last p') then daemon_reload env p' m else (Inr (), m))
      else (Inr (), m))"

definition install_self_update_files :: "upd_env \<Rightarrow> fpath \<Rightarrow> machine \<Rightarrow> unit upd" where
  "install_self_update_files env app_dir m =
     sbind (replace_file env (app_dir @ [''jen-update-root.py'']) [''usr'', ''local'', ''sbin'', ''jen-update-root.py''] m) (\<lambda>u m.
     sbind (replace_file env (app_dir @ [''jen-update.service'']) [''etc'', ''systemd'', ''system'', ''jen-update.service''] m) (\<lambda>u.
     replace_file env (app_dir @ [''jen-plugin-install.service''])
       [''etc'', ''systemd'', ''system'', ''jen-plugin-install.service'']))"

definition switch_current :: "upd_env \<Rightarrow> string \<Rightarrow> string \<Rightarrow> machine \<Rightarrow> unit upd" where
  "switch_current env call target m =
     (let tmp = ue_app env @ [''current.tmp'']; link = Symlink (releases_dir env @ [target])
      in sbind (if dget (mc_disk m) tmp \<noteq> None then call_os env (call @ '':unlink'') tmp (drop_node tmp) m else (Inr (), m)) (\<lambda>u m.
         sbind (call_os env (call @ '':symlink'') tmp (put_node tmp link) m) (\<lambda>u.
         call_os env (call @ '':replace'') (current_link env) (\<lambda>d. put_node (current_link env) link (drop_node tmp d)))))"

definition restart_jen :: "upd_env \<Rightarrow> machine \<Rightarrow> machine" where
  "restart_jen env m =
     m\<lparr>mc_served := (case through_current env (mc_disk m) [] of Some p \<Rightarrow> p | None \<Rightarrow> ue_app env)\<rparr>"

text \<open>\<open>_confirm_running_version\<close>: up to five tries, a different answer fails at once.\<close>

fun confirm_running_version :: "(nat \<Rightarrow> string option) \<Rightarrow> string \<Rightarrow> nat \<Rightarrow> nat \<Rightarrow> upd_exc + string" where
  "confirm_running_version answers version i 0 = Inl RuntimeError"
| "confirm_running_version answers version i (Suc left) =
     (case answers i of
        Some running \<Rightarrow> (if running = version then Inr running else Inl RuntimeError)
      | None \<Rightarrow> confirm_running_version answers version (i + 1) left)"

text \<open>The body of the \<open>try\<close> whose failure leads back.\<close>

definition install_release :: "upd_env \<Rightarrow> string \<Rightarrow> bool \<Rightarrow> fpath \<Rightarrow> fpath \<Rightarrow> machine \<Rightarrow> unit upd" where
  "install_release env version migration staging release_dir m =
     sbind (if migration then migrate_user_content env (staging @ [''app'']) m else (Inr (), m)) (\<lambda>u m.
     sbind (if is_folder (mc_disk m) release_dir then rmtree env release_dir m else (Inr (), m)) (\<lambda>u m.
     sbind (if path_exists (mc_disk m) release_dir then (Inl OSError, m)
            else call_os env ''rename'' staging (move_tree staging release_dir) m) (\<lambda>u m.
     sbind (install_external_files env (release_dir @ [''app'']) m) (\<lambda>u m.
     sbind (install_self_update_files env (release_dir @ [''app'']) m) (\<lambda>u m.
     sbind (switch_current env ''switch'' version m) (\<lambda>u m.
     let m = restart_jen env m
     in if \<not> ue_healthy env ''update'' then (Inl RuntimeError, m)
        else case confirm_running_version (ue_answers env) version 0 5 of
               Inl e \<Rightarrow> (Inl e, m)
             | Inr v \<Rightarrow> (Inr (), m)))))))"

section \<open>The way back\<close>

definition restore_ext :: "upd_env \<Rightarrow> fpath \<Rightarrow> fpath \<times> string \<Rightarrow> machine \<Rightarrow> unit upd" where
  "restore_ext env snap item m =
     (case item of (live, name) \<Rightarrow>
        if is_file (mc_disk m) (snap @ [''_ext'', name])
        then copy_file env ''restore'' (snap @ [''_ext'', name]) live m else (Inr (), m))"

definition restore_item :: "upd_env \<Rightarrow> fpath \<Rightarrow> string \<Rightarrow> machine \<Rightarrow> unit upd" where
  "restore_item env snap item m =
     (if path_exists (mc_disk m) (snap @ [item])
      then copy_any env ''restore'' (snap @ [item]) (ue_app env @ [item]) m else (Inr (), m))"

definition restore_snapshot :: "upd_env \<Rightarrow> fpath \<Rightarrow> machine \<Rightarrow> unit upd" where
  "restore_snapshot env snap m =
     (let m = (if dget (mc_disk m) (current_link env) \<noteq> None
               then suppressed (call_os env ''unlink'' (current_link env) (drop_node (current_link env)) m) else m)
      in sbind (each (restore_item env snap) rollback_items m) (\<lambda>u m.
         sbind (each (restore_ext env snap) ext_items m) (\<lambda>u m. (Inr (), restart_jen env m))))"

definition rollback_release :: "upd_env \<Rightarrow> fpath \<Rightarrow> string option \<Rightarrow> fpath \<Rightarrow> machine \<Rightarrow> unit upd" where
  "rollback_release env snap prev release_dir m =
     (let m = (if is_folder (mc_disk m) release_dir
               then suppressed (write_file env ''mark'' (release_dir @ [''.failed'']) [] m) else m)
      in sbind (case prev of
                  None \<Rightarrow> restore_snapshot env snap m
                | Some p \<Rightarrow>
                    (let m = suppressed (switch_current env ''switch-back'' p m)
                     in sbind (each (restore_ext env snap) ext_items m) (\<lambda>u m. (Inr (), restart_jen env m)))) (\<lambda>u m.
         if ue_healthy env ''rollback'' then (Inr (), rmtree_quiet env snap m)
         else let m = suppressed (write_file env ''mark'' (snap @ [keep_marker]) [] m)
              in (Inr (),
                  case prev of
                    Some p \<Rightarrow>
                      (if p \<noteq> [] \<and> is_folder (mc_disk m) (releases_dir env @ [p])
                       then suppressed (write_file env ''mark'' (releases_dir env @ [p, keep_marker]) [] m) else m)
                  | None \<Rightarrow> m)))"

definition remove_leftover :: "upd_env \<Rightarrow> string \<Rightarrow> machine \<Rightarrow> machine" where
  "remove_leftover env item m =
     (let p = ue_app env @ [item]
      in if is_symlink (mc_disk m) p \<or> is_file (mc_disk m) p then suppressed (call_os env ''unlink'' p (drop_node p) m)
         else if is_folder (mc_disk m) p then rmtree_quiet env p m else m)"

definition remove_flat_leftovers :: "upd_env \<Rightarrow> machine \<Rightarrow> machine" where
  "remove_flat_leftovers env m = fold (remove_leftover env) flat_leftovers m"

section \<open>The update\<close>

definition snapshot_dir :: "upd_env \<Rightarrow> fpath" where
  "snapshot_dir env = ue_app env @ [''.rollback-'' @ show_nat (ue_time env ''snapshot'')]"

text \<open>From the snapshot on: the switch, or the way back.\<close>

definition switch_release :: "upd_env \<Rightarrow> string \<Rightarrow> string option \<Rightarrow> fpath \<Rightarrow> machine \<Rightarrow> nat upd" where
  "switch_release env version prev staging m =
     (let snap = snapshot_dir env; release_dir = releases_dir env @ [version]
      in case snapshot_install env snap m of
           (Inl e, m) \<Rightarrow> (Inr 1, rmtree_quiet env snap m)
         | (Inr u, m) \<Rightarrow>
             (case install_release env version (prev = None) staging release_dir m of
                (Inl e, m) \<Rightarrow> sbind (rollback_release env snap prev release_dir m) (\<lambda>u m. (Inr 1, m))
              | (Inr u, m) \<Rightarrow>
                  let m = (if prev = None then remove_flat_leftovers env m else m)
                  in (Inr 0, prune_old_releases env ''after'' (rmtree_quiet env snap m))))"

text \<open>From the first file written on, with the clean-up of the \<open>finally\<close>.\<close>

definition apply_update :: "upd_env \<Rightarrow> string \<Rightarrow> string \<Rightarrow> json list \<Rightarrow> machine \<Rightarrow> nat upd" where
  "apply_update env version tarball assets m =
     (let prev = link_name (mc_disk m) (current_link env);
          staging = releases_dir env @ [version @ ''.staging-'' @ show_nat (ue_time env ''staging'')];
          r = sbind (stage_release env tarball assets staging m) (\<lambda>code m.
              case code of Some c \<Rightarrow> (Inr c, m) | None \<Rightarrow> switch_release env version prev staging m)
      in (fst r, if is_folder (mc_disk (snd r)) staging then rmtree_quiet env staging (snd r) else snd r))"

definition self_update :: "upd_env \<Rightarrow> machine \<Rightarrow> nat upd" where
  "self_update env m =
     (let m = prune_old_releases env ''before'' m
      in case rbind (chosen_release env (installed_version env (mc_disk m))) (\<lambda>(version, rel).
              rbind (raised (py_iter (jget_default rel ''assets'' (JList [])))) (\<lambda>assets.
              rbind (verified_tarball env assets) (\<lambda>tarball. Inr (version, assets, tarball)))) of
           Inl (Inl e) \<Rightarrow> (Inl e, m)
         | Inl (Inr code) \<Rightarrow> (Inr code, m)
         | Inr (version, assets, tarball) \<Rightarrow> apply_update env version tarball assets m)"

end
