(* ===== verification/UpdaterProps.thy ===== *)
theory UpdaterProps
  imports Updater
begin

text \<open>
  What the root updater promises: it installs nothing that is not signed and newer, a run that fails leaves the
  release that was running in place, a run that succeeds has been confirmed by the running process, and pruning
  removes neither the live release nor one that is kept.
\<close>

section \<open>Frames\<close>

text \<open>\<open>P\<close> holds for no path above or below \<open>p\<close>, so whatever happens at \<open>p\<close> leaves the paths of \<open>P\<close> alone.\<close>

definition off :: "(fpath \<Rightarrow> bool) \<Rightarrow> fpath \<Rightarrow> bool" where
  "off P p = (\<forall>q. under p q \<or> under q p \<longrightarrow> \<not> P q)"

lemma offD: "off P p \<Longrightarrow> under p q \<Longrightarrow> \<not> P q" "off P p \<Longrightarrow> under q p \<Longrightarrow> \<not> P q"
  by (auto simp: off_def)

lemma off_append [simp, intro]: "off P p \<Longrightarrow> off P (p @ r)"
  unfolding off_def
  by (metis append_eq_append_conv2 under_iff)

lemma off_here: "off P p \<Longrightarrow> \<not> P p"
  by (simp add: off_def)

lemma off_take: "off P p \<Longrightarrow> \<not> P (take i p)"
  by (metis append_take_drop_id off_def under_iff)

definition keeps :: "(fpath \<Rightarrow> bool) \<Rightarrow> machine \<Rightarrow> machine \<Rightarrow> bool" where
  "keeps P m m' = agree P (mc_disk m) (mc_disk m')"

named_theorems frame \<open>what an operation of the updater leaves alone\<close>

lemma keeps_refl [simp, intro!]: "keeps P m m"
  by (simp add: keeps_def)

lemma keeps_trans: "keeps P m m' \<Longrightarrow> keeps P m' m'' \<Longrightarrow> keeps P m m''"
  unfolding keeps_def by (rule agree_trans)

lemma keepsD: "keeps P m m' \<Longrightarrow> P q \<Longrightarrow> dget (mc_disk m') q = dget (mc_disk m) q"
  by (simp add: keeps_def agree_def)

lemma keeps_on_disk: "agree P (mc_disk m) (f (mc_disk m)) \<Longrightarrow> keeps P m (on_disk f m)"
  by (simp add: keeps_def on_disk_def)

lemma keeps_served [simp]: "keeps P m (m'\<lparr>mc_served := s\<rparr>) = keeps P m m'"
  by (simp add: keeps_def)

lemma keeps_restart [simp]: "keeps P m (restart_jen env m') = keeps P m m'"
  by (simp add: restart_jen_def)

lemma keeps_sbind [frame]:
  "keeps P m (snd r) \<Longrightarrow> (\<And>x m'. r = (Inr x, m') \<Longrightarrow> keeps P m' (snd (k x m'))) \<Longrightarrow> keeps P m (snd (sbind r k))"
  by (cases r; cases "fst r") (auto simp: sbind_def intro: keeps_trans)

lemma keeps_each [frame]: "(\<And>x m. x \<in> set xs \<Longrightarrow> keeps P m (snd (f x m))) \<Longrightarrow> keeps P m (snd (each f xs m))"
  by (induction xs arbitrary: m) (auto intro!: keeps_sbind)

lemma keeps_fold [frame]: "(\<And>x m. x \<in> set xs \<Longrightarrow> keeps P m (f x m)) \<Longrightarrow> keeps P m (fold f xs m)"
  by (induction xs arbitrary: m) (auto intro: keeps_trans)

lemma keeps_call [frame]: "agree P (mc_disk m) (f (mc_disk m)) \<Longrightarrow> keeps P m (snd (call_os env c p f m))"
  by (simp add: call_os_def keeps_on_disk)

lemma keeps_suppressed [frame]: "keeps P m (snd r) \<Longrightarrow> keeps P m (suppressed r)"
  by (simp add: suppressed_def)

lemma keeps_write [frame]: "off P p \<Longrightarrow> keeps P m (snd (write_file env c p x m))"
  by (simp add: write_file_def keeps_on_disk agree_put off_here)

lemma keeps_copy [frame]: "off P p' \<Longrightarrow> keeps P m (snd (copy_file env c p p' m))"
  by (simp add: copy_file_def keeps_write)

lemma keeps_rmtree [frame]: "off P p \<Longrightarrow> keeps P m (snd (rmtree env p m))"
  by (auto simp: rmtree_def off_def intro!: keeps_on_disk agree_remove)

lemma keeps_rmtree_quiet [frame]: "off P p \<Longrightarrow> keeps P m (rmtree_quiet env p m)"
  by (auto simp: rmtree_quiet_def off_def intro!: keeps_on_disk agree_remove)

lemma keeps_mkdir [frame]: "off P p \<Longrightarrow> keeps P m (snd (call_os env c x (make_dirs p) m))"
  by (intro keeps_call agree_make_dirs off_take)

lemma keeps_mkdir_above [frame]: "off P p \<Longrightarrow> keeps P m (snd (call_os env c x (make_dirs (butlast p)) m))"
proof -
  assume "off P p"
  then have "\<not> P (take i (butlast p))" for i by (simp add: butlast_conv_take off_take)
  then show ?thesis by (intro keeps_call agree_make_dirs) blast
qed

lemma keeps_drop [frame]: "off P p \<Longrightarrow> keeps P m (snd (call_os env c x (drop_node p) m))"
  by (intro keeps_call agree_drop off_here)

lemma keeps_put [frame]: "off P p \<Longrightarrow> keeps P m (snd (call_os env c x (put_node p n) m))"
  by (intro keeps_call agree_put off_here)

lemma keeps_move [frame]: "off P p \<Longrightarrow> off P p' \<Longrightarrow> keeps P m (snd (call_os env c x (move_tree p p') m))"
  by (intro keeps_call agree_move) (auto simp: off_def)

section \<open>Pruning leaves the live release alone\<close>

lemma keeps_prune_loop:
  assumes "\<And>n. n \<in> set names \<Longrightarrow> Some n \<noteq> live \<Longrightarrow> off P (releases_dir env @ [n])"
  shows "keeps P m (prune_loop env live kept names m)"
  using assms
proof (induction names arbitrary: kept m)
  case (Cons n names)
  then have ih: "keeps P m' (prune_loop env live k names m')" for k m' by simp
  show ?case
  proof (cases "Some n = live")
    case False
    then have "keeps P m (rmtree_quiet env (releases_dir env @ [n]) m)" using Cons.prems by (intro keeps_rmtree_quiet) simp
    then show ?thesis using ih keeps_trans False by (auto simp: Let_def)
  qed (use ih in simp)
qed simp

lemma keeps_prune:
  assumes releases: "\<And>n. Some n \<noteq> link_name (mc_disk m) (current_link env) \<or> contains ''.staging-'' n \<Longrightarrow> off P (releases_dir env @ [n])"
    and snaps: "\<And>n. has_prefix ''.rollback-'' n \<Longrightarrow> off P (ue_app env @ [n])"
  shows "keeps P m (prune_old_releases env phase m)"
proof -
  define names where "names = list_dir (mc_disk m) (releases_dir env)"
  define m1 where "m1 = fold (prune_staging env phase) (filter (contains ''.staging-'') names) m"
  have 1: "keeps P m m1"
    unfolding m1_def by (intro keeps_fold) (auto simp: prune_staging_def Let_def intro!: keeps_rmtree_quiet releases)
  define dirs where "dirs = filter (\<lambda>n. \<not> contains ''.staging-'' n \<and> is_folder (mc_disk m) (releases_dir env @ [n]) \<and>
      \<not> is_symlink (mc_disk m) (releases_dir env @ [n])) names"
  define m2 where "m2 = prune_loop env (link_name (mc_disk m) (current_link env)) False
      (newer_first (ue_mtime env phase) (releases_dir env) dirs) m1"
  have 2: "keeps P m1 m2" unfolding m2_def by (intro keeps_prune_loop releases) auto
  define snaps where "snaps = butlast (sort_by str_le (filter (has_prefix ''.rollback-'') (list_dir (mc_disk m2) (ue_app env))))"
  have "set snaps \<subseteq> {n. has_prefix ''.rollback-'' n}"
    unfolding snaps_def by (auto dest!: in_set_butlastD)
  then have 3: "keeps P m2 (fold (prune_snapshot env) snaps m2)"
    by (intro keeps_fold) (auto simp: prune_snapshot_def intro!: keeps_rmtree_quiet snaps)
  have "prune_old_releases env phase m = fold (prune_snapshot env) snaps m2"
    by (simp add: prune_old_releases_def Let_def m2_def m1_def snaps_def dirs_def names_def)
  then show ?thesis using 1 2 3 keeps_trans by metis
qed

section \<open>Each stage of an update\<close>

text \<open>A tar archive whose members stay below the directory they are unpacked into.\<close>

definition relative_members :: "upd_env \<Rightarrow> string \<Rightarrow> bool" where
  "relative_members env tarball =
     (case ue_tar env tarball of
        None \<Rightarrow> True
      | Some members \<Rightarrow> list_all (\<lambda>(name, kind, c). accepted_member (name, kind, c) \<longrightarrow> \<not> has_prefix ''/'' (drop 4 name)) members)"

lemma keeps_extract:
  assumes "off P dest" and "relative_members env tarball"
  shows "keeps P m (snd (extract_release env tarball dest m))"
proof -
  have "keeps P m (snd (extract_member env dest mem m))"
    if "accepted_member mem" "ue_tar env tarball = Some members" "mem \<in> set members" for mem members m
  proof -
    obtain name kind c where mem: "mem = (name, kind, c)" by (cases mem)
    then have "\<not> has_prefix ''/'' (drop 4 name)"
      using assms(2) that by (auto simp: relative_members_def list_all_iff)
    then have "off P (member_path dest (drop 4 name))" using assms(1) by (simp add: member_path_def)
    then show ?thesis
      unfolding extract_member_def mem by (auto simp: Let_def intro!: frame)
  qed
  then show ?thesis
    unfolding extract_release_def using assms(1)
    by (auto intro!: keeps_sbind keeps_mkdir keeps_each split: option.split)
qed

lemma keeps_place_venv: "off P v \<Longrightarrow> agree P d (place_venv v files d)"
proof -
  assume o: "off P v"
  have one: "agree P d (put_node (v @ p) n d)" for p n d
    by (intro agree_put off_here off_append o)
  have "agree P d (fold (\<lambda>(p, n). put_node (v @ p) n) files d)" for d
  proof (induction files arbitrary: d)
    case (Cons f files)
    then show ?case using one agree_trans by (cases f) fastforce
  qed simp
  then show ?thesis using one [of d "[]" Folder] agree_trans unfolding place_venv_def by fastforce
qed

lemma keeps_stage:
  assumes o: "off P staging" and rel: "relative_members env tarball"
  shows "keeps P m (snd (stage_release env tarball assets staging m))"
proof -
  have sig: "keeps P m (snd (install_kea_helper_signature env (staging @ [''app'']) assets m))" for m
    unfolding install_kea_helper_signature_def using o by (auto simp: Let_def intro!: keeps_write split: sum.split option.split)
  have venv: "keeps P m (on_disk (place_venv (staging @ [''venv'']) files) m)" for m files
    using o by (intro keeps_on_disk keeps_place_venv) simp
  show ?thesis
    unfolding stage_release_def using o rel sig venv
    by (auto simp: Let_def intro!: keeps_sbind keeps_extract split: option.split)
qed

lemma keeps_copy_any [frame]: "off P p' \<Longrightarrow> keeps P m (snd (copy_any env call p p' m))"
proof -
  assume o: "off P p'"
  have c: "keeps P m (on_disk (copy_tree f p p') m)" for f m
    using o by (intro keeps_on_disk agree_copy) (auto simp: off_def)
  show ?thesis
    unfolding copy_any_def using o c by (auto intro!: keeps_sbind keeps_rmtree keeps_drop keeps_mkdir_above keeps_copy)
qed

lemma keeps_snapshot: "off P snap \<Longrightarrow> keeps P m (snd (snapshot_install env snap m))"
  unfolding snapshot_install_def snapshot_item_def snapshot_ext_def
  by (auto intro!: keeps_sbind keeps_mkdir keeps_each keeps_copy_any keeps_copy)

lemma keeps_daemon_reload [frame, simp]: "keeps P m (snd (daemon_reload env x m))"
  by (simp add: daemon_reload_def)

lemma keeps_replace_file [frame]: "off P p' \<Longrightarrow> keeps P m (snd (replace_file env p p' m))"
  unfolding replace_file_def by (auto intro!: keeps_sbind keeps_put)

lemma keeps_switch [frame]:
  assumes "off P (current_link env)" and "off P (ue_app env @ [''current.tmp''])"
  shows "keeps P m (snd (switch_current env call target m))"
proof -
  let ?tmp = "ue_app env @ [''current.tmp'']" and ?link = "Symlink (releases_dir env @ [target])"
  have swap: "keeps P m (snd (call_os env c x (\<lambda>d. put_node (current_link env) ?link (drop_node ?tmp d)) m))" for c x m
    using agree_trans [OF agree_drop agree_put] off_here [OF assms(1)] off_here [OF assms(2)] by (intro keeps_call) blast
  show ?thesis
    unfolding switch_current_def Let_def using assms(2) swap
    by (auto intro!: keeps_sbind keeps_drop keeps_put)
qed

definition lives :: "fpath list" where
  "lives = map fst ext_items"

lemma lives_eq:
  "lives = [[''etc'', ''systemd'', ''system'', ''jen.service''], [''etc'', ''sudoers.d'', ''jen''],
     [''usr'', ''local'', ''sbin'', ''jen-update-root.py''], [''etc'', ''systemd'', ''system'', ''jen-update.service''],
     [''etc'', ''systemd'', ''system'', ''jen-plugin-install.service'']]"
  by (simp add: lives_def ext_items_def)

text \<open>Installing over an earlier release touches the new release, the external files and the link, nothing else.\<close>

lemma keeps_install:
  assumes "off P staging" and "off P release_dir" and "off P (current_link env)"
    and "off P (ue_app env @ [''current.tmp''])" and live: "\<And>l. l \<in> set lives \<Longrightarrow> off P l"
  shows "keeps P m (snd (install_release env version False staging release_dir m))"
proof -
  have l: "off P [''etc'', ''systemd'', ''system'', ''jen.service'']" "off P [''etc'', ''sudoers.d'', ''jen'']"
    "off P [''usr'', ''local'', ''sbin'', ''jen-update-root.py'']" "off P [''etc'', ''systemd'', ''system'', ''jen-update.service'']"
    "off P [''etc'', ''systemd'', ''system'', ''jen-plugin-install.service'']"
    by (auto intro!: live simp: lives_eq)
  have ext: "keeps P m (snd (install_external_files env d m))" for d m
    unfolding install_external_files_def render_jen_service_def Let_def using l
    by (auto intro!: keeps_sbind keeps_write keeps_copy keeps_daemon_reload)
  have self: "keeps P m (snd (install_self_update_files env d m))" for d m
    unfolding install_self_update_files_def using l by (auto intro!: keeps_sbind keeps_replace_file)
  show ?thesis
    unfolding install_release_def Let_def using assms(1-4) ext self
    by (auto intro!: keeps_sbind keeps_rmtree keeps_move keeps_switch split: sum.split)
qed

section \<open>A snapshot holds what stood there, and the way back puts it there\<close>

text \<open>The external files are plain files or absent, and none is above or below another.\<close>

definition plain :: "node option \<Rightarrow> bool" where
  "plain n = (case n of None \<Rightarrow> True | Some (File c) \<Rightarrow> True | _ \<Rightarrow> False)"

lemma plain_cases: "plain n \<Longrightarrow> n = None \<or> (\<exists>c. n = Some (File c))"
  by (auto simp: plain_def split: option.splits node.splits)

lemma file_at: "dget d p = Some (File c) \<Longrightarrow> path_exists d p \<and> is_file d p \<and> file_content d p = c"
  by (simp add: path_exists_def is_file_def file_content_def followed_def)

lemma nothing_at: "dget d p = None \<Longrightarrow> \<not> path_exists d p \<and> \<not> is_file d p"
  by (simp add: path_exists_def is_file_def followed_def)

lemma dget_on_disk [simp]: "mc_disk (on_disk f m) = f (mc_disk m)"
  by (simp add: on_disk_def)

lemma each_keeps_done:
  assumes "each f xs m = (Inr u, m')" and "x \<in> set xs"
    and step: "\<And>m m' u. f x m = (Inr u, m') \<Longrightarrow> Q m \<Longrightarrow> R m'"
    and others: "\<And>y m m' u. y \<in> set xs \<Longrightarrow> y \<noteq> x \<Longrightarrow> f y m = (Inr u, m') \<Longrightarrow> (Q m \<longrightarrow> Q m') \<and> (R m \<longrightarrow> R m')"
    and again: "\<And>m m' u. f x m = (Inr u, m') \<Longrightarrow> R m \<Longrightarrow> R m'" and "Q m"
  shows "R m'"
proof -
  have r: "each f ys m = (Inr u, m') \<Longrightarrow> set ys \<subseteq> set xs \<Longrightarrow> R m \<Longrightarrow> R m'" for ys m
  proof (induction ys arbitrary: m)
    case (Cons y ys)
    then obtain v m1 where "f y m = (Inr v, m1)" "each f ys m1 = (Inr u, m')"
      by (auto simp: sbind_def split: sum.splits prod.splits)
    then show ?case using Cons others again by (cases "y = x") auto
  qed simp
  have "each f ys m = (Inr u, m') \<Longrightarrow> set ys \<subseteq> set xs \<Longrightarrow> x \<in> set ys \<Longrightarrow> Q m \<Longrightarrow> R m'" for ys m
  proof (induction ys arbitrary: m)
    case (Cons y ys)
    then obtain v m1 where y: "f y m = (Inr v, m1)" "each f ys m1 = (Inr u, m')"
      by (auto simp: sbind_def split: sum.splits prod.splits)
    show ?case
    proof (cases "y = x")
      case True
      then show ?thesis using step y r [of ys m1] Cons.prems by auto
    next
      case False
      then show ?thesis using others y Cons by auto
    qed
  qed simp
  then show ?thesis using assms(1,2,6) by blast
qed

text \<open>Paths neither of which is above the other.\<close>

definition sep :: "fpath \<Rightarrow> fpath \<Rightarrow> bool" where
  "sep p q = (\<not> under p q \<and> \<not> under q p)"

lemma sep_append [simp]: "sep (r @ p) (r @ q) = sep p q"
  by (simp add: sep_def under_def)

lemma sep_Cons [simp]: "sep (x # p) (y # q) = (x \<noteq> y \<or> sep p q)"
  by (auto simp: sep_def under_def)

lemma sep_Nil [simp]: "sep [] q = False" "sep p [] = False"
  by (simp_all add: sep_def under_def)

lemma sep_sym: "sep p q \<Longrightarrow> sep q p"
  by (simp add: sep_def)

lemma under_both: "under p r \<Longrightarrow> under q r \<Longrightarrow> under p q \<or> under q p"
  unfolding under_iff by (metis append_eq_append_conv2)

lemma sep_longer: "sep p q \<Longrightarrow> sep p (q @ r)"
proof -
  assume s: "sep p q"
  have "\<not> under p (q @ r)" using s under_both [of p "q @ r" q] by (auto simp: sep_def)
  moreover have "\<not> under (q @ r) p" using s under_trans [OF under_append] by (auto simp: sep_def)
  ultimately show ?thesis by (simp add: sep_def)
qed

lemma off_below [simp]: "off (under a) p = sep a p"
  unfolding off_def sep_def using under_both under_trans by (metis under_refl)

lemma off_exact [simp]: "off (\<lambda>q. q = a) p = sep a p"
  by (auto simp: off_def sep_def)

lemma off_or [simp]: "off (\<lambda>q. A q \<or> B q) p = (off A p \<and> off B p)"
  by (auto simp: off_def)

lemma off_in [simp]: "off (\<lambda>q. q \<in> S) p = (\<forall>a \<in> S. sep a p)"
  by (auto simp: off_def sep_def)

lemma off_mono: "off P p \<Longrightarrow> (\<And>q. Q q \<Longrightarrow> P q) \<Longrightarrow> off Q p"
  by (auto simp: off_def)

lemma contains_middle: "contains x (a @ x @ b)"
proof -
  have p: "has_prefix x (x @ b)" for b by (induction x) auto
  show ?thesis
  proof (induction a)
    case Nil
    then show ?case using p [of b] by (cases "x @ b") (auto simp: Nil_is_append_conv)
  qed simp
qed

lemma each_keeps:
  assumes "each f xs m = (Inr u, m')" and "R m"
    and step: "\<And>y m m' u. y \<in> set xs \<Longrightarrow> f y m = (Inr u, m') \<Longrightarrow> R m \<Longrightarrow> R m'"
  shows "R m'"
  using assms
proof (induction xs arbitrary: m)
  case (Cons y ys)
  from Cons.prems(1) obtain v m1 where y: "f y m = (Inr v, m1)" "each f ys m1 = (Inr u, m')"
    by (auto simp: sbind_def split: sum.splits prod.splits)
  have "R m1" by (rule Cons.prems(3) [OF _ y(1) Cons.prems(2)]) simp
  then show ?case using Cons.IH [OF y(2)] Cons.prems(3) by (metis list.set_intros(2))
qed simp

lemma copy_file_Inr:
  "copy_file env c p p' m = (Inr u, m') \<longleftrightarrow>
     is_file (mc_disk m) p \<and> \<not> ue_fails env c p' \<and> m' = on_disk (put_node p' (File (file_content (mc_disk m) p))) m"
  by (auto simp: copy_file_def write_file_def split: if_splits)

lemma ext_names: "(l, x) \<in> set ext_items \<Longrightarrow> (l', x) \<in> set ext_items \<Longrightarrow> l = l'"
  "(l, x) \<in> set ext_items \<Longrightarrow> (l, x') \<in> set ext_items \<Longrightarrow> x = x'"
  by (auto simp: ext_items_def)

lemma live_of_ext: "(l, x) \<in> set ext_items \<Longrightarrow> l \<in> set lives"
  by (force simp: lives_def)

text \<open>A snapshot that succeeds holds the content of every external file, and no entry for one that is not there.\<close>

lemma snapshot_holds:
  assumes snap: "snapshot_install env snap m = (Inr u, m')" and ext: "(live, x) \<in> set ext_items"
    and plain: "plain (dget (mc_disk m) live)" and apart: "sep live snap"
    and fresh: "dget (mc_disk m) (snap @ [''_ext'', x]) = None"
  shows "dget (mc_disk m') (snap @ [''_ext'', x]) = dget (mc_disk m) live"
proof -
  let ?s = "snap @ [''_ext'', x]"
  let ?P = "\<lambda>q. q = live \<or> q = ?s"
  from snap obtain m1 m2 where m1: "call_os env ''mkdir'' (snap @ [''_ext'']) (make_dirs (snap @ [''_ext''])) m = (Inr (), m1)"
    and m2: "each (snapshot_item env snap) rollback_items m1 = (Inr (), m2)"
    and m': "each (snapshot_ext env snap) ext_items m2 = (Inr u, m')"
    unfolding snapshot_install_def sbind_def by (auto split: sum.splits prod.splits)
  have not_above: "take i (snap @ [''_ext'']) \<noteq> ?s" for i
  proof
    assume "take i (snap @ [''_ext'']) = ?s"
    from arg_cong [OF this, of length] show False by (simp add: min_def split: if_splits)
  qed
  have "\<not> ?P (take i (snap @ [''_ext'']))" for i
  proof -
    have "off (\<lambda>q. q = live) (snap @ [''_ext''])" using apart sep_longer by simp
    then have "take i (snap @ [''_ext'']) \<noteq> live" by (rule off_take)
    then show ?thesis using not_above by blast
  qed
  then have "keeps ?P m (snd (call_os env ''mkdir'' (snap @ [''_ext'']) (make_dirs (snap @ [''_ext''])) m))"
    by (intro keeps_call agree_make_dirs) blast
  then have 1: "keeps ?P m m1" by (simp add: m1)
  have "keeps ?P m (snd (snapshot_item env snap item m))" if "item \<in> set rollback_items" for item m
  proof -
    have "sep live (snap @ [item])" "sep ?s (snap @ [item])"
      using apart sep_longer that by (auto simp: rollback_items_def)
    then show ?thesis unfolding snapshot_item_def by (auto intro!: keeps_copy_any)
  qed
  then have "keeps ?P m1 (snd (each (snapshot_item env snap) rollback_items m1))" by (rule keeps_each)
  then have 2: "keeps ?P m m2" using 1 keeps_trans by (simp add: m2)
  then have d2: "dget (mc_disk m2) live = dget (mc_disk m) live" "dget (mc_disk m2) ?s = None"
    using keepsD [OF 2, of live] keepsD [OF 2, of ?s] fresh by simp_all
  have other: "dget (mc_disk n') ?s = dget (mc_disk n) ?s \<and> dget (mc_disk n') live = dget (mc_disk n) live"
    if "y \<in> set ext_items" "y \<noteq> (live, x)" "snapshot_ext env snap y n = (Inr v, n')" for y n n' v
  proof -
    obtain l' x' where y: "y = (l', x')" by (cases y)
    have "x' \<noteq> x" using ext_names ext that y by blast
    moreover have "snap @ [''_ext'', x'] \<noteq> live" using apart by (auto simp: sep_def)
    ultimately show ?thesis
      using that(3) by (auto simp: y snapshot_ext_def copy_file_Inr split: if_splits)
  qed
  show ?thesis
  proof (cases "dget (mc_disk m) live")
    case None
    have "dget (mc_disk m') ?s = None \<and> dget (mc_disk m') live = None"
    proof (rule each_keeps [OF m', where R = "\<lambda>m. dget (mc_disk m) ?s = None \<and> dget (mc_disk m) live = None"])
      show "dget (mc_disk m2) ?s = None \<and> dget (mc_disk m2) live = None" using d2 None by simp
      show "dget (mc_disk n') ?s = None \<and> dget (mc_disk n') live = None"
        if "y \<in> set ext_items" "snapshot_ext env snap y n = (Inr v, n')"
          "dget (mc_disk n) ?s = None \<and> dget (mc_disk n) live = None" for y n n' v
      proof (cases "y = (live, x)")
        case True
        then show ?thesis using that nothing_at by (auto simp: snapshot_ext_def)
      next
        case False
        then show ?thesis using other that by metis
      qed
    qed
    then show ?thesis using None by simp
  next
    case (Some n)
    then obtain c where c: "dget (mc_disk m) live = Some (File c)" using plain_cases [OF plain] by auto
    have "dget (mc_disk m') ?s = Some (File c) \<and> dget (mc_disk m') live = Some (File c)"
    proof (rule each_keeps_done [OF m' ext, where Q = "\<lambda>m. dget (mc_disk m) live = Some (File c)"])
      show "dget (mc_disk m2) live = Some (File c)" using d2 c by simp
      show "dget (mc_disk n') ?s = Some (File c) \<and> dget (mc_disk n') live = Some (File c)"
        if "snapshot_ext env snap (live, x) n = (Inr v, n')" "dget (mc_disk n) live = Some (File c)" for n n' v
        using that file_at apart by (auto simp: snapshot_ext_def copy_file_Inr sep_def split: if_splits)
      show "dget (mc_disk n') ?s = Some (File c) \<and> dget (mc_disk n') live = Some (File c)"
        if "snapshot_ext env snap (live, x) n = (Inr v, n')"
          "dget (mc_disk n) ?s = Some (File c) \<and> dget (mc_disk n) live = Some (File c)" for n n' v
        using that file_at apart by (auto simp: snapshot_ext_def copy_file_Inr sep_def split: if_splits)
    qed (use other in metis)
    then show ?thesis using c by simp
  qed
qed

lemma copy_file_live:
  "copy_file env c p p' m = (Inr u, m') \<Longrightarrow> dget (mc_disk m) p = Some (File x) \<Longrightarrow> dget (mc_disk m') p' = Some (File x)"
  using file_at by (auto simp: copy_file_Inr)

text \<open>Restoring the external files puts back every one the snapshot holds.\<close>

lemma restore_puts_back:
  assumes run: "each (restore_ext env snap) ext_items m = (Inr u, m')" and ext: "(live, x) \<in> set ext_items"
    and saved: "dget (mc_disk m) (snap @ [''_ext'', x]) = Some (File c)" and apart: "\<And>l. l \<in> set lives \<Longrightarrow> sep l snap"
  shows "dget (mc_disk m') live = Some (File c)"
proof -
  let ?s = "snap @ [''_ext'', x]"
  have ne: "l \<noteq> ?s" if "l \<in> set lives" for l using apart [OF that] by (auto simp: sep_def)
  have other: "dget (mc_disk n') ?s = dget (mc_disk n) ?s \<and> dget (mc_disk n') live = dget (mc_disk n) live"
    if "y \<in> set ext_items" "y \<noteq> (live, x)" "restore_ext env snap y n = (Inr v, n')" for y n n' v
  proof -
    obtain l' x' where y: "y = (l', x')" by (cases y)
    have "l' \<noteq> live" using ext_names ext that y by blast
    moreover have "l' \<noteq> ?s" using ne live_of_ext that y by blast
    ultimately show ?thesis using that(3) by (auto simp: y restore_ext_def copy_file_Inr split: if_splits)
  qed
  have this_one: "dget (mc_disk n') ?s = Some (File c) \<and> dget (mc_disk n') live = Some (File c)"
    if "restore_ext env snap (live, x) n = (Inr v, n')" "dget (mc_disk n) ?s = Some (File c)" for n n' v
    using that file_at [OF that(2)] ne [OF live_of_ext [OF ext]] by (auto simp: restore_ext_def copy_file_Inr)
  have "dget (mc_disk m') ?s = Some (File c) \<and> dget (mc_disk m') live = Some (File c)"
    by (rule each_keeps_done [OF run ext, where Q = "\<lambda>m. dget (mc_disk m) ?s = Some (File c)"])
      (use this_one other saved in metis)+
  then show ?thesis by blast
qed

lemma keeps_restore_ext: "(\<And>l. l \<in> set lives \<Longrightarrow> off P l) \<Longrightarrow> keeps P m (snd (each (restore_ext env snap) ext_items m))"
proof (rule keeps_each)
  fix y m
  assume o: "\<And>l. l \<in> set lives \<Longrightarrow> off P l" and "y \<in> set ext_items"
  then obtain l x where "y = (l, x)" "off P l" using live_of_ext by (cases y) blast
  then show "keeps P m (snd (restore_ext env snap y m))" by (auto simp: restore_ext_def intro!: keeps_copy)
qed

lemma switch_current_done:
  assumes "\<And>c p. c \<in> {'':unlink'', '':symlink'', '':replace''} \<Longrightarrow> \<not> ue_fails env (call @ c) p"
  shows "dget (mc_disk (snd (switch_current env call target m))) (current_link env) = Some (Symlink (releases_dir env @ [target]))"
  using assms by (simp add: switch_current_def call_os_def sbind_def Let_def)

section \<open>A failed update\<close>

text \<open>
  The setting of a run on a versioned install: \<open>current\<close> is the link to the release \<open>prev\<close>, which carries its
  own version; the external files are plain files, none of them inside the application directory; and nothing
  is left of an earlier snapshot of the same second.
\<close>

definition running_release :: "upd_env \<Rightarrow> string \<Rightarrow> machine \<Rightarrow> bool" where
  "running_release env prev m =
     (dget (mc_disk m) (current_link env) = Some (Symlink (releases_dir env @ [prev])) \<and> \<not> contains ''.staging-'' prev \<and>
      (case dget (mc_disk m) (releases_dir env @ [prev, ''app'', ''jen'', ''__init__.py'']) of
         Some (File c) \<Rightarrow> version_line c = Some (Inr prev) | _ \<Rightarrow> False) \<and>
      list_all (\<lambda>l. plain (dget (mc_disk m) l) \<and> sep l (ue_app env)) lives \<and>
      list_all (\<lambda>(q, n). \<not> under (snapshot_dir env) q) (mc_disk m))"

definition of_previous :: "upd_env \<Rightarrow> string \<Rightarrow> fpath \<Rightarrow> bool" where
  "of_previous env prev q = (under (releases_dir env @ [prev]) q \<and> q \<noteq> releases_dir env @ [prev, keep_marker])"

lemma not_in_disk: "list_all (\<lambda>(q, n). \<not> P q) d \<Longrightarrow> P q \<Longrightarrow> dget d q = None"
  by (force simp: dget_def list_all_iff map_of_eq_None_iff)

lemma live_off_app: "sep l (ue_app env) \<Longrightarrow> sep l (ue_app env @ r)" "sep l (ue_app env) \<Longrightarrow> sep (ue_app env @ r) l"
  using sep_longer sep_sym by blast+

text \<open>Removing only removes.\<close>

lemma rmtree_quiet_none: "dget (mc_disk m) q = None \<Longrightarrow> dget (mc_disk (rmtree_quiet env p m)) q = None"
  by (simp add: rmtree_quiet_def dget_remove_tree)

lemma fold_none:
  "(\<And>x m. dget (mc_disk m) q = None \<Longrightarrow> dget (mc_disk (f x m)) q = None) \<Longrightarrow> dget (mc_disk m) q = None \<Longrightarrow>
   dget (mc_disk (fold f xs m)) q = None"
  by (induction xs arbitrary: m) auto

lemma prune_loop_none: "dget (mc_disk m) q = None \<Longrightarrow> dget (mc_disk (prune_loop env live kept names m)) q = None"
  by (induction env live kept names m rule: prune_loop.induct) (auto simp: Let_def rmtree_quiet_none)

lemma prune_none: "dget (mc_disk m) q = None \<Longrightarrow> dget (mc_disk (prune_old_releases env phase m)) q = None"
  unfolding prune_old_releases_def Let_def
  by (intro fold_none prune_loop_none) (auto simp: prune_snapshot_def prune_staging_def Let_def intro: rmtree_quiet_none)

lemma keeps_write_at: "\<not> P p \<Longrightarrow> keeps P m (snd (write_file env c p x m))"
  by (simp add: write_file_def keeps_on_disk agree_put)

lemma app_paths [simp]:
  "sep (releases_dir env @ r) (current_link env)" "sep (current_link env) (releases_dir env @ r)"
  "sep (releases_dir env @ r) (ue_app env @ [''current.tmp''])" "sep (releases_dir env @ r) (snapshot_dir env)"
  "sep (snapshot_dir env) (releases_dir env @ r)" "sep (snapshot_dir env) (current_link env)" "sep (current_link env) (snapshot_dir env)"
  "sep (snapshot_dir env) (ue_app env @ [''current.tmp''])" "sep (current_link env) (ue_app env @ [''current.tmp''])"
  "sep (releases_dir env @ [a]) (releases_dir env @ b # r) = (a \<noteq> b)"
  "sep (releases_dir env @ b # r) (releases_dir env @ [a]) = (a \<noteq> b)"
  by (simp_all add: releases_dir_def current_link_def snapshot_dir_def) (auto simp: sep_def under_def)

lemma sep_live [simp]:
  assumes "sep l (ue_app env)"
  shows "sep l (releases_dir env @ r)" "sep (releases_dir env @ r) l" "sep l (current_link env)" "sep (current_link env) l"
    "sep l (ue_app env @ [''current.tmp''])" "sep l (snapshot_dir env)" "sep (snapshot_dir env) l"
  using assms live_off_app unfolding releases_dir_def current_link_def snapshot_dir_def by (simp_all add: append_assoc)

text \<open>
  The way back of a versioned install, from any state the failed installation leaves: the link points to the
  previous release again and that release is untouched, whatever else fails; and if restoring the external files
  does not fail, they are what they were and the service runs from the previous release.
\<close>

lemma rollback_restores:
  assumes lives: "\<And>l. l \<in> set lives \<Longrightarrow> sep l (ue_app env)" and ne: "version \<noteq> prev"
    and ok: "\<And>c p. c \<in> {'':unlink'', '':symlink'', '':replace''} \<Longrightarrow> \<not> ue_fails env (''switch-back'' @ c) p"
    and saved: "\<And>l x c. (l, x) \<in> set ext_items \<Longrightarrow> before l = Some (File c) \<Longrightarrow>
      dget (mc_disk m) (snapshot_dir env @ [''_ext'', x]) = Some (File c)"
    and r: "rollback_release env (snapshot_dir env) (Some prev) (releases_dir env @ [version]) m = (res, m')"
  shows "dget (mc_disk m') (current_link env) = Some (Symlink (releases_dir env @ [prev]))"
    and "keeps (of_previous env prev) m m'"
    and "res = Inr u \<Longrightarrow> mc_served m' = releases_dir env @ [prev] \<and>
      (\<forall>(l, x) \<in> set ext_items. \<forall>c. before l = Some (File c) \<longrightarrow> dget (mc_disk m') l = Some (File c))"
proof -
  let ?prev = "releases_dir env @ [prev]" and ?snap = "snapshot_dir env" and ?rel = "releases_dir env @ [version]"
  let ?K = "\<lambda>q. under ?prev q \<or> under ?snap q"
  define m1 where "m1 = (if is_folder (mc_disk m) ?rel
      then suppressed (write_file env ''mark'' (?rel @ [''.failed'']) [] m) else m)"
  have 1: "keeps ?K m m1"
    using ne by (auto simp: m1_def intro!: keeps_suppressed keeps_write)
  define m2 where "m2 = suppressed (switch_current env ''switch-back'' prev m1)"
  have 2: "keeps ?K m1 m2" unfolding m2_def by (intro keeps_suppressed keeps_switch) simp_all
  have link2: "dget (mc_disk m2) (current_link env) = Some (Symlink ?prev)"
    unfolding m2_def suppressed_def using ok by (rule switch_current_done)
  define r3 where "r3 = each (restore_ext env ?snap) ext_items m2"
  obtain s3 m3 where r3: "r3 = (s3, m3)" by (cases r3)
  let ?C = "\<lambda>q. under ?prev q \<or> q = current_link env"
  have "keeps ?C m2 (snd r3)" unfolding r3_def by (intro keeps_restore_ext) (simp add: lives)
  then have 3: "keeps ?C m2 m3" by (simp add: r3)
  have link3: "dget (mc_disk m3) (current_link env) = Some (Symlink ?prev)" using keepsD [OF 3] link2 by simp
  have roll: "rollback_release env ?snap (Some prev) ?rel m =
      sbind (sbind r3 (\<lambda>u m. (Inr (), restart_jen env m))) (\<lambda>u m.
         if ue_healthy env ''rollback'' then (Inr (), rmtree_quiet env ?snap m)
         else let m = suppressed (write_file env ''mark'' (?snap @ [keep_marker]) [] m)
              in (Inr (),
                  if prev \<noteq> [] \<and> is_folder (mc_disk m) ?prev
                  then suppressed (write_file env ''mark'' (releases_dir env @ [prev, keep_marker]) [] m) else m))"
    unfolding rollback_release_def Let_def m1_def [symmetric] by (simp only: option.case m2_def [symmetric] r3_def [symmetric])
  let ?F = "\<lambda>q. of_previous env prev q \<or> q = current_link env \<or> q \<in> set lives"
  have F: "\<not> ?F (releases_dir env @ [prev, keep_marker])"
  proof -
    have "releases_dir env @ [prev, keep_marker] \<noteq> current_link env" by (simp add: releases_dir_def current_link_def)
    moreover have "releases_dir env @ [prev, keep_marker] \<notin> set lives"
      using lives sep_live(1) by (metis sep_def under_refl)
    ultimately show ?thesis by (simp add: of_previous_def)
  qed
  have offF: "off ?F (?snap @ r)" for r
  proof -
    have "off (\<lambda>q. under ?prev q \<or> q = current_link env \<or> q \<in> set lives) ?snap" using lives by simp
    then show ?thesis by (intro off_append) (erule off_mono, auto simp: of_previous_def)
  qed
  have ends: "(\<exists>e. s3 = Inl e \<and> res = Inl e \<and> m' = m3) \<or>
      s3 = Inr () \<and> keeps ?F (restart_jen env m3) m' \<and> mc_served m' = mc_served (restart_jen env m3)"
  proof (cases s3)
    case (Inl e)
    then show ?thesis using r unfolding roll r3 by (auto simp: sbind_def)
  next
    case (Inr v)
    have k1: "keeps ?F n (rmtree_quiet env ?snap n)" for n using offF [of "[]"] by (intro keeps_rmtree_quiet) simp
    have k2: "keeps ?F n (suppressed (write_file env ''mark'' (?snap @ [keep_marker]) [] n))" for n
      using offF by (intro keeps_suppressed keeps_write)
    have k3: "keeps ?F n (suppressed (write_file env ''mark'' (releases_dir env @ [prev, keep_marker]) [] n))" for n
      using F by (intro keeps_suppressed keeps_write_at)
    have served: "mc_served (suppressed (write_file env c p x n)) = mc_served n" "mc_served (rmtree_quiet env q n) = mc_served n" for c p x q n
      by (simp_all add: suppressed_def write_file_def on_disk_def rmtree_quiet_def)
    define n where "n = restart_jen env m3"
    define w where "w = suppressed (write_file env ''mark'' (?snap @ [keep_marker]) [] n)"
    have "m' = rmtree_quiet env ?snap n \<or> m' = w \<or> m' = suppressed (write_file env ''mark'' (releases_dir env @ [prev, keep_marker]) [] w)"
      using r unfolding roll r3 Inr by (auto simp: sbind_def Let_def n_def w_def split: if_splits)
    then have "keeps ?F n m' \<and> mc_served m' = mc_served n"
      using k1 [of n] k2 [of n] keeps_trans [OF k2 k3] unfolding w_def by (elim disjE) (simp_all only: served simp_thms)
    then show ?thesis using Inr by (simp add: n_def)
  qed
  have m'K: "keeps (\<lambda>q. of_previous env prev q \<or> q = current_link env) m3 m'"
    using ends by (auto simp: keeps_def restart_jen_def elim!: agree_mono)
  have kept3: "keeps (\<lambda>q. of_previous env prev q \<or> q = current_link env) m2 m3"
    using 3 unfolding keeps_def by (rule agree_mono) (auto simp: of_previous_def)
  show "dget (mc_disk m') (current_link env) = Some (Symlink ?prev)" using keepsD [OF m'K] link3 by simp
  have "keeps (of_previous env prev) m m2"
    using keeps_trans [OF 1 2] unfolding keeps_def by (rule agree_mono) (auto simp: of_previous_def)
  moreover have "keeps (of_previous env prev) m2 m'"
    using keeps_trans [OF kept3 m'K] unfolding keeps_def by (rule agree_mono) auto
  ultimately show "keeps (of_previous env prev) m m'" by (rule keeps_trans)
  assume res: "res = Inr u"
  have s3: "s3 = Inr ()" and F': "keeps ?F (restart_jen env m3) m'" and sv: "mc_served m' = mc_served (restart_jen env m3)"
    using ends res by auto
  have "dget (mc_disk m') l = Some (File c)" if "(l, x) \<in> set ext_items" "before l = Some (File c)" for l x c
  proof -
    have "dget (mc_disk m2) (?snap @ [''_ext'', x]) = Some (File c)"
      using keepsD [OF keeps_trans [OF 1 2], of "?snap @ [''_ext'', x]"] saved [OF that] by simp
    then have "dget (mc_disk m3) l = Some (File c)"
      using restore_puts_back [of env ?snap m2 "()" m3 l x c] r3 that(1) lives unfolding r3_def s3 by simp
    then show ?thesis using keepsD [OF F', of l] live_of_ext [OF that(1)] by (simp add: restart_jen_def)
  qed
  moreover have "mc_served m' = ?prev" using sv link3 by (simp add: restart_jen_def through_current_def)
  ultimately show "mc_served m' = ?prev \<and>
      (\<forall>(l, x) \<in> set ext_items. \<forall>c. before l = Some (File c) \<longrightarrow> dget (mc_disk m') l = Some (File c))" by blast
qed

text \<open>Only a restart changes what the service runs from.\<close>

definition same_service :: "machine \<Rightarrow> machine \<Rightarrow> bool" where
  "same_service m m' = (mc_served m' = mc_served m)"

lemma same_service_refl [simp, intro!]: "same_service m m"
  by (simp add: same_service_def)

lemma same_service_sbind:
  "same_service m (snd r) \<Longrightarrow> (\<And>x m'. r = (Inr x, m') \<Longrightarrow> same_service m' (snd (k x m'))) \<Longrightarrow> same_service m (snd (sbind r k))"
  by (cases r; cases "fst r") (auto simp: sbind_def same_service_def)

lemma same_service_each: "(\<And>x m. same_service m (snd (f x m))) \<Longrightarrow> same_service m (snd (each f xs m))"
  by (induction xs arbitrary: m) (auto intro!: same_service_sbind)

lemma same_service_fold: "(\<And>x m. same_service m (f x m)) \<Longrightarrow> same_service m (fold f xs m)"
  by (induction xs arbitrary: m) (auto simp: same_service_def)

lemma same_service_steps [simp, intro!]:
  "same_service m (on_disk f m)" "same_service m (snd (call_os env c p f m))" "same_service m (snd (write_file env c p x m))"
  "same_service m (snd (copy_file env c p p' m))" "same_service m (snd (rmtree env p m))" "same_service m (rmtree_quiet env p m)"
  by (simp_all add: same_service_def on_disk_def call_os_def write_file_def copy_file_def rmtree_def rmtree_quiet_def)

lemma same_service_copy_any [simp, intro!]: "same_service m (snd (copy_any env c p p' m))"
  unfolding copy_any_def by (auto intro!: same_service_sbind)

lemma same_service_snapshot: "same_service m (snd (snapshot_install env snap m))"
  unfolding snapshot_install_def snapshot_item_def snapshot_ext_def
  by (auto intro!: same_service_sbind same_service_each)

lemma same_service_stage: "same_service m (snd (stage_release env t assets staging m))"
proof -
  have "same_service m (snd (extract_member env dest mem m))" for dest mem m
    unfolding extract_member_def by (auto simp: Let_def split: prod.split intro!: same_service_sbind)
  then have x: "same_service m (snd (extract_release env t dest m))" for dest m
    unfolding extract_release_def by (auto split: option.split intro!: same_service_sbind same_service_each)
  have "same_service m (snd (install_kea_helper_signature env d assets m))" for d m
    unfolding install_kea_helper_signature_def by (auto simp: Let_def split: sum.split option.split)
  then show ?thesis
    unfolding stage_release_def using x by (auto simp: Let_def split: option.split intro!: same_service_sbind)
qed

lemma same_service_prune: "same_service m (prune_old_releases env phase m)"
proof -
  have loop: "same_service m (prune_loop env live kept names m)" for live kept names m
    by (induction env live kept names m rule: prune_loop.induct)
      (auto simp: Let_def same_service_def rmtree_quiet_def on_disk_def)
  have "same_service m (prune_staging env phase n m)" "same_service m (prune_snapshot env n m)" for n m
    by (simp_all add: prune_staging_def prune_snapshot_def Let_def)
  then have f: "same_service m (fold (prune_staging env phase) ns m)" "same_service m (fold (prune_snapshot env) ns m)" for ns m
    by (auto intro!: same_service_fold)
  show ?thesis unfolding prune_old_releases_def Let_def
    using f loop by (metis (no_types, lifting) same_service_def)
qed

lemma raised_Inr [simp]: "raised r = Inr x \<longleftrightarrow> r = Inr x"
  by (simp add: raised_def split: sum.split)

lemma exit_with_Inr [simp]: "exit_with c \<noteq> Inr x"
  by (simp add: exit_with_def)

lemma chosen_release_Inr:
  "chosen_release env installed = Inr (version, rel) \<longleftrightarrow>
     (\<exists>data tag have_now. ue_json env github_releases_api = Some data \<and>
        pick_release data (update_channel (ue_channel env)) = Inr (Some rel) \<and> tag_text rel = Inr tag \<and>
        version = dropWhile (\<lambda>c. c = CHR ''v'') tag \<and> version \<noteq> [] \<and> installed = Inr have_now \<and> have_now \<noteq> version \<and>
        \<not> is_downgrade have_now version)"
proof (cases "ue_json env github_releases_api")
  case (Some data)
  have body: "(let version' = dropWhile (\<lambda>c. c = CHR ''v'') tag
       in if version' = [] then exit_with 1
          else rbind (raised installed) (\<lambda>have_now. if have_now = version' then exit_with 0
            else if is_downgrade have_now version' then exit_with 0 else Inr (version', r))) = Inr (version, rel) \<longleftrightarrow>
      (\<exists>have_now. r = rel \<and> version = dropWhile (\<lambda>c. c = CHR ''v'') tag \<and> version \<noteq> [] \<and> installed = Inr have_now \<and>
        have_now \<noteq> version \<and> \<not> is_downgrade have_now version)" for tag r
    by (cases installed) (auto simp: Let_def raised_def)
  show ?thesis
    unfolding chosen_release_def Some option.case rbind_eq_Inr raised_Inr
  proof safe
    fix x assume "pick_release data (update_channel (ue_channel env)) = Inr x"
      and *: "(case x of None \<Rightarrow> exit_with 1 | Some r \<Rightarrow> rbind (raised (tag_text r)) (\<lambda>tag.
        let version' = dropWhile (\<lambda>c. c = CHR ''v'') tag
        in if version' = [] then exit_with 1
           else rbind (raised installed) (\<lambda>have_now. if have_now = version' then exit_with 0
             else if is_downgrade have_now version' then exit_with 0 else Inr (version', r)))) = Inr (version, rel)"
    then show "\<exists>data' tag have_now. Some data = Some data' \<and>
        pick_release data' (update_channel (ue_channel env)) = Inr (Some rel) \<and> tag_text rel = Inr tag \<and>
        version = dropWhile (\<lambda>c. c = CHR ''v'') tag \<and> version \<noteq> [] \<and> installed = Inr have_now \<and> have_now \<noteq> version \<and>
        \<not> is_downgrade have_now version"
      by (cases x) (auto simp: rbind_eq_Inr body simp del: dropWhile_eq_Nil_conv)
  next
    fix data' tag have_now
    assume "pick_release data' (update_channel (ue_channel env)) = Inr (Some rel)" "tag_text rel = Inr tag"
      "dropWhile (\<lambda>c. c = CHR ''v'') tag \<noteq> []" "have_now \<noteq> dropWhile (\<lambda>c. c = CHR ''v'') tag"
      "\<not> is_downgrade have_now (dropWhile (\<lambda>c. c = CHR ''v'') tag)"
    then show "\<exists>x. pick_release data' (update_channel (ue_channel env)) = Inr x \<and>
      (case x of None \<Rightarrow> exit_with 1 | Some r \<Rightarrow> rbind (raised (tag_text r)) (\<lambda>tag.
        let version' = dropWhile (\<lambda>c. c = CHR ''v'') tag
        in if version' = [] then exit_with 1
           else rbind (raised (Inr have_now)) (\<lambda>have_now. if have_now = version' then exit_with 0
             else if is_downgrade have_now version' then exit_with 0 else Inr (version', r)))) =
        Inr (dropWhile (\<lambda>c. c = CHR ''v'') tag, rel)"
      by (intro exI [of _ "Some rel"]) (simp add: raised_def Let_def)
  qed
qed (simp add: chosen_release_def)

text \<open>The running release protected from the pruning before the update.\<close>

lemma prune_running:
  assumes run: "running_release env prev m"
  shows "keeps (\<lambda>q. under (releases_dir env @ [prev]) q \<or> q = current_link env \<or> q \<in> set lives) m (prune_old_releases env phase m)"
proof (rule keeps_prune)
  have live: "link_name (mc_disk m) (current_link env) = Some prev" and stg: "\<not> contains ''.staging-'' prev"
    and lives: "\<And>l. l \<in> set lives \<Longrightarrow> sep l (ue_app env)"
    using run by (auto simp: running_release_def link_name_def releases_dir_def list_all_iff)
  show "off (\<lambda>q. under (releases_dir env @ [prev]) q \<or> q = current_link env \<or> q \<in> set lives) (releases_dir env @ [n])"
    if "Some n \<noteq> link_name (mc_disk m) (current_link env) \<or> contains ''.staging-'' n" for n
    using that live stg lives by auto
  show "off (\<lambda>q. under (releases_dir env @ [prev]) q \<or> q = current_link env \<or> q \<in> set lives) (ue_app env @ [n])"
    if n: "has_prefix ''.rollback-'' n" for n
  proof -
    have "n \<noteq> ''releases''" "n \<noteq> ''current''" using n by auto
    moreover have "sep l (ue_app env @ [n])" if "l \<in> set lives" for l using lives [OF that] sep_longer by blast
    ultimately show ?thesis by (simp add: releases_dir_def current_link_def)
  qed
qed

lemma running_installed:
  assumes run: "running_release env prev m"
    and k: "keeps (\<lambda>q. under (releases_dir env @ [prev]) q \<or> q = current_link env \<or> q \<in> set lives) m m'"
  shows "installed_version env (mc_disk m') = Inr prev"
proof -
  let ?p = "releases_dir env @ [prev, ''app'', ''jen'', ''__init__.py'']"
  obtain c where c: "dget (mc_disk m) ?p = Some (File c)" "version_line c = Some (Inr prev)"
    using run by (auto simp: running_release_def split: option.splits node.splits)
  have "under (releases_dir env @ [prev]) ?p" by (simp add: under_def)
  then have "dget (mc_disk m') ?p = Some (File c)" using keepsD [OF k, of ?p] c by simp
  moreover have "dget (mc_disk m') (current_link env) = Some (Symlink (releases_dir env @ [prev]))"
    using keepsD [OF k, of "current_link env"] run by (simp add: running_release_def)
  ultimately show ?thesis
    using file_at c(2) by (simp add: installed_version_def through_current_def)
qed

text \<open>An update that was started but did not end with success, from the disk the pruning leaves.\<close>

lemma apply_update_fails:
  assumes link: "dget (mc_disk m) (current_link env) = Some (Symlink (releases_dir env @ [prev]))"
    and stg: "\<not> contains ''.staging-'' prev" and lives: "\<And>l. l \<in> set lives \<Longrightarrow> sep l (ue_app env)"
    and plain: "\<And>l. l \<in> set lives \<Longrightarrow> plain (dget (mc_disk m) l)"
    and fresh: "\<And>q. under (snapshot_dir env) q \<Longrightarrow> dget (mc_disk m) q = None"
    and ne: "version \<noteq> prev" and tar: "relative_members env tarball"
    and ok: "\<And>c p. c \<in> {'':unlink'', '':symlink'', '':replace''} \<Longrightarrow> \<not> ue_fails env (''switch-back'' @ c) p"
    and upd: "apply_update env version tarball assets m = (res, m')" and res: "res \<noteq> Inr 0"
  shows "dget (mc_disk m') (current_link env) = Some (Symlink (releases_dir env @ [prev])) \<and> keeps (of_previous env prev) m m' \<and>
    (res = Inr 1 \<longrightarrow> mc_served m' \<in> {mc_served m, releases_dir env @ [prev]} \<and>
      (\<forall>l \<in> set lives. \<forall>c. dget (mc_disk m) l = Some (File c) \<longrightarrow> dget (mc_disk m') l = Some (File c)))"
proof -
  let ?prev = "releases_dir env @ [prev]" and ?snap = "snapshot_dir env" and ?rel = "releases_dir env @ [version]"
  define staging where "staging = releases_dir env @ [version @ ''.staging-'' @ show_nat (ue_time env ''staging'')]"
  have sne: "version @ ''.staging-'' @ show_nat (ue_time env ''staging'') \<noteq> prev" using stg contains_middle by metis
  let ?K = "\<lambda>q. under ?prev q \<or> q = current_link env \<or> q \<in> set lives"
  let ?good = "\<lambda>res n. dget (mc_disk n) (current_link env) = Some (Symlink ?prev) \<and> keeps (of_previous env prev) m n \<and>
    (res = Inr 1 \<longrightarrow> mc_served n \<in> {mc_served m, ?prev} \<and>
      (\<forall>l \<in> set lives. \<forall>c. dget (mc_disk m) l = Some (File c) \<longrightarrow> dget (mc_disk n) l = Some (File c)))"
  have offS: "off ?K staging" using lives sne by (simp add: staging_def)
  have early: "?good res n" if "keeps ?K m n" "same_service m n" for res and n
  proof -
    have "keeps (of_previous env prev) m n"
      using that(1) unfolding keeps_def by (rule agree_mono) (auto simp: of_previous_def)
    moreover have "dget (mc_disk n) (current_link env) = Some (Symlink ?prev)" using keepsD [OF that(1)] link by simp
    moreover have "dget (mc_disk n) l = dget (mc_disk m) l" if "l \<in> set lives" for l using keepsD [OF \<open>keeps ?K m n\<close>] that by simp
    ultimately show ?thesis using that(2) by (simp add: same_service_def)
  qed
  have clean: "?good res (if is_folder (mc_disk n) staging then rmtree_quiet env staging n else n)" if g: "?good res n" for res n
  proof -
    have k: "keeps ?K n (rmtree_quiet env staging n)" using offS by (rule keeps_rmtree_quiet)
    have "keeps (of_previous env prev) n (rmtree_quiet env staging n)"
      using k unfolding keeps_def by (rule agree_mono) (auto simp: of_previous_def)
    moreover have "mc_served (rmtree_quiet env staging n) = mc_served n" by (simp add: rmtree_quiet_def on_disk_def)
    moreover have "dget (mc_disk (rmtree_quiet env staging n)) l = dget (mc_disk n) l" if "l \<in> set lives \<or> l = current_link env" for l
      using keepsD [OF k] that by auto
    ultimately show ?thesis using g keeps_trans by auto
  qed
  define after_stage where "after_stage = (\<lambda>code n. case code of
      Some c \<Rightarrow> (Inr c, n) | None \<Rightarrow> switch_release env version (Some prev) staging n)"
  define r where "r = sbind (stage_release env tarball assets staging m) after_stage"
  have lk: "link_name (mc_disk m) (current_link env) = Some prev" using link by (simp add: link_name_def releases_dir_def)
  have "apply_update env version tarball assets m =
      (fst r, if is_folder (mc_disk (snd r)) staging then rmtree_quiet env staging (snd r) else snd r)"
    unfolding apply_update_def Let_def lk staging_def [symmetric] r_def after_stage_def
    by (rule refl)
  then have m': "m' = (if is_folder (mc_disk (snd r)) staging then rmtree_quiet env staging (snd r) else snd r)" and fst: "res = fst r"
    using upd by simp_all
  obtain s1 m1 where s1: "stage_release env tarball assets staging m = (s1, m1)" by fastforce
  have off1: "off (\<lambda>q. ?K q \<or> under ?snap q) staging" using offS by (simp add: staging_def)
  have k1: "keeps (\<lambda>q. ?K q \<or> under ?snap q) m m1" using keeps_stage [OF off1 tar, of m assets] s1 by simp
  have k1': "keeps ?K m m1" using k1 unfolding keeps_def by (rule agree_mono) simp
  have v1: "same_service m m1" using same_service_stage [of m env tarball assets staging] s1 by simp
  have "?good res (snd r)"
  proof (cases s1)
    case (Inl e)
    then have "snd r = m1" by (simp add: r_def s1 sbind_def)
    then show ?thesis using early [OF k1' v1] by (simp only:)
  next
    case code: (Inr code)
    show ?thesis
    proof (cases code)
      case (Some c)
      then have "snd r = m1" by (simp add: r_def s1 sbind_def code after_stage_def)
      then show ?thesis using early [OF k1' v1] by (simp only:)
    next
      case None
      obtain s2 m2 where s2: "snapshot_install env ?snap m1 = (s2, m2)" by fastforce
      have offK: "off ?K ?snap" using lives by simp
      have k2: "keeps ?K m1 m2" using keeps_snapshot [OF offK, where env = env and m = m1] s2 by simp
      have v2: "same_service m m2" using v1 same_service_snapshot [of m1 env ?snap] s2 by (simp add: same_service_def)
      have r2: "r = (case s2 of
          Inl e \<Rightarrow> (Inr 1, rmtree_quiet env ?snap m2)
        | Inr u \<Rightarrow> (case install_release env version False staging ?rel m2 of
                (Inl e, n) \<Rightarrow> sbind (rollback_release env ?snap (Some prev) ?rel n) (\<lambda>u n. (Inr 1, n))
              | (Inr u, n) \<Rightarrow> (Inr 0, prune_old_releases env ''after'' (rmtree_quiet env ?snap n))))"
        by (simp add: r_def s1 sbind_def code None after_stage_def switch_release_def Let_def s2 split: sum.split prod.split)
      show ?thesis
      proof (cases s2)
        case (Inl e)
        have "keeps ?K m (rmtree_quiet env ?snap m2)"
          using keeps_trans [OF k1' keeps_trans [OF k2 keeps_rmtree_quiet [OF offK]]] .
        moreover have "same_service m (rmtree_quiet env ?snap m2)" using v2 by (simp add: same_service_def rmtree_quiet_def on_disk_def)
        moreover have "snd r = rmtree_quiet env ?snap m2" by (simp add: r2 Inl)
        ultimately show ?thesis using early by (simp only:)
      next
        case (Inr u)
        obtain s3 m3 where s3: "install_release env version False staging ?rel m2 = (s3, m3)" by fastforce
        then obtain e where e: "s3 = Inl e" using res fst by (cases s3) (auto simp: r2 Inr)
        obtain s4 m4 where s4: "rollback_release env ?snap (Some prev) ?rel m3 = (s4, m4)" by fastforce
        have rr: "r = (case s4 of Inl e \<Rightarrow> Inl e | Inr u \<Rightarrow> Inr 1, m4)"
          by (simp add: r2 Inr s3 e s4 sbind_def split: sum.split)
        have "off (\<lambda>q. under ?prev q \<or> under ?snap q) x"
          if "x \<in> {staging, ?rel, current_link env, ue_app env @ [''current.tmp'']} \<union> set lives" for x
          using that lives sne ne by (auto simp: staging_def)
        then have k3: "keeps (\<lambda>q. under ?prev q \<or> under ?snap q) m2 m3"
          using keeps_install [where P = "\<lambda>q. under ?prev q \<or> under ?snap q" and staging = staging and release_dir = ?rel
            and env = env and version = version and m = m2] s3 ne by simp
        have saved: "dget (mc_disk m3) (?snap @ [''_ext'', x]) = Some (File c)"
          if ext: "(l, x) \<in> set ext_items" and before: "dget (mc_disk m) l = Some (File c)" for l x c
        proof -
          have l: "l \<in> set lives" using live_of_ext ext .
          have now: "dget (mc_disk m1) l = dget (mc_disk m) l" using keepsD [OF k1'] l by simp
          have "dget (mc_disk m1) (?snap @ [''_ext'', x]) = None" using keepsD [OF k1] fresh by simp
          then have "dget (mc_disk m2) (?snap @ [''_ext'', x]) = dget (mc_disk m1) l"
            using snapshot_holds [OF _ ext, of env ?snap m1 u m2] s2 Inr now plain [OF l] lives [OF l] by simp
          then show ?thesis using keepsD [OF k3, of "?snap @ [''_ext'', x]"] now before by simp
        qed
        note undone = rollback_restores [where before = "dget (mc_disk m)", OF lives ne ok saved s4]
        have "keeps (of_previous env prev) m m2"
          using keeps_trans [OF k1' k2] unfolding keeps_def by (rule agree_mono) (simp add: of_previous_def)
        moreover have "keeps (of_previous env prev) m2 m3"
          using k3 unfolding keeps_def by (rule agree_mono) (simp add: of_previous_def)
        ultimately have "keeps (of_previous env prev) m m3" by (rule keeps_trans)
        then have "keeps (of_previous env prev) m m4" using undone(2) by (rule keeps_trans)
        moreover have "\<exists>x. (l, x) \<in> set ext_items" if "l \<in> set lives" for l using that by (auto simp: lives_def)
        moreover have "s4 = Inr ()" if "res = Inr 1" using that fst by (simp add: rr split: sum.splits)
        ultimately show ?thesis using undone(1) undone(3) unfolding rr snd_conv by fast
      qed
    qed
  qed
  from clean [OF this] show ?thesis unfolding m' .
qed

text \<open>
  C39. A failed update leaves the running release. On a versioned install whose archives unpack below the staging
  directory, a run of the updater that does not succeed, at whatever step and whatever call of the file system
  fails on the way, as long as the link itself can be put back, ends with \<open>current\<close> pointing to the release that
  was live and with that release untouched; and when the run ends by itself, the external files that existed are
  what they were and the service runs from where it ran or from that release.
\<close>

theorem failed_update_keeps_previous:
  assumes run: "running_release env prev m" and tar: "\<And>t. relative_members env t"
    and ok: "\<And>c p. c \<in> {'':unlink'', '':symlink'', '':replace''} \<Longrightarrow> \<not> ue_fails env (''switch-back'' @ c) p"
    and upd: "self_update env m = (res, m')" and res: "res \<noteq> Inr 0"
  shows "dget (mc_disk m') (current_link env) = Some (Symlink (releases_dir env @ [prev])) \<and> keeps (of_previous env prev) m m' \<and>
    (res = Inr 1 \<longrightarrow> mc_served m' \<in> {mc_served m, releases_dir env @ [prev]} \<and>
      (\<forall>l \<in> set lives. \<forall>c. dget (mc_disk m) l = Some (File c) \<longrightarrow> dget (mc_disk m') l = Some (File c)))"
proof -
  define m0 where "m0 = prune_old_releases env ''before'' m"
  have k0: "keeps (\<lambda>q. under (releases_dir env @ [prev]) q \<or> q = current_link env \<or> q \<in> set lives) m m0"
    unfolding m0_def using run by (rule prune_running)
  have served: "mc_served m0 = mc_served m" using same_service_prune [of m env "''before''"] by (simp add: m0_def same_service_def)
  have link: "dget (mc_disk m0) (current_link env) = Some (Symlink (releases_dir env @ [prev]))"
    using keepsD [OF k0, of "current_link env"] run by (simp add: running_release_def)
  have live: "dget (mc_disk m0) l = dget (mc_disk m) l" if "l \<in> set lives" for l using keepsD [OF k0, of l] that by simp
  have prev: "keeps (of_previous env prev) m m0"
    using k0 unfolding keeps_def by (rule agree_mono) (simp add: of_previous_def)
  define found where "found = rbind (chosen_release env (installed_version env (mc_disk m0))) (\<lambda>(version, rel).
      rbind (raised (py_iter (jget_default rel ''assets'' (JList [])))) (\<lambda>assets.
      rbind (verified_tarball env assets) (\<lambda>tarball. Inr (version, assets, tarball))))"
  show ?thesis
  proof (cases found)
    case (Inl stop)
    then have "m' = m0" using upd by (auto simp: self_update_def Let_def m0_def [symmetric] found_def [symmetric] split: sum.splits)
    then show ?thesis using link prev live served by simp
  next
    case (Inr vat)
    obtain version assets tarball where vat: "vat = (version, assets, tarball)" by (cases vat)
    then obtain rel where "chosen_release env (installed_version env (mc_disk m0)) = Inr (version, rel)"
      using Inr by (auto simp: found_def rbind_eq_Inr)
    then have ne: "version \<noteq> prev" unfolding chosen_release_Inr running_installed [OF run k0] by auto
    have upd': "apply_update env version tarball assets m0 = (res, m')"
      using upd Inr vat by (simp add: self_update_def Let_def m0_def [symmetric] found_def [symmetric])
    have "plain (dget (mc_disk m0) l)" if "l \<in> set lives" for l
      using run that live [OF that] by (simp add: running_release_def list_all_iff)
    moreover have "dget (mc_disk m0) q = None" if "under (snapshot_dir env) q" for q
      unfolding m0_def using run that by (intro prune_none) (auto simp: running_release_def intro: not_in_disk)
    moreover have "\<not> contains ''.staging-'' prev" "\<And>l. l \<in> set lives \<Longrightarrow> sep l (ue_app env)"
      using run by (auto simp: running_release_def list_all_iff)
    ultimately have *: "dget (mc_disk m') (current_link env) = Some (Symlink (releases_dir env @ [prev])) \<and> keeps (of_previous env prev) m0 m' \<and>
      (res = Inr 1 \<longrightarrow> mc_served m' \<in> {mc_served m0, releases_dir env @ [prev]} \<and>
        (\<forall>l \<in> set lives. \<forall>c. dget (mc_disk m0) l = Some (File c) \<longrightarrow> dget (mc_disk m') l = Some (File c)))"
      using apply_update_fails [OF link _ _ _ _ ne tar ok upd' res] by blast
    then have "keeps (of_previous env prev) m m'" using prev keeps_trans by blast
    then show ?thesis using * live served by simp
  qed
qed

section \<open>Only what is signed and newer\<close>

text \<open>
  What must hold of the answers of GitHub before anything of a release is written: the release is one of the
  listing that the channel may see and none of those is newer, it is neither the installed version nor older,
  every address is a download link of the repository, the checksum file is signed under the release
  namespace, and the hash of the tarball is the one the file gives for its name.
\<close>

definition trusted :: "upd_env \<Rightarrow> string \<Rightarrow> string \<Rightarrow> string \<Rightarrow> bool" where
  "trusted env installed version tarball =
     (\<exists>data rels rel url checksum_url sig_url checksums signature.
        ue_json env github_releases_api = Some data \<and> iter_or_empty data = Inr rels \<and> rel \<in> set rels \<and>
        usable (update_channel (ue_channel env)) rel \<and>
        (\<forall>other \<in> set rels. usable (update_channel (ue_channel env)) other \<longrightarrow> tag_version other \<le> tag_version rel) \<and>
        tag_version rel = parse_version version \<and> version \<noteq> installed \<and> parse_version installed \<le> parse_version version \<and>
        list_all (has_prefix github_asset_prefix) [url, checksum_url, sig_url] \<and>
        ue_text env checksum_url = Some checksums \<and> ue_text env sig_url = Some signature \<and>
        ue_signed env release_namespace checksums signature \<and> ue_bytes env url = Some tarball \<and>
        expected_hash (last_piece (CHR ''/'') url) checksums = Some (ue_sha env tarball))"

lemma better_picks:
  assumes "better channel best rels = r" and "\<And>b. best = Some b \<Longrightarrow> usable channel b"
  shows "(case r of
      None \<Rightarrow> best = None \<and> (\<forall>rel \<in> set rels. \<not> usable channel rel)
    | Some b \<Rightarrow> (b \<in> set rels \<or> best = Some b) \<and> usable channel b \<and>
        (\<forall>rel \<in> set rels \<union> set_option best. usable channel rel \<longrightarrow> tag_version rel \<le> tag_version b))"
  using assms
proof (induction channel best rels arbitrary: r rule: better.induct)
  case (1 channel best)
  then show ?case by (auto split: option.split)
next
  case (2 channel best rel rest)
  define next_best where "next_best = (if \<not> usable channel rel then best
      else case best of None \<Rightarrow> Some rel | Some b \<Rightarrow> (if tag_version rel > tag_version b then Some rel else best))"
  have ih: "case r of
      None \<Rightarrow> next_best = None \<and> (\<forall>x \<in> set rest. \<not> usable channel x)
    | Some b \<Rightarrow> (b \<in> set rest \<or> next_best = Some b) \<and> usable channel b \<and>
        (\<forall>x \<in> set rest \<union> set_option next_best. usable channel x \<longrightarrow> tag_version x \<le> tag_version b)"
    unfolding next_best_def
  proof (rule "2.IH")
    show "better channel (if \<not> usable channel rel then best
        else case best of None \<Rightarrow> Some rel | Some b \<Rightarrow> (if tag_version rel > tag_version b then Some rel else best)) rest = r"
      using "2.prems"(1) by simp
    show "usable channel b" if "(if \<not> usable channel rel then best
        else case best of None \<Rightarrow> Some rel | Some b \<Rightarrow> (if tag_version rel > tag_version b then Some rel else best)) = Some b" for b
      using that "2.prems"(2) by (auto split: if_splits option.splits)
  qed
  have best: "usable channel b" if "best = Some b" for b using "2.prems"(2) that .
  show ?case
  proof (cases r)
    case None
    then show ?thesis using ih by (auto simp: next_best_def split: if_splits option.splits)
  next
    case (Some b)
    have max: "tag_version x \<le> tag_version b" if "x \<in> set rest \<or> next_best = Some x" "usable channel x" for x
      using ih Some that by auto
    have "tag_version x \<le> tag_version b" if x: "x = rel \<or> best = Some x" "usable channel x" for x
    proof -
      have "\<exists>y. next_best = Some y \<and> usable channel y \<and> tag_version x \<le> tag_version y"
        using x best by (auto simp: next_best_def split: option.split)
      then show ?thesis using max order_trans by blast
    qed
    moreover have "b \<in> set (rel # rest) \<or> best = Some b"
      using ih Some by (auto simp: next_best_def split: if_splits option.splits)
    ultimately show ?thesis using ih Some max by auto
  qed
qed

lemma asset_link_Inr: "asset_link v = Inr u \<longleftrightarrow> truthy v \<and> text_value v = Inr u \<and> has_prefix github_asset_prefix u"
  by (cases "text_value v") (auto simp: asset_link_def raised_def exit_with_def)

lemma fetched_Inr: "fetched a = Inr t \<longleftrightarrow> a = Some t"
  by (simp add: fetched_def split: option.split)

lemma pick_release_best:
  assumes "pick_release data channel = Inr (Some rel)"
  shows "\<exists>rels. iter_or_empty data = Inr rels \<and> rel \<in> set rels \<and> usable channel rel \<and>
    (\<forall>other \<in> set rels. usable channel other \<longrightarrow> tag_version other \<le> tag_version rel)"
proof -
  obtain rels where rels: "iter_or_empty data = Inr rels" "better channel None rels = Some rel"
    using assms by (auto simp: pick_release_def rbind_eq_Inr)
  then show ?thesis using better_picks [OF rels(2)] by auto
qed

lemma trusted_found:
  assumes c: "chosen_release env installed = Inr (version, rel)" and v: "verified_tarball env assets = Inr tarball"
  obtains have_now where "installed = Inr have_now" and "trusted env have_now version tarball"
proof -
  obtain data tag have_now where data: "ue_json env github_releases_api = Some data"
    and pick: "pick_release data (update_channel (ue_channel env)) = Inr (Some rel)" and tag: "tag_text rel = Inr tag"
    and version: "version = dropWhile (\<lambda>c. c = CHR ''v'') tag" and now: "installed = Inr have_now" "have_now \<noteq> version"
      "\<not> is_downgrade have_now version"
    using c unfolding chosen_release_Inr by blast
  obtain rels where rels: "iter_or_empty data = Inr rels" "rel \<in> set rels" "usable (update_channel (ue_channel env)) rel"
      "\<forall>other \<in> set rels. usable (update_channel (ue_channel env)) other \<longrightarrow> tag_version other \<le> tag_version rel"
    using pick_release_best [OF pick] by blast
  have tv: "tag_version rel = parse_version version"
    using tag version by (auto simp: tag_text_def tag_version_def split: json.splits)
  have least: "no_version \<le> k" for k :: version by (cases k) (simp add: no_version_def less_eq_prod_def)
  have le: "parse_version have_now \<le> parse_version version"
    using now(3) least [of "parse_version version"] by (auto simp: is_downgrade_def not_less simp del: split_paired_All)
  obtain url checksum_url sig_url checksums signature where
    urls: "has_prefix github_asset_prefix url" "has_prefix github_asset_prefix checksum_url" "has_prefix github_asset_prefix sig_url"
    and got: "ue_text env checksum_url = Some checksums" "ue_text env sig_url = Some signature"
      "ue_signed env release_namespace checksums signature" "ue_bytes env url = Some tarball"
      "verify_release_checksum (last_piece (CHR ''/'') url) (ue_sha env tarball) checksums"
    using v unfolding verified_tarball_def rbind_eq_Inr raised_Inr asset_link_Inr fetched_Inr
    by (auto split: if_splits option.splits)
  have "trusted env have_now version tarball"
    unfolding trusted_def using data rels tv now(2) le urls got
    by (intro exI conjI) (auto simp: verify_release_checksum_def)
  then show thesis using that now(1) by blast
qed

text \<open>A run that does more than pruning applies one update.\<close>

lemma update_runs:
  assumes "self_update env m = (res, m')" and "m' \<noteq> prune_old_releases env ''before'' m"
  shows "\<exists>have_now version tarball assets. installed_version env (mc_disk (prune_old_releases env ''before'' m)) = Inr have_now \<and>
    trusted env have_now version tarball \<and>
    apply_update env version tarball assets (prune_old_releases env ''before'' m) = (res, m')"
proof -
  define m0 where "m0 = prune_old_releases env ''before'' m"
  define found where "found = rbind (chosen_release env (installed_version env (mc_disk m0))) (\<lambda>(version, rel).
      rbind (raised (py_iter (jget_default rel ''assets'' (JList [])))) (\<lambda>assets.
      rbind (verified_tarball env assets) (\<lambda>tarball. Inr (version, assets, tarball))))"
  have run: "self_update env m = (case found of
      Inl (Inl e) \<Rightarrow> (Inl e, m0) | Inl (Inr code) \<Rightarrow> (Inr code, m0)
    | Inr (version, assets, tarball) \<Rightarrow> apply_update env version tarball assets m0)"
    unfolding self_update_def Let_def m0_def found_def by (rule refl)
  then obtain version assets tarball where f: "found = Inr (version, assets, tarball)"
    using assms by (auto simp: m0_def split: sum.splits)
  then obtain rel where rel: "chosen_release env (installed_version env (mc_disk m0)) = Inr (version, rel)"
    and t: "verified_tarball env assets = Inr tarball"
    by (auto simp: found_def rbind_eq_Inr)
  obtain have_now where "installed_version env (mc_disk m0) = Inr have_now" "trusted env have_now version tarball"
    using trusted_found [OF rel t] .
  then show ?thesis using run f assms(1) unfolding m0_def by auto
qed


section \<open>A successful update\<close>

lemma confirmed_by:
  "confirm_running_version answers version i left = Inr v \<Longrightarrow>
     \<exists>k < left. answers (i + k) = Some version \<and> (\<forall>j < k. answers (i + j) = None)"
proof (induction answers version i left rule: confirm_running_version.induct)
  case (2 answers version i left)
  show ?case
  proof (cases "answers i")
    case None
    then obtain k where k: "k < left" "answers (i + 1 + k) = Some version" "\<forall>j < k. answers (i + 1 + j) = None"
      using "2.IH" [OF None] "2.prems" by auto
    have "\<forall>j < Suc k. answers (i + j) = None" using k(3) None by (auto simp: less_Suc_eq_0_disj)
    then show ?thesis using k by (intro exI [of _ "Suc k"]) auto
  next
    case (Some running)
    then show ?thesis using "2.prems" by (intro exI [of _ 0]) (auto split: if_splits)
  qed
qed simp

lemma prune_keeps_link: "keeps (\<lambda>q. q = current_link env) m (prune_old_releases env phase m)"
proof (rule keeps_prune)
  show "off (\<lambda>q. q = current_link env) (ue_app env @ [n])" if "has_prefix ''.rollback-'' n" for n
    using that by (auto simp: current_link_def)
qed simp

lemma leftovers_keep_link: "keeps (\<lambda>q. q = current_link env) m (remove_flat_leftovers env m)"
proof -
  have "off (\<lambda>q. q = current_link env) (ue_app env @ [item])" if "item \<in> set flat_leftovers" for item
    using that by (auto simp: current_link_def flat_leftovers_def rollback_items_def)
  then show ?thesis
    unfolding remove_flat_leftovers_def remove_leftover_def Let_def
    by (intro keeps_fold) (auto intro!: keeps_suppressed keeps_drop keeps_rmtree_quiet)
qed

lemma leftovers_same_service: "same_service m (remove_flat_leftovers env m)"
  unfolding remove_flat_leftovers_def remove_leftover_def Let_def
  by (intro same_service_fold) (auto simp: suppressed_def)

lemma install_release_done:
  assumes "install_release env version mig staging rel m = (Inr u, m')"
  shows "dget (mc_disk m') (current_link env) = Some (Symlink (releases_dir env @ [version])) \<and>
    mc_served m' = releases_dir env @ [version] \<and> ue_healthy env ''update'' \<and>
    (\<exists>k < 5. ue_answers env k = Some version \<and> (\<forall>j < k. ue_answers env j = None))"
proof -
  obtain m5 m6 where m6: "switch_current env ''switch'' version m5 = (Inr (), m6)" and m': "m' = restart_jen env m6"
    and h: "ue_healthy env ''update''" and c: "\<exists>v. confirm_running_version (ue_answers env) version 0 5 = Inr v"
    using assms unfolding install_release_def sbind_def Let_def by (auto split: sum.splits prod.splits if_splits)
  have "dget (mc_disk m6) (current_link env) = Some (Symlink (releases_dir env @ [version]))"
    using m6 unfolding switch_current_def sbind_def Let_def call_os_def by (auto split: if_splits sum.splits prod.splits)
  then show ?thesis using confirmed_by c h by (fastforce simp: m' restart_jen_def through_current_def)
qed

lemma switch_release_ends:
  assumes "switch_release env version prev staging m = (Inr 0, n)"
  shows "\<exists>mig rel m1 m2 m3. install_release env version mig staging rel m1 = (Inr (), m2) \<and>
    m3 \<in> {m2, remove_flat_leftovers env m2} \<and> n = prune_old_releases env ''after'' (rmtree_quiet env (snapshot_dir env) m3)"
proof -
  obtain s1 m1 where s1: "snapshot_install env (snapshot_dir env) m = (s1, m1)" by fastforce
  with assms have "s1 = Inr ()" by (cases s1) (simp_all add: switch_release_def)
  moreover obtain s2 m2 where s2: "install_release env version (prev = None) staging (releases_dir env @ [version]) m1 = (s2, m2)"
    by fastforce
  moreover from calculation assms s1 have "s2 = Inr ()"
    by (cases s2) (auto simp: switch_release_def sbind_def split: sum.splits prod.splits)
  ultimately show ?thesis
    using assms s1 by (intro exI [of _ "prev = None"] exI [of _ "releases_dir env @ [version]"] exI [of _ m1] exI [of _ m2]
      exI [of _ "if prev = None then remove_flat_leftovers env m2 else m2"]) (simp add: switch_release_def Let_def)
qed

lemma stage_exits: "fst (stage_release env tarball assets staging m) \<noteq> Inr (Some 0)"
  unfolding stage_release_def by (auto simp: sbind_def Let_def split: sum.splits prod.splits option.splits if_splits)

lemma apply_update_ends:
  assumes "apply_update env version tarball assets m = (Inr 0, m')"
  shows "\<exists>mS n. switch_release env version (link_name (mc_disk m) (current_link env))
      (releases_dir env @ [version @ ''.staging-'' @ show_nat (ue_time env ''staging'')]) mS = (Inr 0, n) \<and>
    m' = (if is_folder (mc_disk n) (releases_dir env @ [version @ ''.staging-'' @ show_nat (ue_time env ''staging'')])
          then rmtree_quiet env (releases_dir env @ [version @ ''.staging-'' @ show_nat (ue_time env ''staging'')]) n else n)"
proof -
  define staging where "staging = releases_dir env @ [version @ ''.staging-'' @ show_nat (ue_time env ''staging'')]"
  obtain s1 mS where s1: "stage_release env tarball assets staging m = (s1, mS)" by fastforce
  have r: "sbind (stage_release env tarball assets staging m) (\<lambda>code m.
      case code of Some c \<Rightarrow> (Inr c, m)
      | None \<Rightarrow> switch_release env version prev staging m) =
    (case s1 of Inl e \<Rightarrow> (Inl e, mS) | Inr (Some c) \<Rightarrow> (Inr c, mS) | Inr None \<Rightarrow> switch_release env version prev staging mS)" for prev
    by (simp add: s1 sbind_def split: sum.split option.split)
  show ?thesis
    using assms stage_exits [of env tarball assets staging m] s1 unfolding apply_update_def Let_def staging_def [symmetric] r
    by (auto split: sum.splits option.splits simp: prod_eq_iff)
qed

text \<open>
  C40. A successful update is a confirmed one. When a run of the updater ends with success after doing more than
  pruning, \<open>current\<close> points to the release it installed, the service was restarted from there and came back
  healthy, and within five tries the running process itself reported that version, with no other answer before.
\<close>

theorem update_confirmed:
  assumes "self_update env m = (Inr 0, m')" and "m' \<noteq> prune_old_releases env ''before'' m"
  shows "\<exists>version. dget (mc_disk m') (current_link env) = Some (Symlink (releases_dir env @ [version])) \<and>
    mc_served m' = releases_dir env @ [version] \<and> ue_healthy env ''update'' \<and>
    (\<exists>k < 5. ue_answers env k = Some version \<and> (\<forall>j < k. ue_answers env j = None))"
proof -
  define m0 where "m0 = prune_old_releases env ''before'' m"
  obtain version tarball assets where upd: "apply_update env version tarball assets m0 = (Inr 0, m')"
    using update_runs [OF assms] unfolding m0_def by blast
  define staging where "staging = releases_dir env @ [version @ ''.staging-'' @ show_nat (ue_time env ''staging'')]"
  obtain mS n where sw: "switch_release env version (link_name (mc_disk m0) (current_link env)) staging mS = (Inr 0, n)"
    and m': "m' = (if is_folder (mc_disk n) staging then rmtree_quiet env staging n else n)"
    using apply_update_ends [OF upd] unfolding staging_def by blast
  obtain mig rel m1 m2 m3 where inst: "install_release env version mig staging rel m1 = (Inr (), m2)"
    and m3: "m3 \<in> {m2, remove_flat_leftovers env m2}"
    and n: "n = prune_old_releases env ''after'' (rmtree_quiet env (snapshot_dir env) m3)"
    using switch_release_ends [OF sw] by blast
  have "keeps (\<lambda>q. q = current_link env) m2 m' \<and> same_service m2 m'"
  proof -
    let ?P = "\<lambda>q. q = current_link env"
    have 1: "keeps ?P m2 m3 \<and> same_service m2 m3" using m3 leftovers_keep_link leftovers_same_service by auto
    have 2: "keeps ?P m3 (rmtree_quiet env (snapshot_dir env) m3)" by (intro keeps_rmtree_quiet) simp
    have 3: "keeps ?P n (rmtree_quiet env staging n)" for n by (intro keeps_rmtree_quiet) (simp add: staging_def)
    have "keeps ?P m3 m'" using keeps_trans [OF keeps_trans [OF 2 prune_keeps_link] 3] keeps_trans [OF 2 prune_keeps_link]
      by (simp add: m' n)
    moreover have "same_service m3 m'"
      using same_service_prune [of "rmtree_quiet env (snapshot_dir env) m3" env "''after''"]
      by (simp add: m' n same_service_def rmtree_quiet_def on_disk_def)
    ultimately show ?thesis using 1 keeps_trans by (auto simp: same_service_def)
  qed
  then have "dget (mc_disk m') (current_link env) = dget (mc_disk m2) (current_link env)" "mc_served m' = mc_served m2"
    using keepsD [of _ m2 m' "current_link env"] by (auto simp: same_service_def)
  then show ?thesis using install_release_done [OF inst] by auto
qed

section \<open>An update of 5.0.0 to 5.1.0\<close>

definition up_link :: "string \<Rightarrow> string" where
  "up_link name = github_asset_prefix @ ''v5.1.0/'' @ name"

definition up_asset :: "string \<Rightarrow> json" where
  "up_asset name = JObj [(''name'', JStr name), (''browser_download_url'', JStr (up_link name))]"

definition up_listing :: json where
  "up_listing = JList
     [JObj [(''tag_name'', JStr ''v5.2.0-beta.1''), (''prerelease'', JBool True)],
      JObj [(''tag_name'', JStr ''v5.1.0''),
            (''assets'', JList [up_asset ''jen-v5.1.0.tar.gz'', up_asset ''SHA256SUMS'', up_asset ''SHA256SUMS.sig''])]]"

definition up_env :: "bool \<Rightarrow> upd_env" where
  "up_env healthy =
     \<lparr>ue_app = [''opt'', ''jen''], ue_config = [''etc'', ''jen''], ue_data = [''var'', ''lib'', ''jen''], ue_channel = None,
      ue_json = (\<lambda>u. Some up_listing),
      ue_text = (\<lambda>u. Some (if u = up_link ''SHA256SUMS'' then ''abc  jen-v5.1.0.tar.gz'' else ''signature'')),
      ue_bytes = (\<lambda>u. Some ''tarball''), ue_sha = (\<lambda>b. ''abc''), ue_signed = (\<lambda>n c sig. True),
      ue_tar = (\<lambda>t. Some [(''jen/jen/__init__.py'', Regular, ''JEN_VERSION = 5.1.0''), (''jen/jen-sudoers'', Regular, ''new'')]),
      ue_venv = Some [], ue_pip = True, ue_staged = True, ue_probe = True,
      ue_healthy = (\<lambda>phase. healthy \<or> phase = ''rollback''), ue_answers = (\<lambda>i. if i = 0 then None else Some ''5.1.0''),
      ue_visudo = (\<lambda>c. True), ue_time = (\<lambda>phase. 7), ue_mtime = (\<lambda>phase p. 0), ue_fails = (\<lambda>c p. False),
      ue_partial = (\<lambda>p. []), ue_copied = (\<lambda>p. True), ue_stays = (\<lambda>p. False)\<rparr>"

definition up_start :: machine where
  "up_start =
     \<lparr>mc_disk =
        [([''opt'', ''jen'', ''current''], Symlink [''opt'', ''jen'', ''releases'', ''5.0.0'']),
         ([''opt'', ''jen'', ''releases'', ''5.0.0''], Folder),
         ([''opt'', ''jen'', ''releases'', ''5.0.0'', ''app'', ''jen'', ''__init__.py''], File ''JEN_VERSION = 5.0.0''),
         ([''etc'', ''sudoers.d'', ''jen''], File ''old'')],
      mc_served = [''opt'', ''jen'', ''releases'', ''5.0.0'']\<rparr>"

definition up_tree :: "fpath \<Rightarrow> disk" where
  "up_tree top_dir =
     [(top_dir, Folder), (top_dir @ [''app''], Folder), (top_dir @ [''app'', ''jen''], Folder),
      (top_dir @ [''app'', ''jen'', ''__init__.py''], File ''JEN_VERSION = 5.1.0''), (top_dir @ [''app'', ''jen-sudoers''], File ''new''),
      (top_dir @ [''venv''], Folder)]"

definition up_parents :: disk where
  "up_parents = [([''opt''], Folder), ([''opt'', ''jen''], Folder), ([''opt'', ''jen'', ''releases''], Folder)]"

definition up_saved :: disk where
  "up_saved =
     [([''opt'', ''jen'', ''.rollback-7''], Folder), ([''opt'', ''jen'', ''.rollback-7'', ''_ext''], Folder),
      ([''opt'', ''jen'', ''.rollback-7'', ''_ext'', ''sudoers-jen''], File ''old'')]"

definition up_staging :: fpath where
  "up_staging = [''opt'', ''jen'', ''releases'', ''5.1.0.staging-7'']"

definition up_staged :: machine where
  "up_staged = up_start\<lparr>mc_disk := mc_disk up_start @ up_parents @ up_tree up_staging\<rparr>"

definition up_snapped :: machine where
  "up_snapped = up_staged\<lparr>mc_disk := mc_disk up_staged @ up_saved\<rparr>"

definition up_switched :: machine where
  "up_switched =
     \<lparr>mc_disk = up_tree [''opt'', ''jen'', ''releases'', ''5.1.0''] @
        [([''opt'', ''jen'', ''current''], Symlink [''opt'', ''jen'', ''releases'', ''5.1.0'']),
         ([''opt'', ''jen'', ''releases'', ''5.0.0''], Folder),
         ([''opt'', ''jen'', ''releases'', ''5.0.0'', ''app'', ''jen'', ''__init__.py''], File ''JEN_VERSION = 5.0.0''),
         ([''etc'', ''sudoers.d'', ''jen''], File ''new'')] @ up_parents @ up_saved,
      mc_served = [''opt'', ''jen'', ''releases'', ''5.1.0'']\<rparr>"

definition up_assets :: "json list" where
  "up_assets = [up_asset ''jen-v5.1.0.tar.gz'', up_asset ''SHA256SUMS'', up_asset ''SHA256SUMS.sig'']"

lemma up_pruned: "prune_old_releases (up_env h) ''before'' up_start = up_start" by code_simp

lemma up_chosen:
  "chosen_release (up_env h) (installed_version (up_env h) (mc_disk up_start)) =
     Inr (''5.1.0'', JObj [(''tag_name'', JStr ''v5.1.0''), (''assets'', JList up_assets)])"
proof -
  have "installed_version (up_env h) (mc_disk up_start) = Inr ''5.0.0''" by code_simp
  moreover have "chosen_release (up_env h) (Inr ''5.0.0'') =
      Inr (''5.1.0'', JObj [(''tag_name'', JStr ''v5.1.0''), (''assets'', JList up_assets)])" by code_simp
  ultimately show ?thesis by simp
qed

lemma up_verified: "verified_tarball (up_env h) up_assets = Inr ''tarball''" by code_simp

definition up_extracted :: machine where
  "up_extracted = up_start\<lparr>mc_disk := mc_disk up_start @ up_parents @ butlast (up_tree up_staging)\<rparr>"

lemma up_never_fails [simp]: "ue_fails (up_env h) c p = False"
  by (simp add: up_env_def)

lemma up_calls: "call_os (up_env h) c p f m = (Inr (), on_disk f m)"
    "write_file (up_env h) c p x m = (Inr (), on_disk (put_node p (File x)) m)"
  by (simp_all add: call_os_def write_file_def)

lemma up_extract: "extract_release (up_env h) ''tarball'' (up_staging @ [''app'']) up_start = (Inr (), up_extracted)"
proof -
  let ?app = "up_staging @ [''app'']"
  define placed where "placed = (\<lambda>p c. on_disk (put_node p (File c)) \<circ> on_disk (make_dirs (butlast p)))"
  have m: "extract_member (up_env h) ?app (name, Regular, c) m = (Inr (), placed (member_path ?app (drop 4 name)) c m)" for name c m
    by (simp add: extract_member_def Let_def up_calls sbind_def placed_def)
  have tar: "ue_tar (up_env h) ''tarball'' =
      Some [(''jen/jen/__init__.py'', Regular, ''JEN_VERSION = 5.1.0''), (''jen/jen-sudoers'', Regular, ''new'')]"
    by (simp add: up_env_def)
  have ok: "filter accepted_member [(''jen/jen/__init__.py'', Regular, ''JEN_VERSION = 5.1.0''), (''jen/jen-sudoers'', Regular, ''new'')] =
      [(''jen/jen/__init__.py'', Regular, ''JEN_VERSION = 5.1.0''), (''jen/jen-sudoers'', Regular, ''new'')]"
    by code_simp
  have paths: "member_path ?app (drop 4 ''jen/jen/__init__.py'') = up_staging @ [''app'', ''jen'', ''__init__.py'']"
    "member_path ?app (drop 4 ''jen/jen-sudoers'') = up_staging @ [''app'', ''jen-sudoers'']"
    by code_simp+
  have "placed (up_staging @ [''app'', ''jen-sudoers'']) ''new''
      (placed (up_staging @ [''app'', ''jen'', ''__init__.py'']) ''JEN_VERSION = 5.1.0'' (on_disk (make_dirs ?app) up_start)) = up_extracted"
    unfolding placed_def comp_def by code_simp
  then show ?thesis
    unfolding extract_release_def tar option.case ok
    by (simp only: up_calls sbind_def each.simps m paths prod.case sum.case)
qed

lemma up_stage: "stage_release (up_env h) ''tarball'' up_assets up_staging up_start = (Inr None, up_staged)"
proof -
  have "is_folder (mc_disk up_extracted) (up_staging @ [''app'', ''jen''])" by code_simp
  moreover have "install_kea_helper_signature (up_env h) (up_staging @ [''app'']) up_assets up_extracted = (Inr (), up_extracted)"
    by code_simp
  moreover have "on_disk (place_venv (up_staging @ [''venv'']) []) up_extracted = up_staged" by code_simp
  moreover have "ue_venv (up_env h) = Some []" "ue_pip (up_env h)" "ue_staged (up_env h)" "ue_probe (up_env h)"
    by (simp_all add: up_env_def)
  ultimately show ?thesis
    by (simp add: stage_release_def up_extract sbind_def Let_def install_python_dependencies_def)
qed

lemma up_snap: "snapshot_install (up_env h) (snapshot_dir (up_env h)) up_staged = (Inr (), up_snapped)" by code_simp

lemma up_install:
  "install_release (up_env h) ''5.1.0'' False up_staging [''opt'', ''jen'', ''releases'', ''5.1.0''] up_snapped =
     (if h then Inr () else Inl RuntimeError, up_switched)"
proof (cases h)
  case True
  then show ?thesis by (simp only:) code_simp
next
  case False
  then show ?thesis by (simp only:) code_simp
qed

lemma up_undo:
  "fst (rollback_release (up_env False) (snapshot_dir (up_env False)) (Some ''5.0.0'') [''opt'', ''jen'', ''releases'', ''5.1.0''] up_switched) = Inr ()"
  by code_simp

lemma up_run: "self_update (up_env h) up_start = apply_update (up_env h) ''5.1.0'' ''tarball'' up_assets up_start"
proof -
  have "py_iter (jget_default (JObj [(''tag_name'', JStr ''v5.1.0''), (''assets'', JList up_assets)]) ''assets'' (JList [])) = Inr up_assets"
    by code_simp
  then show ?thesis
    by (simp add: self_update_def Let_def up_pruned up_chosen up_verified raised_def)
qed

lemma up_result: "fst (self_update (up_env h) up_start) = (if h then Inr 0 else Inr 1)"
proof -
  have "link_name (mc_disk up_start) (current_link (up_env h)) = Some ''5.0.0''" by code_simp
  moreover have "releases_dir (up_env h) @ [''5.1.0'' @ ''.staging-'' @ show_nat (ue_time (up_env h) ''staging'')] = up_staging"
    by code_simp
  moreover have "releases_dir (up_env h) @ [''5.1.0''] = [''opt'', ''jen'', ''releases'', ''5.1.0'']" by code_simp
  moreover obtain n where "rollback_release (up_env False) (snapshot_dir (up_env False)) (Some ''5.0.0'')
      [''opt'', ''jen'', ''releases'', ''5.1.0''] up_switched = (Inr (), n)"
    using up_undo by (metis prod.collapse)
  ultimately have "fst (apply_update (up_env h) ''5.1.0'' ''tarball'' up_assets up_start) = (if h then Inr 0 else Inr 1)"
    unfolding apply_update_def Let_def
    by (cases h) (simp_all only: up_stage sbind_def switch_release_def up_snap up_install Let_def prod.case sum.case option.case fst_conv
      if_True if_False option.distinct)
  then show ?thesis by (simp only: up_run)
qed

lemma up_result_cases: obtains m' where "self_update (up_env h) up_start = (if h then Inr 0 else Inr 1, m')"
  using up_result [of h] by (metis prod.collapse)

lemma up_changes:
  assumes "self_update (up_env True) up_start = (r, m')"
  shows "m' \<noteq> prune_old_releases (up_env True) ''before'' up_start"
proof -
  have "link_name (mc_disk up_start) (current_link (up_env True)) = Some ''5.0.0''" by code_simp
  moreover have "releases_dir (up_env True) @ [''5.1.0'' @ ''.staging-'' @ show_nat (ue_time (up_env True) ''staging'')] = up_staging"
    "releases_dir (up_env True) @ [''5.1.0''] = [''opt'', ''jen'', ''releases'', ''5.1.0'']" by code_simp+
  moreover define n where "n = prune_old_releases (up_env True) ''after'' (rmtree_quiet (up_env True) (snapshot_dir (up_env True)) up_switched)"
  ultimately have "m' = (if is_folder (mc_disk n) up_staging then rmtree_quiet (up_env True) up_staging n else n)"
    using assms unfolding up_run apply_update_def Let_def
    by (simp only: up_stage sbind_def switch_release_def up_snap up_install Let_def prod.case sum.case option.case fst_conv snd_conv
      if_True option.distinct if_False prod.inject n_def simp_thms)
  then have "mc_served m' = mc_served up_switched"
    using same_service_prune [of "rmtree_quiet (up_env True) (snapshot_dir (up_env True)) up_switched" "up_env True" "''after''"]
    by (simp add: n_def same_service_def rmtree_quiet_def on_disk_def)
  moreover have "mc_served up_switched \<noteq> mc_served up_start" by code_simp
  ultimately show ?thesis using up_pruned [of True] by auto
qed

lemma up_running: "running_release (up_env h) ''5.0.0'' up_start" by code_simp

lemma up_relative: "relative_members (up_env h) t" by code_simp

theorem failed_update_keeps_previous_witness:
  "\<exists>m'. self_update (up_env False) up_start = (Inr 1, m') \<and>
     dget (mc_disk m') [''opt'', ''jen'', ''current''] = Some (Symlink [''opt'', ''jen'', ''releases'', ''5.0.0'']) \<and>
     dget (mc_disk m') [''etc'', ''sudoers.d'', ''jen''] = Some (File ''old'')"
proof -
  obtain m' where run: "self_update (up_env False) up_start = (Inr 1, m')" using up_result_cases [of False] by auto
  have ok: "\<not> ue_fails (up_env False) (''switch-back'' @ c) p" for c p by (simp add: up_env_def)
  have ne: "Inr 1 \<noteq> (Inr 0 :: upd_exc + nat)" by simp
  have places: "current_link (up_env False) = [''opt'', ''jen'', ''current'']"
    "releases_dir (up_env False) @ [''5.0.0''] = [''opt'', ''jen'', ''releases'', ''5.0.0'']" by code_simp+
  have "dget (mc_disk up_start) [''etc'', ''sudoers.d'', ''jen''] = Some (File ''old'')" by code_simp
  moreover have "[''etc'', ''sudoers.d'', ''jen''] \<in> set lives" by (simp add: lives_eq)
  ultimately show ?thesis
    using failed_update_keeps_previous [OF up_running up_relative ok run ne] run unfolding places by blast
qed


theorem update_confirmed_witness:
  "\<exists>m' version. self_update (up_env True) up_start = (Inr 0, m') \<and>
     dget (mc_disk m') (current_link (up_env True)) = Some (Symlink (releases_dir (up_env True) @ [version]))"
proof -
  obtain m' where run: "self_update (up_env True) up_start = (Inr 0, m')" using up_result_cases [of True] by auto
  from update_confirmed [OF run up_changes [OF run]] run show ?thesis by blast
qed

section \<open>What goes wrong with an archive that is not relative\<close>

text \<open>
  The filter of the archive looks for a leading slash before it takes off \<open>jen/\<close>: a member named with two slashes
  is accepted and is written to an absolute path.
\<close>

lemma double_slash_escapes:
  "accepted_member (''jen//etc/cron.d/x'', Regular, c) \<and>
   member_path dest (drop 4 ''jen//etc/cron.d/x'') = [''etc'', ''cron.d'', ''x'']"
  by code_simp

end
