(* ===== verification/Spec2Isabelle.thy ===== *)
theory Spec2Isabelle
  imports SubnetOps Pools OptionEdit ClassEdit ClassProps ExplainProps OptionProps SocketEdit InvestigationEdit DoctorProps IdentifierProps ChangeProps MaintenanceProps IncidentProps LoginProps AccessProps SessionProps ApiKeys AlertProps LeaseDiffProps SecondFactor ImportProps IscProps ImportRunProps IpamEditProps UpdaterProps
begin

text \<open>
  Verification of the decision core of Jen, a web front end of the Kea DHCP server (Python, Flask).

  \<^bold>\<open>The program.\<close> Jen reads and rewrites the configuration of one or more Kea servers, either over Kea's
  control channel or over SSH with a small root helper on the Kea host; it reads Kea's lease and host tables and
  keeps its own tables (users, API keys, audit, alert state, incidents, devices, plugin data). A request of a
  route passes the session, role and scope checks, turns a form into an edit of the JSON configuration, and hands
  the edited configurations to a change set that writes all servers or none. Background jobs judge alert
  conditions, keep the device inventory and watch for conflicts. Imports turn the configuration of another DHCP
  server into edits of the same kind. A separate root script updates Jen itself.

  \<^bold>\<open>Shared theories.\<close> \<open>Prelude\<close> (exceptions as values, the result type, \<open>rbind\<close>, stable sorting, the locales
  \<open>sort_order\<close> and \<open>editor\<close>), \<open>Json\<close> (Python's view of a parsed document, paths into it and the locale \<open>store\<close>),
  \<open>PyStr\<close>, \<open>PyConv\<close>, \<open>PyIp\<close> (strings, conversions, IPv4 addresses and networks), \<open>RateLimit\<close> (the locale
  \<open>window_limit\<close>: at most so many events in any window), \<open>FileTree\<close> (paths, files, directories and links).
  A dict is an association list in insertion order, a Python string its UTF-8 bytes, an exception its class; an
  address is a natural number below \<open>2 ^ 32\<close> and every bound on it is stated.

  \<^bold>\<open>Editing a configuration\<close> (\<open>src/jen/services/kea_config_edit.py\<close>, \<open>kea_config_view.py\<close>, \<open>pools.py\<close>,
  \<open>dhcp_options.py\<close>, \<open>kea_classes.py\<close>, \<open>dhcp_explain.py\<close>). \<open>ConfigView\<close> walks the subnets, \<open>SubnetEdit\<close>,
  \<open>OptionEdit\<close>, \<open>ClassEdit\<close>, \<open>SocketEdit\<close> and \<open>InvestigationEdit\<close> hold one definition per edit with its checks
  and codes. \<open>SubnetLayout\<close>, \<open>SubnetLaws\<close> and \<open>SubnetOps\<close> refine the subnet edits to list updates of a layout and
  prove that any sequence of them keeps identifiers unique; \<open>OptionProps\<close> compares the effective options with a
  reference by precedence; \<open>Pools\<close> shows that the ranges of a subnet are disjoint, sorted and count what they
  cover. \<open>ClassRules\<close>, \<open>ClassExpr\<close> and \<open>ClassProps\<close> prove that what the rule builder writes the parser of class
  expressions reads back and decides as built. \<open>Explain\<close> and \<open>ExplainProps\<close> treat the answer to \<open>why did this
  client get this address\<close>, \<open>KeaReadiness\<close>, \<open>ConfigDoctor\<close> and \<open>DoctorProps\<close> the health checks of a
  configuration (\<open>config_doctor.py\<close>, \<open>kea_readiness.py\<close>).

  \<^bold>\<open>Writing to several servers\<close> (\<open>kea_changeset.py\<close>, \<open>kea_api_config.py\<close>, \<open>kea_host.py\<close>, \<open>jen-kea-helper\<close>).
  \<open>ChangeSet\<close> is the five phases of a change with its putting back; the promises of the hosts are the locale
  \<open>change_hosts\<close> of \<open>ChangeSetProps\<close>, and \<open>HelperHost\<close> models the helper and discharges them, so that
  \<open>ChangeProps\<close> speaks about the program. \<open>Incidents\<close> and \<open>IncidentProps\<close> are the note of what is unresolved;
  \<open>Identifiers\<close> and \<open>IdentifierProps\<close> the repair of damaged host identifiers (\<open>kea_identifiers.py\<close>);
  \<open>Maintenance\<close> and \<open>MaintenanceProps\<close> the status of a pair of servers and the flow of a planned maintenance
  (\<open>kea_ha.py\<close>, \<open>ha_maintenance.py\<close>, \<open>routes/servers.py\<close>) as a step relation.

  \<^bold>\<open>Who may do what\<close> (\<open>auth.py\<close>, \<open>routes/auth.py\<close>, \<open>models/user.py\<close>, \<open>access.py\<close>, \<open>session_timeout.py\<close>,
  \<open>api_auth.py\<close>, \<open>mfa.py\<close>). \<open>Login\<close> and \<open>LoginProps\<close> bound the guesses of passwords and codes, \<open>Access\<close> and
  \<open>AccessProps\<close> show that data of hidden subnets is filtered, \<open>Session\<close> and \<open>SessionProps\<close> when a session ends,
  \<open>ApiKeys\<close> the gate and the rate of API writes, \<open>SecondFactor\<close> that backup codes work once.

  \<^bold>\<open>Background jobs\<close> (\<open>alerts.py\<close>). \<open>Alerts\<close> and \<open>AlertProps\<close>: warnings and recoveries alternate and a warning
  that was not delivered is tried again; \<open>LeaseDiff\<close> and \<open>LeaseDiffProps\<close>: what the comparison of two lists of
  leases accounts for and what the sweep counts when rows fail.

  \<^bold>\<open>Imports\<close> (\<open>win_dhcp_import.py\<close>, \<open>isc_dhcp_import.py\<close>). \<open>ImportPlan\<close> and \<open>ImportProps\<close> turn one scope into a
  subnet whose pools are exactly the ranges less the exclusions; \<open>ImportRun\<close> and \<open>ImportRunProps\<close> apply a plan
  and show that what was in the configuration stays. \<open>IscSyntax\<close> (tokens and statements, with a round trip),
  \<open>IscMatch\<close>, \<open>IscImport\<close> and \<open>IscScopes\<close> read a \<open>dhcpd.conf\<close>, \<open>IscProps\<close> shows which addresses end up in pools.

  \<^bold>\<open>The IPAM plugin\<close> (\<open>plugins/ipam/plugin.py\<close>). \<open>Ipam\<close> and \<open>IpamProps\<close>: the lazy page and the counts of the
  overview equal the address space built host by host; \<open>IpamEdit\<close> and \<open>IpamEditProps\<close>: every request that writes,
  as a step relation, with the invariants of the tables.

  \<^bold>\<open>The root updater\<close> (\<open>jen-update-root.py\<close>). \<open>Releases\<close> (versions, the release of a channel, the checksum
  file), \<open>Updater\<close> (staging, snapshot, switch of the link \<open>current\<close>, rollback and pruning over a file system whose
  calls may fail) and \<open>UpdaterProps\<close> (nothing unsigned or older, a failed run keeps the previous release, success
  is confirmed by the running process).

  \<^bold>\<open>Bounds and fuel.\<close> Only the parser of class expressions runs on fuel, computed from its tokens;
  \<open>parse_fuel_enough\<close> shows that it never runs out. All other recursion is structural or has a termination proof
  by a length (\<open>evict\<close>, \<open>collapse_loop\<close>, \<open>replace_all\<close>, the readers of \<open>dhcpd.conf\<close>). Bounds of the code keep their
  values: five tries of the version check, 1024 addresses of a range action, 2000 imported rows, 60 API writes a
  minute, 20 notes of incidents, a day for a staging directory.

  \<^bold>\<open>Parameters.\<close> What is not under \<open>src/\<close> is an argument: the network, Kea's answers, hashes and signatures
  (\<open>ssh-keygen\<close>), TOTP, bcrypt, random numbers, the clock, SQL engines (a table is a list, a statement a filter
  or an update), \<open>systemctl\<close>, \<open>visudo\<close>, \<open>pip\<close>, and which calls of the file system fail.

  \<^bold>\<open>Not modelled.\<close> The HTML routes and templates beyond the requests named above, because they read and print;
  the database models and migrations, which are SQL text; \<open>kea_tls.py\<close> and \<open>health.py\<close>, which mostly drive
  \<open>openssl\<close>, sockets and commands and report what these say; the sweep of \<open>investigation_logging.py\<close> and the
  export and import of the database (\<open>dbexport.py\<close>), whose logic is tied to the transactions of the database
  engine; the checks of the layout file, the plugin installer and the command line modes of the updater;
  \<open>install.sh\<close>, which is not Python; the plugins other than IPAM; the support bundle, the metrics exporter and the
  notification transports. Concurrency is modelled as interleaved steps where the code takes locks or re-reads
  (change sets, login attempts, the maintenance flow) and nowhere below the level of one request.
\<close>

end
